(* ===== verification/Prelude.thy ===== *)
theory Prelude
  imports Main "HOL-Library.Multiset"
begin

text \<open>
  The base of the library: the model's number types, Rust's fixed-width arithmetic on \<open>nat\<close>,
  the outcome of a fallible state-changing function, \<open>BTreeMap\<close> as a key-ordered association
  list, and the lemma collections that the component theories share.

  Release builds of the runtime do not enable overflow checks (\<open>Cargo.toml\<close> sets no
  \<open>overflow-checks\<close>), so plain \<open>+\<close> and \<open>-\<close> wrap at the width of the type while the
  \<open>saturating_\<close> operations clamp; both are written out here on \<open>nat\<close>.
\<close>

named_theorems arith_model "unfolding fixed-width arithmetic where no overflow occurs"
named_theorems outcome_model "inversion of outcomes"

type_synonym acct = nat
type_synonym balance = nat
type_synonym perbill = nat
type_synonym round_index = nat
type_synonym session_index = nat
type_synonym block_number = nat

subsection \<open>Fixed-width arithmetic\<close>

definition M32 :: nat where "M32 = 2 ^ 32"
definition M128 :: nat where "M128 = 2 ^ 128"

definition as_u32 :: "nat \<Rightarrow> nat" where "as_u32 n = n mod M32"

definition add32 :: "nat \<Rightarrow> nat \<Rightarrow> nat" where "add32 a b = (a + b) mod M32"
definition sub32 :: "nat \<Rightarrow> nat \<Rightarrow> nat" where "sub32 a b = (a + M32 - b) mod M32"
definition add128 :: "nat \<Rightarrow> nat \<Rightarrow> nat" where "add128 a b = (a + b) mod M128"
definition sub128 :: "nat \<Rightarrow> nat \<Rightarrow> nat" where "sub128 a b = (a + M128 - b) mod M128"

definition sat_add128 :: "nat \<Rightarrow> nat \<Rightarrow> nat" where "sat_add128 a b = min (a + b) (M128 - 1)"
definition sat_add32 :: "nat \<Rightarrow> nat \<Rightarrow> nat" where "sat_add32 a b = min (a + b) (M32 - 1)"

text \<open>\<open>saturating_sub\<close> is truncated subtraction, at every width.\<close>

abbreviation (input) sat_sub :: "nat \<Rightarrow> nat \<Rightarrow> nat" where "sat_sub a b \<equiv> a - b"

lemma M32_pos [simp]: "0 < M32" by (simp add: M32_def)
lemma M128_pos [simp]: "0 < M128" by (simp add: M128_def)

lemma as_u32_id [arith_model]: "n < M32 \<Longrightarrow> as_u32 n = n"
  by (simp add: as_u32_def)

lemma add32_id [arith_model]: "a + b < M32 \<Longrightarrow> add32 a b = a + b"
  by (simp add: add32_def)

lemma add128_id [arith_model]: "a + b < M128 \<Longrightarrow> add128 a b = a + b"
  by (simp add: add128_def)

lemma sub128_id [arith_model]: "b \<le> a \<Longrightarrow> a < M128 \<Longrightarrow> sub128 a b = a - b"
  by (metis (no_types, lifting) Nat.add_diff_assoc2 add.commute le_add_diff_inverse
      less_imp_diff_less mod_add_self2 mod_less sub128_def)

lemma sub32_id [arith_model]: "b \<le> a \<Longrightarrow> a < M32 \<Longrightarrow> sub32 a b = a - b"
  by (metis (no_types, lifting) Nat.add_diff_assoc2 add.commute le_add_diff_inverse
      less_imp_diff_less mod_add_self2 mod_less sub32_def)

lemma sub128_wraps: "a < b \<Longrightarrow> b \<le> M128 \<Longrightarrow> sub128 a b = M128 - (b - a)"
  by (simp add: sub128_def)

lemma sub32_add32: "r < M32 \<Longrightarrow> sub32 (add32 r 1) 1 = r"
  by (cases "r = M32 - 1") (auto simp: sub32_def add32_def M32_def)

lemma sat_add128_id [arith_model]: "a + b < M128 \<Longrightarrow> sat_add128 a b = a + b"
  by (simp add: sat_add128_def)

lemma sat_add32_id [arith_model]: "a + b < M32 \<Longrightarrow> sat_add32 a b = a + b"
  by (simp add: sat_add32_def)

lemma sat_add128_bound: "sat_add128 a b < M128"
  using M128_pos unfolding sat_add128_def by linarith

lemma sat_add128_ge: "a < M128 \<Longrightarrow> a \<le> sat_add128 a b"
  by (simp add: sat_add128_def)

lemma add32_bound: "add32 a b < M32"
  by (simp add: add32_def)

lemma add128_bound: "add128 a b < M128"
  by (simp add: add128_def)

subsection \<open>Origins and dispatch errors\<close>

datatype origin = Root | Signed acct | NoOrigin

subsection \<open>Outcomes\<close>

text \<open>
  What a fallible function that changes storage returns. \<open>Fail\<close> keeps the storage as it was when
  the error was raised: a caller that inspects the error instead of propagating it continues from
  there. \<open>Panic\<close> is a failed \<open>expect\<close>.
\<close>

datatype ('s, 'e, 'a) outcome = Done 'a 's | Fail 'e 's | Panic

definition bind_outcome ::
  "('s, 'e, 'a) outcome \<Rightarrow> ('a \<Rightarrow> 's \<Rightarrow> ('s, 'e, 'b) outcome) \<Rightarrow> ('s, 'e, 'b) outcome" where
  "bind_outcome m f = (case m of Done a s \<Rightarrow> f a s | Fail e s \<Rightarrow> Fail e s | Panic \<Rightarrow> Panic)"

lemma bind_outcome_simps [simp]:
  "bind_outcome (Done a s) f = f a s"
  "bind_outcome (Fail e s) f = Fail e s"
  "bind_outcome Panic f = Panic"
  by (simp_all add: bind_outcome_def)

lemma bind_outcome_Done [outcome_model]:
  "bind_outcome m f = Done b s' \<longleftrightarrow> (\<exists>a s. m = Done a s \<and> f a s = Done b s')"
  by (cases m) auto

lemma bind_outcome_cong [fundef_cong]:
  "m = m' \<Longrightarrow> (\<And>a s. m' = Done a s \<Longrightarrow> f a s = g a s) \<Longrightarrow> bind_outcome m f = bind_outcome m' g"
  by (cases m') auto

text \<open>A condition that holds of the state in every outcome that has one.\<close>

definition outcome_all :: "('s \<Rightarrow> bool) \<Rightarrow> ('s, 'e, 'a) outcome \<Rightarrow> bool" where
  "outcome_all P r = (case r of Done a s \<Rightarrow> P s | Fail e s \<Rightarrow> P s | Panic \<Rightarrow> True)"

text \<open>The value and state of a successful outcome.\<close>

fun outcome_state :: "('s, 'e, 'a) outcome \<Rightarrow> 's option" where
  "outcome_state (Done a s) = Some s"
| "outcome_state _ = None"

text \<open>A dispatched call: an error rolls the storage back, a panic is \<open>None\<close>.\<close>

definition settle :: "'s \<Rightarrow> ('s, 'e, 'a) outcome \<Rightarrow> 's option" where
  "settle s r = (case r of Done _ s' \<Rightarrow> Some s' | Fail _ _ \<Rightarrow> Some s | Panic \<Rightarrow> None)"

lemma settle_Some:
  "settle s r = Some s' \<longleftrightarrow> (\<exists>u. r = Done u s') \<or> (\<exists>e s1. r = Fail e s1 \<and> s' = s)"
  by (auto simp: settle_def split: outcome.splits)

subsection \<open>Guards\<close>

text \<open>\<open>ensure!\<close>, \<open>ok_or(e)?\<close> and \<open>expect\<close>: a value whose absence is an error, or a panic.\<close>

definition ensure :: "bool \<Rightarrow> 'e \<Rightarrow> 's \<Rightarrow> ('s, 'e, 'a) outcome \<Rightarrow> ('s, 'e, 'a) outcome" where
  "ensure b e s k = (if b then k else Fail e s)"

definition ok_or ::
  "'b option \<Rightarrow> 'e \<Rightarrow> 's \<Rightarrow> ('b \<Rightarrow> ('s, 'e, 'a) outcome) \<Rightarrow> ('s, 'e, 'a) outcome" where
  "ok_or v e s k = (case v of Some x \<Rightarrow> k x | None \<Rightarrow> Fail e s)"

definition expect :: "'b option \<Rightarrow> ('b \<Rightarrow> ('s, 'e, 'a) outcome) \<Rightarrow> ('s, 'e, 'a) outcome" where
  "expect v k = (case v of Some x \<Rightarrow> k x | None \<Rightarrow> Panic)"

lemma ensure_Done: "ensure b e s k = Done u s' \<longleftrightarrow> b \<and> k = Done u s'"
  by (simp add: ensure_def)

lemma ok_or_Done: "ok_or v e s k = Done u s' \<longleftrightarrow> (\<exists>x. v = Some x \<and> k x = Done u s')"
  by (cases v) (simp_all add: ok_or_def)

lemma expect_Done: "expect v k = Done u s' \<longleftrightarrow> (\<exists>x. v = Some x \<and> k x = Done u s')"
  by (cases v) (simp_all add: expect_def)

lemma ensure_Panic: "ensure b e s k = Panic \<longleftrightarrow> b \<and> k = Panic"
  by (simp add: ensure_def)

lemma ok_or_Panic: "ok_or v e s k = Panic \<longleftrightarrow> (\<exists>x. v = Some x \<and> k x = Panic)"
  by (cases v) (simp_all add: ok_or_def)

lemma expect_Panic: "expect v k = Panic \<longleftrightarrow> v = None \<or> (\<exists>x. v = Some x \<and> k x = Panic)"
  by (cases v) (simp_all add: expect_def)

lemma bind_outcome_Panic: "bind_outcome m f = Panic \<longleftrightarrow> m = Panic \<or> (\<exists>a s. m = Done a s \<and> f a s = Panic)"
  by (cases m) auto

lemmas guard_Done = ensure_Done ok_or_Done expect_Done bind_outcome_Done
lemmas guard_Panic = ensure_Panic ok_or_Panic expect_Panic bind_outcome_Panic

subsection \<open>BTreeMap\<close>

type_synonym ('k, 'v) btmap = "('k \<times> 'v) list"

abbreviation bt_get :: "('k, 'v) btmap \<Rightarrow> 'k \<Rightarrow> 'v option" where "bt_get m \<equiv> map_of m"

fun bt_insert :: "'k::linorder \<Rightarrow> 'v \<Rightarrow> ('k, 'v) btmap \<Rightarrow> ('k, 'v) btmap" where
  "bt_insert k v [] = [(k, v)]"
| "bt_insert k v ((k', v') # m) =
     (if k < k' then (k, v) # (k', v') # m
      else if k = k' then (k, v) # m
      else (k', v') # bt_insert k v m)"

definition bt_remove :: "'k \<Rightarrow> ('k, 'v) btmap \<Rightarrow> ('k, 'v) btmap" where
  "bt_remove k m = filter (\<lambda>p. fst p \<noteq> k) m"

definition bt_contains :: "'k \<Rightarrow> ('k, 'v) btmap \<Rightarrow> bool" where
  "bt_contains k m = (bt_get m k \<noteq> None)"

text \<open>\<open>BTreeMap::pop_first\<close> removes the entry with the smallest key.\<close>

definition bt_pop_first :: "('k, 'v) btmap \<Rightarrow> ('k, 'v) btmap" where
  "bt_pop_first m = tl m"

abbreviation bt_wf :: "('k::linorder, 'v) btmap \<Rightarrow> bool" where
  "bt_wf m \<equiv> sorted_wrt (<) (map fst m)"

lemma bt_get_insert [simp]: "bt_get (bt_insert k v m) = (bt_get m)(k \<mapsto> v)"
  by (induction m) (auto simp: fun_eq_iff)

lemma bt_get_remove [simp]: "bt_get (bt_remove k m) = (bt_get m)(k := None)"
  by (induction m) (auto simp: bt_remove_def fun_eq_iff)

lemma bt_keys_insert: "fst ` set (bt_insert k v m) = insert k (fst ` set m)"
  by (induction k v m rule: bt_insert.induct) (auto simp: insert_commute)

lemma bt_wf_insert [simp]: "bt_wf m \<Longrightarrow> bt_wf (bt_insert k v m)"
proof (induction m)
  case (Cons p m)
  then show ?case
    using bt_keys_insert [of k v m] by (cases p) (auto simp: image_iff Ball_def)
qed simp

lemma bt_wf_remove [simp]: "bt_wf m \<Longrightarrow> bt_wf (bt_remove k m)"
  by (induction m) (auto simp: bt_remove_def)

lemma bt_wf_tl [simp]: "bt_wf m \<Longrightarrow> bt_wf (tl m)"
  by (cases m) auto

lemma bt_wf_filter: "bt_wf m \<Longrightarrow> bt_wf (filter P m)"
  by (induction m) auto

lemma bt_wf_distinct: "bt_wf m \<Longrightarrow> distinct (map fst m)"
  using strict_sorted_iff by blast

lemma length_keys: "bt_wf m \<Longrightarrow> length m = card (fst ` set m)"
  by (metis bt_wf_distinct distinct_card length_map set_map)

lemma bt_wf_get_iff: "bt_wf m \<Longrightarrow> (k, v) \<in> set m \<longleftrightarrow> bt_get m k = Some v"
  by (simp add: bt_wf_distinct)

lemma bt_length_insert:
  "bt_wf m \<Longrightarrow> length (bt_insert k v m) = (if bt_get m k = None then Suc (length m) else length m)"
proof (induction m)
  case (Cons p m)
  obtain k' v' where p: "p = (k', v')" by (cases p)
  show ?case
  proof (cases "k < k'")
    case True
    moreover have "bt_get m k = None"
      using Cons.prems True by (auto simp: p map_of_eq_None_iff)
    ultimately show ?thesis by (simp add: p)
  next
    case False
    then show ?thesis using Cons by (auto simp: p)
  qed
qed simp

text \<open>Counting the entries of a map that satisfy a predicate.\<close>

definition bt_count :: "('k \<times> 'v \<Rightarrow> bool) \<Rightarrow> ('k, 'v) btmap \<Rightarrow> nat" where
  "bt_count P m = length (filter P m)"

lemma bt_count_insert_new:
  "bt_get m k = None \<Longrightarrow> bt_count P (bt_insert k v m) = bt_count P m + of_bool (P (k, v))"
  by (induction m) (auto simp: bt_count_def split: if_splits)

lemma bt_count_insert_old:
  "bt_wf m \<Longrightarrow> bt_get m k = Some v0 \<Longrightarrow>
   bt_count P (bt_insert k v m) + of_bool (P (k, v0)) = bt_count P m + of_bool (P (k, v))"
proof (induction m)
  case (Cons e m)
  obtain k' v' where e: "e = (k', v')" by (cases e)
  show ?case
  proof (cases "k = k'")
    case True
    with Cons.prems show ?thesis by (simp add: e bt_count_def)
  next
    case False
    with Cons.prems have "bt_get m k = Some v0" by (simp add: e)
    moreover from this have "k' < k" using Cons.prems(1) map_of_SomeD [of m k v0] by (force simp: e)
    ultimately show ?thesis using Cons False by (auto simp: e bt_count_def)
  qed
qed simp

subsection \<open>Bounded vectors and voting majorities\<close>

text \<open>\<open>MAX_AUTHORITIES\<close>: the bound of every validator and relayer collection.\<close>

definition MAX_AUTHORITIES :: nat where "MAX_AUTHORITIES = 1000"

text \<open>\<open>BoundedVec::try_push\<close> and \<open>BoundedBTreeMap::try_insert\<close>.\<close>

definition try_push :: "'a list \<Rightarrow> 'a \<Rightarrow> 'a list option" where
  "try_push xs x = (if length xs < MAX_AUTHORITIES then Some (xs @ [x]) else None)"

definition bt_try_insert ::
  "'k::linorder \<Rightarrow> 'v \<Rightarrow> ('k, 'v) btmap \<Rightarrow> ('k, 'v) btmap option" where
  "bt_try_insert k v m =
     (if length m < MAX_AUTHORITIES \<or> bt_contains k m then Some (bt_insert k v m) else None)"

lemma try_push_Some: "try_push xs x = Some ys \<Longrightarrow> ys = xs @ [x] \<and> length ys \<le> MAX_AUTHORITIES"
  by (auto simp: try_push_def split: if_splits)

lemma bt_try_insert_Some: "bt_try_insert k v m = Some m' \<Longrightarrow> m' = bt_insert k v m"
  by (auto simp: bt_try_insert_def split: if_splits)

end
