(* ===== verification/Staking_Types.thy ===== *)
theory Staking_Types
  imports Prelude
begin

text \<open>
  The data of the staking pallet: the primitive types of \<open>primitives/bfc-staking\<close>, the enums and
  structs of \<open>pallets/bfc-staking/src/lib.rs\<close> and \<open>inflation.rs\<close>, and the errors and events of
  \<open>pallet/mod.rs\<close>. Field names carry a short prefix of their struct, since record selectors share
  one name space.
\<close>

subsection \<open>Primitives\<close>

datatype TierType = Full | Basic | All

record Offence =
  of_round_index :: round_index
  of_session_index :: session_index
  of_self_bond :: balance
  of_total_slash :: balance
  of_offender_slash :: balance
  of_nominators_slash :: balance
  of_slash_fraction :: perbill

definition Offence_new ::
  "round_index \<Rightarrow> session_index \<Rightarrow> balance \<Rightarrow> balance \<Rightarrow> balance \<Rightarrow> balance \<Rightarrow> perbill \<Rightarrow> Offence" where
  "Offence_new r i sb t os ns f =
     \<lparr>of_round_index = r, of_session_index = i, of_self_bond = sb, of_total_slash = t,
      of_offender_slash = os, of_nominators_slash = ns, of_slash_fraction = f\<rparr>"

subsection \<open>Bonds, snapshots and requests\<close>

record Bond =
  owner :: acct
  amount :: balance

datatype ValidatorStatus = VActive | VIdle | VKickedOut | VLeaving round_index

record ValidatorSnapshot =
  vs_bond :: balance
  vs_nominations :: "Bond list"
  vs_total :: balance

definition ValidatorSnapshot_default :: ValidatorSnapshot where
  "ValidatorSnapshot_default = \<lparr>vs_bond = 0, vs_nominations = [], vs_total = 0\<rparr>"

record TotalSnapshot =
  total_self_bond :: balance
  active_self_bond :: balance
  total_nominations :: balance
  total_top_nominations :: balance
  total_bottom_nominations :: balance
  active_nominations :: balance
  active_top_nominations :: balance
  active_bottom_nominations :: balance
  total_nominators :: nat
  total_top_nominators :: nat
  total_bottom_nominators :: nat
  active_nominators :: nat
  active_top_nominators :: nat
  active_bottom_nominators :: nat
  total_stake :: balance
  active_stake :: balance
  total_voting_power :: balance
  active_voting_power :: balance

definition TotalSnapshot_default :: TotalSnapshot where
  "TotalSnapshot_default =
     \<lparr>total_self_bond = 0, active_self_bond = 0, total_nominations = 0,
      total_top_nominations = 0, total_bottom_nominations = 0, active_nominations = 0,
      active_top_nominations = 0, active_bottom_nominations = 0, total_nominators = 0,
      total_top_nominators = 0, total_bottom_nominators = 0, active_nominators = 0,
      active_top_nominators = 0, active_bottom_nominators = 0, total_stake = 0,
      active_stake = 0, total_voting_power = 0, active_voting_power = 0\<rparr>"

datatype RewardDestination = DstStaked | DstAccount

record DelayedControllerSet =
  dc_stash :: acct
  dc_old :: acct
  dc_new :: acct

record DelayedCommissionSet =
  dm_who :: acct
  dm_old :: perbill
  dm_new :: perbill

record DelayedPayout =
  dp_round_issuance :: balance
  dp_total_staking_reward :: balance
  dp_validator_commission :: perbill

record CandidateBondLessRequest =
  cr_amount :: balance
  cr_when_executable :: round_index

record Nominations =
  nominations :: "Bond list"
  noms_total :: balance

definition Nominations_default :: Nominations where
  "Nominations_default = \<lparr>nominations = [], noms_total = 0\<rparr>"

datatype CapacityStatus = CapFull | CapEmpty | CapPartial

datatype ProductivityStatus = PActive | PIdle | PReady

record CandidateMetadata =
  stash :: acct
  bond :: balance
  initial_bond :: balance
  nomination_count :: nat
  voting_power :: balance
  lowest_top_nomination_amount :: balance
  highest_bottom_nomination_amount :: balance
  lowest_bottom_nomination_amount :: balance
  top_capacity :: CapacityStatus
  bottom_capacity :: CapacityStatus
  request :: "CandidateBondLessRequest option"
  status :: ValidatorStatus
  is_selected :: bool
  commission :: perbill
  last_block :: block_number
  blocks_produced :: nat
  productivity :: perbill
  productivity_status :: ProductivityStatus
  reward_dst :: RewardDestination
  awarded_tokens :: balance
  tier :: TierType

datatype NominatorAdded = AddedToTop balance | AddedToBottom

datatype NominatorStatus = NActive | NLeaving round_index

datatype NominationChange = Revoke | Decrease

record NominationRequest =
  nq_validator :: acct
  nq_amount :: balance
  nq_when_executable :: round_index
  nq_action :: NominationChange

record PendingNominationRequests =
  revocations_count :: nat
  requests :: "(acct, NominationRequest) btmap"
  less_total :: balance

definition PendingNominationRequests_new :: PendingNominationRequests where
  "PendingNominationRequests_new = \<lparr>revocations_count = 0, requests = [], less_total = 0\<rparr>"

record Nominator =
  nr_id :: acct
  nr_nominations :: "(acct, balance) btmap"
  nr_initial_nominations :: "(acct, balance) btmap"
  nr_total :: balance
  nr_requests :: PendingNominationRequests
  nr_status :: NominatorStatus
  nr_reward_dst :: RewardDestination
  nr_awarded_tokens :: balance
  nr_awarded_tokens_per_candidate :: "(acct, balance) btmap"

record RoundInfo =
  current_round_index :: round_index
  first_session_index :: session_index
  current_session_index :: session_index
  first_round_block :: block_number
  first_session_block :: block_number
  current_block :: block_number
  round_length :: nat
  session_length :: nat

subsection \<open>Inflation\<close>

record Range =
  rg_min :: nat
  rg_ideal :: nat
  rg_max :: nat

definition Range_is_valid :: "Range \<Rightarrow> bool" where
  "Range_is_valid r = (rg_ideal r \<le> rg_max r \<and> rg_min r \<le> rg_ideal r)"

definition Range_from :: "nat \<Rightarrow> Range" where
  "Range_from x = \<lparr>rg_min = x, rg_ideal = x, rg_max = x\<rparr>"

record InflationInfo =
  inf_expect :: Range
  inf_annual :: Range
  inf_round :: Range

subsection \<open>Errors\<close>

datatype staking_error =
    NominatorDNE | CandidateDNE | StashDNE | NominationDNE | TopNominationDNE
  | BottomNominationDNE | CommissionSetDNE | ControllerSetDNE | NominatorExists
  | CandidateExists | CandidateBondBelowMin | InsufficientBalance | NominatorBondBelowMin
  | NominationBelowMin | AlreadyOffline | AlreadyActive | AlreadyBonded | AlreadyPaired
  | NominatorAlreadyLeaving | NominatorNotLeaving | NominatorCannotLeaveYet
  | CannotNominateIfLeaving | CandidateAlreadyLeaving | CandidateNotLeaving
  | CandidateCannotLeaveYet | CannotGoOnlineIfLeaving | CannotLeaveIfOffline
  | CannotLeaveIfControllerSetRequested | CannotLeaveIfCommissionSetRequested
  | ExceedMaxNominationsPerNominator | AlreadyNominatedCandidate
  | AlreadyControllerSetRequested | AlreadyCommissionSetRequested | InvalidSchedule
  | InvalidTierType | CannotSetBelowMin | CannotSetBelowOne | CannotSetAboveMax
  | RoundLengthMustBeAtLeastTotalSelectedValidators
  | RoundLengthMustBeLongerThanCreatedBlocks | NoWritingSameValue | TooManyCandidates
  | TooManyDelayedControllers | TooManyDelayedCommissions
  | TooLowCandidateCountWeightHintJoinCandidates
  | TooLowCandidateCountWeightHintCancelLeaveCandidates
  | TooLowCandidateCountToLeaveCandidates | TooLowNominationCountToNominate
  | TooLowCandidateNominationCountToNominate
  | TooLowCandidateNominationCountToLeaveCandidates
  | TooLowNominationCountToLeaveNominators | PendingCandidateRequestsDNE
  | PendingCandidateRequestAlreadyExists | PendingCandidateRequestNotDueYet
  | PendingNominationRequestDNE | PendingNominationRequestAlreadyExists
  | PendingNominationRequestNotDueYet | CannotNominateLessThanLowestBottomWhenBottomIsFull

datatype relay_error =
    RelayerAlreadyJoined | RelayerAlreadyBonded | RelayerInactive | RelayerDNE | ControllerDNE
  | RelayerSetDNE | RelayNoWritingSameValue | RelayCannotSetBelowOne | TooManyRelayers
  | TooManySelectedRelayers | AlreadyRelayerSetRequested | TooManyDelayedRelayers

datatype offences_error = OffencesCannotSetBelowMin | OffencesNoWritingSameValue

text \<open>\<open>DispatchError\<close>: a bad origin, an error of the currency, or an error of one of the pallets.\<close>

datatype error =
    BadOrigin
  | CurrencyError
  | StakingError staking_error
  | RelayError relay_error
  | OffencesError offences_error

end
