(* ===== verification/Round_Cache.thy ===== *)
theory Round_Cache
  imports Prelude
begin

text \<open>
  Bounded sets of accounts and the caches of past rounds. The staking pallet and the relay manager
  each keep, per round, the selected set and its majority in a \<open>BTreeMap\<close> that evicts its oldest
  round when it has reached \<open>StorageCacheLifetime\<close>; the interface \<open>round_cache\<close> states that shared
  contract and what follows from it.
\<close>

subsection \<open>Sets of accounts\<close>

text \<open>\<open>BTreeSet\<close> values are maps to \<open>unit\<close>, as in Rust's own implementation.\<close>

type_synonym acct_set = "(acct, unit) btmap"

abbreviation set_contains :: "acct \<Rightarrow> acct_set \<Rightarrow> bool" where
  "set_contains a m \<equiv> bt_contains a m"

definition set_of_list :: "acct list \<Rightarrow> acct_set" where
  "set_of_list xs = foldl (\<lambda>m a. bt_insert a () m) [] xs"

text \<open>\<open>BoundedBTreeSet::try_from\<close>.\<close>

definition bounded_set :: "acct list \<Rightarrow> acct_set option" where
  "bounded_set xs = (let m = set_of_list xs in if length m \<le> MAX_AUTHORITIES then Some m else None)"

lemma bt_wf_foldl_insert: "bt_wf m \<Longrightarrow> bt_wf (foldl (\<lambda>m a. bt_insert a () m) m xs)"
  by (induction xs arbitrary: m) auto

lemma bt_wf_set_of_list [simp]: "bt_wf (set_of_list xs)"
  by (simp add: set_of_list_def bt_wf_foldl_insert)

lemma keys_foldl_insert:
  "fst ` set (foldl (\<lambda>m a. bt_insert a () m) m xs) = fst ` set m \<union> set xs"
  by (induction xs arbitrary: m) (auto simp: bt_keys_insert)

lemma keys_set_of_list: "fst ` set (set_of_list xs) = set xs"
  by (simp add: set_of_list_def keys_foldl_insert)

lemma bt_contains_iff: "bt_contains k m \<longleftrightarrow> k \<in> fst ` set m"
  by (auto simp: bt_contains_def map_of_eq_None_iff)

lemma set_contains_list [simp]: "set_contains a (set_of_list xs) \<longleftrightarrow> a \<in> set xs"
  by (simp add: bt_contains_iff keys_set_of_list)

lemma length_set_of_list: "distinct xs \<Longrightarrow> length (set_of_list xs) = length xs"
proof -
  assume d: "distinct xs"
  have "length (set_of_list xs) = card (fst ` set (set_of_list xs))"
    using bt_wf_distinct [OF bt_wf_set_of_list [of xs]]
    by (metis distinct_card length_map set_map)
  then show ?thesis using d by (simp add: keys_set_of_list distinct_card)
qed

lemma bt_contains_remove [simp]: "bt_contains k (bt_remove j m) \<longleftrightarrow> k \<noteq> j \<and> bt_contains k m"
  by (auto simp: bt_contains_def)

lemma bt_contains_insert [simp]: "bt_contains k (bt_insert j v m) \<longleftrightarrow> k = j \<or> bt_contains k m"
  by (auto simp: bt_contains_def)

subsection \<open>Caches\<close>

definition cache_insert ::
  "nat \<Rightarrow> round_index \<Rightarrow> 'v \<Rightarrow> (round_index, 'v) btmap \<Rightarrow> (round_index, 'v) btmap" where
  "cache_insert lifetime now v m =
     bt_insert now v (if lifetime \<le> as_u32 (length m) then bt_pop_first m else m)"

lemma cache_insert_wf: "bt_wf m \<Longrightarrow> bt_wf (cache_insert l r v m)"
  by (simp add: cache_insert_def bt_pop_first_def)

lemma cache_insert_get: "bt_get (cache_insert l r v m) r = Some v"
  by (simp add: cache_insert_def)

lemma bt_length_insert_le: "length (bt_insert k v m) \<le> Suc (length m)"
  by (induction k v m rule: bt_insert.induct) auto

lemma cache_insert_length:
  assumes "length m \<le> l" "0 < l" "l < M32"
  shows "length (cache_insert l r v m) \<le> l"
proof (cases "length m = l")
  case True
  then have "as_u32 (length m) = l" using assms by (simp add: as_u32_id)
  then show ?thesis
    using bt_length_insert_le [of r v "tl m"] True assms(2)
    by (simp add: cache_insert_def bt_pop_first_def)
next
  case False
  then have "as_u32 (length m) = length m" using assms by (simp add: as_u32_id)
  then show ?thesis
    using bt_length_insert_le [of r v m] False assms(1) by (simp add: cache_insert_def)
qed

lemma cache_insert_newer:
  assumes wf: "bt_wf m" and q: "q \<noteq> r" "bt_get m q = Some w" and p: "p < q" "bt_get m p \<noteq> None"
  shows "bt_get (cache_insert l r v m) q = Some w"
proof (cases m)
  case (Cons e m')
  have "fst e \<noteq> q"
  proof
    assume e: "fst e = q"
    have "p \<in> fst ` set m" using p(2) by (metis map_of_eq_None_iff)
    then show False using wf p(1) e Cons by auto
  qed
  then show ?thesis using q Cons by (cases e) (auto simp: cache_insert_def bt_pop_first_def)
qed (use q in simp)

text \<open>
  The contract of a cache with a lifetime: a refresh stores the value of the current round and
  removes at most the oldest one, and changes neither the lifetime nor, inside it, other rounds.
\<close>

locale round_cache =
  fixes cache :: "'s \<Rightarrow> (round_index, 'v) btmap"
    and lifetime :: "'s \<Rightarrow> nat"
    and refresh :: "round_index \<Rightarrow> 's \<Rightarrow> 's"
    and val :: "'s \<Rightarrow> 'v"
  assumes cache_refresh: "cache (refresh r s) = cache_insert (lifetime s) r (val s) (cache s)"
    and lifetime_refresh: "lifetime (refresh r s) = lifetime s"
begin

lemma lookup_refresh: "bt_get (cache (refresh r s)) r = Some (val s)"
  by (simp add: cache_refresh cache_insert_get)

lemma wf_refresh: "bt_wf (cache s) \<Longrightarrow> bt_wf (cache (refresh r s))"
  by (simp add: cache_refresh cache_insert_wf)

lemma bounded_refresh:
  "length (cache s) \<le> lifetime s \<Longrightarrow> 0 < lifetime s \<Longrightarrow> lifetime s < M32 \<Longrightarrow>
   length (cache (refresh r s)) \<le> lifetime (refresh r s)"
  by (simp add: cache_refresh lifetime_refresh cache_insert_length)

lemma keeps_newer:
  "bt_wf (cache s) \<Longrightarrow> q \<noteq> r \<Longrightarrow> bt_get (cache s) q = Some w \<Longrightarrow> p < q \<Longrightarrow>
   bt_get (cache s) p \<noteq> None \<Longrightarrow> bt_get (cache (refresh r s)) q = Some w"
  by (simp add: cache_refresh cache_insert_newer)

end

end
