(* ===== verification/Staking_State.thy ===== *)
theory Staking_State
  imports Staking_Types Round_Cache
begin

text \<open>
  The staking pallet's configuration trait, events and storage (\<open>pallet/mod.rs\<close>).

  Everything the pallet reaches outside its own storage lives in a state of type \<open>'w\<close> (the rest
  of the runtime: balances, the relay manager, the offences pallet, the session pallet), and is
  changed only through the operations of \<open>Config\<close>, the associated types of the Rust trait:
  \<open>T::Currency\<close>, \<open>T::RelayManager\<close>, \<open>T::OffenceHandler\<close>, the session pallet, and the \<open>Perbill\<close> and
  fixed-point arithmetic of the Substrate libraries. \<open>None\<close> as a result of such an operation is a
  panic inside it, except for \<open>reserve\<close> and \<open>deposit_into_existing\<close>, where it is the error.
  \<open>key_order\<close> is the position of an account's hashed key in the storage trie, which fixes the
  order in which a \<open>StorageMap\<close> is iterated.
\<close>

record 'w Config =
  \<comment> \<open>\<open>T::Currency\<close>\<close>
  can_reserve :: "acct \<Rightarrow> balance \<Rightarrow> 'w \<Rightarrow> bool"
  reserve :: "acct \<Rightarrow> balance \<Rightarrow> 'w \<Rightarrow> 'w option"
  unreserve :: "acct \<Rightarrow> balance \<Rightarrow> 'w \<Rightarrow> 'w"
  deposit_into_existing :: "acct \<Rightarrow> balance \<Rightarrow> 'w \<Rightarrow> ('w \<times> balance) option"
  free_balance :: "acct \<Rightarrow> 'w \<Rightarrow> balance"
  total_issuance :: "'w \<Rightarrow> balance"
  \<comment> \<open>\<open>T::MonetaryGovernanceOrigin\<close>\<close>
  monetary_governance_origin :: "origin \<Rightarrow> bool"
  \<comment> \<open>\<open>T::RelayManager\<close>\<close>
  RM_join_relayers :: "acct \<Rightarrow> acct \<Rightarrow> 'w \<Rightarrow> error + 'w"
  RM_refresh_round :: "round_index \<Rightarrow> 'w \<Rightarrow> 'w"
  RM_refresh_selected_relayers :: "round_index \<Rightarrow> acct list \<Rightarrow> 'w \<Rightarrow> 'w option"
  RM_refresh_majority :: "round_index \<Rightarrow> 'w \<Rightarrow> 'w"
  RM_replace_bonded_controller :: "acct \<Rightarrow> acct \<Rightarrow> 'w \<Rightarrow> 'w option"
  RM_leave_relayers :: "acct \<Rightarrow> 'w \<Rightarrow> 'w"
  RM_kickout_relayer :: "acct \<Rightarrow> 'w \<Rightarrow> 'w option"
  RM_handle_delayed_relayer_sets :: "round_index \<Rightarrow> 'w \<Rightarrow> 'w option"
  \<comment> \<open>\<open>T::OffenceHandler\<close>\<close>
  OH_try_handle_offence :: "acct \<Rightarrow> acct \<Rightarrow> TierType \<Rightarrow> Offence \<Rightarrow> 'w \<Rightarrow> (bool \<times> balance) \<times> 'w"
  OH_refresh_offences :: "session_index \<Rightarrow> 'w \<Rightarrow> 'w"
  \<comment> \<open>the session pallet\<close>
  session_validators :: "'w \<Rightarrow> acct list"
  has_session_keys :: "acct \<Rightarrow> 'w \<Rightarrow> bool"
  \<comment> \<open>\<open>sp_runtime::Perbill\<close> and \<open>substrate_fixed\<close>\<close>
  pb_mul :: "perbill \<Rightarrow> balance \<Rightarrow> balance"
  pb_from_rational :: "nat \<Rightarrow> nat \<Rightarrow> perbill"
  pb_from_percent :: "nat \<Rightarrow> perbill"
  pb_from_parts :: "nat \<Rightarrow> perbill"
  pb_annual_to_round :: "perbill \<Rightarrow> nat \<Rightarrow> perbill"
  \<comment> \<open>iteration order of storage maps\<close>
  key_order :: "acct \<Rightarrow> nat"
  \<comment> \<open>constants\<close>
  DefaultBlocksPerSession :: nat
  DefaultBlocksPerRound :: nat
  MinBlocksPerRound :: nat
  MaxBlocksPerRound :: nat
  StorageCacheLifetimeInRounds :: nat
  LeaveCandidatesDelay :: nat
  CandidateBondLessDelay :: nat
  LeaveNominatorsDelay :: nat
  RevokeNominationDelay :: nat
  NominationBondLessDelay :: nat
  RewardPaymentDelay :: nat
  DefaultMaxSelectedFullCandidates :: nat
  DefaultMaxSelectedBasicCandidates :: nat
  MaxTopNominationsPerCandidate :: nat
  MaxBottomNominationsPerCandidate :: nat
  MaxNominationsPerNominator :: nat
  CfgDefaultFullValidatorCommission :: perbill
  CfgDefaultBasicValidatorCommission :: perbill
  CfgMaxFullValidatorCommission :: perbill
  CfgMaxBasicValidatorCommission :: perbill
  MinFullValidatorStk :: balance
  MinBasicValidatorStk :: balance
  MinFullCandidateStk :: balance
  MinBasicCandidateStk :: balance
  MinNomination :: balance
  MinNominatorStk :: balance

subsection \<open>Events\<close>

datatype Event =
    NewRound block_number round_index nat balance
  | JoinedValidatorCandidates acct balance balance
  | ValidatorChosen round_index acct balance
  | CandidateBondLessRequested acct balance round_index
  | CandidateBondedMore acct balance balance
  | CandidateBondedLess acct balance balance
  | CandidateWentOffline acct
  | CandidateBackOnline acct
  | CandidateScheduledExit round_index acct round_index
  | CancelledCandidateExit acct
  | CancelledCandidateBondLess acct balance round_index
  | CandidateLeft acct balance balance
  | NominationDecreaseScheduled acct acct balance round_index
  | NominationIncreased acct acct balance bool
  | NominationDecreased acct acct balance bool
  | NominatorExitScheduled round_index acct round_index
  | NominationRevocationScheduled round_index acct acct round_index
  | NominatorLeft acct balance
  | NominationRevoked acct acct balance
  | NominationKicked acct acct balance
  | NominatorExitCancelled acct
  | CancelledNominationRequest acct NominationRequest
  | Nomination acct balance acct NominatorAdded
  | NominatorLeftCandidate acct acct balance balance
  | Rewarded acct balance
  | InflationSet perbill perbill perbill perbill perbill perbill
  | StakeExpectationsSet balance balance balance
  | MaxFullSelectedSet nat nat
  | MaxBasicSelectedSet nat nat
  | DefaultValidatorCommissionSet perbill perbill TierType
  | MaxValidatorCommissionSet perbill perbill TierType
  | ValidatorCommissionSet acct perbill perbill
  | ValidatorCommissionSetCancelled acct
  | BlocksPerRoundSet round_index block_number nat nat perbill perbill perbill
  | StorageCacheLifetimeSet nat nat
  | ControllerSet acct acct
  | ControllerSetCancelled acct
  | ValidatorRewardDstSet acct RewardDestination RewardDestination
  | NominatorRewardDstSet acct RewardDestination RewardDestination
  | KickedOut acct

subsection \<open>Storage\<close>

text \<open>
  One field per storage item of the pallet, plus the deposited events and the rest of the runtime.
  A \<open>StorageMap\<close> is a partial function; the ones that the pallet also iterates
  (\<open>CandidateInfo\<close>, \<open>AwardedPts\<close>) are association lists. \<open>BTreeSet\<close> values are maps to
  \<open>unit\<close> as in Rust's own implementation.
\<close>

record 'w staking =
  Session :: session_index
  Round :: RoundInfo
  StorageCacheLifetime :: nat
  DefaultFullValidatorCommission :: perbill
  DefaultBasicValidatorCommission :: perbill
  MaxFullValidatorCommission :: perbill
  MaxBasicValidatorCommission :: perbill
  MaxTotalSelected :: nat
  MaxFullSelected :: nat
  MaxBasicSelected :: nat
  ProductivityPerBlock :: perbill
  NominatorState :: "acct \<rightharpoonup> Nominator"
  CandidateInfo :: "(acct, CandidateMetadata) btmap"
  BondedStash :: "acct \<rightharpoonup> acct"
  TopNominations :: "acct \<rightharpoonup> Nominations"
  BottomNominations :: "acct \<rightharpoonup> Nominations"
  SelectedCandidates :: acct_set
  SelectedFullCandidates :: acct_set
  SelectedBasicCandidates :: acct_set
  CachedSelectedCandidates :: "(round_index, acct_set) btmap"
  Majority :: nat
  CachedMajority :: "(round_index, nat) btmap"
  Total :: balance
  CandidatePool :: "(acct, balance) btmap"
  AtStake :: "round_index \<Rightarrow> acct \<Rightarrow> ValidatorSnapshot"
  TotalAtStake :: "round_index \<rightharpoonup> TotalSnapshot"
  DelayedPayouts :: "round_index \<rightharpoonup> DelayedPayout"
  DelayedControllerSets :: "round_index \<Rightarrow> DelayedControllerSet list"
  DelayedCommissionSets :: "round_index \<Rightarrow> DelayedCommissionSet list"
  Staked :: "round_index \<Rightarrow> balance"
  InflationConfig :: InflationInfo
  Points :: "round_index \<Rightarrow> nat"
  AwardedPts :: "round_index \<Rightarrow> (acct, nat) btmap"
  AwardedTokens :: balance
  Events :: "Event list"
  world :: 'w

definition deposit_event :: "Event \<Rightarrow> 'w staking \<Rightarrow> 'w staking" where
  "deposit_event e s = s\<lparr>Events := Events s @ [e]\<rparr>"

text \<open>Writing the parts of storage that the candidate and nominator code updates by key.\<close>

definition put_candidate :: "acct \<Rightarrow> CandidateMetadata \<Rightarrow> 'w staking \<Rightarrow> 'w staking" where
  "put_candidate c m s = s\<lparr>CandidateInfo := bt_insert c m (CandidateInfo s)\<rparr>"

definition put_top :: "acct \<Rightarrow> Nominations \<Rightarrow> 'w staking \<Rightarrow> 'w staking" where
  "put_top c n s = s\<lparr>TopNominations := (TopNominations s)(c \<mapsto> n)\<rparr>"

definition put_bottom :: "acct \<Rightarrow> Nominations \<Rightarrow> 'w staking \<Rightarrow> 'w staking" where
  "put_bottom c n s = s\<lparr>BottomNominations := (BottomNominations s)(c \<mapsto> n)\<rparr>"

definition put_nominator :: "acct \<Rightarrow> Nominator \<Rightarrow> 'w staking \<Rightarrow> 'w staking" where
  "put_nominator a n s = s\<lparr>NominatorState := (NominatorState s)(a \<mapsto> n)\<rparr>"

definition del_nominator :: "acct \<Rightarrow> 'w staking \<Rightarrow> 'w staking" where
  "del_nominator a s = s\<lparr>NominatorState := (NominatorState s)(a := None)\<rparr>"

text \<open>\<open>T::Currency::reserve(..)?\<close> and \<open>T::Currency::unreserve(..)\<close>.\<close>

definition cur_reserve ::
  "'w Config \<Rightarrow> acct \<Rightarrow> balance \<Rightarrow> 'w staking \<Rightarrow> ('w staking, error, unit) outcome" where
  "cur_reserve C a x s =
     (case reserve C a x (world s) of
        None \<Rightarrow> Fail CurrencyError s
      | Some w \<Rightarrow> Done () (s\<lparr>world := w\<rparr>))"

definition cur_unreserve :: "'w Config \<Rightarrow> acct \<Rightarrow> balance \<Rightarrow> 'w staking \<Rightarrow> 'w staking" where
  "cur_unreserve C a x s = s\<lparr>world := unreserve C a x (world s)\<rparr>"

lemma cur_reserve_Done:
  "cur_reserve C a x s = Done u s' \<longleftrightarrow>
     (\<exists>w. reserve C a x (world s) = Some w \<and> s' = s\<lparr>world := w\<rparr>)"
  by (auto simp: cur_reserve_def split: option.splits)

lemmas put_defs = put_candidate_def put_top_def put_bottom_def put_nominator_def del_nominator_def
  cur_unreserve_def deposit_event_def

lemma deposit_event_fields [simp]:
  "Round (deposit_event e s) = Round s"
  "NominatorState (deposit_event e s) = NominatorState s"
  "CandidateInfo (deposit_event e s) = CandidateInfo s"
  "BondedStash (deposit_event e s) = BondedStash s"
  "TopNominations (deposit_event e s) = TopNominations s"
  "BottomNominations (deposit_event e s) = BottomNominations s"
  "SelectedCandidates (deposit_event e s) = SelectedCandidates s"
  "Total (deposit_event e s) = Total s"
  "DelayedControllerSets (deposit_event e s) = DelayedControllerSets s"
  "Majority (deposit_event e s) = Majority s"
  "CandidatePool (deposit_event e s) = CandidatePool s"
  "world (deposit_event e s) = world s"
  "Events (deposit_event e s) = Events s @ [e]"
  by (simp_all add: deposit_event_def)

end
