(* ===== verification/Binary_Search.thy ===== *)
theory Binary_Search
  imports Main
begin

text \<open>
  Binary search of the Rust standard library (\<open>core::slice\<close>, toolchain 1.94), which the ordered
  nomination lists and the membership of the relay executives use.
\<close>

subsection \<open>\<open>slice::binary_search_by\<close>\<close>

datatype ordering = Less | Equal | Greater

definition rust_cmp :: "nat \<Rightarrow> nat \<Rightarrow> ordering" where
  "rust_cmp a b = (if a < b then Less else if a = b then Equal else Greater)"

lemma rust_cmp_simps:
  "a < b \<Longrightarrow> rust_cmp a b = Less" "rust_cmp a a = Equal" "b < a \<Longrightarrow> rust_cmp a b = Greater"
  by (simp_all add: rust_cmp_def)

datatype search_result = SearchOk nat | SearchErr nat

text \<open>The loop of the standard library: \<open>base\<close> moves right while the probe is not \<open>Greater\<close>.\<close>

function bs_loop :: "('a \<Rightarrow> ordering) \<Rightarrow> 'a list \<Rightarrow> nat \<Rightarrow> nat \<Rightarrow> nat" where
  "bs_loop f xs base sz =
     (if 1 < sz then
        let half = sz div 2; mid = base + half;
            base' = (if f (xs ! mid) = Greater then base else mid)
        in bs_loop f xs base' (sz - half)
      else base)"
  by pat_completeness auto
termination
  by (relation "measure (\<lambda>(f, xs, base, sz). sz)") auto

declare bs_loop.simps [simp del]

definition binary_search_by :: "('a \<Rightarrow> ordering) \<Rightarrow> 'a list \<Rightarrow> search_result" where
  "binary_search_by f xs =
     (if xs = [] then SearchErr 0
      else let base = bs_loop f xs 0 (length xs) in
        (case f (xs ! base) of
           Equal \<Rightarrow> SearchOk base
         | Less \<Rightarrow> SearchErr (base + 1)
         | Greater \<Rightarrow> SearchErr base))"

end
