(* ===== verification/Nominations_List.thy ===== *)
theory Nominations_List
  imports Staking_State Binary_Search
begin

text \<open>
  The ordered list of nominations (\<open>Nominations\<close> in \<open>lib.rs\<close>): binary search of the Rust standard
  library, insertion after equal amounts, stable sorting, capacity and extremes. The interface
  \<open>nomination_order\<close> states what the candidate code relies on; it is interpreted on the model's own
  insertion and sort.
\<close>

subsection \<open>Operations of \<open>Nominations\<close>\<close>

definition nominators :: "Nominations \<Rightarrow> acct list" where
  "nominators n = map owner (nominations n)"

definition noms_count :: "Nominations \<Rightarrow> nat" where
  "noms_count n = as_u32 (length (nominations n))"

text \<open>\<open>sort_by(|a, b| b.amount.cmp(&a.amount))\<close>: Rust's \<open>sort_by\<close> is stable.\<close>

definition sort_desc :: "Bond list \<Rightarrow> Bond list" where
  "sort_desc bs = sort_key (\<lambda>b. - int (amount b)) bs"

definition sort_greatest_to_least :: "Nominations \<Rightarrow> Nominations" where
  "sort_greatest_to_least n = n\<lparr>nominations := sort_desc (nominations n)\<rparr>"

text \<open>\<open>iter().position(|x| x.amount != a)\<close>\<close>

fun position_neq :: "balance \<Rightarrow> Bond list \<Rightarrow> nat option" where
  "position_neq a [] = None"
| "position_neq a (b # bs) =
     (if amount b \<noteq> a then Some 0 else map_option Suc (position_neq a bs))"

definition insertion_index :: "Bond list \<Rightarrow> Bond \<Rightarrow> nat" where
  "insertion_index bs n =
     (case binary_search_by (\<lambda>x. rust_cmp (amount n) (amount x)) bs of
        SearchOk i \<Rightarrow>
          (case position_neq (amount n) (drop i bs) of
             None \<Rightarrow> length bs
           | Some k \<Rightarrow> i + k)
      | SearchErr i \<Rightarrow> i)"

definition insert_at :: "nat \<Rightarrow> 'a \<Rightarrow> 'a list \<Rightarrow> 'a list" where
  "insert_at i x xs = take i xs @ x # drop i xs"

definition ins_desc :: "Bond \<Rightarrow> Bond list \<Rightarrow> Bond list" where
  "ins_desc n bs = insert_at (insertion_index bs n) n bs"

definition insert_sorted_greatest_to_least :: "Bond \<Rightarrow> Nominations \<Rightarrow> Nominations" where
  "insert_sorted_greatest_to_least n ns =
     \<lparr>nominations = ins_desc n (nominations ns),
      noms_total = sat_add128 (noms_total ns) (amount n)\<rparr>"

definition noms_top_capacity :: "'w Config \<Rightarrow> Nominations \<Rightarrow> CapacityStatus" where
  "noms_top_capacity C n =
     (if MaxTopNominationsPerCandidate C \<le> as_u32 (length (nominations n)) then CapFull
      else if nominations n = [] then CapEmpty else CapPartial)"

definition noms_bottom_capacity :: "'w Config \<Rightarrow> Nominations \<Rightarrow> CapacityStatus" where
  "noms_bottom_capacity C n =
     (if MaxBottomNominationsPerCandidate C \<le> as_u32 (length (nominations n)) then CapFull
      else if nominations n = [] then CapEmpty else CapPartial)"

definition lowest_nomination_amount :: "Nominations \<Rightarrow> balance" where
  "lowest_nomination_amount n =
     (if nominations n = [] then 0 else amount (last (nominations n)))"

definition highest_nomination_amount :: "Nominations \<Rightarrow> balance" where
  "highest_nomination_amount n =
     (case nominations n of [] \<Rightarrow> 0 | b # _ \<Rightarrow> amount b)"

fun slash_bond_list :: "acct \<Rightarrow> balance \<Rightarrow> Bond list \<Rightarrow> Bond list option" where
  "slash_bond_list w v [] = None"
| "slash_bond_list w v (b # bs) =
     (if owner b = w then Some (b\<lparr>amount := sat_sub (amount b) v\<rparr> # bs)
      else map_option ((#) b) (slash_bond_list w v bs))"

definition slash_nomination_amount :: "acct \<Rightarrow> balance \<Rightarrow> Nominations \<Rightarrow> Nominations \<times> bool" where
  "slash_nomination_amount w v n =
     (case slash_bond_list w v (nominations n) of
        Some bs \<Rightarrow> (\<lparr>nominations = bs, noms_total = sat_sub (noms_total n) v\<rparr>, True)
      | None \<Rightarrow> (n, False))"

subsection \<open>The order of the list\<close>

definition desc :: "Bond list \<Rightarrow> bool" where
  "desc bs = sorted_wrt (\<lambda>x y. amount y \<le> amount x) bs"

lemma desc_Nil [simp]: "desc []" by (simp add: desc_def)

lemma desc_Cons [simp]: "desc (b # bs) \<longleftrightarrow> (\<forall>x\<in>set bs. amount x \<le> amount b) \<and> desc bs"
  by (simp add: desc_def)

lemma desc_append: "desc (as @ bs) \<longleftrightarrow>
  desc as \<and> desc bs \<and> (\<forall>x\<in>set as. \<forall>y\<in>set bs. amount y \<le> amount x)"
  by (simp add: desc_def sorted_wrt_append)

lemma desc_nth_mono: "desc bs \<Longrightarrow> i \<le> j \<Longrightarrow> j < length bs \<Longrightarrow> amount (bs ! j) \<le> amount (bs ! i)"
  by (metis desc_def le_neq_implies_less order_refl sorted_wrt_iff_nth_less)

lemma desc_butlast: "desc bs \<Longrightarrow> desc (butlast bs)"
  by (metis desc_append append_butlast_last_id butlast.simps(1))

lemma desc_tl: "desc bs \<Longrightarrow> desc (tl bs)"
  by (cases bs) auto

lemma desc_filter: "desc bs \<Longrightarrow> desc (filter P bs)"
  by (simp add: desc_def sorted_wrt_filter)

lemma desc_last_le: "desc bs \<Longrightarrow> x \<in> set bs \<Longrightarrow> amount (last bs) \<le> amount x"
  by (induction bs) auto

lemma desc_le_hd: "desc bs \<Longrightarrow> x \<in> set bs \<Longrightarrow> amount x \<le> amount (hd bs)"
  by (cases bs) auto

text \<open>The reference insertion: after every bond that is at least as large.\<close>

definition ins_spec :: "Bond \<Rightarrow> Bond list \<Rightarrow> Bond list" where
  "ins_spec n bs = takeWhile (\<lambda>b. amount n \<le> amount b) bs
     @ n # dropWhile (\<lambda>b. amount n \<le> amount b) bs"

subsection \<open>Correctness of the search\<close>

text \<open>
  On a descending list the loop keeps, to the left of \<open>base\<close>, only bonds at least as large as the
  new one, and, from \<open>base + sz\<close> on, only smaller ones.
\<close>

definition bs_inv :: "nat \<Rightarrow> Bond list \<Rightarrow> nat \<Rightarrow> nat \<Rightarrow> bool" where
  "bs_inv a bs base sz \<longleftrightarrow> 0 < sz \<and> base + sz \<le> length bs \<and>
     (\<forall>i < base. a \<le> amount (bs ! i)) \<and>
     (\<forall>i. base + sz \<le> i \<longrightarrow> i < length bs \<longrightarrow> amount (bs ! i) < a)"

lemma bs_inv_step:
  assumes "desc bs" "bs_inv a bs base sz" "1 < sz"
  shows "bs_inv a bs (if rust_cmp a (amount (bs ! (base + sz div 2))) = Greater
                      then base else base + sz div 2) (sz - sz div 2)"
proof (cases "amount (bs ! (base + sz div 2)) < a")
  case True
  then have g: "rust_cmp a (amount (bs ! (base + sz div 2))) = Greater"
    by (simp add: rust_cmp_def)
  have small: "amount (bs ! i) < a" if "base + (sz - sz div 2) \<le> i" "i < length bs" for i
  proof -
    have "base + sz div 2 \<le> i" using that(1) by linarith
    then have "amount (bs ! i) \<le> amount (bs ! (base + sz div 2))"
      using desc_nth_mono [OF assms(1)] that(2) by simp
    with True show ?thesis by simp
  qed
  then show ?thesis
    using assms(2,3) g unfolding bs_inv_def by auto
next
  case False
  then have g: "rust_cmp a (amount (bs ! (base + sz div 2))) \<noteq> Greater"
    by (auto simp: rust_cmp_def)
  have len: "base + sz div 2 < length bs"
    using assms(2,3) unfolding bs_inv_def by linarith
  have "a \<le> amount (bs ! i)" if "i < base + sz div 2" for i
    using desc_nth_mono [OF assms(1), of i "base + sz div 2"] that len False by simp
  moreover have "base + sz div 2 + (sz - sz div 2) = base + sz" by simp
  ultimately show ?thesis
    using assms(2,3) g unfolding bs_inv_def by auto
qed

lemma bs_loop_inv:
  "desc bs \<Longrightarrow> bs_inv a bs base sz \<Longrightarrow>
   bs_inv a bs (bs_loop (\<lambda>x. rust_cmp a (amount x)) bs base sz) 1"
proof (induction "\<lambda>x::Bond. rust_cmp a (amount x)" bs base sz rule: bs_loop.induct)
  case (1 bs base sz)
  show ?case
  proof (cases "1 < sz")
    case True
    from 1(1) [OF True refl refl refl "1.prems"(1) bs_inv_step [OF "1.prems" True]] True
    show ?thesis by (simp add: bs_loop.simps [of _ bs base sz] Let_def)
  next
    case False
    with "1.prems"(2) have "sz = 1" by (simp add: bs_inv_def)
    with "1.prems" show ?thesis by (simp add: bs_loop.simps)
  qed
qed

lemma position_neq_desc:
  "desc bs \<Longrightarrow> (\<forall>b\<in>set bs. amount b \<le> a) \<Longrightarrow>
   (case position_neq a bs of None \<Rightarrow> length bs | Some k \<Rightarrow> k)
     = length (takeWhile (\<lambda>b. a \<le> amount b) bs)"
  by (induction bs) (fastforce split: option.splits)+

lemma takeWhile_length_eqI:
  "k \<le> length xs \<Longrightarrow> \<forall>i<k. P (xs ! i) \<Longrightarrow> (k < length xs \<Longrightarrow> \<not> P (xs ! k)) \<Longrightarrow>
   length (takeWhile P xs) = k"
proof (induction xs arbitrary: k)
  case (Cons x xs)
  show ?case
  proof (cases k)
    case 0
    with Cons.prems show ?thesis by simp
  next
    case (Suc j)
    with Cons.prems have "P x" "j \<le> length xs" "\<forall>i<j. P (xs ! i)" "j < length xs \<Longrightarrow> \<not> P (xs ! j)"
      by auto
    with Cons.IH [of j] Suc show ?thesis by simp
  qed
qed simp

text \<open>The optimised insertion point is the reference one.\<close>

lemma insertion_index_spec:
  assumes "desc bs"
  shows "insertion_index bs n = length (takeWhile (\<lambda>b. amount n \<le> amount b) bs)"
proof (cases "bs = []")
  case True
  then show ?thesis by (simp add: insertion_index_def binary_search_by_def)
next
  case False
  let ?a = "amount n" and ?f = "\<lambda>x. rust_cmp (amount n) (amount x)"
  define base where "base = bs_loop ?f bs 0 (length bs)"
  have "bs_inv ?a bs 0 (length bs)" using False by (simp add: bs_inv_def)
  from bs_loop_inv [OF assms this] have inv: "bs_inv ?a bs base 1" by (simp add: base_def)
  then have len: "base < length bs"
    and left: "\<forall>i<base. ?a \<le> amount (bs ! i)"
    and right: "\<And>i. Suc base \<le> i \<Longrightarrow> i < length bs \<Longrightarrow> amount (bs ! i) < ?a"
    by (auto simp: bs_inv_def)
  have search: "binary_search_by ?f bs =
      (case ?f (bs ! base) of Equal \<Rightarrow> SearchOk base | Less \<Rightarrow> SearchErr (base + 1)
       | Greater \<Rightarrow> SearchErr base)"
    using False by (simp add: binary_search_by_def Let_def flip: base_def)
  consider (lt) "?a < amount (bs ! base)" | (eq) "amount (bs ! base) = ?a"
    | (gt) "amount (bs ! base) < ?a" by linarith
  then show ?thesis
  proof cases
    case lt
    then have "insertion_index bs n = Suc base"
      by (simp add: insertion_index_def search rust_cmp_simps)
    moreover have "length (takeWhile (\<lambda>b. ?a \<le> amount b) bs) = Suc base"
      using lt left right len by (intro takeWhile_length_eqI) (auto simp: less_Suc_eq linorder_not_le)
    ultimately show ?thesis by simp
  next
    case gt
    then have "insertion_index bs n = base"
      by (simp add: insertion_index_def search rust_cmp_simps)
    moreover have "length (takeWhile (\<lambda>b. ?a \<le> amount b) bs) = base"
      using gt left right len by (intro takeWhile_length_eqI) auto
    ultimately show ?thesis by simp
  next
    case eq
    have d: "desc (drop base bs)" using assms by (metis append_take_drop_id desc_append)
    have "\<forall>b\<in>set (drop base bs). amount b \<le> ?a"
      using desc_le_hd [OF d] eq len by (simp add: hd_drop_conv_nth)
    from position_neq_desc [OF d this]
    have "insertion_index bs n = base + length (takeWhile (\<lambda>b. ?a \<le> amount b) (drop base bs))"
      using eq len by (auto simp: insertion_index_def search rust_cmp_simps split: option.splits)
    moreover have "takeWhile (\<lambda>b. ?a \<le> amount b) bs =
        take base bs @ takeWhile (\<lambda>b. ?a \<le> amount b) (drop base bs)"
    proof -
      have "\<forall>b\<in>set (take base bs). ?a \<le> amount b"
        using left len by (auto simp: in_set_conv_nth)
      then show ?thesis by (metis (no_types, lifting) append_take_drop_id takeWhile_append2)
    qed
    ultimately show ?thesis using len by simp
  qed
qed

lemma ins_desc_spec: "desc bs \<Longrightarrow> ins_desc n bs = ins_spec n bs"
  by (simp add: ins_desc_def ins_spec_def insert_at_def insertion_index_spec
      takeWhile_eq_take [symmetric] dropWhile_eq_drop [symmetric])

text \<open>Facts of insertion that need no order.\<close>

lemma mset_ins_desc [simp]: "mset (ins_desc n bs) = add_mset n (mset bs)"
  by (metis ins_desc_def insert_at_def mset.simps(2) mset_append append_take_drop_id
      union_mset_add_mset_right)

lemma set_ins_desc [simp]: "set (ins_desc n bs) = insert n (set bs)"
  by (metis mset_ins_desc set_mset_add_mset_insert set_mset_mset)

lemma length_ins_desc [simp]: "length (ins_desc n bs) = Suc (length bs)"
  by (metis mset_ins_desc size_add_mset size_mset)

lemma ins_desc_not_Nil [simp]: "ins_desc n bs \<noteq> []"
  by (metis length_ins_desc list.size(3) nat.distinct(1))

lemma desc_ins_desc: "desc bs \<Longrightarrow> desc (ins_desc n bs)"
proof -
  assume d: "desc bs"
  let ?P = "\<lambda>b. amount n \<le> amount b"
  have ds: "desc (takeWhile ?P bs @ dropWhile ?P bs)" using d by simp
  then have dd: "desc (dropWhile ?P bs)" unfolding desc_append by blast
  have "amount y \<le> amount n" if y: "y \<in> set (dropWhile ?P bs)" for y
  proof -
    have "dropWhile ?P bs \<noteq> []" using y by (metis empty_iff list.set(1))
    then have "amount (hd (dropWhile ?P bs)) < amount n" using hd_dropWhile [of ?P bs] by simp
    moreover have "amount y \<le> amount (hd (dropWhile ?P bs))" by (rule desc_le_hd [OF dd y])
    ultimately show ?thesis by simp
  qed
  with ds show ?thesis
    unfolding ins_desc_spec [OF d] ins_spec_def desc_append desc_Cons
    by (auto dest: set_takeWhileD)
qed

lemma desc_sort_desc [simp]: "desc (sort_desc bs)"
proof -
  have "sorted (map (\<lambda>b. - int (amount b)) (sort_desc bs))" by (simp add: sort_desc_def)
  then show ?thesis by (simp add: desc_def sorted_map)
qed

lemma mset_sort_desc [simp]: "mset (sort_desc bs) = mset bs"
  by (simp add: sort_desc_def)

lemma set_sort_desc [simp]: "set (sort_desc bs) = set bs"
  by (simp add: sort_desc_def)

lemma length_sort_desc [simp]: "length (sort_desc bs) = length bs"
  by (simp add: sort_desc_def)

lemma sort_desc_Nil [simp]: "sort_desc bs = [] \<longleftrightarrow> bs = []"
  by (metis length_0_conv length_sort_desc)

subsection \<open>Two tiers\<close>

text \<open>
  A candidate keeps its largest nominations in a top list and the others in a bottom list. The
  interface \<open>nomination_order\<close> says what the candidate code relies on when it moves bonds between
  the two: an insertion and a sort that keep the bonds and the order.
\<close>

definition two_tier :: "Bond list \<Rightarrow> Bond list \<Rightarrow> bool" where
  "two_tier up lo \<longleftrightarrow>
     desc up \<and> desc lo \<and> (\<forall>t\<in>set up. \<forall>b\<in>set lo. amount b \<le> amount t)"

lemma two_tier_append: "two_tier up lo \<longleftrightarrow> desc (up @ lo)"
  by (auto simp: two_tier_def desc_append)

locale nomination_order =
  fixes ins :: "Bond \<Rightarrow> Bond list \<Rightarrow> Bond list"
    and srt :: "Bond list \<Rightarrow> Bond list"
  assumes ins_mset: "mset (ins n bs) = add_mset n (mset bs)"
    and ins_order: "desc bs \<Longrightarrow> desc (ins n bs)"
    and srt_mset: "mset (srt bs) = mset bs"
    and srt_order: "desc (srt bs)"
begin

lemma ins_set: "set (ins n bs) = insert n (set bs)"
  by (metis ins_mset set_mset_add_mset_insert set_mset_mset)

lemma srt_set: "set (srt bs) = set bs"
  by (metis srt_mset set_mset_mset)

lemma enter_top:
  "two_tier up lo \<Longrightarrow> \<forall>b\<in>set lo. amount b \<le> amount n \<Longrightarrow> two_tier (ins n up) lo"
  by (auto simp: two_tier_def ins_set ins_order)

lemma enter_bottom:
  "two_tier up lo \<Longrightarrow> \<forall>t\<in>set up. amount n \<le> amount t \<Longrightarrow> two_tier up (ins n lo)"
  by (auto simp: two_tier_def ins_set ins_order)

lemma demote:
  assumes "two_tier up lo" "up \<noteq> []"
  shows "two_tier (butlast up) (ins (last up) lo)"
  using assms desc_last_le [of up]
  by (auto simp: two_tier_def ins_set ins_order desc_butlast dest: in_set_butlastD)

lemma promote:
  assumes "two_tier up lo" "lo = b # bs"
  shows "two_tier (ins b up) bs"
  using assms by (auto simp: two_tier_def ins_set ins_order)

lemma resort_top:
  "desc lo \<Longrightarrow> \<forall>t\<in>set up. \<forall>b\<in>set lo. amount b \<le> amount t \<Longrightarrow> two_tier (srt up) lo"
  by (auto simp: two_tier_def srt_set srt_order)

lemma resort_bottom:
  "desc up \<Longrightarrow> \<forall>t\<in>set up. \<forall>b\<in>set lo. amount b \<le> amount t \<Longrightarrow> two_tier up (srt lo)"
  by (auto simp: two_tier_def srt_set srt_order)

end

interpretation nl: nomination_order ins_desc sort_desc
  by unfold_locales (simp_all add: desc_ins_desc)

lemma two_tier_Nil [simp]: "two_tier up [] \<longleftrightarrow> desc up"
  by (simp add: two_tier_def)

lemma two_tier_filter: "two_tier up lo \<Longrightarrow> two_tier (filter P up) (filter Q lo)"
  by (auto simp: two_tier_def desc_filter)

lemma two_tier_butlast: "two_tier up lo \<Longrightarrow> two_tier up (butlast lo)"
  by (auto simp: two_tier_def desc_butlast dest: in_set_butlastD)

end
