(* ===== verification/Candidate.thy ===== *)
theory Candidate
  imports Nominations_List
begin

text \<open>
  The methods of \<open>CandidateMetadata\<close> (\<open>pallets/bfc-staking/src/lib.rs\<close>): bonding, leaving, and the
  maintenance of the top and bottom nominations of a candidate. \<open>self\<close> is the argument \<open>m\<close>; a method
  that takes \<open>&mut self\<close> returns the new value. Methods that reach storage take and return it.
\<close>

subsection \<open>Status\<close>

definition CandidateMetadata_new ::
  "'w Config \<Rightarrow> acct \<Rightarrow> balance \<Rightarrow> TierType \<Rightarrow> 'w staking \<Rightarrow> CandidateMetadata" where
  "CandidateMetadata_new C st b t s =
     \<lparr>stash = st, bond = b, initial_bond = b, nomination_count = 0, voting_power = b,
      lowest_top_nomination_amount = 0, highest_bottom_nomination_amount = 0,
      lowest_bottom_nomination_amount = 0, top_capacity = CapEmpty, bottom_capacity = CapEmpty,
      request = None, status = VActive, is_selected = False,
      commission = (case t of Full \<Rightarrow> DefaultFullValidatorCommission s
                    | _ \<Rightarrow> DefaultBasicValidatorCommission s),
      last_block = 0, blocks_produced = 0, productivity = pb_from_percent C 100,
      productivity_status = PIdle, reward_dst = DstStaked, awarded_tokens = 0, tier = t\<rparr>"

definition cm_is_active :: "CandidateMetadata \<Rightarrow> bool" where
  "cm_is_active m = (status m = VActive)"

definition cm_is_kicked_out :: "CandidateMetadata \<Rightarrow> bool" where
  "cm_is_kicked_out m = (status m = VKickedOut)"

definition cm_is_leaving :: "CandidateMetadata \<Rightarrow> bool" where
  "cm_is_leaving m = (case status m of VLeaving _ \<Rightarrow> True | _ \<Rightarrow> False)"

definition cm_schedule_leave ::
  "'w Config \<Rightarrow> 'w staking \<Rightarrow> CandidateMetadata \<Rightarrow>
   error + (CandidateMetadata \<times> round_index \<times> round_index)" where
  "cm_schedule_leave C s m =
     (if cm_is_leaving m then Inl (StakingError CandidateAlreadyLeaving)
      else if request m \<noteq> None then Inl (StakingError PendingCandidateRequestAlreadyExists)
      else let now = current_round_index (Round s);
               when = add32 now (LeaveCandidatesDelay C)
           in Inr (m\<lparr>status := VLeaving when\<rparr>, now, when))"

definition cm_can_leave :: "'w staking \<Rightarrow> CandidateMetadata \<Rightarrow> error option" where
  "cm_can_leave s m =
     (case status m of
        VLeaving when \<Rightarrow>
          if when \<le> current_round_index (Round s) then None
          else Some (StakingError CandidateCannotLeaveYet)
      | _ \<Rightarrow> Some (StakingError CandidateNotLeaving))"

definition cm_go_offline :: "CandidateMetadata \<Rightarrow> CandidateMetadata" where
  "cm_go_offline m = m\<lparr>status := VIdle, is_selected := False\<rparr>"

definition cm_go_online :: "CandidateMetadata \<Rightarrow> CandidateMetadata" where
  "cm_go_online m = m\<lparr>status := VActive\<rparr>"

definition cm_kick_out :: "CandidateMetadata \<Rightarrow> CandidateMetadata" where
  "cm_kick_out m = m\<lparr>status := VKickedOut, is_selected := False\<rparr>"

definition cm_slash_bond :: "balance \<Rightarrow> CandidateMetadata \<Rightarrow> CandidateMetadata" where
  "cm_slash_bond b m = m\<lparr>bond := sat_sub (bond m) b\<rparr>"

definition cm_slash_voting_power :: "balance \<Rightarrow> CandidateMetadata \<Rightarrow> CandidateMetadata" where
  "cm_slash_voting_power b m = m\<lparr>voting_power := sat_sub (voting_power m) b\<rparr>"

definition cm_set_commission :: "perbill \<Rightarrow> CandidateMetadata \<Rightarrow> CandidateMetadata" where
  "cm_set_commission p m = m\<lparr>commission := p\<rparr>"

definition cm_reset_commission ::
  "acct \<Rightarrow> CandidateMetadata \<Rightarrow> 'w staking \<Rightarrow> CandidateMetadata \<times> 'w staking" where
  "cm_reset_commission w m s =
     (let r = current_round_index (Round s);
          sets = filter (\<lambda>c. dm_who c \<noteq> w) (DelayedCommissionSets s r);
          s' = s\<lparr>DelayedCommissionSets := (DelayedCommissionSets s)(r := sets)\<rparr>
      in (if tier m = Full then m\<lparr>commission := DefaultFullValidatorCommission s\<rparr>
          else m\<lparr>commission := DefaultBasicValidatorCommission s\<rparr>, s'))"

definition cm_set_last_block :: "block_number \<Rightarrow> CandidateMetadata \<Rightarrow> CandidateMetadata" where
  "cm_set_last_block b m = m\<lparr>last_block := b\<rparr>"

definition cm_increment_blocks_produced :: "CandidateMetadata \<Rightarrow> CandidateMetadata" where
  "cm_increment_blocks_produced m = m\<lparr>blocks_produced := add32 (blocks_produced m) 1\<rparr>"

definition cm_decrement_productivity ::
  "'w Config \<Rightarrow> 'w staking \<Rightarrow> CandidateMetadata \<Rightarrow> CandidateMetadata" where
  "cm_decrement_productivity C s m =
     (let base = ProductivityPerBlock s; now = productivity m
      in m\<lparr>productivity := (if now \<le> base then 0 else pb_from_parts C (now - base))\<rparr>)"

definition cm_increment_awarded_tokens :: "balance \<Rightarrow> CandidateMetadata \<Rightarrow> CandidateMetadata" where
  "cm_increment_awarded_tokens b m = m\<lparr>awarded_tokens := add128 (awarded_tokens m) b\<rparr>"

definition cm_reset_blocks_produced :: "CandidateMetadata \<Rightarrow> CandidateMetadata" where
  "cm_reset_blocks_produced m = m\<lparr>blocks_produced := 0\<rparr>"

definition cm_reset_productivity :: "'w Config \<Rightarrow> CandidateMetadata \<Rightarrow> CandidateMetadata" where
  "cm_reset_productivity C m =
     m\<lparr>productivity := pb_from_percent C 100, productivity_status := PIdle\<rparr>"

subsection \<open>Self-bond\<close>

text \<open>\<open>Pallet::update_active\<close> (\<open>impls.rs\<close>): the pool entry of a candidate, if it has one.\<close>

definition update_active :: "acct \<Rightarrow> balance \<Rightarrow> 'w staking \<Rightarrow> 'w staking" where
  "update_active c t s =
     (if bt_contains c (CandidatePool s)
      then s\<lparr>CandidatePool := bt_insert c t (CandidatePool s)\<rparr> else s)"

definition cm_bond_more ::
  "'w Config \<Rightarrow> acct \<Rightarrow> acct \<Rightarrow> balance \<Rightarrow> CandidateMetadata \<Rightarrow> 'w staking \<Rightarrow>
   ('w staking, error, CandidateMetadata) outcome" where
  "cm_bond_more C st ctrl mr m s =
     bind_outcome (cur_reserve C st mr s) (\<lambda>_ s1.
       let m' = m\<lparr>bond := sat_add128 (bond m) mr, voting_power := sat_add128 (voting_power m) mr\<rparr>;
           s2 = s1\<lparr>Total := sat_add128 (Total s1) mr\<rparr>
       in Done m' (deposit_event (CandidateBondedMore ctrl mr (bond m')) s2))"

definition cm_schedule_bond_less ::
  "'w Config \<Rightarrow> 'w staking \<Rightarrow> balance \<Rightarrow> CandidateMetadata \<Rightarrow>
   error + (CandidateMetadata \<times> round_index)" where
  "cm_schedule_bond_less C s ls m =
     (if request m \<noteq> None then Inl (StakingError PendingCandidateRequestAlreadyExists)
      else if \<not> ls < bond m then Inl (StakingError CandidateBondBelowMin)
      else if tier m = Full \<and> bond m - ls < MinFullCandidateStk C
        then Inl (StakingError CandidateBondBelowMin)
      else if tier m \<noteq> Full \<and> bond m - ls < MinBasicCandidateStk C
        then Inl (StakingError CandidateBondBelowMin)
      else let when = add32 (current_round_index (Round s)) (CandidateBondLessDelay C)
           in Inr (m\<lparr>request := Some \<lparr>cr_amount = ls, cr_when_executable = when\<rparr>\<rparr>, when))"

definition cm_execute_bond_less ::
  "'w Config \<Rightarrow> acct \<Rightarrow> acct \<Rightarrow> CandidateMetadata \<Rightarrow> 'w staking \<Rightarrow>
   ('w staking, error, CandidateMetadata) outcome" where
  "cm_execute_bond_less C st ctrl m s =
     (case request m of
        None \<Rightarrow> Fail (StakingError PendingCandidateRequestsDNE) s
      | Some req \<Rightarrow>
          if current_round_index (Round s) < cr_when_executable req
          then Fail (StakingError PendingCandidateRequestNotDueYet) s
          else
            let s1 = cur_unreserve C st (cr_amount req) s;
                m' = m\<lparr>bond := sat_sub (bond m) (cr_amount req),
                       voting_power := sat_sub (voting_power m) (cr_amount req),
                       request := None\<rparr>;
                s2 = s1\<lparr>Total := sat_sub (Total s1) (cr_amount req)\<rparr>;
                s3 = update_active ctrl (voting_power m') s2
            in Done m' (deposit_event (CandidateBondedLess ctrl (cr_amount req) (bond m')) s3))"

definition cm_cancel_bond_less ::
  "acct \<Rightarrow> CandidateMetadata \<Rightarrow> 'w staking \<Rightarrow> ('w staking, error, CandidateMetadata) outcome" where
  "cm_cancel_bond_less w m s =
     (case request m of
        None \<Rightarrow> Fail (StakingError PendingCandidateRequestsDNE) s
      | Some req \<Rightarrow>
          Done (m\<lparr>request := None\<rparr>)
            (deposit_event (CancelledCandidateBondLess w (cr_amount req) (cr_when_executable req)) s))"

subsection \<open>Metadata of the two lists\<close>

definition reset_top_data ::
  "'w Config \<Rightarrow> acct \<Rightarrow> Nominations \<Rightarrow> CandidateMetadata \<Rightarrow> 'w staking \<Rightarrow>
   CandidateMetadata \<times> 'w staking" where
  "reset_top_data C c tops m s =
     (let m' = m\<lparr>lowest_top_nomination_amount := lowest_nomination_amount tops,
                top_capacity := noms_top_capacity C tops,
                voting_power := add128 (bond m) (noms_total tops)\<rparr>
      in (m', if voting_power m \<noteq> voting_power m' then update_active c (voting_power m') s else s))"

definition reset_bottom_data ::
  "'w Config \<Rightarrow> Nominations \<Rightarrow> CandidateMetadata \<Rightarrow> CandidateMetadata" where
  "reset_bottom_data C bots m =
     m\<lparr>lowest_bottom_nomination_amount := lowest_nomination_amount bots,
       highest_bottom_nomination_amount := highest_nomination_amount bots,
       bottom_capacity := noms_bottom_capacity C bots\<rparr>"

subsection \<open>Nominator entries that a candidate removes\<close>

text \<open>\<open>Nominator::rm_nomination\<close> and \<open>PendingNominationRequests::remove_request\<close>.\<close>

definition nr_rm_nomination :: "acct \<Rightarrow> Nominator \<Rightarrow> Nominator \<times> balance option" where
  "nr_rm_nomination v n =
     (case bt_get (nr_nominations n) v of
        Some a \<Rightarrow>
          let n' = n\<lparr>nr_nominations := bt_remove v (nr_nominations n),
                     nr_initial_nominations := bt_remove v (nr_initial_nominations n),
                     nr_awarded_tokens_per_candidate :=
                       bt_remove v (nr_awarded_tokens_per_candidate n),
                     nr_total := sat_sub (nr_total n) a\<rparr>
          in (n', Some (nr_total n'))
      | None \<Rightarrow> (n, None))"

definition pr_remove_request ::
  "acct \<Rightarrow> PendingNominationRequests \<Rightarrow> PendingNominationRequests" where
  "pr_remove_request a p =
     (case bt_get (requests p) a of
        Some q \<Rightarrow>
          p\<lparr>requests := bt_remove a (requests p),
            less_total := sat_sub (less_total p) (nq_amount q),
            revocations_count :=
              (if nq_action q = Revoke then sat_sub (revocations_count p) 1 else revocations_count p)\<rparr>
      | None \<Rightarrow> p)"

subsection \<open>Adding a nomination\<close>

definition add_bottom_nomination ::
  "'w Config \<Rightarrow> bool \<Rightarrow> acct \<Rightarrow> Bond \<Rightarrow> CandidateMetadata \<Rightarrow> 'w staking \<Rightarrow>
   ('w staking, error, CandidateMetadata) outcome" where
  "add_bottom_nomination C bumped_from_top c n m s =
     (case BottomNominations s c of
        None \<Rightarrow> Fail (StakingError BottomNominationDNE) s
      | Some bots \<Rightarrow>
          let finish = (\<lambda>bots' inc s'.
                let m1 = (if inc then m\<lparr>nomination_count := add32 (nomination_count m) 1\<rparr> else m);
                    bots2 = insert_sorted_greatest_to_least n bots'
                in Done (reset_bottom_data C bots2 m1) (put_bottom c bots2 s'))
          in
          if as_u32 (length (nominations bots)) = MaxBottomNominationsPerCandidate C then
            if nominations bots = [] then Fail (StakingError BottomNominationDNE) s
            else
              let kicked = last (nominations bots);
                  bots1 = \<lparr>nominations = butlast (nominations bots),
                           noms_total = sat_sub (noms_total bots) (amount kicked)\<rparr>;
                  s1 = cur_unreserve C (owner kicked) (amount kicked) s
              in (case NominatorState s1 (owner kicked) of
                    None \<Rightarrow> Fail (StakingError NominatorDNE) s1
                  | Some ns \<Rightarrow>
                      let leaving = (length (nr_nominations ns) = 1);
                          ns1 = fst (nr_rm_nomination c ns);
                          ns2 = ns1\<lparr>nr_requests := pr_remove_request c (nr_requests ns1)\<rparr>;
                          s2 = deposit_event (NominationKicked (owner kicked) c (amount kicked)) s1;
                          s3 = (if leaving
                                then deposit_event (NominatorLeft (owner kicked) (amount kicked))
                                       (del_nominator (owner kicked) s2)
                                else put_nominator (owner kicked) ns2 s2)
                      in finish bots1 False s3)
          else finish bots (\<not> bumped_from_top) s)"

definition add_top_nomination ::
  "'w Config \<Rightarrow> acct \<Rightarrow> Bond \<Rightarrow> CandidateMetadata \<Rightarrow> 'w staking \<Rightarrow>
   ('w staking, error, balance option \<times> CandidateMetadata) outcome" where
  "add_top_nomination C c n m s =
     (case TopNominations s c of
        None \<Rightarrow> Fail (StakingError TopNominationDNE) s
      | Some tops \<Rightarrow>
          let finish = (\<lambda>tops' ls m1 s1.
                let tops2 = insert_sorted_greatest_to_least n tops';
                    (m2, s2) = reset_top_data C c tops2 m1 s1;
                    m3 = (if ls = None
                          then m2\<lparr>nomination_count := add32 (nomination_count m2) 1\<rparr> else m2)
                in Done (ls, m3) (put_top c tops2 s2))
          in
          if as_u32 (length (nominations tops)) = MaxTopNominationsPerCandidate C then
            if nominations tops = [] then Fail (StakingError TopNominationDNE) s
            else
              let popped = last (nominations tops);
                  tops1 = \<lparr>nominations = butlast (nominations tops),
                           noms_total = sat_sub (noms_total tops) (amount popped)\<rparr>;
                  ls = (if bottom_capacity m = CapFull
                          then Some (lowest_bottom_nomination_amount m) else None)
              in bind_outcome (add_bottom_nomination C True c popped m s)
                   (\<lambda>m1 s1. finish tops1 ls m1 s1)
          else finish tops None m s)"

definition cm_add_nomination ::
  "'w Config \<Rightarrow> acct \<Rightarrow> Bond \<Rightarrow> CandidateMetadata \<Rightarrow> 'w staking \<Rightarrow>
   ('w staking, error, (NominatorAdded \<times> balance option) \<times> CandidateMetadata) outcome" where
  "cm_add_nomination C c n m s =
     (if top_capacity m = CapFull then
        if lowest_top_nomination_amount m < amount n then
          bind_outcome (add_top_nomination C c n m s)
            (\<lambda>(ls, m1) s1. Done ((AddedToTop (voting_power m1), ls), m1) s1)
        else if bottom_capacity m = CapFull \<and> \<not> lowest_bottom_nomination_amount m < amount n then
          Fail (StakingError CannotNominateLessThanLowestBottomWhenBottomIsFull) s
        else
          let ls = (if bottom_capacity m = CapFull
                      then Some (lowest_bottom_nomination_amount m) else None)
          in bind_outcome (add_bottom_nomination C False c n m s)
               (\<lambda>m1 s1. Done ((AddedToBottom, ls), m1) s1)
      else
        bind_outcome (add_top_nomination C c n m s)
          (\<lambda>(_, m1) s1. Done ((AddedToTop (voting_power m1), None), m1) s1))"

subsection \<open>Removing a nomination\<close>

text \<open>The bonds of an account: \<open>actual_amount_option\<close> is set by the last match of the filter.\<close>

definition drop_owner :: "acct \<Rightarrow> Bond list \<Rightarrow> Bond list" where
  "drop_owner w bs = filter (\<lambda>b. owner b \<noteq> w) bs"

definition bond_of :: "acct \<Rightarrow> Bond list \<Rightarrow> Bond option" where
  "bond_of w bs =
     (case filter (\<lambda>b. owner b = w) bs of [] \<Rightarrow> None | ms \<Rightarrow> Some (last ms))"

definition rm_top_nomination ::
  "'w Config \<Rightarrow> acct \<Rightarrow> acct \<Rightarrow> CandidateMetadata \<Rightarrow> 'w staking \<Rightarrow>
   ('w staking, error, bool \<times> CandidateMetadata) outcome" where
  "rm_top_nomination C c w m s =
     (case TopNominations s c of
        None \<Rightarrow> Fail (StakingError CandidateDNE) s
      | Some tops \<Rightarrow>
          (case bond_of w (nominations tops) of
             None \<Rightarrow> Fail (StakingError NominationDNE) s
           | Some b \<Rightarrow>
               let tops1 = \<lparr>nominations = drop_owner w (nominations tops),
                            noms_total = sat_sub (noms_total tops) (amount b)\<rparr>;
                   finish = (\<lambda>tops2 m1 s1.
                     let (m2, s2) = reset_top_data C c tops2 m1 s1;
                         m3 = m2\<lparr>nomination_count := sat_sub (nomination_count m2) 1\<rparr>
                     in Done (voting_power m = voting_power m3, m3) (put_top c tops2 s2))
               in
               if bottom_capacity m \<noteq> CapEmpty then
                 (case BottomNominations s c of
                    None \<Rightarrow> Fail (StakingError BottomNominationDNE) s
                  | Some bots \<Rightarrow>
                      (case nominations bots of
                         [] \<Rightarrow> Panic
                       | h # rest \<Rightarrow>
                           let bots1 = \<lparr>nominations = rest,
                                        noms_total = sat_sub (noms_total bots) (amount h)\<rparr>
                           in finish (insert_sorted_greatest_to_least h tops1)
                                (reset_bottom_data C bots1 m) (put_bottom c bots1 s)))
               else finish tops1 m s))"

definition rm_bottom_nomination ::
  "'w Config \<Rightarrow> acct \<Rightarrow> acct \<Rightarrow> CandidateMetadata \<Rightarrow> 'w staking \<Rightarrow>
   ('w staking, error, bool \<times> CandidateMetadata) outcome" where
  "rm_bottom_nomination C c w m s =
     (case BottomNominations s c of
        None \<Rightarrow> Fail (StakingError BottomNominationDNE) s
      | Some bots \<Rightarrow>
          (case bond_of w (nominations bots) of
             None \<Rightarrow> Fail (StakingError NominationDNE) s
           | Some b \<Rightarrow>
               let bots1 = \<lparr>nominations = drop_owner w (nominations bots),
                            noms_total = sat_sub (noms_total bots) (amount b)\<rparr>;
                   m1 = reset_bottom_data C bots1 m;
                   m2 = m1\<lparr>nomination_count := sat_sub (nomination_count m1) 1\<rparr>
               in Done (False, m2) (put_bottom c bots1 s)))"

definition rm_nomination_if_exists ::
  "'w Config \<Rightarrow> acct \<Rightarrow> acct \<Rightarrow> balance \<Rightarrow> CandidateMetadata \<Rightarrow> 'w staking \<Rightarrow>
   ('w staking, error, bool \<times> CandidateMetadata) outcome" where
  "rm_nomination_if_exists C c w a m s =
     (let geq = lowest_top_nomination_amount m \<le> a;
          not_full = (top_capacity m \<noteq> CapFull);
          eq = (lowest_top_nomination_amount m = highest_bottom_nomination_amount m)
      in if not_full \<or> (geq \<and> \<not> eq) then rm_top_nomination C c w m s
         else if geq \<and> eq then
           (case rm_top_nomination C c w m s of
              Fail e s' \<Rightarrow>
                if e = StakingError NominationDNE then rm_bottom_nomination C c w m s'
                else Fail e s'
            | r \<Rightarrow> r)
         else rm_bottom_nomination C c w m s)"

subsection \<open>Increasing and decreasing a nomination\<close>

definition map_owner :: "acct \<Rightarrow> (balance \<Rightarrow> balance) \<Rightarrow> Bond list \<Rightarrow> Bond list" where
  "map_owner w f bs = map (\<lambda>b. if owner b = w then b\<lparr>amount := f (amount b)\<rparr> else b) bs"

definition has_owner :: "acct \<Rightarrow> Bond list \<Rightarrow> bool" where
  "has_owner w bs = list_ex (\<lambda>b. owner b = w) bs"

definition increase_top_nomination ::
  "'w Config \<Rightarrow> acct \<Rightarrow> acct \<Rightarrow> balance \<Rightarrow> CandidateMetadata \<Rightarrow> 'w staking \<Rightarrow>
   ('w staking, error, bool \<times> CandidateMetadata) outcome" where
  "increase_top_nomination C c w mr m s =
     (case TopNominations s c of
        None \<Rightarrow> Fail (StakingError TopNominationDNE) s
      | Some tops \<Rightarrow>
          if \<not> has_owner w (nominations tops) then Fail (StakingError NominationDNE) s
          else
            let tops1 = sort_greatest_to_least
                  \<lparr>nominations = map_owner w (\<lambda>a. sat_add128 a mr) (nominations tops),
                   noms_total = sat_add128 (noms_total tops) mr\<rparr>;
                (m1, s1) = reset_top_data C c tops1 m s
            in Done (True, m1) (put_top c tops1 s1))"

definition increase_bottom_nomination ::
  "'w Config \<Rightarrow> acct \<Rightarrow> acct \<Rightarrow> balance \<Rightarrow> balance \<Rightarrow> CandidateMetadata \<Rightarrow> 'w staking \<Rightarrow>
   ('w staking, error, bool \<times> CandidateMetadata) outcome" where
  "increase_bottom_nomination C c w bd mr m s =
     (case BottomNominations s c of
        None \<Rightarrow> Fail (StakingError CandidateDNE) s
      | Some bots \<Rightarrow>
          if lowest_top_nomination_amount m < sat_add128 bd mr then
            (case bond_of w (nominations bots) of
               None \<Rightarrow> Fail (StakingError NominationDNE) s
             | Some b \<Rightarrow>
                 let n = b\<lparr>amount := sat_add128 (amount b) mr\<rparr>;
                     bots1 = \<lparr>nominations = drop_owner w (nominations bots),
                              noms_total = sat_sub (noms_total bots) bd\<rparr>
                 in (case TopNominations s c of
                       None \<Rightarrow> Fail (StakingError TopNominationDNE) s
                     | Some tops \<Rightarrow>
                         let finish = (\<lambda>tops1 bots2.
                               let tops2 = insert_sorted_greatest_to_least n tops1;
                                   (m1, s1) = reset_top_data C c tops2 m s;
                                   s2 = put_top c tops2 s1;
                                   m2 = reset_bottom_data C bots2 m1
                               in Done (True, m2) (put_bottom c bots2 s2))
                         in
                         if noms_top_capacity C tops = CapFull then
                           if nominations tops = [] then Fail (StakingError TopNominationDNE) s
                           else
                             let popped = last (nominations tops);
                                 tops1 = \<lparr>nominations = butlast (nominations tops),
                                          noms_total = sat_sub (noms_total tops) (amount popped)\<rparr>
                             in finish tops1 (insert_sorted_greatest_to_least popped bots1)
                         else finish tops bots1))
          else
            if \<not> has_owner w (nominations bots) then Fail (StakingError NominationDNE) s
            else
              let bots1 = sort_greatest_to_least
                    \<lparr>nominations = map_owner w (\<lambda>a. sat_add128 a mr) (nominations bots),
                     noms_total = sat_add128 (noms_total bots) mr\<rparr>
              in Done (False, reset_bottom_data C bots1 m) (put_bottom c bots1 s))"

definition cm_increase_nomination ::
  "'w Config \<Rightarrow> acct \<Rightarrow> acct \<Rightarrow> balance \<Rightarrow> balance \<Rightarrow> CandidateMetadata \<Rightarrow> 'w staking \<Rightarrow>
   ('w staking, error, bool \<times> CandidateMetadata) outcome" where
  "cm_increase_nomination C c w bd mr m s =
     (let eq = (lowest_top_nomination_amount m = highest_bottom_nomination_amount m);
          geq = lowest_top_nomination_amount m \<le> bd
      in if geq \<and> \<not> eq then increase_top_nomination C c w mr m s
         else if geq \<and> eq then
           (case increase_top_nomination C c w mr m s of
              Fail e s' \<Rightarrow>
                if e = StakingError NominationDNE then increase_bottom_nomination C c w bd mr m s'
                else Fail e s'
            | r \<Rightarrow> r)
         else increase_bottom_nomination C c w bd mr m s)"

definition decrease_top_nomination ::
  "'w Config \<Rightarrow> acct \<Rightarrow> acct \<Rightarrow> balance \<Rightarrow> balance \<Rightarrow> CandidateMetadata \<Rightarrow> 'w staking \<Rightarrow>
   ('w staking, error, bool \<times> CandidateMetadata) outcome" where
  "decrease_top_nomination C c w bd ls m s =
     (case TopNominations s c of
        None \<Rightarrow> Fail (StakingError CandidateDNE) s
      | Some tops \<Rightarrow>
          let finish = (\<lambda>in_top tops2 m1 s1.
                let (m2, s2) = reset_top_data C c tops2 m1 s1
                in Done (in_top, m2) (put_top c tops2 s2))
          in
          if sat_sub bd ls < highest_bottom_nomination_amount m
             \<and> top_capacity m = CapFull \<and> bottom_capacity m \<noteq> CapEmpty then
            (case bond_of w (nominations tops) of
               None \<Rightarrow> Fail (StakingError NominationDNE) s
             | Some b \<Rightarrow>
                 let tops1 = \<lparr>nominations = drop_owner w (nominations tops),
                              noms_total = foldl (\<lambda>t d. sat_sub t (amount d)) (noms_total tops)
                                (filter (\<lambda>d. owner d = w) (nominations tops))\<rparr>;
                     n = b\<lparr>amount := sat_sub (amount b) ls\<rparr>
                 in (case BottomNominations s c of
                       None \<Rightarrow> Fail (StakingError BottomNominationDNE) s
                     | Some bots \<Rightarrow>
                         (case nominations bots of
                            [] \<Rightarrow> Panic
                          | h # rest \<Rightarrow>
                              let bots1 = \<lparr>nominations = rest,
                                           noms_total = sat_sub (noms_total bots) (amount h)\<rparr>;
                                  tops2 = insert_sorted_greatest_to_least h tops1;
                                  bots2 = insert_sorted_greatest_to_least n bots1
                              in finish False tops2 (reset_bottom_data C bots2 m)
                                   (put_bottom c bots2 s))))
          else
            if \<not> has_owner w (nominations tops) then Fail (StakingError NominationDNE) s
            else
              finish True
                (sort_greatest_to_least
                  \<lparr>nominations = map_owner w (\<lambda>a. sat_sub a ls) (nominations tops),
                   noms_total = sat_sub (noms_total tops) ls\<rparr>) m s)"

text \<open>The source leaves \<open>bottom_nominations.total\<close> as it is.\<close>

definition decrease_bottom_nomination ::
  "'w Config \<Rightarrow> acct \<Rightarrow> acct \<Rightarrow> balance \<Rightarrow> CandidateMetadata \<Rightarrow> 'w staking \<Rightarrow>
   ('w staking, error, bool \<times> CandidateMetadata) outcome" where
  "decrease_bottom_nomination C c w ls m s =
     (case BottomNominations s c of
        None \<Rightarrow> Fail (StakingError BottomNominationDNE) s
      | Some bots \<Rightarrow>
          if \<not> has_owner w (nominations bots) then Fail (StakingError NominationDNE) s
          else
            let bots1 = sort_greatest_to_least
                  (bots\<lparr>nominations := map_owner w (\<lambda>a. sat_sub a ls) (nominations bots)\<rparr>)
            in Done (False, reset_bottom_data C bots1 m) (put_bottom c bots1 s))"

definition cm_decrease_nomination ::
  "'w Config \<Rightarrow> acct \<Rightarrow> acct \<Rightarrow> balance \<Rightarrow> balance \<Rightarrow> CandidateMetadata \<Rightarrow> 'w staking \<Rightarrow>
   ('w staking, error, bool \<times> CandidateMetadata) outcome" where
  "cm_decrease_nomination C c w bd ls m s =
     (let eq = (lowest_top_nomination_amount m = highest_bottom_nomination_amount m);
          geq = lowest_top_nomination_amount m \<le> bd
      in if geq \<and> \<not> eq then decrease_top_nomination C c w bd ls m s
         else if geq \<and> eq then
           (case decrease_top_nomination C c w bd ls m s of
              Fail e s' \<Rightarrow>
                if e = StakingError NominationDNE then decrease_bottom_nomination C c w ls m s'
                else Fail e s'
            | r \<Rightarrow> r)
         else decrease_bottom_nomination C c w ls m s)"

end
