(* ===== verification/Nominator.thy ===== *)
theory Nominator
  imports Candidate
begin

text \<open>
  The methods of \<open>Nominator\<close> and \<open>PendingNominationRequests\<close> (\<open>lib.rs\<close>), and
  \<open>nominator_leaves_candidate\<close> (\<open>impls.rs\<close>) that they call. \<open>self\<close> is the argument \<open>n\<close>. The type
  parameter \<open>Balance\<close> of the source is \<open>u128\<close>, whose plain \<open>+=\<close> and \<open>-\<close> wrap.
\<close>

subsection \<open>Pending requests\<close>

definition pr_bond_less ::
  "acct \<Rightarrow> balance \<Rightarrow> round_index \<Rightarrow> PendingNominationRequests \<Rightarrow>
   error + PendingNominationRequests" where
  "pr_bond_less v a when p =
     (if bt_get (requests p) v \<noteq> None
      then Inl (StakingError PendingNominationRequestAlreadyExists)
      else Inr (p\<lparr>requests := bt_insert v \<lparr>nq_validator = v, nq_amount = a,
                    nq_when_executable = when, nq_action = Decrease\<rparr> (requests p),
                  less_total := add128 (less_total p) a\<rparr>))"

definition pr_revoke ::
  "acct \<Rightarrow> balance \<Rightarrow> round_index \<Rightarrow> PendingNominationRequests \<Rightarrow>
   error + PendingNominationRequests" where
  "pr_revoke v a when p =
     (if bt_get (requests p) v \<noteq> None
      then Inl (StakingError PendingNominationRequestAlreadyExists)
      else Inr (p\<lparr>requests := bt_insert v \<lparr>nq_validator = v, nq_amount = a,
                    nq_when_executable = when, nq_action = Revoke\<rparr> (requests p),
                  revocations_count := add32 (revocations_count p) 1,
                  less_total := add128 (less_total p) a\<rparr>))"

subsection \<open>Queries and small updates\<close>

definition Nominator_new :: "acct \<Rightarrow> acct \<Rightarrow> balance \<Rightarrow> Nominator" where
  "Nominator_new i v a =
     \<lparr>nr_id = i, nr_nominations = [(v, a)], nr_initial_nominations = [(v, a)], nr_total = a,
      nr_requests = PendingNominationRequests_new, nr_status = NActive, nr_reward_dst = DstStaked,
      nr_awarded_tokens = 0, nr_awarded_tokens_per_candidate = [(v, 0)]\<rparr>"

definition nr_is_active :: "Nominator \<Rightarrow> bool" where
  "nr_is_active n = (nr_status n = NActive)"

definition nr_is_leaving :: "Nominator \<Rightarrow> bool" where
  "nr_is_leaving n = (case nr_status n of NLeaving _ \<Rightarrow> True | _ \<Rightarrow> False)"

definition nr_is_revoking :: "acct \<Rightarrow> Nominator \<Rightarrow> bool" where
  "nr_is_revoking c n =
     (case bt_get (requests (nr_requests n)) c of Some q \<Rightarrow> nq_action q = Revoke | None \<Rightarrow> False)"

definition nr_is_decreasing :: "acct \<Rightarrow> Nominator \<Rightarrow> bool" where
  "nr_is_decreasing c n =
     (case bt_get (requests (nr_requests n)) c of Some q \<Rightarrow> nq_action q = Decrease | None \<Rightarrow> False)"

definition nr_replace_nominations :: "acct \<Rightarrow> acct \<Rightarrow> Nominator \<Rightarrow> Nominator" where
  "nr_replace_nominations old new n =
     (let n1 = (case bt_get (nr_nominations n) old of
                  Some a \<Rightarrow> n\<lparr>nr_nominations := bt_insert new a (bt_remove old (nr_nominations n))\<rparr>
                | None \<Rightarrow> n)
      in (case bt_get (nr_initial_nominations n1) old of
            Some a \<Rightarrow> n1\<lparr>nr_initial_nominations :=
                       bt_insert new a (bt_remove old (nr_initial_nominations n1))\<rparr>
          | None \<Rightarrow> n1))"

definition nr_replace_requests :: "acct \<Rightarrow> acct \<Rightarrow> Nominator \<Rightarrow> Nominator" where
  "nr_replace_requests old new n =
     (case bt_get (requests (nr_requests n)) old of
        Some q \<Rightarrow>
          n\<lparr>nr_requests := (nr_requests n)\<lparr>requests :=
              bt_insert new (q\<lparr>nq_validator := new\<rparr>)
                (bt_remove old (requests (nr_requests n)))\<rparr>\<rparr>
      | None \<Rightarrow> n)"

definition nr_increment_awarded_tokens :: "acct \<Rightarrow> balance \<Rightarrow> Nominator \<Rightarrow> Nominator" where
  "nr_increment_awarded_tokens v x n =
     n\<lparr>nr_awarded_tokens_per_candidate :=
         (case bt_get (nr_awarded_tokens_per_candidate n) v of
            Some y \<Rightarrow> bt_insert v (add128 y x) (nr_awarded_tokens_per_candidate n)
          | None \<Rightarrow> nr_awarded_tokens_per_candidate n),
       nr_awarded_tokens := add128 (nr_awarded_tokens n) x\<rparr>"

definition nr_can_execute_leave :: "'w staking \<Rightarrow> nat \<Rightarrow> Nominator \<Rightarrow> error option" where
  "nr_can_execute_leave s hint n =
     (if hint < as_u32 (length (nr_nominations n))
      then Some (StakingError TooLowNominationCountToLeaveNominators)
      else (case nr_status n of
              NLeaving when \<Rightarrow>
                if when \<le> current_round_index (Round s) then None
                else Some (StakingError NominatorCannotLeaveYet)
            | _ \<Rightarrow> Some (StakingError NominatorNotLeaving)))"

definition nr_schedule_leave ::
  "'w Config \<Rightarrow> 'w staking \<Rightarrow> Nominator \<Rightarrow> Nominator \<times> round_index \<times> round_index" where
  "nr_schedule_leave C s n =
     (let now = current_round_index (Round s); when = add32 now (LeaveNominatorsDelay C)
      in (n\<lparr>nr_status := NLeaving when\<rparr>, now, when))"

definition nr_cancel_leave :: "Nominator \<Rightarrow> Nominator" where
  "nr_cancel_leave n = n\<lparr>nr_status := NActive\<rparr>"

definition nr_add_nomination :: "acct \<Rightarrow> balance \<Rightarrow> Nominator \<Rightarrow> error + Nominator" where
  "nr_add_nomination c a n =
     (if bt_contains c (nr_nominations n) then Inl (StakingError AlreadyNominatedCandidate)
      else Inr (n\<lparr>nr_nominations := bt_insert c a (nr_nominations n),
                  nr_total := add128 (nr_total n) a,
                  nr_initial_nominations := bt_insert c a (nr_initial_nominations n),
                  nr_awarded_tokens_per_candidate :=
                    bt_insert c 0 (nr_awarded_tokens_per_candidate n)\<rparr>))"

subsection \<open>Increasing\<close>

definition nr_increase_nomination ::
  "'w Config \<Rightarrow> acct \<Rightarrow> balance \<Rightarrow> Nominator \<Rightarrow> 'w staking \<Rightarrow>
   ('w staking, error, Nominator) outcome" where
  "nr_increase_nomination C c a n s =
     (case bt_get (nr_nominations n) c of
        None \<Rightarrow> Fail (StakingError NominationDNE) s
      | Some before \<Rightarrow>
          let n1 = n\<lparr>nr_nominations := bt_insert c (add128 before a) (nr_nominations n),
                     nr_total := add128 (nr_total n) a\<rparr>
          in (case bt_get (CandidateInfo s) c of
                None \<Rightarrow> Fail (StakingError CandidateDNE) s
              | Some v \<Rightarrow>
                  bind_outcome (cur_reserve C (nr_id n) a s) (\<lambda>_ s1.
                  bind_outcome (cm_increase_nomination C c (nr_id n) before a v s1)
                    (\<lambda>(in_top, v1) s2.
                      let s3 = update_active c (voting_power v1) s2;
                          s4 = s3\<lparr>Total := sat_add128 (Total s3) a\<rparr>;
                          s5 = put_candidate c v1 s4;
                          s6 = put_nominator (nr_id n) n1 s5
                      in Done n1 (deposit_event (NominationIncreased (nr_id n) c a in_top) s6)))))"

subsection \<open>Scheduling, executing and cancelling requests\<close>

definition nr_schedule_decrease_nomination ::
  "'w Config \<Rightarrow> 'w staking \<Rightarrow> acct \<Rightarrow> balance \<Rightarrow> Nominator \<Rightarrow> error + (Nominator \<times> round_index)" where
  "nr_schedule_decrease_nomination C s v ls n =
     (case bt_get (nr_nominations n) v of
        None \<Rightarrow> Inl (StakingError NominationDNE)
      | Some a \<Rightarrow>
          if \<not> ls < a then Inl (StakingError NominatorBondBelowMin)
          else if a - ls < MinNomination C then Inl (StakingError NominationBelowMin)
          else
            let net_total = sub128 (nr_total n) (less_total (nr_requests n));
                max_subtracted = sub128 net_total (MinNominatorStk C)
            in if max_subtracted < ls then Inl (StakingError NominatorBondBelowMin)
               else let when = add32 (current_round_index (Round s)) (NominationBondLessDelay C)
                    in (case pr_bond_less v ls when (nr_requests n) of
                          Inl e \<Rightarrow> Inl e
                        | Inr p \<Rightarrow> Inr (n\<lparr>nr_requests := p\<rparr>, when)))"

definition nr_schedule_revoke ::
  "'w Config \<Rightarrow> 'w staking \<Rightarrow> acct \<Rightarrow> Nominator \<Rightarrow>
   error + (Nominator \<times> round_index \<times> round_index)" where
  "nr_schedule_revoke C s v n =
     (case bt_get (nr_nominations n) v of
        None \<Rightarrow> Inl (StakingError NominationDNE)
      | Some a \<Rightarrow>
          let now = current_round_index (Round s); when = add32 now (RevokeNominationDelay C)
          in (case pr_revoke v a when (nr_requests n) of
                Inl e \<Rightarrow> Inl e
              | Inr p \<Rightarrow> Inr (n\<lparr>nr_requests := p\<rparr>, now, when)))"

definition nominator_leaves_candidate ::
  "'w Config \<Rightarrow> acct \<Rightarrow> acct \<Rightarrow> balance \<Rightarrow> 'w staking \<Rightarrow> ('w staking, error, unit) outcome" where
  "nominator_leaves_candidate C c w a s =
     (case bt_get (CandidateInfo s) c of
        None \<Rightarrow> Fail (StakingError CandidateDNE) s
      | Some st \<Rightarrow>
          bind_outcome (rm_nomination_if_exists C c w a st s) (\<lambda>(_, st1) s1.
            let s2 = cur_unreserve C w a s1;
                s3 = s2\<lparr>Total := sat_sub (Total s2) a\<rparr>;
                s4 = put_candidate c st1 s3
            in Done () (deposit_event (NominatorLeftCandidate w c a (voting_power st1)) s4)))"

definition nr_execute_revoke ::
  "'w Config \<Rightarrow> acct \<Rightarrow> balance \<Rightarrow> Nominator \<Rightarrow> 'w staking \<Rightarrow> ('w staking, error, unit) outcome" where
  "nr_execute_revoke C c a n s =
     (let leaving = (length (nr_nominations n) = 1)
      in if \<not> leaving \<and> sub128 (nr_total n) (MinNominatorStk C) < a
         then Fail (StakingError NominatorBondBelowMin) s
         else
           let n1 = n\<lparr>nr_requests := (nr_requests n)
                      \<lparr>less_total := sat_sub (less_total (nr_requests n)) a,
                       revocations_count := sat_sub (revocations_count (nr_requests n)) 1\<rparr>\<rparr>;
               n2 = fst (nr_rm_nomination c n1)
           in bind_outcome (nominator_leaves_candidate C c (nr_id n) a s) (\<lambda>_ s1.
                let s2 = deposit_event (NominationRevoked (nr_id n) c a) s1
                in Done () (if leaving
                            then deposit_event (NominatorLeft (nr_id n) a) (del_nominator (nr_id n) s2)
                            else put_nominator (nr_id n) n2 s2)))"

definition nr_execute_decrease ::
  "'w Config \<Rightarrow> acct \<Rightarrow> balance \<Rightarrow> Nominator \<Rightarrow> 'w staking \<Rightarrow> ('w staking, error, unit) outcome" where
  "nr_execute_decrease C c a n s =
     (let n1 = n\<lparr>nr_requests := (nr_requests n)
                \<lparr>less_total := sat_sub (less_total (nr_requests n)) a\<rparr>\<rparr>
      in (case bt_get (nr_nominations n1) c of
            None \<Rightarrow> Fail (StakingError NominationDNE) s
          | Some before \<Rightarrow>
              if \<not> a < before then Fail (StakingError NominationBelowMin) s
              else
                let n2 = n1\<lparr>nr_nominations := bt_insert c (sat_sub before a) (nr_nominations n1),
                            nr_total := sat_sub (nr_total n1) a\<rparr>
                in if nr_total n2 < MinNomination C then Fail (StakingError NominationBelowMin) s
                   else if nr_total n2 < MinNominatorStk C
                     then Fail (StakingError NominatorBondBelowMin) s
                   else (case bt_get (CandidateInfo s) c of
                           None \<Rightarrow> Fail (StakingError CandidateDNE) s
                         | Some v \<Rightarrow>
                             bind_outcome (cm_decrease_nomination C c (nr_id n) before a v
                                 (cur_unreserve C (nr_id n) a s))
                               (\<lambda>(in_top, v1) s1.
                                 let s2 = put_candidate c v1 s1;
                                     s3 = s2\<lparr>Total := sat_sub (Total s2) a\<rparr>;
                                     s4 = put_nominator (nr_id n) n2 s3
                                 in Done () (deposit_event
                                      (NominationDecreased (nr_id n) c a in_top) s4)))))"

definition nr_execute_pending_request ::
  "'w Config \<Rightarrow> acct \<Rightarrow> Nominator \<Rightarrow> 'w staking \<Rightarrow> ('w staking, error, unit) outcome" where
  "nr_execute_pending_request C c n s =
     (case bt_get (requests (nr_requests n)) c of
        None \<Rightarrow> Fail (StakingError PendingNominationRequestDNE) s
      | Some q \<Rightarrow>
          let n1 = n\<lparr>nr_requests := (nr_requests n)
                      \<lparr>requests := bt_remove c (requests (nr_requests n))\<rparr>\<rparr>
          in if current_round_index (Round s) < nq_when_executable q
             then Fail (StakingError PendingNominationRequestNotDueYet) s
             else (case nq_action q of
                     Revoke \<Rightarrow> nr_execute_revoke C c (nq_amount q) n1 s
                   | Decrease \<Rightarrow> nr_execute_decrease C c (nq_amount q) n1 s))"

definition nr_cancel_pending_request :: "acct \<Rightarrow> Nominator \<Rightarrow> error + (Nominator \<times> NominationRequest)" where
  "nr_cancel_pending_request c n =
     (case bt_get (requests (nr_requests n)) c of
        None \<Rightarrow> Inl (StakingError PendingNominationRequestDNE)
      | Some q \<Rightarrow>
          let p = (nr_requests n)\<lparr>requests := bt_remove c (requests (nr_requests n))\<rparr>;
              p1 = (case nq_action q of
                      Revoke \<Rightarrow> p\<lparr>revocations_count := sat_sub (revocations_count p) 1,
                                  less_total := sat_sub (less_total p) (nq_amount q)\<rparr>
                    | Decrease \<Rightarrow> p\<lparr>less_total := sat_sub (less_total p) (nq_amount q)\<rparr>)
          in Inr (n\<lparr>nr_requests := p1\<rparr>, q))"

end
