(* ===== verification/Inflation.thy ===== *)
theory Inflation
  imports Staking_State
begin

text \<open>
  Inflation of a round (\<open>pallets/bfc-staking/src/inflation.rs\<close>). The conversion of one annual rate
  to a round rate uses fixed-point powers of \<open>substrate_fixed\<close>, which are the parameter
  \<open>pb_annual_to_round\<close>; \<open>None\<close> is the panic of a division by zero.
\<close>

definition SECONDS_PER_YEAR :: nat where "SECONDS_PER_YEAR = 31557600"
definition SECONDS_PER_BLOCK :: nat where "SECONDS_PER_BLOCK = 3"
definition BLOCKS_PER_YEAR :: nat where "BLOCKS_PER_YEAR = SECONDS_PER_YEAR div SECONDS_PER_BLOCK"

definition rounds_per_year :: "nat \<Rightarrow> nat option" where
  "rounds_per_year blocks_per_round =
     (if blocks_per_round = 0 then None else Some (BLOCKS_PER_YEAR div blocks_per_round))"

definition perbill_annual_to_perbill_round :: "'w Config \<Rightarrow> Range \<Rightarrow> nat \<Rightarrow> Range option" where
  "perbill_annual_to_perbill_round C annual n =
     (if n = 0 then None
      else Some \<lparr>rg_min = pb_annual_to_round C (rg_min annual) n,
                 rg_ideal = pb_annual_to_round C (rg_ideal annual) n,
                 rg_max = pb_annual_to_round C (rg_max annual) n\<rparr>)"

definition annual_to_round :: "'w Config \<Rightarrow> 'w staking \<Rightarrow> Range \<Rightarrow> Range option" where
  "annual_to_round C s annual =
     Option.bind (rounds_per_year (round_length (Round s))) (perbill_annual_to_perbill_round C annual)"

definition round_issuance_range :: "'w Config \<Rightarrow> 'w staking \<Rightarrow> Range \<Rightarrow> Range" where
  "round_issuance_range C s r =
     (let circulating = total_issuance C (world s)
      in \<lparr>rg_min = pb_mul C (rg_min r) circulating, rg_ideal = pb_mul C (rg_ideal r) circulating,
          rg_max = pb_mul C (rg_max r) circulating\<rparr>)"

definition set_round_from_annual ::
  "'w Config \<Rightarrow> 'w staking \<Rightarrow> Range \<Rightarrow> InflationInfo \<Rightarrow> InflationInfo option" where
  "set_round_from_annual C s new i = map_option (\<lambda>r. i\<lparr>inf_round := r\<rparr>) (annual_to_round C s new)"

definition reset_round :: "'w Config \<Rightarrow> nat \<Rightarrow> InflationInfo \<Rightarrow> InflationInfo option" where
  "reset_round C new_length i =
     Option.bind (rounds_per_year new_length)
       (\<lambda>n. map_option (\<lambda>r. i\<lparr>inf_round := r\<rparr>) (perbill_annual_to_perbill_round C (inf_annual i) n))"

definition set_expectations :: "Range \<Rightarrow> InflationInfo \<Rightarrow> InflationInfo" where
  "set_expectations e i = i\<lparr>inf_expect := e\<rparr>"

definition InflationInfo_new :: "'w Config \<Rightarrow> 'w staking \<Rightarrow> Range \<Rightarrow> Range \<Rightarrow> InflationInfo option" where
  "InflationInfo_new C s annual expct =
     map_option (\<lambda>r. \<lparr>inf_expect = expct, inf_annual = annual, inf_round = r\<rparr>)
       (annual_to_round C s annual)"

text \<open>\<open>Pallet::compute_issuance\<close> (\<open>impls.rs\<close>).\<close>

definition compute_issuance :: "'w Config \<Rightarrow> 'w staking \<Rightarrow> balance \<Rightarrow> balance" where
  "compute_issuance C s staked =
     (let i = InflationConfig s
      in if staked \<le> rg_min (inf_expect i) then pb_mul C (rg_max (inf_round i)) staked
         else if rg_max (inf_expect i) \<le> staked then pb_mul C (rg_min (inf_round i)) staked
         else pb_mul C (rg_ideal (inf_round i)) staked)"

subsection \<open>Monotone rates\<close>

text \<open>A schedule that is valid per year is valid per round when the conversion is monotone.\<close>

lemma round_range_valid:
  assumes "\<And>p q. p \<le> q \<Longrightarrow> pb_annual_to_round C p n \<le> pb_annual_to_round C q n"
    and "Range_is_valid annual" "perbill_annual_to_perbill_round C annual n = Some r"
  shows "Range_is_valid r"
  using assms by (auto simp: Range_is_valid_def perbill_annual_to_perbill_round_def split: if_splits)

lemma compute_issuance_cases:
  "compute_issuance C s staked \<in>
     {pb_mul C (rg_min (inf_round (InflationConfig s))) staked,
      pb_mul C (rg_ideal (inf_round (InflationConfig s))) staked,
      pb_mul C (rg_max (inf_round (InflationConfig s))) staked}"
  by (auto simp: compute_issuance_def Let_def)

end
