(* ===== verification/Staking_Impl.thy ===== *)
theory Staking_Impl
  imports Nominator Inflation
begin

text \<open>
  The functions of \<open>pallets/bfc-staking/src/pallet/impls.rs\<close> and of \<open>RoundInfo\<close> (\<open>lib.rs\<close>): the
  candidate pool, the selected set and its caches, payouts, snapshots, round and session changes,
  kick-outs and slashes. Weights are left out. \<open>expect\<close> that fails is \<open>Panic\<close>.
\<close>

subsection \<open>Rounds\<close>

definition ri_should_update :: "block_number \<Rightarrow> RoundInfo \<Rightarrow> bool" where
  "ri_should_update now r = (round_length r \<le> sub32 now (first_round_block r))"

definition ri_update_round :: "session_index \<Rightarrow> block_number \<Rightarrow> RoundInfo \<Rightarrow> RoundInfo" where
  "ri_update_round session now r =
     r\<lparr>current_round_index := add32 (current_round_index r) 1, first_session_index := session,
       current_session_index := session, first_round_block := now, first_session_block := now,
       current_block := now\<rparr>"

definition ri_update_session :: "block_number \<Rightarrow> session_index \<Rightarrow> RoundInfo \<Rightarrow> RoundInfo" where
  "ri_update_session now new_session r =
     r\<lparr>current_session_index := new_session, first_session_block := now\<rparr>"

definition ri_update_block :: "block_number \<Rightarrow> RoundInfo \<Rightarrow> RoundInfo" where
  "ri_update_block now r = r\<lparr>current_block := now\<rparr>"

definition RoundInfo_default :: RoundInfo where
  "RoundInfo_default =
     \<lparr>current_round_index = 1, first_session_index = 1, current_session_index = 1,
      first_round_block = 0, first_session_block = 0, current_block = 0, round_length = 20,
      session_length = 200\<rparr>"

subsection \<open>Queries\<close>

definition is_nominator :: "acct \<Rightarrow> 'w staking \<Rightarrow> bool" where
  "is_nominator a s = (NominatorState s a \<noteq> None)"

definition is_candidate :: "acct \<Rightarrow> TierType \<Rightarrow> 'w staking \<Rightarrow> bool" where
  "is_candidate a t s =
     (case bt_get (CandidateInfo s) a of
        None \<Rightarrow> False
      | Some st \<Rightarrow> (case t of All \<Rightarrow> True | _ \<Rightarrow> tier st = t))"

definition is_selected_candidate :: "acct \<Rightarrow> TierType \<Rightarrow> 'w staking \<Rightarrow> bool" where
  "is_selected_candidate a t s = (set_contains a (SelectedCandidates s) \<and> is_candidate a t s)"

abbreviation now_round :: "'w staking \<Rightarrow> round_index" where
  "now_round s \<equiv> current_round_index (Round s)"

definition is_controller_set_requested :: "acct \<Rightarrow> 'w staking \<Rightarrow> bool" where
  "is_controller_set_requested c s =
     list_ex (\<lambda>d. dc_old d = c) (DelayedControllerSets s (now_round s))"

definition is_commission_set_requested :: "acct \<Rightarrow> 'w staking \<Rightarrow> bool" where
  "is_commission_set_requested w s =
     list_ex (\<lambda>d. dm_who d = w) (DelayedCommissionSets s (now_round s))"

subsection \<open>Delayed requests\<close>

definition add_to_controller_sets ::
  "acct \<Rightarrow> acct \<Rightarrow> acct \<Rightarrow> 'w staking \<Rightarrow> ('w staking, error, unit) outcome" where
  "add_to_controller_sets st old new s =
     (let r = now_round s; sets = DelayedControllerSets s r
      in if list_ex (\<lambda>d. dc_old d = old \<or> dc_new d = new) sets
         then Fail (StakingError AlreadyControllerSetRequested) s
         else (case try_push sets \<lparr>dc_stash = st, dc_old = old, dc_new = new\<rparr> of
                 None \<Rightarrow> Fail (StakingError TooManyDelayedControllers) s
               | Some sets' \<Rightarrow>
                   Done () (s\<lparr>DelayedControllerSets := (DelayedControllerSets s)(r := sets')\<rparr>)))"

definition add_to_commission_sets ::
  "acct \<Rightarrow> perbill \<Rightarrow> perbill \<Rightarrow> 'w staking \<Rightarrow> ('w staking, error, unit) outcome" where
  "add_to_commission_sets w old new s =
     (let r = now_round s
      in (case try_push (DelayedCommissionSets s r) \<lparr>dm_who = w, dm_old = old, dm_new = new\<rparr> of
            None \<Rightarrow> Fail (StakingError TooManyDelayedCommissions) s
          | Some sets' \<Rightarrow>
              Done () (s\<lparr>DelayedCommissionSets := (DelayedCommissionSets s)(r := sets')\<rparr>)))"

definition remove_controller_set :: "acct \<Rightarrow> 'w staking \<Rightarrow> 'w staking" where
  "remove_controller_set w s =
     s\<lparr>DelayedControllerSets := (DelayedControllerSets s)
         (now_round s := filter (\<lambda>d. dc_old d \<noteq> w) (DelayedControllerSets s (now_round s)))\<rparr>"

definition remove_commission_set :: "acct \<Rightarrow> 'w staking \<Rightarrow> 'w staking" where
  "remove_commission_set w s =
     s\<lparr>DelayedCommissionSets := (DelayedCommissionSets s)
         (now_round s := filter (\<lambda>d. dm_who d \<noteq> w) (DelayedCommissionSets s (now_round s)))\<rparr>"

subsection \<open>Candidate pool and selected candidates\<close>

definition get_sorted_candidates :: "'w staking \<Rightarrow> Bond list" where
  "get_sorted_candidates s = sort_desc (map (\<lambda>(o', a). \<lparr>owner = o', amount = a\<rparr>) (CandidatePool s))"

definition remove_from_candidate_pool :: "acct \<Rightarrow> 'w staking \<Rightarrow> bool \<times> 'w staking" where
  "remove_from_candidate_pool c s =
     (bt_contains c (CandidatePool s), s\<lparr>CandidatePool := bt_remove c (CandidatePool s)\<rparr>)"

definition replace_from_candidate_pool ::
  "acct \<Rightarrow> acct \<Rightarrow> 'w staking \<Rightarrow> ('w staking, error, unit) outcome" where
  "replace_from_candidate_pool old new s =
     (case bt_get (CandidatePool s) old of
        None \<Rightarrow> Done () s
      | Some b \<Rightarrow>
          (case bt_try_insert new b (bt_remove old (CandidatePool s)) of
             None \<Rightarrow> Panic
           | Some p \<Rightarrow> Done () (s\<lparr>CandidatePool := p\<rparr>)))"

definition add_to_selected_candidates ::
  "acct \<Rightarrow> TierType \<Rightarrow> 'w staking \<Rightarrow> ('w staking, error, unit) outcome" where
  "add_to_selected_candidates c t s =
     (case bt_try_insert c () (SelectedCandidates s) of
        None \<Rightarrow> Panic
      | Some sel \<Rightarrow>
          let s1 = s\<lparr>SelectedCandidates := sel\<rparr>
          in (case t of
                Full \<Rightarrow> (case bt_try_insert c () (SelectedFullCandidates s1) of
                           None \<Rightarrow> Panic
                         | Some f \<Rightarrow> Done () (s1\<lparr>SelectedFullCandidates := f\<rparr>))
              | _ \<Rightarrow> (case bt_try_insert c () (SelectedBasicCandidates s1) of
                        None \<Rightarrow> Panic
                      | Some b \<Rightarrow> Done () (s1\<lparr>SelectedBasicCandidates := b\<rparr>))))"

definition remove_from_selected_candidates :: "acct \<Rightarrow> TierType \<Rightarrow> 'w staking \<Rightarrow> 'w staking" where
  "remove_from_selected_candidates c t s =
     (let s1 = s\<lparr>SelectedCandidates := bt_remove c (SelectedCandidates s)\<rparr>
      in (case t of
            Full \<Rightarrow> s1\<lparr>SelectedFullCandidates := bt_remove c (SelectedFullCandidates s1)\<rparr>
          | _ \<Rightarrow> s1\<lparr>SelectedBasicCandidates := bt_remove c (SelectedBasicCandidates s1)\<rparr>))"

subsection \<open>Caches of past rounds\<close>

definition refresh_cached_selected_candidates :: "round_index \<Rightarrow> acct_set \<Rightarrow> 'w staking \<Rightarrow> 'w staking" where
  "refresh_cached_selected_candidates now vs s =
     s\<lparr>CachedSelectedCandidates :=
         cache_insert (StorageCacheLifetime s) now vs (CachedSelectedCandidates s)\<rparr>"

definition refresh_latest_cached_selected_candidates :: "'w staking \<Rightarrow> 'w staking" where
  "refresh_latest_cached_selected_candidates s =
     s\<lparr>CachedSelectedCandidates :=
         bt_insert (now_round s) (SelectedCandidates s) (CachedSelectedCandidates s)\<rparr>"

definition refresh_latest_cached_majority :: "'w staking \<Rightarrow> 'w staking" where
  "refresh_latest_cached_majority s =
     s\<lparr>CachedMajority := bt_insert (now_round s) (Majority s) (CachedMajority s)\<rparr>"

definition compute_majority :: "'w staking \<Rightarrow> nat" where
  "compute_majority s = add32 (as_u32 (length (SelectedCandidates s)) div 2) 1"

definition refresh_majority :: "round_index \<Rightarrow> 'w staking \<Rightarrow> 'w staking" where
  "refresh_majority now s =
     (let m = compute_majority s
      in s\<lparr>CachedMajority := cache_insert (StorageCacheLifetime s) now m (CachedMajority s),
           Majority := m\<rparr>)"

definition replace_from_selected_candidates ::
  "acct \<Rightarrow> acct \<Rightarrow> TierType \<Rightarrow> 'w staking \<Rightarrow> ('w staking, error, unit) outcome" where
  "replace_from_selected_candidates old new t s =
     bind_outcome (add_to_selected_candidates new t (remove_from_selected_candidates old t s))
       (\<lambda>_ s1. Done () (refresh_latest_cached_selected_candidates s1))"

subsection \<open>Payouts\<close>

definition prepare_staking_payouts :: "'w Config \<Rightarrow> round_index \<Rightarrow> 'w staking \<Rightarrow> 'w staking" where
  "prepare_staking_payouts C now s =
     (if now \<le> RewardPaymentDelay C then s
      else
        let r = now - RewardPaymentDelay C
        in if Points s r = 0 then s
           else
             let total_staked = Staked s r;
                 s1 = s\<lparr>Staked := (Staked s)(r := 0)\<rparr>;
                 issuance = compute_issuance C s1 total_staked
             in s1\<lparr>DelayedPayouts := (DelayedPayouts s1)(r \<mapsto>
                    \<lparr>dp_round_issuance = issuance, dp_total_staking_reward = issuance,
                     dp_validator_commission = DefaultBasicValidatorCommission s1\<rparr>)\<rparr>)"

definition mint_reward :: "'w Config \<Rightarrow> balance \<Rightarrow> acct \<Rightarrow> 'w staking \<Rightarrow> 'w staking" where
  "mint_reward C x dst s =
     (case deposit_into_existing C dst x (world s) of
        None \<Rightarrow> s
      | Some (w, y) \<Rightarrow>
          deposit_event (Rewarded dst y)
            (s\<lparr>world := w, AwardedTokens := add128 (AwardedTokens s) y\<rparr>))"

definition handle_validator_reward_payout ::
  "'w Config \<Rightarrow> acct \<Rightarrow> acct \<Rightarrow> balance \<Rightarrow> 'w staking \<Rightarrow> ('w staking, error, unit) outcome" where
  "handle_validator_reward_payout C ctrl st reward s =
     (case bt_get (CandidateInfo s) ctrl of
        None \<Rightarrow> Done () s
      | Some v \<Rightarrow>
          let s1 = mint_reward C reward st s;
              v1 = cm_increment_awarded_tokens reward v
          in if reward_dst v1 = DstStaked then
               bind_outcome (cm_bond_more C (stash v1) ctrl reward v1 s1) (\<lambda>v2 s2.
                 Done () (put_candidate ctrl v2 (update_active ctrl (voting_power v2) s2)))
             else Done () (put_candidate ctrl v1 s1))"

text \<open>
  The result of \<open>increase_nomination\<close> is inspected with \<open>is_ok()\<close>: an error leaves the storage as it
  was when it was raised, and the payout goes on.
\<close>

definition handle_nominator_reward_payout ::
  "'w Config \<Rightarrow> acct \<Rightarrow> acct \<Rightarrow> balance \<Rightarrow> 'w staking \<Rightarrow> ('w staking, error, unit) outcome" where
  "handle_nominator_reward_payout C ctrl nom reward s =
     (case NominatorState s nom of
        None \<Rightarrow> Done () s
      | Some n \<Rightarrow>
          if nr_is_active n \<and> \<not> nr_is_revoking ctrl n \<and> \<not> nr_is_decreasing ctrl n then
            let s1 = mint_reward C reward nom s;
                n1 = nr_increment_awarded_tokens ctrl reward n
            in (case nr_reward_dst n of
                  DstStaked \<Rightarrow>
                    (case nr_increase_nomination C ctrl reward n1 s1 of
                       Done n2 s2 \<Rightarrow> Done () (put_nominator nom n2 s2)
                     | Fail e s2 \<Rightarrow> Done () s2
                     | Panic \<Rightarrow> Panic)
                | DstAccount \<Rightarrow> Done () (put_nominator nom n1 s1))
          else Done () s)"

text \<open>\<open>iter_prefix(..).drain().next()\<close>: the entry whose key comes first in the storage trie.\<close>

fun first_by :: "('a \<Rightarrow> nat) \<Rightarrow> 'a list \<Rightarrow> 'a option" where
  "first_by f [] = None"
| "first_by f (x # xs) =
     (case first_by f xs of None \<Rightarrow> Some x | Some y \<Rightarrow> if f y < f x then Some y else Some x)"

text \<open>\<open>.expect(\<dots>)\<close> on a payout: an error is a panic.\<close>

definition expect_ok :: "('s, 'e, 'a) outcome \<Rightarrow> ('s, 'e, 'a) outcome" where
  "expect_ok m = (case m of Fail e s \<Rightarrow> Panic | _ \<Rightarrow> m)"

fun pay_nominators ::
  "'w Config \<Rightarrow> acct \<Rightarrow> balance \<Rightarrow> balance \<Rightarrow> Bond list \<Rightarrow> 'w staking \<Rightarrow>
   ('w staking, error, unit) outcome" where
  "pay_nominators C v tot amount_due [] s = Done () s"
| "pay_nominators C v tot amount_due (b # bs) s =
     (let pct = pb_from_rational C (amount b) tot;
          reward = pb_mul C pct amount_due
      in if reward \<noteq> 0 then
           bind_outcome (expect_ok (handle_nominator_reward_payout C v (owner b) reward s))
             (\<lambda>_ s1. pay_nominators C v tot amount_due bs s1)
         else pay_nominators C v tot amount_due bs s)"

definition pay_one_validator_reward ::
  "'w Config \<Rightarrow> round_index \<Rightarrow> DelayedPayout \<Rightarrow> 'w staking \<Rightarrow>
   ('w staking, error, (acct \<times> balance) option) outcome" where
  "pay_one_validator_reward C r info s =
     (if Points s r = 0 then Done None s
      else (case first_by (\<lambda>e. key_order C (fst e)) (AwardedPts s r) of
              None \<Rightarrow> Done None s
            | Some (v, pts) \<Rightarrow>
                let s1 = s\<lparr>AwardedPts := (AwardedPts s)(r := bt_remove v (AwardedPts s r))\<rparr>
                in (case bt_get (CandidateInfo s1) v of
                      None \<Rightarrow> Done None s1
                    | Some st \<Rightarrow>
                        let validator_issuance = pb_mul C (commission st) (dp_round_issuance info);
                            contribution = pb_from_rational C pts (Points s r);
                            total_reward = pb_mul C contribution (dp_total_staking_reward info);
                            snap = AtStake s1 r v;
                            s2 = s1\<lparr>AtStake := (AtStake s1)(r := (AtStake s1 r)
                                    (v := ValidatorSnapshot_default))\<rparr>
                        in if vs_nominations snap = [] then
                             bind_outcome
                               (expect_ok (handle_validator_reward_payout C v (stash st) total_reward s2))
                               (\<lambda>_ s3. Done (Some (v, total_reward)) s3)
                           else
                             let stake_pct = pb_from_rational C (vs_bond snap) (vs_total snap);
                                 com = pb_mul C contribution validator_issuance;
                                 amount_due = sub128 total_reward com;
                                 reward = add128 (pb_mul C stake_pct amount_due) com
                             in bind_outcome
                                  (expect_ok (handle_validator_reward_payout C v (stash st) reward s2))
                                  (\<lambda>_ s3. bind_outcome
                                    (pay_nominators C v (vs_total snap) amount_due
                                       (vs_nominations snap) s3)
                                    (\<lambda>_ s4. Done (Some (v, total_reward)) s4)))))"

definition handle_delayed_payouts ::
  "'w Config \<Rightarrow> round_index \<Rightarrow> 'w staking \<Rightarrow> ('w staking, error, unit) outcome" where
  "handle_delayed_payouts C now s =
     (if now < RewardPaymentDelay C then Done () s
      else
        let r = now - RewardPaymentDelay C
        in (case DelayedPayouts s r of
              None \<Rightarrow> Done () s
            | Some info \<Rightarrow>
                bind_outcome (pay_one_validator_reward C r info s) (\<lambda>res s1.
                  Done () (if res = None
                           then s1\<lparr>DelayedPayouts := (DelayedPayouts s1)(r := None),
                                   Points := (Points s1)(r := 0)\<rparr>
                           else s1))))"

subsection \<open>Selection\<close>

definition get_top_n_candidates :: "Bond list \<Rightarrow> nat \<Rightarrow> balance \<Rightarrow> acct list" where
  "get_top_n_candidates cs n min_stake =
     sort (map owner (take n (filter (\<lambda>x. min_stake \<le> amount x) cs)))"

definition tier_candidates :: "'w Config \<Rightarrow> bool \<Rightarrow> 'w staking \<Rightarrow> Bond list \<Rightarrow> Bond list" where
  "tier_candidates C full s cs =
     filter (\<lambda>b. case bt_get (CandidateInfo s) (owner b) of
               None \<Rightarrow> False
             | Some st \<Rightarrow> (tier st = Full) = full \<and>
                 (if full then MinFullCandidateStk C else MinBasicCandidateStk C) \<le> bond st) cs"

definition compute_top_candidates :: "'w Config \<Rightarrow> 'w staking \<Rightarrow> acct list \<times> acct list" where
  "compute_top_candidates C s =
     (let cs = get_sorted_candidates s
      in (get_top_n_candidates (tier_candidates C True s cs) (MaxFullSelected s) (MinFullValidatorStk C),
          get_top_n_candidates (tier_candidates C False s cs) (MaxBasicSelected s)
            (MinBasicValidatorStk C)))"

fun collect_validator_snapshot ::
  "round_index \<Rightarrow> acct list \<Rightarrow> nat \<times> nat \<times> balance \<Rightarrow> 'w staking \<Rightarrow>
   ('w staking, error, nat \<times> nat \<times> balance) outcome" where
  "collect_validator_snapshot now [] acc s = Done acc s"
| "collect_validator_snapshot now (v # vs) (vc, nc, tot) s =
     (case (bt_get (CandidateInfo s) v, TopNominations s v) of
        (Some st, Some tops) \<Rightarrow>
          let snap = \<lparr>vs_bond = bond st, vs_nominations = nominations tops,
                      vs_total = voting_power st\<rparr>;
              s1 = s\<lparr>AtStake := (AtStake s)(now := (AtStake s now)(v := snap))\<rparr>;
              s2 = put_candidate v (st\<lparr>is_selected := True\<rparr>) s1;
              s3 = deposit_event (ValidatorChosen now v (voting_power st)) s2
          in collect_validator_snapshot now vs
               (add32 vc 1, add32 nc (nomination_count st), add128 tot (voting_power st)) s3
      | _ \<Rightarrow> Panic)"

definition update_top_candidates ::
  "'w Config \<Rightarrow> round_index \<Rightarrow> acct list \<Rightarrow> acct list \<Rightarrow> 'w staking \<Rightarrow>
   ('w staking, error, nat \<times> nat \<times> balance) outcome" where
  "update_top_candidates C now full basic s =
     bind_outcome (collect_validator_snapshot now full (0, 0, 0) s) (\<lambda>(fv, fn, ft) s1.
     bind_outcome (collect_validator_snapshot now basic (0, 0, 0) s1) (\<lambda>(bv, bn, bt) s2.
       (case (bounded_set (full @ basic), bounded_set full, bounded_set basic) of
          (Some sel, Some selF, Some selB) \<Rightarrow>
            let s3 = s2\<lparr>SelectedCandidates := sel, SelectedFullCandidates := selF,
                        SelectedBasicCandidates := selB\<rparr>;
                s4 = refresh_cached_selected_candidates now sel s3
            in (case RM_refresh_selected_relayers C now full (world s4) of
                  None \<Rightarrow> Panic
                | Some w \<Rightarrow>
                    Done (add32 fv bv, add32 fn bn, add128 ft bt) (s4\<lparr>world := w\<rparr>))
        | _ \<Rightarrow> Panic)))"

subsection \<open>Authors, productivity and the total snapshot\<close>

text \<open>\<open>Pallet::note_author\<close> and the event handler of the authorship pallet that calls it.\<close>

definition note_author_points :: "acct \<Rightarrow> 'w staking \<Rightarrow> 'w staking" where
  "note_author_points a s =
     (let r = now_round s;
          s1 = (case bt_get (CandidateInfo s) a of
                  None \<Rightarrow> s
                | Some st \<Rightarrow>
                    put_candidate a (cm_increment_blocks_produced
                      (cm_set_last_block (add32 (current_block (Round s)) 1) st)) s);
          pts = (case bt_get (AwardedPts s1 r) a of None \<Rightarrow> 0 | Some x \<Rightarrow> x)
      in s1\<lparr>AwardedPts := (AwardedPts s1)(r := bt_insert a (add32 pts 5) (AwardedPts s1 r)),
            Points := (Points s1)(r := add32 (Points s1 r) 5)\<rparr>)"

definition note_author :: "acct \<Rightarrow> 'w staking \<Rightarrow> 'w staking" where
  "note_author a s =
     (let s1 = note_author_points a s
      in (case bt_get (CandidateInfo s1) a of
            None \<Rightarrow> s1
          | Some st \<Rightarrow> put_candidate a (st\<lparr>productivity_status := PActive\<rparr>) s1))"

definition reset_candidate_states :: "'w Config \<Rightarrow> 'w staking \<Rightarrow> 'w staking" where
  "reset_candidate_states C s =
     s\<lparr>CandidateInfo := map (\<lambda>(k, st). (k, (cm_reset_productivity C (cm_reset_blocks_produced st))
                                  \<lparr>is_selected := False\<rparr>)) (CandidateInfo s)\<rparr>"

fun compute_productivity :: "'w Config \<Rightarrow> acct list \<Rightarrow> 'w staking \<Rightarrow> 'w staking" where
  "compute_productivity C [] s = s"
| "compute_productivity C (v # vs) s =
     compute_productivity C vs
       (case bt_get (CandidateInfo s) v of
          None \<Rightarrow> s
        | Some st \<Rightarrow>
            put_candidate v (if productivity_status st = PIdle then cm_decrement_productivity C s st
                             else st) s)"

definition calculate_productivity_per_block :: "'w Config \<Rightarrow> nat \<Rightarrow> nat \<Rightarrow> perbill" where
  "calculate_productivity_per_block C validator_count rlen =
     (if validator_count = 0 then 0
      else let blocks_per_validator = add32 (rlen div validator_count) 1
           in if blocks_per_validator = 0 then 0
              else pb_from_percent C (add32 (100 div blocks_per_validator) 1))"

definition refresh_productivity_per_block :: "'w Config \<Rightarrow> nat \<Rightarrow> nat \<Rightarrow> 'w staking \<Rightarrow> 'w staking" where
  "refresh_productivity_per_block C vc rlen s =
     s\<lparr>ProductivityPerBlock := calculate_productivity_per_block C vc rlen\<rparr>"

definition snapshot_active ::
  "CandidateMetadata \<Rightarrow> Nominations \<Rightarrow> Nominations \<Rightarrow> TotalSnapshot \<Rightarrow> TotalSnapshot" where
  "snapshot_active st t l z =
     z\<lparr>active_self_bond := sat_add128 (active_self_bond z) (bond st),
       active_nominations := sat_add128 (active_nominations z) (add128 (noms_total t) (noms_total l)),
       active_top_nominations := sat_add128 (active_top_nominations z) (noms_total t),
       active_bottom_nominations := sat_add128 (active_bottom_nominations z) (noms_total l),
       active_nominators := sat_add32 (active_nominators z) (add32 (noms_count t) (noms_count l)),
       active_top_nominators := sat_add32 (active_top_nominators z) (noms_count t),
       active_bottom_nominators := sat_add32 (active_bottom_nominators z) (noms_count l),
       active_stake := sat_add128 (active_stake z)
         (add128 (add128 (bond st) (noms_total t)) (noms_total l)),
       active_voting_power := sat_add128 (active_voting_power z) (voting_power st)\<rparr>"

definition snapshot_total ::
  "CandidateMetadata \<Rightarrow> Nominations \<Rightarrow> Nominations \<Rightarrow> TotalSnapshot \<Rightarrow> TotalSnapshot" where
  "snapshot_total st t l z =
     z\<lparr>total_self_bond := sat_add128 (total_self_bond z) (bond st),
       total_nominations := sat_add128 (total_nominations z) (add128 (noms_total t) (noms_total l)),
       total_top_nominations := sat_add128 (total_top_nominations z) (noms_total t),
       total_bottom_nominations := sat_add128 (total_bottom_nominations z) (noms_total l),
       total_nominators := sat_add32 (total_nominators z) (add32 (noms_count t) (noms_count l)),
       total_top_nominators := sat_add32 (total_top_nominators z) (noms_count t),
       total_bottom_nominators := sat_add32 (total_bottom_nominators z) (noms_count l),
       total_stake := sat_add128 (total_stake z)
         (add128 (add128 (bond st) (noms_total t)) (noms_total l)),
       total_voting_power := sat_add128 (total_voting_power z) (voting_power st)\<rparr>"

fun snapshot_loop ::
  "'w staking \<Rightarrow> (acct \<times> CandidateMetadata) list \<Rightarrow> TotalSnapshot \<Rightarrow> TotalSnapshot option" where
  "snapshot_loop s [] z = Some z"
| "snapshot_loop s ((c, st) # cs) z =
     (case (TopNominations s c, BottomNominations s c) of
        (Some t, Some l) \<Rightarrow>
          let z1 = (if set_contains c (SelectedCandidates s) then snapshot_active st t l z else z)
          in snapshot_loop s cs (snapshot_total st t l z1)
      | _ \<Rightarrow> None)"

definition refresh_total_snapshot :: "round_index \<Rightarrow> 'w staking \<Rightarrow> ('w staking, error, unit) outcome" where
  "refresh_total_snapshot now s =
     (case snapshot_loop s (CandidateInfo s) TotalSnapshot_default of
        None \<Rightarrow> Panic
      | Some z \<Rightarrow> Done () (s\<lparr>TotalAtStake := (TotalAtStake s)(now \<mapsto> z)\<rparr>))"

subsection \<open>Kick-outs and slashes\<close>

definition kickout_validator :: "'w Config \<Rightarrow> acct \<Rightarrow> 'w staking \<Rightarrow> ('w staking, error, unit) outcome" where
  "kickout_validator C w s =
     (let s1 = snd (remove_from_candidate_pool w s)
      in (case bt_get (CandidateInfo s1) w of
            None \<Rightarrow> Panic
          | Some st \<Rightarrow>
              let st1 = cm_kick_out st;
                  s2 = put_candidate w st1 s1;
                  s3 = remove_from_selected_candidates w (tier st1) s2;
                  s4 = refresh_latest_cached_selected_candidates s3;
                  s5 = s4\<lparr>Majority := compute_majority s4\<rparr>;
                  s6 = refresh_latest_cached_majority s5
              in if tier st1 = Full then
                   (case RM_kickout_relayer C w (world s6) of
                      None \<Rightarrow> Panic
                    | Some x \<Rightarrow> Done () (deposit_event (KickedOut w) (s6\<lparr>world := x\<rparr>)))
                 else Done () (deposit_event (KickedOut w) s6)))"

definition slash_reserved_bonds ::
  "'w Config \<Rightarrow> acct \<Rightarrow> balance \<Rightarrow> 'w staking \<Rightarrow> ('w staking, error, unit) outcome" where
  "slash_reserved_bonds C w slash s =
     (case bt_get (CandidateInfo s) w of
        None \<Rightarrow> Panic
      | Some st \<Rightarrow>
          let st1 = cm_slash_voting_power slash (cm_slash_bond slash st);
              st2 = (case request st1 of
                       None \<Rightarrow> st1
                     | Some q \<Rightarrow>
                         let minimum = (if tier st1 = Full then MinFullCandidateStk C
                                        else MinBasicCandidateStk C)
                         in if bond st1 \<le> cr_amount q \<or> sat_sub (bond st1) (cr_amount q) < minimum
                            then st1\<lparr>request := None\<rparr> else st1);
              s1 = s\<lparr>Total := sat_sub (Total s) slash\<rparr>
          in Done () (put_candidate w st2 s1))"

fun on_offence ::
  "'w Config \<Rightarrow> (acct \<times> perbill) list \<Rightarrow> session_index \<Rightarrow> 'w staking \<Rightarrow>
   ('w staking, error, unit) outcome" where
  "on_offence C [] slash_session s = Done () s"
| "on_offence C ((c, fraction) # os) slash_session s =
     (case bt_get (CandidateInfo s) c of
        None \<Rightarrow> on_offence C os slash_session s
      | Some st \<Rightarrow>
          if cm_is_kicked_out st then on_offence C os slash_session s
          else
            let slash = pb_mul C fraction (bond st);
                off = Offence_new (now_round s) slash_session (bond st) slash slash 0 fraction;
                ((is_slashed, slash_amount), w) =
                  OH_try_handle_offence C c (stash st) (tier st) off (world s);
                s1 = s\<lparr>world := w\<rparr>
            in if is_slashed then
                 bind_outcome (kickout_validator C c s1) (\<lambda>_ s2.
                 bind_outcome (slash_reserved_bonds C c slash_amount s2) (\<lambda>_ s3.
                   on_offence C os slash_session s3))
               else on_offence C os slash_session s1)"

subsection \<open>Delayed updates\<close>

fun handle_commission_sets :: "DelayedCommissionSet list \<Rightarrow> 'w staking \<Rightarrow> 'w staking" where
  "handle_commission_sets [] s = s"
| "handle_commission_sets (d # ds) s =
     handle_commission_sets ds
       (case bt_get (CandidateInfo s) (dm_who d) of
          None \<Rightarrow> s
        | Some st \<Rightarrow> put_candidate (dm_who d) (cm_set_commission (dm_new d) st) s)"

definition handle_delayed_commission_sets :: "round_index \<Rightarrow> 'w staking \<Rightarrow> 'w staking" where
  "handle_delayed_commission_sets now s =
     (let r = sub32 now 1
      in handle_commission_sets (DelayedCommissionSets s r)
           (s\<lparr>DelayedCommissionSets := (DelayedCommissionSets s)(r := [])\<rparr>))"

fun replace_nominator_nominations :: "acct list \<Rightarrow> acct \<Rightarrow> acct \<Rightarrow> 'w staking \<Rightarrow> 'w staking" where
  "replace_nominator_nominations [] old new s = s"
| "replace_nominator_nominations (x # xs) old new s =
     replace_nominator_nominations xs old new
       (case NominatorState s x of
          None \<Rightarrow> s
        | Some n \<Rightarrow> put_nominator x (nr_replace_requests old new (nr_replace_nominations old new n)) s)"

definition move_top :: "acct \<Rightarrow> acct \<Rightarrow> 'w staking \<Rightarrow> 'w staking" where
  "move_top old new s =
     (case TopNominations s old of
        None \<Rightarrow> s
      | Some t \<Rightarrow>
          put_top new t (replace_nominator_nominations (nominators t) old new
            (s\<lparr>TopNominations := (TopNominations s)(old := None)\<rparr>)))"

definition move_bottom :: "acct \<Rightarrow> acct \<Rightarrow> 'w staking \<Rightarrow> 'w staking" where
  "move_bottom old new s =
     (case BottomNominations s old of
        None \<Rightarrow> s
      | Some l \<Rightarrow>
          put_bottom new l (replace_nominator_nominations (nominators l) old new
            (s\<lparr>BottomNominations := (BottomNominations s)(old := None)\<rparr>)))"

definition move_awarded_pts :: "round_index \<Rightarrow> acct \<Rightarrow> acct \<Rightarrow> 'w staking \<Rightarrow> 'w staking" where
  "move_awarded_pts r old new s =
     (let pts = (case bt_get (AwardedPts s r) old of None \<Rightarrow> 0 | Some x \<Rightarrow> x)
      in s\<lparr>AwardedPts := (AwardedPts s)(r := bt_insert new pts (bt_remove old (AwardedPts s r)))\<rparr>)"

definition move_at_stake :: "round_index \<Rightarrow> acct \<Rightarrow> acct \<Rightarrow> 'w staking \<Rightarrow> 'w staking" where
  "move_at_stake r old new s =
     s\<lparr>AtStake := (AtStake s)(r := (AtStake s r)
         (old := ValidatorSnapshot_default, new := AtStake s r old))\<rparr>"

definition handle_controller_set ::
  "'w Config \<Rightarrow> round_index \<Rightarrow> round_index \<Rightarrow> DelayedControllerSet \<Rightarrow> 'w staking \<Rightarrow>
   ('w staking, error, unit) outcome" where
  "handle_controller_set C now delayed d s =
     (case bt_get (CandidateInfo s) (dc_old d) of
        None \<Rightarrow> Done () s
      | Some st \<Rightarrow>
          let old = dc_old d; new = dc_new d;
              s1 = s\<lparr>CandidateInfo := bt_insert new st (bt_remove old (CandidateInfo s)),
                     BondedStash := (BondedStash s)(dc_stash d \<mapsto> new)\<rparr>
          in bind_outcome (replace_from_candidate_pool old new s1) (\<lambda>_ s2.
             bind_outcome (if is_selected st then replace_from_selected_candidates old new (tier st) s2
                           else Done () s2) (\<lambda>_ s3.
             bind_outcome (if tier st = Full then
                             (case RM_replace_bonded_controller C old new (world s3) of
                                None \<Rightarrow> Panic
                              | Some w \<Rightarrow> Done () (s3\<lparr>world := w\<rparr>))
                           else Done () s3) (\<lambda>_ s4.
               Done () (move_at_stake now old new
                 (move_awarded_pts delayed old new
                   (move_awarded_pts now old new
                     (move_bottom old new (move_top old new s4)))))))))"

fun handle_controller_sets ::
  "'w Config \<Rightarrow> round_index \<Rightarrow> round_index \<Rightarrow> DelayedControllerSet list \<Rightarrow> 'w staking \<Rightarrow>
   ('w staking, error, unit) outcome" where
  "handle_controller_sets C now delayed [] s = Done () s"
| "handle_controller_sets C now delayed (d # ds) s =
     bind_outcome (handle_controller_set C now delayed d s)
       (\<lambda>_ s1. handle_controller_sets C now delayed ds s1)"

definition handle_delayed_controller_sets ::
  "'w Config \<Rightarrow> round_index \<Rightarrow> 'w staking \<Rightarrow> ('w staking, error, unit) outcome" where
  "handle_delayed_controller_sets C now s =
     (let r = sub32 now 1
      in handle_controller_sets C now r (DelayedControllerSets s r)
           (s\<lparr>DelayedControllerSets := (DelayedControllerSets s)(r := [])\<rparr>))"

subsection \<open>New rounds and sessions\<close>

definition new_round ::
  "'w Config \<Rightarrow> block_number \<Rightarrow> acct list \<Rightarrow> acct list \<Rightarrow> 'w staking \<Rightarrow>
   ('w staking, error, unit) outcome" where
  "new_round C blk full basic s =
     (let round = ri_update_round (Session s) blk (Round s);
          now = current_round_index round
      in (case RM_handle_delayed_relayer_sets C now (RM_refresh_round C now (world s)) of
            None \<Rightarrow> Panic
          | Some w \<Rightarrow>
              let s1 = reset_candidate_states C (s\<lparr>world := w\<rparr>);
                  s2 = prepare_staking_payouts C now s1
              in bind_outcome (update_top_candidates C now full basic s2) (\<lambda>(vc, _, tot) s3.
                   let s4 = s3\<lparr>Round := round\<rparr>;
                       s5 = refresh_majority now s4;
                       s6 = s5\<lparr>world := RM_refresh_majority C now (world s5)\<rparr>;
                       s7 = refresh_productivity_per_block C vc (round_length round) s6;
                       s8 = s7\<lparr>Staked := (Staked s7)(now := Total s7),
                               TotalAtStake := (TotalAtStake s7)(sub32 now 1 := None)\<rparr>;
                       s9 = handle_delayed_commission_sets now s8
                   in bind_outcome (handle_delayed_controller_sets C now s9) (\<lambda>_ s10.
                        Done () (deposit_event (NewRound (first_round_block round) now vc tot) s10)))))"

definition new_session ::
  "'w Config \<Rightarrow> block_number \<Rightarrow> session_index \<Rightarrow> 'w staking \<Rightarrow>
   ('w staking, error, acct list option) outcome" where
  "new_session C now new_index s =
     (let s1 = compute_productivity C (session_validators C (world s)) s;
          ns = sub32 new_index 1;
          s2 = s1\<lparr>Session := ns\<rparr>;
          round = ri_update_session now ns (Round s2);
          s3 = s2\<lparr>Round := round\<rparr>
      in bind_outcome
           (if ri_should_update now round then
              (let (full, basic) = compute_top_candidates C s3;
                   keep = filter (\<lambda>v. has_session_keys C v (world s3))
               in new_round C now (keep full) (keep basic) s3)
            else Done () s3)
           (\<lambda>_ s4.
             let s5 = s4\<lparr>world := OH_refresh_offences C (sub32 new_index 1) (world s4)\<rparr>;
                 vs = map fst (SelectedCandidates s5)
             in Done (if vs = [] \<and> new_index \<le> 1 then None else Some vs) s5))"

definition should_end_session :: "block_number \<Rightarrow> 'w staking \<Rightarrow> bool" where
  "should_end_session now s = ri_should_update now (Round s)"

definition estimate_next_session_rotation :: "'w staking \<Rightarrow> block_number" where
  "estimate_next_session_rotation s = add32 (first_round_block (Round s)) (round_length (Round s))"

text \<open>
  The hook \<open>on_initialize\<close> (\<open>pallet/mod.rs\<close>). The snapshot and the payouts run inside
  \<open>Round::mutate\<close>: they see the stored round, and the updated one is written after them.
\<close>

definition on_initialize ::
  "'w Config \<Rightarrow> block_number \<Rightarrow> 'w staking \<Rightarrow> ('w staking, error, unit) outcome" where
  "on_initialize C n s =
     (let round = ri_update_block n (Round s)
      in bind_outcome (refresh_total_snapshot (current_round_index round) s) (\<lambda>_ s1.
         bind_outcome (handle_delayed_payouts C (current_round_index round) s1) (\<lambda>_ s2.
           Done () (s2\<lparr>Round := round\<rparr>))))"

end
