(* ===== verification/Staking_Calls.thy ===== *)
theory Staking_Calls
  imports Staking_Impl
begin

text \<open>
  The dispatchable calls of the staking pallet (\<open>pallet/mod.rs\<close>, call indices 0 to 33) and its
  genesis. A call returns its outcome; the runtime runs it in a storage transaction, so that an
  error leaves the storage untouched (\<open>dispatch\<close>).
\<close>

type_synonym 'w result = "('w staking, error, unit) outcome"

abbreviation fail :: "staking_error \<Rightarrow> 'w staking \<Rightarrow> 'w result" where
  "fail e s \<equiv> Fail (StakingError e) s"

definition ensure_signed :: "origin \<Rightarrow> 'w staking \<Rightarrow> (acct \<Rightarrow> 'w result) \<Rightarrow> 'w result" where
  "ensure_signed og s k = (case og of Signed a \<Rightarrow> k a | _ \<Rightarrow> Fail BadOrigin s)"

definition ensure_root :: "origin \<Rightarrow> 'w staking \<Rightarrow> 'w result \<Rightarrow> 'w result" where
  "ensure_root og s k = (if og = Root then k else Fail BadOrigin s)"

definition with_candidate ::
  "acct \<Rightarrow> 'w staking \<Rightarrow> (CandidateMetadata \<Rightarrow> 'w result) \<Rightarrow> 'w result" where
  "with_candidate c s k =
     (case bt_get (CandidateInfo s) c of None \<Rightarrow> fail CandidateDNE s | Some st \<Rightarrow> k st)"

definition with_nominator :: "acct \<Rightarrow> 'w staking \<Rightarrow> (Nominator \<Rightarrow> 'w result) \<Rightarrow> 'w result" where
  "with_nominator a s k = (case NominatorState s a of None \<Rightarrow> fail NominatorDNE s | Some n \<Rightarrow> k n)"

definition with_stash :: "acct \<Rightarrow> 'w staking \<Rightarrow> (acct \<Rightarrow> 'w result) \<Rightarrow> 'w result" where
  "with_stash st s k = (case BondedStash s st of None \<Rightarrow> fail StashDNE s | Some c \<Rightarrow> k c)"

subsection \<open>Governance\<close>

definition set_staking_expectations :: "'w Config \<Rightarrow> origin \<Rightarrow> Range \<Rightarrow> 'w staking \<Rightarrow> 'w result" where
  "set_staking_expectations C og e s =
     (if \<not> monetary_governance_origin C og then Fail BadOrigin s
      else if \<not> Range_is_valid e then fail InvalidSchedule s
      else if inf_expect (InflationConfig s) = e then fail NoWritingSameValue s
      else Done () (deposit_event (StakeExpectationsSet (rg_min e) (rg_ideal e) (rg_max e))
             (s\<lparr>InflationConfig := set_expectations e (InflationConfig s)\<rparr>)))"

definition set_inflation :: "'w Config \<Rightarrow> origin \<Rightarrow> Range \<Rightarrow> 'w staking \<Rightarrow> 'w result" where
  "set_inflation C og sch s =
     (if \<not> monetary_governance_origin C og then Fail BadOrigin s
      else if \<not> Range_is_valid sch then fail InvalidSchedule s
      else if rg_min sch < pb_from_percent C 1 then fail InvalidSchedule s
      else if inf_annual (InflationConfig s) = sch then fail NoWritingSameValue s
      else (case set_round_from_annual C s sch ((InflationConfig s)\<lparr>inf_annual := sch\<rparr>) of
              None \<Rightarrow> Panic
            | Some i \<Rightarrow>
                Done () (deposit_event
                  (InflationSet (rg_min (inf_annual i)) (rg_ideal (inf_annual i)) (rg_max (inf_annual i))
                     (rg_min (inf_round i)) (rg_ideal (inf_round i)) (rg_max (inf_round i)))
                  (s\<lparr>InflationConfig := i\<rparr>))))"

definition set_max_full_selected :: "origin \<Rightarrow> nat \<Rightarrow> 'w staking \<Rightarrow> 'w result" where
  "set_max_full_selected og new s = ensure_root og s
     (if new < 1 then fail CannotSetBelowMin s
      else if MaxFullSelected s = new then fail NoWritingSameValue s
      else if round_length (Round s) < new then fail RoundLengthMustBeAtLeastTotalSelectedValidators s
      else Done () (deposit_event (MaxFullSelectedSet (MaxFullSelected s) new)
             (s\<lparr>MaxFullSelected := new, MaxTotalSelected := add32 new (MaxBasicSelected s)\<rparr>)))"

definition set_max_basic_selected :: "origin \<Rightarrow> nat \<Rightarrow> 'w staking \<Rightarrow> 'w result" where
  "set_max_basic_selected og new s = ensure_root og s
     (if new < 1 then fail CannotSetBelowMin s
      else if MaxBasicSelected s = new then fail NoWritingSameValue s
      else if round_length (Round s) < new then fail RoundLengthMustBeAtLeastTotalSelectedValidators s
      else Done () (deposit_event (MaxBasicSelectedSet (MaxBasicSelected s) new)
             (s\<lparr>MaxBasicSelected := new, MaxTotalSelected := add32 new (MaxFullSelected s)\<rparr>)))"

definition set_default_validator_commission ::
  "origin \<Rightarrow> perbill \<Rightarrow> TierType \<Rightarrow> 'w staking \<Rightarrow> 'w result" where
  "set_default_validator_commission og new t s = ensure_root og s
     (case t of
        Full \<Rightarrow>
          (let old = DefaultFullValidatorCommission s
           in if old = new then fail NoWritingSameValue s
              else if MaxFullValidatorCommission s < new then fail CannotSetAboveMax s
              else Done () (deposit_event (DefaultValidatorCommissionSet old new t)
                     (s\<lparr>DefaultFullValidatorCommission := new\<rparr>)))
      | Basic \<Rightarrow>
          (let old = DefaultBasicValidatorCommission s
           in if old = new then fail NoWritingSameValue s
              else if MaxBasicValidatorCommission s < new then fail CannotSetAboveMax s
              else Done () (deposit_event (DefaultValidatorCommissionSet old new t)
                     (s\<lparr>DefaultBasicValidatorCommission := new\<rparr>)))
      | All \<Rightarrow>
          (let old_full = DefaultFullValidatorCommission s;
               old_basic = DefaultBasicValidatorCommission s
           in if old_full = new then fail NoWritingSameValue s
              else if MaxFullValidatorCommission s < new then fail CannotSetAboveMax s
              else if old_basic = new then fail NoWritingSameValue s
              else if MaxBasicValidatorCommission s < new then fail CannotSetAboveMax s
              else Done () (deposit_event (DefaultValidatorCommissionSet old_basic new Basic)
                     (deposit_event (DefaultValidatorCommissionSet old_full new Full)
                       (s\<lparr>DefaultFullValidatorCommission := new,
                          DefaultBasicValidatorCommission := new\<rparr>)))))"

definition set_max_validator_commission ::
  "origin \<Rightarrow> perbill \<Rightarrow> TierType \<Rightarrow> 'w staking \<Rightarrow> 'w result" where
  "set_max_validator_commission og new t s = ensure_root og s
     (case t of
        Full \<Rightarrow>
          (let old = MaxFullValidatorCommission s
           in if old = new then fail NoWritingSameValue s
              else Done () (deposit_event (MaxValidatorCommissionSet old new t)
                     (s\<lparr>MaxFullValidatorCommission := new\<rparr>)))
      | Basic \<Rightarrow>
          (let old = MaxBasicValidatorCommission s
           in if old = new then fail NoWritingSameValue s
              else Done () (deposit_event (MaxValidatorCommissionSet old new t)
                     (s\<lparr>MaxBasicValidatorCommission := new\<rparr>)))
      | All \<Rightarrow>
          (let old_full = MaxFullValidatorCommission s; old_basic = MaxBasicValidatorCommission s
           in if old_full = new then fail NoWritingSameValue s
              else if old_basic = new then fail NoWritingSameValue s
              else Done () (deposit_event (MaxValidatorCommissionSet old_basic new t)
                     (deposit_event (MaxValidatorCommissionSet old_full new t)
                       (s\<lparr>MaxFullValidatorCommission := new, MaxBasicValidatorCommission := new\<rparr>)))))"

definition set_blocks_per_round :: "'w Config \<Rightarrow> origin \<Rightarrow> nat \<Rightarrow> 'w staking \<Rightarrow> 'w result" where
  "set_blocks_per_round C og new s = ensure_root og s
     (let r = Round s in
      if new < MinBlocksPerRound C then fail CannotSetBelowMin s
      else if MaxBlocksPerRound C < new then fail CannotSetAboveMax s
      else if round_length r = new then fail NoWritingSameValue s
      else if \<not> sub32 (current_block r) (first_round_block r) < new
        then fail RoundLengthMustBeLongerThanCreatedBlocks s
      else if new < MaxTotalSelected s then fail RoundLengthMustBeAtLeastTotalSelectedValidators s
      else (case reset_round C new (InflationConfig s) of
              None \<Rightarrow> Panic
            | Some i \<Rightarrow>
                Done () (deposit_event
                  (BlocksPerRoundSet (current_round_index r) (first_round_block r) (round_length r) new
                     (rg_min (inf_round i)) (rg_ideal (inf_round i)) (rg_max (inf_round i)))
                  (s\<lparr>Round := r\<lparr>round_length := new\<rparr>, InflationConfig := i\<rparr>))))"

definition set_storage_cache_lifetime :: "origin \<Rightarrow> nat \<Rightarrow> 'w staking \<Rightarrow> 'w result" where
  "set_storage_cache_lifetime og new s = ensure_root og s
     (if new < 1 then fail CannotSetBelowOne s
      else if StorageCacheLifetime s = new then fail NoWritingSameValue s
      else Done () (deposit_event (StorageCacheLifetimeSet (StorageCacheLifetime s) new)
             (s\<lparr>StorageCacheLifetime := new\<rparr>)))"

subsection \<open>Candidates\<close>

definition set_validator_commission :: "origin \<Rightarrow> perbill \<Rightarrow> 'w staking \<Rightarrow> 'w result" where
  "set_validator_commission og new s =
     ensure_signed og s (\<lambda>ctrl. with_candidate ctrl s (\<lambda>st.
       if commission st = new then fail NoWritingSameValue s
       else if (if tier st = Full then MaxFullValidatorCommission s else MaxBasicValidatorCommission s)
               < new then fail CannotSetAboveMax s
       else if is_commission_set_requested ctrl s then fail AlreadyCommissionSetRequested s
       else if cm_is_leaving st then fail CandidateAlreadyLeaving s
       else bind_outcome (add_to_commission_sets ctrl (commission st) new s)
              (\<lambda>_ s1. Done () (deposit_event (ValidatorCommissionSet ctrl (commission st) new) s1))))"

definition cancel_validator_commission_set :: "origin \<Rightarrow> 'w staking \<Rightarrow> 'w result" where
  "cancel_validator_commission_set og s =
     ensure_signed og s (\<lambda>ctrl.
       if \<not> is_candidate ctrl All s then fail CandidateDNE s
       else if \<not> is_commission_set_requested ctrl s then fail CommissionSetDNE s
       else Done () (deposit_event (ValidatorCommissionSetCancelled ctrl)
              (remove_commission_set ctrl s)))"

definition set_validator_tier ::
  "'w Config \<Rightarrow> origin \<Rightarrow> balance \<Rightarrow> TierType \<Rightarrow> acct option \<Rightarrow> 'w staking \<Rightarrow> 'w result" where
  "set_validator_tier C og mr new relayer s =
     ensure_signed og s (\<lambda>st. with_stash st s (\<lambda>ctrl. with_candidate ctrl s (\<lambda>m.
       if tier m = new then fail NoWritingSameValue s
       else
         let finish = (\<lambda>m1 s1.
               let (m2, s2) = cm_reset_commission ctrl (m1\<lparr>tier := new\<rparr>) s1;
                   s3 = put_candidate ctrl m2 s2
               in Done () (update_active ctrl (voting_power m2) s3))
         in (case relayer of
               Some rel \<Rightarrow>
                 if new \<noteq> Full then fail InvalidTierType s
                 else if add128 (bond m) mr < MinFullCandidateStk C then fail CandidateBondBelowMin s
                 else if \<not> can_reserve C st mr (world s) then fail InsufficientBalance s
                 else bind_outcome (cm_bond_more C st ctrl mr m s) (\<lambda>m1 s1.
                        (case RM_join_relayers C rel ctrl (world s1) of
                           Inl e \<Rightarrow> Fail e s1
                         | Inr w \<Rightarrow> finish m1 (s1\<lparr>world := w\<rparr>)))
             | None \<Rightarrow>
                 if new \<noteq> Basic then fail InvalidTierType s
                 else if add128 (bond m) mr < MinBasicCandidateStk C then fail CandidateBondBelowMin s
                 else bind_outcome (cm_bond_more C st ctrl mr m s) (\<lambda>m1 s1.
                        finish m1 (s1\<lparr>world := RM_leave_relayers C ctrl (world s1)\<rparr>))))))"

definition join_candidates ::
  "'w Config \<Rightarrow> origin \<Rightarrow> acct \<Rightarrow> acct option \<Rightarrow> balance \<Rightarrow> nat \<Rightarrow> 'w staking \<Rightarrow> 'w result" where
  "join_candidates C og ctrl relayer b candidate_count s =
     ensure_signed og s (\<lambda>st.
       if BondedStash s st \<noteq> None then fail AlreadyBonded s
       else if bt_contains ctrl (CandidateInfo s) then fail AlreadyPaired s
       else if list_ex (\<lambda>d. dc_new d = ctrl) (DelayedControllerSets s (now_round s))
         then fail AlreadyControllerSetRequested s
       else if is_nominator ctrl s then fail NominatorExists s
       else if candidate_count < as_u32 (length (CandidatePool s))
         then fail TooLowCandidateCountWeightHintJoinCandidates s
       else if \<not> can_reserve C st b (world s) then fail InsufficientBalance s
       else
         let pool = CandidatePool s;
             finish = (\<lambda>t s1.
               let s2 = put_candidate ctrl (CandidateMetadata_new C st b t s1) s1;
                   s3 = s2\<lparr>BondedStash := (BondedStash s2)(st \<mapsto> ctrl)\<rparr>;
                   s4 = put_bottom ctrl Nominations_default (put_top ctrl Nominations_default s3)
               in (case bt_try_insert ctrl b pool of
                     None \<Rightarrow> fail TooManyCandidates s4
                   | Some p \<Rightarrow>
                       let s5 = s4\<lparr>CandidatePool := p, Total := sat_add128 (Total s4) b\<rparr>
                       in Done () (deposit_event (JoinedValidatorCandidates ctrl b (Total s5)) s5)))
         in (case relayer of
               Some rel \<Rightarrow>
                 if b < MinFullCandidateStk C then fail CandidateBondBelowMin s
                 else bind_outcome (cur_reserve C st b s) (\<lambda>_ s1.
                        (case RM_join_relayers C rel ctrl (world s1) of
                           Inl e \<Rightarrow> Fail e s1
                         | Inr w \<Rightarrow> finish Full (s1\<lparr>world := w\<rparr>)))
             | None \<Rightarrow>
                 if b < MinBasicCandidateStk C then fail CandidateBondBelowMin s
                 else bind_outcome (cur_reserve C st b s) (\<lambda>_ s1. finish Basic s1)))"

definition schedule_leave_candidates :: "'w Config \<Rightarrow> origin \<Rightarrow> nat \<Rightarrow> 'w staking \<Rightarrow> 'w result" where
  "schedule_leave_candidates C og candidate_count s =
     ensure_signed og s (\<lambda>ctrl. with_candidate ctrl s (\<lambda>st.
       if is_controller_set_requested ctrl s then fail CannotLeaveIfControllerSetRequested s
       else if is_commission_set_requested ctrl s then fail CannotLeaveIfCommissionSetRequested s
       else if candidate_count < as_u32 (length (CandidatePool s))
         then fail TooLowCandidateCountToLeaveCandidates s
       else
         let (removed, s1) = remove_from_candidate_pool ctrl s
         in if \<not> removed then fail CannotLeaveIfOffline s1
            else (case cm_schedule_leave C s1 st of
                    Inl e \<Rightarrow> Fail e s1
                  | Inr (st1, now, when) \<Rightarrow>
                      Done () (deposit_event (CandidateScheduledExit now ctrl when)
                        (put_candidate ctrl st1 s1)))))"

text \<open>The closure \<open>return_stake\<close> of \<open>execute_leave_candidates\<close>, over the bonds of one list.\<close>

definition return_stake :: "'w Config \<Rightarrow> acct \<Rightarrow> Bond \<Rightarrow> Nominator \<Rightarrow> 'w staking \<Rightarrow> 'w staking" where
  "return_stake C ctrl b n s =
     (let s1 = cur_unreserve C (owner b) (amount b) s;
          (n1, remaining) = nr_rm_nomination ctrl n
      in (case remaining of
            None \<Rightarrow> s1
          | Some r \<Rightarrow>
              if r = 0 then del_nominator (owner b) s1
              else put_nominator (owner b)
                     (n1\<lparr>nr_requests := pr_remove_request ctrl (nr_requests n1)\<rparr>) s1))"

fun return_stakes :: "'w Config \<Rightarrow> acct \<Rightarrow> Bond list \<Rightarrow> 'w staking \<Rightarrow> 'w result" where
  "return_stakes C ctrl [] s = Done () s"
| "return_stakes C ctrl (b # bs) s =
     (case NominatorState s (owner b) of
        None \<Rightarrow> fail NominatorDNE s
      | Some n \<Rightarrow> return_stakes C ctrl bs (return_stake C ctrl b n s))"

definition execute_leave_candidates :: "'w Config \<Rightarrow> origin \<Rightarrow> nat \<Rightarrow> 'w staking \<Rightarrow> 'w result" where
  "execute_leave_candidates C og candidate_nomination_count s =
     ensure_signed og s (\<lambda>st. with_stash st s (\<lambda>ctrl. with_candidate ctrl s (\<lambda>m.
       if candidate_nomination_count < nomination_count m
       then fail TooLowCandidateNominationCountToLeaveCandidates s
       else (case cm_can_leave s m of
         Some e \<Rightarrow> Fail e s
       | None \<Rightarrow>
         (case TopNominations s ctrl of
            None \<Rightarrow> fail TopNominationDNE s
          | Some tops \<Rightarrow>
              bind_outcome (return_stakes C ctrl (nominations tops)
                  (s\<lparr>TopNominations := (TopNominations s)(ctrl := None)\<rparr>)) (\<lambda>_ s1.
              (case BottomNominations s1 ctrl of
                 None \<Rightarrow> fail BottomNominationDNE s1
               | Some bots \<Rightarrow>
                   bind_outcome (return_stakes C ctrl (nominations bots)
                       (s1\<lparr>BottomNominations := (BottomNominations s1)(ctrl := None)\<rparr>)) (\<lambda>_ s2.
                   let backing = add128 (add128 (bond m) (noms_total tops)) (noms_total bots);
                       s3 = cur_unreserve C st (bond m) s2;
                       s4 = s3\<lparr>CandidateInfo := bt_remove ctrl (CandidateInfo s3),
                               BondedStash := (BondedStash s3)(st := None),
                               TopNominations := (TopNominations s3)(ctrl := None),
                               BottomNominations := (BottomNominations s3)(ctrl := None),
                               Total := sat_sub (Total s3) backing\<rparr>;
                       s5 = s4\<lparr>world := RM_leave_relayers C ctrl (world s4)\<rparr>
                   in Done () (deposit_event (CandidateLeft ctrl backing (Total s5)) s5))))))))) "

definition cancel_leave_candidates :: "origin \<Rightarrow> nat \<Rightarrow> 'w staking \<Rightarrow> 'w result" where
  "cancel_leave_candidates og candidate_count s =
     ensure_signed og s (\<lambda>ctrl. with_candidate ctrl s (\<lambda>st.
       if \<not> cm_is_leaving st then fail CandidateNotLeaving s
       else if candidate_count < as_u32 (length (CandidatePool s))
         then fail TooLowCandidateCountWeightHintCancelLeaveCandidates s
       else
         let st1 = cm_go_online st
         in (case bt_try_insert ctrl (voting_power st1) (CandidatePool s) of
               None \<Rightarrow> fail TooManyCandidates s
             | Some p \<Rightarrow>
                 Done () (deposit_event (CancelledCandidateExit ctrl)
                   (put_candidate ctrl st1 (s\<lparr>CandidatePool := p\<rparr>))))))"

definition set_controller :: "origin \<Rightarrow> acct \<Rightarrow> 'w staking \<Rightarrow> 'w result" where
  "set_controller og new s =
     ensure_signed og s (\<lambda>st. with_stash st s (\<lambda>old. with_candidate old s (\<lambda>m.
       if new = old then fail NoWritingSameValue s
       else if is_candidate new All s then fail AlreadyPaired s
       else if cm_is_leaving m then fail CandidateAlreadyLeaving s
       else if is_controller_set_requested old s then fail AlreadyControllerSetRequested s
       else bind_outcome (add_to_controller_sets st old new s)
              (\<lambda>_ s1. Done () (deposit_event (ControllerSet old new) s1)))))"

definition cancel_controller_set :: "origin \<Rightarrow> 'w staking \<Rightarrow> 'w result" where
  "cancel_controller_set og s =
     ensure_signed og s (\<lambda>ctrl.
       if \<not> is_candidate ctrl All s then fail CandidateDNE s
       else if \<not> is_controller_set_requested ctrl s then fail ControllerSetDNE s
       else Done () (deposit_event (ControllerSetCancelled ctrl) (remove_controller_set ctrl s)))"

definition set_candidate_reward_dst :: "origin \<Rightarrow> RewardDestination \<Rightarrow> 'w staking \<Rightarrow> 'w result" where
  "set_candidate_reward_dst og new s =
     ensure_signed og s (\<lambda>ctrl. with_candidate ctrl s (\<lambda>st.
       if reward_dst st = new then fail NoWritingSameValue s
       else Done () (deposit_event (ValidatorRewardDstSet ctrl (reward_dst st) new)
              (put_candidate ctrl (st\<lparr>reward_dst := new\<rparr>) s))))"

definition set_nominator_reward_dst :: "origin \<Rightarrow> RewardDestination \<Rightarrow> 'w staking \<Rightarrow> 'w result" where
  "set_nominator_reward_dst og new s =
     ensure_signed og s (\<lambda>a. with_nominator a s (\<lambda>n.
       if nr_reward_dst n = new then fail NoWritingSameValue s
       else Done () (deposit_event (NominatorRewardDstSet a (nr_reward_dst n) new)
              (put_nominator a (n\<lparr>nr_reward_dst := new\<rparr>) s))))"

text \<open>The majority is computed while \<open>SelectedCandidates\<close> still holds the controller.\<close>

definition go_offline :: "'w Config \<Rightarrow> origin \<Rightarrow> 'w staking \<Rightarrow> 'w result" where
  "go_offline C og s =
     ensure_signed og s (\<lambda>ctrl. with_candidate ctrl s (\<lambda>st.
       if \<not> cm_is_active st then fail AlreadyOffline s
       else
         let (removed, s1) = remove_from_candidate_pool ctrl s
         in if \<not> removed then fail AlreadyOffline s1
            else
              let sel = bt_remove ctrl (SelectedCandidates s1);
                  r = now_round s1;
                  s2 = refresh_cached_selected_candidates r sel s1;
                  m = compute_majority s2;
                  s3 = s2\<lparr>Majority := m, CachedMajority := bt_insert r m (CachedMajority s2)\<rparr>;
                  finish = (\<lambda>s4.
                    let s5 = put_candidate ctrl (cm_go_offline st) s4
                    in Done () (deposit_event (CandidateWentOffline ctrl)
                         (s5\<lparr>SelectedCandidates := sel\<rparr>)))
              in if tier st = Full then
                   (case RM_kickout_relayer C ctrl (world s3) of
                      None \<Rightarrow> Panic
                    | Some w \<Rightarrow>
                        finish (s3\<lparr>world := w, SelectedFullCandidates :=
                                  bt_remove ctrl (SelectedFullCandidates s3)\<rparr>))
                 else finish (s3\<lparr>SelectedBasicCandidates :=
                        bt_remove ctrl (SelectedBasicCandidates s3)\<rparr>)))"

definition go_online :: "origin \<Rightarrow> 'w staking \<Rightarrow> 'w result" where
  "go_online og s =
     ensure_signed og s (\<lambda>ctrl. with_candidate ctrl s (\<lambda>st.
       if cm_is_active st then fail AlreadyActive s
       else if cm_is_leaving st then fail CannotGoOnlineIfLeaving s
       else
         let st1 = cm_go_online st
         in (case bt_try_insert ctrl (voting_power st1) (CandidatePool s) of
               None \<Rightarrow> fail TooManyCandidates s
             | Some p \<Rightarrow>
                 Done () (deposit_event (CandidateBackOnline ctrl)
                   (put_candidate ctrl st1 (s\<lparr>CandidatePool := p\<rparr>))))))"

definition candidate_bond_more :: "'w Config \<Rightarrow> origin \<Rightarrow> balance \<Rightarrow> 'w staking \<Rightarrow> 'w result" where
  "candidate_bond_more C og mr s =
     ensure_signed og s (\<lambda>st. with_stash st s (\<lambda>ctrl. with_candidate ctrl s (\<lambda>m.
       if \<not> can_reserve C st mr (world s) then fail InsufficientBalance s
       else bind_outcome (cm_bond_more C st ctrl mr m s) (\<lambda>m1 s1.
              Done () (update_active ctrl (voting_power m1) (put_candidate ctrl m1 s1))))))"

definition schedule_candidate_bond_less :: "'w Config \<Rightarrow> origin \<Rightarrow> balance \<Rightarrow> 'w staking \<Rightarrow> 'w result" where
  "schedule_candidate_bond_less C og ls s =
     ensure_signed og s (\<lambda>ctrl. with_candidate ctrl s (\<lambda>st.
       if cm_is_leaving st then fail CandidateAlreadyLeaving s
       else (case cm_schedule_bond_less C s ls st of
               Inl e \<Rightarrow> Fail e s
             | Inr (st1, when) \<Rightarrow>
                 Done () (deposit_event (CandidateBondLessRequested ctrl ls when)
                   (put_candidate ctrl st1 s)))))"

definition execute_candidate_bond_less :: "'w Config \<Rightarrow> origin \<Rightarrow> 'w staking \<Rightarrow> 'w result" where
  "execute_candidate_bond_less C og s =
     ensure_signed og s (\<lambda>st. with_stash st s (\<lambda>ctrl. with_candidate ctrl s (\<lambda>m.
       bind_outcome (cm_execute_bond_less C st ctrl m s) (\<lambda>m1 s1.
         Done () (put_candidate ctrl m1 s1)))))"

definition cancel_candidate_bond_less :: "origin \<Rightarrow> 'w staking \<Rightarrow> 'w result" where
  "cancel_candidate_bond_less og s =
     ensure_signed og s (\<lambda>ctrl. with_candidate ctrl s (\<lambda>m.
       bind_outcome (cm_cancel_bond_less ctrl m s) (\<lambda>m1 s1.
         Done () (put_candidate ctrl m1 s1))))"

subsection \<open>Nominators\<close>

text \<open>The nominator's state after the new nomination, before the candidate is touched.\<close>

definition nominate_state ::
  "'w Config \<Rightarrow> acct \<Rightarrow> acct \<Rightarrow> balance \<Rightarrow> nat \<Rightarrow> 'w staking \<Rightarrow> error + Nominator" where
  "nominate_state C nom c a nomination_count' s =
     (case NominatorState s nom of
        Some n \<Rightarrow>
          if \<not> nr_is_active n then Inl (StakingError CannotNominateIfLeaving)
          else if a < MinNomination C then Inl (StakingError NominationBelowMin)
          else if nomination_count' < as_u32 (length (nr_nominations n))
            then Inl (StakingError TooLowNominationCountToNominate)
          else if \<not> as_u32 (length (nr_nominations n)) < MaxNominationsPerNominator C
            then Inl (StakingError ExceedMaxNominationsPerNominator)
          else nr_add_nomination c a n
      | None \<Rightarrow>
          if a < MinNominatorStk C then Inl (StakingError NominatorBondBelowMin)
          else if is_candidate nom All s then Inl (StakingError CandidateExists)
          else Inr (Nominator_new nom c a))"

definition nominate ::
  "'w Config \<Rightarrow> origin \<Rightarrow> acct \<Rightarrow> balance \<Rightarrow> nat \<Rightarrow> nat \<Rightarrow> 'w staking \<Rightarrow> 'w result" where
  "nominate C og c a candidate_nomination_count nomination_count' s =
     ensure_signed og s (\<lambda>nom.
       if \<not> can_reserve C nom a (world s) then fail InsufficientBalance s
       else (case nominate_state C nom c a nomination_count' s of
               Inl e \<Rightarrow> Fail e s
             | Inr n \<Rightarrow>
                 with_candidate c s (\<lambda>st.
                   if candidate_nomination_count < nomination_count st
                   then fail TooLowCandidateNominationCountToNominate s
                   else
                     bind_outcome (cm_add_nomination C c \<lparr>owner = nom, amount = a\<rparr> st s)
                       (\<lambda>((pos, ls), st1) s1.
                     bind_outcome (cur_reserve C nom a s1) (\<lambda>_ s2.
                       let net = (case ls of Some x \<Rightarrow> sub128 a x | None \<Rightarrow> a);
                           s3 = s2\<lparr>Total := add128 (Total s2) net\<rparr>;
                           s4 = put_nominator nom n (put_candidate c st1 s3)
                       in Done () (deposit_event (Nomination nom a c pos) s4))))))"

definition schedule_leave_nominators :: "'w Config \<Rightarrow> origin \<Rightarrow> 'w staking \<Rightarrow> 'w result" where
  "schedule_leave_nominators C og s =
     ensure_signed og s (\<lambda>a. with_nominator a s (\<lambda>n.
       if nr_is_leaving n then fail NominatorAlreadyLeaving s
       else if requests (nr_requests n) \<noteq> [] then fail PendingNominationRequestAlreadyExists s
       else let (n1, now, when) = nr_schedule_leave C s n
            in Done () (deposit_event (NominatorExitScheduled now a when) (put_nominator a n1 s))))"

text \<open>An error of one candidate is logged and the loop goes on from the storage it left.\<close>

fun leave_all_candidates :: "'w Config \<Rightarrow> acct \<Rightarrow> (acct \<times> balance) list \<Rightarrow> 'w staking \<Rightarrow> 'w result" where
  "leave_all_candidates C nom [] s = Done () s"
| "leave_all_candidates C nom ((c, a) # bs) s =
     (case nominator_leaves_candidate C c nom a s of
        Done _ s1 \<Rightarrow> leave_all_candidates C nom bs s1
      | Fail e s1 \<Rightarrow> leave_all_candidates C nom bs s1
      | Panic \<Rightarrow> Panic)"

definition execute_leave_nominators :: "'w Config \<Rightarrow> origin \<Rightarrow> nat \<Rightarrow> 'w staking \<Rightarrow> 'w result" where
  "execute_leave_nominators C og nomination_count' s =
     ensure_signed og s (\<lambda>a. with_nominator a s (\<lambda>n.
       (case nr_can_execute_leave s nomination_count' n of
          Some e \<Rightarrow> Fail e s
        | None \<Rightarrow>
            bind_outcome (leave_all_candidates C a (nr_nominations n) s) (\<lambda>_ s1.
              Done () (deposit_event (NominatorLeft a (nr_total n)) (del_nominator a s1))))))"

definition cancel_leave_nominators :: "origin \<Rightarrow> 'w staking \<Rightarrow> 'w result" where
  "cancel_leave_nominators og s =
     ensure_signed og s (\<lambda>a. with_nominator a s (\<lambda>n.
       if \<not> nr_is_leaving n then fail NominatorDNE s
       else Done () (deposit_event (NominatorExitCancelled a)
              (put_nominator a (nr_cancel_leave n) s))))"

definition schedule_revoke_nomination :: "'w Config \<Rightarrow> origin \<Rightarrow> acct \<Rightarrow> 'w staking \<Rightarrow> 'w result" where
  "schedule_revoke_nomination C og v s =
     ensure_signed og s (\<lambda>a. with_nominator a s (\<lambda>n.
       if nr_is_leaving n then fail NominatorAlreadyLeaving s
       else (case nr_schedule_revoke C s v n of
               Inl e \<Rightarrow> Fail e s
             | Inr (n1, now, when) \<Rightarrow>
                 Done () (deposit_event (NominationRevocationScheduled now a v when)
                   (put_nominator a n1 s)))))"

definition nominator_bond_more :: "'w Config \<Rightarrow> origin \<Rightarrow> acct \<Rightarrow> balance \<Rightarrow> 'w staking \<Rightarrow> 'w result" where
  "nominator_bond_more C og c mr s =
     ensure_signed og s (\<lambda>a. with_nominator a s (\<lambda>n.
       bind_outcome (nr_increase_nomination C c mr n s) (\<lambda>_ s1. Done () s1)))"

definition schedule_nominator_bond_less ::
  "'w Config \<Rightarrow> origin \<Rightarrow> acct \<Rightarrow> balance \<Rightarrow> 'w staking \<Rightarrow> 'w result" where
  "schedule_nominator_bond_less C og c ls s =
     ensure_signed og s (\<lambda>a. with_nominator a s (\<lambda>n.
       if nr_is_leaving n then fail NominatorAlreadyLeaving s
       else (case nr_schedule_decrease_nomination C s c ls n of
               Inl e \<Rightarrow> Fail e s
             | Inr (n1, when) \<Rightarrow>
                 Done () (deposit_event (NominationDecreaseScheduled a c ls when)
                   (put_nominator a n1 s)))))"

definition execute_nomination_request :: "'w Config \<Rightarrow> origin \<Rightarrow> acct \<Rightarrow> 'w staking \<Rightarrow> 'w result" where
  "execute_nomination_request C og c s =
     ensure_signed og s (\<lambda>a. with_nominator a s (\<lambda>n. nr_execute_pending_request C c n s))"

definition cancel_nomination_request :: "origin \<Rightarrow> acct \<Rightarrow> 'w staking \<Rightarrow> 'w result" where
  "cancel_nomination_request og c s =
     ensure_signed og s (\<lambda>a. with_nominator a s (\<lambda>n.
       (case nr_cancel_pending_request c n of
          Inl e \<Rightarrow> Fail e s
        | Inr (n1, q) \<Rightarrow>
            Done () (deposit_event (CancelledNominationRequest a q) (put_nominator a n1 s)))))"

subsection \<open>Dispatch\<close>

datatype call =
    CSetStakingExpectations Range
  | CSetInflation Range
  | CSetMaxFullSelected nat
  | CSetMaxBasicSelected nat
  | CSetDefaultValidatorCommission perbill TierType
  | CSetMaxValidatorCommission perbill TierType
  | CSetValidatorCommission perbill
  | CCancelValidatorCommissionSet
  | CSetValidatorTier balance TierType "acct option"
  | CSetBlocksPerRound nat
  | CSetStorageCacheLifetime nat
  | CJoinCandidates acct "acct option" balance nat
  | CScheduleLeaveCandidates nat
  | CExecuteLeaveCandidates nat
  | CCancelLeaveCandidates nat
  | CSetController acct
  | CCancelControllerSet
  | CSetCandidateRewardDst RewardDestination
  | CSetNominatorRewardDst RewardDestination
  | CGoOffline
  | CGoOnline
  | CCandidateBondMore balance
  | CScheduleCandidateBondLess balance
  | CExecuteCandidateBondLess
  | CCancelCandidateBondLess
  | CNominate acct balance nat nat
  | CScheduleLeaveNominators
  | CExecuteLeaveNominators nat
  | CCancelLeaveNominators
  | CScheduleRevokeNomination acct
  | CNominatorBondMore acct balance
  | CScheduleNominatorBondLess acct balance
  | CExecuteNominationRequest acct
  | CCancelNominationRequest acct

fun run_call :: "'w Config \<Rightarrow> origin \<Rightarrow> call \<Rightarrow> 'w staking \<Rightarrow> 'w result" where
  "run_call C og (CSetStakingExpectations e) s = set_staking_expectations C og e s"
| "run_call C og (CSetInflation r) s = set_inflation C og r s"
| "run_call C og (CSetMaxFullSelected n) s = set_max_full_selected og n s"
| "run_call C og (CSetMaxBasicSelected n) s = set_max_basic_selected og n s"
| "run_call C og (CSetDefaultValidatorCommission p t) s = set_default_validator_commission og p t s"
| "run_call C og (CSetMaxValidatorCommission p t) s = set_max_validator_commission og p t s"
| "run_call C og (CSetValidatorCommission p) s = set_validator_commission og p s"
| "run_call C og CCancelValidatorCommissionSet s = cancel_validator_commission_set og s"
| "run_call C og (CSetValidatorTier m t r) s = set_validator_tier C og m t r s"
| "run_call C og (CSetBlocksPerRound n) s = set_blocks_per_round C og n s"
| "run_call C og (CSetStorageCacheLifetime n) s = set_storage_cache_lifetime og n s"
| "run_call C og (CJoinCandidates c r b k) s = join_candidates C og c r b k s"
| "run_call C og (CScheduleLeaveCandidates k) s = schedule_leave_candidates C og k s"
| "run_call C og (CExecuteLeaveCandidates k) s = execute_leave_candidates C og k s"
| "run_call C og (CCancelLeaveCandidates k) s = cancel_leave_candidates og k s"
| "run_call C og (CSetController c) s = set_controller og c s"
| "run_call C og CCancelControllerSet s = cancel_controller_set og s"
| "run_call C og (CSetCandidateRewardDst d) s = set_candidate_reward_dst og d s"
| "run_call C og (CSetNominatorRewardDst d) s = set_nominator_reward_dst og d s"
| "run_call C og CGoOffline s = go_offline C og s"
| "run_call C og CGoOnline s = go_online og s"
| "run_call C og (CCandidateBondMore m) s = candidate_bond_more C og m s"
| "run_call C og (CScheduleCandidateBondLess l) s = schedule_candidate_bond_less C og l s"
| "run_call C og CExecuteCandidateBondLess s = execute_candidate_bond_less C og s"
| "run_call C og CCancelCandidateBondLess s = cancel_candidate_bond_less og s"
| "run_call C og (CNominate c a k j) s = nominate C og c a k j s"
| "run_call C og CScheduleLeaveNominators s = schedule_leave_nominators C og s"
| "run_call C og (CExecuteLeaveNominators k) s = execute_leave_nominators C og k s"
| "run_call C og CCancelLeaveNominators s = cancel_leave_nominators og s"
| "run_call C og (CScheduleRevokeNomination c) s = schedule_revoke_nomination C og c s"
| "run_call C og (CNominatorBondMore c m) s = nominator_bond_more C og c m s"
| "run_call C og (CScheduleNominatorBondLess c l) s = schedule_nominator_bond_less C og c l s"
| "run_call C og (CExecuteNominationRequest c) s = execute_nomination_request C og c s"
| "run_call C og (CCancelNominationRequest c) s = cancel_nomination_request og c s"

text \<open>Calls run in a storage layer: an error rolls the storage back. \<open>None\<close> is a panic.\<close>

definition in_storage_layer :: "('w staking \<Rightarrow> 'w result) \<Rightarrow> 'w staking \<Rightarrow> 'w staking option" where
  "in_storage_layer f s = (case f s of Done _ s' \<Rightarrow> Some s' | Fail _ _ \<Rightarrow> Some s | Panic \<Rightarrow> None)"

definition dispatch :: "'w Config \<Rightarrow> origin \<Rightarrow> call \<Rightarrow> 'w staking \<Rightarrow> 'w staking option" where
  "dispatch C og c = in_storage_layer (run_call C og c)"

subsection \<open>Genesis\<close>

text \<open>
  \<open>BuildGenesisConfig::build\<close>. The state starts from the storage defaults; \<open>assert!\<close> is a panic,
  a call that fails is logged and skipped.
\<close>

fun genesis_candidates ::
  "'w Config \<Rightarrow> (acct \<times> acct \<times> acct \<times> balance) list \<Rightarrow> nat \<Rightarrow> 'w staking \<Rightarrow> 'w staking option" where
  "genesis_candidates C [] k s = Some s"
| "genesis_candidates C ((st, ctrl, rel, b) # cs) k s =
     (if free_balance C st (world s) < b then None
      else let k1 = add32 k 1
           in (case join_candidates C (Signed st) ctrl (Some rel) b k1 s of
                 Done _ s1 \<Rightarrow> genesis_candidates C cs (add32 k1 1) s1
               | Fail _ _ \<Rightarrow> genesis_candidates C cs k1 s
               | Panic \<Rightarrow> None))"

fun genesis_nominations ::
  "'w Config \<Rightarrow> (acct \<times> acct \<times> balance) list \<Rightarrow> (acct, nat) btmap \<Rightarrow> (acct, nat) btmap \<Rightarrow>
   'w staking \<Rightarrow> 'w staking option" where
  "genesis_nominations C [] vn nn s = Some s"
| "genesis_nominations C ((nom, target, b) # ns) vn nn s =
     (if free_balance C nom (world s) < b then None
      else
        let cnt = (\<lambda>m k. case bt_get m k of Some x \<Rightarrow> x | None \<Rightarrow> 0)
        in (case nominate C (Signed nom) target b (cnt vn target) (cnt nn nom) s of
              Done _ s1 \<Rightarrow>
                genesis_nominations C ns (bt_insert target (add32 (cnt vn target) 1) vn)
                  (bt_insert nom (add32 (cnt nn nom) 1) nn) s1
            | Fail _ _ \<Rightarrow> genesis_nominations C ns vn nn s
            | Panic \<Rightarrow> None))"

definition genesis_build ::
  "'w Config \<Rightarrow> (acct \<times> acct \<times> acct \<times> balance) list \<Rightarrow> (acct \<times> acct \<times> balance) list \<Rightarrow>
   InflationInfo \<Rightarrow> 'w staking \<Rightarrow> 'w staking option" where
  "genesis_build C cands noms infl s0 =
     (let s1 = s0\<lparr>InflationConfig := infl,
                  DefaultFullValidatorCommission := CfgDefaultFullValidatorCommission C,
                  DefaultBasicValidatorCommission := CfgDefaultBasicValidatorCommission C,
                  MaxFullValidatorCommission := CfgMaxFullValidatorCommission C,
                  MaxBasicValidatorCommission := CfgMaxBasicValidatorCommission C\<rparr>
      in (case genesis_candidates C cands 0 s1 of
            None \<Rightarrow> None
          | Some s2 \<Rightarrow>
          (case genesis_nominations C noms [] [] s2 of
            None \<Rightarrow> None
          | Some s3 \<Rightarrow>
              let s4 = s3\<lparr>MaxTotalSelected := add32 (DefaultMaxSelectedFullCandidates C)
                            (DefaultMaxSelectedBasicCandidates C),
                          MaxFullSelected := DefaultMaxSelectedFullCandidates C,
                          MaxBasicSelected := DefaultMaxSelectedBasicCandidates C,
                          StorageCacheLifetime := StorageCacheLifetimeInRounds C\<rparr>;
                  (full, basic) = compute_top_candidates C s4
              in (case update_top_candidates C 1 full basic s4 of
                    Done (vc, _, tot) s5 \<Rightarrow>
                      let m = compute_majority s5;
                          s6 = s5\<lparr>Majority := m, CachedMajority := [(1, m)],
                                  world := RM_refresh_majority C 1 (world s5)\<rparr>;
                          round = \<lparr>current_round_index = 1, first_session_index = 0,
                                   current_session_index = 0, first_round_block = 0,
                                   first_session_block = 0, current_block = 0,
                                   round_length = DefaultBlocksPerRound C,
                                   session_length = DefaultBlocksPerSession C\<rparr>;
                          s7 = s6\<lparr>Round := round, world := RM_refresh_round C 1 (world s6)\<rparr>;
                          bpv = (if vc = 0 then 0 else add32 (round_length round div vc) 1);
                          ppb = (if bpv = 0 then 0 else pb_from_percent C (add32 (100 div bpv) 1));
                          s8 = s7\<lparr>ProductivityPerBlock := ppb,
                                  Staked := (Staked s7)(1 := Total s7),
                                  TotalAtStake := (TotalAtStake s7)(1 \<mapsto> TotalSnapshot_default)\<rparr>
                      in Some (deposit_event (NewRound 0 1 vc tot) s8)
                  | _ \<Rightarrow> None))))"

end
