(* ===== verification/Candidate_Wf.thy ===== *)
theory Candidate_Wf
  imports Candidate
begin

text \<open>
  The invariant of a candidate and its two nomination lists, and that every operation of
  \<open>CandidateMetadata\<close> that touches the lists keeps it and changes the bonds as it should.
\<close>

subsection \<open>Well-formed candidates\<close>

text \<open>
  The candidate \<open>m\<close>, its top list and its bottom list agree: the lists are two descending tiers
  with distinct owners within their capacities, the bottom list is used only when the top is full,
  and the cached extremes, capacities and count of the metadata are those of the lists.
\<close>

definition cfg_ok :: "'w Config \<Rightarrow> bool" where
  "cfg_ok C \<longleftrightarrow> 0 < MaxTopNominationsPerCandidate C \<and> 0 < MaxBottomNominationsPerCandidate C \<and>
     MaxTopNominationsPerCandidate C + MaxBottomNominationsPerCandidate C < M32"

definition lists_wf :: "'w Config \<Rightarrow> Bond list \<Rightarrow> Bond list \<Rightarrow> bool" where
  "lists_wf C up lo \<longleftrightarrow>
     two_tier up lo \<and> distinct (map owner (up @ lo)) \<and>
     length up \<le> MaxTopNominationsPerCandidate C \<and>
     length lo \<le> MaxBottomNominationsPerCandidate C \<and>
     (lo \<noteq> [] \<longrightarrow> length up = MaxTopNominationsPerCandidate C) \<and>
     (\<forall>b\<in>set (up @ lo). amount b < M128)"

definition cand_wf :: "'w Config \<Rightarrow> CandidateMetadata \<Rightarrow> Nominations \<Rightarrow> Nominations \<Rightarrow> bool" where
  "cand_wf C m tops bots \<longleftrightarrow>
     lists_wf C (nominations tops) (nominations bots) \<and>
     lowest_top_nomination_amount m = lowest_nomination_amount tops \<and>
     highest_bottom_nomination_amount m = highest_nomination_amount bots \<and>
     lowest_bottom_nomination_amount m = lowest_nomination_amount bots \<and>
     top_capacity m = noms_top_capacity C tops \<and>
     bottom_capacity m = noms_bottom_capacity C bots \<and>
     nomination_count m = length (nominations tops) + length (nominations bots)"

lemma owners_distinct_mset:
  "mset xs = mset ys \<Longrightarrow> distinct (map owner xs) = distinct (map owner ys)"
  by (metis mset_eq_imp_distinct_iff mset_map)

lemma mset_butlast_last: "xs \<noteq> [] \<Longrightarrow> mset xs = add_mset (last xs) (mset (butlast xs))"
  by (metis append_butlast_last_id mset.simps(2) mset_append mset_single_iff union_mset_add_mset_right
      add_0_right mset_zero_iff)

lemma has_owner_iff: "has_owner w bs \<longleftrightarrow> w \<in> owner ` set bs"
  by (auto simp: has_owner_def list_ex_iff)

lemma set_drop_owner: "set (drop_owner w bs) = {b \<in> set bs. owner b \<noteq> w}"
  by (auto simp: drop_owner_def)

lemma drop_owner_notin: "w \<notin> owner ` set bs \<Longrightarrow> drop_owner w bs = bs"
  by (auto simp: drop_owner_def filter_id_conv)

lemma bond_of_None: "bond_of w bs = None \<longleftrightarrow> w \<notin> owner ` set bs"
proof -
  have "bond_of w bs = None \<longleftrightarrow> filter (\<lambda>b. owner b = w) bs = []"
    by (simp add: bond_of_def split: list.splits)
  then show ?thesis by (auto simp: filter_empty_conv)
qed

lemma bond_of_in: "bond_of w bs = Some b \<Longrightarrow> b \<in> set bs \<and> owner b = w"
proof -
  assume a: "bond_of w bs = Some b"
  then have ne: "filter (\<lambda>b. owner b = w) bs \<noteq> []" and l: "b = last (filter (\<lambda>b. owner b = w) bs)"
    by (auto simp: bond_of_def split: list.splits)
  from last_in_set [OF ne] show ?thesis by (simp add: l)
qed

lemma bond_of_distinct:
  assumes "distinct (map owner bs)" "b \<in> set bs"
  shows "bond_of (owner b) bs = Some b"
proof -
  obtain b' where b': "bond_of (owner b) bs = Some b'"
    using assms(2) bond_of_None [of "owner b" bs] by (cases "bond_of (owner b) bs") auto
  with bond_of_in [OF b'] assms show ?thesis
    by (metis distinct_map inj_onD)
qed

lemma mset_drop_owner:
  assumes "distinct (map owner bs)" "b \<in> set bs"
  shows "mset bs = add_mset b (mset (drop_owner (owner b) bs))"
  using assms
proof (induction bs)
  case (Cons x bs)
  show ?case
  proof (cases "x = b")
    case True
    then have "drop_owner (owner b) bs = bs" using Cons.prems by (auto intro!: drop_owner_notin)
    with True show ?thesis by (simp add: drop_owner_def)
  next
    case False
    then have "b \<in> set bs" using Cons.prems by simp
    moreover have "owner x \<noteq> owner b" using Cons.prems \<open>b \<in> set bs\<close> by auto
    ultimately show ?thesis using Cons by (simp add: drop_owner_def)
  qed
qed simp

lemma length_drop_owner:
  "distinct (map owner bs) \<Longrightarrow> b \<in> set bs \<Longrightarrow> length bs = Suc (length (drop_owner (owner b) bs))"
  by (metis mset_drop_owner size_add_mset size_mset)

lemma map_owner_owners: "map owner (map_owner w f bs) = map owner bs"
  by (simp add: map_owner_def)

lemma length_map_owner [simp]: "length (map_owner w f bs) = length bs"
  by (simp add: map_owner_def)

lemma map_owner_Nil [simp]: "map_owner w f bs = [] \<longleftrightarrow> bs = []"
  by (simp add: map_owner_def)

lemma set_map_owner_cases:
  "x \<in> set (map_owner w f bs) \<Longrightarrow>
   (\<exists>b\<in>set bs. owner b = w \<and> x = b\<lparr>amount := f (amount b)\<rparr>) \<or> (x \<in> set bs \<and> owner x \<noteq> w)"
  by (auto simp: map_owner_def split: if_splits)

subsubsection \<open>Lists\<close>

lemma lists_wfI:
  assumes "two_tier up lo" "mset (up @ lo) = mset zs" "distinct (map owner zs)"
    "length up \<le> MaxTopNominationsPerCandidate C" "length lo \<le> MaxBottomNominationsPerCandidate C"
    "lo \<noteq> [] \<Longrightarrow> length up = MaxTopNominationsPerCandidate C" "\<And>b. b \<in> set zs \<Longrightarrow> amount b < M128"
  shows "lists_wf C up lo"
  unfolding lists_wf_def
  using assms owners_distinct_mset [OF assms(2)] mset_eq_setD [OF assms(2)] by metis

lemma length_ins_butlast: "up \<noteq> [] \<Longrightarrow> length (ins_desc n (butlast up)) = length up"
  by (cases up rule: rev_cases) auto

text \<open>A nomination enters the top list that has room.\<close>

lemma lists_add_top:
  assumes "lists_wf C up lo" "length up < MaxTopNominationsPerCandidate C"
    "owner n \<notin> owner ` set (up @ lo)" "amount n < M128"
  shows "lists_wf C (ins_desc n up) lo"
proof -
  have "lo = []" using assms(1,2) by (auto simp: lists_wf_def)
  then show ?thesis
    using assms
    by (intro lists_wfI [where zs = "n # up"]) (auto simp: lists_wf_def desc_ins_desc)
qed

text \<open>A nomination displaces the lowest of a full top list into the bottom list.\<close>

lemma lists_bump:
  assumes wf: "lists_wf C up lo" and len: "length up = MaxTopNominationsPerCandidate C"
    and ne: "up \<noteq> []"
    and lo': "two_tier up lo'" "set lo' \<subseteq> set lo" "distinct (map owner lo')"
      "length lo' < MaxBottomNominationsPerCandidate C"
    and n: "owner n \<notin> owner ` set (up @ lo')" "amount n < M128" "amount (last up) \<le> amount n"
  shows "lists_wf C (ins_desc n (butlast up)) (ins_desc (last up) lo')"
proof (rule lists_wfI [where zs = "n # up @ lo'"])
  have "\<forall>b\<in>set lo'. amount b \<le> amount (last up)"
    using lo'(1) last_in_set [OF ne] by (simp add: two_tier_def)
  then have "\<forall>b\<in>set (ins_desc (last up) lo'). amount b \<le> amount n" using n(3) order_trans by auto
  then show "two_tier (ins_desc n (butlast up)) (ins_desc (last up) lo')"
    by (rule nl.enter_top [OF nl.demote [OF lo'(1) ne]])
  show "mset (ins_desc n (butlast up) @ ins_desc (last up) lo') = mset (n # up @ lo')"
    using mset_butlast_last [OF ne] by simp
  have "owner ` set up \<inter> owner ` set lo' = {}" using wf lo'(2) by (auto simp: lists_wf_def)
  then show "distinct (map owner (n # up @ lo'))"
    using n(1) lo'(3) wf by (simp add: lists_wf_def image_Un)
  show "amount b < M128" if "b \<in> set (n # up @ lo')" for b
    using that wf lo'(2) n(2) by (auto simp: lists_wf_def)
qed (use len lo'(4) length_ins_butlast [OF ne, of n] in auto)

text \<open>A nomination enters the bottom list below a full top list.\<close>

lemma lists_add_bottom:
  assumes wf: "lists_wf C up lo" and len: "length up = MaxTopNominationsPerCandidate C"
    and lo': "two_tier up lo'" "set lo' \<subseteq> set lo" "distinct (map owner lo')"
      "length lo' < MaxBottomNominationsPerCandidate C"
    and n: "owner n \<notin> owner ` set (up @ lo')" "amount n < M128" "\<forall>t\<in>set up. amount n \<le> amount t"
  shows "lists_wf C up (ins_desc n lo')"
proof (rule lists_wfI [where zs = "n # up @ lo'"])
  show "two_tier up (ins_desc n lo')" by (rule nl.enter_bottom [OF lo'(1) n(3)])
  have "owner ` set up \<inter> owner ` set lo' = {}" using wf lo'(2) by (auto simp: lists_wf_def)
  then show "distinct (map owner (n # up @ lo'))"
    using n(1) lo'(3) wf by (simp add: lists_wf_def image_Un)
  show "amount b < M128" if "b \<in> set (n # up @ lo')" for b
    using that wf lo'(2) n(2) by (auto simp: lists_wf_def)
qed (use len lo'(4) in auto)

text \<open>Removing an owner's bond from either list; the head of the bottom list moves up.\<close>

lemma lists_rm_top_alone:
  "lists_wf C up [] \<Longrightarrow> lists_wf C (drop_owner w up) []"
  by (auto simp: lists_wf_def drop_owner_def desc_filter distinct_map_filter
      intro: order_trans [OF length_filter_le])

lemma lists_rm_top:
  assumes wf: "lists_wf C up (h # rest)" and b: "b \<in> set up"
  shows "lists_wf C (ins_desc h (drop_owner (owner b) up)) rest"
proof (rule lists_wfI [where zs = "drop_owner (owner b) up @ h # rest"])
  show "two_tier (ins_desc h (drop_owner (owner b) up)) rest"
    using two_tier_filter [of up "h # rest" "\<lambda>x. owner x \<noteq> owner b" "\<lambda>_. True"] wf
    by (intro nl.promote [of _ "h # rest"]) (auto simp: lists_wf_def drop_owner_def)
  show "distinct (map owner (drop_owner (owner b) up @ h # rest))"
    using wf by (fastforce simp: lists_wf_def drop_owner_def distinct_map_filter)
  show "amount x < M128" if "x \<in> set (drop_owner (owner b) up @ h # rest)" for x
    using that wf by (auto simp: lists_wf_def set_drop_owner)
qed (use wf length_drop_owner [of up b] b in \<open>auto simp: lists_wf_def\<close>)

lemma lists_rm_bottom:
  "lists_wf C up lo \<Longrightarrow> lists_wf C up (drop_owner w lo)"
  using two_tier_filter [of up lo "\<lambda>_. True" "\<lambda>x. owner x \<noteq> w"]
  by (fastforce simp: lists_wf_def drop_owner_def distinct_map_filter filter_empty_conv
      intro: order_trans [OF length_filter_le])

text \<open>The amount of one owner changes within its list, which is sorted again.\<close>

lemma lists_map_top:
  assumes wf: "lists_wf C up lo" and f: "\<And>a. a < M128 \<Longrightarrow> f a < M128"
    and above: "\<And>b x. b \<in> set up \<Longrightarrow> owner b = w \<Longrightarrow> x \<in> set lo \<Longrightarrow> amount x \<le> f (amount b)"
  shows "lists_wf C (sort_desc (map_owner w f up)) lo"
proof (rule lists_wfI [where zs = "map_owner w f up @ lo"])
  have "\<forall>t\<in>set (map_owner w f up). \<forall>b\<in>set lo. amount b \<le> amount t"
    using above wf by (auto simp: lists_wf_def two_tier_def dest!: set_map_owner_cases)
  then show "two_tier (sort_desc (map_owner w f up)) lo"
    using wf by (intro nl.resort_top) (auto simp: lists_wf_def two_tier_def)
  show "distinct (map owner (map_owner w f up @ lo))"
    using wf map_owner_owners [of w f up] by (simp add: lists_wf_def flip: set_map)
  show "amount b < M128" if "b \<in> set (map_owner w f up @ lo)" for b
    using that wf f by (auto simp: lists_wf_def dest!: set_map_owner_cases)
qed (use wf in \<open>auto simp: lists_wf_def\<close>)

lemma lists_map_bottom:
  assumes wf: "lists_wf C up lo" and f: "\<And>a. a < M128 \<Longrightarrow> f a < M128"
    and below: "\<And>b x. b \<in> set lo \<Longrightarrow> owner b = w \<Longrightarrow> x \<in> set up \<Longrightarrow> f (amount b) \<le> amount x"
  shows "lists_wf C up (sort_desc (map_owner w f lo))"
proof (rule lists_wfI [where zs = "up @ map_owner w f lo"])
  have "\<forall>t\<in>set up. \<forall>b\<in>set (map_owner w f lo). amount b \<le> amount t"
    using below wf by (auto simp: lists_wf_def two_tier_def dest!: set_map_owner_cases)
  then show "two_tier up (sort_desc (map_owner w f lo))"
    using wf by (intro nl.resort_bottom) (auto simp: lists_wf_def two_tier_def)
  show "distinct (map owner (up @ map_owner w f lo))"
    using wf map_owner_owners [of w f lo] by (simp add: lists_wf_def flip: set_map)
  show "amount b < M128" if "b \<in> set (up @ map_owner w f lo)" for b
    using that wf f by (auto simp: lists_wf_def dest!: set_map_owner_cases)
qed (use wf in \<open>auto simp: lists_wf_def\<close>)

text \<open>A bottom nomination that grew displaces the lowest of the top list.\<close>

lemma lists_rise:
  assumes wf: "lists_wf C up lo" and ne: "up \<noteq> []" and b: "b \<in> set lo"
    and n: "owner n = owner b" "amount n < M128" "amount (last up) \<le> amount n"
  shows "lists_wf C (ins_desc n (butlast up)) (ins_desc (last up) (drop_owner (owner b) lo))"
proof (rule lists_bump [OF wf])
  show "length up = MaxTopNominationsPerCandidate C" using wf b by (auto simp: lists_wf_def)
  have d: "distinct (map owner lo)" using wf by (simp add: lists_wf_def)
  then show "distinct (map owner (drop_owner (owner b) lo))"
    by (simp add: drop_owner_def distinct_map_filter)
  show "length (drop_owner (owner b) lo) < MaxBottomNominationsPerCandidate C"
    using wf length_drop_owner [OF d b] by (simp add: lists_wf_def)
  show "two_tier up (drop_owner (owner b) lo)"
    using lists_rm_bottom [OF wf] by (simp add: lists_wf_def)
  show "owner n \<notin> owner ` set (up @ drop_owner (owner b) lo)"
    using wf b n(1) by (auto simp: lists_wf_def set_drop_owner)
qed (use ne n in \<open>auto simp: set_drop_owner\<close>)

text \<open>A top nomination that shrank changes places with the highest of the bottom list.\<close>

lemma lists_fall:
  assumes wf: "lists_wf C up (h # rest)" and b: "b \<in> set up"
    and n: "owner n = owner b" "amount n < amount h"
  shows "lists_wf C (ins_desc h (drop_owner (owner b) up)) (ins_desc n rest)"
proof (rule lists_add_bottom [OF lists_rm_top [OF wf b]])
  have tt: "two_tier up (h # rest)" and d: "distinct (map owner up)"
    using wf by (simp_all add: lists_wf_def)
  show "length (ins_desc h (drop_owner (owner b) up)) = MaxTopNominationsPerCandidate C"
    using wf length_drop_owner [OF d b] by (simp add: lists_wf_def)
  show "two_tier (ins_desc h (drop_owner (owner b) up)) rest"
    using lists_rm_top [OF wf b] by (simp add: lists_wf_def)
  have "owner b \<noteq> owner h"
    using wf imageI [OF b, of owner] by (auto simp: lists_wf_def simp del: image_eqI)
  then show "owner n \<notin> owner ` set (ins_desc h (drop_owner (owner b) up) @ rest)"
    using wf b n(1) by (auto simp: lists_wf_def set_drop_owner)
  show "\<forall>t\<in>set (ins_desc h (drop_owner (owner b) up)). amount n \<le> amount t"
    using tt n(2) by (fastforce simp: two_tier_def set_drop_owner)
  show "amount n < M128" using n(2) wf by (auto simp: lists_wf_def)
qed (use wf in \<open>auto simp: lists_wf_def\<close>)

subsubsection \<open>Capacities and extremes\<close>

lemma len_as_u32:
  assumes "cfg_ok C"
  shows "length xs \<le> MaxTopNominationsPerCandidate C \<Longrightarrow> as_u32 (length xs) = length xs"
    "length xs \<le> MaxBottomNominationsPerCandidate C \<Longrightarrow> as_u32 (length xs) = length xs"
  using assms by (auto simp: cfg_ok_def intro!: as_u32_id)

lemma top_capacity_iff:
  assumes "cfg_ok C" "length (nominations t) \<le> MaxTopNominationsPerCandidate C"
  shows "noms_top_capacity C t = CapFull \<longleftrightarrow> length (nominations t) = MaxTopNominationsPerCandidate C"
    "noms_top_capacity C t = CapEmpty \<longleftrightarrow> nominations t = []"
  using assms by (auto simp: noms_top_capacity_def len_as_u32 cfg_ok_def)

lemma bottom_capacity_iff:
  assumes "cfg_ok C" "length (nominations t) \<le> MaxBottomNominationsPerCandidate C"
  shows "noms_bottom_capacity C t = CapFull \<longleftrightarrow>
      length (nominations t) = MaxBottomNominationsPerCandidate C"
    "noms_bottom_capacity C t = CapEmpty \<longleftrightarrow> nominations t = []"
  using assms by (auto simp: noms_bottom_capacity_def len_as_u32 cfg_ok_def)

lemma lowest_le: "desc (nominations t) \<Longrightarrow> b \<in> set (nominations t) \<Longrightarrow>
    lowest_nomination_amount t \<le> amount b"
  by (auto simp: lowest_nomination_amount_def desc_last_le)

lemma le_highest: "desc (nominations t) \<Longrightarrow> b \<in> set (nominations t) \<Longrightarrow>
    amount b \<le> highest_nomination_amount t"
  by (auto simp: highest_nomination_amount_def split: list.splits)

text \<open>
  In a well-formed candidate the amount of a nomination tells which list holds it, unless the
  lowest of the top list equals the highest of the bottom list.
\<close>

lemma owner_tier:
  assumes "lists_wf C (nominations t) (nominations l)" "b \<in> set (nominations t @ nominations l)"
  shows "b \<in> set (nominations t) \<Longrightarrow> lowest_nomination_amount t \<le> amount b"
    "amount b < lowest_nomination_amount t \<Longrightarrow> b \<in> set (nominations l)"
    "lowest_nomination_amount t \<le> amount b \<Longrightarrow>
     lowest_nomination_amount t \<noteq> highest_nomination_amount l \<Longrightarrow> 0 < MaxTopNominationsPerCandidate C \<Longrightarrow>
     b \<in> set (nominations t)"
proof -
  have tt: "two_tier (nominations t) (nominations l)" using assms(1) by (simp add: lists_wf_def)
  show 1: "b \<in> set (nominations t) \<Longrightarrow> lowest_nomination_amount t \<le> amount b"
    using tt lowest_le by (auto simp: two_tier_def)
  show "amount b < lowest_nomination_amount t \<Longrightarrow> b \<in> set (nominations l)"
    using 1 assms(2) by auto
  assume ge: "lowest_nomination_amount t \<le> amount b"
    and ne: "lowest_nomination_amount t \<noteq> highest_nomination_amount l"
    and pos: "0 < MaxTopNominationsPerCandidate C"
  show "b \<in> set (nominations t)"
  proof (rule ccontr)
    assume "b \<notin> set (nominations t)"
    then have b: "b \<in> set (nominations l)" using assms(2) by simp
    then obtain h rest where h: "nominations l = h # rest" by (cases "nominations l") auto
    have "nominations t \<noteq> []" using assms(1) h pos by (auto simp: lists_wf_def)
    then have "amount h \<le> lowest_nomination_amount t"
      using tt h last_in_set [of "nominations t"] by (auto simp: two_tier_def lowest_nomination_amount_def)
    moreover have "amount b \<le> amount h" using tt b h by (auto simp: two_tier_def)
    ultimately show False using ge ne h by (simp add: highest_nomination_amount_def)
  qed
qed

subsection \<open>Candidates in storage\<close>

text \<open>All the bonds of a candidate, as a multiset: the abstract view of the two lists.\<close>

definition bonds :: "'w staking \<Rightarrow> acct \<Rightarrow> Bond multiset" where
  "bonds s c =
     (case TopNominations s c of Some t \<Rightarrow> mset (nominations t) | None \<Rightarrow> {#}) +
     (case BottomNominations s c of Some l \<Rightarrow> mset (nominations l) | None \<Rightarrow> {#})"

text \<open>The metadata \<open>m\<close> of \<open>c\<close> agrees with its lists and with its entry in the candidate pool.\<close>

definition cand_ok :: "'w Config \<Rightarrow> acct \<Rightarrow> CandidateMetadata \<Rightarrow> 'w staking \<Rightarrow> bool" where
  "cand_ok C c m s \<longleftrightarrow>
     (\<exists>t l. TopNominations s c = Some t \<and> BottomNominations s c = Some l \<and> cand_wf C m t l) \<and>
     (\<forall>v. bt_get (CandidatePool s) c = Some v \<longrightarrow> v = voting_power m)"

text \<open>Only the lists and the pool entry of \<open>c\<close> differ, and whether it has one does not.\<close>

definition pool_frame :: "acct \<Rightarrow> (acct, balance) btmap \<Rightarrow> (acct, balance) btmap \<Rightarrow> bool" where
  "pool_frame c p p' \<longleftrightarrow>
     (\<forall>x. x \<noteq> c \<longrightarrow> bt_get p' x = bt_get p x) \<and> (bt_get p' c = None \<longleftrightarrow> bt_get p c = None) \<and>
     (bt_wf p \<longrightarrow> bt_wf p')"

definition list_frame :: "acct \<Rightarrow> 'w staking \<Rightarrow> 'w staking \<Rightarrow> bool" where
  "list_frame c s s' \<longleftrightarrow>
     s' = s\<lparr>TopNominations := (TopNominations s)(c := TopNominations s' c),
            BottomNominations := (BottomNominations s)(c := BottomNominations s' c),
            CandidatePool := CandidatePool s'\<rparr> \<and>
     pool_frame c (CandidatePool s) (CandidatePool s')"

text \<open>Only the fields that summarise the lists differ.\<close>

definition meta_frame :: "CandidateMetadata \<Rightarrow> CandidateMetadata \<Rightarrow> bool" where
  "meta_frame m m' \<longleftrightarrow>
     m' = m\<lparr>nomination_count := nomination_count m', voting_power := voting_power m',
            lowest_top_nomination_amount := lowest_top_nomination_amount m',
            highest_bottom_nomination_amount := highest_bottom_nomination_amount m',
            lowest_bottom_nomination_amount := lowest_bottom_nomination_amount m',
            top_capacity := top_capacity m', bottom_capacity := bottom_capacity m'\<rparr>"

lemma pool_frame_refl [simp]: "pool_frame c p p"
  by (simp add: pool_frame_def)

lemma update_active_frame:
  "update_active c v s = s\<lparr>CandidatePool := CandidatePool (update_active c v s)\<rparr>"
  "pool_frame c (CandidatePool s) (CandidatePool (update_active c v s))"
  "bt_get (CandidatePool (update_active c v s)) c =
     (if bt_contains c (CandidatePool s) then Some v else None)"
  by (auto simp: update_active_def pool_frame_def bt_contains_def)

text \<open>
  Every operation writes its result as one store of the two lists and the pool, and metadata that
  is reset from them; the two shapes below make the proofs uniform.
\<close>

definition store_lists ::
  "acct \<Rightarrow> Nominations \<Rightarrow> Nominations \<Rightarrow> (acct, balance) btmap \<Rightarrow> 'w staking \<Rightarrow> 'w staking" where
  "store_lists c t l p s =
     s\<lparr>TopNominations := (TopNominations s)(c \<mapsto> t),
       BottomNominations := (BottomNominations s)(c \<mapsto> l), CandidatePool := p\<rparr>"

definition top_meta :: "'w Config \<Rightarrow> Nominations \<Rightarrow> CandidateMetadata \<Rightarrow> CandidateMetadata" where
  "top_meta C t m =
     m\<lparr>lowest_top_nomination_amount := lowest_nomination_amount t,
       top_capacity := noms_top_capacity C t, voting_power := add128 (bond m) (noms_total t)\<rparr>"

lemma reset_top_data_eq:
  assumes "\<And>v. bt_get (CandidatePool s) c = Some v \<Longrightarrow> v = voting_power m"
  shows "\<exists>p. reset_top_data C c t m s = (top_meta C t m, s\<lparr>CandidatePool := p\<rparr>) \<and>
    pool_frame c (CandidatePool s) p \<and>
    (\<forall>v. bt_get p c = Some v \<longrightarrow> v = add128 (bond m) (noms_total t))"
proof (cases "voting_power m = add128 (bond m) (noms_total t)")
  case True
  then show ?thesis
    using assms by (intro exI [of _ "CandidatePool s"]) (auto simp: reset_top_data_def top_meta_def)
next
  case False
  then show ?thesis
    using update_active_frame [where c = c and v = "add128 (bond m) (noms_total t)" and s = s]
    by (intro exI [of _ "CandidatePool (update_active c (add128 (bond m) (noms_total t)) s)"])
      (auto simp: reset_top_data_def top_meta_def split: if_splits)
qed

lemma store_shapes:
  "put_top c t ((put_bottom c l s)\<lparr>CandidatePool := p\<rparr>) = store_lists c t l p s"
  "put_bottom c l (put_top c t (s\<lparr>CandidatePool := p\<rparr>)) = store_lists c t l p s"
  "BottomNominations s c = Some l \<Longrightarrow> put_top c t (s\<lparr>CandidatePool := p\<rparr>) = store_lists c t l p s"
  "TopNominations s c = Some t \<Longrightarrow> put_bottom c l s = store_lists c t l (CandidatePool s) s"
  by (simp_all add: put_top_def put_bottom_def store_lists_def fun_upd_idem)

text \<open>
  \<open>list_op C c m s r B\<close>: the operation succeeds, keeps the candidate well-formed, leaves it with
  the bonds \<open>B\<close>, and touches nothing else.
\<close>

definition list_op ::
  "'w Config \<Rightarrow> acct \<Rightarrow> CandidateMetadata \<Rightarrow> 'w staking \<Rightarrow>
   ('w staking, error, 'x \<times> CandidateMetadata) outcome \<Rightarrow> Bond multiset \<Rightarrow> bool" where
  "list_op C c m s r B \<longleftrightarrow>
     (\<exists>x m' s'. r = Done (x, m') s' \<and> cand_ok C c m' s' \<and> bonds s' c = B \<and>
        list_frame c s s' \<and> meta_frame m m')"

lemma list_opI:
  assumes "r = Done (x, m') (store_lists c t l p s)"
    "lists_wf C (nominations t) (nominations l)" "pool_frame c (CandidatePool s) p"
    "\<And>v. bt_get p c = Some v \<Longrightarrow> v = voting_power m'"
    "lowest_top_nomination_amount m' = lowest_nomination_amount t"
    "highest_bottom_nomination_amount m' = highest_nomination_amount l"
    "lowest_bottom_nomination_amount m' = lowest_nomination_amount l"
    "top_capacity m' = noms_top_capacity C t" "bottom_capacity m' = noms_bottom_capacity C l"
    "nomination_count m' = length (nominations t) + length (nominations l)"
    "mset (nominations t) + mset (nominations l) = B" "meta_frame m m'"
  shows "list_op C c m s r B"
proof -
  have "cand_ok C c m' (store_lists c t l p s)" "list_frame c s (store_lists c t l p s)"
    "bonds (store_lists c t l p s) c = B"
    using assms(2-11)
    by (simp_all add: cand_ok_def cand_wf_def list_frame_def bonds_def store_lists_def)
  with assms(1,12) show ?thesis unfolding list_op_def by blast
qed

lemma top_meta_fields [simp]:
  "lowest_top_nomination_amount (top_meta C t m) = lowest_nomination_amount t"
  "top_capacity (top_meta C t m) = noms_top_capacity C t"
  "voting_power (top_meta C t m) = add128 (bond m) (noms_total t)"
  "highest_bottom_nomination_amount (top_meta C t m) = highest_bottom_nomination_amount m"
  "lowest_bottom_nomination_amount (top_meta C t m) = lowest_bottom_nomination_amount m"
  "bottom_capacity (top_meta C t m) = bottom_capacity m"
  "nomination_count (top_meta C t m) = nomination_count m"
  "bond (top_meta C t m) = bond m"
  by (simp_all add: top_meta_def)

lemma reset_bottom_data_fields [simp]:
  "highest_bottom_nomination_amount (reset_bottom_data C l m) = highest_nomination_amount l"
  "lowest_bottom_nomination_amount (reset_bottom_data C l m) = lowest_nomination_amount l"
  "bottom_capacity (reset_bottom_data C l m) = noms_bottom_capacity C l"
  "lowest_top_nomination_amount (reset_bottom_data C l m) = lowest_top_nomination_amount m"
  "top_capacity (reset_bottom_data C l m) = top_capacity m"
  "voting_power (reset_bottom_data C l m) = voting_power m"
  "nomination_count (reset_bottom_data C l m) = nomination_count m"
  "bond (reset_bottom_data C l m) = bond m"
  by (simp_all add: reset_bottom_data_def)

lemma insert_sorted_fields [simp]:
  "nominations (insert_sorted_greatest_to_least n t) = ins_desc n (nominations t)"
  "noms_total (insert_sorted_greatest_to_least n t) = sat_add128 (noms_total t) (amount n)"
  "nominations (sort_greatest_to_least t) = sort_desc (nominations t)"
  "noms_total (sort_greatest_to_least t) = noms_total t"
  by (simp_all add: insert_sorted_greatest_to_least_def sort_greatest_to_least_def)

lemma meta_frames [simp]:
  "meta_frame m m"
  "meta_frame m (m'\<lparr>nomination_count := k\<rparr>) = meta_frame m m'"
  "meta_frame m (top_meta C t m') = meta_frame m m'"
  "meta_frame m (reset_bottom_data C l m') = meta_frame m m'"
  by (cases m; cases m'; simp add: meta_frame_def top_meta_def reset_bottom_data_def)+

lemma list_frame_refl [simp]: "list_frame c s s"
  by (simp add: list_frame_def)

lemma cand_okE:
  assumes "cand_ok C c m s"
  obtains t l where "TopNominations s c = Some t" "BottomNominations s c = Some l" "cand_wf C m t l"
    "bonds s c = mset (nominations t) + mset (nominations l)"
    "\<And>v. bt_get (CandidatePool s) c = Some v \<Longrightarrow> v = voting_power m"
  using assms by (auto simp: cand_ok_def bonds_def)

lemma cand_wfD:
  assumes "cand_wf C m t l"
  shows "lists_wf C (nominations t) (nominations l)"
    "distinct (map owner (nominations t))" "distinct (map owner (nominations l))"
    "lowest_top_nomination_amount m = lowest_nomination_amount t"
    "highest_bottom_nomination_amount m = highest_nomination_amount l"
    "lowest_bottom_nomination_amount m = lowest_nomination_amount l"
    "top_capacity m = noms_top_capacity C t" "bottom_capacity m = noms_bottom_capacity C l"
    "nomination_count m = length (nominations t) + length (nominations l)"
  using assms by (simp_all add: cand_wf_def lists_wf_def)

lemma cand_wf_caps:
  assumes "cfg_ok C" "cand_wf C m t l"
  shows "top_capacity m = CapFull \<longleftrightarrow> length (nominations t) = MaxTopNominationsPerCandidate C"
    "bottom_capacity m = CapFull \<longleftrightarrow> length (nominations l) = MaxBottomNominationsPerCandidate C"
    "bottom_capacity m = CapEmpty \<longleftrightarrow> nominations l = []"
  using assms top_capacity_iff [OF assms(1)] bottom_capacity_iff [OF assms(1)]
  by (simp_all add: cand_wf_def lists_wf_def)

subsection \<open>Removing\<close>

lemma rm_top_ok:
  assumes cfg: "cfg_ok C" and ok: "cand_ok C c m s"
    and t: "TopNominations s c = Some t" and b: "b \<in> set (nominations t)"
  shows "list_op C c m s (rm_top_nomination C c (owner b) m s) (bonds s c - {#b#})"
proof -
  obtain l where l: "BottomNominations s c = Some l" and wf: "cand_wf C m t l"
    and pool: "\<And>v. bt_get (CandidatePool s) c = Some v \<Longrightarrow> v = voting_power m"
    and bonds: "bonds s c = mset (nominations t) + mset (nominations l)"
    using cand_okE [OF ok] t by (metis option.inject)
  note D = cand_wfD [OF wf]
  note rm = bond_of_distinct [OF D(2) b] mset_drop_owner [OF D(2) b] length_drop_owner [OF D(2) b]
  let ?t1 = "\<lparr>nominations = drop_owner (owner b) (nominations t),
              noms_total = noms_total t - amount b\<rparr>"
  show ?thesis
  proof (cases "nominations l")
    case Nil
    obtain p where p: "reset_top_data C c ?t1 m s = (top_meta C ?t1 m, s\<lparr>CandidatePool := p\<rparr>)"
        "pool_frame c (CandidatePool s) p"
        "\<And>v. bt_get p c = Some v \<Longrightarrow> v = add128 (bond m) (noms_total ?t1)"
      using reset_top_data_eq [OF pool, where C = C and t = ?t1] by blast
    have lw: "lists_wf C (nominations ?t1) (nominations l)"
      using lists_rm_top_alone [of C "nominations t"] D(1) Nil by simp
    have "rm_top_nomination C c (owner b) m s =
        Done (voting_power m = add128 (bond m) (noms_total ?t1),
          (top_meta C ?t1 m)\<lparr>nomination_count := nomination_count m - 1\<rparr>)
         (store_lists c ?t1 l p s)"
      using Nil t cand_wf_caps(3) [OF cfg wf] rm(1) p(1) store_shapes(3) [OF l, of ?t1 p]
      by (simp add: rm_top_nomination_def Let_def)
    then show ?thesis
      by (rule list_opI [OF _ lw p(2)]) (use p(3) D rm Nil bonds in simp_all)
  next
    case (Cons h rest)
    let ?l1 = "\<lparr>nominations = rest, noms_total = noms_total l - amount h\<rparr>"
      and ?t2 = "insert_sorted_greatest_to_least h ?t1"
    let ?m1 = "reset_bottom_data C ?l1 m" and ?s1 = "put_bottom c ?l1 s"
    have "\<And>v. bt_get (CandidatePool ?s1) c = Some v \<Longrightarrow> v = voting_power ?m1"
      using pool by (simp add: put_bottom_def)
    from reset_top_data_eq [OF this, where C = C and t = ?t2] obtain p where
      p: "reset_top_data C c ?t2 ?m1 ?s1 = (top_meta C ?t2 ?m1, ?s1\<lparr>CandidatePool := p\<rparr>)"
        "pool_frame c (CandidatePool ?s1) p"
        "\<And>v. bt_get p c = Some v \<Longrightarrow> v = add128 (bond ?m1) (noms_total ?t2)"
      by blast
    have lw: "lists_wf C (nominations ?t2) (nominations ?l1)"
      using lists_rm_top [of C "nominations t" h rest b] D(1) Cons b by simp
    have "rm_top_nomination C c (owner b) m s =
        Done (voting_power m = add128 (bond m) (noms_total ?t2),
          (top_meta C ?t2 ?m1)\<lparr>nomination_count := nomination_count m - 1\<rparr>)
         (store_lists c ?t2 ?l1 p s)"
      using Cons t l cand_wf_caps(3) [OF cfg wf] rm(1) p(1) store_shapes(1) [where c = c and t = ?t2 and l = ?l1 and s = s and p = p]
      by (simp add: rm_top_nomination_def Let_def)
    moreover have "pool_frame c (CandidatePool s) p" using p(2) by (simp add: put_bottom_def)
    ultimately show ?thesis
      by (rule list_opI [OF _ lw]) (use p(3) D rm Cons bonds in simp_all)
  qed
qed

lemma rm_bottom_ok:
  assumes ok: "cand_ok C c m s"
    and l: "BottomNominations s c = Some l" and b: "b \<in> set (nominations l)"
  shows "list_op C c m s (rm_bottom_nomination C c (owner b) m s) (bonds s c - {#b#})"
proof -
  obtain t where t: "TopNominations s c = Some t" and wf: "cand_wf C m t l"
    and pool: "\<And>v. bt_get (CandidatePool s) c = Some v \<Longrightarrow> v = voting_power m"
    and bonds: "bonds s c = mset (nominations t) + mset (nominations l)"
    using cand_okE [OF ok] l by (metis option.inject)
  note D = cand_wfD [OF wf]
  note rm = bond_of_distinct [OF D(3) b] mset_drop_owner [OF D(3) b] length_drop_owner [OF D(3) b]
  let ?l1 = "\<lparr>nominations = drop_owner (owner b) (nominations l),
              noms_total = noms_total l - amount b\<rparr>"
  have lw: "lists_wf C (nominations t) (nominations ?l1)" using lists_rm_bottom [OF D(1)] by simp
  have "rm_bottom_nomination C c (owner b) m s =
      Done (False, (reset_bottom_data C ?l1 m)\<lparr>nomination_count := nomination_count m - 1\<rparr>)
       (store_lists c t ?l1 (CandidatePool s) s)"
    using l rm store_shapes(4) [OF t, of ?l1] by (simp add: rm_bottom_nomination_def Let_def)
  then show ?thesis
    by (rule list_opI [OF _ lw pool_frame_refl]) (use pool D rm bonds in simp_all)
qed

text \<open>The whole of \<open>rm_nomination_if_exists\<close>, whichever list holds the bond.\<close>

lemma rm_top_not_owner:
  assumes "TopNominations s c = Some t" "w \<notin> owner ` set (nominations t)"
  shows "rm_top_nomination C c w m s = Fail (StakingError NominationDNE) s"
  using assms bond_of_None [of w "nominations t"] by (simp add: rm_top_nomination_def)

lemma not_owner_top:
  "lists_wf C up lo \<Longrightarrow> b \<in> set lo \<Longrightarrow> owner b \<notin> owner ` set up"
  by (auto simp: lists_wf_def)

lemma rm_nomination_ok:
  assumes cfg: "cfg_ok C" and ok: "cand_ok C c m s" and b: "b \<in># bonds s c"
  shows "list_op C c m s (rm_nomination_if_exists C c (owner b) (amount b) m s) (bonds s c - {#b#})"
proof -
  obtain t l where t: "TopNominations s c = Some t" and l: "BottomNominations s c = Some l"
    and wf: "cand_wf C m t l" and bonds: "bonds s c = mset (nominations t) + mset (nominations l)"
    using cand_okE [OF ok] by metis
  note D = cand_wfD [OF wf]
  have b': "b \<in> set (nominations t @ nominations l)" using b bonds by simp
  have pos: "0 < MaxTopNominationsPerCandidate C" using cfg by (simp add: cfg_ok_def)
  show ?thesis
  proof (cases "b \<in> set (nominations t)")
    case True
    then have "list_op C c m s (rm_top_nomination C c (owner b) m s) (bonds s c - {#b#})"
      by (rule rm_top_ok [OF cfg ok t])
    moreover have "lowest_top_nomination_amount m \<le> amount b"
      using owner_tier(1) [OF D(1) b' True] D(4) by simp
    ultimately show ?thesis
      by (auto simp: rm_nomination_if_exists_def Let_def list_op_def)
  next
    case False
    then have bl: "b \<in> set (nominations l)" using b' by simp
    then have "top_capacity m = CapFull"
      using cand_wf_caps(1) [OF cfg wf] D(1) by (auto simp: lists_wf_def)
    moreover have "amount b < lowest_top_nomination_amount m \<or>
        lowest_top_nomination_amount m = highest_bottom_nomination_amount m"
      using owner_tier(3) [OF D(1) b' _ _ pos] False D(4,5) by (metis not_le)
    ultimately show ?thesis
      using rm_bottom_ok [OF ok l bl] rm_top_not_owner [OF t not_owner_top [OF D(1) bl]]
      by (auto simp: rm_nomination_if_exists_def Let_def)
  qed
qed

subsection \<open>Increasing and decreasing\<close>

lemma map_owner_notin: "w \<notin> owner ` set bs \<Longrightarrow> map_owner w f bs = bs"
  by (induction bs) (auto simp: map_owner_def)

lemma mset_map_owner:
  assumes "distinct (map owner bs)" "b \<in> set bs"
  shows "mset (map_owner (owner b) f bs) = add_mset (b\<lparr>amount := f (amount b)\<rparr>) (mset bs - {#b#})"
  using assms
proof (induction bs)
  case (Cons x bs)
  show ?case
  proof (cases "x = b")
    case True
    then have "map_owner (owner b) f bs = bs"
      using Cons.prems by (auto intro: map_owner_notin)
    with True show ?thesis by (simp add: map_owner_def)
  next
    case False
    then have "b \<in> set bs" "owner x \<noteq> owner b" using Cons.prems by auto
    with Cons False show ?thesis by (simp add: map_owner_def)
  qed
qed simp

lemma increase_top_ok:
  assumes ok: "cand_ok C c m s"
    and t: "TopNominations s c = Some t" and b: "b \<in> set (nominations t)"
  shows "list_op C c m s (increase_top_nomination C c (owner b) mr m s)
    (add_mset (b\<lparr>amount := sat_add128 (amount b) mr\<rparr>) (bonds s c - {#b#}))"
proof -
  obtain l where l: "BottomNominations s c = Some l" and wf: "cand_wf C m t l"
    and pool: "\<And>v. bt_get (CandidatePool s) c = Some v \<Longrightarrow> v = voting_power m"
    and bonds: "bonds s c = mset (nominations t) + mset (nominations l)"
    using cand_okE [OF ok] t by (metis option.inject)
  note D = cand_wfD [OF wf]
  let ?t1 = "sort_greatest_to_least
     \<lparr>nominations = map_owner (owner b) (\<lambda>a. sat_add128 a mr) (nominations t),
      noms_total = sat_add128 (noms_total t) mr\<rparr>"
  obtain p where p: "reset_top_data C c ?t1 m s = (top_meta C ?t1 m, s\<lparr>CandidatePool := p\<rparr>)"
      "pool_frame c (CandidatePool s) p"
      "\<And>v. bt_get p c = Some v \<Longrightarrow> v = add128 (bond m) (noms_total ?t1)"
    using reset_top_data_eq [OF pool, where C = C and t = ?t1] by blast
  have "amount x \<le> sat_add128 (amount b') mr"
    if "b' \<in> set (nominations t)" "x \<in> set (nominations l)" for b' x
    using D(1) that sat_add128_ge [of "amount b'" mr]
    by (fastforce simp: lists_wf_def two_tier_def intro: order_trans)
  then have lw: "lists_wf C (nominations ?t1) (nominations l)"
    using lists_map_top [OF D(1), of "\<lambda>a. sat_add128 a mr"] sat_add128_bound by simp
  have "increase_top_nomination C c (owner b) mr m s =
      Done (True, top_meta C ?t1 m) (store_lists c ?t1 l p s)"
    using t b p(1) store_shapes(3) [OF l, of ?t1 p]
    by (auto simp: increase_top_nomination_def has_owner_iff Let_def)
  then show ?thesis
    by (rule list_opI [OF _ lw p(2)])
      (use p(3) D mset_map_owner [OF D(2) b] bonds b in simp_all)
qed

lemma increase_bottom_ok:
  assumes cfg: "cfg_ok C" and ok: "cand_ok C c m s"
    and l: "BottomNominations s c = Some l" and b: "b \<in> set (nominations l)"
  shows "list_op C c m s (increase_bottom_nomination C c (owner b) (amount b) mr m s)
    (add_mset (b\<lparr>amount := sat_add128 (amount b) mr\<rparr>) (bonds s c - {#b#}))"
proof -
  obtain t where t: "TopNominations s c = Some t" and wf: "cand_wf C m t l"
    and pool: "\<And>v. bt_get (CandidatePool s) c = Some v \<Longrightarrow> v = voting_power m"
    and bonds: "bonds s c = mset (nominations t) + mset (nominations l)"
    using cand_okE [OF ok] l by (metis option.inject)
  note D = cand_wfD [OF wf]
  note rm = bond_of_distinct [OF D(3) b] mset_drop_owner [OF D(3) b] length_drop_owner [OF D(3) b]
  have full: "length (nominations t) = MaxTopNominationsPerCandidate C"
    using D(1) b by (auto simp: lists_wf_def)
  then have cap: "noms_top_capacity C t = CapFull"
    using top_capacity_iff(1) [OF cfg, of t] by simp
  have ne: "nominations t \<noteq> []" using full cfg by (auto simp: cfg_ok_def)
  let ?n = "b\<lparr>amount := sat_add128 (amount b) mr\<rparr>" and ?w = "last (nominations t)"
  show ?thesis
  proof (cases "lowest_top_nomination_amount m < sat_add128 (amount b) mr")
    case True
    let ?t1 = "insert_sorted_greatest_to_least ?n
      \<lparr>nominations = butlast (nominations t), noms_total = noms_total t - amount ?w\<rparr>"
    let ?l1 = "insert_sorted_greatest_to_least ?w
      \<lparr>nominations = drop_owner (owner b) (nominations l), noms_total = noms_total l - amount b\<rparr>"
    obtain p where p: "reset_top_data C c ?t1 m s = (top_meta C ?t1 m, s\<lparr>CandidatePool := p\<rparr>)"
        "pool_frame c (CandidatePool s) p"
        "\<And>v. bt_get p c = Some v \<Longrightarrow> v = add128 (bond m) (noms_total ?t1)"
      using reset_top_data_eq [OF pool, where C = C and t = ?t1] by blast
    have lw: "lists_wf C (nominations ?t1) (nominations ?l1)"
      using lists_rise [OF D(1) ne b, of ?n] True D(4) ne
      by (simp add: lowest_nomination_amount_def sat_add128_bound)
    have "increase_bottom_nomination C c (owner b) (amount b) mr m s =
        Done (True, reset_bottom_data C ?l1 (top_meta C ?t1 m)) (store_lists c ?t1 ?l1 p s)"
      using True t l cap ne rm(1) p(1)
        store_shapes(2) [where c = c and t = ?t1 and l = ?l1 and s = s and p = p]
      by (simp add: increase_bottom_nomination_def Let_def)
    then show ?thesis
      by (rule list_opI [OF _ lw p(2)])
        (use p(3) D rm(2,3) bonds mset_butlast_last [OF ne] length_ins_butlast [OF ne, of ?n] in simp_all)
  next
    case False
    let ?l1 = "sort_greatest_to_least
      \<lparr>nominations = map_owner (owner b) (\<lambda>a. sat_add128 a mr) (nominations l),
       noms_total = sat_add128 (noms_total l) mr\<rparr>"
    have "sat_add128 (amount b') mr \<le> amount x"
      if "b' \<in> set (nominations l)" "owner b' = owner b" "x \<in> set (nominations t)" for b' x
    proof -
      have "b' = b" using D(3) that(1,2) b by (metis distinct_map inj_onD)
      moreover have "lowest_top_nomination_amount m \<le> amount x"
        using lowest_le [of t x] D(1,4) that(3) by (simp add: lists_wf_def two_tier_def)
      ultimately show ?thesis using False by simp
    qed
    then have lw: "lists_wf C (nominations t) (nominations ?l1)"
      using lists_map_bottom [OF D(1), of "\<lambda>a. sat_add128 a mr" "owner b"] sat_add128_bound by simp
    have "increase_bottom_nomination C c (owner b) (amount b) mr m s =
        Done (False, reset_bottom_data C ?l1 m) (store_lists c t ?l1 (CandidatePool s) s)"
      using False l b store_shapes(4) [OF t, of ?l1]
      by (auto simp: increase_bottom_nomination_def has_owner_iff Let_def)
    then show ?thesis
      by (rule list_opI [OF _ lw pool_frame_refl])
        (use pool D mset_map_owner [OF D(3) b] bonds b in simp_all)
  qed
qed

lemma increase_top_not_owner:
  assumes "TopNominations s c = Some t" "w \<notin> owner ` set (nominations t)"
  shows "increase_top_nomination C c w mr m s = Fail (StakingError NominationDNE) s"
  using assms by (simp add: increase_top_nomination_def has_owner_iff)

lemma in_bottom_tier:
  assumes cfg: "cfg_ok C" and wf: "cand_wf C m t l"
    and b: "b \<in> set (nominations l)" "b \<notin> set (nominations t)"
  shows "amount b < lowest_top_nomination_amount m \<or>
    lowest_top_nomination_amount m = highest_bottom_nomination_amount m"
proof -
  have "0 < MaxTopNominationsPerCandidate C" using cfg by (simp add: cfg_ok_def)
  moreover have "b \<in> set (nominations t @ nominations l)" using b by simp
  ultimately show ?thesis
    using owner_tier(3) [OF cand_wfD(1) [OF wf]] cand_wfD(4,5) [OF wf] b(2) by (metis not_le)
qed

lemma increase_nomination_ok:
  assumes cfg: "cfg_ok C" and ok: "cand_ok C c m s" and b: "b \<in># bonds s c"
  shows "list_op C c m s (cm_increase_nomination C c (owner b) (amount b) mr m s)
    (add_mset (b\<lparr>amount := sat_add128 (amount b) mr\<rparr>) (bonds s c - {#b#}))"
proof -
  obtain t l where t: "TopNominations s c = Some t" and l: "BottomNominations s c = Some l"
    and wf: "cand_wf C m t l" and bonds: "bonds s c = mset (nominations t) + mset (nominations l)"
    using cand_okE [OF ok] by metis
  note D = cand_wfD [OF wf]
  have b': "b \<in> set (nominations t @ nominations l)" using b bonds by simp
  show ?thesis
  proof (cases "b \<in> set (nominations t)")
    case True
    then show ?thesis
      using increase_top_ok [OF ok t True, of mr] owner_tier(1) [OF D(1) b' True] D(4)
      by (auto simp: cm_increase_nomination_def Let_def list_op_def)
  next
    case False
    then have bl: "b \<in> set (nominations l)" using b' by simp
    then show ?thesis
      using increase_bottom_ok [OF cfg ok l bl, of mr] in_bottom_tier [OF cfg wf bl False]
        increase_top_not_owner [OF t not_owner_top [OF D(1) bl]]
      by (auto simp: cm_increase_nomination_def Let_def)
  qed
qed

lemma foldl_sub_owner:
  assumes "distinct (map owner bs)" "b \<in> set bs"
  shows "foldl (\<lambda>t d. t - amount d) x (filter (\<lambda>d. owner d = owner b) bs) = x - amount b"
proof -
  have "filter (\<lambda>d. owner d = owner b) bs = [b]"
    using assms
  proof (induction bs)
    case (Cons y ys)
    then show ?case
      by (cases "y = b") (auto simp: filter_empty_conv rev_image_eqI)
  qed simp
  then show ?thesis by simp
qed

lemma decrease_top_ok:
  assumes cfg: "cfg_ok C" and ok: "cand_ok C c m s"
    and t: "TopNominations s c = Some t" and b: "b \<in> set (nominations t)"
  shows "list_op C c m s (decrease_top_nomination C c (owner b) (amount b) ls m s)
    (add_mset (b\<lparr>amount := amount b - ls\<rparr>) (bonds s c - {#b#}))"
proof -
  obtain l where l: "BottomNominations s c = Some l" and wf: "cand_wf C m t l"
    and pool: "\<And>v. bt_get (CandidatePool s) c = Some v \<Longrightarrow> v = voting_power m"
    and bonds: "bonds s c = mset (nominations t) + mset (nominations l)"
    using cand_okE [OF ok] t by (metis option.inject)
  note D = cand_wfD [OF wf] and caps = cand_wf_caps [OF cfg wf]
  note rm = bond_of_distinct [OF D(2) b] mset_drop_owner [OF D(2) b] length_drop_owner [OF D(2) b]
  let ?n = "b\<lparr>amount := amount b - ls\<rparr>"
  show ?thesis
  proof (cases "amount b - ls < highest_bottom_nomination_amount m \<and>
      top_capacity m = CapFull \<and> bottom_capacity m \<noteq> CapEmpty")
    case True
    then obtain h rest where h: "nominations l = h # rest" using caps(3) by (cases "nominations l") auto
    let ?t1 = "insert_sorted_greatest_to_least h
      \<lparr>nominations = drop_owner (owner b) (nominations t), noms_total = noms_total t - amount b\<rparr>"
    let ?l1 = "insert_sorted_greatest_to_least ?n \<lparr>nominations = rest, noms_total = noms_total l - amount h\<rparr>"
    let ?m1 = "reset_bottom_data C ?l1 m" and ?s1 = "put_bottom c ?l1 s"
    have "\<And>v. bt_get (CandidatePool ?s1) c = Some v \<Longrightarrow> v = voting_power ?m1"
      using pool by (simp add: put_bottom_def)
    from reset_top_data_eq [OF this, where C = C and t = ?t1] obtain p where
      p: "reset_top_data C c ?t1 ?m1 ?s1 = (top_meta C ?t1 ?m1, ?s1\<lparr>CandidatePool := p\<rparr>)"
        "pool_frame c (CandidatePool ?s1) p"
        "\<And>v. bt_get p c = Some v \<Longrightarrow> v = add128 (bond ?m1) (noms_total ?t1)"
      by blast
    have lw: "lists_wf C (nominations ?t1) (nominations ?l1)"
      using lists_fall [of C "nominations t" h rest b ?n] D(1,5) h b True
      by (simp add: highest_nomination_amount_def)
    have "decrease_top_nomination C c (owner b) (amount b) ls m s =
        Done (False, top_meta C ?t1 ?m1) (store_lists c ?t1 ?l1 p s)"
      using True t l h rm(1) p(1) foldl_sub_owner [OF D(2) b]
        store_shapes(1) [where c = c and t = ?t1 and l = ?l1 and s = s and p = p]
      by (simp add: decrease_top_nomination_def Let_def)
    moreover have "pool_frame c (CandidatePool s) p" using p(2) by (simp add: put_bottom_def)
    ultimately show ?thesis
      by (rule list_opI [OF _ lw]) (use p(3) D rm(2,3) h bonds in simp_all)
  next
    case False
    let ?t1 = "sort_greatest_to_least
      \<lparr>nominations = map_owner (owner b) (\<lambda>a. a - ls) (nominations t), noms_total = noms_total t - ls\<rparr>"
    obtain p where p: "reset_top_data C c ?t1 m s = (top_meta C ?t1 m, s\<lparr>CandidatePool := p\<rparr>)"
        "pool_frame c (CandidatePool s) p"
        "\<And>v. bt_get p c = Some v \<Longrightarrow> v = add128 (bond m) (noms_total ?t1)"
      using reset_top_data_eq [OF pool, where C = C and t = ?t1] by blast
    have "amount x \<le> amount b' - ls"
      if "b' \<in> set (nominations t)" "owner b' = owner b" "x \<in> set (nominations l)" for b' x
    proof -
      have "b' = b" using D(2) that(1,2) b by (metis distinct_map inj_onD)
      moreover have "amount x \<le> highest_bottom_nomination_amount m"
        using le_highest [of l x] D(1,5) that(3) by (simp add: lists_wf_def two_tier_def)
      moreover have "top_capacity m = CapFull" "bottom_capacity m \<noteq> CapEmpty"
        using caps(1,3) D(1) that(3) by (auto simp: lists_wf_def)
      ultimately show ?thesis using False by simp
    qed
    then have lw: "lists_wf C (nominations ?t1) (nominations l)"
      using lists_map_top [OF D(1), of "\<lambda>a. a - ls" "owner b"] by simp
    have "decrease_top_nomination C c (owner b) (amount b) ls m s =
        Done (True, top_meta C ?t1 m) (store_lists c ?t1 l p s)"
      using False t b p(1) store_shapes(3) [OF l, of ?t1 p]
      by (auto simp: decrease_top_nomination_def has_owner_iff Let_def)
    then show ?thesis
      by (rule list_opI [OF _ lw p(2)])
        (use p(3) D mset_map_owner [OF D(2) b] bonds b in simp_all)
  qed
qed

lemma decrease_bottom_ok:
  assumes ok: "cand_ok C c m s"
    and l: "BottomNominations s c = Some l" and b: "b \<in> set (nominations l)"
  shows "list_op C c m s (decrease_bottom_nomination C c (owner b) ls m s)
    (add_mset (b\<lparr>amount := amount b - ls\<rparr>) (bonds s c - {#b#}))"
proof -
  obtain t where t: "TopNominations s c = Some t" and wf: "cand_wf C m t l"
    and pool: "\<And>v. bt_get (CandidatePool s) c = Some v \<Longrightarrow> v = voting_power m"
    and bonds: "bonds s c = mset (nominations t) + mset (nominations l)"
    using cand_okE [OF ok] l by (metis option.inject)
  note D = cand_wfD [OF wf]
  let ?l1 = "sort_greatest_to_least
    (l\<lparr>nominations := map_owner (owner b) (\<lambda>a. a - ls) (nominations l)\<rparr>)"
  have "amount b' - ls \<le> amount x"
    if "b' \<in> set (nominations l)" "x \<in> set (nominations t)" for b' x
    using D(1) that by (fastforce simp: lists_wf_def two_tier_def intro: order_trans [of _ "amount b'"])
  then have lw: "lists_wf C (nominations t) (nominations ?l1)"
    using lists_map_bottom [OF D(1), of "\<lambda>a. a - ls" "owner b"] by simp
  have "decrease_bottom_nomination C c (owner b) ls m s =
      Done (False, reset_bottom_data C ?l1 m) (store_lists c t ?l1 (CandidatePool s) s)"
    using l b store_shapes(4) [OF t, of ?l1]
    by (auto simp: decrease_bottom_nomination_def has_owner_iff Let_def)
  then show ?thesis
    by (rule list_opI [OF _ lw pool_frame_refl])
      (use pool D mset_map_owner [OF D(3) b] bonds b in simp_all)
qed

lemma decrease_top_not_owner:
  assumes "TopNominations s c = Some t" "w \<notin> owner ` set (nominations t)"
  shows "decrease_top_nomination C c w bd ls m s = Fail (StakingError NominationDNE) s"
  using assms bond_of_None [of w "nominations t"]
  by (simp add: decrease_top_nomination_def has_owner_iff)

lemma decrease_nomination_ok:
  assumes cfg: "cfg_ok C" and ok: "cand_ok C c m s" and b: "b \<in># bonds s c"
  shows "list_op C c m s (cm_decrease_nomination C c (owner b) (amount b) ls m s)
    (add_mset (b\<lparr>amount := amount b - ls\<rparr>) (bonds s c - {#b#}))"
proof -
  obtain t l where t: "TopNominations s c = Some t" and l: "BottomNominations s c = Some l"
    and wf: "cand_wf C m t l" and bonds: "bonds s c = mset (nominations t) + mset (nominations l)"
    using cand_okE [OF ok] by metis
  note D = cand_wfD [OF wf]
  have b': "b \<in> set (nominations t @ nominations l)" using b bonds by simp
  show ?thesis
  proof (cases "b \<in> set (nominations t)")
    case True
    then show ?thesis
      using decrease_top_ok [OF cfg ok t True, of ls] owner_tier(1) [OF D(1) b' True] D(4)
      by (auto simp: cm_decrease_nomination_def Let_def list_op_def)
  next
    case False
    then have bl: "b \<in> set (nominations l)" using b' by simp
    then show ?thesis
      using decrease_bottom_ok [OF ok l bl, of ls] in_bottom_tier [OF cfg wf bl False]
        decrease_top_not_owner [OF t not_owner_top [OF D(1) bl]]
      by (auto simp: cm_decrease_nomination_def Let_def)
  qed
qed

subsection \<open>Adding\<close>

text \<open>What kicking the lowest bottom nomination \<open>k\<close> does to its owner.\<close>

definition kick_nominator :: "'w Config \<Rightarrow> acct \<Rightarrow> Bond \<Rightarrow> Nominator \<Rightarrow> 'w staking \<Rightarrow> 'w staking" where
  "kick_nominator C c k ns s =
     (let s1 = deposit_event (NominationKicked (owner k) c (amount k))
                 (cur_unreserve C (owner k) (amount k) s);
          ns1 = fst (nr_rm_nomination c ns)
      in if length (nr_nominations ns) = 1
         then deposit_event (NominatorLeft (owner k) (amount k)) (del_nominator (owner k) s1)
         else put_nominator (owner k) (ns1\<lparr>nr_requests := pr_remove_request c (nr_requests ns1)\<rparr>) s1)"

lemma kick_nominator_fields [simp]:
  "TopNominations (kick_nominator C c k ns s) = TopNominations s"
  "BottomNominations (kick_nominator C c k ns s) = BottomNominations s"
  "CandidatePool (kick_nominator C c k ns s) = CandidatePool s"
  by (simp_all add: kick_nominator_def Let_def put_defs)

lemma bonds_kick_nominator [simp]: "bonds (kick_nominator C c k ns s) x = bonds s x"
  by (simp add: bonds_def)

lemma add_bottom_room:
  assumes cfg: "cfg_ok C" and l: "BottomNominations s c = Some l"
    and room: "length (nominations l) < MaxBottomNominationsPerCandidate C"
  shows "add_bottom_nomination C bumped c n m s =
    Done (reset_bottom_data C (insert_sorted_greatest_to_least n l)
        (if bumped then m else m\<lparr>nomination_count := add32 (nomination_count m) 1\<rparr>))
      (put_bottom c (insert_sorted_greatest_to_least n l) s)"
  using len_as_u32(2) [OF cfg, of "nominations l"] l room
  by (simp add: add_bottom_nomination_def Let_def)

lemma add_bottom_kick:
  assumes cfg: "cfg_ok C" and l: "BottomNominations s c = Some l"
    and full: "length (nominations l) = MaxBottomNominationsPerCandidate C"
    and k: "k = last (nominations l)" and ns: "NominatorState s (owner k) = Some ns"
    and l1: "l1 = insert_sorted_greatest_to_least n
    \<lparr>nominations = butlast (nominations l), noms_total = noms_total l - amount k\<rparr>"
  shows "add_bottom_nomination C bumped c n m s =
    Done (reset_bottom_data C l1 m) (put_bottom c l1 (kick_nominator C c k ns s))"
proof -
  have "nominations l \<noteq> []" using full cfg by (auto simp: cfg_ok_def)
  then show ?thesis
    using len_as_u32(2) [OF cfg, of "nominations l"] l full k ns
    by (simp add: add_bottom_nomination_def kick_nominator_def l1 cur_unreserve_def Let_def)
qed

lemma count_room:
  assumes "cfg_ok C" "lists_wf C up lo" "length up + length lo < MaxTopNominationsPerCandidate C + MaxBottomNominationsPerCandidate C"
  shows "add32 (length up + length lo) 1 = Suc (length up + length lo)"
  using assms by (simp add: cfg_ok_def add32_id)

text \<open>A nomination enters the top list; \<open>s0\<close> is the state after the owner of a kicked bond is settled.\<close>

lemma add_top_room:
  assumes cfg: "cfg_ok C" and ok: "cand_ok C c m s"
    and t: "TopNominations s c = Some t"
    and room: "length (nominations t) < MaxTopNominationsPerCandidate C"
    and n: "owner n \<notin> owner ` set_mset (bonds s c)" "amount n < M128"
  shows "\<exists>m' s'. add_top_nomination C c n m s = Done (None, m') s' \<and>
    list_op C c m s (Done ((), m') s') (add_mset n (bonds s c))"
proof -
  obtain l where l: "BottomNominations s c = Some l" and wf: "cand_wf C m t l"
    and pool: "\<And>v. bt_get (CandidatePool s) c = Some v \<Longrightarrow> v = voting_power m"
    and bonds: "bonds s c = mset (nominations t) + mset (nominations l)"
    using cand_okE [OF ok] t by (metis option.inject)
  note D = cand_wfD [OF wf]
  have lo: "nominations l = []" using D(1) room by (auto simp: lists_wf_def)
  let ?t1 = "insert_sorted_greatest_to_least n t"
  obtain p where p: "reset_top_data C c ?t1 m s = (top_meta C ?t1 m, s\<lparr>CandidatePool := p\<rparr>)"
      "pool_frame c (CandidatePool s) p"
      "\<And>v. bt_get p c = Some v \<Longrightarrow> v = add128 (bond m) (noms_total ?t1)"
    using reset_top_data_eq [OF pool, where C = C and t = ?t1] by blast
  have lw: "lists_wf C (nominations ?t1) (nominations l)"
    using lists_add_top [OF D(1) room] n bonds by simp
  let ?m' = "(top_meta C ?t1 m)\<lparr>nomination_count := add32 (nomination_count m) 1\<rparr>"
  have "add_top_nomination C c n m s = Done (None, ?m') (store_lists c ?t1 l p s)"
    using t room len_as_u32(1) [OF cfg, of "nominations t"] p(1) store_shapes(3) [OF l, of ?t1 p]
    by (simp add: add_top_nomination_def Let_def)
  moreover have "list_op C c m s (Done ((), ?m') (store_lists c ?t1 l p s)) (add_mset n (bonds s c))"
    by (rule list_opI [OF refl lw p(2)])
      (use p(3) D lo bonds count_room [OF cfg D(1)] room in simp_all)
  ultimately show ?thesis by blast
qed

lemma add_top_bump:
  assumes cfg: "cfg_ok C" and ok: "cand_ok C c m s"
    and t: "TopNominations s c = Some t"
    and full: "length (nominations t) = MaxTopNominationsPerCandidate C"
    and n: "owner n \<notin> owner ` set_mset (bonds s c)" "amount n < M128"
      "lowest_top_nomination_amount m < amount n"
    and l0: "two_tier (nominations t) (nominations l0)" "set (nominations l0) \<subseteq> set (nominations l)"
      "distinct (map owner (nominations l0))"
      "length (nominations l0) < MaxBottomNominationsPerCandidate C"
    and l: "BottomNominations s c = Some l"
    and s0: "TopNominations s0 = TopNominations s" "CandidatePool s0 = CandidatePool s"
    and bot: "add_bottom_nomination C True c (last (nominations t)) m s =
      Done (reset_bottom_data C l1 m) (put_bottom c l1 s0)"
      "l1 = insert_sorted_greatest_to_least (last (nominations t)) l0"
    and count: "length (nominations l0) = length (nominations l) - (if bottom_capacity m = CapFull then 1 else 0)"
  shows "\<exists>x m' s'. add_top_nomination C c n m s = Done (x, m') s' \<and>
    list_op C c m s0 (Done ((), m') s') (add_mset n (mset (nominations t) + mset (nominations l0)))"
proof -
  have wf: "cand_wf C m t l" and bonds: "bonds s c = mset (nominations t) + mset (nominations l)"
    and pool: "\<And>v. bt_get (CandidatePool s) c = Some v \<Longrightarrow> v = voting_power m"
    using cand_okE [OF ok] t l by (metis option.inject)+
  note D = cand_wfD [OF wf]
  have ne: "nominations t \<noteq> []" using full cfg by (auto simp: cfg_ok_def)
  let ?w = "last (nominations t)"
  let ?t1 = "insert_sorted_greatest_to_least n
    \<lparr>nominations = butlast (nominations t), noms_total = noms_total t - amount ?w\<rparr>"
  let ?m1 = "reset_bottom_data C l1 m" and ?s1 = "put_bottom c l1 s0"
  have "\<And>v. bt_get (CandidatePool ?s1) c = Some v \<Longrightarrow> v = voting_power ?m1"
    using pool s0 by (simp add: put_bottom_def)
  from reset_top_data_eq [OF this, where C = C and t = ?t1] obtain p where
    p: "reset_top_data C c ?t1 ?m1 ?s1 = (top_meta C ?t1 ?m1, ?s1\<lparr>CandidatePool := p\<rparr>)"
      "pool_frame c (CandidatePool ?s1) p"
      "\<And>v. bt_get p c = Some v \<Longrightarrow> v = add128 (bond ?m1) (noms_total ?t1)"
    by blast
  let ?x = "if bottom_capacity m = CapFull then Some (lowest_bottom_nomination_amount m) else None"
  let ?m' = "(top_meta C ?t1 ?m1)\<lparr>nomination_count :=
    (if ?x = None then add32 (nomination_count m) 1 else nomination_count m)\<rparr>"
  have own: "owner n \<notin> owner ` set (nominations t @ nominations l0)" using n(1) bonds l0(2) by auto
  have low: "amount ?w \<le> amount n" using n(3) D(4) ne by (simp add: lowest_nomination_amount_def)
  have lw: "lists_wf C (nominations ?t1) (nominations l1)"
    using lists_bump [OF D(1) full ne l0(1-4) own n(2) low] bot(2) by simp
  have nc: "nomination_count ?m' = length (nominations ?t1) + length (nominations l1)"
    using D bot(2) ne length_ins_butlast [OF ne, of n] count l0(4) full
      cand_wf_caps(2) [OF cfg wf] count_room [OF cfg D(1)] cfg
    by (cases "bottom_capacity m = CapFull") (auto simp: cfg_ok_def)
  have "add_top_nomination C c n m s = Done (?x, ?m') (store_lists c ?t1 l1 p s0)"
    using t full ne len_as_u32(1) [OF cfg, of "nominations t"] p(1) bot(1)
      store_shapes(1) [where c = c and t = ?t1 and l = l1 and s = s0 and p = p]
    by (simp add: add_top_nomination_def Let_def)
  moreover have "pool_frame c (CandidatePool s0) p" using p(2) by (simp add: put_bottom_def)
  then have "list_op C c m s0 (Done ((), ?m') (store_lists c ?t1 l1 p s0))
      (add_mset n (mset (nominations t) + mset (nominations l0)))"
    by (rule list_opI [OF refl lw])
      (use p(3) D bot(2) ne mset_butlast_last [OF ne] nc in simp_all)
  ultimately show ?thesis by blast
qed

lemma two_tier_last:
  assumes "lists_wf C up lo" "up \<noteq> []" "lo \<noteq> []"
  shows "amount (last lo) \<le> amount (last up)"
  using assms by (auto simp: lists_wf_def two_tier_def)

lemma add_bottom_op:
  assumes wf: "cand_wf C m t l" and t: "TopNominations s0 c = Some t"
    and pool: "\<And>v. bt_get (CandidatePool s0) c = Some v \<Longrightarrow> v = voting_power m"
    and lw: "lists_wf C (nominations t) (nominations (insert_sorted_greatest_to_least n l0))"
    and m1: "m1 = m\<lparr>nomination_count := length (nominations t) + Suc (length (nominations l0))\<rparr>"
  shows "list_op C c m s0
    (Done (x, reset_bottom_data C (insert_sorted_greatest_to_least n l0) m1)
      (put_bottom c (insert_sorted_greatest_to_least n l0) s0))
    (add_mset n (mset (nominations t) + mset (nominations l0)))"
  unfolding store_shapes(4) [OF t]
  by (rule list_opI [OF refl lw pool_frame_refl])
    (use cand_wfD [OF wf] pool m1 in simp_all)

text \<open>There is room: the nomination is added and nothing else changes.\<close>

lemma add_nomination_room:
  assumes cfg: "cfg_ok C" and ok: "cand_ok C c m s"
    and room: "size (bonds s c) < MaxTopNominationsPerCandidate C + MaxBottomNominationsPerCandidate C"
    and n: "owner n \<notin> owner ` set_mset (bonds s c)" "amount n < M128"
  shows "list_op C c m s (cm_add_nomination C c n m s) (add_mset n (bonds s c))"
proof -
  obtain t l where t: "TopNominations s c = Some t" and l: "BottomNominations s c = Some l"
    and wf: "cand_wf C m t l" and bonds: "bonds s c = mset (nominations t) + mset (nominations l)"
    and pool: "\<And>v. bt_get (CandidatePool s) c = Some v \<Longrightarrow> v = voting_power m"
    using cand_okE [OF ok] by metis
  note D = cand_wfD [OF wf] and caps = cand_wf_caps [OF cfg wf]
  have len: "length (nominations t) \<le> MaxTopNominationsPerCandidate C"
    "length (nominations l) \<le> MaxBottomNominationsPerCandidate C"
    and tt: "two_tier (nominations t) (nominations l)" using D(1) by (simp_all add: lists_wf_def)
  show ?thesis
  proof (cases "length (nominations t) = MaxTopNominationsPerCandidate C")
    case False
    then obtain m' s' where "add_top_nomination C c n m s = Done (None, m') s'"
      "list_op C c m s (Done ((), m') s') (add_mset n (bonds s c))"
      using add_top_room [OF cfg ok t _ n] len by (meson le_neq_implies_less)
    then show ?thesis using False caps(1) by (simp add: cm_add_nomination_def list_op_def)
  next
    case True
    have lroom: "length (nominations l) < MaxBottomNominationsPerCandidate C"
      using room bonds True len by simp
    note bot = add_bottom_room [OF cfg l lroom]
    show ?thesis
    proof (cases "lowest_top_nomination_amount m < amount n")
      case top: True
      obtain x m' s' where "add_top_nomination C c n m s = Done (x, m') s'"
        "list_op C c m s (Done ((), m') s') (add_mset n (bonds s c))"
        using add_top_bump [OF cfg ok t True n top tt subset_refl D(3) lroom l refl refl, of _ ] bot
          caps(2) lroom bonds by fastforce
      then show ?thesis using True caps(1) top by (simp add: cm_add_nomination_def list_op_def)
    next
      case low: False
      have "\<forall>x\<in>set (nominations t). amount n \<le> amount x"
        using low lowest_le [of t] D(4) tt by (fastforce simp: two_tier_def)
      then have lw: "lists_wf C (nominations t) (nominations (insert_sorted_greatest_to_least n l))"
        using lists_add_bottom [OF D(1) True tt subset_refl D(3) lroom] n bonds by simp
      show ?thesis
        using add_bottom_op [OF wf t pool lw refl] bot caps True low lroom bonds
          count_room [OF cfg D(1)] D(9) by (simp add: cm_add_nomination_def Let_def)
    qed
  qed
qed

text \<open>
  Both lists are full: a nomination above the lowest bottom one replaces it, and its owner is paid
  back; any other is refused.
\<close>

lemma add_nomination_kick:
  assumes cfg: "cfg_ok C" and ok: "cand_ok C c m s"
    and full: "size (bonds s c) = MaxTopNominationsPerCandidate C + MaxBottomNominationsPerCandidate C"
    and l: "BottomNominations s c = Some l" and k: "k = last (nominations l)"
    and ns: "NominatorState s (owner k) = Some ns"
    and n: "owner n \<notin> owner ` set_mset (bonds s c)" "amount n < M128" "amount k < amount n"
  shows "list_op C c m (kick_nominator C c k ns s) (cm_add_nomination C c n m s)
    (add_mset n (bonds s c - {#k#}))"
proof -
  obtain t where t: "TopNominations s c = Some t"
    and wf: "cand_wf C m t l" and bonds: "bonds s c = mset (nominations t) + mset (nominations l)"
    and pool: "\<And>v. bt_get (CandidatePool s) c = Some v \<Longrightarrow> v = voting_power m"
    using cand_okE [OF ok] l by (metis option.inject)
  note D = cand_wfD [OF wf] and caps = cand_wf_caps [OF cfg wf]
  have tfull: "length (nominations t) = MaxTopNominationsPerCandidate C"
    and lfull: "length (nominations l) = MaxBottomNominationsPerCandidate C"
    using full bonds D(1) by (simp_all add: lists_wf_def)
  have lne: "nominations l \<noteq> []" using lfull cfg by (auto simp: cfg_ok_def)
  let ?l0 = "\<lparr>nominations = butlast (nominations l), noms_total = noms_total l - amount k\<rparr>"
  let ?s0 = "kick_nominator C c k ns s"
  note bot = add_bottom_kick [OF cfg l lfull k ns refl]
  have l0: "two_tier (nominations t) (nominations ?l0)" "set (nominations ?l0) \<subseteq> set (nominations l)"
    "distinct (map owner (nominations ?l0))"
    "length (nominations ?l0) < MaxBottomNominationsPerCandidate C"
    using D(1,3) two_tier_butlast [of "nominations t"] lfull lne cfg
    by (auto simp: lists_wf_def map_butlast distinct_butlast cfg_ok_def dest: in_set_butlastD)
  have B: "mset (nominations t) + mset (nominations ?l0) = bonds s c - {#k#}"
    using bonds mset_butlast_last [OF lne] k by simp
  have low_eq: "lowest_bottom_nomination_amount m = amount k"
    using D(6) lne k by (simp add: lowest_nomination_amount_def)
  show ?thesis
  proof (cases "lowest_top_nomination_amount m < amount n")
    case True
    have "\<exists>x m' s'. add_top_nomination C c n m s = Done (x, m') s' \<and>
        list_op C c m ?s0 (Done ((), m') s') (add_mset n (mset (nominations t) + mset (nominations ?l0)))"
      by (rule add_top_bump [OF cfg ok t tfull n(1,2) True l0 l _ _ bot refl])
        (use lfull lne caps(2) in auto)
    then show ?thesis using B tfull caps(1) True by (auto simp: cm_add_nomination_def list_op_def)
  next
    case False
    have "\<forall>x\<in>set (nominations t). amount n \<le> amount x"
      using False lowest_le [of t] D(1,4) by (fastforce simp: lists_wf_def two_tier_def)
    moreover have "owner n \<notin> owner ` set (nominations t @ nominations ?l0)"
      using n(1) bonds l0(2) by auto
    ultimately have lw: "lists_wf C (nominations t) (nominations (insert_sorted_greatest_to_least n ?l0))"
      using lists_add_bottom [OF D(1) tfull l0] n(2) by simp
    have "m = m\<lparr>nomination_count := length (nominations t) + Suc (length (nominations ?l0))\<rparr>"
      using D(9) lfull cfg by (cases m) (auto simp: cfg_ok_def)
    from add_bottom_op [OF wf _ _ lw this, of ?s0 c] have
      "\<And>x. list_op C c m ?s0
        (Done (x, reset_bottom_data C (insert_sorted_greatest_to_least n ?l0) m)
          (put_bottom c (insert_sorted_greatest_to_least n ?l0) ?s0)) (add_mset n (bonds s c - {#k#}))"
      using t pool B by simp
    then show ?thesis
      using bot tfull lfull caps False low_eq n(3) by (simp add: cm_add_nomination_def Let_def)
  qed
qed

lemma add_nomination_refused:
  assumes cfg: "cfg_ok C" and ok: "cand_ok C c m s"
    and full: "size (bonds s c) = MaxTopNominationsPerCandidate C + MaxBottomNominationsPerCandidate C"
    and l: "BottomNominations s c = Some l" and low: "amount n \<le> amount (last (nominations l))"
  shows "cm_add_nomination C c n m s =
    Fail (StakingError CannotNominateLessThanLowestBottomWhenBottomIsFull) s"
proof -
  obtain t where wf: "cand_wf C m t l" and bonds: "bonds s c = mset (nominations t) + mset (nominations l)"
    using cand_okE [OF ok] l by (metis option.inject)
  note D = cand_wfD [OF wf] and caps = cand_wf_caps [OF cfg wf]
  have tfull: "length (nominations t) = MaxTopNominationsPerCandidate C"
    and lfull: "length (nominations l) = MaxBottomNominationsPerCandidate C"
    using full bonds D(1) by (simp_all add: lists_wf_def)
  then have "nominations l \<noteq> []" "nominations t \<noteq> []" using cfg by (auto simp: cfg_ok_def)
  then show ?thesis
    using two_tier_last [OF D(1)] low caps tfull lfull D(4,6)
    by (simp add: cm_add_nomination_def lowest_nomination_amount_def)
qed

end
