(* ===== verification/Staking_Inv.thy ===== *)
theory Staking_Inv
  imports Staking_Calls Candidate_Wf
begin

text \<open>
  The invariant of the staking pallet's storage: candidates with their lists, pool entries and
  stashes; nominators whose records agree with the candidates' lists; pending controller changes;
  and solvency, that what the pallet owes an account is reserved in its balance. Each part is stated
  per candidate or per account, so that an operation on one of them leaves the others alone.
\<close>

subsection \<open>What the runtime promises\<close>

text \<open>
  \<open>bk a w\<close> is the reserved balance of \<open>a\<close>. \<open>reserve\<close> adds to it, \<open>unreserve\<close> takes what is there, the
  offence handler takes at most the slash it reports, which is at most the self-bond, and nothing
  else touches it.
\<close>

definition currency_laws :: "'w Config \<Rightarrow> (acct \<Rightarrow> 'w \<Rightarrow> balance) \<Rightarrow> bool" where
  "currency_laws C bk \<longleftrightarrow>
     (\<forall>a w. bk a w < M128) \<and>
     (\<forall>a x w w'. reserve C a x w = Some w' \<longrightarrow>
        (\<forall>b. bk b w' = (if b = a then bk a w + x else bk b w))) \<and>
     (\<forall>a x w b. bk b (unreserve C a x w) = (if b = a then bk a w - x else bk b w)) \<and>
     (\<forall>a x w w' y. deposit_into_existing C a x w = Some (w', y) \<longrightarrow> (\<forall>b. bk b w' = bk b w))"

definition world_laws :: "'w Config \<Rightarrow> (acct \<Rightarrow> 'w \<Rightarrow> balance) \<Rightarrow> bool" where
  "world_laws C bk \<longleftrightarrow>
     (\<forall>a c w w'. RM_join_relayers C a c w = Inr w' \<longrightarrow> (\<forall>b. bk b w' = bk b w)) \<and>
     (\<forall>r w b. bk b (RM_refresh_round C r w) = bk b w) \<and>
     (\<forall>r cs w w'. RM_refresh_selected_relayers C r cs w = Some w' \<longrightarrow> (\<forall>b. bk b w' = bk b w)) \<and>
     (\<forall>r w b. bk b (RM_refresh_majority C r w) = bk b w) \<and>
     (\<forall>c d w w'. RM_replace_bonded_controller C c d w = Some w' \<longrightarrow> (\<forall>b. bk b w' = bk b w)) \<and>
     (\<forall>c w b. bk b (RM_leave_relayers C c w) = bk b w) \<and>
     (\<forall>c w w'. RM_kickout_relayer C c w = Some w' \<longrightarrow> (\<forall>b. bk b w' = bk b w)) \<and>
     (\<forall>r w w'. RM_handle_delayed_relayer_sets C r w = Some w' \<longrightarrow> (\<forall>b. bk b w' = bk b w)) \<and>
     (\<forall>i w b. bk b (OH_refresh_offences C i w) = bk b w) \<and>
     (\<forall>c st t f w k x w'. OH_try_handle_offence C c st t f w = ((k, x), w') \<longrightarrow>
        x \<le> of_self_bond f \<and> (\<not> k \<longrightarrow> x = 0) \<and>
        (\<forall>b. (if b = st then bk b w - x else bk b w) \<le> bk b w'))"

text \<open>Besides the limits of the lists, the smallest stakes of a nominator are positive.\<close>

definition min_ok :: "'w Config \<Rightarrow> bool" where
  "min_ok C \<longleftrightarrow> cfg_ok C \<and> 0 < MinNomination C \<and> 0 < MinNominatorStk C"

definition env_ok :: "'w Config \<Rightarrow> (acct \<Rightarrow> 'w \<Rightarrow> balance) \<Rightarrow> bool" where
  "env_ok C bk \<longleftrightarrow> currency_laws C bk \<and> world_laws C bk \<and> min_ok C"

subsection \<open>The parts of the invariant\<close>

abbreviation cand :: "'w staking \<Rightarrow> acct \<Rightarrow> CandidateMetadata option" where
  "cand s c \<equiv> bt_get (CandidateInfo s) c"

definition nom_amt :: "'w staking \<Rightarrow> acct \<Rightarrow> acct \<Rightarrow> balance option" where
  "nom_amt s a c =
     (case NominatorState s a of None \<Rightarrow> None | Some n \<Rightarrow> bt_get (nr_nominations n) c)"

definition maps_inv :: "'w staking \<Rightarrow> bool" where
  "maps_inv s \<longleftrightarrow> bt_wf (CandidateInfo s) \<and> bt_wf (CandidatePool s) \<and>
     length (CandidatePool s) \<le> MAX_AUTHORITIES"

definition cand_inv :: "'w Config \<Rightarrow> 'w staking \<Rightarrow> acct \<Rightarrow> bool" where
  "cand_inv C s c \<longleftrightarrow>
     (case cand s c of
        None \<Rightarrow> TopNominations s c = None \<and> BottomNominations s c = None \<and>
                bt_get (CandidatePool s) c = None
      | Some m \<Rightarrow> cand_ok C c m s \<and>
                  (bt_get (CandidatePool s) c = None \<longleftrightarrow> status m \<noteq> VActive) \<and>
                  (\<forall>q. request m = Some q \<longrightarrow> cr_amount q \<le> bond m))"

text \<open>Stashes and controllers are paired one-to-one.\<close>

definition stash_inv :: "'w staking \<Rightarrow> bool" where
  "stash_inv s \<longleftrightarrow>
     (\<forall>st c. BondedStash s st = Some c \<longleftrightarrow> (\<exists>m. cand s c = Some m \<and> stash m = st))"

text \<open>The record of a nominator and the list of a candidate hold the same amount.\<close>

definition link_inv :: "'w staking \<Rightarrow> acct \<Rightarrow> bool" where
  "link_inv s c \<longleftrightarrow>
     (\<forall>a x. nom_amt s a c = Some x \<longleftrightarrow> \<lparr>owner = a, amount = x\<rparr> \<in># bonds s c)"

definition request_ok :: "(acct, balance) btmap \<Rightarrow> acct \<Rightarrow> NominationRequest \<Rightarrow> bool" where
  "request_ok ns c q \<longleftrightarrow>
     (case bt_get ns c of
        None \<Rightarrow> False
      | Some x \<Rightarrow> nq_amount q \<le> x \<and> (nq_action q = Decrease \<longrightarrow> nq_amount q < x))"

definition all_pos :: "(acct, balance) btmap \<Rightarrow> bool" where
  "all_pos ns \<longleftrightarrow> (\<forall>x\<in>snd ` set ns. 0 < x)"

definition nominator_ok :: "acct \<Rightarrow> Nominator \<Rightarrow> bool" where
  "nominator_ok a n \<longleftrightarrow>
     nr_id n = a \<and> nr_nominations n \<noteq> [] \<and> bt_wf (nr_nominations n) \<and>
     all_pos (nr_nominations n) \<and>
     nr_total n = sum_list (map snd (nr_nominations n)) \<and>
     (\<forall>c q. bt_get (requests (nr_requests n)) c = Some q \<longrightarrow> request_ok (nr_nominations n) c q)"

definition csets_inv :: "round_index \<Rightarrow> 'w staking \<Rightarrow> bool" where
  "csets_inv r s \<longleftrightarrow>
     (let ds = DelayedControllerSets s r in
      distinct (map dc_new ds) \<and> distinct (map dc_old ds) \<and>
      (\<forall>d\<in>set ds. cand s (dc_new d) = None \<and>
         (\<exists>m. cand s (dc_old d) = Some m \<and> stash m = dc_stash d \<and> \<not> cm_is_leaving m))) \<and>
     (\<forall>q. q \<noteq> r \<longrightarrow> DelayedControllerSets s q = [])"

text \<open>What the pallet owes an account: its nominations, and the self-bond it is the stash of.\<close>

definition nominated :: "'w staking \<Rightarrow> acct \<Rightarrow> balance" where
  "nominated s a =
     (case NominatorState s a of None \<Rightarrow> 0 | Some n \<Rightarrow> sum_list (map snd (nr_nominations n)))"

definition self_bonded :: "'w staking \<Rightarrow> acct \<Rightarrow> balance" where
  "self_bonded s a =
     (case BondedStash s a of
        None \<Rightarrow> 0
      | Some c \<Rightarrow> (case cand s c of None \<Rightarrow> 0 | Some m \<Rightarrow> bond m))"

definition owed :: "'w staking \<Rightarrow> acct \<Rightarrow> balance" where
  "owed s a = nominated s a + self_bonded s a"

definition solvent :: "(acct \<Rightarrow> 'w \<Rightarrow> balance) \<Rightarrow> 'w staking \<Rightarrow> bool" where
  "solvent bk s \<longleftrightarrow> (\<forall>a. owed s a \<le> bk a (world s))"

definition staking_inv ::
  "'w Config \<Rightarrow> (acct \<Rightarrow> 'w \<Rightarrow> balance) \<Rightarrow> round_index \<Rightarrow> 'w staking \<Rightarrow> bool" where
  "staking_inv C bk r s \<longleftrightarrow>
     maps_inv s \<and> (\<forall>c. cand_inv C s c) \<and> stash_inv s \<and> (\<forall>c. link_inv s c) \<and>
     (\<forall>a n. NominatorState s a = Some n \<longrightarrow> nominator_ok a n) \<and> csets_inv r s \<and> solvent bk s"

lemmas staking_inv_defs = staking_inv_def maps_inv_def stash_inv_def csets_inv_def solvent_def

lemma staking_invD:
  assumes "staking_inv C bk r s"
  shows "bt_wf (CandidateInfo s)" "bt_wf (CandidatePool s)"
    "length (CandidatePool s) \<le> MAX_AUTHORITIES" "cand_inv C s c" "link_inv s c"
    "NominatorState s a = Some n \<Longrightarrow> nominator_ok a n" "owed s a \<le> bk a (world s)" "csets_inv r s"
    "stash_inv s"
  using assms by (auto simp: staking_inv_def maps_inv_def solvent_def)

lemma inv_cand:
  assumes "staking_inv C bk r s" "cand s c = Some m"
  shows "cand_ok C c m s" "bt_get (CandidatePool s) c = None \<longleftrightarrow> status m \<noteq> VActive"
    "BondedStash s (stash m) = Some c" "request m = Some q \<Longrightarrow> cr_amount q \<le> bond m"
  using staking_invD(4) [OF assms(1), of c] staking_invD(9) [OF assms(1)] assms(2)
  by (simp_all add: cand_inv_def stash_inv_def)

lemma inv_stash:
  assumes "staking_inv C bk r s" "BondedStash s st = Some c"
  shows "\<exists>m. cand s c = Some m \<and> stash m = st"
  using assms by (simp add: staking_inv_def stash_inv_def)

lemma inv_not_cand:
  assumes "staking_inv C bk r s" "cand s c = None"
  shows "bonds s c = {#}" "nom_amt s a c = None" "TopNominations s c = None"
    "BottomNominations s c = None" "bt_get (CandidatePool s) c = None"
proof -
  have "cand_inv C s c" "link_inv s c" using assms(1) by (simp_all add: staking_inv_def)
  with assms(2) show "bonds s c = {#}" "TopNominations s c = None"
    "BottomNominations s c = None" "bt_get (CandidatePool s) c = None"
    by (simp_all add: cand_inv_def bonds_def)
  with \<open>link_inv s c\<close> show "nom_amt s a c = None" by (cases "nom_amt s a c") (auto simp: link_inv_def)
qed

lemma inv_stash_unique:
  assumes "staking_inv C bk r s" "cand s c = Some m" "cand s d = Some m'" "stash m = stash m'"
  shows "c = d"
  using inv_cand(3) [OF assms(1,2)] inv_cand(3) [OF assms(1,3)] assms(4) by simp

subsection \<open>Locality\<close>

lemma bonds_cong:
  "TopNominations s' c = TopNominations s c \<Longrightarrow> BottomNominations s' c = BottomNominations s c \<Longrightarrow>
   bonds s' c = bonds s c"
  by (simp add: bonds_def)

lemma self_bonded_cong:
  "BondedStash s' = BondedStash s \<Longrightarrow> CandidateInfo s' = CandidateInfo s \<Longrightarrow>
   self_bonded s' a = self_bonded s a"
  by (simp add: self_bonded_def split: option.split)

lemma cand_ok_cong:
  "TopNominations s' c = TopNominations s c \<Longrightarrow> BottomNominations s' c = BottomNominations s c \<Longrightarrow>
   bt_get (CandidatePool s') c = bt_get (CandidatePool s) c \<Longrightarrow> cand_ok C c m s' = cand_ok C c m s"
  by (simp add: cand_ok_def)

lemma cand_inv_cong:
  assumes "cand s' c = cand s c" "TopNominations s' c = TopNominations s c"
    "BottomNominations s' c = BottomNominations s c"
    "bt_get (CandidatePool s') c = bt_get (CandidatePool s) c"
  shows "cand_inv C s' c = cand_inv C s c"
  using assms cand_ok_cong [OF assms(2-4)] by (simp add: cand_inv_def split: option.split)

lemma link_inv_cong:
  assumes "\<And>a. nom_amt s' a c = nom_amt s a c" "bonds s' c = bonds s c"
  shows "link_inv s' c = link_inv s c"
  using assms by (simp add: link_inv_def)

text \<open>
  The fields the invariant reads. Two states that agree on them satisfy it alike.
\<close>

definition same_core :: "'w staking \<Rightarrow> 'w staking \<Rightarrow> bool" where
  "same_core s s' \<longleftrightarrow>
     CandidateInfo s' = CandidateInfo s \<and> CandidatePool s' = CandidatePool s \<and>
     TopNominations s' = TopNominations s \<and> BottomNominations s' = BottomNominations s \<and>
     BondedStash s' = BondedStash s \<and> NominatorState s' = NominatorState s"

lemma staking_inv_sets:
  assumes "staking_inv C bk r s" "same_core s s'" "\<And>b. bk b (world s) \<le> bk b (world s')"
    "csets_inv q s'"
  shows "staking_inv C bk q s'"
proof -
  have n: "nom_amt s' a c = nom_amt s a c" "bonds s' c = bonds s c" "owed s' a = owed s a" for a c
    using assms(2) by (simp_all add: same_core_def nom_amt_def bonds_def owed_def nominated_def
        self_bonded_def split: option.split)
  have "cand_inv C s' c = cand_inv C s c" for c
    using assms(2) by (intro cand_inv_cong) (simp_all add: same_core_def)
  moreover have "link_inv s' c = link_inv s c" for c using n by (intro link_inv_cong) simp_all
  moreover have "owed s a \<le> bk a (world s')" for a
    using staking_invD(7) [OF assms(1)] assms(3) order_trans by blast
  ultimately show ?thesis
    using assms(1,2,4) n by (simp add: staking_inv_def maps_inv_def stash_inv_def solvent_def same_core_def)
qed

lemma staking_inv_core:
  assumes "staking_inv C bk r s" "same_core s s'" "DelayedControllerSets s' = DelayedControllerSets s"
    "\<And>b. bk b (world s) \<le> bk b (world s')"
  shows "staking_inv C bk r s'"
  by (rule staking_inv_sets [OF assms(1,2,4)])
    (use staking_invD(8) [OF assms(1)] assms(2,3) in \<open>simp add: csets_inv_def same_core_def\<close>)

text \<open>An operation on one candidate, and on the nominations of that candidate.\<close>

lemma staking_inv_update:
  assumes inv: "staking_inv C bk r s" and maps: "maps_inv s'"
    and other: "\<And>d. d \<noteq> c \<Longrightarrow> cand s' d = cand s d"
      "\<And>d. d \<noteq> c \<Longrightarrow> TopNominations s' d = TopNominations s d"
      "\<And>d. d \<noteq> c \<Longrightarrow> BottomNominations s' d = BottomNominations s d"
      "\<And>d. d \<noteq> c \<Longrightarrow> bt_get (CandidatePool s') d = bt_get (CandidatePool s) d"
      "\<And>a d. d \<noteq> c \<Longrightarrow> nom_amt s' a d = nom_amt s a d"
    and at: "cand s c = Some m" "cand s' c = Some m'" "stash m' = stash m" "cand_ok C c m' s'"
      "bt_get (CandidatePool s') c = None \<longleftrightarrow> status m' \<noteq> VActive"
      "\<And>q. request m' = Some q \<Longrightarrow> cr_amount q \<le> bond m'"
      "cm_is_leaving m' \<Longrightarrow> cm_is_leaving m \<or> (\<forall>d\<in>set (DelayedControllerSets s r). dc_old d \<noteq> c)"
    and link: "link_inv s' c"
    and nok: "\<And>a n. NominatorState s' a = Some n \<Longrightarrow> nominator_ok a n"
    and same: "BondedStash s' = BondedStash s" "DelayedControllerSets s' = DelayedControllerSets s"
    and solv: "\<And>a. owed s' a \<le> bk a (world s')"
  shows "staking_inv C bk r s'"
proof -
  have "cand_inv C s' d" for d
  proof (cases "d = c")
    case True
    then show ?thesis using at by (simp add: cand_inv_def)
  next
    case False
    then show ?thesis using cand_inv_cong [of s' d s C] other staking_invD(4) [OF inv] by simp
  qed
  moreover have "link_inv s' d" for d
  proof (cases "d = c")
    case False
    then show ?thesis
      using link_inv_cong [of s' d s] bonds_cong [of s' d s] other staking_invD(5) [OF inv] by simp
  qed (use link in simp)
  moreover have "stash_inv s'"
    unfolding stash_inv_def
  proof (intro allI)
    fix st d
    show "BondedStash s' st = Some d \<longleftrightarrow> (\<exists>m. cand s' d = Some m \<and> stash m = st)"
      using staking_invD(9) [OF inv] other(1) at(1-3) same(1)
      by (cases "d = c") (simp_all add: stash_inv_def)
  qed
  moreover have "csets_inv r s'"
  proof -
    have "cand s' (dc_new d) = None \<and>
        (\<exists>m. cand s' (dc_old d) = Some m \<and> stash m = dc_stash d \<and> \<not> cm_is_leaving m)"
      if "d \<in> set (DelayedControllerSets s r)" for d
    proof -
      have d: "cand s (dc_new d) = None"
        "\<exists>m. cand s (dc_old d) = Some m \<and> stash m = dc_stash d \<and> \<not> cm_is_leaving m"
        using staking_invD(8) [OF inv] that by (auto simp: csets_inv_def Let_def)
      then have "dc_new d \<noteq> c" using at(1) by auto
      with d at other(1) that show ?thesis by (cases "dc_old d = c") auto
    qed
    then show ?thesis
      using staking_invD(8) [OF inv] same(2) by (simp add: csets_inv_def Let_def)
  qed
  ultimately show ?thesis
    using maps nok solv by (simp add: staking_inv_def solvent_def)
qed

text \<open>Only the metadata and the pool entry of \<open>c\<close> change.\<close>

definition same_lists :: "CandidateMetadata \<Rightarrow> CandidateMetadata \<Rightarrow> bool" where
  "same_lists m m' \<longleftrightarrow>
     stash m' = stash m \<and> nomination_count m' = nomination_count m \<and>
     lowest_top_nomination_amount m' = lowest_top_nomination_amount m \<and>
     highest_bottom_nomination_amount m' = highest_bottom_nomination_amount m \<and>
     lowest_bottom_nomination_amount m' = lowest_bottom_nomination_amount m \<and>
     top_capacity m' = top_capacity m \<and> bottom_capacity m' = bottom_capacity m"

lemma owed_candidate:
  assumes inv: "staking_inv C bk r s" and c: "cand s c = Some m"
    and s': "CandidateInfo s' = bt_insert c m' (CandidateInfo s)"
      "BondedStash s' = BondedStash s" "NominatorState s' = NominatorState s"
  shows "owed s' a = (if a = stash m then nominated s a + bond m' else owed s a)"
    "owed s (stash m) = nominated s (stash m) + bond m"
proof -
  have n: "nominated s' x = nominated s x" for x by (simp add: nominated_def s')
  have st: "BondedStash s (stash m) = Some c" by (rule inv_cand(3) [OF inv c])
  then show "owed s (stash m) = nominated s (stash m) + bond m"
    by (simp add: owed_def self_bonded_def c)
  show "owed s' a = (if a = stash m then nominated s a + bond m' else owed s a)"
  proof (cases "a = stash m")
    case True
    then show ?thesis using st by (simp add: owed_def n self_bonded_def s')
  next
    case False
    then have "BondedStash s a \<noteq> Some c" using inv_stash [OF inv, of a c] c by auto
    then have "self_bonded s' a = self_bonded s a"
      by (auto simp: self_bonded_def s' split: option.splits)
    then show ?thesis using False n by (simp add: owed_def)
  qed
qed

lemma staking_inv_meta:
  assumes inv: "staking_inv C bk r s" and c: "cand s c = Some m"
    and s': "CandidateInfo s' = bt_insert c m' (CandidateInfo s)"
      "TopNominations s' = TopNominations s" "BottomNominations s' = BottomNominations s"
      "BondedStash s' = BondedStash s" "NominatorState s' = NominatorState s"
      "DelayedControllerSets s' = DelayedControllerSets s"
    and m': "same_lists m m'"
    and pool: "pool_frame c (CandidatePool s) (CandidatePool s')
      \<or> CandidatePool s' = bt_remove c (CandidatePool s)
      \<or> CandidatePool s' = bt_insert c (voting_power m') (CandidatePool s)"
      "length (CandidatePool s') \<le> MAX_AUTHORITIES"
      "\<And>v. bt_get (CandidatePool s') c = Some v \<Longrightarrow> v = voting_power m'"
      "bt_get (CandidatePool s') c = None \<longleftrightarrow> status m' \<noteq> VActive"
    and req: "\<And>q. request m' = Some q \<Longrightarrow> cr_amount q \<le> bond m'"
    and leave: "cm_is_leaving m' \<Longrightarrow> cm_is_leaving m \<or>
      (\<forall>d\<in>set (DelayedControllerSets s r). dc_old d \<noteq> c)"
    and bks: "\<And>b. b \<noteq> stash m \<Longrightarrow> bk b (world s) \<le> bk b (world s')"
      "bk (stash m) (world s) + bond m' \<le> bk (stash m) (world s') + bond m"
  shows "staking_inv C bk r s'"
proof (rule staking_inv_update [where c = c and m = m and m' = m', OF inv])
  obtain t l where tl: "TopNominations s c = Some t" "BottomNominations s c = Some l" "cand_wf C m t l"
    using inv_cand(1) [OF inv c] by (auto simp: cand_ok_def)
  have "cand_wf C m' t l" using tl(3) m' by (simp add: cand_wf_def same_lists_def)
  then show "cand_ok C c m' s'" using tl s' pool(3) by (simp add: cand_ok_def)
  have fr: "\<forall>x. x \<noteq> c \<longrightarrow> bt_get (CandidatePool s') x = bt_get (CandidatePool s) x"
    "bt_wf (CandidatePool s')"
    using pool(1) staking_invD(2) [OF inv] by (auto simp: pool_frame_def)
  show "maps_inv s'" using fr(2) pool(2) staking_invD(1) [OF inv] by (simp add: maps_inv_def s')
  show "bt_get (CandidatePool s') d = bt_get (CandidatePool s) d" if "d \<noteq> c" for d using fr(1) that by simp
  show "nom_amt s' a d = nom_amt s a d" if "d \<noteq> c" for a d using s' by (simp add: nom_amt_def)
  have "nom_amt s' a c = nom_amt s a c" "bonds s' c = bonds s c" for a
    using s' by (simp_all add: nom_amt_def bonds_def)
  then show "link_inv s' c" using staking_invD(5) [OF inv, of c] by (simp add: link_inv_def)
  show "nominator_ok a n" if "NominatorState s' a = Some n" for a n
    using staking_invD(6) [OF inv] that s' by simp
  show "owed s' a \<le> bk a (world s')" for a
    using owed_candidate(1) [OF inv c s'(1,4,5), of a] owed_candidate(2) [OF inv c s'(1,4,5)]
      staking_invD(7) [OF inv, of a] bks(1) [of a] bks(2)
    by (cases "a = stash m") (auto intro: order_trans)
qed (use c s' m' pool(4) req leave in \<open>auto simp: same_lists_def\<close>)

subsection \<open>Amounts by key\<close>

abbreviation total_of :: "(acct, balance) btmap \<Rightarrow> balance" where
  "total_of ns \<equiv> sum_list (map snd ns)"

lemma total_of_insert: "bt_wf ns \<Longrightarrow> total_of (bt_insert k v ns) = total_of (bt_remove k ns) + v"
proof (induction ns)
  case (Cons e ns)
  obtain j w where e: "e = (j, w)" by (cases e)
  have "bt_remove k ns = ns" if "k \<le> j"
    using Cons.prems that by (force simp: e bt_remove_def intro!: filter_True)
  then show ?case using Cons by (auto simp: e bt_remove_def)
qed (simp add: bt_remove_def)

lemma total_of_remove:
  "bt_wf ns \<Longrightarrow> bt_get ns k = Some x \<Longrightarrow> total_of ns = total_of (bt_remove k ns) + x"
proof (induction ns)
  case (Cons e ns)
  obtain j w where e: "e = (j, w)" by (cases e)
  show ?case
  proof (cases "k = j")
    case True
    then have "bt_remove k ns = ns"
      using Cons.prems by (force simp: e bt_remove_def intro!: filter_True)
    then show ?thesis using Cons.prems True by (simp add: e bt_remove_def)
  qed (use Cons in \<open>simp add: e bt_remove_def\<close>)
qed simp

lemma bt_remove_fresh: "bt_get ns k = None \<Longrightarrow> bt_remove k ns = ns"
  by (force simp: bt_remove_def map_of_eq_None_iff intro!: filter_True)

lemma total_of_get: "bt_get ns k = Some x \<Longrightarrow> x \<le> total_of ns"
  using member_le_sum_list [of x "map snd ns"] by (force dest: map_of_SomeD)

lemma all_pos_insert: "all_pos ns \<Longrightarrow> 0 < v \<Longrightarrow> all_pos (bt_insert k v ns)"
  by (induction k v ns rule: bt_insert.induct) (auto simp: all_pos_def)

lemma all_pos_remove: "all_pos ns \<Longrightarrow> all_pos (bt_remove k ns)"
  by (auto simp: all_pos_def bt_remove_def)

lemma all_pos_get: "all_pos ns \<Longrightarrow> bt_get ns k = Some x \<Longrightarrow> 0 < x"
  by (force simp: all_pos_def dest: map_of_SomeD)

lemma bt_insert_not_Nil [simp]: "bt_insert k v ns \<noteq> []"
  by (induction k v ns rule: bt_insert.induct) auto

lemma bt_remove_Nil: "bt_wf ns \<Longrightarrow> bt_get ns k = Some x \<Longrightarrow> bt_remove k ns = [] \<longleftrightarrow> length ns = 1"
proof -
  assume wf: "bt_wf ns" and k: "bt_get ns k = Some x"
  have "length (bt_insert k x (bt_remove k ns)) = Suc (length (bt_remove k ns))"
    using wf by (simp add: bt_length_insert)
  moreover have "length (bt_insert k x (bt_remove k ns)) = length ns"
  proof -
    have "fst ` set (bt_insert k x (bt_remove k ns)) = fst ` set ns"
      using k by (force simp: bt_keys_insert bt_remove_def dest: map_of_SomeD)
    moreover have "bt_wf (bt_insert k x (bt_remove k ns))" using wf by simp
    ultimately show ?thesis using wf by (metis bt_wf_distinct distinct_card length_map set_map)
  qed
  ultimately show ?thesis by (cases "bt_remove k ns") auto
qed

lemma positive_total:
  "all_pos ns \<Longrightarrow> total_of ns = 0 \<longleftrightarrow> ns = []"
  by (cases ns) (auto simp: all_pos_def)

subsection \<open>The record of a nominator\<close>

text \<open>A request survives a change of the nominations when its own nomination did not shrink.\<close>

lemma request_ok_mono:
  "request_ok ns c q \<Longrightarrow> bt_get ns c = Some x \<Longrightarrow> bt_get ns' c = Some y \<Longrightarrow> x \<le> y \<Longrightarrow> request_ok ns' c q"
  by (auto simp: request_ok_def)

lemma nominator_new_ok: "0 < x \<Longrightarrow> nominator_ok a (Nominator_new a c x)"
  by (simp add: all_pos_def nominator_ok_def Nominator_new_def PendingNominationRequests_new_def)

lemma nominator_add_ok:
  assumes "nominator_ok a n" "nr_add_nomination c x n = Inr n'" "0 < x" "nr_total n + x < M128"
  shows "nominator_ok a n'" "nr_nominations n' = bt_insert c x (nr_nominations n)"
    "total_of (nr_nominations n') = total_of (nr_nominations n) + x"
    "bt_get (nr_nominations n) c = None"
proof -
  show none: "bt_get (nr_nominations n) c = None"
    and eq: "nr_nominations n' = bt_insert c x (nr_nominations n)"
    using assms(2) by (auto simp: nr_add_nomination_def bt_contains_def split: if_splits)
  show tot: "total_of (nr_nominations n') = total_of (nr_nominations n) + x"
    using assms(1) none by (simp add: eq total_of_insert bt_remove_fresh nominator_ok_def)
  have rest: "nr_id n' = nr_id n" "nr_requests n' = nr_requests n" "nr_total n' = nr_total n + x"
    using assms(2,4) by (auto simp: nr_add_nomination_def add128_id split: if_splits)
  have "request_ok (nr_nominations n') d q" if "request_ok (nr_nominations n) d q" for d q
    using that none by (auto simp: request_ok_def eq)
  then show "nominator_ok a n'"
    using assms(1,3) tot rest by (simp add: nominator_ok_def eq all_pos_insert)
qed

lemma nominator_set_ok:
  assumes ok: "nominator_ok a n" and x: "bt_get (nr_nominations n) c = Some x" and y: "0 < y"
    and n': "nr_id n' = nr_id n" "nr_nominations n' = bt_insert c y (nr_nominations n)"
      "nr_total n' = nr_total n - x + y"
      "\<And>d q. bt_get (requests (nr_requests n')) d = Some q \<Longrightarrow>
        bt_get (requests (nr_requests n)) d = Some q \<and> (d = c \<longrightarrow> x \<le> y)"
  shows "nominator_ok a n'" "total_of (nr_nominations n') = total_of (nr_nominations n) - x + y"
proof -
  have wf: "bt_wf (nr_nominations n)" using ok by (simp add: nominator_ok_def)
  show tot: "total_of (nr_nominations n') = total_of (nr_nominations n) - x + y"
    using total_of_insert [OF wf, of c y] total_of_remove [OF wf x] by (simp add: n')
  have "request_ok (nr_nominations n') d q" if "bt_get (requests (nr_requests n')) d = Some q" for d q
  proof -
    have "request_ok (nr_nominations n) d q" using n'(4) [OF that] ok by (simp add: nominator_ok_def)
    then show ?thesis using n'(4) [OF that] x by (auto simp: request_ok_def n'(2))
  qed
  then show "nominator_ok a n'"
    using ok y tot n'(1-3) by (simp add: nominator_ok_def all_pos_insert)
qed

lemma nominator_rm_ok:
  assumes ok: "nominator_ok a n" and x: "bt_get (nr_nominations n) c = Some x"
    and len: "length (nr_nominations n) \<noteq> 1"
    and n': "nr_id n' = nr_id n" "nr_nominations n' = bt_remove c (nr_nominations n)"
      "nr_total n' = nr_total n - x"
      "\<And>d q. bt_get (requests (nr_requests n')) d = Some q \<Longrightarrow>
        bt_get (requests (nr_requests n)) d = Some q \<and> d \<noteq> c"
  shows "nominator_ok a n'" "total_of (nr_nominations n') = total_of (nr_nominations n) - x"
proof -
  have wf: "bt_wf (nr_nominations n)" using ok by (simp add: nominator_ok_def)
  show tot: "total_of (nr_nominations n') = total_of (nr_nominations n) - x"
    using total_of_remove [OF wf x] by (simp add: n')
  have "request_ok (nr_nominations n') d q" if "bt_get (requests (nr_requests n')) d = Some q" for d q
  proof -
    have "request_ok (nr_nominations n) d q" using n'(4) [OF that] ok by (simp add: nominator_ok_def)
    then show ?thesis using n'(4) [OF that] by (auto simp: request_ok_def n'(2))
  qed
  then show "nominator_ok a n'"
    using ok tot n'(1-3) bt_remove_Nil [OF wf x] len by (simp add: nominator_ok_def all_pos_remove)
qed

subsection \<open>Operations on the lists of a candidate\<close>

lemma bonds_mset:
  assumes "cand_ok C c m s"
  obtains bs where "bonds s c = mset bs" "distinct (map owner bs)"
proof -
  obtain t l where "TopNominations s c = Some t" "BottomNominations s c = Some l" "cand_wf C m t l"
    using assms by (auto simp: cand_ok_def)
  then show thesis using that [of "nominations t @ nominations l"]
    by (simp add: bonds_def cand_wf_def lists_wf_def)
qed

lemma bonds_minus:
  assumes "cand_ok C c m s" "b \<in># bonds s c"
  shows "x \<in># bonds s c - {#b#} \<longleftrightarrow> x \<in># bonds s c \<and> owner x \<noteq> owner b"
proof -
  obtain bs where bs: "bonds s c = mset bs" "distinct (map owner bs)" by (rule bonds_mset [OF assms(1)])
  then have "bonds s c - {#b#} = mset (drop_owner (owner b) bs)"
    using mset_drop_owner [of bs b] assms(2) by simp
  then show ?thesis using bs by (simp add: set_drop_owner)
qed

lemma bonds_unique:
  assumes "cand_ok C c m s" "b \<in># bonds s c" "b' \<in># bonds s c" "owner b = owner b'"
  shows "b = b'"
proof -
  obtain bs where bs: "bonds s c = mset bs" "distinct (map owner bs)" by (rule bonds_mset [OF assms(1)])
  then show ?thesis using assms(2-4) by (auto simp: distinct_map dest: inj_onD)
qed

lemma pool_frame_length:
  assumes "pool_frame c p p'" "bt_wf p"
  shows "length p' = length p"
proof -
  have "bt_get p' x = None \<longleftrightarrow> bt_get p x = None" for x
    using assms(1) by (cases "x = c") (simp_all add: pool_frame_def)
  then have "fst ` set p' = fst ` set p" by (auto simp: map_of_eq_None_iff)
  then show ?thesis using assms by (simp add: pool_frame_def length_keys)
qed

lemma bt_insert_same: "bt_wf p \<Longrightarrow> bt_get p k = Some v \<Longrightarrow> bt_insert k v p = p"
proof (induction p)
  case (Cons e p)
  obtain j w where e: "e = (j, w)" by (cases e)
  have "bt_get p k = None" if "k < j" using Cons.prems that by (auto simp: e map_of_eq_None_iff)
  with Cons show ?case by (cases "k = j") (auto simp: e)
qed simp

lemma update_active_same:
  "cand_ok C c m s \<Longrightarrow> bt_wf (CandidatePool s) \<Longrightarrow> update_active c (voting_power m) s = s"
  by (auto simp: update_active_def bt_contains_def cand_ok_def bt_insert_same)

lemma meta_frame_fields:
  assumes "meta_frame m m'"
  shows "stash m' = stash m" "bond m' = bond m" "status m' = status m" "request m' = request m"
  by (subst assms [unfolded meta_frame_def], simp)+

lemma list_frame_fields:
  assumes "list_frame c s s'"
  shows "d \<noteq> c \<Longrightarrow> TopNominations s' d = TopNominations s d"
    "d \<noteq> c \<Longrightarrow> BottomNominations s' d = BottomNominations s d"
    "pool_frame c (CandidatePool s) (CandidatePool s')"
    "CandidateInfo s' = CandidateInfo s" "NominatorState s' = NominatorState s"
    "BondedStash s' = BondedStash s" "DelayedControllerSets s' = DelayedControllerSets s"
    "world s' = world s" "Round s' = Round s" "Total s' = Total s" "Events s' = Events s"
proof -
  let ?u = "s\<lparr>TopNominations := (TopNominations s)(c := TopNominations s' c),
    BottomNominations := (BottomNominations s)(c := BottomNominations s' c),
    CandidatePool := CandidatePool s'\<rparr>"
  have eq: "f s' = f ?u" for f :: "'a staking \<Rightarrow> 'b"
    using assms unfolding list_frame_def by (metis (no_types))
  show "CandidateInfo s' = CandidateInfo s" "NominatorState s' = NominatorState s"
    "BondedStash s' = BondedStash s" "DelayedControllerSets s' = DelayedControllerSets s"
    "world s' = world s" "Round s' = Round s" "Total s' = Total s" "Events s' = Events s"
    by (subst eq, simp)+
  show "pool_frame c (CandidatePool s) (CandidatePool s')" using assms by (simp add: list_frame_def)
  show "TopNominations s' d = TopNominations s d" if "d \<noteq> c"
    using that by (subst eq [of "\<lambda>s. TopNominations s d"]) simp
  show "BottomNominations s' d = BottomNominations s d" if "d \<noteq> c"
    using that by (subst eq [of "\<lambda>s. BottomNominations s d"]) simp
qed

lemma staking_inv_list:
  assumes inv: "staking_inv C bk r s" and c: "cand s c = Some m"
    and op: "cand_ok C c m' s1" "list_frame c s0 s1" "meta_frame m m'"
    and s0: "TopNominations s0 = TopNominations s" "BottomNominations s0 = BottomNominations s"
      "CandidatePool s0 = CandidatePool s"
    and s': "CandidateInfo s' = bt_insert c m' (CandidateInfo s)" "TopNominations s' = TopNominations s1"
      "BottomNominations s' = BottomNominations s1" "CandidatePool s' = CandidatePool s1"
      "BondedStash s' = BondedStash s" "DelayedControllerSets s' = DelayedControllerSets s"
    and noms: "\<And>a d. d \<noteq> c \<Longrightarrow> nom_amt s' a d = nom_amt s a d"
    and link: "\<And>a x. nom_amt s' a c = Some x \<longleftrightarrow> \<lparr>owner = a, amount = x\<rparr> \<in># bonds s1 c"
    and nok: "\<And>a n. NominatorState s' a = Some n \<Longrightarrow> nominator_ok a n"
    and solv: "\<And>a. nominated s' a + self_bonded s a \<le> bk a (world s')"
  shows "staking_inv C bk r s'"
proof (rule staking_inv_update [where c = c and m = m and m' = m', OF inv])
  note lf = list_frame_fields [OF op(2)] and mf = meta_frame_fields [OF op(3)]
  have pf: "pool_frame c (CandidatePool s) (CandidatePool s')" using lf(3) s0 s' by simp
  then show "maps_inv s'"
    using pool_frame_length [OF pf] staking_invD(1-3) [OF inv] by (simp add: maps_inv_def s' pool_frame_def)
  show "bt_get (CandidatePool s') d = bt_get (CandidatePool s) d" if "d \<noteq> c" for d
    using pf that by (simp add: pool_frame_def)
  show "bt_get (CandidatePool s') c = None \<longleftrightarrow> status m' \<noteq> VActive"
    using inv_cand(2) [OF inv c] pf mf(3) by (simp add: pool_frame_def)
  show "cand_ok C c m' s'" using op(1) cand_ok_cong [of s' c s1 C m'] s' by simp
  have "bonds s' c = bonds s1 c" using s' by (intro bonds_cong) simp_all
  with link show "link_inv s' c" by (simp add: link_inv_def)
  have "self_bonded s' a = self_bonded s a" for a
    using inv_stash [OF inv, of a] c mf by (auto simp: self_bonded_def s' split: option.splits)
  with solv show "owed s' a \<le> bk a (world s')" for a by (simp add: owed_def)
  show "TopNominations s' d = TopNominations s d" "BottomNominations s' d = BottomNominations s d"
    if "d \<noteq> c" for d using lf(1,2) [OF that] s0 s' by simp_all
qed (use c s' nok noms meta_frame_fields [OF op(3)] inv_cand(4) [OF inv c] in \<open>auto simp: cm_is_leaving_def\<close>)

text \<open>The three ways in which the list of a candidate and the record of an owner change together.\<close>

lemma link_bond: "link_inv s c \<Longrightarrow> b \<in># bonds s c \<longleftrightarrow> nom_amt s (owner b) c = Some (amount b)"
  by (cases b) (simp add: link_inv_def)

lemma link_add:
  assumes "link_inv s c" "nom_amt s a c = None"
    "\<And>b. nom_amt s' b c = (if b = a then Some x else nom_amt s b c)"
    "B = add_mset \<lparr>owner = a, amount = x\<rparr> (bonds s c)"
  shows "nom_amt s' b c = Some y \<longleftrightarrow> \<lparr>owner = b, amount = y\<rparr> \<in># B"
proof -
  have "\<lparr>owner = a, amount = z\<rparr> \<notin># bonds s c" for z
    using assms(1,2) by (metis link_inv_def option.distinct(1))
  then show ?thesis using assms by (auto simp: link_inv_def)
qed

lemma link_set:
  assumes "link_inv s c" "cand_ok C c m s" "nom_amt s a c = Some x"
    "\<And>b. nom_amt s' b c = (if b = a then Some y else nom_amt s b c)"
    "B = add_mset \<lparr>owner = a, amount = y\<rparr> (bonds s c - {#\<lparr>owner = a, amount = x\<rparr>#})"
  shows "nom_amt s' b c = Some z \<longleftrightarrow> \<lparr>owner = b, amount = z\<rparr> \<in># B"
proof -
  have "\<lparr>owner = a, amount = x\<rparr> \<in># bonds s c" using assms(1,3) by (simp add: link_inv_def)
  from bonds_minus [OF assms(2) this] show ?thesis using assms(1,4,5) by (auto simp: link_inv_def)
qed

lemma link_rm:
  assumes "link_inv s c" "cand_ok C c m s" "nom_amt s a c = Some x"
    "\<And>b. nom_amt s' b c = (if b = a then None else nom_amt s b c)"
    "B = bonds s c - {#\<lparr>owner = a, amount = x\<rparr>#}"
  shows "nom_amt s' b c = Some z \<longleftrightarrow> \<lparr>owner = b, amount = z\<rparr> \<in># B"
proof -
  have "\<lparr>owner = a, amount = x\<rparr> \<in># bonds s c" using assms(1,3) by (simp add: link_inv_def)
  from bonds_minus [OF assms(2) this] show ?thesis using assms(1,4,5) by (auto simp: link_inv_def)
qed

subsection \<open>Removing by the wrong amount\<close>

text \<open>
  \<open>rm_nomination_if_exists\<close> guesses the list from the amount it is given. With an amount that is not
  the nomination's own it may look in the wrong list and fail; it never does anything else.
\<close>

lemma rm_nomination_any:
  assumes cfg: "cfg_ok C" and ok: "cand_ok C c m s" and b: "b \<in># bonds s c"
  shows "list_op C c m s (rm_nomination_if_exists C c (owner b) a m s) (bonds s c - {#b#}) \<or>
    rm_nomination_if_exists C c (owner b) a m s = Fail (StakingError NominationDNE) s"
proof -
  obtain t l where t: "TopNominations s c = Some t" and l: "BottomNominations s c = Some l"
    and wf: "cand_wf C m t l" and bonds: "bonds s c = mset (nominations t) + mset (nominations l)"
    using cand_okE [OF ok] by metis
  note D = cand_wfD [OF wf]
  have T: "list_op C c m s (rm_top_nomination C c (owner b) m s) (bonds s c - {#b#})"
    if "b \<in> set (nominations t)" using rm_top_ok [OF cfg ok t that] .
  have L: "list_op C c m s (rm_bottom_nomination C c (owner b) m s) (bonds s c - {#b#})"
    if "b \<in> set (nominations l)" using rm_bottom_ok [OF ok l that] .
  have nT: "rm_top_nomination C c (owner b) m s = Fail (StakingError NominationDNE) s"
    if "b \<in> set (nominations l)" using rm_top_not_owner [OF t not_owner_top [OF D(1) that]] .
  have nL: "rm_bottom_nomination C c (owner b) m s = Fail (StakingError NominationDNE) s"
    if "b \<in> set (nominations t)"
  proof -
    have "owner b \<notin> owner ` set (nominations l)" using D(1) that by (auto simp: lists_wf_def)
    then show ?thesis using l bond_of_None [of "owner b" "nominations l"]
      by (simp add: rm_bottom_nomination_def)
  qed
  have "b \<in> set (nominations t) \<or> b \<in> set (nominations l)" using b bonds by auto
  then show ?thesis
    using T L nT nL by (auto simp: rm_nomination_if_exists_def Let_def list_op_def)
qed

end
