(* ===== verification/Staking_Keep.thy ===== *)
theory Staking_Keep
  imports Staking_Inv
begin

text \<open>Every dispatchable call of the staking pallet keeps the invariant of \<open>Staking_Inv\<close>.\<close>

lemma env_okD:
  assumes "env_ok C bk"
  shows "bk a w < M128"
    "reserve C a x w = Some w' \<Longrightarrow> bk b w' = (if b = a then bk a w + x else bk b w)"
    "bk b (unreserve C a x w) = (if b = a then bk a w - x else bk b w)"
    "cfg_ok C" "0 < MinNomination C" "0 < MinNominatorStk C"
    "RM_join_relayers C a c w = Inr w' \<Longrightarrow> bk b w' = bk b w"
    "bk b (RM_refresh_round C r w) = bk b w"
    "RM_refresh_selected_relayers C r cs w = Some w' \<Longrightarrow> bk b w' = bk b w"
    "bk b (RM_refresh_majority C r w) = bk b w"
    "RM_replace_bonded_controller C c d w = Some w' \<Longrightarrow> bk b w' = bk b w"
    "bk b (RM_leave_relayers C c w) = bk b w"
    "RM_kickout_relayer C c w = Some w' \<Longrightarrow> bk b w' = bk b w"
    "RM_handle_delayed_relayer_sets C r w = Some w' \<Longrightarrow> bk b w' = bk b w"
    "bk b (OH_refresh_offences C i w) = bk b w"
  using assms unfolding env_ok_def currency_laws_def world_laws_def min_ok_def by simp_all

lemma env_deposit:
  assumes "env_ok C bk" "deposit_into_existing C a x w = Some (w', y)"
  shows "bk b w' = bk b w"
  using assms unfolding env_ok_def currency_laws_def by blast

lemma env_offence:
  assumes "env_ok C bk" "OH_try_handle_offence C c st t f w = ((k, x), w')"
  shows "x \<le> of_self_bond f" "\<not> k \<Longrightarrow> x = 0" "(if b = st then bk b w - x else bk b w) \<le> bk b w'"
  using assms unfolding env_ok_def world_laws_def by blast+

subsection \<open>Calls that do not touch what the invariant reads\<close>

lemma ensure_signed_Done:
  "ensure_signed og s k = Done u s' \<longleftrightarrow> (\<exists>a. og = Signed a \<and> k a = Done u s')"
  by (cases og) (simp_all add: ensure_signed_def)

lemma ensure_root_Done: "ensure_root og s k = Done u s' \<longleftrightarrow> og = Root \<and> k = Done u s'"
  by (simp add: ensure_root_def)

lemma with_Done:
  "with_candidate c s k = Done u s' \<longleftrightarrow> (\<exists>m. cand s c = Some m \<and> k m = Done u s')"
  "with_nominator a s kn = Done u s' \<longleftrightarrow> (\<exists>n. NominatorState s a = Some n \<and> kn n = Done u s')"
  "with_stash st s ks = Done u s' \<longleftrightarrow> (\<exists>c. BondedStash s st = Some c \<and> ks c = Done u s')"
  by (simp_all add: with_candidate_def with_nominator_def with_stash_def split: option.split)

lemma sum_Done:
  "(case x of Inl e \<Rightarrow> Fail (f e) (g e) | Inr w \<Rightarrow> k w) = Done u s' \<longleftrightarrow>
     (\<exists>w. x = Inr w \<and> k w = Done u s')"
  by (cases x) simp_all

lemmas call_Done = sum_Done ensure_signed_Done ensure_root_Done with_Done bind_outcome_Done

definition quiet :: "'w staking \<Rightarrow> 'w staking \<Rightarrow> bool" where
  "quiet s s' \<longleftrightarrow> same_core s s' \<and> DelayedControllerSets s' = DelayedControllerSets s \<and> now_round s' = now_round s \<and> world s' = world s"

lemma quiet_inv: "staking_inv C bk r s \<Longrightarrow> quiet s s' \<Longrightarrow> staking_inv C bk r s'"
  using staking_inv_core [of C bk r s s'] by (simp add: quiet_def)

lemma governance_quiet:
  "set_staking_expectations C og e s = Done u s' \<Longrightarrow> quiet s s'"
  "set_inflation C og e s = Done u s' \<Longrightarrow> quiet s s'"
  "set_max_full_selected og n s = Done u s' \<Longrightarrow> quiet s s'"
  "set_max_basic_selected og n s = Done u s' \<Longrightarrow> quiet s s'"
  "set_default_validator_commission og p t s = Done u s' \<Longrightarrow> quiet s s'"
  "set_max_validator_commission og p t s = Done u s' \<Longrightarrow> quiet s s'"
  "set_blocks_per_round C og n s = Done u s' \<Longrightarrow> quiet s s'"
  "set_storage_cache_lifetime og n s = Done u s' \<Longrightarrow> quiet s s'"
  by (auto simp: quiet_def same_core_def deposit_event_def set_staking_expectations_def set_inflation_def
      set_max_full_selected_def set_max_basic_selected_def set_default_validator_commission_def
      set_max_validator_commission_def set_blocks_per_round_def set_storage_cache_lifetime_def
      ensure_root_Done Let_def split: if_splits option.splits TierType.splits)

lemma commission_quiet:
  "set_validator_commission og p s = Done u s' \<Longrightarrow> quiet s s'"
  "cancel_validator_commission_set og s = Done u s' \<Longrightarrow> quiet s s'"
  by (auto simp: quiet_def same_core_def deposit_event_def set_validator_commission_def
      cancel_validator_commission_set_def add_to_commission_sets_def remove_commission_set_def
      call_Done Let_def split: if_splits option.splits)

subsection \<open>Controllers\<close>

lemma set_controller_keeps:
  assumes inv: "staking_inv C bk (now_round s) s" and d: "set_controller og new s = Done u s'"
  shows "staking_inv C bk (now_round s) s'" "now_round s' = now_round s"
proof -
  let ?r = "now_round s"
  obtain st old m where st: "BondedStash s st = Some old" and m: "cand s old = Some m"
    and g: "new \<noteq> old" "\<not> is_candidate new All s" "\<not> cm_is_leaving m"
      "\<forall>d\<in>set (DelayedControllerSets s ?r). dc_old d \<noteq> old \<and> dc_new d \<noteq> new"
    and s': "s' = deposit_event (ControllerSet old new) (s\<lparr>DelayedControllerSets :=
      (DelayedControllerSets s)(?r := DelayedControllerSets s ?r
        @ [\<lparr>dc_stash = st, dc_old = old, dc_new = new\<rparr>])\<rparr>)"
    using d by (auto simp: set_controller_def add_to_controller_sets_def try_push_def call_Done
        list_ex_iff Let_def split: if_splits option.splits)
  have new: "cand s new = None" using g(2) by (simp add: is_candidate_def split: option.splits)
  have sm: "stash m = st" using inv_stash [OF inv st] m by simp
  have "csets_inv ?r s'"
    using staking_invD(8) [OF inv] g new m sm by (auto simp: csets_inv_def s' Let_def)
  then show "staking_inv C bk ?r s'"
    by (intro staking_inv_sets [OF inv]) (simp_all add: same_core_def s')
  show "now_round s' = ?r" by (simp add: s')
qed

lemma cancel_controller_set_keeps:
  assumes inv: "staking_inv C bk (now_round s) s" and d: "cancel_controller_set og s = Done u s'"
  shows "staking_inv C bk (now_round s) s'" "now_round s' = now_round s"
proof -
  obtain c where s': "s' = deposit_event (ControllerSetCancelled c) (remove_controller_set c s)"
    using d by (auto simp: cancel_controller_set_def call_Done split: if_splits)
  have "csets_inv (now_round s) s'"
    using staking_invD(8) [OF inv]
    by (auto simp: csets_inv_def s' remove_controller_set_def Let_def distinct_map_filter)
  then show "staking_inv C bk (now_round s) s'"
    by (intro staking_inv_sets [OF inv]) (simp_all add: same_core_def s' remove_controller_set_def)
  show "now_round s' = now_round s" by (simp add: s' remove_controller_set_def)
qed

subsection \<open>Status and self-bond of a candidate\<close>

lemma bt_remove_length_le: "length (bt_remove k m) \<le> length m"
  by (simp add: bt_remove_def)

lemma bt_try_insert_length:
  assumes "bt_try_insert k v m = Some m'" "bt_wf m" "length m \<le> MAX_AUTHORITIES"
  shows "m' = bt_insert k v m" "length m' \<le> MAX_AUTHORITIES"
  using assms by (auto simp: bt_try_insert_def bt_length_insert bt_contains_def split: if_splits)

lemma schedule_leave_keeps:
  assumes inv: "staking_inv C bk (now_round s) s"
    and d: "schedule_leave_candidates C og k s = Done u s'"
  shows "staking_inv C bk (now_round s) s'" "now_round s' = now_round s"
proof -
  obtain c m due where m: "cand s c = Some m" and g: "\<not> is_controller_set_requested c s"
    "bt_contains c (CandidatePool s)" "request m = None"
    and s': "s' = deposit_event (CandidateScheduledExit (now_round s) c due)
      (put_candidate c (m\<lparr>status := VLeaving due\<rparr>)
        (s\<lparr>CandidatePool := bt_remove c (CandidatePool s)\<rparr>))"
    using d by (auto simp: schedule_leave_candidates_def remove_from_candidate_pool_def
        cm_schedule_leave_def call_Done Let_def split: if_splits sum.splits)
  show "staking_inv C bk (now_round s) s'"
    by (rule staking_inv_meta [OF inv m, of _ "m\<lparr>status := VLeaving due\<rparr>"])
      (use g staking_invD(3) [OF inv] bt_remove_length_le [of c "CandidatePool s"] in
        \<open>auto simp: s' put_candidate_def same_lists_def is_controller_set_requested_def list_ex_iff\<close>)
  show "now_round s' = now_round s" by (simp add: s' put_candidate_def)
qed

lemma back_online_keeps:
  assumes inv: "staking_inv C bk r s" and m: "cand s c = Some m"
    and p: "bt_try_insert c (voting_power m) (CandidatePool s) = Some p"
  shows "staking_inv C bk r (deposit_event e (put_candidate c (cm_go_online m) (s\<lparr>CandidatePool := p\<rparr>)))"
  by (rule staking_inv_meta [OF inv m, of _ "cm_go_online m"])
    (use bt_try_insert_length [OF p staking_invD(2,3) [OF inv]] inv_cand(4) [OF inv m] in
      \<open>auto simp: put_candidate_def same_lists_def cm_go_online_def cm_is_leaving_def\<close>)

lemma online_keeps:
  assumes inv: "staking_inv C bk (now_round s) s"
  shows "go_online og s = Done u s' \<Longrightarrow>
      staking_inv C bk (now_round s) s' \<and> now_round s' = now_round s"
    "cancel_leave_candidates og k s = Done u s' \<Longrightarrow>
      staking_inv C bk (now_round s) s' \<and> now_round s' = now_round s"
  using back_online_keeps [OF inv]
  by (auto simp: go_online_def cancel_leave_candidates_def call_Done Let_def put_candidate_def
      split: if_splits option.splits) (simp_all add: cm_go_online_def)

lemma update_active_fields [simp]:
  "CandidateInfo (update_active c v s) = CandidateInfo s"
  "TopNominations (update_active c v s) = TopNominations s"
  "BottomNominations (update_active c v s) = BottomNominations s"
  "BondedStash (update_active c v s) = BondedStash s"
  "NominatorState (update_active c v s) = NominatorState s"
  "DelayedControllerSets (update_active c v s) = DelayedControllerSets s"
  "Round (update_active c v s) = Round s"
  "Total (update_active c v s) = Total s"
  "world (update_active c v s) = world s"
  by (simp_all add: update_active_def)

text \<open>The stake of a candidate changes and its pool entry follows.\<close>

lemma stake_changed:
  assumes inv: "staking_inv C bk r s" and m: "cand s c = Some m"
    and s': "CandidateInfo s' = bt_insert c m' (CandidateInfo s)"
      "TopNominations s' = TopNominations s" "BottomNominations s' = BottomNominations s"
      "BondedStash s' = BondedStash s" "NominatorState s' = NominatorState s"
      "DelayedControllerSets s' = DelayedControllerSets s"
      "CandidatePool s' = CandidatePool (update_active c (voting_power m') s)"
    and m': "same_lists m m'" "status m' = status m"
      "\<And>q. request m' = Some q \<Longrightarrow> cr_amount q \<le> bond m'"
    and bks: "\<And>b. b \<noteq> stash m \<Longrightarrow> bk b (world s) \<le> bk b (world s')"
      "bk (stash m) (world s) + bond m' \<le> bk (stash m) (world s') + bond m"
  shows "staking_inv C bk r s'"
proof (rule staking_inv_meta [OF inv m s'(1-6) m'(1)])
  note f = update_active_frame(2,3) [where c = c and s = s and v = "voting_power m'"]
  show "pool_frame c (CandidatePool s) (CandidatePool s')
      \<or> CandidatePool s' = bt_remove c (CandidatePool s)
      \<or> CandidatePool s' = bt_insert c (voting_power m') (CandidatePool s)" using f s'(7) by simp
  then show "length (CandidatePool s') \<le> MAX_AUTHORITIES"
    using pool_frame_length [OF f(1) staking_invD(2) [OF inv]] staking_invD(3) [OF inv] s'(7) by simp
  show "v = voting_power m'" if "bt_get (CandidatePool s') c = Some v" for v
    using f(2) that s'(7) by (simp split: if_splits)
  show "bt_get (CandidatePool s') c = None \<longleftrightarrow> status m' \<noteq> VActive"
    using f(2) s'(7) inv_cand(2) [OF inv m] m'(2) by (simp add: bt_contains_def)
qed (use m' bks in \<open>auto simp: cm_is_leaving_def\<close>)

lemma bond_lt: "env_ok C bk \<Longrightarrow> staking_inv C bk r s \<Longrightarrow> cand s c = Some m \<Longrightarrow> bond m < M128"
  using inv_cand(3) [of C bk r s c m] staking_invD(7) [of C bk r s "stash m"] env_okD(1) [of C bk "stash m" "world s"]
  by (simp add: owed_def self_bonded_def)

text \<open>What \<open>bond_more\<close> leaves to its callers, which store the metadata and refresh the pool entry.\<close>

lemma bond_more_shape:
  assumes "cm_bond_more C st c x m s = Done m1 s1"
  obtains w where "reserve C st x (world s) = Some w"
    "m1 = m\<lparr>bond := sat_add128 (bond m) x, voting_power := sat_add128 (voting_power m) x\<rparr>"
    "s1 = deposit_event (CandidateBondedMore c x (sat_add128 (bond m) x))
       (s\<lparr>world := w, Total := sat_add128 (Total s) x\<rparr>)"
  using assms by (auto simp: cm_bond_more_def call_Done cur_reserve_Done Let_def)

lemma bond_more_changed:
  assumes env: "env_ok C bk" and inv: "staking_inv C bk r s" and m: "cand s c = Some m"
    and w: "reserve C (stash m) x (world s) = Some w"
    and s': "CandidateInfo s' = bt_insert c m' (CandidateInfo s)"
      "TopNominations s' = TopNominations s" "BottomNominations s' = BottomNominations s"
      "BondedStash s' = BondedStash s" "NominatorState s' = NominatorState s"
      "DelayedControllerSets s' = DelayedControllerSets s"
      "CandidatePool s' = CandidatePool (update_active c (voting_power m') s)"
      "\<And>b. bk b (world s') = bk b w"
    and m': "same_lists m m'" "status m' = status m" "request m' = request m"
      "bond m' = sat_add128 (bond m) x"
  shows "staking_inv C bk r s'"
proof (rule stake_changed [OF inv m s'(1-7) m'(1,2)])
  have ge: "bond m \<le> bond m'" using sat_add128_ge bond_lt [OF env inv m] m'(4) by simp
  show "cr_amount q \<le> bond m'" if "request m' = Some q" for q
    using inv_cand(4) [OF inv m, of q] that m'(3) ge by simp
  show "bk (stash m) (world s) + bond m' \<le> bk (stash m) (world s') + bond m"
    using s'(8) env_okD(2) [OF env w] m'(4) by (simp add: sat_add128_def)
  show "bk b (world s) \<le> bk b (world s')" if "b \<noteq> stash m" for b
    using s'(8) env_okD(2) [OF env w] that by simp
qed

lemma candidate_bond_more_keeps:
  assumes env: "env_ok C bk" and inv: "staking_inv C bk (now_round s) s"
    and d: "candidate_bond_more C og x s = Done u s'"
  shows "staking_inv C bk (now_round s) s'" "now_round s' = now_round s"
proof -
  obtain st c m m1 s1 where st: "BondedStash s st = Some c" and m: "cand s c = Some m"
    and bm: "cm_bond_more C st c x m s = Done m1 s1"
    and s': "s' = update_active c (voting_power m1) (put_candidate c m1 s1)"
    using d by (auto simp: candidate_bond_more_def call_Done split: if_splits)
  have st': "st = stash m" using inv_stash [OF inv st] m by simp
  obtain w where w: "reserve C st x (world s) = Some w"
    "m1 = m\<lparr>bond := sat_add128 (bond m) x, voting_power := sat_add128 (voting_power m) x\<rparr>"
    "s1 = deposit_event (CandidateBondedMore c x (sat_add128 (bond m) x))
       (s\<lparr>world := w, Total := sat_add128 (Total s) x\<rparr>)"
    by (rule bond_more_shape [OF bm])
  show "staking_inv C bk (now_round s) s'"
    by (rule bond_more_changed [OF env inv m w(1) [unfolded st'], where m' = m1])
      (simp_all add: s' w(2,3) put_candidate_def update_active_def same_lists_def)
  show "now_round s' = now_round s" by (simp add: s' w(3) put_candidate_def)
qed

definition retier :: "acct \<Rightarrow> TierType \<Rightarrow> CandidateMetadata \<Rightarrow> 'w \<Rightarrow> 'w staking \<Rightarrow> 'w staking" where
  "retier c t m1 w s1 =
     (let (m2, s2) = cm_reset_commission c (m1\<lparr>tier := t\<rparr>) (s1\<lparr>world := w\<rparr>)
      in update_active c (voting_power m2) (put_candidate c m2 s2))"

lemma retier_Done:
  "(case cm_reset_commission c (m1\<lparr>tier := t\<rparr>) (s1\<lparr>world := w\<rparr>) of
      (m2, s2) \<Rightarrow> Done () (update_active c (voting_power m2) (put_candidate c m2 s2))) =
   Done () (retier c t m1 w s1)"
  by (simp add: retier_def split_beta)

lemma set_validator_tier_keeps:
  assumes env: "env_ok C bk" and inv: "staking_inv C bk (now_round s) s"
    and d: "set_validator_tier C og x t rel s = Done u s'"
  shows "staking_inv C bk (now_round s) s'" "now_round s' = now_round s"
proof -
  obtain st c m m1 s1 w' where st: "BondedStash s st = Some c" and m: "cand s c = Some m"
    and bm: "cm_bond_more C st c x m s = Done m1 s1"
    and w': "w' = RM_leave_relayers C c (world s1) \<or>
      (\<exists>a. RM_join_relayers C a c (world s1) = Inr w')"
    and s'': "s' = retier c t m1 w' s1"
    using d unfolding set_validator_tier_def Let_def retier_Done
    by (auto simp: call_Done split: if_splits option.splits) blast+
  note s' = s'' [unfolded retier_def]
  have wb: "bk b w' = bk b (world s1)" for b using w' env_okD(7,12) [OF env] by auto
  have st': "st = stash m" using inv_stash [OF inv st] m by simp
  obtain w where w: "reserve C st x (world s) = Some w"
    "m1 = m\<lparr>bond := sat_add128 (bond m) x, voting_power := sat_add128 (voting_power m) x\<rparr>"
    "s1 = deposit_event (CandidateBondedMore c x (sat_add128 (bond m) x))
       (s\<lparr>world := w, Total := sat_add128 (Total s) x\<rparr>)"
    by (rule bond_more_shape [OF bm])
  show "staking_inv C bk (now_round s) s'"
    by (rule bond_more_changed [OF env inv m w(1) [unfolded st'],
          where m' = "fst (cm_reset_commission c (m1\<lparr>tier := t\<rparr>) (s1\<lparr>world := w'\<rparr>))"])
      (use wb in \<open>simp_all add: s' w(2,3) put_candidate_def update_active_def same_lists_def
        cm_reset_commission_def Let_def\<close>)
  show "now_round s' = now_round s" by (simp add: s' w(3) put_candidate_def cm_reset_commission_def Let_def)
qed

text \<open>Only fields of the metadata that the invariant does not read change.\<close>

lemma put_candidate_quiet:
  assumes inv: "staking_inv C bk r s" and m: "cand s c = Some m"
    and s': "CandidateInfo s' = bt_insert c m' (CandidateInfo s)"
      "TopNominations s' = TopNominations s" "BottomNominations s' = BottomNominations s"
      "BondedStash s' = BondedStash s" "NominatorState s' = NominatorState s"
      "DelayedControllerSets s' = DelayedControllerSets s"
      "CandidatePool s' = CandidatePool s" "\<And>b. bk b (world s) \<le> bk b (world s')"
    and m': "same_lists m m'" "status m' = status m" "bond m' = bond m" "voting_power m' = voting_power m"
      "\<And>q. request m' = Some q \<Longrightarrow> cr_amount q \<le> bond m"
  shows "staking_inv C bk r s'"
  by (rule staking_inv_meta [OF inv m s'(1-6) m'(1)])
    (use s' m' staking_invD(3) [OF inv] inv_cand(1,2) [OF inv m] in \<open>auto simp: cm_is_leaving_def cand_ok_def\<close>)

lemma set_candidate_reward_dst_keeps:
  assumes inv: "staking_inv C bk (now_round s) s" and d: "set_candidate_reward_dst og x s = Done u s'"
  shows "staking_inv C bk (now_round s) s'" "now_round s' = now_round s"
proof -
  obtain c m where m: "cand s c = Some m"
    and s': "s' = deposit_event (ValidatorRewardDstSet c (reward_dst m) x) (put_candidate c (m\<lparr>reward_dst := x\<rparr>) s)"
    using d by (auto simp: set_candidate_reward_dst_def call_Done split: if_splits)
  show "staking_inv C bk (now_round s) s'"
    by (rule put_candidate_quiet [OF inv m, where m' = "m\<lparr>reward_dst := x\<rparr>"])
      (use inv_cand(4) [OF inv m] in \<open>simp_all add: s' put_candidate_def same_lists_def\<close>)
  show "now_round s' = now_round s" by (simp add: s' put_candidate_def)
qed

lemma schedule_candidate_bond_less_keeps:
  assumes inv: "staking_inv C bk (now_round s) s" and d: "schedule_candidate_bond_less C og x s = Done u s'"
  shows "staking_inv C bk (now_round s) s'" "now_round s' = now_round s"
proof -
  let ?q = "\<lparr>cr_amount = x, cr_when_executable = add32 (now_round s) (CandidateBondLessDelay C)\<rparr>"
  obtain c m where m: "cand s c = Some m" and q: "x < bond m"
    and s': "s' = deposit_event (CandidateBondLessRequested c x (cr_when_executable ?q))
      (put_candidate c (m\<lparr>request := Some ?q\<rparr>) s)"
    using d by (auto simp: schedule_candidate_bond_less_def cm_schedule_bond_less_def call_Done Let_def
        split: if_splits)
  show "staking_inv C bk (now_round s) s'"
    by (rule put_candidate_quiet [OF inv m, where m' = "m\<lparr>request := Some ?q\<rparr>"])
      (use q in \<open>simp_all add: s' put_candidate_def same_lists_def\<close>)
  show "now_round s' = now_round s" by (simp add: s' put_candidate_def)
qed

lemma cancel_candidate_bond_less_keeps:
  assumes inv: "staking_inv C bk (now_round s) s" and d: "cancel_candidate_bond_less og s = Done u s'"
  shows "staking_inv C bk (now_round s) s'" "now_round s' = now_round s"
proof -
  obtain c m e where m: "cand s c = Some m"
    and s': "s' = put_candidate c (m\<lparr>request := None\<rparr>) (deposit_event e s)"
    using d by (auto simp: cancel_candidate_bond_less_def cm_cancel_bond_less_def call_Done
        split: option.splits)
  show "staking_inv C bk (now_round s) s'"
    by (rule put_candidate_quiet [OF inv m, where m' = "m\<lparr>request := None\<rparr>"])
      (simp_all add: s' put_candidate_def same_lists_def)
  show "now_round s' = now_round s" by (simp add: s' put_candidate_def)
qed

lemma execute_candidate_bond_less_keeps:
  assumes env: "env_ok C bk" and inv: "staking_inv C bk (now_round s) s"
    and d: "execute_candidate_bond_less C og s = Done u s'"
  shows "staking_inv C bk (now_round s) s'" "now_round s' = now_round s"
proof -
  obtain st c m m1 s1 where st: "BondedStash s st = Some c" and m: "cand s c = Some m"
    and ex: "cm_execute_bond_less C st c m s = Done m1 s1" and s': "s' = put_candidate c m1 s1"
    using d by (auto simp: execute_candidate_bond_less_def call_Done)
  have st': "st = stash m" using inv_stash [OF inv st] m by simp
  obtain q where q: "request m = Some q" and m1: "m1 = m\<lparr>bond := bond m - cr_amount q,
      voting_power := voting_power m - cr_amount q, request := None\<rparr>"
    and s1: "s1 = deposit_event (CandidateBondedLess c (cr_amount q) (bond m - cr_amount q))
      (update_active c (voting_power m - cr_amount q)
        ((cur_unreserve C st (cr_amount q) s)\<lparr>Total := Total s - cr_amount q\<rparr>))"
    using ex by (auto simp: cm_execute_bond_less_def cur_unreserve_def Let_def
        split: option.splits if_splits)
  have le: "cr_amount q \<le> bond m" by (rule inv_cand(4) [OF inv m q])
  show "staking_inv C bk (now_round s) s'"
  proof (rule stake_changed [OF inv m, where m' = m1])
    have "bond m \<le> bk (stash m) (world s)"
      using staking_invD(7) [OF inv, of "stash m"] inv_cand(3) [OF inv m] m
      by (simp add: owed_def self_bonded_def)
    then show "bk (stash m) (world s) + bond m1 \<le> bk (stash m) (world s') + bond m"
      using le env_okD(3) [OF env, of "stash m" "stash m" "cr_amount q" "world s"]
      by (simp add: s' s1 m1 st' put_candidate_def cur_unreserve_def)
    show "bk b (world s) \<le> bk b (world s')" if "b \<noteq> stash m" for b
      using that env_okD(3) [OF env, of b "stash m" "cr_amount q" "world s"]
      by (simp add: s' s1 st' put_candidate_def cur_unreserve_def)
  qed (simp_all add: s' s1 m1 put_candidate_def cur_unreserve_def update_active_def same_lists_def)
  show "now_round s' = now_round s" by (simp add: s' s1 put_candidate_def cur_unreserve_def)
qed

lemma go_offline_keeps:
  assumes env: "env_ok C bk" and inv: "staking_inv C bk (now_round s) s"
    and d: "Staking_Calls.go_offline C og s = Done u s'"
  shows "staking_inv C bk (now_round s) s'" "now_round s' = now_round s"
proof -
  obtain c m where m: "cand s c = Some m" and s': "CandidateInfo s' = bt_insert c (cm_go_offline m) (CandidateInfo s)"
    "TopNominations s' = TopNominations s" "BottomNominations s' = BottomNominations s"
    "BondedStash s' = BondedStash s" "NominatorState s' = NominatorState s"
    "DelayedControllerSets s' = DelayedControllerSets s"
    "CandidatePool s' = bt_remove c (CandidatePool s)" "Round s' = Round s"
    "world s' = world s \<or> RM_kickout_relayer C c (world s) = Some (world s')"
    using d by (auto simp: go_offline_def call_Done remove_from_candidate_pool_def Let_def
        refresh_cached_selected_candidates_def put_candidate_def split: if_splits option.splits)
  have w: "bk b (world s') = bk b (world s)" for b using s'(9) env_okD(13) [OF env] by auto
  show "staking_inv C bk (now_round s) s'"
    by (rule staking_inv_meta [OF inv m s'(1-6)])
      (use s'(7) w staking_invD(3) [OF inv] bt_remove_length_le [of c "CandidatePool s"] inv_cand(4) [OF inv m]
        in \<open>auto simp: same_lists_def cm_go_offline_def cm_is_leaving_def\<close>)
  show "now_round s' = now_round s" by (simp add: s')
qed

subsection \<open>A new candidate\<close>

lemma new_candidate_ok:
  assumes "cfg_ok C" "TopNominations s c = Some Nominations_default"
    "BottomNominations s c = Some Nominations_default"
    "bt_get (CandidatePool s) c = Some b"
  shows "cand_ok C c (CandidateMetadata_new C st b t s0) s"
  using assms by (simp add: cand_ok_def cand_wf_def lists_wf_def CandidateMetadata_new_def
      Nominations_default_def lowest_nomination_amount_def highest_nomination_amount_def
      noms_top_capacity_def noms_bottom_capacity_def cfg_ok_def as_u32_def)

lemma new_candidate_world [simp]:
  "CandidateMetadata_new C st b t (s\<lparr>world := w\<rparr>) = CandidateMetadata_new C st b t s"
  by (simp add: CandidateMetadata_new_def split: TierType.split)

lemma join_shape:
  assumes "join_candidates C og c rel b k s = Done u s'"
  shows "\<exists>st w0. og = Signed st \<and> BondedStash s st = None \<and> cand s c = None \<and>
    (\<forall>d\<in>set (DelayedControllerSets s (now_round s)). dc_new d \<noteq> c) \<and>
    NominatorState s c = None \<and> reserve C st b (world s) = Some w0 \<and>
    (world s' = w0 \<or> (\<exists>a. RM_join_relayers C a c w0 = Inr (world s'))) \<and>
    bt_try_insert c b (CandidatePool s) = Some (CandidatePool s') \<and>
    CandidateInfo s' = bt_insert c (CandidateMetadata_new C st b (if rel = None then Basic else Full) s)
      (CandidateInfo s) \<and>
    BondedStash s' = (BondedStash s)(st \<mapsto> c) \<and>
    TopNominations s' = (TopNominations s)(c \<mapsto> Nominations_default) \<and>
    BottomNominations s' = (BottomNominations s)(c \<mapsto> Nominations_default) \<and>
    NominatorState s' = NominatorState s \<and> DelayedControllerSets s' = DelayedControllerSets s \<and>
    Round s' = Round s \<and> Total s' = sat_add128 (Total s) b"
  using assms
  by (auto simp: join_candidates_def call_Done cur_reserve_Done Let_def bt_contains_def
      put_defs list_ex_iff is_nominator_def split: if_splits option.splits)

lemma join_candidates_keeps:
  assumes env: "env_ok C bk" and inv: "staking_inv C bk (now_round s) s"
    and d: "join_candidates C og c rel b k s = Done u s'"
  shows "staking_inv C bk (now_round s) s'" "now_round s' = now_round s"
proof -
  let ?r = "now_round s"
  let ?t = "if rel = None then Basic else Full"
  obtain st w0 where g: "BondedStash s st = None" "cand s c = None"
      "\<forall>d\<in>set (DelayedControllerSets s ?r). dc_new d \<noteq> c"
    and w: "reserve C st b (world s) = Some w0"
      "world s' = w0 \<or> (\<exists>a. RM_join_relayers C a c w0 = Inr (world s'))"
    and p: "bt_try_insert c b (CandidatePool s) = Some (CandidatePool s')"
    and s': "CandidateInfo s' = bt_insert c (CandidateMetadata_new C st b ?t s) (CandidateInfo s)"
      "BondedStash s' = (BondedStash s)(st \<mapsto> c)"
      "TopNominations s' = (TopNominations s)(c \<mapsto> Nominations_default)"
      "BottomNominations s' = (BottomNominations s)(c \<mapsto> Nominations_default)"
      "NominatorState s' = NominatorState s" "DelayedControllerSets s' = DelayedControllerSets s"
      "Round s' = Round s"
    using join_shape [OF d] by blast
  let ?m = "CandidateMetadata_new C st b ?t s"
  have m: "stash ?m = st" "bond ?m = b" "status ?m = VActive" "request ?m = None"
    by (simp_all add: CandidateMetadata_new_def)
  note p' = bt_try_insert_length [OF p staking_invD(2,3) [OF inv]]
  have bkw: "bk a (world s') = (if a = st then bk a (world s) + b else bk a (world s))" for a
    using w env_okD(2,7) [OF env] by fastforce
  have maps: "maps_inv s'" using staking_invD(1,2) [OF inv] p' by (simp add: maps_inv_def s')
  have cands: "cand_inv C s' x" for x
  proof (cases "x = c")
    case True
    then show ?thesis
      using new_candidate_ok [OF env_okD(4) [OF env], of s' c b st ?t s] s' p'(1) m
      by (simp add: cand_inv_def)
  next
    case False
    then show ?thesis
      using cand_inv_cong [of s' x s C] staking_invD(4) [OF inv, of x] s' p'(1) by simp
  qed
  have links: "link_inv s' x" for x
  proof (cases "x = c")
    case True
    have "nom_amt s' a c = None" for a
      using inv_not_cand(2) [OF inv g(2)] s'(5) by (simp add: nom_amt_def)
    then show ?thesis using True s'(3,4) by (simp add: link_inv_def bonds_def Nominations_default_def)
  next
    case False
    then show ?thesis
      using link_inv_cong [of s' x s] bonds_cong [of s' x s] staking_invD(5) [OF inv, of x] s'
      by (simp add: nom_amt_def)
  qed
  have stashes: "stash_inv s'"
    using staking_invD(9) [OF inv] g(1,2) m(1) by (auto simp: stash_inv_def s')
      (metis option.distinct(1))+
  have sets: "csets_inv ?r s'"
    using staking_invD(8) [OF inv] g by (auto simp: csets_inv_def s' Let_def)
  have "owed s' a \<le> bk a (world s')" for a
  proof (cases "a = st")
    case True
    have "nominated s st \<le> bk st (world s)" using staking_invD(7) [OF inv, of st] by (simp add: owed_def)
    then show ?thesis using True bkw m by (simp add: owed_def self_bonded_def nominated_def s')
  next
    case False
    have "owed s' a = owed s a"
      using False g(2) inv_stash [OF inv, of a] by (auto simp: owed_def self_bonded_def nominated_def s' split: option.splits)
    then show ?thesis using staking_invD(7) [OF inv, of a] bkw False by simp
  qed
  with maps cands links stashes sets show "staking_inv C bk ?r s'"
    using staking_invD(6) [OF inv] s' by (simp add: staking_inv_def solvent_def)
  show "now_round s' = ?r" by (simp add: s')
qed

end
