(* ===== verification/Nominator_Keep.thy ===== *)
theory Nominator_Keep
  imports Staking_Keep
begin

text \<open>The calls of nominators, and of candidates that leave, keep the invariant.\<close>

subsection \<open>Changes of one record\<close>

text \<open>Solvency of the nominations of every account carries over, whatever else is owed.\<close>

definition covers :: "(acct \<Rightarrow> 'w \<Rightarrow> balance) \<Rightarrow> 'w staking \<Rightarrow> 'w staking \<Rightarrow> bool" where
  "covers bk s s' \<longleftrightarrow>
     (\<forall>a k. nominated s a + k \<le> bk a (world s) \<longrightarrow> nominated s' a + k \<le> bk a (world s'))"

lemma covers_refl [simp]: "covers bk s s"
  by (simp add: covers_def)

lemma covers_trans: "covers bk s t \<Longrightarrow> covers bk t u \<Longrightarrow> covers bk s u"
  by (simp add: covers_def)

lemma covers_owed:
  "covers bk s s' \<Longrightarrow> staking_inv C bk r s \<Longrightarrow> nominated s' a + self_bonded s a \<le> bk a (world s')"
  using staking_invD(7) [of C bk r s a] by (simp add: covers_def owed_def)

text \<open>The account \<open>a\<close> loses its nomination of \<open>c\<close>; a record without nominations is deleted.\<close>

lemma drop_nomination:
  assumes n: "NominatorState s a = Some n" and ok: "nominator_ok a n"
    and x: "bt_get (nr_nominations n) c = Some x"
    and n': "nr_id n' = nr_id n" "nr_nominations n' = bt_remove c (nr_nominations n)"
      "nr_total n' = nr_total n - x"
      "\<And>d q. bt_get (requests (nr_requests n')) d = Some q \<Longrightarrow>
        bt_get (requests (nr_requests n)) d = Some q \<and> d \<noteq> c"
    and s': "NominatorState s' =
      (NominatorState s)(a := if length (nr_nominations n) = 1 then None else Some n')"
  shows "nom_amt s' b d = (if b = a \<and> d = c then None else nom_amt s b d)"
    "NominatorState s' a = Some n2 \<Longrightarrow> nominator_ok a n2"
    "nominated s' b = (if b = a then nominated s a - x else nominated s b)"
    "x \<le> nominated s a"
proof -
  have wf: "bt_wf (nr_nominations n)" using ok by (simp add: nominator_ok_def)
  note nil = bt_remove_Nil [OF wf x]
  have one: "bt_get (nr_nominations n) d = None" if "length (nr_nominations n) = 1" "d \<noteq> c" for d
  proof -
    have "bt_get (bt_remove c (nr_nominations n)) d = None" using that(1) nil by simp
    then show ?thesis using that(2) by simp
  qed
  show "nom_amt s' b d = (if b = a \<and> d = c then None else nom_amt s b d)"
    using n one n'(2) by (auto simp: nom_amt_def s')
  show "NominatorState s' a = Some n2 \<Longrightarrow> nominator_ok a n2"
    using nominator_rm_ok(1) [OF ok x _ n'] by (auto simp: s' split: if_splits)
  show "nominated s' b = (if b = a then nominated s a - x else nominated s b)"
    using total_of_remove [OF wf x] nil n n'(2) by (auto simp: nominated_def s')
  show "x \<le> nominated s a" using total_of_get [OF x] n by (simp add: nominated_def)
qed

lemma covers_drop:
  assumes "env_ok C bk" "\<And>b. nominated s' b = (if b = a then nominated s a - x else nominated s b)"
    "x \<le> nominated s a" "y \<le> x" "world s' = unreserve C a y (world s)"
  shows "covers bk s s'"
  unfolding covers_def using assms(2-4) env_okD(3) [OF assms(1)] by (auto simp: assms(5))

text \<open>A record keeps its nominations.\<close>

lemma same_nominations:
  assumes inv: "staking_inv C bk r s" and n: "NominatorState s a = Some n" "nominator_ok a n'"
      "nr_nominations n' = nr_nominations n"
    and s': "s' = deposit_event e (put_nominator a n' s)"
  shows "staking_inv C bk r s'"
proof -
  have f: "nom_amt s' b c = nom_amt s b c" "bonds s' c = bonds s c" "owed s' b = owed s b" for b c
    using n(1,3) self_bonded_cong [of s' s b]
    by (simp_all add: s' put_nominator_def nom_amt_def bonds_def owed_def nominated_def)
  have "cand_inv C s' c" for c
    using cand_inv_cong [of s' c s C] staking_invD(4) [OF inv] by (simp add: s' put_nominator_def)
  moreover have "link_inv s' c" for c using f staking_invD(5) [OF inv] by (simp add: link_inv_def)
  ultimately show ?thesis
    using inv f n(2) by (auto simp: staking_inv_defs s' put_nominator_def Let_def)
qed

lemma request_new:
  assumes "nominator_ok a n" "request_ok (nr_nominations n) v q"
    "p = (nr_requests n)\<lparr>requests := bt_insert v q (requests (nr_requests n)), less_total := t\<rparr>
     \<or> p = (nr_requests n)\<lparr>requests := bt_insert v q (requests (nr_requests n)),
         revocations_count := k, less_total := t\<rparr>"
  shows "nominator_ok a (n\<lparr>nr_requests := p\<rparr>)"
  using assms by (auto simp: nominator_ok_def split: if_splits)

lemma schedule_revoke_keeps:
  assumes inv: "staking_inv C bk (now_round s) s" and d: "schedule_revoke_nomination C og v s = Done u s'"
  shows "staking_inv C bk (now_round s) s'" "now_round s' = now_round s"
proof -
  obtain a n x p e where n: "NominatorState s a = Some n" "bt_get (nr_nominations n) v = Some x"
    and p: "pr_revoke v x (add32 (now_round s) (RevokeNominationDelay C)) (nr_requests n) = Inr p"
    and s': "s' = deposit_event e (put_nominator a (n\<lparr>nr_requests := p\<rparr>) s)"
    using d by (auto simp: schedule_revoke_nomination_def nr_schedule_revoke_def call_Done Let_def
        split: if_splits option.splits sum.splits)
  have "nominator_ok a (n\<lparr>nr_requests := p\<rparr>)"
    by (rule request_new [OF staking_invD(6) [OF inv n(1)]])
      (use p n(2) in \<open>auto simp: pr_revoke_def request_ok_def split: if_splits\<close>)
  then show "staking_inv C bk (now_round s) s'" using same_nominations [OF inv n(1) _ _ s'] by simp
  show "now_round s' = now_round s" by (simp add: s' put_nominator_def)
qed

lemma schedule_less_keeps:
  assumes inv: "staking_inv C bk (now_round s) s"
    and d: "schedule_nominator_bond_less C og v ls s = Done u s'"
  shows "staking_inv C bk (now_round s) s'" "now_round s' = now_round s"
proof -
  obtain a n x p e where n: "NominatorState s a = Some n" "bt_get (nr_nominations n) v = Some x" "ls < x"
    and p: "pr_bond_less v ls (add32 (now_round s) (NominationBondLessDelay C)) (nr_requests n) = Inr p"
    and s': "s' = deposit_event e (put_nominator a (n\<lparr>nr_requests := p\<rparr>) s)"
    using d by (auto simp: schedule_nominator_bond_less_def nr_schedule_decrease_nomination_def call_Done
        Let_def split: if_splits option.splits sum.splits)
  have "nominator_ok a (n\<lparr>nr_requests := p\<rparr>)"
    by (rule request_new [OF staking_invD(6) [OF inv n(1)]])
      (use p n(2,3) in \<open>auto simp: pr_bond_less_def request_ok_def split: if_splits\<close>)
  then show "staking_inv C bk (now_round s) s'" using same_nominations [OF inv n(1) _ _ s'] by simp
  show "now_round s' = now_round s" by (simp add: s' put_nominator_def)
qed

lemma cancel_request_keeps:
  assumes inv: "staking_inv C bk (now_round s) s" and d: "cancel_nomination_request og c s = Done u s'"
  shows "staking_inv C bk (now_round s) s'" "now_round s' = now_round s"
proof -
  obtain a n n1 q where n: "NominatorState s a = Some n"
    and n1: "nr_cancel_pending_request c n = Inr (n1, q)"
    and s': "s' = deposit_event (CancelledNominationRequest a q) (put_nominator a n1 s)"
    using d by (auto simp: cancel_nomination_request_def call_Done split: sum.splits prod.splits)
  have "nr_nominations n1 = nr_nominations n" "nominator_ok a n1"
    using n1 staking_invD(6) [OF inv n]
    by (auto simp: nr_cancel_pending_request_def nominator_ok_def Let_def split: option.splits if_splits
        NominationChange.splits)
  then show "staking_inv C bk (now_round s) s'" using same_nominations [OF inv n _ _ s'] by simp
  show "now_round s' = now_round s" by (simp add: s' put_nominator_def)
qed

lemma nominator_status_keeps:
  assumes inv: "staking_inv C bk (now_round s) s"
  shows "set_nominator_reward_dst og x s = Done u s' \<Longrightarrow>
      staking_inv C bk (now_round s) s' \<and> now_round s' = now_round s"
    "schedule_leave_nominators C og s = Done u s' \<Longrightarrow>
      staking_inv C bk (now_round s) s' \<and> now_round s' = now_round s"
    "cancel_leave_nominators og s = Done u s' \<Longrightarrow>
      staking_inv C bk (now_round s) s' \<and> now_round s' = now_round s"
proof -
  have keep: "staking_inv C bk (now_round s) (deposit_event e (put_nominator a n' s))"
    if "NominatorState s a = Some n" "nr_nominations n' = nr_nominations n" "nr_id n' = nr_id n"
      "nr_total n' = nr_total n" "nr_requests n' = nr_requests n" for e a n n'
  proof -
    have "nominator_ok a n'" using that staking_invD(6) [OF inv that(1)] by (simp add: nominator_ok_def)
    then show ?thesis using same_nominations [OF inv that(1) _ that(2) refl] by simp
  qed
  have rnd: "Round (put_nominator a n' s) = Round s" for a n' by (simp add: put_nominator_def)
  show "set_nominator_reward_dst og x s = Done u s' \<Longrightarrow>
      staking_inv C bk (now_round s) s' \<and> now_round s' = now_round s"
    using keep rnd by (auto simp: set_nominator_reward_dst_def call_Done split: if_splits)
  show "schedule_leave_nominators C og s = Done u s' \<Longrightarrow>
      staking_inv C bk (now_round s) s' \<and> now_round s' = now_round s"
    using keep rnd by (auto simp: schedule_leave_nominators_def nr_schedule_leave_def call_Done Let_def
        split: if_splits)
  show "cancel_leave_nominators og s = Done u s' \<Longrightarrow>
      staking_inv C bk (now_round s) s' \<and> now_round s' = now_round s"
    using keep rnd by (auto simp: cancel_leave_nominators_def nr_cancel_leave_def call_Done split: if_splits)
qed

subsection \<open>More and less\<close>

lemma list_opE:
  assumes "list_op C c m s r B"
  obtains x m' s' where "r = Done (x, m') s'" "cand_ok C c m' s'" "bonds s' c = B"
    "list_frame c s s'" "meta_frame m m'"
  using assms by (auto simp: list_op_def)

lemma inv_bond:
  assumes "staking_inv C bk r s" "NominatorState s a = Some n" "bt_get (nr_nominations n) c = Some x"
  shows "\<lparr>owner = a, amount = x\<rparr> \<in># bonds s c" "nom_amt s a c = Some x" "\<exists>m. cand s c = Some m"
proof -
  show amt: "nom_amt s a c = Some x" using assms(2,3) by (simp add: nom_amt_def)
  then show "\<lparr>owner = a, amount = x\<rparr> \<in># bonds s c"
    using staking_invD(5) [OF assms(1), of c] by (simp add: link_inv_def)
  show "\<exists>m. cand s c = Some m" using inv_not_cand(2) [OF assms(1), of c a] amt by (cases "cand s c") auto
qed

lemma nominated_get:
  "NominatorState s a = Some n \<Longrightarrow> nominated s a = total_of (nr_nominations n)"
  by (simp add: nominated_def)

text \<open>The nomination of \<open>c\<close> by \<open>a\<close> becomes \<open>y\<close>, in the record and in the candidate's list.\<close>

lemma changed_nomination:
  assumes env: "env_ok C bk" and inv: "staking_inv C bk r s" and c: "cand s c = Some m"
    and n: "NominatorState s a = Some n" "bt_get (nr_nominations n) c = Some x"
    and op: "cand_ok C c m' s1" "list_frame c s0 s1" "meta_frame m m'"
      "bonds s1 c = add_mset \<lparr>owner = a, amount = y\<rparr> (bonds s c - {#\<lparr>owner = a, amount = x\<rparr>#})"
    and s0: "TopNominations s0 = TopNominations s" "BottomNominations s0 = BottomNominations s"
      "CandidatePool s0 = CandidatePool s"
    and n': "nominator_ok a n'" "nr_nominations n' = bt_insert c y (nr_nominations n)"
    and s': "CandidateInfo s' = bt_insert c m' (CandidateInfo s)" "TopNominations s' = TopNominations s1"
      "BottomNominations s' = BottomNominations s1" "CandidatePool s' = CandidatePool s1"
      "BondedStash s' = BondedStash s" "DelayedControllerSets s' = DelayedControllerSets s"
      "NominatorState s' = (NominatorState s)(a \<mapsto> n')"
    and bks: "\<And>b. b \<noteq> a \<Longrightarrow> bk b (world s') = bk b (world s)"
      "bk a (world s) + y \<le> bk a (world s') + x"
  shows "staking_inv C bk r s'"
proof (rule staking_inv_list [OF inv c op(1-3) s0 s'(1-6)])
  have na: "nom_amt s' b d = (if b = a \<and> d = c then Some y else nom_amt s b d)" for b d
    using n(1) n'(2) by (simp add: nom_amt_def s')
  then show "nom_amt s' b d = nom_amt s b d" if "d \<noteq> c" for b d using that by simp
  show "nom_amt s' b c = Some z \<longleftrightarrow> \<lparr>owner = b, amount = z\<rparr> \<in># bonds s1 c" for b z
    by (rule link_set [OF staking_invD(5) [OF inv] inv_cand(1) [OF inv c] _ _ op(4)])
      (use n na in \<open>simp_all add: nom_amt_def\<close>)
  show "nominator_ok b k" if "NominatorState s' b = Some k" for b k
    using that staking_invD(6) [OF inv, of b] n'(1) by (auto simp: s' split: if_splits)
  have "bt_wf (nr_nominations n)" using staking_invD(6) [OF inv n(1)] by (simp add: nominator_ok_def)
  from total_of_insert [OF this, of c y] total_of_remove [OF this n(2)]
  have "nominated s' a + x = nominated s a + y" using n(1) n'(2) by (simp add: nominated_def s')
  moreover have "nominated s' b = nominated s b" if "b \<noteq> a" for b using that by (simp add: nominated_def s')
  ultimately show "nominated s' b + self_bonded s b \<le> bk b (world s')" for b
    using staking_invD(7) [OF inv, of b] bks(1) [of b] bks(2) by (cases "b = a") (auto simp: owed_def)
qed

lemma increase_keeps:
  assumes env: "env_ok C bk" and inv: "staking_inv C bk r s" and n: "NominatorState s a = Some n"
    and n2: "nr_nominations n2 = nr_nominations n" "nr_id n2 = nr_id n" "nr_total n2 = nr_total n"
      "nr_requests n2 = nr_requests n"
    and inc: "nr_increase_nomination C c x n2 s = Done n1 s'"
  shows "staking_inv C bk r s'" "Round s' = Round s" "NominatorState s' a = Some n1"
    "\<exists>before m. bt_get (nr_nominations n) c = Some before \<and> cand s c = Some m \<and>
       nr_nominations n1 = bt_insert c (before + x) (nr_nominations n) \<and> nr_total n1 = nr_total n + x"
proof -
  have ok: "nominator_ok a n" by (rule staking_invD(6) [OF inv n])
  obtain before m w it v1 s2 where bf: "bt_get (nr_nominations n) c = Some before"
    and m: "cand s c = Some m" and w: "reserve C a x (world s) = Some w"
    and ci: "cm_increase_nomination C c a before x m (s\<lparr>world := w\<rparr>) = Done (it, v1) s2"
    and n1: "n1 = n2\<lparr>nr_nominations := bt_insert c (add128 before x) (nr_nominations n),
        nr_total := add128 (nr_total n) x\<rparr>"
    and s': "s' = deposit_event (NominationIncreased a c x it)
      (put_nominator a n1 (put_candidate c v1 ((update_active c (voting_power v1) s2)
        \<lparr>Total := sat_add128 (Total (update_active c (voting_power v1) s2)) x\<rparr>)))"
    using inc ok n2 by (auto simp: nr_increase_nomination_def call_Done cur_reserve_Done nominator_ok_def
        Let_def split: option.splits prod.splits)
  have tot: "nr_total n = total_of (nr_nominations n)" using ok by (simp add: nominator_ok_def)
  have "total_of (nr_nominations n) + x < M128"
    using staking_invD(7) [OF inv, of a] env_okD(2) [OF env w, of a] env_okD(1) [OF env, of a w]
      nominated_get [OF n] by (simp add: owed_def)
  moreover have "before \<le> total_of (nr_nominations n)" by (rule total_of_get [OF bf])
  ultimately have nowrap: "before + x < M128" "nr_total n + x < M128" using tot by simp_all
  let ?b = "\<lparr>owner = a, amount = before\<rparr>"
  have b: "?b \<in># bonds s c" by (rule inv_bond(1) [OF inv n bf])
  let ?sw = "s\<lparr>world := w\<rparr>"
  have "cand_ok C c m ?sw" "bonds ?sw c = bonds s c"
    using inv_cand(1) [OF inv m] by (simp_all add: cand_ok_def bonds_def)
  from increase_nomination_ok [OF env_okD(4) [OF env] this(1), of ?b x] b nowrap this(2)
  obtain y m' t where "cm_increase_nomination C c a before x m ?sw = Done (y, m') t"
    "cand_ok C c m' t" "bonds t c = add_mset \<lparr>owner = a, amount = before + x\<rparr> (bonds s c - {#?b#})"
    "list_frame c ?sw t" "meta_frame m m'"
    by (auto simp: sat_add128_id elim!: list_opE)
  then have op: "cand_ok C c v1 s2" "bonds s2 c = add_mset \<lparr>owner = a, amount = before + x\<rparr> (bonds s c - {#?b#})"
    "list_frame c ?sw s2" "meta_frame m v1" using ci by simp_all
  note lf = list_frame_fields [OF op(3)]
  have same: "update_active c (voting_power v1) s2 = s2"
    using update_active_same [OF op(1)] lf(3) staking_invD(2) [OF inv] by (simp add: pool_frame_def)
  have n1': "nr_nominations n1 = bt_insert c (before + x) (nr_nominations n)" "nr_total n1 = nr_total n + x"
    "nr_id n1 = nr_id n" "nr_requests n1 = nr_requests n"
    using nowrap n2 by (simp_all add: n1 add128_id)
  have "0 < before" using ok bf by (auto simp: nominator_ok_def intro: all_pos_get)
  have n1ok: "nominator_ok a n1"
    by (rule nominator_set_ok(1) [OF ok bf _ n1'(3,1)])
      (use n1' \<open>0 < before\<close> tot total_of_get [OF bf] in auto)
  show "staking_inv C bk r s'"
    by (rule changed_nomination [OF env inv m n bf op(1,3,4,2) _ _ _ n1ok n1'(1)])
      (use lf env_okD(2) [OF env w] in \<open>simp_all add: s' same put_candidate_def put_nominator_def\<close>)
  show "Round s' = Round s" "NominatorState s' a = Some n1"
    using lf by (simp_all add: s' same put_candidate_def put_nominator_def)
  show "\<exists>before m. bt_get (nr_nominations n) c = Some before \<and> cand s c = Some m \<and>
       nr_nominations n1 = bt_insert c (before + x) (nr_nominations n) \<and> nr_total n1 = nr_total n + x"
    using bf m n1' by simp
qed

lemma nominator_bond_more_keeps:
  assumes env: "env_ok C bk" and inv: "staking_inv C bk (now_round s) s"
    and d: "nominator_bond_more C og c x s = Done u s'"
  shows "staking_inv C bk (now_round s) s'" "now_round s' = now_round s"
proof -
  obtain a n n1 where n: "NominatorState s a = Some n" "nr_increase_nomination C c x n s = Done n1 s'"
    using d by (auto simp: nominator_bond_more_def call_Done)
  show "staking_inv C bk (now_round s) s'" by (rule increase_keeps(1) [OF env inv n(1) _ _ _ _ n(2)]) simp_all
  show "now_round s' = now_round s" using increase_keeps(2) [OF env inv n(1) _ _ _ _ n(2)] by simp
qed

text \<open>\<open>n0\<close> is the stored record, \<open>n\<close> the one without the request that is being executed.\<close>

lemma execute_decrease_keeps:
  assumes env: "env_ok C bk" and inv: "staking_inv C bk r s" and n0: "NominatorState s a = Some n0"
    and q: "bt_get (requests (nr_requests n0)) c = Some q" "nq_action q = Decrease"
    and n: "n = n0\<lparr>nr_requests := (nr_requests n0)\<lparr>requests := bt_remove c (requests (nr_requests n0))\<rparr>\<rparr>"
    and d: "nr_execute_decrease C c (nq_amount q) n s = Done u s'"
  shows "staking_inv C bk r s'" "Round s' = Round s"
proof -
  have ok: "nominator_ok a n0" by (rule staking_invD(6) [OF inv n0])
  let ?x = "nq_amount q"
  have "request_ok (nr_nominations n0) c q" using ok q(1) by (simp add: nominator_ok_def)
  then obtain before where bf: "bt_get (nr_nominations n0) c = Some before" and lt: "?x < before"
    using q(2) by (auto simp: request_ok_def split: option.splits)
  define n2 where "n2 = n\<lparr>nr_requests := (nr_requests n)\<lparr>less_total := less_total (nr_requests n) - ?x\<rparr>,
    nr_nominations := bt_insert c (before - ?x) (nr_nominations n), nr_total := nr_total n - ?x\<rparr>"
  let ?su = "cur_unreserve C a ?x s"
  obtain m it v1 s1 where m: "cand s c = Some m"
    and cd: "cm_decrease_nomination C c a before ?x m ?su = Done (it, v1) s1"
    and s': "s' = deposit_event (NominationDecreased a c ?x it)
      (put_nominator a n2 ((put_candidate c v1 s1)\<lparr>Total := Total (put_candidate c v1 s1) - ?x\<rparr>))"
    using d ok bf lt by (auto simp: nr_execute_decrease_def call_Done nominator_ok_def n n2_def Let_def
        cur_unreserve_def split: option.splits if_splits prod.splits)
  let ?b = "\<lparr>owner = a, amount = before\<rparr>"
  have b: "?b \<in># bonds s c" by (rule inv_bond(1) [OF inv n0 bf])
  have "cand_ok C c m ?su" "bonds ?su c = bonds s c"
    using inv_cand(1) [OF inv m] by (simp_all add: cand_ok_def bonds_def cur_unreserve_def)
  from decrease_nomination_ok [OF env_okD(4) [OF env] this(1), of ?b ?x] b this(2)
  obtain y m' t where "cm_decrease_nomination C c a before ?x m ?su = Done (y, m') t"
    "cand_ok C c m' t" "bonds t c = add_mset \<lparr>owner = a, amount = before - ?x\<rparr> (bonds s c - {#?b#})"
    "list_frame c ?su t" "meta_frame m m'" by (auto elim!: list_opE)
  then have op: "cand_ok C c v1 s1" "bonds s1 c = add_mset \<lparr>owner = a, amount = before - ?x\<rparr> (bonds s c - {#?b#})"
    "list_frame c ?su s1" "meta_frame m v1" using cd by simp_all
  note lf = list_frame_fields [OF op(3)]
  have n2f: "nr_nominations n2 = bt_insert c (before - ?x) (nr_nominations n0)"
    "nr_total n2 = nr_total n0 - before + (before - ?x)" "nr_id n2 = nr_id n0"
    "bt_get (requests (nr_requests n2)) e = Some k \<Longrightarrow> bt_get (requests (nr_requests n0)) e = Some k \<and> e \<noteq> c" for e k
    using lt ok total_of_get [OF bf] by (auto simp: n2_def n nominator_ok_def split: if_splits)
  have n2ok: "nominator_ok a n2"
    by (rule nominator_set_ok(1) [OF ok bf _ n2f(3,1,2)]) (use lt n2f(4) in auto)
  have "before \<le> bk a (world s)"
    using staking_invD(7) [OF inv, of a] total_of_get [OF bf] nominated_get [OF n0] by (simp add: owed_def)
  then show "staking_inv C bk r s'"
    by (intro changed_nomination [OF env inv m n0 bf op(1,3,4,2) _ _ _ n2ok n2f(1)])
      (use lf lt env_okD(3) [OF env, of _ a ?x "world s"] in
        \<open>simp_all add: s' put_candidate_def put_nominator_def cur_unreserve_def\<close>)
  show "Round s' = Round s" using lf by (simp add: s' put_candidate_def put_nominator_def cur_unreserve_def)
qed

subsection \<open>Leaving a candidate\<close>

text \<open>The nomination of \<open>c\<close> by \<open>a\<close> disappears from the record and from the candidate's list.\<close>

lemma removed_nomination:
  assumes inv: "staking_inv C bk r s" and c: "cand s c = Some m"
    and x: "nom_amt s a c = Some x"
    and op: "cand_ok C c m' s1" "list_frame c s0 s1" "meta_frame m m'"
      "bonds s1 c = bonds s c - {#\<lparr>owner = a, amount = x\<rparr>#}"
    and s0: "TopNominations s0 = TopNominations s" "BottomNominations s0 = BottomNominations s"
      "CandidatePool s0 = CandidatePool s"
    and s': "CandidateInfo s' = bt_insert c m' (CandidateInfo s)" "TopNominations s' = TopNominations s1"
      "BottomNominations s' = BottomNominations s1" "CandidatePool s' = CandidatePool s1"
      "BondedStash s' = BondedStash s" "DelayedControllerSets s' = DelayedControllerSets s"
    and na: "\<And>b d. nom_amt s' b d = (if b = a \<and> d = c then None else nom_amt s b d)"
    and nok: "\<And>n. NominatorState s' a = Some n \<Longrightarrow> nominator_ok a n"
      "\<And>b. b \<noteq> a \<Longrightarrow> NominatorState s' b = NominatorState s b"
    and cov: "covers bk s s'"
  shows "staking_inv C bk r s'"
proof (rule staking_inv_list [OF inv c op(1-3) s0 s'(1-6)])
  show "nom_amt s' b c = Some z \<longleftrightarrow> \<lparr>owner = b, amount = z\<rparr> \<in># bonds s1 c" for b z
    by (rule link_rm [OF staking_invD(5) [OF inv] inv_cand(1) [OF inv c] x _ op(4)]) (simp add: na)
  show "nominator_ok b k" if "NominatorState s' b = Some k" for b k
    using that nok staking_invD(6) [OF inv, of b] by (cases "b = a") auto
qed (use na covers_owed [OF cov inv] in auto)

lemma leaves_shape:
  assumes cfg: "cfg_ok C" and ok: "cand_ok C c m s" and c: "cand s c = Some m"
    and b: "\<lparr>owner = a, amount = x\<rparr> \<in># bonds s c"
  shows "nominator_leaves_candidate C c a y s = Fail (StakingError NominationDNE) s \<or>
    (\<exists>m' s1 s'. nominator_leaves_candidate C c a y s = Done () s' \<and> cand_ok C c m' s1 \<and>
       list_frame c s s1 \<and> meta_frame m m' \<and> bonds s1 c = bonds s c - {#\<lparr>owner = a, amount = x\<rparr>#} \<and>
       s' = deposit_event (NominatorLeftCandidate a c y (voting_power m'))
         (put_candidate c m' ((cur_unreserve C a y s1)\<lparr>Total := Total s1 - y\<rparr>)))"
    "y = x \<Longrightarrow> \<exists>s'. nominator_leaves_candidate C c a y s = Done () s'"
proof -
  let ?b = "\<lparr>owner = a, amount = x\<rparr>"
  have nlc: "nominator_leaves_candidate C c a y s = Done () (deposit_event
      (NominatorLeftCandidate a c y (voting_power m'))
      (put_candidate c m' ((cur_unreserve C a y s1)\<lparr>Total := Total s1 - y\<rparr>)))"
    if "rm_nomination_if_exists C c a y m s = Done (i, m') s1" for i m' s1
    using that c by (simp add: nominator_leaves_candidate_def cur_unreserve_def Let_def)
  from rm_nomination_any [OF cfg ok b, of y] show "nominator_leaves_candidate C c a y s = Fail (StakingError NominationDNE) s \<or>
    (\<exists>m' s1 s'. nominator_leaves_candidate C c a y s = Done () s' \<and> cand_ok C c m' s1 \<and>
       list_frame c s s1 \<and> meta_frame m m' \<and> bonds s1 c = bonds s c - {#?b#} \<and>
       s' = deposit_event (NominatorLeftCandidate a c y (voting_power m'))
         (put_candidate c m' ((cur_unreserve C a y s1)\<lparr>Total := Total s1 - y\<rparr>)))"
  proof
    assume "list_op C c m s (rm_nomination_if_exists C c (owner ?b) y m s) (bonds s c - {#?b#})"
    then obtain i m' s1 where "rm_nomination_if_exists C c a y m s = Done (i, m') s1" "cand_ok C c m' s1"
      "bonds s1 c = bonds s c - {#?b#}" "list_frame c s s1" "meta_frame m m'" by (auto elim!: list_opE)
    with nlc show ?thesis by blast
  qed (use c in \<open>simp add: nominator_leaves_candidate_def\<close>)
  show "\<exists>s'. nominator_leaves_candidate C c a y s = Done () s'" if "y = x"
    using rm_nomination_ok [OF cfg ok b] nlc that by (auto elim!: list_opE)
qed

lemma execute_revoke_keeps:
  assumes env: "env_ok C bk" and inv: "staking_inv C bk r s" and n0: "NominatorState s a = Some n0"
    and q: "bt_get (requests (nr_requests n0)) c = Some q"
    and n: "n = n0\<lparr>nr_requests := (nr_requests n0)\<lparr>requests := bt_remove c (requests (nr_requests n0))\<rparr>\<rparr>"
    and d: "nr_execute_revoke C c (nq_amount q) n s = Done u s'"
  shows "staking_inv C bk r s'" "Round s' = Round s"
proof -
  have ok: "nominator_ok a n0" by (rule staking_invD(6) [OF inv n0])
  let ?y = "nq_amount q"
  have "request_ok (nr_nominations n0) c q" using ok q(1) by (simp add: nominator_ok_def)
  then obtain x where x: "bt_get (nr_nominations n0) c = Some x" and le: "?y \<le> x"
    by (auto simp: request_ok_def split: option.splits)
  define n2 where "n2 = fst (nr_rm_nomination c (n\<lparr>nr_requests := (nr_requests n)
    \<lparr>less_total := less_total (nr_requests n) - ?y,
     revocations_count := revocations_count (nr_requests n) - 1\<rparr>\<rparr>))"
  obtain m where m: "cand s c = Some m" using inv_bond(3) [OF inv n0 x] by blast
  note b = inv_bond(1,2) [OF inv n0 x]
  obtain s2 where nl: "nominator_leaves_candidate C c a ?y s = Done () s2"
    and s': "s' = (let s3 = deposit_event (NominationRevoked a c ?y) s2
      in if length (nr_nominations n0) = 1
         then deposit_event (NominatorLeft a ?y) (del_nominator a s3) else put_nominator a n2 s3)"
    using d ok by (auto simp: nr_execute_revoke_def call_Done nominator_ok_def n n2_def Let_def
        split: if_splits)
  obtain m' s1 where op: "cand_ok C c m' s1" "list_frame c s s1" "meta_frame m m'"
      "bonds s1 c = bonds s c - {#\<lparr>owner = a, amount = x\<rparr>#}"
    and s2: "s2 = deposit_event (NominatorLeftCandidate a c ?y (voting_power m'))
         (put_candidate c m' ((cur_unreserve C a ?y s1)\<lparr>Total := Total s1 - ?y\<rparr>))"
    using leaves_shape(1) [OF env_okD(4) [OF env] inv_cand(1) [OF inv m] m b(1), of ?y] nl by auto
  note lf = list_frame_fields [OF op(2)]
  have n2f: "nr_id n2 = nr_id n0" "nr_nominations n2 = bt_remove c (nr_nominations n0)"
    "nr_total n2 = nr_total n0 - x"
    "bt_get (requests (nr_requests n2)) e = Some k \<Longrightarrow>
      bt_get (requests (nr_requests n0)) e = Some k \<and> e \<noteq> c" for e k
    using x by (auto simp: n2_def n nr_rm_nomination_def Let_def split: if_splits)
  have st: "NominatorState s' = (NominatorState s)(a := if length (nr_nominations n0) = 1 then None else Some n2)"
    using lf by (simp add: s' s2 put_nominator_def del_nominator_def put_candidate_def cur_unreserve_def Let_def)
  note dn = drop_nomination [OF n0 ok x n2f st]
  have w: "world s' = unreserve C a ?y (world s)"
    using lf by (simp add: s' s2 put_nominator_def del_nominator_def put_candidate_def cur_unreserve_def Let_def)
  have cov: "covers bk s s'" by (rule covers_drop [OF env dn(3,4) le w])
  show "staking_inv C bk r s'"
    by (rule removed_nomination [OF inv m b(2) op _ _ _ _ _ _ _ _ _ dn(1) dn(2) _ cov])
      (use lf st in \<open>simp_all add: s' s2 put_nominator_def del_nominator_def put_candidate_def
        cur_unreserve_def Let_def\<close>)
  show "Round s' = Round s"
    using lf by (simp add: s' s2 put_nominator_def del_nominator_def put_candidate_def cur_unreserve_def Let_def)
qed

lemma execute_request_keeps:
  assumes env: "env_ok C bk" and inv: "staking_inv C bk (now_round s) s"
    and d: "execute_nomination_request C og c s = Done u s'"
  shows "staking_inv C bk (now_round s) s'" "now_round s' = now_round s"
proof -
  obtain a n0 q where n0: "NominatorState s a = Some n0" and q: "bt_get (requests (nr_requests n0)) c = Some q"
    and e: "(case nq_action q of
         Revoke \<Rightarrow> nr_execute_revoke C c (nq_amount q)
           (n0\<lparr>nr_requests := (nr_requests n0)\<lparr>requests := bt_remove c (requests (nr_requests n0))\<rparr>\<rparr>) s
       | Decrease \<Rightarrow> nr_execute_decrease C c (nq_amount q)
           (n0\<lparr>nr_requests := (nr_requests n0)\<lparr>requests := bt_remove c (requests (nr_requests n0))\<rparr>\<rparr>) s)
      = Done u s'"
    using d by (auto simp: execute_nomination_request_def nr_execute_pending_request_def call_Done Let_def
        split: option.splits if_splits)
  show "staking_inv C bk (now_round s) s'" "now_round s' = now_round s"
    using e execute_revoke_keeps [OF env inv n0 q refl] execute_decrease_keeps [OF env inv n0 q _ refl]
    by (cases "nq_action q"; auto)+
qed

subsection \<open>Leaving all candidates\<close>

text \<open>
  \<open>execute_leave_nominators\<close> empties the lists first and deletes the record at the end. In between the
  state satisfies the invariant with the record cut down to the nominations that are left.
\<close>

definition cut_record :: "acct \<Rightarrow> Nominator \<Rightarrow> (acct, balance) btmap \<Rightarrow> 'w staking \<Rightarrow> 'w staking" where
  "cut_record a n ns s = s\<lparr>NominatorState := (NominatorState s)
     (a := if ns = [] then None
           else Some (n\<lparr>nr_nominations := ns, nr_total := total_of ns,
             nr_requests := PendingNominationRequests_new\<rparr>))\<rparr>"

lemma cut_record_fields [simp]:
  "CandidateInfo (cut_record a n ns s) = CandidateInfo s"
  "TopNominations (cut_record a n ns s) = TopNominations s"
  "BottomNominations (cut_record a n ns s) = BottomNominations s"
  "CandidatePool (cut_record a n ns s) = CandidatePool s"
  "BondedStash (cut_record a n ns s) = BondedStash s"
  "DelayedControllerSets (cut_record a n ns s) = DelayedControllerSets s"
  "world (cut_record a n ns s) = world s" "Round (cut_record a n ns s) = Round s"
  by (simp_all add: cut_record_def)

lemma leave_all_keeps:
  assumes env: "env_ok C bk"
  shows "staking_inv C bk r (cut_record a n ns s) \<Longrightarrow>
    \<exists>s'. leave_all_candidates C a ns s = Done () s' \<and> staking_inv C bk r (cut_record a n [] s') \<and>
      Round s' = Round s"
proof (induction ns arbitrary: s)
  case (Cons e ns)
  obtain c x where e: "e = (c, x)" by (cases e)
  let ?v = "cut_record a n ((c, x) # ns) s" and ?w = "\<lambda>s'. cut_record a n ns s'"
  have inv: "staking_inv C bk r ?v" using Cons.prems by (simp add: e)
  let ?n = "n\<lparr>nr_nominations := (c, x) # ns, nr_total := total_of ((c, x) # ns),
             nr_requests := PendingNominationRequests_new\<rparr>"
  let ?n' = "n\<lparr>nr_nominations := ns, nr_total := total_of ns,
             nr_requests := PendingNominationRequests_new\<rparr>"
  have n: "NominatorState ?v a = Some ?n" by (simp add: cut_record_def)
  note ok = staking_invD(6) [OF inv n]
  have x: "bt_get (nr_nominations ?n) c = Some x" by simp
  obtain m where m: "cand s c = Some m" using inv_bond(3) [OF inv n x] by auto
  then have mv: "cand ?v c = Some m" by simp
  note b = inv_bond(1,2) [OF inv n x]
  have ok': "cand_ok C c m s" "bonds s c = bonds ?v c"
    using inv_cand(1) [OF inv mv] by (simp_all add: cand_ok_def bonds_def)
  from leaves_shape(2) [OF env_okD(4) [OF env] ok'(1) m, of a x x] leaves_shape(1) [OF env_okD(4) [OF env] ok'(1) m, of a x x]
  obtain m' s1 s2 where nl: "nominator_leaves_candidate C c a x s = Done () s2"
    and op: "cand_ok C c m' s1" "list_frame c s s1" "meta_frame m m'"
      "bonds s1 c = bonds ?v c - {#\<lparr>owner = a, amount = x\<rparr>#}"
    and s2: "s2 = deposit_event (NominatorLeftCandidate a c x (voting_power m'))
         (put_candidate c m' ((cur_unreserve C a x s1)\<lparr>Total := Total s1 - x\<rparr>))"
    using b(1) ok'(2) by auto
  note lf = list_frame_fields [OF op(2)]
  have s2f: "NominatorState s2 = NominatorState s" "world s2 = unreserve C a x (world s)" "Round s2 = Round s"
    using lf by (simp_all add: s2 put_candidate_def cur_unreserve_def)
  have wf: "bt_wf ((c, x) # ns)" using ok by (simp add: nominator_ok_def)
  have rm: "bt_remove c ((c, x) # ns) = ns"
    using wf by (force simp: bt_remove_def intro!: filter_True)
  have st: "NominatorState (?w s2) = (NominatorState ?v)(a := if length (nr_nominations ?n) = 1 then None else Some ?n')"
    by (simp add: cut_record_def s2f)
  note dn = drop_nomination [OF n ok x _ _ _ _ st]
  have "staking_inv C bk r (?w s2)"
  proof (rule removed_nomination [OF inv mv b(2) op])
    show na: "nom_amt (?w s2) b d = (if b = a \<and> d = c then None else nom_amt ?v b d)" for b d
      by (rule dn(1)) (use rm in \<open>simp_all add: PendingNominationRequests_new_def\<close>)
    show "nominator_ok a k" if "NominatorState (?w s2) a = Some k" for k
      by (rule dn(2) [OF _ _ _ _ that]) (use rm in \<open>simp_all add: PendingNominationRequests_new_def\<close>)
    show "covers bk ?v (?w s2)"
    proof (rule covers_drop [OF env, where x = x and y = x and a = a])
      show "nominated (?w s2) b = (if b = a then nominated ?v a - x else nominated ?v b)" for b
        by (rule dn(3)) (use rm in \<open>simp_all add: PendingNominationRequests_new_def\<close>)
      show "x \<le> nominated ?v a"
        by (rule dn(4)) (use rm in \<open>simp_all add: PendingNominationRequests_new_def\<close>)
    qed (simp_all add: s2f)
    show "NominatorState (?w s2) b = NominatorState ?v b" if "b \<noteq> a" for b
      using that by (simp add: cut_record_def s2f)
  qed (use lf in \<open>simp_all add: s2 put_candidate_def cur_unreserve_def\<close>)
  from Cons.IH [OF this] nl s2f(3) show ?case by (simp add: e)
qed simp

lemma execute_leave_nominators_keeps:
  assumes env: "env_ok C bk" and inv: "staking_inv C bk (now_round s) s"
    and d: "execute_leave_nominators C og k s = Done u s'"
  shows "staking_inv C bk (now_round s) s'" "now_round s' = now_round s"
proof -
  obtain a n s1 where n: "NominatorState s a = Some n"
    and la: "leave_all_candidates C a (nr_nominations n) s = Done () s1"
    and s': "s' = deposit_event (NominatorLeft a (nr_total n)) (del_nominator a s1)"
    using d by (auto simp: execute_leave_nominators_def call_Done split: option.splits)
  have ok: "nominator_ok a n" by (rule staking_invD(6) [OF inv n])
  let ?n' = "n\<lparr>nr_requests := PendingNominationRequests_new\<rparr>"
  let ?e = "NominatorExitCancelled a"
  have cut: "cut_record a n (nr_nominations n) s = put_nominator a ?n' s"
    using ok by (cases n) (simp add: cut_record_def put_nominator_def nominator_ok_def)
  have "nominator_ok a ?n'" using ok by (simp add: nominator_ok_def PendingNominationRequests_new_def)
  then have "staking_inv C bk (now_round s) (deposit_event ?e (put_nominator a ?n' s))"
    using same_nominations [OF inv n] by simp
  then have "staking_inv C bk (now_round s) (cut_record a n (nr_nominations n) s)"
    unfolding cut by (rule staking_inv_core) (simp_all add: same_core_def)
  from leave_all_keeps [OF env this] la have i: "staking_inv C bk (now_round s) (cut_record a n [] s1)"
    and r: "Round s1 = Round s" by auto
  show "staking_inv C bk (now_round s) s'"
    by (rule staking_inv_core [OF i]) (simp_all add: same_core_def s' cut_record_def del_nominator_def)
  show "now_round s' = now_round s" by (simp add: s' r del_nominator_def)
qed

subsection \<open>Nominating\<close>

text \<open>What \<open>add_nomination\<close> does before the new nominator is recorded: the owner of a kicked bond is settled.\<close>

lemma kick_nominator_state:
  "NominatorState (kick_nominator C c k ns s) = (NominatorState s)(owner k :=
     if length (nr_nominations ns) = 1 then None
     else Some ((fst (nr_rm_nomination c ns))\<lparr>nr_requests :=
       pr_remove_request c (nr_requests (fst (nr_rm_nomination c ns)))\<rparr>))"
  "world (kick_nominator C c k ns s) = unreserve C (owner k) (amount k) (world s)"
  "CandidateInfo (kick_nominator C c k ns s) = CandidateInfo s"
  "BondedStash (kick_nominator C c k ns s) = BondedStash s"
  "DelayedControllerSets (kick_nominator C c k ns s) = DelayedControllerSets s"
  "Round (kick_nominator C c k ns s) = Round s"
  by (simp_all add: kick_nominator_def put_defs Let_def)

lemma removed_request:
  "bt_get (requests (pr_remove_request c p)) d = Some q \<Longrightarrow> bt_get (requests p) d = Some q \<and> d \<noteq> c"
  by (auto simp: pr_remove_request_def split: option.splits if_splits)

lemma kick_settles:
  assumes env: "env_ok C bk" and inv: "staking_inv C bk r s" and k: "k \<in># bonds s c"
  obtains ns where "NominatorState s (owner k) = Some ns"
    "\<And>b d. nom_amt (kick_nominator C c k ns s) b d = (if b = owner k \<and> d = c then None else nom_amt s b d)"
    "\<And>b n. NominatorState (kick_nominator C c k ns s) b = Some n \<Longrightarrow> nominator_ok b n"
    "covers bk s (kick_nominator C c k ns s)"
proof -
  have amt: "nom_amt s (owner k) c = Some (amount k)" using staking_invD(5) [OF inv] k by (simp add: link_bond)
  then obtain ns where ns: "NominatorState s (owner k) = Some ns" "bt_get (nr_nominations ns) c = Some (amount k)"
    by (auto simp: nom_amt_def split: option.splits)
  note ok = staking_invD(6) [OF inv ns(1)]
  note dn = drop_nomination [OF ns(1) ok ns(2) _ _ _ _ kick_nominator_state(1)]
  have "nom_amt (kick_nominator C c k ns s) b d = (if b = owner k \<and> d = c then None else nom_amt s b d)" for b d
    by (rule dn(1)) (use ns(2) in \<open>auto simp: nr_rm_nomination_def Let_def dest!: removed_request\<close>)
  moreover have "nominator_ok b n" if "NominatorState (kick_nominator C c k ns s) b = Some n" for b n
  proof (cases "b = owner k")
    case True
    show ?thesis unfolding True
      by (rule dn(2)) (use that True ns(2) in \<open>auto simp: nr_rm_nomination_def Let_def dest!: removed_request\<close>)
  next
    case False
    then show ?thesis using that staking_invD(6) [OF inv] by (simp add: kick_nominator_state)
  qed
  moreover have "covers bk s (kick_nominator C c k ns s)"
  proof (rule covers_drop [OF env, where x = "amount k" and y = "amount k"])
    show "nominated (kick_nominator C c k ns s) b =
        (if b = owner k then nominated s (owner k) - amount k else nominated s b)" for b
      by (rule dn(3)) (use ns(2) in \<open>auto simp: nr_rm_nomination_def Let_def dest!: removed_request\<close>)
    show "amount k \<le> nominated s (owner k)"
      using total_of_get [OF ns(2)] ns(1) by (simp add: nominated_def)
  qed (simp_all add: kick_nominator_state)
  ultimately show thesis using that ns(1) by blast
qed

text \<open>
  The outcome of \<open>add_nomination\<close>: the bonds afterwards are the old ones, less a kicked one, plus the
  new one, and the records and balances of the others are settled.
\<close>

lemma add_nomination_effect:
  assumes env: "env_ok C bk" and inv: "staking_inv C bk r s" and c: "cand s c = Some m"
    and new: "nom_amt s a c = None" "x < M128"
    and d: "cm_add_nomination C c \<lparr>owner = a, amount = x\<rparr> m s = Done (p, m') s1"
  obtains s0 K where "cand_ok C c m' s1" "list_frame c s0 s1" "meta_frame m m'"
    "bonds s1 c = add_mset \<lparr>owner = a, amount = x\<rparr> (bonds s c - K)"
    "TopNominations s0 = TopNominations s" "BottomNominations s0 = BottomNominations s"
    "CandidatePool s0 = CandidatePool s" "CandidateInfo s0 = CandidateInfo s"
    "BondedStash s0 = BondedStash s" "DelayedControllerSets s0 = DelayedControllerSets s"
    "Round s0 = Round s" "covers bk s s0"
    "\<And>b d. nom_amt s0 b d = (if d = c \<and> (\<exists>y. \<lparr>owner = b, amount = y\<rparr> \<in># K) then None else nom_amt s b d)"
    "\<And>b n. NominatorState s0 b = Some n \<Longrightarrow> nominator_ok b n"
    "NominatorState s0 a = NominatorState s a" "bk a (world s0) = bk a (world s)"
    "K = {#} \<or> (\<exists>k. k \<in># bonds s c \<and> K = {#k#})"
proof -
  let ?n = "\<lparr>owner = a, amount = x\<rparr>"
  note cfg = env_okD(4) [OF env] and ok = inv_cand(1) [OF inv c]
  have own: "owner ?n \<notin> owner ` set_mset (bonds s c)"
    using new(1) staking_invD(5) [OF inv, of c] by (auto simp: link_bond)
  obtain t l where t: "TopNominations s c = Some t" and l: "BottomNominations s c = Some l"
    and wf: "cand_wf C m t l" and bonds: "bonds s c = mset (nominations t) + mset (nominations l)"
    using cand_okE [OF ok] by metis
  note D = cand_wfD [OF wf]
  show thesis
  proof (cases "size (bonds s c) < MaxTopNominationsPerCandidate C + MaxBottomNominationsPerCandidate C")
    case True
    from add_nomination_room [OF cfg ok True own] new(2) d
    have "cand_ok C c m' s1" "list_frame c s s1" "meta_frame m m'" "bonds s1 c = add_mset ?n (bonds s c)"
      by (auto simp: list_op_def)
    then show thesis using that [of s "{#}"] staking_invD(6) [OF inv] by simp
  next
    case False
    have full: "size (bonds s c) = MaxTopNominationsPerCandidate C + MaxBottomNominationsPerCandidate C"
      using False bonds D(1) by (simp add: lists_wf_def)
    let ?k = "last (nominations l)"
    have "length (nominations l) = MaxBottomNominationsPerCandidate C"
      using full bonds D(1) by (simp add: lists_wf_def)
    then have ne: "nominations l \<noteq> []" using cfg by (auto simp: cfg_ok_def)
    have k: "?k \<in># bonds s c" using ne bonds by simp
    have gt: "amount ?k < x"
      using add_nomination_refused [OF cfg ok full l, of ?n] d by (cases "amount ?k < x") auto
    have ka: "owner ?k \<noteq> a" using own k by auto
    show thesis
    proof (rule kick_settles [OF env inv k])
      fix ns
      assume ns: "NominatorState s (owner ?k) = Some ns"
        "\<And>b d. nom_amt (kick_nominator C c ?k ns s) b d = (if b = owner ?k \<and> d = c then None else nom_amt s b d)"
        "\<And>b n. NominatorState (kick_nominator C c ?k ns s) b = Some n \<Longrightarrow> nominator_ok b n"
        "covers bk s (kick_nominator C c ?k ns s)"
      let ?s0 = "kick_nominator C c ?k ns s"
      from add_nomination_kick [OF cfg ok full l refl ns(1) own] new(2) gt d
      have op: "cand_ok C c m' s1" "list_frame c ?s0 s1" "meta_frame m m'"
        "bonds s1 c = add_mset ?n (bonds s c - {#?k#})" by (auto simp: list_op_def)
      have K: "(\<exists>y. \<lparr>owner = b, amount = y\<rparr> \<in># {#?k#}) \<longleftrightarrow> b = owner ?k" for b
        by (cases ?k) auto
      show thesis
        using that [of ?s0 "{#?k#}", OF op] ns k ka K env_okD(3) [OF env]
        by (auto simp: kick_nominator_state)
    qed
  qed
qed

lemma nominate_state_ok:
  assumes env: "env_ok C bk" and inv: "staking_inv C bk r s" and n: "nominate_state C a c x k s = Inr n"
    and room: "nominated s a + x < M128"
  shows "0 < x" "nom_amt s a c = None" "nominator_ok a n"
    "bt_get (nr_nominations n) d = (if d = c then Some x else nom_amt s a d)"
    "total_of (nr_nominations n) = nominated s a + x"
proof -
  show x: "0 < x"
    using n env_okD(5,6) [OF env] by (auto simp: nominate_state_def split: option.splits if_splits)
  have "nom_amt s a c = None \<and> nominator_ok a n \<and>
    (bt_get (nr_nominations n) d = (if d = c then Some x else nom_amt s a d)) \<and>
    total_of (nr_nominations n) = nominated s a + x"
  proof (cases "NominatorState s a")
    case None
    then have "n = Nominator_new a c x" using n by (auto simp: nominate_state_def split: if_splits)
    then show ?thesis using None nominator_new_ok [OF x]
      by (simp add: nom_amt_def nominated_def Nominator_new_def)
  next
    case (Some n0)
    have ok: "nominator_ok a n0" by (rule staking_invD(6) [OF inv Some])
    have add: "nr_add_nomination c x n0 = Inr n"
      using n Some by (auto simp: nominate_state_def split: if_splits)
    have "nr_total n0 + x < M128" using room ok Some by (simp add: nominated_def nominator_ok_def)
    from nominator_add_ok [OF ok add x this] show ?thesis using Some by (simp add: nom_amt_def nominated_def)
  qed
  then show "nom_amt s a c = None" "nominator_ok a n"
    "bt_get (nr_nominations n) d = (if d = c then Some x else nom_amt s a d)"
    "total_of (nr_nominations n) = nominated s a + x" by auto
qed

lemma nominate_shape:
  assumes "nominate C og c x kc kn s = Done u s'"
  obtains a n m p m' s1 w net where "og = Signed a" "nominate_state C a c x kn s = Inr n" "cand s c = Some m"
    "cm_add_nomination C c \<lparr>owner = a, amount = x\<rparr> m s = Done (p, m') s1"
    "reserve C a x (world s1) = Some w"
    "s' = deposit_event (Nomination a x c (fst p))
       (put_nominator a n (put_candidate c m' (s1\<lparr>world := w, Total := add128 (Total s1) net\<rparr>)))"
    "net = (case snd p of Some y \<Rightarrow> sub128 x y | None \<Rightarrow> x)"
  using assms by (auto simp: nominate_def call_Done cur_reserve_Done Let_def split: if_splits prod.splits)

text \<open>The new nomination is in the record of \<open>a\<close> and in the list of \<open>c\<close>; the bonds \<open>K\<close> were kicked.\<close>

lemma kicked_out:
  assumes "cand_ok C c m s" "K = {#} \<or> (\<exists>k. k \<in># bonds s c \<and> K = {#k#})"
  shows "y \<in># bonds s c - K \<longleftrightarrow> y \<in># bonds s c \<and> (\<nexists>z. \<lparr>owner = owner y, amount = z\<rparr> \<in># K)"
  using assms(2)
proof
  assume "\<exists>k. k \<in># bonds s c \<and> K = {#k#}"
  then obtain k where k: "k \<in># bonds s c" "K = {#k#}" by blast
  have "(\<exists>z. \<lparr>owner = owner y, amount = z\<rparr> \<in># K) \<longleftrightarrow> owner y = owner k" by (cases k) (auto simp: k(2))
  then show ?thesis using bonds_minus [OF assms(1) k(1), of y] k(2) by simp
qed simp

lemma new_nomination:
  assumes inv: "staking_inv C bk r s" and m: "cand s c = Some m" and fresh: "nom_amt s a c = None"
    and op: "cand_ok C c m' s1" "list_frame c s0 s1" "meta_frame m m'"
      "bonds s1 c = add_mset \<lparr>owner = a, amount = x\<rparr> (bonds s c - K)"
    and s0: "TopNominations s0 = TopNominations s" "BottomNominations s0 = BottomNominations s"
      "CandidatePool s0 = CandidatePool s" "covers bk s s0"
      "\<And>b d. nom_amt s0 b d = (if d = c \<and> (\<exists>y. \<lparr>owner = b, amount = y\<rparr> \<in># K) then None else nom_amt s b d)"
      "\<And>b n. NominatorState s0 b = Some n \<Longrightarrow> nominator_ok b n"
    and K: "K = {#} \<or> (\<exists>k. k \<in># bonds s c \<and> K = {#k#})"
    and s': "CandidateInfo s' = bt_insert c m' (CandidateInfo s)" "TopNominations s' = TopNominations s1"
      "BottomNominations s' = BottomNominations s1" "CandidatePool s' = CandidatePool s1"
      "BondedStash s' = BondedStash s" "DelayedControllerSets s' = DelayedControllerSets s"
      "NominatorState s' = (NominatorState s0)(a \<mapsto> n)"
    and n: "nominator_ok a n" "\<And>d. bt_get (nr_nominations n) d = (if d = c then Some x else nom_amt s a d)"
      "total_of (nr_nominations n) = nominated s a + x"
    and bks: "\<And>b. b \<noteq> a \<Longrightarrow> bk b (world s') = bk b (world s0)" "bk a (world s') = bk a (world s) + x"
  shows "staking_inv C bk r s'"
proof (rule staking_inv_list [OF inv m op(1-3) s0(1-3) s'(1-6)])
  have na: "nom_amt s' b e = (if b = a then (if e = c then Some x else nom_amt s a e) else nom_amt s0 b e)" for b e
    using n(2) by (simp add: nom_amt_def s')
  then show "nom_amt s' b e = nom_amt s b e" if "e \<noteq> c" for b e using that s0(5) by simp
  have "\<lparr>owner = a, amount = y\<rparr> \<notin># bonds s c" for y
    using staking_invD(5) [OF inv, of c] fresh by (auto simp: link_bond)
  then show "nom_amt s' b c = Some z \<longleftrightarrow> \<lparr>owner = b, amount = z\<rparr> \<in># bonds s1 c" for b z
    using staking_invD(5) [OF inv, of c] na s0(5) kicked_out [OF inv_cand(1) [OF inv m] K] op(4)
    by (auto simp: link_inv_def)
  show "nominator_ok b k" if "NominatorState s' b = Some k" for b k
    using that n(1) s0(6) by (auto simp: s' split: if_splits)
  show "nominated s' b + self_bonded s b \<le> bk b (world s')" for b
  proof (cases "b = a")
    case True
    then show ?thesis using n(3) staking_invD(7) [OF inv, of a] bks(2) by (simp add: nominated_def owed_def s')
  next
    case False
    then have "nominated s' b = nominated s0 b" by (simp add: nominated_def s')
    then show ?thesis using covers_owed [OF s0(4) inv, of b] False bks(1) by simp
  qed
qed

lemma nominate_keeps:
  assumes env: "env_ok C bk" and inv: "staking_inv C bk (now_round s) s"
    and d: "nominate C og c x kc kn s = Done u s'"
  shows "staking_inv C bk (now_round s) s'" "now_round s' = now_round s"
proof -
  obtain a n m p m' s1 w net where ns: "nominate_state C a c x kn s = Inr n" and m: "cand s c = Some m"
    and add: "cm_add_nomination C c \<lparr>owner = a, amount = x\<rparr> m s = Done (p, m') s1"
    and w: "reserve C a x (world s1) = Some w"
    and s': "s' = deposit_event (Nomination a x c (fst p))
       (put_nominator a n (put_candidate c m' (s1\<lparr>world := w, Total := add128 (Total s1) net\<rparr>)))"
    by (rule nominate_shape [OF d])
  note bkw = env_okD(2) [OF env w]
  have fresh: "nom_amt s a c = None"
    using ns by (auto simp: nominate_state_def nr_add_nomination_def nom_amt_def bt_contains_def
        split: option.splits if_splits)
  have x: "x < M128" using bkw [of a] env_okD(1) [OF env, of a w] by simp
  have "staking_inv C bk (now_round s) s' \<and> now_round s' = now_round s"
  proof (rule add_nomination_effect [OF env inv m fresh x add])
    fix s0 K
    assume op: "cand_ok C c m' s1" "list_frame c s0 s1" "meta_frame m m'"
        "bonds s1 c = add_mset \<lparr>owner = a, amount = x\<rparr> (bonds s c - K)"
      and s0: "TopNominations s0 = TopNominations s" "BottomNominations s0 = BottomNominations s"
        "CandidatePool s0 = CandidatePool s"
      and s0': "CandidateInfo s0 = CandidateInfo s"
        "BondedStash s0 = BondedStash s" "DelayedControllerSets s0 = DelayedControllerSets s"
        "Round s0 = Round s"
      and s0n: "covers bk s s0"
        "\<And>b d. nom_amt s0 b d = (if d = c \<and> (\<exists>y. \<lparr>owner = b, amount = y\<rparr> \<in># K) then None else nom_amt s b d)"
        "\<And>b n. NominatorState s0 b = Some n \<Longrightarrow> nominator_ok b n"
      and a0: "bk a (world s0) = bk a (world s)"
      and K: "K = {#} \<or> (\<exists>k. k \<in># bonds s c \<and> K = {#k#})"
    note lf = list_frame_fields [OF op(2)]
    have "nominated s a + x \<le> bk a w"
      using staking_invD(7) [OF inv, of a] bkw [of a] lf(8) a0 by (simp add: owed_def)
    then have "nominated s a + x < M128" using env_okD(1) [OF env, of a w] by simp
    note n = nominate_state_ok(3-5) [OF env inv ns this]
    have "staking_inv C bk (now_round s) s'"
      by (rule new_nomination [OF inv m fresh op s0 s0n K _ _ _ _ _ _ _ n])
        (use lf s0' bkw a0 in \<open>simp_all add: s' put_nominator_def put_candidate_def\<close>)
    then show ?thesis using lf s0' by (simp add: s' put_nominator_def put_candidate_def)
  qed
  then show "staking_inv C bk (now_round s) s'" "now_round s' = now_round s" by auto
qed

subsection \<open>A candidate leaves\<close>

text \<open>Only nominators and balances change.\<close>

definition noms_frame :: "'w staking \<Rightarrow> 'w staking \<Rightarrow> bool" where
  "noms_frame s s' \<longleftrightarrow>
     CandidateInfo s' = CandidateInfo s \<and> CandidatePool s' = CandidatePool s \<and>
     TopNominations s' = TopNominations s \<and> BottomNominations s' = BottomNominations s \<and>
     BondedStash s' = BondedStash s \<and> DelayedControllerSets s' = DelayedControllerSets s \<and>
     Round s' = Round s \<and> Total s' = Total s"

lemma return_stake_ok:
  assumes env: "env_ok C bk" and n: "NominatorState s (owner b) = Some n" "nominator_ok (owner b) n"
    and x: "bt_get (nr_nominations n) c = Some (amount b)"
  shows "noms_frame s (return_stake C c b n s)" "covers bk s (return_stake C c b n s)"
    "nom_amt (return_stake C c b n s) a d = (if d = c \<and> a = owner b then None else nom_amt s a d)"
    "NominatorState (return_stake C c b n s) (owner b) = Some k \<Longrightarrow> nominator_ok (owner b) k"
    "a \<noteq> owner b \<Longrightarrow> NominatorState (return_stake C c b n s) a = NominatorState s a"
proof -
  let ?s' = "return_stake C c b n s"
  define n' where "n' = (fst (nr_rm_nomination c n))
    \<lparr>nr_requests := pr_remove_request c (nr_requests (fst (nr_rm_nomination c n)))\<rparr>"
  have n'f: "nr_id n' = nr_id n" "nr_nominations n' = bt_remove c (nr_nominations n)"
    "nr_total n' = nr_total n - amount b"
    "bt_get (requests (nr_requests n')) e = Some k \<Longrightarrow>
      bt_get (requests (nr_requests n)) e = Some k \<and> e \<noteq> c" for e k
    using x by (auto simp: n'_def nr_rm_nomination_def Let_def dest!: removed_request)
  have wf: "bt_wf (nr_nominations n)" "all_pos (nr_nominations n)"
    and tot: "nr_total n = total_of (nr_nominations n)" using n(2) by (simp_all add: nominator_ok_def)
  have "nr_total n - amount b = total_of (bt_remove c (nr_nominations n))"
    using total_of_remove [OF wf(1) x] tot by simp
  then have one: "nr_total n - amount b = 0 \<longleftrightarrow> length (nr_nominations n) = 1"
    using positive_total [OF all_pos_remove [OF wf(2)], of c] bt_remove_Nil [OF wf(1) x] by simp
  have f: "noms_frame s ?s'" "world ?s' = unreserve C (owner b) (amount b) (world s)"
    "NominatorState ?s' = (NominatorState s)(owner b := if length (nr_nominations n) = 1 then None else Some n')"
    using x one by (auto simp: return_stake_def nr_rm_nomination_def n'_def noms_frame_def cur_unreserve_def
        put_nominator_def del_nominator_def Let_def)
  note dn = drop_nomination [OF n x n'f f(3)]
  show "noms_frame s ?s'" by (rule f)
  show "covers bk s ?s'" by (rule covers_drop [OF env dn(3,4) order_refl f(2)])
  show "nom_amt ?s' a d = (if d = c \<and> a = owner b then None else nom_amt s a d)" by (auto simp: dn(1))
  show "NominatorState ?s' (owner b) = Some k \<Longrightarrow> nominator_ok (owner b) k" by (rule dn(2))
  show "a \<noteq> owner b \<Longrightarrow> NominatorState ?s' a = NominatorState s a" by (simp add: f(3))
qed

lemma return_stakes_ok:
  assumes env: "env_ok C bk"
  shows "distinct (map owner bs) \<Longrightarrow> \<forall>b\<in>set bs. nom_amt s (owner b) c = Some (amount b) \<Longrightarrow>
    \<forall>a n. NominatorState s a = Some n \<longrightarrow> nominator_ok a n \<Longrightarrow>
    \<exists>s'. return_stakes C c bs s = Done () s' \<and> noms_frame s s' \<and> covers bk s s' \<and>
      (\<forall>a n. NominatorState s' a = Some n \<longrightarrow> nominator_ok a n) \<and>
      (\<forall>a d. nom_amt s' a d = (if d = c \<and> a \<in> owner ` set bs then None else nom_amt s a d))"
proof (induction bs arbitrary: s)
  case (Cons b bs)
  obtain n where n: "NominatorState s (owner b) = Some n" "bt_get (nr_nominations n) c = Some (amount b)"
    using Cons.prems(2) by (auto simp: nom_amt_def split: option.splits)
  have ok: "nominator_ok (owner b) n" using Cons.prems(3) n(1) by simp
  let ?s1 = "return_stake C c b n s"
  note rs = return_stake_ok [OF env n(1) ok n(2)]
  have "owner ba \<noteq> owner b" if "ba \<in> set bs" for ba
    using Cons.prems(1) that by (metis distinct.simps(2) image_eqI list.simps(9) set_map)
  then have "\<forall>b\<in>set bs. nom_amt ?s1 (owner b) c = Some (amount b)"
    using Cons.prems(2) by (simp add: rs(3))
  moreover have "\<forall>a k. NominatorState ?s1 a = Some k \<longrightarrow> nominator_ok a k"
    using rs(4,5) Cons.prems(3) by metis
  ultimately obtain s' where s': "return_stakes C c bs ?s1 = Done () s'" "noms_frame ?s1 s'"
    "covers bk ?s1 s'" "\<forall>a n. NominatorState s' a = Some n \<longrightarrow> nominator_ok a n"
    "\<forall>a d. nom_amt s' a d = (if d = c \<and> a \<in> owner ` set bs then None else nom_amt ?s1 a d)"
    using Cons.IH [of ?s1] Cons.prems(1) by auto
  show ?case
    using s' n(1) rs(1) covers_trans [OF rs(2) s'(3)]
    by (intro exI [of _ s']) (auto simp: rs(3) noms_frame_def)
qed (simp add: noms_frame_def)

lemma leave_shape:
  assumes "execute_leave_candidates C og k s = Done u s'"
  obtains st c m tops bots s1 s2 due where "BondedStash s st = Some c" "cand s c = Some m"
    "status m = VLeaving due" "due \<le> now_round s" "og = Signed st"
    "TopNominations s c = Some tops" "BottomNominations s1 c = Some bots"
    "return_stakes C c (nominations tops) (s\<lparr>TopNominations := (TopNominations s)(c := None)\<rparr>) = Done () s1"
    "return_stakes C c (nominations bots) (s1\<lparr>BottomNominations := (BottomNominations s1)(c := None)\<rparr>)
       = Done () s2"
    "CandidateInfo s' = bt_remove c (CandidateInfo s2)" "BondedStash s' = (BondedStash s2)(st := None)"
    "TopNominations s' = (TopNominations s2)(c := None)"
    "BottomNominations s' = (BottomNominations s2)(c := None)"
    "NominatorState s' = NominatorState s2" "CandidatePool s' = CandidatePool s2"
    "DelayedControllerSets s' = DelayedControllerSets s2" "Round s' = Round s2"
    "Total s' = Total s2 - add128 (add128 (bond m) (noms_total tops)) (noms_total bots)"
    "world s' = RM_leave_relayers C c (unreserve C st (bond m) (world s2))"
  using assms
  by (auto simp: execute_leave_candidates_def call_Done cm_can_leave_def Let_def cur_unreserve_def
      split: if_splits option.splits ValidatorStatus.splits)

text \<open>The storage after a candidate that left the pool has been removed and its nominators are settled.\<close>

lemma candidate_left:
  assumes env: "env_ok C bk" and inv: "staking_inv C bk r s" and m: "cand s c = Some m"
    and st: "BondedStash s st = Some c" and lv: "cm_is_leaving m"
    and s': "CandidateInfo s' = bt_remove c (CandidateInfo s2)" "BondedStash s' = (BondedStash s2)(st := None)"
      "TopNominations s' = (TopNominations s2)(c := None)"
      "BottomNominations s' = (BottomNominations s2)(c := None)"
      "NominatorState s' = NominatorState s2" "CandidatePool s' = CandidatePool s2"
      "DelayedControllerSets s' = DelayedControllerSets s2" "Round s' = Round s2"
      "world s' = RM_leave_relayers C c (unreserve C st (bond m) (world s2))"
    and f: "CandidateInfo s2 = CandidateInfo s" "CandidatePool s2 = CandidatePool s"
      "BondedStash s2 = BondedStash s" "DelayedControllerSets s2 = DelayedControllerSets s"
      "Round s2 = Round s" "TopNominations s2 = (TopNominations s)(c := None)"
      "BottomNominations s2 = (BottomNominations s)(c := None)"
    and na: "\<And>a e. nom_amt s2 a e = (if e = c then None else nom_amt s a e)"
    and nok: "\<forall>a n. NominatorState s2 a = Some n \<longrightarrow> nominator_ok a n"
    and cov: "covers bk s s2"
  shows "staking_inv C bk r s'"
proof -
  have sm: "stash m = st" using inv_stash [OF inv st] m by simp
  have maps: "maps_inv s'" using staking_invD(1-3) [OF inv] by (simp add: maps_inv_def s' f)
  have cands: "cand_inv C s' x" for x
  proof (cases "x = c")
    case True
    then show ?thesis using inv_cand(2) [OF inv m] lv
      by (simp add: cand_inv_def s' f cm_is_leaving_def split: ValidatorStatus.splits)
  next
    case False
    then show ?thesis
      using cand_inv_cong [of s' x s C] staking_invD(4) [OF inv, of x] by (simp add: s' f)
  qed
  have na': "nom_amt s' a e = (if e = c then None else nom_amt s a e)" for a e
    using na [of a e] by (simp add: nom_amt_def s')
  have links: "link_inv s' x" for x
  proof (cases "x = c")
    case True
    then show ?thesis by (simp add: link_inv_def na' bonds_def s')
  next
    case False
    then show ?thesis
      using link_inv_cong [of s' x s] bonds_cong [of s' x s] staking_invD(5) [OF inv, of x]
      by (simp add: na' s' f)
  qed
  have S: "BondedStash s a = Some e \<longleftrightarrow> (\<exists>k. cand s e = Some k \<and> stash k = a)" for a e
    using staking_invD(9) [OF inv] by (simp add: stash_inv_def)
  have "a \<noteq> st" if "cand s e = Some k" "stash k = a" "e \<noteq> c" for a e k using that S [of a e] st by auto
  then have stashes: "stash_inv s'" using sm m by (auto simp: stash_inv_def s' f S)
  have sets: "csets_inv r s'"
    using staking_invD(8) [OF inv] m lv by (auto simp: csets_inv_def s' f Let_def)
  have "owed s' a \<le> bk a (world s')" for a
  proof -
    have n: "nominated s' a = nominated s2 a" by (simp add: nominated_def s')
    have c: "nominated s2 a + self_bonded s a \<le> bk a (world s2)" by (rule covers_owed [OF cov inv])
    show ?thesis
    proof (cases "a = st")
      case True
      then have "self_bonded s a = bond m" "self_bonded s' a = 0"
        using st m by (simp_all add: self_bonded_def s')
      then show ?thesis using True n c env_okD(3,12) [OF env] by (simp add: owed_def s')
    next
      case False
      then have "self_bonded s' a = self_bonded s a"
        using S [of a c] m sm by (auto simp: self_bonded_def s' f split: option.splits)
      then show ?thesis using False n c env_okD(3,12) [OF env] by (simp add: owed_def s')
    qed
  qed
  with maps cands links stashes sets nok show ?thesis
    by (simp add: staking_inv_def solvent_def s')
qed

lemma execute_leave_candidates_keeps:
  assumes env: "env_ok C bk" and inv: "staking_inv C bk (now_round s) s"
    and d: "execute_leave_candidates C og k s = Done u s'"
  shows "staking_inv C bk (now_round s) s' \<and> now_round s' = now_round s"
proof (rule leave_shape [OF d])
  fix st c m tops bots s1 s2 due
  assume st: "BondedStash s st = Some c" and m: "cand s c = Some m"
    and lv: "status m = VLeaving due" and t: "TopNominations s c = Some tops"
    and l1: "BottomNominations s1 c = Some bots"
    and r1: "return_stakes C c (nominations tops) (s\<lparr>TopNominations := (TopNominations s)(c := None)\<rparr>)
      = Done () s1"
    and r2: "return_stakes C c (nominations bots)
      (s1\<lparr>BottomNominations := (BottomNominations s1)(c := None)\<rparr>) = Done () s2"
    and s': "CandidateInfo s' = bt_remove c (CandidateInfo s2)" "BondedStash s' = (BondedStash s2)(st := None)"
      "TopNominations s' = (TopNominations s2)(c := None)"
      "BottomNominations s' = (BottomNominations s2)(c := None)"
      "NominatorState s' = NominatorState s2" "CandidatePool s' = CandidatePool s2"
      "DelayedControllerSets s' = DelayedControllerSets s2" "Round s' = Round s2"
      "world s' = RM_leave_relayers C c (unreserve C st (bond m) (world s2))"
  note ok = inv_cand(1) [OF inv m]
  have amts: "nom_amt (s\<lparr>TopNominations := x\<rparr>) a e = nom_amt s a e"
    "nom_amt (s1\<lparr>BottomNominations := y\<rparr>) a e = nom_amt s1 a e"
    "nominated (s\<lparr>TopNominations := x\<rparr>) a = nominated s a"
    "nominated (s1\<lparr>BottomNominations := y\<rparr>) a = nominated s1 a" for a e x y
    by (simp_all add: nom_amt_def nominated_def)
  obtain l where l: "BottomNominations s c = Some l" "cand_wf C m tops l"
    and bs: "bonds s c = mset (nominations tops) + mset (nominations l)"
    using cand_okE [OF ok] t by (metis option.inject)
  note D = cand_wfD [OF l(2)]
  have own: "nom_amt s (owner b) c = Some (amount b)" if "b \<in> set (nominations tops @ nominations l)" for b
    using that staking_invD(5) [OF inv, of c] bs by (simp flip: link_bond)
  have e1: "\<exists>s'. return_stakes C c (nominations tops) (s\<lparr>TopNominations := (TopNominations s)(c := None)\<rparr>) = Done () s' \<and>
      noms_frame (s\<lparr>TopNominations := (TopNominations s)(c := None)\<rparr>) s' \<and>
      covers bk (s\<lparr>TopNominations := (TopNominations s)(c := None)\<rparr>) s' \<and>
      (\<forall>a n. NominatorState s' a = Some n \<longrightarrow> nominator_ok a n) \<and>
      (\<forall>a d. nom_amt s' a d = (if d = c \<and> a \<in> owner ` set (nominations tops) then None
         else nom_amt (s\<lparr>TopNominations := (TopNominations s)(c := None)\<rparr>) a d))"
    by (rule return_stakes_ok [OF env D(2)]) (use own staking_invD(6) [OF inv] in \<open>simp_all add: amts\<close>)
  then have 1: "noms_frame (s\<lparr>TopNominations := (TopNominations s)(c := None)\<rparr>) s1" "covers bk s s1"
    "\<forall>a n. NominatorState s1 a = Some n \<longrightarrow> nominator_ok a n"
    "\<And>a e. nom_amt s1 a e = (if e = c \<and> a \<in> owner ` set (nominations tops) then None else nom_amt s a e)"
    using r1 by (simp_all add: amts covers_def)
  have bl: "bots = l" using l1 l(1) 1(1) by (simp add: noms_frame_def)
  have disj: "owner ` set (nominations tops) \<inter> owner ` set (nominations l) = {}"
    using D(1) by (simp add: lists_wf_def)
  have e2: "\<exists>s'. return_stakes C c (nominations bots) (s1\<lparr>BottomNominations := (BottomNominations s1)(c := None)\<rparr>) = Done () s' \<and>
      noms_frame (s1\<lparr>BottomNominations := (BottomNominations s1)(c := None)\<rparr>) s' \<and>
      covers bk (s1\<lparr>BottomNominations := (BottomNominations s1)(c := None)\<rparr>) s' \<and>
      (\<forall>a n. NominatorState s' a = Some n \<longrightarrow> nominator_ok a n) \<and>
      (\<forall>a d. nom_amt s' a d = (if d = c \<and> a \<in> owner ` set (nominations bots) then None
         else nom_amt (s1\<lparr>BottomNominations := (BottomNominations s1)(c := None)\<rparr>) a d))"
    by (rule return_stakes_ok [OF env]) (use D(3) bl own disj 1(3) in \<open>auto simp: amts 1(4)\<close>)
  then have 2: "noms_frame (s1\<lparr>BottomNominations := (BottomNominations s1)(c := None)\<rparr>) s2" "covers bk s1 s2"
    "\<forall>a n. NominatorState s2 a = Some n \<longrightarrow> nominator_ok a n"
    "\<And>a e. nom_amt s2 a e = (if e = c \<and> a \<in> owner ` set (nominations l) then None else nom_amt s1 a e)"
    using r2 bl by (simp_all add: amts covers_def)
  have f: "CandidateInfo s2 = CandidateInfo s" "CandidatePool s2 = CandidatePool s"
    "BondedStash s2 = BondedStash s" "DelayedControllerSets s2 = DelayedControllerSets s"
    "Round s2 = Round s" "TopNominations s2 = (TopNominations s)(c := None)"
    "BottomNominations s2 = (BottomNominations s)(c := None)"
    using 1(1) 2(1) by (simp_all add: noms_frame_def)
  have na: "nom_amt s2 a e = (if e = c then None else nom_amt s a e)" for a e
  proof -
    have "nom_amt s a c = None" if "a \<notin> owner ` set (nominations tops @ nominations l)"
    proof (cases "nom_amt s a c")
      case (Some x)
      then have "\<lparr>owner = a, amount = x\<rparr> \<in># bonds s c"
        using staking_invD(5) [OF inv, of c] by (simp add: link_inv_def)
      then show ?thesis using bs that by force
    qed
    then show ?thesis by (auto simp: 1(4) 2(4))
  qed
  have "cm_is_leaving m" using lv by (simp add: cm_is_leaving_def)
  from candidate_left [OF env inv m st this s' f na 2(3) covers_trans [OF 1(2) 2(2)]] f(5) s'(8)
  show ?thesis by simp
qed

subsection \<open>All calls\<close>

lemma run_call_keeps:
  assumes env: "env_ok C bk" and inv: "staking_inv C bk (now_round s) s"
    and d: "run_call C og c s = Done u s'"
  shows "staking_inv C bk (now_round s) s' \<and> now_round s' = now_round s"
proof -
  have q: ?thesis if "quiet s s'" using quiet_inv [OF inv that] that by (simp add: quiet_def)
  show ?thesis
  proof (cases c)
    case (CSetStakingExpectations x0)
    then show ?thesis using d q [OF governance_quiet(1)] by simp
  next
    case (CSetInflation x0)
    then show ?thesis using d q [OF governance_quiet(2)] by simp
  next
    case (CSetMaxFullSelected x0)
    then show ?thesis using d q [OF governance_quiet(3)] by simp
  next
    case (CSetMaxBasicSelected x0)
    then show ?thesis using d q [OF governance_quiet(4)] by simp
  next
    case (CSetDefaultValidatorCommission x0 x1)
    then show ?thesis using d q [OF governance_quiet(5)] by simp
  next
    case (CSetMaxValidatorCommission x0 x1)
    then show ?thesis using d q [OF governance_quiet(6)] by simp
  next
    case (CSetValidatorCommission x0)
    then show ?thesis using d q [OF commission_quiet(1)] by simp
  next
    case CCancelValidatorCommissionSet
    then show ?thesis using d q [OF commission_quiet(2)] by simp
  next
    case (CSetValidatorTier x0 x1 x2)
    then show ?thesis using d set_validator_tier_keeps [OF env inv] by simp
  next
    case (CSetBlocksPerRound x0)
    then show ?thesis using d q [OF governance_quiet(7)] by simp
  next
    case (CSetStorageCacheLifetime x0)
    then show ?thesis using d q [OF governance_quiet(8)] by simp
  next
    case (CJoinCandidates x0 x1 x2 x3)
    then show ?thesis using d join_candidates_keeps [OF env inv] by simp
  next
    case (CScheduleLeaveCandidates x0)
    then show ?thesis using d schedule_leave_keeps [OF inv] by simp
  next
    case (CExecuteLeaveCandidates x0)
    then show ?thesis using d execute_leave_candidates_keeps [OF env inv] by simp
  next
    case (CCancelLeaveCandidates x0)
    then show ?thesis using d online_keeps(2) [OF inv] by simp
  next
    case (CSetController x0)
    then show ?thesis using d set_controller_keeps [OF inv] by simp
  next
    case CCancelControllerSet
    then show ?thesis using d cancel_controller_set_keeps [OF inv] by simp
  next
    case (CSetCandidateRewardDst x0)
    then show ?thesis using d set_candidate_reward_dst_keeps [OF inv] by simp
  next
    case (CSetNominatorRewardDst x0)
    then show ?thesis using d nominator_status_keeps(1) [OF inv] by simp
  next
    case CGoOffline
    then show ?thesis using d go_offline_keeps [OF env inv] by simp
  next
    case CGoOnline
    then show ?thesis using d online_keeps(1) [OF inv] by simp
  next
    case (CCandidateBondMore x0)
    then show ?thesis using d candidate_bond_more_keeps [OF env inv] by simp
  next
    case (CScheduleCandidateBondLess x0)
    then show ?thesis using d schedule_candidate_bond_less_keeps [OF inv] by simp
  next
    case CExecuteCandidateBondLess
    then show ?thesis using d execute_candidate_bond_less_keeps [OF env inv] by simp
  next
    case CCancelCandidateBondLess
    then show ?thesis using d cancel_candidate_bond_less_keeps [OF inv] by simp
  next
    case (CNominate x0 x1 x2 x3)
    then show ?thesis using d nominate_keeps [OF env inv] by simp
  next
    case CScheduleLeaveNominators
    then show ?thesis using d nominator_status_keeps(2) [OF inv] by simp
  next
    case (CExecuteLeaveNominators x0)
    then show ?thesis using d execute_leave_nominators_keeps [OF env inv] by simp
  next
    case CCancelLeaveNominators
    then show ?thesis using d nominator_status_keeps(3) [OF inv] by simp
  next
    case (CScheduleRevokeNomination x0)
    then show ?thesis using d schedule_revoke_keeps [OF inv] by simp
  next
    case (CNominatorBondMore x0 x1)
    then show ?thesis using d nominator_bond_more_keeps [OF env inv] by simp
  next
    case (CScheduleNominatorBondLess x0 x1)
    then show ?thesis using d schedule_less_keeps [OF inv] by simp
  next
    case (CExecuteNominationRequest x0)
    then show ?thesis using d execute_request_keeps [OF env inv] by simp
  next
    case (CCancelNominationRequest x0)
    then show ?thesis using d cancel_request_keeps [OF inv] by simp
  qed
qed

lemma dispatch_keeps:
  assumes "env_ok C bk" "staking_inv C bk (now_round s) s" "dispatch C og c s = Some s'"
  shows "staking_inv C bk (now_round s) s' \<and> now_round s' = now_round s"
  using assms run_call_keeps [OF assms(1,2), of og c]
  by (auto simp: dispatch_def in_storage_layer_def split: outcome.splits)

end
