(* ===== verification/Hooks_Keep.thy ===== *)
theory Hooks_Keep
  imports Nominator_Keep
begin

text \<open>
  The hooks of the staking pallet keep the invariant: authorship notes, the delayed payouts of
  \<open>on_initialize\<close>, offences, and the changes of a new session or round.
\<close>

subsection \<open>Small updates of the metadata\<close>

definition meta_quiet :: "CandidateMetadata \<Rightarrow> CandidateMetadata \<Rightarrow> bool" where
  "meta_quiet m m' \<longleftrightarrow> same_lists m m' \<and> status m' = status m \<and> bond m' = bond m \<and>
     voting_power m' = voting_power m \<and> request m' = request m"

lemma put_candidate_meta:
  assumes inv: "staking_inv C bk r s" and m: "cand s c = Some m" and q: "meta_quiet m m'"
  shows "staking_inv C bk r (put_candidate c m' s)"
  by (rule put_candidate_quiet [OF inv m, where m' = m'])
    (use q inv_cand(4) [OF inv m] in \<open>simp_all add: meta_quiet_def put_candidate_def\<close>)

lemma note_author_keeps:
  assumes inv: "staking_inv C bk r s"
  shows "staking_inv C bk r (note_author a s)" "Round (note_author a s) = Round s"
proof -
  define s0 where "s0 = (case cand s a of None \<Rightarrow> s
    | Some st \<Rightarrow> put_candidate a (cm_increment_blocks_produced
        (cm_set_last_block (add32 (current_block (Round s)) 1) st)) s)"
  have i0: "staking_inv C bk r s0" "Round s0 = Round s"
    using inv put_candidate_meta [OF inv]
    by (auto simp: s0_def meta_quiet_def same_lists_def cm_increment_blocks_produced_def
        cm_set_last_block_def put_candidate_def split: option.split)
  have p: "note_author_points a s = s0\<lparr>AwardedPts := AwardedPts (note_author_points a s),
      Points := Points (note_author_points a s)\<rparr>"
    by (simp add: note_author_points_def s0_def Let_def)
  have i1: "staking_inv C bk r (note_author_points a s)"
    by (rule staking_inv_core [OF i0(1)]; subst p; simp add: same_core_def)
  have r1: "Round (note_author_points a s) = Round s" by (subst p) (simp add: i0)
  show "staking_inv C bk r (note_author a s)"
    using i1 put_candidate_meta [OF i1]
    by (auto simp: note_author_def Let_def meta_quiet_def same_lists_def split: option.split)
  show "Round (note_author a s) = Round s"
    using r1 by (simp add: note_author_def Let_def put_candidate_def split: option.split)
qed

lemma compute_productivity_keeps:
  "staking_inv C bk r s \<Longrightarrow> staking_inv C bk r (compute_productivity C vs s)"
  "Round (compute_productivity C vs s) = Round s"
proof -
  show "staking_inv C bk r s \<Longrightarrow> staking_inv C bk r (compute_productivity C vs s)"
  proof (induction vs arbitrary: s)
    case (Cons v vs)
    have "staking_inv C bk r (case cand s v of None \<Rightarrow> s
      | Some st \<Rightarrow> put_candidate v (if productivity_status st = PIdle then cm_decrement_productivity C s st
                             else st) s)"
      using Cons.prems put_candidate_meta [OF Cons.prems]
      by (auto simp: cm_decrement_productivity_def meta_quiet_def same_lists_def Let_def split: option.split)
    then show ?case using Cons.IH by simp
  qed simp
  show "Round (compute_productivity C vs s) = Round s"
    by (induction vs arbitrary: s) (auto simp: put_candidate_def split: option.split)
qed

lemma handle_commission_sets_keeps:
  "staking_inv C bk r s \<Longrightarrow> staking_inv C bk r (handle_commission_sets ds s)"
proof (induction ds arbitrary: s)
  case (Cons d ds)
  have "staking_inv C bk r (case cand s (dm_who d) of None \<Rightarrow> s
    | Some st \<Rightarrow> put_candidate (dm_who d) (cm_set_commission (dm_new d) st) s)"
    using Cons.prems put_candidate_meta [OF Cons.prems]
    by (auto simp: cm_set_commission_def meta_quiet_def same_lists_def split: option.split)
  then show ?case using Cons.IH by simp
qed simp

subsection \<open>Payouts\<close>

lemma mint_reward_keeps:
  assumes env: "env_ok C bk"
  shows "same_core s (mint_reward C x a s)"
    "DelayedControllerSets (mint_reward C x a s) = DelayedControllerSets s"
    "bk b (world (mint_reward C x a s)) = bk b (world s)" "Round (mint_reward C x a s) = Round s"
    "CandidateInfo (mint_reward C x a s) = CandidateInfo s"
    "staking_inv C bk r s \<Longrightarrow> staking_inv C bk r (mint_reward C x a s)"
    "NominatorState (mint_reward C x a s) = NominatorState s"
proof -
  show f: "same_core s (mint_reward C x a s)"
    "DelayedControllerSets (mint_reward C x a s) = DelayedControllerSets s"
    "Round (mint_reward C x a s) = Round s" "NominatorState (mint_reward C x a s) = NominatorState s"
    "CandidateInfo (mint_reward C x a s) = CandidateInfo s"
    by (auto simp: mint_reward_def same_core_def deposit_event_def split: option.split)
  have w: "bk b (world (mint_reward C x a s)) = bk b (world s)" for b
    using env_deposit [OF env] by (auto simp: mint_reward_def split: option.split)
  then show "bk b (world (mint_reward C x a s)) = bk b (world s)" .
  show "staking_inv C bk r (mint_reward C x a s)" if "staking_inv C bk r s"
    by (rule staking_inv_core [OF that f(1,2)]) (simp add: w)
qed

lemma validator_payout_keeps:
  assumes env: "env_ok C bk" and inv: "staking_inv C bk r s" and st: "cand s c = Some m"
    and d: "handle_validator_reward_payout C c (stash m) x s = Done u s'"
  shows "staking_inv C bk r s'" "Round s' = Round s"
proof -
  let ?s1 = "mint_reward C x (stash m) s" and ?v1 = "cm_increment_awarded_tokens x m"
  note mint = mint_reward_keeps [OF env]
  have i1: "staking_inv C bk r ?s1" by (rule mint(6) [OF inv])
  have m1: "cand ?s1 c = Some m" using st by (simp add: mint(5))
  have v1: "stash ?v1 = stash m" "meta_quiet m ?v1"
    by (simp_all add: cm_increment_awarded_tokens_def meta_quiet_def same_lists_def)
  have "staking_inv C bk r s' \<and> Round s' = Round s"
  proof (cases "reward_dst ?v1 = DstStaked")
    case False
    then have "s' = put_candidate c ?v1 ?s1" using d st by (simp add: handle_validator_reward_payout_def Let_def)
    then show ?thesis using put_candidate_meta [OF i1 m1 v1(2)] mint(4) by (simp add: put_candidate_def)
  next
    case True
    then obtain v2 s2 where bm: "cm_bond_more C (stash m) c x ?v1 ?s1 = Done v2 s2"
      and s': "s' = put_candidate c v2 (update_active c (voting_power v2) s2)"
      using d st v1(1) by (auto simp: handle_validator_reward_payout_def call_Done Let_def)
    obtain w where w: "reserve C (stash m) x (world ?s1) = Some w"
      "v2 = ?v1\<lparr>bond := sat_add128 (bond ?v1) x, voting_power := sat_add128 (voting_power ?v1) x\<rparr>"
      "s2 = deposit_event (CandidateBondedMore c x (sat_add128 (bond ?v1) x))
         (?s1\<lparr>world := w, Total := sat_add128 (Total ?s1) x\<rparr>)"
      by (rule bond_more_shape [OF bm])
    have "staking_inv C bk r s'"
      by (rule bond_more_changed [OF env i1 m1 w(1), where m' = v2])
        (use v1(2) in \<open>simp_all add: s' w(2,3) put_candidate_def update_active_def same_lists_def meta_quiet_def\<close>)
    then show ?thesis using mint(4) by (simp add: s' w(3) put_candidate_def)
  qed
  then show "staking_inv C bk r s'" "Round s' = Round s" by auto
qed

text \<open>A failed increase leaves the storage as it was: \<open>cm_increase_nomination\<close> itself cannot fail.\<close>

lemma increase_fails:
  assumes env: "env_ok C bk" and inv: "staking_inv C bk r s" and n: "NominatorState s a = Some n"
    and n2: "nr_nominations n2 = nr_nominations n" "nr_id n2 = nr_id n"
  shows "nr_increase_nomination C c x n2 s = Fail e s' \<Longrightarrow> s' = s"
    "nr_increase_nomination C c x n2 s \<noteq> Panic"
proof -
  have id: "nr_id n = a" using staking_invD(6) [OF inv n] by (simp add: nominator_ok_def)
  have ok: "cm_increase_nomination C c a before x m (s\<lparr>world := w\<rparr>) \<noteq> Fail e' t"
      "cm_increase_nomination C c a before x m (s\<lparr>world := w\<rparr>) \<noteq> Panic"
    if bf: "bt_get (nr_nominations n) c = Some before" and m: "cand s c = Some m" for before m w e' t
  proof -
    have "cand_ok C c m (s\<lparr>world := w\<rparr>)" "bonds (s\<lparr>world := w\<rparr>) c = bonds s c"
      using inv_cand(1) [OF inv m] by (simp_all add: cand_ok_def bonds_def)
    with increase_nomination_ok [OF env_okD(4) [OF env] this(1), of "\<lparr>owner = a, amount = before\<rparr>" x]
      inv_bond(1) [OF inv n bf] show
      "cm_increase_nomination C c a before x m (s\<lparr>world := w\<rparr>) \<noteq> Fail e' t"
      "cm_increase_nomination C c a before x m (s\<lparr>world := w\<rparr>) \<noteq> Panic" by (auto elim!: list_opE)
  qed
  show "nr_increase_nomination C c x n2 s = Fail e s' \<Longrightarrow> s' = s"
    using n2 id ok by (auto simp: nr_increase_nomination_def cur_reserve_def bind_outcome_def Let_def
        split: option.splits outcome.splits)
  show "nr_increase_nomination C c x n2 s \<noteq> Panic"
    using n2 id ok by (auto simp: nr_increase_nomination_def cur_reserve_def bind_outcome_def Let_def
        split: option.splits outcome.splits)
qed

lemma nominator_payout_keeps:
  assumes env: "env_ok C bk" and inv: "staking_inv C bk r s"
  shows "\<exists>s'. handle_nominator_reward_payout C c a x s = Done () s' \<and> staking_inv C bk r s' \<and>
    Round s' = Round s"
proof (cases "NominatorState s a")
  case None
  then show ?thesis using inv by (simp add: handle_nominator_reward_payout_def)
next
  case (Some n)
  let ?s1 = "mint_reward C x a s" and ?n1 = "nr_increment_awarded_tokens c x n"
  note mint = mint_reward_keeps [OF env]
  have i1: "staking_inv C bk r ?s1" by (rule mint(6) [OF inv])
  have n1: "NominatorState ?s1 a = Some n" using Some by (simp add: mint(7))
  have f: "nr_nominations ?n1 = nr_nominations n" "nr_id ?n1 = nr_id n" "nr_total ?n1 = nr_total n"
    "nr_requests ?n1 = nr_requests n" by (simp_all add: nr_increment_awarded_tokens_def)
  have ok1: "nominator_ok a ?n1" using staking_invD(6) [OF inv Some] f by (simp add: nominator_ok_def)
  show ?thesis
  proof (cases "nr_is_active n \<and> \<not> nr_is_revoking c n \<and> \<not> nr_is_decreasing c n")
    case False
    then show ?thesis using inv Some by (auto simp: handle_nominator_reward_payout_def)
  next
    case act: True
    show ?thesis
    proof (cases "nr_reward_dst n")
      case DstAccount
      have "staking_inv C bk r (deposit_event (NominatorExitCancelled a) (put_nominator a ?n1 ?s1))"
        by (rule same_nominations [OF i1 n1 ok1 f(1) refl])
      then have "staking_inv C bk r (put_nominator a ?n1 ?s1)"
        by (rule staking_inv_core) (simp_all add: same_core_def)
      then show ?thesis using act Some DstAccount mint(4)
        by (simp add: handle_nominator_reward_payout_def Let_def put_nominator_def)
    next
      case DstStaked
      show ?thesis
      proof (cases "nr_increase_nomination C c x ?n1 ?s1")
        case (Done n2 s2)
        note k = increase_keeps(1-3) [OF env i1 n1 f Done]
        have "staking_inv C bk r (put_nominator a n2 s2)"
          by (rule staking_inv_core [OF k(1)])
            (use k(3) in \<open>auto simp: same_core_def put_nominator_def\<close>)
        then show ?thesis using act Some DstStaked Done k(2) mint(4)
          by (simp add: handle_nominator_reward_payout_def Let_def put_nominator_def)
      next
        case (Fail e s2)
        then have "s2 = ?s1" by (rule increase_fails(1) [OF env i1 n1 f(1,2)])
        then show ?thesis using act Some DstStaked Fail i1 mint(4)
          by (simp add: handle_nominator_reward_payout_def Let_def)
      next
        case Panic
        then show ?thesis using increase_fails(2) [OF env i1 n1 f(1,2)] by simp
      qed
    qed
  qed
qed

lemma pay_nominators_keeps:
  assumes env: "env_ok C bk"
  shows "staking_inv C bk r s \<Longrightarrow>
    \<exists>s'. pay_nominators C v tot due bs s = Done () s' \<and> staking_inv C bk r s' \<and> Round s' = Round s"
proof (induction bs arbitrary: s)
  case (Cons b bs)
  let ?x = "pb_mul C (pb_from_rational C (amount b) tot) due"
  obtain s1 where s1: "handle_nominator_reward_payout C v (owner b) ?x s = Done () s1"
    "staking_inv C bk r s1" "Round s1 = Round s"
    using nominator_payout_keeps [OF env Cons.prems] by blast
  show ?case
    using Cons.IH [OF Cons.prems] Cons.IH [OF s1(2)] s1 by (auto simp: expect_ok_def Let_def)
qed simp

lemma expect_ok_Done: "expect_ok o1 = Done u t \<longleftrightarrow> o1 = Done u t"
  by (cases o1) (simp_all add: expect_ok_def)

lemma pay_one_keeps:
  assumes env: "env_ok C bk" and inv: "staking_inv C bk r s"
    and d: "pay_one_validator_reward C q info s = Done res s'"
  shows "staking_inv C bk r s' \<and> Round s' = Round s"
proof (cases "Points s q = 0 \<or> first_by (\<lambda>e. key_order C (fst e)) (AwardedPts s q) = None")
  case True
  then show ?thesis using d inv by (auto simp: pay_one_validator_reward_def split: if_splits)
next
  case False
  then obtain v pts where v: "Points s q \<noteq> 0" "first_by (\<lambda>e. key_order C (fst e)) (AwardedPts s q) = Some (v, pts)"
    by auto
  let ?s1 = "s\<lparr>AwardedPts := (AwardedPts s)(q := bt_remove v (AwardedPts s q))\<rparr>"
  let ?s2 = "?s1\<lparr>AtStake := (AtStake ?s1)(q := (AtStake ?s1 q)(v := ValidatorSnapshot_default))\<rparr>"
  have i1: "staking_inv C bk r ?s1" and i2: "staking_inv C bk r ?s2"
    by (rule staking_inv_core [OF inv]; simp add: same_core_def)+
  show ?thesis
  proof (cases "cand s v")
    case None
    then show ?thesis using d v i1 by (auto simp: pay_one_validator_reward_def Let_def)
  next
    case (Some m)
    then have m2: "cand ?s2 v = Some m" by simp
    obtain x s3 where s3: "handle_validator_reward_payout C v (stash m) x ?s2 = Done () s3"
      and rest: "s' = s3 \<or> (\<exists>tot due bs. pay_nominators C v tot due bs s3 = Done () s')"
      using d v Some by (auto simp: pay_one_validator_reward_def call_Done expect_ok_Done Let_def split: if_splits) blast
    note k = validator_payout_keeps [OF env i2 m2 s3]
    from rest show ?thesis
    proof
      assume "\<exists>tot due bs. pay_nominators C v tot due bs s3 = Done () s'"
      then obtain tot due bs where "pay_nominators C v tot due bs s3 = Done () s'" by blast
      with pay_nominators_keeps [OF env k(1), of v tot due bs] k(2) show ?thesis by auto
    qed (use k in simp)
  qed
qed

lemma delayed_payouts_keeps:
  assumes env: "env_ok C bk" and inv: "staking_inv C bk r s"
    and d: "handle_delayed_payouts C now s = Done u s'"
  shows "staking_inv C bk r s'"
proof (cases "now < RewardPaymentDelay C \<or> DelayedPayouts s (now - RewardPaymentDelay C) = None")
  case True
  then have "s' = s" using d by (auto simp: handle_delayed_payouts_def Let_def split: if_splits)
  then show ?thesis using inv by simp
next
  case False
  let ?q = "now - RewardPaymentDelay C"
  obtain info where info: "DelayedPayouts s ?q = Some info" using False by auto
  obtain res s1 where s1: "pay_one_validator_reward C ?q info s = Done res s1"
    and s': "s' = (if res = None then s1\<lparr>DelayedPayouts := (DelayedPayouts s1)(?q := None),
      Points := (Points s1)(?q := 0)\<rparr> else s1)"
    using d False info by (auto simp: handle_delayed_payouts_def call_Done Let_def)
  have "staking_inv C bk r s1" using pay_one_keeps [OF env inv s1] by simp
  then show ?thesis by (rule staking_inv_core) (simp_all add: s' same_core_def)
qed

lemma on_initialize_keeps:
  assumes env: "env_ok C bk" and inv: "staking_inv C bk (now_round s) s"
    and d: "on_initialize C n s = Done u s'"
  shows "staking_inv C bk (now_round s) s' \<and> now_round s' = now_round s"
proof -
  let ?now = "current_round_index (ri_update_block n (Round s))"
  obtain s1 s2 where s1: "refresh_total_snapshot ?now s = Done () s1"
    and s2: "handle_delayed_payouts C ?now s1 = Done () s2"
    and s': "s' = s2\<lparr>Round := ri_update_block n (Round s)\<rparr>"
    using d by (auto simp: on_initialize_def call_Done Let_def)
  have i1: "staking_inv C bk (now_round s) s1"
    by (rule staking_inv_core [OF inv])
      (use s1 in \<open>auto simp: refresh_total_snapshot_def same_core_def split: option.splits\<close>)
  have "staking_inv C bk (now_round s) s2" by (rule delayed_payouts_keeps [OF env i1 s2])
  then have "staking_inv C bk (now_round s) s'"
    by (rule staking_inv_core) (simp_all add: s' same_core_def)
  then show ?thesis by (simp add: s' ri_update_block_def)
qed

subsection \<open>Offences\<close>

lemma bt_insert_twice: "bt_insert k v (bt_insert k w m) = bt_insert k v m"
  by (induction m) auto

lemma kickout_shape:
  assumes "kickout_validator C c s = Done u s'" "cand s c = Some m"
  shows "CandidateInfo s' = bt_insert c (cm_kick_out m) (CandidateInfo s) \<and>
    CandidatePool s' = bt_remove c (CandidatePool s) \<and>
    SelectedCandidates s' = bt_remove c (SelectedCandidates s) \<and>
    Majority s' = compute_majority s' \<and> bt_get (CachedMajority s') (now_round s) = Some (Majority s') \<and>
    bt_get (CachedSelectedCandidates s') (now_round s) = Some (SelectedCandidates s') \<and>
    TopNominations s' = TopNominations s \<and> BottomNominations s' = BottomNominations s \<and>
    BondedStash s' = BondedStash s \<and> NominatorState s' = NominatorState s \<and>
    DelayedControllerSets s' = DelayedControllerSets s \<and> Round s' = Round s \<and> Total s' = Total s \<and>
    (if tier m = Full then RM_kickout_relayer C c (world s) = Some (world s') else world s' = world s)"
  using assms
  by (auto simp: kickout_validator_def remove_from_candidate_pool_def remove_from_selected_candidates_def
      refresh_latest_cached_selected_candidates_def refresh_latest_cached_majority_def cm_kick_out_def
      compute_majority_def put_candidate_def deposit_event_def Let_def
      split: option.splits if_splits TierType.splits)

lemma slash_shape:
  assumes "slash_reserved_bonds C c x s = Done u s'" "cand s c = Some m"
  shows "\<exists>m'. CandidateInfo s' = bt_insert c m' (CandidateInfo s) \<and> same_lists m m' \<and>
    status m' = status m \<and> bond m' = bond m - x \<and> voting_power m' = voting_power m - x \<and>
    (\<forall>q. request m' = Some q \<longrightarrow> cr_amount q \<le> bond m') \<and> Total s' = Total s - x \<and>
    CandidatePool s' = CandidatePool s \<and> TopNominations s' = TopNominations s \<and>
    BottomNominations s' = BottomNominations s \<and> BondedStash s' = BondedStash s \<and>
    NominatorState s' = NominatorState s \<and> DelayedControllerSets s' = DelayedControllerSets s \<and>
    Round s' = Round s \<and> world s' = world s"
  using assms
  by (auto simp: slash_reserved_bonds_def cm_slash_bond_def cm_slash_voting_power_def same_lists_def
      put_candidate_def Let_def split: option.splits if_splits)

lemma offence_keeps:
  assumes env: "env_ok C bk" and inv: "staking_inv C bk r s" and m: "cand s c = Some m"
    and o: "OH_try_handle_offence C c (stash m) t f (world s) = ((k, x), w)" "of_self_bond f = bond m"
    and s2: "kickout_validator C c (s\<lparr>world := w\<rparr>) = Done u s2"
    and s3: "slash_reserved_bonds C c x s2 = Done u' s3"
  shows "staking_inv C bk r s3 \<and> Round s3 = Round s"
proof -
  have k: "CandidateInfo s2 = bt_insert c (cm_kick_out m) (CandidateInfo s)"
    "CandidatePool s2 = bt_remove c (CandidatePool s)"
    "TopNominations s2 = TopNominations s" "BottomNominations s2 = BottomNominations s"
    "BondedStash s2 = BondedStash s" "NominatorState s2 = NominatorState s"
    "DelayedControllerSets s2 = DelayedControllerSets s" "Round s2 = Round s"
    "if tier m = Full then RM_kickout_relayer C c w = Some (world s2) else world s2 = w"
    using kickout_shape [OF s2, of m] m by auto
  then have "cand s2 c = Some (cm_kick_out m)" by simp
  from slash_shape [OF s3 this] obtain m' where m': "CandidateInfo s3 = bt_insert c m' (CandidateInfo s2)"
    "same_lists (cm_kick_out m) m'" "status m' = VKickedOut" "bond m' = bond m - x"
    "\<forall>q. request m' = Some q \<longrightarrow> cr_amount q \<le> bond m'"
    and f: "TopNominations s3 = TopNominations s" "BottomNominations s3 = BottomNominations s"
      "BondedStash s3 = BondedStash s" "NominatorState s3 = NominatorState s"
      "DelayedControllerSets s3 = DelayedControllerSets s" "CandidatePool s3 = bt_remove c (CandidatePool s)"
      "Round s3 = Round s" "world s3 = world s2"
    using k by (auto simp: cm_kick_out_def)
  have ci: "CandidateInfo s3 = bt_insert c m' (CandidateInfo s)" using m'(1) k(1) by (simp add: bt_insert_twice)
  have w2: "bk b (world s2) = bk b w" for b using k(9) env_okD(13) [OF env] by (auto split: if_splits)
  note off = env_offence [OF env o(1)]
  have w: "(if b = stash m then bk b (world s) - x else bk b (world s)) \<le> bk b (world s3)" for b
    using off(3) [of b] w2 by (simp add: f)
  have w': "bk b (world s) \<le> bk b (world s3)" if "b \<noteq> stash m" for b using w [of b] that by simp
  have le: "x \<le> bond m" using off(1) o(2) by simp
  have "bond m \<le> bk (stash m) (world s)"
    using staking_invD(7) [OF inv, of "stash m"] inv_cand(3) [OF inv m] m by (simp add: owed_def self_bonded_def)
  then show ?thesis
    using le m' f w [of "stash m"] w' staking_invD(3) [OF inv] bt_remove_length_le [of c "CandidatePool s"]
    by (intro conjI staking_inv_meta [OF inv m ci])
      (auto simp: same_lists_def cm_kick_out_def cm_is_leaving_def)
qed

lemma on_offence_keeps:
  assumes env: "env_ok C bk"
  shows "staking_inv C bk r s \<Longrightarrow> on_offence C os i s = Done u s' \<Longrightarrow>
    staking_inv C bk r s' \<and> Round s' = Round s"
proof (induction os arbitrary: s)
  case (Cons e os)
  obtain c p where e: "e = (c, p)" by (cases e)
  show ?case
  proof (cases "cand s c")
    case None
    then show ?thesis using Cons by (simp add: e)
  next
    case (Some m)
    let ?x = "pb_mul C p (bond m)"
    let ?f = "Offence_new (now_round s) i (bond m) ?x ?x 0 p"
    obtain k x w where o: "OH_try_handle_offence C c (stash m) (tier m) ?f (world s) = ((k, x), w)"
      by (metis prod.exhaust)
    have sb: "of_self_bond ?f = bond m" by (simp add: Offence_new_def)
    have "bk b (world s) \<le> bk b w" if "\<not> k" for b
      using env_offence(2) [OF env o that] env_offence(3) [OF env o, of b] by (simp split: if_splits)
    then have i1: "staking_inv C bk r (s\<lparr>world := w\<rparr>)" if "\<not> k"
      using that by (intro staking_inv_core [OF Cons.prems(1)]) (simp_all add: same_core_def)
    show ?thesis
    proof (cases "cm_is_kicked_out m")
      case True
      then show ?thesis using Cons Some by (simp add: e)
    next
      case False
      show ?thesis
      proof (cases k)
        case True
        obtain s2 s3 where s2: "kickout_validator C c (s\<lparr>world := w\<rparr>) = Done () s2"
          and s3: "slash_reserved_bonds C c x s2 = Done () s3" and r: "on_offence C os i s3 = Done u s'"
          using Cons.prems(2) Some False True o by (auto simp: e call_Done Let_def)
        have "staking_inv C bk r s3 \<and> Round s3 = Round s" by (rule offence_keeps [OF env Cons.prems(1) Some o sb s2 s3])
        with Cons.IH r show ?thesis by auto
      next
        case nk: False
        then have "on_offence C os i (s\<lparr>world := w\<rparr>) = Done u s'"
          using Cons.prems(2) Some False o by (simp add: e Let_def)
        with Cons.IH [OF i1 [OF nk]] show ?thesis by simp
      qed
    qed
  qed
qed simp

end
