(* ===== verification/Round_Keep.thy ===== *)
theory Round_Keep
  imports Hooks_Keep
begin

text \<open>A new round and a new session keep the invariant: selection, and the delayed controller changes.\<close>

subsection \<open>All candidates at once\<close>

lemma cand_ok_quiet: "meta_quiet m m' \<Longrightarrow> cand_ok C c m s \<Longrightarrow> cand_ok C c m' s"
  by (auto simp: meta_quiet_def same_lists_def cand_ok_def cand_wf_def)

lemma reset_candidate_states_keeps:
  assumes inv: "staking_inv C bk r s"
  shows "staking_inv C bk r (reset_candidate_states C s)"
proof -
  let ?s' = "reset_candidate_states C s"
  define f where "f = (\<lambda>st. (cm_reset_productivity C (cm_reset_blocks_produced st))\<lparr>is_selected := False\<rparr>)"
  have q: "meta_quiet m (f m)" for m
    by (simp add: f_def meta_quiet_def same_lists_def cm_reset_productivity_def cm_reset_blocks_produced_def)
  have ci: "CandidateInfo ?s' = map (\<lambda>(k, st). (k, f st)) (CandidateInfo s)"
    by (simp add: reset_candidate_states_def f_def)
  have get: "cand ?s' c = map_option f (cand s c)" for c by (simp add: ci map_of_map)
  have same: "TopNominations ?s' = TopNominations s" "BottomNominations ?s' = BottomNominations s"
    "CandidatePool ?s' = CandidatePool s" "BondedStash ?s' = BondedStash s"
    "NominatorState ?s' = NominatorState s" "DelayedControllerSets ?s' = DelayedControllerSets s"
    "world ?s' = world s"
    by (simp_all add: reset_candidate_states_def)
  have keys: "map fst (CandidateInfo ?s') = map fst (CandidateInfo s)" by (simp add: ci split_beta comp_def)
  have fm: "status (f m) = status m" "stash (f m) = stash m" "bond (f m) = bond m" "request (f m) = request m"
    for m using q [of m] by (simp_all add: meta_quiet_def same_lists_def)
  have cands: "cand_inv C ?s' c" for c
  proof (cases "cand s c")
    case None
    then show ?thesis using staking_invD(4) [OF inv, of c] by (simp add: cand_inv_def get same)
  next
    case (Some m)
    have "cand_ok C c (f m) s" using cand_ok_quiet [OF q] inv_cand(1) [OF inv Some] .
    then show ?thesis
      using cand_ok_cong [of ?s' c s C "f m"] inv_cand(2,4) [OF inv Some] Some
      by (simp add: cand_inv_def get same fm)
  qed
  have links: "link_inv ?s' c" for c
    using staking_invD(5) [OF inv, of c] by (simp add: link_inv_def nom_amt_def bonds_def same)
  have stashes: "stash_inv ?s'"
    using staking_invD(9) [OF inv] fm by (auto simp: stash_inv_def get same)
  have sets: "csets_inv r ?s'"
    using staking_invD(8) [OF inv] fm by (fastforce simp: csets_inv_def get same Let_def cm_is_leaving_def)
  have "owed ?s' a = owed s a" for a
    using fm by (simp add: owed_def nominated_def self_bonded_def get same split: option.split)
  then show ?thesis
    using cands links stashes sets staking_invD(1-3,6,7) [OF inv] keys
    by (simp add: staking_inv_def maps_inv_def solvent_def same)
qed

lemma collect_snapshot_keeps:
  "staking_inv C bk r s \<Longrightarrow> collect_validator_snapshot now vs acc s = Done x s' \<Longrightarrow>
   staking_inv C bk r s' \<and> Round s' = Round s \<and> world s' = world s"
proof (induction vs arbitrary: s acc)
  case (Cons v vs)
  obtain vc nc tot where acc: "acc = (vc, nc, tot)" by (metis prod_cases3)
  obtain st tops where st: "cand s v = Some st" "TopNominations s v = Some tops"
    using Cons.prems(2) by (auto simp: acc split: option.splits)
  let ?snap = "\<lparr>vs_bond = bond st, vs_nominations = nominations tops, vs_total = voting_power st\<rparr>"
  let ?s1 = "s\<lparr>AtStake := (AtStake s)(now := (AtStake s now)(v := ?snap))\<rparr>"
  let ?s3 = "deposit_event (ValidatorChosen now v (voting_power st)) (put_candidate v (st\<lparr>is_selected := True\<rparr>) ?s1)"
  have "staking_inv C bk r ?s1" by (rule staking_inv_core [OF Cons.prems(1)]) (simp_all add: same_core_def)
  then have "staking_inv C bk r (put_candidate v (st\<lparr>is_selected := True\<rparr>) ?s1)"
    by (rule put_candidate_meta) (use st in \<open>simp_all add: meta_quiet_def same_lists_def\<close>)
  then have "staking_inv C bk r ?s3" by (rule staking_inv_core) (simp_all add: same_core_def)
  from Cons.IH [OF this] Cons.prems(2) st show ?case by (simp add: acc Let_def put_candidate_def)
qed simp

lemma update_top_shape:
  assumes d: "update_top_candidates C now full basic s = Done x s'"
  obtains x1 s1 x2 s2 sel selF selB w where
    "collect_validator_snapshot now full (0, 0, 0) s = Done x1 s1"
    "collect_validator_snapshot now basic (0, 0, 0) s1 = Done x2 s2"
    "bounded_set (full @ basic) = Some sel" "bounded_set full = Some selF" "bounded_set basic = Some selB"
    "RM_refresh_selected_relayers C now full (world s2) = Some w"
    "s' = (refresh_cached_selected_candidates now sel (s2\<lparr>SelectedCandidates := sel,
      SelectedFullCandidates := selF, SelectedBasicCandidates := selB\<rparr>))\<lparr>world := w\<rparr>"
proof -
  obtain a1 b1 c1 s1 where 1: "collect_validator_snapshot now full (0, 0, 0) s = Done (a1, b1, c1) s1"
    using d by (cases "collect_validator_snapshot now full (0, 0, 0) s") (auto simp: update_top_candidates_def)
  obtain a2 b2 c2 s2 where 2: "collect_validator_snapshot now basic (0, 0, 0) s1 = Done (a2, b2, c2) s2"
    using d 1 by (cases "collect_validator_snapshot now basic (0, 0, 0) s1") (auto simp: update_top_candidates_def)
  show thesis
    using d 1 2 that [OF 1 2]
    by (auto simp: update_top_candidates_def Let_def refresh_cached_selected_candidates_def split: option.splits)
qed

lemma update_top_keeps:
  assumes env: "env_ok C bk" and inv: "staking_inv C bk r s"
    and d: "update_top_candidates C now full basic s = Done x s'"
  shows "staking_inv C bk r s' \<and> Round s' = Round s"
proof -
  obtain x1 s1 x2 s2 sel selF selB w where s1: "collect_validator_snapshot now full (0, 0, 0) s = Done x1 s1"
    and s2: "collect_validator_snapshot now basic (0, 0, 0) s1 = Done x2 s2"
    and w: "RM_refresh_selected_relayers C now full (world s2) = Some w"
    and s': "s' = (refresh_cached_selected_candidates now sel (s2\<lparr>SelectedCandidates := sel,
      SelectedFullCandidates := selF, SelectedBasicCandidates := selB\<rparr>))\<lparr>world := w\<rparr>"
    by (rule update_top_shape [OF d])
  have i2: "staking_inv C bk r s2" "Round s2 = Round s"
    using collect_snapshot_keeps [OF inv s1] collect_snapshot_keeps [OF _ s2] by auto
  have "staking_inv C bk r s'"
    by (rule staking_inv_core [OF i2(1)])
      (use env_okD(9) [OF env w] in \<open>simp_all add: s' same_core_def refresh_cached_selected_candidates_def\<close>)
  then show ?thesis using i2(2) by (simp add: s' refresh_cached_selected_candidates_def)
qed

subsection \<open>A controller is replaced\<close>

definition rename_record :: "acct \<Rightarrow> acct \<Rightarrow> Nominator \<Rightarrow> Nominator" where
  "rename_record old new n = nr_replace_requests old new (nr_replace_nominations old new n)"

lemma rename_record_ok:
  assumes ok: "nominator_ok x n" and a: "bt_get (nr_nominations n) old = Some a"
    and new: "bt_get (nr_nominations n) new = None"
  shows "bt_get (nr_nominations (rename_record old new n)) d =
      (if d = new then Some a else if d = old then None else bt_get (nr_nominations n) d)"
    "total_of (nr_nominations (rename_record old new n)) = total_of (nr_nominations n)"
    "nominator_ok x (rename_record old new n)"
proof -
  let ?n = "rename_record old new n"
  have wf: "bt_wf (nr_nominations n)" "all_pos (nr_nominations n)" using ok by (simp_all add: nominator_ok_def)
  have f: "nr_nominations ?n = bt_insert new a (bt_remove old (nr_nominations n))" "nr_id ?n = nr_id n"
    "nr_total ?n = nr_total n"
    using a by (simp_all add: rename_record_def nr_replace_requests_def nr_replace_nominations_def Let_def
        split: option.split)
  have ne: "old \<noteq> new" using a new by auto
  show get: "bt_get (nr_nominations ?n) d =
      (if d = new then Some a else if d = old then None else bt_get (nr_nominations n) d)" for d by (auto simp: f)
  have "bt_remove new (bt_remove old (nr_nominations n)) = bt_remove old (nr_nominations n)"
    by (rule bt_remove_fresh) (use new in simp)
  then show tot: "total_of (nr_nominations ?n) = total_of (nr_nominations n)"
    using total_of_insert [of "bt_remove old (nr_nominations n)" new a] total_of_remove [OF wf(1) a] wf(1)
    by (simp add: f)
  have R: "request_ok (nr_nominations n) e q" if "bt_get (requests (nr_requests n)) e = Some q" for e q
    using ok that by (simp add: nominator_ok_def)
  have req: "nr_requests (nr_replace_nominations old new n) = nr_requests n"
    by (simp add: nr_replace_nominations_def Let_def split: option.split)
  have "request_ok (nr_nominations ?n) e q" if "bt_get (requests (nr_requests ?n)) e = Some q" for e q
  proof (cases "bt_get (requests (nr_requests n)) old")
    case None
    then have "nr_requests ?n = nr_requests n" by (simp add: rename_record_def nr_replace_requests_def req)
    then have e: "bt_get (requests (nr_requests n)) e = Some q" using that by simp
    then have "e \<noteq> old" "e \<noteq> new" using None R [OF e] new by (auto simp: request_ok_def)
    then show ?thesis using R [OF e] by (simp add: request_ok_def get)
  next
    case (Some p)
    then have "requests (nr_requests ?n) =
        bt_insert new (p\<lparr>nq_validator := new\<rparr>) (bt_remove old (requests (nr_requests n)))"
      by (simp add: rename_record_def nr_replace_requests_def req)
    then show ?thesis using that R [OF Some] R [of e q] a
      by (auto simp: request_ok_def get split: if_splits)
  qed
  moreover have "0 < a" by (rule all_pos_get [OF wf(2) a])
  ultimately show "nominator_ok x ?n"
    using ok wf tot f by (simp add: nominator_ok_def all_pos_insert all_pos_remove)
qed

text \<open>The loop over the owners of a list renames exactly their records.\<close>

definition rename_all :: "acct set \<Rightarrow> acct \<Rightarrow> acct \<Rightarrow> (acct \<rightharpoonup> Nominator) \<Rightarrow> (acct \<rightharpoonup> Nominator)" where
  "rename_all X old new M x = (if x \<in> X then map_option (rename_record old new) (M x) else M x)"

lemma replace_nominations_eq:
  "distinct xs \<Longrightarrow> replace_nominator_nominations xs old new s =
   s\<lparr>NominatorState := rename_all (set xs) old new (NominatorState s)\<rparr>"
proof (induction xs arbitrary: s)
  case Nil
  have "rename_all {} old new (NominatorState s) = NominatorState s" by (simp add: rename_all_def fun_eq_iff)
  then show ?case by simp
next
  case (Cons x xs)
  show ?case
  proof (cases "NominatorState s x")
    case None
    have "rename_all (insert x (set xs)) old new (NominatorState s) = rename_all (set xs) old new (NominatorState s)"
      using None by (auto simp: rename_all_def fun_eq_iff)
    then show ?thesis using None Cons by simp
  next
    case (Some n)
    have "rename_all (set xs) old new ((NominatorState s)(x \<mapsto> rename_record old new n)) =
        rename_all (insert x (set xs)) old new (NominatorState s)"
      using Some Cons.prems by (auto simp: rename_all_def fun_eq_iff)
    then show ?thesis using Some Cons by (simp add: put_nominator_def flip: rename_record_def)
  qed
qed

lemma rename_all_twice:
  "X \<inter> Y = {} \<Longrightarrow> rename_all X old new (rename_all Y old new M) = rename_all (X \<union> Y) old new M"
  by (auto simp: rename_all_def fun_eq_iff)

text \<open>The storage after one controller has been replaced.\<close>

lemma move_lists:
  assumes t: "TopNominations s old = Some t" "distinct (nominators t)"
    and l: "BottomNominations s old = Some l" "distinct (nominators l)"
    and disj: "set (nominators t) \<inter> set (nominators l) = {}"
  shows "move_bottom old new (move_top old new s) =
    s\<lparr>TopNominations := (TopNominations s)(old := None, new \<mapsto> t),
      NominatorState := rename_all (set (nominators t) \<union> set (nominators l)) old new (NominatorState s),
      BottomNominations := (BottomNominations s)(old := None, new \<mapsto> l)\<rparr>"
  using t l disj rename_all_twice [of "set (nominators l)" "set (nominators t)" old new]
  by (simp add: move_top_def move_bottom_def put_top_def put_bottom_def replace_nominations_eq Int_commute Un_commute)

lemma bind_outcomeE:
  assumes "bind_outcome m f = Done b s'"
  obtains a t where "m = Done a t" "f a t = Done b s'"
  using assms by (cases m) auto

lemma controller_set_shape:
  assumes d: "handle_controller_set C now delayed d s = Done u s'" and m: "cand s (dc_old d) = Some m"
    and t: "TopNominations s (dc_old d) = Some t" "distinct (nominators t)"
    and l: "BottomNominations s (dc_old d) = Some l" "distinct (nominators l)"
    and disj: "set (nominators t) \<inter> set (nominators l) = {}"
  shows "CandidateInfo s' = bt_insert (dc_new d) m (bt_remove (dc_old d) (CandidateInfo s))"
    "BondedStash s' = (BondedStash s)(dc_stash d \<mapsto> dc_new d)"
    "CandidatePool s' = (case bt_get (CandidatePool s) (dc_old d) of None \<Rightarrow> CandidatePool s
       | Some b \<Rightarrow> bt_insert (dc_new d) b (bt_remove (dc_old d) (CandidatePool s)))"
    "TopNominations s' = (TopNominations s)(dc_old d := None, dc_new d \<mapsto> t)"
    "BottomNominations s' = (BottomNominations s)(dc_old d := None, dc_new d \<mapsto> l)"
    "NominatorState s' = rename_all (set (nominators t) \<union> set (nominators l)) (dc_old d) (dc_new d) (NominatorState s)"
    "DelayedControllerSets s' = DelayedControllerSets s" "Round s' = Round s"
    "world s' = world s \<or> RM_replace_bonded_controller C (dc_old d) (dc_new d) (world s) = Some (world s')"
proof -
  let ?old = "dc_old d" and ?new = "dc_new d"
  let ?s1 = "s\<lparr>CandidateInfo := bt_insert ?new m (bt_remove ?old (CandidateInfo s)),
    BondedStash := (BondedStash s)(dc_stash d \<mapsto> ?new)\<rparr>"
  let ?sel = "\<lambda>s2. if is_selected m then replace_from_selected_candidates ?old ?new (tier m) s2 else Done () s2"
  let ?rel = "\<lambda>s3. if tier m = Full then (case RM_replace_bonded_controller C ?old ?new (world s3) of
        None \<Rightarrow> Panic | Some w \<Rightarrow> Done () (s3\<lparr>world := w\<rparr>)) else Done () s3"
  let ?mv = "\<lambda>s4. move_at_stake now ?old ?new (move_awarded_pts delayed ?old ?new
        (move_awarded_pts now ?old ?new (move_bottom ?old ?new (move_top ?old ?new s4))))"
  have h: "handle_controller_set C now delayed d s = bind_outcome (replace_from_candidate_pool ?old ?new ?s1)
      (\<lambda>_ s2. bind_outcome (?sel s2) (\<lambda>_ s3. bind_outcome (?rel s3) (\<lambda>_ s4. Done () (?mv s4))))"
    using m by (simp add: handle_controller_set_def Let_def)
  obtain u2 s2 where s2: "replace_from_candidate_pool ?old ?new ?s1 = Done u2 s2"
    and d2: "bind_outcome (?sel s2) (\<lambda>_ s3. bind_outcome (?rel s3) (\<lambda>_ s4. Done () (?mv s4))) = (Done u s' :: (_, error, _) outcome)"
    using d unfolding h by (rule bind_outcomeE)
  obtain u3 s3 where s3: "?sel s2 = (Done u3 s3 :: (_, error, _) outcome)" and d3: "bind_outcome (?rel s3) (\<lambda>_ s4. Done () (?mv s4)) = (Done u s' :: (_, error, _) outcome)"
    using d2 by (rule bind_outcomeE)
  obtain u4 s4 where s4: "?rel s3 = (Done u4 s4 :: (_, error, _) outcome)" and d4: "Done () (?mv s4) = (Done u s' :: (_, error, _) outcome)"
    using d3 by (rule bind_outcomeE)
  have s': "s' = ?mv s4" using d4 by simp
  have f2: "s2 = ?s1\<lparr>CandidatePool := (case bt_get (CandidatePool s) ?old of None \<Rightarrow> CandidatePool s
       | Some b \<Rightarrow> bt_insert ?new b (bt_remove ?old (CandidatePool s)))\<rparr>"
    using s2 by (auto simp: replace_from_candidate_pool_def bt_try_insert_def split: option.splits if_splits)
  have f3: "CandidateInfo s3 = CandidateInfo s2" "BondedStash s3 = BondedStash s2"
    "CandidatePool s3 = CandidatePool s2" "TopNominations s3 = TopNominations s2"
    "BottomNominations s3 = BottomNominations s2" "NominatorState s3 = NominatorState s2"
    "DelayedControllerSets s3 = DelayedControllerSets s2" "Round s3 = Round s2" "world s3 = world s2"
    using s3 by (auto simp: replace_from_selected_candidates_def add_to_selected_candidates_def
        remove_from_selected_candidates_def refresh_latest_cached_selected_candidates_def call_Done Let_def
        split: if_splits option.splits TierType.splits)
  have f4: "CandidateInfo s4 = CandidateInfo s3" "BondedStash s4 = BondedStash s3"
    "CandidatePool s4 = CandidatePool s3" "TopNominations s4 = TopNominations s3"
    "BottomNominations s4 = BottomNominations s3" "NominatorState s4 = NominatorState s3"
    "DelayedControllerSets s4 = DelayedControllerSets s3" "Round s4 = Round s3"
    "world s4 = world s3 \<or> RM_replace_bonded_controller C ?old ?new (world s3) = Some (world s4)"
    using s4 by (auto split: if_splits option.splits)
  have "TopNominations s4 ?old = Some t" "BottomNominations s4 ?old = Some l" using t l by (simp_all add: f4 f3 f2)
  note mv = move_lists [OF this(1) t(2) this(2) l(2) disj, of ?new]
  show "CandidateInfo s' = bt_insert ?new m (bt_remove ?old (CandidateInfo s))"
    "BondedStash s' = (BondedStash s)(dc_stash d \<mapsto> ?new)"
    "CandidatePool s' = (case bt_get (CandidatePool s) ?old of None \<Rightarrow> CandidatePool s
       | Some b \<Rightarrow> bt_insert ?new b (bt_remove ?old (CandidatePool s)))"
    "TopNominations s' = (TopNominations s)(?old := None, ?new \<mapsto> t)"
    "BottomNominations s' = (BottomNominations s)(?old := None, ?new \<mapsto> l)"
    "NominatorState s' = rename_all (set (nominators t) \<union> set (nominators l)) ?old ?new (NominatorState s)"
    "DelayedControllerSets s' = DelayedControllerSets s" "Round s' = Round s"
    "world s' = world s \<or> RM_replace_bonded_controller C ?old ?new (world s) = Some (world s')"
    unfolding s' mv using f4(9) by (simp_all add: move_at_stake_def move_awarded_pts_def Let_def f4(1-8) f3 f2)
qed

text \<open>The candidate \<open>old\<close> lives on under the name \<open>new\<close>, with its lists, pool entry and nominators.\<close>

lemma controller_renamed:
  assumes inv: "staking_inv C bk r s" and m: "cand s old = Some m" "stash m = st" and new: "cand s new = None"
    and maps: "maps_inv s'"
    and get: "\<And>c. cand s' c = (if c = new then Some m else if c = old then None else cand s c)"
    and pool: "\<And>c. bt_get (CandidatePool s') c = (if c = new then bt_get (CandidatePool s) old
      else if c = old then None else bt_get (CandidatePool s) c)"
    and top: "\<And>c. TopNominations s' c = (if c = new then TopNominations s old
      else if c = old then None else TopNominations s c)"
    and bot: "\<And>c. BottomNominations s' c = (if c = new then BottomNominations s old
      else if c = old then None else BottomNominations s c)"
    and stash: "BondedStash s' = (BondedStash s)(st \<mapsto> new)"
    and amt: "\<And>x c. nom_amt s' x c = (if c = new then nom_amt s x old else if c = old then None else nom_amt s x c)"
    and nom: "\<And>x. nominated s' x = nominated s x"
    and nok: "\<And>x n. NominatorState s' x = Some n \<Longrightarrow> nominator_ok x n"
    and sets: "DelayedControllerSets s' = (\<lambda>_. [])"
    and bk: "\<And>b. bk b (world s') = bk b (world s)"
  shows "staking_inv C bk r s'"
proof -
  have ne: "old \<noteq> new" using m new by auto
  have bo: "BondedStash s st = Some old" using inv_cand(3) [OF inv m(1)] m(2) by simp
  have bs: "bonds s' c = (if c = new then bonds s old else if c = old then {#} else bonds s c)" for c
    using ne by (simp add: bonds_def top bot)
  have cands: "cand_inv C s' c" for c
  proof (cases "c = new")
    case True
    then show ?thesis
      using inv_cand(1,2,4) [OF inv m(1)] by (simp add: cand_inv_def get pool cand_ok_def top bot)
  next
    case False
    then show ?thesis
      using cand_inv_cong [of s' c s C] staking_invD(4) [OF inv, of c]
      by (cases "c = old") (simp_all add: cand_inv_def get pool top bot)
  qed
  have links: "link_inv s' c" for c
    using staking_invD(5) [OF inv, of c] staking_invD(5) [OF inv, of old] by (simp add: link_inv_def amt bs)
  have S: "BondedStash s a = Some e \<longleftrightarrow> (\<exists>k. cand s e = Some k \<and> stash k = a)" for a e
    using staking_invD(9) [OF inv] by (simp add: stash_inv_def)
  have one: "BondedStash s a = Some old \<longleftrightarrow> a = st" for a using S [of a old] m by auto
  have stashes: "stash_inv s'"
    unfolding stash_inv_def
  proof (intro allI)
    fix a e
    have "e \<noteq> new" if "BondedStash s a = Some e" using that S [of a e] new by auto
    then show "BondedStash s' a = Some e \<longleftrightarrow> (\<exists>k. cand s' e = Some k \<and> stash k = a)"
      using m S [of a e] one [of a] bo ne by (cases "a = st") (auto simp: stash get)
  qed
  have "self_bonded s' a = self_bonded s a" for a
  proof (cases "a = st")
    case True
    then show ?thesis using bo m by (simp add: self_bonded_def stash get)
  next
    case False
    then have "BondedStash s a \<noteq> Some old" using one by simp
    moreover have "BondedStash s a \<noteq> Some new" using S [of a new] new by simp
    ultimately show ?thesis using False by (simp add: self_bonded_def stash get split: option.split)
  qed
  then show ?thesis
    using cands links stashes maps nok staking_invD(7) [OF inv]
    by (simp add: staking_inv_def solvent_def owed_def nom bk csets_inv_def sets)
qed

lemma controller_set_keeps:
  assumes env: "env_ok C bk" and inv: "staking_inv C bk r s"
    and m: "cand s (dc_old d) = Some m" "stash m = dc_stash d" and new: "cand s (dc_new d) = None"
    and none: "DelayedControllerSets s = (\<lambda>_. [])"
    and h: "handle_controller_set C now delayed d s = Done u s'"
  shows "staking_inv C bk r s'" "Round s' = Round s" "DelayedControllerSets s' = (\<lambda>_. [])"
    "cand s' c = (if c = dc_new d then Some m else if c = dc_old d then None else cand s c)"
proof -
  let ?old = "dc_old d" and ?new = "dc_new d"
  have ne: "?old \<noteq> ?new" using m new by auto
  obtain t l where t: "TopNominations s ?old = Some t" and l: "BottomNominations s ?old = Some l"
    and wf: "cand_wf C m t l" and bonds: "bonds s ?old = mset (nominations t) + mset (nominations l)"
    using cand_okE [OF inv_cand(1) [OF inv m(1)]] by metis
  note D = cand_wfD [OF wf]
  have dis: "distinct (nominators t)" "distinct (nominators l)" "set (nominators t) \<inter> set (nominators l) = {}"
    using D(1) by (simp_all add: nominators_def lists_wf_def)
  note f = controller_set_shape [OF h m(1) t dis(1) l dis(2,3)]
  show "Round s' = Round s" "DelayedControllerSets s' = (\<lambda>_. [])" using f none by simp_all
  show get: "cand s' c = (if c = ?new then Some m else if c = ?old then None else cand s c)" for c
    using ne by (auto simp: f(1))
  have pool: "bt_get (CandidatePool s') c = (if c = ?new then bt_get (CandidatePool s) ?old
      else if c = ?old then None else bt_get (CandidatePool s) c)" for c
    using ne inv_not_cand(5) [OF inv new] by (auto simp: f(3) split: option.split)
  have "length (bt_insert ?new b (bt_remove ?old (CandidatePool s))) \<le> length (CandidatePool s)"
    if "bt_get (CandidatePool s) ?old = Some b" for b
  proof -
    have "length (bt_remove ?old (CandidatePool s)) < length (CandidatePool s)"
      using that by (auto simp: bt_remove_def dest!: map_of_SomeD intro!: length_filter_less)
    then show ?thesis using bt_length_insert_le [of ?new b "bt_remove ?old (CandidatePool s)"] by simp
  qed
  then have maps: "maps_inv s'"
    using staking_invD(1-3) [OF inv] by (auto simp: maps_inv_def f(1,3) split: option.split intro: order_trans)
  have X: "x \<in> set (nominators t) \<union> set (nominators l) \<longleftrightarrow> nom_amt s x ?old \<noteq> None" for x
  proof -
    have "x \<in> set (nominators t) \<union> set (nominators l) \<longleftrightarrow> (\<exists>y. \<lparr>owner = x, amount = y\<rparr> \<in># bonds s ?old)"
      using bonds by (auto simp: nominators_def) (metis Bond.cases Bond.select_convs(1) image_eqI)+
    then show ?thesis using staking_invD(5) [OF inv, of ?old] by (auto simp: link_inv_def)
  qed
  have nn: "nom_amt s x ?new = None" for x by (rule inv_not_cand(2) [OF inv new])
  have rec: "nom_amt s' x c = (if c = ?new then nom_amt s x ?old else if c = ?old then None else nom_amt s x c)
      \<and> nominated s' x = nominated s x \<and> (\<forall>n. NominatorState s' x = Some n \<longrightarrow> nominator_ok x n)" for x c
  proof (cases "nom_amt s x ?old")
    case None
    then have "NominatorState s' x = NominatorState s x" using X by (simp add: f(6) rename_all_def)
    then show ?thesis using None nn [of x] staking_invD(6) [OF inv] by (auto simp: nom_amt_def nominated_def)
  next
    case (Some a)
    then obtain n where n: "NominatorState s x = Some n" "bt_get (nr_nominations n) ?old = Some a"
      by (auto simp: nom_amt_def split: option.splits)
    have "bt_get (nr_nominations n) ?new = None" using nn [of x] n(1) by (simp add: nom_amt_def)
    note rr = rename_record_ok [OF staking_invD(6) [OF inv n(1)] n(2) this]
    have "NominatorState s' x = Some (rename_record ?old ?new n)" using X Some n(1) by (simp add: f(6) rename_all_def)
    then show ?thesis using rr n by (simp add: nom_amt_def nominated_def)
  qed
  have bk: "bk b (world s') = bk b (world s)" for b using f(9) env_okD(11) [OF env] by auto
  show "staking_inv C bk r s'"
    by (rule controller_renamed [OF inv m new maps get pool _ _ f(2) _ _ _ _ bk])
      (use t l rec f(4,5,7) none ne in auto)
qed

lemma controller_sets_keeps:
  assumes env: "env_ok C bk"
  shows "staking_inv C bk r s \<Longrightarrow> DelayedControllerSets s = (\<lambda>_. []) \<Longrightarrow>
    distinct (map dc_new ds) \<Longrightarrow> distinct (map dc_old ds) \<Longrightarrow>
    \<forall>d\<in>set ds. cand s (dc_new d) = None \<and> (\<exists>m. cand s (dc_old d) = Some m \<and> stash m = dc_stash d) \<Longrightarrow>
    handle_controller_sets C now delayed ds s = Done u s' \<Longrightarrow>
    staking_inv C bk r s' \<and> Round s' = Round s \<and> DelayedControllerSets s' = (\<lambda>_. [])"
proof (induction ds arbitrary: s)
  case (Cons d ds)
  obtain s1 where s1: "handle_controller_set C now delayed d s = Done () s1"
    and s': "handle_controller_sets C now delayed ds s1 = Done u s'"
    using Cons.prems(6) by (auto simp: call_Done)
  obtain m where m: "cand s (dc_old d) = Some m" "stash m = dc_stash d" and new: "cand s (dc_new d) = None"
    using Cons.prems(5) by auto
  note k = controller_set_keeps [OF env Cons.prems(1) m new Cons.prems(2) s1]
  have "cand s1 (dc_new e) = None \<and> (\<exists>m. cand s1 (dc_old e) = Some m \<and> stash m = dc_stash e)"
    if e: "e \<in> set ds" for e
  proof -
    have "dc_new e \<noteq> dc_new d" "dc_old e \<noteq> dc_old d"
      using Cons.prems(3,4) e by (metis distinct.simps(2) image_eqI list.simps(9) set_map)+
    moreover have "dc_old e \<noteq> dc_new d" using Cons.prems(5) e new by auto
    ultimately show ?thesis using Cons.prems(5) e by (simp add: k(4))
  qed
  with Cons.IH [OF k(1,3)] Cons.prems(3,4) s' k(2) show ?case by auto
qed simp

text \<open>The queue of the round that has just ended is emptied and applied.\<close>

lemma handle_delayed_controller_sets_keeps:
  assumes env: "env_ok C bk" and inv: "staking_inv C bk r s" and now: "sub32 now 1 = r"
    and d: "handle_delayed_controller_sets C now s = Done u s'"
  shows "staking_inv C bk q s' \<and> Round s' = Round s"
proof -
  let ?ds = "DelayedControllerSets s r"
  let ?s = "s\<lparr>DelayedControllerSets := (DelayedControllerSets s)(r := [])\<rparr>"
  have cs: "csets_inv r s" by (rule staking_invD(8) [OF inv])
  have none: "DelayedControllerSets ?s = (\<lambda>_. [])" using cs by (auto simp: csets_inv_def fun_eq_iff)
  have i: "staking_inv C bk r ?s"
    by (rule staking_inv_sets [OF inv]) (use none in \<open>simp_all add: same_core_def csets_inv_def\<close>)
  have ds: "distinct (map dc_new ?ds)" "distinct (map dc_old ?ds)"
    "\<forall>d\<in>set ?ds. cand ?s (dc_new d) = None \<and> (\<exists>m. cand ?s (dc_old d) = Some m \<and> stash m = dc_stash d)"
    using cs by (auto simp: csets_inv_def Let_def)
  have "handle_controller_sets C now r ?ds ?s = Done u s'"
    using d now by (simp add: handle_delayed_controller_sets_def)
  from controller_sets_keeps [OF env i none ds this]
  have k: "staking_inv C bk r s'" "Round s' = Round s" "DelayedControllerSets s' = (\<lambda>_. [])"
    by simp_all
  have "staking_inv C bk q s'"
    by (rule staking_inv_sets [OF k(1)]) (simp_all add: same_core_def csets_inv_def k(3))
  then show ?thesis using k(2) by simp
qed

subsection \<open>Rounds and sessions\<close>

lemma payouts_core:
  "same_core s (prepare_staking_payouts C now s)"
  "DelayedControllerSets (prepare_staking_payouts C now s) = DelayedControllerSets s"
  "world (prepare_staking_payouts C now s) = world s" "Round (prepare_staking_payouts C now s) = Round s"
  by (simp_all add: prepare_staking_payouts_def same_core_def Let_def)

lemma commission_Round: "Round (handle_commission_sets ds s) = Round s"
  by (induction ds arbitrary: s) (auto simp: put_candidate_def split: option.split)

lemma new_round_keeps:
  assumes env: "env_ok C bk" and inv: "staking_inv C bk (now_round s) s"
    and d: "new_round C blk full basic s = Done u s'" and r: "now_round s < M32"
  shows "staking_inv C bk (now_round s') s' \<and> now_round s' = add32 (now_round s) 1"
proof -
  let ?round = "ri_update_round (Session s) blk (Round s)" and ?r = "now_round s"
  let ?now = "current_round_index ?round"
  have now: "?now = add32 ?r 1" "sub32 ?now 1 = ?r"
    using sub32_add32 [OF r] by (simp_all add: ri_update_round_def)
  obtain w vc nc tot s3 where w: "RM_handle_delayed_relayer_sets C ?now (RM_refresh_round C ?now (world s)) = Some w"
    and s3: "update_top_candidates C ?now full basic (prepare_staking_payouts C ?now
        (reset_candidate_states C (s\<lparr>world := w\<rparr>))) = Done (vc, nc, tot) s3"
    and rest: "\<And>x. x = (let s5 = refresh_majority ?now (s3\<lparr>Round := ?round\<rparr>);
       s6 = s5\<lparr>world := RM_refresh_majority C ?now (world s5)\<rparr>;
       s7 = refresh_productivity_per_block C vc (round_length ?round) s6
       in s7\<lparr>Staked := (Staked s7)(?now := Total s7), TotalAtStake := (TotalAtStake s7)(sub32 ?now 1 := None)\<rparr>) \<Longrightarrow>
       \<exists>s10. handle_delayed_controller_sets C ?now (handle_delayed_commission_sets ?now x) = Done () s10 \<and>
         s' = deposit_event (NewRound (first_round_block ?round) ?now vc tot) s10"
    using d by (auto simp: new_round_def Let_def bind_outcome_Done split: option.splits)
  define s8 where "s8 = (let s5 = refresh_majority ?now (s3\<lparr>Round := ?round\<rparr>);
       s6 = s5\<lparr>world := RM_refresh_majority C ?now (world s5)\<rparr>;
       s7 = refresh_productivity_per_block C vc (round_length ?round) s6
       in s7\<lparr>Staked := (Staked s7)(?now := Total s7), TotalAtStake := (TotalAtStake s7)(sub32 ?now 1 := None)\<rparr>)"
  obtain s10 where s10: "handle_delayed_controller_sets C ?now (handle_delayed_commission_sets ?now s8) = Done () s10"
    and s': "s' = deposit_event (NewRound (first_round_block ?round) ?now vc tot) s10"
    using rest [OF s8_def] by blast
  have "staking_inv C bk ?r (s\<lparr>world := w\<rparr>)"
    by (rule staking_inv_core [OF inv]) (simp_all add: same_core_def env_okD(13) [OF env] env_okD(14) [OF env w] env_okD(8) [OF env])
  then have "staking_inv C bk ?r (prepare_staking_payouts C ?now (reset_candidate_states C (s\<lparr>world := w\<rparr>)))"
    by (intro staking_inv_core [OF reset_candidate_states_keeps payouts_core(1,2)]) (simp_all add: payouts_core)
  from update_top_keeps [OF env this s3] have i3: "staking_inv C bk ?r s3" by simp
  have i8: "staking_inv C bk ?r s8"
    by (rule staking_inv_core [OF i3])
      (simp_all add: s8_def Let_def same_core_def refresh_majority_def refresh_productivity_per_block_def
        env_okD(10) [OF env])
  have r8: "Round s8 = ?round"
    by (simp add: s8_def Let_def refresh_majority_def refresh_productivity_per_block_def)
  let ?s9 = "handle_delayed_commission_sets ?now s8"
  have "staking_inv C bk ?r (s8\<lparr>DelayedCommissionSets := (DelayedCommissionSets s8)(sub32 ?now 1 := [])\<rparr>)"
    by (rule staking_inv_core [OF i8]) (simp_all add: same_core_def)
  then have i9: "staking_inv C bk ?r ?s9" "Round ?s9 = ?round"
    using handle_commission_sets_keeps r8 by (simp_all add: handle_delayed_commission_sets_def Let_def commission_Round)
  have i10: "staking_inv C bk ?now s10" "Round s10 = ?round"
    using handle_delayed_controller_sets_keeps [OF env i9(1) now(2) s10, of ?now] i9(2) by auto
  have "staking_inv C bk ?now s'"
    by (rule staking_inv_core [OF i10(1)]) (simp_all add: s' same_core_def)
  then show ?thesis using i10(2) now(1) by (simp add: s')
qed

lemma new_session_keeps:
  assumes env: "env_ok C bk" and inv: "staking_inv C bk (now_round s) s" and r: "now_round s < M32"
    and d: "new_session C blk i s = Done u s'"
  shows "staking_inv C bk (now_round s') s' \<and> now_round s' < M32"
proof -
  let ?s1 = "compute_productivity C (session_validators C (world s)) s"
  let ?s2 = "?s1\<lparr>Session := sub32 i 1\<rparr>"
  let ?round = "ri_update_session blk (sub32 i 1) (Round ?s2)"
  let ?s3 = "?s2\<lparr>Round := ?round\<rparr>"
  let ?step = "if ri_should_update blk ?round then
        (let (full, basic) = compute_top_candidates C ?s3; keep = filter (\<lambda>v. has_session_keys C v (world ?s3))
         in new_round C blk (keep full) (keep basic) ?s3) else Done () ?s3"
  let ?fin = "\<lambda>s4. s4\<lparr>world := OH_refresh_offences C (sub32 i 1) (world s4)\<rparr>"
  let ?vs = "\<lambda>s4. map fst (SelectedCandidates (?fin s4))"
  have "new_session C blk i s = bind_outcome ?step
      (\<lambda>_ s4. Done (if ?vs s4 = [] \<and> i \<le> 1 then None else Some (?vs s4)) (?fin s4))"
    unfolding new_session_def Let_def by (rule refl)
  with d have "bind_outcome ?step
      (\<lambda>_ s4. Done (if ?vs s4 = [] \<and> i \<le> 1 then None else Some (?vs s4)) (?fin s4)) = Done u s'" by simp
  then obtain v s4 where s4: "?step = Done v s4"
    and "Done (if ?vs s4 = [] \<and> i \<le> 1 then None else Some (?vs s4)) (?fin s4) = (Done u s' :: (_, error, _) outcome)"
    by (rule bind_outcomeE)
  then have s': "s' = ?fin s4" by simp
  have r3: "now_round ?s3 = now_round s"
    using compute_productivity_keeps(2) [of C _ s] by (simp add: ri_update_session_def)
  have i3: "staking_inv C bk (now_round ?s3) ?s3" unfolding r3
    by (rule staking_inv_core [OF compute_productivity_keeps(1) [OF inv, where vs = "session_validators C (world s)"]]) (simp_all add: same_core_def)
  have i4: "staking_inv C bk (now_round s4) s4 \<and> now_round s4 < M32"
  proof (cases "ri_should_update blk ?round")
    case True
    then obtain full basic where "new_round C blk full basic ?s3 = Done v s4"
      using s4 by (auto simp: Let_def split: prod.splits)
    from new_round_keeps [OF env i3 this] r r3 show ?thesis by (auto simp: add32_def)
  next
    case False
    then have "s4 = ?s3" using s4 by (simp only: if_False outcome.inject)
    then show ?thesis using i3 r r3 by (simp only:)
  qed
  have "staking_inv C bk (now_round s4) s'"
    by (rule staking_inv_core [OF conjunct1 [OF i4]]) (simp_all add: s' same_core_def env_okD(15) [OF env])
  then show ?thesis using i4 by (simp add: s')
qed

end
