(* ===== verification/Staking_Run.thy ===== *)
theory Staking_Run
  imports Round_Keep
begin

text \<open>
  The staking pallet as a state machine: genesis, the dispatched calls, and the hooks the runtime
  calls on every block, authored block, offence report and session. The invariant of \<open>Staking_Inv\<close>
  holds in every state it reaches.
\<close>

subsection \<open>Storage defaults and genesis\<close>

definition InflationInfo_default :: InflationInfo where
  "InflationInfo_default =
     \<lparr>inf_expect = Range_from 0, inf_annual = Range_from 0, inf_round = Range_from 0\<rparr>"

definition staking_default :: "'w \<Rightarrow> 'w staking" where
  "staking_default w =
     \<lparr>Session = 0, Round = RoundInfo_default, StorageCacheLifetime = 0,
      DefaultFullValidatorCommission = 0, DefaultBasicValidatorCommission = 0,
      MaxFullValidatorCommission = 0, MaxBasicValidatorCommission = 0, MaxTotalSelected = 0,
      MaxFullSelected = 0, MaxBasicSelected = 0, ProductivityPerBlock = 0,
      NominatorState = Map.empty, CandidateInfo = [], BondedStash = Map.empty,
      TopNominations = Map.empty, BottomNominations = Map.empty, SelectedCandidates = [],
      SelectedFullCandidates = [], SelectedBasicCandidates = [], CachedSelectedCandidates = [],
      Majority = 0, CachedMajority = [], Total = 0, CandidatePool = [],
      AtStake = (\<lambda>_ _. ValidatorSnapshot_default), TotalAtStake = Map.empty,
      DelayedPayouts = Map.empty, DelayedControllerSets = (\<lambda>_. []),
      DelayedCommissionSets = (\<lambda>_. []), Staked = (\<lambda>_. 0),
      InflationConfig = InflationInfo_default, Points = (\<lambda>_. 0), AwardedPts = (\<lambda>_. []),
      AwardedTokens = 0, Events = [], world = w\<rparr>"

lemma staking_default_inv: "staking_inv C bk (now_round (staking_default w)) (staking_default w)"
  by (simp add: staking_inv_defs cand_inv_def link_inv_def staking_default_def nom_amt_def bonds_def
      owed_def nominated_def self_bonded_def)

lemma genesis_candidates_keeps:
  assumes "env_ok C bk"
  shows "staking_inv C bk (now_round s) s \<Longrightarrow> genesis_candidates C cs k s = Some s' \<Longrightarrow>
    staking_inv C bk (now_round s') s' \<and> now_round s' = now_round s"
proof (induction cs arbitrary: k s)
  case (Cons x cs)
  obtain st ctrl rel b where x: "x = (st, ctrl, rel, b)" by (metis prod_cases4)
  let ?j = "join_candidates C (Signed st) ctrl (Some rel) b (add32 k 1) s"
  show ?case
  proof (cases ?j)
    case (Done u s1)
    from join_candidates_keeps [OF assms Cons.prems(1) this] have "staking_inv C bk (now_round s1) s1"
      "now_round s1 = now_round s" by simp_all
    with Cons.IH [OF this(1)] Cons.prems(2) Done show ?thesis by (simp add: x Let_def split: if_splits) metis
  next
    case (Fail e s1)
    then show ?thesis using Cons.IH [OF Cons.prems(1)] Cons.prems(2) by (simp add: x Let_def split: if_splits) metis
  next
    case Panic
    then show ?thesis using Cons.prems(2) by (auto simp: x Let_def split: if_splits)
  qed
qed simp

lemma genesis_nominations_keeps:
  assumes "env_ok C bk"
  shows "staking_inv C bk (now_round s) s \<Longrightarrow> genesis_nominations C ns vn nn s = Some s' \<Longrightarrow>
    staking_inv C bk (now_round s') s' \<and> now_round s' = now_round s"
proof (induction ns arbitrary: vn nn s)
  case (Cons x ns)
  obtain nom target b where x: "x = (nom, target, b)" by (metis prod_cases3)
  let ?cnt = "\<lambda>m k. case bt_get m k of Some x \<Rightarrow> x | None \<Rightarrow> 0"
  let ?n = "nominate C (Signed nom) target b (?cnt vn target) (?cnt nn nom) s"
  show ?case
  proof (cases ?n)
    case (Done u s1)
    from nominate_keeps [OF assms Cons.prems(1) this] have "staking_inv C bk (now_round s1) s1"
      "now_round s1 = now_round s" by simp_all
    with Cons.IH [OF this(1)] Cons.prems(2) Done show ?thesis by (simp add: x Let_def split: if_splits) metis
  next
    case (Fail e s1)
    then show ?thesis using Cons.IH [OF Cons.prems(1)] Cons.prems(2) by (simp add: x Let_def split: if_splits) metis
  next
    case Panic
    then show ?thesis using Cons.prems(2) by (auto simp: x Let_def split: if_splits)
  qed
qed simp

lemma genesis_build_keeps:
  assumes env: "env_ok C bk" and g: "genesis_build C cands noms infl (staking_default w) = Some s'"
  shows "staking_inv C bk (now_round s') s' \<and> now_round s' < M32"
proof -
  let ?s1 = "(staking_default w)\<lparr>InflationConfig := infl,
    DefaultFullValidatorCommission := CfgDefaultFullValidatorCommission C,
    DefaultBasicValidatorCommission := CfgDefaultBasicValidatorCommission C,
    MaxFullValidatorCommission := CfgMaxFullValidatorCommission C,
    MaxBasicValidatorCommission := CfgMaxBasicValidatorCommission C\<rparr>"
  let ?lim = "\<lambda>s3. s3\<lparr>MaxTotalSelected := add32 (DefaultMaxSelectedFullCandidates C)
      (DefaultMaxSelectedBasicCandidates C), MaxFullSelected := DefaultMaxSelectedFullCandidates C,
    MaxBasicSelected := DefaultMaxSelectedBasicCandidates C,
    StorageCacheLifetime := StorageCacheLifetimeInRounds C\<rparr>"
  obtain s2 s3 where s2: "genesis_candidates C cands 0 ?s1 = Some s2"
    and s3: "genesis_nominations C noms [] [] s2 = Some s3"
    using g by (auto simp: genesis_build_def Let_def split: option.splits)
  obtain full basic where fb: "compute_top_candidates C (?lim s3) = (full, basic)" by fastforce
  obtain x s5 where s5: "update_top_candidates C 1 full basic (?lim s3) = Done x s5"
    using g s2 s3 fb by (cases "update_top_candidates C 1 full basic (?lim s3)") (auto simp: genesis_build_def)
  have r1: "now_round ?s1 = 1" "now_round (staking_default w) = 1"
    by (simp_all add: staking_default_def RoundInfo_default_def)
  have i1: "staking_inv C bk (now_round ?s1) ?s1" unfolding r1(1)
    by (rule staking_inv_core [OF staking_default_inv [of C bk w, unfolded r1(2)]])
      (simp_all add: same_core_def)
  have i3: "staking_inv C bk 1 s3"
    using genesis_candidates_keeps [OF env i1 s2] genesis_nominations_keeps [OF env _ s3] r1 by metis
  have i4: "staking_inv C bk 1 (?lim s3)" by (rule staking_inv_core [OF i3]) (simp_all add: same_core_def)
  from update_top_keeps [OF env this s5] have i5: "staking_inv C bk 1 s5" by simp
  obtain a b c where x: "x = (a, b, c)" by (metis prod_cases3)
  have f: "same_core s5 s'" "DelayedControllerSets s' = DelayedControllerSets s5" "now_round s' = 1"
    "world s' = RM_refresh_round C 1 (RM_refresh_majority C 1 (world s5))"
    using g s2 s3 fb s5 by (auto simp: genesis_build_def x same_core_def Let_def deposit_event_def)
  have "staking_inv C bk 1 s'"
    by (rule staking_inv_core [OF i5 f(1,2)]) (simp add: f(4) env_okD(8,10) [OF env])
  then show ?thesis by (simp add: f(3) M32_def)
qed

subsection \<open>Steps\<close>

text \<open>
  \<open>OpRest\<close> is a move of the rest of the runtime that takes nothing from a reserved balance.
\<close>

datatype 'w staking_op =
    OpDispatch origin call
  | OpInitialize block_number
  | OpNoteAuthor acct
  | OpNewSession block_number session_index
  | OpOffence "(acct \<times> perbill) list" session_index
  | OpRest 'w

fun staking_exec :: "'w Config \<Rightarrow> 'w staking_op \<Rightarrow> 'w staking \<Rightarrow> 'w staking option" where
  "staking_exec C (OpDispatch og c) s = dispatch C og c s"
| "staking_exec C (OpInitialize n) s = outcome_state (on_initialize C n s)"
| "staking_exec C (OpNoteAuthor a) s = Some (note_author a s)"
| "staking_exec C (OpNewSession blk i) s = outcome_state (new_session C blk i s)"
| "staking_exec C (OpOffence os i) s = outcome_state (on_offence C os i s)"
| "staking_exec C (OpRest w) s = Some (s\<lparr>world := w\<rparr>)"

fun staking_guard :: "(acct \<Rightarrow> 'w \<Rightarrow> balance) \<Rightarrow> 'w staking_op \<Rightarrow> 'w staking \<Rightarrow> bool" where
  "staking_guard bk (OpRest w) s \<longleftrightarrow> (\<forall>a. bk a (world s) \<le> bk a w)"
| "staking_guard bk _ s \<longleftrightarrow> True"

inductive staking_step ::
  "'w Config \<Rightarrow> (acct \<Rightarrow> 'w \<Rightarrow> balance) \<Rightarrow> 'w staking \<Rightarrow> 'w staking \<Rightarrow> bool" for C bk where
  exec: "staking_guard bk p s \<Longrightarrow> staking_exec C p s = Some s' \<Longrightarrow> staking_step C bk s s'"

inductive staking_reachable :: "'w Config \<Rightarrow> (acct \<Rightarrow> 'w \<Rightarrow> balance) \<Rightarrow> 'w staking \<Rightarrow> bool" for C bk where
  genesis: "genesis_build C cands noms infl (staking_default w) = Some s \<Longrightarrow> staking_reachable C bk s"
| step: "staking_reachable C bk s \<Longrightarrow> staking_step C bk s s' \<Longrightarrow> staking_reachable C bk s'"

inductive_cases staking_stepE: "staking_step C bk s s'"

lemma outcome_state_Some: "outcome_state x = Some s' \<longleftrightarrow> (\<exists>u. x = Done u s')"
  by (cases x) auto

lemma staking_exec_keeps:
  assumes env: "env_ok C bk" and inv: "staking_inv C bk (now_round s) s" and r: "now_round s < M32"
    and g: "staking_guard bk p s" and e: "staking_exec C p s = Some s'"
  shows "staking_inv C bk (now_round s') s' \<and> now_round s' < M32"
proof (cases p)
  case (OpDispatch og c)
  then have "dispatch C og c s = Some s'" using e by simp
  from dispatch_keeps [OF env inv this] r show ?thesis by auto
next
  case (OpInitialize n)
  then obtain u where "on_initialize C n s = Done u s'" using e by (auto simp: outcome_state_Some)
  from on_initialize_keeps [OF env inv this] r show ?thesis by auto
next
  case (OpNoteAuthor a)
  then show ?thesis using e note_author_keeps [OF inv, of a] r by auto
next
  case (OpNewSession blk i)
  then obtain u where "new_session C blk i s = Done u s'" using e by (auto simp: outcome_state_Some)
  from new_session_keeps [OF env inv r this] show ?thesis .
next
  case (OpOffence os i)
  then obtain u where "on_offence C os i s = Done u s'" using e by (auto simp: outcome_state_Some)
  from on_offence_keeps [OF env inv this] r show ?thesis by auto
next
  case (OpRest w)
  have "staking_inv C bk (now_round s) (s\<lparr>world := w\<rparr>)"
    by (rule staking_inv_core [OF inv]) (use g OpRest in \<open>simp_all add: same_core_def\<close>)
  then show ?thesis using e r OpRest by auto
qed

lemma staking_reachable_inv:
  assumes env: "env_ok C bk"
  shows "staking_reachable C bk s \<Longrightarrow> staking_inv C bk (now_round s) s \<and> now_round s < M32"
proof (induction rule: staking_reachable.induct)
  case (genesis cands noms infl w s)
  show ?case by (rule genesis_build_keeps [OF env genesis])
next
  case (step s s')
  from step.hyps(2) obtain p where "staking_guard bk p s" "staking_exec C p s = Some s'"
    by (rule staking_stepE)
  with step.IH staking_exec_keeps [OF env] show ?case by blast
qed

text \<open>In the lists of a candidate no bond occurs twice.\<close>

lemma inv_bonds_once:
  assumes inv: "staking_inv C bk r s"
  shows "count (bonds s c) b \<le> 1"
proof (cases "cand s c")
  case None
  then show ?thesis using inv_not_cand(1) [OF inv None] by simp
next
  case (Some m)
  obtain t l where wf: "cand_wf C m t l" and b: "bonds s c = mset (nominations t) + mset (nominations l)"
    using cand_okE [OF inv_cand(1) [OF inv Some]] by metis
  have "distinct (nominations t @ nominations l)"
    using cand_wfD(1) [OF wf] unfolding lists_wf_def by (metis distinct_map)
  then have "count (mset (nominations t @ nominations l)) b \<le> 1"
    by (simp only: distinct_count_atmost_1) simp
  then show ?thesis by (simp add: b)
qed

end
