(* ===== verification/Relay_Manager.thy ===== *)
theory Relay_Manager
  imports Round_Cache Staking_Types Binary_Search
begin

text \<open>
  The relay manager pallet (\<open>pallets/relay-manager\<close>): relayers bonded to the controllers of full
  validators, the relayers selected for a round with their majority and caches, heartbeats, and the
  delayed replacement of relayer accounts. The pallets that are told of a replacement
  (\<open>RelayQueue\<close>, \<open>SocketQueue\<close>, \<open>RegistrationPool\<close>, \<open>Blaze\<close>), the membership pallet and the
  validator set are parameters that act on the rest of the runtime, \<open>'x\<close>. Storage items that the
  staking pallet names alike carry a leading \<open>R\<close>.
\<close>

record 'x RelayConfig =
  RelayQueue_replace_authority :: "acct \<Rightarrow> acct \<Rightarrow> 'x \<Rightarrow> 'x"
  SocketQueue_replace_authority :: "acct \<Rightarrow> acct \<Rightarrow> 'x \<Rightarrow> 'x"
  RegistrationPool_replace_authority :: "acct \<Rightarrow> acct \<Rightarrow> 'x \<Rightarrow> 'x"
  Blaze_replace_authority :: "acct \<Rightarrow> acct \<Rightarrow> 'x \<Rightarrow> 'x"
  \<comment> \<open>\<open>pallet_membership\<close>, instance 3 (relay executives)\<close>
  Members_get :: "'x \<Rightarrow> acct list"
  Members_put :: "acct list \<Rightarrow> 'x \<Rightarrow> 'x"
  Prime_get :: "'x \<Rightarrow> acct option"
  Prime_put :: "acct \<Rightarrow> 'x \<Rightarrow> 'x"
  change_members_sorted :: "acct list \<Rightarrow> acct list \<Rightarrow> acct list \<Rightarrow> 'x \<Rightarrow> 'x"
  set_prime :: "acct option \<Rightarrow> 'x \<Rightarrow> 'x"
  \<comment> \<open>\<open>T::ValidatorSet\<close>\<close>
  vset_validators :: "'x \<Rightarrow> acct list"
  vset_session_index :: "'x \<Rightarrow> session_index"
  vset_identifiable :: "acct \<Rightarrow> 'x \<Rightarrow> bool"

datatype RelayerStatus = RActive | RIdle | RKickedOut

record Relayer =
  rp_relayer :: acct
  rp_controller :: acct

record RelayerMetadata =
  rm_controller :: acct
  rm_status :: RelayerStatus
  rm_impl_version :: "nat option"
  rm_spec_version :: "nat option"

record DelayedRelayerSet =
  dr_old :: acct
  dr_new :: acct

datatype RelayEvent =
    JoinedRelayers acct acct
  | RelayerChosen round_index acct acct
  | RelayerSet acct acct
  | RelayStorageCacheLifetimeSet nat nat
  | HeartbeatReceived acct
  | AllGood
  | SomeOffline "acct list"
  | HeartbeatOffenceActivationSet bool
  | HeartbeatSlashFractionSet perbill perbill
  | RelayerSetCancelled acct

record 'x relay =
  RStorageCacheLifetime :: nat
  RRound :: round_index
  BondedController :: "acct \<rightharpoonup> acct"
  RelayerPool :: "Relayer list"
  RelayerState :: "acct \<rightharpoonup> RelayerMetadata"
  SelectedRelayers :: acct_set
  InitialSelectedRelayers :: acct_set
  CachedSelectedRelayers :: "(round_index, acct_set) btmap"
  CachedInitialSelectedRelayers :: "(round_index, acct_set) btmap"
  RMajority :: nat
  InitialMajority :: nat
  RCachedMajority :: "(round_index, nat) btmap"
  CachedInitialMajority :: "(round_index, nat) btmap"
  ReceivedHeartbeats :: "session_index \<Rightarrow> acct \<Rightarrow> bool"
  IsHeartbeatOffenceActive :: bool
  HeartbeatSlashFraction :: perbill
  DelayedRelayerSets :: "round_index \<Rightarrow> DelayedRelayerSet list"
  RelayEvents :: "RelayEvent list"
  rel_ext :: 'x

definition rel_deposit :: "RelayEvent \<Rightarrow> 'x relay \<Rightarrow> 'x relay" where
  "rel_deposit e s = s\<lparr>RelayEvents := RelayEvents s @ [e]\<rparr>"

definition put_relayer :: "acct \<Rightarrow> RelayerMetadata \<Rightarrow> 'x relay \<Rightarrow> 'x relay" where
  "put_relayer a m s = s\<lparr>RelayerState := (RelayerState s)(a \<mapsto> m)\<rparr>"

subsection \<open>Metadata\<close>

definition RelayerMetadata_new :: "acct \<Rightarrow> RelayerMetadata" where
  "RelayerMetadata_new c =
     \<lparr>rm_controller = c, rm_status = RIdle, rm_impl_version = None, rm_spec_version = None\<rparr>"

definition rm_go_offline :: "RelayerMetadata \<Rightarrow> RelayerMetadata" where
  "rm_go_offline m = m\<lparr>rm_status := RIdle\<rparr>"

definition rm_go_online :: "RelayerMetadata \<Rightarrow> RelayerMetadata" where
  "rm_go_online m = m\<lparr>rm_status := RActive\<rparr>"

definition rm_kick_out :: "RelayerMetadata \<Rightarrow> RelayerMetadata" where
  "rm_kick_out m = m\<lparr>rm_status := RKickedOut\<rparr>"

definition rm_set_controller :: "acct \<Rightarrow> RelayerMetadata \<Rightarrow> RelayerMetadata" where
  "rm_set_controller c m = m\<lparr>rm_controller := c\<rparr>"

definition rm_is_kicked_out :: "RelayerMetadata \<Rightarrow> bool" where
  "rm_is_kicked_out m = (rm_status m = RKickedOut)"

subsection \<open>Queries\<close>

definition is_authority :: "acct \<Rightarrow> 'x relay \<Rightarrow> bool" where
  "is_authority a s = set_contains a (SelectedRelayers s)"

definition is_relayer :: "acct \<Rightarrow> 'x relay \<Rightarrow> bool" where
  "is_relayer a s = (RelayerState s a \<noteq> None)"

definition is_selected_relayer :: "acct \<Rightarrow> bool \<Rightarrow> 'x relay \<Rightarrow> bool" where
  "is_selected_relayer a is_initial s =
     (if is_initial then set_contains a (InitialSelectedRelayers s)
      else set_contains a (SelectedRelayers s))"

definition is_relayer_set_requested :: "acct \<Rightarrow> 'x relay \<Rightarrow> bool" where
  "is_relayer_set_requested a s = list_ex (\<lambda>d. dr_old d = a) (DelayedRelayerSets s (RRound s))"

definition relay_compute_majority :: "'x relay \<Rightarrow> nat" where
  "relay_compute_majority s = add32 (as_u32 (length (SelectedRelayers s)) div 2) 1"

definition verify_relayer_existence :: "acct \<Rightarrow> acct \<Rightarrow> 'x relay \<Rightarrow> error option" where
  "verify_relayer_existence a c s =
     (if is_relayer a s then Some (RelayError RelayerAlreadyJoined)
      else if BondedController s c \<noteq> None then Some (RelayError RelayerAlreadyBonded)
      else if list_ex (\<lambda>d. dr_new d = a) (DelayedRelayerSets s (RRound s))
        then Some (RelayError AlreadyRelayerSetRequested)
      else None)"

subsection \<open>Pool and selected relayers\<close>

definition remove_from_relayer_pool :: "acct \<Rightarrow> bool \<Rightarrow> 'x relay \<Rightarrow> bool \<times> 'x relay" where
  "remove_from_relayer_pool a is_rel s =
     (let pool = filter (\<lambda>r. if is_rel then rp_relayer r \<noteq> a else rp_controller r \<noteq> a) (RelayerPool s)
      in (length pool < length (RelayerPool s), s\<lparr>RelayerPool := pool\<rparr>))"

definition add_to_relayer_pool ::
  "acct \<Rightarrow> acct \<Rightarrow> 'x relay \<Rightarrow> ('x relay, error, unit) outcome" where
  "add_to_relayer_pool a c s =
     (case try_push (RelayerPool s) \<lparr>rp_relayer = a, rp_controller = c\<rparr> of
        None \<Rightarrow> Fail (RelayError TooManyRelayers) s
      | Some p \<Rightarrow> Done () (s\<lparr>RelayerPool := p\<rparr>))"

definition remove_from_selected_relayers :: "acct \<Rightarrow> 'x relay \<Rightarrow> bool \<times> 'x relay" where
  "remove_from_selected_relayers a s =
     (set_contains a (SelectedRelayers s), s\<lparr>SelectedRelayers := bt_remove a (SelectedRelayers s)\<rparr>)"

definition add_to_selected_relayers ::
  "acct \<Rightarrow> 'x relay \<Rightarrow> ('x relay, error, unit) outcome" where
  "add_to_selected_relayers a s =
     (case bt_try_insert a () (SelectedRelayers s) of
        None \<Rightarrow> Fail (RelayError TooManyRelayers) s
      | Some sel \<Rightarrow> Done () (s\<lparr>SelectedRelayers := sel\<rparr>))"

definition refresh_latest_cached_relayers :: "'x relay \<Rightarrow> 'x relay" where
  "refresh_latest_cached_relayers s =
     s\<lparr>CachedSelectedRelayers :=
         bt_insert (RRound s) (SelectedRelayers s) (CachedSelectedRelayers s)\<rparr>"

definition relay_refresh_latest_cached_majority :: "'x relay \<Rightarrow> 'x relay" where
  "relay_refresh_latest_cached_majority s =
     s\<lparr>RCachedMajority := bt_insert (RRound s) (RMajority s) (RCachedMajority s)\<rparr>"

subsection \<open>Heartbeats\<close>

definition pulse_heartbeat :: "'x RelayConfig \<Rightarrow> acct \<Rightarrow> 'x relay \<Rightarrow> bool \<times> 'x relay" where
  "pulse_heartbeat R a s =
     (let i = vset_session_index R (rel_ext s)
      in if \<not> ReceivedHeartbeats s i a
         then (True, s\<lparr>ReceivedHeartbeats := (ReceivedHeartbeats s)
                        (i := (ReceivedHeartbeats s i)(a := True))\<rparr>)
         else (False, s))"

definition is_heartbeat_pulsed :: "'x RelayConfig \<Rightarrow> acct \<Rightarrow> 'x relay \<Rightarrow> bool" where
  "is_heartbeat_pulsed R a s = ReceivedHeartbeats s (vset_session_index R (rel_ext s)) a"

definition replace_heartbeats :: "'x RelayConfig \<Rightarrow> acct \<Rightarrow> acct \<Rightarrow> 'x relay \<Rightarrow> 'x relay" where
  "replace_heartbeats R old new s =
     (let i = vset_session_index R (rel_ext s); p = ReceivedHeartbeats s i old
      in s\<lparr>ReceivedHeartbeats := (ReceivedHeartbeats s)
             (i := (ReceivedHeartbeats s i)(old := False, new := p))\<rparr>)"

subsection \<open>The relay manager trait\<close>

definition join_relayers :: "acct \<Rightarrow> acct \<Rightarrow> 'x relay \<Rightarrow> ('x relay, error, unit) outcome" where
  "join_relayers a c s =
     (case verify_relayer_existence a c s of
        Some e \<Rightarrow> Fail e s
      | None \<Rightarrow>
          bind_outcome (add_to_relayer_pool a c s) (\<lambda>_ s1.
            let s2 = put_relayer a (RelayerMetadata_new c) s1;
                s3 = s2\<lparr>BondedController := (BondedController s2)(c \<mapsto> a)\<rparr>
            in Done () (rel_deposit (JoinedRelayers a c) s3)))"

definition refresh_round :: "round_index \<Rightarrow> 'x relay \<Rightarrow> 'x relay" where
  "refresh_round now s = s\<lparr>RRound := now\<rparr>"

text \<open>\<open>None\<close>: the \<open>expect\<close> that the state of a pooled relayer exists fails.\<close>

fun refresh_pool_loop :: "Relayer list \<Rightarrow> 'x relay \<Rightarrow> 'x relay option" where
  "refresh_pool_loop [] s = Some s"
| "refresh_pool_loop (r # rs) s =
     (case RelayerState s (rp_relayer r) of
        None \<Rightarrow> None
      | Some m \<Rightarrow>
          refresh_pool_loop rs
            (put_relayer (rp_relayer r) (if rm_is_kicked_out m then m else rm_go_offline m) s))"

definition refresh_relayer_pool :: "'x relay \<Rightarrow> 'x relay option" where
  "refresh_relayer_pool s = refresh_pool_loop (RelayerPool s) s"

fun select_relayers ::
  "round_index \<Rightarrow> acct list \<Rightarrow> acct_set \<Rightarrow> 'x relay \<Rightarrow> (acct_set \<times> 'x relay) option" where
  "select_relayers rnd [] sel s = Some (sel, s)"
| "select_relayers rnd (c # cs) sel s =
     (case BondedController s c of
        None \<Rightarrow> select_relayers rnd cs sel s
      | Some a \<Rightarrow>
          (case bt_try_insert a () sel of
             None \<Rightarrow> None
           | Some sel' \<Rightarrow>
               (case RelayerState s a of
                  None \<Rightarrow> None
                | Some m \<Rightarrow>
                    select_relayers rnd cs sel'
                      (rel_deposit (RelayerChosen rnd a c) (put_relayer a (rm_go_online m) s)))))"

definition refresh_cached_selected_relayers :: "round_index \<Rightarrow> acct_set \<Rightarrow> 'x relay \<Rightarrow> 'x relay" where
  "refresh_cached_selected_relayers rnd sel s =
     s\<lparr>CachedSelectedRelayers :=
         cache_insert (RStorageCacheLifetime s) rnd sel (CachedSelectedRelayers s),
       CachedInitialSelectedRelayers :=
         cache_insert (RStorageCacheLifetime s) rnd sel (CachedInitialSelectedRelayers s)\<rparr>"

definition refresh_selected_relayers :: "round_index \<Rightarrow> acct list \<Rightarrow> 'x relay \<Rightarrow> 'x relay option" where
  "refresh_selected_relayers rnd cs s =
     (case refresh_relayer_pool s of
        None \<Rightarrow> None
      | Some s1 \<Rightarrow>
          (case select_relayers rnd cs [] s1 of
             None \<Rightarrow> None
           | Some (sel, s2) \<Rightarrow>
               Some (refresh_cached_selected_relayers rnd sel
                 (s2\<lparr>SelectedRelayers := sel, InitialSelectedRelayers := sel\<rparr>))))"

definition relay_refresh_majority :: "round_index \<Rightarrow> 'x relay \<Rightarrow> 'x relay" where
  "relay_refresh_majority rnd s =
     (let m = relay_compute_majority s
      in s\<lparr>RMajority := m, InitialMajority := m,
           RCachedMajority := cache_insert (RStorageCacheLifetime s) rnd m (RCachedMajority s),
           CachedInitialMajority :=
             cache_insert (RStorageCacheLifetime s) rnd m (CachedInitialMajority s)\<rparr>)"

definition replace_bonded_controller :: "acct \<Rightarrow> acct \<Rightarrow> 'x relay \<Rightarrow> 'x relay option" where
  "replace_bonded_controller old new s =
     (case BondedController s old of
        None \<Rightarrow> Some s
      | Some a \<Rightarrow>
          let s1 = s\<lparr>BondedController := (BondedController s)(old := None, new \<mapsto> a)\<rparr>
          in (case RelayerState s1 a of
                None \<Rightarrow> None
              | Some m \<Rightarrow>
                  let s2 = put_relayer a (rm_set_controller new m) s1;
                      s3 = snd (remove_from_relayer_pool old False s2)
                  in (case add_to_relayer_pool a new s3 of
                        Done _ s4 \<Rightarrow> Some s4
                      | _ \<Rightarrow> None)))"

definition leave_relayers :: "acct \<Rightarrow> 'x relay \<Rightarrow> 'x relay" where
  "leave_relayers c s =
     (case BondedController s c of
        None \<Rightarrow> s
      | Some a \<Rightarrow>
          let s1 = s\<lparr>BondedController := (BondedController s)(c := None)\<rparr>;
              s2 = snd (remove_from_relayer_pool a True s1)
          in s2\<lparr>RelayerState := (RelayerState s2)(a := None)\<rparr>)"

definition kickout_relayer :: "acct \<Rightarrow> 'x relay \<Rightarrow> 'x relay option" where
  "kickout_relayer c s =
     (case BondedController s c of
        None \<Rightarrow> Some s
      | Some a \<Rightarrow>
          (case RelayerState s a of
             None \<Rightarrow> None
           | Some m \<Rightarrow>
               let (removed, s1) = remove_from_selected_relayers a (put_relayer a (rm_kick_out m) s)
               in if removed then
                    let s2 = refresh_latest_cached_relayers s1;
                        s3 = s2\<lparr>RMajority := relay_compute_majority s2\<rparr>
                    in Some (relay_refresh_latest_cached_majority s3)
                  else Some s1))"

text \<open>
  The part of \<open>handle_delayed_relayer_sets\<close> that replaces a member of the relay executives, and the
  replacement of a bonded relayer.
\<close>

definition replace_executive :: "'x RelayConfig \<Rightarrow> acct \<Rightarrow> acct \<Rightarrow> 'x \<Rightarrow> 'x" where
  "replace_executive R old new x =
     (let members = Members_get R x
      in (case (binary_search_by (\<lambda>a. rust_cmp a old) members,
                binary_search_by (\<lambda>a. rust_cmp a new) members) of
            (SearchOk i, SearchErr _) \<Rightarrow>
              let members' = sort (members[i := new]);
                  x1 = change_members_sorted R [new] [old] members' (Members_put R members' x)
              in if Prime_get R x1 = Some old then set_prime R (Some new) (Prime_put R new x1) else x1
          | _ \<Rightarrow> x))"

definition replace_relayer_pool ::
  "acct \<Rightarrow> acct \<Rightarrow> acct \<Rightarrow> 'x relay \<Rightarrow> ('x relay, error, unit) outcome" where
  "replace_relayer_pool old new c s =
     (let (removed, s1) = remove_from_relayer_pool old True s
      in if removed then add_to_relayer_pool new c s1 else Done () s1)"

definition replace_selected_relayers ::
  "'x RelayConfig \<Rightarrow> acct \<Rightarrow> acct \<Rightarrow> 'x relay \<Rightarrow> ('x relay, error, unit) outcome" where
  "replace_selected_relayers R old new s =
     (let (removed, s1) = remove_from_selected_relayers old s
      in if removed then
           bind_outcome (add_to_selected_relayers new s1) (\<lambda>_ s2.
             Done () (replace_heartbeats R old new (refresh_latest_cached_relayers s2)))
         else Done () s1)"

definition replace_bonded_relayer ::
  "'x RelayConfig \<Rightarrow> acct \<Rightarrow> acct \<Rightarrow> 'x relay \<Rightarrow> ('x relay, error, bool) outcome" where
  "replace_bonded_relayer R old new s =
     (case RelayerState s old of
        None \<Rightarrow> Done False s
      | Some m \<Rightarrow>
          let c = rm_controller m;
              s1 = s\<lparr>RelayerState := (RelayerState s)(old := None)\<rparr>;
              s2 = s1\<lparr>BondedController := (BondedController s1)(c \<mapsto> new)\<rparr>;
              s3 = put_relayer new m s2
          in bind_outcome (replace_relayer_pool old new c s3) (\<lambda>_ s4.
             bind_outcome (replace_selected_relayers R old new s4) (\<lambda>_ s5. Done True s5)))"

fun relayer_sets_loop :: "'x RelayConfig \<Rightarrow> DelayedRelayerSet list \<Rightarrow> 'x relay \<Rightarrow> 'x relay option" where
  "relayer_sets_loop R [] s = Some s"
| "relayer_sets_loop R (d # ds) s =
     (case replace_bonded_relayer R (dr_old d) (dr_new d) s of
        Done replaced s1 \<Rightarrow>
          if replaced then
            let x = rel_ext s1; old = dr_old d; new = dr_new d;
                x1 = RelayQueue_replace_authority R old new x;
                x2 = SocketQueue_replace_authority R old new x1;
                x3 = RegistrationPool_replace_authority R old new x2;
                x4 = Blaze_replace_authority R old new x3
            in relayer_sets_loop R ds (s1\<lparr>rel_ext := replace_executive R old new x4\<rparr>)
          else relayer_sets_loop R ds s1
      | _ \<Rightarrow> None)"

definition handle_delayed_relayer_sets :: "'x RelayConfig \<Rightarrow> round_index \<Rightarrow> 'x relay \<Rightarrow> 'x relay option" where
  "handle_delayed_relayer_sets R now s =
     (let r = sub32 now 1
      in relayer_sets_loop R (DelayedRelayerSets s r)
           (s\<lparr>DelayedRelayerSets := (DelayedRelayerSets s)(r := [])\<rparr>))"

subsection \<open>Collecting heartbeats\<close>

text \<open>
  The offenders of a session: validators whose relayer sent no heartbeat. Their relayers go
  offline. \<open>None\<close> is a failed \<open>expect\<close>.
\<close>

fun collect_offenders :: "'x RelayConfig \<Rightarrow> acct list \<Rightarrow> 'x relay \<Rightarrow> (acct list \<times> 'x relay) option" where
  "collect_offenders R [] s = Some ([], s)"
| "collect_offenders R (c # cs) s =
     (case BondedController s c of
        None \<Rightarrow> collect_offenders R cs s
      | Some a \<Rightarrow>
          if is_heartbeat_pulsed R a s then collect_offenders R cs s
          else (case RelayerState s a of
                  None \<Rightarrow> None
                | Some m \<Rightarrow>
                    map_option (\<lambda>(os, s'). (if vset_identifiable R c (rel_ext s) then c # os else os, s'))
                      (collect_offenders R cs (put_relayer a (rm_go_offline m) s))))"

text \<open>
  The report of an offence reaches the staking pallet and through it the relay manager again, so it
  acts on the state of the whole runtime, \<open>'g\<close>, of which the relay manager's is a part.
\<close>

record UnresponsivenessOffence =
  uo_session_index :: session_index
  uo_validator_set_count :: nat
  uo_offenders :: "acct list"
  uo_slash_fraction :: perbill

definition collect_heartbeats ::
  "'x RelayConfig \<Rightarrow> ('g \<Rightarrow> 'x relay) \<Rightarrow> ('x relay \<Rightarrow> 'g \<Rightarrow> 'g) \<Rightarrow>
   (UnresponsivenessOffence \<Rightarrow> 'g \<Rightarrow> 'g option) \<Rightarrow> 'g \<Rightarrow> 'g option" where
  "collect_heartbeats R get put report g =
     (let vs = vset_validators R (rel_ext (get g));
          i = vset_session_index R (rel_ext (get g))
      in (case collect_offenders R vs (get g) of
            None \<Rightarrow> None
          | Some (os, s1) \<Rightarrow>
              let s2 = s1\<lparr>ReceivedHeartbeats := (ReceivedHeartbeats s1)(i := (\<lambda>_. False))\<rparr>
              in if os = [] then Some (put (rel_deposit AllGood s2) g)
                 else
                   map_option (\<lambda>g1. put (rel_deposit (SomeOffline os) (get g1)) g1)
                     (if IsHeartbeatOffenceActive s2 then
                        report \<lparr>uo_session_index = i, uo_validator_set_count = as_u32 (length vs),
                                uo_offenders = os, uo_slash_fraction = HeartbeatSlashFraction s2\<rparr>
                          (put s2 g)
                      else Some (put s2 g))))"

subsection \<open>Calls\<close>

type_synonym 'x relay_result = "('x relay, error, unit) outcome"

definition rel_signed :: "origin \<Rightarrow> 'x relay \<Rightarrow> (acct \<Rightarrow> 'x relay_result) \<Rightarrow> 'x relay_result" where
  "rel_signed og s k = (case og of Signed a \<Rightarrow> k a | _ \<Rightarrow> Fail BadOrigin s)"

definition rel_root :: "origin \<Rightarrow> 'x relay \<Rightarrow> 'x relay_result \<Rightarrow> 'x relay_result" where
  "rel_root og s k = (if og = Root then k else Fail BadOrigin s)"

definition relay_set_storage_cache_lifetime :: "origin \<Rightarrow> nat \<Rightarrow> 'x relay \<Rightarrow> 'x relay_result" where
  "relay_set_storage_cache_lifetime og new s = rel_root og s
     (if new < 1 then Fail (RelayError RelayCannotSetBelowOne) s
      else if RStorageCacheLifetime s = new then Fail (RelayError RelayNoWritingSameValue) s
      else Done () (rel_deposit (RelayStorageCacheLifetimeSet (RStorageCacheLifetime s) new)
             (s\<lparr>RStorageCacheLifetime := new\<rparr>)))"

definition set_heartbeat_offence_activation :: "origin \<Rightarrow> bool \<Rightarrow> 'x relay \<Rightarrow> 'x relay_result" where
  "set_heartbeat_offence_activation og b s = rel_root og s
     (if b = IsHeartbeatOffenceActive s then Fail (RelayError RelayNoWritingSameValue) s
      else Done () (rel_deposit (HeartbeatOffenceActivationSet b) (s\<lparr>IsHeartbeatOffenceActive := b\<rparr>)))"

definition set_heartbeat_slash_fraction :: "origin \<Rightarrow> perbill \<Rightarrow> 'x relay \<Rightarrow> 'x relay_result" where
  "set_heartbeat_slash_fraction og new s = rel_root og s
     (if HeartbeatSlashFraction s = new then Fail (RelayError RelayNoWritingSameValue) s
      else Done () (rel_deposit (HeartbeatSlashFractionSet (HeartbeatSlashFraction s) new)
             (s\<lparr>HeartbeatSlashFraction := new\<rparr>)))"

definition add_to_relayer_sets :: "acct \<Rightarrow> acct \<Rightarrow> 'x relay \<Rightarrow> 'x relay_result" where
  "add_to_relayer_sets old new s =
     (let r = RRound s; sets = DelayedRelayerSets s r
      in if list_ex (\<lambda>d. dr_old d = old \<or> dr_new d = new) sets
         then Fail (RelayError AlreadyRelayerSetRequested) s
         else (case try_push sets \<lparr>dr_old = old, dr_new = new\<rparr> of
                 None \<Rightarrow> Fail (RelayError TooManyDelayedRelayers) s
               | Some sets' \<Rightarrow>
                   Done () (s\<lparr>DelayedRelayerSets := (DelayedRelayerSets s)(r := sets')\<rparr>)))"

definition remove_relayer_set :: "acct \<Rightarrow> 'x relay \<Rightarrow> 'x relay" where
  "remove_relayer_set a s =
     s\<lparr>DelayedRelayerSets := (DelayedRelayerSets s)
         (RRound s := filter (\<lambda>d. dr_old d \<noteq> a) (DelayedRelayerSets s (RRound s)))\<rparr>"

definition set_relayer :: "origin \<Rightarrow> acct \<Rightarrow> 'x relay \<Rightarrow> 'x relay_result" where
  "set_relayer og new s = rel_signed og s (\<lambda>c.
     (case BondedController s c of
        None \<Rightarrow> Fail (RelayError ControllerDNE) s
      | Some old \<Rightarrow>
          if old = new then Fail (RelayError RelayNoWritingSameValue) s
          else if \<not> is_relayer old s then Fail (RelayError RelayerDNE) s
          else if is_relayer new s then Fail (RelayError RelayerAlreadyJoined) s
          else if is_relayer_set_requested old s then Fail (RelayError AlreadyRelayerSetRequested) s
          else bind_outcome (add_to_relayer_sets old new s)
                 (\<lambda>_ s1. Done () (rel_deposit (RelayerSet old new) s1))))"

definition cancel_relayer_set :: "origin \<Rightarrow> 'x relay \<Rightarrow> 'x relay_result" where
  "cancel_relayer_set og s = rel_signed og s (\<lambda>c.
     (case BondedController s c of
        None \<Rightarrow> Fail (RelayError ControllerDNE) s
      | Some a \<Rightarrow>
          if \<not> is_relayer_set_requested a s then Fail (RelayError RelayerSetDNE) s
          else Done () (rel_deposit (RelayerSetCancelled a) (remove_relayer_set a s))))"

definition heartbeat_with ::
  "'x RelayConfig \<Rightarrow> (RelayerMetadata \<Rightarrow> RelayerMetadata) \<Rightarrow> origin \<Rightarrow> 'x relay \<Rightarrow> 'x relay_result" where
  "heartbeat_with R upd og s = rel_signed og s (\<lambda>a.
     if \<not> is_relayer a s then Fail (RelayError RelayerDNE) s
     else if \<not> is_selected_relayer a False s then Fail (RelayError RelayerInactive) s
     else
       let (pulsed, s1) = pulse_heartbeat R a s
       in if pulsed then
            (case RelayerState s1 a of
               None \<Rightarrow> Panic
             | Some m \<Rightarrow>
                 Done () (rel_deposit (HeartbeatReceived a) (put_relayer a (upd (rm_go_online m)) s1)))
          else Done () s1)"

definition heartbeat :: "'x RelayConfig \<Rightarrow> origin \<Rightarrow> 'x relay \<Rightarrow> 'x relay_result" where
  "heartbeat R og s = heartbeat_with R (\<lambda>m. m) og s"

definition heartbeat_v2 :: "'x RelayConfig \<Rightarrow> origin \<Rightarrow> nat \<Rightarrow> nat \<Rightarrow> 'x relay \<Rightarrow> 'x relay_result" where
  "heartbeat_v2 R og iv sv s =
     heartbeat_with R (\<lambda>m. m\<lparr>rm_impl_version := Some iv, rm_spec_version := Some sv\<rparr>) og s"

definition relay_genesis :: "nat \<Rightarrow> bool \<Rightarrow> perbill \<Rightarrow> 'x relay \<Rightarrow> 'x relay" where
  "relay_genesis lifetime active fraction s =
     s\<lparr>RStorageCacheLifetime := lifetime, IsHeartbeatOffenceActive := active,
       HeartbeatSlashFraction := fraction\<rparr>"

end
