(* ===== verification/Relay_Wf.thy ===== *)
theory Relay_Wf
  imports Relay_Manager
begin

text \<open>
  The invariant of the relay manager's storage, that every operation keeps it, and that under it
  no \<open>expect\<close> of the pallet fails.
\<close>

subsection \<open>The invariant\<close>

text \<open>
  Bonds between controllers and relayers are one-to-one and the pool lists exactly the bonded
  pairs; no account that is to replace a relayer is a relayer yet.
\<close>

definition bonds_wf :: "'x relay \<Rightarrow> bool" where
  "bonds_wf s \<longleftrightarrow>
     (\<forall>c a. BondedController s c = Some a \<longleftrightarrow>
        (\<exists>m. RelayerState s a = Some m \<and> rm_controller m = c))"

definition pool_wf :: "'x relay \<Rightarrow> bool" where
  "pool_wf s \<longleftrightarrow>
     distinct (map rp_relayer (RelayerPool s)) \<and> length (RelayerPool s) \<le> MAX_AUTHORITIES \<and>
     (\<forall>a c. \<lparr>rp_relayer = a, rp_controller = c\<rparr> \<in> set (RelayerPool s) \<longleftrightarrow>
        BondedController s c = Some a)"

definition sel_wf :: "'x relay \<Rightarrow> bool" where
  "sel_wf s \<longleftrightarrow> bt_wf (SelectedRelayers s) \<and> length (SelectedRelayers s) \<le> MAX_AUTHORITIES"

definition sets_wf :: "round_index \<Rightarrow> 'x relay \<Rightarrow> bool" where
  "sets_wf r s \<longleftrightarrow>
     distinct (map dr_new (DelayedRelayerSets s r)) \<and>
     (\<forall>d\<in>set (DelayedRelayerSets s r). RelayerState s (dr_new d) = None) \<and>
     (\<forall>q. q \<noteq> r \<longrightarrow> DelayedRelayerSets s q = [])"

definition relay_wf :: "round_index \<Rightarrow> 'x relay \<Rightarrow> bool" where
  "relay_wf r s \<longleftrightarrow> bonds_wf s \<and> pool_wf s \<and> sel_wf s \<and> sets_wf r s"

text \<open>The stored majority is that of the selected relayers.\<close>

definition majority_ok :: "'x relay \<Rightarrow> bool" where
  "majority_ok s \<longleftrightarrow> RMajority s = relay_compute_majority s"

lemmas relay_wf_defs = relay_wf_def bonds_wf_def pool_wf_def sel_wf_def sets_wf_def

lemma relay_wfD:
  assumes "relay_wf r s"
  shows "BondedController s c = Some a \<Longrightarrow> \<exists>m. RelayerState s a = Some m \<and> rm_controller m = c"
    "RelayerState s a = Some m \<Longrightarrow> BondedController s (rm_controller m) = Some a"
    "BondedController s c = Some a \<longleftrightarrow> \<lparr>rp_relayer = a, rp_controller = c\<rparr> \<in> set (RelayerPool s)"
    "distinct (map rp_relayer (RelayerPool s))" "length (RelayerPool s) \<le> MAX_AUTHORITIES"
  using assms by (auto simp: relay_wf_def bonds_wf_def pool_wf_def)

lemma bonded_inj:
  assumes "relay_wf r s" "BondedController s c = Some a" "BondedController s c' = Some a"
  shows "c = c'"
  using relay_wfD(1) [OF assms(1,2)] relay_wfD(1) [OF assms(1,3)] by auto

lemma relayer_eq: "r = \<lparr>rp_relayer = rp_relayer r, rp_controller = rp_controller r\<rparr>"
  by simp

lemma pool_relayer_state:
  assumes "relay_wf q s" "r \<in> set (RelayerPool s)"
  shows "\<exists>m. RelayerState s (rp_relayer r) = Some m \<and> rm_controller m = rp_controller r"
  using relay_wfD(1,3) [OF assms(1)] assms(2) relayer_eq [of r] by metis

text \<open>Changes of the relayers' metadata that keep the controllers.\<close>

definition same_relayers :: "'x relay \<Rightarrow> 'x relay \<Rightarrow> bool" where
  "same_relayers s s' \<longleftrightarrow>
     (\<forall>a. map_option rm_controller (RelayerState s' a) = map_option rm_controller (RelayerState s a)) \<and>
     BondedController s' = BondedController s \<and> RelayerPool s' = RelayerPool s \<and>
     DelayedRelayerSets s' = DelayedRelayerSets s"

lemma same_relayers_refl [simp]: "same_relayers s s"
  by (simp add: same_relayers_def)

lemma same_relayers_trans: "same_relayers s t \<Longrightarrow> same_relayers t u \<Longrightarrow> same_relayers s u"
  by (simp add: same_relayers_def)

lemma same_relayers_state:
  assumes "same_relayers s s'"
  shows "(\<exists>m. RelayerState s' a = Some m \<and> rm_controller m = c) \<longleftrightarrow>
      (\<exists>m. RelayerState s a = Some m \<and> rm_controller m = c)"
    "RelayerState s' a = None \<longleftrightarrow> RelayerState s a = None"
proof -
  have eq: "map_option rm_controller (RelayerState s' a) = map_option rm_controller (RelayerState s a)"
    using assms by (simp add: same_relayers_def)
  then show "RelayerState s' a = None \<longleftrightarrow> RelayerState s a = None"
    by (metis None_eq_map_option_iff)
  show "(\<exists>m. RelayerState s' a = Some m \<and> rm_controller m = c) \<longleftrightarrow>
      (\<exists>m. RelayerState s a = Some m \<and> rm_controller m = c)"
    using eq by (cases "RelayerState s a"; cases "RelayerState s' a") auto
qed

lemma relay_wf_same:
  assumes "relay_wf r s" "same_relayers s s'" "sel_wf s'"
  shows "relay_wf r s'"
  using assms same_relayers_state [OF assms(2)]
  by (simp add: relay_wf_def bonds_wf_def pool_wf_def sets_wf_def same_relayers_def)

lemma same_relayers_put:
  "RelayerState s a = Some m \<Longrightarrow> rm_controller m' = rm_controller m \<Longrightarrow>
   same_relayers s (put_relayer a m' s)"
  by (simp add: same_relayers_def put_relayer_def)

lemma rm_controller_simps [simp]:
  "rm_controller (rm_go_offline m) = rm_controller m"
  "rm_controller (rm_go_online m) = rm_controller m"
  "rm_controller (rm_kick_out m) = rm_controller m"
  "rm_controller (rm_set_controller c m) = c"
  "rm_controller (RelayerMetadata_new c) = c"
  by (simp_all add: rm_go_offline_def rm_go_online_def rm_kick_out_def rm_set_controller_def
      RelayerMetadata_new_def)

lemma put_relayer_fields [simp]:
  "SelectedRelayers (put_relayer a m s) = SelectedRelayers s"
  "RelayerPool (put_relayer a m s) = RelayerPool s"
  "BondedController (put_relayer a m s) = BondedController s"
  "DelayedRelayerSets (put_relayer a m s) = DelayedRelayerSets s"
  "RelayerState (put_relayer a m s) = (RelayerState s)(a \<mapsto> m)"
  "RRound (put_relayer a m s) = RRound s"
  "RMajority (put_relayer a m s) = RMajority s"
  "rel_ext (put_relayer a m s) = rel_ext s"
  "ReceivedHeartbeats (put_relayer a m s) = ReceivedHeartbeats s"
  by (simp_all add: put_relayer_def)

lemma rel_deposit_fields [simp]:
  "SelectedRelayers (rel_deposit e s) = SelectedRelayers s"
  "RelayerPool (rel_deposit e s) = RelayerPool s"
  "BondedController (rel_deposit e s) = BondedController s"
  "DelayedRelayerSets (rel_deposit e s) = DelayedRelayerSets s"
  "RelayerState (rel_deposit e s) = RelayerState s"
  "RRound (rel_deposit e s) = RRound s"
  "RMajority (rel_deposit e s) = RMajority s"
  "rel_ext (rel_deposit e s) = rel_ext s"
  by (simp_all add: rel_deposit_def)

lemma relay_wf_deposit [simp]: "relay_wf r (rel_deposit e s) = relay_wf r s"
  by (simp add: relay_wf_defs)

subsection \<open>Joining and leaving\<close>

lemma join_relayers_ok:
  assumes wf: "relay_wf (RRound s) s" and j: "join_relayers a c s = Done u s'"
  shows "relay_wf (RRound s') s'" "BondedController s' = (BondedController s)(c \<mapsto> a)"
    "RelayerState s' = (RelayerState s)(a \<mapsto> RelayerMetadata_new c)"
    "SelectedRelayers s' = SelectedRelayers s" "RMajority s' = RMajority s"
proof -
  have free: "RelayerState s a = None" "BondedController s c = None"
    and new: "\<forall>d\<in>set (DelayedRelayerSets s (RRound s)). dr_new d \<noteq> a"
    and room: "length (RelayerPool s) < MAX_AUTHORITIES"
    and s': "s' = rel_deposit (JoinedRelayers a c)
      (s\<lparr>RelayerPool := RelayerPool s @ [\<lparr>rp_relayer = a, rp_controller = c\<rparr>],
         RelayerState := (RelayerState s)(a \<mapsto> RelayerMetadata_new c),
         BondedController := (BondedController s)(c \<mapsto> a)\<rparr>)"
    using j by (auto simp: join_relayers_def verify_relayer_existence_def is_relayer_def
        add_to_relayer_pool_def try_push_def put_relayer_def list_ex_iff
        split: if_splits option.splits)
  have notin: "a \<notin> rp_relayer ` set (RelayerPool s)"
    using pool_relayer_state [OF wf] free(1) by force
  have nb: "BondedController s c' \<noteq> Some a" for c' using relay_wfD(1) [OF wf] free(1) by force
  have nc: "rm_controller m \<noteq> c" if "RelayerState s a' = Some m" for a' m
    using relay_wfD(2) [OF wf that] free(2) by auto
  have B: "BondedController s c' = Some a' \<longleftrightarrow> (\<exists>m. RelayerState s a' = Some m \<and> rm_controller m = c')"
    for c' a' using wf by (simp add: relay_wf_def bonds_wf_def)
  have "bonds_wf s'"
    unfolding bonds_wf_def s' using nb nc free(2) by (auto simp: B)
  moreover have "pool_wf s'"
    using wf free nb notin room by (auto simp: s' relay_wf_def pool_wf_def)
  ultimately show "relay_wf (RRound s') s'"
    using wf new by (auto simp: s' relay_wf_def sel_wf_def sets_wf_def)
qed (use j in \<open>auto simp: join_relayers_def add_to_relayer_pool_def put_relayer_def rel_deposit_def
      split: option.splits\<close>)

lemma leave_relayers_ok:
  assumes wf: "relay_wf r s"
  shows "relay_wf r (leave_relayers c s)"
proof (cases "BondedController s c")
  case None
  then show ?thesis using wf by (simp add: leave_relayers_def)
next
  case (Some a)
  have st: "\<exists>m. RelayerState s a = Some m \<and> rm_controller m = c" by (rule relay_wfD(1) [OF wf Some])
  have other: "BondedController s c' = Some a \<longleftrightarrow> c' = c" for c'
    using bonded_inj [OF wf Some, of c'] Some by auto
  have s': "leave_relayers c s =
     s\<lparr>BondedController := (BondedController s)(c := None),
       RelayerPool := filter (\<lambda>x. rp_relayer x \<noteq> a) (RelayerPool s),
       RelayerState := (RelayerState s)(a := None)\<rparr>"
    using Some by (simp add: leave_relayers_def remove_from_relayer_pool_def Let_def)
  have B: "BondedController s c' = Some a' \<longleftrightarrow> (\<exists>m. RelayerState s a' = Some m \<and> rm_controller m = c')"
    for c' a' using wf by (simp add: relay_wf_def bonds_wf_def)
  have uniq: "a' = a" if "RelayerState s a' = Some m" "rm_controller m = c" for a' m
    using relay_wfD(2) [OF wf that(1)] that(2) Some by simp
  have "bonds_wf (leave_relayers c s)"
    unfolding bonds_wf_def s' using other by (auto simp: B dest: uniq)
  moreover have oc: "BondedController s c = Some a' \<longleftrightarrow> a' = a" for a' using Some by auto
  have "pool_wf (leave_relayers c s)"
    using wf other oc
    by (auto simp: s' relay_wf_def pool_wf_def distinct_map_filter intro: order_trans [OF length_filter_le])
  ultimately show ?thesis
    using wf by (auto simp: s' relay_wf_def sel_wf_def sets_wf_def)
qed

subsection \<open>Kick-outs\<close>

lemma sel_wf_remove: "sel_wf s \<Longrightarrow> sel_wf (s\<lparr>SelectedRelayers := bt_remove a (SelectedRelayers s)\<rparr>)"
  by (auto simp: sel_wf_def bt_remove_def intro: order_trans [OF length_filter_le] bt_wf_remove
      [unfolded bt_remove_def])

lemma kickout_relayer_ok:
  assumes wf: "relay_wf r s"
  shows "\<exists>s'. kickout_relayer c s = Some s' \<and> relay_wf r s' \<and> same_relayers s s' \<and>
    RRound s' = RRound s \<and> (majority_ok s \<longrightarrow> majority_ok s') \<and>
    (case BondedController s c of
       None \<Rightarrow> s' = s
     | Some a \<Rightarrow> SelectedRelayers s' = bt_remove a (SelectedRelayers s) \<and>
         (\<exists>m. RelayerState s' a = Some m \<and> rm_status m = RKickedOut))"
proof (cases "BondedController s c")
  case None
  then show ?thesis using wf by (simp add: kickout_relayer_def)
next
  case (Some a)
  obtain m where m: "RelayerState s a = Some m" using relay_wfD(1) [OF wf Some] by auto
  let ?s1 = "(put_relayer a (rm_kick_out m) s)\<lparr>SelectedRelayers := bt_remove a (SelectedRelayers s)\<rparr>"
  have sel: "sel_wf ?s1" using wf sel_wf_remove [of "put_relayer a (rm_kick_out m) s" a]
    by (simp add: relay_wf_def sel_wf_def)
  have same: "same_relayers s ?s1" using m by (simp add: same_relayers_def)
  show ?thesis
  proof (cases "set_contains a (SelectedRelayers s)")
    case True
    let ?s2 = "refresh_latest_cached_relayers ?s1"
    let ?s3 = "relay_refresh_latest_cached_majority (?s2\<lparr>RMajority := relay_compute_majority ?s2\<rparr>)"
    have k: "kickout_relayer c s = Some ?s3"
      using True Some m by (simp add: kickout_relayer_def remove_from_selected_relayers_def Let_def)
    have "same_relayers s ?s3" "sel_wf ?s3"
      using same sel by (simp_all add: same_relayers_def sel_wf_def refresh_latest_cached_relayers_def
          relay_refresh_latest_cached_majority_def)
    moreover from relay_wf_same [OF wf this] have "relay_wf r ?s3" .
    ultimately show ?thesis
      using k Some by (simp add: majority_ok_def relay_compute_majority_def rm_kick_out_def
          refresh_latest_cached_relayers_def relay_refresh_latest_cached_majority_def)
  next
    case False
    then have "bt_remove a (SelectedRelayers s) = SelectedRelayers s"
      by (force simp: bt_remove_def bt_contains_iff intro!: filter_True)
    moreover have "kickout_relayer c s = Some ?s1"
      using False Some m by (simp add: kickout_relayer_def remove_from_selected_relayers_def Let_def)
    ultimately show ?thesis
      using Some same relay_wf_same [OF wf same sel]
      by (simp add: majority_ok_def relay_compute_majority_def rm_kick_out_def)
  qed
qed

subsection \<open>Selection\<close>

lemma refresh_pool_loop_ok:
  assumes "\<And>r. r \<in> set rs \<Longrightarrow> RelayerState s (rp_relayer r) \<noteq> None"
  shows "\<exists>s'. refresh_pool_loop rs s = Some s' \<and> same_relayers s s' \<and>
    s' = s\<lparr>RelayerState := RelayerState s'\<rparr> \<and>
    (\<forall>a. a \<notin> rp_relayer ` set rs \<longrightarrow> RelayerState s' a = RelayerState s a) \<and>
    (\<forall>a\<in>rp_relayer ` set rs. \<exists>m. RelayerState s' a = Some m \<and> rm_status m \<noteq> RActive)"
  using assms
proof (induction rs arbitrary: s)
  case (Cons r rs)
  obtain m where m: "RelayerState s (rp_relayer r) = Some m" using Cons.prems by force
  let ?m = "if rm_is_kicked_out m then m else rm_go_offline m"
  let ?s1 = "put_relayer (rp_relayer r) ?m s"
  have "\<And>x. x \<in> set rs \<Longrightarrow> RelayerState ?s1 (rp_relayer x) \<noteq> None" using Cons.prems by simp
  from Cons.IH [OF this] obtain s' where IH: "refresh_pool_loop rs ?s1 = Some s'"
    "same_relayers ?s1 s'" "s' = ?s1\<lparr>RelayerState := RelayerState s'\<rparr>"
    "\<forall>a. a \<notin> rp_relayer ` set rs \<longrightarrow> RelayerState s' a = RelayerState ?s1 a"
    "\<forall>a\<in>rp_relayer ` set rs. \<exists>m. RelayerState s' a = Some m \<and> rm_status m \<noteq> RActive"
    by blast
  have "same_relayers s s'"
    using same_relayers_trans [OF same_relayers_put [OF m, of ?m] IH(2)] by simp
  moreover have "\<exists>m. RelayerState s' (rp_relayer r) = Some m \<and> rm_status m \<noteq> RActive"
    using IH(4,5) by (cases "rp_relayer r \<in> rp_relayer ` set rs")
      (auto simp: rm_is_kicked_out_def rm_go_offline_def)
  ultimately show ?case
    using IH m by (auto simp: put_relayer_def)
qed simp

lemma select_relayers_ok:
  assumes "bt_wf sel" "fst ` set sel \<subseteq> A" "finite A" "card A \<le> MAX_AUTHORITIES"
    "\<And>c a. BondedController s c = Some a \<Longrightarrow> RelayerState s a \<noteq> None \<and> a \<in> A"
  shows "\<exists>sel' s'. select_relayers rnd cs sel s = Some (sel', s') \<and> same_relayers s s' \<and>
    bt_wf sel' \<and> fst ` set sel' \<subseteq> A \<and> RRound s' = RRound s \<and> RStorageCacheLifetime s' = RStorageCacheLifetime s \<and>
    (\<forall>a. set_contains a sel' \<longleftrightarrow> set_contains a sel \<or> (\<exists>c\<in>set cs. BondedController s c = Some a)) \<and>
    (\<forall>a. (\<exists>c\<in>set cs. BondedController s c = Some a) \<longrightarrow>
        (\<exists>m. RelayerState s' a = Some m \<and> rm_status m = RActive)) \<and>
    (\<forall>a. \<not> (\<exists>c\<in>set cs. BondedController s c = Some a) \<longrightarrow> RelayerState s' a = RelayerState s a)"
  using assms
proof (induction cs arbitrary: sel s)
  case (Cons c cs)
  show ?case
  proof (cases "BondedController s c")
    case None
    with Cons.IH [OF Cons.prems] show ?thesis by auto
  next
    case (Some a)
    obtain m where m: "RelayerState s a = Some m" "a \<in> A" using Cons.prems(5) [OF Some] by auto
    have "bt_try_insert a () sel = Some (bt_insert a () sel)"
    proof (cases "bt_contains a sel")
      case False
      then have "fst ` set sel \<subset> A" using Cons.prems(2) m(2) by (auto simp: bt_contains_iff)
      then have "length sel < card A"
        using psubset_card_mono [OF Cons.prems(3)] length_keys [OF Cons.prems(1)] by simp
      then show ?thesis using Cons.prems(4) by (simp add: bt_try_insert_def)
    qed (simp add: bt_try_insert_def)
    moreover let ?s1 = "rel_deposit (RelayerChosen rnd a c) (put_relayer a (rm_go_online m) s)"
    have "same_relayers s ?s1" using m by (simp add: same_relayers_def)
    moreover have "\<exists>sel' s'. select_relayers rnd cs (bt_insert a () sel) ?s1 = Some (sel', s') \<and>
      same_relayers ?s1 s' \<and> bt_wf sel' \<and> fst ` set sel' \<subseteq> A \<and> RRound s' = RRound ?s1 \<and>
      RStorageCacheLifetime s' = RStorageCacheLifetime ?s1 \<and>
      (\<forall>x. set_contains x sel' \<longleftrightarrow> set_contains x (bt_insert a () sel) \<or>
          (\<exists>c\<in>set cs. BondedController ?s1 c = Some x)) \<and>
      (\<forall>x. (\<exists>c\<in>set cs. BondedController ?s1 c = Some x) \<longrightarrow>
          (\<exists>m. RelayerState s' x = Some m \<and> rm_status m = RActive)) \<and>
      (\<forall>x. \<not> (\<exists>c\<in>set cs. BondedController ?s1 c = Some x) \<longrightarrow> RelayerState s' x = RelayerState ?s1 x)"
      by (rule Cons.IH) (use Cons.prems m in \<open>auto simp: bt_keys_insert\<close>)
    then obtain sel' s' where IH: "select_relayers rnd cs (bt_insert a () sel) ?s1 = Some (sel', s')"
      "same_relayers ?s1 s'" "bt_wf sel'" "fst ` set sel' \<subseteq> A" "RRound s' = RRound s"
      "RStorageCacheLifetime s' = RStorageCacheLifetime s"
      "\<And>x. set_contains x sel' \<longleftrightarrow> x = a \<or> set_contains x sel \<or> (\<exists>c\<in>set cs. BondedController s c = Some x)"
      "\<And>x. (\<exists>c\<in>set cs. BondedController s c = Some x) \<Longrightarrow>
        (\<exists>m. RelayerState s' x = Some m \<and> rm_status m = RActive)"
      "\<And>x. \<not> (\<exists>c\<in>set cs. BondedController s c = Some x) \<Longrightarrow>
        RelayerState s' x = ((RelayerState s)(a \<mapsto> rm_go_online m)) x"
      by (auto simp: rel_deposit_def put_relayer_def)
    moreover have "\<exists>m. RelayerState s' a = Some m \<and> rm_status m = RActive"
      using IH(8) [of a] IH(9) [of a] by (cases "\<exists>c\<in>set cs. BondedController s c = Some a")
        (auto simp: rm_go_online_def)
    ultimately show ?thesis
      using Some m same_relayers_trans [of s ?s1 s']
      by (intro exI [of _ sel'] exI [of _ s'] conjI) auto
  qed
qed simp

lemma pool_keys: "relay_wf r s \<Longrightarrow> BondedController s c = Some a \<Longrightarrow> a \<in> rp_relayer ` set (RelayerPool s)"
  using relay_wfD(3) [of r s c a] by force

lemma refresh_selected_relayers_ok:
  assumes wf: "relay_wf r s"
  shows "\<exists>s'. refresh_selected_relayers rnd cs s = Some s' \<and> relay_wf r s' \<and> same_relayers s s' \<and>
    RRound s' = RRound s \<and>
    (\<forall>a. set_contains a (SelectedRelayers s') \<longleftrightarrow> (\<exists>c\<in>set cs. BondedController s c = Some a)) \<and>
    InitialSelectedRelayers s' = SelectedRelayers s' \<and>
    bt_get (CachedSelectedRelayers s') rnd = Some (SelectedRelayers s') \<and>
    (\<forall>a m. RelayerState s' a = Some m \<longrightarrow>
       (rm_status m = RActive \<longleftrightarrow> set_contains a (SelectedRelayers s')))"
proof -
  let ?A = "rp_relayer ` set (RelayerPool s)"
  have "\<And>x. x \<in> set (RelayerPool s) \<Longrightarrow> RelayerState s (rp_relayer x) \<noteq> None"
    using pool_relayer_state [OF wf] by force
  from refresh_pool_loop_ok [of "RelayerPool s" s, OF this] obtain s1 where
    s1: "refresh_relayer_pool s = Some s1" "same_relayers s s1" "s1 = s\<lparr>RelayerState := RelayerState s1\<rparr>"
      "\<forall>a\<in>?A. \<exists>m. RelayerState s1 a = Some m \<and> rm_status m \<noteq> RActive"
    unfolding refresh_relayer_pool_def by blast
  have bc: "BondedController s1 = BondedController s" using s1(2) by (simp add: same_relayers_def)
  have card: "card ?A \<le> MAX_AUTHORITIES"
    using relay_wfD(5) [OF wf] by (metis (no_types) card_image_le card_length finite_set order_trans)
  have st: "RelayerState s1 a \<noteq> None \<and> a \<in> ?A" if "BondedController s1 c = Some a" for c a
    using that s1(4) pool_keys [OF wf] unfolding bc by fastforce
  obtain sel s2 where
    s2: "select_relayers rnd cs [] s1 = Some (sel, s2)" "same_relayers s1 s2" "bt_wf sel"
      "fst ` set sel \<subseteq> ?A" "RRound s2 = RRound s1"
      "\<And>a. set_contains a sel \<longleftrightarrow> (\<exists>c\<in>set cs. BondedController s c = Some a)"
      "\<And>a. (\<exists>c\<in>set cs. BondedController s c = Some a) \<Longrightarrow>
        (\<exists>m. RelayerState s2 a = Some m \<and> rm_status m = RActive)"
      "\<And>a. \<not> (\<exists>c\<in>set cs. BondedController s c = Some a) \<Longrightarrow> RelayerState s2 a = RelayerState s1 a"
    using select_relayers_ok [of "[]" ?A s1 rnd cs] card st
    by (auto simp: bc bt_contains_def)
  let ?s' = "refresh_cached_selected_relayers rnd sel
    (s2\<lparr>SelectedRelayers := sel, InitialSelectedRelayers := sel\<rparr>)"
  have fields: "RelayerState ?s' = RelayerState s2" "SelectedRelayers ?s' = sel"
      "InitialSelectedRelayers ?s' = sel" "RRound ?s' = RRound s2"
      "bt_get (CachedSelectedRelayers ?s') rnd = Some sel"
    by (simp_all add: refresh_cached_selected_relayers_def cache_insert_get)
  have same: "same_relayers s ?s'"
    using same_relayers_trans [OF s1(2) s2(2)]
    by (simp add: same_relayers_def refresh_cached_selected_relayers_def)
  have "length sel \<le> MAX_AUTHORITIES"
    using length_keys [OF s2(3)] card_mono [OF _ s2(4)] card by simp
  then have sw: "sel_wf ?s'" using s2(3) fields(2) by (simp add: sel_wf_def)
  have act: "rm_status m = RActive \<longleftrightarrow> set_contains a sel" if m: "RelayerState s2 a = Some m" for a m
  proof (cases "\<exists>c\<in>set cs. BondedController s c = Some a")
    case True
    then show ?thesis using s2(6) [of a] s2(7) [OF True] m by auto
  next
    case False
    have "BondedController s (rm_controller m') = Some a"
      if "RelayerState s a = Some m'" for m' by (rule relay_wfD(2) [OF wf that])
    moreover have "RelayerState s a \<noteq> None"
      using m s2(8) [OF False] same_relayers_state(2) [OF s1(2), of a] by simp
    ultimately have "a \<in> ?A" using pool_keys [OF wf] by fastforce
    then show ?thesis using s1(4) s2(6,8) False m by fastforce
  qed
  have "refresh_selected_relayers rnd cs s = Some ?s'"
    using s1(1) s2(1) by (simp add: refresh_selected_relayers_def)
  moreover have "RRound s1 = RRound s" using arg_cong [OF s1(3), of RRound] by simp
  ultimately show ?thesis
    using relay_wf_same [OF wf same sw] same fields s2(5,6) act by auto
qed

subsection \<open>Replacing controllers and relayers\<close>

lemma filter_pool_controller:
  assumes wf: "relay_wf r s" and b: "BondedController s c = Some a"
  shows "filter (\<lambda>x. rp_controller x \<noteq> c) (RelayerPool s) = filter (\<lambda>x. rp_relayer x \<noteq> a) (RelayerPool s)"
proof (rule filter_cong [OF refl])
  fix x assume "x \<in> set (RelayerPool s)"
  then have "BondedController s (rp_controller x) = Some (rp_relayer x)"
    using relay_wfD(3) [OF wf] relayer_eq [of x] by metis
  then show "(rp_controller x \<noteq> c) = (rp_relayer x \<noteq> a)"
    using b bonded_inj [OF wf b, of "rp_controller x"] by auto
qed

lemma pool_shrinks:
  assumes wf: "relay_wf r s" and b: "BondedController s c = Some a"
  shows "length (filter (\<lambda>x. rp_relayer x \<noteq> a) (RelayerPool s)) < length (RelayerPool s)"
  using relay_wfD(3) [OF wf, of c a] b by (intro length_filter_less [of "\<lparr>rp_relayer = a, rp_controller = c\<rparr>"]) auto

text \<open>The bond of \<open>c\<close> to \<open>a\<close> becomes a bond of \<open>c'\<close> to \<open>a'\<close>, with the pool and the state moved along.\<close>

lemma rebond_wf:
  assumes wf: "relay_wf r s" and b: "BondedController s c = Some a" and m: "RelayerState s a = Some m"
    and c': "c' = c \<or> BondedController s c' = None"
    and a': "a' = a \<or> RelayerState s a' = None \<and> (\<forall>d\<in>set (DelayedRelayerSets s' r). dr_new d \<noteq> a')"
    and s': "BondedController s' = (BondedController s)(c := None, c' \<mapsto> a')"
      "RelayerState s' = (RelayerState s)(a := None, a' \<mapsto> m')" "rm_controller m' = c'"
      "RelayerPool s' = filter (\<lambda>x. rp_relayer x \<noteq> a) (RelayerPool s)
         @ [\<lparr>rp_relayer = a', rp_controller = c'\<rparr>]"
      "\<forall>q. q \<noteq> r \<longrightarrow> DelayedRelayerSets s' q = []" "distinct (map dr_new (DelayedRelayerSets s' r))"
      "set (DelayedRelayerSets s' r) \<subseteq> set (DelayedRelayerSets s r)" "sel_wf s'"
  shows "relay_wf r s'"
proof -
  have mc: "rm_controller m = c" using relay_wfD(1) [OF wf b] m by auto
  have B: "BondedController s x = Some y \<longleftrightarrow> (\<exists>k. RelayerState s y = Some k \<and> rm_controller k = x)"
    for x y using wf by (simp add: relay_wf_def bonds_wf_def)
  have P: "\<lparr>rp_relayer = y, rp_controller = x\<rparr> \<in> set (RelayerPool s) \<longleftrightarrow> BondedController s x = Some y"
    for x y using relay_wfD(3) [OF wf, of x y] by simp
  have key: "(BondedController s') x = Some y \<longleftrightarrow>
      (x = c' \<and> y = a') \<or> (y \<noteq> a \<and> BondedController s x = Some y)" for x y
  proof -
    have "x \<noteq> c" if "BondedController s x = Some y" "y \<noteq> a" using that b by auto
    moreover have "x \<noteq> c'" if "BondedController s x = Some y" "y \<noteq> a" using that b c' by auto
    moreover have "y \<noteq> a" if "BondedController s x = Some y" "x \<noteq> c"
      using bonded_inj [OF wf b, of x] that by auto
    ultimately show ?thesis by (auto simp: s'(1))
  qed
  have "bonds_wf s'"
    unfolding bonds_wf_def key using a' by (auto simp: s'(2,3) B)
  moreover have "pool_wf s'"
  proof -
    have "a' \<notin> rp_relayer ` set (filter (\<lambda>x. rp_relayer x \<noteq> a) (RelayerPool s))"
      using a' pool_relayer_state [OF wf] by force
    moreover have "Suc (length (filter (\<lambda>x. rp_relayer x \<noteq> a) (RelayerPool s))) \<le> MAX_AUTHORITIES"
      using pool_shrinks [OF wf b] relay_wfD(5) [OF wf] by simp
    ultimately show ?thesis
      using relay_wfD(4) [OF wf] by (auto simp: pool_wf_def key s'(4) distinct_map_filter P)
  qed
  moreover have "sets_wf r s'"
    using wf a' s'(5-7) m by (auto simp: relay_wf_def sets_wf_def s'(2))
  ultimately show ?thesis using s'(8) by (simp add: relay_wf_def)
qed

lemma replace_bonded_controller_ok:
  assumes wf: "relay_wf r s" and new: "BondedController s new = None"
  shows "\<exists>s'. replace_bonded_controller old new s = Some s' \<and> relay_wf r s' \<and> RRound s' = RRound s \<and>
    SelectedRelayers s' = SelectedRelayers s \<and> RMajority s' = RMajority s \<and>
    (case BondedController s old of
       None \<Rightarrow> s' = s
     | Some a \<Rightarrow> BondedController s' = (BondedController s)(old := None, new \<mapsto> a))"
proof (cases "BondedController s old")
  case None
  then show ?thesis using wf by (simp add: replace_bonded_controller_def)
next
  case (Some a)
  obtain m where m: "RelayerState s a = Some m" using relay_wfD(1) [OF wf Some] by auto
  let ?s' = "s\<lparr>BondedController := (BondedController s)(old := None, new \<mapsto> a),
    RelayerState := (RelayerState s)(a \<mapsto> rm_set_controller new m),
    RelayerPool := filter (\<lambda>x. rp_relayer x \<noteq> a) (RelayerPool s)
      @ [\<lparr>rp_relayer = a, rp_controller = new\<rparr>]\<rparr>"
  have "length (filter (\<lambda>x. rp_relayer x \<noteq> a) (RelayerPool s)) < MAX_AUTHORITIES"
    using pool_shrinks [OF wf Some] relay_wfD(5) [OF wf] by simp
  then have k: "replace_bonded_controller old new s = Some ?s'"
    using Some m filter_pool_controller [OF wf Some]
    by (simp add: replace_bonded_controller_def remove_from_relayer_pool_def add_to_relayer_pool_def
        try_push_def put_relayer_def Let_def)
  have "relay_wf r ?s'"
    by (rule rebond_wf [OF wf Some m, of new a _ "rm_set_controller new m"])
      (use wf new in \<open>auto simp: relay_wf_def sets_wf_def sel_wf_def\<close>)
  with k Some show ?thesis by simp
qed

lemma bt_remove_length: "bt_contains a m \<Longrightarrow> length (bt_remove a m) < length m"
  by (auto simp: bt_contains_iff bt_remove_def intro!: length_filter_less)

lemma swap_selected:
  assumes "sel_wf s" "set_contains old (SelectedRelayers s)"
  shows "bt_try_insert new () (bt_remove old (SelectedRelayers s)) =
      Some (bt_insert new () (bt_remove old (SelectedRelayers s)))"
    "sel_wf (s\<lparr>SelectedRelayers := bt_insert new () (bt_remove old (SelectedRelayers s))\<rparr>)"
  using assms bt_remove_length [OF assms(2)]
    bt_length_insert_le [of new "()" "bt_remove old (SelectedRelayers s)"]
  by (simp_all add: sel_wf_def bt_try_insert_def)

lemma replace_selected_relayers_ok:
  assumes "sel_wf s"
  shows "\<exists>s'. replace_selected_relayers R old new s = Done () s' \<and> sel_wf s' \<and>
    BondedController s' = BondedController s \<and> RelayerState s' = RelayerState s \<and>
    RelayerPool s' = RelayerPool s \<and> DelayedRelayerSets s' = DelayedRelayerSets s \<and>
    RRound s' = RRound s \<and> rel_ext s' = rel_ext s \<and>
    (set_contains old (SelectedRelayers s) \<longrightarrow>
       set_contains new (SelectedRelayers s') \<and>
       is_heartbeat_pulsed R new s' = is_heartbeat_pulsed R old s)"
proof (cases "set_contains old (SelectedRelayers s)")
  case True
  then show ?thesis
    using swap_selected [OF assms True]
    by (simp add: replace_selected_relayers_def remove_from_selected_relayers_def
        add_to_selected_relayers_def replace_heartbeats_def refresh_latest_cached_relayers_def
        sel_wf_def is_heartbeat_pulsed_def Let_def)
next
  case False
  then have "bt_remove old (SelectedRelayers s) = SelectedRelayers s"
    by (force simp: bt_remove_def bt_contains_iff intro!: filter_True)
  then show ?thesis
    using assms False by (simp add: replace_selected_relayers_def remove_from_selected_relayers_def sel_wf_def)
qed

lemma replace_bonded_relayer_ok:
  assumes wf: "relay_wf r s" and new: "RelayerState s new = None"
    and nd: "\<forall>d\<in>set (DelayedRelayerSets s r). dr_new d \<noteq> new"
  shows "\<exists>s'. replace_bonded_relayer R old new s = Done (RelayerState s old \<noteq> None) s' \<and> relay_wf r s' \<and>
    DelayedRelayerSets s' = DelayedRelayerSets s \<and> RRound s' = RRound s \<and> rel_ext s' = rel_ext s \<and>
    (case RelayerState s old of
       None \<Rightarrow> s' = s
     | Some m \<Rightarrow> RelayerState s' = (RelayerState s)(old := None, new \<mapsto> m) \<and>
         BondedController s' = (BondedController s)(rm_controller m \<mapsto> new) \<and>
         (set_contains old (SelectedRelayers s) \<longrightarrow>
            set_contains new (SelectedRelayers s') \<and>
            is_heartbeat_pulsed R new s' = is_heartbeat_pulsed R old s))"
proof (cases "RelayerState s old")
  case None
  then show ?thesis using wf by (simp add: replace_bonded_relayer_def)
next
  case (Some m)
  have b: "BondedController s (rm_controller m) = Some old" by (rule relay_wfD(2) [OF wf Some])
  let ?c = "rm_controller m"
  let ?s3 = "s\<lparr>BondedController := (BondedController s)(?c \<mapsto> new),
    RelayerState := (RelayerState s)(old := None, new \<mapsto> m),
    RelayerPool := filter (\<lambda>x. rp_relayer x \<noteq> old) (RelayerPool s)
      @ [\<lparr>rp_relayer = new, rp_controller = ?c\<rparr>]\<rparr>"
  have sel: "sel_wf ?s3" using wf by (simp add: relay_wf_def sel_wf_def)
  obtain s' where s': "replace_selected_relayers R old new ?s3 = Done () s'" "sel_wf s'"
    "BondedController s' = BondedController ?s3" "RelayerState s' = RelayerState ?s3"
    "RelayerPool s' = RelayerPool ?s3" "DelayedRelayerSets s' = DelayedRelayerSets s"
    "RRound s' = RRound s" "rel_ext s' = rel_ext s"
    "set_contains old (SelectedRelayers s) \<longrightarrow>
       set_contains new (SelectedRelayers s') \<and>
       is_heartbeat_pulsed R new s' = is_heartbeat_pulsed R old s"
    using replace_selected_relayers_ok [OF sel, of R old new] by (auto simp: is_heartbeat_pulsed_def)
  have "length (filter (\<lambda>x. rp_relayer x \<noteq> old) (RelayerPool s)) < MAX_AUTHORITIES"
    using pool_shrinks [OF wf b] relay_wfD(5) [OF wf] by simp
  then have k: "replace_bonded_relayer R old new s = Done True s'"
    using Some pool_shrinks [OF wf b] s'(1)
    by (simp add: replace_bonded_relayer_def replace_relayer_pool_def remove_from_relayer_pool_def
        add_to_relayer_pool_def try_push_def put_relayer_def Let_def)
  have "relay_wf r s'"
    by (rule rebond_wf [OF wf b Some, of ?c new _ m])
      (use wf new nd s'(2-6) in \<open>auto simp: relay_wf_def sets_wf_def\<close>)
  with k Some s' show ?thesis by auto
qed

lemma relayer_sets_loop_ok:
  assumes "relay_wf r s" "DelayedRelayerSets s = (\<lambda>_. [])" "distinct (map dr_new ds)"
    "\<forall>d\<in>set ds. RelayerState s (dr_new d) = None"
  shows "\<exists>s'. relayer_sets_loop R ds s = Some s' \<and> relay_wf r s' \<and> RRound s' = RRound s \<and>
    DelayedRelayerSets s' = (\<lambda>_. []) \<and>
    dom (BondedController s') = dom (BondedController s)"
  using assms
proof (induction ds arbitrary: s)
  case (Cons d ds)
  obtain s1 where s1: "replace_bonded_relayer R (dr_old d) (dr_new d) s =
      Done (RelayerState s (dr_old d) \<noteq> None) s1" "relay_wf r s1" "DelayedRelayerSets s1 = (\<lambda>_. [])"
    "RRound s1 = RRound s"
    "case RelayerState s (dr_old d) of
       None \<Rightarrow> s1 = s
     | Some m \<Rightarrow> RelayerState s1 = (RelayerState s)(dr_old d := None, dr_new d \<mapsto> m) \<and>
         BondedController s1 = (BondedController s)(rm_controller m \<mapsto> dr_new d)"
    using replace_bonded_relayer_ok [OF Cons.prems(1), of "dr_new d" R "dr_old d"] Cons.prems(2,4)
    by (auto split: option.splits)
  have "\<forall>e\<in>set ds. dr_new e \<noteq> dr_new d" using Cons.prems(3) by (auto simp: image_iff)
  then have news: "\<forall>e\<in>set ds. RelayerState s1 (dr_new e) = None"
    using s1(5) Cons.prems(3,4) by (auto split: option.splits)
  have doms: "dom (BondedController s1) = dom (BondedController s)"
    using s1(5) relay_wfD(2) [OF Cons.prems(1)]
    by (auto split: option.splits)
  have "\<exists>x. relayer_sets_loop R (d # ds) s = relayer_sets_loop R ds (s1\<lparr>rel_ext := x\<rparr>)"
  proof (cases "RelayerState s (dr_old d) = None")
    case True
    then show ?thesis using s1(1) by (intro exI [of _ "rel_ext s1"]) simp
  next
    case False
    then show ?thesis using s1(1) by (simp add: Let_def) (rule exI, rule refl)
  qed
  then obtain x where x: "relayer_sets_loop R (d # ds) s = relayer_sets_loop R ds (s1\<lparr>rel_ext := x\<rparr>)" ..
  have wf1: "relay_wf r (s1\<lparr>rel_ext := x\<rparr>)" using s1(2) by (simp add: relay_wf_defs)
  have "\<exists>s'. relayer_sets_loop R ds (s1\<lparr>rel_ext := x\<rparr>) = Some s' \<and> relay_wf r s' \<and>
      RRound s' = RRound (s1\<lparr>rel_ext := x\<rparr>) \<and> DelayedRelayerSets s' = (\<lambda>_. []) \<and>
      dom (BondedController s') = dom (BondedController (s1\<lparr>rel_ext := x\<rparr>))"
    by (rule Cons.IH [OF wf1]) (use s1(3) news Cons.prems(3) in simp_all)
  then show ?case unfolding x using doms s1(4) by auto
qed simp

text \<open>The delayed relayer sets of the finished round, in a state whose round is already the new one.\<close>

lemma handle_delayed_relayer_sets_ok:
  assumes wf: "relay_wf r s" and now: "sub32 now 1 = r"
  shows "\<exists>s'. handle_delayed_relayer_sets R now s = Some s' \<and> relay_wf q s' \<and> RRound s' = RRound s \<and>
    dom (BondedController s') = dom (BondedController s)"
proof -
  let ?s = "s\<lparr>DelayedRelayerSets := (DelayedRelayerSets s)(r := [])\<rparr>"
  have e: "DelayedRelayerSets ?s = (\<lambda>_. [])" using wf by (auto simp: relay_wf_def sets_wf_def)
  have "relay_wf q ?s" using wf by (auto simp: relay_wf_defs)
  from relayer_sets_loop_ok [OF this e, of "DelayedRelayerSets s r" R] wf show ?thesis
    unfolding handle_delayed_relayer_sets_def now Let_def by (auto simp: relay_wf_def sets_wf_def)
qed

subsection \<open>Heartbeats\<close>

text \<open>A validator is an offender when its relayer is bonded, sent no heartbeat and can be identified.\<close>

definition silent :: "'x RelayConfig \<Rightarrow> 'x relay \<Rightarrow> acct \<Rightarrow> bool" where
  "silent R s c = (case BondedController s c of None \<Rightarrow> False | Some a \<Rightarrow> \<not> is_heartbeat_pulsed R a s)"

lemma silent_put [simp]: "silent R (put_relayer a m s) c = silent R s c"
  by (simp add: silent_def is_heartbeat_pulsed_def split: option.splits)

lemma collect_offenders_ok:
  assumes "\<forall>c a. BondedController s c = Some a \<longrightarrow> RelayerState s a \<noteq> None"
  shows "\<exists>s'. collect_offenders R cs s =
      Some (filter (\<lambda>c. silent R s c \<and> vset_identifiable R c (rel_ext s)) cs, s') \<and>
    same_relayers s s' \<and> s' = s\<lparr>RelayerState := RelayerState s'\<rparr> \<and>
    (\<forall>c\<in>set cs. silent R s c \<longrightarrow>
       (\<exists>m. RelayerState s' (the (BondedController s c)) = Some m \<and> rm_status m = RIdle)) \<and>
    (\<forall>x. (\<forall>c\<in>set cs. BondedController s c \<noteq> Some x) \<longrightarrow> RelayerState s' x = RelayerState s x)"
  using assms
proof (induction cs arbitrary: s)
  case (Cons c cs)
  show ?case
  proof (cases "silent R s c")
    case False
    then have "collect_offenders R (c # cs) s = collect_offenders R cs s"
      by (auto simp: silent_def split: option.splits)
    moreover from Cons.IH [OF Cons.prems] obtain s' where "collect_offenders R cs s =
          Some (filter (\<lambda>c. silent R s c \<and> vset_identifiable R c (rel_ext s)) cs, s')"
        "same_relayers s s'" "s' = s\<lparr>RelayerState := RelayerState s'\<rparr>"
        "\<forall>c\<in>set cs. silent R s c \<longrightarrow>
          (\<exists>m. RelayerState s' (the (BondedController s c)) = Some m \<and> rm_status m = RIdle)"
        "\<forall>x. (\<forall>c\<in>set cs. BondedController s c \<noteq> Some x) \<longrightarrow> RelayerState s' x = RelayerState s x"
      by blast
    ultimately show ?thesis using False by (intro exI [of _ s'] conjI) auto
  next
    case True
    then obtain a m where a: "BondedController s c = Some a" "\<not> is_heartbeat_pulsed R a s"
      and m: "RelayerState s a = Some m"
      using Cons.prems by (fastforce simp: silent_def split: option.splits)
    let ?s1 = "put_relayer a (rm_go_offline m) s"
    have "\<forall>c a. BondedController ?s1 c = Some a \<longrightarrow> RelayerState ?s1 a \<noteq> None" using Cons.prems by simp
    from Cons.IH [OF this] obtain s' where
      s': "collect_offenders R cs ?s1 =
          Some (filter (\<lambda>c. silent R s c \<and> vset_identifiable R c (rel_ext s)) cs, s')"
        "same_relayers ?s1 s'" "s' = ?s1\<lparr>RelayerState := RelayerState s'\<rparr>"
        "\<forall>c\<in>set cs. silent R s c \<longrightarrow>
          (\<exists>m. RelayerState s' (the (BondedController s c)) = Some m \<and> rm_status m = RIdle)"
        "\<forall>x. (\<forall>c\<in>set cs. BondedController s c \<noteq> Some x) \<longrightarrow> RelayerState s' x = RelayerState ?s1 x"
      by (simp del: not_None_eq) blast
    have keep: "\<exists>m. RelayerState s' a = Some m \<and> rm_status m = RIdle"
    proof (cases "\<exists>c'\<in>set cs. BondedController s c' = Some a")
      case True
      then obtain c' where "c' \<in> set cs" "BondedController s c' = Some a" by blast
      then show ?thesis using s'(4) a(2) by (force simp: silent_def)
    next
      case False
      with s'(5) show ?thesis by (simp add: rm_go_offline_def)
    qed
    have same: "same_relayers s s'"
      using same_relayers_trans [OF same_relayers_put [OF m] s'(2)] by (simp add: rm_go_offline_def)
    have upd: "s' = s\<lparr>RelayerState := RelayerState s'\<rparr>"
      using s'(3) by (simp add: put_relayer_def)
    have coll: "collect_offenders R (c # cs) s =
        Some (filter (\<lambda>c. silent R s c \<and> vset_identifiable R c (rel_ext s)) (c # cs), s')"
      using a m s'(1) True by simp
    have "\<forall>x. (\<forall>c'\<in>set (c # cs). BondedController s c' \<noteq> Some x) \<longrightarrow> RelayerState s' x = RelayerState s x"
      using s'(5) a(1) by auto
    then show ?thesis using coll same upd keep s'(4) a(1) by (intro exI [of _ s'] conjI) auto
  qed
qed simp

end
