(* ===== verification/Relay_Run.thy ===== *)
theory Relay_Run
  imports Relay_Wf
begin

text \<open>
  Runs of the relay manager: its calls, the operations that the staking pallet invokes on it, the
  collection of heartbeats at the end of a session, and changes of the rest of the runtime. Every
  reachable state satisfies the invariant of \<open>Relay_Wf\<close>, and from it no operation panics. The
  caches of past rounds are instances of the contract in \<open>Round_Cache\<close>.
\<close>

subsection \<open>Caches\<close>

interpretation rel_sel: round_cache CachedSelectedRelayers RStorageCacheLifetime
  "\<lambda>r s. refresh_cached_selected_relayers r (SelectedRelayers s) s" SelectedRelayers
  by unfold_locales (simp_all add: refresh_cached_selected_relayers_def)

interpretation rel_init_sel: round_cache CachedInitialSelectedRelayers RStorageCacheLifetime
  "\<lambda>r s. refresh_cached_selected_relayers r (SelectedRelayers s) s" SelectedRelayers
  by unfold_locales (simp_all add: refresh_cached_selected_relayers_def)

interpretation rel_maj: round_cache RCachedMajority RStorageCacheLifetime
  relay_refresh_majority relay_compute_majority
  by unfold_locales (simp_all add: relay_refresh_majority_def Let_def)

interpretation rel_init_maj: round_cache CachedInitialMajority RStorageCacheLifetime
  relay_refresh_majority relay_compute_majority
  by unfold_locales (simp_all add: relay_refresh_majority_def Let_def)

subsection \<open>Runs\<close>

datatype relay_call =
    RSetStorageCacheLifetime nat
  | RSetHeartbeatOffenceActivation bool
  | RSetHeartbeatSlashFraction perbill
  | RSetRelayer acct
  | RCancelRelayerSet
  | RHeartbeat
  | RHeartbeatV2 nat nat

fun run_relay_call :: "'x RelayConfig \<Rightarrow> origin \<Rightarrow> relay_call \<Rightarrow> 'x relay \<Rightarrow> 'x relay_result" where
  "run_relay_call R og (RSetStorageCacheLifetime n) s = relay_set_storage_cache_lifetime og n s"
| "run_relay_call R og (RSetHeartbeatOffenceActivation b) s = set_heartbeat_offence_activation og b s"
| "run_relay_call R og (RSetHeartbeatSlashFraction f) s = set_heartbeat_slash_fraction og f s"
| "run_relay_call R og (RSetRelayer a) s = set_relayer og a s"
| "run_relay_call R og RCancelRelayerSet s = cancel_relayer_set og s"
| "run_relay_call R og RHeartbeat s = heartbeat R og s"
| "run_relay_call R og (RHeartbeatV2 iv sv) s = heartbeat_v2 R og iv sv s"

text \<open>What the report of an unresponsiveness offence does to the relay manager: kick-outs.\<close>

fun kickouts :: "acct list \<Rightarrow> 'x relay \<Rightarrow> 'x relay option" where
  "kickouts [] s = Some s"
| "kickouts (c # cs) s = (case kickout_relayer c s of None \<Rightarrow> None | Some s1 \<Rightarrow> kickouts cs s1)"

text \<open>One operation on the pallet. \<open>None\<close> is a panic; a failed call leaves the storage as it was.\<close>

datatype 'x relay_op =
    OpCall origin relay_call
  | OpJoin acct acct
  | OpLeave acct
  | OpKickout acct
  | OpReplaceController acct acct
  | OpNextRound
  | OpGenesisRound
  | OpSelect "acct list"
  | OpMajority
  | OpCollect "acct list"
  | OpWorld 'x

fun relay_exec :: "'x RelayConfig \<Rightarrow> 'x relay_op \<Rightarrow> 'x relay \<Rightarrow> 'x relay option" where
  "relay_exec R (OpCall og c) s = settle s (run_relay_call R og c s)"
| "relay_exec R (OpJoin a c) s = settle s (join_relayers a c s)"
| "relay_exec R (OpLeave c) s = Some (leave_relayers c s)"
| "relay_exec R (OpKickout c) s = kickout_relayer c s"
| "relay_exec R (OpReplaceController old new) s = replace_bonded_controller old new s"
| "relay_exec R OpNextRound s =
     (let now = add32 (RRound s) 1 in handle_delayed_relayer_sets R now (refresh_round now s))"
| "relay_exec R OpGenesisRound s = Some (refresh_round 1 s)"
| "relay_exec R (OpSelect cs) s = refresh_selected_relayers (RRound s) cs s"
| "relay_exec R OpMajority s = Some (relay_refresh_majority (RRound s) s)"
| "relay_exec R (OpCollect cs) s =
     collect_heartbeats R (\<lambda>s. s) (\<lambda>s _. s) (\<lambda>_. kickouts cs) s"
| "relay_exec R (OpWorld x) s = Some (s\<lparr>rel_ext := x\<rparr>)"

text \<open>
  What the staking pallet guarantees of its calls: a controller that takes over from another is not
  bonded itself (it is not a candidate), and the first round starts before any relayer is replaced.
\<close>

fun op_guard :: "'x relay_op \<Rightarrow> 'x relay \<Rightarrow> bool" where
  "op_guard (OpReplaceController old new) s = (BondedController s new = None)"
| "op_guard OpGenesisRound s = (DelayedRelayerSets s (RRound s) = [])"
| "op_guard _ s = True"

inductive relay_step :: "'x RelayConfig \<Rightarrow> 'x relay \<Rightarrow> 'x relay \<Rightarrow> bool" for R where
  "op_guard p s \<Longrightarrow> relay_exec R p s = Some s' \<Longrightarrow> relay_step R s s'"

definition relay_default :: "'x \<Rightarrow> 'x relay" where
  "relay_default x =
     \<lparr>RStorageCacheLifetime = 0, RRound = 0, BondedController = Map.empty, RelayerPool = [],
      RelayerState = Map.empty, SelectedRelayers = [], InitialSelectedRelayers = [],
      CachedSelectedRelayers = [], CachedInitialSelectedRelayers = [], RMajority = 0,
      InitialMajority = 0, RCachedMajority = [], CachedInitialMajority = [],
      ReceivedHeartbeats = (\<lambda>_ _. False), IsHeartbeatOffenceActive = False,
      HeartbeatSlashFraction = 0, DelayedRelayerSets = (\<lambda>_. []), RelayEvents = [], rel_ext = x\<rparr>"

inductive relay_reachable :: "'x RelayConfig \<Rightarrow> 'x relay \<Rightarrow> bool" for R where
  genesis: "relay_reachable R (relay_genesis lifetime active fraction (relay_default x))"
| step: "relay_reachable R s \<Longrightarrow> relay_step R s s' \<Longrightarrow> relay_reachable R s'"

inductive_cases relay_stepE: "relay_step R s s'"

definition relay_inv :: "'x relay \<Rightarrow> bool" where
  "relay_inv s \<longleftrightarrow> relay_wf (RRound s) s \<and> RRound s < M32"

subsection \<open>Every operation keeps the invariant and does not panic\<close>

lemma set_sets_wf:
  assumes "relay_wf r s" "RelayerState s new = None"
    "\<forall>d\<in>set (DelayedRelayerSets s r). dr_old d \<noteq> old \<and> dr_new d \<noteq> new"
  shows "relay_wf r (s\<lparr>DelayedRelayerSets := (DelayedRelayerSets s)
    (r := DelayedRelayerSets s r @ [\<lparr>dr_old = old, dr_new = new\<rparr>])\<rparr>)"
  using assms by (auto simp: relay_wf_defs)

lemma drop_sets_wf:
  "relay_wf r s \<Longrightarrow> relay_wf r (s\<lparr>DelayedRelayerSets := (DelayedRelayerSets s)
     (r := filter P (DelayedRelayerSets s r))\<rparr>)"
  by (auto simp: relay_wf_defs distinct_map_filter)

lemma relay_call_ok:
  assumes "relay_inv s"
  shows "\<exists>s'. settle s (run_relay_call R og c s) = Some s' \<and> relay_inv s'"
proof -
  have w: "relay_inv s' " if "RRound s' = RRound s" "same_relayers s s'" "sel_wf s'" for s'
    using that assms relay_wf_same [OF _ that(2,3)] by (simp add: relay_inv_def)
  have sel: "sel_wf s" and wf: "relay_wf (RRound s) s" using assms by (simp_all add: relay_inv_def relay_wf_def)
  have hb: "\<exists>s'. settle s (heartbeat_with R f og s) = Some s' \<and> relay_inv s'"
    if f: "\<And>m. rm_controller (f m) = rm_controller m" for f
    using assms w sel f unfolding heartbeat_with_def rel_signed_def pulse_heartbeat_def is_relayer_def
    by (auto simp: settle_def Let_def put_relayer_def rel_deposit_def same_relayers_def sel_wf_def
        split: origin.splits option.splits)
  show ?thesis
  proof (cases c)
    case (RSetRelayer a)
    then show ?thesis using assms
      by (auto simp: settle_def set_relayer_def rel_signed_def add_to_relayer_sets_def try_push_def
          is_relayer_def relay_inv_def Let_def list_ex_iff set_sets_wf split: origin.splits option.splits)
  next
    case RCancelRelayerSet
    then show ?thesis using assms
      by (auto simp: settle_def cancel_relayer_set_def rel_signed_def remove_relayer_set_def
          relay_inv_def Let_def drop_sets_wf split: origin.splits option.splits)
  next
    case RHeartbeat
    then show ?thesis using hb [of "\<lambda>m. m"] by (simp add: heartbeat_def)
  next
    case (RHeartbeatV2 iv sv)
    then show ?thesis by (simp add: heartbeat_v2_def hb)
  qed (use assms sel in \<open>auto simp: settle_def rel_root_def relay_set_storage_cache_lifetime_def
      set_heartbeat_offence_activation_def set_heartbeat_slash_fraction_def same_relayers_def
      sel_wf_def intro!: w\<close>)
qed

lemma kickouts_ok:
  assumes "relay_inv s"
  shows "\<exists>s'. kickouts cs s = Some s' \<and> relay_inv s'"
  using assms
proof (induction cs arbitrary: s)
  case (Cons c cs)
  obtain s1 where "kickout_relayer c s = Some s1" "relay_wf (RRound s) s1" "RRound s1 = RRound s"
    using kickout_relayer_ok [of "RRound s" s c] Cons.prems by (auto simp: relay_inv_def)
  moreover from this have "relay_inv s1" using Cons.prems by (simp add: relay_inv_def)
  ultimately show ?case using Cons.IH by simp
qed simp

lemma collect_ok:
  assumes inv: "relay_inv s"
  shows "\<exists>s'. collect_heartbeats R (\<lambda>s. s) (\<lambda>s _. s) (\<lambda>_. kickouts cs) s = Some s' \<and> relay_inv s'"
proof -
  have wf: "relay_wf (RRound s) s" using inv by (simp add: relay_inv_def)
  let ?vs = "vset_validators R (rel_ext s)" and ?i = "vset_session_index R (rel_ext s)"
  have "\<forall>c a. BondedController s c = Some a \<longrightarrow> RelayerState s a \<noteq> None"
    using relay_wfD(1) [OF wf] by blast
  from collect_offenders_ok [OF this, of R ?vs] obtain os s1 where
    s1: "collect_offenders R ?vs s = Some (os, s1)" "same_relayers s s1"
      "s1 = s\<lparr>RelayerState := RelayerState s1\<rparr>" by blast
  let ?s2 = "s1\<lparr>ReceivedHeartbeats := (ReceivedHeartbeats s1)(?i := (\<lambda>_. False))\<rparr>"
  have f: "SelectedRelayers s1 = SelectedRelayers s" "RRound s1 = RRound s" by (subst s1(3), simp)+
  have inv2: "relay_inv ?s2"
    using inv relay_wf_same [OF wf, of ?s2] s1(2) f by (auto simp: relay_inv_def same_relayers_def
        relay_wf_def sel_wf_def)
  have dep: "relay_inv (rel_deposit e t)" if "relay_inv t" for e t
    using that by (simp add: relay_inv_def)
  show ?thesis
    using s1(1) inv2 dep kickouts_ok [OF inv2, of cs]
    by (auto simp: collect_heartbeats_def Let_def)
qed

lemma relay_exec_ok:
  assumes inv: "relay_inv s" and g: "op_guard p s"
  shows "\<exists>s'. relay_exec R p s = Some s' \<and> relay_inv s'"
proof -
  have wf: "relay_wf (RRound s) s" and lt: "RRound s < M32" using inv by (simp_all add: relay_inv_def)
  show ?thesis
  proof (cases p)
    case (OpJoin a c)
    have "join_relayers a c s \<noteq> Panic"
      by (auto simp: join_relayers_def add_to_relayer_pool_def Let_def split: option.splits)
    moreover have "RRound s' = RRound s" if "join_relayers a c s = Done u s'" for u s'
      using that by (auto simp: join_relayers_def add_to_relayer_pool_def put_relayer_def Let_def
          split: option.splits)
    ultimately show ?thesis
      using OpJoin inv join_relayers_ok(1) [OF wf, of a c]
      by (cases "join_relayers a c s") (auto simp: settle_def relay_inv_def)
  next
    case (OpLeave c)
    moreover have "RRound (leave_relayers c s) = RRound s"
      by (simp add: leave_relayers_def remove_from_relayer_pool_def Let_def split: option.split)
    ultimately show ?thesis using leave_relayers_ok [OF wf, of c] lt by (simp add: relay_inv_def)
  next
    case (OpKickout c)
    then show ?thesis using kickout_relayer_ok [OF wf, of c] lt by (auto simp: relay_inv_def)
  next
    case (OpReplaceController old new)
    then show ?thesis using replace_bonded_controller_ok [OF wf, of new old] g lt
      by (auto simp: relay_inv_def)
  next
    case OpNextRound
    let ?now = "add32 (RRound s) 1"
    have "relay_wf (RRound s) (refresh_round ?now s)"
      using wf by (simp add: relay_wf_defs refresh_round_def)
    from handle_delayed_relayer_sets_ok [OF this sub32_add32 [OF lt], of R ?now] OpNextRound
    show ?thesis by (auto simp: relay_inv_def refresh_round_def add32_bound)
  next
    case OpGenesisRound
    then have none: "DelayedRelayerSets s q = []" for q
      using wf g by (cases "q = RRound s") (auto simp: relay_wf_defs)
    with OpGenesisRound show ?thesis using wf
      by (simp add: relay_inv_def relay_wf_defs refresh_round_def M32_def)
  next
    case (OpSelect cs)
    then show ?thesis using refresh_selected_relayers_ok [OF wf, of "RRound s" cs] lt
      by (auto simp: relay_inv_def)
  next
    case (OpCollect cs)
    then show ?thesis using collect_ok [OF inv] by simp
  qed (use inv relay_call_ok [OF inv] in
      \<open>auto simp: relay_inv_def relay_wf_defs relay_refresh_majority_def Let_def\<close>)
qed

lemma relay_reachable_inv: "relay_reachable R s \<Longrightarrow> relay_inv s"
proof (induction rule: relay_reachable.induct)
  case (genesis lifetime active fraction x)
  then show ?case
    by (simp add: relay_inv_def relay_wf_defs relay_genesis_def relay_default_def M32_def)
next
  case (step s s')
  from step.hyps(2) obtain p where "op_guard p s" "relay_exec R p s = Some s'" by (rule relay_stepE)
  with relay_exec_ok [OF step.IH, of p R] show ?case by simp
qed

end
