(* ===== verification/Offences.thy ===== *)
theory Offences
  imports Staking_Types
begin

text \<open>
  The offences pallet (\<open>pallets/bfc-offences\<close>): the offences each validator has earned, their
  expiration, and the slash when a validator exceeds the maximum of its tier. The currency's
  \<open>slash_reserved\<close> with the handler of the slashed imbalance, and \<open>Perbill\<close>, are parameters; the
  rest of the runtime is the state \<open>'x\<close>.
\<close>

record 'x OffConfig =
  slash_reserved :: "acct \<Rightarrow> balance \<Rightarrow> 'x \<Rightarrow> 'x"
  off_pb_mul :: "perbill \<Rightarrow> balance \<Rightarrow> balance"
  off_pb_from_parts :: "nat \<Rightarrow> perbill"

record ValidatorOffenceInfo =
  latest_offence_round_index :: round_index
  latest_offence_session_index :: session_index
  offence_count :: nat
  aggregated_slash_fraction :: perbill
  voi_offences :: "Offence list"

datatype OffEvent =
    OffenceExpirationSet session_index session_index
  | MaximumOffenceCountSet nat nat TierType
  | OffenceActivationSet bool
  | SlashActivationSet bool
  | Slashed acct balance

record 'x offences =
  ValidatorOffences :: "(acct, ValidatorOffenceInfo) btmap"
  OffenceExpirationInSessions :: session_index
  FullMaximumOffenceCount :: nat
  BasicMaximumOffenceCount :: nat
  IsOffenceActive :: bool
  IsSlashActive :: bool
  OffEvents :: "OffEvent list"
  off_ext :: 'x

definition off_deposit :: "OffEvent \<Rightarrow> 'x offences \<Rightarrow> 'x offences" where
  "off_deposit e s = s\<lparr>OffEvents := OffEvents s @ [e]\<rparr>"

subsection \<open>Offence information\<close>

definition ValidatorOffenceInfo_new :: "Offence \<Rightarrow> ValidatorOffenceInfo" where
  "ValidatorOffenceInfo_new f =
     \<lparr>latest_offence_round_index = of_round_index f,
      latest_offence_session_index = of_session_index f, offence_count = 1,
      aggregated_slash_fraction = of_slash_fraction f, voi_offences = [f]\<rparr>"

definition set_latest_offence ::
  "round_index \<Rightarrow> session_index \<Rightarrow> ValidatorOffenceInfo \<Rightarrow> ValidatorOffenceInfo" where
  "set_latest_offence r i v =
     v\<lparr>latest_offence_round_index := r, latest_offence_session_index := i\<rparr>"

definition increase_offence_count :: "ValidatorOffenceInfo \<Rightarrow> ValidatorOffenceInfo" where
  "increase_offence_count v = v\<lparr>offence_count := add32 (offence_count v) 1\<rparr>"

definition increase_slash_fraction ::
  "'x OffConfig \<Rightarrow> perbill \<Rightarrow> ValidatorOffenceInfo \<Rightarrow> ValidatorOffenceInfo" where
  "increase_slash_fraction F p v =
     v\<lparr>aggregated_slash_fraction :=
         off_pb_from_parts F (add32 (aggregated_slash_fraction v) p)\<rparr>"

definition add_offence ::
  "'x OffConfig \<Rightarrow> Offence \<Rightarrow> ValidatorOffenceInfo \<Rightarrow> ValidatorOffenceInfo" where
  "add_offence F f v =
     (let v1 = increase_slash_fraction F (of_slash_fraction f)
                 (increase_offence_count (set_latest_offence (of_round_index f) (of_session_index f) v))
      in v1\<lparr>voi_offences := voi_offences v1 @ [f]\<rparr>)"

subsection \<open>The offence handler\<close>

definition is_offence_count_exceeds :: "nat \<Rightarrow> TierType \<Rightarrow> 'x offences \<Rightarrow> bool" where
  "is_offence_count_exceeds n t s =
     (case t of Full \<Rightarrow> FullMaximumOffenceCount s < n | _ \<Rightarrow> BasicMaximumOffenceCount s < n)"

definition try_slash ::
  "'x OffConfig \<Rightarrow> acct \<Rightarrow> acct \<Rightarrow> perbill \<Rightarrow> balance \<Rightarrow> 'x offences \<Rightarrow> balance \<times> 'x offences" where
  "try_slash F who st fraction bnd s =
     (if IsSlashActive s then
        let x = off_pb_mul F fraction bnd
        in (x, off_deposit (Slashed who x) (s\<lparr>off_ext := slash_reserved F st x (off_ext s)\<rparr>))
      else (0, s))"

definition handle_offence ::
  "'x OffConfig \<Rightarrow> acct \<Rightarrow> acct \<Rightarrow> TierType \<Rightarrow> Offence \<Rightarrow> 'x offences \<Rightarrow>
   (bool \<times> balance) \<times> 'x offences" where
  "handle_offence F who st t f s =
     (case bt_get (ValidatorOffences s) who of
        Some v \<Rightarrow>
          if is_offence_count_exceeds (add32 (offence_count v) 1) t s then
            let (x, s1) = try_slash F who st (aggregated_slash_fraction v) (of_self_bond f) s
            in ((True, x), s1\<lparr>ValidatorOffences := bt_remove who (ValidatorOffences s1)\<rparr>)
          else ((False, 0), s\<lparr>ValidatorOffences :=
                  bt_insert who (add_offence F f v) (ValidatorOffences s)\<rparr>)
      | None \<Rightarrow>
          ((False, 0), s\<lparr>ValidatorOffences :=
             bt_insert who (ValidatorOffenceInfo_new f) (ValidatorOffences s)\<rparr>))"

definition try_handle_offence ::
  "'x OffConfig \<Rightarrow> acct \<Rightarrow> acct \<Rightarrow> TierType \<Rightarrow> Offence \<Rightarrow> 'x offences \<Rightarrow>
   (bool \<times> balance) \<times> 'x offences" where
  "try_handle_offence F who st t f s =
     (if IsOffenceActive s then handle_offence F who st t f s else ((False, 0), s))"

definition refresh_offences :: "session_index \<Rightarrow> 'x offences \<Rightarrow> 'x offences" where
  "refresh_offences i s =
     s\<lparr>ValidatorOffences := filter (\<lambda>(k, v).
         \<not> OffenceExpirationInSessions s < sub32 i (latest_offence_session_index v))
         (ValidatorOffences s)\<rparr>"

subsection \<open>Calls\<close>

definition off_root ::
  "origin \<Rightarrow> 'x offences \<Rightarrow> ('x offences, error, unit) outcome \<Rightarrow> ('x offences, error, unit) outcome" where
  "off_root og s k = (if og = Root then k else Fail BadOrigin s)"

definition set_offence_expiration ::
  "origin \<Rightarrow> session_index \<Rightarrow> 'x offences \<Rightarrow> ('x offences, error, unit) outcome" where
  "set_offence_expiration og new s = off_root og s
     (if \<not> 0 < new then Fail (OffencesError OffencesCannotSetBelowMin) s
      else if OffenceExpirationInSessions s = new then Fail (OffencesError OffencesNoWritingSameValue) s
      else Done () (off_deposit (OffenceExpirationSet (OffenceExpirationInSessions s) new)
             (s\<lparr>OffenceExpirationInSessions := new\<rparr>)))"

definition set_max_offence_count ::
  "origin \<Rightarrow> nat \<Rightarrow> TierType \<Rightarrow> 'x offences \<Rightarrow> ('x offences, error, unit) outcome" where
  "set_max_offence_count og new t s = off_root og s
     (if \<not> 0 < new then Fail (OffencesError OffencesCannotSetBelowMin) s
      else (case t of
        Full \<Rightarrow>
          if FullMaximumOffenceCount s = new then Fail (OffencesError OffencesNoWritingSameValue) s
          else Done () (off_deposit (MaximumOffenceCountSet (FullMaximumOffenceCount s) new t)
                 (s\<lparr>FullMaximumOffenceCount := new\<rparr>))
      | Basic \<Rightarrow>
          if BasicMaximumOffenceCount s = new then Fail (OffencesError OffencesNoWritingSameValue) s
          else Done () (off_deposit (MaximumOffenceCountSet (BasicMaximumOffenceCount s) new t)
                 (s\<lparr>BasicMaximumOffenceCount := new\<rparr>))
      | All \<Rightarrow>
          if FullMaximumOffenceCount s = new then Fail (OffencesError OffencesNoWritingSameValue) s
          else if BasicMaximumOffenceCount s = new
            then Fail (OffencesError OffencesNoWritingSameValue) s
          else Done () (off_deposit (MaximumOffenceCountSet (BasicMaximumOffenceCount s) new Basic)
                 (off_deposit (MaximumOffenceCountSet (FullMaximumOffenceCount s) new Full)
                   (s\<lparr>FullMaximumOffenceCount := new, BasicMaximumOffenceCount := new\<rparr>)))))"

definition set_offence_activation ::
  "origin \<Rightarrow> bool \<Rightarrow> 'x offences \<Rightarrow> ('x offences, error, unit) outcome" where
  "set_offence_activation og b s = off_root og s
     (if b = IsOffenceActive s then Fail (OffencesError OffencesNoWritingSameValue) s
      else Done () (off_deposit (OffenceActivationSet b) (s\<lparr>IsOffenceActive := b\<rparr>)))"

definition set_slash_activation ::
  "origin \<Rightarrow> bool \<Rightarrow> 'x offences \<Rightarrow> ('x offences, error, unit) outcome" where
  "set_slash_activation og b s = off_root og s
     (if b = IsSlashActive s then Fail (OffencesError OffencesNoWritingSameValue) s
      else Done () (off_deposit (SlashActivationSet b) (s\<lparr>IsSlashActive := b\<rparr>)))"

definition offences_genesis ::
  "session_index \<Rightarrow> nat \<Rightarrow> nat \<Rightarrow> bool \<Rightarrow> bool \<Rightarrow> 'x offences \<Rightarrow> 'x offences" where
  "offences_genesis e fm bm oa sa s =
     s\<lparr>OffenceExpirationInSessions := e, FullMaximumOffenceCount := fm,
       BasicMaximumOffenceCount := bm, IsOffenceActive := oa, IsSlashActive := sa\<rparr>"

subsection \<open>Well-formed offence records\<close>

text \<open>
  \<open>Perbill::from_parts\<close> clamps to one billion; a slash of a part of a balance is at most the
  balance.
\<close>

definition off_perbill_laws :: "'x OffConfig \<Rightarrow> bool" where
  "off_perbill_laws F \<longleftrightarrow>
     (\<forall>n. off_pb_from_parts F n = min n 1000000000) \<and>
     (\<forall>p x. p \<le> 1000000000 \<longrightarrow> off_pb_mul F p x \<le> x)"

definition voi_wf :: "ValidatorOffenceInfo \<Rightarrow> bool" where
  "voi_wf v \<longleftrightarrow>
     voi_offences v \<noteq> [] \<and>
     offence_count v = as_u32 (length (voi_offences v)) \<and>
     aggregated_slash_fraction v =
       min (sum_list (map of_slash_fraction (voi_offences v))) 1000000000 \<and>
     latest_offence_session_index v = of_session_index (last (voi_offences v)) \<and>
     (\<forall>f\<in>set (voi_offences v). of_slash_fraction f \<le> 1000000000)"

definition offences_wf :: "'x offences \<Rightarrow> bool" where
  "offences_wf s \<longleftrightarrow> bt_wf (ValidatorOffences s) \<and>
     (\<forall>w v. bt_get (ValidatorOffences s) w = Some v \<longrightarrow> voi_wf v)"

lemma voi_wf_new: "of_slash_fraction f \<le> 1000000000 \<Longrightarrow> voi_wf (ValidatorOffenceInfo_new f)"
  by (simp add: voi_wf_def ValidatorOffenceInfo_new_def as_u32_def M32_def)

lemma as_u32_Suc: "add32 (as_u32 n) (Suc 0) = as_u32 (Suc n)"
  by (simp add: add32_def as_u32_def mod_Suc_eq)

lemma add_offence_fields:
  "voi_offences (add_offence F f v) = voi_offences v @ [f]"
  "offence_count (add_offence F f v) = add32 (offence_count v) 1"
  "aggregated_slash_fraction (add_offence F f v) =
     off_pb_from_parts F (add32 (aggregated_slash_fraction v) (of_slash_fraction f))"
  "latest_offence_session_index (add_offence F f v) = of_session_index f"
  "latest_offence_round_index (add_offence F f v) = of_round_index f"
  by (simp_all add: add_offence_def increase_slash_fraction_def increase_offence_count_def
      set_latest_offence_def Let_def)

lemma voi_wf_add:
  assumes "off_perbill_laws F" "voi_wf v" "of_slash_fraction f \<le> 1000000000"
  shows "voi_wf (add_offence F f v)"
proof -
  have "aggregated_slash_fraction v + of_slash_fraction f < M32"
    using assms(2,3) by (simp add: voi_wf_def M32_def)
  then show ?thesis
    using assms
    by (auto simp: voi_wf_def add_offence_fields as_u32_Suc add32_id off_perbill_laws_def)
qed

lemma offences_wf_handle:
  assumes "off_perbill_laws F" "offences_wf s" "of_slash_fraction f \<le> 1000000000"
    "handle_offence F who st t f s = (r, s')"
  shows "offences_wf s'"
  using assms voi_wf_add [OF assms(1)] voi_wf_new
  by (auto simp: handle_offence_def try_slash_def off_deposit_def offences_wf_def Let_def
      split: option.splits if_splits prod.splits)

lemma handle_offence_slash_bound:
  assumes "off_perbill_laws F" "offences_wf s" "handle_offence F who st t f s = ((b, x), s')"
  shows "x \<le> of_self_bond f"
proof (cases "bt_get (ValidatorOffences s) who")
  case (Some v)
  then have "aggregated_slash_fraction v \<le> 1000000000"
    using assms(2) by (auto simp: offences_wf_def voi_wf_def)
  with assms Some show ?thesis
    by (auto simp: handle_offence_def try_slash_def off_perbill_laws_def Let_def
        split: if_splits prod.splits)
qed (use assms in \<open>auto simp: handle_offence_def\<close>)

lemma bt_get_filter:
  "bt_wf m \<Longrightarrow> bt_get (filter (\<lambda>(k, v). P v) m) k = (case bt_get m k of Some v \<Rightarrow> if P v then Some v else None | None \<Rightarrow> None)"
proof (induction m arbitrary: k)
  case (Cons e m)
  obtain j w where e: "e = (j, w)" by (cases e)
  have "bt_get m j = None" using Cons.prems by (auto simp: e map_of_eq_None_iff)
  then have "bt_get (filter (\<lambda>(k, v). P v) m) j = None"
    using Cons by (auto simp: e)
  with Cons show ?case by (auto simp: e split: option.splits)
qed simp

subsection \<open>Repeated offences\<close>

text \<open>A sequence of offences of one validator, each handled in turn.\<close>

fun offence_run ::
  "'x OffConfig \<Rightarrow> acct \<Rightarrow> acct \<Rightarrow> TierType \<Rightarrow> Offence list \<Rightarrow> 'x offences \<Rightarrow>
   (bool \<times> balance) list \<times> 'x offences" where
  "offence_run F who st t [] s = ([], s)"
| "offence_run F who st t (f # fs) s =
     (let (r, s1) = try_handle_offence F who st t f s;
          (rs, s2) = offence_run F who st t fs s1
      in (r # rs, s2))"

abbreviation tier_max :: "TierType \<Rightarrow> 'x offences \<Rightarrow> nat" where
  "tier_max t s \<equiv> (case t of Full \<Rightarrow> FullMaximumOffenceCount s | _ \<Rightarrow> BasicMaximumOffenceCount s)"

lemma exceeds_iff: "is_offence_count_exceeds n t s \<longleftrightarrow> tier_max t s < n"
  by (simp add: is_offence_count_exceeds_def split: TierType.splits)

text \<open>One tolerated offence of a validator that already has some.\<close>

lemma tolerated_step:
  assumes "bt_get (ValidatorOffences s) who = Some v" "IsOffenceActive s"
    "Suc (offence_count v) \<le> tier_max t s" "Suc (offence_count v) < M32"
  shows "try_handle_offence F who st t f s =
    ((False, 0), s\<lparr>ValidatorOffences := bt_insert who (add_offence F f v) (ValidatorOffences s)\<rparr>)"
  using assms by (simp add: try_handle_offence_def handle_offence_def exceeds_iff add32_id)

lemma offence_run_tolerated:
  assumes "off_perbill_laws F" "bt_get (ValidatorOffences s) who = Some v" "voi_wf v"
    "IsOffenceActive s" "\<forall>f\<in>set fs. of_slash_fraction f \<le> 1000000000"
    "length (voi_offences v) + length fs \<le> tier_max t s" "tier_max t s < M32"
  shows "\<exists>v'. fst (offence_run F who st t fs s) = replicate (length fs) (False, 0) \<and>
    (let s' = snd (offence_run F who st t fs s) in
       bt_get (ValidatorOffences s') who = Some v' \<and> voi_wf v' \<and>
       voi_offences v' = voi_offences v @ fs \<and>
       s' = s\<lparr>ValidatorOffences := ValidatorOffences s'\<rparr> \<and>
       (\<forall>w. w \<noteq> who \<longrightarrow> bt_get (ValidatorOffences s') w = bt_get (ValidatorOffences s) w))"
  using assms(2-)
proof (induction fs arbitrary: s v)
  case (Cons f fs)
  have cnt: "offence_count v = length (voi_offences v)"
    using Cons.prems by (simp add: voi_wf_def as_u32_id)
  let ?v = "add_offence F f v"
  let ?s = "s\<lparr>ValidatorOffences := bt_insert who ?v (ValidatorOffences s)\<rparr>"
  have step: "try_handle_offence F who st t f s = ((False, 0), ?s)"
    using tolerated_step [OF Cons.prems(1,3)] Cons.prems(5,6) cnt by simp
  have "voi_wf ?v" using voi_wf_add [OF assms(1) Cons.prems(2)] Cons.prems(4) by simp
  moreover have "tier_max t ?s = tier_max t s" by (cases t) simp_all
  ultimately obtain v' where "fst (offence_run F who st t fs ?s) = replicate (length fs) (False, 0)"
    "let s' = snd (offence_run F who st t fs ?s) in
       bt_get (ValidatorOffences s') who = Some v' \<and> voi_wf v' \<and>
       voi_offences v' = voi_offences ?v @ fs \<and>
       s' = ?s\<lparr>ValidatorOffences := ValidatorOffences s'\<rparr> \<and>
       (\<forall>w. w \<noteq> who \<longrightarrow> bt_get (ValidatorOffences s') w = bt_get (ValidatorOffences ?s) w)"
    using Cons.IH [of ?s ?v] Cons.prems by (auto simp: add_offence_fields)
  then show ?case
    by (intro exI [of _ v']) (simp add: step add_offence_fields Let_def split_beta)
qed (simp add: Let_def)

end
