(* ===== verification/Runtime.thy ===== *)
theory Runtime
  imports Staking_Run Relay_Run Offences
begin

text \<open>
  The pallets put together as the runtime does (\<open>runtime/mainnet/src/lib.rs\<close>): the staking pallet's
  \<open>RelayManager\<close> is the relay manager pallet and its \<open>OffenceHandler\<close> the offences pallet. The balances
  pallet is a parameter; its state is the one the offences pallet slashes. What the staking pallet
  relies on is stated as two interfaces, and both pallets are shown to provide them.
\<close>

subsection \<open>Interfaces\<close>

text \<open>
  The relay manager as the staking pallet sees it: none of its operations touches the rest of the
  runtime, of which \<open>rest\<close> is the view.
\<close>

locale relay_contract =
  fixes join :: "acct \<Rightarrow> acct \<Rightarrow> 'w \<Rightarrow> error + 'w"
    and set_round :: "round_index \<Rightarrow> 'w \<Rightarrow> 'w"
    and select :: "round_index \<Rightarrow> acct list \<Rightarrow> 'w \<Rightarrow> 'w option"
    and set_majority :: "round_index \<Rightarrow> 'w \<Rightarrow> 'w"
    and rename :: "acct \<Rightarrow> acct \<Rightarrow> 'w \<Rightarrow> 'w option"
    and leave :: "acct \<Rightarrow> 'w \<Rightarrow> 'w"
    and kick :: "acct \<Rightarrow> 'w \<Rightarrow> 'w option"
    and delayed :: "round_index \<Rightarrow> 'w \<Rightarrow> 'w option"
    and rest :: "'w \<Rightarrow> 'r"
  assumes join_rest: "join a c w = Inr w' \<Longrightarrow> rest w' = rest w"
    and set_round_rest: "rest (set_round r w) = rest w"
    and select_rest: "select r cs w = Some w' \<Longrightarrow> rest w' = rest w"
    and set_majority_rest: "rest (set_majority r w) = rest w"
    and rename_rest: "rename c d w = Some w' \<Longrightarrow> rest w' = rest w"
    and leave_rest: "rest (leave c w) = rest w"
    and kick_rest: "kick c w = Some w' \<Longrightarrow> rest w' = rest w"
    and delayed_rest: "delayed r w = Some w' \<Longrightarrow> rest w' = rest w"
begin

text \<open>A round change as the staking pallet drives it: the round, the delayed sets, the selection.\<close>

lemma round_change_rest:
  assumes "delayed r (set_round r w) = Some w1" "select r cs w1 = Some w2"
  shows "rest (set_majority r w2) = rest w"
  using delayed_rest [OF assms(1)] select_rest [OF assms(2)] by (simp add: set_round_rest set_majority_rest)

end

text \<open>
  The offence handler: it either leaves the balances alone and reports no slash, or slashes the
  stash by the amount it reports, a fraction of the offender's self-bond.
\<close>

locale offence_contract =
  fixes handle :: "acct \<Rightarrow> acct \<Rightarrow> TierType \<Rightarrow> Offence \<Rightarrow> 'w \<Rightarrow> (bool \<times> balance) \<times> 'w"
    and expire :: "session_index \<Rightarrow> 'w \<Rightarrow> 'w"
    and bal :: "'w \<Rightarrow> 'b"
    and cut :: "acct \<Rightarrow> balance \<Rightarrow> 'b \<Rightarrow> 'b"
    and share :: "perbill \<Rightarrow> balance \<Rightarrow> balance"
  assumes handle_cases: "handle c st t f w = ((k, x), w') \<Longrightarrow>
      x = 0 \<and> bal w' = bal w \<or>
      k \<and> (\<exists>p. x = share p (of_self_bond f)) \<and> bal w' = cut st x (bal w)"
    and expire_bal: "bal (expire i w) = bal w"
begin

lemma tolerated:
  assumes "handle c st t f w = ((False, x), w')"
  shows "x = 0" "bal w' = bal w"
  using handle_cases [OF assms] by auto

lemma slash_le:
  assumes "handle c st t f w = ((k, x), w')" "\<And>p b. share p b \<le> b"
  shows "x \<le> of_self_bond f"
  using handle_cases [OF assms(1)] assms(2) by auto

lemma reserved_after:
  assumes h: "handle c st t f w = ((k, x), w')"
    and cut: "\<And>a y w b. (if b = a then bk b w - y else bk b w) \<le> bk b (cut a y w)"
  shows "(if b = st then bk b (bal w) - x else bk b (bal w)) \<le> bk b (bal w')"
  using handle_cases [OF h] cut [of b st "bal w" x] by auto

end

subsection \<open>The wiring\<close>

record ('b, 'x) runtime =
  rt_relay :: "'x relay"
  rt_offences :: "'b offences"

abbreviation rt_balances :: "('b, 'x) runtime \<Rightarrow> 'b" where
  "rt_balances w \<equiv> off_ext (rt_offences w)"

definition on_relay :: "('x relay \<Rightarrow> 'x relay) \<Rightarrow> ('b, 'x) runtime \<Rightarrow> ('b, 'x) runtime" where
  "on_relay f w = w\<lparr>rt_relay := f (rt_relay w)\<rparr>"

definition on_relay_opt ::
  "('x relay \<Rightarrow> 'x relay option) \<Rightarrow> ('b, 'x) runtime \<Rightarrow> ('b, 'x) runtime option" where
  "on_relay_opt f w = map_option (\<lambda>s. w\<lparr>rt_relay := s\<rparr>) (f (rt_relay w))"

definition rt_join_relayers :: "acct \<Rightarrow> acct \<Rightarrow> ('b, 'x) runtime \<Rightarrow> error + ('b, 'x) runtime" where
  "rt_join_relayers a c w =
     (case join_relayers a c (rt_relay w) of
        Done _ s \<Rightarrow> Inr (w\<lparr>rt_relay := s\<rparr>)
      | Fail e _ \<Rightarrow> Inl e
      | Panic \<Rightarrow> Inl BadOrigin)"

definition rt_try_handle_offence ::
  "'b OffConfig \<Rightarrow> acct \<Rightarrow> acct \<Rightarrow> TierType \<Rightarrow> Offence \<Rightarrow> ('b, 'x) runtime \<Rightarrow>
   (bool \<times> balance) \<times> ('b, 'x) runtime" where
  "rt_try_handle_offence F c st t f w =
     (let (r, s) = try_handle_offence F c st t f (rt_offences w) in (r, w\<lparr>rt_offences := s\<rparr>))"

definition rt_refresh_offences :: "session_index \<Rightarrow> ('b, 'x) runtime \<Rightarrow> ('b, 'x) runtime" where
  "rt_refresh_offences i w = w\<lparr>rt_offences := refresh_offences i (rt_offences w)\<rparr>"

text \<open>The balances pallet, with the reserved balance of an account.\<close>

record 'b Balances =
  b_can_reserve :: "acct \<Rightarrow> balance \<Rightarrow> 'b \<Rightarrow> bool"
  b_reserve :: "acct \<Rightarrow> balance \<Rightarrow> 'b \<Rightarrow> 'b option"
  b_unreserve :: "acct \<Rightarrow> balance \<Rightarrow> 'b \<Rightarrow> 'b"
  b_deposit :: "acct \<Rightarrow> balance \<Rightarrow> 'b \<Rightarrow> ('b \<times> balance) option"
  b_free :: "acct \<Rightarrow> 'b \<Rightarrow> balance"
  b_issuance :: "'b \<Rightarrow> balance"
  b_reserved :: "acct \<Rightarrow> 'b \<Rightarrow> balance"

definition on_balances :: "('b \<Rightarrow> 'b) \<Rightarrow> ('b, 'x) runtime \<Rightarrow> ('b, 'x) runtime" where
  "on_balances f w = w\<lparr>rt_offences := (rt_offences w)\<lparr>off_ext := f (rt_balances w)\<rparr>\<rparr>"

text \<open>
  \<open>C0\<close> carries the constants, the origins and the arithmetic of the libraries; the traits are
  filled in by the other pallets.
\<close>

definition wire ::
  "'b Balances \<Rightarrow> 'x RelayConfig \<Rightarrow> 'b OffConfig \<Rightarrow> ('b, 'x) runtime Config \<Rightarrow> ('b, 'x) runtime Config" where
  "wire B R F C0 = C0\<lparr>
     can_reserve := (\<lambda>a x w. b_can_reserve B a x (rt_balances w)),
     reserve := (\<lambda>a x w. map_option (\<lambda>b. on_balances (\<lambda>_. b) w) (b_reserve B a x (rt_balances w))),
     unreserve := (\<lambda>a x. on_balances (b_unreserve B a x)),
     deposit_into_existing := (\<lambda>a x w.
       map_option (\<lambda>(b, y). (on_balances (\<lambda>_. b) w, y)) (b_deposit B a x (rt_balances w))),
     free_balance := (\<lambda>a w. b_free B a (rt_balances w)),
     total_issuance := (\<lambda>w. b_issuance B (rt_balances w)),
     RM_join_relayers := rt_join_relayers,
     RM_refresh_round := (\<lambda>r. on_relay (refresh_round r)),
     RM_refresh_selected_relayers := (\<lambda>r cs. on_relay_opt (refresh_selected_relayers r cs)),
     RM_refresh_majority := (\<lambda>r. on_relay (relay_refresh_majority r)),
     RM_replace_bonded_controller := (\<lambda>c d. on_relay_opt (replace_bonded_controller c d)),
     RM_leave_relayers := (\<lambda>c. on_relay (leave_relayers c)),
     RM_kickout_relayer := (\<lambda>c. on_relay_opt (kickout_relayer c)),
     RM_handle_delayed_relayer_sets := (\<lambda>r. on_relay_opt (handle_delayed_relayer_sets R r)),
     OH_try_handle_offence := rt_try_handle_offence F,
     OH_refresh_offences := rt_refresh_offences,
     session_validators := (\<lambda>w. vset_validators R (rel_ext (rt_relay w)))\<rparr>"

lemma on_relay_opt_Some: "on_relay_opt f w = Some w' \<longleftrightarrow> (\<exists>s. f (rt_relay w) = Some s \<and> w' = w\<lparr>rt_relay := s\<rparr>)"
  by (auto simp: on_relay_opt_def)

interpretation rm: relay_contract rt_join_relayers "\<lambda>r. on_relay (refresh_round r)"
  "\<lambda>r cs. on_relay_opt (refresh_selected_relayers r cs)" "\<lambda>r. on_relay (relay_refresh_majority r)"
  "\<lambda>c d. on_relay_opt (replace_bonded_controller c d)" "\<lambda>c. on_relay (leave_relayers c)"
  "\<lambda>c. on_relay_opt (kickout_relayer c)" "\<lambda>r. on_relay_opt (handle_delayed_relayer_sets R r)"
  rt_offences for R :: "'x RelayConfig"
  by unfold_locales
    (auto simp: on_relay_opt_Some on_relay_def rt_join_relayers_def split: outcome.splits)

interpretation oh: offence_contract "rt_try_handle_offence F" rt_refresh_offences rt_balances
  "slash_reserved F" "off_pb_mul F" for F :: "'b OffConfig"
  by unfold_locales
    (auto simp: rt_try_handle_offence_def rt_refresh_offences_def refresh_offences_def
      try_handle_offence_def handle_offence_def try_slash_def off_deposit_def Let_def
      split: if_splits option.splits prod.splits)

subsection \<open>What the runtime promises\<close>

text \<open>Documented behaviour of the balances pallet and of \<open>Perbill\<close>, a number between 0 and 1.\<close>

definition balances_laws :: "'b Balances \<Rightarrow> 'b OffConfig \<Rightarrow> bool" where
  "balances_laws B F \<longleftrightarrow>
     (\<forall>a w. b_reserved B a w < M128) \<and>
     (\<forall>a x w w'. b_reserve B a x w = Some w' \<longrightarrow>
        (\<forall>b. b_reserved B b w' = (if b = a then b_reserved B a w + x else b_reserved B b w))) \<and>
     (\<forall>a x w b. b_reserved B b (b_unreserve B a x w) =
        (if b = a then b_reserved B a w - x else b_reserved B b w)) \<and>
     (\<forall>a x w w' y. b_deposit B a x w = Some (w', y) \<longrightarrow> (\<forall>b. b_reserved B b w' = b_reserved B b w)) \<and>
     (\<forall>a x w b. (if b = a then b_reserved B b w - x else b_reserved B b w) \<le>
        b_reserved B b (slash_reserved F a x w)) \<and>
     (\<forall>p x. off_pb_mul F p x \<le> x)"

abbreviation rt_reserved :: "'b Balances \<Rightarrow> acct \<Rightarrow> ('b, 'x) runtime \<Rightarrow> balance" where
  "rt_reserved B a w \<equiv> b_reserved B a (rt_balances w)"

lemma wire_fields:
  "cfg_ok (wire B R F C0) = cfg_ok C0" "MinNomination (wire B R F C0) = MinNomination C0"
  "MinNominatorStk (wire B R F C0) = MinNominatorStk C0"
  by (simp_all add: wire_def cfg_ok_def)

lemma wire_currency:
  assumes "balances_laws B F"
  shows "currency_laws (wire B R F C0) (rt_reserved B)"
proof -
  note laws = assms [unfolded balances_laws_def]
  have r: "rt_reserved B b w' = (if b = a then rt_reserved B a w + x else rt_reserved B b w)"
    if "reserve (wire B R F C0) a x w = Some w'" for a x w w' b
    using that laws by (auto simp: wire_def on_balances_def)
  have d: "rt_reserved B b w' = rt_reserved B b w"
    if "deposit_into_existing (wire B R F C0) a x w = Some (w', y)" for a x w w' y b
    using that laws by (auto simp: wire_def on_balances_def) blast
  have u: "rt_reserved B b (unreserve (wire B R F C0) a x w) =
      (if b = a then rt_reserved B a w - x else rt_reserved B b w)" for a x w b
    using laws by (simp add: wire_def on_balances_def)
  show ?thesis unfolding currency_laws_def
    by (intro conjI allI impI; (erule r d | rule u conjunct1 [OF laws, rule_format]))
qed

lemma wire_ops:
  "RM_join_relayers (wire B R F C0) = rt_join_relayers"
  "RM_refresh_round (wire B R F C0) = (\<lambda>r. on_relay (refresh_round r))"
  "RM_refresh_selected_relayers (wire B R F C0) = (\<lambda>r cs. on_relay_opt (refresh_selected_relayers r cs))"
  "RM_refresh_majority (wire B R F C0) = (\<lambda>r. on_relay (relay_refresh_majority r))"
  "RM_replace_bonded_controller (wire B R F C0) = (\<lambda>c d. on_relay_opt (replace_bonded_controller c d))"
  "RM_leave_relayers (wire B R F C0) = (\<lambda>c. on_relay (leave_relayers c))"
  "RM_kickout_relayer (wire B R F C0) = (\<lambda>c. on_relay_opt (kickout_relayer c))"
  "RM_handle_delayed_relayer_sets (wire B R F C0) = (\<lambda>r. on_relay_opt (handle_delayed_relayer_sets R r))"
  "OH_try_handle_offence (wire B R F C0) = rt_try_handle_offence F"
  "OH_refresh_offences (wire B R F C0) = rt_refresh_offences"
  by (simp_all add: wire_def)

lemma wire_world:
  assumes "balances_laws B F"
  shows "world_laws (wire B R F C0) (rt_reserved B)"
proof -
  have share: "off_pb_mul F p x \<le> x" for p x using assms by (simp add: balances_laws_def)
  have cut: "(if b = a then b_reserved B b w - x else b_reserved B b w) \<le> b_reserved B b (slash_reserved F a x w)"
    for a x w b using assms unfolding balances_laws_def by blast
  have le: "x \<le> of_self_bond f" and tol: "\<not> k \<Longrightarrow> x = 0"
    and res: "(if b = st then rt_reserved B b w - x else rt_reserved B b w) \<le> rt_reserved B b w'"
    if h: "rt_try_handle_offence F c st t f w = ((k, x), w')"
    for c st t f k x b and w w' :: "('a, 'b) runtime"
    using oh.slash_le [OF h share] oh.tolerated(1) [of F c st t f w x w'] h
      oh.reserved_after [OF h, of "b_reserved B"] cut by auto
  have same: "rt_reserved B b w' = rt_reserved B b w" if "rt_offences w' = rt_offences w"
    for b and w w' :: "('a, 'b) runtime" using that by simp
  show ?thesis
    unfolding world_laws_def wire_ops
    by (intro conjI allI impI;
        (rule same, (erule rm.join_rest rm.select_rest rm.rename_rest rm.kick_rest rm.delayed_rest
            | rule rm.set_round_rest rm.set_majority_rest rm.leave_rest)
         | erule le res | (erule tol, assumption) | simp add: oh.expire_bal))
qed

lemma wire_env:
  assumes "balances_laws B F" "min_ok C0"
  shows "env_ok (wire B R F C0) (rt_reserved B)"
  using assms wire_currency [OF assms(1), of R C0] wire_world [OF assms(1), of R C0]
  by (simp add: env_ok_def min_ok_def wire_fields)

end
