(* ===== verification/Sample_Runtime.thy ===== *)
theory Sample_Runtime
  imports Runtime "HOL-Library.Code_Target_Nat"
begin

text \<open>
  A runtime small enough to be evaluated: a ledger of free and reserved balances in place of the
  balances pallet, and constants in the proportions of \<open>runtime/mainnet\<close>. The properties that assume
  the laws of \<open>Runtime\<close> are applied to it, which shows that the laws can hold together.
\<close>

type_synonym ledger = "(acct \<Rightarrow> balance) \<times> (acct \<Rightarrow> balance)"

definition held :: "acct \<Rightarrow> ledger \<Rightarrow> balance" where
  "held a w = min (snd w a) (M128 - 1)"

definition ledger_balances :: "ledger Balances" where
  "ledger_balances =
     \<lparr>b_can_reserve = (\<lambda>a x w. x \<le> fst w a \<and> held a w + x < M128),
      b_reserve = (\<lambda>a x w. if x \<le> fst w a \<and> snd w a + x < M128
        then Some ((fst w)(a := fst w a - x), (snd w)(a := snd w a + x)) else None),
      b_unreserve = (\<lambda>a x w. ((fst w)(a := fst w a + min x (held a w)), (snd w)(a := held a w - x))),
      b_deposit = (\<lambda>a x w. if fst w a = 0 then None else Some (((fst w)(a := fst w a + x), snd w), x)),
      b_free = (\<lambda>a w. fst w a),
      b_issuance = (\<lambda>w. 1000000),
      b_reserved = held\<rparr>"

definition unit_share :: "perbill \<Rightarrow> balance \<Rightarrow> balance" where
  "unit_share p x = min p 1000000000 * x div 1000000000"

definition ledger_slash :: "ledger OffConfig" where
  "ledger_slash =
     \<lparr>slash_reserved = (\<lambda>a x w. (fst w, (snd w)(a := held a w - x))), off_pb_mul = unit_share,
      off_pb_from_parts = (\<lambda>n. min n 1000000000)\<rparr>"

definition quiet_relay :: "acct list RelayConfig" where
  "quiet_relay =
     \<lparr>RelayQueue_replace_authority = (\<lambda>_ _ x. x), SocketQueue_replace_authority = (\<lambda>_ _ x. x),
      RegistrationPool_replace_authority = (\<lambda>_ _ x. x), Blaze_replace_authority = (\<lambda>_ _ x. x),
      Members_get = (\<lambda>x. []), Members_put = (\<lambda>_ x. x), Prime_get = (\<lambda>_. None), Prime_put = (\<lambda>_ x. x),
      change_members_sorted = (\<lambda>_ _ _ x. x), set_prime = (\<lambda>_ x. x), vset_validators = (\<lambda>x. x),
      vset_session_index = (\<lambda>_. 1), vset_identifiable = (\<lambda>_ _. True)\<rparr>"

definition sample_constants :: "(ledger, acct list) runtime Config" where
  "sample_constants =
     \<lparr>can_reserve = (\<lambda>_ _ _. False), reserve = (\<lambda>_ _ _. None), unreserve = (\<lambda>_ _ w. w),
      deposit_into_existing = (\<lambda>_ _ _. None), free_balance = (\<lambda>_ _. 0), total_issuance = (\<lambda>_. 0),
      monetary_governance_origin = (\<lambda>og. og = Root), RM_join_relayers = (\<lambda>_ _ _. Inl BadOrigin),
      RM_refresh_round = (\<lambda>_ w. w), RM_refresh_selected_relayers = (\<lambda>_ _ w. Some w),
      RM_refresh_majority = (\<lambda>_ w. w), RM_replace_bonded_controller = (\<lambda>_ _ w. Some w),
      RM_leave_relayers = (\<lambda>_ w. w), RM_kickout_relayer = (\<lambda>_ w. Some w),
      RM_handle_delayed_relayer_sets = (\<lambda>_ w. Some w),
      OH_try_handle_offence = (\<lambda>_ _ _ _ w. ((False, 0), w)), OH_refresh_offences = (\<lambda>_ w. w),
      session_validators = (\<lambda>_. []), has_session_keys = (\<lambda>_ _. True), pb_mul = unit_share,
      pb_from_rational = (\<lambda>p q. if q = 0 then 1000000000 else min (p * 1000000000 div q) 1000000000),
      pb_from_percent = (\<lambda>n. min n 100 * 10000000), pb_from_parts = (\<lambda>n. min n 1000000000),
      pb_annual_to_round = (\<lambda>p n. p div max n 1), key_order = (\<lambda>a. a),
      DefaultBlocksPerSession = 5, DefaultBlocksPerRound = 20, MinBlocksPerRound = 10,
      MaxBlocksPerRound = 1000, StorageCacheLifetimeInRounds = 6, LeaveCandidatesDelay = 2,
      CandidateBondLessDelay = 2, LeaveNominatorsDelay = 2, RevokeNominationDelay = 2,
      NominationBondLessDelay = 2, RewardPaymentDelay = 1, DefaultMaxSelectedFullCandidates = 3,
      DefaultMaxSelectedBasicCandidates = 2, MaxTopNominationsPerCandidate = 2,
      MaxBottomNominationsPerCandidate = 1, MaxNominationsPerNominator = 3,
      CfgDefaultFullValidatorCommission = 500000000, CfgDefaultBasicValidatorCommission = 100000000,
      CfgMaxFullValidatorCommission = 1000000000, CfgMaxBasicValidatorCommission = 200000000,
      MinFullValidatorStk = 100, MinBasicValidatorStk = 50, MinFullCandidateStk = 100,
      MinBasicCandidateStk = 50, MinNomination = 5, MinNominatorStk = 10\<rparr>"

abbreviation sample_config :: "(ledger, acct list) runtime Config" where
  "sample_config \<equiv> wire ledger_balances quiet_relay ledger_slash sample_constants"

abbreviation sample_reserved :: "acct \<Rightarrow> (ledger, acct list) runtime \<Rightarrow> balance" where
  "sample_reserved \<equiv> rt_reserved ledger_balances"

definition offences_default :: "'b \<Rightarrow> 'b offences" where
  "offences_default b =
     \<lparr>ValidatorOffences = [], OffenceExpirationInSessions = 5, FullMaximumOffenceCount = 1,
      BasicMaximumOffenceCount = 1, IsOffenceActive = True, IsSlashActive = True, OffEvents = [],
      off_ext = b\<rparr>"

text \<open>Every account starts with 1000 units, none of them reserved.\<close>

definition sample_world :: "(ledger, acct list) runtime" where
  "sample_world = \<lparr>rt_relay = relay_genesis 6 True 100000000 (relay_default [10, 20]),
     rt_offences = offences_default (\<lambda>_. 1000, \<lambda>_. 0)\<rparr>"

definition sample_inflation :: InflationInfo where
  "sample_inflation = \<lparr>inf_expect = \<lparr>rg_min = 10, rg_ideal = 20, rg_max = 30\<rparr>,
     inf_annual = \<lparr>rg_min = 30000000, rg_ideal = 40000000, rg_max = 50000000\<rparr>,
     inf_round = \<lparr>rg_min = 3000000, rg_ideal = 4000000, rg_max = 5000000\<rparr>\<rparr>"

text \<open>One full candidate at genesis: stash 1, controller 10, relayer 100.\<close>

definition sample_genesis :: "(ledger, acct list) runtime staking option" where
  "sample_genesis = genesis_build sample_config [(1, 10, 100, 300)] [] sample_inflation
     (staking_default sample_world)"

lemma unit_share_le: "unit_share p x \<le> x"
proof -
  have "min p 1000000000 * x div 1000000000 \<le> 1000000000 * x div 1000000000"
    by (intro div_le_mono mult_le_mono1) simp
  then show ?thesis by (simp add: unit_share_def)
qed

lemma sample_laws: "balances_laws ledger_balances ledger_slash"
  unfolding balances_laws_def
  by (auto simp: ledger_balances_def ledger_slash_def held_def unit_share_le M128_def split: if_splits)

lemma sample_min: "min_ok sample_constants"
  by (simp add: min_ok_def cfg_ok_def sample_constants_def M32_def)

lemma sample_genesis_Some: "\<exists>s. sample_genesis = Some s"
proof -
  have "case sample_genesis of None \<Rightarrow> False | Some s \<Rightarrow> True" by code_simp
  then show ?thesis by (auto split: option.splits)
qed

lemma sample_reachable: "\<exists>s. sample_genesis = Some s \<and> staking_reachable sample_config sample_reserved s"
proof -
  obtain s where s: "sample_genesis = Some s" using sample_genesis_Some by blast
  then have "staking_reachable sample_config sample_reserved s"
    unfolding sample_genesis_def by (rule staking_reachable.genesis)
  with s show ?thesis by blast
qed

lemmas sample_env = wire_env [OF sample_laws sample_min, of quiet_relay]

text \<open>A state with one candidate, 10, that has the given lists.\<close>

definition sample_noms :: "(acct \<times> balance) list \<Rightarrow> Nominations" where
  "sample_noms xs = \<lparr>nominations = map (\<lambda>(a, x). \<lparr>owner = a, amount = x\<rparr>) xs, noms_total = sum_list (map snd xs)\<rparr>"

definition sample_meta :: "Nominations \<Rightarrow> Nominations \<Rightarrow> CandidateMetadata" where
  "sample_meta t l = (reset_bottom_data sample_config l
     (top_meta sample_config t (CandidateMetadata_new sample_config 1 300 Full (staking_default sample_world))))
     \<lparr>nomination_count := length (nominations t) + length (nominations l)\<rparr>"

definition sample_lists :: "Nominations \<Rightarrow> Nominations \<Rightarrow> (ledger, acct list) runtime staking" where
  "sample_lists t l = (staking_default sample_world)\<lparr>TopNominations := [10 \<mapsto> t],
     BottomNominations := [10 \<mapsto> l], CandidatePool := [(10, voting_power (sample_meta t l))]\<rparr>"

definition sample_nominator :: Nominator where
  "sample_nominator = \<lparr>nr_id = 7, nr_nominations = [(10, 30)], nr_initial_nominations = [(10, 30)],
     nr_total = 30, nr_requests = PendingNominationRequests_new, nr_status = NActive,
     nr_reward_dst = DstStaked, nr_awarded_tokens = 0, nr_awarded_tokens_per_candidate = []\<rparr>"

lemma sample_lists_ok:
  assumes "lists_wf sample_constants (nominations t) (nominations l)"
  shows "cand_ok sample_config 10 (sample_meta t l) (sample_lists t l)"
    "bonds (sample_lists t l) 10 = mset (nominations t) + mset (nominations l)"
  using assms
  by (simp_all add: cand_ok_def cand_wf_def sample_lists_def sample_meta_def bonds_def lists_wf_def wire_def
      noms_top_capacity_def noms_bottom_capacity_def)

end
