(* ===== verification/Candidate_Properties.thy ===== *)
theory Candidate_Properties
  imports Sample_Runtime
begin

text \<open>
  The two nomination lists of a candidate. The abstract view of them is the multiset \<open>bonds\<close> of all
  nominations; \<open>list_op\<close> says that an operation returns a candidate whose lists and metadata are in
  order again, whose \<open>bonds\<close> are the given ones, and that nothing else in storage changed.
\<close>

lemmas sample_list_defs = sample_noms_def lists_wf_def sample_constants_def two_tier_def M128_def

abbreviation sample_top :: Nominations where
  "sample_top \<equiv> sample_noms [(5, 50), (6, 40)]"
abbreviation sample_bottom :: Nominations where
  "sample_bottom \<equiv> sample_noms [(7, 30)]"

lemma sample_wf:
  "lists_wf sample_constants (nominations sample_top) (nominations (sample_noms []))"
  "lists_wf sample_constants (nominations sample_top) (nominations sample_bottom)"
  by (simp_all add: sample_list_defs)

lemmas sample_room = sample_lists_ok [OF sample_wf(1)]
lemmas sample_full = sample_lists_ok [OF sample_wf(2)]
lemmas sample_cfg = env_okD(4) [OF sample_env]

text \<open>C5: Inserting a nomination by binary search over the sorted list puts it exactly where a linear
scan would: behind every nomination that is at least as large, before every smaller one.\<close>

theorem insert_by_binary_search:
  assumes "desc (nominations t)"
  shows "nominations (insert_sorted_greatest_to_least n t) =
    takeWhile (\<lambda>b. amount n \<le> amount b) (nominations t) @ n # dropWhile (\<lambda>b. amount n \<le> amount b) (nominations t)"
  using ins_desc_spec [OF assms, of n] by (simp add: ins_spec_def)

theorem insert_by_binary_search_witness:
  "map owner (nominations (insert_sorted_greatest_to_least \<lparr>owner = 9, amount = 40\<rparr>
     (sample_noms [(5, 50), (6, 40), (7, 40), (8, 30)]))) = [5, 6, 7, 9, 8]"
  using insert_by_binary_search [of "sample_noms [(5, 50), (6, 40), (7, 40), (8, 30)]" "\<lparr>owner = 9, amount = 40\<rparr>"]
  by (simp add: sample_noms_def)

text \<open>C6: As long as a candidate has room, adding a nomination adds exactly that bond, in whichever list
it belongs to, displacing the smallest top nomination to the bottom list when the top list is full.\<close>

theorem add_nomination_refines:
  assumes "cfg_ok C" "cand_ok C c m s"
    and "size (bonds s c) < MaxTopNominationsPerCandidate C + MaxBottomNominationsPerCandidate C"
    and "owner n \<notin> owner ` set_mset (bonds s c)" "amount n < M128"
  shows "list_op C c m s (cm_add_nomination C c n m s) (add_mset n (bonds s c))"
  by (rule add_nomination_room [OF assms])

theorem add_nomination_refines_witness:
  "list_op sample_config 10 (sample_meta sample_top (sample_noms [])) (sample_lists sample_top (sample_noms []))
     (cm_add_nomination sample_config 10 \<lparr>owner = 7, amount = 45\<rparr>
        (sample_meta sample_top (sample_noms [])) (sample_lists sample_top (sample_noms [])))
     {#\<lparr>owner = 7, amount = 45\<rparr>, \<lparr>owner = 5, amount = 50\<rparr>, \<lparr>owner = 6, amount = 40\<rparr>#}"
  using add_nomination_refines [OF sample_cfg sample_room(1), of "\<lparr>owner = 7, amount = 45\<rparr>"]
  by (simp add: sample_room(2)) (simp add: sample_noms_def wire_def sample_constants_def M128_def)

text \<open>C7: On a full candidate a nomination that does not exceed the smallest bottom nomination is refused
and changes nothing; a larger one takes the place of that nomination, whose owner is kicked.\<close>

theorem add_nomination_when_full:
  assumes "cfg_ok C" "cand_ok C c m s"
    and "size (bonds s c) = MaxTopNominationsPerCandidate C + MaxBottomNominationsPerCandidate C"
    and "BottomNominations s c = Some l" "NominatorState s (owner (last (nominations l))) = Some ns"
    and "owner n \<notin> owner ` set_mset (bonds s c)" "amount n < M128"
  shows "if amount n \<le> amount (last (nominations l))
    then cm_add_nomination C c n m s = Fail (StakingError CannotNominateLessThanLowestBottomWhenBottomIsFull) s
    else list_op C c m (kick_nominator C c (last (nominations l)) ns s) (cm_add_nomination C c n m s)
      (add_mset n (bonds s c - {#last (nominations l)#}))"
  using add_nomination_refused [OF assms(1-4)] add_nomination_kick [OF assms(1-4) refl assms(5-7)] by simp

theorem add_nomination_when_full_witness:
  "cm_add_nomination sample_config 10 \<lparr>owner = 8, amount = 30\<rparr> (sample_meta sample_top sample_bottom)
     ((sample_lists sample_top sample_bottom)\<lparr>NominatorState := [7 \<mapsto> sample_nominator]\<rparr>) =
   Fail (StakingError CannotNominateLessThanLowestBottomWhenBottomIsFull)
     ((sample_lists sample_top sample_bottom)\<lparr>NominatorState := [7 \<mapsto> sample_nominator]\<rparr>)"
proof -
  let ?s = "(sample_lists sample_top sample_bottom)\<lparr>NominatorState := [7 \<mapsto> sample_nominator]\<rparr>"
  have ok: "cand_ok sample_config 10 (sample_meta sample_top sample_bottom) ?s"
    using sample_full(1) cand_ok_cong [of ?s 10 "sample_lists sample_top sample_bottom"] by simp
  have b: "bonds ?s 10 = mset (nominations sample_top) + mset (nominations sample_bottom)"
    using sample_full(2) by (simp add: bonds_def)
  have "size (bonds ?s 10) = MaxTopNominationsPerCandidate sample_config + MaxBottomNominationsPerCandidate sample_config"
    "BottomNominations ?s 10 = Some sample_bottom"
    "NominatorState ?s (owner (last (nominations sample_bottom))) = Some sample_nominator"
    "owner \<lparr>owner = 8, amount = 30\<rparr> \<notin> owner ` set_mset (bonds ?s 10)" "amount \<lparr>owner = 8, amount = 30\<rparr> < M128"
    unfolding b by (simp_all add: sample_lists_def sample_noms_def wire_def sample_constants_def M128_def)
  from add_nomination_when_full [OF sample_cfg ok this] show ?thesis by (simp add: sample_noms_def)
qed

text \<open>Removing the nomination of an account from a candidate removes exactly that bond, and the best
bottom nomination moves up when the vacancy is in the top list.\<close>

theorem rm_nomination_refines:
  assumes "cfg_ok C" "cand_ok C c m s" "b \<in># bonds s c"
  shows "list_op C c m s (rm_nomination_if_exists C c (owner b) (amount b) m s) (bonds s c - {#b#})"
  by (rule rm_nomination_ok [OF assms])

theorem rm_nomination_refines_witness:
  "list_op sample_config 10 (sample_meta sample_top sample_bottom) (sample_lists sample_top sample_bottom)
     (rm_nomination_if_exists sample_config 10 5 50 (sample_meta sample_top sample_bottom)
        (sample_lists sample_top sample_bottom))
     {#\<lparr>owner = 6, amount = 40\<rparr>, \<lparr>owner = 7, amount = 30\<rparr>#}"
  using rm_nomination_refines [OF sample_cfg sample_full(1), of "\<lparr>owner = 5, amount = 50\<rparr>"]
  by (simp add: sample_full(2)) (simp add: sample_noms_def add_mset_commute)

text \<open>Increasing or decreasing a nomination changes the amount of exactly that bond, and moves it
across the boundary of the two lists when its new amount belongs on the other side.\<close>

theorem change_nomination_refines:
  assumes "cfg_ok C" "cand_ok C c m s" "b \<in># bonds s c"
  shows "list_op C c m s (cm_increase_nomination C c (owner b) (amount b) x m s)
      (add_mset (b\<lparr>amount := sat_add128 (amount b) x\<rparr>) (bonds s c - {#b#})) \<and>
    list_op C c m s (cm_decrease_nomination C c (owner b) (amount b) x m s)
      (add_mset (b\<lparr>amount := amount b - x\<rparr>) (bonds s c - {#b#}))"
  using increase_nomination_ok [OF assms] decrease_nomination_ok [OF assms] by blast

theorem change_nomination_refines_witness:
  "list_op sample_config 10 (sample_meta sample_top sample_bottom) (sample_lists sample_top sample_bottom)
     (cm_increase_nomination sample_config 10 7 30 15 (sample_meta sample_top sample_bottom)
        (sample_lists sample_top sample_bottom))
     {#\<lparr>owner = 7, amount = 45\<rparr>, \<lparr>owner = 5, amount = 50\<rparr>, \<lparr>owner = 6, amount = 40\<rparr>#}"
  using change_nomination_refines [OF sample_cfg sample_full(1), of "\<lparr>owner = 7, amount = 30\<rparr>" 15]
  by (simp add: sample_full(2)) (simp add: sample_noms_def sat_add128_def M128_def add_mset_commute)

end
