(* ===== verification/Staking_Properties.thy ===== *)
theory Staking_Properties
  imports Sample_Runtime
begin

text \<open>
  What the staking pallet guarantees in every state the runtime reaches, with the relay manager and
  the offences pallet in their places and the balances pallet as a parameter.
\<close>

subsection \<open>Invariants of the storage\<close>

text \<open>C2: In every reachable state the staking storage is consistent: candidates, their lists and
pool entries, stashes, nominator records, pending controller changes, and reserved balances.\<close>

theorem runtime_staking_inv:
  assumes "balances_laws B F" "min_ok C0" "staking_reachable (wire B R F C0) (rt_reserved B) s"
  shows "staking_inv (wire B R F C0) (rt_reserved B) (now_round s) s"
  using staking_reachable_inv [OF wire_env [OF assms(1,2)] assms(3)] by blast

theorem runtime_staking_inv_witness:
  "\<exists>s. sample_genesis = Some s \<and> staking_inv sample_config sample_reserved (now_round s) s"
  using sample_reachable runtime_staking_inv [OF sample_laws sample_min] by blast

text \<open>C1: Solvency. Whatever calls, rewards, slashes and kick-outs happened, the balance reserved for
an account covers the sum of its nominations plus the self-bond it stands behind as a stash.\<close>

theorem runtime_solvent:
  assumes "balances_laws B F" "min_ok C0" "staking_reachable (wire B R F C0) (rt_reserved B) s"
  shows "nominated s a + self_bonded s a \<le> rt_reserved B a (world s)"
  using staking_reachable_inv [OF wire_env [OF assms(1,2)] assms(3)] staking_invD(7)
  unfolding owed_def by blast

theorem runtime_solvent_witness:
  "\<exists>s. sample_genesis = Some s \<and> nominated s 1 + self_bonded s 1 \<le> sample_reserved 1 (world s)"
  using sample_reachable runtime_solvent [OF sample_laws sample_min] by blast

text \<open>C3: Both sides of a nomination agree. A nominator's record says it backs candidate \<open>c\<close> with \<open>x\<close>
exactly if the bond \<open>(a, x)\<close> is in the top or the bottom list of \<open>c\<close>, where it occurs once.\<close>

theorem runtime_nominations_agree:
  assumes "balances_laws B F" "min_ok C0" "staking_reachable (wire B R F C0) (rt_reserved B) s"
  shows "(nom_amt s a c = Some x \<longleftrightarrow> \<lparr>owner = a, amount = x\<rparr> \<in># bonds s c) \<and>
    count (bonds s c) \<lparr>owner = a, amount = x\<rparr> \<le> 1"
proof -
  have inv: "staking_inv (wire B R F C0) (rt_reserved B) (now_round s) s"
    using staking_reachable_inv [OF wire_env [OF assms(1,2)] assms(3)] by blast
  show ?thesis
    using staking_invD(5) [OF inv] inv_bonds_once [OF inv] unfolding link_inv_def by blast
qed

theorem runtime_nominations_agree_witness:
  "\<exists>s. sample_genesis = Some s \<and> (nom_amt s 5 10 = Some 50 \<longleftrightarrow> \<lparr>owner = 5, amount = 50\<rparr> \<in># bonds s 10)"
  using sample_reachable runtime_nominations_agree [OF sample_laws sample_min] by blast



end
