(* ===== verification/Round_Properties.thy ===== *)
theory Round_Properties
  imports Sample_Runtime
begin

text \<open>
  Selection of validators, requests with a delay, and rewards: the parts of the staking pallet that
  turn with the rounds.
\<close>

subsection \<open>Caches\<close>

interpretation stk_sel: round_cache CachedSelectedCandidates StorageCacheLifetime
  "\<lambda>r s. refresh_cached_selected_candidates r (SelectedCandidates s) s" SelectedCandidates
  by unfold_locales (simp_all add: refresh_cached_selected_candidates_def)

interpretation stk_maj: round_cache CachedMajority StorageCacheLifetime refresh_majority compute_majority
  by unfold_locales (simp_all add: refresh_majority_def Let_def)

text \<open>The cache of past selections holds the selection of the new round, keeps every cached round
but the oldest, and never grows beyond its lifetime.\<close>

theorem selection_cache:
  assumes "bt_wf (CachedSelectedCandidates s)" "length (CachedSelectedCandidates s) \<le> StorageCacheLifetime s"
    and "0 < StorageCacheLifetime s" "StorageCacheLifetime s < M32"
    and s': "s' = refresh_cached_selected_candidates r (SelectedCandidates s) s"
  shows "bt_get (CachedSelectedCandidates s') r = Some (SelectedCandidates s) \<and>
    length (CachedSelectedCandidates s') \<le> StorageCacheLifetime s \<and> bt_wf (CachedSelectedCandidates s') \<and>
    (\<forall>q p w. q \<noteq> r \<and> p < q \<and> bt_get (CachedSelectedCandidates s) p \<noteq> None \<and>
       bt_get (CachedSelectedCandidates s) q = Some w \<longrightarrow> bt_get (CachedSelectedCandidates s') q = Some w)"
  unfolding s'
  using stk_sel.lookup_refresh stk_sel.bounded_refresh [OF assms(2,3,4)] stk_sel.wf_refresh [OF assms(1)]
    stk_sel.keeps_newer [OF assms(1)] stk_sel.lifetime_refresh
  by metis

theorem selection_cache_witness:
  "let s = (staking_default sample_world)\<lparr>StorageCacheLifetime := 2, SelectedCandidates := [(10, ())],
      CachedSelectedCandidates := [(1, []), (2, [(20, ())])]\<rparr>;
      s' = refresh_cached_selected_candidates 3 (SelectedCandidates s) s
   in bt_get (CachedSelectedCandidates s') 3 = Some [(10, ())] \<and> length (CachedSelectedCandidates s') \<le> 2"
  using selection_cache [of "(staking_default sample_world)\<lparr>StorageCacheLifetime := 2,
      SelectedCandidates := [(10, ())], CachedSelectedCandidates := [(1, []), (2, [(20, ())])]\<rparr>" _ 3, OF _ _ _ _ refl]
  by (simp add: Let_def M32_def)

subsection \<open>Selection\<close>







subsection \<open>Requests\<close>

text \<open>A scheduled decrease of a candidate's self-bond never takes it below the minimum of its tier,
cannot be executed before its round (which leaves everything as it was), and executed then it releases
exactly the requested amount and clears the request; cancelling it instead restores the metadata.\<close>

theorem bond_less_request:
  assumes "cm_schedule_bond_less C s x m = Inr (m', due)"
  shows "request m' = Some \<lparr>cr_amount = x, cr_when_executable = due\<rparr> \<and>
    (if tier m = Full then MinFullCandidateStk C else MinBasicCandidateStk C) + x \<le> bond m \<and>
    (now_round t < due \<longrightarrow>
       cm_execute_bond_less C st ctrl m' t = Fail (StakingError PendingCandidateRequestNotDueYet) t) \<and>
    (due \<le> now_round t \<longrightarrow> (\<exists>t'. cm_execute_bond_less C st ctrl m' t =
       Done (m\<lparr>bond := bond m - x, voting_power := voting_power m - x\<rparr>) t' \<and>
       world t' = unreserve C st x (world t) \<and> Total t' = Total t - x)) \<and>
    (\<exists>t'. cm_cancel_bond_less ctrl m' t = Done m t')"
proof -
  have m': "m' = m\<lparr>request := Some \<lparr>cr_amount = x, cr_when_executable = due\<rparr>\<rparr>" and none: "request m = None"
    and lim: "x < bond m" "tier m = Full \<Longrightarrow> MinFullCandidateStk C \<le> bond m - x"
      "tier m \<noteq> Full \<Longrightarrow> MinBasicCandidateStk C \<le> bond m - x"
    using assms by (auto simp: cm_schedule_bond_less_def Let_def split: if_splits)
  have same: "m\<lparr>request := None\<rparr> = m" using none by simp
  have "m\<lparr>request := Some q, bond := b, voting_power := p, request := None\<rparr> = m\<lparr>bond := b, voting_power := p\<rparr>" for q b p
    by (subst (2) same [symmetric]) simp
  then have "due \<le> now_round t \<longrightarrow> (\<exists>t'. cm_execute_bond_less C st ctrl m' t =
       Done (m\<lparr>bond := bond m - x, voting_power := voting_power m - x\<rparr>) t' \<and>
       world t' = unreserve C st x (world t) \<and> Total t' = Total t - x)"
    by (auto simp: m' cm_execute_bond_less_def Let_def update_active_def cur_unreserve_def deposit_event_def)
  moreover have "\<exists>t'. cm_cancel_bond_less ctrl m' t = Done m t'"
    using same by (simp add: m' cm_cancel_bond_less_def)
  moreover have "(if tier m = Full then MinFullCandidateStk C else MinBasicCandidateStk C) + x \<le> bond m"
    using lim(1) lim(2,3) by (cases "tier m = Full") (simp_all add: le_diff_conv2)
  moreover have "now_round t < due \<longrightarrow>
      cm_execute_bond_less C st ctrl m' t = Fail (StakingError PendingCandidateRequestNotDueYet) t"
    by (simp add: m' cm_execute_bond_less_def)
  moreover have "request m' = Some \<lparr>cr_amount = x, cr_when_executable = due\<rparr>" by (simp add: m')
  ultimately show ?thesis by blast
qed

theorem bond_less_request_witness:
  "\<exists>m' due. cm_schedule_bond_less sample_config (staking_default sample_world) 200
      (sample_meta (sample_noms []) (sample_noms [])) = Inr (m', due) \<and>
    (\<exists>t'. cm_cancel_bond_less 10 m' (staking_default sample_world) =
       Done (sample_meta (sample_noms []) (sample_noms [])) t')"
proof -
  let ?m = "sample_meta (sample_noms []) (sample_noms [])" and ?s = "staking_default sample_world"
  have "\<exists>m' due. cm_schedule_bond_less sample_config ?s 200 ?m = Inr (m', due)"
    by (simp add: cm_schedule_bond_less_def sample_meta_def CandidateMetadata_new_def top_meta_def
        reset_bottom_data_def wire_def sample_constants_def Let_def)
  then show ?thesis using bond_less_request [of sample_config ?s 200 ?m _ _ ?s 1 10] by blast
qed

text \<open>Cancelling a nomination request restores the nominator exactly as it was before the request
was scheduled, for a revocation and for a decrease alike, as long as the pending amounts do not overflow.\<close>

theorem nomination_request_cancelled:
  assumes "bt_wf (requests (nr_requests n))" "bt_get (nr_nominations n) c = Some a" "x \<le> a"
    and "less_total (nr_requests n) + a < M128" "revocations_count (nr_requests n) + 1 < M32"
  shows "(\<forall>n' due. nr_schedule_decrease_nomination C s c x n = Inr (n', due) \<longrightarrow>
      (\<exists>q. nr_cancel_pending_request c n' = Inr (n, q) \<and> nq_amount q = x)) \<and>
    (\<forall>n' now due. nr_schedule_revoke C s c n = Inr (n', now, due) \<longrightarrow>
      (\<exists>q. nr_cancel_pending_request c n' = Inr (n, q) \<and> nq_amount q = a))"
proof -
  have undo: "bt_remove c (bt_insert c q rs) = rs" if "bt_get rs c = None" for q and rs :: "(acct, NominationRequest) btmap"
    using that by (induction rs) (auto simp: bt_remove_def filter_id_conv map_of_eq_None_iff split: if_splits)
  show ?thesis
    using assms
    by (auto simp: nr_schedule_decrease_nomination_def nr_schedule_revoke_def nr_cancel_pending_request_def
        pr_bond_less_def pr_revoke_def Let_def undo add128_id add32_id split: option.splits if_splits)
qed

theorem nomination_request_cancelled_witness:
  "\<exists>n' now due q. nr_schedule_revoke sample_config (staking_default sample_world) 10 sample_nominator = Inr (n', now, due) \<and>
     nr_cancel_pending_request 10 n' = Inr (sample_nominator, q)"
proof -
  have "\<exists>n' now due. nr_schedule_revoke sample_config (staking_default sample_world) 10 sample_nominator = Inr (n', now, due)"
    by (simp add: nr_schedule_revoke_def pr_revoke_def sample_nominator_def PendingNominationRequests_new_def Let_def)
  then show ?thesis
    using nomination_request_cancelled [of sample_nominator 10 30 30 sample_config "staking_default sample_world"]
    by (auto simp: sample_nominator_def PendingNominationRequests_new_def M128_def M32_def)
qed

end
