(* ===== verification/Frames.thy ===== *)
theory Frames
  imports Staking_Calls
begin

text \<open>
  What the operations on a candidate's lists leave alone, in every outcome and without any assumption
  on the state: everything but the two lists and the candidate pool.
\<close>

definition strip :: "'w staking \<Rightarrow> 'w staking" where
  "strip s = s\<lparr>TopNominations := Map.empty, BottomNominations := Map.empty, CandidatePool := []\<rparr>"

lemma strip_puts [simp]:
  "strip (put_top c n s) = strip s" "strip (put_bottom c n s) = strip s"
  "strip (update_active c v s) = strip s"
  by (simp_all add: strip_def put_top_def put_bottom_def update_active_def)

lemma strip_reset [simp]: "strip (snd (reset_top_data C c t m s)) = strip s"
  by (simp add: reset_top_data_def Let_def)

lemma strip_resetD: "reset_top_data C c t m s = (m', s') \<Longrightarrow> strip s' = strip s"
  by (metis snd_conv strip_reset)

lemma stripD:
  assumes "strip t = strip s"
  shows "CandidateInfo t = CandidateInfo s" "NominatorState t = NominatorState s" "Round t = Round s"
    "world t = world s" "AwardedTokens t = AwardedTokens s" "Total t = Total s" "Events t = Events s"
    "DelayedControllerSets t = DelayedControllerSets s" "BondedStash t = BondedStash s"
    "SelectedCandidates t = SelectedCandidates s" "Majority t = Majority s"
  using arg_cong [OF assms, of CandidateInfo] arg_cong [OF assms, of NominatorState]
    arg_cong [OF assms, of Round] arg_cong [OF assms, of world] arg_cong [OF assms, of AwardedTokens]
    arg_cong [OF assms, of Total] arg_cong [OF assms, of Events]
    arg_cong [OF assms, of DelayedControllerSets] arg_cong [OF assms, of BondedStash]
    arg_cong [OF assms, of SelectedCandidates] arg_cong [OF assms, of Majority]
  by (simp_all add: strip_def)

abbreviation list_only :: "'w staking \<Rightarrow> ('w staking, 'e, 'a) outcome \<Rightarrow> bool" where
  "list_only s r \<equiv> outcome_all (\<lambda>t. strip t = strip s) r"

lemma outcome_all_simps [simp]:
  "outcome_all P (Done a s) \<longleftrightarrow> P s" "outcome_all P (Fail e s) \<longleftrightarrow> P s" "outcome_all P Panic"
  by (simp_all add: outcome_all_def)

lemma outcome_all_bind:
  "outcome_all P m \<Longrightarrow> (\<And>a s. m = Done a s \<Longrightarrow> P s \<Longrightarrow> outcome_all P (f a s)) \<Longrightarrow> outcome_all P (bind_outcome m f)"
  by (cases m) simp_all

lemma increase_top_only: "list_only s (increase_top_nomination C c w x m s)"
  by (auto simp: increase_top_nomination_def Let_def dest: strip_resetD split: option.split prod.split)

lemma increase_bottom_only: "list_only s (increase_bottom_nomination C c w b x m s)"
  by (auto simp: increase_bottom_nomination_def Let_def dest: strip_resetD split: option.split prod.split)

lemma increase_only: "list_only s (cm_increase_nomination C c w b x m s)"
  using increase_top_only [of s C c w x m] increase_bottom_only [of _ C c w b x m]
  by (auto simp: cm_increase_nomination_def Let_def split: outcome.split) (metis outcome_all_simps(2))+

end
