(* ===== verification/Reward_Properties.thy ===== *)
theory Reward_Properties
  imports Sample_Runtime Frames
begin

text \<open>
  Rewards: what one payout may mint. \<open>Perbill\<close> is external arithmetic; its documented rounding
  (\<open>from_rational\<close> rounds down, a product to the nearest unit) is the hypothesis \<open>perbill_laws\<close>.
\<close>

definition perbill_laws :: "'w Config \<Rightarrow> bool" where
  "perbill_laws C \<longleftrightarrow>
     (\<forall>a b. pb_from_rational C a b \<le> 1000000000 \<and> pb_from_rational C a b * b \<le> a * 1000000000) \<and>
     (\<forall>p x. 2 * 1000000000 * pb_mul C p x \<le> 2 * p * x + 1000000000) \<and>
     (\<forall>p x. pb_mul C p x \<le> x) \<and> (\<forall>p x y. x \<le> y \<longrightarrow> pb_mul C p x \<le> pb_mul C p y) \<and>
     (\<forall>a x w w' y. deposit_into_existing C a x w = Some (w', y) \<longrightarrow> y \<le> x)"

lemma perbill_lawsD:
  assumes "perbill_laws C"
  shows "pb_from_rational C a b * b \<le> a * 1000000000"
    "2 * 1000000000 * pb_mul C p x \<le> 2 * p * x + 1000000000" "pb_mul C p x \<le> x"
    "x \<le> y \<Longrightarrow> pb_mul C p x \<le> pb_mul C p y"
    "deposit_into_existing C d x w = Some (w', z) \<Longrightarrow> z \<le> x"
  using assms by (simp_all add: perbill_laws_def)

lemma half_le: "2 * a \<le> 2 * b + n \<Longrightarrow> a \<le> b + n div 2" for a b n :: nat
  by linarith

subsection \<open>What a payout mints\<close>

abbreviation minted_le :: "'w staking \<Rightarrow> balance \<Rightarrow> 'w staking \<Rightarrow> bool" where
  "minted_le s x s' \<equiv> AwardedTokens s' \<le> AwardedTokens s + x"

lemma add128_le: "add128 a b \<le> a + b"
  by (simp add: add128_def)

lemma mint_le: "perbill_laws C \<Longrightarrow> minted_le s x (mint_reward C x d s)"
  using perbill_lawsD(5) [of C d x "world s"] add128_le [of "AwardedTokens s"]
  by (auto simp: mint_reward_def deposit_event_def split: option.split) (meson add_left_mono order_trans)

lemma validator_minted:
  assumes laws: "perbill_laws C" and d: "handle_validator_reward_payout C ctrl st x s = Done u s'"
  shows "minted_le s x s'"
proof (cases "cand s ctrl")
  case None
  then show ?thesis using d by (simp add: handle_validator_reward_payout_def)
next
  case (Some v)
  have "AwardedTokens s' = AwardedTokens (mint_reward C x st s)"
    using d Some
    by (cases "reward_dst v"; cases "reserve C (stash v) x (world (mint_reward C x st s))")
      (simp_all add: handle_validator_reward_payout_def cm_bond_more_def cur_reserve_def cm_increment_awarded_tokens_def
        put_candidate_def update_active_def deposit_event_def Let_def, auto)
  then show ?thesis using mint_le [OF laws, where s = s and x = x and d = st] by simp
qed

lemma nr_increase_awarded:
  "outcome_all (\<lambda>t. AwardedTokens t = AwardedTokens s) (nr_increase_nomination C c x n s)"
proof -
  have inc: "AwardedTokens t = AwardedTokens s"
    if "cm_increase_nomination C c a b x m (s\<lparr>world := w\<rparr>) = Done y t \<or>
        cm_increase_nomination C c a b x m (s\<lparr>world := w\<rparr>) = Fail e t" for a b m w y e t
  proof -
    have "strip t = strip (s\<lparr>world := w\<rparr>)" using increase_only [of "s\<lparr>world := w\<rparr>" C c a b x m] that by auto
    from stripD(5) [OF this] show ?thesis by simp
  qed
  show ?thesis
  proof (cases "bt_get (nr_nominations n) c"; cases "cand s c"; cases "reserve C (nr_id n) x (world s)")
    fix b v w assume a: "bt_get (nr_nominations n) c = Some b" "cand s c = Some v"
      "reserve C (nr_id n) x (world s) = Some w"
    show ?thesis
    proof (cases "cm_increase_nomination C c (nr_id n) b x v (s\<lparr>world := w\<rparr>)")
      case (Done y t)
      then show ?thesis using a inc [OF disjI1, OF Done] by (cases y) (simp add: nr_increase_nomination_def cur_reserve_def Let_def
            update_active_def put_candidate_def put_nominator_def deposit_event_def)
    next
      case (Fail e t)
      then show ?thesis using a inc [OF disjI2, OF Fail] by (simp add: nr_increase_nomination_def cur_reserve_def Let_def)
    qed (use a in \<open>simp add: nr_increase_nomination_def cur_reserve_def Let_def\<close>)
  qed (simp_all add: nr_increase_nomination_def cur_reserve_def Let_def)
qed

lemma nominator_minted:
  assumes "perbill_laws C" "handle_nominator_reward_payout C ctrl nom x s = Done u s'"
  shows "minted_le s x s'"
proof -
  note m = mint_le [OF assms(1), where s = s and x = x and d = nom]
  have inc: "AwardedTokens t = AwardedTokens (mint_reward C x nom s)"
    if "nr_increase_nomination C ctrl x n1 (mint_reward C x nom s) = Done n2 t \<or>
        nr_increase_nomination C ctrl x n1 (mint_reward C x nom s) = Fail e t" for n1 n2 e t
    using nr_increase_awarded [of "mint_reward C x nom s" C ctrl x n1] that by auto
  show ?thesis
    using assms(2) m inc
    by (auto simp: handle_nominator_reward_payout_def put_nominator_def Let_def
        split: option.splits if_splits RewardDestination.splits outcome.splits) metis+
qed

definition shares :: "'w Config \<Rightarrow> balance \<Rightarrow> balance \<Rightarrow> Bond list \<Rightarrow> balance" where
  "shares C tot due bs = sum_list (map (\<lambda>b. pb_mul C (pb_from_rational C (amount b) tot) due) bs)"

lemma pay_nominators_minted:
  assumes laws: "perbill_laws C"
  shows "pay_nominators C v tot due bs s = Done u s' \<Longrightarrow> minted_le s (shares C tot due bs) s'"
proof (induction bs arbitrary: s)
  case (Cons b bs)
  let ?x = "pb_mul C (pb_from_rational C (amount b) tot) due"
  show ?case
  proof (cases "?x = 0")
    case True
    then show ?thesis using Cons by (simp add: shares_def)
  next
    case False
    then obtain s1 where "handle_nominator_reward_payout C v (owner b) ?x s = Done () s1"
      "pay_nominators C v tot due bs s1 = Done u s'"
      using Cons.prems by (auto simp: bind_outcome_Done expect_ok_Done)
    with nominator_minted [OF laws] Cons.IH show ?thesis by (fastforce simp: shares_def)
  qed
qed (simp add: shares_def)

subsection \<open>The shares add up\<close>

lemma share_bound:
  assumes "perbill_laws C"
  shows "2 * tot * pb_mul C (pb_from_rational C a tot) due \<le> 2 * due * a + tot"
proof -
  let ?p = "pb_from_rational C a tot" and ?N = "1000000000 :: nat"
  have "?N * (2 * tot * pb_mul C ?p due) = tot * (2 * ?N * pb_mul C ?p due)" by simp
  also have "\<dots> \<le> tot * (2 * ?p * due + ?N)" using perbill_lawsD(2) [OF assms] by (rule mult_le_mono2)
  also have "\<dots> = 2 * due * (?p * tot) + tot * ?N" by (simp add: algebra_simps)
  also have "\<dots> \<le> 2 * due * (a * ?N) + tot * ?N"
    using perbill_lawsD(1) [OF assms, of a tot] by (intro add_right_mono mult_le_mono2)
  also have "\<dots> = ?N * (2 * due * a + tot)" by (simp add: algebra_simps)
  finally show ?thesis by simp
qed

lemma shares_bound:
  assumes "perbill_laws C"
  shows "2 * tot * shares C tot due bs \<le> 2 * due * sum_list (map amount bs) + length bs * tot"
proof (induction bs)
  case (Cons b bs)
  then show ?case using share_bound [OF assms, of tot "amount b" due] by (simp add: shares_def algebra_simps)
qed (simp add: shares_def)

text \<open>C9: Paying one validator and its nominators for a round mints at most the validator's part of the
round's staking reward, plus half a unit of rounding for each party; that part is at most the whole
staking reward of the round.\<close>

theorem payout_bounded:
  assumes laws: "perbill_laws C" and d: "pay_one_validator_reward C r info s = Done (Some (v, t)) s'"
    and info: "dp_round_issuance info \<le> dp_total_staking_reward info" "dp_total_staking_reward info < M128"
    and snap: "vs_bond (AtStake s r v) + sum_list (map amount (vs_nominations (AtStake s r v))) \<le> vs_total (AtStake s r v)"
      "0 < vs_total (AtStake s r v)"
  shows "t \<le> dp_total_staking_reward info \<and>
    minted_le s (t + (length (vs_nominations (AtStake s r v)) + 1) div 2) s'"
proof -
  let ?A = "AtStake s r v" and ?n = "length (vs_nominations (AtStake s r v))"
  obtain e where p: "Points s r \<noteq> 0" and e: "first_by (\<lambda>e. key_order C (fst e)) (AwardedPts s r) = Some e"
    using d by (cases "Points s r = 0"; cases "first_by (\<lambda>e. key_order C (fst e)) (AwardedPts s r)")
      (simp_all add: pay_one_validator_reward_def)
  obtain u pts where up: "e = (u, pts)" by fastforce
  obtain st where st: "cand s u = Some st"
    using d by (cases "cand s u") (simp_all add: pay_one_validator_reward_def p e up)
  define s1 where "s1 = s\<lparr>AwardedPts := (AwardedPts s)(r := bt_remove u (AwardedPts s r))\<rparr>"
  define s2 where "s2 = s1\<lparr>AtStake := (AtStake s1)(r := (AtStake s1 r)(u := ValidatorSnapshot_default))\<rparr>"
  have s2: "AwardedTokens s2 = AwardedTokens s" by (simp add: s2_def s1_def)
  define tr where "tr = pb_mul C (pb_from_rational C pts (Points s r)) (dp_total_staking_reward info)"
  note run = d [unfolded pay_one_validator_reward_def e up, simplified p, simplified, folded s1_def,
      unfolded st, simplified]
  have "u = v \<and> tr = t" using run
    by (auto simp: st s1_def tr_def Let_def bind_outcome_Done split: if_splits)
  then have t: "t = pb_mul C (pb_from_rational C pts (Points s r)) (dp_total_staking_reward info)" and u: "u = v"
    by (simp_all add: tr_def)
  have pay: "if vs_nominations ?A = [] then handle_validator_reward_payout C v (stash st) t s2 = Done () s'
      else let com = pb_mul C (pb_from_rational C pts (Points s r)) (pb_mul C (commission st) (dp_round_issuance info));
             due = sub128 t com
           in \<exists>s3. handle_validator_reward_payout C v (stash st)
                 (add128 (pb_mul C (pb_from_rational C (vs_bond ?A) (vs_total ?A)) due) com) s2 = Done () s3 \<and>
               pay_nominators C v (vs_total ?A) due (vs_nominations ?A) s3 = Done () s'"
    using run by (auto simp: st s1_def s2_def t u Let_def bind_outcome_Done expect_ok_Done split: if_splits)
  have le: "t \<le> dp_total_staking_reward info" unfolding t by (rule perbill_lawsD(3) [OF laws])
  have "minted_le s (t + (?n + 1) div 2) s'"
  proof (cases "vs_nominations ?A = []")
    case True
    then show ?thesis using pay validator_minted [OF laws] s2 by fastforce
  next
    case False
    define com where "com = pb_mul C (pb_from_rational C pts (Points s r)) (pb_mul C (commission st) (dp_round_issuance info))"
    let ?due = "t - com"
    have "pb_mul C (commission st) (dp_round_issuance info) \<le> dp_total_staking_reward info"
      using perbill_lawsD(3) [OF laws] info(1) order_trans by blast
    then have com: "com \<le> t" unfolding com_def t by (rule perbill_lawsD(4) [OF laws])
    then have due: "sub128 t com = ?due" using le info(2) by (intro sub128_id) auto
    let ?x = "pb_mul C (pb_from_rational C (vs_bond ?A) (vs_total ?A)) ?due"
    obtain s3 where s3: "handle_validator_reward_payout C v (stash st) (add128 ?x com) s2 = Done () s3"
      and s': "pay_nominators C v (vs_total ?A) ?due (vs_nominations ?A) s3 = Done () s'"
      using pay False by (auto simp: Let_def due com_def [symmetric])
    let ?T = "vs_total ?A" and ?S = "shares C (vs_total ?A) ?due (vs_nominations ?A)"
    have "2 * ?T * (?x + ?S) \<le> 2 * ?due * (vs_bond ?A + sum_list (map amount (vs_nominations ?A))) + (?n + 1) * ?T"
      using share_bound [OF laws, of ?T "vs_bond ?A" ?due] shares_bound [OF laws, of ?T ?due "vs_nominations ?A"]
      by (simp add: algebra_simps)
    also have "\<dots> \<le> 2 * ?due * ?T + (?n + 1) * ?T" using snap(1) by (intro add_right_mono mult_le_mono2)
    also have "\<dots> = ?T * (2 * ?due + (?n + 1))" by (simp add: algebra_simps)
    finally have "?T * (2 * (?x + ?S)) \<le> ?T * (2 * ?due + (?n + 1))" by (simp add: algebra_simps)
    then have "2 * (?x + ?S) \<le> 2 * ?due + (?n + 1)" using snap(2) mult_le_cancel1 by blast
    then have sum: "?x + ?S \<le> ?due + (?n + 1) div 2" by (rule half_le)
    have "minted_le s (add128 ?x com + ?S) s'"
      using validator_minted [OF laws s3] pay_nominators_minted [OF laws s'] s2 by linarith
    then show ?thesis using add128_le [of ?x com] sum com by linarith
  qed
  with le show ?thesis by blast
qed

lemma sample_perbill_laws: "perbill_laws sample_config"
proof -
  have m: "2 * 1000000000 * unit_share p x \<le> 2 * p * x + 1000000000" for p x
  proof -
    have "1000000000 * unit_share p x \<le> min p 1000000000 * x"
      unfolding unit_share_def by (metis mult.commute div_times_less_eq_dividend)
    also have "\<dots> \<le> p * x" by (simp add: mult_le_mono1)
    finally show ?thesis by simp
  qed
  have "unit_share p x \<le> unit_share p y" if "x \<le> y" for p x y
    unfolding unit_share_def using that by (intro div_le_mono mult_le_mono2)
  moreover have "min (a * 1000000000 div b) 1000000000 * b \<le> a * 1000000000" for a b :: nat
    by (metis div_times_less_eq_dividend min.cobounded1 mult_le_mono1 order_trans)
  ultimately show ?thesis
    using m unit_share_le
    by (auto simp: perbill_laws_def wire_def sample_constants_def ledger_balances_def split: if_splits)
qed

text \<open>A payout to a validator that takes its reward on its account, and to nominators that have left.\<close>

lemma pay_gone_nominators: "NominatorState s = Map.empty \<Longrightarrow> pay_nominators C v tot due bs s = Done () s"
  by (induction bs) (simp_all add: handle_nominator_reward_payout_def expect_ok_def Let_def)

lemma pay_account:
  assumes "cand s v = Some st" "reward_dst st = DstAccount" "NominatorState s = Map.empty"
  shows "\<exists>s'. handle_validator_reward_payout C v d x s = Done () s' \<and> NominatorState s' = Map.empty"
  using assms
  by (simp add: handle_validator_reward_payout_def cm_increment_awarded_tokens_def mint_reward_def put_candidate_def
      deposit_event_def Let_def split: option.split)

lemma pay_one_account:
  assumes "Points s r \<noteq> 0" "first_by (\<lambda>e. key_order C (fst e)) (AwardedPts s r) = Some (v, pts)"
    and st: "cand s v = Some st" "reward_dst st = DstAccount" and none: "NominatorState s = Map.empty"
  shows "\<exists>t s'. pay_one_validator_reward C r info s = Done (Some (v, t)) s'"
proof -
  let ?s2 = "s\<lparr>AwardedPts := (AwardedPts s)(r := bt_remove v (AwardedPts s r)),
    AtStake := (AtStake s)(r := (AtStake s r)(v := ValidatorSnapshot_default))\<rparr>"
  have f: "\<exists>s'. handle_validator_reward_payout C v d x ?s2 = Done () s' \<and> NominatorState s' = Map.empty" for d x
    by (rule pay_account [of _ _ st]) (simp_all add: st none)
  let ?c = "pb_from_rational C pts (Points s r)"
  let ?t = "pb_mul C ?c (dp_total_staking_reward info)"
  let ?com = "pb_mul C ?c (pb_mul C (commission st) (dp_round_issuance info))"
  let ?x = "add128 (pb_mul C (pb_from_rational C (vs_bond (AtStake s r v)) (vs_total (AtStake s r v)))
    (sub128 ?t ?com)) ?com"
  obtain sa sb where sa: "handle_validator_reward_payout C v (stash st) ?t ?s2 = Done () sa"
    and sb: "handle_validator_reward_payout C v (stash st) ?x ?s2 = Done () sb" "NominatorState sb = Map.empty"
    using f [of "stash st" ?t] f [of "stash st" ?x] by blast
  show ?thesis
    using assms sa sb
    by (simp add: pay_one_validator_reward_def Let_def expect_ok_def pay_gone_nominators)
qed

definition sample_payout_state :: "(ledger, acct list) runtime staking" where
  "sample_payout_state = (staking_default sample_world)
     \<lparr>CandidateInfo := [(10, (sample_meta (sample_noms []) (sample_noms []))\<lparr>reward_dst := DstAccount\<rparr>)],
      Points := (\<lambda>_. 20), AwardedPts := (\<lambda>_. [(10, 20)]),
      AtStake := (\<lambda>_ _. \<lparr>vs_bond = 300, vs_nominations = [\<lparr>owner = 5, amount = 50\<rparr>], vs_total = 350\<rparr>)\<rparr>"

definition sample_payout :: DelayedPayout where
  "sample_payout = \<lparr>dp_round_issuance = 1000, dp_total_staking_reward = 1000, dp_validator_commission = 0\<rparr>"

theorem payout_bounded_witness:
  "\<exists>s' t. pay_one_validator_reward sample_config 1 sample_payout sample_payout_state = Done (Some (10, t)) s' \<and>
     t \<le> 1000 \<and> minted_le sample_payout_state (t + 1) s'"
proof -
  have "\<exists>t s'. pay_one_validator_reward sample_config 1 sample_payout sample_payout_state = Done (Some (10, t)) s'"
    by (rule pay_one_account [where st = "(sample_meta (sample_noms []) (sample_noms []))\<lparr>reward_dst := DstAccount\<rparr>" and pts = 20])
      (simp_all add: sample_payout_state_def staking_default_def)
  then obtain t s' where d: "pay_one_validator_reward sample_config 1 sample_payout sample_payout_state = Done (Some (10, t)) s'"
    by blast
  from payout_bounded [OF sample_perbill_laws d] d show ?thesis
    by (auto simp: sample_payout_def sample_payout_state_def M128_def)
qed

end
