(* ===== verification/Call_Properties.thy ===== *)
theory Call_Properties
  imports Sample_Runtime
begin

text \<open>
  Who may call what, and three places where the staking pallet does not do what its comments and
  its other functions promise.
\<close>

subsection \<open>Origins\<close>

text \<open>The origin a call accepts: the monetary governance, the root, or any signed account.\<close>

fun origin_ok :: "'w Config \<Rightarrow> origin \<Rightarrow> call \<Rightarrow> bool" where
  "origin_ok C og (CSetStakingExpectations _) = monetary_governance_origin C og"
| "origin_ok C og (CSetInflation _) = monetary_governance_origin C og"
| "origin_ok C og (CSetMaxFullSelected _) = (og = Root)"
| "origin_ok C og (CSetMaxBasicSelected _) = (og = Root)"
| "origin_ok C og (CSetDefaultValidatorCommission _ _) = (og = Root)"
| "origin_ok C og (CSetMaxValidatorCommission _ _) = (og = Root)"
| "origin_ok C og (CSetBlocksPerRound _) = (og = Root)"
| "origin_ok C og (CSetStorageCacheLifetime _) = (og = Root)"
| "origin_ok C og _ = (case og of Signed _ \<Rightarrow> True | _ \<Rightarrow> False)"

lemma not_signed: "(case og of Signed _ \<Rightarrow> True | _ \<Rightarrow> False) = False \<Longrightarrow> ensure_signed og s k = Fail BadOrigin s"
  by (cases og) (simp_all add: ensure_signed_def)

text \<open>C10: A call from an origin it does not accept fails with \<open>BadOrigin\<close> and its dispatch leaves the
storage exactly as it was, for each of the 34 calls.\<close>

theorem wrong_origin_changes_nothing:
  assumes "\<not> origin_ok C og c"
  shows "run_call C og c s = Fail BadOrigin s \<and> dispatch C og c s = Some s"
proof -
  have "run_call C og c s = Fail BadOrigin s"
    using assms
    by (cases c) (simp_all add: not_signed ensure_root_def set_staking_expectations_def set_inflation_def
        set_max_full_selected_def set_max_basic_selected_def set_default_validator_commission_def
        set_max_validator_commission_def set_blocks_per_round_def set_storage_cache_lifetime_def
        set_validator_commission_def cancel_validator_commission_set_def set_validator_tier_def join_candidates_def
        schedule_leave_candidates_def execute_leave_candidates_def cancel_leave_candidates_def set_controller_def
        cancel_controller_set_def set_candidate_reward_dst_def set_nominator_reward_dst_def go_offline_def
        go_online_def candidate_bond_more_def schedule_candidate_bond_less_def execute_candidate_bond_less_def
        cancel_candidate_bond_less_def nominate_def schedule_leave_nominators_def execute_leave_nominators_def
        cancel_leave_nominators_def schedule_revoke_nomination_def nominator_bond_more_def
        schedule_nominator_bond_less_def execute_nomination_request_def cancel_nomination_request_def)
  then show ?thesis by (simp add: dispatch_def in_storage_layer_def)
qed

theorem wrong_origin_changes_nothing_witness:
  "dispatch sample_config (Signed 5) (CSetBlocksPerRound 100) (staking_default sample_world) =
     Some (staking_default sample_world)"
  using wrong_origin_changes_nothing [of sample_config "Signed 5" "CSetBlocksPerRound 100"] by simp

subsection \<open>Kick-outs and going offline\<close>

text \<open>Kicking a validator out removes it from the pool and the selection and stores the majority of
the validators that remain, also in the cache of the round.\<close>

theorem kickout_majority:
  assumes "kickout_validator C c s = Done u s'"
  shows "SelectedCandidates s' = bt_remove c (SelectedCandidates s) \<and> Majority s' = compute_majority s' \<and>
    bt_get (CachedMajority s') (now_round s) = Some (compute_majority s') \<and>
    bt_get (CandidatePool s') c = None \<and> (\<exists>m. cand s' c = Some m \<and> status m = VKickedOut)"
proof -
  obtain m where m: "cand s c = Some m"
    using assms by (cases "cand s c") (simp_all add: kickout_validator_def remove_from_candidate_pool_def)
  note k = kickout_shape [OF assms m]
  have "cand s' c = Some (cm_kick_out m)" using k by simp
  moreover have "status (cm_kick_out m) = VKickedOut" by (simp add: cm_kick_out_def)
  ultimately show ?thesis using k by simp
qed

text \<open>Two selected basic validators, 10 and 20.\<close>

definition sample_pair :: "(ledger, acct list) runtime staking" where
  "sample_pair = (let m = (sample_meta (sample_noms []) (sample_noms []))\<lparr>tier := Basic, is_selected := True\<rparr> in
     (staking_default sample_world)\<lparr>CandidateInfo := [(10, m), (20, m)], CandidatePool := [(10, 300), (20, 300)],
        SelectedCandidates := [(10, ()), (20, ())], SelectedBasicCandidates := [(10, ()), (20, ())]\<rparr>)"

lemma sample_pair_meta: "status (sample_meta t l) = VActive" "tier (sample_meta t l) = Full"
  by (simp_all add: sample_meta_def reset_bottom_data_def top_meta_def CandidateMetadata_new_def)

theorem kickout_majority_witness:
  "\<exists>s'. kickout_validator sample_config 10 sample_pair = Done () s' \<and> map fst (SelectedCandidates s') = [20] \<and>
     Majority s' = compute_majority s'"
proof -
  have "\<exists>s'. kickout_validator sample_config 10 sample_pair = Done () s'"
    by (simp add: kickout_validator_def sample_pair_def remove_from_candidate_pool_def cm_kick_out_def Let_def)
  then obtain s' where d: "kickout_validator sample_config 10 sample_pair = Done () s'" by blast
  from kickout_majority [OF d] d show ?thesis by (auto simp: sample_pair_def bt_remove_def Let_def)
qed

text \<open>Going offline does not: the majority it stores and caches is computed from the selection that
still contains the leaving validator, so it is the old majority although the selection has shrunk.\<close>

theorem go_offline_stale_majority:
  assumes "go_offline C (Signed c) s = Done u s'"
  shows "SelectedCandidates s' = bt_remove c (SelectedCandidates s) \<and> Majority s' = compute_majority s \<and>
    bt_get (CachedMajority s') (now_round s) = Some (compute_majority s)"
  using assms
  by (auto simp: go_offline_def ensure_signed_def with_candidate_def remove_from_candidate_pool_def
      refresh_cached_selected_candidates_def compute_majority_def put_candidate_def deposit_event_def Let_def
      split: option.splits if_splits)

theorem go_offline_stale_majority_witness:
  "\<exists>s'. go_offline sample_config (Signed 10) sample_pair = Done () s' \<and> map fst (SelectedCandidates s') = [20] \<and>
     Majority s' = 2 \<and> compute_majority s' = 1"
proof -
  have "\<exists>s'. go_offline sample_config (Signed 10) sample_pair = Done () s'"
    by (simp add: go_offline_def sample_pair_def ensure_signed_def with_candidate_def cm_is_active_def
        remove_from_candidate_pool_def bt_contains_def sample_pair_meta Let_def)
  then obtain s' where d: "go_offline sample_config (Signed 10) sample_pair = Done () s'" by blast
  from go_offline_stale_majority [OF d] d show ?thesis
    by (auto simp: sample_pair_def bt_remove_def compute_majority_def as_u32_def add32_def M32_def Let_def)
qed

subsection \<open>The total of the bottom list\<close>

lemma sum_map_owner:
  assumes "distinct (map owner bs)" "b \<in> set bs" "x \<le> amount b"
  shows "sum_list (map amount (map_owner (owner b) (\<lambda>a. a - x) bs)) + x = sum_list (map amount bs)"
  using assms
proof (induction bs)
  case (Cons d bs)
  show ?case
  proof (cases "d = b")
    case True
    then have "map_owner (owner b) (\<lambda>a. a - x) bs = bs"
      using Cons.prems(1) by (auto simp: map_owner_def image_iff intro!: map_idI)
    then show ?thesis using True Cons.prems(3) by (simp add: map_owner_def)
  next
    case False
    then have "owner d \<noteq> owner b" using Cons.prems(1,2) by auto
    then show ?thesis using Cons False by (simp add: map_owner_def)
  qed
qed simp

text \<open>Decreasing a nomination in the bottom list leaves the stored total of the list as it was, so
afterwards the total exceeds the sum of the nominations by the amount that was taken out. Every other
operation on the lists updates the total, and \<open>execute_leave_candidates\<close> subtracts it from \<open>Total\<close>.\<close>

theorem decrease_bottom_total_drifts:
  assumes "BottomNominations s c = Some l" "distinct (map owner (nominations l))" "b \<in> set (nominations l)"
    and "x \<le> amount b" "noms_total l = sum_list (map amount (nominations l))"
  shows "\<exists>m' s' l'. decrease_bottom_nomination C c (owner b) x m s = Done (False, m') s' \<and>
    BottomNominations s' c = Some l' \<and> noms_total l' = sum_list (map amount (nominations l')) + x"
proof -
  have "sum_list (map amount (sort_desc bs)) = sum_list (map amount bs)" for bs
    by (metis mset_map mset_sort_desc sum_mset_sum_list)
  then show ?thesis
    using assms sum_map_owner [OF assms(2,3,4)]
    by (auto simp: decrease_bottom_nomination_def has_owner_iff sort_greatest_to_least_def put_bottom_def Let_def)
qed

theorem decrease_bottom_total_drifts_witness:
  "\<exists>m' s' l'. decrease_bottom_nomination sample_config 10 7 10 (sample_meta (sample_noms []) (sample_noms [(7, 30)]))
      (sample_lists (sample_noms []) (sample_noms [(7, 30)])) = Done (False, m') s' \<and>
    BottomNominations s' 10 = Some l' \<and> noms_total l' = sum_list (map amount (nominations l')) + 10"
  using decrease_bottom_total_drifts [of "sample_lists (sample_noms []) (sample_noms [(7, 30)])" 10
      "sample_noms [(7, 30)]" "\<lparr>owner = 7, amount = 30\<rparr>" 10]
  by (simp add: sample_lists_def sample_noms_def)

subsection \<open>Payouts\<close>

text \<open>When the validator whose turn it is has left the candidates, the payouts of the whole round end
there: the pending payout and the points of the round are deleted, whoever else still has points.\<close>

theorem departed_validator_ends_payouts:
  assumes "RewardPaymentDelay C \<le> now" "DelayedPayouts s (now - RewardPaymentDelay C) = Some info"
    and "Points s (now - RewardPaymentDelay C) \<noteq> 0"
    and "first_by (\<lambda>e. key_order C (fst e)) (AwardedPts s (now - RewardPaymentDelay C)) = Some (v, pts)"
    and "cand s v = None"
  shows "\<exists>s'. handle_delayed_payouts C now s = Done () s' \<and>
    DelayedPayouts s' (now - RewardPaymentDelay C) = None \<and> Points s' (now - RewardPaymentDelay C) = 0 \<and>
    AwardedPts s' (now - RewardPaymentDelay C) = bt_remove v (AwardedPts s (now - RewardPaymentDelay C)) \<and>
    AwardedTokens s' = AwardedTokens s \<and> world s' = world s"
  using assms by (simp add: handle_delayed_payouts_def pay_one_validator_reward_def Let_def)

theorem departed_validator_ends_payouts_witness:
  "\<exists>s'. handle_delayed_payouts sample_config 2 ((staking_default sample_world)
       \<lparr>DelayedPayouts := [1 \<mapsto> \<lparr>dp_round_issuance = 1000, dp_total_staking_reward = 1000, dp_validator_commission = 0\<rparr>],
        Points := (\<lambda>_. 40), AwardedPts := (\<lambda>_. [(10, 20), (20, 20)])\<rparr>) = Done () s' \<and>
     DelayedPayouts s' 1 = None \<and> AwardedPts s' 1 = [(20, 20)]"
  using departed_validator_ends_payouts [of sample_config 2 "(staking_default sample_world)
       \<lparr>DelayedPayouts := [1 \<mapsto> \<lparr>dp_round_issuance = 1000, dp_total_staking_reward = 1000, dp_validator_commission = 0\<rparr>],
        Points := (\<lambda>_. 40), AwardedPts := (\<lambda>_. [(10, 20), (20, 20)])\<rparr>" _ 10 20]
  by (auto simp: wire_def sample_constants_def staking_default_def bt_remove_def)

end
