(* ===== verification/Relay_Properties.thy ===== *)
theory Relay_Properties
  imports Sample_Runtime
begin

text \<open>
  What the relay manager guarantees: it never panics, relayers and controllers stay paired, the
  relayers selected for a round are those of the chosen validators, and any two majorities overlap.
\<close>

subsection \<open>A run to apply the properties to\<close>

text \<open>Two relayers join, are selected, and the majority of the round is computed.\<close>

definition sample_ops :: "acct list relay_op list" where
  "sample_ops = [OpJoin 100 10, OpJoin 200 20, OpSelect [10, 20], OpMajority]"

definition sample_relay_at :: "nat \<Rightarrow> acct list relay option" where
  "sample_relay_at k = foldl (\<lambda>r p. case r of None \<Rightarrow> None | Some s \<Rightarrow> relay_exec quiet_relay p s)
     (Some (relay_genesis 6 True 100000000 (relay_default [10, 20]))) (take k sample_ops)"

lemma sample_relay_reachable:
  "\<forall>p\<in>set ps. \<forall>s. op_guard p s \<Longrightarrow> relay_reachable R s \<Longrightarrow>
   foldl (\<lambda>r p. case r of None \<Rightarrow> None | Some s \<Rightarrow> relay_exec R p s) (Some s) ps = Some s' \<Longrightarrow>
   relay_reachable R s'"
proof (induction ps arbitrary: s)
  case (Cons p ps)
  obtain s1 where s1: "relay_exec R p s = Some s1"
  proof (cases "relay_exec R p s")
    case None
    have "foldl (\<lambda>r p. case r of None \<Rightarrow> None | Some s \<Rightarrow> relay_exec R p s) None ps = None"
      by (induction ps) simp_all
    with None Cons.prems(3) show ?thesis by simp
  qed
  have "relay_reachable R s1"
    using Cons.prems(1,2) s1 by (auto intro: relay_reachable.step relay_step.intros)
  with Cons show ?case by (simp add: s1)
qed simp

lemma sample_relay_ok:
  "sample_relay_at k = Some s \<Longrightarrow> relay_reachable quiet_relay s"
  unfolding sample_relay_at_def
  by (rule sample_relay_reachable [OF _ relay_reachable.genesis]) (auto simp: sample_ops_def dest!: in_set_takeD)

lemma sample_relay_Some: "\<exists>s. sample_relay_at 4 = Some s \<and> map fst (SelectedRelayers s) = [100, 200] \<and>
  BondedController s 10 = Some 100 \<and> relay_compute_majority s = 2"
proof -
  have "case sample_relay_at 4 of None \<Rightarrow> False | Some s \<Rightarrow> map fst (SelectedRelayers s) = [100, 200] \<and>
      BondedController s 10 = Some 100 \<and> relay_compute_majority s = 2" by code_simp
  then show ?thesis by (auto split: option.splits)
qed

subsection \<open>Properties\<close>

text \<open>The relay manager never panics: in every reachable state, every operation that the staking
pallet, the session end or a call can invoke on it runs to completion.\<close>

theorem relay_never_panics:
  assumes "relay_reachable R s" "op_guard p s"
  shows "\<exists>s'. relay_exec R p s = Some s' \<and> relay_reachable R s'"
proof -
  obtain s' where s': "relay_exec R p s = Some s'"
    using relay_exec_ok [OF relay_reachable_inv [OF assms(1)] assms(2), of R] by blast
  with assms show ?thesis by (blast intro: relay_reachable.step relay_step.intros)
qed

theorem relay_never_panics_witness:
  "\<exists>s. sample_relay_at 4 = Some s \<and> (\<exists>s'. relay_exec quiet_relay (OpKickout 10) s = Some s')"
  using relay_never_panics [where p = "OpKickout 10"] sample_relay_Some sample_relay_ok by fastforce

text \<open>C11: Relayers and controllers are paired one-to-one, and the relayer pool holds exactly the pairs,
without duplicates and within \<open>MAX_AUTHORITIES\<close>.\<close>

theorem relay_bonds_one_to_one:
  assumes "relay_reachable R s"
  shows "(BondedController s c = Some a \<longleftrightarrow> (\<exists>m. RelayerState s a = Some m \<and> rm_controller m = c)) \<and>
    (BondedController s c = Some a \<longleftrightarrow> \<lparr>rp_relayer = a, rp_controller = c\<rparr> \<in> set (RelayerPool s)) \<and>
    inj_on (BondedController s) (dom (BondedController s)) \<and>
    distinct (map rp_relayer (RelayerPool s)) \<and> length (RelayerPool s) \<le> MAX_AUTHORITIES"
proof -
  have wf: "relay_wf (RRound s) s" using relay_reachable_inv [OF assms] by (simp add: relay_inv_def)
  have "inj_on (BondedController s) (dom (BondedController s))"
    using bonded_inj [OF wf] by (force simp: inj_on_def)
  then show ?thesis using relay_wfD [OF wf] wf by (auto simp: relay_wf_def bonds_wf_def)
qed

theorem relay_bonds_one_to_one_witness:
  "\<exists>s. sample_relay_at 4 = Some s \<and> \<lparr>rp_relayer = 100, rp_controller = 10\<rparr> \<in> set (RelayerPool s)"
  using relay_bonds_one_to_one [where c = 10 and a = 100] sample_relay_Some sample_relay_ok by blast

text \<open>The relayers selected for a round are exactly those bonded to the chosen controllers; they, and
no others, are \<open>Active\<close>; the selection is cached for the round, as the initial one too.\<close>

theorem relay_selection:
  assumes "relay_reachable R s" "refresh_selected_relayers rnd cs s = Some s'"
  shows "(set_contains a (SelectedRelayers s') \<longleftrightarrow> (\<exists>c\<in>set cs. BondedController s c = Some a)) \<and>
    InitialSelectedRelayers s' = SelectedRelayers s' \<and>
    bt_get (CachedSelectedRelayers s') rnd = Some (SelectedRelayers s') \<and>
    (\<forall>m. RelayerState s' a = Some m \<longrightarrow> (rm_status m = RActive \<longleftrightarrow> set_contains a (SelectedRelayers s')))"
proof -
  have wf: "relay_wf (RRound s) s" using relay_reachable_inv [OF assms(1)] by (simp add: relay_inv_def)
  from refresh_selected_relayers_ok [OF wf, of rnd cs] assms(2) show ?thesis by auto
qed

theorem relay_selection_witness:
  "\<exists>s s'. sample_relay_at 4 = Some s \<and> refresh_selected_relayers 2 [10] s = Some s' \<and>
     set_contains 100 (SelectedRelayers s')"
proof -
  obtain s where s: "sample_relay_at 4 = Some s" "BondedController s 10 = Some 100"
    using sample_relay_Some by blast
  note r = sample_relay_ok [OF s(1)]
  obtain s' where "refresh_selected_relayers 2 [10] s = Some s'"
    using relay_reachable_inv [OF r] refresh_selected_relayers_ok [of "RRound s" s 2 "[10]"]
    by (auto simp: relay_inv_def)
  with relay_selection [OF r this, of 100] s show ?thesis by auto
qed

text \<open>Kicking out a validator removes its relayer from the selected ones, marks it \<open>KickedOut\<close>, and
keeps the stored majority the majority of the relayers that remain selected.\<close>

theorem relay_kickout:
  assumes "relay_reachable R s" "BondedController s c = Some a" "RMajority s = relay_compute_majority s"
  shows "\<exists>s' m. kickout_relayer c s = Some s' \<and> SelectedRelayers s' = bt_remove a (SelectedRelayers s) \<and>
    RelayerState s' a = Some m \<and> rm_status m = RKickedOut \<and> RMajority s' = relay_compute_majority s' \<and>
    BondedController s' = BondedController s \<and> RelayerPool s' = RelayerPool s"
proof -
  have wf: "relay_wf (RRound s) s" using relay_reachable_inv [OF assms(1)] by (simp add: relay_inv_def)
  from kickout_relayer_ok [OF wf, of c] assms(2,3) show ?thesis
    by (auto simp: majority_ok_def same_relayers_def)
qed

theorem relay_kickout_witness:
  "\<exists>s s'. sample_relay_at 4 = Some s \<and> kickout_relayer 10 s = Some s' \<and>
     SelectedRelayers s' = bt_remove 100 (SelectedRelayers s)"
proof -
  have "case sample_relay_at 4 of None \<Rightarrow> False | Some s \<Rightarrow> RMajority s = relay_compute_majority s" by code_simp
  then obtain s where s: "sample_relay_at 4 = Some s" "RMajority s = relay_compute_majority s"
    "BondedController s 10 = Some 100" using sample_relay_Some by auto
  from relay_kickout [OF sample_relay_ok [OF s(1)] s(3,2)] s(1) show ?thesis by blast
qed

text \<open>C12: Any two majorities of the selected relayers share a relayer, so two conflicting votes cannot
both pass in a round.\<close>

theorem relay_quorums_meet:
  assumes "relay_reachable R s" "X \<subseteq> fst ` set (SelectedRelayers s)" "Y \<subseteq> fst ` set (SelectedRelayers s)"
    and "relay_compute_majority s \<le> card X" "relay_compute_majority s \<le> card Y"
  shows "X \<inter> Y \<noteq> {}"
proof
  assume e: "X \<inter> Y = {}"
  have sel: "sel_wf s" using relay_reachable_inv [OF assms(1)] by (simp add: relay_inv_def relay_wf_def)
  let ?S = "fst ` set (SelectedRelayers s)" and ?n = "length (SelectedRelayers s)"
  have n: "card ?S = ?n" "?n \<le> 1000" using sel length_keys [of "SelectedRelayers s"] by (simp_all add: sel_wf_def MAX_AUTHORITIES_def)
  have "relay_compute_majority s = ?n div 2 + 1"
    using n(2) by (simp add: relay_compute_majority_def as_u32_def add32_def M32_def)
  then have "?n < card X + card Y" using assms(4,5) by linarith
  also have "card X + card Y = card (X \<union> Y)"
    using assms(2,3) e by (intro card_Un_disjoint [symmetric]) (auto intro: finite_subset)
  also have "\<dots> \<le> card ?S" using assms(2,3) by (intro card_mono) auto
  finally show False using n(1) by simp
qed

theorem relay_quorums_meet_witness:
  "\<exists>s. sample_relay_at 4 = Some s \<and> relay_compute_majority s = card (fst ` set (SelectedRelayers s)) \<and>
     fst ` set (SelectedRelayers s) \<inter> fst ` set (SelectedRelayers s) \<noteq> {}"
proof -
  obtain s where s: "sample_relay_at 4 = Some s" "map fst (SelectedRelayers s) = [100, 200]"
    "relay_compute_majority s = 2" using sample_relay_Some by (elim exE conjE) (rule that; assumption)
  have c: "card (fst ` set (SelectedRelayers s)) = 2" unfolding set_map [symmetric] s(2) by simp
  have "fst ` set (SelectedRelayers s) \<inter> fst ` set (SelectedRelayers s) \<noteq> {}"
    by (rule relay_quorums_meet [OF sample_relay_ok [OF s(1)]]) (simp_all add: c s(3))
  then show ?thesis using s(1,3) c by (intro exI [of _ s]) (simp only: simp_thms)
qed

text \<open>At the end of a session the reported offenders are exactly the validators, of those the
validator set can identify, whose bonded relayer sent no heartbeat, in the order of the set; their
relayers go idle and no other relayer changes.\<close>

theorem relay_heartbeat_offenders:
  assumes "relay_reachable R s"
  shows "\<exists>s'. collect_offenders R cs s =
      Some (filter (\<lambda>c. silent R s c \<and> vset_identifiable R c (rel_ext s)) cs, s') \<and>
    (\<forall>c\<in>set cs. silent R s c \<longrightarrow>
       (\<exists>m. RelayerState s' (the (BondedController s c)) = Some m \<and> rm_status m = RIdle)) \<and>
    (\<forall>x. (\<forall>c\<in>set cs. BondedController s c \<noteq> Some x) \<longrightarrow> RelayerState s' x = RelayerState s x)"
proof -
  have wf: "relay_wf (RRound s) s" using relay_reachable_inv [OF assms] by (simp add: relay_inv_def)
  then have "\<forall>c a. BondedController s c = Some a \<longrightarrow> RelayerState s a \<noteq> None" using relay_wfD(1) by blast
  from collect_offenders_ok [OF this, of R cs] show ?thesis by blast
qed

theorem relay_heartbeat_offenders_witness:
  "\<exists>s s'. sample_relay_at 4 = Some s \<and> collect_offenders quiet_relay [10, 30] s =
     Some (filter (\<lambda>c. silent quiet_relay s c \<and> vset_identifiable quiet_relay c (rel_ext s)) [10, 30], s')"
  using relay_heartbeat_offenders [of quiet_relay _ "[10, 30]"] sample_relay_Some sample_relay_ok by blast

text \<open>A relayer account that takes over from another inherits its record, its controller, its place
among the selected relayers and its heartbeat of the session.\<close>

theorem relay_replacement:
  assumes "relay_reachable R s" "RelayerState s old = Some m" "RelayerState s new = None"
    and "\<forall>d\<in>set (DelayedRelayerSets s (RRound s)). dr_new d \<noteq> new"
  shows "\<exists>s'. replace_bonded_relayer R old new s = Done True s' \<and>
    RelayerState s' = (RelayerState s)(old := None, new \<mapsto> m) \<and>
    BondedController s' = (BondedController s)(rm_controller m \<mapsto> new) \<and>
    (set_contains old (SelectedRelayers s) \<longrightarrow>
       set_contains new (SelectedRelayers s') \<and> is_heartbeat_pulsed R new s' = is_heartbeat_pulsed R old s)"
proof -
  have wf: "relay_wf (RRound s) s" using relay_reachable_inv [OF assms(1)] by (simp add: relay_inv_def)
  from replace_bonded_relayer_ok [OF wf assms(3,4), of R old] assms(2) show ?thesis by auto
qed

theorem relay_replacement_witness:
  "\<exists>s s'. sample_relay_at 4 = Some s \<and> replace_bonded_relayer quiet_relay 100 300 s = Done True s' \<and>
     BondedController s' 10 = Some 300"
proof -
  have "case sample_relay_at 4 of None \<Rightarrow> False
    | Some s \<Rightarrow> RelayerState s 300 = None \<and> DelayedRelayerSets s (RRound s) = [] \<and>
        map_option rm_controller (RelayerState s 100) = Some 10" by code_simp
  then obtain s m where s: "sample_relay_at 4 = Some s" "RelayerState s 300 = None"
    "DelayedRelayerSets s (RRound s) = []" "RelayerState s 100 = Some m" "rm_controller m = 10"
    by (auto split: option.splits)
  from relay_replacement [OF sample_relay_ok [OF s(1)] s(4,2)] s show ?thesis by auto
qed

end
