(* ===== verification/Offence_Properties.thy ===== *)
theory Offence_Properties
  imports Sample_Runtime
begin

text \<open>What the offences pallet guarantees of the offences it counts, tolerates, punishes and forgets.\<close>

definition sample_offence :: "session_index \<Rightarrow> Offence" where
  "sample_offence i = Offence_new 1 i 300 30 30 0 100000000"

definition sample_record :: "ValidatorOffenceInfo" where
  "sample_record = ValidatorOffenceInfo_new (sample_offence 3)"

definition sample_offences :: "ledger offences" where
  "sample_offences = (offences_default (\<lambda>_. 700, \<lambda>_. 300))\<lparr>FullMaximumOffenceCount := 2,
     ValidatorOffences := [(10, sample_record)]\<rparr>"

lemma sample_perbill: "off_perbill_laws ledger_slash"
  using unit_share_le by (simp add: off_perbill_laws_def ledger_slash_def)

lemma sample_offences_wf: "offences_wf sample_offences" "voi_wf sample_record"
  "bt_get (ValidatorOffences sample_offences) 10 = Some sample_record" "IsOffenceActive sample_offences"
  by (simp_all add: offences_wf_def sample_offences_def sample_record_def voi_wf_def as_u32_def M32_def
      ValidatorOffenceInfo_new_def sample_offence_def Offence_new_def offences_default_def)

text \<open>A slash never exceeds the self-bond of the offender, and handling an offence keeps the
records of the pallet well-formed.\<close>

theorem offence_slash_bounded:
  assumes "off_perbill_laws F" "offences_wf s" "of_slash_fraction f \<le> 1000000000"
    and "handle_offence F who st t f s = ((k, x), s')"
  shows "x \<le> of_self_bond f \<and> offences_wf s' \<and> (\<not> k \<longrightarrow> x = 0 \<and> off_ext s' = off_ext s)"
proof -
  have "\<not> k \<longrightarrow> x = 0 \<and> off_ext s' = off_ext s"
    using assms(4) by (auto simp: handle_offence_def try_slash_def Let_def split: option.splits if_splits prod.splits)
  then show ?thesis
    using offences_wf_handle [OF assms] handle_offence_slash_bound [OF assms(1,2,4)] by blast
qed

theorem offence_slash_bounded_witness:
  "snd (fst (handle_offence ledger_slash 10 1 Basic (sample_offence 4) sample_offences)) \<le> 300"
  using offence_slash_bounded [OF sample_perbill sample_offences_wf(1), of "sample_offence 4" 10 1 Basic
      "fst (fst (handle_offence ledger_slash 10 1 Basic (sample_offence 4) sample_offences))"
      "snd (fst (handle_offence ledger_slash 10 1 Basic (sample_offence 4) sample_offences))"]
  by (simp add: sample_offence_def Offence_new_def prod_eq_iff)

text \<open>C13: A validator with a record may commit further offences up to the maximum of its tier without
any slash, all of them being recorded in order; the first one beyond the maximum is punished with the
sum of the recorded fractions (at most the whole), applied to the self-bond at that moment, and its
record is cleared.\<close>

theorem offence_threshold:
  assumes "off_perbill_laws F" "bt_get (ValidatorOffences s) who = Some v" "voi_wf v" "IsOffenceActive s"
    and "\<forall>f\<in>set fs. of_slash_fraction f \<le> 1000000000"
    and "length (voi_offences v) + length fs = tier_max t s" "tier_max t s + 1 < M32"
  shows "\<exists>s1 s2 x. offence_run F who st t fs s = (replicate (length fs) (False, 0), s1) \<and>
    try_handle_offence F who st t f s1 = ((True, x), s2) \<and> bt_get (ValidatorOffences s2) who = None \<and>
    x = (if IsSlashActive s
         then off_pb_mul F (min (sum_list (map of_slash_fraction (voi_offences v @ fs))) 1000000000) (of_self_bond f)
         else 0)"
proof -
  define s1 where "s1 = snd (offence_run F who st t fs s)"
  have len: "length (voi_offences v) + length fs \<le> tier_max t s" "tier_max t s < M32" using assms(6,7) by simp_all
  obtain v' where rep: "fst (offence_run F who st t fs s) = replicate (length fs) (False, 0)"
    and v': "bt_get (ValidatorOffences s1) who = Some v'" "voi_wf v'" "voi_offences v' = voi_offences v @ fs"
    and s1: "s1 = s\<lparr>ValidatorOffences := ValidatorOffences s1\<rparr>"
    using offence_run_tolerated [OF assms(1-5) len, of st, folded s1_def] unfolding Let_def
    by (elim exE conjE) (rule that; assumption)
  have run: "offence_run F who st t fs s = (replicate (length fs) (False, 0), s1)"
    unfolding s1_def rep [symmetric] by (rule prod.collapse [symmetric])
  have keep: "IsOffenceActive s1 = IsOffenceActive s" "IsSlashActive s1 = IsSlashActive s"
    "FullMaximumOffenceCount s1 = FullMaximumOffenceCount s"
    "BasicMaximumOffenceCount s1 = BasicMaximumOffenceCount s" by (subst s1, simp)+
  have "offence_count v' = tier_max t s" using v'(2,3) assms(6,7) by (simp add: voi_wf_def as_u32_id)
  then have "is_offence_count_exceeds (add32 (offence_count v') 1) t s1"
    using keep assms(7) by (cases t) (simp_all add: exceeds_iff add32_id)
  moreover have "aggregated_slash_fraction v' = min (sum_list (map of_slash_fraction (voi_offences v @ fs))) 1000000000"
    using v'(2,3) by (simp add: voi_wf_def)
  ultimately show ?thesis
    using run v'(1) keep assms(4)
    by (auto simp: try_handle_offence_def handle_offence_def try_slash_def off_deposit_def Let_def)
qed

theorem offence_threshold_witness:
  "\<exists>s1 s2. offence_run ledger_slash 10 1 Full [sample_offence 4] sample_offences = ([(False, 0)], s1) \<and>
     try_handle_offence ledger_slash 10 1 Full (sample_offence 5) s1 = ((True, 60), s2)"
  using offence_threshold [OF sample_perbill sample_offences_wf(3,2,4), of "[sample_offence 4]" Full 1 "sample_offence 5"]
  by (auto simp: sample_offence_def Offence_new_def sample_record_def ValidatorOffenceInfo_new_def
      sample_offences_def offences_default_def ledger_slash_def unit_share_def M32_def)

text \<open>At a session change exactly the records whose latest offence is older than the expiration
period are forgotten.\<close>

theorem offence_expiry:
  assumes "bt_wf (ValidatorOffences s)"
  shows "bt_get (ValidatorOffences (refresh_offences i s)) who =
    (case bt_get (ValidatorOffences s) who of
       None \<Rightarrow> None
     | Some v \<Rightarrow> if sub32 i (latest_offence_session_index v) \<le> OffenceExpirationInSessions s then Some v else None)"
  using bt_get_filter [OF assms, of "\<lambda>v. sub32 i (latest_offence_session_index v) \<le> OffenceExpirationInSessions s"]
  by (simp add: refresh_offences_def not_less split_beta' cong: option.case_cong)

theorem offence_expiry_witness:
  "bt_get (ValidatorOffences (refresh_offences 8 sample_offences)) 10 = Some sample_record \<and>
   bt_get (ValidatorOffences (refresh_offences 9 sample_offences)) 10 = None"
  using offence_expiry [of sample_offences 8 10] offence_expiry [of sample_offences 9 10]
  by (simp add: sample_offences_def offences_default_def sample_record_def ValidatorOffenceInfo_new_def
      sample_offence_def Offence_new_def sub32_def M32_def)

end
