(* ===== verification/Cccp.thy ===== *)
theory Cccp
  imports Prelude "HOL-Library.Word" "HOL-Library.Product_Lexorder"
begin

text \<open>
  Socket messages (\<open>primitives/cccp\<close>): the message and request-information structs, their
  conversion from ABI tokens, their encodings and status predicates. The ABI codec
  \<open>ethabi_decode\<close> is a parameter (\<open>Codec\<close>); \<open>Token\<close> and \<open>ParamKind\<close> carry the constructors the
  source uses, and one for the remaining tokens. A conversion can also panic, where a slice of the
  wrong length is turned into a hash; that is the result \<open>Crash\<close>.
\<close>

unbundle bit_operations_syntax

type_synonym bytes = "8 word list"
type_synonym U256 = "256 word"
type_synonym H256 = "256 word"
type_synonym H160 = "160 word"
type_synonym u32 = "32 word"

subsection \<open>Big-endian numbers\<close>

definition be_nat :: "bytes \<Rightarrow> nat" where
  "be_nat bs = foldl (\<lambda>n b. n * 256 + unat b) 0 bs"

definition u32_to_be_bytes :: "u32 \<Rightarrow> bytes" where
  "u32_to_be_bytes w = map (\<lambda>k. ucast (drop_bit k w)) [24, 16, 8, 0]"

text \<open>\<open>u32::from_be_bytes\<close> of a slice: \<open>try_into\<close> an array of four bytes fails at other lengths.\<close>

definition u32_from_be_slice :: "bytes \<Rightarrow> u32 option" where
  "u32_from_be_slice bs = (if length bs = 4 then Some (of_nat (be_nat bs)) else None)"

text \<open>\<open>H256::from_slice\<close> panics unless the slice has 32 bytes.\<close>

definition h256_from_slice :: "bytes \<Rightarrow> H256 option" where
  "h256_from_slice bs = (if length bs = 32 then Some (of_nat (be_nat bs)) else None)"

subsection \<open>U256 and u128\<close>

definition checked_add256 :: "U256 \<Rightarrow> U256 \<Rightarrow> U256 option" where
  "checked_add256 a b = (if unat a + unat b < 2 ^ 256 then Some (a + b) else None)"

definition checked_sub256 :: "U256 \<Rightarrow> U256 \<Rightarrow> U256 option" where
  "checked_sub256 a b = (if b \<le> a then Some (a - b) else None)"

definition u256_of_balance :: "balance \<Rightarrow> U256" where
  "u256_of_balance x = of_nat x"

definition balance_of_u256 :: "U256 \<Rightarrow> balance option" where
  "balance_of_u256 w = (if unat w < M128 then Some (unat w) else None)"

lemma balance_of_u256_Some: "balance_of_u256 w = Some x \<longleftrightarrow> x = unat w \<and> unat w < M128"
  by (auto simp: balance_of_u256_def)

lemma unat_u256_of_balance: "x < M128 \<Longrightarrow> unat (u256_of_balance x) = x"
  by (simp add: u256_of_balance_def M128_def unat_of_nat take_bit_nat_eq_self)

lemma checked_add256_Some:
  "checked_add256 a b = Some c \<longleftrightarrow> unat a + unat b < 2 ^ 256 \<and> c = a + b"
  by (auto simp: checked_add256_def)

lemma unat_add256: "unat a + unat b < 2 ^ 256 \<Longrightarrow> unat (a + b :: U256) = unat a + unat b"
  by (simp add: unat_add_lem [THEN iffD1])

lemma checked_sub256_Some: "checked_sub256 a b = Some c \<longleftrightarrow> b \<le> a \<and> c = a - b"
  by (auto simp: checked_sub256_def)

subsection \<open>ABI tokens\<close>

datatype Token =
    Tuple "Token list" | FixedBytes bytes | Uint U256 | Address H160 | Bytes bytes
  | FixedArray "Token list" | OtherToken nat

datatype ParamKind =
    KTuple "ParamKind list" | KFixedBytes nat | KUint nat | KAddress | KBytes
  | KFixedArray ParamKind nat

fun to_fixed_bytes :: "Token \<Rightarrow> bytes option" where
  "to_fixed_bytes (FixedBytes b) = Some b" | "to_fixed_bytes _ = None"

fun to_uint :: "Token \<Rightarrow> U256 option" where
  "to_uint (Uint n) = Some n" | "to_uint _ = None"

fun to_address :: "Token \<Rightarrow> H160 option" where
  "to_address (Address a) = Some a" | "to_address _ = None"

fun to_bytes :: "Token \<Rightarrow> bytes option" where
  "to_bytes (Bytes b) = Some b" | "to_bytes _ = None"

fun to_fixed_array :: "Token \<Rightarrow> Token list option" where
  "to_fixed_array (FixedArray ts) = Some ts" | "to_fixed_array _ = None"

record Codec =
  abi_decode :: "ParamKind list \<Rightarrow> bytes \<Rightarrow> Token list option"
  abi_encode :: "Token list \<Rightarrow> bytes"

subsection \<open>The parts of a socket message\<close>

record RequestID =
  rq_chain :: bytes
  rq_round_id :: U256
  rq_sequence :: U256

record Instruction =
  in_chain :: bytes
  in_method :: bytes

record TaskParams =
  token_idx0 :: bytes
  token_idx1 :: bytes
  tp_refund :: H160
  tp_to :: H160
  tp_amount :: U256
  tp_variants :: bytes

record UserRequest =
  ur_ins_code :: Instruction
  ur_params :: TaskParams

record SocketMessage =
  req_id :: RequestID
  sm_status :: U256
  ins_code :: Instruction
  sm_params :: TaskParams

fun RequestID_try_from :: "Token list \<Rightarrow> RequestID option" where
  "RequestID_try_from [a, b, c] =
     Option.bind (to_fixed_bytes a) (\<lambda>ch. Option.bind (to_uint b) (\<lambda>r.
     Option.bind (to_uint c) (\<lambda>q. Some \<lparr>rq_chain = ch, rq_round_id = r, rq_sequence = q\<rparr>)))"
| "RequestID_try_from _ = None"

fun Instruction_try_from :: "Token list \<Rightarrow> Instruction option" where
  "Instruction_try_from [a, b] =
     Option.bind (to_fixed_bytes a) (\<lambda>ch. Option.bind (to_fixed_bytes b) (\<lambda>m.
     Some \<lparr>in_chain = ch, in_method = m\<rparr>))"
| "Instruction_try_from _ = None"

fun TaskParams_try_from :: "Token list \<Rightarrow> TaskParams option" where
  "TaskParams_try_from [a, b, c, d, e, f] =
     Option.bind (to_fixed_bytes a) (\<lambda>i0. Option.bind (to_fixed_bytes b) (\<lambda>i1.
     Option.bind (to_address c) (\<lambda>r. Option.bind (to_address d) (\<lambda>t.
     Option.bind (to_uint e) (\<lambda>n. Option.bind (to_bytes f) (\<lambda>v.
     Some \<lparr>token_idx0 = i0, token_idx1 = i1, tp_refund = r, tp_to = t, tp_amount = n,
           tp_variants = v\<rparr>))))))"
| "TaskParams_try_from _ = None"

text \<open>The pattern \<open>Token::Tuple(token)\<close> of a match.\<close>

fun as_tuple :: "Token \<Rightarrow> Token list option" where
  "as_tuple (Tuple ts) = Some ts" | "as_tuple _ = None"

fun SocketMessage_of_tokens :: "Token list \<Rightarrow> SocketMessage option" where
  "SocketMessage_of_tokens [a, b, c, d] =
     Option.bind (Option.bind (as_tuple a) RequestID_try_from) (\<lambda>r.
     Option.bind (to_uint b) (\<lambda>st.
     Option.bind (Option.bind (as_tuple c) Instruction_try_from) (\<lambda>i.
     Option.bind (Option.bind (as_tuple d) TaskParams_try_from) (\<lambda>p.
     Some \<lparr>req_id = r, sm_status = st, ins_code = i, sm_params = p\<rparr>))))"
| "SocketMessage_of_tokens _ = None"

subsection \<open>Encoding and decoding\<close>

definition socket_kind :: "ParamKind list" where
  "socket_kind =
     [KTuple [KTuple [KFixedBytes 4, KUint 64, KUint 128], KUint 8,
              KTuple [KFixedBytes 4, KFixedBytes 16],
              KTuple [KFixedBytes 32, KFixedBytes 32, KAddress, KAddress, KUint 256, KBytes]]]"

text \<open>\<open>socket[0]\<close> would panic on an empty result of the decoder.\<close>

datatype 'a parse = Parsed 'a | Malformed | Crash

definition SocketMessage_try_from :: "Codec \<Rightarrow> bytes \<Rightarrow> SocketMessage parse" where
  "SocketMessage_try_from K bs =
     (case abi_decode K socket_kind bs of
        Some [] \<Rightarrow> Crash
      | Some (t # _) \<Rightarrow>
          (case Option.bind (as_tuple t) SocketMessage_of_tokens of
             Some m \<Rightarrow> Parsed m | None \<Rightarrow> Malformed)
      | None \<Rightarrow> Malformed)"

definition instruction_tokens :: "Instruction \<Rightarrow> Token" where
  "instruction_tokens i = Tuple [FixedBytes (in_chain i), FixedBytes (in_method i)]"

definition params_tokens :: "TaskParams \<Rightarrow> Token" where
  "params_tokens p =
     Tuple [FixedBytes (token_idx0 p), FixedBytes (token_idx1 p), Address (tp_refund p),
            Address (tp_to p), Uint (tp_amount p), Bytes (tp_variants p)]"

definition req_id_tokens :: "RequestID \<Rightarrow> Token list" where
  "req_id_tokens r = [FixedBytes (rq_chain r), Uint (rq_round_id r), Uint (rq_sequence r)]"

definition UserRequest_new :: "Instruction \<Rightarrow> TaskParams \<Rightarrow> UserRequest" where
  "UserRequest_new i p = \<lparr>ur_ins_code = i, ur_params = p\<rparr>"

definition UserRequest_encode :: "Codec \<Rightarrow> UserRequest \<Rightarrow> bytes" where
  "UserRequest_encode K u =
     abi_encode K [Tuple [instruction_tokens (ur_ins_code u), params_tokens (ur_params u)]]"

definition message_tokens :: "SocketMessage \<Rightarrow> Token list" where
  "message_tokens m =
     [Tuple [Tuple (req_id_tokens (req_id m)), Uint (sm_status m),
             instruction_tokens (ins_code m), params_tokens (sm_params m)]]"

definition SocketMessage_encode :: "Codec \<Rightarrow> SocketMessage \<Rightarrow> bytes" where
  "SocketMessage_encode K m = abi_encode K (message_tokens m)"

definition encode_req_id :: "Codec \<Rightarrow> SocketMessage \<Rightarrow> bytes" where
  "encode_req_id K m = abi_encode K (req_id_tokens (req_id m))"

subsection \<open>Status and direction\<close>

definition sm_is_requested :: "SocketMessage \<Rightarrow> bool" where "sm_is_requested m = (sm_status m = 1)"
definition sm_is_accepted :: "SocketMessage \<Rightarrow> bool" where "sm_is_accepted m = (sm_status m = 5)"
definition sm_is_rejected :: "SocketMessage \<Rightarrow> bool" where "sm_is_rejected m = (sm_status m = 6)"
definition sm_is_committed :: "SocketMessage \<Rightarrow> bool" where "sm_is_committed m = (sm_status m = 7)"
definition sm_is_rollbacked :: "SocketMessage \<Rightarrow> bool" where "sm_is_rollbacked m = (sm_status m = 8)"

definition is_outbound :: "u32 \<Rightarrow> SocketMessage \<Rightarrow> bool" where
  "is_outbound bifrost m = (rq_chain (req_id m) = u32_to_be_bytes bifrost)"

definition is_bitcoin_outbound :: "u32 \<Rightarrow> u32 \<Rightarrow> SocketMessage \<Rightarrow> bool" where
  "is_bitcoin_outbound bifrost bitcoin m =
     (rq_chain (req_id m) = u32_to_be_bytes bifrost \<and> in_chain (ins_code m) = u32_to_be_bytes bitcoin)"

subsection \<open>Request information\<close>

record RequestInfo =
  ri_field :: "U256 list"
  ri_msg_hash :: H256
  ri_registered_time :: U256

definition is_msg_hash :: "H256 \<Rightarrow> RequestInfo \<Rightarrow> bool" where
  "is_msg_hash h i = (ri_msg_hash i = h)"

text \<open>
  The status predicates of a request index \<open>field[0]\<close>, which panics on an empty field; \<open>ri_code\<close> is
  the status as an option, and a caller treats \<open>None\<close> as a panic.
\<close>

definition ri_code :: "RequestInfo \<Rightarrow> U256 option" where
  "ri_code i = (case ri_field i of [] \<Rightarrow> None | c # _ \<Rightarrow> Some c)"

definition ri_is_requested :: "RequestInfo \<Rightarrow> bool" where "ri_is_requested i = (ri_code i = Some 1)"
definition ri_is_accepted :: "RequestInfo \<Rightarrow> bool" where "ri_is_accepted i = (ri_code i = Some 5)"
definition ri_is_rejected :: "RequestInfo \<Rightarrow> bool" where "ri_is_rejected i = (ri_code i = Some 6)"
definition ri_is_committed :: "RequestInfo \<Rightarrow> bool" where "ri_is_committed i = (ri_code i = Some 7)"
definition ri_is_rollbacked :: "RequestInfo \<Rightarrow> bool" where "ri_is_rollbacked i = (ri_code i = Some 8)"

definition request_kind :: "ParamKind list" where
  "request_kind = [KFixedArray (KUint 8) 32, KFixedBytes 32, KUint 256]"

fun uints :: "Token list \<Rightarrow> U256 list option" where
  "uints [] = Some []"
| "uints (t # ts) = Option.bind (to_uint t) (\<lambda>n. map_option ((#) n) (uints ts))"

fun RequestInfo_of_tokens :: "Token list \<Rightarrow> RequestInfo parse" where
  "RequestInfo_of_tokens [a, b, c] =
     (case Option.bind (to_fixed_array a) uints of
        None \<Rightarrow> Malformed
      | Some f \<Rightarrow>
          (case to_fixed_bytes b of
             None \<Rightarrow> Malformed
           | Some h \<Rightarrow>
               (case h256_from_slice h of
                  None \<Rightarrow> Crash
                | Some hash \<Rightarrow>
                    (case to_uint c of
                       None \<Rightarrow> Malformed
                     | Some t \<Rightarrow>
                         Parsed \<lparr>ri_field = f, ri_msg_hash = hash, ri_registered_time = t\<rparr>))))"
| "RequestInfo_of_tokens _ = Malformed"

definition RequestInfo_try_from :: "Codec \<Rightarrow> bytes \<Rightarrow> RequestInfo parse" where
  "RequestInfo_try_from K bs =
     (case abi_decode K request_kind bs of Some ts \<Rightarrow> RequestInfo_of_tokens ts | None \<Rightarrow> Malformed)"

end
