(* ===== verification/Relay_Queue.thy ===== *)
theory Relay_Queue
  imports Cccp
begin

text \<open>
  The CCCP relay queue (\<open>pallets/cccp-relay-queue\<close>): relayers vote a cross-chain transfer from
  pending to on-flight and from on-flight to finalized, and the amount of on-flight Fast transfers
  of an asset is limited by its cap.

  \<open>QConfig\<close> holds the code the pallet calls and does not contain: keccak, the ABI codec, the hex
  crate and the EVM chain id; \<open>QEnv\<close> what it reads of the rest of the runtime when a call runs: the
  relayers and their majority (\<open>T::Relayers\<close>), the EVM's answer to a view call, and the size limit
  of the socket queue. A storage map is a key-ordered association list; where the code iterates one,
  the order of the keys does not matter to the result.
\<close>

subsection \<open>Data\<close>

definition MAX_PENDING_TRANSFERS_PER_RELAYER :: nat where "MAX_PENDING_TRANSFERS_PER_RELAYER = 100"
definition MAX_ON_FLIGHT_CAP :: nat where "MAX_ON_FLIGHT_CAP = 100000000 * 10 ^ 18"
definition MAX_ASSET_INDEXES_PER_CALL :: nat where "MAX_ASSET_INDEXES_PER_CALL = 100"

type_synonym AssetId = H160
type_synonym AssetIndexHash = H256

datatype TransferOption = Fast | Standard

record AssetIndexInfo =
  ai_hash :: AssetIndexHash
  is_hookable :: bool

record AssetCapInfo =
  max_on_flight_cap :: balance
  on_flight_cap :: balance

record TransferInfo =
  ti_amount :: balance
  ti_sequence_id :: U256
  ti_src_chain_id :: u32
  ti_dst_chain_id :: u32
  ti_asset_index_hash :: AssetIndexHash
  ti_option :: TransferOption
  ti_socket_message :: bytes
  ti_on_flight_voters :: "acct list"

record TransferInfoWithTxId =
  tx_amount :: balance
  tx_sequence_id :: U256
  tx_src_chain_id :: u32
  tx_dst_chain_id :: u32
  tx_asset_index_hash :: AssetIndexHash
  tx_option :: TransferOption
  tx_socket_message :: bytes
  tx_on_flight_voters :: "acct list"
  tx_finalization_voters :: "acct list"
  tx_src_tx_id :: H256

definition from_transfer_info :: "TransferInfo \<Rightarrow> H256 \<Rightarrow> TransferInfoWithTxId" where
  "from_transfer_info i t =
     \<lparr>tx_amount = ti_amount i, tx_sequence_id = ti_sequence_id i,
      tx_src_chain_id = ti_src_chain_id i, tx_dst_chain_id = ti_dst_chain_id i,
      tx_asset_index_hash = ti_asset_index_hash i, tx_option = ti_option i,
      tx_socket_message = ti_socket_message i, tx_on_flight_voters = ti_on_flight_voters i,
      tx_finalization_voters = [], tx_src_tx_id = t\<rparr>"

record OnFlightPollSubmission =
  op_authority_id :: acct
  op_msg :: bytes
  op_msg_hash :: H256
  op_src_tx_id :: H256

record FinalizePollSubmission =
  fp_authority_id :: acct
  fp_msg :: bytes

datatype queue_error =
    QBadOrigin | EmptySubmission | InvalidSocketMessage | OnChainExistenceMismatch
  | MessageHashMismatch | MessageStatusMismatch | InvalidRequestInfo | SocketDNE
  | TransferAlreadyFinalized | TransferAlreadyOnFlight | TransferNotOnFlight | AlreadyVoted
  | QOutOfRange | QNoWritingSameValue | AssetAlreadyExists | AssetIndexAlreadyExists | AssetDNE
  | AssetIndexDNE | AssetIndexNotBelongToAsset | AssetHasActiveTransfers
  | CapReductionBelowCurrentUsage | EmptyAssetIndexes | TooManyAssetIndexes | DuplicateAssetIndex
  | ConflictingAssetIndexOperation | PendingTransferCapExceeded | InvalidMaxCap | CapTooLarge

datatype QueueEvent =
    TransferPolled AssetIndexHash U256 u32 u32 acct TransferOption balance bool
  | FinalizationPolled AssetIndexHash U256 u32 u32 acct TransferOption balance bool
  | AssetAdded AssetId balance "AssetIndexHash list"
  | AssetRemoved AssetId "AssetIndexHash list"
  | AssetUpdated AssetId "balance option" "AssetIndexHash list option"
      "AssetIndexHash list option" "AssetIndexHash list option"
  | SocketSet acct

record relay_queue =
  Socket :: "acct option"
  AssetIndexesHookState :: "(AssetIndexHash, bool) btmap"
  AssetIndexes :: "(AssetIndexHash, AssetId) btmap"
  AssetCaps :: "(AssetId, AssetCapInfo) btmap"
  PendingTransfers :: "(H256 \<times> H256, TransferInfo) btmap"
  PendingTransferCount :: "acct \<Rightarrow> nat"
  OnFlightTransfers :: "(H256, TransferInfoWithTxId) btmap"
  FinalizedTransfers :: "(H256, TransferInfoWithTxId) btmap"
  QEvents :: "QueueEvent list"

record QConfig =
  q_codec :: Codec
  keccak_256 :: "bytes \<Rightarrow> H256"
  bytes2hex :: "bytes \<Rightarrow> string"
  hex2bytes :: "string \<Rightarrow> bytes option"
  evm_chain_id :: "64 word"

text \<open>A view call fails, or returns whether it succeeded and its output.\<close>

record QEnv =
  q_is_authority :: "acct \<Rightarrow> bool"
  q_majority :: nat
  view_call :: "acct \<Rightarrow> bytes \<Rightarrow> (bool \<times> bytes) option"
  max_socket_message_bytes :: nat

type_synonym 'a queue_result = "(relay_queue, queue_error, 'a) outcome"

definition q_deposit :: "QueueEvent \<Rightarrow> relay_queue \<Rightarrow> relay_queue" where
  "q_deposit e s = s\<lparr>QEvents := QEvents s @ [e]\<rparr>"

definition q_parsed :: "'b parse \<Rightarrow> queue_error \<Rightarrow> relay_queue \<Rightarrow> ('b \<Rightarrow> 'a queue_result) \<Rightarrow> 'a queue_result" where
  "q_parsed v e s k = (case v of Parsed x \<Rightarrow> k x | Malformed \<Rightarrow> Fail e s | Crash \<Rightarrow> Panic)"

subsection \<open>Helpers\<close>

definition hash_bytes :: "QConfig \<Rightarrow> bytes \<Rightarrow> H256" where
  "hash_bytes Q b = keccak_256 Q b"

definition SOCKET_GET_REQUEST_FUNCTION_SELECTOR :: string where
  "SOCKET_GET_REQUEST_FUNCTION_SELECTOR = ''8dac2204''"

definition try_get_request ::
  "QConfig \<Rightarrow> QEnv \<Rightarrow> bytes \<Rightarrow> relay_queue \<Rightarrow> RequestInfo queue_result" where
  "try_get_request Q E rid s =
     ok_or (Socket s) SocketDNE s (\<lambda>socket.
     ok_or (hex2bytes Q (SOCKET_GET_REQUEST_FUNCTION_SELECTOR @ bytes2hex Q rid)) InvalidRequestInfo s (\<lambda>calldata.
     ok_or (view_call E socket calldata) InvalidRequestInfo s (\<lambda>(succeeded, value).
     ensure succeeded InvalidRequestInfo s (
     ensure (\<not> length value < 1088) InvalidRequestInfo s (
     q_parsed (RequestInfo_try_from (q_codec Q) value) InvalidRequestInfo s (\<lambda>info.
     Done info s))))))"

definition validate_and_parse_socket_message ::
  "QConfig \<Rightarrow> bytes \<Rightarrow> (SocketMessage \<Rightarrow> bool) \<Rightarrow> relay_queue \<Rightarrow> SocketMessage queue_result" where
  "validate_and_parse_socket_message Q msg ok s =
     ensure (msg \<noteq> []) EmptySubmission s (
     q_parsed (SocketMessage_try_from (q_codec Q) msg) InvalidSocketMessage s (\<lambda>m.
     ensure (ok m) MessageStatusMismatch s (Done m s)))"

definition get_asset_info :: "AssetIndexHash \<Rightarrow> relay_queue \<Rightarrow> (AssetId \<times> AssetCapInfo) option" where
  "get_asset_info h s =
     Option.bind (bt_get (AssetIndexes s) h) (\<lambda>a.
     Option.bind (bt_get (AssetCaps s) a) (\<lambda>c. Some (a, c)))"

definition validate_on_chain_existence ::
  "QConfig \<Rightarrow> QEnv \<Rightarrow> SocketMessage \<Rightarrow> relay_queue \<Rightarrow> RequestInfo queue_result" where
  "validate_on_chain_existence Q E m s =
     bind_outcome (try_get_request Q E (encode_req_id (q_codec Q) m) s) (\<lambda>info s.
     ensure (is_msg_hash (hash_bytes Q (UserRequest_encode (q_codec Q)
                 (UserRequest_new (ins_code m) (sm_params m)))) info)
       OnChainExistenceMismatch s (Done info s))"

definition add_voter_to_list :: "acct list \<Rightarrow> acct \<Rightarrow> relay_queue \<Rightarrow> acct list queue_result" where
  "add_voter_to_list voters a s =
     ensure (a \<notin> set voters) AlreadyVoted s (
     ok_or (try_push voters a) QOutOfRange s (\<lambda>vs. Done vs s))"

definition determine_transfer_option ::
  "AssetCapInfo \<Rightarrow> U256 \<Rightarrow> relay_queue \<Rightarrow> TransferOption queue_result" where
  "determine_transfer_option c x s =
     ok_or (checked_add256 (u256_of_balance (on_flight_cap c)) x) QOutOfRange s (\<lambda>cap_after.
     Done (if u256_of_balance (max_on_flight_cap c) < cap_after then Standard else Fast) s)"

definition update_fast_transfer_cap ::
  "AssetId \<Rightarrow> AssetCapInfo \<Rightarrow> U256 \<Rightarrow> bool \<Rightarrow> relay_queue \<Rightarrow> AssetCapInfo queue_result" where
  "update_fast_transfer_cap a c x is_addition s =
     (let cur = u256_of_balance (on_flight_cap c) in
      ok_or (if is_addition then checked_add256 cur x else checked_sub256 cur x) QOutOfRange s (\<lambda>new_cap.
      ok_or (balance_of_u256 new_cap) QOutOfRange s (\<lambda>n.
      let c' = c\<lparr>on_flight_cap := n\<rparr>
      in Done c' (s\<lparr>AssetCaps := bt_insert a c' (AssetCaps s)\<rparr>))))"

subsection \<open>Polling a transfer\<close>

text \<open>The pending entries of one message hash, and one decrement of the submitter's count each.\<close>

definition pending_of :: "H256 \<Rightarrow> relay_queue \<Rightarrow> TransferInfo list" where
  "pending_of h s = map snd (filter (\<lambda>e. fst (fst e) = h) (PendingTransfers s))"

definition release_submitter :: "TransferInfo \<Rightarrow> (acct \<Rightarrow> nat) \<Rightarrow> acct \<Rightarrow> nat" where
  "release_submitter i cnt =
     (case ti_on_flight_voters i of [] \<Rightarrow> cnt | a # _ \<Rightarrow> cnt(a := sat_sub (cnt a) 1))"

definition clear_pending :: "H256 \<Rightarrow> relay_queue \<Rightarrow> relay_queue" where
  "clear_pending h s =
     s\<lparr>PendingTransferCount := fold release_submitter (pending_of h s) (PendingTransferCount s),
       PendingTransfers := filter (\<lambda>e. fst (fst e) \<noteq> h) (PendingTransfers s)\<rparr>"

text \<open>The direction-specific check of the request on Bifrost's own Socket contract.\<close>

definition poll_on_chain :: "QConfig \<Rightarrow> QEnv \<Rightarrow> SocketMessage \<Rightarrow> relay_queue \<Rightarrow> unit queue_result" where
  "poll_on_chain Q E m s =
     (if is_outbound (ucast (evm_chain_id Q)) m then
        bind_outcome (validate_on_chain_existence Q E m s) (\<lambda>info s.
        expect (ri_code info) (\<lambda>_.
        ensure (ri_is_requested info) MessageStatusMismatch s (Done () s)))
      else
        bind_outcome (try_get_request Q E (encode_req_id (q_codec Q) m) s) (\<lambda>info s.
        expect (ri_code info) (\<lambda>code.
        ensure (code = 0) MessageStatusMismatch s (Done () s))))"

text \<open>The vote: an existing entry gains the voter, a new one is created with it.\<close>

definition poll_vote ::
  "acct \<Rightarrow> H256 \<times> H256 \<Rightarrow> TransferInfo \<Rightarrow> relay_queue \<Rightarrow> TransferInfo queue_result" where
  "poll_vote a key fresh s =
     (case bt_get (PendingTransfers s) key of
        Some p \<Rightarrow>
          bind_outcome (add_voter_to_list (ti_on_flight_voters p) a s) (\<lambda>vs s.
          Done (p\<lparr>ti_on_flight_voters := vs, ti_option := ti_option fresh\<rparr>) s)
      | None \<Rightarrow> Done fresh s)"

text \<open>What happens to the voted transfer: promotion with a majority, or storing the vote.\<close>

definition poll_store ::
  "QEnv \<Rightarrow> acct \<Rightarrow> H256 \<times> H256 \<Rightarrow> (AssetId \<times> AssetCapInfo) option \<Rightarrow> balance \<Rightarrow> TransferOption \<Rightarrow>
   bool \<Rightarrow> TransferInfo \<Rightarrow> relay_queue \<Rightarrow> bool queue_result" where
  "poll_store E a key asset x opt is_new info s =
     (if q_majority E \<le> as_u32 (length (ti_on_flight_voters info)) then
        bind_outcome
          (case asset of
             Some (i, c) \<Rightarrow>
               if opt = Fast then
                 bind_outcome (update_fast_transfer_cap i c (u256_of_balance x) True s) (\<lambda>_ s. Done () s)
               else Done () s
           | None \<Rightarrow> Done () s)
        (\<lambda>_ s.
        let s1 = clear_pending (fst key) s
        in Done True (s1\<lparr>OnFlightTransfers :=
             bt_insert (fst key) (from_transfer_info info (snd key)) (OnFlightTransfers s1)\<rparr>))
      else
        let s1 = (if is_new then s\<lparr>PendingTransferCount :=
                    (PendingTransferCount s)(a := add32 (PendingTransferCount s a) 1)\<rparr> else s)
        in Done False (s1\<lparr>PendingTransfers := bt_insert key info (PendingTransfers s1)\<rparr>))"

definition on_flight_poll ::
  "QConfig \<Rightarrow> QEnv \<Rightarrow> origin \<Rightarrow> OnFlightPollSubmission \<Rightarrow> relay_queue \<Rightarrow> unit queue_result" where
  "on_flight_poll Q E og sub s =
     (let a = op_authority_id sub; msg = op_msg sub; h = op_msg_hash sub; tx = op_src_tx_id sub in
      ensure (og = NoOrigin) QBadOrigin s (
      bind_outcome (validate_and_parse_socket_message Q msg sm_is_requested s) (\<lambda>m s.
      ensure (h = hash_bytes Q msg) MessageHashMismatch s (
      ensure (h = hash_bytes Q (SocketMessage_encode (q_codec Q) m)) MessageHashMismatch s (
      let seqn = rq_sequence (req_id m) in
      ok_or (balance_of_u256 (tp_amount (sm_params m))) QOutOfRange s (\<lambda>x.
      ok_or (u32_from_be_slice (rq_chain (req_id m))) QOutOfRange s (\<lambda>src.
      ok_or (u32_from_be_slice (in_chain (ins_code m))) QOutOfRange s (\<lambda>dst.
      expect (h256_from_slice (token_idx0 (sm_params m))) (\<lambda>idx.
      let asset = get_asset_info idx s in
      ensure (\<not> bt_contains h (OnFlightTransfers s)) TransferAlreadyOnFlight s (
      ensure (\<not> bt_contains h (FinalizedTransfers s)) TransferAlreadyFinalized s (
      let is_new = (\<not> bt_contains (h, tx) (PendingTransfers s)) in
      ensure (is_new \<longrightarrow> PendingTransferCount s a < MAX_PENDING_TRANSFERS_PER_RELAYER)
        PendingTransferCapExceeded s (
      bind_outcome
        (case asset of Some (_, c) \<Rightarrow> determine_transfer_option c (tp_amount (sm_params m)) s
         | None \<Rightarrow> Done Standard s) (\<lambda>opt s.
      bind_outcome (poll_on_chain Q E m s) (\<lambda>_ s.
      bind_outcome (poll_vote a (h, tx)
        \<lparr>ti_amount = x, ti_sequence_id = seqn, ti_src_chain_id = src, ti_dst_chain_id = dst,
         ti_asset_index_hash = idx, ti_option = opt, ti_socket_message = msg,
         ti_on_flight_voters = [a]\<rparr> s) (\<lambda>info s.
      bind_outcome (poll_store E a (h, tx) asset x opt is_new info s) (\<lambda>approved s.
      Done () (q_deposit (TransferPolled idx seqn src dst a opt x approved) s)))))))))))))))))"

subsection \<open>Finalizing a transfer\<close>

definition finalize_status :: "SocketMessage \<Rightarrow> bool" where
  "finalize_status m =
     (sm_is_committed m \<or> sm_is_rollbacked m \<or> sm_is_accepted m \<or> sm_is_rejected m)"

definition outbound_status :: "RequestInfo \<Rightarrow> SocketMessage \<Rightarrow> bool" where
  "outbound_status i m =
     ((ri_is_committed i \<and> sm_is_committed m) \<or> (ri_is_rollbacked i \<and> sm_is_rollbacked m))"

definition inbound_status :: "RequestInfo \<Rightarrow> SocketMessage \<Rightarrow> bool" where
  "inbound_status i m =
     ((ri_is_accepted i \<and> (sm_is_accepted m \<or> sm_is_committed m)) \<or>
      (ri_is_rejected i \<and> (sm_is_rejected m \<or> sm_is_rollbacked m)))"

text \<open>Moving the transfer and releasing its cap, the same on both paths.\<close>

definition finalize_now ::
  "H256 \<Rightarrow> TransferInfoWithTxId \<Rightarrow> (AssetId \<times> AssetCapInfo) option \<Rightarrow> U256 \<Rightarrow> relay_queue \<Rightarrow>
   unit queue_result" where
  "finalize_now h t asset x s =
     (let s1 = s\<lparr>OnFlightTransfers := bt_remove h (OnFlightTransfers s),
                 FinalizedTransfers := bt_insert h t (FinalizedTransfers s)\<rparr> in
      if tx_option t = Fast then
        (case asset of
           Some (i, c) \<Rightarrow> bind_outcome (update_fast_transfer_cap i c x False s1) (\<lambda>_ s. Done () s)
         | None \<Rightarrow> Done () s1)
      else Done () s1)"

definition finalize_poll ::
  "QConfig \<Rightarrow> QEnv \<Rightarrow> origin \<Rightarrow> FinalizePollSubmission \<Rightarrow> relay_queue \<Rightarrow> unit queue_result" where
  "finalize_poll Q E og sub s =
     (let a = fp_authority_id sub in
      ensure (og = NoOrigin) QBadOrigin s (
      bind_outcome (validate_and_parse_socket_message Q (fp_msg sub) finalize_status s) (\<lambda>m s.
      let seqn = rq_sequence (req_id m); x = tp_amount (sm_params m) in
      ok_or (u32_from_be_slice (rq_chain (req_id m))) QOutOfRange s (\<lambda>src.
      ok_or (u32_from_be_slice (in_chain (ins_code m))) QOutOfRange s (\<lambda>dst.
      expect (h256_from_slice (token_idx0 (sm_params m))) (\<lambda>idx.
      let asset = get_asset_info idx s;
          h = hash_bytes Q (SocketMessage_encode (q_codec Q) (m\<lparr>sm_status := 1\<rparr>)) in
      ensure (\<not> bt_contains h (FinalizedTransfers s)) TransferAlreadyFinalized s (
      ok_or (bt_get (OnFlightTransfers s) h) TransferNotOnFlight s (\<lambda>t0.
      bind_outcome (validate_on_chain_existence Q E m s) (\<lambda>info s.
      bind_outcome (add_voter_to_list (tx_finalization_voters t0) a s) (\<lambda>vs s.
      let t = t0\<lparr>tx_finalization_voters := vs\<rparr>;
          event = (\<lambda>fin. FinalizationPolled idx seqn src dst a (tx_option t) (tx_amount t) fin) in
      expect (ri_code info) (\<lambda>_.
      if is_outbound (ucast (evm_chain_id Q)) m then
        ensure (outbound_status info m) MessageStatusMismatch s (
        bind_outcome (finalize_now h t asset x s) (\<lambda>_ s. Done () (q_deposit (event True) s)))
      else
        ensure (inbound_status info m) MessageStatusMismatch s (
        if q_majority E \<le> as_u32 (length vs) then
          bind_outcome (finalize_now h t asset x s) (\<lambda>_ s. Done () (q_deposit (event True) s))
        else
          Done () (q_deposit (event False)
            (s\<lparr>OnFlightTransfers := bt_insert h t (OnFlightTransfers s)\<rparr>))))))))))))))"

subsection \<open>Assets\<close>

definition q_root :: "origin \<Rightarrow> relay_queue \<Rightarrow> 'a queue_result \<Rightarrow> 'a queue_result" where
  "q_root og s k = ensure (og = Root) QBadOrigin s k"

definition set_socket :: "origin \<Rightarrow> acct \<Rightarrow> relay_queue \<Rightarrow> unit queue_result" where
  "set_socket og new s =
     q_root og s (
     ensure (Socket s \<noteq> Some new) QNoWritingSameValue s (
     Done () (q_deposit (SocketSet new) (s\<lparr>Socket := Some new\<rparr>))))"

definition put_indexes :: "AssetId \<Rightarrow> AssetIndexInfo list \<Rightarrow> relay_queue \<Rightarrow> relay_queue" where
  "put_indexes a idxs s =
     s\<lparr>AssetIndexes := fold (\<lambda>i. bt_insert (ai_hash i) a) idxs (AssetIndexes s),
       AssetIndexesHookState :=
         fold (\<lambda>i. bt_insert (ai_hash i) (is_hookable i)) idxs (AssetIndexesHookState s)\<rparr>"

definition add_asset ::
  "origin \<Rightarrow> AssetId \<Rightarrow> balance \<Rightarrow> AssetIndexInfo list \<Rightarrow> relay_queue \<Rightarrow> unit queue_result" where
  "add_asset og a cap idxs s =
     q_root og s (
     ensure (idxs \<noteq> []) EmptyAssetIndexes s (
     ensure (length idxs \<le> MAX_ASSET_INDEXES_PER_CALL) TooManyAssetIndexes s (
     ensure (cap \<le> MAX_ON_FLIGHT_CAP) CapTooLarge s (
     ensure (distinct (map ai_hash idxs)) DuplicateAssetIndex s (
     ensure (\<not> bt_contains a (AssetCaps s)) AssetAlreadyExists s (
     ensure (\<forall>i\<in>set idxs. \<not> bt_contains (ai_hash i) (AssetIndexes s)) AssetIndexAlreadyExists s (
     let s1 = put_indexes a idxs (s\<lparr>AssetCaps :=
           bt_insert a \<lparr>max_on_flight_cap = cap, on_flight_cap = 0\<rparr> (AssetCaps s)\<rparr>)
     in Done () (q_deposit (AssetAdded a cap (map ai_hash idxs)) s1))))))))"

definition drop_indexes :: "AssetIndexHash list \<Rightarrow> relay_queue \<Rightarrow> relay_queue" where
  "drop_indexes hs s =
     s\<lparr>AssetIndexes := fold bt_remove hs (AssetIndexes s),
       AssetIndexesHookState := fold bt_remove hs (AssetIndexesHookState s)\<rparr>"

definition has_active_transfers :: "AssetIndexHash list \<Rightarrow> relay_queue \<Rightarrow> bool" where
  "has_active_transfers hs s =
     (\<exists>e\<in>set (OnFlightTransfers s). tx_asset_index_hash (snd e) \<in> set hs)"

definition remove_asset :: "origin \<Rightarrow> AssetId \<Rightarrow> relay_queue \<Rightarrow> unit queue_result" where
  "remove_asset og a s =
     q_root og s (
     ensure (bt_contains a (AssetCaps s)) AssetDNE s (
     let hs = map fst (filter (\<lambda>e. snd e = a) (AssetIndexes s)) in
     ensure (\<not> has_active_transfers hs s) AssetHasActiveTransfers s (
     let s1 = drop_indexes hs (s\<lparr>AssetCaps := bt_remove a (AssetCaps s)\<rparr>)
     in Done () (q_deposit (AssetRemoved a hs) s1))))"

text \<open>The parts of \<open>update_asset\<close>: its checks, the cap, and the three lists.\<close>

definition opt_all :: "('a \<Rightarrow> bool) \<Rightarrow> 'a option \<Rightarrow> bool" where
  "opt_all P v = (case v of Some x \<Rightarrow> P x | None \<Rightarrow> True)"

definition conflicts :: "AssetIndexInfo list option \<Rightarrow> AssetIndexHash list option \<Rightarrow> bool" where
  "conflicts xs rm =
     (case (xs, rm) of (Some is, Some hs) \<Rightarrow> (\<exists>i\<in>set is. ai_hash i \<in> set hs) | _ \<Rightarrow> False)"

definition update_cap :: "AssetId \<Rightarrow> AssetCapInfo \<Rightarrow> balance option \<Rightarrow> relay_queue \<Rightarrow> unit queue_result" where
  "update_cap a c new s =
     (case new of
        None \<Rightarrow> Done () s
      | Some n \<Rightarrow>
          ensure (max_on_flight_cap c \<noteq> n) QNoWritingSameValue s (
          ensure (0 < n) InvalidMaxCap s (
          ensure (n \<le> MAX_ON_FLIGHT_CAP) CapTooLarge s (
          ensure (on_flight_cap c \<le> n) CapReductionBelowCurrentUsage s (
          Done () (s\<lparr>AssetCaps := bt_insert a (c\<lparr>max_on_flight_cap := n\<rparr>) (AssetCaps s)\<rparr>))))))"

fun add_indexes :: "AssetId \<Rightarrow> AssetIndexInfo list \<Rightarrow> relay_queue \<Rightarrow> unit queue_result" where
  "add_indexes a [] s = Done () s"
| "add_indexes a (i # is) s =
     ensure (\<not> bt_contains (ai_hash i) (AssetIndexes s)) AssetIndexAlreadyExists s (
     ensure (\<not> bt_contains (ai_hash i) (AssetIndexesHookState s)) AssetIndexAlreadyExists s (
     add_indexes a is (put_indexes a [i] s)))"

fun update_indexes :: "AssetIndexInfo list \<Rightarrow> relay_queue \<Rightarrow> unit queue_result" where
  "update_indexes [] s = Done () s"
| "update_indexes (i # is) s =
     ensure (bt_contains (ai_hash i) (AssetIndexes s)) AssetIndexDNE s (
     ensure (bt_contains (ai_hash i) (AssetIndexesHookState s)) AssetIndexDNE s (
     update_indexes is (s\<lparr>AssetIndexesHookState :=
       bt_insert (ai_hash i) (is_hookable i) (AssetIndexesHookState s)\<rparr>)))"

fun check_owned :: "AssetId \<Rightarrow> AssetIndexHash list \<Rightarrow> relay_queue \<Rightarrow> unit queue_result" where
  "check_owned a [] s = Done () s"
| "check_owned a (h # hs) s =
     ok_or (bt_get (AssetIndexes s) h) AssetIndexDNE s (\<lambda>b.
     ensure (b = a) AssetIndexNotBelongToAsset s (check_owned a hs s))"

definition remove_indexes :: "AssetId \<Rightarrow> AssetIndexHash list \<Rightarrow> relay_queue \<Rightarrow> unit queue_result" where
  "remove_indexes a hs s =
     bind_outcome (check_owned a hs s) (\<lambda>_ s.
     ensure (\<not> has_active_transfers hs s) AssetHasActiveTransfers s (
     Done () (drop_indexes hs s)))"

definition q_opt :: "('b \<Rightarrow> relay_queue \<Rightarrow> unit queue_result) \<Rightarrow> 'b option \<Rightarrow> relay_queue \<Rightarrow> unit queue_result" where
  "q_opt f v s = (case v of Some x \<Rightarrow> f x s | None \<Rightarrow> Done () s)"

definition update_asset ::
  "origin \<Rightarrow> AssetId \<Rightarrow> balance option \<Rightarrow> AssetIndexInfo list option \<Rightarrow> AssetIndexInfo list option \<Rightarrow>
   AssetIndexHash list option \<Rightarrow> relay_queue \<Rightarrow> unit queue_result" where
  "update_asset og a cap add upd rm s =
     q_root og s (
     ensure (cap \<noteq> None \<or> add \<noteq> None \<or> upd \<noteq> None \<or> rm \<noteq> None) EmptySubmission s (
     ensure (opt_all (\<lambda>is. length is \<le> MAX_ASSET_INDEXES_PER_CALL) add) TooManyAssetIndexes s (
     ensure (opt_all (\<lambda>is. length is \<le> MAX_ASSET_INDEXES_PER_CALL) upd) TooManyAssetIndexes s (
     ensure (opt_all (\<lambda>hs. length hs \<le> MAX_ASSET_INDEXES_PER_CALL) rm) TooManyAssetIndexes s (
     ensure (opt_all (\<lambda>is. distinct (map ai_hash is)) add) DuplicateAssetIndex s (
     ensure (opt_all (\<lambda>is. distinct (map ai_hash is)) upd) DuplicateAssetIndex s (
     ensure (opt_all distinct rm) DuplicateAssetIndex s (
     ensure (\<not> conflicts add rm) ConflictingAssetIndexOperation s (
     ensure (\<not> conflicts upd rm) ConflictingAssetIndexOperation s (
     ok_or (bt_get (AssetCaps s) a) AssetDNE s (\<lambda>c.
     bind_outcome (update_cap a c cap s) (\<lambda>_ s.
     bind_outcome (q_opt (add_indexes a) add s) (\<lambda>_ s.
     bind_outcome (q_opt update_indexes upd s) (\<lambda>_ s.
     bind_outcome (q_opt (remove_indexes a) rm s) (\<lambda>_ s.
     Done () (q_deposit (AssetUpdated a cap (map_option (map ai_hash) add)
       (map_option (map ai_hash) upd) rm) s))))))))))))))))"

subsection \<open>Replacing a relayer\<close>

text \<open>\<open>position\<close>, \<open>remove\<close> and \<open>try_insert\<close> at the same index: the first occurrence is renamed.\<close>

fun rename_voter :: "acct \<Rightarrow> acct \<Rightarrow> acct list \<Rightarrow> acct list" where
  "rename_voter old new [] = []"
| "rename_voter old new (v # vs) = (if v = old then new # vs else v # rename_voter old new vs)"

definition q_replace_authority :: "acct \<Rightarrow> acct \<Rightarrow> relay_queue \<Rightarrow> relay_queue" where
  "q_replace_authority old new s =
     (let n = PendingTransferCount s old;
          cnt = (PendingTransferCount s)(old := 0);
          cnt' = (if 0 < n then cnt(new := n) else cnt) in
      s\<lparr>PendingTransferCount := cnt',
        PendingTransfers := map (\<lambda>(k, i). (k, i\<lparr>ti_on_flight_voters :=
          rename_voter old new (ti_on_flight_voters i)\<rparr>)) (PendingTransfers s),
        OnFlightTransfers := map (\<lambda>(k, t). (k, t\<lparr>tx_finalization_voters :=
          rename_voter old new (tx_finalization_voters t)\<rparr>)) (OnFlightTransfers s)\<rparr>)"

subsection \<open>Unsigned transactions and dispatch\<close>

datatype validity = Valid | BadSigner | BadProof | ExhaustsResources | InvalidCall

datatype queue_call =
    OnFlightPoll OnFlightPollSubmission bytes
  | FinalizePoll FinalizePollSubmission bytes
  | SetSocket acct
  | AddAsset AssetId balance "AssetIndexInfo list"
  | RemoveAsset AssetId
  | UpdateAsset AssetId "balance option" "AssetIndexInfo list option" "AssetIndexInfo list option"
      "AssetIndexHash list option"

text \<open>
  Signatures, the SCALE encoding of the signed triple and the hash of a tag are parameters.
\<close>

record QSig =
  sig_verify :: "bytes \<Rightarrow> bytes \<Rightarrow> acct \<Rightarrow> bool"
  scale_encode :: "bytes \<times> H256 \<times> H256 \<Rightarrow> bytes"
  tag_hash :: "string \<Rightarrow> bytes"

definition verify_authority :: "QEnv \<Rightarrow> acct \<Rightarrow> bool" where
  "verify_authority E a = q_is_authority E a"

definition validate_unsigned :: "QSig \<Rightarrow> QEnv \<Rightarrow> queue_call \<Rightarrow> validity" where
  "validate_unsigned G E c =
     (case c of
        OnFlightPoll sub sig \<Rightarrow>
          if max_socket_message_bytes E < length (op_msg sub) then ExhaustsResources
          else if \<not> verify_authority E (op_authority_id sub) then BadSigner
          else if \<not> sig_verify G sig
                 (tag_hash G ''OnFlightPoll'' @ scale_encode G (op_msg sub, op_msg_hash sub, op_src_tx_id sub))
                 (op_authority_id sub) then BadProof
          else Valid
      | FinalizePoll sub sig \<Rightarrow>
          if \<not> verify_authority E (fp_authority_id sub) then BadSigner
          else if \<not> sig_verify G sig (tag_hash G ''FinalizePoll'' @ fp_msg sub) (fp_authority_id sub)
            then BadProof
          else Valid
      | _ \<Rightarrow> InvalidCall)"

definition queue_call_run ::
  "QConfig \<Rightarrow> QEnv \<Rightarrow> origin \<Rightarrow> queue_call \<Rightarrow> relay_queue \<Rightarrow> unit queue_result" where
  "queue_call_run Q E og c s =
     (case c of
        OnFlightPoll sub _ \<Rightarrow> on_flight_poll Q E og sub s
      | FinalizePoll sub _ \<Rightarrow> finalize_poll Q E og sub s
      | SetSocket new \<Rightarrow> set_socket og new s
      | AddAsset a cap idxs \<Rightarrow> add_asset og a cap idxs s
      | RemoveAsset a \<Rightarrow> remove_asset og a s
      | UpdateAsset a cap add upd rm \<Rightarrow> update_asset og a cap add upd rm s)"

end
