(* ===== verification/Relay_Queue_Inv.thy ===== *)
theory Relay_Queue_Inv
  imports Relay_Queue
begin

text \<open>
  The invariant of the relay queue: every message hash is in at most one stage, voters are distinct,
  the registry of assets is closed, the count of a submitter is the number of pending entries it
  introduced, and the cap in use of an asset is the sum of its on-flight Fast transfers.
\<close>

named_theorems queue_Done "inversion of successful queue operations"

subsection \<open>Inversion\<close>

lemma q_parsed_Done [queue_Done]:
  "q_parsed v e s k = Done u s' \<longleftrightarrow> (\<exists>x. v = Parsed x \<and> k x = Done u s')"
  by (cases v) (simp_all add: q_parsed_def)

lemmas [queue_Done] = guard_Done

lemma q_root_Done [queue_Done]: "q_root og s k = Done u s' \<longleftrightarrow> og = Root \<and> k = Done u s'"
  by (simp add: q_root_def queue_Done)

lemma try_get_request_state: "try_get_request Q E r s = Done i s' \<Longrightarrow> s' = s"
  by (auto simp: try_get_request_def queue_Done split: prod.splits)

lemma parse_Done [queue_Done]:
  "validate_and_parse_socket_message Q b ok s = Done m s' \<longleftrightarrow>
   b \<noteq> [] \<and> SocketMessage_try_from (q_codec Q) b = Parsed m \<and> ok m \<and> s' = s"
  by (auto simp: validate_and_parse_socket_message_def queue_Done)

lemma existence_Done:
  "validate_on_chain_existence Q E m s = Done i s' \<Longrightarrow>
   s' = s \<and> ri_msg_hash i = hash_bytes Q (UserRequest_encode (q_codec Q) (UserRequest_new (ins_code m) (sm_params m)))"
  by (auto simp: validate_on_chain_existence_def is_msg_hash_def queue_Done dest: try_get_request_state)

lemma poll_on_chain_state: "poll_on_chain Q E m s = Done u s' \<Longrightarrow> s' = s"
  by (auto simp: poll_on_chain_def queue_Done dest: try_get_request_state existence_Done split: if_splits)

lemma add_voter_Done [queue_Done]:
  "add_voter_to_list vs a s = Done vs' s' \<longleftrightarrow>
   a \<notin> set vs \<and> length vs < MAX_AUTHORITIES \<and> vs' = vs @ [a] \<and> s' = s"
  by (auto simp: add_voter_to_list_def try_push_def queue_Done split: if_splits)

lemma option_Done [queue_Done]:
  "determine_transfer_option c x s = Done opt s' \<longleftrightarrow>
   unat (u256_of_balance (on_flight_cap c)) + unat x < 2 ^ 256 \<and> s' = s \<and>
   opt = (if u256_of_balance (max_on_flight_cap c) < u256_of_balance (on_flight_cap c) + x
          then Standard else Fast)"
  by (auto simp: determine_transfer_option_def queue_Done checked_add256_Some)

lemma cap_Done:
  assumes "update_fast_transfer_cap a c x up s = Done c' s'" "on_flight_cap c < M128"
  shows "c' = c\<lparr>on_flight_cap := (if up then on_flight_cap c + unat x else on_flight_cap c - unat x)\<rparr>"
    and "\<not> up \<longrightarrow> unat x \<le> on_flight_cap c"
    and "s' = s\<lparr>AssetCaps := bt_insert a c' (AssetCaps s)\<rparr>"
  using assms
  by (auto simp: update_fast_transfer_cap_def Let_def queue_Done checked_add256_Some checked_sub256_Some
      balance_of_u256_Some unat_add256 unat_u256_of_balance unat_sub word_le_nat_alt split: if_splits)

subsection \<open>Sums over storage maps\<close>

lemma bt_remove_absent: "bt_get m k = None \<Longrightarrow> bt_remove k m = m"
  by (induction m) (auto simp: bt_remove_def split: if_splits)

lemma mset_bt_insert: "bt_wf m \<Longrightarrow> mset (bt_insert k v m) = add_mset (k, v) (mset (bt_remove k m))"
proof (induction k v m rule: bt_insert.induct)
  case (2 k v k' v' m)
  have "k \<le> k' \<Longrightarrow> bt_get m k = None"
    using 2(2) by (auto simp: map_of_eq_None_iff dest!: bspec)
  then show ?case
    using 2 bt_remove_absent [of m k] by (auto simp: bt_remove_def simp del: mset_filter)
qed (simp add: bt_remove_def)

lemma mset_bt_remove: "bt_wf m \<Longrightarrow> bt_get m k = Some w \<Longrightarrow> mset m = add_mset (k, w) (mset (bt_remove k m))"
proof (induction m)
  case (Cons p m)
  obtain k' v' where p: "p = (k', v')" by (cases p)
  show ?case
  proof (cases "k' = k")
    case True
    then have "bt_get m k = None" using Cons.prems(1) by (force simp: p map_of_eq_None_iff)
    with True Cons.prems(2) show ?thesis using bt_remove_absent [of m k] by (simp add: p bt_remove_def)
  next
    case False
    with Cons show ?thesis by (auto simp: p bt_remove_def)
  qed
qed simp

definition bt_sum :: "('k \<Rightarrow> 'v \<Rightarrow> nat) \<Rightarrow> ('k, 'v) btmap \<Rightarrow> nat" where
  "bt_sum f m = sum_list (map (\<lambda>(k, v). f k v) m)"

lemma bt_sum_mset: "bt_sum f m = sum_mset (image_mset (\<lambda>(k, v). f k v) (mset m))"
  by (simp add: bt_sum_def sum_mset_sum_list [symmetric])

lemma bt_sum_insert: "bt_wf m \<Longrightarrow> bt_sum f (bt_insert k v m) = f k v + bt_sum f (bt_remove k m)"
  by (simp add: bt_sum_mset mset_bt_insert)

lemma bt_sum_remove: "bt_wf m \<Longrightarrow> bt_get m k = Some w \<Longrightarrow> bt_sum f m = f k w + bt_sum f (bt_remove k m)"
  by (simp add: bt_sum_mset mset_bt_remove [of m k w])

lemma bt_sum_cong:
  "m = m' \<Longrightarrow> (\<And>k v. (k, v) \<in> set m' \<Longrightarrow> f k v = g k v) \<Longrightarrow> bt_sum f m = bt_sum g m'"
  unfolding bt_sum_def by (rule arg_cong [where f = sum_list]) auto

lemma bt_sum_filter: "bt_sum f m = bt_sum f (filter P m) + bt_sum f (filter (\<lambda>e. \<not> P e) m)"
  by (induction m) (auto simp: bt_sum_def)

lemma fst_entry [simp]: "fst \<circ> (\<lambda>(k, v). (k, f v)) = fst"
  by auto

subsection \<open>The invariant\<close>

definition maps_wf :: "relay_queue \<Rightarrow> bool" where
  "maps_wf s \<longleftrightarrow>
     bt_wf (AssetIndexesHookState s) \<and> bt_wf (AssetIndexes s) \<and> bt_wf (AssetCaps s) \<and>
     bt_wf (PendingTransfers s) \<and> bt_wf (OnFlightTransfers s) \<and> bt_wf (FinalizedTransfers s)"

definition stages_ok :: "relay_queue \<Rightarrow> bool" where
  "stages_ok s \<longleftrightarrow>
     (\<forall>h t. bt_get (OnFlightTransfers s) h = Some t \<longrightarrow> bt_get (FinalizedTransfers s) h = None) \<and>
     (\<forall>h x i. bt_get (PendingTransfers s) (h, x) = Some i \<longrightarrow>
        bt_get (OnFlightTransfers s) h = None \<and> bt_get (FinalizedTransfers s) h = None)"

definition voters_ok :: "relay_queue \<Rightarrow> bool" where
  "voters_ok s \<longleftrightarrow>
     (\<forall>k i. bt_get (PendingTransfers s) k = Some i \<longrightarrow>
        ti_on_flight_voters i \<noteq> [] \<and> distinct (ti_on_flight_voters i) \<and>
        length (ti_on_flight_voters i) \<le> MAX_AUTHORITIES) \<and>
     (\<forall>h t. bt_get (OnFlightTransfers s) h = Some t \<longrightarrow>
        distinct (tx_finalization_voters t) \<and> length (tx_finalization_voters t) \<le> MAX_AUTHORITIES)"

definition assets_ok :: "relay_queue \<Rightarrow> bool" where
  "assets_ok s \<longleftrightarrow>
     dom (bt_get (AssetIndexesHookState s)) = dom (bt_get (AssetIndexes s)) \<and>
     ran (bt_get (AssetIndexes s)) \<subseteq> dom (bt_get (AssetCaps s)) \<and>
     (\<forall>a c. bt_get (AssetCaps s) a = Some c \<longrightarrow>
        on_flight_cap c \<le> max_on_flight_cap c \<and> max_on_flight_cap c \<le> MAX_ON_FLIGHT_CAP)"

text \<open>The pending entries that an account introduced.\<close>

definition introduced :: "acct \<Rightarrow> TransferInfo \<Rightarrow> nat" where
  "introduced a i = (if ti_on_flight_voters i \<noteq> [] \<and> hd (ti_on_flight_voters i) = a then 1 else 0)"

definition counts_ok :: "relay_queue \<Rightarrow> bool" where
  "counts_ok s \<longleftrightarrow>
     (\<forall>a. bt_sum (\<lambda>_. introduced a) (PendingTransfers s) = PendingTransferCount s a) \<and>
     (\<forall>a. PendingTransferCount s a \<le> MAX_PENDING_TRANSFERS_PER_RELAYER)"

text \<open>The amount a transfer holds of the cap of an asset.\<close>

definition cap_held :: "(AssetIndexHash \<Rightarrow> AssetId option) \<Rightarrow> AssetId \<Rightarrow> TransferInfoWithTxId \<Rightarrow> nat" where
  "cap_held ix a t = (if tx_option t = Fast \<and> ix (tx_asset_index_hash t) = Some a then tx_amount t else 0)"

definition caps_ok :: "relay_queue \<Rightarrow> bool" where
  "caps_ok s \<longleftrightarrow>
     (\<forall>h t. bt_get (OnFlightTransfers s) h = Some t \<and> tx_option t = Fast \<longrightarrow>
        bt_get (AssetIndexes s) (tx_asset_index_hash t) \<noteq> None) \<and>
     (\<forall>a c. bt_get (AssetCaps s) a = Some c \<longrightarrow>
        on_flight_cap c = bt_sum (\<lambda>_. cap_held (bt_get (AssetIndexes s)) a) (OnFlightTransfers s))"

text \<open>Stored transfers describe the message whose hash is their key.\<close>

abbreviation msg_key :: "QConfig \<Rightarrow> SocketMessage \<Rightarrow> H256" where
  "msg_key Q m \<equiv> hash_bytes Q (SocketMessage_encode (q_codec Q) m)"

definition describes :: "QConfig \<Rightarrow> SocketMessage set \<Rightarrow> H256 \<Rightarrow> balance \<Rightarrow> AssetIndexHash \<Rightarrow> bool" where
  "describes Q M h x i \<longleftrightarrow>
     (\<exists>m\<in>M. h = msg_key Q m \<and> x = unat (tp_amount (sm_params m)) \<and> x < M128 \<and>
        h256_from_slice (token_idx0 (sm_params m)) = Some i)"

definition messages_ok :: "QConfig \<Rightarrow> SocketMessage set \<Rightarrow> relay_queue \<Rightarrow> bool" where
  "messages_ok Q M s \<longleftrightarrow>
     (\<forall>h x i. bt_get (PendingTransfers s) (h, x) = Some i \<longrightarrow>
        describes Q M h (ti_amount i) (ti_asset_index_hash i)) \<and>
     (\<forall>h t. bt_get (OnFlightTransfers s) h = Some t \<longrightarrow>
        describes Q M h (tx_amount t) (tx_asset_index_hash t))"

definition queue_inv :: "QConfig \<Rightarrow> SocketMessage set \<Rightarrow> relay_queue \<Rightarrow> bool" where
  "queue_inv Q M s \<longleftrightarrow> maps_wf s \<and> stages_ok s \<and> voters_ok s \<and> assets_ok s \<and> counts_ok s \<and>
     caps_ok s \<and> messages_ok Q M s"

lemmas queue_inv_defs = queue_inv_def maps_wf_def stages_ok_def voters_ok_def assets_ok_def
  counts_ok_def caps_ok_def messages_ok_def

lemma queue_inv_deposit [simp]: "queue_inv Q M (q_deposit e s) = queue_inv Q M s"
  by (simp add: queue_inv_defs q_deposit_def)

lemma queue_inv_socket [simp]: "queue_inv Q M (s\<lparr>Socket := x\<rparr>) = queue_inv Q M s"
  by (simp add: queue_inv_defs)

end
