(* ===== verification/Relay_Queue_Keep.thy ===== *)
theory Relay_Queue_Keep
  imports Relay_Queue_Inv
begin

text \<open>Every operation of the relay queue keeps its invariant.\<close>

subsection \<open>Polls\<close>

abbreviation fresh_info ::
  "balance \<Rightarrow> SocketMessage \<Rightarrow> u32 \<Rightarrow> u32 \<Rightarrow> AssetIndexHash \<Rightarrow> TransferOption \<Rightarrow>
   OnFlightPollSubmission \<Rightarrow> TransferInfo" where
  "fresh_info x m src dst idx opt sub \<equiv>
     \<lparr>ti_amount = x, ti_sequence_id = rq_sequence (req_id m), ti_src_chain_id = src,
      ti_dst_chain_id = dst, ti_asset_index_hash = idx, ti_option = opt,
      ti_socket_message = op_msg sub, ti_on_flight_voters = [op_authority_id sub]\<rparr>"

lemma poll_vote_Done:
  "poll_vote a key f s = Done info s' \<longleftrightarrow> s' = s \<and>
   (case bt_get (PendingTransfers s) key of
      None \<Rightarrow> info = f
    | Some p \<Rightarrow> a \<notin> set (ti_on_flight_voters p) \<and> length (ti_on_flight_voters p) < MAX_AUTHORITIES \<and>
        info = p\<lparr>ti_on_flight_voters := ti_on_flight_voters p @ [a], ti_option := ti_option f\<rparr>)"
  by (auto simp: poll_vote_def queue_Done split: option.splits)

text \<open>What a successful poll established before it stored anything.\<close>

definition poll_pre ::
  "QConfig \<Rightarrow> OnFlightPollSubmission \<Rightarrow> SocketMessage \<Rightarrow> AssetIndexHash \<Rightarrow> TransferOption \<Rightarrow>
   TransferInfo \<Rightarrow> relay_queue \<Rightarrow> bool" where
  "poll_pre Q sub m idx opt info s \<longleftrightarrow>
     (let h = op_msg_hash sub; key = (h, op_src_tx_id sub); a = op_authority_id sub in
      SocketMessage_try_from (q_codec Q) (op_msg sub) = Parsed m \<and> sm_is_requested m \<and>
      h = hash_bytes Q (op_msg sub) \<and> h = msg_key Q m \<and> unat (tp_amount (sm_params m)) < M128 \<and>
      h256_from_slice (token_idx0 (sm_params m)) = Some idx \<and>
      bt_get (OnFlightTransfers s) h = None \<and> bt_get (FinalizedTransfers s) h = None \<and>
      (bt_get (PendingTransfers s) key = None \<longrightarrow>
         PendingTransferCount s a < MAX_PENDING_TRANSFERS_PER_RELAYER) \<and>
      (case get_asset_info idx s of
         None \<Rightarrow> opt = Standard
       | Some (_, c) \<Rightarrow> determine_transfer_option c (tp_amount (sm_params m)) s = Done opt s) \<and>
      (\<exists>src dst. case bt_get (PendingTransfers s) key of
         None \<Rightarrow> info = fresh_info (unat (tp_amount (sm_params m))) m src dst idx opt sub
       | Some p \<Rightarrow> a \<notin> set (ti_on_flight_voters p) \<and> length (ti_on_flight_voters p) < MAX_AUTHORITIES \<and>
           info = p\<lparr>ti_on_flight_voters := ti_on_flight_voters p @ [a], ti_option := opt\<rparr>))"

lemma poll_preD:
  assumes "poll_pre Q sub m idx opt info s"
  shows "bt_get (OnFlightTransfers s) (op_msg_hash sub) = None"
    and "bt_get (FinalizedTransfers s) (op_msg_hash sub) = None"
    and "op_msg_hash sub = msg_key Q m" and "unat (tp_amount (sm_params m)) < M128"
    and "SocketMessage_try_from (q_codec Q) (op_msg sub) = Parsed m" and "sm_is_requested m"
    and "case get_asset_info idx s of None \<Rightarrow> opt = Standard
       | Some (_, c) \<Rightarrow> determine_transfer_option c (tp_amount (sm_params m)) s = Done opt s"
  using assms unfolding poll_pre_def Let_def by blast+

lemma on_flight_poll_Done:
  assumes "on_flight_poll Q E og sub s = Done u s'"
  obtains m idx opt info approved s1 ev where
    "poll_pre Q sub m idx opt info s" "og = NoOrigin" "poll_on_chain Q E m s = Done () s"
    "poll_store E (op_authority_id sub) (op_msg_hash sub, op_src_tx_id sub) (get_asset_info idx s)
       (unat (tp_amount (sm_params m))) opt
       (bt_get (PendingTransfers s) (op_msg_hash sub, op_src_tx_id sub) = None) info s = Done approved s1"
    "s' = q_deposit ev s1"
proof -
  from assms obtain s0 m x src dst idx opt s2 w s3 info s4 approved s1 ev where
    s0: "s0 = s" and p: "SocketMessage_try_from (q_codec Q) (op_msg sub) = Parsed m" "sm_is_requested m"
      "op_msg_hash sub = hash_bytes Q (op_msg sub)" "op_msg_hash sub = msg_key Q m"
      "balance_of_u256 (tp_amount (sm_params m)) = Some x" "og = NoOrigin"
      "h256_from_slice (token_idx0 (sm_params m)) = Some idx"
      "\<not> bt_contains (op_msg_hash sub) (OnFlightTransfers s0)" "\<not> bt_contains (op_msg_hash sub) (FinalizedTransfers s0)"
      "\<not> bt_contains (op_msg_hash sub, op_src_tx_id sub) (PendingTransfers s0) \<longrightarrow>
         PendingTransferCount s0 (op_authority_id sub) < MAX_PENDING_TRANSFERS_PER_RELAYER"
    and o: "(case get_asset_info idx s0 of
         Some (_, c) \<Rightarrow> determine_transfer_option c (tp_amount (sm_params m)) s0
       | None \<Rightarrow> Done Standard s0) = Done opt s2"
    and q: "poll_on_chain Q E m s2 = Done w s3"
      "poll_vote (op_authority_id sub) (op_msg_hash sub, op_src_tx_id sub)
         (fresh_info x m src dst idx opt sub) s3 = Done info s4"
      "poll_store E (op_authority_id sub) (op_msg_hash sub, op_src_tx_id sub) (get_asset_info idx s0) x opt
         (\<not> bt_contains (op_msg_hash sub, op_src_tx_id sub) (PendingTransfers s0)) info s4 = Done approved s1"
      "q_deposit ev s1 = s'"
    unfolding on_flight_poll_def Let_def queue_Done outcome.inject
    by (elim exE conjE) (rule that; assumption)
  have st: "s2 = s" "s3 = s" "s4 = s"
    using o s0 poll_on_chain_state [OF q(1)] q(2)
    by (auto simp: poll_vote_Done option_Done split: option.splits prod.splits)
  have x: "x = unat (tp_amount (sm_params m))" "unat (tp_amount (sm_params m)) < M128"
    using p(5) by (auto simp: balance_of_u256_Some)
  have "poll_pre Q sub m idx opt info s"
    using p o q(2) x unfolding poll_pre_def Let_def st s0
    by (auto simp: bt_contains_def poll_vote_Done split: option.splits prod.splits)
  then show ?thesis using that p(6) q x(1) by (auto simp: st s0 bt_contains_def)
qed

lemma queue_invD:
  assumes "queue_inv Q M s"
  shows "maps_wf s" "stages_ok s" "voters_ok s" "assets_ok s" "counts_ok s" "caps_ok s" "messages_ok Q M s"
  using assms by (auto simp: queue_inv_def)

lemma counts_okD:
  assumes "counts_ok s"
  shows "bt_sum (\<lambda>_. introduced b) (PendingTransfers s) = PendingTransferCount s b"
    and "PendingTransferCount s b \<le> MAX_PENDING_TRANSFERS_PER_RELAYER"
  using assms unfolding counts_ok_def by metis+

lemma stages_okD:
  assumes "stages_ok s" "bt_get (OnFlightTransfers s) h = Some t"
  shows "bt_get (PendingTransfers s) (h, x) = None" "bt_get (FinalizedTransfers s) h = None"
  using assms unfolding stages_ok_def by (metis option.distinct(1) option.exhaust)+

lemma caps_ok_cong:
  "AssetIndexes s' = AssetIndexes s \<Longrightarrow> AssetCaps s' = AssetCaps s \<Longrightarrow>
   OnFlightTransfers s' = OnFlightTransfers s \<Longrightarrow> caps_ok s' = caps_ok s"
  by (simp only: caps_ok_def)

lemma describes_unique:
  assumes "inj_on (msg_key Q) M" "describes Q M h x i" "m \<in> M" "h = msg_key Q m"
  shows "x = unat (tp_amount (sm_params m)) \<and> h256_from_slice (token_idx0 (sm_params m)) = Some i"
  using assms by (auto simp: describes_def dest: inj_onD)

text \<open>The voted transfer describes the polled message and has distinct voters.\<close>

lemma poll_info:
  assumes inv: "queue_inv Q M s" and inj: "inj_on (msg_key Q) M" and m: "m \<in> M"
    and pre: "poll_pre Q sub m idx opt info s"
  shows "ti_amount info = unat (tp_amount (sm_params m))" "ti_asset_index_hash info = idx" "ti_option info = opt"
    and "ti_on_flight_voters info \<noteq> [] \<and> distinct (ti_on_flight_voters info) \<and>
         length (ti_on_flight_voters info) \<le> MAX_AUTHORITIES"
    and "describes Q M (op_msg_hash sub) (ti_amount info) (ti_asset_index_hash info)"
    and "\<exists>v vs. ti_on_flight_voters info = vs @ [v] \<and> v = op_authority_id sub"
proof -
  note P = pre [unfolded poll_pre_def Let_def]
  have d: "describes Q M (op_msg_hash sub) (unat (tp_amount (sm_params m))) idx"
    using P m unfolding describes_def by blast
  have "ti_amount info = unat (tp_amount (sm_params m)) \<and> ti_asset_index_hash info = idx \<and> ti_option info = opt \<and>
    (ti_on_flight_voters info \<noteq> [] \<and> distinct (ti_on_flight_voters info) \<and>
         length (ti_on_flight_voters info) \<le> MAX_AUTHORITIES) \<and>
    (\<exists>v vs. ti_on_flight_voters info = vs @ [v] \<and> v = op_authority_id sub)"
  proof (cases "bt_get (PendingTransfers s) (op_msg_hash sub, op_src_tx_id sub)")
    case None
    then show ?thesis using P by (auto simp: MAX_AUTHORITIES_def)
  next
    case (Some p)
    have "describes Q M (op_msg_hash sub) (ti_amount p) (ti_asset_index_hash p)"
      using queue_invD(7) [OF inv] Some by (auto simp: messages_ok_def)
    with describes_unique [OF inj this m] P have
      "ti_amount p = unat (tp_amount (sm_params m))" "ti_asset_index_hash p = idx" by auto
    moreover have "distinct (ti_on_flight_voters p)"
      using queue_invD(3) [OF inv] Some by (auto simp: voters_ok_def)
    ultimately show ?thesis using P Some by auto
  qed
  with d show "ti_amount info = unat (tp_amount (sm_params m))" "ti_asset_index_hash info = idx"
    "ti_option info = opt"
    "ti_on_flight_voters info \<noteq> [] \<and> distinct (ti_on_flight_voters info) \<and>
         length (ti_on_flight_voters info) \<le> MAX_AUTHORITIES"
    "describes Q M (op_msg_hash sub) (ti_amount info) (ti_asset_index_hash info)"
    "\<exists>v vs. ti_on_flight_voters info = vs @ [v] \<and> v = op_authority_id sub" by auto
qed

lemma vote_stored_keeps:
  assumes inv: "queue_inv Q M s" and inj: "inj_on (msg_key Q) M" and m: "m \<in> M"
    and pre: "poll_pre Q sub m idx opt info s"
    and key: "key = (op_msg_hash sub, op_src_tx_id sub)" and a: "a = op_authority_id sub"
    and s1: "s1 = (if bt_get (PendingTransfers s) key = None then s\<lparr>PendingTransferCount :=
        (PendingTransferCount s)(a := add32 (PendingTransferCount s a) 1)\<rparr> else s)"
  shows "queue_inv Q M (s1\<lparr>PendingTransfers := bt_insert key info (PendingTransfers s)\<rparr>)"
proof -
  note P = pre [unfolded poll_pre_def Let_def] and I = poll_info [OF inv inj m pre]
  let ?s = "s1\<lparr>PendingTransfers := bt_insert key info (PendingTransfers s)\<rparr>"
  have wf: "bt_wf (PendingTransfers s)" using queue_invD(1) [OF inv] by (simp add: maps_wf_def)
  note cnt = counts_okD [OF queue_invD(5) [OF inv]]
  have "counts_ok ?s"
  proof (cases "bt_get (PendingTransfers s) key")
    case None
    have lt: "PendingTransferCount s a < 100"
      using P None by (simp add: key a MAX_PENDING_TRANSFERS_PER_RELAYER_def)
    have "ti_on_flight_voters info = [a]" using P None by (auto simp: key a)
    then have "introduced b info = (if b = a then 1 else 0)" for b by (simp add: introduced_def)
    with None lt cnt show ?thesis
      by (auto simp: counts_ok_def s1 bt_sum_insert [OF wf] bt_remove_absent
          MAX_PENDING_TRANSFERS_PER_RELAYER_def add32_def M32_def)
  next
    case (Some p)
    have "ti_on_flight_voters p \<noteq> []"
      using queue_invD(3) [OF inv] Some unfolding voters_ok_def by blast
    moreover have "ti_on_flight_voters info = ti_on_flight_voters p @ [a]" using P Some by (auto simp: key a)
    ultimately have "introduced b info = introduced b p" for b by (simp add: introduced_def)
    then have "bt_sum (\<lambda>_. introduced b) (bt_insert key info (PendingTransfers s)) = PendingTransferCount s b" for b
      by (simp add: bt_sum_insert [OF wf] bt_sum_remove [OF wf Some] flip: cnt(1))
    with Some cnt(2) show ?thesis by (simp add: counts_ok_def s1)
  qed
  moreover have "stages_ok ?s"
    using queue_invD(2) [OF inv] poll_preD(1,2) [OF pre] by (simp add: stages_ok_def s1 key) blast
  moreover have "voters_ok ?s" using queue_invD(3) [OF inv] I(4) by (auto simp: voters_ok_def s1)
  moreover have "messages_ok Q M ?s" using queue_invD(7) [OF inv] I(5) by (auto simp: messages_ok_def s1 key)
  moreover have "maps_wf ?s" using queue_invD(1) [OF inv] by (simp add: maps_wf_def s1)
  moreover have "assets_ok ?s" using queue_invD(4) [OF inv] by (simp add: assets_ok_def s1)
  moreover have "caps_ok ?s" using queue_invD(6) [OF inv]
    by (rule caps_ok_cong [THEN iffD2, rotated -1]) (simp_all add: s1)
  ultimately show ?thesis by (simp add: queue_inv_def)
qed

lemma release_submitters:
  "fold release_submitter is cnt a = cnt a - sum_list (map (introduced a) is)"
proof (induction "is" arbitrary: cnt)
  case (Cons i "is")
  then show ?case
    by (cases "ti_on_flight_voters i") (auto simp: release_submitter_def introduced_def)
qed simp

lemma clear_pending_counts:
  assumes "counts_ok s"
  shows "counts_ok (clear_pending h s)"
proof -
  note cnt = counts_okD [OF assms]
  have "sum_list (map (introduced a) (pending_of h s)) =
    bt_sum (\<lambda>_. introduced a) (filter (\<lambda>e. fst (fst e) = h) (PendingTransfers s))" for a
    unfolding pending_of_def bt_sum_def map_map
    by (rule arg_cong [where f = sum_list], rule map_cong) auto
  moreover have "bt_sum (\<lambda>_. introduced a) (filter (\<lambda>e. fst (fst e) \<noteq> h) (PendingTransfers s)) =
    PendingTransferCount s a - bt_sum (\<lambda>_. introduced a) (filter (\<lambda>e. fst (fst e) = h) (PendingTransfers s))" for a
    using bt_sum_filter [of "\<lambda>_. introduced a" "PendingTransfers s" "\<lambda>e. fst (fst e) = h"] cnt(1) [of a] by simp
  moreover have "PendingTransferCount s a - n \<le> MAX_PENDING_TRANSFERS_PER_RELAYER" for a n
    using cnt(2) [of a] by simp
  ultimately show ?thesis by (simp add: counts_ok_def clear_pending_def release_submitters)
qed

lemma bt_get_clear:
  "bt_get (filter (\<lambda>e. fst (fst e) \<noteq> h) m) k = (if fst k = h then None else bt_get m k)"
  by (induction m) auto

lemma clear_pending_fields [simp]:
  "AssetCaps (clear_pending h s) = AssetCaps s" "AssetIndexes (clear_pending h s) = AssetIndexes s"
  "OnFlightTransfers (clear_pending h s) = OnFlightTransfers s"
  "FinalizedTransfers (clear_pending h s) = FinalizedTransfers s"
  "get_asset_info i (clear_pending h s) = get_asset_info i s"
  "bt_get (PendingTransfers (clear_pending h s)) k = (if fst k = h then None else bt_get (PendingTransfers s) k)"
  by (simp_all add: clear_pending_def get_asset_info_def bt_get_clear)

lemma from_transfer_info_fields [simp]:
  "tx_amount (from_transfer_info i x) = ti_amount i"
  "tx_asset_index_hash (from_transfer_info i x) = ti_asset_index_hash i"
  "tx_option (from_transfer_info i x) = ti_option i"
  "tx_on_flight_voters (from_transfer_info i x) = ti_on_flight_voters i"
  "tx_finalization_voters (from_transfer_info i x) = []"
  by (simp_all add: from_transfer_info_def)

lemma clear_pending_keeps:
  assumes inv: "queue_inv Q M s"
  shows "queue_inv Q M (clear_pending h s)"
proof -
  have "counts_ok (clear_pending h s)" by (rule clear_pending_counts [OF queue_invD(5) [OF inv]])
  moreover have "maps_wf (clear_pending h s)" "stages_ok (clear_pending h s)" "voters_ok (clear_pending h s)"
    "assets_ok (clear_pending h s)" "caps_ok (clear_pending h s)" "messages_ok Q M (clear_pending h s)"
    using queue_invD [OF inv]
    by (auto simp: clear_pending_def maps_wf_def stages_ok_def voters_ok_def assets_ok_def caps_ok_def
        messages_ok_def bt_get_clear bt_wf_filter)
  ultimately show ?thesis by (simp add: queue_inv_def)
qed

text \<open>Putting a transfer on flight, the cap of its asset adjusted.\<close>

lemma go_on_flight_keeps:
  assumes inv: "queue_inv Q M s" and new: "bt_get (OnFlightTransfers s) h = None"
    "bt_get (FinalizedTransfers s) h = None" "\<And>x. bt_get (PendingTransfers s) (h, x) = None"
    and d: "describes Q M h (tx_amount t) (tx_asset_index_hash t)" and f: "tx_finalization_voters t = []"
    and c: "case get_asset_info (tx_asset_index_hash t) s of
        None \<Rightarrow> tx_option t = Standard \<and> caps = AssetCaps s
      | Some (i, c) \<Rightarrow>
          (tx_option t = Standard \<and> caps = AssetCaps s) \<or>
          (tx_option t = Fast \<and> on_flight_cap c + tx_amount t \<le> max_on_flight_cap c \<and>
           caps = bt_insert i (c\<lparr>on_flight_cap := on_flight_cap c + tx_amount t\<rparr>) (AssetCaps s))"
  shows "queue_inv Q M (s\<lparr>AssetCaps := caps, OnFlightTransfers := bt_insert h t (OnFlightTransfers s)\<rparr>)"
    (is "queue_inv Q M ?s")
proof -
  note I = queue_invD [OF inv]
  have wf: "bt_wf (OnFlightTransfers s)" using I(1) by (simp add: maps_wf_def)
  have sum: "bt_sum (\<lambda>_. cap_held ix a) (bt_insert h t (OnFlightTransfers s)) =
      cap_held ix a t + bt_sum (\<lambda>_. cap_held ix a) (OnFlightTransfers s)" for ix a
    by (simp add: bt_sum_insert [OF wf] bt_remove_absent [OF new(1)])
  have "assets_ok ?s \<and> caps_ok ?s \<and> bt_wf caps"
  proof (cases "tx_option t = Fast")
    case False
    then have caps: "caps = AssetCaps s" using c by (auto split: option.splits)
    show ?thesis using I(1,4,6) False by (auto simp: caps assets_ok_def caps_ok_def sum cap_held_def maps_wf_def)
  next
    case True
    with c obtain i k where k: "bt_get (AssetIndexes s) (tx_asset_index_hash t) = Some i"
      "bt_get (AssetCaps s) i = Some k" "on_flight_cap k + tx_amount t \<le> max_on_flight_cap k"
      and caps: "caps = bt_insert i (k\<lparr>on_flight_cap := on_flight_cap k + tx_amount t\<rparr>) (AssetCaps s)"
      by (auto simp: get_asset_info_def split: option.splits Option.bind_splits)
    have "assets_ok ?s" using I(4) k(2,3) unfolding assets_ok_def caps by auto
    moreover have "caps_ok ?s"
      using I(6) k(1,2) True unfolding caps_ok_def caps by (auto simp: sum cap_held_def)
    ultimately show ?thesis using I(1) by (simp add: caps maps_wf_def)
  qed
  then have "assets_ok ?s" "caps_ok ?s" "bt_wf caps" by auto
  moreover have "counts_ok ?s" using I(5) by (simp add: counts_ok_def)
  moreover have "maps_wf ?s" using I(1) \<open>bt_wf caps\<close> by (simp add: maps_wf_def)
  moreover have "stages_ok ?s" using I(2) new by (simp add: stages_ok_def)
  moreover have "voters_ok ?s" "messages_ok Q M ?s"
    using I(3,7) d f by (simp_all add: voters_ok_def messages_ok_def)
  ultimately show ?thesis by (simp add: queue_inv_def)
qed

lemma fast_fits:
  assumes "assets_ok s" "bt_get (AssetCaps s) i = Some c" "unat x < M128"
    and "determine_transfer_option c x s = Done Fast s"
  shows "on_flight_cap c + unat x \<le> max_on_flight_cap c"
proof -
  have c: "on_flight_cap c < M128" "max_on_flight_cap c < M128"
    using assms(1,2) by (auto simp: assets_ok_def MAX_ON_FLIGHT_CAP_def M128_def) fastforce+
  have "\<not> u256_of_balance (max_on_flight_cap c) < u256_of_balance (on_flight_cap c) + x"
    and "unat (u256_of_balance (on_flight_cap c)) + unat x < 2 ^ 256"
    using assms(4) by (auto simp: option_Done split: if_splits)
  then show ?thesis
    using c by (simp add: word_less_nat_alt unat_add256 unat_u256_of_balance)
qed

text \<open>The state after a promotion.\<close>

lemma poll_promoted:
  assumes as: "assets_ok s" and x: "unat x < M128"
    and opt: "case get_asset_info idx s of None \<Rightarrow> opt = Standard
       | Some (_, c) \<Rightarrow> determine_transfer_option c x s = Done opt s"
    and maj: "q_majority E \<le> as_u32 (length (ti_on_flight_voters info))"
    and st: "poll_store E a (h, tx) (get_asset_info idx s) (unat x) opt new info s = Done ok s1"
  shows "\<exists>caps. (case get_asset_info idx s of
        None \<Rightarrow> opt = Standard \<and> caps = AssetCaps s
      | Some (i, c) \<Rightarrow> (opt = Standard \<and> caps = AssetCaps s) \<or>
          (opt = Fast \<and> on_flight_cap c + unat x \<le> max_on_flight_cap c \<and>
           caps = bt_insert i (c\<lparr>on_flight_cap := on_flight_cap c + unat x\<rparr>) (AssetCaps s))) \<and>
      s1 = (clear_pending h s)\<lparr>AssetCaps := caps,
        OnFlightTransfers := bt_insert h (from_transfer_info info tx) (OnFlightTransfers s)\<rparr>"
proof (cases "opt = Fast")
  case False
  then have "opt = Standard" by (cases opt) simp_all
  then show ?thesis
    using st maj by (auto simp: poll_store_def queue_Done Let_def clear_pending_def split: option.splits)
next
  case True
  with opt obtain i c where g: "get_asset_info idx s = Some (i, c)"
    and det: "determine_transfer_option c x s = Done Fast s"
    by (auto split: option.splits)
  have ic: "bt_get (AssetCaps s) i = Some c"
    using g by (auto simp: get_asset_info_def split: Option.bind_splits)
  have fits: "on_flight_cap c + unat x \<le> max_on_flight_cap c" by (rule fast_fits [OF as ic x det])
  have lt: "on_flight_cap c < M128"
    using as ic by (fastforce simp: assets_ok_def MAX_ON_FLIGHT_CAP_def M128_def)
  have un: "unat (u256_of_balance (unat x)) = unat x" by (rule unat_u256_of_balance [OF x])
  from st obtain c' s2 where u: "update_fast_transfer_cap i c (u256_of_balance (unat x)) True s = Done c' s2"
    and s1: "s1 = (clear_pending h s2)\<lparr>OnFlightTransfers :=
        bt_insert h (from_transfer_info info tx) (OnFlightTransfers (clear_pending h s2))\<rparr>"
    using maj True by (auto simp: poll_store_def queue_Done Let_def g)
  from cap_Done [OF u lt] un fits show ?thesis
    by (simp add: g True s1 clear_pending_def pending_of_def)
qed

lemma on_flight_poll_keeps:
  assumes inv: "queue_inv Q M s" and inj: "inj_on (msg_key Q) M"
    and M: "\<And>m. SocketMessage_try_from (q_codec Q) (op_msg sub) = Parsed m \<Longrightarrow> m \<in> M"
    and d: "on_flight_poll Q E og sub s = Done u s'"
  shows "queue_inv Q M s'"
proof -
  from d obtain m idx opt info ok s1 ev where
    pre: "poll_pre Q sub m idx opt info s" and st:
    "poll_store E (op_authority_id sub) (op_msg_hash sub, op_src_tx_id sub) (get_asset_info idx s)
       (unat (tp_amount (sm_params m))) opt
       (bt_get (PendingTransfers s) (op_msg_hash sub, op_src_tx_id sub) = None) info s = Done ok s1"
    and s': "s' = q_deposit ev s1"
    by (rule on_flight_poll_Done)
  note D = poll_preD [OF pre]
  have m: "m \<in> M" by (rule M [OF D(5)])
  note I = poll_info [OF inv inj m pre]
  show ?thesis
  proof (cases "q_majority E \<le> as_u32 (length (ti_on_flight_voters info))")
    case False
    then show ?thesis
      using st vote_stored_keeps [OF inv inj m pre refl refl refl]
      by (auto simp: poll_store_def s' Let_def split: if_splits)
  next
    case True
    let ?h = "op_msg_hash sub" and ?t = "from_transfer_info info (op_src_tx_id sub)"
    obtain caps where c: "case get_asset_info idx s of
          None \<Rightarrow> opt = Standard \<and> caps = AssetCaps s
        | Some (i, c) \<Rightarrow> (opt = Standard \<and> caps = AssetCaps s) \<or>
            (opt = Fast \<and> on_flight_cap c + ti_amount info \<le> max_on_flight_cap c \<and>
             caps = bt_insert i (c\<lparr>on_flight_cap := on_flight_cap c + ti_amount info\<rparr>) (AssetCaps s))"
      and s1: "s1 = (clear_pending ?h s)\<lparr>AssetCaps := caps,
          OnFlightTransfers := bt_insert ?h ?t (OnFlightTransfers s)\<rparr>"
      using poll_promoted [OF queue_invD(4) [OF inv] D(4,7) True st] unfolding I(1) [symmetric]
      by (elim exE conjE) (rule that; assumption)
    have "queue_inv Q M s1" unfolding s1
      using go_on_flight_keeps [OF clear_pending_keeps [OF inv], of ?h ?h ?t caps] c D(1,2) I(2,3,5)
      by (cases "get_asset_info idx s") (auto split: prod.splits)
    then show ?thesis by (simp add: s')
  qed
qed

subsection \<open>Finalization\<close>

text \<open>Taking a transfer off flight, the cap of its asset released.\<close>

lemma off_flight_keeps:
  assumes inv: "queue_inv Q M s" and t0: "bt_get (OnFlightTransfers s) h = Some t0"
    and c: "tx_option t0 = Fast \<Longrightarrow> get_asset_info (tx_asset_index_hash t0) s = Some (i, c) \<and>
        tx_amount t0 \<le> on_flight_cap c \<and>
        caps = bt_insert i (c\<lparr>on_flight_cap := on_flight_cap c - tx_amount t0\<rparr>) (AssetCaps s)"
    and c': "tx_option t0 \<noteq> Fast \<Longrightarrow> caps = AssetCaps s"
  shows "queue_inv Q M (s\<lparr>OnFlightTransfers := bt_remove h (OnFlightTransfers s),
     FinalizedTransfers := bt_insert h t (FinalizedTransfers s), AssetCaps := caps\<rparr>)"
    (is "queue_inv Q M ?s")
proof -
  note I = queue_invD [OF inv]
  have wf: "bt_wf (OnFlightTransfers s)" using I(1) by (simp add: maps_wf_def)
  have sum: "bt_sum (\<lambda>_. cap_held ix a) (OnFlightTransfers s) =
      cap_held ix a t0 + bt_sum (\<lambda>_. cap_held ix a) (bt_remove h (OnFlightTransfers s))" for ix a
    by (rule bt_sum_remove [OF wf t0])
  have "assets_ok ?s \<and> caps_ok ?s \<and> bt_wf caps"
  proof (cases "tx_option t0 = Fast")
    case False
    then show ?thesis
      using I(1,4,6) c' unfolding caps_ok_def sum by (auto simp: assets_ok_def cap_held_def maps_wf_def)
  next
    case True
    with c have k: "bt_get (AssetIndexes s) (tx_asset_index_hash t0) = Some i" "bt_get (AssetCaps s) i = Some c"
      and caps: "caps = bt_insert i (c\<lparr>on_flight_cap := on_flight_cap c - tx_amount t0\<rparr>) (AssetCaps s)"
      by (auto simp: get_asset_info_def split: Option.bind_splits)
    have "assets_ok ?s" using I(4) k(2) unfolding assets_ok_def caps by (auto intro: le_trans [OF diff_le_self])
    moreover have "caps_ok ?s"
      using I(6) k True unfolding caps_ok_def caps sum by (auto simp: cap_held_def)
    ultimately show ?thesis using I(1) by (simp add: caps maps_wf_def)
  qed
  then have "assets_ok ?s" "caps_ok ?s" "bt_wf caps" by auto
  moreover have "counts_ok ?s" using I(5) by (simp add: counts_ok_def)
  moreover have "maps_wf ?s" using I(1) \<open>bt_wf caps\<close> by (simp add: maps_wf_def)
  moreover have "stages_ok ?s"
    using I(2) t0 stages_okD [OF I(2) t0] unfolding stages_ok_def by (auto split: if_splits)
  moreover have "voters_ok ?s" "messages_ok Q M ?s"
    using I(3,7) by (auto simp: voters_ok_def messages_ok_def split: if_splits)
  ultimately show ?thesis by (simp add: queue_inv_def)
qed

lemma vote_final_keeps:
  assumes inv: "queue_inv Q M s" and t0: "bt_get (OnFlightTransfers s) h = Some t0"
    and vs: "distinct vs" "length vs \<le> MAX_AUTHORITIES"
  shows "queue_inv Q M (s\<lparr>OnFlightTransfers := bt_insert h (t0\<lparr>tx_finalization_voters := vs\<rparr>) (OnFlightTransfers s)\<rparr>)"
    (is "queue_inv Q M ?s")
proof -
  note I = queue_invD [OF inv]
  have wf: "bt_wf (OnFlightTransfers s)" using I(1) by (simp add: maps_wf_def)
  have "bt_sum (\<lambda>_. cap_held ix a) (bt_insert h (t0\<lparr>tx_finalization_voters := vs\<rparr>) (OnFlightTransfers s)) =
      bt_sum (\<lambda>_. cap_held ix a) (OnFlightTransfers s)" for ix a
    by (simp add: bt_sum_insert [OF wf] bt_sum_remove [OF wf t0] cap_held_def)
  then have "caps_ok ?s" using I(6) t0 unfolding caps_ok_def by auto
  moreover have "counts_ok ?s" using I(5) by (simp add: counts_ok_def)
  moreover have "maps_wf ?s" using I(1) by (simp add: maps_wf_def)
  moreover have "assets_ok ?s" using I(4) by (simp add: assets_ok_def)
  moreover have "stages_ok ?s"
    using I(2) t0 stages_okD [OF I(2) t0] unfolding stages_ok_def by (auto split: if_splits)
  moreover have "voters_ok ?s" "messages_ok Q M ?s"
    using I(3,7) t0 vs by (auto simp: voters_ok_def messages_ok_def split: if_splits)
  ultimately show ?thesis by (simp add: queue_inv_def)
qed

text \<open>What a successful finalization vote established.\<close>

lemma finalize_poll_Done:
  assumes "finalize_poll Q E og sub s = Done u s'"
  obtains m idx t0 vs info h ev s1 where
    "SocketMessage_try_from (q_codec Q) (fp_msg sub) = Parsed m" "finalize_status m" "og = NoOrigin"
    "h256_from_slice (token_idx0 (sm_params m)) = Some idx" "h = msg_key Q (m\<lparr>sm_status := 1\<rparr>)"
    "bt_get (FinalizedTransfers s) h = None" "bt_get (OnFlightTransfers s) h = Some t0"
    "validate_on_chain_existence Q E m s = Done info s"
    "fp_authority_id sub \<notin> set (tx_finalization_voters t0)"
    "length (tx_finalization_voters t0) < MAX_AUTHORITIES"
    "vs = tx_finalization_voters t0 @ [fp_authority_id sub]" "s' = q_deposit ev s1"
    "if is_outbound (ucast (evm_chain_id Q)) m then outbound_status info m else inbound_status info m"
    "if is_outbound (ucast (evm_chain_id Q)) m \<or> q_majority E \<le> as_u32 (length vs)
     then finalize_now h (t0\<lparr>tx_finalization_voters := vs\<rparr>) (get_asset_info idx s) (tp_amount (sm_params m)) s = Done () s1
     else s1 = s\<lparr>OnFlightTransfers := bt_insert h (t0\<lparr>tx_finalization_voters := vs\<rparr>) (OnFlightTransfers s)\<rparr>"
proof -
  let ?h = "\<lambda>m. msg_key Q (m\<lparr>sm_status := 1\<rparr>)" and ?t = "\<lambda>t vs. t\<lparr>tx_finalization_voters := vs\<rparr>"
  let ?ev = "\<lambda>idx m src dst t fin. FinalizationPolled idx (rq_sequence (req_id m)) src dst
    (fp_authority_id sub) (tx_option t) (tx_amount t) fin"
  from assms obtain s0 m src dst idx t0 info s2 vs s3 code where
    a: "SocketMessage_try_from (q_codec Q) (fp_msg sub) = Parsed m" "finalize_status m" "s0 = s" "og = NoOrigin"
      "h256_from_slice (token_idx0 (sm_params m)) = Some idx" "\<not> bt_contains (?h m) (FinalizedTransfers s0)"
      "bt_get (OnFlightTransfers s0) (?h m) = Some t0"
    and b: "validate_on_chain_existence Q E m s0 = Done info s2"
      "fp_authority_id sub \<notin> set (tx_finalization_voters t0)"
      "length (tx_finalization_voters t0) < MAX_AUTHORITIES"
      "vs = tx_finalization_voters t0 @ [fp_authority_id sub]" "s3 = s2"
    and c: "(if is_outbound (ucast (evm_chain_id Q)) m then
        ensure (outbound_status info m) MessageStatusMismatch s3 (
        bind_outcome (finalize_now (?h m) (?t t0 vs) (get_asset_info idx s0)
          (tp_amount (sm_params m)) s3) (\<lambda>_ s. Done () (q_deposit (?ev idx m src dst (?t t0 vs) True) s)))
      else
        ensure (inbound_status info m) MessageStatusMismatch s3 (
        if q_majority E \<le> as_u32 (length vs) then
          bind_outcome (finalize_now (?h m) (?t t0 vs) (get_asset_info idx s0)
            (tp_amount (sm_params m)) s3) (\<lambda>_ s. Done () (q_deposit (?ev idx m src dst (?t t0 vs) True) s))
        else
          Done () (q_deposit (?ev idx m src dst (?t t0 vs) False)
            (s3\<lparr>OnFlightTransfers := bt_insert (?h m) (?t t0 vs) (OnFlightTransfers s3)\<rparr>)))) = Done u s'"
    unfolding finalize_poll_def Let_def ensure_Done ok_or_Done expect_Done parse_Done
      bind_outcome_Done add_voter_Done
    by (elim exE conjE) (rule that; assumption)
  have st: "s2 = s" "s3 = s" using existence_Done [OF b(1)] a(3) b(5) by auto
  show ?thesis
    using that [of m idx "?h m" t0 info vs] a b c
    by (auto simp: st bt_contains_def queue_Done split: if_splits)
qed

lemma cap_in_use:
  assumes "queue_inv Q M s" "bt_get (OnFlightTransfers s) h = Some t" "tx_option t = Fast"
  obtains i c where "get_asset_info (tx_asset_index_hash t) s = Some (i, c)"
    "tx_amount t \<le> on_flight_cap c" "on_flight_cap c < M128"
proof -
  note I = queue_invD [OF assms(1)]
  obtain i where i: "bt_get (AssetIndexes s) (tx_asset_index_hash t) = Some i"
    using I(6) assms(2,3) unfolding caps_ok_def by blast
  then obtain c where c: "bt_get (AssetCaps s) i = Some c"
    using I(4) by (fastforce simp: assets_ok_def ran_def)
  have "on_flight_cap c = bt_sum (\<lambda>_. cap_held (bt_get (AssetIndexes s)) i) (OnFlightTransfers s)"
    using I(6) c unfolding caps_ok_def by blast
  also have "\<dots> \<ge> cap_held (bt_get (AssetIndexes s)) i t"
    using I(1) by (subst bt_sum_remove [OF _ assms(2)]) (auto simp: maps_wf_def)
  finally have "tx_amount t \<le> on_flight_cap c" by (simp add: cap_held_def assms(3) i)
  moreover have "on_flight_cap c < M128"
    using I(4) c by (fastforce simp: assets_ok_def MAX_ON_FLIGHT_CAP_def M128_def)
  ultimately show ?thesis using that i c by (simp add: get_asset_info_def)
qed

text \<open>Finalizing an on-flight transfer of the message never fails: the cap covers it.\<close>

lemma finalize_now_ok:
  assumes inv: "queue_inv Q M s" and t0: "bt_get (OnFlightTransfers s) h = Some t0"
    and same: "tx_amount t = tx_amount t0" "tx_option t = tx_option t0"
    and x: "unat x = tx_amount t0" and idx: "idx = tx_asset_index_hash t0"
  shows "\<exists>caps. finalize_now h t (get_asset_info idx s) x s =
      Done () (s\<lparr>OnFlightTransfers := bt_remove h (OnFlightTransfers s),
        FinalizedTransfers := bt_insert h t (FinalizedTransfers s), AssetCaps := caps\<rparr>) \<and>
    (if tx_option t0 = Fast then
       \<exists>i c. get_asset_info (tx_asset_index_hash t0) s = Some (i, c) \<and> tx_amount t0 \<le> on_flight_cap c \<and>
         caps = bt_insert i (c\<lparr>on_flight_cap := on_flight_cap c - tx_amount t0\<rparr>) (AssetCaps s)
     else caps = AssetCaps s)"
proof (cases "tx_option t0 = Fast")
  case False
  then show ?thesis by (auto simp: finalize_now_def Let_def same)
next
  case True
  from cap_in_use [OF inv t0 True] obtain i c where
    k: "get_asset_info (tx_asset_index_hash t0) s = Some (i, c)" "tx_amount t0 \<le> on_flight_cap c" "on_flight_cap c < M128" .
  have u: "unat (u256_of_balance (on_flight_cap c)) = on_flight_cap c" by (rule unat_u256_of_balance [OF k(3)])
  have le: "x \<le> u256_of_balance (on_flight_cap c)" using k(2) x u by (simp add: word_le_nat_alt)
  then have "unat (u256_of_balance (on_flight_cap c) - x) = on_flight_cap c - tx_amount t0"
    by (simp add: unat_sub u x)
  then show ?thesis
    using True k le by (simp add: finalize_now_def Let_def same idx update_fast_transfer_cap_def
        checked_sub256_def ok_or_def balance_of_u256_def)
qed

lemma finalize_now_keeps:
  assumes inv: "queue_inv Q M s" and t0: "bt_get (OnFlightTransfers s) h = Some t0"
    and same: "tx_amount t = tx_amount t0" "tx_option t = tx_option t0"
    and x: "unat x = tx_amount t0" and idx: "idx = tx_asset_index_hash t0"
    and d: "finalize_now h t (get_asset_info idx s) x s = Done u s1"
  shows "queue_inv Q M s1"
proof -
  let ?s = "\<lambda>caps. s\<lparr>OnFlightTransfers := bt_remove h (OnFlightTransfers s),
        FinalizedTransfers := bt_insert h t (FinalizedTransfers s), AssetCaps := caps\<rparr>"
  from finalize_now_ok [OF inv t0 same x idx] obtain caps where
    e: "finalize_now h t (get_asset_info idx s) x s = Done () (?s caps)"
    and c: "if tx_option t0 = Fast then
       \<exists>i c. get_asset_info (tx_asset_index_hash t0) s = Some (i, c) \<and> tx_amount t0 \<le> on_flight_cap c \<and>
         caps = bt_insert i (c\<lparr>on_flight_cap := on_flight_cap c - tx_amount t0\<rparr>) (AssetCaps s)
     else caps = AssetCaps s" by (elim exE conjE) (rule that; assumption)
  have s1: "s1 = ?s caps" using d unfolding e by simp
  show ?thesis
  proof (cases "tx_option t0 = Fast")
    case True
    with c obtain i c where "get_asset_info (tx_asset_index_hash t0) s = Some (i, c) \<and> tx_amount t0 \<le> on_flight_cap c \<and>
         caps = bt_insert i (c\<lparr>on_flight_cap := on_flight_cap c - tx_amount t0\<rparr>) (AssetCaps s)" by auto
    then show ?thesis unfolding s1
      by (intro off_flight_keeps [OF inv t0, where i = i and c = c]) (simp_all add: True)
  next
    case False
    then show ?thesis unfolding s1 using c by (intro off_flight_keeps [OF inv t0]) simp_all
  qed
qed

lemma finalize_poll_keeps:
  assumes inv: "queue_inv Q M s" and inj: "inj_on (msg_key Q) M"
    and M: "\<And>m. SocketMessage_try_from (q_codec Q) (fp_msg sub) = Parsed m \<Longrightarrow> m\<lparr>sm_status := 1\<rparr> \<in> M"
    and d: "finalize_poll Q E og sub s = Done u s'"
  shows "queue_inv Q M s'"
proof -
  from d obtain m idx t0 vs info h ev s1 where
    m: "SocketMessage_try_from (q_codec Q) (fp_msg sub) = Parsed m"
      "h256_from_slice (token_idx0 (sm_params m)) = Some idx" "h = msg_key Q (m\<lparr>sm_status := 1\<rparr>)"
    and t0: "bt_get (OnFlightTransfers s) h = Some t0"
    and vs: "fp_authority_id sub \<notin> set (tx_finalization_voters t0)"
      "length (tx_finalization_voters t0) < MAX_AUTHORITIES"
      "vs = tx_finalization_voters t0 @ [fp_authority_id sub]" and s': "s' = q_deposit ev s1"
    and f: "if is_outbound (ucast (evm_chain_id Q)) m \<or> q_majority E \<le> as_u32 (length vs)
     then finalize_now h (t0\<lparr>tx_finalization_voters := vs\<rparr>) (get_asset_info idx s) (tp_amount (sm_params m)) s = Done () s1
     else s1 = s\<lparr>OnFlightTransfers := bt_insert h (t0\<lparr>tx_finalization_voters := vs\<rparr>) (OnFlightTransfers s)\<rparr>"
    by (rule finalize_poll_Done)
  note I = queue_invD [OF inv]
  have "describes Q M h (tx_amount t0) (tx_asset_index_hash t0)"
    using I(7) t0 unfolding messages_ok_def by blast
  from describes_unique [OF inj this M [OF m(1)] m(3)] m(2)
  have x: "unat (tp_amount (sm_params m)) = tx_amount t0" "idx = tx_asset_index_hash t0" by simp_all
  have "distinct (tx_finalization_voters t0)" using I(3) t0 unfolding voters_ok_def by blast
  then have "queue_inv Q M (s\<lparr>OnFlightTransfers := bt_insert h (t0\<lparr>tx_finalization_voters := vs\<rparr>) (OnFlightTransfers s)\<rparr>)"
    using vs by (intro vote_final_keeps [OF inv t0]) simp_all
  then show ?thesis
    using f finalize_now_keeps [OF inv t0 _ _ x, of "t0\<lparr>tx_finalization_voters := vs\<rparr>" "()" s1]
    by (simp add: s' split: if_splits)
qed

end
