(* ===== verification/Relay_Queue_Run.thy ===== *)
theory Relay_Queue_Run
  imports Relay_Queue_Keep
begin

text \<open>
  The remaining operations keep the invariant; runs of the relay queue; the stages of a transfer as
  an abstract machine that every step refines.
\<close>

subsection \<open>Assets\<close>

text \<open>
  Changing the registry is harmless when the asset of every on-flight Fast transfer stays the same.
\<close>

lemma registry_keeps:
  assumes inv: "queue_inv Q M s"
    and s': "s' = s\<lparr>AssetIndexes := ix, AssetIndexesHookState := hk, AssetCaps := caps\<rparr>"
    and wf: "bt_wf ix" "bt_wf hk" "bt_wf caps" and ok: "assets_ok s'"
    and same: "\<And>h t. bt_get (OnFlightTransfers s) h = Some t \<Longrightarrow> tx_option t = Fast \<Longrightarrow>
        bt_get ix (tx_asset_index_hash t) = bt_get (AssetIndexes s) (tx_asset_index_hash t)"
    and caps: "\<And>a c. bt_get caps a = Some c \<Longrightarrow>
        (\<exists>c0. bt_get (AssetCaps s) a = Some c0 \<and> on_flight_cap c = on_flight_cap c0) \<or>
        (a \<notin> ran (bt_get (AssetIndexes s)) \<and> on_flight_cap c = 0)"
  shows "queue_inv Q M s'"
proof -
  note I = queue_invD [OF inv]
  have wfo: "bt_wf (OnFlightTransfers s)" using I(1) by (simp add: maps_wf_def)
  have sum: "bt_sum (\<lambda>_. cap_held (bt_get ix) a) (OnFlightTransfers s) =
      bt_sum (\<lambda>_. cap_held (bt_get (AssetIndexes s)) a) (OnFlightTransfers s)" for a
    by (rule bt_sum_cong) (auto simp: cap_held_def same bt_wf_get_iff [OF wfo])
  have "caps_ok s'"
    unfolding caps_ok_def
  proof (intro conjI allI impI)
    fix h t assume "bt_get (OnFlightTransfers s') h = Some t \<and> tx_option t = Fast"
    then show "bt_get (AssetIndexes s') (tx_asset_index_hash t) \<noteq> None"
      using I(6) same by (auto simp: s' caps_ok_def)
  next
    fix a c assume a: "bt_get (AssetCaps s') a = Some c"
    have "bt_sum (\<lambda>_. cap_held (bt_get (AssetIndexes s)) a) (OnFlightTransfers s) = 0"
      if "a \<notin> ran (bt_get (AssetIndexes s))"
      using that unfolding bt_sum_def by (auto simp: cap_held_def ran_def)
    then show "on_flight_cap c = bt_sum (\<lambda>_. cap_held (bt_get (AssetIndexes s')) a) (OnFlightTransfers s')"
      using caps [of a c] a I(6) by (auto simp: s' sum caps_ok_def)
  qed
  moreover have "maps_wf s'" using I(1) wf by (simp add: maps_wf_def s')
  moreover have "counts_ok s'" using I(5) by (simp add: counts_ok_def s')
  moreover have "stages_ok s'" "voters_ok s'" "messages_ok Q M s'"
    using I(2,3,7) by (simp_all add: stages_ok_def voters_ok_def messages_ok_def s')
  ultimately show ?thesis using ok by (simp add: queue_inv_def)
qed

lemma fold_insert_wf: "bt_wf m \<Longrightarrow> bt_wf (fold (\<lambda>i. bt_insert (f i) (g i)) is m)"
  by (induction "is" arbitrary: m) auto

lemma fold_insert_dom:
  "dom (bt_get (fold (\<lambda>i. bt_insert (f i) (g i)) is m)) = f ` set is \<union> dom (bt_get m)"
  by (induction "is" arbitrary: m) auto

lemma fold_remove_get: "bt_get (fold bt_remove hs m) k = (if k \<in> set hs then None else bt_get m k)"
  by (induction hs arbitrary: m) auto

lemma fold_remove_wf: "bt_wf m \<Longrightarrow> bt_wf (fold bt_remove hs m)"
  by (induction hs arbitrary: m) auto

lemma fold_const_ran:
  "bt_get (fold (\<lambda>i. bt_insert (f i) a) is m) k = (if k \<in> f ` set is then Some a else bt_get m k)"
  by (induction "is" arbitrary: m) auto

lemma fold_remove_dom: "dom (bt_get (fold bt_remove hs m)) = dom (bt_get m) - set hs"
  by (auto simp: fold_remove_get dom_def)

lemmas fold_facts = fold_insert_wf fold_insert_dom fold_remove_get fold_remove_wf fold_const_ran

lemma assets_okD:
  assumes "assets_ok s"
  shows "dom (bt_get (AssetIndexesHookState s)) = dom (bt_get (AssetIndexes s))"
    and "ran (bt_get (AssetIndexes s)) \<subseteq> dom (bt_get (AssetCaps s))"
    and "bt_get (AssetCaps s) a = Some c \<Longrightarrow> on_flight_cap c \<le> max_on_flight_cap c"
    and "bt_get (AssetCaps s) a = Some c \<Longrightarrow> max_on_flight_cap c \<le> MAX_ON_FLIGHT_CAP"
  using assms by (auto simp: assets_ok_def)

lemma put_indexes_keeps:
  assumes inv: "queue_inv Q M s" and a: "bt_get (AssetCaps s) a \<noteq> None"
    and new: "\<And>i. i \<in> set is \<Longrightarrow> bt_get (AssetIndexes s) (ai_hash i) = None"
  shows "queue_inv Q M (put_indexes a is s)"
proof -
  note I = queue_invD [OF inv] and A = assets_okD [OF queue_invD(4) [OF inv]]
  let ?ix = "fold (\<lambda>i. bt_insert (ai_hash i) a) is (AssetIndexes s)"
    and ?hk = "fold (\<lambda>i. bt_insert (ai_hash i) (is_hookable i)) is (AssetIndexesHookState s)"
  show ?thesis
  proof (rule registry_keeps [OF inv, where ix = ?ix and hk = ?hk and caps = "AssetCaps s"])
    show "put_indexes a is s = s\<lparr>AssetIndexes := ?ix, AssetIndexesHookState := ?hk, AssetCaps := AssetCaps s\<rparr>"
      by (simp add: put_indexes_def)
    show "bt_wf ?ix" "bt_wf ?hk" "bt_wf (AssetCaps s)"
      using I(1) by (simp_all add: maps_wf_def fold_facts)
    have "ran (bt_get ?ix) \<subseteq> insert a (ran (bt_get (AssetIndexes s)))"
      by (auto simp: ran_def fold_facts split: if_splits)
    with A a show "assets_ok (put_indexes a is s)"
      by (auto simp: assets_ok_def put_indexes_def fold_insert_dom)
    fix h t assume "bt_get (OnFlightTransfers s) h = Some t" "tx_option t = Fast"
    then have "bt_get (AssetIndexes s) (tx_asset_index_hash t) \<noteq> None"
      using I(6) unfolding caps_ok_def by blast
    with new show "bt_get ?ix (tx_asset_index_hash t) = bt_get (AssetIndexes s) (tx_asset_index_hash t)"
      by (auto simp: fold_facts)
  qed auto
qed

lemma drop_indexes_keeps:
  assumes inv: "queue_inv Q M s" and act: "\<not> has_active_transfers hs s"
  shows "queue_inv Q M (drop_indexes hs s)"
proof -
  note I = queue_invD [OF inv] and A = assets_okD [OF queue_invD(4) [OF inv]]
  have wf: "bt_wf (OnFlightTransfers s)" using I(1) by (simp add: maps_wf_def)
  show ?thesis
  proof (rule registry_keeps [OF inv, where ix = "fold bt_remove hs (AssetIndexes s)"
        and hk = "fold bt_remove hs (AssetIndexesHookState s)" and caps = "AssetCaps s"])
    show "bt_wf (fold bt_remove hs (AssetIndexes s))" "bt_wf (fold bt_remove hs (AssetIndexesHookState s))"
      "bt_wf (AssetCaps s)" using I(1) by (simp_all add: maps_wf_def fold_facts)
    have "ran (bt_get (fold bt_remove hs (AssetIndexes s))) \<subseteq> ran (bt_get (AssetIndexes s))"
      by (auto simp: ran_def fold_facts split: if_splits)
    then show "assets_ok (drop_indexes hs s)"
      using A by (auto simp: assets_ok_def drop_indexes_def fold_remove_dom)
    fix h t assume "bt_get (OnFlightTransfers s) h = Some t"
    then have "tx_asset_index_hash t \<notin> set hs"
      using act bt_wf_get_iff [OF wf] by (force simp: has_active_transfers_def)
    then show "bt_get (fold bt_remove hs (AssetIndexes s)) (tx_asset_index_hash t) =
        bt_get (AssetIndexes s) (tx_asset_index_hash t)" by (simp add: fold_facts)
  qed (auto simp: drop_indexes_def)
qed

text \<open>A cap is set or removed where the amount in use allows it.\<close>

lemma set_cap_keeps:
  assumes inv: "queue_inv Q M s" and c: "on_flight_cap c \<le> max_on_flight_cap c" "max_on_flight_cap c \<le> MAX_ON_FLIGHT_CAP"
    and u: "case bt_get (AssetCaps s) a of None \<Rightarrow> on_flight_cap c = 0 | Some c0 \<Rightarrow> on_flight_cap c = on_flight_cap c0"
  shows "queue_inv Q M (s\<lparr>AssetCaps := bt_insert a c (AssetCaps s)\<rparr>)"
proof -
  note I = queue_invD [OF inv] and A = assets_okD [OF queue_invD(4) [OF inv]]
  show ?thesis
  proof (rule registry_keeps [OF inv, where ix = "AssetIndexes s"
        and hk = "AssetIndexesHookState s" and caps = "bt_insert a c (AssetCaps s)"])
    show "bt_wf (AssetIndexes s)" "bt_wf (AssetIndexesHookState s)" "bt_wf (bt_insert a c (AssetCaps s))"
      using I(1) by (simp_all add: maps_wf_def)
    show "assets_ok (s\<lparr>AssetCaps := bt_insert a c (AssetCaps s)\<rparr>)"
      using A c by (auto simp: assets_ok_def)
    fix b d assume "bt_get (bt_insert a c (AssetCaps s)) b = Some d"
    then show "(\<exists>c0. bt_get (AssetCaps s) b = Some c0 \<and> on_flight_cap d = on_flight_cap c0) \<or>
        (b \<notin> ran (bt_get (AssetIndexes s)) \<and> on_flight_cap d = 0)"
      using u A(2) by (auto split: if_splits option.splits)
  qed auto
qed

lemma drop_cap_keeps:
  assumes inv: "queue_inv Q M s" and a: "a \<notin> ran (bt_get (AssetIndexes s))"
  shows "queue_inv Q M (s\<lparr>AssetCaps := bt_remove a (AssetCaps s)\<rparr>)"
proof -
  note I = queue_invD [OF inv] and A = assets_okD [OF queue_invD(4) [OF inv]]
  show ?thesis
  proof (rule registry_keeps [OF inv, where ix = "AssetIndexes s"
        and hk = "AssetIndexesHookState s" and caps = "bt_remove a (AssetCaps s)"])
    show "bt_wf (AssetIndexes s)" "bt_wf (AssetIndexesHookState s)" "bt_wf (bt_remove a (AssetCaps s))"
      using I(1) by (simp_all add: maps_wf_def)
    show "assets_ok (s\<lparr>AssetCaps := bt_remove a (AssetCaps s)\<rparr>)"
      using A a by (auto simp: assets_ok_def split: if_splits)
  qed (auto split: if_splits)
qed

lemma add_asset_keeps:
  assumes inv: "queue_inv Q M s" and d: "add_asset og a cap is s = Done u s'"
  shows "queue_inv Q M s'"
proof -
  from d obtain ev where n: "bt_get (AssetCaps s) a = None" "cap \<le> MAX_ON_FLIGHT_CAP"
      "\<forall>i\<in>set is. bt_get (AssetIndexes s) (ai_hash i) = None"
    and s': "s' = q_deposit ev (put_indexes a is (s\<lparr>AssetCaps :=
      bt_insert a \<lparr>max_on_flight_cap = cap, on_flight_cap = 0\<rparr> (AssetCaps s)\<rparr>))"
    by (auto simp: add_asset_def Let_def queue_Done bt_contains_def)
  have "queue_inv Q M (s\<lparr>AssetCaps := bt_insert a \<lparr>max_on_flight_cap = cap, on_flight_cap = 0\<rparr> (AssetCaps s)\<rparr>)"
    using n by (intro set_cap_keeps [OF inv]) simp_all
  then show ?thesis unfolding s' queue_inv_deposit by (rule put_indexes_keeps) (use n in simp_all)
qed

lemma remove_asset_keeps:
  assumes inv: "queue_inv Q M s" and d: "remove_asset og a s = Done u s'"
  shows "queue_inv Q M s'"
proof -
  let ?hs = "map fst (filter (\<lambda>e. snd e = a) (AssetIndexes s))"
  from d obtain ev where n: "\<not> has_active_transfers ?hs s"
    and s': "s' = q_deposit ev (drop_indexes ?hs (s\<lparr>AssetCaps := bt_remove a (AssetCaps s)\<rparr>))"
    by (auto simp: remove_asset_def Let_def queue_Done)
  have "a \<notin> ran (bt_get (AssetIndexes (drop_indexes ?hs s)))"
  proof
    assume "a \<in> ran (bt_get (AssetIndexes (drop_indexes ?hs s)))"
    then obtain k where k: "bt_get (AssetIndexes s) k = Some a" "k \<notin> set ?hs"
      by (auto simp: ran_def drop_indexes_def fold_remove_get split: if_splits)
    have "(k, a) \<in> set (AssetIndexes s)" using k(1) by (rule map_of_SomeD)
    then have "k \<in> set ?hs" by force
    with k(2) show False by contradiction
  qed
  from drop_cap_keeps [OF drop_indexes_keeps [OF inv n] this]
  have "queue_inv Q M ((drop_indexes ?hs s)\<lparr>AssetCaps := bt_remove a (AssetCaps s)\<rparr>)"
    by (simp add: drop_indexes_def)
  moreover have "(drop_indexes ?hs s)\<lparr>AssetCaps := bt_remove a (AssetCaps s)\<rparr> =
      drop_indexes ?hs (s\<lparr>AssetCaps := bt_remove a (AssetCaps s)\<rparr>)"
    by (cases s) (simp add: drop_indexes_def)
  ultimately show ?thesis by (simp add: s')
qed

lemma update_cap_keeps:
  assumes inv: "queue_inv Q M s" and c: "bt_get (AssetCaps s) a = Some c" and d: "update_cap a c new s = Done u s'"
  shows "queue_inv Q M s' \<and> bt_get (AssetCaps s') a \<noteq> None"
proof (cases new)
  case (Some n)
  then have s': "s' = s\<lparr>AssetCaps := bt_insert a (c\<lparr>max_on_flight_cap := n\<rparr>) (AssetCaps s)\<rparr>"
    and n: "n \<le> MAX_ON_FLIGHT_CAP" "on_flight_cap c \<le> n"
    using d by (auto simp: update_cap_def queue_Done)
  have "queue_inv Q M s'" unfolding s' using n c by (intro set_cap_keeps [OF inv]) simp_all
  then show ?thesis by (simp add: s')
qed (use inv c d in \<open>auto simp: update_cap_def\<close>)

lemma add_indexes_keeps:
  assumes "queue_inv Q M s" "bt_get (AssetCaps s) a \<noteq> None" "add_indexes a is s = Done u s'"
  shows "queue_inv Q M s'"
  using assms
proof (induction "is" arbitrary: s)
  case (Cons i "is")
  have n: "bt_get (AssetIndexes s) (ai_hash i) = None" and r: "add_indexes a is (put_indexes a [i] s) = Done u s'"
    using Cons.prems(3) by (auto simp: queue_Done bt_contains_def)
  have "queue_inv Q M (put_indexes a [i] s)"
    by (rule put_indexes_keeps [OF Cons.prems(1,2)]) (use n in simp)
  moreover have "bt_get (AssetCaps (put_indexes a [i] s)) a \<noteq> None"
    using Cons.prems(2) by (simp add: put_indexes_def)
  ultimately show ?case using Cons.IH r by blast
qed simp

lemma update_indexes_keeps:
  assumes "queue_inv Q M s" "update_indexes is s = Done u s'"
  shows "queue_inv Q M s'"
  using assms
proof (induction "is" arbitrary: s)
  case (Cons i "is")
  let ?s = "s\<lparr>AssetIndexesHookState := bt_insert (ai_hash i) (is_hookable i) (AssetIndexesHookState s)\<rparr>"
  have n: "ai_hash i \<in> dom (bt_get (AssetIndexesHookState s))" and r: "update_indexes is ?s = Done u s'"
    using Cons.prems(2) by (auto simp: queue_Done bt_contains_def)
  note I = queue_invD [OF Cons.prems(1)]
  have "assets_ok ?s" using I(4) n by (auto simp: assets_ok_def)
  then have "queue_inv Q M ?s"
    by (rule registry_keeps [OF Cons.prems(1), where ix = "AssetIndexes s" and caps = "AssetCaps s", rotated 4])
      (use I(1) in \<open>auto simp: maps_wf_def\<close>)
  with r Cons.IH show ?case by blast
qed simp

lemma check_owned_state: "check_owned a hs s = Done u s' \<Longrightarrow> s' = s"
  by (induction hs) (auto simp: queue_Done)

lemma remove_indexes_keeps:
  "queue_inv Q M s \<Longrightarrow> remove_indexes a hs s = Done u s' \<Longrightarrow> queue_inv Q M s'"
  using drop_indexes_keeps by (auto simp: remove_indexes_def queue_Done dest!: check_owned_state)

lemma q_opt_Done: "q_opt f v s = Done u s' \<longleftrightarrow> (case v of None \<Rightarrow> s' = s | Some x \<Rightarrow> f x s = Done u s')"
  by (auto simp: q_opt_def split: option.splits)

lemma update_asset_keeps:
  assumes inv: "queue_inv Q M s" and d: "update_asset og a cap add upd rm s = Done u s'"
  shows "queue_inv Q M s'"
proof -
  from d obtain c s1 s2 s3 s4 ev u1 u2 u3 u4 where c: "bt_get (AssetCaps s) a = Some c"
    and 1: "update_cap a c cap s = Done u1 s1" and 2: "q_opt (add_indexes a) add s1 = Done u2 s2"
    and 3: "q_opt update_indexes upd s2 = Done u3 s3" and 4: "q_opt (remove_indexes a) rm s3 = Done u4 s4"
    and s': "s' = q_deposit ev s4"
    unfolding update_asset_def by (auto simp: queue_Done)
  note i1 = update_cap_keeps [OF inv c 1]
  then have "queue_inv Q M s2" using 2 by (auto simp: q_opt_Done dest: add_indexes_keeps split: option.splits)
  then have "queue_inv Q M s3" using 3 by (auto simp: q_opt_Done dest: update_indexes_keeps split: option.splits)
  then have "queue_inv Q M s4" using 4 by (auto simp: q_opt_Done dest: remove_indexes_keeps split: option.splits)
  then show ?thesis by (simp add: s')
qed

subsection \<open>Replacing a relayer\<close>

text \<open>The new account of a relayer has no vote of its own in the queue.\<close>

definition unvoted :: "acct \<Rightarrow> relay_queue \<Rightarrow> bool" where
  "unvoted a s \<longleftrightarrow>
     (\<forall>e\<in>set (PendingTransfers s). a \<notin> set (ti_on_flight_voters (snd e))) \<and>
     (\<forall>e\<in>set (OnFlightTransfers s). a \<notin> set (tx_finalization_voters (snd e)))"

lemma set_rename: "distinct vs \<Longrightarrow> set (rename_voter old new vs) =
    (if old \<in> set vs then insert new (set vs - {old}) else set vs)"
  by (induction vs) auto

lemma distinct_rename: "distinct vs \<Longrightarrow> new \<notin> set vs \<Longrightarrow> distinct (rename_voter old new vs)"
  by (induction vs) (auto simp: set_rename split: if_splits)

lemma length_rename [simp]: "length (rename_voter old new vs) = length vs"
  by (induction vs) auto

lemma rename_Nil [simp]: "rename_voter old new vs = [] \<longleftrightarrow> vs = []"
  by (cases vs) auto

lemma hd_rename: "vs \<noteq> [] \<Longrightarrow> hd (rename_voter old new vs) = (if hd vs = old then new else hd vs)"
  by (cases vs) auto

lemma bt_get_map: "bt_get (map (\<lambda>(k, v). (k, f v)) m) k = map_option f (bt_get m k)"
  by (simp add: map_of_map)

lemma bt_sum_map: "bt_sum (\<lambda>k. g k) (map (\<lambda>(k, v). (k, f v)) m) = bt_sum (\<lambda>k v. g k (f v)) m"
  unfolding bt_sum_def map_map by (rule arg_cong [where f = sum_list], rule map_cong) auto

lemma bt_sum_zero: "bt_sum (\<lambda>_ _. 0) m = 0"
  by (induction m) (auto simp: bt_sum_def)

lemma cap_held_renamed: "cap_held ix a (t\<lparr>tx_finalization_voters := vs\<rparr>) = cap_held ix a t"
  by (simp add: cap_held_def)

lemma renamed_counts:
  assumes c: "counts_ok s" and new: "unvoted new s" "old \<noteq> new"
  shows "counts_ok (q_replace_authority old new s)"
proof -
  note cnt = counts_okD [OF c]
  let ?rn = "\<lambda>i. i\<lparr>ti_on_flight_voters := rename_voter old new (ti_on_flight_voters i)\<rparr>"
  have intro: "introduced a (?rn i) =
      (if a = new then introduced old i else if a = old then 0 else introduced a i)"
    if "(k, i) \<in> set (PendingTransfers s)" for a k i
  proof -
    have "new \<notin> set (ti_on_flight_voters i)" using that new(1) by (force simp: unvoted_def)
    then show ?thesis
      using new(2) hd_in_set [of "ti_on_flight_voters i"] by (auto simp: introduced_def hd_rename)
  qed
  have "bt_sum (\<lambda>_ i. introduced a (?rn i)) (PendingTransfers s) =
      (if a = new then PendingTransferCount s old else if a = old then 0 else PendingTransferCount s a)" for a
  proof -
    have "bt_sum (\<lambda>_ i. introduced a (?rn i)) (PendingTransfers s) =
        bt_sum (\<lambda>_. if a = new then introduced old else if a = old then (\<lambda>_. 0) else introduced a) (PendingTransfers s)"
      by (rule bt_sum_cong) (simp_all add: intro)
    also have "\<dots> = (if a = new then PendingTransferCount s old else if a = old then 0 else PendingTransferCount s a)"
      using cnt(1) by (simp add: bt_sum_def)
    finally show ?thesis .
  qed
  moreover have "PendingTransferCount s new = 0"
  proof -
    have "bt_sum (\<lambda>_. introduced new) (PendingTransfers s) = bt_sum (\<lambda>_ _. 0) (PendingTransfers s)"
      using new(1) by (intro bt_sum_cong) (auto simp: introduced_def unvoted_def dest: hd_in_set)
    then show ?thesis using cnt(1) [of new] by (simp add: bt_sum_zero)
  qed
  ultimately show ?thesis
    using cnt(2) new(2) unfolding counts_ok_def q_replace_authority_def Let_def
    by (auto simp: bt_sum_map)
qed

lemma replace_authority_keeps:
  assumes inv: "queue_inv Q M s" and new: "unvoted new s" "old \<noteq> new"
  shows "queue_inv Q M (q_replace_authority old new s)" (is "queue_inv Q M ?s")
proof -
  note I = queue_invD [OF inv]
  have "counts_ok ?s"
    by (rule renamed_counts [OF I(5) new])
  moreover have "caps_ok ?s"
    using I(6) unfolding caps_ok_def
    by (auto simp: q_replace_authority_def Let_def bt_get_map bt_sum_map cap_held_renamed)
  moreover have "ti_on_flight_voters i \<noteq> [] \<and> distinct (rename_voter old new (ti_on_flight_voters i)) \<and>
      length (ti_on_flight_voters i) \<le> MAX_AUTHORITIES" if "bt_get (PendingTransfers s) k = Some i" for k i
  proof -
    have "new \<notin> set (ti_on_flight_voters i)" using map_of_SomeD [OF that] new(1) by (force simp: unvoted_def)
    moreover have "ti_on_flight_voters i \<noteq> [] \<and> distinct (ti_on_flight_voters i) \<and>
      length (ti_on_flight_voters i) \<le> MAX_AUTHORITIES" using I(3) that unfolding voters_ok_def by blast
    ultimately show ?thesis by (simp add: distinct_rename)
  qed
  moreover have "distinct (rename_voter old new (tx_finalization_voters t)) \<and>
      length (tx_finalization_voters t) \<le> MAX_AUTHORITIES" if "bt_get (OnFlightTransfers s) h = Some t" for h t
  proof -
    have "new \<notin> set (tx_finalization_voters t)" using map_of_SomeD [OF that] new(1) by (force simp: unvoted_def)
    moreover have "distinct (tx_finalization_voters t) \<and> length (tx_finalization_voters t) \<le> MAX_AUTHORITIES"
      using I(3) that unfolding voters_ok_def by blast
    ultimately show ?thesis by (simp add: distinct_rename)
  qed
  ultimately have "voters_ok ?s" "counts_ok ?s" "caps_ok ?s"
    by (auto simp: voters_ok_def q_replace_authority_def Let_def bt_get_map)
  moreover have "messages_ok Q M ?s" "stages_ok ?s"
    using I(7,2) by (auto simp: messages_ok_def stages_ok_def q_replace_authority_def Let_def bt_get_map)
  moreover have "maps_wf ?s" "assets_ok ?s"
    using I(1,4) by (simp_all add: maps_wf_def assets_ok_def q_replace_authority_def Let_def)
  ultimately show ?thesis by (simp add: queue_inv_def)
qed

subsection \<open>Runs\<close>

datatype queue_op = QCall QEnv origin queue_call | QReplace acct acct

text \<open>A call that fails is rolled back; a panic aborts the block (\<open>None\<close>).\<close>

definition queue_exec :: "QConfig \<Rightarrow> queue_op \<Rightarrow> relay_queue \<Rightarrow> relay_queue option" where
  "queue_exec Q w s =
     (case w of
        QCall E og c \<Rightarrow> (case queue_call_run Q E og c s of Done _ s' \<Rightarrow> Some s' | Fail _ _ \<Rightarrow> Some s | Panic \<Rightarrow> None)
      | QReplace old new \<Rightarrow> Some (q_replace_authority old new s))"

text \<open>The message a vote is about, in its requested form.\<close>

definition polled_message :: "QConfig \<Rightarrow> queue_call \<Rightarrow> SocketMessage option" where
  "polled_message Q c =
     (case c of
        OnFlightPoll sub _ \<Rightarrow>
          (case SocketMessage_try_from (q_codec Q) (op_msg sub) of Parsed m \<Rightarrow> Some m | _ \<Rightarrow> None)
      | FinalizePoll sub _ \<Rightarrow>
          (case SocketMessage_try_from (q_codec Q) (fp_msg sub) of Parsed m \<Rightarrow> Some (m\<lparr>sm_status := 1\<rparr>) | _ \<Rightarrow> None)
      | _ \<Rightarrow> None)"

text \<open>
  Runs whose messages lie in \<open>M\<close>, and in which a relayer moves to an account that has not voted.
\<close>

definition queue_guard :: "QConfig \<Rightarrow> SocketMessage set \<Rightarrow> queue_op \<Rightarrow> relay_queue \<Rightarrow> bool" where
  "queue_guard Q M w s =
     (case w of
        QCall E og c \<Rightarrow> opt_all (\<lambda>m. m \<in> M) (polled_message Q c)
      | QReplace old new \<Rightarrow> old \<noteq> new \<and> unvoted new s)"

definition queue_default :: relay_queue where
  "queue_default = \<lparr>Socket = None, AssetIndexesHookState = [], AssetIndexes = [], AssetCaps = [],
     PendingTransfers = [], PendingTransferCount = (\<lambda>_. 0), OnFlightTransfers = [],
     FinalizedTransfers = [], QEvents = []\<rparr>"

inductive queue_reachable :: "QConfig \<Rightarrow> SocketMessage set \<Rightarrow> relay_queue \<Rightarrow> bool"
  for Q M where
  queue_start: "queue_reachable Q M queue_default"
| queue_move: "queue_reachable Q M s \<Longrightarrow> queue_guard Q M w s \<Longrightarrow> queue_exec Q w s = Some s' \<Longrightarrow>
    queue_reachable Q M s'"

inductive_cases queue_reachableE: "queue_reachable Q M s"

lemma queue_default_inv: "queue_inv Q M queue_default"
  by (simp add: queue_inv_defs queue_default_def bt_sum_def)

lemma queue_call_keeps:
  assumes inv: "queue_inv Q M s" and inj: "inj_on (msg_key Q) M"
    and g: "opt_all (\<lambda>m. m \<in> M) (polled_message Q c)" and d: "queue_call_run Q E og c s = Done u s'"
  shows "queue_inv Q M s'"
proof (cases c)
  case (OnFlightPoll sub sig)
  with g d show ?thesis
    by (intro on_flight_poll_keeps [OF inv inj, where sub = sub])
      (auto simp: opt_all_def polled_message_def queue_call_run_def)
next
  case (FinalizePoll sub sig)
  with g d show ?thesis
    by (intro finalize_poll_keeps [OF inv inj, where sub = sub])
      (auto simp: opt_all_def polled_message_def queue_call_run_def)
next
  case (SetSocket new)
  with d inv show ?thesis by (auto simp: queue_call_run_def set_socket_def queue_Done)
qed (use d inv in \<open>auto simp: queue_call_run_def dest: add_asset_keeps remove_asset_keeps update_asset_keeps\<close>)

lemma queue_exec_keeps:
  assumes "queue_inv Q M s" "inj_on (msg_key Q) M" "queue_guard Q M w s" "queue_exec Q w s = Some s'"
  shows "queue_inv Q M s'"
  using assms queue_call_keeps replace_authority_keeps
  by (cases w) (auto simp: queue_exec_def queue_guard_def split: outcome.splits)

lemma queue_reachable_inv:
  "queue_reachable Q M s \<Longrightarrow> inj_on (msg_key Q) M \<Longrightarrow> queue_inv Q M s"
  by (induction rule: queue_reachable.induct) (auto intro: queue_default_inv queue_exec_keeps)

subsection \<open>The stages of a transfer\<close>

text \<open>
  The contract of the queue: a transfer is unseen (possibly with pending votes), then on flight,
  then finalized, and never goes back.
\<close>

datatype stage = Unseen | OnFlight | Finalized

definition stage_of :: "relay_queue \<Rightarrow> H256 \<Rightarrow> stage" where
  "stage_of s h =
     (if bt_contains h (FinalizedTransfers s) then Finalized
      else if bt_contains h (OnFlightTransfers s) then OnFlight else Unseen)"

inductive stage_step :: "stage \<Rightarrow> stage \<Rightarrow> bool" where
  stage_stay: "stage_step x x"
| stage_approve: "stage_step Unseen OnFlight"
| stage_finalize: "stage_step OnFlight Finalized"

inductive_simps stage_step_simps: "stage_step x y"

text \<open>Operations on the registry leave the transfers alone.\<close>

definition same_transfers :: "relay_queue \<Rightarrow> relay_queue \<Rightarrow> bool" where
  "same_transfers s s' \<longleftrightarrow> OnFlightTransfers s' = OnFlightTransfers s \<and>
     FinalizedTransfers s' = FinalizedTransfers s \<and> PendingTransfers s' = PendingTransfers s"

lemma same_transfers_trans: "same_transfers s t \<Longrightarrow> same_transfers t u \<Longrightarrow> same_transfers s u"
  by (simp add: same_transfers_def)

lemma add_indexes_same: "add_indexes a is s = Done u s' \<Longrightarrow> same_transfers s s'"
  by (induction "is" arbitrary: s) (auto simp: queue_Done same_transfers_def put_indexes_def)

lemma update_indexes_same: "update_indexes is s = Done u s' \<Longrightarrow> same_transfers s s'"
  by (induction "is" arbitrary: s) (auto simp: queue_Done same_transfers_def)

lemma update_cap_same: "update_cap a c n s = Done u s' \<Longrightarrow> same_transfers s s'"
  by (auto simp: update_cap_def queue_Done same_transfers_def split: option.splits)

lemma remove_indexes_same: "remove_indexes a hs s = Done u s' \<Longrightarrow> same_transfers s s'"
  by (auto simp: remove_indexes_def queue_Done same_transfers_def drop_indexes_def dest!: check_owned_state)

lemma update_asset_same:
  assumes "update_asset og a cap add upd rm s = Done u s'"
  shows "same_transfers s s'"
proof -
  from assms obtain c s1 s2 s3 s4 ev u1 u2 u3 u4 where
    "update_cap a c cap s = Done u1 s1" "q_opt (add_indexes a) add s1 = Done u2 s2"
    "q_opt update_indexes upd s2 = Done u3 s3" "q_opt (remove_indexes a) rm s3 = Done u4 s4"
    and s': "s' = q_deposit ev s4"
    unfolding update_asset_def by (auto simp: queue_Done)
  then have "same_transfers s s1" "same_transfers s1 s2" "same_transfers s2 s3" "same_transfers s3 s4"
    by (auto simp: q_opt_Done same_transfers_def [of x x for x] split: option.splits
        intro: update_cap_same add_indexes_same update_indexes_same remove_indexes_same)
  then have "same_transfers s s4" by (blast intro: same_transfers_trans)
  then show ?thesis by (simp add: s' same_transfers_def q_deposit_def)
qed

lemma registry_call_same:
  assumes "queue_call_run Q E og c s = Done u s'" "polled_message Q c = None"
  shows "same_transfers s s'"
proof (cases c)
  case (UpdateAsset a cap add upd rm)
  with assms show ?thesis by (auto simp: queue_call_run_def intro: update_asset_same)
qed (use assms in \<open>auto simp: queue_call_run_def polled_message_def set_socket_def add_asset_def remove_asset_def
      on_flight_poll_def finalize_poll_def put_indexes_def drop_indexes_def q_deposit_def same_transfers_def
      Let_def queue_Done split: parse.splits\<close>)

end
