(* ===== verification/Queue_Sample.thy ===== *)
theory Queue_Sample
  imports Relay_Queue_Run
begin

text \<open>
  A concrete instance of the relay queue's parameters and a run on it: one inbound message, encoded
  as its status byte, an asset with a cap of 100, and two relayers that vote it on flight.
\<close>

definition sample_message :: "U256 \<Rightarrow> SocketMessage" where
  "sample_message st =
     \<lparr>req_id = \<lparr>rq_chain = [0, 0, 0, 3], rq_round_id = 1, rq_sequence = 5\<rparr>, sm_status = st,
      ins_code = \<lparr>in_chain = [0, 0, 0, 1], in_method = replicate 16 0\<rparr>,
      sm_params = \<lparr>token_idx0 = replicate 32 0, token_idx1 = replicate 32 0, tp_refund = 0, tp_to = 0,
        tp_amount = 10, tp_variants = []\<rparr>\<rparr>"

definition sample_decode :: "ParamKind list \<Rightarrow> bytes \<Rightarrow> Token list option" where
  "sample_decode ks bs =
     (if ks = socket_kind then
        (case bs of [] \<Rightarrow> None | b # _ \<Rightarrow> Some (message_tokens (sample_message (ucast b))))
      else
        Some [FixedArray (replicate 32 (Uint (case bs of [] \<Rightarrow> 0 | b # _ \<Rightarrow> ucast b))),
              FixedBytes (replicate 32 0), Uint 0])"

definition sample_encode :: "Token list \<Rightarrow> bytes" where
  "sample_encode ts = (case ts of [Tuple (_ # Uint st # _)] \<Rightarrow> [ucast st] | _ \<Rightarrow> [])"

definition sample_queue :: QConfig where
  "sample_queue =
     \<lparr>q_codec = \<lparr>abi_decode = sample_decode, abi_encode = sample_encode\<rparr>,
      keccak_256 = (\<lambda>bs. of_nat (be_nat bs)), bytes2hex = (\<lambda>_. []), hex2bytes = (\<lambda>_. Some []),
      evm_chain_id = 1\<rparr>"

definition sample_qenv :: "nat \<Rightarrow> 8 word \<Rightarrow> QEnv" where
  "sample_qenv n st =
     \<lparr>q_is_authority = (\<lambda>_. True), q_majority = n,
      view_call = (\<lambda>_ _. Some (True, st # replicate 1087 0)), max_socket_message_bytes = 64\<rparr>"

definition sample_poll :: "acct \<Rightarrow> OnFlightPollSubmission" where
  "sample_poll a = \<lparr>op_authority_id = a, op_msg = [1], op_msg_hash = 1, op_src_tx_id = 77\<rparr>"

definition sample_final :: "acct \<Rightarrow> FinalizePollSubmission" where
  "sample_final a = \<lparr>fp_authority_id = a, fp_msg = [7]\<rparr>"

definition sample_msgs :: "SocketMessage set" where "sample_msgs = {sample_message 1}"

definition sample_registered :: relay_queue where
  "sample_registered = queue_default\<lparr>Socket := Some 9, AssetIndexes := [(0, 7)],
     AssetIndexesHookState := [(0, True)], AssetCaps := [(7, \<lparr>max_on_flight_cap = 100, on_flight_cap = 0\<rparr>)],
     QEvents := [SocketSet 9, AssetAdded 7 100 [0]]\<rparr>"

definition sample_info :: "acct list \<Rightarrow> TransferInfo" where
  "sample_info vs = \<lparr>ti_amount = 10, ti_sequence_id = 5, ti_src_chain_id = 3, ti_dst_chain_id = 1,
     ti_asset_index_hash = 0, ti_option = Fast, ti_socket_message = [1], ti_on_flight_voters = vs\<rparr>"

definition sample_pending :: relay_queue where
  "sample_pending = sample_registered\<lparr>PendingTransfers := [((1, 77), sample_info [4])],
     PendingTransferCount := (\<lambda>_. 0)(4 := 1),
     QEvents := QEvents sample_registered @ [TransferPolled 0 5 3 1 4 Fast 10 False]\<rparr>"

definition sample_flight :: relay_queue where
  "sample_flight = sample_registered\<lparr>PendingTransferCount := (\<lambda>_. 0)(4 := 0),
     AssetCaps := [(7, \<lparr>max_on_flight_cap = 100, on_flight_cap = 10\<rparr>)],
     OnFlightTransfers := [(1, from_transfer_info (sample_info [4, 2]) 77)],
     QEvents := QEvents sample_pending @ [TransferPolled 0 5 3 1 2 Fast 10 True]\<rparr>"

lemma sample_keys_inj: "inj_on (msg_key sample_queue) sample_msgs"
  by (simp add: sample_msgs_def)

subsection \<open>Evaluating the run\<close>

lemma uints_replicate [simp]: "uints (replicate n (Uint v)) = Some (replicate n v)"
  by (induction n) auto

lemma zero_bytes [simp]: "be_nat (replicate n 0) = 0"
proof -
  have "foldl (\<lambda>n b. n * 256 + unat b) 0 (replicate n (0 :: 8 word)) = 0" by (induction n) auto
  then show ?thesis by (simp add: be_nat_def)
qed

lemma sample_parse [simp]:
  "SocketMessage_try_from (q_codec sample_queue) (b # bs) = Parsed (sample_message (ucast b))"
  by (simp add: SocketMessage_try_from_def sample_queue_def sample_decode_def message_tokens_def
      req_id_tokens_def instruction_tokens_def params_tokens_def sample_message_def)

lemma sample_request [simp]:
  "Socket s = Some a \<Longrightarrow> try_get_request sample_queue (sample_qenv n st) r s =
     Done \<lparr>ri_field = replicate 32 (ucast st), ri_msg_hash = 0, ri_registered_time = 0\<rparr> s"
  by (simp add: try_get_request_def ok_or_def ensure_def q_parsed_def sample_queue_def sample_qenv_def
      RequestInfo_try_from_def sample_decode_def request_kind_def socket_kind_def h256_from_slice_def)

lemma sample_key [simp]: "hash_bytes sample_queue [b] = ucast b"
  by (simp add: hash_bytes_def sample_queue_def be_nat_def)

lemma sample_message_key [simp]:
  "SocketMessage_encode (q_codec sample_queue) (sample_message st) = [ucast st]"
  "(sample_message st)\<lparr>sm_status := st'\<rparr> = sample_message st'"
  by (simp_all add: SocketMessage_encode_def sample_queue_def sample_encode_def message_tokens_def sample_message_def)

lemma sample_existence [simp]:
  "Socket s = Some a \<Longrightarrow> validate_on_chain_existence sample_queue (sample_qenv n st) (sample_message v) s =
     Done \<lparr>ri_field = replicate 32 (ucast st), ri_msg_hash = 0, ri_registered_time = 0\<rparr> s"
  by (simp add: validate_on_chain_existence_def ensure_def is_msg_hash_def UserRequest_encode_def
      hash_bytes_def sample_queue_def [THEN arg_cong, of keccak_256] sample_queue_def [THEN arg_cong, of q_codec]
      sample_encode_def instruction_tokens_def params_tokens_def be_nat_def)

lemma sample_setup_run:
  "queue_exec sample_queue (QCall (sample_qenv 2 0) Root (SetSocket 9)) queue_default =
     Some (queue_default\<lparr>Socket := Some 9, QEvents := [SocketSet 9]\<rparr>)"
  "queue_exec sample_queue (QCall (sample_qenv 2 0) Root (AddAsset 7 100 [\<lparr>ai_hash = 0, is_hookable = True\<rparr>]))
     (queue_default\<lparr>Socket := Some 9, QEvents := [SocketSet 9]\<rparr>) = Some sample_registered"
  by (simp_all add: queue_exec_def queue_call_run_def set_socket_def add_asset_def q_root_def ensure_def
      q_deposit_def queue_default_def sample_registered_def put_indexes_def bt_contains_def Let_def
      MAX_ON_FLIGHT_CAP_def MAX_ASSET_INDEXES_PER_CALL_def)

lemma sample_poll_parse [simp]:
  "validate_and_parse_socket_message sample_queue [1] sm_is_requested s = Done (sample_message 1) s"
  by (simp add: validate_and_parse_socket_message_def ensure_def q_parsed_def sm_is_requested_def)
    (simp add: sample_message_def)

lemma sample_fields [simp]:
  "rq_chain (req_id (sample_message st)) = [0, 0, 0, 3]" "in_chain (ins_code (sample_message st)) = [0, 0, 0, 1]"
  "rq_sequence (req_id (sample_message st)) = 5" "tp_amount (sm_params (sample_message st)) = 10"
  "token_idx0 (sm_params (sample_message st)) = replicate 32 0" "sm_status (sample_message st) = st"
  by (simp_all add: sample_message_def)

lemma sample_ids [simp]:
  "u32_from_be_slice [0, 0, 0, 3] = Some 3" "u32_from_be_slice [0, 0, 0, 1] = Some 1"
  "balance_of_u256 10 = Some 10"
  "is_outbound (ucast (evm_chain_id sample_queue)) (sample_message st) = False"
  by (simp_all add: u32_from_be_slice_def balance_of_u256_def be_nat_def M128_def
      is_outbound_def u32_to_be_bytes_def sample_queue_def)

lemma sample_index [simp]: "h256_from_slice (replicate 32 0) = Some 0"
  by (simp add: h256_from_slice_def)

lemmas queue_eval = ensure_def ok_or_def expect_def q_deposit_def bt_contains_def Let_def
  poll_vote_def poll_store_def add_voter_to_list_def try_push_def MAX_AUTHORITIES_def
  determine_transfer_option_def update_fast_transfer_cap_def checked_add256_def u256_of_balance_def
  get_asset_info_def as_u32_def M32_def clear_pending_def pending_of_def release_submitter_def add32_def
  MAX_PENDING_TRANSFERS_PER_RELAYER_def

lemma sample_code [simp]:
  "ri_code \<lparr>ri_field = replicate 32 v, ri_msg_hash = h, ri_registered_time = t\<rparr> = Some v"
  by (simp add: ri_code_def numeral_eq_Suc)

lemma sample_on_chain [simp]:
  "Socket s = Some a \<Longrightarrow> poll_on_chain sample_queue (sample_qenv 2 0) (sample_message v) s = Done () s"
  by (simp add: poll_on_chain_def expect_def ensure_def)

lemma sample_vote_1:
  "on_flight_poll sample_queue (sample_qenv 2 0) NoOrigin (sample_poll 4) sample_registered = Done () sample_pending"
  by (simp add: on_flight_poll_def sample_poll_def queue_eval sample_registered_def sample_pending_def
      queue_default_def sample_qenv_def [THEN arg_cong, of q_majority] sample_info_def)

lemma sample_vote_2:
  "on_flight_poll sample_queue (sample_qenv 2 0) NoOrigin (sample_poll 2) sample_pending = Done () sample_flight"
  by (simp add: on_flight_poll_def sample_poll_def queue_eval sample_registered_def sample_pending_def sample_flight_def
      queue_default_def sample_qenv_def [THEN arg_cong, of q_majority] sample_info_def from_transfer_info_def)

lemma sample_guard: "queue_guard sample_queue sample_msgs (QCall E og (OnFlightPoll (sample_poll a) sig)) s"
  by (simp add: queue_guard_def opt_all_def polled_message_def sample_poll_def sample_msgs_def)

lemma sample_registered_reachable: "queue_reachable sample_queue sample_msgs sample_registered"
  by (rule queue_move [OF queue_move [OF queue_start _ sample_setup_run(1)] _ sample_setup_run(2)])
    (simp_all add: queue_guard_def opt_all_def polled_message_def)

lemma sample_pending_reachable: "queue_reachable sample_queue sample_msgs sample_pending"
  by (rule queue_move [OF sample_registered_reachable sample_guard
        [where E = "sample_qenv 2 0" and og = NoOrigin and a = 4 and sig = "[]"]])
    (simp add: queue_exec_def queue_call_run_def sample_vote_1)

lemma sample_exec:
  "queue_exec sample_queue (QCall (sample_qenv 2 0) NoOrigin (OnFlightPoll (sample_poll 2) [])) sample_pending =
   Some sample_flight"
  by (simp add: queue_exec_def queue_call_run_def sample_vote_2)

lemma sample_flight_reachable: "queue_reachable sample_queue sample_msgs sample_flight"
  by (rule queue_move [OF sample_pending_reachable sample_guard sample_exec])

lemma sample_finalize:
  "SocketMessage_try_from (q_codec sample_queue) (fp_msg (sample_final a)) = Parsed (sample_message 7)"
  "finalize_status (sample_message 7)"
  "inbound_status \<lparr>ri_field = replicate 32 5, ri_msg_hash = 0, ri_registered_time = 0\<rparr> (sample_message 7)"
  by (simp_all add: sample_final_def finalize_status_def inbound_status_def sm_is_committed_def
      ri_is_accepted_def sm_is_accepted_def)

end
