(* ===== verification/Codec_Shapes.thy ===== *)
theory Codec_Shapes
  imports Cccp
begin

text \<open>
  What the ABI decoder promises: the tokens it returns have the shapes it was asked for. Parsing a
  socket message or a request then never panics.
\<close>

fun shaped :: "ParamKind \<Rightarrow> Token \<Rightarrow> bool" where
  "shaped (KTuple ks) t = (case t of Tuple ts \<Rightarrow> list_all2 shaped ks ts | _ \<Rightarrow> False)"
| "shaped (KFixedBytes n) t = (case t of FixedBytes b \<Rightarrow> length b = n | _ \<Rightarrow> False)"
| "shaped (KUint n) t = (case t of Uint _ \<Rightarrow> True | _ \<Rightarrow> False)"
| "shaped KAddress t = (case t of Address _ \<Rightarrow> True | _ \<Rightarrow> False)"
| "shaped KBytes t = (case t of Bytes _ \<Rightarrow> True | _ \<Rightarrow> False)"
| "shaped (KFixedArray k n) t = (case t of FixedArray ts \<Rightarrow> length ts = n \<and> (\<forall>u\<in>set ts. shaped k u) | _ \<Rightarrow> False)"

definition codec_shapes :: "Codec \<Rightarrow> bool" where
  "codec_shapes K \<longleftrightarrow>
     (\<forall>bs ts. abi_decode K socket_kind bs = Some ts \<longrightarrow> list_all2 shaped socket_kind ts) \<and>
     (\<forall>bs ts. abi_decode K request_kind bs = Some ts \<longrightarrow> list_all2 shaped request_kind ts)"

lemma shaped_inv [simp]:
  "shaped (KTuple ks) t \<longleftrightarrow> (\<exists>ts. t = Tuple ts \<and> list_all2 shaped ks ts)"
  "shaped (KFixedBytes n) t \<longleftrightarrow> (\<exists>b. t = FixedBytes b \<and> length b = n)"
  "shaped (KUint n) t \<longleftrightarrow> (\<exists>v. t = Uint v)"
  "shaped KAddress t \<longleftrightarrow> (\<exists>a. t = Address a)"
  "shaped KBytes t \<longleftrightarrow> (\<exists>b. t = Bytes b)"
  "shaped (KFixedArray k n) t \<longleftrightarrow> (\<exists>ts. t = FixedArray ts \<and> length ts = n \<and> (\<forall>u\<in>set ts. shaped k u))"
  by (cases t; simp)+

declare shaped.simps [simp del]

lemma socket_parse_safe:
  assumes "codec_shapes K"
  shows "SocketMessage_try_from K bs \<noteq> Crash"
    and "SocketMessage_try_from K bs = Parsed m \<Longrightarrow> length (token_idx0 (sm_params m)) = 32"
proof -
  have s: "list_all2 shaped socket_kind ts" if "abi_decode K socket_kind bs = Some ts" for ts
    using assms that by (simp add: codec_shapes_def)
  have p: "length (token_idx0 p) = 32"
    if "list_all2 shaped [KFixedBytes 32, KFixedBytes 32, KAddress, KAddress, KUint 256, KBytes] ts"
      "TaskParams_try_from ts = Some p" for ts p
    using that by (auto simp: list_all2_Cons1)
  show "SocketMessage_try_from K bs \<noteq> Crash"
    using s by (auto simp: SocketMessage_try_from_def socket_kind_def split: option.splits list.splits)
  show "length (token_idx0 (sm_params m)) = 32" if "SocketMessage_try_from K bs = Parsed m"
    using s that p
    by (auto simp: SocketMessage_try_from_def socket_kind_def list_all2_Cons1 bind_eq_Some_conv
        split: option.splits list.splits)
qed

lemma uints_length: "uints ts = Some ns \<Longrightarrow> length ns = length ts"
  by (induction ts arbitrary: ns) (auto simp: bind_eq_Some_conv)

lemma request_parse_safe:
  assumes "codec_shapes K"
  shows "RequestInfo_try_from K bs \<noteq> Crash"
    and "RequestInfo_try_from K bs = Parsed i \<Longrightarrow> ri_code i \<noteq> None"
proof -
  have s: "list_all2 shaped request_kind ts" if "abi_decode K request_kind bs = Some ts" for ts
    using assms that by (simp add: codec_shapes_def)
  show "RequestInfo_try_from K bs \<noteq> Crash"
    using s by (auto simp: RequestInfo_try_from_def request_kind_def list_all2_Cons1 h256_from_slice_def
        split: option.splits)
  show "ri_code i \<noteq> None" if "RequestInfo_try_from K bs = Parsed i"
    using s that by (auto simp: RequestInfo_try_from_def request_kind_def list_all2_Cons1 ri_code_def
        split: option.splits list.splits dest!: uints_length)
qed

end
