(* ===== verification/Queue_Properties.thy ===== *)
theory Queue_Properties
  imports Queue_Sample Codec_Shapes
begin

text \<open>
  What the relay queue guarantees: the stages of a transfer, the accounting of caps, the bound on
  pending transfers, the effect of a poll, the progress of finalization and the absence of panics.
\<close>

subsection \<open>Stages\<close>

text \<open>A step that promotes or finalizes the transfer \<open>h\<close>, with its quorum.\<close>

definition approves :: "QConfig \<Rightarrow> queue_op \<Rightarrow> H256 \<Rightarrow> relay_queue \<Rightarrow> bool" where
  "approves Q w h s' \<longleftrightarrow>
     (\<exists>E sub sig t. w = QCall E NoOrigin (OnFlightPoll sub sig) \<and> op_msg_hash sub = h \<and>
        bt_get (OnFlightTransfers s') h = Some t \<and> distinct (tx_on_flight_voters t) \<and>
        q_majority E \<le> length (tx_on_flight_voters t) \<and> op_authority_id sub \<in> set (tx_on_flight_voters t))"

definition finalizes :: "QConfig \<Rightarrow> queue_op \<Rightarrow> H256 \<Rightarrow> relay_queue \<Rightarrow> bool" where
  "finalizes Q w h s' \<longleftrightarrow>
     (\<exists>E sub sig t m. w = QCall E NoOrigin (FinalizePoll sub sig) \<and>
        SocketMessage_try_from (q_codec Q) (fp_msg sub) = Parsed m \<and> h = msg_key Q (m\<lparr>sm_status := 1\<rparr>) \<and>
        bt_get (FinalizedTransfers s') h = Some t \<and> distinct (tx_finalization_voters t) \<and>
        fp_authority_id sub \<in> set (tx_finalization_voters t) \<and>
        (is_outbound (ucast (evm_chain_id Q)) m \<or> q_majority E \<le> length (tx_finalization_voters t)))"

lemma as_u32_le: "as_u32 n \<le> n"
  by (simp add: as_u32_def)

lemma poll_store_transfers:
  assumes "poll_store E a key asset x opt new info s = Done ok s1"
  shows "FinalizedTransfers s1 = FinalizedTransfers s"
    and "OnFlightTransfers s1 = (if ok then bt_insert (fst key) (from_transfer_info info (snd key)) (OnFlightTransfers s)
           else OnFlightTransfers s)"
    and "ok = (q_majority E \<le> as_u32 (length (ti_on_flight_voters info)))"
proof -
  have cap: "OnFlightTransfers s' = OnFlightTransfers s \<and> FinalizedTransfers s' = FinalizedTransfers s"
    if "update_fast_transfer_cap i c y up s = Done c' s'" for i c y up c' s'
    using that by (auto simp: update_fast_transfer_cap_def Let_def queue_Done)
  show "FinalizedTransfers s1 = FinalizedTransfers s"
    and "OnFlightTransfers s1 = (if ok then bt_insert (fst key) (from_transfer_info info (snd key)) (OnFlightTransfers s)
           else OnFlightTransfers s)"
    and "ok = (q_majority E \<le> as_u32 (length (ti_on_flight_voters info)))"
    using assms by (auto simp: poll_store_def queue_Done Let_def dest!: cap split: if_splits option.splits)
qed

lemma poll_stage:
  assumes inv: "queue_inv Q M s" and inj: "inj_on (msg_key Q) M"
    and M: "\<And>m. SocketMessage_try_from (q_codec Q) (op_msg sub) = Parsed m \<Longrightarrow> m \<in> M"
    and d: "on_flight_poll Q E og sub s = Done u s'"
  shows "FinalizedTransfers s' = FinalizedTransfers s"
    and "OnFlightTransfers s' = OnFlightTransfers s \<or>
      (stage_of s (op_msg_hash sub) = Unseen \<and> approves Q (QCall E og (OnFlightPoll sub sig)) (op_msg_hash sub) s' \<and>
       (\<forall>h. h \<noteq> op_msg_hash sub \<longrightarrow> bt_get (OnFlightTransfers s') h = bt_get (OnFlightTransfers s) h))"
proof -
  from d obtain m idx opt info ok s1 ev where
    pre: "poll_pre Q sub m idx opt info s" and og: "og = NoOrigin" and st:
    "poll_store E (op_authority_id sub) (op_msg_hash sub, op_src_tx_id sub) (get_asset_info idx s)
       (unat (tp_amount (sm_params m))) opt
       (bt_get (PendingTransfers s) (op_msg_hash sub, op_src_tx_id sub) = None) info s = Done ok s1"
    and s': "s' = q_deposit ev s1"
    by (rule on_flight_poll_Done)
  note P = poll_store_transfers [OF st] and D = poll_preD [OF pre]
  note I = poll_info [OF inv inj M [OF D(5)] pre]
  show "FinalizedTransfers s' = FinalizedTransfers s" by (simp add: s' q_deposit_def P)
  have "q_majority E \<le> length (ti_on_flight_voters info)" if ok
    using P(3) that as_u32_le le_trans by blast
  moreover have "op_authority_id sub \<in> set (ti_on_flight_voters info)" using I(6) by auto
  ultimately show "OnFlightTransfers s' = OnFlightTransfers s \<or>
      (stage_of s (op_msg_hash sub) = Unseen \<and> approves Q (QCall E og (OnFlightPoll sub sig)) (op_msg_hash sub) s' \<and>
       (\<forall>h. h \<noteq> op_msg_hash sub \<longrightarrow> bt_get (OnFlightTransfers s') h = bt_get (OnFlightTransfers s) h))"
    using I(4) og D(1,2) by (auto simp: s' q_deposit_def P approves_def stage_of_def bt_contains_def)
qed

lemma finalize_now_transfers:
  assumes "finalize_now h t asset x s = Done u s1"
  shows "OnFlightTransfers s1 = bt_remove h (OnFlightTransfers s)"
    and "FinalizedTransfers s1 = bt_insert h t (FinalizedTransfers s)"
  using assms by (auto simp: finalize_now_def update_fast_transfer_cap_def Let_def queue_Done
      split: if_splits option.splits)

lemma finalize_stage:
  assumes inv: "queue_inv Q M s" and d: "finalize_poll Q E og sub s = Done u s'"
  shows "\<exists>h. stage_of s h = OnFlight \<and>
      (FinalizedTransfers s' = FinalizedTransfers s \<and> dom (bt_get (OnFlightTransfers s')) = dom (bt_get (OnFlightTransfers s)) \<or>
       finalizes Q (QCall E og (FinalizePoll sub sig)) h s' \<and>
       (\<exists>t. bt_get (FinalizedTransfers s') = (bt_get (FinalizedTransfers s))(h \<mapsto> t)) \<and>
       bt_get (OnFlightTransfers s') = (bt_get (OnFlightTransfers s))(h := None))"
proof -
  from d obtain m idx t0 vs info h ev s1 where
    m: "SocketMessage_try_from (q_codec Q) (fp_msg sub) = Parsed m" "og = NoOrigin"
      "h = msg_key Q (m\<lparr>sm_status := 1\<rparr>)"
    and t0: "bt_get (FinalizedTransfers s) h = None" "bt_get (OnFlightTransfers s) h = Some t0"
    and vs: "fp_authority_id sub \<notin> set (tx_finalization_voters t0)"
      "vs = tx_finalization_voters t0 @ [fp_authority_id sub]" and s': "s' = q_deposit ev s1"
    and f: "if is_outbound (ucast (evm_chain_id Q)) m \<or> q_majority E \<le> as_u32 (length vs)
     then finalize_now h (t0\<lparr>tx_finalization_voters := vs\<rparr>) (get_asset_info idx s) (tp_amount (sm_params m)) s = Done () s1
     else s1 = s\<lparr>OnFlightTransfers := bt_insert h (t0\<lparr>tx_finalization_voters := vs\<rparr>) (OnFlightTransfers s)\<rparr>"
    by (rule finalize_poll_Done)
  have st: "stage_of s h = OnFlight" using t0 by (simp add: stage_of_def bt_contains_def)
  show ?thesis
  proof (cases "is_outbound (ucast (evm_chain_id Q)) m \<or> q_majority E \<le> as_u32 (length vs)")
    case True
    note F = finalize_now_transfers [OF f [unfolded if_P [OF True]]]
    have "distinct (tx_finalization_voters t0)"
      using queue_invD(3) [OF inv] t0(2) unfolding voters_ok_def by blast
    then have "finalizes Q (QCall E og (FinalizePoll sub sig)) h s'"
      using m vs True as_u32_le [of "length vs"] unfolding finalizes_def
      by (auto simp: s' q_deposit_def F)
    then show ?thesis using st F by (auto simp: s' q_deposit_def intro!: exI [of _ h])
  next
    case False
    with f t0 have "FinalizedTransfers s' = FinalizedTransfers s \<and>
        dom (bt_get (OnFlightTransfers s')) = dom (bt_get (OnFlightTransfers s))"
      by (auto simp: s' q_deposit_def)
    with st show ?thesis by blast
  qed
qed

text \<open>The stage of every transfer after a successful vote.\<close>

lemma replace_stage: "stage_of (q_replace_authority old new s) h = stage_of s h"
  by (auto simp: stage_of_def bt_contains_def q_replace_authority_def Let_def bt_get_map)

lemma same_transfers_stage: "same_transfers s s' \<Longrightarrow> stage_of s' h = stage_of s h"
  by (simp add: same_transfers_def stage_of_def)

lemma call_stage:
  assumes inv: "queue_inv Q M s" and inj: "inj_on (msg_key Q) M"
    and g: "opt_all (\<lambda>m. m \<in> M) (polled_message Q c)" and d: "queue_call_run Q E og c s = Done u s'"
  shows "(stage_of s' h = stage_of s h \<or>
      stage_of s h = Unseen \<and> stage_of s' h = OnFlight \<and> approves Q (QCall E og c) h s' \<or>
      stage_of s h = OnFlight \<and> stage_of s' h = Finalized \<and> finalizes Q (QCall E og c) h s') \<and>
    (\<forall>t. bt_get (FinalizedTransfers s) h = Some t \<longrightarrow> bt_get (FinalizedTransfers s') h = Some t)"
proof (cases "polled_message Q c")
  case None
  note same = registry_call_same [OF d None]
  show ?thesis using same_transfers_stage [OF same, of h] same by (simp add: same_transfers_def)
next
  case (Some m)
  then consider sub sig where "c = OnFlightPoll sub sig" | sub sig where "c = FinalizePoll sub sig"
    by (cases c) (simp_all add: polled_message_def)
  then show ?thesis
  proof cases
    case (1 sub sig)
    have M: "SocketMessage_try_from (q_codec Q) (op_msg sub) = Parsed m' \<Longrightarrow> m' \<in> M" for m'
      using g by (auto simp: 1 polled_message_def opt_all_def)
    have p: "on_flight_poll Q E og sub s = Done u s'" using d by (simp add: 1 queue_call_run_def)
    from poll_stage(1) [OF inv inj M p] poll_stage(2) [OF inv inj M p, where sig = sig] show ?thesis
      by (cases "h = op_msg_hash sub") (auto simp: 1 stage_of_def bt_contains_def approves_def split: if_splits)
  next
    case (2 sub sig)
    have "finalize_poll Q E og sub s = Done u s'" using d by (simp add: 2 queue_call_run_def)
    from finalize_stage [OF inv this, of sig] obtain k where st: "stage_of s k = OnFlight"
      and "FinalizedTransfers s' = FinalizedTransfers s \<and>
           dom (bt_get (OnFlightTransfers s')) = dom (bt_get (OnFlightTransfers s)) \<or>
         finalizes Q (QCall E og (FinalizePoll sub sig)) k s' \<and>
         (\<exists>t. bt_get (FinalizedTransfers s') = (bt_get (FinalizedTransfers s))(k \<mapsto> t)) \<and>
         bt_get (OnFlightTransfers s') = (bt_get (OnFlightTransfers s))(k := None)" by blast
    then show ?thesis
    proof (elim disjE conjE exE)
      assume "FinalizedTransfers s' = FinalizedTransfers s"
        "dom (bt_get (OnFlightTransfers s')) = dom (bt_get (OnFlightTransfers s))"
      then show ?thesis by (auto simp: stage_of_def bt_contains_def domIff)
    next
      fix t assume "finalizes Q (QCall E og (FinalizePoll sub sig)) k s'"
        "bt_get (FinalizedTransfers s') = (bt_get (FinalizedTransfers s))(k \<mapsto> t)"
        "bt_get (OnFlightTransfers s') = (bt_get (OnFlightTransfers s))(k := None)"
      with st show ?thesis
        by (cases "h = k") (auto simp: 2 stage_of_def bt_contains_def split: if_splits)
    qed
  qed
qed

text \<open>C14: Every operation of the relay queue moves a transfer only along the stages unseen, on
flight, finalized. A transfer goes on flight only by a poll whose distinct voters, the poller among
them, reach the majority; it is finalized only by a finalization vote that is for an outbound transfer
or reaches the majority with distinct voters; and the record of a finalized transfer never changes.\<close>

theorem queue_stages:
  assumes "queue_reachable Q M s" "inj_on (msg_key Q) M" "queue_guard Q M w s" "queue_exec Q w s = Some s'"
  shows "stage_step (stage_of s h) (stage_of s' h) \<and>
    (stage_of s h \<noteq> stage_of s' h \<longrightarrow> approves Q w h s' \<or> finalizes Q w h s') \<and>
    (\<forall>t. bt_get (FinalizedTransfers s) h = Some t \<longrightarrow> bt_get (FinalizedTransfers s') h = Some t)"
proof -
  note inv = queue_reachable_inv [OF assms(1,2)]
  have "(stage_of s' h = stage_of s h \<or>
      stage_of s h = Unseen \<and> stage_of s' h = OnFlight \<and> approves Q w h s' \<or>
      stage_of s h = OnFlight \<and> stage_of s' h = Finalized \<and> finalizes Q w h s') \<and>
    (\<forall>t. bt_get (FinalizedTransfers s) h = Some t \<longrightarrow> bt_get (FinalizedTransfers s') h = Some t)"
  proof (cases w)
    case (QCall E og c)
    show ?thesis
    proof (cases "queue_call_run Q E og c s")
      case (Done u s2)
      then show ?thesis
        using call_stage [OF inv assms(2), of c E og u s2 h] assms(3,4)
        by (simp add: QCall queue_exec_def queue_guard_def)
    qed (use assms(4) in \<open>auto simp: QCall queue_exec_def\<close>)
  next
    case (QReplace old new)
    then show ?thesis
      using assms(4) replace_stage [of old new s h] by (auto simp: queue_exec_def q_replace_authority_def Let_def)
  qed
  then show ?thesis by (auto simp: stage_step_simps)
qed

theorem queue_stages_witness:
  "stage_step (stage_of sample_pending 1) (stage_of sample_flight 1) \<and> stage_of sample_flight 1 = OnFlight \<and>
   approves sample_queue (QCall (sample_qenv 2 0) NoOrigin (OnFlightPoll (sample_poll 2) [])) 1 sample_flight"
proof -
  note Q = queue_stages [OF sample_pending_reachable sample_keys_inj sample_guard sample_exec, where h = 1]
  have st: "stage_of sample_pending 1 = Unseen" "stage_of sample_flight 1 = OnFlight"
    by (simp_all add: stage_of_def bt_contains_def sample_pending_def sample_flight_def sample_registered_def
        queue_default_def)
  have "\<not> finalizes sample_queue (QCall (sample_qenv 2 0) NoOrigin (OnFlightPoll (sample_poll 2) [])) 1 sample_flight"
    by (simp add: finalizes_def)
  then show ?thesis using Q st by auto
qed

subsection \<open>Accounting\<close>

text \<open>C15: In every reachable state the cap in use of an asset is exactly the sum of its on-flight
Fast transfers, and it is within the asset's maximum, itself at most 100M.\<close>

theorem queue_caps:
  assumes "queue_reachable Q M s" "inj_on (msg_key Q) M" "bt_get (AssetCaps s) a = Some c"
  shows "on_flight_cap c = bt_sum (\<lambda>_. cap_held (bt_get (AssetIndexes s)) a) (OnFlightTransfers s) \<and>
    on_flight_cap c \<le> max_on_flight_cap c \<and> max_on_flight_cap c \<le> MAX_ON_FLIGHT_CAP"
  using queue_invD(4,6) [OF queue_reachable_inv [OF assms(1,2)]] assms(3)
  unfolding caps_ok_def assets_ok_def by blast

theorem queue_caps_witness:
  "bt_sum (\<lambda>_. cap_held (bt_get (AssetIndexes sample_flight)) 7) (OnFlightTransfers sample_flight) = 10"
  using queue_caps [OF sample_flight_reachable sample_keys_inj, of 7 "\<lparr>max_on_flight_cap = 100, on_flight_cap = 10\<rparr>"]
  by (simp add: sample_flight_def)

text \<open>In every reachable state the stored count of a relayer is the number of pending transfers
it introduced, which is at most 100.\<close>

theorem queue_pending_bounded:
  assumes "queue_reachable Q M s" "inj_on (msg_key Q) M"
  shows "length (filter (\<lambda>(_, i). hd (ti_on_flight_voters i) = a) (PendingTransfers s)) = PendingTransferCount s a \<and>
    PendingTransferCount s a \<le> 100"
proof -
  note I = queue_invD [OF queue_reachable_inv [OF assms]]
  have "length (filter (\<lambda>(_, i). hd (ti_on_flight_voters i) = a) m) = bt_sum (\<lambda>_. introduced a) m"
    if "\<forall>(k, i) \<in> set m. ti_on_flight_voters i \<noteq> []" for m :: "(H256 \<times> H256, TransferInfo) btmap"
    using that by (induction m) (auto simp: bt_sum_def introduced_def)
  moreover have "\<forall>(k, i) \<in> set (PendingTransfers s). ti_on_flight_voters i \<noteq> []"
  proof (clarify)
    fix h x i assume i: "((h, x), i) \<in> set (PendingTransfers s)" and e: "ti_on_flight_voters i = []"
    have "bt_wf (PendingTransfers s)" using I(1) by (simp add: maps_wf_def)
    from bt_wf_get_iff [OF this, THEN iffD1, OF i] I(3) have "ti_on_flight_voters i \<noteq> []"
      unfolding voters_ok_def by blast
    with e show False by contradiction
  qed
  ultimately show ?thesis
    using counts_okD [OF I(5), of a] by (simp add: MAX_PENDING_TRANSFERS_PER_RELAYER_def)
qed

theorem queue_pending_bounded_witness:
  "length (filter (\<lambda>(_, i). hd (ti_on_flight_voters i) = 4) (PendingTransfers sample_pending)) = 1"
  using queue_pending_bounded [OF sample_pending_reachable sample_keys_inj, of 4]
  by (simp add: sample_pending_def)

subsection \<open>Finalization makes progress\<close>

lemma finalize_poll_runs:
  assumes m: "SocketMessage_try_from (q_codec Q) (fp_msg sub) = Parsed m" "fp_msg sub \<noteq> []" "finalize_status m"
      "length (rq_chain (req_id m)) = 4" "length (in_chain (ins_code m)) = 4"
    and idx: "h256_from_slice (token_idx0 (sm_params m)) = Some idx"
    and h: "h = msg_key Q (m\<lparr>sm_status := 1\<rparr>)"
    and st: "bt_get (FinalizedTransfers s) h = None" "bt_get (OnFlightTransfers s) h = Some t"
    and on_chain: "validate_on_chain_existence Q E m s = Done info s" "ri_field info \<noteq> []"
      "if is_outbound (ucast (evm_chain_id Q)) m then outbound_status info m else inbound_status info m"
    and vote: "fp_authority_id sub \<notin> set (tx_finalization_voters t)"
      "length (tx_finalization_voters t) < MAX_AUTHORITIES"
    and quorum: "is_outbound (ucast (evm_chain_id Q)) m \<or>
      q_majority E \<le> as_u32 (length (tx_finalization_voters t @ [fp_authority_id sub]))"
  shows "\<exists>ev. finalize_poll Q E NoOrigin sub s = bind_outcome
    (finalize_now h (t\<lparr>tx_finalization_voters := tx_finalization_voters t @ [fp_authority_id sub]\<rparr>)
      (get_asset_info idx s) (tp_amount (sm_params m)) s) (\<lambda>_ s. Done () (q_deposit ev s))"
proof -
  obtain c where c: "ri_code info = Some c" using on_chain(2) by (cases "ri_field info") (auto simp: ri_code_def)
  have run: "validate_and_parse_socket_message Q (fp_msg sub) finalize_status s = Done m s"
    "add_voter_to_list (tx_finalization_voters t) (fp_authority_id sub) s =
       Done (tx_finalization_voters t @ [fp_authority_id sub]) s"
    using m vote by (simp_all add: queue_Done)
  show ?thesis
    using m(4,5) idx st on_chain(1,3) quorum run c unfolding finalize_poll_def Let_def h
    by (auto simp: ensure_def ok_or_def expect_def u32_from_be_slice_def bt_contains_def split: if_splits)
qed

text \<open>C16: Finalization cannot get stuck on the cap: for an on-flight transfer, a vote of a relayer that
has not voted, with a matching status on the Socket contract and a quorum (or an outbound transfer),
always succeeds, finalizes the transfer, and releases exactly what it held of each asset's cap.\<close>

theorem finalize_progress:
  assumes run: "queue_reachable Q M s" "inj_on (msg_key Q) M"
    and m: "SocketMessage_try_from (q_codec Q) (fp_msg sub) = Parsed m" "fp_msg sub \<noteq> []" "finalize_status m"
      "m\<lparr>sm_status := 1\<rparr> \<in> M" "length (rq_chain (req_id m)) = 4" "length (in_chain (ins_code m)) = 4"
    and h: "h = msg_key Q (m\<lparr>sm_status := 1\<rparr>)" and t: "bt_get (OnFlightTransfers s) h = Some t"
    and on_chain: "validate_on_chain_existence Q E m s = Done info s" "ri_field info \<noteq> []"
      "if is_outbound (ucast (evm_chain_id Q)) m then outbound_status info m else inbound_status info m"
    and vote: "fp_authority_id sub \<notin> set (tx_finalization_voters t)"
      "length (tx_finalization_voters t) < MAX_AUTHORITIES"
      "is_outbound (ucast (evm_chain_id Q)) m \<or> q_majority E \<le> length (tx_finalization_voters t) + 1"
  shows "\<exists>s'. finalize_poll Q E NoOrigin sub s = Done () s' \<and> stage_of s' h = Finalized \<and>
    (\<forall>a c. bt_get (AssetCaps s) a = Some c \<longrightarrow> (\<exists>c'. bt_get (AssetCaps s') a = Some c' \<and>
       on_flight_cap c' + cap_held (bt_get (AssetIndexes s)) a t = on_flight_cap c))"
proof -
  note inv = queue_reachable_inv [OF run] and I = queue_invD [OF queue_reachable_inv [OF run]]
  let ?vs = "tx_finalization_voters t @ [fp_authority_id sub]"
  let ?t = "t\<lparr>tx_finalization_voters := ?vs\<rparr>"
  have "describes Q M h (tx_amount t) (tx_asset_index_hash t)"
    using I(7) t unfolding messages_ok_def by blast
  from describes_unique [OF run(2) this m(4) h]
  have x: "unat (tp_amount (sm_params m)) = tx_amount t"
    and idx: "h256_from_slice (token_idx0 (sm_params m)) = Some (tx_asset_index_hash t)" by simp_all
  have fin: "bt_get (FinalizedTransfers s) h = None" by (rule stages_okD(2) [OF I(2) t])
  have quorum: "is_outbound (ucast (evm_chain_id Q)) m \<or> q_majority E \<le> as_u32 (length ?vs)"
    using vote(2,3) by (simp add: as_u32_def M32_def MAX_AUTHORITIES_def)
  from finalize_now_ok [OF inv t _ _ x refl, of ?t] obtain caps where
    now: "finalize_now h ?t (get_asset_info (tx_asset_index_hash t) s) (tp_amount (sm_params m)) s =
      Done () (s\<lparr>OnFlightTransfers := bt_remove h (OnFlightTransfers s),
        FinalizedTransfers := bt_insert h ?t (FinalizedTransfers s), AssetCaps := caps\<rparr>)"
    and caps: "if tx_option t = Fast then
       \<exists>i c. get_asset_info (tx_asset_index_hash t) s = Some (i, c) \<and> tx_amount t \<le> on_flight_cap c \<and>
         caps = bt_insert i (c\<lparr>on_flight_cap := on_flight_cap c - tx_amount t\<rparr>) (AssetCaps s)
     else caps = AssetCaps s" by auto
  obtain ev where "finalize_poll Q E NoOrigin sub s = Done () (q_deposit ev
      (s\<lparr>OnFlightTransfers := bt_remove h (OnFlightTransfers s),
        FinalizedTransfers := bt_insert h ?t (FinalizedTransfers s), AssetCaps := caps\<rparr>))"
    using finalize_poll_runs [OF m(1-3,5,6) idx h fin t on_chain vote(1,2) quorum]
    unfolding now bind_outcome_simps by (elim exE) (rule that)
  moreover have "\<forall>a c. bt_get (AssetCaps s) a = Some c \<longrightarrow> (\<exists>c'. bt_get caps a = Some c' \<and>
       on_flight_cap c' + cap_held (bt_get (AssetIndexes s)) a t = on_flight_cap c)"
    using caps by (auto simp: cap_held_def get_asset_info_def split: if_splits Option.bind_splits)
  ultimately show ?thesis by (auto simp: q_deposit_def stage_of_def bt_contains_def)
qed

theorem finalize_progress_witness:
  "\<exists>s'. finalize_poll sample_queue (sample_qenv 1 5) NoOrigin (sample_final 4) sample_flight = Done () s' \<and>
    stage_of s' 1 = Finalized \<and>
    (\<forall>a c. bt_get (AssetCaps sample_flight) a = Some c \<longrightarrow> (\<exists>c'. bt_get (AssetCaps s') a = Some c' \<and>
       on_flight_cap c' + cap_held (bt_get (AssetIndexes sample_flight)) a (from_transfer_info (sample_info [4, 2]) 77) =
       on_flight_cap c))"
  by (rule finalize_progress [OF sample_flight_reachable sample_keys_inj sample_finalize(1),
        where info = "\<lparr>ri_field = replicate 32 5, ri_msg_hash = 0, ri_registered_time = 0\<rparr>"])
    (simp_all add: sample_finalize sample_msgs_def sample_final_def sample_flight_def sample_registered_def
      sample_qenv_def [THEN arg_cong, of q_majority] MAX_AUTHORITIES_def)

subsection \<open>No panic\<close>

named_theorems queue_Panic "when a queue operation panics"

lemmas [queue_Panic] = guard_Panic
lemma q_parsed_Panic [queue_Panic]:
  "q_parsed v e s k = Panic \<longleftrightarrow> v = Crash \<or> (\<exists>x. v = Parsed x \<and> k x = Panic)"
  by (cases v) (simp_all add: q_parsed_def)
lemma q_root_Panic [queue_Panic]: "q_root og s k = Panic \<longleftrightarrow> og = Root \<and> k = Panic"
  by (simp add: q_root_def queue_Panic)

lemma helpers_safe [queue_Panic]:
  "add_voter_to_list vs a s \<noteq> Panic" "determine_transfer_option c x s \<noteq> Panic"
  "update_fast_transfer_cap i c x up s \<noteq> Panic" "poll_vote a key f s \<noteq> Panic"
  "poll_store E a key asset b opt new info s \<noteq> Panic" "finalize_now h t asset x s \<noteq> Panic"
proof -
  show v: "add_voter_to_list vs a s \<noteq> Panic" for vs
    by (auto simp: add_voter_to_list_def queue_Panic)
  show "determine_transfer_option c x s \<noteq> Panic"
    by (auto simp: determine_transfer_option_def queue_Panic)
  show u: "update_fast_transfer_cap i c x up s \<noteq> Panic" for i c x up s
    by (auto simp: update_fast_transfer_cap_def Let_def queue_Panic)
  show "poll_vote a key f s \<noteq> Panic" by (auto simp: poll_vote_def queue_Panic v split: option.splits)
  show "poll_store E a key asset b opt new info s \<noteq> Panic"
    by (auto simp: poll_store_def Let_def queue_Panic u split: option.splits)
  show "finalize_now h t asset x s \<noteq> Panic"
    by (auto simp: finalize_now_def Let_def queue_Panic u split: option.splits)
qed

lemma registry_safe:
  "add_indexes a is s \<noteq> Panic" "update_indexes is s \<noteq> Panic" "check_owned a hs s \<noteq> Panic"
proof -
  show "add_indexes a is s \<noteq> Panic" by (induction "is" arbitrary: s) (auto simp: queue_Panic)
  show "update_indexes is s \<noteq> Panic" by (induction "is" arbitrary: s) (auto simp: queue_Panic)
  show "check_owned a hs s \<noteq> Panic" by (induction hs arbitrary: s) (auto simp: queue_Panic)
qed

lemma request_safe:
  assumes "codec_shapes (q_codec Q)"
  shows "try_get_request Q E r s \<noteq> Panic" and "validate_on_chain_existence Q E m s \<noteq> Panic"
    and "try_get_request Q E r s = Done i s' \<Longrightarrow> ri_code i \<noteq> None"
    and "validate_on_chain_existence Q E m s = Done i s' \<Longrightarrow> ri_code i \<noteq> None"
proof -
  note R = request_parse_safe [OF assms]
  show t: "try_get_request Q E r s \<noteq> Panic" for r
    by (auto simp: try_get_request_def queue_Panic R(1))
  show c: "ri_code i \<noteq> None" if "try_get_request Q E r s = Done i s'" for r i s'
    using that R(2) by (auto simp: try_get_request_def queue_Done)
  show "validate_on_chain_existence Q E m s \<noteq> Panic"
    by (auto simp: validate_on_chain_existence_def queue_Panic t)
  show "ri_code i \<noteq> None" if "validate_on_chain_existence Q E m s = Done i s'"
    using that c by (auto simp: validate_on_chain_existence_def queue_Done)
qed

text \<open>C17: No call of the relay queue and no replacement of a relayer panics, provided the ABI
decoder returns tokens of the requested kinds: no slice has a wrong length and no request an empty
status field.\<close>

theorem queue_never_panics:
  assumes "codec_shapes (q_codec Q)"
  shows "queue_exec Q w s \<noteq> None"
proof -
  note P = socket_parse_safe [OF assms] and R = request_safe [OF assms]
  have parse: "validate_and_parse_socket_message Q b ok s \<noteq> Panic" for b ok s
    by (auto simp: validate_and_parse_socket_message_def queue_Panic P(1))
  have idx: "h256_from_slice (token_idx0 (sm_params m)) \<noteq> None"
    if "SocketMessage_try_from (q_codec Q) b = Parsed m" for b m
    using P(2) [OF that] by (simp add: h256_from_slice_def)
  have chain: "poll_on_chain Q E m s \<noteq> Panic" for E m s
    using R by (auto simp: poll_on_chain_def queue_Panic)
  have "on_flight_poll Q E og sub s \<noteq> Panic" for E og sub
    using idx by (auto simp: on_flight_poll_def Let_def queue_Panic queue_Done parse chain split: option.splits)
  moreover have "finalize_poll Q E og sub s \<noteq> Panic" for E og sub
    using idx R(2,4) by (auto simp: finalize_poll_def Let_def queue_Panic queue_Done parse)
  moreover have "update_asset og a cap add upd rm s \<noteq> Panic" for og a cap add upd rm
    by (auto simp: update_asset_def update_cap_def remove_indexes_def q_opt_def queue_Panic registry_safe
        split: option.splits)
  ultimately have "queue_call_run Q E og c s \<noteq> Panic" for E og c
    by (cases c) (auto simp: queue_call_run_def set_socket_def add_asset_def remove_asset_def Let_def queue_Panic)
  then show ?thesis by (auto simp: queue_exec_def split: queue_op.splits outcome.splits)
qed

theorem queue_never_panics_witness:
  "queue_exec sample_queue (QCall (sample_qenv 2 0) NoOrigin (OnFlightPoll (sample_poll 4) [])) queue_default \<noteq> None"
proof (rule queue_never_panics)
  show "codec_shapes (q_codec sample_queue)"
    by (auto simp: codec_shapes_def sample_queue_def sample_decode_def socket_kind_def request_kind_def
        message_tokens_def req_id_tokens_def instruction_tokens_def params_tokens_def sample_message_def
        split: list.splits)
qed

text \<open>C18: Encoding a socket message and parsing the bytes gives the message back, whenever the ABI
codec returns the tokens it encoded.\<close>

theorem message_roundtrip:
  assumes "abi_decode K socket_kind (abi_encode K (message_tokens m)) = Some (message_tokens m)"
  shows "SocketMessage_try_from K (SocketMessage_encode K m) = Parsed m"
  using assms by (simp add: SocketMessage_try_from_def SocketMessage_encode_def message_tokens_def
      req_id_tokens_def instruction_tokens_def params_tokens_def)

theorem message_roundtrip_witness:
  "SocketMessage_try_from (q_codec sample_queue) (SocketMessage_encode (q_codec sample_queue) (sample_message 7)) =
   Parsed (sample_message 7)"
  by (rule message_roundtrip)
    (simp add: sample_queue_def sample_decode_def sample_encode_def message_tokens_def sample_message_def)

text \<open>
  A relayer whose new account has voted before is counted twice afterwards: the replacement renames
  the old vote without looking for one of the new account.
\<close>

lemma replaced_vote_counts_twice:
  "distinct vs \<Longrightarrow> old \<in> set vs \<Longrightarrow> new \<in> set vs \<Longrightarrow> old \<noteq> new \<Longrightarrow> \<not> distinct (rename_voter old new vs)"
  by (induction vs) (auto simp: set_rename)

subsection \<open>The effect of a poll\<close>

lemma poll_store_pending:
  assumes "poll_store E a key asset x opt new info s = Done ok s1"
  shows "bt_get (PendingTransfers s1) k =
    (if ok then if fst k = fst key then None else bt_get (PendingTransfers s) k
     else if k = key then Some info else bt_get (PendingTransfers s) k)"
proof -
  have cap: "PendingTransfers s' = PendingTransfers s"
    if "update_fast_transfer_cap i c y up s = Done c' s'" for i c y up c' s'
    using that by (auto simp: update_fast_transfer_cap_def Let_def queue_Done)
  show ?thesis
    using assms by (auto simp: poll_store_def queue_Done Let_def dest!: cap split: if_splits option.splits)
qed

lemma option_fast_iff:
  assumes ok: "assets_ok s" and x: "unat x < M128"
    and opt: "case get_asset_info idx s of None \<Rightarrow> opt = Standard
       | Some (_, c) \<Rightarrow> determine_transfer_option c x s = Done opt s"
  shows "opt = Fast \<longleftrightarrow> (\<exists>i c. get_asset_info idx s = Some (i, c) \<and> on_flight_cap c + unat x \<le> max_on_flight_cap c)"
proof (cases "get_asset_info idx s")
  case (Some p)
  obtain i c where p: "p = (i, c)" by (cases p)
  then have ic: "bt_get (AssetCaps s) i = Some c"
    using Some by (auto simp: get_asset_info_def split: Option.bind_splits)
  have c: "on_flight_cap c < M128" "max_on_flight_cap c < M128"
    using ok ic by (fastforce simp: assets_ok_def MAX_ON_FLIGHT_CAP_def M128_def)+
  have "unat (u256_of_balance (on_flight_cap c)) + unat x < 2 ^ 256"
    using c x by (simp add: unat_u256_of_balance M128_def)
  then show ?thesis
    using opt c by (auto simp: Some p option_Done word_less_nat_alt unat_add256 unat_u256_of_balance split: if_splits)
qed (use opt in simp)

text \<open>A successful poll adds the poller, who had not voted, to the voters of this message and
source transaction. With a majority the transfer goes on flight with these voters and the message's
amount, every pending entry of the message is gone, and the transfer is Fast exactly when its asset is
registered and the cap has room; without a majority the transfer stays pending with these voters.\<close>

theorem poll_effect:
  assumes run: "queue_reachable Q M s" "inj_on (msg_key Q) M"
    and m: "SocketMessage_try_from (q_codec Q) (op_msg sub) = Parsed m" "m \<in> M"
    and d: "on_flight_poll Q E og sub s = Done () s'"
    and h: "h = op_msg_hash sub" and tx: "tx = op_src_tx_id sub"
    and vs: "vs = (case bt_get (PendingTransfers s) (h, tx) of None \<Rightarrow> [] | Some p \<Rightarrow> ti_on_flight_voters p)"
  shows "op_authority_id sub \<notin> set vs \<and> stage_of s h = Unseen \<and>
    (if q_majority E \<le> length vs + 1 then
       \<exists>t. bt_get (OnFlightTransfers s') h = Some t \<and> tx_on_flight_voters t = vs @ [op_authority_id sub] \<and>
         tx_amount t = unat (tp_amount (sm_params m)) \<and> (\<forall>x. bt_get (PendingTransfers s') (h, x) = None) \<and>
         (tx_option t = Fast \<longleftrightarrow> (\<exists>i c. get_asset_info (tx_asset_index_hash t) s = Some (i, c) \<and>
            on_flight_cap c + tx_amount t \<le> max_on_flight_cap c))
     else \<exists>i. bt_get (PendingTransfers s') (h, tx) = Some i \<and>
            ti_on_flight_voters i = vs @ [op_authority_id sub] \<and> stage_of s' h = Unseen)"
proof -
  note inv = queue_reachable_inv [OF run]
  from d obtain m' idx opt info ok s1 ev where
    pre: "poll_pre Q sub m' idx opt info s" and st:
    "poll_store E (op_authority_id sub) (op_msg_hash sub, op_src_tx_id sub) (get_asset_info idx s)
       (unat (tp_amount (sm_params m'))) opt
       (bt_get (PendingTransfers s) (op_msg_hash sub, op_src_tx_id sub) = None) info s = Done ok s1"
    and s': "s' = q_deposit ev s1"
    by (rule on_flight_poll_Done)
  note D = poll_preD [OF pre] and T = poll_store_transfers [OF st] poll_store_pending [OF st]
  have m': "m' = m" using D(5) m(1) by simp
  note I = poll_info [OF inv run(2) m(2) pre [unfolded m']]
  have voters: "ti_on_flight_voters info = vs @ [op_authority_id sub]" "op_authority_id sub \<notin> set vs"
    using pre unfolding poll_pre_def Let_def vs h tx by (auto split: option.splits)
  have len: "as_u32 (Suc (length vs)) = Suc (length vs)"
    using I(4) voters(1) by (simp add: as_u32_def M32_def MAX_AUTHORITIES_def)
  have un: "stage_of s h = Unseen" using D(1,2) by (simp add: stage_of_def bt_contains_def h)
  note fast = option_fast_iff [OF queue_invD(4) [OF inv] D(4,7)]
  show ?thesis
    using un voters I(1,2,3) fast D(1,2)
    by (auto simp: s' q_deposit_def T len h tx m' stage_of_def bt_contains_def)
qed

theorem poll_effect_witness:
  "\<exists>t. bt_get (OnFlightTransfers sample_flight) 1 = Some t \<and> tx_on_flight_voters t = [4, 2] \<and> tx_option t = Fast"
  using poll_effect [OF sample_pending_reachable sample_keys_inj _ _ sample_vote_2 refl refl refl,
      where m = "sample_message 1"]
  by (auto simp: sample_poll_def sample_msgs_def sample_pending_def sample_flight_def sample_registered_def
      sample_info_def sample_qenv_def [THEN arg_cong, of q_majority] get_asset_info_def)

end
