(* ===== verification/Btc_Relay.thy ===== *)
theory Btc_Relay
  imports Cccp "HOL-Library.List_Lexorder"
begin

text \<open>
  The Bitcoin relay primitives (\<open>primitives/btc-relay\<close>): multi-signature accounts and the sequence of
  a vault migration. Addresses, descriptors and public keys are byte strings.
\<close>

definition MULTI_SIG_MAX_ACCOUNTS :: nat where "MULTI_SIG_MAX_ACCOUNTS = 20"
definition ADDRESS_MAX_LENGTH :: nat where "ADDRESS_MAX_LENGTH = 90"

type_synonym btc_address = bytes
type_synonym Public = bytes
type_synonym pool_round = nat

datatype AddressState = AddrPending | Generated btc_address

datatype MigrationSequence = Normal | SetExecutiveMembers | PrepareNextSystemVault | UTXOTransfer

record MultiSigAccount =
  ms_address :: AddressState
  ms_descriptor :: bytes
  ms_pub_keys :: "(acct, Public) btmap"
  ms_m :: nat
  ms_n :: nat

definition MultiSigAccount_new :: "nat \<Rightarrow> nat \<Rightarrow> MultiSigAccount" where
  "MultiSigAccount_new m n =
     \<lparr>ms_address = AddrPending, ms_descriptor = [], ms_pub_keys = [], ms_m = m, ms_n = n\<rparr>"

definition ms_is_pending :: "MultiSigAccount \<Rightarrow> bool" where
  "ms_is_pending v = (ms_address v = AddrPending)"

definition ms_is_address :: "btc_address \<Rightarrow> MultiSigAccount \<Rightarrow> bool" where
  "ms_is_address a v = (case ms_address v of AddrPending \<Rightarrow> False | Generated b \<Rightarrow> b = a)"

definition is_key_generation_ready :: "MultiSigAccount \<Rightarrow> bool" where
  "is_key_generation_ready v = (ms_n v = length (ms_pub_keys v))"

definition is_key_submitted :: "Public \<Rightarrow> MultiSigAccount \<Rightarrow> bool" where
  "is_key_submitted k v = (k \<in> set (map snd (ms_pub_keys v)))"

definition is_authority_submitted :: "acct \<Rightarrow> MultiSigAccount \<Rightarrow> bool" where
  "is_authority_submitted a v = bt_contains a (ms_pub_keys v)"

definition ms_set_address :: "btc_address \<Rightarrow> MultiSigAccount \<Rightarrow> MultiSigAccount" where
  "ms_set_address a v = v\<lparr>ms_address := Generated a\<rparr>"

definition ms_set_descriptor :: "bytes \<Rightarrow> MultiSigAccount \<Rightarrow> MultiSigAccount" where
  "ms_set_descriptor d v = v\<lparr>ms_descriptor := d\<rparr>"

definition pub_keys :: "MultiSigAccount \<Rightarrow> Public list" where
  "pub_keys v = map snd (ms_pub_keys v)"

definition clear_pub_keys :: "MultiSigAccount \<Rightarrow> MultiSigAccount" where
  "clear_pub_keys v = v\<lparr>ms_pub_keys := []\<rparr>"

text \<open>\<open>BoundedBTreeMap::try_insert\<close> at the bound of a multi-signature account.\<close>

definition keys_try_insert :: "acct \<Rightarrow> Public \<Rightarrow> MultiSigAccount \<Rightarrow> MultiSigAccount option" where
  "keys_try_insert a k v =
     (if length (ms_pub_keys v) < MULTI_SIG_MAX_ACCOUNTS \<or> bt_contains a (ms_pub_keys v)
      then Some (v\<lparr>ms_pub_keys := bt_insert a k (ms_pub_keys v)\<rparr>) else None)"

text \<open>
  Replacing an authority removes its entry first, so the insertion finds room unless the map held
  more than its bound; \<open>None\<close> is the failed \<open>expect\<close>.
\<close>

definition ms_replace_authority :: "acct \<Rightarrow> acct \<Rightarrow> MultiSigAccount \<Rightarrow> MultiSigAccount option" where
  "ms_replace_authority old new v =
     (case bt_get (ms_pub_keys v) old of
        None \<Rightarrow> Some v
      | Some k \<Rightarrow> keys_try_insert new k (v\<lparr>ms_pub_keys := bt_remove old (ms_pub_keys v)\<rparr>))"

definition keys_bounded :: "MultiSigAccount \<Rightarrow> bool" where
  "keys_bounded v \<longleftrightarrow> bt_wf (ms_pub_keys v) \<and> length (ms_pub_keys v) \<le> MULTI_SIG_MAX_ACCOUNTS"

lemma bt_remove_length_less: "bt_get m k = Some v \<Longrightarrow> length (bt_remove k m) < length m"
  by (induction m) (auto simp: bt_remove_def less_Suc_eq_le)

lemma keys_try_insert_bounded: "keys_bounded v \<Longrightarrow> keys_try_insert a k v = Some v' \<Longrightarrow> keys_bounded v'"
  by (auto simp: keys_try_insert_def keys_bounded_def bt_length_insert bt_contains_def split: if_splits)

lemma replace_authority_bounded:
  assumes "keys_bounded v"
  shows "\<exists>v'. ms_replace_authority old new v = Some v' \<and> keys_bounded v'"
proof (cases "bt_get (ms_pub_keys v) old")
  case None
  with assms show ?thesis by (simp add: ms_replace_authority_def)
next
  case (Some k)
  let ?v = "v\<lparr>ms_pub_keys := bt_remove old (ms_pub_keys v)\<rparr>"
  have b: "keys_bounded ?v" "length (ms_pub_keys ?v) < MULTI_SIG_MAX_ACCOUNTS"
    using assms bt_remove_length_less [OF Some] by (auto simp: keys_bounded_def)
  then obtain v' where "keys_try_insert new k ?v = Some v'" by (simp add: keys_try_insert_def)
  with keys_try_insert_bounded [OF b(1)] show ?thesis by (simp add: ms_replace_authority_def Some)
qed

end
