(* ===== verification/Reg_Pool.thy ===== *)
theory Reg_Pool
  imports Btc_Relay
begin

text \<open>
  The Bitcoin registration pool (\<open>pallets/btc-registration-pool\<close>): users register a refund address
  and receive a multi-signature vault, whose public keys the relay executives submit; a migration
  moves the pool to the next round and its system vault.

  \<open>PConfig\<close> holds the code the pallet calls and does not contain: the \<open>bitcoin\<close> and \<open>miniscript\<close>
  crates and \<open>Percent\<close>; \<open>PEnv\<close> what it reads of the rest of the runtime when a call runs: the
  executives (\<open>T::Executives\<close>), the socket queue and the block number. A storage double map is a
  function from rounds to key-ordered association lists.
\<close>

subsection \<open>Data\<close>

definition ADDRESS_U64 :: acct where "ADDRESS_U64 = 256"

record BitcoinRelayTarget =
  refund_address :: btc_address
  vault :: MultiSigAccount

definition BitcoinRelayTarget_new :: "btc_address \<Rightarrow> nat \<Rightarrow> nat \<Rightarrow> BitcoinRelayTarget" where
  "BitcoinRelayTarget_new r m n = \<lparr>refund_address = r, vault = MultiSigAccount_new m n\<rparr>"

definition set_refund_address :: "btc_address \<Rightarrow> BitcoinRelayTarget \<Rightarrow> BitcoinRelayTarget" where
  "set_refund_address r t = t\<lparr>refund_address := r\<rparr>"

record VaultKeySubmission =
  ks_authority_id :: acct
  ks_who :: acct
  ks_pub_key :: Public
  ks_pool_round :: pool_round

record VaultKeyPreSubmission =
  kp_authority_id :: acct
  kp_pub_keys :: "Public list"
  kp_pool_round :: pool_round

record SetRefundsApproval =
  ra_authority_id :: acct
  ra_refund_sets :: "(acct \<times> btc_address) list"
  ra_pool_round :: pool_round
  ra_deadline :: block_number

record SetRefundState =
  sr_old :: btc_address
  sr_new :: btc_address

datatype pool_error =
    PBadOrigin | AddressAlreadyRegistered | VaultAlreadyGenerated | VaultAlreadyContainsPubKey
  | AuthorityAlreadySubmittedPubKey | InvalidBitcoinAddress | InvalidPublicKey
  | DescriptorGeneration | PNoWritingSameValue | UserDNE | VaultDNE | RefundSetDNE | POutOfRange
  | UnderMaintenance | SocketQueueNotReady | DoNotInterceptMigration | PreSubmissionDNE
  | PoolRoundOutdated | RefundSetAlreadyRequested

datatype PoolEvent =
    SystemVaultPending
  | VaultPending acct btc_address
  | VaultGenerated acct btc_address btc_address
  | RefundSetRequested acct btc_address btc_address
  | RefundSetApproved acct btc_address btc_address
  | RefundSetDenied acct btc_address btc_address
  | RoundDropped pool_round
  | MigrationStarted
  | MigrationCompleted
  | MultiSigRatioSet nat nat
  | VaultKeySubmitted acct Public
  | VaultKeyPresubmitted acct nat

record reg_pool =
  CurrentRound :: pool_round
  RelayExecutives :: "pool_round \<Rightarrow> acct list"
  ServiceState :: MigrationSequence
  SystemVault :: "pool_round \<Rightarrow> MultiSigAccount option"
  RegistrationPool :: "pool_round \<Rightarrow> (acct, BitcoinRelayTarget) btmap"
  BondedVault :: "pool_round \<Rightarrow> (btc_address, acct) btmap"
  BondedRefund :: "pool_round \<Rightarrow> (btc_address, acct list) btmap"
  BondedPubKey :: "pool_round \<Rightarrow> (Public, acct) btmap"
  BondedDescriptor :: "pool_round \<Rightarrow> (btc_address, bytes) btmap"
  MultiSigRatio :: nat
  PreSubmittedPubKeys :: "pool_round \<Rightarrow> acct \<Rightarrow> Public list"
  MaxPreSubmission :: nat
  OngoingVaultMigration :: "(H256, bool) btmap"
  PendingSetRefunds :: "pool_round \<Rightarrow> (acct, SetRefundState) btmap"
  PEvents :: "PoolEvent list"

text \<open>
  \<open>checked_address\<close> is the chain \<open>str::from_utf8\<close>, \<open>Address::from_str\<close>, \<open>require_network\<close>,
  \<open>to_string\<close>; a descriptor is represented by its string.
\<close>

record PConfig =
  checked_address :: "bytes \<Rightarrow> bytes option"
  pk_from_slice :: "Public \<Rightarrow> bytes option"
  pk_sort :: "bytes list \<Rightarrow> bytes list"
  new_wsh_sortedmulti :: "nat \<Rightarrow> bytes list \<Rightarrow> bytes option"
  sanity_check :: "bytes \<Rightarrow> bool"
  desc_address :: "bytes \<Rightarrow> bytes option"
  desc_from_str :: "bytes \<Rightarrow> bytes option"
  percent_mul_ceil :: "nat \<Rightarrow> nat \<Rightarrow> nat"
  DefaultMultiSigRatio :: nat

record PEnv =
  executives :: "acct list"
  is_ready_for_migrate :: bool
  verify_legacy_authority :: "acct \<Rightarrow> bool"
  p_block_number :: block_number

type_synonym 'a pool_result = "(reg_pool, pool_error, 'a) outcome"

definition p_deposit :: "PoolEvent \<Rightarrow> reg_pool \<Rightarrow> reg_pool" where
  "p_deposit e s = s\<lparr>PEvents := PEvents s @ [e]\<rparr>"

text \<open>Writing to one key of a double map.\<close>

definition dm_insert :: "pool_round \<Rightarrow> 'k::linorder \<Rightarrow> 'v \<Rightarrow> (pool_round \<Rightarrow> ('k, 'v) btmap) \<Rightarrow> pool_round \<Rightarrow> ('k, 'v) btmap" where
  "dm_insert r k v m = m(r := bt_insert k v (m r))"

definition dm_remove :: "pool_round \<Rightarrow> 'k \<Rightarrow> (pool_round \<Rightarrow> ('k, 'v) btmap) \<Rightarrow> pool_round \<Rightarrow> ('k, 'v) btmap" where
  "dm_remove r k m = m(r := bt_remove k (m r))"

text \<open>\<open>BondedRefund\<close> is a value query: an absent key reads as the empty list, and a write stores it.\<close>

definition refund_users :: "pool_round \<Rightarrow> btc_address \<Rightarrow> reg_pool \<Rightarrow> acct list" where
  "refund_users r a s = (case bt_get (BondedRefund s r) a of Some us \<Rightarrow> us | None \<Rightarrow> [])"

definition mutate_refund :: "pool_round \<Rightarrow> btc_address \<Rightarrow> (acct list \<Rightarrow> acct list) \<Rightarrow> reg_pool \<Rightarrow> reg_pool" where
  "mutate_refund r a f s = s\<lparr>BondedRefund := dm_insert r a (f (refund_users r a s)) (BondedRefund s)\<rparr>"

subsection \<open>The interface for the other pallets\<close>

definition vault_address :: "MultiSigAccount \<Rightarrow> btc_address option" where
  "vault_address v = (case ms_address v of AddrPending \<Rightarrow> None | Generated a \<Rightarrow> Some a)"

definition get_refund_address :: "acct \<Rightarrow> reg_pool \<Rightarrow> btc_address option" where
  "get_refund_address who s = map_option refund_address (bt_get (RegistrationPool s (CurrentRound s)) who)"

definition get_vault_address :: "acct \<Rightarrow> reg_pool \<Rightarrow> btc_address option" where
  "get_vault_address who s =
     Option.bind (bt_get (RegistrationPool s (CurrentRound s)) who) (\<lambda>t. vault_address (vault t))"

text \<open>The UTF-8 check of the stored descriptor is part of \<open>desc_from_str\<close>.\<close>

definition get_bonded_descriptor :: "PConfig \<Rightarrow> btc_address \<Rightarrow> reg_pool \<Rightarrow> bytes option" where
  "get_bonded_descriptor P a s =
     (let r = (if ServiceState s = UTXOTransfer then add32 (CurrentRound s) 1 else CurrentRound s)
      in Option.bind (bt_get (BondedDescriptor s r) a) (desc_from_str P))"

definition get_system_vault :: "pool_round \<Rightarrow> reg_pool \<Rightarrow> btc_address option" where
  "get_system_vault r s = Option.bind (SystemVault s r) vault_address"

definition add_migration_tx :: "H256 \<Rightarrow> reg_pool \<Rightarrow> reg_pool" where
  "add_migration_tx t s =
     (if bt_get (OngoingVaultMigration s) t = None
      then s\<lparr>OngoingVaultMigration := bt_insert t False (OngoingVaultMigration s)\<rparr> else s)"

definition remove_migration_tx :: "H256 \<Rightarrow> reg_pool \<Rightarrow> reg_pool" where
  "remove_migration_tx t s = s\<lparr>OngoingVaultMigration := bt_remove t (OngoingVaultMigration s)\<rparr>"

definition execute_migration_tx :: "H256 \<Rightarrow> reg_pool \<Rightarrow> reg_pool" where
  "execute_migration_tx t s =
     (if bt_get (OngoingVaultMigration s) t \<noteq> None
      then s\<lparr>OngoingVaultMigration := bt_insert t True (OngoingVaultMigration s)\<rparr> else s)"

text \<open>The vaults that are still pending have the authority replaced; \<open>None\<close> is the failed \<open>expect\<close>.\<close>

definition replace_pending :: "acct \<Rightarrow> acct \<Rightarrow> MultiSigAccount \<Rightarrow> MultiSigAccount option" where
  "replace_pending old new v = (if ms_is_pending v then ms_replace_authority old new v else Some v)"

fun replace_targets ::
  "acct \<Rightarrow> acct \<Rightarrow> (acct, BitcoinRelayTarget) btmap \<Rightarrow> (acct, BitcoinRelayTarget) btmap option" where
  "replace_targets old new [] = Some []"
| "replace_targets old new ((who, t) # m) =
     Option.bind (replace_pending old new (vault t)) (\<lambda>v.
     map_option (\<lambda>m'. (who, t\<lparr>vault := v\<rparr>) # m') (replace_targets old new m))"

definition move_presubmitted :: "acct \<Rightarrow> acct \<Rightarrow> reg_pool \<Rightarrow> reg_pool" where
  "move_presubmitted old new s =
     (let r = CurrentRound s; keys = PreSubmittedPubKeys s r old;
          taken = (PreSubmittedPubKeys s r)(old := [])
      in s\<lparr>PreSubmittedPubKeys := (PreSubmittedPubKeys s)(r :=
             (if keys = [] then taken else taken(new := keys)))\<rparr>)"

definition pool_replace_authority :: "acct \<Rightarrow> acct \<Rightarrow> reg_pool \<Rightarrow> unit pool_result" where
  "pool_replace_authority old new s =
     (let r = CurrentRound s; s1 = move_presubmitted old new s in
      expect (case SystemVault s1 r of
                None \<Rightarrow> Some s1
              | Some v \<Rightarrow> map_option (\<lambda>v'. s1\<lparr>SystemVault := (SystemVault s1)(r \<mapsto> v')\<rparr>) (replace_pending old new v))
        (\<lambda>s2.
      expect (replace_targets old new (RegistrationPool s2 r)) (\<lambda>m.
      Done () (s2\<lparr>RegistrationPool := (RegistrationPool s2)(r := m)\<rparr>))))"

definition get_relay_executives :: "pool_round \<Rightarrow> reg_pool \<Rightarrow> acct list" where
  "get_relay_executives r s = RelayExecutives s r"

text \<open>Changing a user's refund address: out of the old list, into the new one.\<close>

definition rebond_refund :: "pool_round \<Rightarrow> acct \<Rightarrow> BitcoinRelayTarget \<Rightarrow> btc_address \<Rightarrow> reg_pool \<Rightarrow> reg_pool" where
  "rebond_refund r who t new s =
     (let s1 = mutate_refund r (refund_address t) (filter (\<lambda>u. u \<noteq> who)) s;
          s2 = mutate_refund r new (\<lambda>us. us @ [who]) s1
      in s2\<lparr>RegistrationPool := dm_insert r who (set_refund_address new t) (RegistrationPool s2)\<rparr>)"

definition process_set_refund :: "pool_round \<Rightarrow> acct \<times> SetRefundState \<Rightarrow> reg_pool \<Rightarrow> reg_pool" where
  "process_set_refund r p s =
     (let who = fst p; old = sr_old (snd p); new = sr_new (snd p) in
      if bt_contains new (BondedVault s r) then p_deposit (RefundSetDenied who old new) s
      else case bt_get (RegistrationPool s r) who of
             None \<Rightarrow> p_deposit (RefundSetDenied who old new) s
           | Some t \<Rightarrow> p_deposit (RefundSetApproved who old new) (rebond_refund r who t new s))"

definition process_set_refunds :: "reg_pool \<Rightarrow> reg_pool" where
  "process_set_refunds s =
     (let r = CurrentRound s; s1 = fold (process_set_refund r) (PendingSetRefunds s r) s
      in s1\<lparr>PendingSetRefunds := (PendingSetRefunds s1)(r := [])\<rparr>)"

definition change_members_sorted :: "acct list \<Rightarrow> reg_pool \<Rightarrow> reg_pool" where
  "change_members_sorted new s =
     (let r = (case ServiceState s of Normal \<Rightarrow> CurrentRound s | _ \<Rightarrow> add32 (CurrentRound s) 1)
      in s\<lparr>RelayExecutives := (RelayExecutives s)(r := new)\<rparr>)"

definition initialize_members :: "acct list \<Rightarrow> reg_pool \<Rightarrow> reg_pool" where
  "initialize_members members s = s\<lparr>RelayExecutives := (RelayExecutives s)(1 := members)\<rparr>"

subsection \<open>Vault addresses\<close>

definition get_n :: "PEnv \<Rightarrow> nat" where
  "get_n E = as_u32 (length (executives E))"

definition get_m :: "PConfig \<Rightarrow> PEnv \<Rightarrow> reg_pool \<Rightarrow> nat" where
  "get_m P E s = percent_mul_ceil P (MultiSigRatio s) (get_n E)"

definition sort_pub_keys :: "PConfig \<Rightarrow> Public list \<Rightarrow> bytes list option" where
  "sort_pub_keys P ks =
     (if \<forall>k\<in>set ks. pk_from_slice P k \<noteq> None then Some (pk_sort P (map (\<lambda>k. the (pk_from_slice P k)) ks)) else None)"

definition generate_descriptor :: "PConfig \<Rightarrow> nat \<Rightarrow> Public list \<Rightarrow> bytes option" where
  "generate_descriptor P m ks =
     Option.bind (sort_pub_keys P ks) (\<lambda>sorted.
     Option.bind (new_wsh_sortedmulti P m sorted) (\<lambda>d. if sanity_check P d then Some d else None))"

text \<open>A byte string as a bounded Bitcoin address.\<close>

definition bounded_address :: "bytes \<Rightarrow> btc_address option" where
  "bounded_address b = (if length b \<le> ADDRESS_MAX_LENGTH then Some b else None)"

definition generate_vault_address ::
  "PConfig \<Rightarrow> PEnv \<Rightarrow> Public list \<Rightarrow> reg_pool \<Rightarrow> (btc_address \<times> bytes) pool_result" where
  "generate_vault_address P E ks s =
     ok_or (generate_descriptor P (get_m P E s) ks) DescriptorGeneration s (\<lambda>d.
     ok_or (desc_address P d) DescriptorGeneration s (\<lambda>a.
     ok_or (bounded_address a) InvalidBitcoinAddress s (\<lambda>a'. Done (a', d) s)))"

definition try_bond_vault_address ::
  "PConfig \<Rightarrow> PEnv \<Rightarrow> MultiSigAccount \<Rightarrow> btc_address \<Rightarrow> acct \<Rightarrow> pool_round \<Rightarrow> reg_pool \<Rightarrow> MultiSigAccount pool_result" where
  "try_bond_vault_address P E v refund who r s =
     bind_outcome (generate_vault_address P E (pub_keys v) s) (\<lambda>(a, d) s.
     ensure (a \<noteq> refund) AddressAlreadyRegistered s (
     ensure (\<not> bt_contains a (BondedRefund s r)) AddressAlreadyRegistered s (
     Done (ms_set_descriptor d (ms_set_address a v))
       (p_deposit (VaultGenerated who refund a)
         (s\<lparr>BondedVault := dm_insert r a who (BondedVault s),
            BondedDescriptor := dm_insert r a d (BondedDescriptor s)\<rparr>)))))"

definition get_checked_bitcoin_address :: "PConfig \<Rightarrow> bytes \<Rightarrow> reg_pool \<Rightarrow> btc_address pool_result" where
  "get_checked_bitcoin_address P b s =
     ok_or (checked_address P b) InvalidBitcoinAddress s (\<lambda>a.
     ok_or (bounded_address a) InvalidBitcoinAddress s (\<lambda>a'. Done a' s))"

subsection \<open>Calls of users\<close>

definition pool_signed :: "origin \<Rightarrow> reg_pool \<Rightarrow> (acct \<Rightarrow> 'a pool_result) \<Rightarrow> 'a pool_result" where
  "pool_signed og s k = (case og of Signed who \<Rightarrow> k who | _ \<Rightarrow> Fail PBadOrigin s)"

definition ensure_normal :: "reg_pool \<Rightarrow> 'a pool_result \<Rightarrow> 'a pool_result" where
  "ensure_normal s k = ensure (ServiceState s = Normal) UnderMaintenance s k"

definition request_set_refund :: "PConfig \<Rightarrow> origin \<Rightarrow> bytes \<Rightarrow> reg_pool \<Rightarrow> unit pool_result" where
  "request_set_refund P og raw s =
     ensure_normal s (
     pool_signed og s (\<lambda>who.
     bind_outcome (get_checked_bitcoin_address P raw s) (\<lambda>new s.
     let r = CurrentRound s in
     ok_or (bt_get (RegistrationPool s r) who) UserDNE s (\<lambda>t.
     let old = refund_address t in
     ensure (old \<noteq> new) PNoWritingSameValue s (
     ensure (\<not> bt_contains new (BondedVault s r)) AddressAlreadyRegistered s (
     ensure (bt_get (PendingSetRefunds s r) who = None) RefundSetAlreadyRequested s (
     Done () (p_deposit (RefundSetRequested who old new)
       (s\<lparr>PendingSetRefunds := dm_insert r who \<lparr>sr_old = old, sr_new = new\<rparr> (PendingSetRefunds s)\<rparr>)))))))))"

text \<open>The loop over the executives: each gives its first presubmitted key, which is used when it is new.\<close>

fun collect_presubmitted :: "pool_round \<Rightarrow> acct list \<Rightarrow> MultiSigAccount \<Rightarrow> reg_pool \<Rightarrow> MultiSigAccount pool_result" where
  "collect_presubmitted r [] v s = Done v s"
| "collect_presubmitted r (x # xs) v s =
     (case PreSubmittedPubKeys s r x of
        [] \<Rightarrow> collect_presubmitted r xs v s
      | k # ks \<Rightarrow>
          let s1 = s\<lparr>PreSubmittedPubKeys := (PreSubmittedPubKeys s)(r := (PreSubmittedPubKeys s r)(x := ks))\<rparr> in
          if bt_get (BondedPubKey s1 r) k = None then
            ok_or (keys_try_insert x k v) POutOfRange s1 (\<lambda>v'. collect_presubmitted r xs v' s1)
          else collect_presubmitted r xs v s1)"

definition bond_keys :: "pool_round \<Rightarrow> acct \<Rightarrow> Public list \<Rightarrow> reg_pool \<Rightarrow> reg_pool" where
  "bond_keys r who ks s = s\<lparr>BondedPubKey := fold (\<lambda>k. dm_insert r k who) ks (BondedPubKey s)\<rparr>"

text \<open>
  An error of the address generation is caught: the keys are cleared and the vault stays pending.
  The state an error carries is the one before it, since nothing is written before the last check.
\<close>

definition bond_if_ready ::
  "PConfig \<Rightarrow> PEnv \<Rightarrow> acct \<Rightarrow> pool_round \<Rightarrow> BitcoinRelayTarget \<Rightarrow> reg_pool \<Rightarrow> BitcoinRelayTarget pool_result" where
  "bond_if_ready P E who r t s =
     (if is_key_generation_ready (vault t) then
        case try_bond_vault_address P E (vault t) (refund_address t) who r s of
          Done v s1 \<Rightarrow> Done (t\<lparr>vault := v\<rparr>) (bond_keys r who (pub_keys v) s1)
        | Fail _ s1 \<Rightarrow> Done (t\<lparr>vault := clear_pub_keys (vault t)\<rparr>) (p_deposit (VaultPending who (refund_address t)) s1)
        | Panic \<Rightarrow> Panic
      else Done t s)"

definition request_vault :: "PConfig \<Rightarrow> PEnv \<Rightarrow> origin \<Rightarrow> bytes \<Rightarrow> reg_pool \<Rightarrow> unit pool_result" where
  "request_vault P E og raw s =
     ensure_normal s (
     pool_signed og s (\<lambda>who.
     bind_outcome (get_checked_bitcoin_address P raw s) (\<lambda>refund s.
     let r = CurrentRound s in
     ensure (\<not> bt_contains refund (BondedVault s r)) AddressAlreadyRegistered s (
     ensure (\<not> bt_contains who (RegistrationPool s r)) AddressAlreadyRegistered s (
     let t = BitcoinRelayTarget_new refund (get_m P E s) (get_n E) in
     bind_outcome (collect_presubmitted r (executives E) (vault t) s) (\<lambda>v s.
     bind_outcome (bond_if_ready P E who r (t\<lparr>vault := v\<rparr>) s) (\<lambda>t s.
     let s1 = mutate_refund r refund (\<lambda>us. us @ [who]) s
     in Done () (s1\<lparr>RegistrationPool := dm_insert r who t (RegistrationPool s1)\<rparr>))))))))"

subsection \<open>System vaults and keys\<close>

definition pool_root :: "origin \<Rightarrow> reg_pool \<Rightarrow> 'a pool_result \<Rightarrow> 'a pool_result" where
  "pool_root og s k = ensure (og = Root) PBadOrigin s k"

definition pool_none :: "origin \<Rightarrow> reg_pool \<Rightarrow> 'a pool_result \<Rightarrow> 'a pool_result" where
  "pool_none og s k = ensure (og = NoOrigin) PBadOrigin s k"

definition request_system_vault :: "PConfig \<Rightarrow> PEnv \<Rightarrow> origin \<Rightarrow> bool \<Rightarrow> reg_pool \<Rightarrow> unit pool_result" where
  "request_system_vault P E og migration_prepare s =
     pool_root og s (
     ensure (ServiceState s = Normal \<or> ServiceState s = PrepareNextSystemVault) UnderMaintenance s (
     let r = (if migration_prepare then add32 (CurrentRound s) 1 else CurrentRound s) in
     ensure (SystemVault s r = None) VaultAlreadyGenerated s (
     Done () (p_deposit SystemVaultPending
       (s\<lparr>SystemVault := (SystemVault s)(r \<mapsto> MultiSigAccount_new (get_m P E s) (get_n E))\<rparr>)))))"

text \<open>The checks of a submitted key and its insertion into the vault, the same for both kinds of vault.\<close>

definition submit_key ::
  "PConfig \<Rightarrow> pool_round \<Rightarrow> acct \<Rightarrow> Public \<Rightarrow> MultiSigAccount \<Rightarrow> reg_pool \<Rightarrow> MultiSigAccount pool_result" where
  "submit_key P r a k v s =
     ensure (ms_is_pending v) VaultAlreadyGenerated s (
     ensure (\<not> is_authority_submitted a v) AuthorityAlreadySubmittedPubKey s (
     ensure (\<not> is_key_submitted k v) VaultAlreadyContainsPubKey s (
     ensure (pk_from_slice P k \<noteq> None) InvalidPublicKey s (
     ensure (bt_get (BondedPubKey s r) k = None) VaultAlreadyContainsPubKey s (
     ok_or (keys_try_insert a k v) POutOfRange s (\<lambda>v'. Done v' s))))))"

definition submit_vault_key :: "PConfig \<Rightarrow> PEnv \<Rightarrow> origin \<Rightarrow> VaultKeySubmission \<Rightarrow> reg_pool \<Rightarrow> unit pool_result" where
  "submit_vault_key P E og sub s =
     (let a = ks_authority_id sub; who = ks_who sub; k = ks_pub_key sub in
      pool_none og s (
      ensure_normal s (
      let r = CurrentRound s in
      ensure (r = ks_pool_round sub) PoolRoundOutdated s (
      ok_or (bt_get (RegistrationPool s r) who) UserDNE s (\<lambda>t.
      bind_outcome (submit_key P r a k (vault t) s) (\<lambda>v s.
      let s1 = p_deposit (VaultKeySubmitted who k) s in
      bind_outcome (if is_key_generation_ready v
                    then try_bond_vault_address P E v (refund_address t) who r s1 else Done v s1) (\<lambda>v s.
      Done () (s\<lparr>BondedPubKey := dm_insert r k who (BondedPubKey s),
                 RegistrationPool := dm_insert r who (t\<lparr>vault := v\<rparr>) (RegistrationPool s)\<rparr>))))))))"

definition submit_system_vault_key ::
  "PConfig \<Rightarrow> PEnv \<Rightarrow> origin \<Rightarrow> VaultKeySubmission \<Rightarrow> reg_pool \<Rightarrow> unit pool_result" where
  "submit_system_vault_key P E og sub s =
     (let a = ks_authority_id sub; who = ks_who sub; k = ks_pub_key sub in
      pool_none og s (
      ok_or (case ServiceState s of
               Normal \<Rightarrow> Some (CurrentRound s)
             | PrepareNextSystemVault \<Rightarrow> Some (add32 (CurrentRound s) 1)
             | _ \<Rightarrow> None) UnderMaintenance s (\<lambda>r.
      ensure (r = ks_pool_round sub) PoolRoundOutdated s (
      ensure (who = ADDRESS_U64) VaultDNE s (
      ok_or (SystemVault s r) VaultDNE s (\<lambda>v0.
      bind_outcome (submit_key P r a k v0 s) (\<lambda>v s.
      let st = ServiceState s; s1 = p_deposit (VaultKeySubmitted who k) s in
      bind_outcome
        (if is_key_generation_ready v then
           bind_outcome (try_bond_vault_address P E v [] ADDRESS_U64 r s1) (\<lambda>v s.
           Done v (if st = PrepareNextSystemVault then s\<lparr>ServiceState := UTXOTransfer\<rparr> else s))
         else Done v s1) (\<lambda>v s.
      Done () (s\<lparr>BondedPubKey := dm_insert r k ADDRESS_U64 (BondedPubKey s),
                 SystemVault := (SystemVault s)(r \<mapsto> v)\<rparr>)))))))))"

definition vault_key_presubmission :: "PConfig \<Rightarrow> origin \<Rightarrow> VaultKeyPreSubmission \<Rightarrow> reg_pool \<Rightarrow> unit pool_result" where
  "vault_key_presubmission P og sub s =
     (let a = kp_authority_id sub; ks = kp_pub_keys sub in
      pool_none og s (
      ensure_normal s (
      let r = CurrentRound s in
      ensure (r = kp_pool_round sub) PoolRoundOutdated s (
      ensure (\<forall>k\<in>set ks. pk_from_slice P k \<noteq> None) InvalidPublicKey s (
      let pre = PreSubmittedPubKeys s r a in
      ensure (length pre + length ks \<le> MaxPreSubmission s) POutOfRange s (
      ensure (\<not> (\<exists>k\<in>set ks. k \<in> set pre)) AuthorityAlreadySubmittedPubKey s (
      Done () (p_deposit (VaultKeyPresubmitted a (as_u32 (length ks)))
        (s\<lparr>PreSubmittedPubKeys := (PreSubmittedPubKeys s)(r :=
             (PreSubmittedPubKeys s r)(a := fold insort_insert ks pre))\<rparr>)))))))))"

subsection \<open>Administration and migration\<close>

definition unbond_keys :: "pool_round \<Rightarrow> Public list \<Rightarrow> reg_pool \<Rightarrow> reg_pool" where
  "unbond_keys r ks s = s\<lparr>BondedPubKey := fold (dm_remove r) ks (BondedPubKey s)\<rparr>"

definition clear_vault :: "PConfig \<Rightarrow> origin \<Rightarrow> bytes \<Rightarrow> reg_pool \<Rightarrow> unit pool_result" where
  "clear_vault P og raw s =
     pool_root og s (
     ensure_normal s (
     let r = CurrentRound s in
     bind_outcome (get_checked_bitcoin_address P raw s) (\<lambda>a s.
     ok_or (bt_get (BondedVault s r) a) VaultDNE s (\<lambda>who.
     bind_outcome
       (if who = ADDRESS_U64 then
          ok_or (SystemVault s r) VaultDNE s (\<lambda>v.
          let s1 = unbond_keys r (pub_keys v) s
          in Done () (s1\<lparr>SystemVault := (SystemVault s1)(r := None)\<rparr>))
        else
          ok_or (bt_get (RegistrationPool s r) who) UserDNE s (\<lambda>t.
          let s1 = unbond_keys r (pub_keys (vault t)) s
          in Done () (s1\<lparr>RegistrationPool := dm_remove r who (RegistrationPool s1),
                         BondedRefund := dm_remove r (refund_address t) (BondedRefund s1)\<rparr>))) (\<lambda>_ s.
     Done () (s\<lparr>BondedVault := dm_remove r a (BondedVault s),
                BondedDescriptor := dm_remove r a (BondedDescriptor s)\<rparr>))))))"

definition migration_control :: "PConfig \<Rightarrow> PEnv \<Rightarrow> origin \<Rightarrow> reg_pool \<Rightarrow> unit pool_result" where
  "migration_control P E og s =
     pool_root og s (
     case ServiceState s of
       Normal \<Rightarrow>
         ensure (is_ready_for_migrate E) SocketQueueNotReady s (
         Done () ((p_deposit MigrationStarted s)\<lparr>ServiceState := SetExecutiveMembers\<rparr>))
     | SetExecutiveMembers \<Rightarrow>
         bind_outcome (request_system_vault P E og True (s\<lparr>ServiceState := PrepareNextSystemVault\<rparr>)) (\<lambda>_ s. Done () s)
     | PrepareNextSystemVault \<Rightarrow> Fail DoNotInterceptMigration s
     | UTXOTransfer \<Rightarrow>
         ensure (OngoingVaultMigration s \<noteq> [] \<and> (\<forall>e\<in>set (OngoingVaultMigration s). snd e)) DoNotInterceptMigration s (
         Done () ((p_deposit MigrationCompleted s)\<lparr>CurrentRound := add32 (CurrentRound s) 1,
           ServiceState := Normal, OngoingVaultMigration := []\<rparr>)))"

definition drop_previous_round :: "origin \<Rightarrow> pool_round \<Rightarrow> reg_pool \<Rightarrow> unit pool_result" where
  "drop_previous_round og r s =
     pool_root og s (
     ensure_normal s (
     ensure (r < CurrentRound s) POutOfRange s (
     Done () (p_deposit (RoundDropped r)
       (s\<lparr>SystemVault := (SystemVault s)(r := None),
          RegistrationPool := (RegistrationPool s)(r := []),
          BondedVault := (BondedVault s)(r := []),
          BondedRefund := (BondedRefund s)(r := []),
          BondedPubKey := (BondedPubKey s)(r := []),
          BondedDescriptor := (BondedDescriptor s)(r := []),
          PreSubmittedPubKeys := (PreSubmittedPubKeys s)(r := (\<lambda>_. []))\<rparr>)))))"

definition set_max_presubmission :: "origin \<Rightarrow> nat \<Rightarrow> reg_pool \<Rightarrow> unit pool_result" where
  "set_max_presubmission og n s =
     pool_root og s (ensure (0 < n) POutOfRange s (Done () (s\<lparr>MaxPreSubmission := n\<rparr>)))"

definition set_multi_sig_ratio :: "origin \<Rightarrow> nat \<Rightarrow> reg_pool \<Rightarrow> unit pool_result" where
  "set_multi_sig_ratio og new s =
     pool_root og s (
     ensure (50 \<le> new) POutOfRange s (
     ensure (new \<noteq> MultiSigRatio s) PNoWritingSameValue s (
     Done () (p_deposit (MultiSigRatioSet (MultiSigRatio s) new) (s\<lparr>MultiSigRatio := new\<rparr>)))))"

fun approve_refund_sets :: "pool_round \<Rightarrow> (acct \<times> btc_address) list \<Rightarrow> reg_pool \<Rightarrow> unit pool_result" where
  "approve_refund_sets r [] s = Done () s"
| "approve_refund_sets r ((who, a) # sets) s =
     ok_or (bt_get (PendingSetRefunds s r) who) RefundSetDNE s (\<lambda>pending.
     ensure (sr_new pending = a) RefundSetDNE s (
     bind_outcome
       (if bt_contains (sr_new pending) (BondedVault s r) then Done () s
        else ok_or (bt_get (RegistrationPool s r) who) UserDNE s (\<lambda>t.
             Done () (p_deposit (RefundSetApproved who (refund_address t) (sr_new pending))
               (rebond_refund r who t (sr_new pending) s)))) (\<lambda>_ s.
     approve_refund_sets r sets (s\<lparr>PendingSetRefunds := dm_remove r who (PendingSetRefunds s)\<rparr>))))"

definition approve_set_refunds :: "origin \<Rightarrow> SetRefundsApproval \<Rightarrow> reg_pool \<Rightarrow> unit pool_result" where
  "approve_set_refunds og approval s =
     pool_none og s (
     ensure_normal s (
     let r = CurrentRound s in
     ensure (r = ra_pool_round approval) PoolRoundOutdated s (
     approve_refund_sets r (ra_refund_sets approval) s)))"

text \<open>The genesis build runs on empty storage.\<close>

definition pool_default :: reg_pool where
  "pool_default = \<lparr>CurrentRound = 0, RelayExecutives = (\<lambda>_. []), ServiceState = Normal,
     SystemVault = (\<lambda>_. None), RegistrationPool = (\<lambda>_. []), BondedVault = (\<lambda>_. []),
     BondedRefund = (\<lambda>_. []), BondedPubKey = (\<lambda>_. []), BondedDescriptor = (\<lambda>_. []),
     MultiSigRatio = 0, PreSubmittedPubKeys = (\<lambda>_ _. []), MaxPreSubmission = 0,
     OngoingVaultMigration = [], PendingSetRefunds = (\<lambda>_. []), PEvents = []\<rparr>"

definition pool_genesis :: "PConfig \<Rightarrow> reg_pool \<Rightarrow> reg_pool" where
  "pool_genesis P s = s\<lparr>MultiSigRatio := DefaultMultiSigRatio P, CurrentRound := 1,
     ServiceState := Normal, MaxPreSubmission := 100\<rparr>"

subsection \<open>Unsigned transactions and dispatch\<close>

datatype pool_call =
    RequestSetRefund bytes
  | RequestVault bytes
  | RequestSystemVault bool
  | SubmitVaultKey VaultKeySubmission bytes
  | SubmitSystemVaultKey VaultKeySubmission bytes
  | VaultKeyPresubmission VaultKeyPreSubmission bytes
  | ClearVault bytes
  | MigrationControl
  | DropPreviousRound pool_round
  | SetMaxPresubmission nat
  | SetMultiSigRatio nat
  | ApproveSetRefunds SetRefundsApproval bytes

datatype pool_validity = PValid | PBadSigner | PBadProof | PStale | PInvalidCall

text \<open>
  Signature verification, the decimal and hexadecimal formatting and the hash of a tag are
  parameters; the error of \<open>verify_legacy_authority\<close> is the socket queue's.
\<close>

record PSig =
  p_sig_verify :: "bytes \<Rightarrow> bytes \<Rightarrow> acct \<Rightarrow> bool"
  fmt_u32 :: "nat \<Rightarrow> bytes"
  key_hex :: "Public \<Rightarrow> bytes"
  acct_hex :: "acct \<Rightarrow> bytes"
  fmt_tag_hash :: "string \<Rightarrow> bytes"
  colon :: "8 word"

definition verify_key_submission :: "PSig \<Rightarrow> PEnv \<Rightarrow> VaultKeySubmission \<Rightarrow> bytes \<Rightarrow> pool_validity" where
  "verify_key_submission G E sub sig =
     (if ks_authority_id sub \<notin> set (executives E) then PBadSigner
      else if \<not> p_sig_verify G sig (fmt_u32 G (ks_pool_round sub) @ [colon G] @ key_hex G (ks_pub_key sub)) (ks_authority_id sub)
        then PBadProof
      else PValid)"

definition verify_key_presubmission :: "PSig \<Rightarrow> PEnv \<Rightarrow> VaultKeyPreSubmission \<Rightarrow> bytes \<Rightarrow> pool_validity" where
  "verify_key_presubmission G E sub sig =
     (if kp_authority_id sub \<notin> set (executives E) then PBadSigner
      else if \<not> p_sig_verify G sig
             (fmt_u32 G (kp_pool_round sub) @ [colon G] @ concat (map (key_hex G) (kp_pub_keys sub))) (kp_authority_id sub)
        then PBadProof
      else PValid)"

definition verify_set_refunds_approval :: "PSig \<Rightarrow> PEnv \<Rightarrow> SetRefundsApproval \<Rightarrow> bytes \<Rightarrow> pool_validity" where
  "verify_set_refunds_approval G E ap sig =
     (if \<not> verify_legacy_authority E (ra_authority_id ap) then PBadSigner
      else if ra_deadline ap < p_block_number E then PStale
      else if \<not> p_sig_verify G sig
             (fmt_tag_hash G ''SetRefundsApproval'' @ fmt_u32 G (ra_pool_round ap) @ [colon G] @
              fmt_u32 G (ra_deadline ap) @ [colon G] @ concat (map (acct_hex G \<circ> fst) (ra_refund_sets ap)))
             (ra_authority_id ap)
        then PBadProof
      else PValid)"

definition pool_validate_unsigned :: "PSig \<Rightarrow> PEnv \<Rightarrow> pool_call \<Rightarrow> pool_validity" where
  "pool_validate_unsigned G E c =
     (case c of
        SubmitVaultKey sub sig \<Rightarrow> verify_key_submission G E sub sig
      | SubmitSystemVaultKey sub sig \<Rightarrow> verify_key_submission G E sub sig
      | VaultKeyPresubmission sub sig \<Rightarrow> verify_key_presubmission G E sub sig
      | ApproveSetRefunds ap sig \<Rightarrow> verify_set_refunds_approval G E ap sig
      | _ \<Rightarrow> PInvalidCall)"

definition pool_call_run :: "PConfig \<Rightarrow> PEnv \<Rightarrow> origin \<Rightarrow> pool_call \<Rightarrow> reg_pool \<Rightarrow> unit pool_result" where
  "pool_call_run P E og c s =
     (case c of
        RequestSetRefund new \<Rightarrow> request_set_refund P og new s
      | RequestVault refund \<Rightarrow> request_vault P E og refund s
      | RequestSystemVault prep \<Rightarrow> request_system_vault P E og prep s
      | SubmitVaultKey sub _ \<Rightarrow> submit_vault_key P E og sub s
      | SubmitSystemVaultKey sub _ \<Rightarrow> submit_system_vault_key P E og sub s
      | VaultKeyPresubmission sub _ \<Rightarrow> vault_key_presubmission P og sub s
      | ClearVault a \<Rightarrow> clear_vault P og a s
      | MigrationControl \<Rightarrow> migration_control P E og s
      | DropPreviousRound r \<Rightarrow> drop_previous_round og r s
      | SetMaxPresubmission n \<Rightarrow> set_max_presubmission og n s
      | SetMultiSigRatio n \<Rightarrow> set_multi_sig_ratio og n s
      | ApproveSetRefunds ap _ \<Rightarrow> approve_set_refunds og ap s)"

end
