(* ===== verification/Reg_Pool_Inv.thy ===== *)
theory Reg_Pool_Inv
  imports Reg_Pool
begin

text \<open>
  The invariant of the registration pool. Every storage map is indexed by the round, and an operation
  changes one round at a time, so the invariant is stated for the entries of one round
  (\<open>round_ok\<close>): each bonded vault belongs to an account whose vault has that address and
  descriptor, no address with refunds is a vault, each user of a refund list is registered with that
  address, and every stored vault has at most the bounded number of keys and a threshold of at least
  half of its signers.
\<close>

named_theorems pool_Done "inversion of successful pool operations"

lemmas [pool_Done] = guard_Done

lemma pool_signed_Done [pool_Done]:
  "pool_signed og s k = Done u s' \<longleftrightarrow> (\<exists>who. og = Signed who \<and> k who = Done u s')"
  by (cases og) (simp_all add: pool_signed_def)

lemma ensure_origin_Done [pool_Done]:
  "ensure_normal s k = Done u s' \<longleftrightarrow> ServiceState s = Normal \<and> k = Done u s'"
  "pool_root og s k = Done u s' \<longleftrightarrow> og = Root \<and> k = Done u s'"
  "pool_none og s k = Done u s' \<longleftrightarrow> og = NoOrigin \<and> k = Done u s'"
  by (simp_all add: ensure_normal_def pool_root_def pool_none_def ensure_Done)

lemma bounded_address_Some [simp]: "bounded_address b = Some a \<longleftrightarrow> a = b \<and> length b \<le> ADDRESS_MAX_LENGTH"
  by (auto simp: bounded_address_def)

lemma checked_Done [pool_Done]:
  "get_checked_bitcoin_address P raw s = Done a s' \<longleftrightarrow>
   s' = s \<and> checked_address P raw = Some a \<and> length a \<le> ADDRESS_MAX_LENGTH"
  by (auto simp: get_checked_bitcoin_address_def guard_Done)

lemma submit_key_Done [pool_Done]:
  "submit_key P r a k v s = Done v' s' \<longleftrightarrow>
   s' = s \<and> ms_is_pending v \<and> \<not> is_authority_submitted a v \<and> \<not> is_key_submitted k v \<and>
   pk_from_slice P k \<noteq> None \<and> bt_get (BondedPubKey s r) k = None \<and> keys_try_insert a k v = Some v'"
  by (auto simp: submit_key_def guard_Done)

lemma bond_Done:
  "try_bond_vault_address P E v refund who r s = Done v' s' \<longleftrightarrow>
   (\<exists>a d. generate_descriptor P (get_m P E s) (pub_keys v) = Some d \<and> desc_address P d = Some a \<and>
      length a \<le> ADDRESS_MAX_LENGTH \<and> a \<noteq> refund \<and> bt_get (BondedRefund s r) a = None \<and>
      v' = ms_set_descriptor d (ms_set_address a v) \<and>
      s' = p_deposit (VaultGenerated who refund a)
         (s\<lparr>BondedVault := dm_insert r a who (BondedVault s),
            BondedDescriptor := dm_insert r a d (BondedDescriptor s)\<rparr>))"
  by (auto simp: try_bond_vault_address_def generate_vault_address_def bt_contains_def guard_Done)

lemma bond_Fail: "try_bond_vault_address P E v refund who r s = Fail e s' \<Longrightarrow> s' = s"
  by (auto simp: try_bond_vault_address_def generate_vault_address_def bind_outcome_def ensure_def ok_or_def
      split: option.splits if_splits)

lemma bond_not_Panic: "try_bond_vault_address P E v refund who r s \<noteq> Panic"
  by (auto simp: try_bond_vault_address_def generate_vault_address_def guard_Panic)

subsection \<open>The entries of one round\<close>

definition threshold_ok :: "MultiSigAccount \<Rightarrow> bool" where
  "threshold_ok v \<longleftrightarrow> ms_m v \<le> ms_n v \<and> ms_n v \<le> 2 * ms_m v"

definition vault_ok :: "MultiSigAccount \<Rightarrow> bool" where
  "vault_ok v \<longleftrightarrow> keys_bounded v \<and> threshold_ok v"

text \<open>The vault an account owns: the system vault belongs to the precompile address.\<close>

definition owned_vault ::
  "MultiSigAccount option \<Rightarrow> (acct \<rightharpoonup> BitcoinRelayTarget) \<Rightarrow> acct \<Rightarrow> MultiSigAccount option" where
  "owned_vault sv pl who = (if who = ADDRESS_U64 then sv else map_option vault (pl who))"

definition vaults_ok :: "MultiSigAccount option \<Rightarrow> (acct \<rightharpoonup> BitcoinRelayTarget) \<Rightarrow> bool" where
  "vaults_ok sv pl \<longleftrightarrow>
     pl ADDRESS_U64 = None \<and> (\<forall>who v. owned_vault sv pl who = Some v \<longrightarrow> vault_ok v)"

definition owners_ok ::
  "MultiSigAccount option \<Rightarrow> (acct \<rightharpoonup> BitcoinRelayTarget) \<Rightarrow> (btc_address \<rightharpoonup> acct) \<Rightarrow> (btc_address \<rightharpoonup> bytes) \<Rightarrow> bool" where
  "owners_ok sv pl bv bd \<longleftrightarrow> dom bd = dom bv \<and>
     (\<forall>a who. bv a = Some who \<longrightarrow>
        (\<exists>v. owned_vault sv pl who = Some v \<and> ms_address v = Generated a \<and> bd a = Some (ms_descriptor v)))"

definition refunds_ok ::
  "(acct \<rightharpoonup> BitcoinRelayTarget) \<Rightarrow> (btc_address \<rightharpoonup> acct) \<Rightarrow> (btc_address \<rightharpoonup> acct list) \<Rightarrow> bool" where
  "refunds_ok pl bv br \<longleftrightarrow>
     (\<forall>a us. br a = Some us \<longrightarrow> distinct us \<and> (us \<noteq> [] \<longrightarrow> bv a = None) \<and>
        (\<forall>u\<in>set us. \<exists>t. pl u = Some t \<and> refund_address t = a))"

definition round_ok ::
  "MultiSigAccount option \<Rightarrow> (acct \<rightharpoonup> BitcoinRelayTarget) \<Rightarrow> (btc_address \<rightharpoonup> acct) \<Rightarrow>
   (btc_address \<rightharpoonup> acct list) \<Rightarrow> (btc_address \<rightharpoonup> bytes) \<Rightarrow> bool" where
  "round_ok sv pl bv br bd \<longleftrightarrow> vaults_ok sv pl \<and> owners_ok sv pl bv bd \<and> refunds_ok pl bv br"

lemma round_okD:
  assumes "round_ok sv pl bv br bd"
  shows "vaults_ok sv pl" "owners_ok sv pl bv bd" "refunds_ok pl bv br"
  using assms by (simp_all add: round_ok_def)

lemma round_ok_empty [simp]: "round_ok None Map.empty Map.empty Map.empty Map.empty"
  by (auto simp: round_ok_def vaults_ok_def owners_ok_def refunds_ok_def owned_vault_def split: if_splits)

text \<open>An account without a generated vault owns no bonded address.\<close>

lemma pending_owns_nothing:
  assumes "owners_ok sv pl bv bd" "\<forall>v. owned_vault sv pl who = Some v \<longrightarrow> ms_is_pending v"
  shows "bv a \<noteq> Some who"
  using assms by (fastforce simp: owners_ok_def ms_is_pending_def)

text \<open>A bonded account owns one address.\<close>

lemma owner_unique: "owners_ok sv pl bv bd \<Longrightarrow> bv a = Some who \<Longrightarrow> bv b = Some who \<Longrightarrow> a = b"
  unfolding owners_ok_def by (metis AddressState.inject option.inject)

subsection \<open>Changes of one round\<close>

text \<open>Replacing the vault of \<open>who\<close> by \<open>v\<close>, without and with bonding an address.\<close>

definition put_vault ::
  "acct \<Rightarrow> MultiSigAccount \<Rightarrow> MultiSigAccount option \<Rightarrow> (acct \<rightharpoonup> BitcoinRelayTarget) \<Rightarrow>
   MultiSigAccount option \<times> (acct \<rightharpoonup> BitcoinRelayTarget) \<Rightarrow> bool" where
  "put_vault who v sv pl c \<longleftrightarrow>
     (if who = ADDRESS_U64 then c = (Some v, pl)
      else \<exists>t. c = (sv, pl(who \<mapsto> t)) \<and> vault t = v \<and> (\<forall>t0. pl who = Some t0 \<longrightarrow> refund_address t = refund_address t0))"

lemma put_vault_owned:
  "put_vault who v sv pl (sv', pl') \<Longrightarrow> owned_vault sv' pl' w = (if w = who then Some v else owned_vault sv pl w)"
  by (auto simp: put_vault_def owned_vault_def split: if_splits)

lemma put_vault_vaults:
  assumes "vaults_ok sv pl" "put_vault who v sv pl (sv', pl')" "vault_ok v"
  shows "vaults_ok sv' pl'"
  using assms put_vault_owned [OF assms(2)] by (auto simp: vaults_ok_def put_vault_def split: if_splits)

lemma put_vault_refunds:
  assumes "refunds_ok pl bv br" "put_vault who v sv pl (sv', pl')" "\<And>a. br a \<noteq> Some [] \<and> br a \<noteq> None \<Longrightarrow> bv' a = bv a"
  shows "refunds_ok pl' bv' br"
proof -
  have "\<exists>t'. pl' u = Some t' \<and> refund_address t' = refund_address t" if "pl u = Some t" for u t
    using assms(2) that by (auto simp: put_vault_def split: if_splits)
  then show ?thesis using assms(1,3) unfolding refunds_ok_def by (metis option.distinct(1) option.inject)
qed

lemma put_pending:
  assumes "round_ok sv pl bv br bd" "put_vault who v sv pl (sv', pl')" "vault_ok v"
    and p: "\<forall>v0. owned_vault sv pl who = Some v0 \<longrightarrow> ms_is_pending v0"
  shows "round_ok sv' pl' bv br bd"
proof -
  note R = round_okD [OF assms(1)]
  have "bv a \<noteq> Some who" for a by (rule pending_owns_nothing [OF R(2) p])
  then have "owners_ok sv' pl' bv bd"
    using R(2) by (auto simp: owners_ok_def put_vault_owned [OF assms(2)])
  then show ?thesis
    using put_vault_vaults [OF R(1) assms(2,3)] put_vault_refunds [OF R(3) assms(2)] by (simp add: round_ok_def)
qed

lemma put_bonded:
  assumes "round_ok sv pl bv br bd" "put_vault who v sv pl (sv', pl')" "vault_ok v"
    and p: "\<forall>v0. owned_vault sv pl who = Some v0 \<longrightarrow> ms_is_pending v0"
    and a: "ms_address v = Generated a" "br a = None"
  shows "round_ok sv' pl' (bv(a \<mapsto> who)) br (bd(a \<mapsto> ms_descriptor v))"
proof -
  note R = round_okD [OF assms(1)]
  have "bv b \<noteq> Some who" for b by (rule pending_owns_nothing [OF R(2) p])
  then have "owners_ok sv' pl' (bv(a \<mapsto> who)) (bd(a \<mapsto> ms_descriptor v))"
    using R(2) a(1) by (auto simp: owners_ok_def put_vault_owned [OF assms(2)])
  then show ?thesis
    using put_vault_vaults [OF R(1) assms(2,3)] put_vault_refunds [OF R(3) assms(2), of "bv(a \<mapsto> who)"] a(2)
    by (force simp: round_ok_def)
qed

text \<open>A new user enters a refund list; the list of its address must not be a vault's.\<close>

lemma refunds_ok_push:
  assumes "refunds_ok pl bv br" "pl u = Some t" "refund_address t = a" "bv a = None"
    and "\<And>b us. br b = Some us \<Longrightarrow> u \<notin> set us"
  shows "refunds_ok pl bv (br(a \<mapsto> (case br a of Some us \<Rightarrow> us | None \<Rightarrow> []) @ [u]))"
proof -
  have "distinct us \<and> u \<notin> set us \<and> (\<forall>w\<in>set us. \<exists>t. pl w = Some t \<and> refund_address t = a)" if "br a = Some us" for us
    using assms(1,5) that unfolding refunds_ok_def by blast
  then show ?thesis using assms(1-4) unfolding refunds_ok_def
    by (auto split: option.splits)
qed

lemma unregistered_not_listed: "refunds_ok pl bv br \<Longrightarrow> pl u = None \<Longrightarrow> br b = Some us \<Longrightarrow> u \<notin> set us"
  by (force simp: refunds_ok_def)

text \<open>Moving a user to another refund address.\<close>

lemma refunds_ok_move:
  assumes R: "refunds_ok pl bv br" and t: "pl who = Some t" and n: "bv new = None"
    and br1: "br1 = br(refund_address t \<mapsto> filter (\<lambda>u. u \<noteq> who) (case br (refund_address t) of Some us \<Rightarrow> us | None \<Rightarrow> []))"
  shows "refunds_ok (pl(who \<mapsto> set_refund_address new t)) bv
     (br1(new \<mapsto> (case br1 new of Some us \<Rightarrow> us | None \<Rightarrow> []) @ [who]))"
proof (rule refunds_ok_push [where t = "set_refund_address new t"])
  have out: "who \<notin> set us" if "br1 b = Some us" for b us
    using R t that unfolding refunds_ok_def br1 by (fastforce split: if_splits option.splits)
  show "refunds_ok (pl(who \<mapsto> set_refund_address new t)) bv br1"
    unfolding refunds_ok_def
  proof (intro allI impI)
    fix b us assume b: "br1 b = Some us"
    show "distinct us \<and> (us \<noteq> [] \<longrightarrow> bv b = None) \<and>
        (\<forall>u\<in>set us. \<exists>t'. (pl(who \<mapsto> set_refund_address new t)) u = Some t' \<and> refund_address t' = b)"
    proof (cases "us = []")
      case False
      with b obtain vs where "br b = Some vs" "set us \<subseteq> set vs" "distinct vs \<Longrightarrow> distinct us"
        unfolding br1 by (cases "br (refund_address t)") (auto split: if_splits)
      moreover have "vs \<noteq> []" using calculation False by auto
      ultimately show ?thesis using R out [OF b] unfolding refunds_ok_def by (metis fun_upd_other subsetD)
    qed simp
  qed
  fix b us assume "br1 b = Some us"
  then show "who \<notin> set us" by (rule out)
qed (simp_all add: set_refund_address_def n)

lemma move_round:
  assumes R: "round_ok sv pl bv br bd" and t: "pl who = Some t" and n: "bv new = None"
    and br1: "br1 = br(refund_address t \<mapsto> filter (\<lambda>u. u \<noteq> who) (case br (refund_address t) of Some us \<Rightarrow> us | None \<Rightarrow> []))"
  shows "round_ok sv (pl(who \<mapsto> set_refund_address new t)) bv
     (br1(new \<mapsto> (case br1 new of Some us \<Rightarrow> us | None \<Rightarrow> []) @ [who])) bd"
proof -
  note R' = round_okD [OF R]
  have "owned_vault sv (pl(who \<mapsto> set_refund_address new t)) = owned_vault sv pl"
    using t by (auto simp: owned_vault_def set_refund_address_def)
  then have "vaults_ok sv (pl(who \<mapsto> set_refund_address new t))" "owners_ok sv (pl(who \<mapsto> set_refund_address new t)) bv bd"
    using R' t by (auto simp: vaults_ok_def owners_ok_def)
  with refunds_ok_move [OF R'(3) t n br1] show ?thesis by (simp add: round_ok_def)
qed

text \<open>Clearing the vault at an address.\<close>

lemma clear_system_round:
  assumes R: "round_ok sv pl bv br bd" and a: "bv a = Some ADDRESS_U64"
  shows "round_ok None pl (bv(a := None)) br (bd(a := None))"
proof -
  note R' = round_okD [OF R]
  have o: "owned_vault None pl w = (if w = ADDRESS_U64 then None else owned_vault sv pl w)" for w
    by (simp add: owned_vault_def)
  have u: "bv b = Some ADDRESS_U64 \<Longrightarrow> b = a" for b using owner_unique [OF R'(2) _ a] by simp
  have "vaults_ok None pl" using R'(1) by (auto simp: vaults_ok_def o split: if_splits)
  moreover have "owners_ok None pl (bv(a := None)) (bd(a := None))"
    using R'(2) u unfolding owners_ok_def o by (auto split: if_splits)
  moreover have "refunds_ok pl (bv(a := None)) br" using R'(3) by (auto simp: refunds_ok_def)
  ultimately show ?thesis by (simp add: round_ok_def)
qed

lemma clear_user_round:
  assumes R: "round_ok sv pl bv br bd" and a: "bv a = Some who" "who \<noteq> ADDRESS_U64" and t: "pl who = Some t"
  shows "round_ok sv (pl(who := None)) (bv(a := None)) (br(refund_address t := None)) (bd(a := None))"
proof -
  note R' = round_okD [OF R]
  have o: "owned_vault sv (pl(who := None)) w = (if w = who then None else owned_vault sv pl w)" for w
    using a(2) by (simp add: owned_vault_def)
  have u: "bv b = Some who \<Longrightarrow> b = a" for b using owner_unique [OF R'(2) _ a(1)] by simp
  have "vaults_ok sv (pl(who := None))" using R'(1) by (auto simp: vaults_ok_def o split: if_splits)
  moreover have "owners_ok sv (pl(who := None)) (bv(a := None)) (bd(a := None))"
    using R'(2) u unfolding owners_ok_def o by (auto split: if_splits)
  moreover have "refunds_ok (pl(who := None)) (bv(a := None)) (br(refund_address t := None))"
    using R'(3) t unfolding refunds_ok_def by (auto split: if_splits) (metis option.inject)+
  ultimately show ?thesis by (simp add: round_ok_def)
qed

end
