(* ===== verification/Reg_Pool_Keep.thy ===== *)
theory Reg_Pool_Keep
  imports Reg_Pool_Inv
begin

text \<open>Every operation of the registration pool keeps its invariant.\<close>

text \<open>\<open>Percent::mul_ceil\<close> rounds the share up.\<close>

definition mul_ceil_law :: "PConfig \<Rightarrow> bool" where
  "mul_ceil_law P \<longleftrightarrow> (\<forall>p n. p \<le> 100 \<longrightarrow> n < M32 \<longrightarrow> percent_mul_ceil P p n = (p * n + 99) div 100)"

definition ratio_ok :: "nat \<Rightarrow> bool" where "ratio_ok p \<longleftrightarrow> 50 \<le> p \<and> p \<le> 100"

abbreviation round_of :: "reg_pool \<Rightarrow> pool_round \<Rightarrow> bool" where
  "round_of s r \<equiv> round_ok (SystemVault s r) (bt_get (RegistrationPool s r)) (bt_get (BondedVault s r))
     (bt_get (BondedRefund s r)) (bt_get (BondedDescriptor s r))"

text \<open>While a migration prepares the next system vault it exists; once it transfers, it has an address.\<close>

definition migration_ok :: "reg_pool \<Rightarrow> bool" where
  "migration_ok s \<longleftrightarrow> CurrentRound s < M32 \<and>
     (ServiceState s = PrepareNextSystemVault \<longrightarrow> SystemVault s (add32 (CurrentRound s) 1) \<noteq> None) \<and>
     (ServiceState s = UTXOTransfer \<longrightarrow> get_system_vault (add32 (CurrentRound s) 1) s \<noteq> None)"

definition pool_inv :: "reg_pool \<Rightarrow> bool" where
  "pool_inv s \<longleftrightarrow> ratio_ok (MultiSigRatio s) \<and> (\<forall>r. round_of s r) \<and> migration_ok s"

declare add32_bound [simp]

lemma next_round_neq [simp]: "r < M32 \<Longrightarrow> add32 r 1 \<noteq> r" "r < M32 \<Longrightarrow> add32 r (Suc 0) \<noteq> r"
proof -
  have "add32 r 1 \<noteq> r" if "r < M32"
    using that by (cases "r = M32 - 1") (auto simp: add32_def M32_def)
  then show "r < M32 \<Longrightarrow> add32 r 1 \<noteq> r" "r < M32 \<Longrightarrow> add32 r (Suc 0) \<noteq> r" by simp_all
qed

lemma pool_invD:
  assumes "pool_inv s"
  shows "ratio_ok (MultiSigRatio s)" "round_of s r" "migration_ok s"
  using assms by (auto simp: pool_inv_def)

lemma deposit_fields [simp]:
  "CurrentRound (p_deposit e s) = CurrentRound s" "ServiceState (p_deposit e s) = ServiceState s"
  "SystemVault (p_deposit e s) = SystemVault s" "RegistrationPool (p_deposit e s) = RegistrationPool s"
  "BondedVault (p_deposit e s) = BondedVault s" "BondedRefund (p_deposit e s) = BondedRefund s"
  "BondedDescriptor (p_deposit e s) = BondedDescriptor s" "MultiSigRatio (p_deposit e s) = MultiSigRatio s"
  "PendingSetRefunds (p_deposit e s) = PendingSetRefunds s" "BondedPubKey (p_deposit e s) = BondedPubKey s"
  "PreSubmittedPubKeys (p_deposit e s) = PreSubmittedPubKeys s" "RelayExecutives (p_deposit e s) = RelayExecutives s"
  "OngoingVaultMigration (p_deposit e s) = OngoingVaultMigration s" "MaxPreSubmission (p_deposit e s) = MaxPreSubmission s"
  by (simp_all add: p_deposit_def)

lemma refund_users_deposit [simp]: "refund_users r a (p_deposit e s) = refund_users r a s"
  by (simp add: refund_users_def)

text \<open>A step that changes the entries of one round only.\<close>

definition same_but :: "pool_round \<Rightarrow> reg_pool \<Rightarrow> reg_pool \<Rightarrow> bool" where
  "same_but r s s' \<longleftrightarrow> CurrentRound s' = CurrentRound s \<and> MultiSigRatio s' = MultiSigRatio s \<and>
     (\<forall>q. q \<noteq> r \<longrightarrow> SystemVault s' q = SystemVault s q \<and> RegistrationPool s' q = RegistrationPool s q \<and>
        BondedVault s' q = BondedVault s q \<and> BondedRefund s' q = BondedRefund s q \<and>
        BondedDescriptor s' q = BondedDescriptor s q)"

lemma pool_inv_round:
  assumes "pool_inv s" "same_but r s s'" "round_of s' r" "migration_ok s'"
  shows "pool_inv s'"
  using assms unfolding pool_inv_def same_but_def by metis

text \<open>Where only the current round changes, the migration keeps its next vault.\<close>

lemma pool_inv_current:
  assumes inv: "pool_inv s" and sb: "same_but (CurrentRound s) s s'" and st: "ServiceState s' = ServiceState s"
    and ok: "round_of s' (CurrentRound s)"
  shows "pool_inv s'"
proof (rule pool_inv_round [OF inv sb ok])
  note M = pool_invD(3) [OF inv]
  then have "add32 (CurrentRound s) 1 \<noteq> CurrentRound s" unfolding migration_ok_def by simp
  then have "SystemVault s' (add32 (CurrentRound s) 1) = SystemVault s (add32 (CurrentRound s) 1)"
    using sb unfolding same_but_def by blast
  then show "migration_ok s'"
    using M sb st unfolding migration_ok_def same_but_def get_system_vault_def by simp
qed

text \<open>A step that leaves all of it alone.\<close>

lemma pool_inv_same:
  assumes "pool_inv s" "same_but r s s'" "ServiceState s' = ServiceState s"
    and "SystemVault s' = SystemVault s" "RegistrationPool s' = RegistrationPool s" "BondedVault s' = BondedVault s"
      "BondedRefund s' = BondedRefund s" "BondedDescriptor s' = BondedDescriptor s"
  shows "pool_inv s'"
  using assms unfolding pool_inv_def same_but_def migration_ok_def get_system_vault_def by simp

subsection \<open>Thresholds and keys\<close>

lemma new_vault_ok:
  assumes "mul_ceil_law P" "ratio_ok (MultiSigRatio s)"
  shows "vault_ok (MultiSigAccount_new (get_m P E s) (get_n E))"
proof -
  let ?p = "MultiSigRatio s" and ?n = "get_n E"
  have n: "?n < M32" by (simp add: get_n_def as_u32_def)
  have m: "get_m P E s = (?p * ?n + 99) div 100"
    using assms n unfolding mul_ceil_law_def ratio_ok_def get_m_def by simp
  have "?p * ?n \<le> 100 * ?n" "50 * ?n \<le> ?p * ?n" using assms(2) by (simp_all add: ratio_ok_def)
  then have "(?p * ?n + 99) div 100 \<le> ?n" "?n \<le> 2 * ((?p * ?n + 99) div 100)" by linarith+
  then show ?thesis by (simp add: vault_ok_def threshold_ok_def keys_bounded_def MultiSigAccount_new_def m)
qed

lemma keys_try_insert_ok: "vault_ok v \<Longrightarrow> keys_try_insert a k v = Some v' \<Longrightarrow> vault_ok v'"
  using keys_try_insert_bounded [of v a k v'] by (auto simp: vault_ok_def threshold_ok_def keys_try_insert_def split: if_splits)

lemma keys_try_insert_pending:
  "keys_try_insert a k v = Some v' \<Longrightarrow> ms_is_pending v' = ms_is_pending v"
  by (auto simp: keys_try_insert_def ms_is_pending_def split: if_splits)

lemma bond_vault_ok [simp]: "vault_ok (ms_set_descriptor d (ms_set_address a v)) = vault_ok v"
  by (simp add: vault_ok_def keys_bounded_def threshold_ok_def ms_set_descriptor_def ms_set_address_def)

lemma clear_keys_ok: "vault_ok v \<Longrightarrow> vault_ok (clear_pub_keys v)"
  by (simp add: vault_ok_def keys_bounded_def threshold_ok_def clear_pub_keys_def)

lemma bonded_fields [simp]:
  "ms_address (ms_set_descriptor d (ms_set_address a v)) = Generated a"
  "ms_descriptor (ms_set_descriptor d (ms_set_address a v)) = d"
  "pub_keys (ms_set_descriptor d (ms_set_address a v)) = pub_keys v"
  by (simp_all add: ms_set_descriptor_def ms_set_address_def pub_keys_def)

text \<open>The loop over the executives only takes presubmitted keys.\<close>

lemma collect_keeps:
  assumes "collect_presubmitted r xs v s = Done v' s'" "vault_ok v"
  shows "vault_ok v' \<and> ms_is_pending v' = ms_is_pending v \<and>
    s' = s\<lparr>PreSubmittedPubKeys := PreSubmittedPubKeys s'\<rparr>"
  using assms
proof (induction xs arbitrary: v s)
  case (Cons x xs)
  show ?case
  proof (cases "PreSubmittedPubKeys s r x")
    case (Cons k ks)
    let ?s = "s\<lparr>PreSubmittedPubKeys := (PreSubmittedPubKeys s)(r := (PreSubmittedPubKeys s r)(x := ks))\<rparr>"
    from Cons.prems(1) Cons obtain v1 where 1: "collect_presubmitted r xs v1 ?s = Done v' s'"
      and v1: "v1 = v \<or> keys_try_insert x k v = Some v1"
      by (auto simp: Let_def guard_Done split: if_splits)
    have "vault_ok v1" "ms_is_pending v1 = ms_is_pending v"
      using v1 Cons.prems(2) keys_try_insert_ok keys_try_insert_pending by blast+
    with Cons.IH [OF 1] show ?thesis by simp
  qed (use Cons in simp)
qed simp

subsection \<open>Refund addresses\<close>

lemma refund_push_get [simp]:
  "bt_get (BondedRefund (mutate_refund r a f s) q) =
     (if q = r then (bt_get (BondedRefund s r))(a \<mapsto> f (refund_users r a s)) else bt_get (BondedRefund s q))"
  by (simp add: mutate_refund_def dm_insert_def)

lemma mutate_refund_fields [simp]:
  "CurrentRound (mutate_refund r a f s) = CurrentRound s" "ServiceState (mutate_refund r a f s) = ServiceState s"
  "SystemVault (mutate_refund r a f s) = SystemVault s" "RegistrationPool (mutate_refund r a f s) = RegistrationPool s"
  "BondedVault (mutate_refund r a f s) = BondedVault s" "BondedDescriptor (mutate_refund r a f s) = BondedDescriptor s"
  "MultiSigRatio (mutate_refund r a f s) = MultiSigRatio s" "PendingSetRefunds (mutate_refund r a f s) = PendingSetRefunds s"
  "BondedPubKey (mutate_refund r a f s) = BondedPubKey s" "PreSubmittedPubKeys (mutate_refund r a f s) = PreSubmittedPubKeys s"
  "OngoingVaultMigration (mutate_refund r a f s) = OngoingVaultMigration s"
  "q \<noteq> r \<Longrightarrow> BondedRefund (mutate_refund r a f s) q = BondedRefund s q"
  by (simp_all add: mutate_refund_def dm_insert_def)

lemma rebond_fields [simp]:
  "CurrentRound (rebond_refund r who t new s) = CurrentRound s" "ServiceState (rebond_refund r who t new s) = ServiceState s"
  "SystemVault (rebond_refund r who t new s) = SystemVault s" "BondedVault (rebond_refund r who t new s) = BondedVault s"
  "MultiSigRatio (rebond_refund r who t new s) = MultiSigRatio s"
  "PendingSetRefunds (rebond_refund r who t new s) = PendingSetRefunds s"
  "OngoingVaultMigration (rebond_refund r who t new s) = OngoingVaultMigration s"
  by (simp_all add: rebond_refund_def Let_def)

lemma rebond_keeps:
  assumes inv: "pool_inv s" and t: "bt_get (RegistrationPool s (CurrentRound s)) who = Some t"
    and n: "\<not> bt_contains new (BondedVault s (CurrentRound s))"
  shows "pool_inv (rebond_refund (CurrentRound s) who t new s)"
proof (rule pool_inv_current [OF inv])
  let ?r = "CurrentRound s"
  show "same_but ?r s (rebond_refund ?r who t new s)"
    by (simp add: same_but_def rebond_refund_def Let_def dm_insert_def)
  have "bt_get (BondedVault s ?r) new = None" using n by (simp add: bt_contains_def)
  from move_round [OF pool_invD(2) [OF inv] t this refl]
  show "round_of (rebond_refund ?r who t new s) ?r"
    by (simp add: rebond_refund_def Let_def dm_insert_def refund_users_def)
qed simp

lemma pool_inv_deposit [simp]: "pool_inv (p_deposit e s) = pool_inv s"
  by (simp add: pool_inv_def migration_ok_def get_system_vault_def)

lemma pool_inv_pending [simp]: "pool_inv (s\<lparr>PendingSetRefunds := x\<rparr>) = pool_inv s"
  by (simp add: pool_inv_def migration_ok_def get_system_vault_def)

lemma pool_inv_presubmitted [simp]: "pool_inv (s\<lparr>PreSubmittedPubKeys := x\<rparr>) = pool_inv s"
  by (simp add: pool_inv_def migration_ok_def get_system_vault_def)

lemma pool_inv_pubkeys [simp]: "pool_inv (s\<lparr>BondedPubKey := x\<rparr>) = pool_inv s"
  by (simp add: pool_inv_def migration_ok_def get_system_vault_def)

lemma process_set_refund_keeps:
  assumes "pool_inv s" "r = CurrentRound s"
  shows "pool_inv (process_set_refund r p s) \<and> CurrentRound (process_set_refund r p s) = CurrentRound s"
  using assms rebond_keeps [OF assms(1)] unfolding process_set_refund_def Let_def
  by (auto split: option.splits)

lemma process_set_refunds_keeps:
  assumes "pool_inv s"
  shows "pool_inv (process_set_refunds s)"
proof -
  have "pool_inv (fold (process_set_refund r) ps s) \<and> CurrentRound (fold (process_set_refund r) ps s) = CurrentRound s"
    if "pool_inv s" "CurrentRound s = r" for r ps s
    using that
  proof (induction ps arbitrary: s)
    case (Cons p ps)
    from process_set_refund_keeps [OF Cons.prems(1) Cons.prems(2) [symmetric]]
    show ?case using Cons.IH [of "process_set_refund r p s"] Cons.prems(2) by simp
  qed simp
  from this [OF assms refl] show ?thesis by (simp add: process_set_refunds_def Let_def)
qed

text \<open>A property kept by each change of a refund address is kept by an approval.\<close>

lemma approve_refund_sets_rule:
  assumes "approve_refund_sets r ps s = Done u s'" "I s"
    and move: "\<And>s who t new. I s \<Longrightarrow> bt_get (RegistrationPool s r) who = Some t \<Longrightarrow>
      \<not> bt_contains new (BondedVault s r) \<Longrightarrow> I (rebond_refund r who t new s)"
    and event: "\<And>e s. I s \<Longrightarrow> I (p_deposit e s)" and pend: "\<And>x s. I s \<Longrightarrow> I (s\<lparr>PendingSetRefunds := x\<rparr>)"
  shows "I s'"
  using assms(1,2)
proof (induction ps arbitrary: s)
  case (Cons p ps)
  obtain who a where p: "p = (who, a)" by (cases p)
  from Cons.prems(1) obtain s1 where 1: "s1 = s \<or> (\<exists>t e. bt_get (RegistrationPool s r) who = Some t \<and>
      \<not> bt_contains a (BondedVault s r) \<and> s1 = p_deposit e (rebond_refund r who t a s))"
    and 2: "approve_refund_sets r ps (s1\<lparr>PendingSetRefunds := dm_remove r who (PendingSetRefunds s1)\<rparr>) = Done u s'"
    by (auto simp: p guard_Done split: if_splits)
  from 1 Cons.prems(2) have "I s1" by (auto intro: move event)
  then show ?case by (intro Cons.IH [OF 2] pend)
qed simp

lemma approve_refund_sets_keeps:
  assumes "approve_refund_sets (CurrentRound s) ps s = Done u s'" "pool_inv s"
  shows "pool_inv s'"
  by (rule conjunct1 [OF approve_refund_sets_rule [OF assms(1), where I = "\<lambda>q. pool_inv q \<and> CurrentRound q = CurrentRound s"]])
    (use assms(2) rebond_keeps in \<open>auto dest: sym [of "CurrentRound _"]\<close>)

subsection \<open>Vaults\<close>

lemma bond_keys_inv [simp]: "pool_inv (bond_keys r who ks s) = pool_inv s"
  by (simp add: bond_keys_def)

lemma unbond_keys_fields [simp]:
  "CurrentRound (unbond_keys r ks s) = CurrentRound s" "ServiceState (unbond_keys r ks s) = ServiceState s"
  "SystemVault (unbond_keys r ks s) = SystemVault s" "RegistrationPool (unbond_keys r ks s) = RegistrationPool s"
  "BondedVault (unbond_keys r ks s) = BondedVault s" "BondedDescriptor (unbond_keys r ks s) = BondedDescriptor s"
  "MultiSigRatio (unbond_keys r ks s) = MultiSigRatio s" "BondedRefund (unbond_keys r ks s) = BondedRefund s"
  "PendingSetRefunds (unbond_keys r ks s) = PendingSetRefunds s"
  "PreSubmittedPubKeys (unbond_keys r ks s) = PreSubmittedPubKeys s"
  "OngoingVaultMigration (unbond_keys r ks s) = OngoingVaultMigration s"
  by (simp_all add: unbond_keys_def)

text \<open>
  One statement covers a vault that gains keys and one that becomes an address: \<open>w\<close> is the new vault
  of \<open>who\<close>, and the vault maps change exactly when it has an address.
\<close>

definition stored_vault :: "pool_round \<Rightarrow> acct \<Rightarrow> MultiSigAccount \<Rightarrow> reg_pool \<Rightarrow> reg_pool \<Rightarrow> bool" where
  "stored_vault r who w s s' \<longleftrightarrow>
     (case ms_address w of
        AddrPending \<Rightarrow> BondedVault s' = BondedVault s \<and> BondedDescriptor s' = BondedDescriptor s
      | Generated a \<Rightarrow> bt_get (BondedRefund s r) a = None \<and> BondedVault s' = dm_insert r a who (BondedVault s) \<and>
          BondedDescriptor s' = dm_insert r a (ms_descriptor w) (BondedDescriptor s))"

lemma stored_round:
  assumes "round_of s r" "stored_vault r who w s s'" "vault_ok w"
    and "put_vault who w (SystemVault s r) (bt_get (RegistrationPool s r)) (SystemVault s' r, bt_get (RegistrationPool s' r))"
    and "\<forall>v0. owned_vault (SystemVault s r) (bt_get (RegistrationPool s r)) who = Some v0 \<longrightarrow> ms_is_pending v0"
    and "BondedRefund s' = BondedRefund s"
  shows "round_of s' r"
  using put_pending [OF assms(1,4,3,5)] put_bonded [OF assms(1,4,3,5)] assms(2,6)
  by (cases "ms_address w") (simp_all add: stored_vault_def dm_insert_def)

text \<open>What adding a key and possibly bonding does, for both kinds of vault.\<close>

lemma submit_bond:
  assumes k: "submit_key P r a k v s = Done v1 s1" and v: "vault_ok v"
    and b: "(if is_key_generation_ready v1 then try_bond_vault_address P E v1 refund who r (p_deposit e s1)
             else Done v1 (p_deposit e s1)) = Done w s2"
  shows "vault_ok w" "stored_vault r who w s s2" "ms_is_pending v" "BondedRefund s2 = BondedRefund s"
    "RegistrationPool s2 = RegistrationPool s" "SystemVault s2 = SystemVault s" "CurrentRound s2 = CurrentRound s"
    "ServiceState s2 = ServiceState s" "MultiSigRatio s2 = MultiSigRatio s"
    "is_key_generation_ready v1 \<longleftrightarrow> ms_address w \<noteq> AddrPending"
proof -
  from k have s1: "s1 = s" and p: "ms_is_pending v" and v1: "keys_try_insert a k v = Some v1" by (simp_all add: pool_Done)
  have ok: "vault_ok v1" "ms_address v1 = AddrPending"
    using keys_try_insert_ok [OF v v1] keys_try_insert_pending [OF v1] p by (simp_all add: ms_is_pending_def)
  have "vault_ok w \<and> stored_vault r who w s s2 \<and> BondedRefund s2 = BondedRefund s \<and>
    RegistrationPool s2 = RegistrationPool s \<and> SystemVault s2 = SystemVault s \<and> CurrentRound s2 = CurrentRound s \<and>
    ServiceState s2 = ServiceState s \<and> MultiSigRatio s2 = MultiSigRatio s \<and>
    (is_key_generation_ready v1 \<longleftrightarrow> ms_address w \<noteq> AddrPending)"
  proof (cases "is_key_generation_ready v1")
    case True
    with b obtain x d where "w = ms_set_descriptor d (ms_set_address x v1)" "bt_get (BondedRefund s r) x = None"
      "s2 = p_deposit (VaultGenerated who refund x) ((p_deposit e s)\<lparr>BondedVault := dm_insert r x who (BondedVault s),
            BondedDescriptor := dm_insert r x d (BondedDescriptor s)\<rparr>)"
      by (auto simp: bond_Done s1)
    with True ok show ?thesis by (simp add: stored_vault_def)
  next
    case False
    with b ok show ?thesis by (auto simp: stored_vault_def s1)
  qed
  with p show "vault_ok w" "stored_vault r who w s s2" "ms_is_pending v" "BondedRefund s2 = BondedRefund s"
    "RegistrationPool s2 = RegistrationPool s" "SystemVault s2 = SystemVault s" "CurrentRound s2 = CurrentRound s"
    "ServiceState s2 = ServiceState s" "MultiSigRatio s2 = MultiSigRatio s"
    "is_key_generation_ready v1 \<longleftrightarrow> ms_address w \<noteq> AddrPending" by simp_all
qed

lemma stored_same_but:
  assumes "stored_vault r who w s s'" "CurrentRound s' = CurrentRound s" "MultiSigRatio s' = MultiSigRatio s"
    "BondedRefund s' = BondedRefund s" "\<And>q. q \<noteq> r \<Longrightarrow> SystemVault s' q = SystemVault s q"
    "\<And>q. q \<noteq> r \<Longrightarrow> RegistrationPool s' q = RegistrationPool s q"
  shows "same_but r s s'"
  using assms by (auto simp: same_but_def stored_vault_def dm_insert_def split: AddressState.splits)

lemma stored_vault_cong:
  "stored_vault r who w s s1 \<Longrightarrow> BondedVault s' = BondedVault s1 \<Longrightarrow> BondedDescriptor s' = BondedDescriptor s1 \<Longrightarrow>
   stored_vault r who w s s'"
  by (cases "ms_address w") (simp_all add: stored_vault_def)

lemma owned_user [simp]: "who \<noteq> ADDRESS_U64 \<Longrightarrow> owned_vault sv pl who = map_option vault (pl who)"
  by (simp add: owned_vault_def)

lemma owned_system [simp]: "owned_vault sv pl ADDRESS_U64 = sv"
  by (simp add: owned_vault_def)

lemma registered_user:
  assumes "pool_inv s" "bt_get (RegistrationPool s r) who = Some t"
  shows "who \<noteq> ADDRESS_U64" "vault_ok (vault t)"
proof -
  have V: "vaults_ok (SystemVault s r) (bt_get (RegistrationPool s r))"
    using pool_invD(2) [OF assms(1)] by (rule round_okD)
  with assms(2) show "who \<noteq> ADDRESS_U64" by (auto simp: vaults_ok_def)
  with V assms(2) show "vault_ok (vault t)" by (auto simp: vaults_ok_def dest!: spec [of _ who])
qed

lemma submit_vault_key_Done:
  assumes "submit_vault_key P E og sub s = Done u s'"
  obtains t v s1 w s2 where "ServiceState s = Normal" "bt_get (RegistrationPool s (CurrentRound s)) (ks_who sub) = Some t"
    "submit_key P (CurrentRound s) (ks_authority_id sub) (ks_pub_key sub) (vault t) s = Done v s1"
    "(if is_key_generation_ready v then try_bond_vault_address P E v (refund_address t) (ks_who sub) (CurrentRound s)
        (p_deposit (VaultKeySubmitted (ks_who sub) (ks_pub_key sub)) s1)
      else Done v (p_deposit (VaultKeySubmitted (ks_who sub) (ks_pub_key sub)) s1)) = Done w s2"
    "s2\<lparr>BondedPubKey := dm_insert (CurrentRound s) (ks_pub_key sub) (ks_who sub) (BondedPubKey s2),
       RegistrationPool := dm_insert (CurrentRound s) (ks_who sub) (t\<lparr>vault := w\<rparr>) (RegistrationPool s2)\<rparr> = s'"
  using assms unfolding submit_vault_key_def Let_def
  by (simp only: guard_Done ensure_origin_Done outcome.inject) (elim exE conjE, rule that; assumption)

lemma submit_vault_key_keeps:
  assumes inv: "pool_inv s" and d: "submit_vault_key P E og sub s = Done u s'"
  shows "pool_inv s'"
proof -
  let ?r = "CurrentRound s" and ?who = "ks_who sub" and ?k = "ks_pub_key sub"
  from submit_vault_key_Done [OF d] obtain t v s1 w s2 where t: "bt_get (RegistrationPool s ?r) ?who = Some t"
    and k: "submit_key P ?r (ks_authority_id sub) ?k (vault t) s = Done v s1"
    and b: "(if is_key_generation_ready v then try_bond_vault_address P E v (refund_address t) ?who ?r
               (p_deposit (VaultKeySubmitted ?who ?k) s1) else Done v (p_deposit (VaultKeySubmitted ?who ?k) s1)) = Done w s2"
    and s'_eq: "s2\<lparr>BondedPubKey := dm_insert ?r ?k ?who (BondedPubKey s2),
               RegistrationPool := dm_insert ?r ?who (t\<lparr>vault := w\<rparr>) (RegistrationPool s2)\<rparr> = s'"
    by metis
  note s' = s'_eq [symmetric]
  note U = registered_user [OF inv t] and B = submit_bond [OF k registered_user(2) [OF inv t] b]
  have F: "RegistrationPool s' = dm_insert ?r ?who (t\<lparr>vault := w\<rparr>) (RegistrationPool s)"
    "SystemVault s' = SystemVault s" "BondedRefund s' = BondedRefund s" "CurrentRound s' = CurrentRound s"
    "ServiceState s' = ServiceState s" "MultiSigRatio s' = MultiSigRatio s"
    "BondedVault s' = BondedVault s2" "BondedDescriptor s' = BondedDescriptor s2"
    using B(4-9) by (simp_all add: s')
  note st = stored_vault_cong [OF B(2) F(7,8)]
  have put: "put_vault ?who w (SystemVault s ?r) (bt_get (RegistrationPool s ?r)) (SystemVault s' ?r, bt_get (RegistrationPool s' ?r))"
    using U(1) t by (simp add: put_vault_def F dm_insert_def) (rule exI [of _ "t\<lparr>vault := w\<rparr>"], simp)
  show ?thesis
  proof (rule pool_inv_current [OF inv])
    show "same_but ?r s s'" by (rule stored_same_but [OF st]) (simp_all add: F dm_insert_def)
    show "round_of s' ?r"
      by (rule stored_round [OF pool_invD(2) [OF inv] st B(1) put _ F(3)]) (use U t B(3) in simp)
  qed (rule F)
qed

end
