(* ===== verification/Reg_Pool_Run.thy ===== *)
theory Reg_Pool_Run
  imports Reg_Pool_Keep
begin

text \<open>
  The remaining operations keep the invariant of the registration pool; its runs, and the migration
  as an abstract machine of four phases.
\<close>

subsection \<open>System vaults\<close>

lemma system_vault_ok: "pool_inv s \<Longrightarrow> SystemVault s r = Some v \<Longrightarrow> vault_ok v"
  using round_okD(1) [OF pool_invD(2), of s r] by (auto simp: vaults_ok_def dest!: spec [of _ ADDRESS_U64])

lemma request_system_vault_keeps:
  assumes P: "mul_ceil_law P" and inv: "pool_inv s" and d: "request_system_vault P E og prep s = Done u s'"
  shows "pool_inv s'"
proof -
  let ?r = "if prep then add32 (CurrentRound s) 1 else CurrentRound s"
    and ?v = "MultiSigAccount_new (get_m P E s) (get_n E)"
  from d have n: "SystemVault s ?r = None" and st: "ServiceState s = Normal \<or> ServiceState s = PrepareNextSystemVault"
    and s': "s' = p_deposit SystemVaultPending (s\<lparr>SystemVault := (SystemVault s)(?r \<mapsto> ?v)\<rparr>)"
    by (auto simp: request_system_vault_def Let_def pool_Done)
  have v: "vault_ok ?v" by (rule new_vault_ok [OF P pool_invD(1) [OF inv]])
  show ?thesis
  proof (rule pool_inv_round [OF inv, where r = ?r])
    show "same_but ?r s s'" by (simp add: same_but_def s')
    show "round_of s' ?r"
      by (rule stored_round [OF pool_invD(2) [OF inv], where who = ADDRESS_U64 and w = ?v])
        (use n v in \<open>simp_all add: stored_vault_def MultiSigAccount_new_def s' put_vault_def\<close>)
    show "migration_ok s'"
      using pool_invD(3) [OF inv] st by (auto simp: s' migration_ok_def)
  qed
qed

lemma submit_system_vault_key_Done:
  assumes d: "submit_system_vault_key P E og sub s = Done u s'"
  obtains r v0 v s1 w s2 where
    "ServiceState s = Normal \<and> r = CurrentRound s \<or> ServiceState s = PrepareNextSystemVault \<and> r = add32 (CurrentRound s) 1"
    "SystemVault s r = Some v0" "submit_key P r (ks_authority_id sub) (ks_pub_key sub) v0 s = Done v s1"
    "(if is_key_generation_ready v then try_bond_vault_address P E v [] ADDRESS_U64 r
        (p_deposit (VaultKeySubmitted (ks_who sub) (ks_pub_key sub)) s1)
      else Done v (p_deposit (VaultKeySubmitted (ks_who sub) (ks_pub_key sub)) s1)) = Done w s2"
    "s' = s2\<lparr>BondedPubKey := dm_insert r (ks_pub_key sub) ADDRESS_U64 (BondedPubKey s2),
       SystemVault := (SystemVault s2)(r \<mapsto> w),
       ServiceState := (if ServiceState s = PrepareNextSystemVault \<and> is_key_generation_ready v then UTXOTransfer
                        else ServiceState s2)\<rparr>"
proof -
  let ?e = "VaultKeySubmitted (ks_who sub) (ks_pub_key sub)"
  from d obtain r v0 v s1 w s3 where
    r: "(case ServiceState s of Normal \<Rightarrow> Some (CurrentRound s)
         | PrepareNextSystemVault \<Rightarrow> Some (add32 (CurrentRound s) 1) | _ \<Rightarrow> None) = Some r"
    and v: "SystemVault s r = Some v0" and k: "submit_key P r (ks_authority_id sub) (ks_pub_key sub) v0 s = Done v s1"
    and b: "(if is_key_generation_ready v then
           bind_outcome (try_bond_vault_address P E v [] ADDRESS_U64 r (p_deposit ?e s1)) (\<lambda>v s.
           Done v (if ServiceState s1 = PrepareNextSystemVault then s\<lparr>ServiceState := UTXOTransfer\<rparr> else s))
         else Done v (p_deposit ?e s1)) = Done w s3"
    and s': "s3\<lparr>BondedPubKey := dm_insert r (ks_pub_key sub) ADDRESS_U64 (BondedPubKey s3),
       SystemVault := (SystemVault s3)(r \<mapsto> w)\<rparr> = s'"
    unfolding submit_system_vault_key_def Let_def
    by (simp only: guard_Done ensure_origin_Done outcome.inject) (elim exE conjE, rule that; assumption)
  have s1: "s1 = s" using k by (simp add: pool_Done)
  define s2 where "s2 = s3\<lparr>ServiceState := ServiceState s\<rparr>"
  have "(if is_key_generation_ready v then try_bond_vault_address P E v [] ADDRESS_U64 r (p_deposit ?e s1)
      else Done v (p_deposit ?e s1)) = Done w s2 \<and>
      s3 = s2\<lparr>ServiceState := (if ServiceState s = PrepareNextSystemVault \<and> is_key_generation_ready v
        then UTXOTransfer else ServiceState s2)\<rparr>"
  proof (cases "is_key_generation_ready v")
    case True
    with b obtain s4 where 4: "try_bond_vault_address P E v [] ADDRESS_U64 r (p_deposit ?e s) = Done w s4"
      "s3 = (if ServiceState s = PrepareNextSystemVault then s4\<lparr>ServiceState := UTXOTransfer\<rparr> else s4)"
      by (auto simp: guard_Done s1)
    moreover have "ServiceState s4 = ServiceState s" using 4(1) by (auto simp: bond_Done)
    ultimately show ?thesis using True by (cases s4) (auto simp: s2_def s1)
  next
    case False
    with b show ?thesis by (auto simp: s2_def s1 p_deposit_def)
  qed
  then have bd: "(if is_key_generation_ready v then try_bond_vault_address P E v [] ADDRESS_U64 r (p_deposit ?e s1)
      else Done v (p_deposit ?e s1)) = Done w s2"
    and s3: "s3 = s2\<lparr>ServiceState := (if ServiceState s = PrepareNextSystemVault \<and> is_key_generation_ready v
        then UTXOTransfer else ServiceState s2)\<rparr>" by blast+
  show thesis
  proof (rule that [OF _ v k bd])
    show "ServiceState s = Normal \<and> r = CurrentRound s \<or>
        ServiceState s = PrepareNextSystemVault \<and> r = add32 (CurrentRound s) 1"
      using r by (cases "ServiceState s") simp_all
  qed (cases s2, simp add: s' [symmetric] s3)
qed

lemma submit_system_vault_key_keeps:
  assumes inv: "pool_inv s" and d: "submit_system_vault_key P E og sub s = Done u s'"
  shows "pool_inv s'"
proof -
  let ?k = "ks_pub_key sub"
  from submit_system_vault_key_Done [OF d] obtain r v0 v s1 w s2 where
    r: "ServiceState s = Normal \<and> r = CurrentRound s \<or> ServiceState s = PrepareNextSystemVault \<and> r = add32 (CurrentRound s) 1"
    and v0: "SystemVault s r = Some v0" and k: "submit_key P r (ks_authority_id sub) ?k v0 s = Done v s1"
    and b: "(if is_key_generation_ready v then try_bond_vault_address P E v [] ADDRESS_U64 r
        (p_deposit (VaultKeySubmitted (ks_who sub) ?k) s1)
      else Done v (p_deposit (VaultKeySubmitted (ks_who sub) ?k) s1)) = Done w s2"
    and s': "s' = s2\<lparr>BondedPubKey := dm_insert r ?k ADDRESS_U64 (BondedPubKey s2),
       SystemVault := (SystemVault s2)(r \<mapsto> w),
       ServiceState := (if ServiceState s = PrepareNextSystemVault \<and> is_key_generation_ready v then UTXOTransfer
                        else ServiceState s2)\<rparr>" by blast
  note B = submit_bond [OF k system_vault_ok [OF inv v0] b] and M = pool_invD(3) [OF inv]
  have F: "RegistrationPool s' = RegistrationPool s" "SystemVault s' = (SystemVault s)(r \<mapsto> w)"
    "BondedRefund s' = BondedRefund s" "CurrentRound s' = CurrentRound s" "MultiSigRatio s' = MultiSigRatio s"
    "BondedVault s' = BondedVault s2" "BondedDescriptor s' = BondedDescriptor s2"
    "ServiceState s' = (if ServiceState s = PrepareNextSystemVault \<and> ms_address w \<noteq> AddrPending then UTXOTransfer
       else ServiceState s)"
    using B(4-10) by (simp_all add: s')
  note st = stored_vault_cong [OF B(2) F(6,7)]
  show ?thesis
  proof (rule pool_inv_round [OF inv])
    show "same_but r s s'" by (rule stored_same_but [OF st]) (simp_all add: F)
    show "round_of s' r"
      by (rule stored_round [OF pool_invD(2) [OF inv] st B(1) _ _ F(3)]) (use v0 B(3) in \<open>simp_all add: F put_vault_def\<close>)
    show "migration_ok s'"
      using r M by (auto simp: migration_ok_def F get_system_vault_def vault_address_def split: AddressState.splits)
  qed
qed

subsection \<open>Registrations\<close>

lemma clear_keys_pending: "ms_address (clear_pub_keys v) = ms_address v"
  by (simp add: clear_pub_keys_def)

lemma bond_if_ready_Done:
  assumes "bond_if_ready P E who r t s = Done t' s'" "vault_ok (vault t)" "ms_is_pending (vault t)"
  shows "vault_ok (vault t') \<and> stored_vault r who (vault t') s s' \<and> refund_address t' = refund_address t \<and>
    ms_address (vault t') \<noteq> Generated (refund_address t) \<and> BondedRefund s' = BondedRefund s \<and>
    RegistrationPool s' = RegistrationPool s \<and> SystemVault s' = SystemVault s \<and> CurrentRound s' = CurrentRound s \<and>
    ServiceState s' = ServiceState s \<and> MultiSigRatio s' = MultiSigRatio s"
proof (cases "is_key_generation_ready (vault t)")
  case True
  show ?thesis
  proof (cases "try_bond_vault_address P E (vault t) (refund_address t) who r s")
    case (Done v s1)
    with True assms show ?thesis
      by (auto simp: bond_if_ready_def bond_Done stored_vault_def bond_keys_def)
  next
    case (Fail e s1)
    with True assms bond_Fail [OF Fail] show ?thesis
      by (auto simp: bond_if_ready_def stored_vault_def clear_keys_ok clear_keys_pending ms_is_pending_def)
  qed (use bond_not_Panic in simp)
next
  case False
  with assms show ?thesis by (auto simp: bond_if_ready_def stored_vault_def ms_is_pending_def)
qed

text \<open>Storing a new user's entry, with its vault and its place in a refund list.\<close>

lemma register_keeps:
  assumes inv: "pool_inv s" and usr: "who \<noteq> ADDRESS_U64" and r: "r = CurrentRound s"
    and nr: "bt_get (RegistrationPool s r) who = None" and nb: "bt_get (BondedVault s r) (refund_address t) = None"
    and t: "vault_ok (vault t)" "stored_vault r who (vault t) s sx" "ms_address (vault t) \<noteq> Generated (refund_address t)"
    and F: "BondedRefund sx = BondedRefund s" "RegistrationPool sx = RegistrationPool s" "SystemVault sx = SystemVault s"
      "CurrentRound sx = CurrentRound s" "ServiceState sx = ServiceState s" "MultiSigRatio sx = MultiSigRatio s"
    and s': "s' = (mutate_refund r (refund_address t) (\<lambda>us. us @ [who]) sx)\<lparr>RegistrationPool :=
        dm_insert r who t (RegistrationPool sx)\<rparr>"
  shows "pool_inv s'"
proof -
  let ?a = "refund_address t"
  define s3 where "s3 = sx\<lparr>RegistrationPool := dm_insert r who t (RegistrationPool sx)\<rparr>"
  have G: "RegistrationPool s3 = dm_insert r who t (RegistrationPool s)" "SystemVault s3 = SystemVault s"
    "BondedRefund s3 = BondedRefund s" "CurrentRound s3 = CurrentRound s" "ServiceState s3 = ServiceState s"
    "MultiSigRatio s3 = MultiSigRatio s" "BondedVault s3 = BondedVault sx" "BondedDescriptor s3 = BondedDescriptor sx"
    by (simp_all add: s3_def F)
  note st = stored_vault_cong [OF t(2) G(7,8)]
  have put: "put_vault who (vault t) (SystemVault s r) (bt_get (RegistrationPool s r)) (SystemVault s3 r, bt_get (RegistrationPool s3 r))"
    unfolding put_vault_def using usr nr by (auto simp: G dm_insert_def intro!: exI [of _ t])
  have r3: "round_of s3 r"
    by (rule stored_round [OF pool_invD(2) [OF inv] st t(1) put _ G(3)]) (use nr usr in simp)
  have nb3: "bt_get (BondedVault s3 r) ?a = None"
    using st nb t(3) by (auto simp: stored_vault_def dm_insert_def split: AddressState.splits)
  have "refunds_ok (bt_get (RegistrationPool s3 r)) (bt_get (BondedVault s3 r))
      ((bt_get (BondedRefund s3 r))(?a \<mapsto> (case bt_get (BondedRefund s3 r) ?a of Some us \<Rightarrow> us | None \<Rightarrow> []) @ [who]))"
  proof (rule refunds_ok_push [OF round_okD(3) [OF r3], where t = t])
    show "\<And>b us. bt_get (BondedRefund s3 r) b = Some us \<Longrightarrow> who \<notin> set us"
      using unregistered_not_listed [OF round_okD(3) [OF pool_invD(2) [OF inv]] nr] by (simp add: G)
  qed (simp_all add: nb3 G(1-6) dm_insert_def)
  with r3 have ok: "round_of (mutate_refund r ?a (\<lambda>us. us @ [who]) s3) r"
    by (simp add: round_ok_def refund_users_def)
  have s'3: "s' = mutate_refund r ?a (\<lambda>us. us @ [who]) s3"
    unfolding s' by (cases sx) (simp add: s3_def mutate_refund_def refund_users_def)
  have "same_but r s s3" by (rule stored_same_but [OF st]) (simp_all add: G dm_insert_def)
  then have "same_but r s s'" by (simp add: same_but_def s'3)
  with ok show ?thesis using G(5) by (intro pool_inv_current [OF inv]) (simp_all add: s'3 r)
qed

lemma request_vault_keeps:
  assumes P: "mul_ceil_law P" and inv: "pool_inv s" and og: "og \<noteq> Signed ADDRESS_U64"
    and d: "request_vault P E og raw s = Done u s'"
  shows "pool_inv s'"
proof -
  let ?r = "CurrentRound s"
  let ?t = "\<lambda>a. BitcoinRelayTarget_new a (get_m P E s) (get_n E)"
  from d obtain who a v s1 t s2 where who: "og = Signed who" and nb: "bt_get (BondedVault s ?r) a = None"
    and nr: "bt_get (RegistrationPool s ?r) who = None"
    and c: "collect_presubmitted ?r (executives E) (vault (?t a)) s = Done v s1"
    and b: "bond_if_ready P E who ?r ((?t a)\<lparr>vault := v\<rparr>) s1 = Done t s2"
    and s': "s' = (mutate_refund ?r a (\<lambda>us. us @ [who]) s2)\<lparr>RegistrationPool :=
        dm_insert ?r who t (RegistrationPool (mutate_refund ?r a (\<lambda>us. us @ [who]) s2))\<rparr>"
    unfolding request_vault_def Let_def by (auto simp: pool_Done bt_contains_def)
  have "vault_ok (vault (?t a))" "ms_is_pending (vault (?t a))" and ra: "refund_address (?t a) = a"
    using new_vault_ok [OF P pool_invD(1) [OF inv]]
    by (simp_all add: BitcoinRelayTarget_new_def MultiSigAccount_new_def ms_is_pending_def)
  with collect_keeps [OF c] have v: "vault_ok v" "ms_is_pending v" and s1: "s1 = s\<lparr>PreSubmittedPubKeys := PreSubmittedPubKeys s1\<rparr>"
    by simp_all
  have S1: "BondedVault s1 = BondedVault s" "RegistrationPool s1 = RegistrationPool s" "CurrentRound s1 = CurrentRound s"
    by (subst s1, simp)+
  have inv1: "pool_inv s1" by (subst s1) (use inv in simp)
  note B = bond_if_ready_Done [OF b, simplified, OF v]
  show ?thesis
    by (rule register_keeps [OF inv1, where who = who and r = ?r and t = t and sx = s2])
      (use B nr nb og who in \<open>auto simp: S1 s' ra\<close>)
qed

subsection \<open>Replacing an authority\<close>

text \<open>Vaults may change their keys as long as they keep their address and descriptor.\<close>

definition same_vault :: "MultiSigAccount \<Rightarrow> MultiSigAccount \<Rightarrow> bool" where
  "same_vault v w \<longleftrightarrow> ms_address w = ms_address v \<and> ms_descriptor w = ms_descriptor v \<and> vault_ok w"

definition same_target :: "BitcoinRelayTarget \<Rightarrow> BitcoinRelayTarget \<Rightarrow> bool" where
  "same_target t t' \<longleftrightarrow> refund_address t' = refund_address t \<and> same_vault (vault t) (vault t')"

lemma relabel_round:
  assumes R: "round_ok sv pl bv br bd" and sv: "rel_option same_vault sv sv'" and pl: "\<And>w. rel_option same_target (pl w) (pl' w)"
  shows "round_ok sv' pl' bv br bd"
proof -
  note R' = round_okD [OF R]
  have o: "rel_option same_vault (owned_vault sv pl w) (owned_vault sv' pl' w)" for w
    using sv pl [of w] by (auto simp: owned_vault_def same_target_def option_rel_Some1 option_rel_Some2 elim!: option.rel_cases)
  have "vaults_ok sv' pl'"
    unfolding vaults_ok_def
  proof (intro conjI allI impI)
    show "pl' ADDRESS_U64 = None" using pl [of ADDRESS_U64] R'(1) by (simp add: vaults_ok_def)
    show "vault_ok v" if "owned_vault sv' pl' w = Some v" for w v
      using o [of w] that by (auto simp: option_rel_Some2 same_vault_def)
  qed
  moreover have "owners_ok sv' pl' bv bd"
    unfolding owners_ok_def
  proof (intro conjI allI impI)
    show "dom bd = dom bv" using R'(2) by (simp add: owners_ok_def)
    fix a w assume "bv a = Some w"
    then obtain v where v: "owned_vault sv pl w = Some v" "ms_address v = Generated a" "bd a = Some (ms_descriptor v)"
      using R'(2) unfolding owners_ok_def by blast
    with o [of w] show "\<exists>v. owned_vault sv' pl' w = Some v \<and> ms_address v = Generated a \<and> bd a = Some (ms_descriptor v)"
      by (auto simp: option_rel_Some1 same_vault_def)
  qed
  moreover have "refunds_ok pl' bv br"
  proof -
    have "\<exists>t'. pl' u = Some t' \<and> refund_address t' = refund_address t" if "pl u = Some t" for u t
      using pl [of u] that by (auto simp: option_rel_Some1 same_target_def)
    then show ?thesis using R'(3) unfolding refunds_ok_def by metis
  qed
  ultimately show ?thesis by (simp add: round_ok_def)
qed

lemma replace_pending_ok:
  assumes "vault_ok v"
  obtains w where "replace_pending old new v = Some w" "same_vault v w"
proof -
  from replace_authority_bounded assms obtain w where w: "ms_replace_authority old new v = Some w" "keys_bounded w"
    unfolding vault_ok_def by blast
  from w(1) have "ms_address w = ms_address v" "ms_descriptor w = ms_descriptor v" "threshold_ok w = threshold_ok v"
    by (auto simp: ms_replace_authority_def keys_try_insert_def threshold_ok_def split: option.splits if_splits)
  with w assms have "same_vault v w" by (simp add: same_vault_def vault_ok_def)
  moreover have "same_vault v v" using assms by (simp add: same_vault_def)
  ultimately show thesis using w(1) that by (cases "ms_is_pending v") (auto simp: replace_pending_def)
qed

lemma replace_targets_ok:
  assumes "\<forall>(w, t) \<in> set m. vault_ok (vault t)"
  shows "\<exists>m'. replace_targets old new m = Some m' \<and> (\<forall>w. rel_option same_target (bt_get m w) (bt_get m' w))"
  using assms
proof (induction old new m rule: replace_targets.induct)
  case (2 old new who t m)
  then obtain v where v: "replace_pending old new (vault t) = Some v" "same_vault (vault t) v"
    using replace_pending_ok [of "vault t" old new] by auto
  with 2 obtain m' where m': "replace_targets old new m = Some m'" "\<forall>w. rel_option same_target (bt_get m w) (bt_get m' w)"
    by auto
  moreover have "same_target t (t\<lparr>vault := v\<rparr>)" using v by (simp add: same_target_def)
  ultimately show ?case using v(1) by auto
qed simp

text \<open>No pending vault has too many keys for the replacement, so it does not panic.\<close>

lemma pool_replace_authority_keeps:
  assumes wf: "\<And>r. bt_wf (RegistrationPool s r)" and inv: "pool_inv s"
  shows "\<exists>s'. pool_replace_authority old new s = Done () s' \<and> pool_inv s'"
proof -
  let ?r = "CurrentRound s" and ?s1 = "move_presubmitted old new s"
  have S: "SystemVault ?s1 = SystemVault s" "RegistrationPool ?s1 = RegistrationPool s"
    by (simp_all add: move_presubmitted_def Let_def)
  have inv1: "pool_inv ?s1" using inv by (simp add: move_presubmitted_def Let_def)
  obtain sv where sv: "(case SystemVault s ?r of None \<Rightarrow> Some ?s1
      | Some v \<Rightarrow> map_option (\<lambda>v'. ?s1\<lparr>SystemVault := (SystemVault s)(?r \<mapsto> v')\<rparr>) (replace_pending old new v)) =
      Some (?s1\<lparr>SystemVault := (SystemVault s)(?r := sv)\<rparr>)" "rel_option same_vault (SystemVault s ?r) sv"
  proof (cases "SystemVault s ?r")
    case None
    then have "(SystemVault s)(?r := None) = SystemVault s" by auto
    with None that [of None] show ?thesis by (simp add: S [symmetric] del: fun_upd_triv)
  next
    case (Some v)
    with replace_pending_ok [OF system_vault_ok [OF inv]] that show ?thesis by (metis option.case(2) option.map(2) option.rel_inject(2))
  qed
  have "\<forall>(w, t) \<in> set (RegistrationPool s ?r). vault_ok (vault t)"
    using registered_user(2) [OF inv] wf [of ?r] by (auto simp: bt_wf_get_iff)
  from replace_targets_ok [OF this, of old new] obtain m where m: "replace_targets old new (RegistrationPool s ?r) = Some m"
    "\<And>w. rel_option same_target (bt_get (RegistrationPool s ?r) w) (bt_get m w)" by blast
  let ?s' = "?s1\<lparr>SystemVault := (SystemVault s)(?r := sv), RegistrationPool := (RegistrationPool s)(?r := m)\<rparr>"
  have "pool_replace_authority old new s = Done () ?s'"
    unfolding pool_replace_authority_def Let_def S sv by (simp add: expect_def m S)
  moreover have "pool_inv ?s'"
  proof (rule pool_inv_current [OF inv])
    show "same_but ?r s ?s'" "ServiceState ?s' = ServiceState s"
      by (simp_all add: same_but_def move_presubmitted_def Let_def)
    show "round_of ?s' ?r"
      using relabel_round [OF pool_invD(2) [OF inv] sv(2) m(2)] by (simp add: move_presubmitted_def Let_def)
  qed
  ultimately show ?thesis by blast
qed

end
