(* ===== verification/Reg_Pool_Machine.thy ===== *)
theory Reg_Pool_Machine
  imports Reg_Pool_Run
begin

text \<open>
  Administration of the pool, the runs of its operations, and the vault migration as an abstract
  machine: four phases and a round number, refined by every operation.
\<close>

subsection \<open>Administration\<close>

lemma clear_vault_keeps:
  assumes inv: "pool_inv s" and d: "clear_vault P og raw s = Done u s'"
  shows "pool_inv s'"
proof -
  let ?r = "CurrentRound s"
  from d obtain a who s1 u1 where a: "bt_get (BondedVault s ?r) a = Some who" and st: "ServiceState s = Normal"
    and 1: "(if who = ADDRESS_U64 then
          ok_or (SystemVault s ?r) VaultDNE s (\<lambda>v. Done () ((unbond_keys ?r (pub_keys v) s)\<lparr>SystemVault := (SystemVault s)(?r := None)\<rparr>))
        else
          ok_or (bt_get (RegistrationPool s ?r) who) UserDNE s (\<lambda>t.
          Done () ((unbond_keys ?r (pub_keys (vault t)) s)\<lparr>RegistrationPool := dm_remove ?r who (RegistrationPool s),
                         BondedRefund := dm_remove ?r (refund_address t) (BondedRefund s)\<rparr>))) = Done u1 s1"
    and s': "s' = s1\<lparr>BondedVault := dm_remove ?r a (BondedVault s1), BondedDescriptor := dm_remove ?r a (BondedDescriptor s1)\<rparr>"
    unfolding clear_vault_def Let_def unbond_keys_fields by (auto simp: pool_Done)
  show ?thesis
  proof (cases "who = ADDRESS_U64")
    case True
    with 1 obtain ks where s1: "s1 = (unbond_keys ?r ks s)\<lparr>SystemVault := (SystemVault s)(?r := None)\<rparr>"
      by (auto simp: guard_Done)
    from clear_system_round [OF pool_invD(2) [OF inv] a [unfolded True]] have "round_of s' ?r"
      by (simp add: s' s1 dm_remove_def)
    then show ?thesis
      by (intro pool_inv_current [OF inv]) (simp_all add: s' s1 same_but_def dm_remove_def)
  next
    case False
    with 1 obtain t ks where t: "bt_get (RegistrationPool s ?r) who = Some t"
      and s1: "s1 = (unbond_keys ?r ks s)\<lparr>RegistrationPool := dm_remove ?r who (RegistrationPool s),
                         BondedRefund := dm_remove ?r (refund_address t) (BondedRefund s)\<rparr>"
      by (auto simp: guard_Done)
    from clear_user_round [OF pool_invD(2) [OF inv] a False t] have "round_of s' ?r"
      by (simp add: s' s1 dm_remove_def)
    then show ?thesis
      by (intro pool_inv_current [OF inv]) (simp_all add: s' s1 same_but_def dm_remove_def)
  qed
qed

lemma drop_previous_round_keeps:
  assumes inv: "pool_inv s" and d: "drop_previous_round og r s = Done u s'"
  shows "pool_inv s'"
proof (rule pool_inv_round [OF inv])
  from d have st: "ServiceState s = Normal" and s': "s' = p_deposit (RoundDropped r)
       (s\<lparr>SystemVault := (SystemVault s)(r := None), RegistrationPool := (RegistrationPool s)(r := []),
          BondedVault := (BondedVault s)(r := []), BondedRefund := (BondedRefund s)(r := []),
          BondedPubKey := (BondedPubKey s)(r := []), BondedDescriptor := (BondedDescriptor s)(r := []),
          PreSubmittedPubKeys := (PreSubmittedPubKeys s)(r := (\<lambda>_. []))\<rparr>)"
    by (auto simp: drop_previous_round_def pool_Done)
  show "same_but r s s'" by (simp add: same_but_def s')
  show "round_of s' r" by (simp add: s')
  show "migration_ok s'" using pool_invD(3) [OF inv] st by (simp add: migration_ok_def s')
qed

lemma migration_control_Done:
  assumes "migration_control P E og s = Done u s'"
  shows "og = Root \<and>
    (ServiceState s = Normal \<and> is_ready_for_migrate E \<and> s' = (p_deposit MigrationStarted s)\<lparr>ServiceState := SetExecutiveMembers\<rparr> \<or>
     ServiceState s = SetExecutiveMembers \<and>
       request_system_vault P E og True (s\<lparr>ServiceState := PrepareNextSystemVault\<rparr>) = Done () s' \<or>
     ServiceState s = UTXOTransfer \<and> OngoingVaultMigration s \<noteq> [] \<and> (\<forall>e\<in>set (OngoingVaultMigration s). snd e) \<and>
       s' = (p_deposit MigrationCompleted s)\<lparr>CurrentRound := add32 (CurrentRound s) 1, ServiceState := Normal,
         OngoingVaultMigration := []\<rparr>)"
  using assms by (cases "ServiceState s") (auto simp: migration_control_def pool_Done)

text \<open>Entering the preparation and asking for the next vault are one step.\<close>

lemma prepare_keeps:
  assumes P: "mul_ceil_law P" and inv: "pool_inv s" and st: "ServiceState s = SetExecutiveMembers"
    and d: "request_system_vault P E og True (s\<lparr>ServiceState := PrepareNextSystemVault\<rparr>) = Done u s'"
  shows "pool_inv s' \<and> ServiceState s' = PrepareNextSystemVault \<and> CurrentRound s' = CurrentRound s"
proof -
  let ?r = "add32 (CurrentRound s) 1" and ?v = "MultiSigAccount_new (get_m P E s) (get_n E)"
  from d have n: "SystemVault s ?r = None"
    and s': "s' = p_deposit SystemVaultPending (s\<lparr>ServiceState := PrepareNextSystemVault, SystemVault := (SystemVault s)(?r \<mapsto> ?v)\<rparr>)"
    by (auto simp: request_system_vault_def Let_def pool_Done get_m_def)
  have v: "vault_ok ?v" by (rule new_vault_ok [OF P pool_invD(1) [OF inv]])
  have "pool_inv s'"
  proof (rule pool_inv_round [OF inv, where r = ?r])
    show "same_but ?r s s'" by (simp add: same_but_def s')
    show "round_of s' ?r"
      by (rule stored_round [OF pool_invD(2) [OF inv], where who = ADDRESS_U64 and w = ?v])
        (use n v in \<open>simp_all add: stored_vault_def MultiSigAccount_new_def s' put_vault_def\<close>)
    show "migration_ok s'" using pool_invD(3) [OF inv] by (simp add: s' migration_ok_def)
  qed
  then show ?thesis by (simp add: s')
qed

lemma migration_control_keeps:
  assumes P: "mul_ceil_law P" and inv: "pool_inv s" and d: "migration_control P E og s = Done u s'"
  shows "pool_inv s'"
  using migration_control_Done [OF d] inv prepare_keeps [OF P inv]
  by (auto simp: pool_inv_def migration_ok_def)

lemma set_ratio_keeps:
  "pool_inv s \<Longrightarrow> p \<le> 100 \<Longrightarrow> set_multi_sig_ratio og p s = Done u s' \<Longrightarrow> pool_inv s'"
  by (auto simp: set_multi_sig_ratio_def pool_Done pool_inv_def migration_ok_def get_system_vault_def ratio_ok_def)

lemma other_calls_keep:
  "pool_inv s \<Longrightarrow> request_set_refund P og raw s = Done u s' \<Longrightarrow> pool_inv s'"
  "pool_inv s \<Longrightarrow> vault_key_presubmission P og sub s = Done u s' \<Longrightarrow> pool_inv s'"
  "pool_inv s \<Longrightarrow> set_max_presubmission og n s = Done u s' \<Longrightarrow> pool_inv s'"
  "pool_inv s \<Longrightarrow> approve_set_refunds og ap s = Done u s' \<Longrightarrow> pool_inv s'"
proof -
  have m: "pool_inv (s\<lparr>MaxPreSubmission := x\<rparr>) = pool_inv s" for s x
    by (simp add: pool_inv_def migration_ok_def get_system_vault_def)
  show "pool_inv s \<Longrightarrow> request_set_refund P og raw s = Done u s' \<Longrightarrow> pool_inv s'"
    by (auto simp: request_set_refund_def Let_def pool_Done)
  show "pool_inv s \<Longrightarrow> vault_key_presubmission P og sub s = Done u s' \<Longrightarrow> pool_inv s'"
    by (auto simp: vault_key_presubmission_def Let_def pool_Done)
  show "pool_inv s \<Longrightarrow> set_max_presubmission og n s = Done u s' \<Longrightarrow> pool_inv s'"
    by (auto simp: set_max_presubmission_def pool_Done m)
  show "pool_inv s \<Longrightarrow> approve_set_refunds og ap s = Done u s' \<Longrightarrow> pool_inv s'"
    using approve_refund_sets_keeps [of s] by (auto simp: approve_set_refunds_def Let_def pool_Done)
qed

subsection \<open>Runs\<close>

text \<open>
  The steps of the pool: a call from a dispatch, and the functions the other pallets call. A failed
  call leaves the state as it was; \<open>None\<close> is a panic.
\<close>

datatype pool_op =
    PCall PEnv origin pool_call
  | PAddTx H256 | PRemoveTx H256 | PExecuteTx H256
  | PReplaceAuthority acct acct
  | PProcessSetRefunds
  | PChangeMembers "acct list"

definition pool_exec :: "PConfig \<Rightarrow> pool_op \<Rightarrow> reg_pool \<Rightarrow> reg_pool option" where
  "pool_exec P x s =
     (case x of
        PCall E og c \<Rightarrow> settle s (pool_call_run P E og c s)
      | PAddTx t \<Rightarrow> Some (add_migration_tx t s)
      | PRemoveTx t \<Rightarrow> Some (remove_migration_tx t s)
      | PExecuteTx t \<Rightarrow> Some (execute_migration_tx t s)
      | PReplaceAuthority old new \<Rightarrow> settle s (pool_replace_authority old new s)
      | PProcessSetRefunds \<Rightarrow> Some (process_set_refunds s)
      | PChangeMembers ms \<Rightarrow> Some (change_members_sorted ms s))"

text \<open>Nobody signs as the precompile address, and a \<open>Percent\<close> is at most one hundred.\<close>

definition pool_guard :: "pool_op \<Rightarrow> bool" where
  "pool_guard x =
     (case x of
        PCall E og c \<Rightarrow> og \<noteq> Signed ADDRESS_U64 \<and> (case c of SetMultiSigRatio p \<Rightarrow> p \<le> 100 | _ \<Rightarrow> True)
      | _ \<Rightarrow> True)"

inductive pool_reachable :: "PConfig \<Rightarrow> reg_pool \<Rightarrow> bool" for P where
  pool_start: "pool_reachable P (initialize_members ms (pool_genesis P pool_default))"
| pool_move: "pool_reachable P s \<Longrightarrow> pool_guard x \<Longrightarrow> pool_exec P x s = Some s' \<Longrightarrow> pool_reachable P s'"

lemma call_keeps:
  assumes P: "mul_ceil_law P" and inv: "pool_inv s" and g: "pool_guard (PCall E og c)"
    and d: "pool_call_run P E og c s = Done u s'"
  shows "pool_inv s'"
proof (cases c)
  case (RequestVault refund)
  with g d show ?thesis using request_vault_keeps [OF P inv] by (simp add: pool_guard_def pool_call_run_def)
next
  case (SetMultiSigRatio p)
  with g d have "p \<le> 100" "set_multi_sig_ratio og p s = Done () s'" by (simp_all add: pool_guard_def pool_call_run_def)
  then show ?thesis by (rule set_ratio_keeps [OF inv])
qed (use d other_calls_keep [OF inv] request_system_vault_keeps [OF P inv] submit_vault_key_keeps [OF inv]
      submit_system_vault_key_keeps [OF inv] clear_vault_keeps [OF inv] migration_control_keeps [OF P inv]
      drop_previous_round_keeps [OF inv] in \<open>simp_all add: pool_call_run_def\<close>)

subsection \<open>Ordered maps and panics\<close>

definition pool_wf :: "reg_pool \<Rightarrow> bool" where
  "pool_wf s \<longleftrightarrow> (\<forall>r. bt_wf (RegistrationPool s r))"

lemma pool_wf_upd [simp]:
  "pool_wf s \<Longrightarrow> pool_wf (s\<lparr>RegistrationPool := dm_insert r k v (RegistrationPool s)\<rparr>)"
  "pool_wf s \<Longrightarrow> pool_wf (s\<lparr>RegistrationPool := dm_remove r k (RegistrationPool s)\<rparr>)"
  by (simp_all add: pool_wf_def dm_insert_def dm_remove_def)

lemma pool_wf_fields [simp]: "pool_wf (p_deposit e s) = pool_wf s" "pool_wf (s\<lparr>PendingSetRefunds := x\<rparr>) = pool_wf s"
  by (simp_all add: pool_wf_def)

text \<open>How a call changes the registrations.\<close>

definition wf_change :: "(pool_round \<Rightarrow> (acct, BitcoinRelayTarget) btmap) \<Rightarrow> (pool_round \<Rightarrow> (acct, BitcoinRelayTarget) btmap) \<Rightarrow> bool" where
  "wf_change m m' \<longleftrightarrow> ((\<forall>r. bt_wf (m r)) \<longrightarrow> (\<forall>r. bt_wf (m' r)))"

lemma wf_changes [simp]:
  "wf_change m m" "wf_change m (dm_insert r k v m)" "wf_change m (dm_remove r k m)" "wf_change m (m(r := []))"
  by (simp_all add: wf_change_def dm_insert_def dm_remove_def)

lemma wf_change_pool: "wf_change (RegistrationPool s) (RegistrationPool s') \<Longrightarrow> pool_wf s \<Longrightarrow> pool_wf s'"
  by (simp add: wf_change_def pool_wf_def)

lemma collect_registrations:
  "collect_presubmitted r xs v s = Done v' s' \<Longrightarrow> RegistrationPool s' = RegistrationPool s"
  by (induction xs arbitrary: v s) (auto simp: Let_def guard_Done split: list.splits if_splits)

lemma bond_registrations:
  "try_bond_vault_address P E v refund who r s = Done v' s' \<Longrightarrow> RegistrationPool s' = RegistrationPool s"
  by (auto simp: bond_Done)

lemma bond_if_ready_registrations:
  "bond_if_ready P E who r t s = Done t' s' \<Longrightarrow> RegistrationPool s' = RegistrationPool s"
  by (auto simp: bond_if_ready_def bond_keys_def dest: bond_registrations bond_Fail split: if_splits outcome.splits)

lemma rebond_pool_wf: "pool_wf s \<Longrightarrow> pool_wf (rebond_refund r who t new s)"
  by (simp add: rebond_refund_def Let_def pool_wf_def dm_insert_def)

lemma approve_wf: "approve_refund_sets r ps s = Done u s' \<Longrightarrow> pool_wf s \<Longrightarrow> pool_wf s'"
  by (rule approve_refund_sets_rule [where I = pool_wf]) (simp_all add: rebond_pool_wf)

lemma request_vault_wf: "request_vault P E og raw s = Done u s' \<Longrightarrow> wf_change (RegistrationPool s) (RegistrationPool s')"
  unfolding request_vault_def Let_def
  by (auto simp: pool_Done dest!: collect_registrations bond_if_ready_registrations)

lemma submit_vault_key_wf:
  "submit_vault_key P E og sub s = Done u s' \<Longrightarrow> wf_change (RegistrationPool s) (RegistrationPool s')"
  unfolding submit_vault_key_def Let_def by (auto simp: pool_Done dest!: bond_registrations split: if_splits)

lemma submit_system_vault_key_wf:
  "submit_system_vault_key P E og sub s = Done u s' \<Longrightarrow> wf_change (RegistrationPool s) (RegistrationPool s')"
  by (erule submit_system_vault_key_Done) (auto simp: pool_Done dest!: bond_registrations split: if_splits)

lemma clear_vault_wf: "clear_vault P og raw s = Done u s' \<Longrightarrow> wf_change (RegistrationPool s) (RegistrationPool s')"
  unfolding clear_vault_def Let_def by (auto simp: pool_Done split: if_splits)

lemma call_wf:
  assumes "pool_call_run P E og c s = Done u s'" "pool_wf s"
  shows "pool_wf s'"
proof (cases c)
  case (ApproveSetRefunds ap sig)
  with assms approve_wf show ?thesis by (auto simp: pool_call_run_def approve_set_refunds_def Let_def pool_Done)
next
  case (RequestVault raw)
  with assms show ?thesis by (auto simp: pool_call_run_def intro: wf_change_pool [OF request_vault_wf])
next
  case (SubmitVaultKey sub sig)
  with assms show ?thesis by (auto simp: pool_call_run_def intro: wf_change_pool [OF submit_vault_key_wf])
next
  case (SubmitSystemVaultKey sub sig)
  with assms show ?thesis by (auto simp: pool_call_run_def intro: wf_change_pool [OF submit_system_vault_key_wf])
next
  case (ClearVault a)
  with assms show ?thesis by (auto simp: pool_call_run_def intro: wf_change_pool [OF clear_vault_wf])
next
  case (DropPreviousRound r)
  with assms show ?thesis by (auto simp: pool_call_run_def drop_previous_round_def pool_Done pool_wf_def)
next
  case MigrationControl
  with assms have "RegistrationPool s' = RegistrationPool s"
    by (auto simp: pool_call_run_def request_system_vault_def Let_def pool_Done dest!: migration_control_Done)
  with assms(2) show ?thesis by (simp add: pool_wf_def)
qed (use assms in \<open>auto simp: pool_call_run_def request_set_refund_def request_system_vault_def vault_key_presubmission_def
      set_max_presubmission_def set_multi_sig_ratio_def Let_def pool_Done pool_wf_def\<close>)

text \<open>No call panics.\<close>

lemma ensure_origin_Panic:
  "ensure_normal s k = Panic \<longleftrightarrow> ServiceState s = Normal \<and> k = Panic"
  "pool_root og s k = Panic \<longleftrightarrow> og = Root \<and> k = Panic"
  "pool_none og s k = Panic \<longleftrightarrow> og = NoOrigin \<and> k = Panic"
  "pool_signed og s h = Panic \<longleftrightarrow> (\<exists>who. og = Signed who \<and> h who = Panic)"
  by (auto simp: ensure_normal_def pool_root_def pool_none_def pool_signed_def guard_Panic split: origin.splits)

lemmas pool_Panic = guard_Panic ensure_origin_Panic

lemma collect_not_Panic: "collect_presubmitted r xs v s \<noteq> Panic"
  by (induction xs arbitrary: v s) (auto simp: Let_def pool_Panic split: list.splits)

lemma approve_not_Panic: "approve_refund_sets r ps s \<noteq> Panic"
  by (induction r ps s rule: approve_refund_sets.induct) (auto simp: pool_Panic split: if_splits)

lemma parts_not_Panic:
  "get_checked_bitcoin_address P raw s \<noteq> Panic" "submit_key P r a k v s \<noteq> Panic"
  "bond_if_ready P E who r t s \<noteq> Panic" "request_system_vault P E og prep s \<noteq> Panic"
  using bond_not_Panic
  by (auto simp: get_checked_bitcoin_address_def submit_key_def bond_if_ready_def request_system_vault_def Let_def
      pool_Panic split: outcome.splits)

lemma call_not_Panic: "pool_call_run P E og c s \<noteq> Panic"
  by (cases c) (auto simp: pool_call_run_def request_set_refund_def request_vault_def submit_vault_key_def
      submit_system_vault_key_def vault_key_presubmission_def clear_vault_def migration_control_def
      drop_previous_round_def set_max_presubmission_def set_multi_sig_ratio_def approve_set_refunds_def Let_def
      pool_Panic parts_not_Panic collect_not_Panic approve_not_Panic bond_not_Panic
      split: if_splits MigrationSequence.splits)

subsection \<open>Every reachable state\<close>

lemma tx_ops_keep:
  "pool_inv (add_migration_tx t s) = pool_inv s" "pool_inv (remove_migration_tx t s) = pool_inv s"
  "pool_inv (execute_migration_tx t s) = pool_inv s" "pool_inv (change_members_sorted ms s) = pool_inv s"
  "pool_wf (add_migration_tx t s) = pool_wf s" "pool_wf (remove_migration_tx t s) = pool_wf s"
  "pool_wf (execute_migration_tx t s) = pool_wf s" "pool_wf (change_members_sorted ms s) = pool_wf s"
  by (simp_all add: add_migration_tx_def remove_migration_tx_def execute_migration_tx_def change_members_sorted_def Let_def
      pool_inv_def migration_ok_def get_system_vault_def pool_wf_def)

lemma process_wf: "pool_wf s \<Longrightarrow> pool_wf (process_set_refunds s)"
proof -
  have "pool_wf (fold (process_set_refund r) ps s)" if "pool_wf s" for r ps s
    using that by (induction ps arbitrary: s) (simp_all add: process_set_refund_def Let_def rebond_pool_wf split: option.splits)
  then show "pool_wf s \<Longrightarrow> pool_wf (process_set_refunds s)" by (simp add: process_set_refunds_def Let_def)
qed

lemma replace_targets_keys: "replace_targets old new m = Some m' \<Longrightarrow> map fst m' = map fst m"
  by (induction old new m arbitrary: m' rule: replace_targets.induct) (auto simp: Option.bind_eq_Some_conv)

lemma replace_wf: "pool_replace_authority old new s = Done u s' \<Longrightarrow> pool_wf s \<Longrightarrow> pool_wf s'"
  by (auto simp: pool_replace_authority_def Let_def move_presubmitted_def guard_Done pool_wf_def
      dest!: replace_targets_keys split: option.splits)

lemma pool_exec_keeps:
  assumes P: "mul_ceil_law P" and inv: "pool_inv s" "pool_wf s" and g: "pool_guard x"
  shows "\<exists>s'. pool_exec P x s = Some s' \<and> pool_inv s' \<and> pool_wf s'"
proof (cases x)
  case (PCall E og c)
  show ?thesis
  proof (cases "pool_call_run P E og c s")
    case (Done u s')
    with PCall call_keeps [OF P inv(1) g [unfolded PCall] Done] call_wf [OF Done inv(2)] show ?thesis
      by (simp add: pool_exec_def settle_def)
  qed (use PCall inv call_not_Panic in \<open>auto simp: pool_exec_def settle_def\<close>)
next
  case (PReplaceAuthority old new)
  from pool_replace_authority_keeps [OF _ inv(1)] inv(2) obtain s'
    where s': "pool_replace_authority old new s = Done () s'" "pool_inv s'" unfolding pool_wf_def by blast
  with PReplaceAuthority replace_wf [OF s'(1) inv(2)] show ?thesis by (simp add: pool_exec_def settle_def)
qed (use inv in \<open>simp_all add: pool_exec_def tx_ops_keep process_set_refunds_keeps process_wf\<close>)

lemma pool_reachable_inv:
  assumes P: "mul_ceil_law P" "ratio_ok (DefaultMultiSigRatio P)" and r: "pool_reachable P s"
  shows "pool_inv s \<and> pool_wf s"
  using r
proof (induction rule: pool_reachable.induct)
  case (pool_start ms)
  then show ?case
    using P(2) by (simp add: pool_inv_def pool_wf_def migration_ok_def initialize_members_def pool_genesis_def pool_default_def M32_def)
next
  case (pool_move s x s')
  with pool_exec_keeps [OF P(1)] show ?case by (metis option.inject)
qed

subsection \<open>The migration machine\<close>

definition phase :: "reg_pool \<Rightarrow> MigrationSequence \<times> pool_round" where
  "phase s = (ServiceState s, CurrentRound s)"

inductive migration_step :: "MigrationSequence \<times> pool_round \<Rightarrow> MigrationSequence \<times> pool_round \<Rightarrow> bool" where
  start_step: "migration_step (Normal, r) (SetExecutiveMembers, r)"
| prepare_step: "migration_step (SetExecutiveMembers, r) (PrepareNextSystemVault, r)"
| transfer_step: "migration_step (PrepareNextSystemVault, r) (UTXOTransfer, r)"
| complete_step: "migration_step (UTXOTransfer, r) (Normal, add32 r 1)"

inductive_cases migration_stepE [elim]: "migration_step (q, r) (q', r')"
inductive_simps migration_step_simps [simp]: "migration_step (q, r) (q', r')"

lemma collect_phase: "collect_presubmitted r xs v s = Done v' s' \<Longrightarrow> phase s' = phase s"
  by (induction xs arbitrary: v s) (auto simp: Let_def guard_Done phase_def split: list.splits if_splits)

lemma bond_phase: "try_bond_vault_address P E v refund who r s = Done v' s' \<Longrightarrow> phase s' = phase s"
  by (auto simp: bond_Done phase_def)

lemma bond_if_ready_phase: "bond_if_ready P E who r t s = Done t' s' \<Longrightarrow> phase s' = phase s"
  by (auto simp: bond_if_ready_def bond_keys_def phase_def dest: bond_phase bond_Fail split: if_splits outcome.splits)

lemma phase_fields [simp]:
  "phase (p_deposit e s) = phase s" "phase (s\<lparr>PendingSetRefunds := x1\<rparr>) = phase s"
  "phase (s\<lparr>RegistrationPool := x2\<rparr>) = phase s" "phase (s\<lparr>BondedPubKey := x3\<rparr>) = phase s"
  "phase (s\<lparr>PreSubmittedPubKeys := x4\<rparr>) = phase s" "phase (s\<lparr>BondedVault := x5\<rparr>) = phase s"
  "phase (s\<lparr>BondedDescriptor := x6\<rparr>) = phase s" "phase (s\<lparr>SystemVault := x7\<rparr>) = phase s"
  "phase (s\<lparr>BondedRefund := x8\<rparr>) = phase s" "phase (mutate_refund r a f s) = phase s"
  "phase (rebond_refund r who t new s) = phase s" "phase (unbond_keys r ks s) = phase s"
  "phase (s\<lparr>MaxPreSubmission := x9\<rparr>) = phase s" "phase (s\<lparr>MultiSigRatio := x10\<rparr>) = phase s"
  by (simp_all add: phase_def)

lemma approve_phase: "approve_refund_sets r ps s = Done u s' \<Longrightarrow> phase s' = phase s"
  by (rule approve_refund_sets_rule [where I = "\<lambda>q. phase q = phase s"]) simp_all

lemma request_vault_phase: "request_vault P E og raw s = Done u s' \<Longrightarrow> phase s' = phase s"
  unfolding request_vault_def Let_def by (auto simp: pool_Done dest!: collect_phase bond_if_ready_phase)

lemma submit_vault_key_phase: "submit_vault_key P E og sub s = Done u s' \<Longrightarrow> phase s' = phase s"
  unfolding submit_vault_key_def Let_def by (auto simp: pool_Done dest!: bond_phase split: if_splits)

lemma clear_vault_phase: "clear_vault P og raw s = Done u s' \<Longrightarrow> phase s' = phase s"
  unfolding clear_vault_def Let_def by (auto simp: pool_Done split: if_splits)

lemma request_system_vault_phase: "request_system_vault P E og prep s = Done u s' \<Longrightarrow> phase s' = phase s"
  by (auto simp: request_system_vault_def Let_def pool_Done)

lemma submit_system_vault_key_phase:
  "submit_system_vault_key P E og sub s = Done u s' \<Longrightarrow> phase s' = phase s \<or> migration_step (phase s) (phase s')"
proof (erule submit_system_vault_key_Done)
  fix r v0 v s1 w s2
  assume "submit_key P r (ks_authority_id sub) (ks_pub_key sub) v0 s = Done v s1"
    "(if is_key_generation_ready v then try_bond_vault_address P E v [] ADDRESS_U64 r
        (p_deposit (VaultKeySubmitted (ks_who sub) (ks_pub_key sub)) s1)
      else Done v (p_deposit (VaultKeySubmitted (ks_who sub) (ks_pub_key sub)) s1)) = Done w s2"
  then have "phase s2 = phase s" by (auto simp: pool_Done dest!: bond_phase split: if_splits)
  then show "phase s' = phase s \<or> migration_step (phase s) (phase s')"
    if "s' = s2\<lparr>BondedPubKey := dm_insert r (ks_pub_key sub) ADDRESS_U64 (BondedPubKey s2),
       SystemVault := (SystemVault s2)(r \<mapsto> w),
       ServiceState := (if ServiceState s = PrepareNextSystemVault \<and> is_key_generation_ready v then UTXOTransfer
                        else ServiceState s2)\<rparr>"
    using that by (auto simp: phase_def)
qed

lemma migration_control_phase:
  "migration_control P E og s = Done u s' \<Longrightarrow> migration_step (phase s) (phase s')"
  by (auto simp: phase_def request_system_vault_def Let_def pool_Done dest!: migration_control_Done)

text \<open>Every call refines the machine.\<close>

lemma call_phase:
  assumes "pool_call_run P E og c s = Done u s'"
  shows "phase s' = phase s \<or> migration_step (phase s) (phase s')"
  using assms
  by (cases c) (auto simp: pool_call_run_def request_set_refund_def vault_key_presubmission_def drop_previous_round_def
      set_max_presubmission_def set_multi_sig_ratio_def approve_set_refunds_def Let_def pool_Done
      dest!: request_vault_phase submit_vault_key_phase clear_vault_phase request_system_vault_phase
        submit_system_vault_key_phase migration_control_phase approve_phase
      simp del: migration_step_simps)

text \<open>So does every step, and a round ends only with its transactions executed.\<close>

lemma process_phase: "phase (process_set_refunds s) = phase s"
proof -
  have "phase (fold (process_set_refund r) ps s) = phase s" for r ps s
    by (induction ps arbitrary: s) (simp_all add: process_set_refund_def Let_def split: option.splits)
  then show ?thesis by (simp add: process_set_refunds_def Let_def)
qed

lemma other_phase:
  "phase (add_migration_tx t s) = phase s" "phase (remove_migration_tx t s) = phase s"
  "phase (execute_migration_tx t s) = phase s" "phase (change_members_sorted ms s) = phase s"
  "pool_replace_authority old new s = Done u s' \<Longrightarrow> phase s' = phase s"
  by (auto simp: add_migration_tx_def remove_migration_tx_def execute_migration_tx_def change_members_sorted_def Let_def
      phase_def pool_replace_authority_def move_presubmitted_def guard_Done split: option.splits)

lemma exec_phase:
  "pool_exec P x s = Some s' \<Longrightarrow> phase s' = phase s \<or> (\<exists>E og c. x = PCall E og c \<and>
     pool_call_run P E og c s = Done () s' \<and> migration_step (phase s) (phase s'))"
  by (cases x) (auto simp: pool_exec_def settle_Some process_phase other_phase dest: call_phase simp del: migration_step_simps)

lemma round_change:
  assumes "pool_call_run P E og c s = Done u s'" "CurrentRound s' \<noteq> CurrentRound s"
  shows "c = MigrationControl \<and> og = Root"
proof -
  have "phase s' \<noteq> phase s" using assms(2) by (auto simp: phase_def)
  with call_phase [OF assms(1)] assms(2) have u: "ServiceState s = UTXOTransfer" "ServiceState s' = Normal" by (auto simp: phase_def)
  with assms(1) show ?thesis
    by (cases c) (auto simp: pool_call_run_def request_set_refund_def request_vault_def submit_vault_key_def
      submit_system_vault_key_def vault_key_presubmission_def clear_vault_def drop_previous_round_def request_system_vault_def
      set_max_presubmission_def set_multi_sig_ratio_def approve_set_refunds_def Let_def pool_Done
      dest: migration_control_Done)
qed

lemma completion:
  assumes "migration_control P E og s = Done u s'" "CurrentRound s' \<noteq> CurrentRound s"
  shows "ServiceState s = UTXOTransfer" "OngoingVaultMigration s \<noteq> []" "\<forall>e\<in>set (OngoingVaultMigration s). snd e"
    "OngoingVaultMigration s' = []" "CurrentRound s' = add32 (CurrentRound s) 1" "SystemVault s' = SystemVault s"
  using migration_control_Done [OF assms(1)] assms(2) by (auto simp: request_system_vault_def Let_def pool_Done)

subsection \<open>What a migration freezes\<close>

definition frozen :: "reg_pool \<Rightarrow> reg_pool \<Rightarrow> bool" where
  "frozen s s' \<longleftrightarrow>
     RegistrationPool s' = RegistrationPool s \<and> BondedRefund s' = BondedRefund s \<and>
     PendingSetRefunds s' = PendingSetRefunds s \<and> PreSubmittedPubKeys s' = PreSubmittedPubKeys s \<and>
     (\<forall>r. r \<noteq> add32 (CurrentRound s) 1 \<longrightarrow> BondedVault s' r = BondedVault s r \<and>
        BondedDescriptor s' r = BondedDescriptor s r \<and> BondedPubKey s' r = BondedPubKey s r)"

lemma system_key_frozen:
  assumes "submit_system_vault_key P E og sub s = Done u s'" "ServiceState s \<noteq> Normal"
  shows "frozen s s'"
proof (rule submit_system_vault_key_Done [OF assms(1)])
  fix r v0 v s1 w s2
  assume r: "ServiceState s = Normal \<and> r = CurrentRound s \<or> ServiceState s = PrepareNextSystemVault \<and> r = add32 (CurrentRound s) 1"
    and k: "submit_key P r (ks_authority_id sub) (ks_pub_key sub) v0 s = Done v s1"
    and b: "(if is_key_generation_ready v then try_bond_vault_address P E v [] ADDRESS_U64 r
        (p_deposit (VaultKeySubmitted (ks_who sub) (ks_pub_key sub)) s1)
      else Done v (p_deposit (VaultKeySubmitted (ks_who sub) (ks_pub_key sub)) s1)) = Done w s2"
    and s': "s' = s2\<lparr>BondedPubKey := dm_insert r (ks_pub_key sub) ADDRESS_U64 (BondedPubKey s2),
       SystemVault := (SystemVault s2)(r \<mapsto> w),
       ServiceState := (if ServiceState s = PrepareNextSystemVault \<and> is_key_generation_ready v then UTXOTransfer
                        else ServiceState s2)\<rparr>"
  have "frozen s s2"
    using k b r assms(2) by (auto simp: frozen_def pool_Done bond_Done dm_insert_def split: if_splits)
  then show "frozen s s'" using r assms(2) by (auto simp: frozen_def s' dm_insert_def)
qed

lemma call_frozen:
  assumes "pool_call_run P E og c s = Done u s'" "ServiceState s \<noteq> Normal"
  shows "frozen s s'"
proof (cases c)
  case (SubmitSystemVaultKey sub sig)
  with assms system_key_frozen show ?thesis by (simp add: pool_call_run_def)
next
  case MigrationControl
  with assms show ?thesis
    by (auto simp: pool_call_run_def frozen_def request_system_vault_def Let_def pool_Done dest!: migration_control_Done)
qed (use assms in \<open>auto simp: pool_call_run_def request_set_refund_def request_vault_def submit_vault_key_def
      vault_key_presubmission_def clear_vault_def drop_previous_round_def request_system_vault_def
      set_max_presubmission_def set_multi_sig_ratio_def approve_set_refunds_def Let_def pool_Done frozen_def\<close>)

subsection \<open>A migration that cannot go on\<close>

definition blocked :: "reg_pool \<Rightarrow> bool" where
  "blocked s \<longleftrightarrow> ServiceState s = SetExecutiveMembers \<and> SystemVault s (add32 (CurrentRound s) 1) \<noteq> None"

lemma blocked_call:
  assumes "blocked s" "pool_call_run P E og c s = Done u s'"
  shows "phase s' = phase s \<and> SystemVault s' = SystemVault s"
  using assms
  by (cases c) (auto simp: blocked_def pool_call_run_def request_set_refund_def request_vault_def submit_vault_key_def
      vault_key_presubmission_def clear_vault_def drop_previous_round_def request_system_vault_def
      submit_system_vault_key_def set_max_presubmission_def set_multi_sig_ratio_def approve_set_refunds_def
      Let_def pool_Done dest!: migration_control_Done)

lemma process_system: "SystemVault (process_set_refunds s) = SystemVault s"
proof -
  have "SystemVault (fold (process_set_refund r) ps s) = SystemVault s" for r ps s
    by (induction ps arbitrary: s) (simp_all add: process_set_refund_def Let_def split: option.splits)
  then show ?thesis by (simp add: process_set_refunds_def Let_def)
qed

lemma replace_system:
  "pool_replace_authority old new s = Done u s' \<Longrightarrow> r \<noteq> CurrentRound s \<Longrightarrow> SystemVault s' r = SystemVault s r"
  by (auto simp: pool_replace_authority_def Let_def move_presubmitted_def guard_Done split: option.splits)

lemma blocked_exec:
  assumes b: "blocked s" and r: "CurrentRound s < M32" and x: "pool_exec P x s = Some s'"
  shows "blocked s' \<and> phase s' = phase s"
proof -
  have "phase s' = phase s \<and> SystemVault s' (add32 (CurrentRound s) 1) = SystemVault s (add32 (CurrentRound s) 1)"
  proof (cases x)
    case (PCall E og c)
    with x blocked_call [OF b] show ?thesis by (auto simp: pool_exec_def settle_Some)
  next
    case (PReplaceAuthority old new)
    with x r other_phase(5) replace_system show ?thesis by (auto simp: pool_exec_def settle_Some)
  qed (use x process_phase [of s] in \<open>auto simp: pool_exec_def process_system phase_def add_migration_tx_def
      remove_migration_tx_def execute_migration_tx_def change_members_sorted_def Let_def\<close>)
  then show ?thesis using b by (auto simp: blocked_def phase_def)
qed

text \<open>Running a list of steps.\<close>

fun pool_run :: "PConfig \<Rightarrow> pool_op list \<Rightarrow> reg_pool \<Rightarrow> reg_pool option" where
  "pool_run P [] s = Some s"
| "pool_run P (x # xs) s = Option.bind (pool_exec P x s) (pool_run P xs)"

lemma pool_run_reachable:
  "pool_reachable P s \<Longrightarrow> list_all pool_guard xs \<Longrightarrow> pool_run P xs s = Some s' \<Longrightarrow> pool_reachable P s'"
  by (induction xs arbitrary: s) (auto simp: Option.bind_eq_Some_conv intro: pool_move)

lemma blocked_run:
  assumes "blocked s" "CurrentRound s < M32" "pool_run P xs s = Some s'"
  shows "phase s' = phase s"
  using assms
proof (induction xs arbitrary: s)
  case (Cons x xs)
  then obtain s1 where 1: "pool_exec P x s = Some s1" "pool_run P xs s1 = Some s'" by (auto simp: Option.bind_eq_Some_conv)
  note b = blocked_exec [OF Cons.prems(1,2) 1(1)]
  with Cons.IH [OF _ _ 1(2)] Cons.prems(2) show ?case by (auto simp: phase_def)
qed simp

end
