(* ===== verification/Pool_Properties.thy ===== *)
theory Pool_Properties
  imports Reg_Pool_Machine
begin

text \<open>
  The properties of the registration pool, and a sample run that registers a user, generates its
  vault and takes a migration to the transfer of the outputs.
\<close>

subsection \<open>A sample run\<close>

definition sample_pool :: PConfig where
  "sample_pool = \<lparr>checked_address = Some, pk_from_slice = Some, pk_sort = id,
     new_wsh_sortedmulti = (\<lambda>m ks. Some (concat ks)), sanity_check = (\<lambda>_. True), desc_address = (\<lambda>d. Some (0 # d)),
     desc_from_str = Some, percent_mul_ceil = (\<lambda>p n. (p * n + 99) div 100), DefaultMultiSigRatio = 60\<rparr>"

definition sample_penv :: PEnv where
  "sample_penv = \<lparr>executives = [2, 3], is_ready_for_migrate = True, verify_legacy_authority = (\<lambda>_. True), p_block_number = 5\<rparr>"

definition sample_key :: "acct \<Rightarrow> acct \<Rightarrow> Public \<Rightarrow> pool_round \<Rightarrow> VaultKeySubmission" where
  "sample_key a who k r = \<lparr>ks_authority_id = a, ks_who = who, ks_pub_key = k, ks_pool_round = r\<rparr>"

definition sample_pool_start :: reg_pool where
  "sample_pool_start = initialize_members [2, 3] (pool_genesis sample_pool pool_default)"

definition sample_registration :: "pool_op list" where
  "sample_registration =
     [PCall sample_penv (Signed 7) (RequestVault [9]),
      PCall sample_penv NoOrigin (SubmitVaultKey (sample_key 2 7 [21] 1) [])]"

definition sample_migration :: "pool_op list" where
  "sample_migration =
     [PCall sample_penv NoOrigin (SubmitVaultKey (sample_key 3 7 [31] 1) []),
      PCall sample_penv Root MigrationControl,
      PCall sample_penv Root MigrationControl,
      PCall sample_penv NoOrigin (SubmitSystemVaultKey (sample_key 2 256 [22] 2) []),
      PCall sample_penv NoOrigin (SubmitSystemVaultKey (sample_key 3 256 [32] 2) []),
      PAddTx 5, PExecuteTx 5]"

definition sample_one_key :: reg_pool where
  "sample_one_key = sample_pool_start\<lparr>
     RegistrationPool := (\<lambda>_. [])(1 := [(7, \<lparr>refund_address = [9], vault = \<lparr>ms_address = AddrPending, ms_descriptor = [],
       ms_pub_keys = [(2, [21])], ms_m = 2, ms_n = 2\<rparr>\<rparr>)]),
     BondedRefund := (\<lambda>_. [])(1 := [([9], [7])]), BondedPubKey := (\<lambda>_. [])(1 := [([21], 7)]),
     PEvents := [VaultKeySubmitted 7 [21]]\<rparr>"

definition sample_transfer :: reg_pool where
  "sample_transfer = sample_one_key\<lparr>ServiceState := UTXOTransfer,
     SystemVault := [2 \<mapsto> \<lparr>ms_address = Generated [0, 22, 32], ms_descriptor = [22, 32],
       ms_pub_keys = [(2, [22]), (3, [32])], ms_m = 2, ms_n = 2\<rparr>],
     RegistrationPool := (\<lambda>_. [])(1 := [(7, \<lparr>refund_address = [9], vault = \<lparr>ms_address = Generated [0, 21, 31],
       ms_descriptor = [21, 31], ms_pub_keys = [(2, [21]), (3, [31])], ms_m = 2, ms_n = 2\<rparr>\<rparr>)]),
     BondedVault := (\<lambda>_. [])(1 := [([0, 21, 31], 7)], 2 := [([0, 22, 32], 256)]),
     BondedPubKey := (\<lambda>_. [])(1 := [([21], 7), ([31], 7)], 2 := [([22], 256), ([32], 256)]),
     BondedDescriptor := (\<lambda>_. [])(1 := [([0, 21, 31], [21, 31])], 2 := [([0, 22, 32], [22, 32])]),
     OngoingVaultMigration := [(5, True)],
     PEvents := [VaultKeySubmitted 7 [21], VaultKeySubmitted 7 [31], VaultGenerated 7 [9] [0, 21, 31],
       MigrationStarted, SystemVaultPending, VaultKeySubmitted 256 [22], VaultKeySubmitted 256 [32],
       VaultGenerated 256 [] [0, 22, 32]]\<rparr>"

text \<open>The next system vault requested early, then the migration started.\<close>

definition sample_blocking :: "pool_op list" where
  "sample_blocking = [PCall sample_penv Root (RequestSystemVault True), PCall sample_penv Root MigrationControl]"

definition sample_blocked :: reg_pool where
  "sample_blocked = sample_pool_start\<lparr>ServiceState := SetExecutiveMembers,
     SystemVault := [2 \<mapsto> MultiSigAccount_new 2 2], PEvents := [SystemVaultPending, MigrationStarted]\<rparr>"

lemmas pool_eval = pool_exec_def settle_def pool_call_run_def request_vault_def submit_vault_key_def
  submit_system_vault_key_def migration_control_def request_system_vault_def submit_key_def
  ensure_normal_def pool_signed_def pool_root_def pool_none_def ensure_def ok_or_def Let_def
  get_checked_bitcoin_address_def bounded_address_def ADDRESS_MAX_LENGTH_def try_bond_vault_address_def
  generate_vault_address_def generate_descriptor_def sort_pub_keys_def get_m_def get_n_def bond_if_ready_def
  is_key_generation_ready_def BitcoinRelayTarget_new_def MultiSigAccount_new_def mutate_refund_def refund_users_def
  dm_insert_def bt_contains_def keys_try_insert_def MULTI_SIG_MAX_ACCOUNTS_def is_authority_submitted_def
  is_key_submitted_def ms_is_pending_def p_deposit_def ms_set_descriptor_def ms_set_address_def pub_keys_def
  as_u32_def M32_def add32_def ADDRESS_U64_def add_migration_tx_def execute_migration_tx_def

lemmas sample_pool_defs = sample_pool_def sample_penv_def sample_key_def sample_pool_start_def initialize_members_def
  pool_genesis_def pool_default_def

lemma sample_pool_laws: "mul_ceil_law sample_pool" "ratio_ok (DefaultMultiSigRatio sample_pool)"
  by (simp_all add: mul_ceil_law_def ratio_ok_def sample_pool_def)

lemma sample_registration_run: "pool_run sample_pool sample_registration sample_pool_start = Some sample_one_key"
  by (simp add: sample_registration_def pool_eval sample_pool_defs sample_one_key_def)
    (simp add: numeral_2_eq_2)

lemma sample_migration_run: "pool_run sample_pool sample_migration sample_one_key = Some sample_transfer"
  by (simp add: sample_migration_def pool_eval sample_pool_defs sample_one_key_def sample_transfer_def)
    (simp add: numeral_2_eq_2)

lemma sample_blocking_run: "pool_run sample_pool sample_blocking sample_pool_start = Some sample_blocked"
  by (simp add: sample_blocking_def pool_eval sample_pool_defs sample_blocked_def)
    (simp add: numeral_2_eq_2)

lemma sample_guards: "list_all pool_guard sample_registration" "list_all pool_guard sample_migration"
  "list_all pool_guard sample_blocking"
  by (simp_all add: sample_registration_def sample_migration_def sample_blocking_def pool_guard_def ADDRESS_U64_def)

lemma sample_pool_start_reachable: "pool_reachable sample_pool sample_pool_start"
  unfolding sample_pool_start_def by (rule pool_start)

lemmas sample_one_key_reachable =
  pool_run_reachable [OF sample_pool_start_reachable sample_guards(1) sample_registration_run]
lemmas sample_transfer_reachable = pool_run_reachable [OF sample_one_key_reachable sample_guards(2) sample_migration_run]
lemmas sample_blocked_reachable = pool_run_reachable [OF sample_pool_start_reachable sample_guards(3) sample_blocking_run]

lemma sample_transfer_fields [simp]:
  "CurrentRound sample_transfer = 1" "ServiceState sample_transfer = UTXOTransfer"
  "bt_get (BondedVault sample_transfer (Suc 0)) [0, 21, 31] = Some 7" "SystemVault sample_transfer 2 \<noteq> None"
  by (simp_all add: sample_transfer_def sample_one_key_def sample_pool_defs)

subsection \<open>Addresses\<close>



text \<open>In every reachable state every stored vault, of a user or of the system, has at most twenty
  public keys, at most as many required signatures as signers, and at least half as many.\<close>

theorem vault_thresholds:
  assumes "mul_ceil_law P" "ratio_ok (DefaultMultiSigRatio P)" "pool_reachable P s"
    and "SystemVault s r = Some v \<or> (\<exists>who t. bt_get (RegistrationPool s r) who = Some t \<and> v = vault t)"
  shows "length (ms_pub_keys v) \<le> MULTI_SIG_MAX_ACCOUNTS \<and> ms_m v \<le> ms_n v \<and> ms_n v \<le> 2 * ms_m v"
proof -
  note inv = conjunct1 [OF pool_reachable_inv [OF assms(1-3)]]
  have "vault_ok v" using assms(4) system_vault_ok [OF inv] registered_user(2) [OF inv] by blast
  then show ?thesis by (simp add: vault_ok_def keys_bounded_def threshold_ok_def)
qed

theorem vault_thresholds_witness:
  "\<exists>v. SystemVault sample_transfer 2 = Some v \<and> length (ms_pub_keys v) \<le> MULTI_SIG_MAX_ACCOUNTS \<and> ms_n v \<le> 2 * ms_m v"
  using vault_thresholds [OF sample_pool_laws sample_transfer_reachable, of 2] sample_transfer_fields(4) by blast

text \<open>A successful key submission stores the key for the user and leaves the other users alone. When
  it completes the vault, the vault's address is the one of the descriptor made of all its keys, it
  is bonded to the user, and its descriptor can be looked up; otherwise the vault has no address.\<close>

theorem vault_key_effect:
  assumes "submit_vault_key P E og sub s = Done u s'" "r = CurrentRound s" "who = ks_who sub"
  shows "\<exists>t t'. bt_get (RegistrationPool s r) who = Some t \<and> bt_get (RegistrationPool s' r) who = Some t' \<and>
    ms_pub_keys (vault t') = bt_insert (ks_authority_id sub) (ks_pub_key sub) (ms_pub_keys (vault t)) \<and>
    bt_get (BondedPubKey s' r) (ks_pub_key sub) = Some who \<and>
    (\<forall>w. w \<noteq> who \<longrightarrow> bt_get (RegistrationPool s' r) w = bt_get (RegistrationPool s r) w) \<and>
    (if length (ms_pub_keys (vault t')) = ms_n (vault t) then
       \<exists>d a. generate_descriptor P (get_m P E s) (pub_keys (vault t')) = Some d \<and> desc_address P d = Some a \<and>
         get_vault_address who s' = Some a \<and> bt_get (BondedVault s' r) a = Some who \<and>
         get_bonded_descriptor P a s' = desc_from_str P d
     else get_vault_address who s' = None)"
proof -
  let ?a = "ks_authority_id sub" and ?k = "ks_pub_key sub"
  obtain t v s1 w s2 where st: "ServiceState s = Normal" and t: "bt_get (RegistrationPool s r) who = Some t"
    and k: "submit_key P r ?a ?k (vault t) s = Done v s1"
    and b: "(if is_key_generation_ready v then try_bond_vault_address P E v (refund_address t) who r
               (p_deposit (VaultKeySubmitted who ?k) s1) else Done v (p_deposit (VaultKeySubmitted who ?k) s1)) = Done w s2"
    and s': "s2\<lparr>BondedPubKey := dm_insert r ?k who (BondedPubKey s2),
               RegistrationPool := dm_insert r who (t\<lparr>vault := w\<rparr>) (RegistrationPool s2)\<rparr> = s'"
    using submit_vault_key_Done [OF assms(1)] unfolding assms(2,3) by metis
  from k have s1: "s1 = s" and v: "v = (vault t)\<lparr>ms_pub_keys := bt_insert ?a ?k (ms_pub_keys (vault t))\<rparr>" and p: "ms_is_pending (vault t)"
    by (auto simp: pool_Done keys_try_insert_def split: if_splits)
  have g: "get_m P E (p_deposit e s) = get_m P E s" for e by (simp add: get_m_def)
  note facts = t [unfolded assms(2)] assms(2) st v s1 s' [symmetric] p [unfolded ms_is_pending_def] g
  show ?thesis
  proof (cases "is_key_generation_ready v")
    case True
    with b have ex: "\<exists>d a. generate_descriptor P (get_m P E s) (pub_keys v) = Some d \<and> desc_address P d = Some a \<and>
        w = ms_set_descriptor d (ms_set_address a v) \<and> s2 = p_deposit (VaultGenerated who (refund_address t) a)
         ((p_deposit (VaultKeySubmitted who ?k) s)\<lparr>BondedVault := dm_insert r a who (BondedVault s),
            BondedDescriptor := dm_insert r a d (BondedDescriptor s)\<rparr>)" by (auto simp: bond_Done s1 g)
    show ?thesis
      by (rule exI [of _ t], rule exI [of _ "t\<lparr>vault := w\<rparr>"])
        (use True ex in \<open>auto simp: facts dm_insert_def is_key_generation_ready_def get_vault_address_def vault_address_def
          get_bonded_descriptor_def ms_set_descriptor_def ms_set_address_def pub_keys_def\<close>)
  next
    case False
    with b have w: "w = v" "s2 = p_deposit (VaultKeySubmitted who ?k) s" by (auto simp: s1)
    show ?thesis
      by (rule exI [of _ t], rule exI [of _ "t\<lparr>vault := w\<rparr>"])
        (use False w in \<open>auto simp: facts dm_insert_def is_key_generation_ready_def get_vault_address_def vault_address_def\<close>)
  qed
qed

theorem vault_key_effect_witness:
  "\<exists>s'. submit_vault_key sample_pool sample_penv NoOrigin (sample_key 3 7 [31] 1) sample_one_key = Done () s' \<and>
     bt_get (BondedPubKey s' 1) [31] = Some 7"
proof -
  obtain s' where s': "submit_vault_key sample_pool sample_penv NoOrigin (sample_key 3 7 [31] 1) sample_one_key = Done () s'"
    by (simp add: pool_eval sample_pool_defs sample_one_key_def)
  have "CurrentRound sample_one_key = 1" by (simp add: sample_one_key_def sample_pool_defs)
  with vault_key_effect [OF s', of 1 7] s' show ?thesis by (auto simp: sample_key_def)
qed

subsection \<open>Migration\<close>

text \<open>C20: Every step of the pool either leaves phase and round alone or moves the migration along
  Normal, SetExecutiveMembers, PrepareNextSystemVault, UTXOTransfer, Normal; the round advances by one
  on the last move only, by a root call, with at least one migration transaction known and all of
  them executed, into a round whose system vault has an address.\<close>

theorem migration_refines:
  assumes "mul_ceil_law P" "ratio_ok (DefaultMultiSigRatio P)" "pool_reachable P s" "pool_guard x" "pool_exec P x s = Some s'"
  shows "(phase s' = phase s \<or> migration_step (phase s) (phase s')) \<and>
    (CurrentRound s' \<noteq> CurrentRound s \<longrightarrow> (\<exists>E. x = PCall E Root MigrationControl) \<and>
       ServiceState s = UTXOTransfer \<and> CurrentRound s' = add32 (CurrentRound s) 1 \<and>
       OngoingVaultMigration s \<noteq> [] \<and> (\<forall>e\<in>set (OngoingVaultMigration s). snd e) \<and>
       get_system_vault (CurrentRound s') s' \<noteq> None)"
proof (cases "CurrentRound s' = CurrentRound s")
  case False
  then have "phase s' \<noteq> phase s" by (auto simp: phase_def)
  with exec_phase [OF assms(5)] obtain E og c where x: "x = PCall E og c" and d: "pool_call_run P E og c s = Done () s'"
    and m: "migration_step (phase s) (phase s')" by blast
  from round_change [OF d False] have c: "c = MigrationControl" "og = Root" by simp_all
  note C = completion [OF d [unfolded c pool_call_run_def, simplified] False]
  have "get_system_vault (add32 (CurrentRound s) 1) s \<noteq> None"
    using C(1) pool_reachable_inv [OF assms(1-3)] unfolding pool_inv_def migration_ok_def by blast
  then have "get_system_vault (CurrentRound s') s' \<noteq> None" by (simp add: get_system_vault_def C(5,6))
  with C x c m show ?thesis by blast
qed (use exec_phase [OF assms(5)] in blast)

theorem migration_refines_witness:
  "\<exists>s'. pool_exec sample_pool (PCall sample_penv Root MigrationControl) sample_transfer = Some s' \<and>
     CurrentRound s' = 2 \<and> get_system_vault 2 s' \<noteq> None"
proof -
  obtain s' where s': "pool_exec sample_pool (PCall sample_penv Root MigrationControl) sample_transfer = Some s'"
      "CurrentRound s' = 2"
    by (simp add: pool_eval sample_pool_defs sample_transfer_def sample_one_key_def)
  have "pool_guard (PCall sample_penv Root MigrationControl)" by (simp add: pool_guard_def)
  from migration_refines [OF sample_pool_laws sample_transfer_reachable this s'(1)] s' show ?thesis by auto
qed



text \<open>C22: Once a migration starts while a system vault for the next round already exists (requested early in
  the normal phase), no sequence of operations ever leaves the phase SetExecutiveMembers.\<close>

theorem early_vault_blocks_migration:
  assumes "mul_ceil_law P" "ratio_ok (DefaultMultiSigRatio P)" "pool_reachable P s"
    and "ServiceState s = SetExecutiveMembers" "SystemVault s (add32 (CurrentRound s) 1) \<noteq> None"
    and "pool_run P xs s = Some s'"
  shows "ServiceState s' = SetExecutiveMembers \<and> CurrentRound s' = CurrentRound s"
proof -
  have "CurrentRound s < M32"
    using pool_reachable_inv [OF assms(1-3)] unfolding pool_inv_def migration_ok_def by blast
  with blocked_run [OF _ _ assms(6)] assms(4,5) show ?thesis by (simp add: blocked_def phase_def)
qed

theorem early_vault_blocks_migration_witness:
  "\<exists>s'. pool_run sample_pool [PCall sample_penv Root MigrationControl] sample_blocked = Some s' \<and>
     ServiceState s' = SetExecutiveMembers"
proof -
  have p: "ServiceState sample_blocked = SetExecutiveMembers" "SystemVault sample_blocked (add32 (CurrentRound sample_blocked) 1) \<noteq> None"
    by (simp_all add: sample_blocked_def sample_pool_defs add32_def M32_def)
  obtain s' where s': "pool_run sample_pool [PCall sample_penv Root MigrationControl] sample_blocked = Some s'"
    by (simp add: pool_eval sample_pool_defs sample_blocked_def)
  from early_vault_blocks_migration [OF sample_pool_laws sample_blocked_reachable p s'] s' show ?thesis by blast
qed

subsection \<open>Panics\<close>

text \<open>No operation of the pool panics in a reachable state: in particular the replacement of an
  authority always finds room in the key map of every pending vault.\<close>

theorem pool_never_panics:
  assumes "mul_ceil_law P" "ratio_ok (DefaultMultiSigRatio P)" "pool_reachable P s" "pool_guard x"
  shows "\<exists>s'. pool_exec P x s = Some s'"
  using pool_exec_keeps [OF assms(1) _ _ assms(4)] pool_reachable_inv [OF assms(1-3)] by blast

theorem pool_never_panics_witness: "\<exists>s'. pool_exec sample_pool (PReplaceAuthority 2 4) sample_one_key = Some s'"
  using pool_never_panics [OF sample_pool_laws sample_one_key_reachable, of "PReplaceAuthority 2 4"] by (simp add: pool_guard_def)

end
