(* ===== verification/Branch_Bound.thy ===== *)
theory Branch_Bound
  imports Prelude
begin

text \<open>
  A depth-first search for the cheapest valid subsequence of a list, which stops after a number of
  visited nodes. The two coin selections of the Blaze pallet are instances; what makes the pruning
  right is stated as the locale \<open>branch_bound\<close>, and soundness, optimality and the bound on the number
  of visits are proved in it once.
\<close>

fun bb_search ::
  "('a list \<Rightarrow> 'a list \<Rightarrow> bool) \<Rightarrow> ('a list \<Rightarrow> bool) \<Rightarrow> ('a list \<Rightarrow> nat) \<Rightarrow> nat \<Rightarrow> nat \<Rightarrow>
   'a list \<Rightarrow> 'a list \<Rightarrow> nat \<times> 'a list \<times> nat \<Rightarrow> nat \<times> 'a list \<times> nat" where
  "bb_search dead goal cst low mx rest cur (t, b, c) =
     (if mx \<le> t then (t, b, c)
      else if dead cur rest then (t + 1, b, c)
      else if goal cur then (if cst cur < c then (t + 1, cur, cst cur) else (t + 1, b, c))
      else if c = low then (t + 1, b, c)
      else case rest of
             [] \<Rightarrow> (t + 1, b, c)
           | x # xs \<Rightarrow> bb_search dead goal cst low mx xs cur
                         (bb_search dead goal cst low mx xs (cur @ [x]) (t + 1, b, c)))"

declare bb_search.simps [simp del]

lemma Nil_in_subseqs: "[] \<in> set (subseqs xs)"
  by (induction xs) (auto simp: Let_def)

text \<open>The visits never exceed the limit, nor the size of the search tree.\<close>

lemma bb_search_tries:
  "bb_search dead goal cst low mx rest cur (t, b, c) = (t', b', c') \<Longrightarrow>
   t \<le> t' \<and> (t \<le> mx \<longrightarrow> t' \<le> mx) \<and> t' < t + 2 ^ Suc (length rest)"
proof (induction rest arbitrary: cur t b c t' b' c')
  case Nil
  then show ?case by (subst (asm) bb_search.simps) (auto split: if_splits)
next
  case (Cons x xs)
  show ?case
  proof (cases "mx \<le> t \<or> dead cur (x # xs) \<or> goal cur \<or> c = low")
    case True
    have "1 < (2 :: nat) ^ Suc (length (x # xs))" by (rule one_less_power) simp_all
    then have "t + 1 < t + 2 ^ Suc (length (x # xs))" by (rule add_strict_left_mono)
    with True Cons.prems show ?thesis by (subst (asm) bb_search.simps) (auto split: if_splits)
  next
    case False
    obtain t1 b1 c1 where 1: "bb_search dead goal cst low mx xs (cur @ [x]) (t + 1, b, c) = (t1, b1, c1)"
      by (cases "bb_search dead goal cst low mx xs (cur @ [x]) (t + 1, b, c)") auto
    with Cons.prems False have 2: "bb_search dead goal cst low mx xs cur (t1, b1, c1) = (t', b', c')"
      by (subst (asm) bb_search.simps) simp
    from Cons.IH [OF 1] Cons.IH [OF 2] False show ?thesis by auto
  qed
qed

locale branch_bound =
  fixes dead :: "'a list \<Rightarrow> 'a list \<Rightarrow> bool" and goal :: "'a list \<Rightarrow> bool" and cst :: "'a list \<Rightarrow> nat"
    and low :: nat and valid :: "'a list \<Rightarrow> bool"
  assumes dead_hopeless: "dead cur rest \<Longrightarrow> ys \<in> set (subseqs rest) \<Longrightarrow> \<not> valid (cur @ ys)"
    and goal_valid: "\<not> dead cur rest \<Longrightarrow> goal cur \<Longrightarrow> valid cur"
    and valid_goal: "valid cur \<Longrightarrow> goal cur"
    and goal_cheapest: "goal cur \<Longrightarrow> valid (cur @ ys) \<Longrightarrow> cst cur \<le> cst (cur @ ys)"
    and low_bound: "valid cur \<Longrightarrow> low \<le> cst cur"
begin

abbreviation search :: "nat \<Rightarrow> 'a list \<Rightarrow> 'a list \<Rightarrow> nat \<times> 'a list \<times> nat \<Rightarrow> nat \<times> 'a list \<times> nat" where
  "search \<equiv> bb_search dead goal cst low"

lemma search_sound:
  "search mx rest cur (t, b, c) = (t', b', c') \<Longrightarrow>
   b' = b \<and> c' = c \<or> (\<exists>ys\<in>set (subseqs rest). valid (cur @ ys) \<and> b' = cur @ ys \<and> c' = cst (cur @ ys) \<and> c' < c)"
proof (induction rest arbitrary: cur t b c t' b' c')
  case Nil
  then show ?case using goal_valid [of cur "[]"] by (subst (asm) bb_search.simps) (auto split: if_splits)
next
  case (Cons x xs)
  show ?case
  proof (cases "mx \<le> t \<or> dead cur (x # xs) \<or> goal cur \<or> c = low")
    case True
    with Cons.prems goal_valid [of cur "x # xs"] have "b' = b \<and> c' = c \<or> valid cur \<and> b' = cur \<and> c' = cst cur \<and> c' < c"
      by (subst (asm) bb_search.simps) (auto split: if_splits)
    with Nil_in_subseqs [of "x # xs"] show ?thesis by (metis append_Nil2)
  next
    case False
    obtain t1 b1 c1 where 1: "search mx xs (cur @ [x]) (t + 1, b, c) = (t1, b1, c1)"
      by (cases "search mx xs (cur @ [x]) (t + 1, b, c)") auto
    with Cons.prems False have 2: "search mx xs cur (t1, b1, c1) = (t', b', c')"
      by (subst (asm) bb_search.simps) simp
    from Cons.IH [OF 1] Cons.IH [OF 2] show ?thesis by (fastforce simp: Let_def)
  qed
qed

lemma search_optimal:
  "search mx rest cur (t, b, c) = (t', b', c') \<Longrightarrow> t' < mx \<Longrightarrow> ys \<in> set (subseqs rest) \<Longrightarrow> valid (cur @ ys) \<Longrightarrow>
   c' \<le> cst (cur @ ys)"
proof (induction rest arbitrary: cur t b c t' b' c' ys)
  case Nil
  then show ?case
    using valid_goal [of cur] dead_hopeless [of cur "[]" "[]"] by (subst (asm) bb_search.simps) (auto split: if_splits)
next
  case (Cons x xs)
  have t: "\<not> mx \<le> t" using bb_search_tries [OF Cons.prems(1)] Cons.prems(2) by simp
  have d: "\<not> dead cur (x # xs)" using dead_hopeless [OF _ Cons.prems(3)] Cons.prems(4) by blast
  show ?case
  proof (cases "goal cur \<or> c = low")
    case True
    with Cons.prems(1) t d have "c' \<le> cst cur \<and> goal cur \<or> c' = low"
      by (subst (asm) bb_search.simps) (auto split: if_splits)
    with goal_cheapest [OF _ Cons.prems(4)] low_bound [OF Cons.prems(4)] show ?thesis by auto
  next
    case False
    obtain t1 b1 c1 where 1: "search mx xs (cur @ [x]) (t + 1, b, c) = (t1, b1, c1)"
      by (cases "search mx xs (cur @ [x]) (t + 1, b, c)") auto
    with Cons.prems(1) False t d have 2: "search mx xs cur (t1, b1, c1) = (t', b', c')"
      by (subst (asm) bb_search.simps) simp
    have t1: "t1 < mx" using bb_search_tries [OF 2] Cons.prems(2) by simp
    have c': "c' \<le> c1" using search_sound [OF 2] by auto
    from Cons.prems(3) consider "ys \<in> set (subseqs xs)" | zs where "ys = x # zs" "zs \<in> set (subseqs xs)"
      by (auto simp: Let_def)
    then show ?thesis
    proof cases
      case 1
      with Cons.IH [OF 2 Cons.prems(2)] Cons.prems(4) show ?thesis by blast
    next
      case (2 zs)
      with Cons.IH [OF 1 t1 2(2)] Cons.prems(4) c' show ?thesis by simp
    qed
  qed
qed

text \<open>With enough visits a search from nothing finds the cheapest valid subsequence, if its start cost allows.\<close>

lemma search_finds:
  assumes s: "search mx xs [] (0, [], c0) = (t', b', c')" and mx: "2 ^ Suc (length xs) \<le> mx"
    and ys: "ys \<in> set (subseqs xs)" "valid ys" "cst ys < c0"
  shows "b' \<in> set (subseqs xs) \<and> valid b' \<and> c' = cst b' \<and> cst b' \<le> cst ys"
proof -
  have "t' < mx" using bb_search_tries [OF s] mx by simp
  with search_optimal [OF s] ys have "c' \<le> cst ys" by fastforce
  with search_sound [OF s] ys(3) show ?thesis by auto
qed

end

end
