(* ===== verification/Coin_Selection.thy ===== *)
theory Coin_Selection
  imports Branch_Bound Btc_Relay "HOL-Library.Sublist"
begin

text \<open>
  Unspent outputs and the selection of coins (\<open>primitives/btc-relay/src/blaze.rs\<close> and
  \<open>pallets/blaze/src/pallet/impls.rs\<close>): branch and bound, then the knapsack solver. Amounts are \<open>u64\<close>
  values; plain sums wrap in a release build. Both searches are shown to be instances of \<open>bb_search\<close>
  when the amounts involved do not overflow.
\<close>

definition M64 :: nat where "M64 = 2 ^ 64"
definition U64_MAX :: nat where "U64_MAX = M64 - 1"
definition add64 :: "nat \<Rightarrow> nat \<Rightarrow> nat" where "add64 a b = (a + b) mod M64"
definition sat_add64 :: "nat \<Rightarrow> nat \<Rightarrow> nat" where "sat_add64 a b = min (a + b) (U64_MAX)"
definition sum64 :: "nat list \<Rightarrow> nat" where "sum64 xs = sum_list xs mod M64"

lemma U64_MAX_less: "U64_MAX < M64"
  by (simp add: U64_MAX_def M64_def)

lemma add64_id [arith_model]: "a + b < M64 \<Longrightarrow> add64 a b = a + b"
  by (simp add: add64_def)

lemma sat_add64_id [arith_model]: "a + b < M64 \<Longrightarrow> sat_add64 a b = a + b"
  by (simp add: sat_add64_def U64_MAX_def)

lemma sum64_id [arith_model]: "sum_list xs < M64 \<Longrightarrow> sum64 xs = sum_list xs"
  by (simp add: sum64_def)

record UtxoInfo =
  ui_txid :: H256
  ui_vout :: nat
  ui_amount :: nat
  ui_address :: btc_address

record UtxoInfoWithSize =
  us_hash :: H256
  us_txid :: H256
  us_vout :: nat
  us_amount :: nat
  us_descriptor :: bytes
  us_input_vbytes :: nat

record ScoredUtxo =
  su_utxo :: UtxoInfoWithSize
  su_fee :: nat
  su_long_term_fee :: nat
  su_effective_value :: nat

datatype SelectionStrategy = Bnb | Knapsack

definition excess_fee :: "ScoredUtxo \<Rightarrow> nat" where
  "excess_fee x = sat_sub (su_fee x) (su_long_term_fee x)"

abbreviation su_vbytes :: "ScoredUtxo \<Rightarrow> nat" where "su_vbytes x \<equiv> us_input_vbytes (su_utxo x)"

text \<open>The suffix sums are computed from the end of the pool.\<close>

fun suffix_sums :: "ScoredUtxo list \<Rightarrow> nat list" where
  "suffix_sums [] = [0]"
| "suffix_sums (x # xs) = sat_add64 (hd (suffix_sums xs)) (su_effective_value x) # suffix_sums xs"

subsection \<open>Branch and bound\<close>

record bnb_search =
  bs_pool :: "ScoredUtxo list"
  bs_suffix_sums :: "nat list"
  bs_target :: nat
  bs_cost_of_change :: nat
  bs_max_weight :: nat
  bs_max_tries :: nat

text \<open>Tries, best selection and best waste are threaded; the current selection is restored by \<open>pop\<close>.\<close>

type_synonym search_state = "nat \<times> UtxoInfoWithSize list \<times> nat"

function bnb_dfs :: "bnb_search \<Rightarrow> nat \<Rightarrow> ScoredUtxo list \<Rightarrow> nat \<Rightarrow> nat \<Rightarrow> search_state \<Rightarrow> search_state" where
  "bnb_dfs B i cur v w (tries, best, best_waste) =
     (if bs_max_tries B \<le> tries then (tries, best, best_waste)
      else if add64 v (bs_suffix_sums B ! i) < bs_target B then (tries + 1, best, best_waste)
      else if add64 (bs_target B) (bs_cost_of_change B) < v then (tries + 1, best, best_waste)
      else if bs_max_weight B < w then (tries + 1, best, best_waste)
      else if bs_target B \<le> v then
        (let waste = add64 (v - bs_target B) (sum64 (map excess_fee cur)) in
         if waste < best_waste then (tries + 1, map su_utxo cur, waste) else (tries + 1, best, best_waste))
      else if best_waste = 0 then (tries + 1, best, best_waste)
      else if length (bs_pool B) \<le> i then (tries + 1, best, best_waste)
      else let x = bs_pool B ! i in
        bnb_dfs B (i + 1) cur v w
          (bnb_dfs B (i + 1) (cur @ [x]) (add64 v (su_effective_value x)) (add64 w (su_vbytes x))
            (tries + 1, best, best_waste)))"
  by pat_completeness auto
termination by (relation "measure (\<lambda>(B, i, _). length (bs_pool B) - i)") auto

declare bnb_dfs.simps [simp del]

text \<open>A stable sort by descending value, then by ascending excess of the fee over the long-term fee.\<close>

definition bnb_order :: "ScoredUtxo list \<Rightarrow> ScoredUtxo list" where
  "bnb_order pool = sort_key (\<lambda>x. (- int (su_effective_value x), excess_fee x)) pool"

definition select_coins_bnb ::
  "ScoredUtxo list \<Rightarrow> nat \<Rightarrow> nat \<Rightarrow> nat \<Rightarrow> nat \<Rightarrow> (UtxoInfoWithSize list \<times> SelectionStrategy) option" where
  "select_coins_bnb pool target cost_of_change max_weight max_tries =
     (let pool = bnb_order pool;
          B = \<lparr>bs_pool = pool, bs_suffix_sums = suffix_sums pool, bs_target = target,
               bs_cost_of_change = cost_of_change, bs_max_weight = max_weight, bs_max_tries = max_tries\<rparr>;
          (_, best, _) = bnb_dfs B 0 [] 0 0 (0, [], U64_MAX)
      in if best = [] then None else Some (best, Bnb))"

subsection \<open>Knapsack\<close>

definition is_lower :: "ScoredUtxo \<Rightarrow> ScoredUtxo option \<Rightarrow> bool" where
  "is_lower x y = (case y of None \<Rightarrow> True | Some z \<Rightarrow> su_effective_value x < su_effective_value z)"

type_synonym knapsack_split = "ScoredUtxo list \<times> ScoredUtxo option \<times> ScoredUtxo option"

text \<open>One step of the first phase: applicable outputs, the smallest larger one, the best exact one.\<close>

definition categorize :: "nat \<Rightarrow> nat \<Rightarrow> nat \<Rightarrow> ScoredUtxo \<Rightarrow> knapsack_split \<Rightarrow> knapsack_split" where
  "categorize target change_target max_weight x = (\<lambda>(applicable, larger, exact).
     if target \<le> su_effective_value x \<and> su_effective_value x \<le> add64 target change_target \<and> su_vbytes x \<le> max_weight
     then (applicable, larger, if is_lower x exact then Some x else exact)
     else if su_effective_value x < add64 target change_target then (applicable @ [x], larger, exact)
     else if is_lower x larger then (applicable, Some x, exact)
     else (applicable, larger, exact))"

record knapsack_search =
  kn_applicable :: "ScoredUtxo list"
  kn_suffix_sums :: "nat list"
  kn_target :: nat
  kn_max_weight :: nat
  kn_max_tries :: nat

function knapsack_dfs :: "knapsack_search \<Rightarrow> nat \<Rightarrow> ScoredUtxo list \<Rightarrow> nat \<Rightarrow> nat \<Rightarrow> search_state \<Rightarrow> search_state" where
  "knapsack_dfs K i cur v w (tries, best, best_total) =
     (if kn_max_tries K \<le> tries then (tries, best, best_total)
      else if add64 v (kn_suffix_sums K ! i) < kn_target K then (tries + 1, best, best_total)
      else if kn_max_weight K < w then (tries + 1, best, best_total)
      else if kn_target K \<le> v then
        (if v < best_total then (tries + 1, map su_utxo cur, v) else (tries + 1, best, best_total))
      else if best_total = kn_target K then (tries + 1, best, best_total)
      else if length (kn_applicable K) \<le> i then (tries + 1, best, best_total)
      else let x = kn_applicable K ! i in
        knapsack_dfs K (i + 1) cur v w
          (knapsack_dfs K (i + 1) (cur @ [x]) (add64 v (su_effective_value x)) (add64 w (su_vbytes x))
            (tries + 1, best, best_total)))"
  by pat_completeness auto
termination by (relation "measure (\<lambda>(K, i, _). length (kn_applicable K) - i)") auto

declare knapsack_dfs.simps [simp del]

definition KNAPSACK_TRIES :: nat where "KNAPSACK_TRIES = 100000"

definition knapsack_order :: "ScoredUtxo list \<Rightarrow> ScoredUtxo list" where
  "knapsack_order xs = sort_key (\<lambda>x. - int (su_effective_value x)) xs"

text \<open>\<open>lowest_larger.filter(\<dots>).map(\<dots>)\<close>\<close>

definition single_larger :: "nat \<Rightarrow> ScoredUtxo option \<Rightarrow> (UtxoInfoWithSize list \<times> SelectionStrategy) option" where
  "single_larger max_weight y =
     (case y of None \<Rightarrow> None | Some x \<Rightarrow> if su_vbytes x \<le> max_weight then Some ([su_utxo x], Knapsack) else None)"

text \<open>The third phase compares the search with the single larger output.\<close>

definition knapsack_choose ::
  "nat \<Rightarrow> ScoredUtxo option \<Rightarrow> UtxoInfoWithSize list \<Rightarrow> nat \<Rightarrow> (UtxoInfoWithSize list \<times> SelectionStrategy) option" where
  "knapsack_choose max_weight larger best best_total =
     (if best \<noteq> [] then
        (case larger of
           Some x \<Rightarrow> if su_vbytes x \<le> max_weight \<and> su_effective_value x \<le> best_total
                     then Some ([su_utxo x], Knapsack) else Some (best, Knapsack)
         | None \<Rightarrow> Some (best, Knapsack))
      else single_larger max_weight larger)"

definition select_coins_knapsack ::
  "ScoredUtxo list \<Rightarrow> nat \<Rightarrow> nat \<Rightarrow> nat \<Rightarrow> (UtxoInfoWithSize list \<times> SelectionStrategy) option" where
  "select_coins_knapsack pool target change_target max_weight =
     (case fold (categorize target change_target max_weight) pool ([], None, None) of
        (applicable, larger, exact) \<Rightarrow>
          (case exact of
             Some x \<Rightarrow> Some ([su_utxo x], Knapsack)
           | None \<Rightarrow>
               if sum64 (map su_effective_value applicable) < target then single_larger max_weight larger
               else
                 let applicable = knapsack_order applicable;
                     K = \<lparr>kn_applicable = applicable, kn_suffix_sums = suffix_sums applicable, kn_target = target,
                          kn_max_weight = max_weight, kn_max_tries = KNAPSACK_TRIES\<rparr>;
                     (_, best, best_total) = knapsack_dfs K 0 [] 0 0 (0, [], U64_MAX)
                 in knapsack_choose max_weight larger best best_total))"

definition select_coins ::
  "ScoredUtxo list \<Rightarrow> nat \<Rightarrow> nat \<Rightarrow> nat \<Rightarrow> nat \<Rightarrow> nat \<Rightarrow> (UtxoInfoWithSize list \<times> SelectionStrategy) option" where
  "select_coins pool target cost_of_change max_weight max_tries change_target =
     (case select_coins_bnb pool target cost_of_change max_weight max_tries of
        Some sel \<Rightarrow> Some sel
      | None \<Rightarrow> select_coins_knapsack pool target change_target max_weight)"

subsection \<open>What a selection is\<close>

definition value_of :: "ScoredUtxo list \<Rightarrow> nat" where "value_of xs = sum_list (map su_effective_value xs)"
definition weight_of :: "ScoredUtxo list \<Rightarrow> nat" where "weight_of xs = sum_list (map su_vbytes xs)"
definition excess_of :: "ScoredUtxo list \<Rightarrow> nat" where "excess_of xs = sum_list (map excess_fee xs)"

definition waste_of :: "nat \<Rightarrow> ScoredUtxo list \<Rightarrow> nat" where
  "waste_of target xs = value_of xs - target + excess_of xs"

lemma sums_Nil [simp]: "value_of [] = 0" "weight_of [] = 0" "excess_of [] = 0"
  by (simp_all add: value_of_def weight_of_def excess_of_def)

lemma sums_Cons [simp]:
  "value_of (x # xs) = su_effective_value x + value_of xs" "weight_of (x # xs) = su_vbytes x + weight_of xs"
  "excess_of (x # xs) = excess_fee x + excess_of xs"
  by (simp_all add: value_of_def weight_of_def excess_of_def)

lemma sums_append [simp]:
  "value_of (xs @ ys) = value_of xs + value_of ys" "weight_of (xs @ ys) = weight_of xs + weight_of ys"
  "excess_of (xs @ ys) = excess_of xs + excess_of ys"
  by (simp_all add: value_of_def weight_of_def excess_of_def)

lemma subseq_sums:
  assumes "ys \<in> set (subseqs xs)"
  shows "value_of ys \<le> value_of xs" "weight_of ys \<le> weight_of xs" "excess_of ys \<le> excess_of xs" "mset ys \<subseteq># mset xs"
proof -
  have s: "subseq ys xs" using assms by simp
  have "value_of ys \<le> value_of xs \<and> weight_of ys \<le> weight_of xs \<and> excess_of ys \<le> excess_of xs \<and> mset ys \<subseteq># mset xs"
    using s by (induction rule: list_emb.induct) (auto intro: subset_mset.order_trans)
  then show "value_of ys \<le> value_of xs" "weight_of ys \<le> weight_of xs" "excess_of ys \<le> excess_of xs" "mset ys \<subseteq># mset xs"
    by simp_all
qed

lemma suffix_sums_nth:
  "value_of xs < M64 \<Longrightarrow> i \<le> length xs \<Longrightarrow> suffix_sums xs ! i = value_of (drop i xs)"
proof (induction xs arbitrary: i)
  case (Cons x xs)
  have h: "hd (suffix_sums xs) = value_of xs"
    using Cons.IH [of 0] Cons.prems(1) by (cases "suffix_sums xs") (auto elim: suffix_sums.elims)
  show ?case
  proof (cases i)
    case 0
    with Cons.prems(1) show ?thesis by (simp add: h sat_add64_id)
  next
    case (Suc j)
    with Cons show ?thesis by simp
  qed
qed simp

subsection \<open>The searches are instances of branch and bound\<close>

definition bnb_valid :: "nat \<Rightarrow> nat \<Rightarrow> nat \<Rightarrow> ScoredUtxo list \<Rightarrow> bool" where
  "bnb_valid target cost_of_change max_weight xs \<longleftrightarrow>
     target \<le> value_of xs \<and> value_of xs \<le> target + cost_of_change \<and> weight_of xs \<le> max_weight"

definition bnb_dead :: "nat \<Rightarrow> nat \<Rightarrow> nat \<Rightarrow> ScoredUtxo list \<Rightarrow> ScoredUtxo list \<Rightarrow> bool" where
  "bnb_dead target cost_of_change max_weight cur rest \<longleftrightarrow>
     value_of cur + value_of rest < target \<or> target + cost_of_change < value_of cur \<or> max_weight < weight_of cur"

definition covers :: "nat \<Rightarrow> nat \<Rightarrow> ScoredUtxo list \<Rightarrow> bool" where
  "covers target max_weight xs \<longleftrightarrow> target \<le> value_of xs \<and> weight_of xs \<le> max_weight"

definition knapsack_dead :: "nat \<Rightarrow> nat \<Rightarrow> ScoredUtxo list \<Rightarrow> ScoredUtxo list \<Rightarrow> bool" where
  "knapsack_dead target max_weight cur rest \<longleftrightarrow>
     value_of cur + value_of rest < target \<or> max_weight < weight_of cur"

definition reaches :: "nat \<Rightarrow> ScoredUtxo list \<Rightarrow> bool" where
  "reaches target xs \<longleftrightarrow> target \<le> value_of xs"

interpretation bnb: branch_bound "bnb_dead t c w" "reaches t" "waste_of t" 0 "bnb_valid t c w" for t c w
proof
  fix cur rest ys assume d: "bnb_dead t c w cur rest" and y: "ys \<in> set (subseqs rest)"
  show "\<not> bnb_valid t c w (cur @ ys)"
    using d subseq_sums(1,2) [OF y] by (auto simp: bnb_dead_def bnb_valid_def)
qed (auto simp: bnb_dead_def bnb_valid_def reaches_def waste_of_def)

interpretation knapsack: branch_bound "knapsack_dead t w" "reaches t" value_of t "covers t w" for t w
proof
  fix cur rest ys assume d: "knapsack_dead t w cur rest" and y: "ys \<in> set (subseqs rest)"
  show "\<not> covers t w (cur @ ys)"
    using d subseq_sums(1,2) [OF y] by (auto simp: knapsack_dead_def covers_def)
qed (auto simp: knapsack_dead_def covers_def reaches_def)

text \<open>The amounts a selection adds up stay below the width of \<open>u64\<close>.\<close>

definition fits :: "ScoredUtxo list \<Rightarrow> nat \<Rightarrow> bool" where
  "fits pool limit \<longleftrightarrow> value_of pool + excess_of pool < U64_MAX \<and> weight_of pool < M64 \<and> limit < M64"

fun with_utxos :: "nat \<times> ScoredUtxo list \<times> nat \<Rightarrow> search_state" where
  "with_utxos (t, b, c) = (t, map su_utxo b, c)"

lemma fitsD:
  assumes "fits pool l"
  shows "value_of pool + excess_of pool < M64" "value_of pool < M64" "weight_of pool < M64" "l < M64"
  using assms U64_MAX_less by (auto simp: fits_def)

lemma bnb_dfs_search:
  assumes B: "bs_suffix_sums B = suffix_sums (bs_pool B)" "value_of (bs_pool B) < M64"
      "bs_target B + bs_cost_of_change B < M64"
    and i: "rest = drop i (bs_pool B)" "i \<le> length (bs_pool B)"
    and f: "fits (cur @ rest) 0"
  shows "bnb_dfs B i cur (value_of cur) (weight_of cur) (tr, map su_utxo b, c) =
     with_utxos (bnb.search (bs_target B) (bs_cost_of_change B) (bs_max_weight B) (bs_max_tries B) rest cur (tr, b, c))"
  using i f
proof (induction rest arbitrary: i cur tr b c)
  case Nil
  then have i: "i = length (bs_pool B)" by simp
  have v: "value_of cur < M64" "value_of cur - bs_target B + excess_of cur < M64" "excess_of cur < M64"
    using fitsD [OF Nil.prems(3)] by auto
  have s: "bs_suffix_sums B ! length (bs_pool B) = 0" using B(1,2) by (simp add: suffix_sums_nth)
  have w: "add64 (value_of cur - bs_target B) (sum64 (map excess_fee cur)) = waste_of (bs_target B) cur"
    using v by (simp add: waste_of_def sum64_def excess_of_def add64_def)
  show ?case
    using i v B(3)
    by (subst bnb_dfs.simps, subst bb_search.simps) (simp add: s w arith_model bnb_dead_def reaches_def Let_def)
next
  case (Cons x xs)
  have lt: "i < length (bs_pool B)" using Cons.prems(1,2) by (cases "i = length (bs_pool B)") auto
  then have i: "xs = drop (i + 1) (bs_pool B)" "bs_pool B ! i = x" "i + 1 \<le> length (bs_pool B)"
    using Cons.prems(1) by (simp_all add: Cons_nth_drop_Suc [symmetric])
  have v: "value_of cur + value_of (x # xs) < M64" "value_of cur - bs_target B + excess_of cur < M64"
    "weight_of cur + su_vbytes x < M64" "excess_of cur < M64" "value_of cur + su_effective_value x < M64"
    using fitsD [OF Cons.prems(3)] by auto
  have s: "bs_suffix_sums B ! i = value_of (x # xs)"
    using B(1,2) lt Cons.prems(1) by (simp add: suffix_sums_nth)
  have fits1: "fits ((cur @ [x]) @ xs) 0" "fits (cur @ xs) 0" using Cons.prems(3) by (auto simp: fits_def)
  let ?S = "bnb.search (bs_target B) (bs_cost_of_change B) (bs_max_weight B) (bs_max_tries B)"
  have dfs1: "bnb_dfs B (Suc i) (cur @ [x]) (value_of cur + su_effective_value x) (weight_of cur + su_vbytes x)
      (tr', map su_utxo b', c') = with_utxos (?S xs (cur @ [x]) (tr', b', c'))" for tr' b' c'
    using Cons.IH [OF i(1,3) fits1(1), of tr' b' c'] by simp
  have dfs2: "bnb_dfs B (Suc i) cur (value_of cur) (weight_of cur) (with_utxos r) = with_utxos (?S xs cur r)" for r
    using Cons.IH [OF i(1,3) fits1(2)] by (cases r) simp
  have w: "add64 (value_of cur - bs_target B) (sum64 (map excess_fee cur)) = waste_of (bs_target B) cur"
    using v by (simp add: waste_of_def sum64_def excess_of_def add64_def)
  show ?case
    using lt i(2) v B(3)
    by (subst bnb_dfs.simps, subst bb_search.simps)
      (simp add: s w arith_model bnb_dead_def reaches_def dfs1 dfs2 Let_def)
qed

lemma knapsack_dfs_search:
  assumes K: "kn_suffix_sums K = suffix_sums (kn_applicable K)" "value_of (kn_applicable K) < M64"
    and i: "rest = drop i (kn_applicable K)" "i \<le> length (kn_applicable K)"
    and f: "fits (cur @ rest) 0"
  shows "knapsack_dfs K i cur (value_of cur) (weight_of cur) (tr, map su_utxo b, c) =
     with_utxos (knapsack.search (kn_target K) (kn_max_weight K) (kn_max_tries K) rest cur (tr, b, c))"
  using i f
proof (induction rest arbitrary: i cur tr b c)
  case Nil
  then have i: "i = length (kn_applicable K)" by simp
  have v: "value_of cur < M64" using fitsD [OF Nil.prems(3)] by simp
  have s: "kn_suffix_sums K ! length (kn_applicable K) = 0" using K by (simp add: suffix_sums_nth)
  show ?case
    using i v
    by (subst knapsack_dfs.simps, subst bb_search.simps) (simp add: s arith_model knapsack_dead_def reaches_def Let_def)
next
  case (Cons x xs)
  have lt: "i < length (kn_applicable K)" using Cons.prems(1,2) by (cases "i = length (kn_applicable K)") auto
  then have i: "xs = drop (i + 1) (kn_applicable K)" "kn_applicable K ! i = x" "i + 1 \<le> length (kn_applicable K)"
    using Cons.prems(1) by (simp_all add: Cons_nth_drop_Suc [symmetric])
  have v: "value_of cur + value_of (x # xs) < M64" "weight_of cur + su_vbytes x < M64" "value_of cur + su_effective_value x < M64"
    using fitsD [OF Cons.prems(3)] by auto
  have s: "kn_suffix_sums K ! i = value_of (x # xs)"
    using K lt Cons.prems(1) by (simp add: suffix_sums_nth)
  have fits1: "fits ((cur @ [x]) @ xs) 0" "fits (cur @ xs) 0" using Cons.prems(3) by (auto simp: fits_def)
  let ?S = "knapsack.search (kn_target K) (kn_max_weight K) (kn_max_tries K)"
  have dfs1: "knapsack_dfs K (Suc i) (cur @ [x]) (value_of cur + su_effective_value x) (weight_of cur + su_vbytes x)
      (tr', map su_utxo b', c') = with_utxos (?S xs (cur @ [x]) (tr', b', c'))" for tr' b' c'
    using Cons.IH [OF i(1,3) fits1(1), of tr' b' c'] by simp
  have dfs2: "knapsack_dfs K (Suc i) cur (value_of cur) (weight_of cur) (with_utxos r) = with_utxos (?S xs cur r)" for r
    using Cons.IH [OF i(1,3) fits1(2)] by (cases r) simp
  show ?case
    using lt i(2) v
    by (subst knapsack_dfs.simps, subst bb_search.simps)
      (simp add: s arith_model knapsack_dead_def reaches_def dfs1 dfs2 Let_def)
qed

subsection \<open>Selections as sub-multisets of the pool\<close>

lemma sums_mset:
  assumes "mset xs = mset ys"
  shows "value_of xs = value_of ys" "weight_of xs = weight_of ys" "excess_of xs = excess_of ys"
  unfolding value_of_def weight_of_def excess_of_def
  using assms by (metis mset_map sum_mset_sum_list)+

lemma waste_mset: "mset xs = mset ys \<Longrightarrow> waste_of t xs = waste_of t ys"
  unfolding waste_of_def by (metis sums_mset(1,3))

lemma submultiset_subseq: "mset ys \<subseteq># mset xs \<Longrightarrow> \<exists>zs\<in>set (subseqs xs). mset zs = mset ys"
proof (induction xs arbitrary: ys)
  case (Cons x xs)
  show ?case
  proof (cases "x \<in> set ys")
    case True
    then have "mset (remove1 x ys) \<subseteq># mset xs" using Cons.prems by (simp add: subset_eq_diff_conv)
    from Cons.IH [OF this] obtain zs where "zs \<in> set (subseqs xs)" "mset zs = mset (remove1 x ys)" by blast
    with True have "x # zs \<in> set (subseqs (x # xs))" "mset (x # zs) = mset ys" by (auto simp: Let_def)
    then show ?thesis by blast
  next
    case False
    then have "mset ys \<subseteq># mset xs" using Cons.prems
      by (metis diff_single_trivial in_multiset_in_set mset.simps(2) subset_eq_diff_conv add_mset_add_single)
    from Cons.IH [OF this] show ?thesis by (auto simp: Let_def)
  qed
qed simp

lemma fits_mset: "mset xs = mset ys \<Longrightarrow> fits xs l = fits ys l"
  unfolding fits_def by (metis sums_mset)

lemma mset_orders [simp]: "mset (bnb_order xs) = mset xs" "mset (knapsack_order xs) = mset xs"
  by (simp_all add: bnb_order_def knapsack_order_def)

lemma length_orders [simp]: "length (bnb_order xs) = length xs" "length (knapsack_order xs) = length xs"
  by (simp_all add: bnb_order_def knapsack_order_def)

text \<open>The search of the branch and bound selection.\<close>

lemma select_bnb_search:
  assumes f: "fits pool (t + c)"
  obtains tr b w' where "bnb.search t c w mx (bnb_order pool) [] (0, [], U64_MAX) = (tr, b, w')"
    "select_coins_bnb pool t c w mx = (if b = [] then None else Some (map su_utxo b, Bnb))"
proof -
  let ?p = "bnb_order pool"
  let ?B = "\<lparr>bs_pool = ?p, bs_suffix_sums = suffix_sums ?p, bs_target = t, bs_cost_of_change = c,
      bs_max_weight = w, bs_max_tries = mx\<rparr>"
  obtain tr b w' where s: "bnb.search t c w mx ?p [] (0, [], U64_MAX) = (tr, b, w')"
    by (cases "bnb.search t c w mx ?p [] (0, [], U64_MAX)") auto
  have f': "fits ?p (t + c)" using f fits_mset [of ?p pool] by simp
  have "bnb_dfs ?B 0 [] (value_of []) (weight_of []) (0, map su_utxo [], U64_MAX) = with_utxos (tr, b, w')"
    using bnb_dfs_search [of ?B ?p 0 "[]" 0 "[]" "U64_MAX"] fitsD [OF f'] f' by (simp add: s fits_def)
  then have "bnb_dfs ?B 0 [] 0 0 (0, [], U64_MAX) = (tr, map su_utxo b, w')" by simp
  then show thesis by (intro that [OF s]) (simp add: select_coins_bnb_def Let_def)
qed

lemma select_coins_bnb_sound:
  assumes f: "fits pool (t + c)" and sel: "select_coins_bnb pool t c w mx = Some (sel, st)"
  shows "st = Bnb \<and> (\<exists>ys. ys \<noteq> [] \<and> sel = map su_utxo ys \<and> mset ys \<subseteq># mset pool \<and> bnb_valid t c w ys)"
proof -
  obtain tr b w' where s: "bnb.search t c w mx (bnb_order pool) [] (0, [], U64_MAX) = (tr, b, w')"
    and r: "select_coins_bnb pool t c w mx = (if b = [] then None else Some (map su_utxo b, Bnb))"
    by (rule select_bnb_search [OF f])
  from sel r have b: "b \<noteq> []" "sel = map su_utxo b" "st = Bnb" by (auto split: if_splits)
  from bnb.search_sound [OF s] b(1) have "b \<in> set (subseqs (bnb_order pool))" "bnb_valid t c w b" by auto
  with b show ?thesis using subseq_sums(4) [of b "bnb_order pool"] by auto
qed

lemma select_coins_bnb_optimal:
  assumes f: "fits pool (t + c)" "0 < t" and mx: "2 ^ Suc (length pool) \<le> mx"
    and ys: "mset ys \<subseteq># mset pool" "bnb_valid t c w ys"
  shows "\<exists>zs. select_coins_bnb pool t c w mx = Some (map su_utxo zs, Bnb) \<and> mset zs \<subseteq># mset pool \<and>
    bnb_valid t c w zs \<and> waste_of t zs \<le> waste_of t ys"
proof -
  obtain tr b w' where s: "bnb.search t c w mx (bnb_order pool) [] (0, [], U64_MAX) = (tr, b, w')"
    and r: "select_coins_bnb pool t c w mx = (if b = [] then None else Some (map su_utxo b, Bnb))"
    by (rule select_bnb_search [OF f(1)])
  from submultiset_subseq [of ys "bnb_order pool"] ys(1) obtain zs
    where zs: "zs \<in> set (subseqs (bnb_order pool))" "mset zs = mset ys" by auto
  have v: "bnb_valid t c w zs" using ys(2) by (simp add: bnb_valid_def sums_mset [OF zs(2)])
  have "waste_of t zs < U64_MAX"
    using subseq_sums(1,3) [OF zs(1)] sums_mset [of "bnb_order pool" pool] f v
    by (auto simp: waste_of_def fits_def bnb_valid_def)
  from bnb.search_finds [OF s _ zs(1) v this] mx have b: "b \<in> set (subseqs (bnb_order pool))" "bnb_valid t c w b"
    "waste_of t b \<le> waste_of t zs" by auto
  have "b \<noteq> []" using b(2) f(2) by (auto simp: bnb_valid_def)
  with b r subseq_sums(4) [OF b(1)] waste_mset [OF zs(2)] show ?thesis by auto
qed

subsection \<open>The knapsack solver\<close>

definition is_exact :: "nat \<Rightarrow> nat \<Rightarrow> nat \<Rightarrow> ScoredUtxo \<Rightarrow> bool" where
  "is_exact t ch w x \<longleftrightarrow> t \<le> su_effective_value x \<and> su_effective_value x \<le> add64 t ch \<and> su_vbytes x \<le> w"

definition is_applicable :: "nat \<Rightarrow> nat \<Rightarrow> nat \<Rightarrow> ScoredUtxo \<Rightarrow> bool" where
  "is_applicable t ch w x \<longleftrightarrow> \<not> is_exact t ch w x \<and> su_effective_value x < add64 t ch"

lemma categorize_step:
  "categorize t ch w x (a, l, e) =
     (if is_exact t ch w x then (a, l, if is_lower x e then Some x else e)
      else if is_applicable t ch w x then (a @ [x], l, e)
      else if is_lower x l then (a, Some x, e) else (a, l, e))"
  by (simp add: categorize_def is_exact_def is_applicable_def)

text \<open>What the first phase collects.\<close>

lemma categorize_fold:
  "fold (categorize t ch w) xs (a, l, e) = (a', l', e') \<Longrightarrow>
   a' = a @ filter (is_applicable t ch w) xs \<and>
   (\<forall>x. e' = Some x \<longrightarrow> e = Some x \<or> x \<in> set xs \<and> is_exact t ch w x) \<and>
   (\<forall>x. l' = Some x \<longrightarrow> l = Some x \<or> x \<in> set xs \<and> add64 t ch \<le> su_effective_value x) \<and>
   (e' = None \<longrightarrow> e = None \<and> (\<forall>x\<in>set xs. \<not> is_exact t ch w x)) \<and>
   (l' = None \<longrightarrow> l = None \<and> (\<forall>x\<in>set xs. is_exact t ch w x \<or> is_applicable t ch w x))"
proof (induction xs arbitrary: a l e)
  case (Cons x xs)
  have "\<exists>a1 l1 e1. categorize t ch w x (a, l, e) = (a1, l1, e1)" by (metis prod_cases3)
  then obtain a1 l1 e1 where 1: "categorize t ch w x (a, l, e) = (a1, l1, e1)" by blast
  with Cons.prems have 2: "fold (categorize t ch w) xs (a1, l1, e1) = (a', l', e')" by simp
  note IH = Cons.IH [OF 2]
  have low: "l1 = None \<Longrightarrow> l = None \<and> (is_exact t ch w x \<or> is_applicable t ch w x)" "e1 = None \<Longrightarrow> e = None \<and> \<not> is_exact t ch w x"
    using 1 by (auto simp: categorize_step is_lower_def split: if_splits option.splits)
  have pick: "l1 = Some y \<Longrightarrow> l = Some y \<or> y = x \<and> add64 t ch \<le> su_effective_value x" "e1 = Some y \<Longrightarrow> e = Some y \<or> y = x \<and> is_exact t ch w x" for y
    using 1 by (auto simp: categorize_step is_applicable_def not_less split: if_splits)
  have app: "a1 = a @ (if is_applicable t ch w x then [x] else [])"
    using 1 by (auto simp: categorize_step is_applicable_def split: if_splits)
  show ?case using IH low pick by (auto simp: app)
qed simp

lemma single_larger_Some:
  "single_larger w y = Some (sel, st) \<longleftrightarrow> (\<exists>x. y = Some x \<and> su_vbytes x \<le> w \<and> sel = [su_utxo x] \<and> st = Knapsack)"
  by (auto simp: single_larger_def split: option.splits)

lemma single_covers:
  "x \<in> set pool \<Longrightarrow> t \<le> su_effective_value x \<Longrightarrow> su_vbytes x \<le> w \<Longrightarrow> mset [x] \<subseteq># mset pool \<and> covers t w [x]"
  by (simp add: covers_def)

text \<open>The search of the knapsack solver, over the applicable outputs.\<close>

lemma knapsack_run:
  assumes f: "fits xs 0"
  obtains tr b c where "knapsack.search t w mx (knapsack_order xs) [] (0, [], U64_MAX) = (tr, b, c)"
    "knapsack_dfs \<lparr>kn_applicable = knapsack_order xs, kn_suffix_sums = suffix_sums (knapsack_order xs), kn_target = t,
        kn_max_weight = w, kn_max_tries = mx\<rparr> 0 [] 0 0 (0, [], U64_MAX) = (tr, map su_utxo b, c)"
proof -
  let ?p = "knapsack_order xs"
  let ?K = "\<lparr>kn_applicable = ?p, kn_suffix_sums = suffix_sums ?p, kn_target = t, kn_max_weight = w, kn_max_tries = mx\<rparr>"
  obtain tr b c where s: "knapsack.search t w mx ?p [] (0, [], U64_MAX) = (tr, b, c)"
    by (cases "knapsack.search t w mx ?p [] (0, [], U64_MAX)") auto
  have f': "fits ?p 0" using f fits_mset [of ?p xs] by simp
  have "knapsack_dfs ?K 0 [] 0 0 (0, [], U64_MAX) = (tr, map su_utxo b, c)"
    using knapsack_dfs_search [of ?K ?p 0 "[]" 0 "[]" U64_MAX] fitsD [OF f'] f' by (simp add: s fits_def)
  with s show thesis by (rule that)
qed

lemma fits_filter: "fits pool l \<Longrightarrow> fits (filter P pool) 0"
proof -
  have "filter P pool \<in> set (subseqs pool)" by simp
  from subseq_sums [OF this] show "fits pool l \<Longrightarrow> fits (filter P pool) 0" by (simp add: fits_def)
qed

text \<open>The solver in terms of what its phases find.\<close>

lemma knapsack_unfold:
  assumes f: "fits pool (t + ch)"
  obtains a l e tr b d where "fold (categorize t ch w) pool ([], None, None) = (a, l, e)"
    "knapsack.search t w KNAPSACK_TRIES (knapsack_order a) [] (0, [], U64_MAX) = (tr, b, d)"
    "select_coins_knapsack pool t ch w =
       (case e of Some x \<Rightarrow> Some ([su_utxo x], Knapsack)
        | None \<Rightarrow> if value_of a < t then single_larger w l else knapsack_choose w l (map su_utxo b) d)"
proof -
  obtain a l e where c: "fold (categorize t ch w) pool ([], None, None) = (a, l, e)" by (metis prod_cases3)
  then have fa: "fits a 0" using categorize_fold [OF c] fits_filter [OF f] by simp
  obtain tr b d where s: "knapsack.search t w KNAPSACK_TRIES (knapsack_order a) [] (0, [], U64_MAX) = (tr, b, d)"
    and k: "knapsack_dfs \<lparr>kn_applicable = knapsack_order a, kn_suffix_sums = suffix_sums (knapsack_order a), kn_target = t,
        kn_max_weight = w, kn_max_tries = KNAPSACK_TRIES\<rparr> 0 [] 0 0 (0, [], U64_MAX) = (tr, map su_utxo b, d)"
    by (rule knapsack_run [OF fa])
  have "sum64 (map su_effective_value a) = value_of a" using fitsD(2) [OF fa] by (simp add: sum64_def value_of_def)
  then show thesis by (intro that [OF c s]) (simp add: select_coins_knapsack_def c k Let_def split: option.split)
qed

lemma knapsack_choose_Some:
  "knapsack_choose w l (map su_utxo b) d = Some (sel, st) \<longleftrightarrow> st = Knapsack \<and>
     (b \<noteq> [] \<and> sel = map su_utxo b \<and> (\<forall>x. l = Some x \<longrightarrow> \<not> (su_vbytes x \<le> w \<and> su_effective_value x \<le> d)) \<or>
      (\<exists>x. l = Some x \<and> su_vbytes x \<le> w \<and> (b \<noteq> [] \<longrightarrow> su_effective_value x \<le> d) \<and> sel = [su_utxo x]))"
  by (auto simp: knapsack_choose_def single_larger_Some split: option.splits if_splits)

lemma select_coins_knapsack_sound:
  assumes f: "fits pool (t + ch)" and sel: "select_coins_knapsack pool t ch w = Some (sel, st)"
  shows "st = Knapsack \<and> (\<exists>ys. sel = map su_utxo ys \<and> ys \<noteq> [] \<and> mset ys \<subseteq># mset pool \<and> covers t w ys)"
proof -
  obtain a l e tr b d where c: "fold (categorize t ch w) pool ([], None, None) = (a, l, e)"
    and s: "knapsack.search t w KNAPSACK_TRIES (knapsack_order a) [] (0, [], U64_MAX) = (tr, b, d)"
    and k: "select_coins_knapsack pool t ch w =
       (case e of Some x \<Rightarrow> Some ([su_utxo x], Knapsack)
        | None \<Rightarrow> if value_of a < t then single_larger w l else knapsack_choose w l (map su_utxo b) d)"
    by (rule knapsack_unfold [OF f])
  note C = categorize_fold [OF c]
  have tc: "t \<le> add64 t ch" using fitsD(4) [OF f] by (simp add: add64_id)
  from sel k have "st = Knapsack \<and> (b \<noteq> [] \<and> sel = map su_utxo b \<or>
      (\<exists>x. sel = [su_utxo x] \<and> (e = Some x \<or> l = Some x \<and> su_vbytes x \<le> w)))"
    by (auto simp: single_larger_Some knapsack_choose_Some split: option.splits if_splits)
  then consider "st = Knapsack" "b \<noteq> []" "sel = map su_utxo b"
    | x where "st = Knapsack" "sel = [su_utxo x]" "e = Some x \<or> l = Some x \<and> su_vbytes x \<le> w" by blast
  then show ?thesis
  proof cases
    case 1
    with knapsack.search_sound [OF s] have b: "b \<in> set (subseqs (knapsack_order a))" "covers t w b" by auto
    from subseq_sums(4) [OF b(1)] have "mset b \<subseteq># mset a" by simp
    also have "mset a \<subseteq># mset pool" using C by (simp add: multiset_filter_subset)
    finally show ?thesis using b(2) 1 by blast
  next
    case (2 x)
    then have "x \<in> set pool \<and> t \<le> su_effective_value x \<and> su_vbytes x \<le> w"
      using C tc by (auto simp: is_exact_def)
    with 2 single_covers show ?thesis by (intro conjI exI [of _ "[x]"]) auto
  qed
qed

text \<open>It finds a selection whenever there is one, if no single output is too heavy and the pool is small
  enough for its search: two to the sixteenth visits are less than its limit.\<close>

lemma select_coins_knapsack_complete:
  assumes f: "fits pool (t + ch)" "0 < t" and n: "length pool \<le> 15" and w: "\<forall>x\<in>set pool. su_vbytes x \<le> w"
    and ys: "mset ys \<subseteq># mset pool" "covers t w ys"
  shows "select_coins_knapsack pool t ch w \<noteq> None"
proof -
  obtain a l e tr b d where c: "fold (categorize t ch w) pool ([], None, None) = (a, l, e)"
    and s: "knapsack.search t w KNAPSACK_TRIES (knapsack_order a) [] (0, [], U64_MAX) = (tr, b, d)"
    and k: "select_coins_knapsack pool t ch w =
       (case e of Some x \<Rightarrow> Some ([su_utxo x], Knapsack)
        | None \<Rightarrow> if value_of a < t then single_larger w l else knapsack_choose w l (map su_utxo b) d)"
    by (rule knapsack_unfold [OF f(1)])
  note C = categorize_fold [OF c]
  show ?thesis
  proof (cases "e = None \<and> l = None")
    case False
    then show ?thesis
    proof (cases e)
      case None
      with False obtain x where x: "l = Some x" by auto
      then have "su_vbytes x \<le> w" using C w by blast
      with k None x show ?thesis
        by (auto simp: single_larger_def knapsack_choose_def split: option.splits)
    qed (simp add: k)
  next
    case True
    with C have "filter (is_applicable t ch w) pool = pool" by (intro filter_True) blast
    with C have a: "a = pool" by simp
    from submultiset_subseq [of ys "knapsack_order pool"] ys(1) obtain zs
      where zs: "zs \<in> set (subseqs (knapsack_order pool))" "mset zs = mset ys" by auto
    have cz: "covers t w zs" using ys(2) sums_mset(1,2) [OF zs(2)] by (simp add: covers_def)
    have vp: "value_of (knapsack_order pool) = value_of pool" by (rule sums_mset) simp
    have "value_of zs < U64_MAX" using subseq_sums(1) [OF zs(1)] f(1) by (simp add: fits_def vp)
    moreover have "(2 :: nat) ^ Suc (length pool) \<le> 2 ^ 16" by (rule power_increasing) (use n in simp_all)
    then have "2 ^ Suc (length (knapsack_order a)) \<le> KNAPSACK_TRIES" by (simp add: KNAPSACK_TRIES_def a)
    ultimately have "covers t w b" using knapsack.search_finds [OF s _ _ cz] zs(1) by (simp add: a)
    then have "b \<noteq> []" using f(2) by (auto simp: covers_def)
    moreover have "\<not> value_of a < t" using subseq_sums(1) [OF zs(1)] cz by (simp add: a vp covers_def)
    ultimately show ?thesis using k True by (simp add: knapsack_choose_def)
  qed
qed

end
