(* ===== verification/Blaze.thy ===== *)
theory Blaze
  imports Coin_Selection Codec_Shapes
begin

text \<open>
  The Blaze pallet (\<open>pallets/blaze\<close>): relayers vote unspent Bitcoin outputs of the vaults into the
  available set, which transactions lock and, once a majority saw them broadcast, use up; they also
  submit fee rates and outbound socket messages.

  \<open>BConfig\<close> holds the code the pallet calls and does not contain: the hash of an output, the
  \<open>miniscript\<close> and \<open>bitcoin\<close> crates and the ABI codec; \<open>BEnv\<close> what it reads of the rest of the runtime
  when a call runs: the relayers and their majority, the registration pool, the socket queue and the
  block number.
\<close>

subsection \<open>Sizes of inputs\<close>

text \<open>An instruction of a script is an opcode, a push of data, or a decoding error.\<close>

datatype ScriptInstruction = Op "8 word" | PushBytes | BadInstruction

record ScriptCode =
  sc_instructions :: "ScriptInstruction list"
  sc_len :: nat

definition OP_CHECKMULTISIG :: "8 word" where "OP_CHECKMULTISIG = 0xae"

definition pushed_number :: "ScriptInstruction \<Rightarrow> nat option" where
  "pushed_number x = (case x of Op c \<Rightarrow> if 0x51 \<le> c \<and> c \<le> 0x60 then Some (unat (c - 0x51 + 1)) else None | _ \<Rightarrow> None)"

definition parse_multisig_script :: "ScriptCode \<Rightarrow> (nat \<times> nat) option" where
  "parse_multisig_script sc =
     (let xs = sc_instructions sc in
      if length xs < 3 then None
      else Option.bind (pushed_number (xs ! 0)) (\<lambda>m.
           if last xs = Op OP_CHECKMULTISIG
           then map_option (\<lambda>n. (m, n)) (pushed_number (xs ! (length xs - 2)))
           else None))"

text \<open>The weights of witness and other data, and the rounding to virtual bytes, are the \<open>bitcoin\<close> crate's.\<close>

definition estimate_finalized_input_size :: "(nat \<Rightarrow> nat \<Rightarrow> nat) \<Rightarrow> ScriptCode \<Rightarrow> nat option \<Rightarrow> nat option" where
  "estimate_finalized_input_size vbytes sc txin =
     (case parse_multisig_script sc of
        None \<Rightarrow> None
      | Some (m, _) \<Rightarrow>
          let script_len = sc_len sc + 1;
              witness_size = 1 + 73 * m + script_len;
              base_size = (case txin of Some b \<Rightarrow> b | None \<Rightarrow> 41)
          in Some (vbytes witness_size base_size))"

subsection \<open>Data\<close>

definition MAX_SOCKET_MESSAGES_PER_SUBMISSION :: nat where "MAX_SOCKET_MESSAGES_PER_SUBMISSION = 10"
definition MAX_UTXOS_PER_SUBMISSION :: nat where "MAX_UTXOS_PER_SUBMISSION = 50"
definition MAX_UNCONFIRMED_UTXOS_PER_RELAYER :: nat where "MAX_UNCONFIRMED_UTXOS_PER_RELAYER = 100"

datatype UtxoStatus = Unconfirmed | Available | Locked | Used

record Utxo =
  ut_inner :: UtxoInfoWithSize
  ut_status :: UtxoStatus
  ut_voters :: "acct list"

record BTCTransaction =
  bt_inputs :: "UtxoInfoWithSize list"
  bt_voters :: "acct list"

text \<open>Out of the voters, then at their end; \<open>None\<close> is the failed \<open>expect\<close>.\<close>

definition replace_voter :: "acct \<Rightarrow> acct \<Rightarrow> acct list \<Rightarrow> acct list option" where
  "replace_voter old new vs = try_push (filter (\<lambda>v. v \<noteq> old) vs) new"

record UtxoSubmission =
  sb_authority_id :: acct
  sb_utxos :: "UtxoInfo list"

record BroadcastSubmission =
  bc_authority_id :: acct
  bc_txid :: H256

record FeeRateSubmission =
  fr_authority_id :: acct
  fr_lt_fee_rate :: nat
  fr_fee_rate :: nat
  fr_deadline :: block_number

record SocketMessagesSubmission =
  sm_authority_id :: acct
  sm_messages :: "bytes list"

datatype blaze_error =
    BBadOrigin | UnknownUtxo | UnknownTransaction | UtxoDNE | AlreadySpent | BAlreadyVoted
  | BEmptySubmission | InvalidSubmission | BOutOfRange | BNoWritingSameValue | InvalidActivationState

datatype BlazeEvent =
    ActivationSet bool
  | ToleranceCounterUpdated nat
  | FeeRateSubmitted acct nat nat
  | UtxoSubmitted acct H256 UtxoStatus
  | UtxoForcePushed H256
  | BroadcastPolled acct H256 bool
  | SocketMessageSubmitted acct bytes

record blaze =
  IsActivated :: bool
  ToleranceCounter :: nat
  Utxos :: "(H256, Utxo) btmap"
  UnconfirmedUtxoCount :: "acct \<Rightarrow> nat"
  PendingTxs :: "(H256, BTCTransaction) btmap"
  ConfirmedTxs :: "(H256, BTCTransaction) btmap"
  OutboundPool :: "bytes list"
  FeeRates :: "(acct, nat \<times> nat \<times> block_number) btmap"
  BEvents :: "BlazeEvent list"

record BConfig =
  utxo_hash :: "H256 \<times> nat \<times> nat \<times> btc_address \<Rightarrow> H256"
  script_code :: "bytes \<Rightarrow> ScriptCode option"
  to_vbytes :: "nat \<Rightarrow> nat \<Rightarrow> nat"
  b_codec :: Codec
  FeeRateExpiration :: nat
  ToleranceThreshold :: nat

record BEnv =
  b_is_authority :: "acct \<Rightarrow> bool"
  b_majority :: nat
  bonded_descriptor :: "btc_address \<Rightarrow> bytes option"
  verify_socket_message :: "bytes \<Rightarrow> bool"
  sq_verify_authority :: "acct \<Rightarrow> bool"
  sq_max_fee_rate :: nat
  sq_max_message_bytes :: nat
  b_block_number :: block_number

type_synonym 'a blaze_result = "(blaze, blaze_error, 'a) outcome"

definition b_deposit :: "BlazeEvent \<Rightarrow> blaze \<Rightarrow> blaze" where
  "b_deposit e s = s\<lparr>BEvents := BEvents s @ [e]\<rparr>"

definition put_utxo :: "H256 \<Rightarrow> Utxo \<Rightarrow> blaze \<Rightarrow> blaze" where
  "put_utxo h u s = s\<lparr>Utxos := bt_insert h u (Utxos s)\<rparr>"

subsection \<open>The interface for the other pallets\<close>

text \<open>The authority is replaced where it voted.\<close>

definition replace_in_utxo :: "acct \<Rightarrow> acct \<Rightarrow> Utxo \<Rightarrow> Utxo option" where
  "replace_in_utxo old new u =
     (if ut_status u = Unconfirmed \<and> old \<in> set (ut_voters u)
      then map_option (\<lambda>vs. u\<lparr>ut_voters := vs\<rparr>) (replace_voter old new (ut_voters u)) else Some u)"

definition replace_in_tx :: "acct \<Rightarrow> acct \<Rightarrow> BTCTransaction \<Rightarrow> BTCTransaction option" where
  "replace_in_tx old new t =
     (if old \<in> set (bt_voters t)
      then map_option (\<lambda>vs. t\<lparr>bt_voters := vs\<rparr>) (replace_voter old new (bt_voters t)) else Some t)"

fun bt_map_opt :: "('v \<Rightarrow> 'v option) \<Rightarrow> ('k, 'v) btmap \<Rightarrow> ('k, 'v) btmap option" where
  "bt_map_opt f [] = Some []"
| "bt_map_opt f ((k, v) # m) = Option.bind (f v) (\<lambda>v'. map_option (\<lambda>m'. (k, v') # m') (bt_map_opt f m))"

definition move_count :: "acct \<Rightarrow> acct \<Rightarrow> (acct \<Rightarrow> nat) \<Rightarrow> acct \<Rightarrow> nat" where
  "move_count old new cnt = (if 0 < cnt old then (cnt(old := 0))(new := cnt old) else cnt(old := 0))"

definition blaze_replace_authority :: "acct \<Rightarrow> acct \<Rightarrow> blaze \<Rightarrow> unit blaze_result" where
  "blaze_replace_authority old new s =
     (let s1 = s\<lparr>UnconfirmedUtxoCount := move_count old new (UnconfirmedUtxoCount s)\<rparr> in
      expect (bt_map_opt (replace_in_utxo old new) (Utxos s1)) (\<lambda>us.
      expect (bt_map_opt (replace_in_tx old new) (PendingTxs s1)) (\<lambda>txs.
      let s2 = s1\<lparr>Utxos := us, PendingTxs := txs\<rparr> in
      case bt_get (FeeRates s2) old of
        None \<Rightarrow> Done () s2
      | Some v \<Rightarrow>
          expect (bt_try_insert new v (bt_remove old (FeeRates s2))) (\<lambda>m. Done () (s2\<lparr>FeeRates := m\<rparr>)))))"

definition get_utxos :: "blaze \<Rightarrow> UtxoInfoWithSize list" where
  "get_utxos s = map (ut_inner \<circ> snd) (filter (\<lambda>e. ut_status (snd e) = Available) (Utxos s))"

definition release_count :: "acct list \<Rightarrow> (acct \<Rightarrow> nat) \<Rightarrow> acct \<Rightarrow> nat" where
  "release_count vs cnt = (case vs of [] \<Rightarrow> cnt | a # _ \<Rightarrow> cnt(a := sat_sub (cnt a) 1))"

definition clear_utxos :: "blaze \<Rightarrow> blaze" where
  "clear_utxos s =
     s\<lparr>UnconfirmedUtxoCount := fold (\<lambda>e. if ut_status (snd e) = Unconfirmed then release_count (ut_voters (snd e)) else id)
         (Utxos s) (UnconfirmedUtxoCount s),
       Utxos := filter (\<lambda>e. ut_status (snd e) = Used) (Utxos s)\<rparr>"

fun set_statuses :: "UtxoStatus \<Rightarrow> UtxoInfoWithSize list \<Rightarrow> blaze \<Rightarrow> unit blaze_result" where
  "set_statuses st [] s = Done () s"
| "set_statuses st (x # xs) s =
     ok_or (bt_get (Utxos s) (us_hash x)) UtxoDNE s (\<lambda>u.
     set_statuses st xs (put_utxo (us_hash x) (u\<lparr>ut_status := st\<rparr>) s))"

definition lock_utxos :: "H256 \<Rightarrow> UtxoInfoWithSize list \<Rightarrow> blaze \<Rightarrow> unit blaze_result" where
  "lock_utxos txid inputs s =
     bind_outcome (set_statuses Locked inputs s) (\<lambda>_ s.
     Done () (s\<lparr>PendingTxs := bt_insert txid \<lparr>bt_inputs = inputs, bt_voters = []\<rparr> (PendingTxs s)\<rparr>))"

definition unlock_utxos :: "H256 \<Rightarrow> blaze \<Rightarrow> unit blaze_result" where
  "unlock_utxos txid s =
     ok_or (bt_get (PendingTxs s) txid) UnknownTransaction s (\<lambda>t.
     set_statuses Available (bt_inputs t) (s\<lparr>PendingTxs := bt_remove txid (PendingTxs s)\<rparr>))"

text \<open>What the code reads of an input of a PSBT: its outpoint and the values of its previous outputs.\<close>

record PsbtInput =
  pi_txid :: H256
  pi_vout :: nat
  pi_witness_utxo :: "nat option"
  pi_non_witness_utxo :: "nat list option"

definition input_amount :: "PsbtInput \<Rightarrow> nat option" where
  "input_amount x =
     (case pi_witness_utxo x of
        Some v \<Rightarrow> Some v
      | None \<Rightarrow> (case pi_non_witness_utxo x of
                  Some outs \<Rightarrow> if pi_vout x < length outs then Some (outs ! pi_vout x) else None
                | None \<Rightarrow> None))"

fun extract_utxos_from_psbt :: "PsbtInput list \<Rightarrow> blaze \<Rightarrow> UtxoInfoWithSize list blaze_result" where
  "extract_utxos_from_psbt [] s = Done [] s"
| "extract_utxos_from_psbt (x # xs) s =
     expect (input_amount x) (\<lambda>amount.
     ok_or (find (\<lambda>e. us_txid (ut_inner (snd e)) = pi_txid x \<and> us_vout (ut_inner (snd e)) = pi_vout x \<and>
                   us_amount (ut_inner (snd e)) = amount) (Utxos s)) UtxoDNE s (\<lambda>e.
     bind_outcome (extract_utxos_from_psbt xs s) (\<lambda>us s. Done (ut_inner (snd e) # us) s)))"

definition clear_outbound_pool :: "bytes list \<Rightarrow> blaze \<Rightarrow> blaze" where
  "clear_outbound_pool targets s = s\<lparr>OutboundPool := filter (\<lambda>x. x \<notin> set targets) (OutboundPool s)\<rparr>"

text \<open>The unexpired rates, and with a majority of them the medians of both kinds; an index out of range panics.\<close>

definition median :: "nat list \<Rightarrow> nat option" where
  "median xs = (let i = length xs div 2 in if i < length xs then Some (sort xs ! i) else None)"

definition try_fee_rate_finalization :: "BEnv \<Rightarrow> block_number \<Rightarrow> blaze \<Rightarrow> (nat \<times> nat) option blaze_result" where
  "try_fee_rate_finalization E n s =
     (let rates = filter (\<lambda>(_, _, _, expires_at). n \<le> expires_at) (FeeRates s);
          s1 = s\<lparr>FeeRates := rates\<rparr> in
      if b_majority E \<le> as_u32 (length rates) then
        expect (median (map (fst \<circ> snd \<circ> snd) rates)) (\<lambda>fee_rate.
        expect (median (map (fst \<circ> snd) rates)) (\<lambda>lt_fee_rate.
        Done (if lt_fee_rate \<le> fee_rate then Some (lt_fee_rate, fee_rate) else None) s1))
      else Done None s1)"

definition clear_fee_rates :: "blaze \<Rightarrow> blaze" where
  "clear_fee_rates s = s\<lparr>FeeRates := []\<rparr>"

definition handle_tolerance_counter :: "BConfig \<Rightarrow> bool \<Rightarrow> blaze \<Rightarrow> blaze" where
  "handle_tolerance_counter C is_increase s =
     (let current = ToleranceCounter s;
          nxt = (if is_increase then sat_add32 current 1 else sat_sub current 1) in
      if ToleranceThreshold C < nxt then
        b_deposit (ActivationSet False) (s\<lparr>IsActivated := False, ToleranceCounter := 0\<rparr>)
      else if current \<noteq> nxt then
        b_deposit (ToleranceCounterUpdated nxt) (s\<lparr>ToleranceCounter := nxt\<rparr>)
      else s)"

definition ensure_activation :: "bool \<Rightarrow> blaze \<Rightarrow> 'a blaze_result \<Rightarrow> 'a blaze_result" where
  "ensure_activation b s k = ensure (IsActivated s = b) InvalidActivationState s k"

subsection \<open>Calls\<close>

definition set_activation :: "origin \<Rightarrow> bool \<Rightarrow> blaze \<Rightarrow> unit blaze_result" where
  "set_activation og b s =
     ensure (og = Root) BBadOrigin s (
     ensure (IsActivated s \<noteq> b) BNoWritingSameValue s (
     let s1 = (if b then s\<lparr>PendingTxs := []\<rparr> else s)
     in Done () (b_deposit (ActivationSet b) (s1\<lparr>IsActivated := b\<rparr>))))"

definition hash_of :: "BConfig \<Rightarrow> UtxoInfo \<Rightarrow> H256" where
  "hash_of C x = utxo_hash C (ui_txid x, ui_vout x, ui_amount x, ui_address x)"

definition sized :: "BConfig \<Rightarrow> UtxoInfo \<Rightarrow> bytes \<Rightarrow> nat \<Rightarrow> UtxoInfoWithSize" where
  "sized C x d vb = \<lparr>us_hash = hash_of C x, us_txid = ui_txid x, us_vout = ui_vout x, us_amount = ui_amount x,
     us_descriptor = d, us_input_vbytes = vb\<rparr>"

text \<open>One output of a submission; \<open>continue\<close> leaves the state as it is.\<close>

definition submit_utxo :: "BConfig \<Rightarrow> BEnv \<Rightarrow> acct \<Rightarrow> UtxoInfo \<Rightarrow> blaze \<Rightarrow> unit blaze_result" where
  "submit_utxo C E a x s =
     (case bonded_descriptor E (ui_address x) of
        None \<Rightarrow> Done () s
      | Some d \<Rightarrow>
          let h = hash_of C x in
          case bt_get (Utxos s) h of
            Some u \<Rightarrow>
              if ut_status u \<noteq> Unconfirmed \<or> a \<in> set (ut_voters u) then Done () s
              else ok_or (try_push (ut_voters u) a) BOutOfRange s (\<lambda>vs.
                let approved = b_majority E \<le> as_u32 (length vs);
                    u1 = u\<lparr>ut_voters := vs, ut_status := (if approved then Available else Unconfirmed)\<rparr>;
                    s1 = (if approved then s\<lparr>UnconfirmedUtxoCount := release_count vs (UnconfirmedUtxoCount s)\<rparr> else s)
                in Done () (b_deposit (UtxoSubmitted a h (ut_status u1)) (put_utxo h u1 s1)))
          | None \<Rightarrow>
              let count = UnconfirmedUtxoCount s a in
              if MAX_UNCONFIRMED_UTXOS_PER_RELAYER \<le> count then Done () s
              else expect (script_code C d) (\<lambda>sc.
                case estimate_finalized_input_size (to_vbytes C) sc None of
                  None \<Rightarrow> Done () s
                | Some vb \<Rightarrow>
                    let s1 = put_utxo h \<lparr>ut_inner = sized C x d vb, ut_status = Unconfirmed, ut_voters = [a]\<rparr> s
                    in Done () (b_deposit (UtxoSubmitted a h Unconfirmed)
                         (s1\<lparr>UnconfirmedUtxoCount := (UnconfirmedUtxoCount s1)(a := add32 count 1)\<rparr>))))"

fun for_each :: "('x \<Rightarrow> blaze \<Rightarrow> unit blaze_result) \<Rightarrow> 'x list \<Rightarrow> blaze \<Rightarrow> unit blaze_result" where
  "for_each f [] s = Done () s"
| "for_each f (x # xs) s = bind_outcome (f x s) (\<lambda>_ s. for_each f xs s)"

definition submit_utxos :: "BConfig \<Rightarrow> BEnv \<Rightarrow> origin \<Rightarrow> UtxoSubmission \<Rightarrow> blaze \<Rightarrow> unit blaze_result" where
  "submit_utxos C E og sub s =
     ensure (og = NoOrigin) BBadOrigin s (
     ensure_activation True s (
     ensure (sb_utxos sub \<noteq> []) BEmptySubmission s (
     for_each (submit_utxo C E (sb_authority_id sub)) (sb_utxos sub) s)))"

definition broadcast_poll :: "BEnv \<Rightarrow> origin \<Rightarrow> BroadcastSubmission \<Rightarrow> blaze \<Rightarrow> unit blaze_result" where
  "broadcast_poll E og sub s =
     (let a = bc_authority_id sub; txid = bc_txid sub in
      ensure (og = NoOrigin) BBadOrigin s (
      ensure_activation True s (
      ensure (\<not> bt_contains txid (ConfirmedTxs s)) AlreadySpent s (
      ok_or (bt_get (PendingTxs s) txid) UnknownTransaction s (\<lambda>t.
      ensure (a \<notin> set (bt_voters t)) BAlreadyVoted s (
      ok_or (try_push (bt_voters t) a) BOutOfRange s (\<lambda>vs.
      let t' = t\<lparr>bt_voters := vs\<rparr> in
      if b_majority E \<le> as_u32 (length vs) then
        bind_outcome (set_statuses Used (bt_inputs t)
            (s\<lparr>ConfirmedTxs := bt_insert txid t' (ConfirmedTxs s), PendingTxs := bt_remove txid (PendingTxs s)\<rparr>)) (\<lambda>_ s.
        Done () (b_deposit (BroadcastPolled a txid True) s))
      else
        Done () (b_deposit (BroadcastPolled a txid False)
          (s\<lparr>PendingTxs := bt_insert txid t' (PendingTxs s)\<rparr>)))))))))"

definition submit_fee_rate :: "BConfig \<Rightarrow> BEnv \<Rightarrow> origin \<Rightarrow> FeeRateSubmission \<Rightarrow> blaze \<Rightarrow> unit blaze_result" where
  "submit_fee_rate C E og sub s =
     (let a = fr_authority_id sub; lt = fr_lt_fee_rate sub; fr = fr_fee_rate sub in
      ensure (og = NoOrigin) BBadOrigin s (
      ensure_activation True s (
      ensure (1 \<le> lt \<and> lt \<le> sq_max_fee_rate E) BOutOfRange s (
      ensure (1 \<le> fr \<and> fr \<le> sq_max_fee_rate E) BOutOfRange s (
      ok_or (bt_try_insert a (lt, fr, add32 (b_block_number E) (FeeRateExpiration C)) (FeeRates s)) BOutOfRange s (\<lambda>m.
      Done () (b_deposit (FeeRateSubmitted a lt fr) (s\<lparr>FeeRates := m\<rparr>))))))))"

text \<open>The sequences of the messages in the pool; messages that do not parse are skipped, a panic is \<open>None\<close>.\<close>

fun pool_sequences :: "Codec \<Rightarrow> bytes list \<Rightarrow> U256 list option" where
  "pool_sequences K [] = Some []"
| "pool_sequences K (m # ms) =
     (case SocketMessage_try_from K m of
        Parsed x \<Rightarrow> map_option (\<lambda>qs. rq_sequence (req_id x) # qs) (pool_sequences K ms)
      | Malformed \<Rightarrow> pool_sequences K ms
      | Crash \<Rightarrow> None)"

text \<open>One pass over the submitted messages, with the pool and its sequences so far.\<close>

fun submit_messages :: "BConfig \<Rightarrow> BEnv \<Rightarrow> acct \<Rightarrow> bytes list \<Rightarrow> bytes list \<Rightarrow> U256 list \<Rightarrow> blaze \<Rightarrow> bytes list blaze_result" where
  "submit_messages C E a [] pool seqs s = Done pool s"
| "submit_messages C E a (m # ms) pool seqs s =
     (if m \<in> set pool then submit_messages C E a ms pool seqs s
      else case SocketMessage_try_from (b_codec C) m of
             Malformed \<Rightarrow> submit_messages C E a ms pool seqs s
           | Crash \<Rightarrow> Panic
           | Parsed x \<Rightarrow>
               if rq_sequence (req_id x) \<in> set seqs \<or> \<not> verify_socket_message E m
               then submit_messages C E a ms pool seqs s
               else submit_messages C E a ms (pool @ [m]) (seqs @ [rq_sequence (req_id x)])
                      (b_deposit (SocketMessageSubmitted a m) s))"

definition submit_outbound_requests ::
  "BConfig \<Rightarrow> BEnv \<Rightarrow> origin \<Rightarrow> SocketMessagesSubmission \<Rightarrow> blaze \<Rightarrow> unit blaze_result" where
  "submit_outbound_requests C E og sub s =
     ensure (og = NoOrigin) BBadOrigin s (
     ensure (sm_messages sub \<noteq> []) BEmptySubmission s (
     expect (pool_sequences (b_codec C) (OutboundPool s)) (\<lambda>seqs.
     bind_outcome (submit_messages C E (sm_authority_id sub) (sm_messages sub) (OutboundPool s) seqs s) (\<lambda>pool s.
     Done () (s\<lparr>OutboundPool := pool\<rparr>)))))"

definition force_push_utxo :: "BConfig \<Rightarrow> BEnv \<Rightarrow> UtxoInfo \<Rightarrow> blaze \<Rightarrow> unit blaze_result" where
  "force_push_utxo C E x s =
     (case bonded_descriptor E (ui_address x) of
        None \<Rightarrow> Done () s
      | Some d \<Rightarrow>
          let h = hash_of C x in
          if bt_contains h (Utxos s) then Done () s
          else expect (script_code C d) (\<lambda>sc.
            case estimate_finalized_input_size (to_vbytes C) sc None of
              None \<Rightarrow> Done () s
            | Some vb \<Rightarrow> Done () (b_deposit (UtxoForcePushed h)
                (put_utxo h \<lparr>ut_inner = sized C x d vb, ut_status = Available, ut_voters = []\<rparr> s))))"

definition force_push_utxos :: "BConfig \<Rightarrow> BEnv \<Rightarrow> origin \<Rightarrow> UtxoInfo list \<Rightarrow> blaze \<Rightarrow> unit blaze_result" where
  "force_push_utxos C E og xs s =
     ensure (og = Root) BBadOrigin s (
     ensure_activation False s (
     ensure (xs \<noteq> []) BEmptySubmission s (
     for_each (force_push_utxo C E) xs (clear_utxos s))))"

definition remove_outbound_messages :: "origin \<Rightarrow> SocketMessagesSubmission \<Rightarrow> blaze \<Rightarrow> unit blaze_result" where
  "remove_outbound_messages og sub s =
     ensure (og = NoOrigin) BBadOrigin s (
     ensure_activation False s (
     ensure (sm_messages sub \<noteq> []) BEmptySubmission s (
     Done () (clear_outbound_pool (sm_messages sub) s))))"

subsection \<open>Unsigned transactions and dispatch\<close>

datatype blaze_call =
    SetActivation bool
  | SubmitUtxos UtxoSubmission bytes
  | BroadcastPoll BroadcastSubmission bytes
  | SubmitFeeRate FeeRateSubmission bytes
  | SubmitOutboundRequests SocketMessagesSubmission bytes
  | ForcePushUtxos "UtxoInfo list"
  | RemoveOutboundMessages SocketMessagesSubmission bytes

datatype blaze_validity = BValid | BBadSigner | BBadProof | BStale | BExhaustsResources | BInvalidCall

text \<open>Signature verification, tag hashes and the hexadecimal and decimal formatting are parameters.\<close>

record BSig =
  b_sig_verify :: "bytes \<Rightarrow> bytes \<Rightarrow> acct \<Rightarrow> bool"
  b_tag_hash :: "string \<Rightarrow> bytes"
  hash_hex :: "H256 \<Rightarrow> bytes"
  hash_bytes_of :: "H256 \<Rightarrow> bytes"
  message_hex :: "bytes \<Rightarrow> bytes"
  b_fmt :: "nat \<Rightarrow> bytes"
  b_colon :: "8 word"

definition verify_signed :: "BSig \<Rightarrow> bool \<Rightarrow> bytes \<Rightarrow> bytes \<Rightarrow> acct \<Rightarrow> blaze_validity" where
  "verify_signed G authorised msg sig a =
     (if \<not> authorised then BBadSigner else if \<not> b_sig_verify G sig msg a then BBadProof else BValid)"

definition verify_utxo_submission :: "BConfig \<Rightarrow> BSig \<Rightarrow> BEnv \<Rightarrow> UtxoSubmission \<Rightarrow> bytes \<Rightarrow> blaze_validity" where
  "verify_utxo_submission C G E sub sig =
     (if MAX_UTXOS_PER_SUBMISSION < length (sb_utxos sub) then BExhaustsResources
      else verify_signed G (b_is_authority E (sb_authority_id sub))
             (b_tag_hash G ''UtxosSubmission'' @ concat (map (hash_hex G \<circ> hash_of C) (sb_utxos sub))) sig (sb_authority_id sub))"

definition verify_broadcast_submission :: "BSig \<Rightarrow> BEnv \<Rightarrow> BroadcastSubmission \<Rightarrow> bytes \<Rightarrow> blaze_validity" where
  "verify_broadcast_submission G E sub sig =
     verify_signed G (b_is_authority E (bc_authority_id sub))
       (b_tag_hash G ''BroadcastPoll'' @ hash_bytes_of G (bc_txid sub)) sig (bc_authority_id sub)"

definition verify_submit_fee_rate :: "BSig \<Rightarrow> BEnv \<Rightarrow> FeeRateSubmission \<Rightarrow> bytes \<Rightarrow> blaze_validity" where
  "verify_submit_fee_rate G E sub sig =
     (if \<not> b_is_authority E (fr_authority_id sub) then BBadSigner
      else if fr_deadline sub < b_block_number E then BStale
      else verify_signed G True (b_fmt G (fr_deadline sub) @ [b_colon G] @ b_fmt G (fr_lt_fee_rate sub) @ [b_colon G] @
             b_fmt G (fr_fee_rate sub)) sig (fr_authority_id sub))"

definition verify_submit_outbound_requests :: "BSig \<Rightarrow> BEnv \<Rightarrow> SocketMessagesSubmission \<Rightarrow> bytes \<Rightarrow> blaze_validity" where
  "verify_submit_outbound_requests G E sub sig =
     (if MAX_SOCKET_MESSAGES_PER_SUBMISSION < length (sm_messages sub) then BExhaustsResources
      else if \<exists>m\<in>set (sm_messages sub). sq_max_message_bytes E < length m then BExhaustsResources
      else verify_signed G (b_is_authority E (sm_authority_id sub)) (concat (map (message_hex G) (sm_messages sub)))
             sig (sm_authority_id sub))"

definition verify_remove_outbound_messages :: "BSig \<Rightarrow> BEnv \<Rightarrow> SocketMessagesSubmission \<Rightarrow> bytes \<Rightarrow> blaze_validity" where
  "verify_remove_outbound_messages G E sub sig =
     verify_signed G (sq_verify_authority E (sm_authority_id sub)) (concat (map (message_hex G) (sm_messages sub)))
       sig (sm_authority_id sub)"

definition blaze_validate_unsigned :: "BConfig \<Rightarrow> BSig \<Rightarrow> BEnv \<Rightarrow> blaze_call \<Rightarrow> blaze_validity" where
  "blaze_validate_unsigned C G E c =
     (case c of
        SubmitUtxos sub sig \<Rightarrow> verify_utxo_submission C G E sub sig
      | BroadcastPoll sub sig \<Rightarrow> verify_broadcast_submission G E sub sig
      | SubmitFeeRate sub sig \<Rightarrow> verify_submit_fee_rate G E sub sig
      | SubmitOutboundRequests sub sig \<Rightarrow> verify_submit_outbound_requests G E sub sig
      | RemoveOutboundMessages sub sig \<Rightarrow> verify_remove_outbound_messages G E sub sig
      | _ \<Rightarrow> BInvalidCall)"

definition blaze_call_run :: "BConfig \<Rightarrow> BEnv \<Rightarrow> origin \<Rightarrow> blaze_call \<Rightarrow> blaze \<Rightarrow> unit blaze_result" where
  "blaze_call_run C E og c s =
     (case c of
        SetActivation b \<Rightarrow> set_activation og b s
      | SubmitUtxos sub _ \<Rightarrow> submit_utxos C E og sub s
      | BroadcastPoll sub _ \<Rightarrow> broadcast_poll E og sub s
      | SubmitFeeRate sub _ \<Rightarrow> submit_fee_rate C E og sub s
      | SubmitOutboundRequests sub _ \<Rightarrow> submit_outbound_requests C E og sub s
      | ForcePushUtxos xs \<Rightarrow> force_push_utxos C E og xs s
      | RemoveOutboundMessages sub _ \<Rightarrow> remove_outbound_messages og sub s)"

end
