(* ===== verification/Blaze_Inv.thy ===== *)
theory Blaze_Inv
  imports Blaze
begin

text \<open>
  The invariant of the Blaze pallet. Outputs are stored under their hashes; an unconfirmed output has
  distinct voters, and the count of a relayer is the number of unconfirmed outputs it was the first to
  vote for; the inputs of a confirmed transaction are used up and belong to that transaction alone;
  while Blaze is activated the inputs of a pending transaction are locked for it alone.
\<close>

definition utxo_status :: "blaze \<Rightarrow> H256 \<Rightarrow> UtxoStatus option" where
  "utxo_status s h = map_option ut_status (bt_get (Utxos s) h)"

definition first_voter :: "acct \<Rightarrow> H256 \<times> Utxo \<Rightarrow> bool" where
  "first_voter a e \<longleftrightarrow> ut_status (snd e) = Unconfirmed \<and> ut_voters (snd e) \<noteq> [] \<and> hd (ut_voters (snd e)) = a"

definition utxo_ok :: "H256 \<Rightarrow> Utxo \<Rightarrow> bool" where
  "utxo_ok h u \<longleftrightarrow> us_hash (ut_inner u) = h \<and> distinct (ut_voters u) \<and> length (ut_voters u) \<le> MAX_AUTHORITIES \<and>
     (ut_status u = Unconfirmed \<longrightarrow> ut_voters u \<noteq> [])"

definition utxos_ok :: "blaze \<Rightarrow> bool" where
  "utxos_ok s \<longleftrightarrow> bt_wf (Utxos s) \<and> (\<forall>h u. bt_get (Utxos s) h = Some u \<longrightarrow> utxo_ok h u)"

definition counts_ok :: "blaze \<Rightarrow> bool" where
  "counts_ok s \<longleftrightarrow> (\<forall>a. UnconfirmedUtxoCount s a = bt_count (first_voter a) (Utxos s) \<and>
     bt_count (first_voter a) (Utxos s) \<le> MAX_UNCONFIRMED_UTXOS_PER_RELAYER)"

text \<open>Transactions whose inputs all have one status, and no input in common.\<close>

definition spends :: "BTCTransaction \<Rightarrow> H256 set" where
  "spends t = us_hash ` set (bt_inputs t)"

definition txs_ok :: "UtxoStatus \<Rightarrow> (H256, BTCTransaction) btmap \<Rightarrow> (H256 \<Rightarrow> UtxoStatus option) \<Rightarrow> bool" where
  "txs_ok st txs status \<longleftrightarrow>
     (\<forall>i t. bt_get txs i = Some t \<longrightarrow>
        distinct (bt_voters t) \<and> length (bt_voters t) \<le> MAX_AUTHORITIES \<and> distinct (map us_hash (bt_inputs t)) \<and>
        (\<forall>h\<in>spends t. status h = Some st)) \<and>
     (\<forall>i j t t'. bt_get txs i = Some t \<longrightarrow> bt_get txs j = Some t' \<longrightarrow> i \<noteq> j \<longrightarrow> spends t \<inter> spends t' = {})"

definition pending_ok :: "blaze \<Rightarrow> bool" where
  "pending_ok s \<longleftrightarrow> bt_wf (PendingTxs s) \<and> (\<forall>i t. bt_get (PendingTxs s) i = Some t \<longrightarrow> distinct (bt_voters t) \<and> length (bt_voters t) \<le> MAX_AUTHORITIES) \<and>
     (IsActivated s \<longrightarrow> txs_ok Locked (PendingTxs s) (utxo_status s))"

definition rates_ok :: "blaze \<Rightarrow> bool" where
  "rates_ok s \<longleftrightarrow> bt_wf (FeeRates s) \<and> length (FeeRates s) \<le> MAX_AUTHORITIES"

definition blaze_inv :: "blaze \<Rightarrow> bool" where
  "blaze_inv s \<longleftrightarrow> utxos_ok s \<and> counts_ok s \<and> txs_ok Used (ConfirmedTxs s) (utxo_status s) \<and> pending_ok s \<and> rates_ok s"

lemma blaze_invD:
  assumes "blaze_inv s"
  shows "utxos_ok s" "counts_ok s" "txs_ok Used (ConfirmedTxs s) (utxo_status s)" "pending_ok s" "rates_ok s"
  using assms by (simp_all add: blaze_inv_def)

subsection \<open>Frames\<close>

lemma status_fields [simp]:
  "utxo_status (b_deposit e s) = utxo_status s" "utxo_status (s\<lparr>PendingTxs := x\<rparr>) = utxo_status s"
  "utxo_status (s\<lparr>ConfirmedTxs := y\<rparr>) = utxo_status s" "utxo_status (s\<lparr>UnconfirmedUtxoCount := c\<rparr>) = utxo_status s"
  "utxo_status (s\<lparr>IsActivated := b\<rparr>) = utxo_status s" "utxo_status (s\<lparr>ToleranceCounter := n\<rparr>) = utxo_status s"
  "utxo_status (s\<lparr>FeeRates := f\<rparr>) = utxo_status s" "utxo_status (s\<lparr>OutboundPool := p\<rparr>) = utxo_status s"
  by (simp_all add: utxo_status_def fun_eq_iff b_deposit_def)

lemma b_deposit_fields [simp]:
  "Utxos (b_deposit e s) = Utxos s" "UnconfirmedUtxoCount (b_deposit e s) = UnconfirmedUtxoCount s"
  "PendingTxs (b_deposit e s) = PendingTxs s" "ConfirmedTxs (b_deposit e s) = ConfirmedTxs s"
  "FeeRates (b_deposit e s) = FeeRates s" "IsActivated (b_deposit e s) = IsActivated s"
  "OutboundPool (b_deposit e s) = OutboundPool s" "ToleranceCounter (b_deposit e s) = ToleranceCounter s"
  by (simp_all add: b_deposit_def)

lemma deposit_ok [simp]:
  "utxos_ok (b_deposit e s) = utxos_ok s" "counts_ok (b_deposit e s) = counts_ok s"
  "pending_ok (b_deposit e s) = pending_ok s" "rates_ok (b_deposit e s) = rates_ok s"
  by (simp_all add: utxos_ok_def counts_ok_def pending_ok_def rates_ok_def)

lemma put_utxo_fields [simp]:
  "Utxos (put_utxo h u s) = bt_insert h u (Utxos s)" "UnconfirmedUtxoCount (put_utxo h u s) = UnconfirmedUtxoCount s"
  "PendingTxs (put_utxo h u s) = PendingTxs s" "ConfirmedTxs (put_utxo h u s) = ConfirmedTxs s"
  "FeeRates (put_utxo h u s) = FeeRates s" "IsActivated (put_utxo h u s) = IsActivated s"
  by (simp_all add: put_utxo_def)

lemma status_put [simp]: "utxo_status (put_utxo h u s) = (utxo_status s)(h \<mapsto> ut_status u)"
  by (auto simp: utxo_status_def fun_eq_iff)

lemma blaze_inv_deposit [simp]: "blaze_inv (b_deposit e s) = blaze_inv s"
  by (simp add: blaze_inv_def)

subsection \<open>Changes of one output\<close>

lemma utxos_ok_put: "utxos_ok s \<Longrightarrow> utxo_ok h u \<Longrightarrow> utxos_ok (put_utxo h u s)"
  by (simp add: utxos_ok_def)

text \<open>Changing the status of outputs that no transaction of the map spends.\<close>

lemma txs_ok_cong:
  assumes "txs_ok st txs f" "\<And>h. f h = Some st \<Longrightarrow> f' h = Some st"
  shows "txs_ok st txs f'"
  using assms by (auto simp: txs_ok_def)

lemma txs_ok_remove: "txs_ok st txs f \<Longrightarrow> txs_ok st (bt_remove i txs) f"
  unfolding txs_ok_def by (simp split: if_splits)

lemma txs_ok_filter:
  assumes "txs_ok st txs f" "\<And>i t. bt_get txs' i = Some t \<Longrightarrow> bt_get txs i = Some t"
  shows "txs_ok st txs' f"
  using assms unfolding txs_ok_def by meson

lemma txs_ok_Nil [simp]: "txs_ok st [] f"
  by (simp add: txs_ok_def)

lemma txs_okD:
  assumes "txs_ok st txs f" "bt_get txs i = Some t"
  shows "distinct (bt_voters t)" "length (bt_voters t) \<le> MAX_AUTHORITIES" "distinct (map us_hash (bt_inputs t))"
    "h \<in> spends t \<Longrightarrow> f h = Some st"
  using assms by (auto simp: txs_ok_def)

text \<open>A transaction enters; its inputs take the status, and before that no other transaction of the map spent them.\<close>

lemma txs_ok_insert:
  assumes T: "txs_ok st txs f" and f': "\<And>h. f' h = (if h \<in> spends t then Some st else f h)"
    and d: "distinct (bt_voters t)" "length (bt_voters t) \<le> MAX_AUTHORITIES" "distinct (map us_hash (bt_inputs t))"
    and free: "\<And>h. h \<in> spends t \<Longrightarrow> f h \<noteq> Some st"
  shows "txs_ok st (bt_insert i t txs) f'"
proof -
  have o: "spends t \<inter> spends t' = {}" if "bt_get txs j = Some t'" for j t'
    using txs_okD(4) [OF T that] free by auto
  have D: "distinct (bt_voters t')" "length (bt_voters t') \<le> MAX_AUTHORITIES" "distinct (map us_hash (bt_inputs t'))"
    "\<forall>h\<in>spends t'. f' h = Some st" if "bt_get txs j = Some t'" for j t'
    using txs_okD [OF T that] by (auto simp: f')
  have "spends t1 \<inter> spends t2 = {}" if "bt_get txs j = Some t1" "bt_get txs k = Some t2" "j \<noteq> k" for j k t1 t2
    using T that by (simp add: txs_ok_def)
  then show ?thesis
    using o D d unfolding txs_ok_def by (auto simp: f' Int_commute split: if_splits)
qed

text \<open>A vote changes neither inputs nor the other transactions.\<close>

lemma txs_ok_vote:
  assumes T: "txs_ok st txs f" and t: "bt_get txs i = Some t" and t': "bt_inputs t' = bt_inputs t"
    and d: "distinct (bt_voters t')" "length (bt_voters t') \<le> MAX_AUTHORITIES"
  shows "txs_ok st (bt_insert i t' txs) f"
proof -
  have s: "spends t' = spends t" by (simp add: spends_def t')
  have "spends t1 \<inter> spends t2 = {}" if "bt_get txs j = Some t1" "bt_get txs k = Some t2" "j \<noteq> k" for j k t1 t2
    using T that by (simp add: txs_ok_def)
  with txs_okD [OF T] t d show ?thesis unfolding txs_ok_def by (auto simp: s t' split: if_splits)
qed

subsection \<open>Counts\<close>

text \<open>A new unconfirmed output of \<open>a\<close>.\<close>

lemma counts_ok_new:
  assumes "counts_ok s" "bt_get (Utxos s) h = None" "UnconfirmedUtxoCount s a < MAX_UNCONFIRMED_UTXOS_PER_RELAYER"
    and u: "ut_status u = Unconfirmed" "ut_voters u = [a]"
  shows "counts_ok ((put_utxo h u s)\<lparr>UnconfirmedUtxoCount := (UnconfirmedUtxoCount s)(a := add32 (UnconfirmedUtxoCount s a) 1)\<rparr>)"
proof -
  have "add32 (UnconfirmedUtxoCount s a) 1 = UnconfirmedUtxoCount s a + 1"
    using assms(3) by (simp add: add32_def MAX_UNCONFIRMED_UTXOS_PER_RELAYER_def M32_def)
  then show ?thesis
    using assms by (auto simp: counts_ok_def bt_count_insert_new first_voter_def)
qed

text \<open>A change of an output that was and is confirmed, or keeps its first voter.\<close>

lemma counts_ok_same:
  assumes "counts_ok s" "bt_wf (Utxos s)" "bt_get (Utxos s) h = Some u" "\<And>a. first_voter a (h, u') = first_voter a (h, u)"
  shows "counts_ok (put_utxo h u' s)"
proof -
  have "bt_count (first_voter a) (bt_insert h u' (Utxos s)) = bt_count (first_voter a) (Utxos s)" for a
    using bt_count_insert_old [OF assms(2,3), of "first_voter a" u'] assms(4) by simp
  with assms(1) show ?thesis by (simp add: counts_ok_def)
qed

lemma counts_ok_insert_confirmed:
  assumes "counts_ok s" "bt_get (Utxos s) h = None" "ut_status u \<noteq> Unconfirmed"
  shows "counts_ok (put_utxo h u s)"
  using assms by (simp add: counts_ok_def bt_count_insert_new first_voter_def)

text \<open>Confirmation of an output releases the quota of its first voter.\<close>

lemma counts_ok_confirm:
  assumes C: "counts_ok s" and w: "bt_wf (Utxos s)" and u: "bt_get (Utxos s) h = Some u" "ut_status u = Unconfirmed"
    "ut_voters u = a # vs" "ut_status u' \<noteq> Unconfirmed"
  shows "counts_ok ((put_utxo h u' s)\<lparr>UnconfirmedUtxoCount := release_count (a # ws) (UnconfirmedUtxoCount s)\<rparr>)"
proof -
  have n: "bt_count (first_voter b) (bt_insert h u' (Utxos s)) = bt_count (first_voter b) (Utxos s) - of_bool (b = a)" for b
    using bt_count_insert_old [OF w u(1), of "first_voter b" u'] u(2-4) by (auto simp: first_voter_def)
  have "bt_count (first_voter a) (Utxos s) - 1 \<le> MAX_UNCONFIRMED_UTXOS_PER_RELAYER"
    using C unfolding counts_ok_def by (meson diff_le_self le_trans)
  with C show ?thesis by (auto simp: counts_ok_def n release_count_def)
qed

text \<open>Clearing subtracts every relayer's unconfirmed outputs.\<close>

lemma clear_counts:
  "fold (\<lambda>e. if ut_status (snd e) = Unconfirmed then release_count (ut_voters (snd e)) else id) us cnt =
   (\<lambda>a. cnt a - bt_count (first_voter a) us)"
proof (induction us arbitrary: cnt)
  case (Cons e us)
  have "(if ut_status (snd e) = Unconfirmed then release_count (ut_voters (snd e)) else id) cnt a =
      cnt a - of_bool (first_voter a e)" for a
    by (auto simp: release_count_def first_voter_def split: list.split)
  with Cons.IH show ?case by (auto simp: bt_count_def fun_eq_iff)
qed (simp add: bt_count_def)

lemma bt_get_filter_entry:
  assumes "bt_wf m"
  shows "bt_get (filter P m) k = (case bt_get m k of Some v \<Rightarrow> if P (k, v) then Some v else None | None \<Rightarrow> None)"
proof -
  have e: "bt_get (filter P m) k = Some v \<longleftrightarrow> bt_get m k = Some v \<and> P (k, v)" for v
    using bt_wf_get_iff [OF bt_wf_filter [OF assms, of P], of k v] bt_wf_get_iff [OF assms, of k v] by auto
  show ?thesis
  proof (cases "bt_get (filter P m) k")
    case None
    then show ?thesis using e by (cases "bt_get m k") auto
  next
    case (Some v)
    then show ?thesis using e [of v] by simp
  qed
qed

lemma status_clear:
  assumes "utxos_ok s"
  shows "utxo_status (clear_utxos s) h = (if utxo_status s h = Some Used then Some Used else None)"
  using assms by (auto simp: utxos_ok_def utxo_status_def clear_utxos_def bt_get_filter_entry split: option.splits)

lemma clear_utxos_keeps:
  assumes inv: "blaze_inv s" and p: "IsActivated s \<Longrightarrow> PendingTxs s = []"
  shows "blaze_inv (clear_utxos s)"
proof -
  note I = blaze_invD [OF inv]
  have "utxos_ok (clear_utxos s)"
    using I(1) by (auto simp: utxos_ok_def clear_utxos_def bt_wf_filter bt_get_filter_entry split: option.splits if_splits)
  moreover have "counts_ok (clear_utxos s)"
    using I(2) by (auto simp: counts_ok_def clear_utxos_def clear_counts bt_count_def first_voter_def)
  moreover have "txs_ok Used (ConfirmedTxs s) (utxo_status (clear_utxos s))"
    by (rule txs_ok_cong [OF I(3)]) (simp add: status_clear [OF I(1)])
  ultimately show ?thesis
    using I(4,5) p by (simp add: blaze_inv_def pending_ok_def rates_ok_def clear_utxos_def)
qed

end
