(* ===== verification/Blaze_Keep.thy ===== *)
theory Blaze_Keep
  imports Blaze_Inv
begin

text \<open>
  Every operation of the Blaze pallet keeps its invariant. Two operations other pallets call carry a
  condition their callers establish: the inputs to lock are available, and outputs are cleared from an
  activated Blaze only when no transaction is pending.
\<close>

named_theorems blaze_Done "inversion of successful Blaze operations"

lemmas [blaze_Done] = guard_Done

lemma ensure_activation_Done [blaze_Done]:
  "ensure_activation b s k = Done u s' \<longleftrightarrow> IsActivated s = b \<and> k = Done u s'"
  by (simp add: ensure_activation_def ensure_Done)

subsection \<open>Statuses\<close>

lemma set_statuses_effect:
  assumes "set_statuses st xs s = Done u s'"
  shows "\<exists>us. s' = s\<lparr>Utxos := us\<rparr>"
    and "utxo_status s' h = (if h \<in> us_hash ` set xs then Some st else utxo_status s h)"
    and "st \<noteq> Unconfirmed \<Longrightarrow> utxos_ok s \<Longrightarrow> utxos_ok s'"
    and "st \<noteq> Unconfirmed \<Longrightarrow> utxos_ok s \<Longrightarrow> counts_ok s \<Longrightarrow>
         \<forall>x\<in>set xs. utxo_status s (us_hash x) \<noteq> Some Unconfirmed \<Longrightarrow> counts_ok s'"
proof -
  have "(\<exists>us. s' = s\<lparr>Utxos := us\<rparr>) \<and>
      (\<forall>h. utxo_status s' h = (if h \<in> us_hash ` set xs then Some st else utxo_status s h)) \<and>
      (st \<noteq> Unconfirmed \<longrightarrow> utxos_ok s \<longrightarrow> utxos_ok s' \<and>
       (counts_ok s \<longrightarrow> (\<forall>x\<in>set xs. utxo_status s (us_hash x) \<noteq> Some Unconfirmed) \<longrightarrow> counts_ok s'))"
    using assms
  proof (induction xs arbitrary: s)
    case (Cons x xs)
    then obtain w where w: "bt_get (Utxos s) (us_hash x) = Some w"
      and d: "set_statuses st xs (put_utxo (us_hash x) (w\<lparr>ut_status := st\<rparr>) s) = Done u s'"
      by (auto simp: guard_Done)
    let ?s = "put_utxo (us_hash x) (w\<lparr>ut_status := st\<rparr>) s"
    note IH = Cons.IH [OF d]
    have "\<exists>us. s' = s\<lparr>Utxos := us\<rparr>" using IH by (auto simp: put_utxo_def)
    moreover have "utxo_status s' h = (if h \<in> us_hash ` set (x # xs) then Some st else utxo_status s h)" for h
      using IH by simp
    moreover have ok: "utxos_ok ?s" if "st \<noteq> Unconfirmed" "utxos_ok s"
      using that w by (intro utxos_ok_put) (auto simp: utxos_ok_def utxo_ok_def)
    moreover have "counts_ok ?s" if "st \<noteq> Unconfirmed" "utxos_ok s" "counts_ok s" "utxo_status s (us_hash x) \<noteq> Some Unconfirmed"
      using that w by (intro counts_ok_same [OF _ _ w]) (auto simp: utxos_ok_def first_voter_def utxo_status_def)
    ultimately show ?case using IH by (auto split: if_splits)
  qed (auto intro!: exI [of _ "Utxos s'"])
  then show "\<exists>us. s' = s\<lparr>Utxos := us\<rparr>"
    "utxo_status s' h = (if h \<in> us_hash ` set xs then Some st else utxo_status s h)"
    "st \<noteq> Unconfirmed \<Longrightarrow> utxos_ok s \<Longrightarrow> utxos_ok s'"
    "st \<noteq> Unconfirmed \<Longrightarrow> utxos_ok s \<Longrightarrow> counts_ok s \<Longrightarrow>
         \<forall>x\<in>set xs. utxo_status s (us_hash x) \<noteq> Some Unconfirmed \<Longrightarrow> counts_ok s'"
    by blast+
qed

text \<open>It fails only on an output that is not stored, and never panics.\<close>

lemma set_statuses_not_Panic: "set_statuses st xs s \<noteq> Panic"
  by (induction xs arbitrary: s) (auto simp: guard_Panic)

lemma set_statuses_total:
  "\<forall>x\<in>set xs. utxo_status s (us_hash x) \<noteq> None \<Longrightarrow> \<exists>s'. set_statuses st xs s = Done () s'"
proof (induction xs arbitrary: s)
  case (Cons x xs)
  then obtain u where "bt_get (Utxos s) (us_hash x) = Some u" by (auto simp: utxo_status_def)
  then show ?case using Cons by (simp add: ok_or_def)
qed simp

lemma txs_ok_take:
  assumes T: "txs_ok st txs f" and t: "bt_get txs i = Some t" and f: "\<And>h. h \<notin> spends t \<Longrightarrow> f' h = f h"
  shows "txs_ok st (bt_remove i txs) f'"
proof -
  have o: "spends t \<inter> spends t' = {}" if "bt_get txs j = Some t'" "j \<noteq> i" for j t'
    using T t that by (auto simp: txs_ok_def)
  have "\<forall>h\<in>spends t'. f' h = Some st" if "bt_get txs j = Some t'" "j \<noteq> i" for j t'
    using o [OF that] f txs_okD(4) [OF T that(1)] by (metis disjoint_iff)
  with T show ?thesis unfolding txs_ok_def by (simp split: if_splits)
qed

lemma pending_okD: "pending_ok s \<Longrightarrow> IsActivated s \<Longrightarrow> txs_ok Locked (PendingTxs s) (utxo_status s)"
  by (simp add: pending_ok_def)

lemma spends_simps [simp]:
  "spends \<lparr>bt_inputs = xs, bt_voters = vs\<rparr> = us_hash ` set xs" "spends (t\<lparr>bt_voters := vs\<rparr>) = spends t"
  by (simp_all add: spends_def)

subsection \<open>Locking and unlocking\<close>

definition lockable :: "blaze \<Rightarrow> UtxoInfoWithSize list \<Rightarrow> bool" where
  "lockable s xs \<longleftrightarrow> distinct (map us_hash xs) \<and> (\<forall>x\<in>set xs. utxo_status s (us_hash x) = Some Available)"

lemma lock_utxos_keeps:
  assumes inv: "blaze_inv s" and g: "lockable s xs" and d: "lock_utxos i xs s = Done u s'"
  shows "blaze_inv s'"
proof -
  note I = blaze_invD [OF inv]
  let ?t = "\<lparr>bt_inputs = xs, bt_voters = []\<rparr>"
  from d obtain s1 where s1: "set_statuses Locked xs s = Done () s1"
    and s': "s' = s1\<lparr>PendingTxs := bt_insert i ?t (PendingTxs s1)\<rparr>" by (auto simp: lock_utxos_def guard_Done)
  note S = set_statuses_effect [OF s1]
  obtain us where us: "s1 = s\<lparr>Utxos := us\<rparr>" using S(1) by auto
  have st: "utxo_status s' h = (if h \<in> spends ?t then Some Locked else utxo_status s h)" for h
    using S(2) by (simp add: s')
  have "txs_ok Locked (PendingTxs s') (utxo_status s')" if "IsActivated s"
    unfolding s' by (simp add: us, rule txs_ok_insert [OF pending_okD [OF I(4) that]])
      (use g S(2) in \<open>auto simp: lockable_def us\<close>)
  moreover have "txs_ok Used (ConfirmedTxs s) (utxo_status s')"
    by (rule txs_ok_cong [OF I(3)]) (use g in \<open>auto simp: st lockable_def\<close>)
  moreover have "utxos_ok s1" "counts_ok s1"
    using S(3) S(4) I(1,2) g by (auto simp: lockable_def)
  ultimately show ?thesis
    using I(4,5) by (auto simp: blaze_inv_def pending_ok_def rates_ok_def utxos_ok_def counts_ok_def s' us)
qed

lemma unlock_utxos_keeps:
  assumes inv: "blaze_inv s" and g: "IsActivated s" and d: "unlock_utxos i s = Done u s'"
  shows "blaze_inv s'"
proof -
  note I = blaze_invD [OF inv]
  let ?s = "s\<lparr>PendingTxs := bt_remove i (PendingTxs s)\<rparr>"
  from d obtain t where t: "bt_get (PendingTxs s) i = Some t"
    and s': "set_statuses Available (bt_inputs t) ?s = Done () s'" by (auto simp: unlock_utxos_def guard_Done)
  note S = set_statuses_effect [OF s'] and P = pending_okD [OF I(4) g]
  obtain us where us: "s' = ?s\<lparr>Utxos := us\<rparr>" using S(1) by auto
  have st: "utxo_status s' h = (if h \<in> spends t then Some Available else utxo_status s h)" for h
    using S(2) by (simp add: spends_def)
  have L: "\<forall>h\<in>spends t. utxo_status s h = Some Locked" using txs_okD(4) [OF P t] by blast
  have "txs_ok Locked (PendingTxs s') (utxo_status s')"
    by (simp add: us, rule txs_ok_take [OF P t]) (use st in \<open>simp add: us\<close>)
  moreover have "txs_ok Used (ConfirmedTxs s) (utxo_status s')"
    by (rule txs_ok_cong [OF I(3)]) (use L in \<open>auto simp: st\<close>)
  moreover have "utxos_ok s'" "counts_ok s'"
    using S(3) S(4) I(1,2) L by (auto simp: spends_def utxos_ok_def counts_ok_def)
  ultimately show ?thesis
    using I(4,5) g by (auto simp: blaze_inv_def pending_ok_def rates_ok_def us txs_ok_def)
qed

subsection \<open>Votes for outputs\<close>

lemma confirm_status:
  assumes "txs_ok st txs f" "f h \<noteq> Some st"
  shows "txs_ok st txs (f(h \<mapsto> x))"
  by (rule txs_ok_cong [OF assms(1)]) (use assms(2) in auto)

lemma submit_utxo_keeps:
  assumes inv: "blaze_inv s" and d: "submit_utxo C E a x s = Done u s'"
  shows "blaze_inv s'"
proof (cases "s' = s")
  case False
  let ?h = "hash_of C x"
  note I = blaze_invD [OF inv]
  have w: "bt_wf (Utxos s)" using I(1) by (simp add: utxos_ok_def)
  show ?thesis
  proof (cases "bt_get (Utxos s) ?h")
    case None
    then obtain dsc vb where n: "UnconfirmedUtxoCount s a < MAX_UNCONFIRMED_UTXOS_PER_RELAYER"
      and s1: "s' = b_deposit (UtxoSubmitted a ?h Unconfirmed)
         ((put_utxo ?h \<lparr>ut_inner = sized C x dsc vb, ut_status = Unconfirmed, ut_voters = [a]\<rparr> s)
            \<lparr>UnconfirmedUtxoCount := (UnconfirmedUtxoCount s)(a := add32 (UnconfirmedUtxoCount s a) 1)\<rparr>)"
      using d False by (auto simp: submit_utxo_def Let_def guard_Done not_le split: option.splits if_splits)
    define v where "v = \<lparr>ut_inner = sized C x dsc vb, ut_status = Unconfirmed, ut_voters = [a]\<rparr>"
    then have v: "ut_status v = Unconfirmed" "ut_voters v = [a]" "us_hash (ut_inner v) = ?h" by (simp_all add: sized_def)
    note s' = s1 [folded v_def]
    have ok: "utxos_ok (put_utxo ?h v s)"
      by (rule utxos_ok_put [OF I(1)]) (simp add: utxo_ok_def v MAX_AUTHORITIES_def)
    have st: "utxo_status s ?h = None" using None by (simp add: utxo_status_def)
    show ?thesis
      using ok counts_ok_new [OF I(2) None n v(1,2)] confirm_status [OF I(3)] confirm_status [OF pending_okD [OF I(4)]] I(4,5)
      by (simp add: s' st blaze_inv_def pending_ok_def utxos_ok_def rates_ok_def)
  next
    case (Some v)
    let ?app = "b_majority E \<le> as_u32 (length (ut_voters v @ [a]))"
    let ?v = "v\<lparr>ut_voters := ut_voters v @ [a], ut_status := if ?app then Available else Unconfirmed\<rparr>"
    from Some d False have v: "ut_status v = Unconfirmed" "a \<notin> set (ut_voters v)" "length (ut_voters v) < MAX_AUTHORITIES"
      and s': "s' = b_deposit (UtxoSubmitted a ?h (ut_status ?v)) (put_utxo ?h ?v
         (if ?app then s\<lparr>UnconfirmedUtxoCount := release_count (ut_voters v @ [a]) (UnconfirmedUtxoCount s)\<rparr> else s))"
      by (auto simp: submit_utxo_def Let_def guard_Done try_push_def split: option.splits if_splits)
    have vo: "utxo_ok ?h v" using I(1) Some by (simp add: utxos_ok_def)
    then obtain b vs where b: "ut_voters v = b # vs" using v(1) by (cases "ut_voters v") (auto simp: utxo_ok_def)
    have "utxo_ok ?h ?v" using vo v by (auto simp: utxo_ok_def)
    then have ok: "utxos_ok (put_utxo ?h ?v s)" by (rule utxos_ok_put [OF I(1)])
    have st: "utxo_status s ?h = Some Unconfirmed" using Some v(1) by (simp add: utxo_status_def)
    have c: "counts_ok s'"
    proof (cases ?app)
      case True
      with counts_ok_confirm [OF I(2) w Some v(1) b, of ?v "vs @ [a]"] show ?thesis
        by (simp add: s' b counts_ok_def)
    next
      case False
      with counts_ok_same [OF I(2) w Some, of ?v] v(1) b show ?thesis
        by (simp add: s' counts_ok_def first_voter_def)
    qed
    show ?thesis
      using ok c confirm_status [OF I(3)] confirm_status [OF pending_okD [OF I(4)]] I(4,5)
      by (auto simp: s' st blaze_inv_def pending_ok_def utxos_ok_def rates_ok_def)
  qed
qed (use inv in simp)

lemma for_each_rule:
  assumes "for_each f xs s = Done u s'" "I s" "\<And>x s u s'. x \<in> set xs \<Longrightarrow> I s \<Longrightarrow> f x s = Done u s' \<Longrightarrow> I s'"
  shows "I s'"
  using assms by (induction xs arbitrary: s) (auto simp: guard_Done)

lemma force_push_utxo_keeps:
  assumes inv: "blaze_inv s" and d: "force_push_utxo C E x s = Done u s'"
  shows "blaze_inv s'"
proof (cases "s' = s")
  case False
  let ?h = "hash_of C x"
  note I = blaze_invD [OF inv]
  from d False obtain dsc vb where n: "bt_get (Utxos s) ?h = None"
    and s1: "s' = b_deposit (UtxoForcePushed ?h)
      (put_utxo ?h \<lparr>ut_inner = sized C x dsc vb, ut_status = Available, ut_voters = []\<rparr> s)"
    by (auto simp: force_push_utxo_def bt_contains_def Let_def guard_Done split: option.splits if_splits)
  define v where "v = \<lparr>ut_inner = sized C x dsc vb, ut_status = Available, ut_voters = []\<rparr>"
  then have v: "ut_status v = Available" "ut_voters v = []" "us_hash (ut_inner v) = ?h" by (simp_all add: sized_def)
  note s' = s1 [folded v_def]
  have ok: "utxos_ok (put_utxo ?h v s)" by (rule utxos_ok_put [OF I(1)]) (simp add: utxo_ok_def v)
  have st: "utxo_status s ?h = None" using n by (simp add: utxo_status_def)
  show ?thesis
    using ok counts_ok_insert_confirmed [OF I(2) n] confirm_status [OF I(3)] confirm_status [OF pending_okD [OF I(4)]] I(4,5)
    by (simp add: s' st v blaze_inv_def pending_ok_def rates_ok_def)
qed (use inv in simp)

subsection \<open>Broadcast\<close>

lemma broadcast_poll_Done:
  assumes "broadcast_poll E og sub s = Done u s'"
  obtains t where "og = NoOrigin" "IsActivated s" "bt_get (ConfirmedTxs s) (bc_txid sub) = None"
    "bt_get (PendingTxs s) (bc_txid sub) = Some t" "bc_authority_id sub \<notin> set (bt_voters t)"
    "length (bt_voters t) < MAX_AUTHORITIES"
    "if b_majority E \<le> as_u32 (Suc (length (bt_voters t))) then
       \<exists>s1. set_statuses Used (bt_inputs t)
           (s\<lparr>ConfirmedTxs := bt_insert (bc_txid sub) (t\<lparr>bt_voters := bt_voters t @ [bc_authority_id sub]\<rparr>) (ConfirmedTxs s),
              PendingTxs := bt_remove (bc_txid sub) (PendingTxs s)\<rparr>) = Done () s1 \<and>
         s' = b_deposit (BroadcastPolled (bc_authority_id sub) (bc_txid sub) True) s1
     else s' = b_deposit (BroadcastPolled (bc_authority_id sub) (bc_txid sub) False)
       (s\<lparr>PendingTxs := bt_insert (bc_txid sub) (t\<lparr>bt_voters := bt_voters t @ [bc_authority_id sub]\<rparr>) (PendingTxs s)\<rparr>)"
proof -
  from assms show thesis
    unfolding broadcast_poll_def Let_def
    by (auto simp: blaze_Done bt_contains_def try_push_def split: if_splits intro: that)
qed

lemma broadcast_poll_keeps:
  assumes inv: "blaze_inv s" and d: "broadcast_poll E og sub s = Done u s'"
  shows "blaze_inv s'"
proof -
  note I = blaze_invD [OF inv]
  let ?a = "bc_authority_id sub" and ?i = "bc_txid sub"
  from d obtain t where act: "IsActivated s" and c: "bt_get (ConfirmedTxs s) ?i = None" and t: "bt_get (PendingTxs s) ?i = Some t"
    and a: "?a \<notin> set (bt_voters t)" "length (bt_voters t) < MAX_AUTHORITIES"
    and s': "if b_majority E \<le> as_u32 (Suc (length (bt_voters t))) then
       \<exists>s1. set_statuses Used (bt_inputs t)
           (s\<lparr>ConfirmedTxs := bt_insert ?i (t\<lparr>bt_voters := bt_voters t @ [?a]\<rparr>) (ConfirmedTxs s),
              PendingTxs := bt_remove ?i (PendingTxs s)\<rparr>) = Done () s1 \<and> s' = b_deposit (BroadcastPolled ?a ?i True) s1
     else s' = b_deposit (BroadcastPolled ?a ?i False)
       (s\<lparr>PendingTxs := bt_insert ?i (t\<lparr>bt_voters := bt_voters t @ [?a]\<rparr>) (PendingTxs s)\<rparr>)"
    by (rule broadcast_poll_Done)
  let ?t = "t\<lparr>bt_voters := bt_voters t @ [?a]\<rparr>"
  note P = pending_okD [OF I(4) act]
  have v: "distinct (bt_voters ?t)" "length (bt_voters ?t) \<le> MAX_AUTHORITIES"
    using a txs_okD(1) [OF P t] by auto
  show ?thesis
  proof (cases "b_majority E \<le> as_u32 (Suc (length (bt_voters t)))")
    case False
    with s' have s': "s' = b_deposit (BroadcastPolled ?a ?i False) (s\<lparr>PendingTxs := bt_insert ?i ?t (PendingTxs s)\<rparr>)"
      by simp
    show ?thesis
      using I txs_ok_vote [OF P t _ v] v
      by (simp add: s' blaze_inv_def pending_ok_def utxos_ok_def counts_ok_def rates_ok_def)
  next
    case True
    let ?s = "s\<lparr>ConfirmedTxs := bt_insert ?i ?t (ConfirmedTxs s), PendingTxs := bt_remove ?i (PendingTxs s)\<rparr>"
    from True s' obtain s1 where s1: "set_statuses Used (bt_inputs t) ?s = Done () s1"
      and s': "s' = b_deposit (BroadcastPolled ?a ?i True) s1" by auto
    note S = set_statuses_effect [OF s1]
    obtain us where us: "s1 = ?s\<lparr>Utxos := us\<rparr>" using S(1) by auto
    have st: "utxo_status s1 h = (if h \<in> spends ?t then Some Used else utxo_status s h)" for h
      using S(2) by (simp add: spends_def)
    have L: "\<forall>h\<in>spends t. utxo_status s h = Some Locked" using txs_okD(4) [OF P t] by blast
    have "txs_ok Used (bt_insert ?i ?t (ConfirmedTxs s)) (utxo_status s1)"
      by (rule txs_ok_insert [OF I(3)]) (use st v txs_okD(3) [OF P t] L in auto)
    moreover have "txs_ok Locked (bt_remove ?i (PendingTxs s)) (utxo_status s1)"
      by (rule txs_ok_take [OF P t]) (simp add: st)
    moreover have "utxos_ok s1" "counts_ok s1"
      using S(3) S(4) I(1,2) L by (auto simp: spends_def utxos_ok_def counts_ok_def)
    ultimately show ?thesis
      using I(4,5) act by (auto simp: s' us blaze_inv_def pending_ok_def rates_ok_def txs_ok_def)
  qed
qed

end
