(* ===== verification/Blaze_Run.thy ===== *)
theory Blaze_Run
  imports Blaze_Keep
begin

text \<open>
  Runs of the Blaze pallet: its calls and the functions other pallets call, as steps of a machine
  whose every step keeps the invariant, moves each output along its life cycle and does not panic.
\<close>

subsection \<open>Replacing an authority\<close>

lemma bt_map_opt_keys: "bt_map_opt f m = Some m' \<Longrightarrow> map fst m' = map fst m"
  by (induction f m arbitrary: m' rule: bt_map_opt.induct) (auto simp: bind_eq_Some_conv)

lemma bt_map_opt_get: "bt_map_opt f m = Some m' \<Longrightarrow> bt_get m' k = Option.bind (bt_get m k) f"
  by (induction f m arbitrary: m' rule: bt_map_opt.induct) (auto simp: bind_eq_Some_conv)

lemma bt_map_opt_None: "bt_map_opt f m = None \<Longrightarrow> \<exists>(k, v)\<in>set m. f v = None"
proof (induction f m rule: bt_map_opt.induct)
  case (2 f k v m)
  then show ?case by (cases "f v") auto
qed simp

lemma bt_map_opt_count:
  "bt_map_opt f m = Some m' \<Longrightarrow> (\<And>k v v'. (k, v) \<in> set m \<Longrightarrow> f v = Some v' \<Longrightarrow> P (k, v') = Q (k, v)) \<Longrightarrow>
   bt_count P m' = bt_count Q m"
proof (induction f m arbitrary: m' rule: bt_map_opt.induct)
  case (2 f k v m)
  then obtain v' m1 where "f v = Some v'" "bt_map_opt f m = Some m1" "m' = (k, v') # m1"
    by (auto simp: bind_eq_Some_conv)
  moreover from this have "bt_count P m1 = bt_count Q m" using 2(1) 2(3) by simp
  moreover have "P (k, v') = Q (k, v)" using 2(3) calculation(1) by simp
  ultimately show ?case by (simp add: bt_count_def)
qed (simp add: bt_count_def)

text \<open>
  The new authority has voted for nothing yet, and where the old one voted first it voted alone: the
  code appends the new voter, so another first voter would take over the old one's place.
\<close>

definition replaceable :: "acct \<Rightarrow> acct \<Rightarrow> blaze \<Rightarrow> bool" where
  "replaceable old new s \<longleftrightarrow> old \<noteq> new \<and>
     (\<forall>(h, u)\<in>set (Utxos s). ut_status u = Unconfirmed \<longrightarrow>
        new \<notin> set (ut_voters u) \<and> (hd (ut_voters u) = old \<longrightarrow> ut_voters u = [old])) \<and>
     (\<forall>(i, t)\<in>set (PendingTxs s). new \<notin> set (bt_voters t))"

lemma replace_voter_Some:
  assumes "replace_voter old new vs = Some ws" "distinct vs" "length vs \<le> MAX_AUTHORITIES" "new \<notin> set vs"
  shows "ws = filter (\<lambda>v. v \<noteq> old) vs @ [new] \<and> distinct ws \<and> length ws \<le> MAX_AUTHORITIES"
  using assms by (auto simp: replace_voter_def try_push_def split: if_splits)

lemma replace_voter_total: "old \<in> set vs \<Longrightarrow> length vs \<le> MAX_AUTHORITIES \<Longrightarrow> replace_voter old new vs \<noteq> None"
proof -
  assume "old \<in> set vs" "length vs \<le> MAX_AUTHORITIES"
  then have "length (filter (\<lambda>v. v \<noteq> old) vs) < MAX_AUTHORITIES"
    using length_filter_less [of old vs "\<lambda>v. v \<noteq> old"] by simp
  then show ?thesis by (simp add: replace_voter_def try_push_def)
qed

lemma replace_in_utxo_Some:
  assumes "replace_in_utxo old new u = Some u'" "utxo_ok h u"
    and "ut_status u = Unconfirmed \<Longrightarrow> new \<notin> set (ut_voters u) \<and> (hd (ut_voters u) = old \<longrightarrow> ut_voters u = [old])"
  shows "utxo_ok h u' \<and> ut_status u' = ut_status u \<and>
    first_voter a (h, u') = (if a = new then first_voter old (h, u) else a \<noteq> old \<and> first_voter a (h, u))"
proof (cases "ut_status u = Unconfirmed \<and> old \<in> set (ut_voters u)")
  case True
  with assms(1) obtain ws where ws: "replace_voter old new (ut_voters u) = Some ws" "u' = u\<lparr>ut_voters := ws\<rparr>"
    by (auto simp: replace_in_utxo_def)
  note R = replace_voter_Some [OF ws(1)]
  obtain b vs where b: "ut_voters u = b # vs" using True by (cases "ut_voters u") auto
  from R assms True have w: "ws = filter (\<lambda>v. v \<noteq> old) (b # vs) @ [new] \<and> distinct ws \<and> length ws \<le> MAX_AUTHORITIES"
    by (auto simp: utxo_ok_def b)
  with assms True show ?thesis by (auto simp: utxo_ok_def first_voter_def ws(2) b)
next
  case False
  with assms(1) have "u' = u" by (auto simp: replace_in_utxo_def split: if_splits)
  with False assms(2,3) show ?thesis by (auto simp: first_voter_def)
qed

lemma replace_in_tx_Some:
  assumes "replace_in_tx old new t = Some t'" "distinct (bt_voters t)" "length (bt_voters t) \<le> MAX_AUTHORITIES" "new \<notin> set (bt_voters t)"
  shows "bt_inputs t' = bt_inputs t \<and> distinct (bt_voters t') \<and> length (bt_voters t') \<le> MAX_AUTHORITIES"
  using assms replace_voter_Some by (fastforce simp: replace_in_tx_def split: if_splits)

lemma replace_Done:
  assumes "blaze_replace_authority old new s = Done u s'"
  obtains us txs m where "bt_map_opt (replace_in_utxo old new) (Utxos s) = Some us"
    "bt_map_opt (replace_in_tx old new) (PendingTxs s) = Some txs"
    "m = FeeRates s \<or> (\<exists>v. bt_get (FeeRates s) old = Some v \<and> bt_try_insert new v (bt_remove old (FeeRates s)) = Some m)"
    "s' = s\<lparr>UnconfirmedUtxoCount := move_count old new (UnconfirmedUtxoCount s), Utxos := us, PendingTxs := txs, FeeRates := m\<rparr>"
proof -
  show thesis
  proof (cases "bt_get (FeeRates s) old")
    case None
    with assms obtain us txs where 1: "bt_map_opt (replace_in_utxo old new) (Utxos s) = Some us"
      "bt_map_opt (replace_in_tx old new) (PendingTxs s) = Some txs"
      "s' = s\<lparr>UnconfirmedUtxoCount := move_count old new (UnconfirmedUtxoCount s), Utxos := us, PendingTxs := txs\<rparr>"
      by (auto simp: blaze_replace_authority_def Let_def guard_Done)
    then have "s' = s\<lparr>UnconfirmedUtxoCount := move_count old new (UnconfirmedUtxoCount s), Utxos := us, PendingTxs := txs,
        FeeRates := FeeRates s\<rparr>" by simp
    with 1 show thesis by (intro that) auto
  next
    case (Some v)
    with assms show thesis by (auto simp: blaze_replace_authority_def Let_def guard_Done intro: that)
  qed
qed

lemma move_rates_ok:
  assumes "rates_ok s" "bt_get (FeeRates s) old = Some v" "bt_try_insert new v (bt_remove old (FeeRates s)) = Some m"
  shows "bt_wf m \<and> length m \<le> MAX_AUTHORITIES"
proof -
  have w: "bt_wf (bt_remove old (FeeRates s))" using assms(1) by (simp add: rates_ok_def)
  have "length (bt_remove old (FeeRates s)) < MAX_AUTHORITIES"
    using bt_remove_length_less [OF assms(2)] assms(1) by (simp add: rates_ok_def)
  with bt_try_insert_Some [OF assms(3)] w show ?thesis
    using bt_length_insert [OF w, of new v] by simp
qed

lemma replace_utxos:
  assumes ok: "utxos_ok s" and g: "replaceable old new s"
    and us: "bt_map_opt (replace_in_utxo old new) (Utxos s) = Some us" and s': "Utxos s' = us"
  shows "utxos_ok s'" "utxo_status s' = utxo_status s"
    "bt_count (first_voter a) us = (if a = new then bt_count (first_voter old) (Utxos s)
       else if a = old then 0 else bt_count (first_voter a) (Utxos s))"
proof -
  have w: "bt_wf (Utxos s)" using ok by (simp add: utxos_ok_def)
  have R: "utxo_ok h x' \<and> ut_status x' = ut_status x \<and>
      first_voter a (h, x') = (if a = new then first_voter old (h, x) else a \<noteq> old \<and> first_voter a (h, x))"
    if "(h, x) \<in> set (Utxos s)" "replace_in_utxo old new x = Some x'" for h x x' a
  proof (rule replace_in_utxo_Some [OF that(2)])
    show "utxo_ok h x" using ok that(1) by (simp add: utxos_ok_def bt_wf_get_iff)
  qed (use g that(1) in \<open>auto simp: replaceable_def\<close>)
  have get: "bt_get us h = Some x' \<Longrightarrow> \<exists>x. (h, x) \<in> set (Utxos s) \<and> replace_in_utxo old new x = Some x'" for h x'
    using w by (auto simp: bt_map_opt_get [OF us] bind_eq_Some_conv bt_wf_get_iff)
  have "bt_wf us" using w bt_map_opt_keys [OF us] by simp
  then show "utxos_ok s'" using get R by (fastforce simp: utxos_ok_def s')
  show "utxo_status s' = utxo_status s"
  proof
    fix h
    have k: "bt_get us h = None \<longleftrightarrow> bt_get (Utxos s) h = None"
      using bt_map_opt_keys [OF us] by (metis map_of_eq_None_iff set_map)
    show "utxo_status s' h = utxo_status s h"
    proof (cases "bt_get (Utxos s) h")
      case (Some x)
      with k obtain x' where x': "bt_get us h = Some x'" by auto
      with Some bt_map_opt_get [OF us, of h] have "replace_in_utxo old new x = Some x'" by simp
      with R Some w x' show ?thesis by (simp add: utxo_status_def s' bt_wf_get_iff)
    qed (use k in \<open>simp add: utxo_status_def s'\<close>)
  qed
  have "bt_count (first_voter a) us =
      bt_count (\<lambda>e. if a = new then first_voter old e else a \<noteq> old \<and> first_voter a e) (Utxos s)"
    by (rule bt_map_opt_count [OF us]) (use R in blast)
  then show "bt_count (first_voter a) us = (if a = new then bt_count (first_voter old) (Utxos s)
       else if a = old then 0 else bt_count (first_voter a) (Utxos s))" by (simp add: bt_count_def)
qed

lemma replace_pending:
  assumes P: "pending_ok s" and g: "replaceable old new s"
    and txs: "bt_map_opt (replace_in_tx old new) (PendingTxs s) = Some txs"
    and s': "PendingTxs s' = txs" "utxo_status s' = utxo_status s" "IsActivated s' = IsActivated s"
  shows "pending_ok s'"
proof -
  have T: "\<exists>t. bt_get (PendingTxs s) i = Some t \<and> bt_inputs t' = bt_inputs t \<and> spends t' = spends t \<and>
      distinct (bt_voters t') \<and> length (bt_voters t') \<le> MAX_AUTHORITIES"
    if "bt_get txs i = Some t'" for i t'
  proof -
    from that obtain t where t: "bt_get (PendingTxs s) i = Some t" "replace_in_tx old new t = Some t'"
      by (auto simp: bt_map_opt_get [OF txs] bind_eq_Some_conv)
    have "bt_inputs t' = bt_inputs t \<and> distinct (bt_voters t') \<and> length (bt_voters t') \<le> MAX_AUTHORITIES"
      by (rule replace_in_tx_Some [OF t(2)])
        (use P g t(1) map_of_SomeD [OF t(1)] in \<open>auto simp: pending_ok_def replaceable_def\<close>)
    with t(1) show ?thesis by (auto simp: spends_def)
  qed
  have "txs_ok Locked txs (utxo_status s)" if L: "txs_ok Locked (PendingTxs s) (utxo_status s)"
  proof -
    have D: "spends t1 \<inter> spends t2 = {}" if "bt_get (PendingTxs s) i = Some t1" "bt_get (PendingTxs s) j = Some t2" "i \<noteq> j" for i j t1 t2
      using L that by (simp add: txs_ok_def)
    have "spends t1 \<inter> spends t2 = {}" if "bt_get txs i = Some t1" "bt_get txs j = Some t2" "i \<noteq> j" for i j t1 t2
      using T [OF that(1)] T [OF that(2)] D [OF _ _ that(3)] by metis
    moreover have "distinct (map us_hash (bt_inputs t')) \<and> (\<forall>h\<in>spends t'. utxo_status s h = Some Locked)"
      if "bt_get txs i = Some t'" for i t'
      using T [OF that] txs_okD(3,4) [OF L] by auto
    ultimately show ?thesis using T unfolding txs_ok_def by blast
  qed
  moreover have "bt_wf txs" using P bt_map_opt_keys [OF txs] by (simp add: pending_ok_def)
  ultimately show ?thesis using P T by (auto simp: pending_ok_def s')
qed

lemma blaze_replace_keeps:
  assumes inv: "blaze_inv s" and g: "replaceable old new s" and d: "blaze_replace_authority old new s = Done u s'"
  shows "blaze_inv s' \<and> utxo_status s' = utxo_status s"
proof -
  note I = blaze_invD [OF inv]
  from d obtain us txs m where us: "bt_map_opt (replace_in_utxo old new) (Utxos s) = Some us"
    and txs: "bt_map_opt (replace_in_tx old new) (PendingTxs s) = Some txs"
    and m: "m = FeeRates s \<or> (\<exists>v. bt_get (FeeRates s) old = Some v \<and> bt_try_insert new v (bt_remove old (FeeRates s)) = Some m)"
    and s': "s' = s\<lparr>UnconfirmedUtxoCount := move_count old new (UnconfirmedUtxoCount s), Utxos := us, PendingTxs := txs, FeeRates := m\<rparr>"
    by (rule replace_Done)
  have "Utxos s' = us" by (simp add: s')
  note U = replace_utxos [OF I(1) g us this]
  have "bt_count (first_voter new) (Utxos s) = 0"
    using g by (auto simp: bt_count_def replaceable_def first_voter_def filter_empty_conv)
  then have "counts_ok s'"
    using I(2) U(3) g by (auto simp: counts_ok_def s' move_count_def replaceable_def)
  moreover have "pending_ok s'" by (rule replace_pending [OF I(4) g txs]) (simp_all add: U(2), simp_all add: s')
  moreover have "rates_ok s'" using I(5) m move_rates_ok [OF I(5)] by (auto simp: rates_ok_def s')
  moreover have "ConfirmedTxs s' = ConfirmedTxs s" by (simp add: s')
  ultimately show ?thesis using U(1,2) I(3) by (simp add: blaze_inv_def)
qed

end
