(* ===== verification/Blaze_Machine.thy ===== *)
theory Blaze_Machine
  imports Blaze_Run
begin

text \<open>
  The steps of the Blaze pallet, its reachable states, and the life cycle of an output as an abstract
  machine that every step refines.
\<close>

definition blaze_default :: blaze where
  "blaze_default = \<lparr>IsActivated = False, ToleranceCounter = 0, Utxos = [], UnconfirmedUtxoCount = (\<lambda>_. 0), PendingTxs = [],
     ConfirmedTxs = [], OutboundPool = [], FeeRates = [], BEvents = []\<rparr>"

datatype blaze_op =
    BCall BEnv origin blaze_call
  | BReplaceAuthority acct acct
  | BClearUtxos
  | BLock H256 "UtxoInfoWithSize list"
  | BUnlock H256
  | BFinalizeFeeRate BEnv block_number
  | BClearFeeRates
  | BClearOutbound "bytes list"
  | BTolerance bool

definition blaze_exec :: "BConfig \<Rightarrow> blaze_op \<Rightarrow> blaze \<Rightarrow> blaze option" where
  "blaze_exec C x s =
     (case x of
        BCall E og c \<Rightarrow> settle s (blaze_call_run C E og c s)
      | BReplaceAuthority old new \<Rightarrow> settle s (blaze_replace_authority old new s)
      | BClearUtxos \<Rightarrow> Some (clear_utxos s)
      | BLock i xs \<Rightarrow> settle s (lock_utxos i xs s)
      | BUnlock i \<Rightarrow> settle s (unlock_utxos i s)
      | BFinalizeFeeRate E n \<Rightarrow> settle s (try_fee_rate_finalization E n s)
      | BClearFeeRates \<Rightarrow> Some (clear_fee_rates s)
      | BClearOutbound ms \<Rightarrow> Some (clear_outbound_pool ms s)
      | BTolerance b \<Rightarrow> Some (handle_tolerance_counter C b s))"

text \<open>What the callers of the interface establish, and that a majority is at least one.\<close>

definition blaze_guard :: "blaze_op \<Rightarrow> blaze \<Rightarrow> bool" where
  "blaze_guard x s =
     (case x of
        BReplaceAuthority old new \<Rightarrow> replaceable old new s
      | BClearUtxos \<Rightarrow> IsActivated s \<longrightarrow> PendingTxs s = []
      | BLock i xs \<Rightarrow> lockable s xs
      | BUnlock i \<Rightarrow> IsActivated s
      | BFinalizeFeeRate E n \<Rightarrow> 0 < b_majority E
      | _ \<Rightarrow> True)"

inductive blaze_reachable :: "BConfig \<Rightarrow> blaze \<Rightarrow> bool" for C where
  blaze_start: "blaze_reachable C blaze_default"
| blaze_move: "blaze_reachable C s \<Longrightarrow> blaze_guard x s \<Longrightarrow> blaze_exec C x s = Some s' \<Longrightarrow> blaze_reachable C s'"

subsection \<open>The invariant\<close>

lemma blaze_inv_default: "blaze_inv blaze_default"
  by (simp add: blaze_inv_def blaze_default_def utxos_ok_def counts_ok_def bt_count_def pending_ok_def rates_ok_def)

lemma rates_change:
  "blaze_inv s \<Longrightarrow> bt_wf m \<Longrightarrow> length m \<le> MAX_AUTHORITIES \<Longrightarrow> blaze_inv (s\<lparr>FeeRates := m\<rparr>)"
  by (simp add: blaze_inv_def utxos_ok_def counts_ok_def pending_ok_def rates_ok_def)

lemma pool_change: "blaze_inv (s\<lparr>OutboundPool := p\<rparr>) = blaze_inv s"
  by (simp add: blaze_inv_def utxos_ok_def counts_ok_def pending_ok_def rates_ok_def)

lemma tolerance_keeps: "blaze_inv s \<Longrightarrow> blaze_inv (handle_tolerance_counter C b s)"
  by (simp add: handle_tolerance_counter_def Let_def blaze_inv_def utxos_ok_def counts_ok_def pending_ok_def rates_ok_def)

lemma finalize_Done:
  "try_fee_rate_finalization E n s = Done r s' \<Longrightarrow> s' = s\<lparr>FeeRates := filter (\<lambda>(_, _, _, expires_at). n \<le> expires_at) (FeeRates s)\<rparr>"
  by (auto simp: try_fee_rate_finalization_def Let_def guard_Done split: if_splits)

lemma finalize_keeps:
  assumes inv: "blaze_inv s" and d: "try_fee_rate_finalization E n s = Done r s'"
  shows "blaze_inv s'"
proof -
  let ?m = "filter (\<lambda>(_, _, _, expires_at). n \<le> expires_at) (FeeRates s)"
  have "bt_wf ?m" using blaze_invD(5) [OF inv] by (simp add: rates_ok_def bt_wf_filter)
  moreover have "length ?m \<le> MAX_AUTHORITIES"
    using blaze_invD(5) [OF inv] length_filter_le unfolding rates_ok_def by (rule order_trans [rotated, OF conjunct2])
  ultimately show ?thesis using rates_change [OF inv] finalize_Done [OF d] by simp
qed

lemma set_activation_keeps: "blaze_inv s \<Longrightarrow> set_activation og b s = Done u s' \<Longrightarrow> blaze_inv s'"
  by (auto simp: set_activation_def Let_def guard_Done blaze_inv_def utxos_ok_def counts_ok_def pending_ok_def rates_ok_def)

lemma submit_utxos_keeps: "blaze_inv s \<Longrightarrow> submit_utxos C E og sub s = Done u s' \<Longrightarrow> blaze_inv s'"
  by (auto simp: submit_utxos_def blaze_Done intro: for_each_rule [where I = blaze_inv] submit_utxo_keeps)

lemma force_push_keeps:
  assumes inv: "blaze_inv s" and d: "force_push_utxos C E og xs s = Done u s'"
  shows "blaze_inv s'"
proof -
  from d have a: "\<not> IsActivated s" and f: "for_each (force_push_utxo C E) xs (clear_utxos s) = Done u s'"
    by (auto simp: force_push_utxos_def blaze_Done)
  have "blaze_inv (clear_utxos s)" using a by (intro clear_utxos_keeps [OF inv]) simp
  then show ?thesis by (rule for_each_rule [OF f]) (rule force_push_utxo_keeps)
qed

lemma fee_rate_keeps:
  assumes inv: "blaze_inv s" and d: "submit_fee_rate C E og sub s = Done u s'"
  shows "blaze_inv s'"
proof -
  note R = blaze_invD(5) [OF inv]
  from d obtain v m where m: "bt_try_insert (fr_authority_id sub) v (FeeRates s) = Some m"
    and s': "s' = b_deposit (FeeRateSubmitted (fr_authority_id sub) (fr_lt_fee_rate sub) (fr_fee_rate sub)) (s\<lparr>FeeRates := m\<rparr>)"
    by (auto simp: submit_fee_rate_def Let_def blaze_Done)
  have "bt_wf m" using bt_try_insert_Some [OF m] R by (simp add: rates_ok_def)
  moreover have "length m \<le> MAX_AUTHORITIES"
    using m R by (auto simp: bt_try_insert_def rates_ok_def bt_length_insert bt_contains_def split: if_splits)
  ultimately show ?thesis using rates_change [OF inv] by (simp add: s')
qed

lemma submit_messages_frame: "submit_messages C E a ms pool seqs s = Done p s' \<Longrightarrow> \<exists>es. s' = s\<lparr>BEvents := es\<rparr>"
proof (induction C E a ms pool seqs s rule: submit_messages.induct)
  case (1 C E a pool seqs s)
  then show ?case by (auto intro!: exI [of _ "BEvents s"])
next
  case (2 C E a m ms pool seqs s)
  then show ?case by (auto simp: b_deposit_def split: if_splits parse.splits)
qed

lemma events_change [simp]: "blaze_inv (s\<lparr>BEvents := es\<rparr>) = blaze_inv s"
  by (simp add: blaze_inv_def utxos_ok_def counts_ok_def pending_ok_def rates_ok_def utxo_status_def txs_ok_def)

lemma outbound_keeps: "blaze_inv s \<Longrightarrow> submit_outbound_requests C E og sub s = Done u s' \<Longrightarrow> blaze_inv s'"
  by (auto simp: submit_outbound_requests_def guard_Done pool_change dest!: submit_messages_frame)

lemma blaze_call_keeps:
  assumes "blaze_inv s" "blaze_call_run C E og c s = Done u s'"
  shows "blaze_inv s'"
proof (cases c)
  case (RemoveOutboundMessages sub sig)
  with assms show ?thesis
    by (auto simp: blaze_call_run_def remove_outbound_messages_def blaze_Done clear_outbound_pool_def pool_change)
next
  case (SetActivation b)
  with assms show ?thesis using set_activation_keeps [OF assms(1)] by (simp add: blaze_call_run_def)
next
  case (SubmitUtxos sub sig)
  with assms show ?thesis using submit_utxos_keeps [OF assms(1)] by (simp add: blaze_call_run_def)
next
  case (BroadcastPoll sub sig)
  with assms show ?thesis using broadcast_poll_keeps [OF assms(1)] by (simp add: blaze_call_run_def)
next
  case (SubmitFeeRate sub sig)
  with assms show ?thesis using fee_rate_keeps [OF assms(1)] by (simp add: blaze_call_run_def)
next
  case (SubmitOutboundRequests sub sig)
  with assms show ?thesis using outbound_keeps [OF assms(1)] by (simp add: blaze_call_run_def)
next
  case (ForcePushUtxos xs)
  with assms show ?thesis using force_push_keeps [OF assms(1)] by (simp add: blaze_call_run_def)
qed

lemma blaze_exec_keeps:
  assumes "blaze_inv s" "blaze_guard x s" "blaze_exec C x s = Some s'"
  shows "blaze_inv s'"
proof (cases x)
  case (BCall E og c)
  with assms blaze_call_keeps show ?thesis by (auto simp: blaze_exec_def settle_Some)
next
  case (BReplaceAuthority old new)
  with assms blaze_replace_keeps show ?thesis by (auto simp: blaze_exec_def settle_Some blaze_guard_def)
next
  case BClearUtxos
  with assms clear_utxos_keeps show ?thesis by (auto simp: blaze_exec_def blaze_guard_def)
next
  case (BLock i xs)
  with assms lock_utxos_keeps show ?thesis by (auto simp: blaze_exec_def settle_Some blaze_guard_def)
next
  case (BUnlock i)
  with assms unlock_utxos_keeps show ?thesis by (auto simp: blaze_exec_def settle_Some blaze_guard_def)
next
  case (BFinalizeFeeRate E n)
  with assms finalize_keeps show ?thesis by (auto simp: blaze_exec_def settle_Some)
qed (use assms in \<open>auto simp: blaze_exec_def clear_fee_rates_def clear_outbound_pool_def pool_change tolerance_keeps rates_change\<close>)

lemma blaze_reachable_inv: "blaze_reachable C s \<Longrightarrow> blaze_inv s"
  by (induction rule: blaze_reachable.induct) (auto intro: blaze_inv_default blaze_exec_keeps)

subsection \<open>The life cycle of an output\<close>

inductive utxo_step :: "UtxoStatus option \<Rightarrow> UtxoStatus option \<Rightarrow> bool" where
  submitted: "utxo_step None (Some Unconfirmed)"
| pushed: "utxo_step None (Some Available)"
| confirmed: "utxo_step (Some Unconfirmed) (Some Available)"
| locked: "utxo_step (Some Available) (Some Locked)"
| unlocked: "utxo_step (Some Locked) (Some Available)"
| spent: "utxo_step (Some Locked) (Some Used)"
| cleared: "st \<noteq> Used \<Longrightarrow> utxo_step (Some st) None"

inductive_cases utxo_step_UsedE: "utxo_step (Some Used) x"

definition utxo_moves :: "blaze \<Rightarrow> blaze \<Rightarrow> bool" where
  "utxo_moves s s' \<longleftrightarrow> (\<forall>h. utxo_step\<^sup>*\<^sup>* (utxo_status s h) (utxo_status s' h))"

text \<open>A used output stays used.\<close>

lemma used_final: "utxo_step\<^sup>*\<^sup>* (Some Used) x \<Longrightarrow> x = Some Used"
  by (induction rule: rtranclp_induct) (auto elim: utxo_step_UsedE)

lemma utxo_moves_refl: "utxo_status s' = utxo_status s \<Longrightarrow> utxo_moves s s'"
  by (simp add: utxo_moves_def)

lemma utxo_moves_trans: "utxo_moves s s' \<Longrightarrow> utxo_moves s' s'' \<Longrightarrow> utxo_moves s s''"
  unfolding utxo_moves_def by (meson rtranclp_trans)

lemma utxo_moves_single:
  "(\<And>h. utxo_status s' h = utxo_status s h \<or> utxo_step (utxo_status s h) (utxo_status s' h)) \<Longrightarrow> utxo_moves s s'"
  unfolding utxo_moves_def by (metis r_into_rtranclp rtranclp.rtrancl_refl)

lemma clear_moves: "utxos_ok s \<Longrightarrow> utxo_moves s (clear_utxos s)"
proof (rule utxo_moves_single)
  fix h assume "utxos_ok s"
  then show "utxo_status (clear_utxos s) h = utxo_status s h \<or> utxo_step (utxo_status s h) (utxo_status (clear_utxos s) h)"
    by (cases "utxo_status s h") (auto simp: status_clear intro: cleared)
qed

lemma statuses_moves:
  assumes "set_statuses st xs s = Done u s'" "\<And>x. x \<in> set xs \<Longrightarrow> utxo_step (utxo_status s (us_hash x)) (Some st)"
  shows "utxo_moves s s'"
  by (rule utxo_moves_single) (use set_statuses_effect(2) [OF assms(1)] assms(2) in auto)

text \<open>An output enters or is confirmed; nothing else changes.\<close>

lemma submit_utxo_status:
  assumes "submit_utxo C E a x s = Done u s'"
  shows "utxo_status s' = utxo_status s \<or>
    utxo_status s (hash_of C x) = None \<and> utxo_status s' = (utxo_status s)(hash_of C x \<mapsto> Unconfirmed) \<or>
    utxo_status s (hash_of C x) = Some Unconfirmed \<and>
      (utxo_status s' = (utxo_status s)(hash_of C x \<mapsto> Unconfirmed) \<or> utxo_status s' = (utxo_status s)(hash_of C x \<mapsto> Available))"
proof (cases "bt_get (Utxos s) (hash_of C x)")
  case None
  then have "utxo_status s (hash_of C x) = None" by (simp add: utxo_status_def)
  with None assms show ?thesis
    by (auto simp: submit_utxo_def Let_def guard_Done split: option.splits if_splits)
next
  case (Some v)
  then have v: "utxo_status s (hash_of C x) = Some (ut_status v)" by (simp add: utxo_status_def)
  with Some assms show ?thesis
    by (auto simp: submit_utxo_def Let_def guard_Done split: option.splits if_splits)
qed

lemma submit_utxo_moves:
  assumes "submit_utxo C E a x s = Done u s'"
  shows "utxo_moves s s'"
  by (rule utxo_moves_single) (use submit_utxo_status [OF assms] submitted confirmed in auto)

lemma force_push_utxo_moves:
  assumes "force_push_utxo C E x s = Done u s'"
  shows "utxo_moves s s'"
proof -
  from assms have "utxo_status s' = utxo_status s \<or>
      bt_get (Utxos s) (hash_of C x) = None \<and> utxo_status s' = (utxo_status s)(hash_of C x \<mapsto> Available)"
    by (auto simp: force_push_utxo_def Let_def guard_Done bt_contains_def split: option.splits if_splits)
  then have "utxo_status s' = utxo_status s \<or>
      utxo_status s (hash_of C x) = None \<and> utxo_status s' = (utxo_status s)(hash_of C x \<mapsto> Available)"
    by (auto simp: utxo_status_def)
  with pushed show ?thesis by (intro utxo_moves_single) auto
qed

lemma for_each_moves:
  assumes "for_each f xs s = Done u s'" "\<And>x s u s'. f x s = Done u s' \<Longrightarrow> utxo_moves s s'"
  shows "utxo_moves s s'"
  by (rule for_each_rule [where I = "utxo_moves s", OF assms(1)]) (auto simp: utxo_moves_refl intro: utxo_moves_trans assms(2))

lemma broadcast_moves:
  assumes inv: "blaze_inv s" and d: "broadcast_poll E og sub s = Done u s'"
  shows "utxo_moves s s'"
proof -
  let ?a = "bc_authority_id sub" and ?i = "bc_txid sub"
  from d obtain t where act: "IsActivated s" and t: "bt_get (PendingTxs s) ?i = Some t"
    and s': "if b_majority E \<le> as_u32 (Suc (length (bt_voters t))) then
       \<exists>s1. set_statuses Used (bt_inputs t)
           (s\<lparr>ConfirmedTxs := bt_insert ?i (t\<lparr>bt_voters := bt_voters t @ [?a]\<rparr>) (ConfirmedTxs s),
              PendingTxs := bt_remove ?i (PendingTxs s)\<rparr>) = Done () s1 \<and> s' = b_deposit (BroadcastPolled ?a ?i True) s1
     else s' = b_deposit (BroadcastPolled ?a ?i False)
       (s\<lparr>PendingTxs := bt_insert ?i (t\<lparr>bt_voters := bt_voters t @ [?a]\<rparr>) (PendingTxs s)\<rparr>)"
    by (rule broadcast_poll_Done)
  have L: "utxo_status s (us_hash x) = Some Locked" if "x \<in> set (bt_inputs t)" for x
    using txs_okD(4) [OF pending_okD [OF blaze_invD(4) [OF inv] act] t] that by (auto simp: spends_def)
  show ?thesis
  proof (rule utxo_moves_single)
    fix h
    show "utxo_status s' h = utxo_status s h \<or> utxo_step (utxo_status s h) (utxo_status s' h)"
      using s' L spent by (auto simp: set_statuses_effect(2) split: if_splits)
  qed
qed

lemma blaze_call_moves:
  assumes inv: "blaze_inv s" and d: "blaze_call_run C E og c s = Done u s'"
  shows "utxo_moves s s'"
proof (cases c)
  case (SubmitUtxos sub sig)
  with d have "for_each (submit_utxo C E (sb_authority_id sub)) (sb_utxos sub) s = Done () s'"
    by (auto simp: blaze_call_run_def submit_utxos_def blaze_Done)
  then show ?thesis by (rule for_each_moves) (rule submit_utxo_moves)
next
  case (ForcePushUtxos xs)
  with d have "for_each (force_push_utxo C E) xs (clear_utxos s) = Done () s'"
    by (auto simp: blaze_call_run_def force_push_utxos_def blaze_Done)
  then have "utxo_moves (clear_utxos s) s'" by (rule for_each_moves) (rule force_push_utxo_moves)
  then show ?thesis by (rule utxo_moves_trans [OF clear_moves [OF blaze_invD(1) [OF inv]]])
next
  case (SubmitOutboundRequests sub sig)
  with d show ?thesis
    by (auto simp: blaze_call_run_def submit_outbound_requests_def guard_Done utxo_status_def fun_eq_iff
        intro!: utxo_moves_refl dest!: submit_messages_frame)
qed (use d broadcast_moves [OF inv] in \<open>auto simp: blaze_call_run_def set_activation_def submit_fee_rate_def
      remove_outbound_messages_def clear_outbound_pool_def Let_def blaze_Done intro!: utxo_moves_refl\<close>)

lemma blaze_exec_moves:
  assumes inv: "blaze_inv s" and g: "blaze_guard x s" and x: "blaze_exec C x s = Some s'"
  shows "utxo_moves s s'"
proof (cases x)
  case (BCall E og c)
  with x blaze_call_moves [OF inv] show ?thesis by (auto simp: blaze_exec_def settle_Some intro: utxo_moves_refl)
next
  case (BReplaceAuthority old new)
  with x g blaze_replace_keeps [OF inv] show ?thesis
    by (auto simp: blaze_exec_def settle_Some blaze_guard_def intro: utxo_moves_refl)
next
  case (BLock i xs)
  with x g show ?thesis
    using locked by (auto simp: blaze_exec_def settle_Some blaze_guard_def lock_utxos_def guard_Done set_statuses_effect(2)
        lockable_def intro: utxo_moves_refl intro!: utxo_moves_single)
next
  case (BUnlock i)
  with g pending_okD [OF blaze_invD(4) [OF inv]] have P: "txs_ok Locked (PendingTxs s) (utxo_status s)"
    by (simp add: blaze_guard_def)
  from BUnlock x show ?thesis
    using txs_okD(4) [OF P] unlocked
    by (auto simp: blaze_exec_def settle_Some unlock_utxos_def guard_Done set_statuses_effect(2) spends_def
        intro: utxo_moves_refl intro!: utxo_moves_single)
next
  case (BFinalizeFeeRate E n)
  with x show ?thesis by (auto simp: blaze_exec_def settle_Some intro!: utxo_moves_refl dest!: finalize_Done)
qed (use x clear_moves [OF blaze_invD(1) [OF inv]] in \<open>auto simp: blaze_exec_def clear_fee_rates_def clear_outbound_pool_def
      handle_tolerance_counter_def Let_def intro!: utxo_moves_refl\<close>)

end
