(* ===== verification/Blaze_Safety.thy ===== *)
theory Blaze_Safety
  imports Blaze_Machine
begin

text \<open>
  The messages waiting in the outbound pool of Blaze, the absence of panics, and the effect of votes
  and of the fee rate medians.
\<close>

subsection \<open>The outbound pool\<close>

text \<open>Every message in the pool parses, and no two have the same sequence.\<close>

definition parses :: "Codec \<Rightarrow> bytes \<Rightarrow> bool" where
  "parses K m \<longleftrightarrow> (\<exists>x. SocketMessage_try_from K m = Parsed x)"

definition message_sequence :: "Codec \<Rightarrow> bytes \<Rightarrow> U256" where
  "message_sequence K m = (case SocketMessage_try_from K m of Parsed x \<Rightarrow> rq_sequence (req_id x) | _ \<Rightarrow> 0)"

definition outbound_ok :: "Codec \<Rightarrow> bytes list \<Rightarrow> bool" where
  "outbound_ok K pool \<longleftrightarrow> (\<forall>m\<in>set pool. parses K m) \<and> distinct (map (message_sequence K) pool)"

lemma pool_sequences_ok: "\<forall>m\<in>set pool. parses K m \<Longrightarrow> pool_sequences K pool = Some (map (message_sequence K) pool)"
  by (induction pool) (auto simp: parses_def message_sequence_def)

lemma submit_messages_ok:
  "submit_messages C E a ms pool seqs s = Done p s' \<Longrightarrow> outbound_ok (b_codec C) pool \<Longrightarrow>
   seqs = map (message_sequence (b_codec C)) pool \<Longrightarrow> outbound_ok (b_codec C) p"
proof (induction C E a ms pool seqs s rule: submit_messages.induct)
  case (2 C E a m ms pool seqs s)
  show ?case
  proof (cases "m \<in> set pool")
    case True
    with 2(1) 2(5-) show ?thesis by simp
  next
    case False
    show ?thesis
    proof (cases "SocketMessage_try_from (b_codec C) m")
      case (Parsed x)
      have q: "message_sequence (b_codec C) m = rq_sequence (req_id x)" by (simp add: message_sequence_def Parsed)
      show ?thesis
      proof (cases "rq_sequence (req_id x) \<in> set seqs \<or> \<not> verify_socket_message E m")
        case True
        with False Parsed 2(2) [OF False Parsed True] 2(5-) show ?thesis by simp
      next
        case new: False
        have "outbound_ok (b_codec C) (pool @ [m])"
          using 2(6,7) new q by (auto simp: outbound_ok_def parses_def Parsed)
        moreover have "seqs @ [rq_sequence (req_id x)] = map (message_sequence (b_codec C)) (pool @ [m])" using 2(7) q by simp
        ultimately show ?thesis using 2(3) [OF False Parsed new] 2(5) False Parsed new by simp
      qed
    next
      case Malformed
      with False 2(4) [OF False Malformed] 2(5-) show ?thesis by simp
    next
      case Crash
      with False 2(5) show ?thesis by simp
    qed
  qed
qed simp

lemma outbound_ok_filter: "outbound_ok K pool \<Longrightarrow> outbound_ok K (filter P pool)"
  by (auto simp: outbound_ok_def distinct_map inj_on_def)

lemma for_each_outbound:
  assumes "for_each f xs s = Done u s'" "\<And>x s u s'. f x s = Done u s' \<Longrightarrow> OutboundPool s' = OutboundPool s"
  shows "OutboundPool s' = OutboundPool s"
  by (rule for_each_rule [where I = "\<lambda>s'. OutboundPool s' = OutboundPool s", OF assms(1)]) (auto dest: assms(2))

lemma set_statuses_outbound: "set_statuses st xs s = Done u s' \<Longrightarrow> OutboundPool s' = OutboundPool s"
  using set_statuses_effect(1) by fastforce

lemma submit_utxo_outbound: "submit_utxo C E a x s = Done u s' \<Longrightarrow> OutboundPool s' = OutboundPool s"
  by (auto simp: submit_utxo_def put_utxo_def Let_def guard_Done split: option.splits if_splits)

lemma force_push_outbound: "force_push_utxo C E x s = Done u s' \<Longrightarrow> OutboundPool s' = OutboundPool s"
  by (auto simp: force_push_utxo_def put_utxo_def Let_def guard_Done split: option.splits if_splits)

lemma blaze_call_outbound:
  assumes ok: "outbound_ok (b_codec C) (OutboundPool s)" and d: "blaze_call_run C E og c s = Done u s'"
  shows "outbound_ok (b_codec C) (OutboundPool s')"
proof (cases c)
  case (SubmitOutboundRequests sub sig)
  have "pool_sequences (b_codec C) (OutboundPool s) = Some (map (message_sequence (b_codec C)) (OutboundPool s))"
    using ok by (intro pool_sequences_ok) (simp add: outbound_ok_def)
  with d SubmitOutboundRequests obtain p s1
    where "submit_messages C E (sm_authority_id sub) (sm_messages sub) (OutboundPool s)
        (map (message_sequence (b_codec C)) (OutboundPool s)) s = Done p s1" "OutboundPool s' = p"
    by (auto simp: blaze_call_run_def submit_outbound_requests_def guard_Done)
  with submit_messages_ok ok show ?thesis by blast
next
  case (SubmitUtxos sub sig)
  with d have "for_each (submit_utxo C E (sb_authority_id sub)) (sb_utxos sub) s = Done () s'"
    by (auto simp: blaze_call_run_def submit_utxos_def blaze_Done)
  from for_each_outbound [OF this] submit_utxo_outbound ok show ?thesis by simp
next
  case (ForcePushUtxos xs)
  with d have "for_each (force_push_utxo C E) xs (clear_utxos s) = Done () s'"
    by (auto simp: blaze_call_run_def force_push_utxos_def blaze_Done)
  from for_each_outbound [OF this] force_push_outbound ok show ?thesis by (simp add: clear_utxos_def)
next
  case (BroadcastPoll sub sig)
  with d ok show ?thesis
    by (auto simp: blaze_call_run_def elim!: broadcast_poll_Done dest!: set_statuses_outbound split: if_splits)
qed (use d ok outbound_ok_filter in \<open>auto simp: blaze_call_run_def set_activation_def submit_fee_rate_def
      remove_outbound_messages_def clear_outbound_pool_def Let_def blaze_Done\<close>)

lemma blaze_exec_outbound:
  assumes ok: "outbound_ok (b_codec C) (OutboundPool s)" and x: "blaze_exec C x s = Some s'"
  shows "outbound_ok (b_codec C) (OutboundPool s')"
proof (cases x)
  case (BCall E og c)
  with x ok blaze_call_outbound [OF ok] show ?thesis by (auto simp: blaze_exec_def settle_Some)
next
  case (BReplaceAuthority old new)
  with x ok show ?thesis by (auto simp: blaze_exec_def settle_Some elim!: replace_Done)
next
  case (BLock i xs)
  with x ok show ?thesis
    by (auto simp: blaze_exec_def settle_Some lock_utxos_def guard_Done dest!: set_statuses_outbound)
next
  case (BUnlock i)
  with x ok show ?thesis
    by (auto simp: blaze_exec_def settle_Some unlock_utxos_def guard_Done dest!: set_statuses_outbound)
next
  case (BFinalizeFeeRate E n)
  with x ok show ?thesis by (auto simp: blaze_exec_def settle_Some dest!: finalize_Done)
qed (use x ok outbound_ok_filter in \<open>auto simp: blaze_exec_def clear_fee_rates_def clear_outbound_pool_def clear_utxos_def
      handle_tolerance_counter_def Let_def\<close>)

lemma blaze_reachable_outbound: "blaze_reachable C s \<Longrightarrow> outbound_ok (b_codec C) (OutboundPool s)"
proof (induction rule: blaze_reachable.induct)
  case blaze_start
  then show ?case by (simp add: blaze_default_def outbound_ok_def)
next
  case (blaze_move s x s')
  from blaze_exec_outbound [OF blaze_move.IH blaze_move.hyps(3)] show ?case .
qed

subsection \<open>Panics\<close>

text \<open>The descriptors bonded in the registration pool have a script.\<close>

definition descriptors_ok :: "BConfig \<Rightarrow> blaze_op \<Rightarrow> bool" where
  "descriptors_ok C x = (case x of BCall E og c \<Rightarrow> \<forall>a d. bonded_descriptor E a = Some d \<longrightarrow> script_code C d \<noteq> None | _ \<Rightarrow> True)"

lemma for_each_not_Panic:
  "(\<And>x s. f x s \<noteq> Panic) \<Longrightarrow> for_each f xs s \<noteq> Panic"
  by (induction xs arbitrary: s) (auto simp: guard_Panic)

lemma submit_utxo_not_Panic:
  assumes "\<forall>a d. bonded_descriptor E a = Some d \<longrightarrow> script_code C d \<noteq> None"
  shows "submit_utxo C E a x s \<noteq> Panic" "force_push_utxo C E x s \<noteq> Panic"
  using assms by (auto simp: submit_utxo_def force_push_utxo_def Let_def guard_Panic split: option.splits if_splits)

lemma submit_messages_not_Panic:
  "codec_shapes (b_codec C) \<Longrightarrow> submit_messages C E a ms pool seqs s \<noteq> Panic"
proof (induction C E a ms pool seqs s rule: submit_messages.induct)
  case (2 C E a m ms pool seqs s)
  then show ?case using socket_parse_safe(1) [OF 2(5), of m]
    by (cases "SocketMessage_try_from (b_codec C) m") (simp_all split: if_splits)
qed simp

lemma pool_sequences_not_None: "codec_shapes K \<Longrightarrow> pool_sequences K ms \<noteq> None"
proof (induction ms)
  case (Cons m ms)
  then show ?case using socket_parse_safe(1) [OF Cons.prems, of m] by (auto split: parse.split)
qed simp

lemma blaze_call_not_Panic:
  assumes K: "codec_shapes (b_codec C)" and D: "\<forall>a d. bonded_descriptor E a = Some d \<longrightarrow> script_code C d \<noteq> None"
  shows "blaze_call_run C E og c s \<noteq> Panic"
proof (cases c)
  case (SubmitUtxos sub sig)
  then show ?thesis using for_each_not_Panic [of "submit_utxo C E (sb_authority_id sub)"] submit_utxo_not_Panic(1) [OF D]
    by (simp add: blaze_call_run_def submit_utxos_def ensure_activation_def guard_Panic)
next
  case (ForcePushUtxos xs)
  then show ?thesis using for_each_not_Panic [of "force_push_utxo C E"] submit_utxo_not_Panic(2) [OF D]
    by (simp add: blaze_call_run_def force_push_utxos_def ensure_activation_def guard_Panic)
next
  case (SubmitOutboundRequests sub sig)
  then show ?thesis using submit_messages_not_Panic [OF K] pool_sequences_not_None [OF K]
    by (simp add: blaze_call_run_def submit_outbound_requests_def guard_Panic)
next
  case (BroadcastPoll sub sig)
  then show ?thesis
    by (auto simp: blaze_call_run_def broadcast_poll_def Let_def ensure_activation_def guard_Panic set_statuses_not_Panic)
qed (auto simp: blaze_call_run_def set_activation_def submit_fee_rate_def remove_outbound_messages_def
      ensure_activation_def Let_def guard_Panic)

lemma replace_not_Panic:
  assumes inv: "blaze_inv s"
  shows "blaze_replace_authority old new s \<noteq> Panic"
proof -
  note I = blaze_invD [OF inv]
  have "bt_map_opt (replace_in_utxo old new) (Utxos s) \<noteq> None"
  proof
    assume "bt_map_opt (replace_in_utxo old new) (Utxos s) = None"
    from bt_map_opt_None [OF this] obtain h u where u: "(h, u) \<in> set (Utxos s)" "replace_in_utxo old new u = None" by auto
    then have "utxo_ok h u" using I(1) by (simp add: utxos_ok_def bt_wf_get_iff)
    with u(2) replace_voter_total [of old "ut_voters u" new] show False
      by (auto simp: replace_in_utxo_def utxo_ok_def split: if_splits)
  qed
  moreover have "bt_map_opt (replace_in_tx old new) (PendingTxs s) \<noteq> None"
  proof
    assume "bt_map_opt (replace_in_tx old new) (PendingTxs s) = None"
    from bt_map_opt_None [OF this] obtain i t where t: "(i, t) \<in> set (PendingTxs s)" "replace_in_tx old new t = None" by auto
    then have "length (bt_voters t) \<le> MAX_AUTHORITIES" using I(4) by (auto simp: pending_ok_def bt_wf_get_iff)
    with t(2) replace_voter_total [of old "bt_voters t" new] show False by (auto simp: replace_in_tx_def split: if_splits)
  qed
  moreover have "bt_try_insert new v (bt_remove old (FeeRates s)) \<noteq> None" if "bt_get (FeeRates s) old = Some v" for v
    using bt_remove_length_less [OF that] I(5) by (simp add: bt_try_insert_def rates_ok_def)
  ultimately show ?thesis
    by (auto simp: blaze_replace_authority_def Let_def guard_Panic split: option.splits)
qed

lemma median_Some: "xs \<noteq> [] \<Longrightarrow> \<exists>m. median xs = Some m"
  by (simp add: median_def Let_def)

lemma finalize_not_Panic:
  assumes "0 < b_majority E"
  shows "try_fee_rate_finalization E n s \<noteq> Panic"
proof (cases "b_majority E \<le> as_u32 (length (filter (\<lambda>(_, _, _, expires_at). n \<le> expires_at) (FeeRates s)))")
  case True
  let ?r = "filter (\<lambda>(_, _, _, expires_at). n \<le> expires_at) (FeeRates s)"
  have "?r \<noteq> []" using True assms by (auto simp: as_u32_def)
  then have "map (fst \<circ> snd) ?r \<noteq> []" "map (fst \<circ> snd \<circ> snd) ?r \<noteq> []" by simp_all
  from median_Some [OF this(1)] median_Some [OF this(2)] obtain l f
    where "median (map (fst \<circ> snd) ?r) = Some l" "median (map (fst \<circ> snd \<circ> snd) ?r) = Some f" by blast
  with True show ?thesis by (simp add: try_fee_rate_finalization_def Let_def expect_def)
qed (simp add: try_fee_rate_finalization_def Let_def)

lemma blaze_exec_not_None:
  assumes inv: "blaze_inv s" and K: "codec_shapes (b_codec C)" and D: "descriptors_ok C x" and g: "blaze_guard x s"
  shows "blaze_exec C x s \<noteq> None"
proof (cases x)
  case (BCall E og c)
  with blaze_call_not_Panic [OF K] D show ?thesis
    by (simp add: blaze_exec_def settle_def descriptors_ok_def split: outcome.split)
next
  case (BReplaceAuthority old new)
  with replace_not_Panic [OF inv] show ?thesis by (simp add: blaze_exec_def settle_def split: outcome.split)
next
  case (BFinalizeFeeRate E n)
  with finalize_not_Panic g show ?thesis by (simp add: blaze_exec_def settle_def blaze_guard_def split: outcome.split)
next
  case (BLock i xs)
  then show ?thesis by (simp add: blaze_exec_def settle_def lock_utxos_def bind_outcome_def set_statuses_not_Panic split: outcome.split)
next
  case (BUnlock i)
  then show ?thesis by (simp add: blaze_exec_def settle_def unlock_utxos_def ok_or_def set_statuses_not_Panic split: outcome.split option.split)
qed (simp_all add: blaze_exec_def)

subsection \<open>Medians\<close>

text \<open>A median lies in every interval that holds more than half of the values.\<close>

lemma sort_nth_count:
  "i < length xs \<Longrightarrow> i < length (filter (\<lambda>x. x \<le> sort xs ! i) xs)"
  "i < length xs \<Longrightarrow> length xs - i \<le> length (filter (\<lambda>x. sort xs ! i \<le> x) (xs :: nat list))"
proof -
  assume i: "i < length xs"
  have c: "length (filter P xs) = card {j. j < length xs \<and> P (sort xs ! j)}" for P
  proof -
    have "length (filter P xs) = length (filter P (sort xs))" by (simp add: filter_sort)
    then show ?thesis by (simp add: length_filter_conv_card)
  qed
  have "{..i} \<subseteq> {j. j < length xs \<and> sort xs ! j \<le> sort xs ! i}" using i by (auto intro: sorted_nth_mono)
  from card_mono [OF _ this] show "i < length (filter (\<lambda>x. x \<le> sort xs ! i) xs)" by (simp add: c)
  have "{i..<length xs} \<subseteq> {j. j < length xs \<and> sort xs ! i \<le> sort xs ! j}" using i by (auto intro: sorted_nth_mono)
  from card_mono [OF _ this] show "length xs - i \<le> length (filter (\<lambda>x. sort xs ! i \<le> x) xs)" by (simp add: c)
qed

lemma filter_exclusive:
  assumes "\<And>x. P x \<Longrightarrow> \<not> Q x"
  shows "length (filter P xs) + length (filter Q xs) \<le> length xs"
  using assms by (induction xs) auto

lemma median_between:
  assumes m: "median xs = Some m" and h: "length xs < 2 * length (filter (\<lambda>x. a \<le> x \<and> x \<le> b) xs)"
  shows "a \<le> m \<and> m \<le> b"
proof -
  let ?i = "length xs div 2"
  from m have i: "?i < length xs" and m: "m = sort xs ! ?i" by (auto simp: median_def Let_def split: if_splits)
  have "\<not> m < a"
  proof
    assume "m < a"
    then have "length (filter (\<lambda>x. x \<le> m) xs) + length (filter (\<lambda>x. a \<le> x \<and> x \<le> b) xs) \<le> length xs"
      by (intro filter_exclusive) auto
    with sort_nth_count(1) [OF i] h show False unfolding m by linarith
  qed
  moreover have "\<not> b < m"
  proof
    assume "b < m"
    then have "length (filter (\<lambda>x. m \<le> x) xs) + length (filter (\<lambda>x. a \<le> x \<and> x \<le> b) xs) \<le> length xs"
      by (intro filter_exclusive) auto
    with sort_nth_count(2) [OF i] h show False unfolding m by linarith
  qed
  ultimately show ?thesis by simp
qed

end
