(* ===== verification/Blaze_Sample.thy ===== *)
theory Blaze_Sample
  imports Blaze_Safety
begin

text \<open>
  A concrete instance of Blaze's parameters and a run on it: two relayers vote for an output, it is
  locked for a transaction, and both confirm the broadcast. Outputs are hashed to their transaction,
  every descriptor is a one-of-one multi-signature, and a message is encoded as its sequence.
\<close>

definition outbound_message :: "U256 \<Rightarrow> SocketMessage" where
  "outbound_message q =
     \<lparr>req_id = \<lparr>rq_chain = [0, 0, 0, 1], rq_round_id = 1, rq_sequence = q\<rparr>, sm_status = 5,
      ins_code = \<lparr>in_chain = [0, 0, 0, 3], in_method = replicate 16 0\<rparr>,
      sm_params = \<lparr>token_idx0 = replicate 32 0, token_idx1 = replicate 32 0, tp_refund = 0, tp_to = 7,
        tp_amount = 60000, tp_variants = []\<rparr>\<rparr>"

definition outbound_codec :: Codec where
  "outbound_codec = \<lparr>abi_decode = (\<lambda>ks bs. if ks = socket_kind \<and> bs \<noteq> [] then Some (message_tokens (outbound_message (ucast (hd bs)))) else None),
     abi_encode = (\<lambda>_. [])\<rparr>"

definition sample_blaze :: BConfig where
  "sample_blaze = \<lparr>utxo_hash = (\<lambda>(t, _). t),
     script_code = (\<lambda>_. Some \<lparr>sc_instructions = [Op 0x51, PushBytes, Op 0x51, Op 0xae], sc_len = 37\<rparr>),
     to_vbytes = (\<lambda>w b. b + (w + 3) div 4), b_codec = outbound_codec, FeeRateExpiration = 10, ToleranceThreshold = 3\<rparr>"

definition sample_benv :: BEnv where
  "sample_benv = \<lparr>b_is_authority = (\<lambda>_. True), b_majority = 2, bonded_descriptor = (\<lambda>_. Some [1]),
     verify_socket_message = (\<lambda>_. True), sq_verify_authority = (\<lambda>_. True), sq_max_fee_rate = 1000,
     sq_max_message_bytes = 64, b_block_number = 5\<rparr>"

definition sample_output :: UtxoInfo where
  "sample_output = \<lparr>ui_txid = 1, ui_vout = 0, ui_amount = 100, ui_address = [1]\<rparr>"

definition sample_sized :: UtxoInfoWithSize where
  "sample_sized = \<lparr>us_hash = 1, us_txid = 1, us_vout = 0, us_amount = 100, us_descriptor = [1], us_input_vbytes = 69\<rparr>"

definition sample_active :: blaze where
  "sample_active = blaze_default\<lparr>IsActivated := True, BEvents := [ActivationSet True]\<rparr>"

definition sample_voted :: blaze where
  "sample_voted = sample_active\<lparr>Utxos := [(1, \<lparr>ut_inner = sample_sized, ut_status = Unconfirmed, ut_voters = [4]\<rparr>)],
     UnconfirmedUtxoCount := (\<lambda>_. 0)(4 := 1), BEvents := [ActivationSet True, UtxoSubmitted 4 1 Unconfirmed]\<rparr>"

definition sample_available :: blaze where
  "sample_available = sample_active\<lparr>Utxos := [(1, \<lparr>ut_inner = sample_sized, ut_status = Available, ut_voters = [4, 2]\<rparr>)],
     UnconfirmedUtxoCount := (\<lambda>_. 0)(4 := 0),
     BEvents := [ActivationSet True, UtxoSubmitted 4 1 Unconfirmed, UtxoSubmitted 2 1 Available]\<rparr>"

definition sample_locked :: blaze where
  "sample_locked = sample_available\<lparr>Utxos := [(1, \<lparr>ut_inner = sample_sized, ut_status = Locked, ut_voters = [4, 2]\<rparr>)],
     PendingTxs := [(9, \<lparr>bt_inputs = [sample_sized], bt_voters = []\<rparr>)]\<rparr>"

definition sample_polled :: blaze where
  "sample_polled = sample_locked\<lparr>PendingTxs := [(9, \<lparr>bt_inputs = [sample_sized], bt_voters = [4]\<rparr>)],
     BEvents := BEvents sample_locked @ [BroadcastPolled 4 9 False]\<rparr>"

definition sample_spent :: blaze where
  "sample_spent = sample_polled\<lparr>Utxos := [(1, \<lparr>ut_inner = sample_sized, ut_status = Used, ut_voters = [4, 2]\<rparr>)],
     PendingTxs := [], ConfirmedTxs := [(9, \<lparr>bt_inputs = [sample_sized], bt_voters = [4, 2]\<rparr>)],
     BEvents := BEvents sample_polled @ [BroadcastPolled 2 9 True]\<rparr>"

abbreviation sample_vote :: "acct \<Rightarrow> blaze_op" where
  "sample_vote a \<equiv> BCall sample_benv NoOrigin (SubmitUtxos \<lparr>sb_authority_id = a, sb_utxos = [sample_output]\<rparr> [])"

abbreviation sample_broadcast :: "acct \<Rightarrow> blaze_op" where
  "sample_broadcast a \<equiv> BCall sample_benv NoOrigin (BroadcastPoll \<lparr>bc_authority_id = a, bc_txid = 9\<rparr> [])"

lemmas blaze_eval = blaze_exec_def settle_def blaze_call_run_def set_activation_def submit_utxos_def submit_utxo_def
  ensure_activation_def ensure_def ok_or_def expect_def Let_def put_utxo_def b_deposit_def hash_of_def sized_def
  estimate_finalized_input_size_def parse_multisig_script_def pushed_number_def OP_CHECKMULTISIG_def try_push_def
  MAX_UNCONFIRMED_UTXOS_PER_RELAYER_def MAX_AUTHORITIES_def release_count_def as_u32_def add32_def M32_def
  lock_utxos_def broadcast_poll_def bt_contains_def bt_remove_def

lemmas sample_blaze_defs = sample_blaze_def sample_benv_def sample_output_def sample_active_def blaze_default_def sample_sized_def

lemma sample_blaze_run:
  "blaze_exec sample_blaze (BCall sample_benv Root (SetActivation True)) blaze_default = Some sample_active"
  "blaze_exec sample_blaze (sample_vote 4) sample_active = Some sample_voted"
  "blaze_exec sample_blaze (sample_vote 2) sample_voted = Some sample_available"
  "blaze_exec sample_blaze (BLock 9 [sample_sized]) sample_available = Some sample_locked"
  "blaze_exec sample_blaze (sample_broadcast 4) sample_locked = Some sample_polled"
  "blaze_exec sample_blaze (sample_broadcast 2) sample_polled = Some sample_spent"
  by (simp_all add: blaze_eval sample_blaze_defs sample_voted_def sample_available_def sample_locked_def
      sample_polled_def sample_spent_def)

lemma sample_available_lockable: "lockable sample_available [sample_sized]"
  by (simp add: lockable_def utxo_status_def sample_available_def sample_sized_def)

lemma sample_active_reachable: "blaze_reachable sample_blaze sample_active"
  by (rule blaze_move [OF blaze_start _ sample_blaze_run(1)]) (simp add: blaze_guard_def)
lemma sample_voted_reachable: "blaze_reachable sample_blaze sample_voted"
  by (rule blaze_move [OF sample_active_reachable _ sample_blaze_run(2)]) (simp add: blaze_guard_def)
lemma sample_available_reachable: "blaze_reachable sample_blaze sample_available"
  by (rule blaze_move [OF sample_voted_reachable _ sample_blaze_run(3)]) (simp add: blaze_guard_def)
lemma sample_locked_reachable: "blaze_reachable sample_blaze sample_locked"
  by (rule blaze_move [OF sample_available_reachable _ sample_blaze_run(4)]) (simp add: blaze_guard_def sample_available_lockable)
lemma sample_polled_reachable: "blaze_reachable sample_blaze sample_polled"
  by (rule blaze_move [OF sample_locked_reachable _ sample_blaze_run(5)]) (simp add: blaze_guard_def)
lemma sample_spent_reachable: "blaze_reachable sample_blaze sample_spent"
  by (rule blaze_move [OF sample_polled_reachable _ sample_blaze_run(6)]) (simp add: blaze_guard_def)

end
