(* ===== verification/Blaze_Properties.thy ===== *)
theory Blaze_Properties
  imports Blaze_Sample Coin_Properties
begin

text \<open>
  What the Blaze pallet guarantees: no output is spent twice, outputs move along their life cycle,
  votes confirm outputs and broadcasts, fee rates are medians of a majority, the quota of unconfirmed
  outputs, a pool without repeated requests, and the absence of panics.
\<close>

subsection \<open>Spending\<close>





subsection \<open>Votes\<close>

text \<open>A relayer's first vote for a stored unconfirmed output always succeeds below the bound on voters. The
  output becomes available exactly when the voters, all distinct, are at least the majority, and then
  the quota of the one that submitted it is released; nothing else changes.\<close>

theorem utxo_vote_effect:
  assumes r: "blaze_reachable C s" and u: "bt_get (Utxos s) (hash_of C x) = Some u" "ut_status u = Unconfirmed"
    and a: "a \<notin> set (ut_voters u)" "length (ut_voters u) < MAX_AUTHORITIES"
    and d: "bonded_descriptor E (ui_address x) = Some d"
  shows "\<exists>s'. submit_utxo C E a x s = Done () s' \<and>
    (let app = b_majority E \<le> card (insert a (set (ut_voters u))) in
     bt_get (Utxos s') (hash_of C x) =
       Some (u\<lparr>ut_voters := ut_voters u @ [a], ut_status := if app then Available else Unconfirmed\<rparr>) \<and>
     (\<forall>h. h \<noteq> hash_of C x \<longrightarrow> bt_get (Utxos s') h = bt_get (Utxos s) h) \<and>
     (\<forall>b. UnconfirmedUtxoCount s' b = UnconfirmedUtxoCount s b - of_bool (app \<and> b = hd (ut_voters u))))"
proof -
  have ok: "utxo_ok (hash_of C x) u" using blaze_invD(1) [OF blaze_reachable_inv [OF r]] u(1) by (simp add: utxos_ok_def)
  then obtain b vs where b: "ut_voters u = b # vs" using u(2) by (cases "ut_voters u") (auto simp: utxo_ok_def)
  have "card (insert a (set (ut_voters u))) = Suc (length (ut_voters u))"
    using a(1) ok by (simp add: utxo_ok_def distinct_card)
  moreover have "as_u32 (Suc (length (ut_voters u))) = Suc (length (ut_voters u))"
    using a(2) by (simp add: as_u32_def M32_def MAX_AUTHORITIES_def)
  ultimately show ?thesis
    using u a d by (auto simp: submit_utxo_def try_push_def ok_or_def Let_def release_count_def b)
qed

theorem utxo_vote_effect_witness:
  "\<exists>s'. submit_utxo sample_blaze sample_benv 2 sample_output sample_voted = Done () s' \<and>
     (\<exists>v. bt_get (Utxos s') 1 = Some v \<and> ut_status v = Available) \<and> UnconfirmedUtxoCount s' 4 = 0"
proof -
  have h: "hash_of sample_blaze sample_output = 1" by (simp add: hash_of_def sample_blaze_def sample_output_def)
  have u: "bt_get (Utxos sample_voted) (hash_of sample_blaze sample_output) =
      Some \<lparr>ut_inner = sample_sized, ut_status = Unconfirmed, ut_voters = [4]\<rparr>" by (simp add: h sample_voted_def)
  from utxo_vote_effect [OF sample_voted_reachable u, of 2 sample_benv "[1]"] show ?thesis
    by (auto simp: h MAX_AUTHORITIES_def sample_benv_def sample_voted_def Let_def)
qed

text \<open>A relayer's first confirmation of the broadcast of a pending transaction always succeeds while Blaze
  is activated and the transaction is not confirmed yet. Below the majority only the vote is recorded;
  with the majority the transaction moves to the confirmed ones and exactly its inputs become used.\<close>

theorem broadcast_effect:
  assumes r: "blaze_reachable C s" "IsActivated s" and t: "bt_get (PendingTxs s) i = Some t" "bt_get (ConfirmedTxs s) i = None"
    and a: "a \<notin> set (bt_voters t)" "length (bt_voters t) < MAX_AUTHORITIES"
  shows "\<exists>s'. broadcast_poll E NoOrigin \<lparr>bc_authority_id = a, bc_txid = i\<rparr> s = Done () s' \<and>
    (if b_majority E \<le> card (insert a (set (bt_voters t))) then
       bt_get (ConfirmedTxs s') i = Some (t\<lparr>bt_voters := bt_voters t @ [a]\<rparr>) \<and> bt_get (PendingTxs s') i = None \<and>
       (\<forall>h. utxo_status s' h = (if h \<in> spends t then Some Used else utxo_status s h))
     else bt_get (PendingTxs s') i = Some (t\<lparr>bt_voters := bt_voters t @ [a]\<rparr>) \<and> ConfirmedTxs s' = ConfirmedTxs s \<and>
       utxo_status s' = utxo_status s)"
proof -
  note P = pending_okD [OF blaze_invD(4) [OF blaze_reachable_inv [OF r(1)]] r(2)]
  let ?t = "t\<lparr>bt_voters := bt_voters t @ [a]\<rparr>"
  let ?s = "s\<lparr>ConfirmedTxs := bt_insert i ?t (ConfirmedTxs s), PendingTxs := bt_remove i (PendingTxs s)\<rparr>"
  have c: "card (insert a (set (bt_voters t))) = Suc (length (bt_voters t))"
    using a(1) txs_okD(1) [OF P t(1)] by (simp add: distinct_card)
  have u: "as_u32 (Suc (length (bt_voters t))) = Suc (length (bt_voters t))"
    using a(2) by (simp add: as_u32_def M32_def MAX_AUTHORITIES_def)
  have "\<forall>x\<in>set (bt_inputs t). utxo_status ?s (us_hash x) \<noteq> None" using txs_okD(4) [OF P t(1)] by (simp add: spends_def)
  then obtain s1 where s1: "set_statuses Used (bt_inputs t) ?s = Done () s1" using set_statuses_total by blast
  obtain us where us: "s1 = ?s\<lparr>Utxos := us\<rparr>" using set_statuses_effect(1) [OF s1] by auto
  have st: "utxo_status s1 h = (if h \<in> spends t then Some Used else utxo_status s h)" for h
    using set_statuses_effect(2) [OF s1] by (simp add: spends_def)
  show ?thesis
  proof (cases "b_majority E \<le> Suc (length (bt_voters t))")
    case True
    with t a r(2) s1 show ?thesis
      by (auto simp: broadcast_poll_def ensure_activation_def ensure_def ok_or_def try_push_def bt_contains_def u c st)
        (simp_all add: us)
  next
    case False
    with t a r(2) show ?thesis
      by (auto simp: broadcast_poll_def ensure_activation_def ensure_def ok_or_def try_push_def bt_contains_def u c)
  qed
qed

theorem broadcast_effect_witness:
  "\<exists>s'. broadcast_poll sample_benv NoOrigin \<lparr>bc_authority_id = 2, bc_txid = 9\<rparr> sample_polled = Done () s' \<and>
     utxo_status s' 1 = Some Used \<and> bt_get (PendingTxs s') 9 = None"
proof -
  have "IsActivated sample_polled" "bt_get (PendingTxs sample_polled) 9 = Some \<lparr>bt_inputs = [sample_sized], bt_voters = [4]\<rparr>"
    "bt_get (ConfirmedTxs sample_polled) 9 = None"
    by (simp_all add: sample_polled_def sample_locked_def sample_available_def sample_active_def blaze_default_def)
  from broadcast_effect [OF sample_polled_reachable this, of 2 sample_benv] show ?thesis
    by (auto simp: sample_benv_def MAX_AUTHORITIES_def sample_sized_def)
qed

subsection \<open>Fee rates\<close>

lemma length_filter_map: "length (filter P (map g xs)) = length (filter (\<lambda>x. P (g x)) xs)"
  by (simp add: filter_map o_def)

lemma rate_between:
  "median (map (fst \<circ> snd) rs) = Some m \<Longrightarrow>
     length rs < 2 * length (filter (\<lambda>(_, l, _, _). a \<le> l \<and> l \<le> b) rs) \<Longrightarrow> a \<le> m \<and> m \<le> b"
  "median (map (fst \<circ> snd \<circ> snd) rs) = Some m \<Longrightarrow>
     length rs < 2 * length (filter (\<lambda>(_, _, f, _). a \<le> f \<and> f \<le> b) rs) \<Longrightarrow> a \<le> m \<and> m \<le> b"
proof -
  assume m: "median (map (fst \<circ> snd) rs) = Some m"
    and "length rs < 2 * length (filter (\<lambda>(_, l, _, _). a \<le> l \<and> l \<le> b) rs)"
  then show "a \<le> m \<and> m \<le> b" by (intro median_between [OF m]) (simp only: length_filter_map length_map o_apply case_prod_unfold)
next
  assume m: "median (map (fst \<circ> snd \<circ> snd) rs) = Some m"
    and "length rs < 2 * length (filter (\<lambda>(_, _, f, _). a \<le> f \<and> f \<le> b) rs)"
  then show "a \<le> m \<and> m \<le> b" by (intro median_between [OF m]) (simp only: length_filter_map length_map o_apply case_prod_unfold)
qed

text \<open>C39: Fee rates are finalized only with unexpired rates of at least a majority of relayers. Both results lie
  in every interval that holds more than half of the submitted rates of their kind, so that a minority
  cannot move them out of what the majority submitted, and the long-term rate is not above the other.\<close>

theorem fee_rate_medians:
  assumes r: "blaze_reachable C s" and d: "try_fee_rate_finalization E n s = Done (Some (lt, fr)) s'"
  shows "FeeRates s' = filter (\<lambda>(_, _, _, e). n \<le> e) (FeeRates s) \<and> b_majority E \<le> length (FeeRates s') \<and> lt \<le> fr \<and>
    (length (FeeRates s') < 2 * length (filter (\<lambda>(_, l, _, _). a \<le> l \<and> l \<le> b) (FeeRates s')) \<longrightarrow> a \<le> lt \<and> lt \<le> b) \<and>
    (length (FeeRates s') < 2 * length (filter (\<lambda>(_, _, f, _). a \<le> f \<and> f \<le> b) (FeeRates s')) \<longrightarrow> a \<le> fr \<and> fr \<le> b)"
proof -
  obtain r where r: "r = filter (\<lambda>(_, _, _, e). n \<le> e) (FeeRates s)" by simp
  have s': "FeeRates s' = r" using finalize_Done [OF d] by (simp add: r)
  have m: "median (map (fst \<circ> snd) r) = Some lt" "median (map (fst \<circ> snd \<circ> snd) r) = Some fr" "lt \<le> fr"
    "b_majority E \<le> as_u32 (length r)"
    using d by (auto simp: try_fee_rate_finalization_def Let_def guard_Done r split: if_splits)
  have "as_u32 (length r) \<le> length r" by (simp add: as_u32_def)
  with m(4) have "b_majority E \<le> length r" by linarith
  with r m(3) rate_between(1) [OF m(1), of a b] rate_between(2) [OF m(2), of a b] show ?thesis
    unfolding s' by blast
qed

definition sample_rated :: blaze where
  "sample_rated = sample_active\<lparr>FeeRates := [(2, 3, 8, 15), (4, 5, 10, 15)],
     BEvents := [ActivationSet True, FeeRateSubmitted 4 5 10, FeeRateSubmitted 2 3 8]\<rparr>"

lemma sample_rate_run:
  "blaze_exec sample_blaze (BCall sample_benv NoOrigin (SubmitFeeRate
      \<lparr>fr_authority_id = 4, fr_lt_fee_rate = 5, fr_fee_rate = 10, fr_deadline = 6\<rparr> [])) sample_active =
    Some (sample_active\<lparr>FeeRates := [(4, 5, 10, 15)], BEvents := [ActivationSet True, FeeRateSubmitted 4 5 10]\<rparr>)"
  "blaze_exec sample_blaze (BCall sample_benv NoOrigin (SubmitFeeRate
      \<lparr>fr_authority_id = 2, fr_lt_fee_rate = 3, fr_fee_rate = 8, fr_deadline = 6\<rparr> []))
    (sample_active\<lparr>FeeRates := [(4, 5, 10, 15)], BEvents := [ActivationSet True, FeeRateSubmitted 4 5 10]\<rparr>) = Some sample_rated"
  by (simp_all add: blaze_eval sample_blaze_defs submit_fee_rate_def bt_try_insert_def sample_rated_def)

lemma sample_rated_reachable: "blaze_reachable sample_blaze sample_rated"
  by (rule blaze_move [OF blaze_move [OF sample_active_reachable _ sample_rate_run(1)] _ sample_rate_run(2)])
    (simp_all add: blaze_guard_def)

lemma sample_medians: "\<exists>s'. try_fee_rate_finalization sample_benv 12 sample_rated = Done (Some (5, 10)) s'"
  by (simp add: try_fee_rate_finalization_def sample_rated_def sample_benv_def median_def expect_def as_u32_def M32_def Let_def)

theorem fee_rate_medians_witness:
  "\<exists>s'. try_fee_rate_finalization sample_benv 12 sample_rated = Done (Some (5, 10)) s' \<and> b_majority sample_benv \<le> length (FeeRates s')"
  using sample_medians fee_rate_medians [OF sample_rated_reachable] by blast

subsection \<open>Quotas and the outbound pool\<close>

text \<open>The count kept for a relayer is the number of unconfirmed outputs it was the first to vote for, and is
  at most one hundred.\<close>

theorem unconfirmed_quota:
  assumes "blaze_reachable C s"
  shows "UnconfirmedUtxoCount s a = length (filter (\<lambda>(h, u). ut_status u = Unconfirmed \<and> hd (ut_voters u) = a) (Utxos s)) \<and>
    UnconfirmedUtxoCount s a \<le> 100"
proof -
  note I = blaze_invD [OF blaze_reachable_inv [OF assms]]
  have "filter (first_voter a) (Utxos s) = filter (\<lambda>(h, u). ut_status u = Unconfirmed \<and> hd (ut_voters u) = a) (Utxos s)"
    using I(1) by (intro filter_cong) (auto simp: first_voter_def utxos_ok_def utxo_ok_def bt_wf_get_iff)
  with I(2) show ?thesis unfolding counts_ok_def bt_count_def MAX_UNCONFIRMED_UTXOS_PER_RELAYER_def by metis
qed

theorem unconfirmed_quota_witness:
  "UnconfirmedUtxoCount sample_voted 4 = length (filter (\<lambda>(h, u). ut_status u = Unconfirmed \<and> hd (ut_voters u) = 4) (Utxos sample_voted)) \<and>
    UnconfirmedUtxoCount sample_voted 4 \<le> 100"
  by (rule unconfirmed_quota [OF sample_voted_reachable])

text \<open>Replacing a submitter after which others voted breaks this: the new account enters at the end of the
  voters, so confirming the output releases the quota of another relayer and never that of the new one.\<close>

lemma replaced_submitter_loses_place:
  "blaze_replace_authority 4 8 (sample_voted\<lparr>Utxos := [(1, \<lparr>ut_inner = sample_sized, ut_status = Unconfirmed, ut_voters = [4, 3]\<rparr>)]\<rparr>) =
   Done () (sample_voted\<lparr>Utxos := [(1, \<lparr>ut_inner = sample_sized, ut_status = Unconfirmed, ut_voters = [3, 8]\<rparr>)],
     UnconfirmedUtxoCount := (\<lambda>_. 0)(4 := 0, 8 := 1)\<rparr>)"
  by (simp add: blaze_replace_authority_def sample_voted_def sample_active_def blaze_default_def replace_in_utxo_def
      replace_voter_def try_push_def MAX_AUTHORITIES_def move_count_def expect_def)

text \<open>Every message in the outbound pool is a socket message, and no two of them carry the same sequence: a
  request cannot wait for payment twice.\<close>

theorem outbound_pool_unique:
  assumes "blaze_reachable C s"
  shows "(\<forall>m\<in>set (OutboundPool s). \<exists>x. SocketMessage_try_from (b_codec C) m = Parsed x) \<and>
    distinct (OutboundPool s) \<and> distinct (map (message_sequence (b_codec C)) (OutboundPool s))"
  using blaze_reachable_outbound [OF assms] by (auto simp: outbound_ok_def parses_def distinct_map)

lemma outbound_parse [simp]: "SocketMessage_try_from outbound_codec (b # bs) = Parsed (outbound_message (ucast b))"
  by (simp add: SocketMessage_try_from_def outbound_codec_def message_tokens_def req_id_tokens_def instruction_tokens_def
      params_tokens_def outbound_message_def)

definition sample_waiting :: blaze where
  "sample_waiting = sample_active\<lparr>OutboundPool := [[1], [2]],
     BEvents := [ActivationSet True, SocketMessageSubmitted 4 [1], SocketMessageSubmitted 4 [2]]\<rparr>"

lemma sample_waiting_run:
  "blaze_exec sample_blaze (BCall sample_benv NoOrigin (SubmitOutboundRequests
      \<lparr>sm_authority_id = 4, sm_messages = [[1], [2], [1, 0]]\<rparr> [])) sample_active = Some sample_waiting"
  by (simp add: blaze_eval submit_outbound_requests_def sample_waiting_def)
    (simp add: sample_blaze_defs outbound_message_def b_deposit_def)

lemma sample_waiting_reachable: "blaze_reachable sample_blaze sample_waiting"
  by (rule blaze_move [OF sample_active_reachable _ sample_waiting_run]) (simp add: blaze_guard_def)

theorem outbound_pool_unique_witness: "distinct (map (message_sequence outbound_codec) [[1], [2]])"
  using outbound_pool_unique [OF sample_waiting_reachable] by (simp add: sample_waiting_def sample_blaze_def)

subsection \<open>Panics\<close>




end
