(* ===== verification/Socket_Queue.thy ===== *)
theory Socket_Queue
  imports Reg_Pool Blaze
begin

text \<open>
  The Bitcoin socket queue (\<open>pallets/btc-socket-queue\<close>): outbound requests become PSBTs, which the
  relay executives sign and the relayers report as executed. In the mode without Blaze an authority
  submits the PSBTs; with Blaze \<open>on_initialize\<close> composes them. The pallet calls the registration pool
  and Blaze, so its state contains theirs.

  \<open>SConfig\<close> holds the code the pallet calls and does not contain: the \<open>bitcoin\<close> and \<open>miniscript\<close>
  crates, keccak and hex; \<open>SEnv\<close> what it reads of the rest of the runtime when a call runs: the relay
  executives, the relayers and their majority, and the answers of the EVM.
\<close>

subsection \<open>Bitcoin transactions\<close>

definition DUST_LIMIT :: nat where "DUST_LIMIT = 546"

record TxIn =
  txin_txid :: bytes
  txin_vout :: nat
  txin_script_sig :: bytes
  txin_sequence :: nat
  txin_witness :: "bytes list"

record TxOut =
  txo_value :: nat
  txo_script :: bytes

text \<open>Of a PSBT input the code reads or writes the fields here; \<open>psbt_extra\<close> stands for the rest of a PSBT.\<close>

record PsbtIn =
  pin_witness_utxo :: "TxOut option"
  pin_non_witness_utxo :: "TxOut list option"
  pin_witness_script :: "ScriptCode option"
  pin_bip32_keys :: "bytes list"

record Psbt =
  psbt_tx_input :: "TxIn list"
  psbt_tx_output :: "TxOut list"
  psbt_inputs :: "PsbtIn list"
  psbt_extra :: bytes

text \<open>An address is represented by its string; \<open>parse_address\<close> includes the UTF-8 check.\<close>

record SConfig =
  s_pconfig :: PConfig
  s_bconfig :: BConfig
  psbt_deserialize :: "bytes \<Rightarrow> Psbt option"
  psbt_serialize :: "Psbt \<Rightarrow> bytes"
  tx_hash :: "TxIn list \<Rightarrow> TxOut list \<Rightarrow> bytes"
  psbt_fee :: "Psbt \<Rightarrow> nat option"
  psbt_combine :: "Psbt \<Rightarrow> Psbt \<Rightarrow> Psbt option"
  psbt_finalize :: "Psbt \<Rightarrow> Psbt option"
  unsigned_tx_ok :: "TxIn list \<Rightarrow> TxOut list \<Rightarrow> bool"
  txin_base_size :: "TxIn \<Rightarrow> nat"
  txout_vbytes :: "TxOut \<Rightarrow> nat"
  txout_size :: "TxOut \<Rightarrow> nat"
  address_from_script :: "bytes \<Rightarrow> bytes option"
  parse_address :: "bytes \<Rightarrow> bytes option"
  script_pubkey :: "bytes \<Rightarrow> bytes"
  desc_script_pubkey :: "bytes \<Rightarrow> bytes option"
  desc_keys :: "bytes \<Rightarrow> bytes list"
  fee_rate_ok :: "nat \<Rightarrow> bool"
  s_keccak :: "bytes \<Rightarrow> H256"
  s_bytes2hex :: "bytes \<Rightarrow> string"
  s_hex2bytes :: "string \<Rightarrow> bytes option"
  h256_bytes :: "H256 \<Rightarrow> bytes"
  s_evm_chain_id :: "64 word"
  bitcoin_chain_id :: u32
  DefaultMaxFeeRate :: nat
  DefaultMaxSocketMessageBytes :: nat

record SEnv =
  s_executives :: "acct \<Rightarrow> bool"
  s_is_authority :: "acct \<Rightarrow> bool"
  s_majority :: nat
  evm_call :: "acct \<Rightarrow> acct \<Rightarrow> bytes \<Rightarrow> bytes option"

abbreviation s_codec :: "SConfig \<Rightarrow> Codec" where "s_codec C \<equiv> b_codec (s_bconfig C)"

definition convert_txid :: "bytes \<Rightarrow> H256" where
  "convert_txid b = of_nat (be_nat (rev b))"

definition psbt_txid :: "SConfig \<Rightarrow> Psbt \<Rightarrow> H256" where
  "psbt_txid C p = convert_txid (tx_hash C (psbt_tx_input p) (psbt_tx_output p))"

text \<open>\<open>U256::as_u64\<close> panics on a value that does not fit; an account is the number of its address.\<close>

definition as_u64 :: "U256 \<Rightarrow> nat option" where
  "as_u64 w = (if unat w < M64 then Some (unat w) else None)"

definition acct_of :: "H160 \<Rightarrow> acct" where "acct_of a = unat a"

definition mul64 :: "nat \<Rightarrow> nat \<Rightarrow> nat" where "mul64 a b = a * b mod M64"
definition sat_mul64 :: "nat \<Rightarrow> nat \<Rightarrow> nat" where "sat_mul64 a b = min (a * b) U64_MAX"

subsection \<open>Requests\<close>

datatype RequestType = ReqNormal | ReqRollback | ReqMigration

record PsbtRequest =
  pr_unsigned_psbt :: bytes
  pr_combined_psbt :: bytes
  pr_finalized_psbt :: bytes
  pr_signed_psbts :: "(acct, bytes) btmap"
  pr_socket_messages :: "bytes list"
  pr_request_type :: RequestType

definition PsbtRequest_new :: "bytes \<Rightarrow> bytes list \<Rightarrow> RequestType \<Rightarrow> PsbtRequest" where
  "PsbtRequest_new psbt msgs ty =
     \<lparr>pr_unsigned_psbt = psbt, pr_combined_psbt = psbt, pr_finalized_psbt = [], pr_signed_psbts = [],
      pr_socket_messages = msgs, pr_request_type = ty\<rparr>"

definition is_signed_psbt_submitted :: "bytes \<Rightarrow> PsbtRequest \<Rightarrow> bool" where
  "is_signed_psbt_submitted psbt r = (psbt \<in> set (map snd (pr_signed_psbts r)))"

definition is_unsigned_psbt :: "bytes \<Rightarrow> PsbtRequest \<Rightarrow> bool" where
  "is_unsigned_psbt psbt r = (pr_unsigned_psbt r = psbt)"

definition signed_try_insert :: "acct \<Rightarrow> bytes \<Rightarrow> (acct, bytes) btmap \<Rightarrow> (acct, bytes) btmap option" where
  "signed_try_insert a psbt m =
     (if length m < MULTI_SIG_MAX_ACCOUNTS \<or> bt_contains a m then Some (bt_insert a psbt m) else None)"

definition psbt_replace_authority :: "acct \<Rightarrow> acct \<Rightarrow> PsbtRequest \<Rightarrow> PsbtRequest option" where
  "psbt_replace_authority old new r =
     (case bt_get (pr_signed_psbts r) old of
        None \<Rightarrow> Some r
      | Some psbt \<Rightarrow> map_option (\<lambda>m. r\<lparr>pr_signed_psbts := m\<rparr>)
          (signed_try_insert new psbt (bt_remove old (pr_signed_psbts r))))"

record RollbackRequest =
  rb_unsigned_psbt :: bytes
  rb_who :: acct
  rb_txid :: H256
  rb_vout :: U256
  rb_to :: btc_address
  rb_amount :: U256
  rb_votes :: "(acct, bool) btmap"
  rb_is_approved :: bool

definition RollbackRequest_new :: "bytes \<Rightarrow> acct \<Rightarrow> H256 \<Rightarrow> U256 \<Rightarrow> btc_address \<Rightarrow> U256 \<Rightarrow> RollbackRequest" where
  "RollbackRequest_new psbt who txid vout to amount =
     \<lparr>rb_unsigned_psbt = psbt, rb_who = who, rb_txid = txid, rb_vout = vout, rb_to = to, rb_amount = amount,
      rb_votes = [], rb_is_approved = False\<rparr>"

definition votes_replace :: "acct \<Rightarrow> acct \<Rightarrow> (acct, bool) btmap \<Rightarrow> (acct, bool) btmap option" where
  "votes_replace old new m =
     (case bt_get m old of None \<Rightarrow> Some m | Some v \<Rightarrow> bt_try_insert new v (bt_remove old m))"

definition rollback_replace_authority :: "acct \<Rightarrow> acct \<Rightarrow> RollbackRequest \<Rightarrow> RollbackRequest option" where
  "rollback_replace_authority old new r = map_option (\<lambda>m. r\<lparr>rb_votes := m\<rparr>) (votes_replace old new (rb_votes r))"

record UnsignedPsbtMessage =
  up_authority_id :: acct
  up_outputs :: "(btc_address \<times> bytes list) list"
  up_psbt :: bytes

record SignedPsbtMessage =
  sp_authority_id :: acct
  sp_unsigned_psbt :: bytes
  sp_signed_psbt :: bytes

record ExecutedPsbtMessage =
  ep_authority_id :: acct
  ep_txid :: H256

record RollbackPsbtMessage =
  rp_who :: acct
  rp_txid :: H256
  rp_vout :: U256
  rp_amount :: U256
  rp_unsigned_psbt :: bytes

record RollbackPollMessage =
  rv_authority_id :: acct
  rv_txid :: H256
  rv_is_approved :: bool

record TxInfo =
  ix_to :: H160
  ix_amount :: U256
  ix_vote_count :: U256
  ix_request_id :: RequestID

fun TxInfo_try_from :: "Token list \<Rightarrow> TxInfo option" where
  "TxInfo_try_from [a, b, c, d] =
     Option.bind (to_address a) (\<lambda>t. Option.bind (to_uint b) (\<lambda>n. Option.bind (to_uint c) (\<lambda>v.
     Option.bind (Option.bind (as_tuple d) RequestID_try_from) (\<lambda>r.
     Some \<lparr>ix_to = t, ix_amount = n, ix_vote_count = v, ix_request_id = r\<rparr>))))"
| "TxInfo_try_from _ = None"

definition tx_info_kind :: "ParamKind list" where
  "tx_info_kind = [KAddress, KUint 256, KUint 256, KTuple [KFixedBytes 4, KUint 64, KUint 128]]"

definition try_decode_tx_info :: "Codec \<Rightarrow> bytes \<Rightarrow> TxInfo option" where
  "try_decode_tx_info K b = Option.bind (abi_decode K tx_info_kind b) TxInfo_try_from"

text \<open>The hash key of an output, encoded as four tokens.\<close>

definition HashKeyRequest_encode :: "Codec \<Rightarrow> bytes \<Rightarrow> U256 \<Rightarrow> H160 \<Rightarrow> U256 \<Rightarrow> bytes" where
  "HashKeyRequest_encode K h i to n = abi_encode K [FixedBytes h, Uint i, Address to, Uint n]"

subsection \<open>State\<close>

datatype sq_error =
    SBadOrigin | BroadcastAlreadyConfirmed | SignedPsbtAlreadySubmitted | SocketMessageAlreadySubmitted
  | RequestAlreadyExists | RequestAlreadyApproved | AuthorityDNE | SSocketDNE | U256OverFlowed | SUserDNE
  | SystemVaultDNE | RequestDNE | InvalidPsbt | InvalidUncheckedOutput | InvalidCalldata | SInvalidSocketMessage
  | SInvalidRequestInfo | InvalidTxInfo | SInvalidBitcoinAddress | CannotFinalizePsbt | SOutOfRange
  | SNoWritingSameValue | SUnderMaintenance | InvalidFeeRate | SBlaze blaze_error

datatype SocketQueueEvent =
    UnsignedPsbtSubmitted H256
  | SignedPsbtSubmitted H256 acct
  | BumpFeePsbtSubmitted H256 H256
  | MigrationPsbtSubmitted H256
  | RollbackPsbtSubmitted H256
  | RollbackPollSubmitted H256 acct bool
  | RollbackApproved H256
  | RequestFinalized H256
  | RequestExecuted H256
  | AuthoritySet acct
  | SSocketSet acct bool
  | MaxFeeRateSet nat
  | MaxSocketMessageBytesSet nat
  | BroadcastConfirmed H256 acct

record socket_queue =
  SSocket :: "acct option"
  BitcoinSocket :: "acct option"
  Authority :: "acct option"
  SocketMessages :: "(U256, H256 \<times> SocketMessage) btmap"
  PendingRequests :: "(H256, PsbtRequest) btmap"
  FinalizedRequests :: "(H256, PsbtRequest) btmap"
  ExecutedRequests :: "(H256, PsbtRequest) btmap"
  RollbackRequests :: "(H256, RollbackRequest) btmap"
  BondedOutboundTx :: "(H256, bytes list) btmap"
  BondedRollbackOutputs :: "(H256 \<times> U256, H256) btmap"
  MaxFeeRate :: nat
  MaxSocketMessageBytes :: nat
  BroadcastConfirmations :: "(H256, (acct, bool) btmap) btmap"
  SEvents :: "SocketQueueEvent list"
  the_pool :: reg_pool
  the_blaze :: blaze

type_synonym 'a sq_result = "(socket_queue, sq_error, 'a) outcome"

definition s_deposit :: "SocketQueueEvent \<Rightarrow> socket_queue \<Rightarrow> socket_queue" where
  "s_deposit e s = s\<lparr>SEvents := SEvents s @ [e]\<rparr>"

text \<open>A call into Blaze; its errors are dispatch errors of the caller.\<close>

definition with_blaze :: "'a blaze_result \<Rightarrow> socket_queue \<Rightarrow> ('a \<Rightarrow> socket_queue \<Rightarrow> 'b sq_result) \<Rightarrow> 'b sq_result" where
  "with_blaze r s k =
     (case r of Done a b \<Rightarrow> k a (s\<lparr>the_blaze := b\<rparr>) | Fail e b \<Rightarrow> Fail (SBlaze e) (s\<lparr>the_blaze := b\<rparr>) | Panic \<Rightarrow> Panic)"

definition s_parsed :: "'b parse \<Rightarrow> sq_error \<Rightarrow> socket_queue \<Rightarrow> ('b \<Rightarrow> 'a sq_result) \<Rightarrow> 'a sq_result" where
  "s_parsed v e s k = (case v of Parsed x \<Rightarrow> k x | Malformed \<Rightarrow> Fail e s | Crash \<Rightarrow> Panic)"

subsection \<open>Requests to the EVM\<close>

definition try_evm_call :: "SConfig \<Rightarrow> SEnv \<Rightarrow> acct \<Rightarrow> acct \<Rightarrow> string \<Rightarrow> socket_queue \<Rightarrow> bytes sq_result" where
  "try_evm_call C E source target calldata s =
     ok_or (s_hex2bytes C calldata) InvalidCalldata s (\<lambda>input.
     ok_or (evm_call E source target input) InvalidCalldata s (\<lambda>v. Done v s))"

definition SOCKET_GET_REQUEST_SELECTOR :: string where "SOCKET_GET_REQUEST_SELECTOR = ''8dac2204''"
definition BITCOIN_SOCKET_TXS_FUNCTION_SELECTOR :: string where "BITCOIN_SOCKET_TXS_FUNCTION_SELECTOR = ''986ba392''"

definition sq_try_get_request :: "SConfig \<Rightarrow> SEnv \<Rightarrow> bytes \<Rightarrow> socket_queue \<Rightarrow> RequestInfo sq_result" where
  "sq_try_get_request C E rid s =
     ok_or (Authority s) AuthorityDNE s (\<lambda>caller.
     ok_or (SSocket s) SSocketDNE s (\<lambda>socket.
     bind_outcome (try_evm_call C E caller socket (SOCKET_GET_REQUEST_SELECTOR @ s_bytes2hex C rid) s) (\<lambda>v s.
     s_parsed (RequestInfo_try_from (s_codec C) v) SInvalidRequestInfo s (\<lambda>i. Done i s))))"

definition generate_hash_key :: "SConfig \<Rightarrow> H256 \<Rightarrow> U256 \<Rightarrow> acct \<Rightarrow> U256 \<Rightarrow> H256" where
  "generate_hash_key C txid vout who amount =
     s_keccak C (HashKeyRequest_encode (s_codec C) (h256_bytes C txid) vout (of_nat who) amount)"

definition try_get_tx_info :: "SConfig \<Rightarrow> SEnv \<Rightarrow> H256 \<Rightarrow> socket_queue \<Rightarrow> TxInfo sq_result" where
  "try_get_tx_info C E hash_key s =
     ok_or (Authority s) AuthorityDNE s (\<lambda>caller.
     ok_or (BitcoinSocket s) SSocketDNE s (\<lambda>socket.
     bind_outcome (try_evm_call C E caller socket
         (BITCOIN_SOCKET_TXS_FUNCTION_SELECTOR @ s_bytes2hex C (h256_bytes C hash_key)) s) (\<lambda>v s.
     ok_or (try_decode_tx_info (s_codec C) v) InvalidTxInfo s (\<lambda>i. Done i s))))"

text \<open>The token a message must carry on each of the two chains.\<close>

definition expected_token :: "u32 \<Rightarrow> bytes option" where
  "expected_token chain_id =
     (if chain_id = 3068 then
        Some [0, 0, 0, 3, 0, 0, 0, 3, 0, 0, 0x0b, 0xfc, 0xcb, 0x4e, 0x4f, 0x67, 0xb3, 0x3e, 0xeb,
              0xfc, 0x17, 0xc8, 0x2c, 0xf6, 0xe8, 0xc0, 0xb5, 0x6d, 0x26, 0x9a, 0xeb, 0x79]
      else if chain_id = 49088 then
        Some [0, 0, 0, 3, 0, 0, 0, 3, 0, 0, 0xbf, 0xc0, 0xe0, 0x02, 0x30, 0x6b, 0x8f, 0xdf, 0x96,
              0x04, 0x4e, 0xef, 0x87, 0x0c, 0xc5, 0x00, 0xf1, 0x5e, 0x11, 0xef, 0x4e, 0xaa]
      else None)"

definition sq_verify_socket_message :: "SConfig \<Rightarrow> SEnv \<Rightarrow> bytes \<Rightarrow> socket_queue \<Rightarrow> unit sq_result" where
  "sq_verify_socket_message C E raw s =
     s_parsed (SocketMessage_try_from (s_codec C) raw) SInvalidSocketMessage s (\<lambda>m.
     ensure (SocketMessage_encode (s_codec C) m = raw) SInvalidSocketMessage s (
     let msg_hash = s_keccak C (UserRequest_encode (s_codec C) (UserRequest_new (ins_code m) (sm_params m))) in
     bind_outcome (sq_try_get_request C E (encode_req_id (s_codec C) m) s) (\<lambda>info s.
     ensure (is_msg_hash msg_hash info) SInvalidSocketMessage s (
     expect (ri_code info) (\<lambda>_.
     ensure (ri_is_accepted info \<and> sm_is_accepted m) SInvalidSocketMessage s (
     let chain_id = ucast (s_evm_chain_id C) in
     ensure (is_bitcoin_outbound chain_id (bitcoin_chain_id C) m) SInvalidSocketMessage s (
     ok_or (expected_token chain_id) SInvalidSocketMessage s (\<lambda>tok.
     ensure (token_idx0 (sm_params m) = tok) SInvalidSocketMessage s (
     ensure (bt_get (SocketMessages s) (rq_sequence (req_id m)) = None) SocketMessageAlreadySubmitted s (
     Done () s))))))))))"

subsection \<open>The interface for the other pallets\<close>

definition sq_is_ready_for_migrate :: "socket_queue \<Rightarrow> bool" where
  "sq_is_ready_for_migrate s \<longleftrightarrow> PendingRequests s = [] \<and> FinalizedRequests s = [] \<and>
     (\<forall>e\<in>set (RollbackRequests s). rb_is_approved (snd e))"

definition sq_verify_legacy_authority :: "acct \<Rightarrow> socket_queue \<Rightarrow> bool" where
  "sq_verify_legacy_authority a s = (Authority s = Some a)"

definition sq_verify_authority_of :: "SEnv \<Rightarrow> acct \<Rightarrow> socket_queue \<Rightarrow> bool" where
  "sq_verify_authority_of E a s =
     (if IsActivated (the_blaze s) then s_is_authority E a else sq_verify_legacy_authority a s)"

definition sq_replace_authority :: "acct \<Rightarrow> acct \<Rightarrow> socket_queue \<Rightarrow> unit sq_result" where
  "sq_replace_authority old new s =
     expect (bt_map_opt (psbt_replace_authority old new) (PendingRequests s)) (\<lambda>ps.
     expect (bt_map_opt (\<lambda>r. if rb_is_approved r then Some r else rollback_replace_authority old new r) (RollbackRequests s)) (\<lambda>rs.
     expect (bt_map_opt (votes_replace old new) (BroadcastConfirmations s)) (\<lambda>bs.
     Done () (s\<lparr>PendingRequests := ps, RollbackRequests := rs, BroadcastConfirmations := bs\<rparr>))))"

subsection \<open>Checks of PSBTs\<close>

definition checked_psbt :: "SConfig \<Rightarrow> bytes \<Rightarrow> socket_queue \<Rightarrow> (Psbt \<Rightarrow> 'a sq_result) \<Rightarrow> 'a sq_result" where
  "checked_psbt C b s k = ok_or (psbt_deserialize C b) InvalidPsbt s k"

definition output_address :: "SConfig \<Rightarrow> TxOut \<Rightarrow> btc_address option" where
  "output_address C out = Option.bind (address_from_script C (txo_script out)) bounded_address"

fun inputs_vb :: "SConfig \<Rightarrow> PsbtIn list \<Rightarrow> TxIn list \<Rightarrow> nat option" where
  "inputs_vb C [] ts = Some 0"
| "inputs_vb C (x # xs) [] = None"
| "inputs_vb C (x # xs) (t # ts) =
     Option.bind (pin_witness_script x) (\<lambda>sc.
     Option.bind (estimate_finalized_input_size (to_vbytes (s_bconfig C)) sc (Some (txin_base_size C t))) (\<lambda>vb.
     map_option (add64 vb) (inputs_vb C xs ts)))"

definition estimate_finalized_vb :: "SConfig \<Rightarrow> Psbt \<Rightarrow> nat option" where
  "estimate_finalized_vb C p =
     map_option (\<lambda>vb. add64 (add64 10 vb) (sum64 (map (txout_vbytes C) (psbt_tx_output p))))
       (inputs_vb C (psbt_inputs p) (psbt_tx_input p))"

definition try_psbt_fee_verification :: "SConfig \<Rightarrow> Psbt \<Rightarrow> socket_queue \<Rightarrow> 'a sq_result \<Rightarrow> 'a sq_result" where
  "try_psbt_fee_verification C p s k =
     ok_or (psbt_fee C p) InvalidPsbt s (\<lambda>fee.
     ok_or (estimate_finalized_vb C p) InvalidPsbt s (\<lambda>vb.
     ensure (fee div vb \<le> MaxFeeRate s) InvalidFeeRate s k))"

text \<open>The request maps that must not contain the transaction yet.\<close>

definition ensure_new_request :: "H256 \<Rightarrow> socket_queue \<Rightarrow> 'a sq_result \<Rightarrow> 'a sq_result" where
  "ensure_new_request i s k =
     ensure (\<not> bt_contains i (PendingRequests s)) RequestAlreadyExists s (
     ensure (\<not> bt_contains i (FinalizedRequests s)) RequestAlreadyExists s (
     ensure (\<not> bt_contains i (ExecutedRequests s)) RequestAlreadyExists s k))"

text \<open>The messages of one output: parsed messages, their bytes and sequences so far, and the amount.\<close>

type_synonym checked_messages = "SocketMessage list \<times> bytes list \<times> U256 list"

fun check_messages ::
  "SConfig \<Rightarrow> SEnv \<Rightarrow> btc_address \<Rightarrow> bytes list \<Rightarrow> checked_messages \<Rightarrow> U256 \<Rightarrow> socket_queue \<Rightarrow> (checked_messages \<times> U256) sq_result" where
  "check_messages C E to [] acc amount s = Done (acc, amount) s"
| "check_messages C E to (raw # ms) (des, ser, seqs) amount s =
     s_parsed (SocketMessage_try_from (s_codec C) raw) SInvalidSocketMessage s (\<lambda>m.
     ensure (rq_sequence (req_id m) \<notin> set seqs) SInvalidSocketMessage s (
     bind_outcome (sq_verify_socket_message C E raw s) (\<lambda>_ s.
     ok_or (get_refund_address (acct_of (tp_to (sm_params m))) (the_pool s)) SUserDNE s (\<lambda>refund.
     ensure (to = refund) SInvalidSocketMessage s (
     ok_or (checked_add256 amount (tp_amount (sm_params m))) U256OverFlowed s (\<lambda>amount'.
     check_messages C E to ms (des @ [m], ser @ [raw], seqs @ [rq_sequence (req_id m)]) amount' s))))))"

fun check_outputs ::
  "SConfig \<Rightarrow> SEnv \<Rightarrow> nat \<Rightarrow> btc_address \<Rightarrow> (btc_address, bytes list) btmap \<Rightarrow> TxOut list \<Rightarrow> checked_messages \<Rightarrow> socket_queue
    \<Rightarrow> checked_messages sq_result" where
  "check_outputs C E n system_vault m [] acc s = Done acc s"
| "check_outputs C E n system_vault m (out # os) acc s =
     ok_or (output_address C out) SInvalidBitcoinAddress s (\<lambda>to.
     ok_or (bt_get m to) InvalidUncheckedOutput s (\<lambda>msgs.
     if to = system_vault then
       ensure (n \<noteq> 1) InvalidPsbt s (
       ensure (msgs = []) InvalidUncheckedOutput s (
       check_outputs C E n system_vault m os acc s))
     else
       bind_outcome (check_messages C E to msgs acc 0 s) (\<lambda>(acc', amount) s.
       ensure (of_nat (txo_value out) = amount) InvalidPsbt s (
       check_outputs C E n system_vault m os acc' s))))"

definition try_psbt_output_verification ::
  "SConfig \<Rightarrow> SEnv \<Rightarrow> Psbt \<Rightarrow> (btc_address \<times> bytes list) list \<Rightarrow> socket_queue \<Rightarrow> (SocketMessage list \<times> bytes list) sq_result" where
  "try_psbt_output_verification C E p outs s =
     (let os = psbt_tx_output p in
      ensure (length os = length outs) InvalidPsbt s (
      ensure (1 \<le> length os) InvalidPsbt s (
      ok_or (get_system_vault (CurrentRound (the_pool s)) (the_pool s)) SystemVaultDNE s (\<lambda>system_vault.
      bind_outcome (check_outputs C E (length os) system_vault (fold (\<lambda>(a, ms). bt_insert a ms) outs []) os ([], [], []) s)
        (\<lambda>(des, ser, _) s. Done (des, ser) s)))))"

text \<open>The replacement of a transaction by one with a higher fee.\<close>

fun outputs_map :: "SConfig \<Rightarrow> TxOut list \<Rightarrow> (btc_address, nat) btmap \<Rightarrow> (btc_address, nat) btmap option" where
  "outputs_map C [] m = Some m"
| "outputs_map C (out # os) m = Option.bind (output_address C out) (\<lambda>a. outputs_map C os (bt_insert a (txo_value out) m))"

definition bump_output :: "btc_address \<Rightarrow> RequestType \<Rightarrow> (btc_address, nat) btmap \<Rightarrow> nat \<Rightarrow> btc_address \<Rightarrow> nat \<Rightarrow> bool" where
  "bump_output system_vault ty old fee_diff to value =
     (case bt_get old to of
        Some old_amount \<Rightarrow>
          value \<le> old_amount \<and>
          (case ty of
             ReqMigration \<Rightarrow> \<not> (to = system_vault \<and> fee_diff \<noteq> old_amount - value)
           | ReqRollback \<Rightarrow> \<not> (to \<noteq> system_vault \<and> fee_diff \<noteq> old_amount - value)
           | ReqNormal \<Rightarrow> \<not> (to \<noteq> system_vault \<and> value \<noteq> old_amount))
      | None \<Rightarrow> ty \<noteq> ReqMigration \<and> to = system_vault)"

fun bump_outputs ::
  "SConfig \<Rightarrow> btc_address \<Rightarrow> RequestType \<Rightarrow> (btc_address, nat) btmap \<Rightarrow> nat \<Rightarrow> TxOut list \<Rightarrow> socket_queue \<Rightarrow> unit sq_result" where
  "bump_outputs C system_vault ty old fee_diff [] s = Done () s"
| "bump_outputs C system_vault ty old fee_diff (out # os) s =
     ok_or (output_address C out) SInvalidBitcoinAddress s (\<lambda>to.
     ensure (bump_output system_vault ty old fee_diff to (txo_value out)) InvalidPsbt s (
     bump_outputs C system_vault ty old fee_diff os s))"

definition try_bump_fee_psbt_verification ::
  "SConfig \<Rightarrow> Psbt \<Rightarrow> Psbt \<Rightarrow> RequestType \<Rightarrow> socket_queue \<Rightarrow> unit sq_result" where
  "try_bump_fee_psbt_verification C old new ty s =
     ok_or (get_system_vault (CurrentRound (the_pool s)) (the_pool s)) SystemVaultDNE s (\<lambda>system_vault.
     ensure (\<bar>int (length (psbt_tx_output new)) - int (length (psbt_tx_output old))\<bar> \<le> 1) InvalidPsbt s (
     ensure (set (psbt_tx_input old) \<subseteq> set (psbt_tx_input new)) InvalidPsbt s (
     ok_or (psbt_fee C old) InvalidPsbt s (\<lambda>old_fee.
     ok_or (psbt_fee C new) InvalidPsbt s (\<lambda>new_fee.
     ensure (old_fee < new_fee) InvalidPsbt s (
     ok_or (outputs_map C (psbt_tx_output old) []) SInvalidBitcoinAddress s (\<lambda>m.
     bump_outputs C system_vault ty m (new_fee - old_fee) (psbt_tx_output new) s)))))))"

subsection \<open>Composing transactions\<close>

text \<open>The requests of registered users with the scripts of their refund addresses, and the other messages;
  \<open>None\<close> is a panic.\<close>

fun registered_outbounds ::
  "SConfig \<Rightarrow> reg_pool \<Rightarrow> bytes list \<Rightarrow> ((SocketMessage \<times> bytes) list \<times> bytes list) option" where
  "registered_outbounds C p [] = Some ([], [])"
| "registered_outbounds C p (raw # ms) =
     (case SocketMessage_try_from (s_codec C) raw of
        Crash \<Rightarrow> None
      | Malformed \<Rightarrow> map_option (\<lambda>(rs, us). (rs, raw # us)) (registered_outbounds C p ms)
      | Parsed m \<Rightarrow>
          (case get_refund_address (acct_of (tp_to (sm_params m))) p of
             None \<Rightarrow> map_option (\<lambda>(rs, us). (rs, raw # us)) (registered_outbounds C p ms)
           | Some refund \<Rightarrow>
               (case parse_address C refund of
                  None \<Rightarrow> None
                | Some a \<Rightarrow> map_option (\<lambda>(rs, us). ((m, script_pubkey C a) # rs, us)) (registered_outbounds C p ms))))"

definition filter_unregistered_outbounds ::
  "SConfig \<Rightarrow> reg_pool \<Rightarrow> bytes list \<Rightarrow> (bytes list \<times> (SocketMessage \<times> bytes) list) option" where
  "filter_unregistered_outbounds C p pool =
     map_option (\<lambda>(rs, us). (filter (\<lambda>x. x \<notin> set us) pool, rs)) (registered_outbounds C p pool)"

text \<open>The amounts per script, in the order of the scripts; adding amounts panics on overflow.\<close>

fun merge_outputs :: "(SocketMessage \<times> bytes) list \<Rightarrow> (bytes, nat) btmap \<Rightarrow> (bytes, nat) btmap option" where
  "merge_outputs [] m = Some m"
| "merge_outputs ((x, sc) # rs) m =
     (case as_u64 (tp_amount (sm_params x)) of
        None \<Rightarrow> None
      | Some v \<Rightarrow>
          let t = (case bt_get m sc of Some w \<Rightarrow> w | None \<Rightarrow> 0) + v
          in if t < M64 then merge_outputs rs (bt_insert sc t m) else None)"

definition composed_input :: "SConfig \<Rightarrow> UtxoInfoWithSize \<Rightarrow> TxIn" where
  "composed_input C x =
     \<lparr>txin_txid = rev (h256_bytes C (us_txid x)), txin_vout = us_vout x, txin_script_sig = [],
      txin_sequence = 0xfffffffd, txin_witness = []\<rparr>"

definition composed_psbt_input :: "SConfig \<Rightarrow> UtxoInfoWithSize \<Rightarrow> PsbtIn option" where
  "composed_psbt_input C x =
     Option.bind (desc_script_pubkey C (us_descriptor x)) (\<lambda>spk.
     map_option (\<lambda>sc. \<lparr>pin_witness_utxo = Some \<lparr>txo_value = us_amount x, txo_script = spk\<rparr>, pin_non_witness_utxo = None,
         pin_witness_script = Some sc, pin_bip32_keys = desc_keys C (us_descriptor x)\<rparr>)
       (script_code (s_bconfig C) (us_descriptor x)))"

text \<open>The output for change: \<open>None\<close> if composing stops there, otherwise none or one output.\<close>

definition change_output ::
  "SConfig \<Rightarrow> reg_pool \<Rightarrow> UtxoInfoWithSize list \<Rightarrow> TxOut list \<Rightarrow> nat \<Rightarrow> nat \<Rightarrow> TxOut list option" where
  "change_output C p selected output target fee_rate =
     (let input_sum = sum64 (map us_amount selected);
          input_size_sum = sum64 (map us_input_vbytes selected);
          output_size_sum = add64 (sum64 (map (txout_size C) output)) 43;
          estimated_size = add64 (add64 11 input_size_sum) output_size_sum;
          fee = sat_mul64 fee_rate estimated_size
      in if target \<le> input_sum \<and> fee \<le> input_sum - target \<and> DUST_LIMIT < input_sum - target - fee then
           Option.bind (get_system_vault (CurrentRound p) p) (\<lambda>v.
           map_option (\<lambda>a. [\<lparr>txo_value = input_sum - target - fee, txo_script = script_pubkey C a\<rparr>]) (parse_address C v))
         else Some [])"

definition composite_psbt ::
  "SConfig \<Rightarrow> UtxoInfoWithSize list \<Rightarrow> (SocketMessage \<times> bytes) list \<Rightarrow> nat \<Rightarrow> nat \<Rightarrow> SelectionStrategy \<Rightarrow> socket_queue
    \<Rightarrow> Psbt option sq_result" where
  "composite_psbt C selected requests target fee_rate strategy s =
     expect (merge_outputs requests []) (\<lambda>merged.
     let output = map (\<lambda>(sc, v). \<lparr>txo_value = v, txo_script = sc\<rparr>) (filter (\<lambda>(_, v). DUST_LIMIT < v) merged) in
     if output = [] then Done None s
     else case (if strategy = Knapsack then change_output C (the_pool s) selected output target fee_rate else Some []) of
            None \<Rightarrow> Done None s
          | Some change \<Rightarrow>
              let ins = map (composed_input C) selected; outs = output @ change in
              if unsigned_tx_ok C ins outs then
                expect (those (map (composed_psbt_input C) selected)) (\<lambda>pins.
                Done (Some \<lparr>psbt_tx_input = ins, psbt_tx_output = outs, psbt_inputs = pins, psbt_extra = []\<rparr>) s)
              else Done None s)"

definition score_utxo :: "nat \<Rightarrow> nat \<Rightarrow> UtxoInfoWithSize \<Rightarrow> ScoredUtxo option" where
  "score_utxo lt_fee_rate fee_rate x =
     (let fee = mul64 (us_input_vbytes x) fee_rate in
      if us_amount x < fee then None
      else Some \<lparr>su_utxo = x, su_fee = fee, su_long_term_fee = mul64 (us_input_vbytes x) lt_fee_rate,
                 su_effective_value = us_amount x - fee\<rparr>)"

fun record_messages :: "SConfig \<Rightarrow> H256 \<Rightarrow> bytes list \<Rightarrow> socket_queue \<Rightarrow> unit sq_result" where
  "record_messages C i [] s = Done () s"
| "record_messages C i (raw # ms) s =
     (case SocketMessage_try_from (s_codec C) raw of
        Parsed m \<Rightarrow> record_messages C i ms (s\<lparr>SocketMessages := bt_insert (rq_sequence (req_id m)) (i, m) (SocketMessages s)\<rparr>)
      | _ \<Rightarrow> Panic)"

definition tolerate :: "SConfig \<Rightarrow> bool \<Rightarrow> socket_queue \<Rightarrow> socket_queue" where
  "tolerate C b s = s\<lparr>the_blaze := handle_tolerance_counter (s_bconfig C) b (the_blaze s)\<rparr>"

text \<open>Recording the composed transaction; an error of \<open>lock_utxos\<close> would panic.\<close>

definition submit_composed ::
  "SConfig \<Rightarrow> Psbt \<Rightarrow> bytes list \<Rightarrow> UtxoInfoWithSize list \<Rightarrow> socket_queue \<Rightarrow> unit sq_result" where
  "submit_composed C p filtered selected s =
     (let i = psbt_txid C p;
          s1 = s_deposit (UnsignedPsbtSubmitted i)
            (s\<lparr>PendingRequests := bt_insert i (PsbtRequest_new (psbt_serialize C p) filtered ReqNormal) (PendingRequests s)\<rparr>)
      in bind_outcome (record_messages C i filtered s1) (\<lambda>_ s.
         let b = clear_outbound_pool filtered (clear_fee_rates (the_blaze s)) in
         case lock_utxos i selected b of
           Done _ b' \<Rightarrow> Done () (tolerate C False (s\<lparr>the_blaze := b'\<rparr>))
         | _ \<Rightarrow> Panic))"

definition target_amount :: "nat \<Rightarrow> nat \<Rightarrow> bytes list \<Rightarrow> nat" where
  "target_amount amount_sum fee_rate scripts =
     (let output_vbytes = sum64 (map (\<lambda>sc. 9 + length sc) (remdups scripts))
      in sat_add64 amount_sum (mul64 fee_rate (add64 11 output_vbytes)))"

definition compose_outbounds ::
  "SConfig \<Rightarrow> nat \<Rightarrow> nat \<Rightarrow> bytes list \<Rightarrow> (SocketMessage \<times> bytes) list \<Rightarrow> socket_queue \<Rightarrow> unit sq_result" where
  "compose_outbounds C lt_fee_rate fee_rate filtered requests s =
     (let utxos = get_utxos (the_blaze s) in
      expect (those (map (\<lambda>(m, _). as_u64 (tp_amount (sm_params m))) requests)) (\<lambda>amounts.
      let amount_sum = sum64 amounts in
      if sum64 (map us_amount utxos) \<le> amount_sum then Done () (tolerate C True s)
      else
        case select_coins (List.map_filter (score_utxo lt_fee_rate fee_rate) utxos)
               (target_amount amount_sum fee_rate (map snd requests)) (mul64 43 fee_rate) 200000 100000 DUST_LIMIT of
          None \<Rightarrow> Done () (tolerate C True s)
        | Some (selected, strategy) \<Rightarrow>
            bind_outcome (composite_psbt C selected requests amount_sum fee_rate strategy s) (\<lambda>r s.
            case r of None \<Rightarrow> Done () (tolerate C True s) | Some p \<Rightarrow> submit_composed C p filtered selected s)))"

text \<open>What Blaze reads of the runtime when the socket queue calls it: only the majority.\<close>

definition blaze_env :: "SEnv \<Rightarrow> BEnv" where
  "blaze_env E = \<lparr>b_is_authority = s_is_authority E, b_majority = s_majority E, bonded_descriptor = (\<lambda>_. None),
     verify_socket_message = (\<lambda>_. False), sq_verify_authority = (\<lambda>_. False), sq_max_fee_rate = 0, sq_max_message_bytes = 0,
     b_block_number = 0\<rparr>"

definition sq_on_initialize :: "SConfig \<Rightarrow> SEnv \<Rightarrow> block_number \<Rightarrow> socket_queue \<Rightarrow> unit sq_result" where
  "sq_on_initialize C E n s =
     (if IsActivated (the_blaze s) \<and> ServiceState (the_pool s) = Normal then
        let s1 = s\<lparr>the_pool := process_set_refunds (the_pool s)\<rparr> in
        with_blaze (try_fee_rate_finalization (blaze_env E) n (the_blaze s1)) s1 (\<lambda>rates s.
        case rates of
          None \<Rightarrow> Done () s
        | Some (lt_fee_rate, fee_rate) \<Rightarrow>
            if OutboundPool (the_blaze s) = [] then Done () s
            else expect (filter_unregistered_outbounds C (the_pool s) (OutboundPool (the_blaze s))) (\<lambda>(filtered, requests).
              if filtered = [] then Done () s else compose_outbounds C lt_fee_rate fee_rate filtered requests s))
      else Done () s)"

end
