(* ===== verification/Socket_Calls.thy ===== *)
theory Socket_Calls
  imports Socket_Queue
begin

text \<open>
  The calls of the Bitcoin socket queue, the validation of its unsigned transactions, its dispatch and
  its genesis.
\<close>

definition s_root :: "origin \<Rightarrow> socket_queue \<Rightarrow> 'a sq_result \<Rightarrow> 'a sq_result" where
  "s_root og s k = ensure (og = Root) SBadOrigin s k"

definition s_none :: "origin \<Rightarrow> socket_queue \<Rightarrow> 'a sq_result \<Rightarrow> 'a sq_result" where
  "s_none og s k = ensure (og = NoOrigin) SBadOrigin s k"

definition ensure_service :: "MigrationSequence \<Rightarrow> socket_queue \<Rightarrow> 'a sq_result \<Rightarrow> 'a sq_result" where
  "ensure_service m s k = ensure (ServiceState (the_pool s) = m) SUnderMaintenance s k"

subsection \<open>Administration\<close>

definition set_authority :: "origin \<Rightarrow> acct \<Rightarrow> socket_queue \<Rightarrow> unit sq_result" where
  "set_authority og new s =
     s_root og s (
     ensure (Authority s \<noteq> Some new) SNoWritingSameValue s (
     Done () (s_deposit (AuthoritySet new) (s\<lparr>Authority := Some new\<rparr>))))"

definition sq_set_socket :: "origin \<Rightarrow> acct \<Rightarrow> bool \<Rightarrow> socket_queue \<Rightarrow> unit sq_result" where
  "sq_set_socket og new is_bitcoin s =
     s_root og s (
     if is_bitcoin then
       ensure (BitcoinSocket s \<noteq> Some new) SNoWritingSameValue s (
       Done () (s_deposit (SSocketSet new is_bitcoin) (s\<lparr>BitcoinSocket := Some new\<rparr>)))
     else
       ensure (SSocket s \<noteq> Some new) SNoWritingSameValue s (
       Done () (s_deposit (SSocketSet new is_bitcoin) (s\<lparr>SSocket := Some new\<rparr>))))"

definition set_max_fee_rate :: "SConfig \<Rightarrow> origin \<Rightarrow> nat \<Rightarrow> socket_queue \<Rightarrow> unit sq_result" where
  "set_max_fee_rate C og new s =
     s_root og s (
     ensure (MaxFeeRate s \<noteq> new) SNoWritingSameValue s (
     ensure (fee_rate_ok C new) SOutOfRange s (
     Done () (s_deposit (MaxFeeRateSet new) (s\<lparr>MaxFeeRate := new\<rparr>)))))"

definition set_max_socket_message_bytes :: "origin \<Rightarrow> nat \<Rightarrow> socket_queue \<Rightarrow> unit sq_result" where
  "set_max_socket_message_bytes og new s =
     s_root og s (
     ensure (MaxSocketMessageBytes s \<noteq> new) SNoWritingSameValue s (
     Done () (s_deposit (MaxSocketMessageBytesSet new) (s\<lparr>MaxSocketMessageBytes := new\<rparr>))))"

subsection \<open>Outbound requests\<close>

definition put_messages :: "H256 \<Rightarrow> SocketMessage list \<Rightarrow> socket_queue \<Rightarrow> socket_queue" where
  "put_messages i ms s = s\<lparr>SocketMessages := fold (\<lambda>m. bt_insert (rq_sequence (req_id m)) (i, m)) ms (SocketMessages s)\<rparr>"

definition submit_unsigned_psbt :: "SConfig \<Rightarrow> SEnv \<Rightarrow> origin \<Rightarrow> UnsignedPsbtMessage \<Rightarrow> socket_queue \<Rightarrow> unit sq_result" where
  "submit_unsigned_psbt C E og msg s =
     s_none og s (
     with_blaze (ensure_activation False (the_blaze s) (Done () (the_blaze s))) s (\<lambda>_ s.
     ensure_service Normal s (
     checked_psbt C (up_psbt msg) s (\<lambda>p.
     let i = psbt_txid C p in
     try_psbt_fee_verification C p s (
     ensure_new_request i s (
     ensure (\<not> bt_contains i (RollbackRequests s)) RequestAlreadyExists s (
     bind_outcome (try_psbt_output_verification C E p (up_outputs msg) s) (\<lambda>(des, ser) s.
     let s1 = put_messages i des s in
     Done () (s_deposit (UnsignedPsbtSubmitted i)
       (s1\<lparr>PendingRequests := bt_insert i (PsbtRequest_new (up_psbt msg) ser ReqNormal) (PendingRequests s1)\<rparr>))))))))))"

text \<open>The request with one more signed PSBT, and its combination.\<close>

definition add_signature :: "SConfig \<Rightarrow> acct \<Rightarrow> bytes \<Rightarrow> Psbt \<Rightarrow> PsbtRequest \<Rightarrow> socket_queue \<Rightarrow> (PsbtRequest \<times> Psbt) sq_result" where
  "add_signature C a spsbt signed_obj r s =
     checked_psbt C (pr_combined_psbt r) s (\<lambda>cur.
     ok_or (psbt_combine C cur signed_obj) InvalidPsbt s (\<lambda>combined.
     ok_or (signed_try_insert a spsbt (pr_signed_psbts r)) SOutOfRange s (\<lambda>m.
     Done (r\<lparr>pr_combined_psbt := psbt_serialize C combined, pr_signed_psbts := m\<rparr>, combined) s)))"

text \<open>A request whose PSBT is complete is finalized.\<close>

definition store_signed :: "SConfig \<Rightarrow> H256 \<Rightarrow> acct \<Rightarrow> PsbtRequest \<Rightarrow> Psbt \<Rightarrow> socket_queue \<Rightarrow> unit sq_result" where
  "store_signed C i a r combined s =
     (case psbt_finalize C combined of
        Some fin \<Rightarrow>
          let r2 = r\<lparr>pr_finalized_psbt := psbt_serialize C fin\<rparr>;
              s1 = s\<lparr>FinalizedRequests := bt_insert i r2 (FinalizedRequests s), PendingRequests := bt_remove i (PendingRequests s)\<rparr>;
              s2 = (if pr_request_type r2 = ReqNormal
                    then s1\<lparr>BondedOutboundTx := bt_insert i (pr_socket_messages r2) (BondedOutboundTx s1)\<rparr> else s1)
          in Done () (s_deposit (RequestFinalized i) (s_deposit (SignedPsbtSubmitted i a) s2))
      | None \<Rightarrow>
          Done () (s_deposit (SignedPsbtSubmitted i a) (s\<lparr>PendingRequests := bt_insert i r (PendingRequests s)\<rparr>)))"

definition submit_signed_psbt :: "SConfig \<Rightarrow> origin \<Rightarrow> SignedPsbtMessage \<Rightarrow> socket_queue \<Rightarrow> unit sq_result" where
  "submit_signed_psbt C og msg s =
     s_none og s (
     let a = sp_authority_id msg; spsbt = sp_signed_psbt msg in
     checked_psbt C (sp_unsigned_psbt msg) s (\<lambda>unsigned_obj.
     checked_psbt C spsbt s (\<lambda>signed_obj.
     let i = psbt_txid C unsigned_obj in
     ok_or (bt_get (PendingRequests s) i) RequestDNE s (\<lambda>r.
     ensure (\<not> is_signed_psbt_submitted spsbt r) SignedPsbtAlreadySubmitted s (
     ensure (\<not> is_unsigned_psbt spsbt r) InvalidPsbt s (
     bind_outcome (add_signature C a spsbt signed_obj r s) (\<lambda>(r1, combined) s.
     store_signed C i a r1 combined s)))))))"

text \<open>The confirmations of a broadcast: whether the request is executed now.\<close>

definition confirm_broadcast :: "SEnv \<Rightarrow> acct \<Rightarrow> H256 \<Rightarrow> socket_queue \<Rightarrow> bool sq_result" where
  "confirm_broadcast E a i s =
     (if IsActivated (the_blaze s) then
        let cs = (case bt_get (BroadcastConfirmations s) i of Some m \<Rightarrow> m | None \<Rightarrow> []) in
        ensure (\<not> bt_contains a cs) BroadcastAlreadyConfirmed s (
        ok_or (bt_try_insert a True cs) SOutOfRange s (\<lambda>cs'.
        let s1 = s_deposit (BroadcastConfirmed i a) s in
        if s_majority E \<le> as_u32 (length cs')
        then Done True (s1\<lparr>BroadcastConfirmations := bt_remove i (BroadcastConfirmations s1)\<rparr>)
        else Done False (s1\<lparr>BroadcastConfirmations := bt_insert i cs' (BroadcastConfirmations s1)\<rparr>)))
      else Done True (s\<lparr>BroadcastConfirmations := bt_remove i (BroadcastConfirmations s)\<rparr>))"

definition submit_executed_request :: "SEnv \<Rightarrow> origin \<Rightarrow> ExecutedPsbtMessage \<Rightarrow> socket_queue \<Rightarrow> unit sq_result" where
  "submit_executed_request E og msg s =
     s_none og s (
     let i = ep_txid msg in
     ok_or (bt_get (FinalizedRequests s) i) RequestDNE s (\<lambda>r.
     bind_outcome (confirm_broadcast E (ep_authority_id msg) i s) (\<lambda>should_execute s.
     if should_execute then
       let s1 = (if pr_request_type r = ReqMigration then s\<lparr>the_pool := execute_migration_tx i (the_pool s)\<rparr> else s)
       in Done () (s_deposit (RequestExecuted i)
            (s1\<lparr>FinalizedRequests := bt_remove i (FinalizedRequests s1), ExecutedRequests := bt_insert i r (ExecutedRequests s1)\<rparr>))
     else Done () s)))"

subsection \<open>Rollbacks\<close>

fun rollback_outputs :: "SConfig \<Rightarrow> nat \<Rightarrow> bytes \<Rightarrow> bytes \<Rightarrow> U256 \<Rightarrow> TxOut list \<Rightarrow> socket_queue \<Rightarrow> unit sq_result" where
  "rollback_outputs C n system_vault refund amount [] s = Done () s"
| "rollback_outputs C n system_vault refund amount (out # os) s =
     ok_or (address_from_script C (txo_script out)) SInvalidBitcoinAddress s (\<lambda>to.
     if to = system_vault then
       ensure (n = 2) InvalidPsbt s (rollback_outputs C n system_vault refund amount os s)
     else if to = refund then
       expect (as_u64 amount) (\<lambda>x.
       ensure (txo_value out \<le> x) InvalidPsbt s (rollback_outputs C n system_vault refund amount os s))
     else Fail InvalidPsbt s)"

definition psbt_blaze_inputs :: "Psbt \<Rightarrow> PsbtInput list" where
  "psbt_blaze_inputs p = map (\<lambda>(x, t). \<lparr>pi_txid = convert_txid (txin_txid t), pi_vout = txin_vout t,
     pi_witness_utxo = map_option txo_value (pin_witness_utxo x),
     pi_non_witness_utxo = map_option (map txo_value) (pin_non_witness_utxo x)\<rparr>) (zip (psbt_inputs p) (psbt_tx_input p))"

text \<open>Locking the inputs of a PSBT for a transaction.\<close>

definition lock_psbt :: "H256 \<Rightarrow> Psbt \<Rightarrow> socket_queue \<Rightarrow> unit sq_result" where
  "lock_psbt i p s =
     with_blaze (extract_utxos_from_psbt (psbt_blaze_inputs p) (the_blaze s)) s (\<lambda>inputs s.
     with_blaze (lock_utxos i inputs (the_blaze s)) s (\<lambda>_ s. Done () s))"

definition submit_rollback_request :: "SConfig \<Rightarrow> SEnv \<Rightarrow> origin \<Rightarrow> RollbackPsbtMessage \<Rightarrow> socket_queue \<Rightarrow> unit sq_result" where
  "submit_rollback_request C E og msg s =
     s_root og s (
     ensure_service Normal s (
     checked_psbt C (rp_unsigned_psbt msg) s (\<lambda>p.
     let i = psbt_txid C p; who = rp_who msg in
     try_psbt_fee_verification C p s (
     ensure_new_request i s (
     ensure (\<not> bt_contains i (RollbackRequests s)) RequestAlreadyExists s (
     ensure (\<not> bt_contains (rp_txid msg, rp_vout msg) (BondedRollbackOutputs s)) RequestAlreadyExists s (
     ok_or (get_vault_address who (the_pool s)) SUserDNE s (\<lambda>vault_addr.
     ok_or (get_refund_address who (the_pool s)) SUserDNE s (\<lambda>refund_raw.
     ok_or (parse_address C refund_raw) SInvalidBitcoinAddress s (\<lambda>refund.
     bind_outcome (try_get_tx_info C E (generate_hash_key C (rp_txid msg) (rp_vout msg) who (rp_amount msg)) s) (\<lambda>info s.
     ensure (ix_to info = 0) RequestAlreadyExists s (
     let os = psbt_tx_output p in
     ensure (length os \<le> 2) InvalidPsbt s (
     ok_or (get_system_vault (CurrentRound (the_pool s)) (the_pool s)) SystemVaultDNE s (\<lambda>sv_raw.
     ok_or (parse_address C sv_raw) SInvalidBitcoinAddress s (\<lambda>system_vault.
     bind_outcome (rollback_outputs C (length os) system_vault refund (rp_amount msg) os s) (\<lambda>_ s.
     bind_outcome (if IsActivated (the_blaze s) then lock_psbt i p s else Done () s) (\<lambda>_ s.
     Done () (s_deposit (RollbackPsbtSubmitted i)
       (s\<lparr>RollbackRequests := bt_insert i (RollbackRequest_new (rp_unsigned_psbt msg) who (rp_txid msg) (rp_vout msg) vault_addr
            (rp_amount msg)) (RollbackRequests s),
          BondedRollbackOutputs := bt_insert (rp_txid msg, rp_vout msg) i (BondedRollbackOutputs s)\<rparr>)))))))))))))))))))"

definition submit_rollback_poll :: "SEnv \<Rightarrow> origin \<Rightarrow> RollbackPollMessage \<Rightarrow> socket_queue \<Rightarrow> unit sq_result" where
  "submit_rollback_poll E og msg s =
     s_none og s (
     let a = rv_authority_id msg; i = rv_txid msg; approve = rv_is_approved msg in
     ok_or (bt_get (RollbackRequests s) i) RequestDNE s (\<lambda>r.
     ensure (\<not> rb_is_approved r) RequestAlreadyApproved s (
     ensure (bt_get (rb_votes r) a \<noteq> Some approve) SNoWritingSameValue s (
     ok_or (bt_try_insert a approve (rb_votes r)) SOutOfRange s (\<lambda>votes.
     let s1 = s_deposit (RollbackPollSubmitted i a approve) s;
         r1 = r\<lparr>rb_votes := votes\<rparr> in
     if s_majority E \<le> as_u32 (length (filter snd votes)) then
       let s2 = s_deposit (RollbackApproved i)
             (s1\<lparr>PendingRequests := bt_insert i (PsbtRequest_new (rb_unsigned_psbt r1) [] ReqRollback) (PendingRequests s1)\<rparr>)
       in Done () (s2\<lparr>RollbackRequests := bt_insert i (r1\<lparr>rb_is_approved := True\<rparr>) (RollbackRequests s2)\<rparr>)
     else Done () (s1\<lparr>RollbackRequests := bt_insert i r1 (RollbackRequests s1)\<rparr>))))))"

definition drop_pending_rollback_request :: "origin \<Rightarrow> H256 \<Rightarrow> socket_queue \<Rightarrow> unit sq_result" where
  "drop_pending_rollback_request og i s =
     s_root og s (
     ensure_service Normal s (
     ok_or (bt_get (RollbackRequests s) i) RequestDNE s (\<lambda>r.
     ensure (\<not> rb_is_approved r) RequestDNE s (
     let s1 = s\<lparr>RollbackRequests := bt_remove i (RollbackRequests s)\<rparr> in
     if IsActivated (the_blaze s1) then with_blaze (unlock_utxos i (the_blaze s1)) s1 (\<lambda>_ s. Done () s)
     else Done () s1))))"

subsection \<open>Migrations and fee bumps\<close>

definition submit_migration_request :: "SConfig \<Rightarrow> origin \<Rightarrow> bytes \<Rightarrow> socket_queue \<Rightarrow> unit sq_result" where
  "submit_migration_request C og psbt s =
     s_root og s (
     ensure_service UTXOTransfer s (
     checked_psbt C psbt s (\<lambda>p.
     let i = psbt_txid C p in
     try_psbt_fee_verification C p s (
     ensure_new_request i s (
     ensure (length (psbt_tx_output p) = 1) InvalidPsbt s (
     ok_or (get_system_vault (sat_add32 (CurrentRound (the_pool s)) 1) (the_pool s)) SystemVaultDNE s (\<lambda>system_vault.
     ok_or (output_address C (hd (psbt_tx_output p))) SInvalidBitcoinAddress s (\<lambda>to.
     ensure (to = system_vault) InvalidPsbt s (
     Done () (s_deposit (MigrationPsbtSubmitted i)
       (s\<lparr>PendingRequests := bt_insert i (PsbtRequest_new psbt [] ReqMigration) (PendingRequests s),
          the_pool := add_migration_tx i (the_pool s), the_blaze := clear_utxos (the_blaze s)\<rparr>)))))))))))"

text \<open>The messages of the replaced transaction are paired with the new one.\<close>

fun repair_messages :: "SConfig \<Rightarrow> H256 \<Rightarrow> bytes list \<Rightarrow> socket_queue \<Rightarrow> unit sq_result" where
  "repair_messages C i [] s = Done () s"
| "repair_messages C i (raw # ms) s =
     s_parsed (SocketMessage_try_from (s_codec C) raw) SInvalidSocketMessage s (\<lambda>m.
     repair_messages C i ms (s\<lparr>SocketMessages := bt_insert (rq_sequence (req_id m)) (i, m) (SocketMessages s)\<rparr>))"

definition replace_request :: "SConfig \<Rightarrow> H256 \<Rightarrow> H256 \<Rightarrow> bytes \<Rightarrow> PsbtRequest \<Rightarrow> socket_queue \<Rightarrow> unit sq_result" where
  "replace_request C old_i new_i new_psbt r s =
     (case pr_request_type r of
        ReqNormal \<Rightarrow>
          bind_outcome (repair_messages C new_i (pr_socket_messages r) s) (\<lambda>_ s.
          Done () (s\<lparr>BondedOutboundTx := bt_remove old_i (BondedOutboundTx s)\<rparr>))
      | ReqMigration \<Rightarrow> Done () (s\<lparr>the_pool := add_migration_tx new_i (remove_migration_tx old_i (the_pool s))\<rparr>)
      | ReqRollback \<Rightarrow>
          ok_or (bt_get (RollbackRequests s) old_i) RequestDNE s (\<lambda>rb.
          let rb' = rb\<lparr>rb_unsigned_psbt := new_psbt\<rparr> in
          Done () (s\<lparr>RollbackRequests := bt_insert new_i rb' (bt_remove old_i (RollbackRequests s)),
             BondedRollbackOutputs := bt_insert (rb_txid rb', rb_vout rb') new_i (BondedRollbackOutputs s)\<rparr>)))"

text \<open>With Blaze, the outputs of the old transaction are released and the inputs of the new one locked.\<close>

definition relock_psbt :: "H256 \<Rightarrow> H256 \<Rightarrow> Psbt \<Rightarrow> socket_queue \<Rightarrow> unit sq_result" where
  "relock_psbt old_i new_i p s =
     (if IsActivated (the_blaze s)
      then with_blaze (unlock_utxos old_i (the_blaze s)) s (\<lambda>_ s. lock_psbt new_i p s) else Done () s)"

definition submit_bump_fee_request :: "SConfig \<Rightarrow> origin \<Rightarrow> H256 \<Rightarrow> bytes \<Rightarrow> socket_queue \<Rightarrow> unit sq_result" where
  "submit_bump_fee_request C og old_i new_psbt s =
     s_root og s (
     ok_or (bt_get (ExecutedRequests s) old_i) RequestDNE s (\<lambda>r.
     ensure (pr_unsigned_psbt r \<noteq> new_psbt) SNoWritingSameValue s (
     ensure_service (if pr_request_type r = ReqMigration then UTXOTransfer else Normal) s (
     checked_psbt C (pr_unsigned_psbt r) s (\<lambda>old_p.
     checked_psbt C new_psbt s (\<lambda>new_p.
     let new_i = psbt_txid C new_p in
     ensure (new_i \<noteq> old_i) SNoWritingSameValue s (
     try_psbt_fee_verification C new_p s (
     bind_outcome (try_bump_fee_psbt_verification C old_p new_p (pr_request_type r) s) (\<lambda>_ s.
     ensure_new_request new_i s (
     ensure (\<not> bt_contains new_i (RollbackRequests s)) RequestAlreadyExists s (
     bind_outcome (replace_request C old_i new_i new_psbt r s) (\<lambda>_ s.
     let s1 = s\<lparr>ExecutedRequests := bt_remove old_i (ExecutedRequests s)\<rparr> in
     bind_outcome (relock_psbt old_i new_i new_p s1) (\<lambda>_ s.
     Done () (s_deposit (BumpFeePsbtSubmitted old_i new_i)
       (s\<lparr>PendingRequests := bt_insert new_i (PsbtRequest_new new_psbt (pr_socket_messages r) (pr_request_type r))
            (PendingRequests s)\<rparr>)))))))))))))))"

subsection \<open>Dispatch, unsigned transactions and genesis\<close>

datatype sq_call =
    SetAuthority acct
  | SetSqSocket acct bool
  | SubmitUnsignedPsbt UnsignedPsbtMessage bytes
  | SubmitSignedPsbt SignedPsbtMessage bytes
  | SubmitExecutedRequest ExecutedPsbtMessage bytes
  | SubmitRollbackRequest RollbackPsbtMessage
  | SubmitRollbackPoll RollbackPollMessage bytes
  | SubmitMigrationRequest bytes
  | SetMaxFeeRate nat
  | SubmitBumpFeeRequest H256 bytes
  | DropPendingRollbackRequest H256
  | SetMaxSocketMessageBytes nat

definition sq_call_run :: "SConfig \<Rightarrow> SEnv \<Rightarrow> origin \<Rightarrow> sq_call \<Rightarrow> socket_queue \<Rightarrow> unit sq_result" where
  "sq_call_run C E og c s =
     (case c of
        SetAuthority a \<Rightarrow> set_authority og a s
      | SetSqSocket a b \<Rightarrow> sq_set_socket og a b s
      | SubmitUnsignedPsbt msg _ \<Rightarrow> submit_unsigned_psbt C E og msg s
      | SubmitSignedPsbt msg _ \<Rightarrow> submit_signed_psbt C og msg s
      | SubmitExecutedRequest msg _ \<Rightarrow> submit_executed_request E og msg s
      | SubmitRollbackRequest msg \<Rightarrow> submit_rollback_request C E og msg s
      | SubmitRollbackPoll msg _ \<Rightarrow> submit_rollback_poll E og msg s
      | SubmitMigrationRequest psbt \<Rightarrow> submit_migration_request C og psbt s
      | SetMaxFeeRate n \<Rightarrow> set_max_fee_rate C og n s
      | SubmitBumpFeeRequest i psbt \<Rightarrow> submit_bump_fee_request C og i psbt s
      | DropPendingRollbackRequest i \<Rightarrow> drop_pending_rollback_request og i s
      | SetMaxSocketMessageBytes n \<Rightarrow> set_max_socket_message_bytes og n s)"

datatype sq_validity = SValid | SBadSigner | SBadProof | SInvalidCall

definition signed_by :: "bool \<Rightarrow> bool \<Rightarrow> sq_validity" where
  "signed_by authorised proof = (if \<not> authorised then SBadSigner else if \<not> proof then SBadProof else SValid)"

text \<open>Signature verification and the hashes of the message tags are parameters.\<close>

record SSig =
  s_sig_verify :: "bytes \<Rightarrow> bytes \<Rightarrow> acct \<Rightarrow> bool"
  s_tag_hash :: "string \<Rightarrow> bytes"

definition sq_validate_unsigned :: "SConfig \<Rightarrow> SSig \<Rightarrow> SEnv \<Rightarrow> sq_call \<Rightarrow> socket_queue \<Rightarrow> sq_validity" where
  "sq_validate_unsigned C G E c s =
     (case c of
        SubmitUnsignedPsbt msg sig \<Rightarrow>
          signed_by (sq_verify_authority_of E (up_authority_id msg) s)
            (s_sig_verify G sig (s_tag_hash G ''UnsignedPsbt'' @ up_psbt msg) (up_authority_id msg))
      | SubmitSignedPsbt msg sig \<Rightarrow>
          signed_by (if ServiceState (the_pool s) = UTXOTransfer
                     then sp_authority_id msg \<in> set (get_relay_executives (CurrentRound (the_pool s)) (the_pool s))
                     else s_executives E (sp_authority_id msg))
            (s_sig_verify G sig (s_tag_hash G ''SignedPsbt'' @ sp_signed_psbt msg) (sp_authority_id msg))
      | SubmitExecutedRequest msg sig \<Rightarrow>
          signed_by (sq_verify_authority_of E (ep_authority_id msg) s)
            (s_sig_verify G sig (s_tag_hash G ''ExecutedPsbt'' @ h256_bytes C (ep_txid msg)) (ep_authority_id msg))
      | SubmitRollbackPoll msg sig \<Rightarrow>
          signed_by (s_is_authority E (rv_authority_id msg))
            (s_sig_verify G sig (s_tag_hash G ''RollbackPoll'' @ h256_bytes C (rv_txid msg) @ [if rv_is_approved msg then 1 else 0])
               (rv_authority_id msg))
      | _ \<Rightarrow> SInvalidCall)"

definition sq_genesis :: "SConfig \<Rightarrow> acct option \<Rightarrow> socket_queue \<Rightarrow> socket_queue" where
  "sq_genesis C authority s =
     (let s1 = (case authority of Some a \<Rightarrow> s\<lparr>Authority := Some a\<rparr> | None \<Rightarrow> s)
      in s1\<lparr>MaxFeeRate := DefaultMaxFeeRate C, MaxSocketMessageBytes := DefaultMaxSocketMessageBytes C\<rparr>)"

end
