(* ===== verification/Socket_Select.thy ===== *)
theory Socket_Select
  imports Coin_Selection
begin

text \<open>
  Whatever the amounts, also when sums overflow, a selection of coins is a part of the pool: the
  searches only ever record subsequences of what they are given.
\<close>

definition drawn :: "ScoredUtxo list \<Rightarrow> UtxoInfoWithSize list \<Rightarrow> bool" where
  "drawn pool sel \<longleftrightarrow> (\<exists>ys. mset ys \<subseteq># mset pool \<and> sel = map su_utxo ys)"

lemma drawn_Nil [simp]: "drawn pool []"
  by (auto simp: drawn_def)

lemma drawn_mset: "mset pool = mset pool' \<Longrightarrow> drawn pool sel \<Longrightarrow> drawn pool' sel"
  by (simp add: drawn_def)

lemma drawn_mono: "drawn pool sel \<Longrightarrow> mset pool \<subseteq># mset pool' \<Longrightarrow> drawn pool' sel"
  unfolding drawn_def using subset_mset.order_trans by blast

lemma drawn_single: "x \<in> set pool \<Longrightarrow> drawn pool [su_utxo x]"
  unfolding drawn_def by (rule exI [of _ "[x]"]) simp

text \<open>Taking the next element, or leaving it.\<close>

lemma mset_take_next:
  assumes "i < length pool" "mset cur \<subseteq># mset (take i pool)"
  shows "mset (cur @ [pool ! i]) \<subseteq># mset (take (i + 1) pool)" "mset cur \<subseteq># mset (take (i + 1) pool)"
proof -
  let ?T = "mset (take i pool)"
  have T: "mset (take (i + 1) pool) = add_mset (pool ! i) ?T" using assms(1) by (simp add: take_Suc_conv_app_nth)
  show "mset (cur @ [pool ! i]) \<subseteq># mset (take (i + 1) pool)" using assms(2) unfolding T by simp
  have "?T \<subseteq># add_mset (pool ! i) ?T" by simp
  with assms(2) show "mset cur \<subseteq># mset (take (i + 1) pool)" unfolding T by (rule subset_mset.order_trans)
qed

lemma mset_take_all: "mset cur \<subseteq># mset (take i pool) \<Longrightarrow> mset cur \<subseteq># mset pool"
  by (metis append_take_drop_id mset_append mset_subset_eq_add_left subset_mset.order_trans)

lemma bnb_dfs_drawn:
  "bnb_dfs B i cur v w st = (tr', best', c') \<Longrightarrow> st = (tr, best, c) \<Longrightarrow> mset cur \<subseteq># mset (take i (bs_pool B)) \<Longrightarrow>
   drawn (bs_pool B) best \<Longrightarrow> drawn (bs_pool B) best'"
proof (induction B i cur v w st arbitrary: tr best c tr' best' c' rule: bnb_dfs.induct)
  case (1 B i cur v w t0 b0 c0)
  have cur: "drawn (bs_pool B) (map su_utxo cur)" using mset_take_all [OF 1(5)] by (auto simp: drawn_def)
  show ?case
  proof (cases "bs_max_tries B \<le> t0 \<or> add64 v (bs_suffix_sums B ! i) < bs_target B \<or>
      add64 (bs_target B) (bs_cost_of_change B) < v \<or> bs_max_weight B < w \<or> bs_target B \<le> v \<or> c0 = 0 \<or> length (bs_pool B) \<le> i")
    case True
    with 1(3,4,6) cur show ?thesis by (subst (asm) bnb_dfs.simps) (auto simp: Let_def split: if_splits)
  next
    case False
    let ?x = "bs_pool B ! i"
    obtain t1 b1 c1 where 2: "bnb_dfs B (i + 1) (cur @ [?x]) (add64 v (su_effective_value ?x)) (add64 w (su_vbytes ?x))
        (t0 + 1, b0, c0) = (t1, b1, c1)" by (metis prod_cases3)
    with False 1(3) have 3: "bnb_dfs B (i + 1) cur v w (t1, b1, c1) = (tr', best', c')"
      by (subst (asm) bnb_dfs.simps) (simp add: Let_def)
    have i: "i < length (bs_pool B)" using False by simp
    note n = mset_take_next [OF i 1(5)]
    have "drawn (bs_pool B) b1" using 1(1) [OF _ _ _ _ _ _ _ refl 2 refl n(1)] 1(4,6) False by simp
    then show ?thesis using 1(2) [OF _ _ _ _ _ _ _ refl] 2 3 n(2) False by simp
  qed
qed

lemma knapsack_dfs_drawn:
  "knapsack_dfs K i cur v w st = (tr', best', c') \<Longrightarrow> st = (tr, best, c) \<Longrightarrow> mset cur \<subseteq># mset (take i (kn_applicable K)) \<Longrightarrow>
   drawn (kn_applicable K) best \<Longrightarrow> drawn (kn_applicable K) best'"
proof (induction K i cur v w st arbitrary: tr best c tr' best' c' rule: knapsack_dfs.induct)
  case (1 K i cur v w t0 b0 c0)
  have cur: "drawn (kn_applicable K) (map su_utxo cur)" using mset_take_all [OF 1(5)] by (auto simp: drawn_def)
  show ?case
  proof (cases "kn_max_tries K \<le> t0 \<or> add64 v (kn_suffix_sums K ! i) < kn_target K \<or>
      kn_max_weight K < w \<or> kn_target K \<le> v \<or> c0 = kn_target K \<or> length (kn_applicable K) \<le> i")
    case True
    with 1(3,4,6) cur show ?thesis by (subst (asm) knapsack_dfs.simps) (auto simp: Let_def split: if_splits)
  next
    case False
    let ?x = "kn_applicable K ! i"
    obtain t1 b1 c1 where 2: "knapsack_dfs K (i + 1) (cur @ [?x]) (add64 v (su_effective_value ?x)) (add64 w (su_vbytes ?x))
        (t0 + 1, b0, c0) = (t1, b1, c1)" by (metis prod_cases3)
    with False 1(3) have 3: "knapsack_dfs K (i + 1) cur v w (t1, b1, c1) = (tr', best', c')"
      by (subst (asm) knapsack_dfs.simps) (simp add: Let_def)
    have i: "i < length (kn_applicable K)" using False by simp
    note n = mset_take_next [OF i 1(5)]
    have "drawn (kn_applicable K) b1" using 1(1) [OF _ _ _ _ _ _ refl 2 refl n(1)] 1(4,6) False by simp
    then show ?thesis using 1(2) [OF _ _ _ _ _ _ refl] 2 3 n(2) False by simp
  qed
qed

lemma select_coins_bnb_drawn:
  assumes "select_coins_bnb pool t c w mx = Some (sel, st)"
  shows "drawn pool sel"
proof -
  let ?B = "\<lparr>bs_pool = bnb_order pool, bs_suffix_sums = suffix_sums (bnb_order pool), bs_target = t, bs_cost_of_change = c,
      bs_max_weight = w, bs_max_tries = mx\<rparr>"
  obtain tr b c' where d: "bnb_dfs ?B 0 [] 0 0 (0, [], U64_MAX) = (tr, b, c')" by (metis prod_cases3)
  have "drawn (bnb_order pool) b" using bnb_dfs_drawn [OF d refl] by simp
  then have "drawn pool b" by (rule drawn_mset [rotated]) simp
  with assms d show ?thesis by (simp add: select_coins_bnb_def Let_def split: if_splits)
qed

lemma select_coins_knapsack_drawn:
  assumes sel: "select_coins_knapsack pool t ch w = Some (sel, st)"
  shows "drawn pool sel"
proof -
  obtain a l e where c: "fold (categorize t ch w) pool ([], None, None) = (a, l, e)" by (metis prod_cases3)
  note C = categorize_fold [OF c]
  let ?K = "\<lparr>kn_applicable = knapsack_order a, kn_suffix_sums = suffix_sums (knapsack_order a), kn_target = t,
      kn_max_weight = w, kn_max_tries = KNAPSACK_TRIES\<rparr>"
  obtain tr b d where s: "knapsack_dfs ?K 0 [] 0 0 (0, [], U64_MAX) = (tr, b, d)" by (metis prod_cases3)
  have "drawn (knapsack_order a) b" using knapsack_dfs_drawn [OF s refl] by simp
  then have "drawn a b" by (rule drawn_mset [rotated]) simp
  then have b: "drawn pool b" by (rule drawn_mono) (use C in \<open>simp add: multiset_filter_subset\<close>)
  have x: "drawn pool [su_utxo x]" if "e = Some x \<or> l = Some x" for x
    using that C by (intro drawn_single) blast
  from sel b x show ?thesis
    by (auto simp: select_coins_knapsack_def c s Let_def knapsack_choose_def single_larger_def split: option.splits if_splits)
qed

theorem select_coins_drawn:
  assumes "select_coins pool t c w mx ch = Some (sel, st)"
  shows "drawn pool sel"
  using assms select_coins_bnb_drawn select_coins_knapsack_drawn by (auto simp: select_coins_def split: option.splits)

end
