(* ===== verification/Socket_Machine.thy ===== *)
theory Socket_Machine
  imports Socket_Calls Socket_Select Blaze_Safety Reg_Pool_Machine
begin

text \<open>
  The Bitcoin bridge as one machine: the calls of the socket queue, of Blaze and of the registration
  pool, the block hook, and what the relay manager and the membership pallet call. What one pallet
  asks another is answered from the common state. The machine refines those of Blaze and of the pool.
\<close>

named_theorems socket_Done "inversion of successful operations of the socket queue"

lemmas [socket_Done] = guard_Done

subsection \<open>Inversion\<close>

lemma with_blaze_Done [socket_Done]:
  "with_blaze r s k = Done u s' \<longleftrightarrow> (\<exists>a b. r = Done a b \<and> k a (s\<lparr>the_blaze := b\<rparr>) = Done u s')"
  by (auto simp: with_blaze_def split: outcome.splits)

lemma s_parsed_Done [socket_Done]: "s_parsed v e s k = Done u s' \<longleftrightarrow> (\<exists>x. v = Parsed x \<and> k x = Done u s')"
  by (auto simp: s_parsed_def split: parse.splits)

lemma s_guards_Done [socket_Done]:
  "s_root og s k = Done u s' \<longleftrightarrow> og = Root \<and> k = Done u s'"
  "s_none og s k = Done u s' \<longleftrightarrow> og = NoOrigin \<and> k = Done u s'"
  "ensure_service m s k = Done u s' \<longleftrightarrow> ServiceState (the_pool s) = m \<and> k = Done u s'"
  by (simp_all add: s_root_def s_none_def ensure_service_def ensure_Done)

lemma checked_psbt_Done [socket_Done]:
  "checked_psbt C b s k = Done u s' \<longleftrightarrow> (\<exists>p. psbt_deserialize C b = Some p \<and> k p = Done u s')"
  by (simp add: checked_psbt_def ok_or_Done)

lemma fee_verification_Done [socket_Done]:
  "try_psbt_fee_verification C p s k = Done u s' \<longleftrightarrow>
   (\<exists>fee vb. psbt_fee C p = Some fee \<and> estimate_finalized_vb C p = Some vb \<and> fee div vb \<le> MaxFeeRate s \<and> k = Done u s')"
  by (auto simp: try_psbt_fee_verification_def guard_Done)

lemma new_request_Done [socket_Done]:
  "ensure_new_request i s k = Done u s' \<longleftrightarrow> bt_get (PendingRequests s) i = None \<and> bt_get (FinalizedRequests s) i = None \<and>
     bt_get (ExecutedRequests s) i = None \<and> k = Done u s'"
  by (auto simp: ensure_new_request_def ensure_Done bt_contains_def)

text \<open>Reading the EVM and checking outputs change nothing.\<close>

lemma evm_pure:
  "try_evm_call C E x t c s = Done v s' \<Longrightarrow> s' = s"
  "sq_try_get_request C E rid s = Done i s' \<Longrightarrow> s' = s"
  "try_get_tx_info C E h s = Done j s' \<Longrightarrow> s' = s"
  by (auto simp: try_evm_call_def sq_try_get_request_def try_get_tx_info_def socket_Done)

lemma verify_message_Done:
  assumes "sq_verify_socket_message C E raw s = Done u s'"
  shows "s' = s" "\<exists>m. SocketMessage_try_from (s_codec C) raw = Parsed m \<and> SocketMessage_encode (s_codec C) m = raw \<and>
    bt_get (SocketMessages s) (rq_sequence (req_id m)) = None"
  using assms by (auto simp: sq_verify_socket_message_def Let_def socket_Done dest!: evm_pure)

lemma check_messages_pure: "check_messages C E to ms acc n s = Done r s' \<Longrightarrow> s' = s"
proof (induction ms arbitrary: acc n r)
  case (Cons raw ms)
  obtain des ser seqs where "acc = (des, ser, seqs)" by (metis prod_cases3)
  with Cons.prems Cons.IH [of _ _ r] show ?case by (auto simp: socket_Done dest!: verify_message_Done(1))
qed simp

lemma check_outputs_pure: "check_outputs C E n v m os acc s = Done r s' \<Longrightarrow> s' = s"
  by (induction os arbitrary: acc r) (auto simp: socket_Done dest!: check_messages_pure split: if_splits)

lemma output_verification_pure: "try_psbt_output_verification C E p outs s = Done r s' \<Longrightarrow> s' = s"
  by (auto simp: try_psbt_output_verification_def Let_def socket_Done dest!: check_outputs_pure)

lemma rollback_outputs_pure: "rollback_outputs C n v rf x os s = Done u s' \<Longrightarrow> s' = s"
  by (induction C n v rf x os s rule: rollback_outputs.induct) (auto simp: socket_Done split: if_splits)

lemma bump_outputs_pure: "bump_outputs C v ty old d os s = Done u s' \<Longrightarrow> s' = s"
  by (induction C v ty old d os s rule: bump_outputs.induct) (auto simp: socket_Done)

lemma bump_verification_pure: "try_bump_fee_psbt_verification C p q ty s = Done u s' \<Longrightarrow> s' = s"
  by (auto simp: try_bump_fee_psbt_verification_def Let_def socket_Done dest!: bump_outputs_pure)

lemma extract_pure: "extract_utxos_from_psbt xs b = Done us b' \<Longrightarrow> b' = b"
  by (induction xs b arbitrary: us rule: extract_utxos_from_psbt.induct) (auto simp: socket_Done)

lemma lock_psbt_Done:
  assumes "lock_psbt i p s = Done u s'"
  obtains us b where "extract_utxos_from_psbt (psbt_blaze_inputs p) (the_blaze s) = Done us (the_blaze s)"
    "lock_utxos i us (the_blaze s) = Done () b" "s' = s\<lparr>the_blaze := b\<rparr>"
  using assms by (auto simp: lock_psbt_def socket_Done) (metis extract_pure)

subsection \<open>The machine\<close>

definition socket_default :: "SConfig \<Rightarrow> acct list \<Rightarrow> socket_queue" where
  "socket_default C ms =
     \<lparr>SSocket = None, BitcoinSocket = None, Authority = None, SocketMessages = [], PendingRequests = [], FinalizedRequests = [],
      ExecutedRequests = [], RollbackRequests = [], BondedOutboundTx = [], BondedRollbackOutputs = [], MaxFeeRate = 0,
      MaxSocketMessageBytes = 0, BroadcastConfirmations = [], SEvents = [],
      the_pool = initialize_members ms (pool_genesis (s_pconfig C) pool_default), the_blaze = blaze_default\<rparr>"

text \<open>What Blaze and the pool read of the other pallets.\<close>

definition bridge_blaze_env :: "SConfig \<Rightarrow> SEnv \<Rightarrow> block_number \<Rightarrow> socket_queue \<Rightarrow> BEnv" where
  "bridge_blaze_env C E n s =
     \<lparr>b_is_authority = s_is_authority E, b_majority = s_majority E,
      bonded_descriptor = (\<lambda>a. get_bonded_descriptor (s_pconfig C) a (the_pool s)),
      verify_socket_message = (\<lambda>raw. case sq_verify_socket_message C E raw s of Done _ _ \<Rightarrow> True | _ \<Rightarrow> False),
      sq_verify_authority = (\<lambda>a. sq_verify_authority_of E a s), sq_max_fee_rate = MaxFeeRate s,
      sq_max_message_bytes = MaxSocketMessageBytes s, b_block_number = n\<rparr>"

definition bridge_pool_env :: "acct list \<Rightarrow> block_number \<Rightarrow> socket_queue \<Rightarrow> PEnv" where
  "bridge_pool_env xs n s =
     \<lparr>executives = xs, is_ready_for_migrate = sq_is_ready_for_migrate s,
      verify_legacy_authority = (\<lambda>a. sq_verify_legacy_authority a s), p_block_number = n\<rparr>"

datatype socket_op =
    SqCall SEnv origin sq_call
  | SqInit SEnv block_number
  | SqBlaze SEnv block_number origin blaze_call
  | SqPool "acct list" block_number origin pool_call
  | SqReplace acct acct
  | SqMembers "acct list"

text \<open>The relay manager replaces an authority in the three pallets, in this order; errors there panic.\<close>

definition bridge_replace :: "acct \<Rightarrow> acct \<Rightarrow> socket_queue \<Rightarrow> socket_queue option" where
  "bridge_replace old new s =
     (case sq_replace_authority old new s of
        Done _ s1 \<Rightarrow>
          (case pool_replace_authority old new (the_pool s1) of
             Done _ p \<Rightarrow>
               (case blaze_replace_authority old new (the_blaze s1) of
                  Done _ b \<Rightarrow> Some (s1\<lparr>the_pool := p, the_blaze := b\<rparr>)
                | _ \<Rightarrow> None)
           | _ \<Rightarrow> None)
      | _ \<Rightarrow> None)"

definition socket_exec :: "SConfig \<Rightarrow> socket_op \<Rightarrow> socket_queue \<Rightarrow> socket_queue option" where
  "socket_exec C x s =
     (case x of
        SqCall E og c \<Rightarrow> settle s (sq_call_run C E og c s)
      | SqInit E n \<Rightarrow> (case sq_on_initialize C E n s of Done _ s' \<Rightarrow> Some s' | Fail _ s' \<Rightarrow> Some s' | Panic \<Rightarrow> None)
      | SqBlaze E n og c \<Rightarrow>
          map_option (\<lambda>b. s\<lparr>the_blaze := b\<rparr>)
            (settle (the_blaze s) (blaze_call_run (s_bconfig C) (bridge_blaze_env C E n s) og c (the_blaze s)))
      | SqPool xs n og c \<Rightarrow>
          map_option (\<lambda>p. s\<lparr>the_pool := p\<rparr>)
            (settle (the_pool s) (pool_call_run (s_pconfig C) (bridge_pool_env xs n s) og c (the_pool s)))
      | SqReplace old new \<Rightarrow> bridge_replace old new s
      | SqMembers ms \<Rightarrow> Some (s\<lparr>the_pool := change_members_sorted ms (the_pool s)\<rparr>))"

text \<open>
  What the code leaves to its callers. Root submits rollbacks and fee bumps whose inputs are available,
  and starts the transfer of outputs when no transaction of Blaze is pending; the executor of a message
  in the mode without Blaze is not also waiting in the outbound pool; a transaction that Blaze composes
  has a new hash.
\<close>

definition psbt_lockable :: "Psbt \<Rightarrow> blaze \<Rightarrow> bool" where
  "psbt_lockable p b = (case extract_utxos_from_psbt (psbt_blaze_inputs p) b of Done xs _ \<Rightarrow> lockable b xs | _ \<Rightarrow> True)"

definition call_guard :: "SConfig \<Rightarrow> sq_call \<Rightarrow> socket_queue \<Rightarrow> bool" where
  "call_guard C c s =
     (case c of
        SubmitRollbackRequest msg \<Rightarrow> IsActivated (the_blaze s) \<longrightarrow>
          (case psbt_deserialize C (rp_unsigned_psbt msg) of Some p \<Rightarrow> psbt_lockable p (the_blaze s) | None \<Rightarrow> True)
      | SubmitBumpFeeRequest i psbt \<Rightarrow> IsActivated (the_blaze s) \<longrightarrow>
          (case (psbt_deserialize C psbt, unlock_utxos i (the_blaze s)) of (Some p, Done _ b) \<Rightarrow> psbt_lockable p b | _ \<Rightarrow> True)
      | SubmitMigrationRequest _ \<Rightarrow> IsActivated (the_blaze s) \<longrightarrow> PendingTxs (the_blaze s) = []
      | SubmitUnsignedPsbt msg _ \<Rightarrow>
          (\<forall>raw\<in>set (concat (map snd (up_outputs msg))).
             message_sequence (s_codec C) raw \<notin> message_sequence (s_codec C) ` set (OutboundPool (the_blaze s)))
      | _ \<Rightarrow> True)"

definition known_request :: "H256 \<Rightarrow> socket_queue \<Rightarrow> bool" where
  "known_request i s \<longleftrightarrow> bt_contains i (PendingRequests s) \<or> bt_contains i (FinalizedRequests s) \<or>
     bt_contains i (ExecutedRequests s) \<or> bt_contains i (RollbackRequests s)"

definition init_guard :: "SConfig \<Rightarrow> SEnv \<Rightarrow> block_number \<Rightarrow> socket_queue \<Rightarrow> bool" where
  "init_guard C E n s \<longleftrightarrow> 0 < s_majority E \<and>
     (case sq_on_initialize C E n s of
        Done _ s' \<Rightarrow> list_all (\<lambda>e. case e of UnsignedPsbtSubmitted i \<Rightarrow> \<not> known_request i s | _ \<Rightarrow> True)
          (drop (length (SEvents s)) (SEvents s'))
      | _ \<Rightarrow> True)"

definition socket_guard :: "SConfig \<Rightarrow> socket_op \<Rightarrow> socket_queue \<Rightarrow> bool" where
  "socket_guard C x s =
     (case x of
        SqCall E og c \<Rightarrow> call_guard C c s
      | SqInit E n \<Rightarrow> init_guard C E n s
      | SqPool xs n og c \<Rightarrow> pool_guard (PCall (bridge_pool_env xs n s) og c)
      | SqReplace old new \<Rightarrow> replaceable old new (the_blaze s)
      | _ \<Rightarrow> True)"

inductive socket_reachable :: "SConfig \<Rightarrow> socket_queue \<Rightarrow> bool" for C where
  socket_start: "socket_reachable C (sq_genesis C authority (socket_default C ms))"
| socket_move: "socket_reachable C s \<Longrightarrow> socket_guard C x s \<Longrightarrow> socket_exec C x s = Some s' \<Longrightarrow> socket_reachable C s'"

end
