(* ===== verification/Socket_Refine.thy ===== *)
theory Socket_Refine
  imports Socket_Machine
begin

text \<open>
  What each operation of the socket queue does when it succeeds, and that the bridge refines the
  machines of Blaze and of the registration pool: the queue meets the conditions the two pallets put
  on their callers. In particular the outputs that \<open>on_initialize\<close> locks are available.
\<close>

lemma s_deposit_fields [simp]:
  "PendingRequests (s_deposit e s) = PendingRequests s" "FinalizedRequests (s_deposit e s) = FinalizedRequests s"
  "ExecutedRequests (s_deposit e s) = ExecutedRequests s" "RollbackRequests (s_deposit e s) = RollbackRequests s"
  "SocketMessages (s_deposit e s) = SocketMessages s" "the_pool (s_deposit e s) = the_pool s"
  "the_blaze (s_deposit e s) = the_blaze s" "BondedOutboundTx (s_deposit e s) = BondedOutboundTx s"
  "BondedRollbackOutputs (s_deposit e s) = BondedRollbackOutputs s" "SEvents (s_deposit e s) = SEvents s @ [e]"
  "BroadcastConfirmations (s_deposit e s) = BroadcastConfirmations s"
  by (simp_all add: s_deposit_def)

lemma blaze_self [simp]: "s\<lparr>the_blaze := the_blaze s\<rparr> = (s :: socket_queue)"
  by simp

subsection \<open>Successful calls\<close>

lemma put_messages_fields [simp]:
  "PendingRequests (put_messages i ms s) = PendingRequests s" "FinalizedRequests (put_messages i ms s) = FinalizedRequests s"
  "ExecutedRequests (put_messages i ms s) = ExecutedRequests s" "RollbackRequests (put_messages i ms s) = RollbackRequests s"
  "the_pool (put_messages i ms s) = the_pool s" "the_blaze (put_messages i ms s) = the_blaze s"
  by (simp_all add: put_messages_def)

lemma submit_unsigned_Done:
  assumes "submit_unsigned_psbt C E og msg s = Done u s'"
  obtains p i des ser where "psbt_deserialize C (up_psbt msg) = Some p" "i = psbt_txid C p"
    "\<not> IsActivated (the_blaze s)" "ServiceState (the_pool s) = Normal"
    "bt_get (PendingRequests s) i = None" "bt_get (FinalizedRequests s) i = None" "bt_get (ExecutedRequests s) i = None"
    "bt_get (RollbackRequests s) i = None" "try_psbt_output_verification C E p (up_outputs msg) s = Done (des, ser) s"
    "s' = s_deposit (UnsignedPsbtSubmitted i) ((put_messages i des s)\<lparr>PendingRequests :=
        bt_insert i (PsbtRequest_new (up_psbt msg) ser ReqNormal) (PendingRequests s)\<rparr>)"
proof -
  from assms obtain p des ser s1 where 1: "psbt_deserialize C (up_psbt msg) = Some p" "\<not> IsActivated (the_blaze s)"
    "ServiceState (the_pool s) = Normal"
    "bt_get (PendingRequests s) (psbt_txid C p) = None" "bt_get (FinalizedRequests s) (psbt_txid C p) = None"
    "bt_get (ExecutedRequests s) (psbt_txid C p) = None"
    "bt_get (RollbackRequests s) (psbt_txid C p) = None"
    and v: "try_psbt_output_verification C E p (up_outputs msg) s = Done (des, ser) s1"
    and s': "s' = s_deposit (UnsignedPsbtSubmitted (psbt_txid C p)) ((put_messages (psbt_txid C p) des s1)\<lparr>PendingRequests :=
        bt_insert (psbt_txid C p) (PsbtRequest_new (up_psbt msg) ser ReqNormal) (PendingRequests s1)\<rparr>)"
    by (auto simp: submit_unsigned_psbt_def Let_def socket_Done blaze_Done bt_contains_def)
  have "s1 = s" using v by (rule output_verification_pure)
  with 1 v s' show thesis by (intro that [OF 1(1) refl]) simp_all
qed

lemma submit_signed_Done:
  assumes "submit_signed_psbt C og msg s = Done u s'"
  obtains i r r' where "bt_get (PendingRequests s) i = Some r"
    "pr_request_type r' = pr_request_type r" "pr_socket_messages r' = pr_socket_messages r" "pr_unsigned_psbt r' = pr_unsigned_psbt r"
    "FinalizedRequests s' = FinalizedRequests s \<and> PendingRequests s' = bt_insert i r' (PendingRequests s) \<or>
     FinalizedRequests s' = bt_insert i r' (FinalizedRequests s) \<and> PendingRequests s' = bt_remove i (PendingRequests s)"
    "ExecutedRequests s' = ExecutedRequests s" "RollbackRequests s' = RollbackRequests s"
    "SocketMessages s' = SocketMessages s" "the_pool s' = the_pool s" "the_blaze s' = the_blaze s"
proof -
  from assms obtain up sp r r1 cmb s1 where r: "bt_get (PendingRequests s) (psbt_txid C up) = Some r"
    and a: "add_signature C (sp_authority_id msg) (sp_signed_psbt msg) sp r s = Done (r1, cmb) s1"
    and k: "store_signed C (psbt_txid C up) (sp_authority_id msg) r1 cmb s1 = Done () s'"
    by (auto simp: submit_signed_psbt_def Let_def socket_Done)
  from a have e: "s1 = s" and t: "pr_request_type r1 = pr_request_type r" "pr_socket_messages r1 = pr_socket_messages r"
    "pr_unsigned_psbt r1 = pr_unsigned_psbt r" by (auto simp: add_signature_def socket_Done)
  show thesis
  proof (cases "psbt_finalize C cmb")
    case None
    with k t r show thesis by (intro that [OF r, of r1]) (auto simp: e store_signed_def)
  next
    case (Some fin)
    with k t r show thesis
      by (intro that [OF r, of "r1\<lparr>pr_finalized_psbt := psbt_serialize C fin\<rparr>"]) (auto simp: e store_signed_def Let_def split: if_splits)
  qed
qed

lemma confirm_broadcast_Done:
  assumes "confirm_broadcast E a i s = Done b s'"
  shows "\<exists>cs es. s' = s\<lparr>BroadcastConfirmations := cs, SEvents := es\<rparr>"
proof -
  have "\<exists>cs es. s\<lparr>BroadcastConfirmations := x\<rparr> = s\<lparr>BroadcastConfirmations := cs, SEvents := es\<rparr>" for x
    by (intro exI [of _ x] exI [of _ "SEvents s"]) simp
  moreover have "\<exists>cs es. s\<lparr>SEvents := y, BroadcastConfirmations := x\<rparr> = s\<lparr>BroadcastConfirmations := cs, SEvents := es\<rparr>" for x y
    by (intro exI [of _ x] exI [of _ y]) simp
  ultimately show ?thesis using assms
    by (auto simp: confirm_broadcast_def Let_def guard_Done s_deposit_def split: if_splits)
qed

lemma submit_executed_Done:
  assumes "submit_executed_request E og msg s = Done u s'"
  obtains r where "bt_get (FinalizedRequests s) (ep_txid msg) = Some r"
    "PendingRequests s' = PendingRequests s" "RollbackRequests s' = RollbackRequests s" "SocketMessages s' = SocketMessages s"
    "the_blaze s' = the_blaze s"
    "FinalizedRequests s' = FinalizedRequests s \<and> ExecutedRequests s' = ExecutedRequests s \<and> the_pool s' = the_pool s \<or>
     FinalizedRequests s' = bt_remove (ep_txid msg) (FinalizedRequests s) \<and>
     ExecutedRequests s' = bt_insert (ep_txid msg) r (ExecutedRequests s) \<and>
     the_pool s' = (if pr_request_type r = ReqMigration then execute_migration_tx (ep_txid msg) (the_pool s) else the_pool s)"
  using assms by (auto simp: submit_executed_request_def Let_def socket_Done dest!: confirm_broadcast_Done split: if_splits)

lemma submit_rollback_request_Done:
  assumes "submit_rollback_request C E og msg s = Done u s'"
  obtains p i rb where "psbt_deserialize C (rp_unsigned_psbt msg) = Some p" "i = psbt_txid C p" "ServiceState (the_pool s) = Normal"
    "bt_get (PendingRequests s) i = None" "bt_get (FinalizedRequests s) i = None" "bt_get (ExecutedRequests s) i = None"
    "bt_get (RollbackRequests s) i = None" "RollbackRequests s' = bt_insert i rb (RollbackRequests s)" "\<not> rb_is_approved rb"
    "PendingRequests s' = PendingRequests s" "FinalizedRequests s' = FinalizedRequests s"
    "ExecutedRequests s' = ExecutedRequests s" "SocketMessages s' = SocketMessages s" "the_pool s' = the_pool s"
    "if IsActivated (the_blaze s) then \<exists>us. extract_utxos_from_psbt (psbt_blaze_inputs p) (the_blaze s) = Done us (the_blaze s) \<and>
       lock_utxos i us (the_blaze s) = Done () (the_blaze s') else the_blaze s' = the_blaze s"
proof -
  from assms obtain p vault rf info s1 sv s2 s3 where 1: "psbt_deserialize C (rp_unsigned_psbt msg) = Some p"
    "ServiceState (the_pool s) = Normal"
    "bt_get (PendingRequests s) (psbt_txid C p) = None" "bt_get (FinalizedRequests s) (psbt_txid C p) = None"
    "bt_get (ExecutedRequests s) (psbt_txid C p) = None" "bt_get (RollbackRequests s) (psbt_txid C p) = None"
    and i: "try_get_tx_info C E (generate_hash_key C (rp_txid msg) (rp_vout msg) (rp_who msg) (rp_amount msg)) s = Done info s1"
    and ro: "rollback_outputs C (length (psbt_tx_output p)) sv rf (rp_amount msg) (psbt_tx_output p) s1 = Done () s2"
    and l: "(if IsActivated (the_blaze s2) then lock_psbt (psbt_txid C p) p s2 else Done () s2) = Done () s3"
    and s': "s' = s_deposit (RollbackPsbtSubmitted (psbt_txid C p))
       (s3\<lparr>RollbackRequests := bt_insert (psbt_txid C p) (RollbackRequest_new (rp_unsigned_psbt msg) (rp_who msg) (rp_txid msg)
            (rp_vout msg) vault (rp_amount msg)) (RollbackRequests s3),
          BondedRollbackOutputs := bt_insert (rp_txid msg, rp_vout msg) (psbt_txid C p) (BondedRollbackOutputs s3)\<rparr>)"
    by (auto simp: submit_rollback_request_def Let_def socket_Done bt_contains_def simp del: if_split)
  have e: "s1 = s" "s2 = s" using evm_pure(3) [OF i] rollback_outputs_pure [OF ro] by simp_all
  have "\<exists>b. s3 = s\<lparr>the_blaze := b\<rparr>" using l by (auto simp: e elim!: lock_psbt_Done split: if_splits intro: exI [of _ "the_blaze s"])
  then obtain b where b: "s3 = s\<lparr>the_blaze := b\<rparr>" by blast
  have "if IsActivated (the_blaze s) then \<exists>us. extract_utxos_from_psbt (psbt_blaze_inputs p) (the_blaze s) = Done us (the_blaze s) \<and>
       lock_utxos (psbt_txid C p) us (the_blaze s) = Done () (the_blaze s3) else the_blaze s3 = the_blaze s"
    using l by (auto simp: e elim!: lock_psbt_Done split: if_splits)
  then show thesis
    by (intro that [OF 1(1) refl 1(2-), of "RollbackRequest_new (rp_unsigned_psbt msg) (rp_who msg) (rp_txid msg) (rp_vout msg) vault
        (rp_amount msg)"]) (simp_all add: s' b RollbackRequest_new_def split: if_splits)
qed

lemma submit_rollback_poll_Done:
  assumes "submit_rollback_poll E og msg s = Done u s'"
  obtains rb rb' where "bt_get (RollbackRequests s) (rv_txid msg) = Some rb" "\<not> rb_is_approved rb"
    "RollbackRequests s' = bt_insert (rv_txid msg) rb' (RollbackRequests s)"
    "if rb_is_approved rb' then PendingRequests s' =
       bt_insert (rv_txid msg) (PsbtRequest_new (rb_unsigned_psbt rb) [] ReqRollback) (PendingRequests s)
     else PendingRequests s' = PendingRequests s"
    "rb_is_approved rb' \<longleftrightarrow> s_majority E \<le> as_u32 (length (filter snd (rb_votes rb')))"
    "rb_votes rb' = bt_insert (rv_authority_id msg) (rv_is_approved msg) (rb_votes rb)"
    "FinalizedRequests s' = FinalizedRequests s" "ExecutedRequests s' = ExecutedRequests s"
    "SocketMessages s' = SocketMessages s" "the_pool s' = the_pool s" "the_blaze s' = the_blaze s"
proof -
  let ?i = "rv_txid msg"
  from assms obtain rb v where rb: "bt_get (RollbackRequests s) ?i = Some rb" "\<not> rb_is_approved rb"
    and v: "bt_try_insert (rv_authority_id msg) (rv_is_approved msg) (rb_votes rb) = Some v"
    by (auto simp: submit_rollback_poll_def Let_def socket_Done)
  let ?b = "s_majority E \<le> as_u32 (length (filter snd v))" and ?s1 = "s_deposit (RollbackPollSubmitted ?i (rv_authority_id msg) (rv_is_approved msg)) s"
  have s': "s' = (if ?b then (s_deposit (RollbackApproved ?i) (?s1\<lparr>PendingRequests :=
        bt_insert ?i (PsbtRequest_new (rb_unsigned_psbt rb) [] ReqRollback) (PendingRequests s)\<rparr>))\<lparr>RollbackRequests :=
        bt_insert ?i (rb\<lparr>rb_votes := v, rb_is_approved := True\<rparr>) (RollbackRequests s)\<rparr>
      else ?s1\<lparr>RollbackRequests := bt_insert ?i (rb\<lparr>rb_votes := v\<rparr>) (RollbackRequests s)\<rparr>)"
    using assms rb v by (auto simp: submit_rollback_poll_def Let_def socket_Done)
  show thesis
    by (rule that [OF rb, of "if ?b then rb\<lparr>rb_votes := v, rb_is_approved := True\<rparr> else rb\<lparr>rb_votes := v\<rparr>"])
      (use rb bt_try_insert_Some [OF v] in \<open>auto simp: s'\<close>)
qed

lemma drop_rollback_Done:
  assumes "drop_pending_rollback_request og i s = Done u s'"
  obtains rb where "bt_get (RollbackRequests s) i = Some rb" "\<not> rb_is_approved rb" "RollbackRequests s' = bt_remove i (RollbackRequests s)"
    "BondedRollbackOutputs s' = BondedRollbackOutputs s"
    "PendingRequests s' = PendingRequests s" "FinalizedRequests s' = FinalizedRequests s"
    "ExecutedRequests s' = ExecutedRequests s" "SocketMessages s' = SocketMessages s" "the_pool s' = the_pool s"
    "if IsActivated (the_blaze s) then unlock_utxos i (the_blaze s) = Done () (the_blaze s') else the_blaze s' = the_blaze s"
  using assms by (auto simp: drop_pending_rollback_request_def Let_def socket_Done split: if_splits)

lemma submit_migration_Done:
  assumes "submit_migration_request C og psbt s = Done u s'"
  obtains i where "ServiceState (the_pool s) = UTXOTransfer"
    "bt_get (PendingRequests s) i = None" "bt_get (FinalizedRequests s) i = None" "bt_get (ExecutedRequests s) i = None"
    "PendingRequests s' = bt_insert i (PsbtRequest_new psbt [] ReqMigration) (PendingRequests s)"
    "FinalizedRequests s' = FinalizedRequests s" "ExecutedRequests s' = ExecutedRequests s"
    "RollbackRequests s' = RollbackRequests s" "SocketMessages s' = SocketMessages s"
    "the_pool s' = add_migration_tx i (the_pool s)" "the_blaze s' = clear_utxos (the_blaze s)"
  using assms by (auto simp: submit_migration_request_def Let_def socket_Done)


subsection \<open>Fee bumps\<close>

text \<open>The messages of a replaced request now name the new one.\<close>

lemma repair_messages_Done:
  assumes "repair_messages C i ms s = Done u s'"
  obtains xs where "list_all2 (\<lambda>raw m. SocketMessage_try_from (s_codec C) raw = Parsed m) ms xs" "s' = put_messages i xs s"
proof -
  have "\<exists>xs. list_all2 (\<lambda>raw m. SocketMessage_try_from (s_codec C) raw = Parsed m) ms xs \<and> s' = put_messages i xs s"
    using assms
  proof (induction ms arbitrary: s)
    case Nil
    then show ?case by (simp add: put_messages_def)
  next
    case (Cons raw ms)
    then obtain m where m: "SocketMessage_try_from (s_codec C) raw = Parsed m"
      and d: "repair_messages C i ms (s\<lparr>SocketMessages := bt_insert (rq_sequence (req_id m)) (i, m) (SocketMessages s)\<rparr>) = Done u s'"
      by (auto simp: socket_Done)
    from Cons.IH [OF d] obtain xs where xs: "list_all2 (\<lambda>raw m. SocketMessage_try_from (s_codec C) raw = Parsed m) ms xs"
      and s': "s' = put_messages i xs (s\<lparr>SocketMessages := bt_insert (rq_sequence (req_id m)) (i, m) (SocketMessages s)\<rparr>)" by blast
    show ?case
      by (rule exI [of _ "m # xs"]) (use xs m in \<open>simp add: s' put_messages_def\<close>)
  qed
  then show thesis using that by blast
qed

lemma replace_request_Done:
  assumes "replace_request C old_i new_i psbt r s = Done u s'"
  shows "PendingRequests s' = PendingRequests s \<and> FinalizedRequests s' = FinalizedRequests s \<and>
    ExecutedRequests s' = ExecutedRequests s \<and> the_blaze s' = the_blaze s"
    "pr_request_type r \<noteq> ReqMigration \<Longrightarrow> the_pool s' = the_pool s"
    "pr_request_type r = ReqMigration \<Longrightarrow> the_pool s' = add_migration_tx new_i (remove_migration_tx old_i (the_pool s))"
    "pr_request_type r \<noteq> ReqRollback \<Longrightarrow> RollbackRequests s' = RollbackRequests s"
    "pr_request_type r = ReqRollback \<Longrightarrow> \<exists>rb. bt_get (RollbackRequests s) old_i = Some rb \<and>
       RollbackRequests s' = bt_insert new_i (rb\<lparr>rb_unsigned_psbt := psbt\<rparr>) (bt_remove old_i (RollbackRequests s))"
    "pr_request_type r \<noteq> ReqNormal \<Longrightarrow> SocketMessages s' = SocketMessages s"
    "pr_request_type r = ReqNormal \<Longrightarrow> \<exists>xs. list_all2 (\<lambda>raw m. SocketMessage_try_from (s_codec C) raw = Parsed m)
       (pr_socket_messages r) xs \<and> SocketMessages s' = SocketMessages (put_messages new_i xs s)"
  using assms by (auto simp: replace_request_def Let_def socket_Done split: RequestType.splits elim!: repair_messages_Done)

lemma submit_bump_fee_Done:
  assumes "submit_bump_fee_request C og old_i psbt s = Done u s'"
  obtains r q p new_i s1 where "bt_get (ExecutedRequests s) old_i = Some r" "psbt_deserialize C (pr_unsigned_psbt r) = Some q"
    "psbt_deserialize C psbt = Some p" "new_i = psbt_txid C p" "new_i \<noteq> old_i"
    "ServiceState (the_pool s) = (if pr_request_type r = ReqMigration then UTXOTransfer else Normal)"
    "try_bump_fee_psbt_verification C q p (pr_request_type r) s = Done () s"
    "bt_get (PendingRequests s) new_i = None" "bt_get (FinalizedRequests s) new_i = None" "bt_get (ExecutedRequests s) new_i = None"
    "bt_get (RollbackRequests s) new_i = None" "replace_request C old_i new_i psbt r s = Done () s1"
    "PendingRequests s' = bt_insert new_i (PsbtRequest_new psbt (pr_socket_messages r) (pr_request_type r)) (PendingRequests s)"
    "FinalizedRequests s' = FinalizedRequests s" "ExecutedRequests s' = bt_remove old_i (ExecutedRequests s)"
    "RollbackRequests s' = RollbackRequests s1" "SocketMessages s' = SocketMessages s1" "the_pool s' = the_pool s1"
    "if IsActivated (the_blaze s) then \<exists>us b. unlock_utxos old_i (the_blaze s) = Done () b \<and>
       extract_utxos_from_psbt (psbt_blaze_inputs p) b = Done us b \<and> lock_utxos new_i us b = Done () (the_blaze s')
     else the_blaze s' = the_blaze s"
proof -
  from assms obtain r q p s0 s1 s2 where 1: "bt_get (ExecutedRequests s) old_i = Some r" "psbt_deserialize C (pr_unsigned_psbt r) = Some q"
    "psbt_deserialize C psbt = Some p" "psbt_txid C p \<noteq> old_i"
    "ServiceState (the_pool s) = (if pr_request_type r = ReqMigration then UTXOTransfer else Normal)"
    and v: "try_bump_fee_psbt_verification C q p (pr_request_type r) s = Done () s0"
    and n: "bt_get (PendingRequests s0) (psbt_txid C p) = None" "bt_get (FinalizedRequests s0) (psbt_txid C p) = None"
      "bt_get (ExecutedRequests s0) (psbt_txid C p) = None" "bt_get (RollbackRequests s0) (psbt_txid C p) = None"
    and rr: "replace_request C old_i (psbt_txid C p) psbt r s0 = Done () s1"
    and b: "relock_psbt old_i (psbt_txid C p) p (s1\<lparr>ExecutedRequests := bt_remove old_i (ExecutedRequests s1)\<rparr>) = Done () s2"
    and s': "s' = s_deposit (BumpFeePsbtSubmitted old_i (psbt_txid C p))
       (s2\<lparr>PendingRequests := bt_insert (psbt_txid C p) (PsbtRequest_new psbt (pr_socket_messages r) (pr_request_type r))
            (PendingRequests s2)\<rparr>)"
    by (auto simp: submit_bump_fee_request_def Let_def socket_Done bt_contains_def simp del: if_split)
  have e: "s0 = s" using v by (rule bump_verification_pure)
  note R = replace_request_Done [OF rr [unfolded e]]
  have "if IsActivated (the_blaze s) then \<exists>us b. unlock_utxos old_i (the_blaze s) = Done () b \<and>
       extract_utxos_from_psbt (psbt_blaze_inputs p) b = Done us b \<and> lock_utxos (psbt_txid C p) us b = Done () (the_blaze s2)
     else the_blaze s2 = the_blaze s"
    using b R(1) by (auto simp: relock_psbt_def socket_Done elim!: lock_psbt_Done split: if_splits)
  moreover have "PendingRequests s2 = PendingRequests s \<and> FinalizedRequests s2 = FinalizedRequests s \<and>
      ExecutedRequests s2 = bt_remove old_i (ExecutedRequests s) \<and> RollbackRequests s2 = RollbackRequests s1 \<and>
      SocketMessages s2 = SocketMessages s1 \<and> the_pool s2 = the_pool s1"
    using b R(1) by (auto simp: relock_psbt_def socket_Done elim!: lock_psbt_Done split: if_splits)
  ultimately show thesis using 1 v n rr by (intro that [of r q p "psbt_txid C p" s1]) (simp_all add: e s')
qed


subsection \<open>Composing a transaction\<close>

lemma record_messages_Done:
  assumes "record_messages C i ms s = Done u s'"
  shows "\<exists>xs. list_all2 (\<lambda>raw m. SocketMessage_try_from (s_codec C) raw = Parsed m) ms xs \<and> s' = put_messages i xs s"
  using assms
proof (induction ms arbitrary: s)
  case Nil
  then show ?case by (simp add: put_messages_def)
next
  case (Cons raw ms)
  then obtain m where m: "SocketMessage_try_from (s_codec C) raw = Parsed m"
    and d: "record_messages C i ms (s\<lparr>SocketMessages := bt_insert (rq_sequence (req_id m)) (i, m) (SocketMessages s)\<rparr>) = Done u s'"
    by (auto split: parse.splits)
  from Cons.IH [OF d] obtain xs where xs: "list_all2 (\<lambda>raw m. SocketMessage_try_from (s_codec C) raw = Parsed m) ms xs"
    and s': "s' = put_messages i xs (s\<lparr>SocketMessages := bt_insert (rq_sequence (req_id m)) (i, m) (SocketMessages s)\<rparr>)" by blast
  show ?case by (rule exI [of _ "m # xs"]) (use xs m in \<open>simp add: s' put_messages_def\<close>)
qed

lemma composite_pure: "composite_psbt C sel rs t f st s = Done r s' \<Longrightarrow> s' = s"
  by (auto simp: composite_psbt_def Let_def guard_Done split: if_splits option.splits)

text \<open>What \<open>on_initialize\<close> has composed: the selection, the transaction and the messages it pays.\<close>

definition composed ::
  "SConfig \<Rightarrow> (nat \<times> nat) \<Rightarrow> bytes list \<Rightarrow> (SocketMessage \<times> bytes) list \<Rightarrow> UtxoInfoWithSize list \<Rightarrow> Psbt \<Rightarrow> socket_queue \<Rightarrow> bool" where
  "composed C rates filtered requests selected p s \<longleftrightarrow>
     filter_unregistered_outbounds C (the_pool s) (OutboundPool (the_blaze s)) = Some (filtered, requests) \<and>
     (\<exists>amounts strategy. those (map (\<lambda>(m, _). as_u64 (tp_amount (sm_params m))) requests) = Some amounts \<and>
        select_coins (List.map_filter (score_utxo (fst rates) (snd rates)) (get_utxos (the_blaze s)))
          (target_amount (sum64 amounts) (snd rates) (map snd requests)) (mul64 43 (snd rates)) 200000 100000 DUST_LIMIT
          = Some (selected, strategy) \<and>
        composite_psbt C selected requests (sum64 amounts) (snd rates) strategy s = Done (Some p) s)"

lemma compose_outbounds_Done:
  assumes "compose_outbounds C lt fr filtered requests s = Done u s'"
    and f: "filter_unregistered_outbounds C (the_pool s) (OutboundPool (the_blaze s)) = Some (filtered, requests)"
  shows "s' = tolerate C True s \<or>
    (\<exists>selected p. composed C (lt, fr) filtered requests selected p s \<and> submit_composed C p filtered selected s = Done () s')"
proof -
  from assms obtain amounts where a: "those (map (\<lambda>(m, _). as_u64 (tp_amount (sm_params m))) requests) = Some amounts"
    by (auto simp: compose_outbounds_def Let_def expect_Done)
  show ?thesis
  proof (cases "s' = tolerate C True s")
    case False
    with assms a obtain selected strategy r s1
      where sel: "select_coins (List.map_filter (score_utxo lt fr) (get_utxos (the_blaze s)))
          (target_amount (sum64 amounts) fr (map snd requests)) (mul64 43 fr) 200000 100000 DUST_LIMIT = Some (selected, strategy)"
        and r: "composite_psbt C selected requests (sum64 amounts) fr strategy s = Done r s1"
        and k: "(case r of None \<Rightarrow> Done () (tolerate C True s1) | Some p \<Rightarrow> submit_composed C p filtered selected s1) = Done () s'"
      by (auto simp: compose_outbounds_def Let_def expect_Done bind_outcome_Done split: if_splits option.splits prod.splits)
    have e: "s1 = s" using r by (rule composite_pure)
    from k False obtain p where "r = Some p" "submit_composed C p filtered selected s = Done () s'"
      by (auto simp: e split: option.splits)
    with a sel r f show ?thesis by (auto simp: composed_def e)
  qed simp
qed

text \<open>The state after a transaction was composed.\<close>

definition after_compose ::
  "SConfig \<Rightarrow> H256 \<Rightarrow> PsbtRequest \<Rightarrow> SocketMessage list \<Rightarrow> blaze \<Rightarrow> socket_queue \<Rightarrow> socket_queue" where
  "after_compose C i r xs b s =
     (put_messages i xs (s_deposit (UnsignedPsbtSubmitted i)
        (s\<lparr>PendingRequests := bt_insert i r (PendingRequests s)\<rparr>)))\<lparr>the_blaze := handle_tolerance_counter (s_bconfig C) False b\<rparr>"

lemma case_Panic_Done:
  "(case r of Done a b \<Rightarrow> f a b | Fail e b \<Rightarrow> Panic | Panic \<Rightarrow> Panic) = Done u s' \<longleftrightarrow> (\<exists>a b. r = Done a b \<and> f a b = Done u s')"
  by (cases r) auto

lemma submit_composed_Done:
  assumes "submit_composed C p filtered selected s = Done u s'"
  obtains xs b where "list_all2 (\<lambda>raw m. SocketMessage_try_from (s_codec C) raw = Parsed m) filtered xs"
    "lock_utxos (psbt_txid C p) selected (clear_outbound_pool filtered (clear_fee_rates (the_blaze s))) = Done () b"
    "s' = after_compose C (psbt_txid C p) (PsbtRequest_new (psbt_serialize C p) filtered ReqNormal) xs b s"
proof -
  from assms obtain s1 where
    1: "record_messages C (psbt_txid C p) filtered (s_deposit (UnsignedPsbtSubmitted (psbt_txid C p))
            (s\<lparr>PendingRequests := bt_insert (psbt_txid C p) (PsbtRequest_new (psbt_serialize C p) filtered ReqNormal)
               (PendingRequests s)\<rparr>)) = Done () s1"
    and 2: "\<exists>b. lock_utxos (psbt_txid C p) selected (clear_outbound_pool filtered (clear_fee_rates (the_blaze s1))) = Done () b \<and>
           s' = tolerate C False (s1\<lparr>the_blaze := b\<rparr>)"
    by (auto simp: submit_composed_def Let_def bind_outcome_Done case_Panic_Done)
  from record_messages_Done [OF 1] obtain xs
    where xs: "list_all2 (\<lambda>raw m. SocketMessage_try_from (s_codec C) raw = Parsed m) filtered xs"
      and s1: "s1 = put_messages (psbt_txid C p) xs (s_deposit (UnsignedPsbtSubmitted (psbt_txid C p))
            (s\<lparr>PendingRequests := bt_insert (psbt_txid C p) (PsbtRequest_new (psbt_serialize C p) filtered ReqNormal)
               (PendingRequests s)\<rparr>))" by blast
  from 2 show thesis
    by (auto simp: s1 tolerate_def after_compose_def intro!: that [OF xs])
qed


text \<open>The hook: nothing is composed, or one transaction.\<close>

lemma on_initialize_Done:
  assumes "sq_on_initialize C E n s = Done u s'"
  obtains "s' = s"
  | b b' rates where "try_fee_rate_finalization (blaze_env E) n (the_blaze s) = Done rates b"
      "b' = b \<or> b' = handle_tolerance_counter (s_bconfig C) True b" "IsActivated (the_blaze s)"
      "s' = s\<lparr>the_pool := process_set_refunds (the_pool s), the_blaze := b'\<rparr>"
  | s1 b1 rates filtered requests selected p xs b
    where "IsActivated (the_blaze s)" "ServiceState (the_pool s) = Normal"
      "try_fee_rate_finalization (blaze_env E) n (the_blaze s) = Done (Some rates) b1"
      "s1 = s\<lparr>the_pool := process_set_refunds (the_pool s), the_blaze := b1\<rparr>"
      "composed C rates filtered requests selected p s1"
      "list_all2 (\<lambda>raw m. SocketMessage_try_from (s_codec C) raw = Parsed m) filtered xs"
      "lock_utxos (psbt_txid C p) selected (clear_outbound_pool filtered (clear_fee_rates b1)) = Done () b"
      "s' = after_compose C (psbt_txid C p) (PsbtRequest_new (psbt_serialize C p) filtered ReqNormal) xs b s1"
proof (cases "IsActivated (the_blaze s) \<and> ServiceState (the_pool s) = Normal")
  case False
  with assms show thesis by (intro that(1)) (auto simp: sq_on_initialize_def)
next
  case True
  with assms obtain rates b where f: "try_fee_rate_finalization (blaze_env E) n (the_blaze s) = Done rates b"
    by (auto simp: sq_on_initialize_def Let_def socket_Done)
  let ?s = "s\<lparr>the_pool := process_set_refunds (the_pool s), the_blaze := b\<rparr>"
  show thesis
  proof (cases "s' = ?s \<or> s' = tolerate C True ?s")
    case quiet: True
    then obtain b' where "b' = b \<or> b' = handle_tolerance_counter (s_bconfig C) True b"
      "s' = s\<lparr>the_pool := process_set_refunds (the_pool s), the_blaze := b'\<rparr>" by (auto simp: tolerate_def)
    with f True show thesis by (intro that(2)) auto
  next
    case busy: False
    then have n: "s' \<noteq> ?s" by blast
    from assms True f n obtain lt fr filtered requests where r: "rates = Some (lt, fr)"
      and u: "filter_unregistered_outbounds C (the_pool ?s) (OutboundPool (the_blaze ?s)) = Some (filtered, requests)"
      and c: "compose_outbounds C lt fr filtered requests ?s = Done () s'"
      by (auto simp: sq_on_initialize_def Let_def socket_Done split: option.splits if_splits)
    from compose_outbounds_Done [OF c u] busy obtain selected p
      where p: "composed C (lt, fr) filtered requests selected p ?s" and d: "submit_composed C p filtered selected ?s = Done () s'" by blast
    from d show thesis
      by (rule submit_composed_Done) (use True f r p in \<open>auto intro: that(3)\<close>)
  qed
qed

lemma on_initialize_not_Fail: "sq_on_initialize C E n s \<noteq> Fail e s'"
proof -
  have f: "try_fee_rate_finalization B n b \<noteq> Fail e' b'" for B b e' b'
    by (auto simp: try_fee_rate_finalization_def Let_def expect_def split: option.splits)
  have c: "composite_psbt C sel rs t fr st q \<noteq> Fail e' q'" for sel rs t fr st q e' q'
    by (auto simp: composite_psbt_def Let_def expect_def split: option.splits)
  have m: "record_messages C i ms q \<noteq> Fail e' q'" for i ms q e' q'
    by (induction ms arbitrary: q) (auto split: parse.splits)
  have "submit_composed C p fl sel q \<noteq> Fail e' q'" for p fl sel q e' q'
    using m by (auto simp: submit_composed_def Let_def bind_outcome_def split: outcome.splits)
  with c have "compose_outbounds C lt fr fl rs q \<noteq> Fail e' q'" for lt fr fl rs q e' q'
    by (auto simp: compose_outbounds_def Let_def expect_def bind_outcome_def split: outcome.splits option.splits)
  with f show ?thesis
    by (auto simp: sq_on_initialize_def Let_def with_blaze_def expect_def split: outcome.splits option.splits)
qed

end
