(* ===== verification/Socket_Compose.thy ===== *)
theory Socket_Compose
  imports Socket_Refine
begin

text \<open>
  The bridge refines its parts: in every reachable state of the bridge, the states of Blaze and of the
  registration pool are reachable for these pallets alone, so what holds of their runs holds here.
\<close>

subsection \<open>Outputs selected are available\<close>

lemma distinct_submset: "distinct ys \<Longrightarrow> mset xs \<subseteq># mset ys \<Longrightarrow> distinct xs"
  unfolding distinct_count_atmost_1 using mset_subset_eq_count by (metis count_mset_0_iff le_0_eq le_antisym less_one not_le)

lemma scored_part: "mset (map su_utxo (List.map_filter (score_utxo a b) us)) \<subseteq># mset us"
proof (induction us)
  case (Cons x us)
  have "score_utxo a b x = None \<or> (\<exists>y. score_utxo a b x = Some y \<and> su_utxo y = x)" by (simp add: score_utxo_def Let_def)
  moreover have "mset us \<subseteq># add_mset x (mset us)" by simp
  ultimately show ?case
    using Cons.IH subset_mset.order_trans by (fastforce simp: map_filter_simps)
qed (simp add: map_filter_simps)

lemma get_utxos_hashes:
  assumes "utxos_ok b"
  shows "map us_hash (get_utxos b) = map fst (filter (\<lambda>e. ut_status (snd e) = Available) (Utxos b))"
  using assms by (auto simp: get_utxos_def utxos_ok_def utxo_ok_def bt_wf_get_iff [symmetric])

lemma get_utxos_lockable:
  assumes ok: "utxos_ok b" and sel: "mset sel \<subseteq># mset (get_utxos b)"
  shows "lockable b sel"
proof -
  have "distinct (map us_hash (get_utxos b))"
    using ok by (simp add: get_utxos_hashes utxos_ok_def bt_wf_distinct bt_wf_filter)
  moreover have "mset (map us_hash sel) \<subseteq># mset (map us_hash (get_utxos b))" using sel by (simp add: image_mset_subseteq_mono)
  ultimately have "distinct (map us_hash sel)" by (rule distinct_submset)
  moreover have "utxo_status b (us_hash x) = Some Available" if "x \<in> set sel" for x
  proof -
    from that sel have "x \<in> set (get_utxos b)" by (metis mset_subset_eqD set_mset_mset)
    with ok show ?thesis by (auto simp: get_utxos_def utxos_ok_def utxo_ok_def bt_wf_get_iff utxo_status_def)
  qed
  ultimately show ?thesis by (simp add: lockable_def)
qed

lemma composed_lockable:
  assumes "composed C rates filtered requests selected p s" "utxos_ok (the_blaze s)"
  shows "lockable (the_blaze s) selected"
proof -
  from assms(1) have "drawn (List.map_filter (score_utxo (fst rates) (snd rates)) (get_utxos (the_blaze s))) selected"
    by (auto simp: composed_def dest: select_coins_drawn)
  then obtain ys where "mset ys \<subseteq># mset (List.map_filter (score_utxo (fst rates) (snd rates)) (get_utxos (the_blaze s)))"
    "selected = map su_utxo ys" by (auto simp: drawn_def)
  then have "mset selected \<subseteq># mset (map su_utxo (List.map_filter (score_utxo (fst rates) (snd rates)) (get_utxos (the_blaze s))))"
    by (simp add: image_mset_subseteq_mono)
  then have "mset selected \<subseteq># mset (get_utxos (the_blaze s))" by (rule subset_mset.order_trans [OF _ scored_part])
  then show ?thesis by (rule get_utxos_lockable [OF assms(2)])
qed

subsection \<open>Steps of Blaze\<close>

lemma blaze_lock:
  "blaze_reachable B b \<Longrightarrow> lockable b us \<Longrightarrow> lock_utxos i us b = Done () b' \<Longrightarrow> blaze_reachable B b'"
  by (rule blaze_move [where x = "BLock i us"]) (auto simp: blaze_guard_def blaze_exec_def settle_Some)

lemma blaze_unlock:
  "blaze_reachable B b \<Longrightarrow> IsActivated b \<Longrightarrow> unlock_utxos i b = Done () b' \<Longrightarrow> blaze_reachable B b'"
  by (rule blaze_move [where x = "BUnlock i"]) (auto simp: blaze_guard_def blaze_exec_def settle_Some)

lemma blaze_simple:
  assumes "blaze_reachable B b"
  shows "blaze_reachable B (handle_tolerance_counter B t b)" "blaze_reachable B (clear_fee_rates b)"
    "blaze_reachable B (clear_outbound_pool ms b)" "(IsActivated b \<Longrightarrow> PendingTxs b = []) \<Longrightarrow> blaze_reachable B (clear_utxos b)"
    "0 < b_majority E \<Longrightarrow> try_fee_rate_finalization E n b = Done r b' \<Longrightarrow> blaze_reachable B b'"
    "blaze_call_run B E og c b = Done u b' \<Longrightarrow> blaze_reachable B b'"
    "replaceable old new b \<Longrightarrow> blaze_replace_authority old new b = Done u b' \<Longrightarrow> blaze_reachable B b'"
  using blaze_move [OF assms, of "BTolerance t"] blaze_move [OF assms, of "BClearFeeRates"] blaze_move [OF assms, of "BClearOutbound ms"]
    blaze_move [OF assms, of BClearUtxos] blaze_move [OF assms, of "BFinalizeFeeRate E n"] blaze_move [OF assms, of "BCall E og c"]
    blaze_move [OF assms, of "BReplaceAuthority old new"]
  by (auto simp: blaze_guard_def blaze_exec_def settle_Some)

lemma unlock_lockable_active: "unlock_utxos i b = Done u b' \<Longrightarrow> IsActivated b' = IsActivated b"
  by (auto simp: unlock_utxos_def guard_Done dest!: set_statuses_effect(1))

subsection \<open>Blaze inside the bridge\<close>

lemma call_blaze:
  assumes r: "blaze_reachable (s_bconfig C) (the_blaze s)" and g: "call_guard C c s" and d: "sq_call_run C E og c s = Done u s'"
  shows "blaze_reachable (s_bconfig C) (the_blaze s')"
proof (cases c)
  case (SubmitRollbackRequest msg)
  with d have "submit_rollback_request C E og msg s = Done u s'" by (simp add: sq_call_run_def)
  then show ?thesis
    by (rule submit_rollback_request_Done)
      (use r g SubmitRollbackRequest in \<open>auto simp: call_guard_def psbt_lockable_def intro: blaze_lock split: if_splits\<close>)
next
  case (SubmitBumpFeeRequest i psbt)
  with d have "submit_bump_fee_request C og i psbt s = Done u s'" by (simp add: sq_call_run_def)
  then show ?thesis
    by (rule submit_bump_fee_Done)
      (use r g SubmitBumpFeeRequest in \<open>auto simp: call_guard_def psbt_lockable_def intro: blaze_lock blaze_unlock split: if_splits\<close>)
next
  case (DropPendingRollbackRequest i)
  with d have "drop_pending_rollback_request og i s = Done u s'" by (simp add: sq_call_run_def)
  then show ?thesis by (rule drop_rollback_Done) (use r in \<open>auto intro: blaze_unlock split: if_splits\<close>)
next
  case (SubmitMigrationRequest psbt)
  with d have "submit_migration_request C og psbt s = Done u s'" by (simp add: sq_call_run_def)
  then show ?thesis by (rule submit_migration_Done)
      (use r g SubmitMigrationRequest in \<open>auto simp: call_guard_def intro: blaze_simple(4)\<close>)
qed (use r d in \<open>auto simp: sq_call_run_def set_authority_def sq_set_socket_def set_max_fee_rate_def set_max_socket_message_bytes_def
      socket_Done elim!: submit_unsigned_Done submit_signed_Done submit_executed_Done submit_rollback_poll_Done split: if_splits\<close>)

lemma init_blaze:
  assumes r: "blaze_reachable (s_bconfig C) (the_blaze s)" and m: "0 < s_majority E" and d: "sq_on_initialize C E n s = Done u s'"
  shows "blaze_reachable (s_bconfig C) (the_blaze s')"
  using d
proof (cases rule: on_initialize_Done)
  case 1
  with r show ?thesis by simp
next
  case (2 b b' rates)
  have "blaze_reachable (s_bconfig C) b" by (rule blaze_simple(5) [OF r _ 2(1)]) (simp add: m blaze_env_def)
  with 2(2) have "blaze_reachable (s_bconfig C) b'" by (auto intro: blaze_simple(1))
  with 2(4) show ?thesis by simp
next
  case (3 s1 b1 rates filtered requests selected p xs b)
  have 1: "blaze_reachable (s_bconfig C) b1" by (rule blaze_simple(5) [OF r _ 3(3)]) (simp add: m blaze_env_def)
  have "lockable b1 selected"
    using composed_lockable [OF 3(5)] blaze_invD(1) [OF blaze_reachable_inv [OF 1]] by (simp add: 3(4))
  then have l: "lockable (clear_outbound_pool filtered (clear_fee_rates b1)) selected"
    by (simp add: lockable_def clear_outbound_pool_def clear_fee_rates_def)
  have "blaze_reachable (s_bconfig C) b"
    by (rule blaze_lock [OF _ l 3(7)]) (intro blaze_simple(2,3) 1)
  then show ?thesis using blaze_simple(1) by (simp add: 3(8) after_compose_def)
qed

lemma exec_blaze:
  assumes r: "blaze_reachable (s_bconfig C) (the_blaze s)" and g: "socket_guard C x s" and x: "socket_exec C x s = Some s'"
  shows "blaze_reachable (s_bconfig C) (the_blaze s')"
proof (cases x)
  case (SqCall E og c)
  with x g r call_blaze [OF r] show ?thesis by (auto simp: socket_exec_def settle_Some socket_guard_def)
next
  case (SqInit E n)
  with x g init_blaze [OF r] on_initialize_not_Fail show ?thesis
    by (auto simp: socket_exec_def socket_guard_def init_guard_def split: outcome.splits)
next
  case (SqBlaze E n og c)
  with x r blaze_simple(6) [OF r] show ?thesis by (auto simp: socket_exec_def settle_Some)
next
  case (SqReplace old new)
  with x g r blaze_simple(7) [OF r] show ?thesis
    by (auto simp: socket_exec_def bridge_replace_def socket_guard_def sq_replace_authority_def guard_Done split: outcome.splits)
qed (use x r in \<open>auto simp: socket_exec_def\<close>)

subsection \<open>The registration pool inside the bridge\<close>

lemma pool_simple:
  assumes "pool_reachable P p"
  shows "pool_reachable P (add_migration_tx i p)" "pool_reachable P (remove_migration_tx i p)"
    "pool_reachable P (execute_migration_tx i p)" "pool_reachable P (process_set_refunds p)"
    "pool_reachable P (change_members_sorted ms p)"
    "pool_replace_authority old new p = Done u p' \<Longrightarrow> pool_reachable P p'"
    "pool_guard (PCall E og c) \<Longrightarrow> pool_call_run P E og c p = Done u p' \<Longrightarrow> pool_reachable P p'"
  using pool_move [OF assms, of "PAddTx i"] pool_move [OF assms, of "PRemoveTx i"] pool_move [OF assms, of "PExecuteTx i"]
    pool_move [OF assms, of PProcessSetRefunds] pool_move [OF assms, of "PChangeMembers ms"]
    pool_move [OF assms, of "PReplaceAuthority old new"] pool_move [OF assms, of "PCall E og c"]
  by (simp_all add: pool_guard_def pool_exec_def settle_def)

lemma call_pool:
  assumes r: "pool_reachable (s_pconfig C) (the_pool s)" and d: "sq_call_run C E og c s = Done u s'"
  shows "pool_reachable (s_pconfig C) (the_pool s')"
proof (cases c)
  case (SubmitBumpFeeRequest i psbt)
  with d have "submit_bump_fee_request C og i psbt s = Done u s'" by (simp add: sq_call_run_def)
  then show ?thesis
  proof (rule submit_bump_fee_Done)
    fix rq new_i s1
    assume R: "replace_request C i new_i psbt rq s = Done () s1" and p: "the_pool s' = the_pool s1"
    show ?thesis
      using replace_request_Done(2,3) [OF R] r p by (cases "pr_request_type rq = ReqMigration") (auto intro: pool_simple)
  qed
qed (use r d in \<open>auto simp: sq_call_run_def set_authority_def sq_set_socket_def set_max_fee_rate_def set_max_socket_message_bytes_def
      socket_Done elim!: submit_unsigned_Done submit_signed_Done submit_executed_Done submit_rollback_poll_Done drop_rollback_Done
      submit_migration_Done submit_rollback_request_Done split: if_splits intro: pool_simple\<close>)

lemma exec_pool:
  assumes r: "pool_reachable (s_pconfig C) (the_pool s)" and g: "socket_guard C x s" and x: "socket_exec C x s = Some s'"
  shows "pool_reachable (s_pconfig C) (the_pool s')"
proof (cases x)
  case (SqCall E og c)
  with x r call_pool [OF r] show ?thesis by (auto simp: socket_exec_def settle_Some)
next
  case (SqInit E n)
  with x r pool_simple(4) [OF r] on_initialize_not_Fail show ?thesis
    by (auto simp: socket_exec_def after_compose_def elim!: on_initialize_Done split: outcome.splits)
next
  case (SqPool xs n og c)
  with x g r pool_simple(7) [OF r] show ?thesis by (auto simp: socket_exec_def settle_Some socket_guard_def)
next
  case (SqReplace old new)
  with x r pool_simple(6) [OF r] show ?thesis
    by (auto simp: socket_exec_def bridge_replace_def sq_replace_authority_def guard_Done split: outcome.splits)
qed (use x r in \<open>auto simp: socket_exec_def intro: pool_simple\<close>)

lemma bridge_refines_parts:
  assumes "socket_reachable C s"
  shows "blaze_reachable (s_bconfig C) (the_blaze s)" "pool_reachable (s_pconfig C) (the_pool s)"
proof -
  have "blaze_reachable (s_bconfig C) (the_blaze s) \<and> pool_reachable (s_pconfig C) (the_pool s)"
    using assms
  proof (induction rule: socket_reachable.induct)
    case (socket_start authority ms)
    show ?case by (cases authority) (simp_all add: sq_genesis_def socket_default_def blaze_start pool_start)
  next
    case (socket_move s x s')
    with exec_blaze exec_pool show ?case by blast
  qed
  then show "blaze_reachable (s_bconfig C) (the_blaze s)" "pool_reachable (s_pconfig C) (the_pool s)" by simp_all
qed

end
