(* ===== verification/Socket_Inv.thy ===== *)
theory Socket_Inv
  imports Socket_Compose
begin

text \<open>
  The life of a request of the socket queue, and its interplay with the vault migration of the
  registration pool: a request is in one stage at a time, a migration starts only when no request is
  open, and while it runs only requests of the migration are; it ends with all of them executed.
\<close>

subsection \<open>Stages\<close>

datatype stage = StPending | StFinalized | StExecuted

definition request_of :: "socket_queue \<Rightarrow> H256 \<Rightarrow> (stage \<times> PsbtRequest) option" where
  "request_of s i =
     (case bt_get (PendingRequests s) i of
        Some r \<Rightarrow> Some (StPending, r)
      | None \<Rightarrow>
          (case bt_get (FinalizedRequests s) i of
             Some r \<Rightarrow> Some (StFinalized, r)
           | None \<Rightarrow> map_option (Pair StExecuted) (bt_get (ExecutedRequests s) i)))"

definition one_stage :: "socket_queue \<Rightarrow> bool" where
  "one_stage s \<longleftrightarrow> (\<forall>i.
     (bt_get (PendingRequests s) i \<noteq> None \<longrightarrow> bt_get (FinalizedRequests s) i = None \<and> bt_get (ExecutedRequests s) i = None) \<and>
     (bt_get (FinalizedRequests s) i \<noteq> None \<longrightarrow> bt_get (ExecutedRequests s) i = None))"

text \<open>A rollback that is not approved yet is no request yet.\<close>

definition rollbacks_ok :: "socket_queue \<Rightarrow> bool" where
  "rollbacks_ok s \<longleftrightarrow> (\<forall>i rb. bt_get (RollbackRequests s) i = Some rb \<longrightarrow> \<not> rb_is_approved rb \<longrightarrow> request_of s i = None)"

definition quiescent :: "socket_queue \<Rightarrow> bool" where
  "quiescent s \<longleftrightarrow> ServiceState (the_pool s) \<noteq> Normal \<longrightarrow>
     (\<forall>i rb. bt_get (RollbackRequests s) i = Some rb \<longrightarrow> rb_is_approved rb) \<and>
     (\<forall>i st r. request_of s i = Some (st, r) \<longrightarrow> st \<noteq> StExecuted \<longrightarrow> pr_request_type r = ReqMigration)"

definition migrations_ok :: "socket_queue \<Rightarrow> bool" where
  "migrations_ok s \<longleftrightarrow>
     (\<forall>i b. bt_get (OngoingVaultMigration (the_pool s)) i = Some b \<longrightarrow>
        (\<exists>st r. request_of s i = Some (st, r) \<and> pr_request_type r = ReqMigration \<and> b = (st = StExecuted))) \<and>
     (\<forall>i st r. request_of s i = Some (st, r) \<longrightarrow> pr_request_type r = ReqMigration \<longrightarrow> st \<noteq> StExecuted \<longrightarrow>
        bt_get (OngoingVaultMigration (the_pool s)) i = Some False)"

definition socket_inv :: "socket_queue \<Rightarrow> bool" where
  "socket_inv s \<longleftrightarrow> one_stage s \<and> rollbacks_ok s \<and> quiescent s \<and> migrations_ok s"

lemma socket_invD:
  assumes "socket_inv s"
  shows "one_stage s" "rollbacks_ok s" "quiescent s" "migrations_ok s"
  using assms by (simp_all add: socket_inv_def)

lemma migrationsD:
  assumes "migrations_ok s" "bt_get (OngoingVaultMigration (the_pool s)) i = Some b"
  obtains st r where "request_of s i = Some (st, r)" "pr_request_type r = ReqMigration" "b = (st = StExecuted)"
  using assms unfolding migrations_ok_def by blast

text \<open>What a step does to the requests.\<close>

definition same_request :: "PsbtRequest \<Rightarrow> PsbtRequest \<Rightarrow> bool" where
  "same_request r r' \<longleftrightarrow> pr_request_type r' = pr_request_type r \<and> pr_socket_messages r' = pr_socket_messages r \<and>
     pr_unsigned_psbt r' = pr_unsigned_psbt r"

lemma same_request_refl [simp]: "same_request r r"
  by (simp add: same_request_def)

inductive requests_step :: "(H256 \<Rightarrow> (stage \<times> PsbtRequest) option) \<Rightarrow> (H256 \<Rightarrow> (stage \<times> PsbtRequest) option) \<Rightarrow> bool" where
  kept: "(\<And>i. rel_option (rel_prod (=) same_request) (q i) (q' i)) \<Longrightarrow> requests_step q q'"
| opened: "q i = None \<Longrightarrow> requests_step q (q(i \<mapsto> (StPending, r)))"
| finalized: "q i = Some (StPending, r) \<Longrightarrow> same_request r r' \<Longrightarrow> requests_step q (q(i \<mapsto> (StFinalized, r')))"
| executed: "q i = Some (StFinalized, r) \<Longrightarrow> requests_step q (q(i \<mapsto> (StExecuted, r)))"
| bumped: "q i = Some (StExecuted, r) \<Longrightarrow> q j = None \<Longrightarrow> pr_request_type r' = pr_request_type r \<Longrightarrow>
    pr_socket_messages r' = pr_socket_messages r \<Longrightarrow> requests_step q (q(i := None, j \<mapsto> (StPending, r')))"

lemma requests_refl [simp]: "requests_step q q"
  by (rule kept) (simp add: option.rel_refl_strong prod.rel_refl_strong)

lemma rel_same: "rel_option (rel_prod (=) same_request) x x"
  by (simp add: option.rel_refl_strong prod.rel_refl_strong)

lemma request_of_cong:
  "PendingRequests s' = PendingRequests s \<Longrightarrow> FinalizedRequests s' = FinalizedRequests s \<Longrightarrow>
   ExecutedRequests s' = ExecutedRequests s \<Longrightarrow> request_of s' = request_of s"
  by (simp add: request_of_def fun_eq_iff cong: option.case_cong)

lemma one_stage_cong:
  "PendingRequests s' = PendingRequests s \<Longrightarrow> FinalizedRequests s' = FinalizedRequests s \<Longrightarrow>
   ExecutedRequests s' = ExecutedRequests s \<Longrightarrow> one_stage s' = one_stage s"
  by (simp add: one_stage_def)

lemma request_None: "request_of s i = None \<longleftrightarrow> bt_get (PendingRequests s) i = None \<and> bt_get (FinalizedRequests s) i = None \<and>
    bt_get (ExecutedRequests s) i = None"
  by (auto simp: request_of_def split: option.splits)

lemma request_stages:
  assumes "one_stage s"
  shows "request_of s i = Some (StPending, r) \<longleftrightarrow> bt_get (PendingRequests s) i = Some r"
    "request_of s i = Some (StFinalized, r) \<longleftrightarrow> bt_get (FinalizedRequests s) i = Some r"
    "request_of s i = Some (StExecuted, r) \<longleftrightarrow> bt_get (ExecutedRequests s) i = Some r"
  using spec [OF assms [unfolded one_stage_def], of i] by (auto simp: request_of_def split: option.splits)

subsection \<open>Changes of the maps\<close>

lemma open_request:
  assumes "one_stage s" "request_of s i = None" "PendingRequests s' = bt_insert i r (PendingRequests s)"
    "FinalizedRequests s' = FinalizedRequests s" "ExecutedRequests s' = ExecutedRequests s"
  shows "one_stage s'" "request_of s' = (request_of s)(i \<mapsto> (StPending, r))"
proof -
  show "one_stage s'" using assms by (auto simp: one_stage_def request_None)
  show "request_of s' = (request_of s)(i \<mapsto> (StPending, r))"
    using assms(3-) by (auto simp: request_of_def fun_eq_iff cong: option.case_cong)
qed

lemma sign_request:
  assumes "one_stage s" "bt_get (PendingRequests s) i = Some r" "PendingRequests s' = bt_insert i r' (PendingRequests s)"
    "FinalizedRequests s' = FinalizedRequests s" "ExecutedRequests s' = ExecutedRequests s"
  shows "one_stage s'" "request_of s' = (request_of s)(i \<mapsto> (StPending, r'))"
  using assms by (auto simp: one_stage_def request_of_def fun_eq_iff cong: option.case_cong)

lemma finalize_request:
  assumes "one_stage s" "bt_get (PendingRequests s) i = Some r" "PendingRequests s' = bt_remove i (PendingRequests s)"
    "FinalizedRequests s' = bt_insert i r' (FinalizedRequests s)" "ExecutedRequests s' = ExecutedRequests s"
  shows "one_stage s'" "request_of s' = (request_of s)(i \<mapsto> (StFinalized, r'))"
  using assms by (auto simp: one_stage_def request_of_def fun_eq_iff cong: option.case_cong)

lemma execute_request:
  assumes "one_stage s" "bt_get (FinalizedRequests s) i = Some r" "PendingRequests s' = PendingRequests s"
    "FinalizedRequests s' = bt_remove i (FinalizedRequests s)" "ExecutedRequests s' = bt_insert i r (ExecutedRequests s)"
  shows "one_stage s'" "request_of s' = (request_of s)(i \<mapsto> (StExecuted, r))"
proof -
  have p: "bt_get (PendingRequests s) i = None" using assms(1,2) by (auto simp: one_stage_def)
  show "one_stage s'" using assms p by (auto simp: one_stage_def)
  show "request_of s' = (request_of s)(i \<mapsto> (StExecuted, r))" using assms p by (auto simp: request_of_def fun_eq_iff cong: option.case_cong)
qed

lemma bump_request:
  assumes "one_stage s" "bt_get (ExecutedRequests s) i = Some r" "request_of s j = None" "i \<noteq> j"
    "PendingRequests s' = bt_insert j r' (PendingRequests s)"
    "FinalizedRequests s' = FinalizedRequests s" "ExecutedRequests s' = bt_remove i (ExecutedRequests s)"
  shows "one_stage s'" "request_of s' = (request_of s)(i := None, j \<mapsto> (StPending, r'))"
proof -
  have p: "bt_get (PendingRequests s) i = None" "bt_get (FinalizedRequests s) i = None"
    using spec [OF assms(1) [unfolded one_stage_def], of i] assms(2) by auto
  show "one_stage s'" using assms p by (auto simp: one_stage_def request_None)
  show "request_of s' = (request_of s)(i := None, j \<mapsto> (StPending, r'))"
    using assms p by (auto simp: request_of_def fun_eq_iff cong: option.case_cong)
qed


subsection \<open>The invariant through a change\<close>

text \<open>Requests that at most gain signatures, the same phase, the same migrations, and rollbacks that keep their approval.\<close>

lemma inv_kept:
  assumes inv: "socket_inv s" and st: "one_stage s'"
    and q: "\<And>i. rel_option (rel_prod (=) same_request) (request_of s i) (request_of s' i)"
    and R: "\<And>i rb'. bt_get (RollbackRequests s') i = Some rb' \<Longrightarrow>
        (\<exists>rb. bt_get (RollbackRequests s) i = Some rb \<and> rb_is_approved rb' = rb_is_approved rb) \<or>
        request_of s i = None \<and> ServiceState (the_pool s) = Normal"
    and P: "ServiceState (the_pool s') = ServiceState (the_pool s)"
      "OngoingVaultMigration (the_pool s') = OngoingVaultMigration (the_pool s)"
  shows "socket_inv s'"
proof -
  note I = socket_invD [OF inv]
  have n: "request_of s' i = None \<longleftrightarrow> request_of s i = None" for i using q [of i] by (cases "request_of s i"; cases "request_of s' i") auto
  have b: "\<exists>r. request_of s i = Some (st, r) \<and> pr_request_type r' = pr_request_type r" if "request_of s' i = Some (st, r')" for i st r'
    using q [of i] that by (cases "request_of s i") (auto simp: same_request_def)
  have f: "\<exists>r'. request_of s' i = Some (st, r') \<and> pr_request_type r' = pr_request_type r" if "request_of s i = Some (st, r)" for i st r
    using q [of i] that by (cases "request_of s' i") (auto simp: same_request_def)
  have "rollbacks_ok s'" using I(2) R n unfolding rollbacks_ok_def by metis
  moreover have "quiescent s'" using I(3) R b P(1) unfolding quiescent_def by metis
  moreover have "migrations_ok s'"
    using I(4) b f unfolding migrations_ok_def P(2) by metis
  ultimately show ?thesis using st by (simp add: socket_inv_def)
qed

lemma quiescent_update:
  assumes Q: "quiescent s" and P: "ServiceState (the_pool s') = ServiceState (the_pool s)"
    and R: "\<And>k rb. bt_get (RollbackRequests s') k = Some rb \<Longrightarrow> \<not> rb_is_approved rb \<Longrightarrow> bt_get (RollbackRequests s) k = Some rb"
    and q: "\<And>k st r. request_of s' k = Some (st, r) \<Longrightarrow> st \<noteq> StExecuted \<Longrightarrow> ServiceState (the_pool s) \<noteq> Normal \<Longrightarrow>
        pr_request_type r = ReqMigration \<or> request_of s k = Some (st, r)"
  shows "quiescent s'"
  unfolding quiescent_def
proof (intro impI conjI allI)
  fix k rb assume n: "ServiceState (the_pool s') \<noteq> Normal" and rb: "bt_get (RollbackRequests s') k = Some rb"
  show "rb_is_approved rb"
  proof (rule ccontr)
    assume u: "\<not> rb_is_approved rb"
    from R [OF rb u] Q n u show False by (simp add: quiescent_def P)
  qed
next
  fix k st r assume n: "ServiceState (the_pool s') \<noteq> Normal" and r: "request_of s' k = Some (st, r)" and e: "st \<noteq> StExecuted"
  from q [OF r e] Q n e show "pr_request_type r = ReqMigration" by (auto simp: quiescent_def P)
qed

text \<open>A new request.\<close>

lemma inv_open:
  assumes inv: "socket_inv s" and st: "one_stage s'" and i: "request_of s i = None"
    and q: "request_of s' = (request_of s)(i \<mapsto> (StPending, r))"
    and R: "\<And>j rb'. bt_get (RollbackRequests s') j = Some rb' \<Longrightarrow> \<not> rb_is_approved rb' \<Longrightarrow>
        j \<noteq> i \<and> bt_get (RollbackRequests s) j = Some rb'"
    and P: "ServiceState (the_pool s') = ServiceState (the_pool s)"
    and t: "if pr_request_type r = ReqMigration then the_pool s' = add_migration_tx i (the_pool s)
      else ServiceState (the_pool s) = Normal \<and> OngoingVaultMigration (the_pool s') = OngoingVaultMigration (the_pool s)"
  shows "socket_inv s'"
proof -
  note I = socket_invD [OF inv]
  have "rollbacks_ok s'" using I(2) R unfolding rollbacks_ok_def q by (metis fun_upd_other)
  moreover have "quiescent s'"
    by (rule quiescent_update [OF I(3) P]) (use R t in \<open>auto simp: q split: if_splits\<close>)
  moreover have o: "bt_get (OngoingVaultMigration (the_pool s)) i = None"
    using i by (cases "bt_get (OngoingVaultMigration (the_pool s)) i") (auto elim: migrationsD [OF I(4)])
  have "bt_get (OngoingVaultMigration (the_pool s')) =
      (if pr_request_type r = ReqMigration then (bt_get (OngoingVaultMigration (the_pool s)))(i \<mapsto> False)
       else bt_get (OngoingVaultMigration (the_pool s)))"
    using t o by (auto simp: add_migration_tx_def)
  then have "migrations_ok s'" using I(4) o i unfolding migrations_ok_def q by (auto split: if_splits)
  ultimately show ?thesis using st by (simp add: socket_inv_def)
qed

text \<open>A request that was pending is finalized.\<close>

lemma inv_finalize:
  assumes inv: "socket_inv s" and st: "one_stage s'" and i: "request_of s i = Some (StPending, r)" "same_request r r'"
    and q: "request_of s' = (request_of s)(i \<mapsto> (StFinalized, r'))"
    and s': "RollbackRequests s' = RollbackRequests s" "the_pool s' = the_pool s"
  shows "socket_inv s'"
proof -
  note I = socket_invD [OF inv]
  have "rollbacks_ok s'" using I(2) i unfolding rollbacks_ok_def q s' by (metis fun_upd_other option.distinct(1))
  moreover have "quiescent s'" using I(3) i unfolding quiescent_def q s' by (auto simp: same_request_def)
  moreover have "migrations_ok s'"
    unfolding migrations_ok_def s'
  proof (intro conjI allI impI)
    fix k b assume "bt_get (OngoingVaultMigration (the_pool s)) k = Some b"
    then obtain st x where "request_of s k = Some (st, x)" "pr_request_type x = ReqMigration" "b = (st = StExecuted)"
      by (rule migrationsD [OF I(4)])
    with i show "\<exists>st x. request_of s' k = Some (st, x) \<and> pr_request_type x = ReqMigration \<and> b = (st = StExecuted)"
      by (cases "k = i") (auto simp: q same_request_def)
  next
    fix k st x assume "request_of s' k = Some (st, x)" "pr_request_type x = ReqMigration" "st \<noteq> StExecuted"
    with I(4) i show "bt_get (OngoingVaultMigration (the_pool s)) k = Some False"
      by (cases "k = i") (auto simp: migrations_ok_def q same_request_def)
  qed
  ultimately show ?thesis using st by (simp add: socket_inv_def)
qed

lemma inv_execute:
  assumes inv: "socket_inv s" and st: "one_stage s'" and i: "request_of s i = Some (StFinalized, r)"
    and q: "request_of s' = (request_of s)(i \<mapsto> (StExecuted, r))"
    and s': "RollbackRequests s' = RollbackRequests s"
      "the_pool s' = (if pr_request_type r = ReqMigration then execute_migration_tx i (the_pool s) else the_pool s)"
  shows "socket_inv s'"
proof -
  note I = socket_invD [OF inv]
  have P: "ServiceState (the_pool s') = ServiceState (the_pool s)" by (simp add: s' execute_migration_tx_def)
  have "rollbacks_ok s'" using I(2) i unfolding rollbacks_ok_def q s' by (metis fun_upd_other option.distinct(1))
  moreover have "quiescent s'" using I(3) i unfolding quiescent_def q s'(1) P by auto
  moreover have o: "pr_request_type r = ReqMigration \<Longrightarrow> bt_get (OngoingVaultMigration (the_pool s)) i = Some False"
    "pr_request_type r \<noteq> ReqMigration \<Longrightarrow> bt_get (OngoingVaultMigration (the_pool s)) i = None"
    using I(4) i unfolding migrations_ok_def by (blast, metis Pair_inject not_None_eq option.inject)
  have "bt_get (OngoingVaultMigration (the_pool s')) =
      (if pr_request_type r = ReqMigration then (bt_get (OngoingVaultMigration (the_pool s)))(i \<mapsto> True)
       else bt_get (OngoingVaultMigration (the_pool s)))"
    using o by (auto simp: s' execute_migration_tx_def)
  then have "migrations_ok s'" using I(4) o unfolding migrations_ok_def q by (auto split: if_splits)
  ultimately show ?thesis using st by (simp add: socket_inv_def)
qed

lemma inv_bump:
  assumes inv: "socket_inv s" and st: "one_stage s'" and i: "request_of s i = Some (StExecuted, r)" and j: "request_of s j = None"
    and r': "pr_request_type r' = pr_request_type r"
    and q: "request_of s' = (request_of s)(i := None, j \<mapsto> (StPending, r'))"
    and R: "\<And>k rb'. bt_get (RollbackRequests s') k = Some rb' \<Longrightarrow> \<not> rb_is_approved rb' \<Longrightarrow>
        k \<noteq> i \<and> k \<noteq> j \<and> bt_get (RollbackRequests s) k = Some rb'"
    and P: "ServiceState (the_pool s') = ServiceState (the_pool s)"
    and t: "if pr_request_type r = ReqMigration then the_pool s' = add_migration_tx j (remove_migration_tx i (the_pool s))
      else ServiceState (the_pool s) = Normal \<and> OngoingVaultMigration (the_pool s') = OngoingVaultMigration (the_pool s)"
  shows "socket_inv s'"
proof -
  note I = socket_invD [OF inv]
  have "rollbacks_ok s'" using I(2) R unfolding rollbacks_ok_def q by (metis fun_upd_other)
  moreover have "quiescent s'"
    by (rule quiescent_update [OF I(3) P]) (use R t r' in \<open>auto simp: q split: if_splits\<close>)
  moreover have o: "bt_get (OngoingVaultMigration (the_pool s)) j = None"
    "pr_request_type r \<noteq> ReqMigration \<Longrightarrow> bt_get (OngoingVaultMigration (the_pool s)) i = None"
    using I(4) i j unfolding migrations_ok_def by (metis not_None_eq, metis Pair_inject not_None_eq option.inject)
  have "bt_get (OngoingVaultMigration (the_pool s')) =
      (if pr_request_type r = ReqMigration then (bt_get (OngoingVaultMigration (the_pool s)))(i := None, j \<mapsto> False)
       else bt_get (OngoingVaultMigration (the_pool s)))"
    using t o by (auto simp: add_migration_tx_def remove_migration_tx_def)
  then have "migrations_ok s'" using I(4) o i j r' unfolding migrations_ok_def q by (auto split: if_splits)
  ultimately show ?thesis using st by (simp add: socket_inv_def)
qed

end
