(* ===== verification/Socket_Keep.thy ===== *)
theory Socket_Keep
  imports Socket_Inv
begin

text \<open>Every step of the bridge keeps the invariant of the requests and moves each request along its stages.\<close>

definition requests_ok :: "socket_queue \<Rightarrow> socket_queue \<Rightarrow> bool" where
  "requests_ok s s' \<longleftrightarrow> socket_inv s' \<and> requests_step (request_of s) (request_of s')"

subsection \<open>Calls of the queue\<close>

lemma unsigned_keeps:
  assumes inv: "socket_inv s" and d: "submit_unsigned_psbt C E og msg s = Done u s'"
  shows "requests_ok s s'"
  using d
proof (rule submit_unsigned_Done)
  fix p i des ser
  assume a: "ServiceState (the_pool s) = Normal" "bt_get (PendingRequests s) i = None" "bt_get (FinalizedRequests s) i = None"
    "bt_get (ExecutedRequests s) i = None" "bt_get (RollbackRequests s) i = None"
    and s': "s' = s_deposit (UnsignedPsbtSubmitted i) ((put_messages i des s)\<lparr>PendingRequests :=
        bt_insert i (PsbtRequest_new (up_psbt msg) ser ReqNormal) (PendingRequests s)\<rparr>)"
  have n: "request_of s i = None" using a by (simp add: request_None)
  note O = open_request [OF socket_invD(1) [OF inv] n, of s' "PsbtRequest_new (up_psbt msg) ser ReqNormal"]
  have "socket_inv s'"
    by (rule inv_open [OF inv _ n]) (use O a in \<open>auto simp: s' PsbtRequest_new_def\<close>)
  with O n show ?thesis by (simp add: requests_ok_def s' opened)
qed

lemma signed_keeps:
  assumes inv: "socket_inv s" and d: "submit_signed_psbt C og msg s = Done u s'"
  shows "requests_ok s s'"
  using d
proof (rule submit_signed_Done)
  fix i r r'
  assume r: "bt_get (PendingRequests s) i = Some r" and e: "pr_request_type r' = pr_request_type r"
    "pr_socket_messages r' = pr_socket_messages r" "pr_unsigned_psbt r' = pr_unsigned_psbt r"
    and c: "FinalizedRequests s' = FinalizedRequests s \<and> PendingRequests s' = bt_insert i r' (PendingRequests s) \<or>
     FinalizedRequests s' = bt_insert i r' (FinalizedRequests s) \<and> PendingRequests s' = bt_remove i (PendingRequests s)"
    and s': "ExecutedRequests s' = ExecutedRequests s" "RollbackRequests s' = RollbackRequests s" "the_pool s' = the_pool s"
  note st = socket_invD(1) [OF inv]
  have q: "request_of s i = Some (StPending, r)" using r by (simp add: request_stages(1) [OF st])
  have e: "same_request r r'" using e by (simp add: same_request_def)
  from c show ?thesis
  proof
    assume c: "FinalizedRequests s' = FinalizedRequests s \<and> PendingRequests s' = bt_insert i r' (PendingRequests s)"
    note S = sign_request [OF st r, of s' r']
    have k: "rel_option (rel_prod (=) same_request) (request_of s j) (request_of s' j)" for j
      using S(2) c s'(1) q e rel_same by (cases "j = i") auto
    have "socket_inv s'" by (rule inv_kept [OF inv _ k]) (use S(1) c s' in auto)
    with kept [OF k] show ?thesis by (simp add: requests_ok_def)
  next
    assume c: "FinalizedRequests s' = bt_insert i r' (FinalizedRequests s) \<and> PendingRequests s' = bt_remove i (PendingRequests s)"
    note S = finalize_request [OF st r, of s' r']
    have "socket_inv s'" by (rule inv_finalize [OF inv _ q e]) (use S c s' in auto)
    with S(2) c s' finalized [of "request_of s", OF q e] show ?thesis by (simp add: requests_ok_def)
  qed
qed

text \<open>Requests and migrations as they were; the rollbacks may change.\<close>

lemma unchanged_keeps:
  assumes inv: "socket_inv s"
    and e: "PendingRequests s' = PendingRequests s" "FinalizedRequests s' = FinalizedRequests s"
      "ExecutedRequests s' = ExecutedRequests s"
    and R: "\<And>i rb'. bt_get (RollbackRequests s') i = Some rb' \<Longrightarrow>
        (\<exists>rb. bt_get (RollbackRequests s) i = Some rb \<and> rb_is_approved rb' = rb_is_approved rb) \<or>
        request_of s i = None \<and> ServiceState (the_pool s) = Normal"
    and P: "ServiceState (the_pool s') = ServiceState (the_pool s)"
      "OngoingVaultMigration (the_pool s') = OngoingVaultMigration (the_pool s)"
  shows "requests_ok s s'"
proof -
  have q: "request_of s' = request_of s" "one_stage s' = one_stage s" using request_of_cong one_stage_cong e by blast+
  have "socket_inv s'" by (rule inv_kept [OF inv _ _ R P]) (use q socket_invD(1) [OF inv] rel_same in auto)
  with q show ?thesis by (simp add: requests_ok_def)
qed

lemma executed_keeps:
  assumes inv: "socket_inv s" and d: "submit_executed_request E og msg s = Done u s'"
  shows "requests_ok s s'"
  using d
proof (rule submit_executed_Done)
  fix r
  let ?i = "ep_txid msg"
  assume r: "bt_get (FinalizedRequests s) ?i = Some r"
    and p: "PendingRequests s' = PendingRequests s" "RollbackRequests s' = RollbackRequests s"
    and c: "FinalizedRequests s' = FinalizedRequests s \<and> ExecutedRequests s' = ExecutedRequests s \<and> the_pool s' = the_pool s \<or>
     FinalizedRequests s' = bt_remove ?i (FinalizedRequests s) \<and> ExecutedRequests s' = bt_insert ?i r (ExecutedRequests s) \<and>
     the_pool s' = (if pr_request_type r = ReqMigration then execute_migration_tx ?i (the_pool s) else the_pool s)"
  note st = socket_invD(1) [OF inv]
  have q: "request_of s ?i = Some (StFinalized, r)" using r by (simp add: request_stages(2) [OF st])
  from c show ?thesis
  proof
    assume c: "FinalizedRequests s' = FinalizedRequests s \<and> ExecutedRequests s' = ExecutedRequests s \<and> the_pool s' = the_pool s"
    with p show ?thesis by (intro unchanged_keeps [OF inv]) simp_all
  next
    assume c: "FinalizedRequests s' = bt_remove ?i (FinalizedRequests s) \<and> ExecutedRequests s' = bt_insert ?i r (ExecutedRequests s) \<and>
     the_pool s' = (if pr_request_type r = ReqMigration then execute_migration_tx ?i (the_pool s) else the_pool s)"
    note S = execute_request [OF st r, of s']
    have "socket_inv s'" by (rule inv_execute [OF inv _ q]) (use S p c in auto)
    with S(2) p c executed [of "request_of s", OF q] show ?thesis by (simp add: requests_ok_def)
  qed
qed

lemma rollback_request_keeps:
  assumes inv: "socket_inv s" and d: "submit_rollback_request C E og msg s = Done u s'"
  shows "requests_ok s s'"
  using d by (rule submit_rollback_request_Done)
    (rule unchanged_keeps [OF inv]; auto simp: request_None split: if_splits)

lemma drop_keeps:
  assumes inv: "socket_inv s" and d: "drop_pending_rollback_request og i s = Done u s'"
  shows "requests_ok s s'"
  using d by (rule drop_rollback_Done) (rule unchanged_keeps [OF inv]; auto split: if_splits)

lemma poll_keeps:
  assumes inv: "socket_inv s" and d: "submit_rollback_poll E og msg s = Done u s'"
  shows "requests_ok s s'"
  using d
proof (rule submit_rollback_poll_Done)
  fix rb rb'
  let ?i = "rv_txid msg"
  assume rb: "bt_get (RollbackRequests s) ?i = Some rb" "\<not> rb_is_approved rb"
    and R: "RollbackRequests s' = bt_insert ?i rb' (RollbackRequests s)"
    and p: "if rb_is_approved rb' then PendingRequests s' =
       bt_insert ?i (PsbtRequest_new (rb_unsigned_psbt rb) [] ReqRollback) (PendingRequests s)
     else PendingRequests s' = PendingRequests s"
    and s': "FinalizedRequests s' = FinalizedRequests s" "ExecutedRequests s' = ExecutedRequests s" "the_pool s' = the_pool s"
  note I = socket_invD [OF inv]
  have n: "request_of s ?i = None" using I(2) rb unfolding rollbacks_ok_def by blast
  have N: "ServiceState (the_pool s) = Normal" using I(3) rb unfolding quiescent_def by blast
  show ?thesis
  proof (cases "rb_is_approved rb'")
    case True
    note O = open_request [OF I(1) n, of s' "PsbtRequest_new (rb_unsigned_psbt rb) [] ReqRollback"]
    have "socket_inv s'"
      by (rule inv_open [OF inv _ n]) (use O True p s' R N in \<open>auto simp: PsbtRequest_new_def split: if_splits\<close>)
    with O n True p s' show ?thesis by (simp add: requests_ok_def opened)
  next
    case False
    with p s' R rb show ?thesis by (intro unchanged_keeps [OF inv]) (auto split: if_splits)
  qed
qed

lemma migration_keeps:
  assumes inv: "socket_inv s" and d: "submit_migration_request C og psbt s = Done u s'"
  shows "requests_ok s s'"
  using d
proof (rule submit_migration_Done)
  fix i
  assume a: "ServiceState (the_pool s) = UTXOTransfer" "bt_get (PendingRequests s) i = None" "bt_get (FinalizedRequests s) i = None"
    "bt_get (ExecutedRequests s) i = None"
    and s': "PendingRequests s' = bt_insert i (PsbtRequest_new psbt [] ReqMigration) (PendingRequests s)"
    "FinalizedRequests s' = FinalizedRequests s" "ExecutedRequests s' = ExecutedRequests s"
    "RollbackRequests s' = RollbackRequests s" "the_pool s' = add_migration_tx i (the_pool s)"
  note I = socket_invD [OF inv]
  have n: "request_of s i = None" using a by (simp add: request_None)
  note O = open_request [OF I(1) n, of s' "PsbtRequest_new psbt [] ReqMigration"]
  have R: "\<And>j rb. bt_get (RollbackRequests s) j = Some rb \<Longrightarrow> rb_is_approved rb" using I(3) a(1) by (auto simp: quiescent_def)
  have "socket_inv s'"
    by (rule inv_open [OF inv _ n]) (use O s' R in \<open>auto simp: PsbtRequest_new_def add_migration_tx_def\<close>)
  with O n s' show ?thesis by (simp add: requests_ok_def opened)
qed

lemma bump_keeps:
  assumes inv: "socket_inv s" and d: "submit_bump_fee_request C og i psbt s = Done u s'"
  shows "requests_ok s s'"
  using d
proof (rule submit_bump_fee_Done)
  fix r :: PsbtRequest and q p j s1
  let ?r = "PsbtRequest_new psbt (pr_socket_messages r) (pr_request_type r)"
  assume r: "bt_get (ExecutedRequests s) i = Some r" and ij: "j \<noteq> i"
    and S: "ServiceState (the_pool s) = (if pr_request_type r = ReqMigration then UTXOTransfer else Normal)"
    and j: "bt_get (PendingRequests s) j = None" "bt_get (FinalizedRequests s) j = None" "bt_get (ExecutedRequests s) j = None"
      "bt_get (RollbackRequests s) j = None"
    and rr: "replace_request C i j psbt r s = Done () s1"
    and s': "PendingRequests s' = bt_insert j ?r (PendingRequests s)" "FinalizedRequests s' = FinalizedRequests s"
      "ExecutedRequests s' = bt_remove i (ExecutedRequests s)" "RollbackRequests s' = RollbackRequests s1" "the_pool s' = the_pool s1"
  note I = socket_invD [OF inv]
  note W = replace_request_Done [OF rr]
  have n: "request_of s j = None" using j by (simp add: request_None)
  have e: "request_of s i = Some (StExecuted, r)" using r by (simp add: request_stages(3) [OF I(1)])
  note B = bump_request [OF I(1) r n ij [symmetric], of s' ?r]
  have a: "rb_is_approved rb" if "bt_get (RollbackRequests s) i = Some rb" for rb
    using I(2) e that unfolding rollbacks_ok_def by (metis option.distinct(1))
  have R: "k \<noteq> i \<and> k \<noteq> j \<and> bt_get (RollbackRequests s) k = Some rb'"
    if "bt_get (RollbackRequests s') k = Some rb'" "\<not> rb_is_approved rb'" for k rb'
    using that a j(4) W(4,5) by (cases "pr_request_type r = ReqRollback") (auto simp: s'(4) split: if_splits)
  have P: "if pr_request_type r = ReqMigration then the_pool s' = add_migration_tx j (remove_migration_tx i (the_pool s))
      else ServiceState (the_pool s) = Normal \<and> OngoingVaultMigration (the_pool s') = OngoingVaultMigration (the_pool s)"
    using W(2,3) S by (auto simp: s'(5))
  have "ServiceState (the_pool s') = ServiceState (the_pool s)"
    using W(2,3) by (cases "pr_request_type r = ReqMigration") (auto simp: s'(5) add_migration_tx_def remove_migration_tx_def)
  with B s' have "socket_inv s'"
    by (intro inv_bump [OF inv _ e n _ _ R _ P, of ?r]) (auto simp: PsbtRequest_new_def)
  moreover have "requests_step (request_of s) (request_of s')"
    using B(2) s' bumped [of "request_of s", OF e n, of ?r] by (simp add: PsbtRequest_new_def)
  ultimately show ?thesis by (simp add: requests_ok_def)
qed

lemma call_requests:
  assumes inv: "socket_inv s" and d: "sq_call_run C E og c s = Done u s'"
  shows "requests_ok s s'"
proof (cases c)
  case (SetAuthority a)
  with d show ?thesis by (auto simp: sq_call_run_def set_authority_def socket_Done intro: unchanged_keeps [OF inv])
next
  case (SetSqSocket a b)
  with d show ?thesis by (auto simp: sq_call_run_def sq_set_socket_def socket_Done intro: unchanged_keeps [OF inv] split: if_splits)
next
  case (SetMaxFeeRate n)
  with d show ?thesis by (auto simp: sq_call_run_def set_max_fee_rate_def socket_Done intro: unchanged_keeps [OF inv])
next
  case (SetMaxSocketMessageBytes n)
  with d show ?thesis by (auto simp: sq_call_run_def set_max_socket_message_bytes_def socket_Done intro: unchanged_keeps [OF inv])
qed (use d in \<open>auto simp: sq_call_run_def intro: unsigned_keeps [OF inv] signed_keeps [OF inv] executed_keeps [OF inv]
      rollback_request_keeps [OF inv] poll_keeps [OF inv] migration_keeps [OF inv] bump_keeps [OF inv] drop_keeps [OF inv]\<close>)


subsection \<open>The block hook\<close>

lemma process_ongoing: "OngoingVaultMigration (process_set_refunds p) = OngoingVaultMigration p"
proof -
  have "OngoingVaultMigration (fold (process_set_refund r) ps p) = OngoingVaultMigration p" for r ps p
    by (induction ps arbitrary: p) (simp_all add: process_set_refund_def rebond_refund_def mutate_refund_def Let_def split: option.splits)
  then show ?thesis by (simp add: process_set_refunds_def Let_def)
qed

lemma process_service: "ServiceState (process_set_refunds p) = ServiceState p"
  using process_phase [of p] by (simp add: phase_def)

lemma init_requests:
  assumes inv: "socket_inv s" and g: "init_guard C E n s" and d: "sq_on_initialize C E n s = Done u s'"
  shows "requests_ok s s'"
  using d
proof (cases rule: on_initialize_Done)
  case 1
  with inv show ?thesis by (simp add: requests_ok_def)
next
  case (2 b b' rates)
  then show ?thesis by (intro unchanged_keeps [OF inv]) (auto simp: process_ongoing process_service)
next
  case (3 s1 b1 rates filtered requests selected p xs b)
  let ?i = "psbt_txid C p" and ?r = "PsbtRequest_new (psbt_serialize C p) filtered ReqNormal"
  have "UnsignedPsbtSubmitted ?i \<in> set (drop (length (SEvents s)) (SEvents s'))"
    by (simp add: 3(4,8) after_compose_def put_messages_def)
  with g d have k: "\<not> known_request ?i s" by (auto simp: init_guard_def list_all_iff)
  then have n: "request_of s ?i = None" "bt_get (RollbackRequests s) ?i = None"
    by (simp_all add: known_request_def bt_contains_def request_None)
  have s': "PendingRequests s' = bt_insert ?i ?r (PendingRequests s)" "FinalizedRequests s' = FinalizedRequests s"
    "ExecutedRequests s' = ExecutedRequests s" "RollbackRequests s' = RollbackRequests s"
    "the_pool s' = process_set_refunds (the_pool s)" by (simp_all add: 3(4,8) after_compose_def)
  note O = open_request [OF socket_invD(1) [OF inv] n(1) s'(1-3)]
  have "socket_inv s'"
    by (rule inv_open [OF inv O(1) n(1) O(2)])
      (use n(2) s' 3(2) in \<open>auto simp: process_ongoing process_service PsbtRequest_new_def\<close>)
  with O(2) n(1) show ?thesis by (simp add: requests_ok_def opened)
qed

subsection \<open>Calls of the pool\<close>

lemma bond_ongoing: "try_bond_vault_address P E v refund who r s = Done v' s' \<Longrightarrow> OngoingVaultMigration s' = OngoingVaultMigration s"
  by (auto simp: bond_Done)

lemma collect_ongoing: "collect_presubmitted r xs v s = Done v' s' \<Longrightarrow> OngoingVaultMigration s' = OngoingVaultMigration s"
  by (induction xs arbitrary: v s) (auto simp: Let_def guard_Done split: list.splits if_splits)

lemma bond_if_ready_ongoing:
  "bond_if_ready P E who r t s = Done t' s' \<Longrightarrow> OngoingVaultMigration s' = OngoingVaultMigration s"
  by (auto simp: bond_if_ready_def bond_keys_def dest: bond_ongoing bond_Fail split: if_splits outcome.splits)

lemma approve_ongoing: "approve_refund_sets r ps s = Done u s' \<Longrightarrow> OngoingVaultMigration s' = OngoingVaultMigration s"
  by (rule approve_refund_sets_rule [where I = "\<lambda>q. OngoingVaultMigration q = OngoingVaultMigration s"])
    (simp_all add: p_deposit_def)

lemma pool_call_ongoing:
  assumes "pool_call_run P E og c s = Done u s'"
  shows "OngoingVaultMigration s' = OngoingVaultMigration s \<or>
    ServiceState s' = Normal \<and> OngoingVaultMigration s' = [] \<and> (\<forall>e\<in>set (OngoingVaultMigration s). snd e)"
  using assms
  by (cases c) (auto simp: pool_call_run_def request_vault_def submit_vault_key_def clear_vault_def request_system_vault_def
      submit_system_vault_key_def request_set_refund_def vault_key_presubmission_def drop_previous_round_def
      set_max_presubmission_def set_multi_sig_ratio_def approve_set_refunds_def mutate_refund_def unbond_keys_def Let_def pool_Done
      dest!: collect_ongoing bond_if_ready_ongoing bond_ongoing approve_ongoing migration_control_Done split: if_splits)


lemma pool_call_start:
  assumes d: "pool_call_run P E og c s = Done u s'" and n: "ServiceState s = Normal" "ServiceState s' \<noteq> Normal"
  shows "is_ready_for_migrate E"
proof (cases c)
  case MigrationControl
  with d n show ?thesis by (auto simp: pool_call_run_def dest!: migration_control_Done)
next
  case (SubmitSystemVaultKey sub sig)
  with d have "submit_system_vault_key P E og sub s = Done u s'" by (simp add: pool_call_run_def)
  then have "ServiceState s' = Normal"
  proof (rule submit_system_vault_key_Done)
    fix r v0 v s1 w s2
    assume "submit_key P r (ks_authority_id sub) (ks_pub_key sub) v0 s = Done v s1"
      "(if is_key_generation_ready v then try_bond_vault_address P E v [] ADDRESS_U64 r
          (p_deposit (VaultKeySubmitted (ks_who sub) (ks_pub_key sub)) s1)
        else Done v (p_deposit (VaultKeySubmitted (ks_who sub) (ks_pub_key sub)) s1)) = Done w s2"
    then have "phase s2 = phase s" by (auto simp: pool_Done dest!: bond_phase split: if_splits)
    then show "ServiceState s' = Normal"
      if "s' = s2\<lparr>BondedPubKey := dm_insert r (ks_pub_key sub) ADDRESS_U64 (BondedPubKey s2),
         SystemVault := (SystemVault s2)(r \<mapsto> w),
         ServiceState := (if ServiceState s = PrepareNextSystemVault \<and> is_key_generation_ready v then UTXOTransfer
                          else ServiceState s2)\<rparr>"
      using that n(1) by (simp add: phase_def)
  qed
  with n(2) show ?thesis by simp
next
  case (RequestVault raw)
  with d n request_vault_phase [of P E og raw s u s'] show ?thesis by (simp add: pool_call_run_def phase_def)
next
  case (SubmitVaultKey sub sig)
  with d n submit_vault_key_phase [of P E og sub s u s'] show ?thesis by (simp add: pool_call_run_def phase_def)
next
  case (ClearVault raw)
  with d n clear_vault_phase [of P og raw s u s'] show ?thesis by (simp add: pool_call_run_def phase_def)
next
  case (ApproveSetRefunds sub sig)
  with d n show ?thesis
    by (auto simp: pool_call_run_def approve_set_refunds_def pool_Done phase_def Let_def dest!: approve_phase)
qed (use d n in \<open>auto simp: pool_call_run_def request_system_vault_def request_set_refund_def vault_key_presubmission_def
      drop_previous_round_def set_max_presubmission_def set_multi_sig_ratio_def Let_def pool_Done\<close>)

lemma ready_quiet:
  assumes "sq_is_ready_for_migrate s"
  shows "bt_get (RollbackRequests s) i = Some rb \<Longrightarrow> rb_is_approved rb" "request_of s i = Some (st, r) \<Longrightarrow> st = StExecuted"
  using assms unfolding sq_is_ready_for_migrate_def by (metis map_of_SomeD snd_conv, auto simp: request_of_def)

lemma pool_call_requests:
  assumes inv: "socket_inv s" and d: "pool_call_run P (bridge_pool_env xs n s) og c (the_pool s) = Done u p"
  shows "requests_ok s (s\<lparr>the_pool := p\<rparr>)"
proof -
  note I = socket_invD [OF inv]
  let ?s = "s\<lparr>the_pool := p\<rparr>"
  have q: "request_of ?s = request_of s" "one_stage ?s = one_stage s" by (rule request_of_cong one_stage_cong; simp)+
  have "rollbacks_ok ?s" using I(2) by (simp add: rollbacks_ok_def q)
  moreover have "quiescent ?s"
  proof (cases "ServiceState (the_pool s) = Normal \<and> ServiceState p \<noteq> Normal")
    case True
    then have "sq_is_ready_for_migrate s" using pool_call_start [OF d] by (simp add: bridge_pool_env_def)
    with ready_quiet show ?thesis by (auto simp: quiescent_def q)
  next
    case False
    then show ?thesis using I(3) by (auto simp: quiescent_def q)
  qed
  moreover have "migrations_ok ?s"
    using pool_call_ongoing [OF d]
  proof
    assume "OngoingVaultMigration p = OngoingVaultMigration (the_pool s)"
    with I(4) show ?thesis by (simp add: migrations_ok_def q)
  next
    assume e: "ServiceState p = Normal \<and> OngoingVaultMigration p = [] \<and> (\<forall>e\<in>set (OngoingVaultMigration (the_pool s)). snd e)"
    then have "bt_get (OngoingVaultMigration (the_pool s)) i \<noteq> Some False" for i by (metis map_of_SomeD snd_conv)
    with I(4) have "False" if "request_of s i = Some (st, r)" "pr_request_type r = ReqMigration" "st \<noteq> StExecuted" for i st r
      using that unfolding migrations_ok_def by blast
    moreover have "bt_get (OngoingVaultMigration (the_pool ?s)) i = None" for i using e by simp
    ultimately show ?thesis unfolding migrations_ok_def q by (metis option.distinct(1))
  qed
  ultimately show ?thesis using I(1) by (simp add: requests_ok_def socket_inv_def q)
qed

subsection \<open>Replacing an authority\<close>

lemma psbt_replace_same: "psbt_replace_authority old new r = Some r' \<Longrightarrow> same_request r r'"
  by (auto simp: psbt_replace_authority_def same_request_def split: option.splits)

lemma replaced_requests:
  assumes ps: "bt_map_opt (psbt_replace_authority old new) m = Some ps"
  shows "rel_option same_request (bt_get m i) (bt_get ps i)"
proof (cases "bt_get m i")
  case None
  then show ?thesis by (simp add: bt_map_opt_get [OF ps])
next
  case (Some r)
  have "bt_get ps i \<noteq> None" using Some bt_map_opt_keys [OF ps] by (metis map_of_eq_None_iff not_None_eq set_map)
  with Some bt_map_opt_get [OF ps, of i] psbt_replace_same [of old new r] show ?thesis by auto
qed

lemma rollback_replace_approved: "rollback_replace_authority old new rb = Some rb' \<Longrightarrow> rb_is_approved rb' = rb_is_approved rb"
  by (auto simp: rollback_replace_authority_def)

lemma sq_replace_requests:
  assumes inv: "socket_inv s" and d: "sq_replace_authority old new s = Done u s'"
  shows "requests_ok s s'"
proof -
  from d obtain ps rs bs where ps: "bt_map_opt (psbt_replace_authority old new) (PendingRequests s) = Some ps"
    and rs: "bt_map_opt (\<lambda>r. if rb_is_approved r then Some r else rollback_replace_authority old new r) (RollbackRequests s) = Some rs"
    and s': "s' = s\<lparr>PendingRequests := ps, RollbackRequests := rs, BroadcastConfirmations := bs\<rparr>"
    by (auto simp: sq_replace_authority_def guard_Done)
  note st = socket_invD(1) [OF inv]
  note p = replaced_requests [OF ps]
  have n: "bt_get ps i = None \<longleftrightarrow> bt_get (PendingRequests s) i = None" for i using p [of i] by (auto elim: option.rel_cases)
  have k: "rel_option (rel_prod (=) same_request) (request_of s i) (request_of s' i)" for i
    using p [of i] by (cases "bt_get (PendingRequests s) i"; cases "bt_get ps i") (simp_all add: request_of_def s' rel_same cong: option.case_cong)
  have "one_stage s'" using st n by (auto simp: one_stage_def s')
  moreover have "\<exists>rb. bt_get (RollbackRequests s) i = Some rb \<and> rb_is_approved rb' = rb_is_approved rb"
    if "bt_get rs i = Some rb'" for i rb'
    using that by (auto simp: bt_map_opt_get [OF rs] bind_eq_Some_conv dest: rollback_replace_approved split: if_splits)
  ultimately have "socket_inv s'" by (intro inv_kept [OF inv _ k]) (auto simp: s')
  with kept [OF k] show ?thesis by (simp add: requests_ok_def)
qed

lemma parts_change:
  assumes "requests_ok s s'" "ServiceState p = ServiceState (the_pool s')" "OngoingVaultMigration p = OngoingVaultMigration (the_pool s')"
  shows "requests_ok s (s'\<lparr>the_pool := p, the_blaze := b\<rparr>)"
proof -
  have "requests_ok s' (s'\<lparr>the_pool := p, the_blaze := b\<rparr>)"
    by (rule unchanged_keeps) (use assms in \<open>auto simp: requests_ok_def\<close>)
  moreover have "request_of (s'\<lparr>the_pool := p, the_blaze := b\<rparr>) = request_of s'" by (rule request_of_cong) simp_all
  ultimately show ?thesis using assms(1) by (simp add: requests_ok_def)
qed

subsection \<open>Reachable states\<close>

lemma other_ongoing:
  "OngoingVaultMigration (change_members_sorted ms p) = OngoingVaultMigration p"
  "ServiceState (change_members_sorted ms p) = ServiceState p"
  "pool_replace_authority old new p = Done u p' \<Longrightarrow> OngoingVaultMigration p' = OngoingVaultMigration p"
  "pool_replace_authority old new p = Done u p' \<Longrightarrow> ServiceState p' = ServiceState p"
  using other_phase(5) [of old new p u p']
  by (auto simp: change_members_sorted_def Let_def phase_def pool_replace_authority_def move_presubmitted_def guard_Done split: option.splits)

lemma exec_requests:
  assumes inv: "socket_inv s" and g: "socket_guard C x s" and x: "socket_exec C x s = Some s'"
  shows "requests_ok s s'"
proof -
  have refl: "requests_ok s s" using inv by (simp add: requests_ok_def)
  show ?thesis
  proof (cases x)
    case (SqCall E og c)
    with x refl call_requests [OF inv] show ?thesis by (auto simp: socket_exec_def settle_Some)
  next
    case (SqInit E n)
    with x g init_requests [OF inv] on_initialize_not_Fail show ?thesis
      by (auto simp: socket_exec_def socket_guard_def split: outcome.splits)
  next
    case (SqBlaze E n og c)
    with x parts_change [OF refl, of "the_pool s"] show ?thesis by (auto simp: socket_exec_def)
  next
    case (SqPool xs n og c)
    with x refl pool_call_requests [OF inv] show ?thesis by (auto simp: socket_exec_def settle_Some)
  next
    case (SqReplace old new)
    with x sq_replace_requests [OF inv] show ?thesis
      by (auto simp: socket_exec_def bridge_replace_def other_ongoing intro!: parts_change split: outcome.splits)
  next
    case (SqMembers ms)
    with x parts_change [OF refl, of "change_members_sorted ms (the_pool s)" "the_blaze s"] show ?thesis
      by (auto simp: socket_exec_def other_ongoing)
  qed
qed

lemma socket_reachable_inv: "socket_reachable C s \<Longrightarrow> socket_inv s"
proof (induction rule: socket_reachable.induct)
  case (socket_start authority ms)
  show ?case
    by (cases authority) (simp_all add: sq_genesis_def socket_default_def socket_inv_def one_stage_def rollbacks_ok_def quiescent_def
        migrations_ok_def request_of_def initialize_members_def pool_genesis_def pool_default_def)
next
  case (socket_move s x s')
  with exec_requests show ?case by (auto simp: requests_ok_def)
qed

end
