(* ===== verification/Socket_Messages.thy ===== *)
theory Socket_Messages
  imports Socket_Keep
begin

text \<open>
  The messages that requests pay. A PSBT is accepted only if its outputs pay exactly the amounts of
  messages that were not paid before, to the refund addresses of their users; and every message is in
  at most one request, also across fee bumps and both modes of the bridge.
\<close>

definition parsed_as :: "SConfig \<Rightarrow> bytes list \<Rightarrow> SocketMessage list \<Rightarrow> bool" where
  "parsed_as C raws ms \<longleftrightarrow> list_all2 (\<lambda>raw m. SocketMessage_try_from (s_codec C) raw = Parsed m) raws ms"

abbreviation msg_seq :: "SocketMessage \<Rightarrow> U256" where "msg_seq m \<equiv> rq_sequence (req_id m)"

lemma parsed_as_simps [simp]:
  "parsed_as C [] ms \<longleftrightarrow> ms = []"
  "parsed_as C (raw # raws) ms \<longleftrightarrow> (\<exists>m ms'. ms = m # ms' \<and> SocketMessage_try_from (s_codec C) raw = Parsed m \<and> parsed_as C raws ms')"
  by (auto simp: parsed_as_def list_all2_Cons1)

lemma parsed_as_append:
  "parsed_as C raws ms \<Longrightarrow> parsed_as C raws' ms' \<Longrightarrow> parsed_as C (raws @ raws') (ms @ ms')"
  by (simp add: parsed_as_def list_all2_appendI)

lemma parsed_as_sequences: "parsed_as C raws ms \<Longrightarrow> map (message_sequence (s_codec C)) raws = map msg_seq ms"
  by (induction raws arbitrary: ms) (auto simp: message_sequence_def)

lemma parsed_as_in: "parsed_as C raws ms \<Longrightarrow> raw \<in> set raws \<Longrightarrow> \<exists>m\<in>set ms. SocketMessage_try_from (s_codec C) raw = Parsed m"
  by (induction raws arbitrary: ms) auto

lemma parsed_as_from: "parsed_as C raws ms \<Longrightarrow> m \<in> set ms \<Longrightarrow> \<exists>raw\<in>set raws. SocketMessage_try_from (s_codec C) raw = Parsed m"
  by (induction raws arbitrary: ms) (simp, fastforce)

lemma parsed_as_unique: "parsed_as C raws xs \<Longrightarrow> parsed_as C raws ys \<Longrightarrow> xs = ys"
  by (induction raws arbitrary: xs ys) auto

subsection \<open>Verified outputs\<close>

definition amounts :: "SocketMessage list \<Rightarrow> nat" where
  "amounts ms = (\<Sum>m\<leftarrow>ms. unat (tp_amount (sm_params m)))"

text \<open>Messages that may be paid to an address: new, and of users whose refund address it is.\<close>

definition payable :: "socket_queue \<Rightarrow> btc_address \<Rightarrow> SocketMessage list \<Rightarrow> bool" where
  "payable s to ms \<longleftrightarrow> (\<forall>m\<in>set ms. bt_get (SocketMessages s) (msg_seq m) = None \<and>
     get_refund_address (acct_of (tp_to (sm_params m))) (the_pool s) = Some to)"

lemma checked_add_Some: "checked_add256 a b = Some c \<Longrightarrow> unat c = unat a + unat b"
  by (simp add: checked_add256_Some unat_add256)

lemma check_messages_Done:
  "check_messages C E to raws (des, ser, seqs) n s = Done ((des', ser', seqs'), n') s' \<Longrightarrow> seqs = map msg_seq des \<Longrightarrow> distinct seqs \<Longrightarrow>
   \<exists>ms. parsed_as C raws ms \<and> des' = des @ ms \<and> ser' = ser @ raws \<and> seqs' = map msg_seq des' \<and> distinct seqs' \<and>
     payable s to ms \<and> unat n' = unat n + amounts ms"
proof (induction raws arbitrary: des ser seqs n)
  case Nil
  then show ?case by (auto simp: payable_def amounts_def)
next
  case (Cons raw raws)
  from Cons.prems(1) obtain m s1 n1 where m: "SocketMessage_try_from (s_codec C) raw = Parsed m" "msg_seq m \<notin> set seqs"
    and v: "sq_verify_socket_message C E raw s = Done () s1"
    and r: "get_refund_address (acct_of (tp_to (sm_params m))) (the_pool s1) = Some to"
    and n1: "checked_add256 n (tp_amount (sm_params m)) = Some n1"
    and d: "check_messages C E to raws (des @ [m], ser @ [raw], seqs @ [msg_seq m]) n1 s1 = Done ((des', ser', seqs'), n') s'"
    by (auto simp: socket_Done)
  note V = verify_message_Done [OF v]
  have "seqs @ [msg_seq m] = map msg_seq (des @ [m])" "distinct (seqs @ [msg_seq m])" using Cons.prems(2,3) m(2) by simp_all
  from Cons.IH [OF d [unfolded V(1)] this] obtain ms where
    "parsed_as C raws ms" "des' = (des @ [m]) @ ms" "ser' = (ser @ [raw]) @ raws" "seqs' = map msg_seq des'" "distinct seqs'"
    "payable s to ms" "unat n' = unat n1 + amounts ms" by blast
  with V m r checked_add_Some [OF n1] show ?case
    by (intro exI [of _ "m # ms"]) (auto simp: payable_def amounts_def)
qed

text \<open>An output goes to the system vault, or pays exactly the messages listed for its address.\<close>

definition output_pays :: "SConfig \<Rightarrow> socket_queue \<Rightarrow> btc_address \<Rightarrow> (btc_address, bytes list) btmap \<Rightarrow> TxOut \<Rightarrow> bool" where
  "output_pays C s sv outs out \<longleftrightarrow> (\<exists>to. output_address C out = Some to \<and>
     (to = sv \<and> bt_get outs to = Some [] \<or>
      to \<noteq> sv \<and> (\<exists>raws ms. bt_get outs to = Some raws \<and> parsed_as C raws ms \<and> payable s to ms \<and>
        unat (of_nat (txo_value out) :: U256) = amounts ms)))"

lemma check_outputs_Done:
  "check_outputs C E k sv outs os (des, ser, seqs) s = Done (des', ser', seqs') s' \<Longrightarrow> parsed_as C ser des \<Longrightarrow>
   seqs = map msg_seq des \<Longrightarrow> distinct seqs \<Longrightarrow> (\<forall>m\<in>set des. bt_get (SocketMessages s) (msg_seq m) = None) \<Longrightarrow>
   list_all (output_pays C s sv outs) os \<and> parsed_as C ser' des' \<and> distinct (map msg_seq des') \<and>
   (\<forall>m\<in>set des'. bt_get (SocketMessages s) (msg_seq m) = None) \<and>
   set ser' \<subseteq> set ser \<union> {raw. \<exists>to raws. bt_get outs to = Some raws \<and> raw \<in> set raws}"
proof (induction os arbitrary: des ser seqs)
  case Nil
  then show ?case by auto
next
  case (Cons out os)
  from Cons.prems(1) obtain to raws where to: "output_address C out = Some to" "bt_get outs to = Some raws"
    by (auto simp: socket_Done)
  show ?case
  proof (cases "to = sv")
    case True
    with Cons.prems(1) to have r: "raws = []" and d: "check_outputs C E k sv outs os (des, ser, seqs) s = Done (des', ser', seqs') s'"
      by (auto simp: socket_Done)
    have "output_pays C s sv outs out" using to True r by (simp add: output_pays_def)
    with Cons.IH [OF d Cons.prems(2-5)] show ?thesis by simp
  next
    case False
    with Cons.prems(1) to obtain des1 ser1 seqs1 n s1
      where c: "check_messages C E to raws (des, ser, seqs) 0 s = Done ((des1, ser1, seqs1), n) s1"
        and n: "of_nat (txo_value out) = n"
        and d: "check_outputs C E k sv outs os (des1, ser1, seqs1) s1 = Done (des', ser', seqs') s'"
      by (auto simp: socket_Done)
    have e: "s1 = s" using c by (rule check_messages_pure)
    from check_messages_Done [OF c Cons.prems(3,4)] obtain ms where
      1: "parsed_as C raws ms" "des1 = des @ ms" "ser1 = ser @ raws" "seqs1 = map msg_seq des1" "distinct seqs1"
        "payable s to ms" "unat n = amounts ms" by auto
    have "output_pays C s sv outs out" using to False 1(1,6,7) n by (auto simp: output_pays_def)
    moreover have "parsed_as C ser1 des1" using Cons.prems(2) 1(1-3) by (simp add: parsed_as_append)
    moreover have "\<forall>m\<in>set des1. bt_get (SocketMessages s) (msg_seq m) = None"
      using Cons.prems(5) 1(2,6) by (auto simp: payable_def)
    moreover have "set ser1 \<subseteq> set ser \<union> {raw. \<exists>to raws. bt_get outs to = Some raws \<and> raw \<in> set raws}" using to 1(3) by auto
    ultimately show ?thesis using Cons.IH [OF d [unfolded e] _ 1(4,5)] by (simp, blast)
  qed
qed

lemma outputs_listed:
  "bt_get (fold (\<lambda>(a, ms). bt_insert a ms) outs m0) to = Some raws \<Longrightarrow> (to, raws) \<in> set outs \<or> bt_get m0 to = Some raws"
proof (induction outs arbitrary: m0)
  case (Cons e outs)
  obtain a b where e: "e = (a, b)" by (cases e)
  from Cons.prems have "bt_get (fold (\<lambda>(a, ms). bt_insert a ms) outs (bt_insert a b m0)) to = Some raws" by (simp add: e)
  from Cons.IH [OF this] show ?case by (auto simp: e split: if_splits)
qed simp

lemma output_verification_Done:
  assumes "try_psbt_output_verification C E p outs s = Done (des, ser) s'"
  obtains sv where "get_system_vault (CurrentRound (the_pool s)) (the_pool s) = Some sv"
    "list_all (output_pays C s sv (fold (\<lambda>(a, ms). bt_insert a ms) outs [])) (psbt_tx_output p)"
    "parsed_as C ser des" "distinct (map msg_seq des)" "\<forall>m\<in>set des. bt_get (SocketMessages s) (msg_seq m) = None"
    "set ser \<subseteq> set (concat (map snd outs))"
proof -
  from assms obtain sv seqs where v: "get_system_vault (CurrentRound (the_pool s)) (the_pool s) = Some sv"
    and d: "check_outputs C E (length (psbt_tx_output p)) sv (fold (\<lambda>(a, ms). bt_insert a ms) outs []) (psbt_tx_output p)
      ([], [], []) s = Done (des, ser, seqs) s'"
    by (auto simp: try_psbt_output_verification_def Let_def socket_Done)
  from check_outputs_Done [OF d] have D: "list_all (output_pays C s sv (fold (\<lambda>(a, ms). bt_insert a ms) outs [])) (psbt_tx_output p)"
    "parsed_as C ser des" "distinct (map msg_seq des)" "\<forall>m\<in>set des. bt_get (SocketMessages s) (msg_seq m) = None"
    and S: "set ser \<subseteq> {raw. \<exists>to raws. bt_get (fold (\<lambda>(a, ms). bt_insert a ms) outs []) to = Some raws \<and> raw \<in> set raws}"
    by auto
  have "set ser \<subseteq> set (concat (map snd outs))" 
  proof
    fix raw assume "raw \<in> set ser"
    with S obtain to raws where "bt_get (fold (\<lambda>(a, ms). bt_insert a ms) outs []) to = Some raws" "raw \<in> set raws" by blast
    with outputs_listed [of outs "[]" to raws] show "raw \<in> set (concat (map snd outs))" by force
  qed
  with v D show thesis by (rule that)
qed

end
