(* ===== verification/Socket_Paid.thy ===== *)
theory Socket_Paid
  imports Socket_Messages
begin

text \<open>Every message is recorded with the one request that pays it; what waits in the outbound pool is not recorded.\<close>

definition pays :: "SConfig \<Rightarrow> socket_queue \<Rightarrow> H256 \<Rightarrow> SocketMessage \<Rightarrow> bool" where
  "pays C s i m \<longleftrightarrow> (\<exists>st r. request_of s i = Some (st, r) \<and>
     (\<exists>raw\<in>set (pr_socket_messages r). SocketMessage_try_from (s_codec C) raw = Parsed m))"

definition recorded :: "SConfig \<Rightarrow> socket_queue \<Rightarrow> H256 \<Rightarrow> PsbtRequest \<Rightarrow> bool" where
  "recorded C s i r \<longleftrightarrow> (\<exists>ms. parsed_as C (pr_socket_messages r) ms \<and> distinct (map msg_seq ms) \<and>
     (\<forall>m\<in>set ms. bt_get (SocketMessages s) (msg_seq m) = Some (i, m))) \<and>
     (pr_request_type r \<noteq> ReqNormal \<longrightarrow> pr_socket_messages r = [])"

definition messages_ok :: "SConfig \<Rightarrow> socket_queue \<Rightarrow> bool" where
  "messages_ok C s \<longleftrightarrow>
     (\<forall>i st r. request_of s i = Some (st, r) \<longrightarrow> recorded C s i r) \<and>
     (\<forall>q i m. bt_get (SocketMessages s) q = Some (i, m) \<longrightarrow> msg_seq m = q \<and> pays C s i m) \<and>
     (\<forall>raw\<in>set (OutboundPool (the_blaze s)). bt_get (SocketMessages s) (message_sequence (s_codec C) raw) = None)"

lemma messagesD:
  assumes "messages_ok C s"
  shows "request_of s i = Some (st, r) \<Longrightarrow> recorded C s i r"
    "bt_get (SocketMessages s) q = Some (i, m) \<Longrightarrow> msg_seq m = q" "bt_get (SocketMessages s) q = Some (i, m) \<Longrightarrow> pays C s i m"
    "raw \<in> set (OutboundPool (the_blaze s)) \<Longrightarrow> bt_get (SocketMessages s) (message_sequence (s_codec C) raw) = None"
  using assms unfolding messages_ok_def by blast+

lemma put_messages_get:
  "q \<notin> msg_seq ` set ms \<Longrightarrow> bt_get (SocketMessages (put_messages i ms s)) q = bt_get (SocketMessages s) q"
  "distinct (map msg_seq ms) \<Longrightarrow> m \<in> set ms \<Longrightarrow> bt_get (SocketMessages (put_messages i ms s)) (msg_seq m) = Some (i, m)"
proof -
  have out: "bt_get (fold (\<lambda>m. bt_insert (msg_seq m) (i, m)) ms M) q = bt_get M q" if "q \<notin> msg_seq ` set ms" for q M
    using that by (induction ms arbitrary: M) auto
  show "q \<notin> msg_seq ` set ms \<Longrightarrow> bt_get (SocketMessages (put_messages i ms s)) q = bt_get (SocketMessages s) q"
    using out by (simp add: put_messages_def)
  have "bt_get (fold (\<lambda>m. bt_insert (msg_seq m) (i, m)) ms M) (msg_seq m) = Some (i, m)"
    if "distinct (map msg_seq ms)" "m \<in> set ms" for M
    using that
  proof (induction ms arbitrary: M)
    case (Cons x ms)
    then show ?case
    proof (cases "m = x")
      case True
      have "bt_get (fold (\<lambda>m. bt_insert (msg_seq m) (i, m)) xs M) q = bt_get M q" if "q \<notin> msg_seq ` set xs" for q M xs
        using that by (induction xs arbitrary: M) auto
      with True Cons.prems show ?thesis by simp
    qed simp
  qed simp
  then show "distinct (map msg_seq ms) \<Longrightarrow> m \<in> set ms \<Longrightarrow> bt_get (SocketMessages (put_messages i ms s)) (msg_seq m) = Some (i, m)"
    by (simp add: put_messages_def)
qed

subsection \<open>The invariant through a change\<close>

lemma messages_kept:
  assumes ok: "messages_ok C s"
    and q: "\<And>i. rel_option (\<lambda>(_, r) (_, r'). pr_socket_messages r' = pr_socket_messages r \<and> pr_request_type r' = pr_request_type r)
        (request_of s i) (request_of s' i)"
    and S: "SocketMessages s' = SocketMessages s"
    and O: "\<And>raw. raw \<in> set (OutboundPool (the_blaze s')) \<Longrightarrow> bt_get (SocketMessages s) (message_sequence (s_codec C) raw) = None"
  shows "messages_ok C s'"
proof -
  have b: "\<exists>st r. request_of s i = Some (st, r) \<and> pr_socket_messages r' = pr_socket_messages r \<and> pr_request_type r' = pr_request_type r"
    if "request_of s' i = Some (st', r')" for i st' r'
    using q [of i] that by (cases "request_of s i") auto
  have f: "\<exists>st' r'. request_of s' i = Some (st', r') \<and> pr_socket_messages r' = pr_socket_messages r"
    if "request_of s i = Some (st, r)" for i st r
    using q [of i] that by (cases "request_of s' i") auto
  have "recorded C s' i r'" if "request_of s' i = Some (st', r')" for i st' r'
  proof -
    from b [OF that] obtain st r where "request_of s i = Some (st, r)" "pr_socket_messages r' = pr_socket_messages r"
      "pr_request_type r' = pr_request_type r" by blast
    with messagesD(1) [OF ok] show ?thesis by (metis recorded_def S)
  qed
  moreover have "pays C s' i m" if "pays C s i m" for i m
  proof -
    from that obtain st r raw where "request_of s i = Some (st, r)" "raw \<in> set (pr_socket_messages r)"
      "SocketMessage_try_from (s_codec C) raw = Parsed m" by (auto simp: pays_def)
    with f show ?thesis unfolding pays_def by metis
  qed
  ultimately show ?thesis using messagesD(2,3) [OF ok] O unfolding messages_ok_def S by blast
qed

text \<open>The recorded request of another transaction is not touched by new messages.\<close>

lemma recorded_put:
  assumes "recorded C s k r" "\<And>m. m \<in> set ms \<Longrightarrow> bt_get (SocketMessages s) (msg_seq m) = None \<or>
      (\<exists>m'. bt_get (SocketMessages s) (msg_seq m) = Some (i, m'))" "k \<noteq> i"
    and S: "SocketMessages s' = SocketMessages (put_messages j ms s)"
  shows "recorded C s' k r"
proof -
  from assms(1) obtain xs where xs: "parsed_as C (pr_socket_messages r) xs" "distinct (map msg_seq xs)"
    "\<forall>m\<in>set xs. bt_get (SocketMessages s) (msg_seq m) = Some (k, m)" by (auto simp: recorded_def)
  have "bt_get (SocketMessages s') (msg_seq m) = Some (k, m)" if "m \<in> set xs" for m
  proof -
    have "msg_seq m \<notin> msg_seq ` set ms" using assms(2,3) xs(3) that by fastforce
    then show ?thesis using xs(3) that by (simp add: S put_messages_get(1))
  qed
  with xs assms(1) show ?thesis unfolding recorded_def by blast
qed

lemma messages_open:
  assumes ok: "messages_ok C s" and i: "request_of s i = None"
    and q: "request_of s' = (request_of s)(i \<mapsto> (StPending, r))"
    and ms: "parsed_as C (pr_socket_messages r) ms" "distinct (map msg_seq ms)" "pr_request_type r \<noteq> ReqNormal \<Longrightarrow> ms = []"
    and new: "\<And>m. m \<in> set ms \<Longrightarrow> bt_get (SocketMessages s) (msg_seq m) = None"
    and S: "SocketMessages s' = SocketMessages (put_messages i ms s)"
    and O: "\<And>raw. raw \<in> set (OutboundPool (the_blaze s')) \<Longrightarrow>
        raw \<in> set (OutboundPool (the_blaze s)) \<and> message_sequence (s_codec C) raw \<notin> msg_seq ` set ms"
  shows "messages_ok C s'"
proof -
  have "recorded C s' k r'" if "request_of s' k = Some (st, r')" for k st r'
  proof (cases "k = i")
    case True
    have "pr_request_type r \<noteq> ReqNormal \<Longrightarrow> pr_socket_messages r = []"
      using ms(1,3) by (cases "pr_socket_messages r") auto
    with True that q ms put_messages_get(2) [OF ms(2)] show ?thesis by (auto simp: recorded_def S)
  next
    case False
    with that q have "request_of s k = Some (st, r')" by simp
    from recorded_put [OF messagesD(1) [OF ok this] _ False S] new show ?thesis by blast
  qed
  moreover have "msg_seq m = x \<and> pays C s' k m" if "bt_get (SocketMessages s') x = Some (k, m)" for x k m
  proof (cases "x \<in> msg_seq ` set ms")
    case True
    then obtain m' where m': "m' \<in> set ms" "x = msg_seq m'" by blast
    with that have "k = i" "m = m'" using put_messages_get(2) [OF ms(2) m'(1)] by (auto simp: S)
    with m' parsed_as_from [OF ms(1) m'(1)] show ?thesis by (simp add: pays_def q)
  next
    case False
    with that have g: "bt_get (SocketMessages s) x = Some (k, m)" by (simp add: S put_messages_get(1))
    from messagesD(3) [OF ok g] i have "k \<noteq> i" by (auto simp: pays_def)
    with messagesD(2,3) [OF ok g] show ?thesis by (simp add: pays_def q)
  qed
  moreover have "bt_get (SocketMessages s') (message_sequence (s_codec C) raw) = None" if "raw \<in> set (OutboundPool (the_blaze s'))" for raw
    using O [OF that] messagesD(4) [OF ok] by (simp add: S put_messages_get(1))
  ultimately show ?thesis unfolding messages_ok_def by blast
qed

lemma messages_bump:
  assumes ok: "messages_ok C s" and i: "request_of s i = Some (StExecuted, r)" and j: "request_of s j = None"
    and q: "request_of s' = (request_of s)(i := None, j \<mapsto> (StPending, r'))"
    and r': "pr_socket_messages r' = pr_socket_messages r" "pr_request_type r' = pr_request_type r"
    and ms: "parsed_as C (pr_socket_messages r) ms" and S: "SocketMessages s' = SocketMessages (put_messages j ms s)"
    and O: "OutboundPool (the_blaze s') = OutboundPool (the_blaze s)"
  shows "messages_ok C s'"
proof -
  have ij: "i \<noteq> j" using i j by auto
  from messagesD(1) [OF ok i] obtain xs where xs: "parsed_as C (pr_socket_messages r) xs" "distinct (map msg_seq xs)"
    "\<forall>m\<in>set xs. bt_get (SocketMessages s) (msg_seq m) = Some (i, m)" and t: "pr_request_type r \<noteq> ReqNormal \<longrightarrow> pr_socket_messages r = []"
    by (auto simp: recorded_def)
  have "xs = ms" using xs(1) ms by (rule parsed_as_unique)
  note xs = xs [unfolded this]
  have "recorded C s' k r1" if "request_of s' k = Some (st, r1)" for k st r1
  proof (cases "k = j")
    case True
    with that q have "r1 = r'" by simp
    moreover have "\<forall>m\<in>set ms. bt_get (SocketMessages s') (msg_seq m) = Some (k, m)"
      using put_messages_get(2) [OF xs(2)] True by (simp add: S)
    ultimately show ?thesis using ms xs(2) t r' unfolding recorded_def by metis
  next
    case False
    with that q have k: "request_of s k = Some (st, r1)" "k \<noteq> i" by (auto split: if_splits)
    from recorded_put [OF messagesD(1) [OF ok k(1)] _ k(2) S] xs(3) show ?thesis by blast
  qed
  moreover have "msg_seq m = x \<and> pays C s' k m" if "bt_get (SocketMessages s') x = Some (k, m)" for x k m
  proof (cases "x \<in> msg_seq ` set ms")
    case True
    then obtain m' where m': "m' \<in> set ms" "x = msg_seq m'" by blast
    with that have "k = j" "m = m'" using put_messages_get(2) [OF xs(2) m'(1)] by (auto simp: S)
    with m' parsed_as_from [OF ms m'(1)] r' show ?thesis by (simp add: pays_def q)
  next
    case False
    with that have g: "bt_get (SocketMessages s) x = Some (k, m)" by (simp add: S put_messages_get(1))
    note G = messagesD(2,3) [OF ok g]
    have "k \<noteq> i"
    proof
      assume "k = i"
      with G(2) i obtain raw where "raw \<in> set (pr_socket_messages r)" "SocketMessage_try_from (s_codec C) raw = Parsed m"
        by (auto simp: pays_def)
      with parsed_as_in [OF ms] have "m \<in> set ms" by fastforce
      with False G(1) show False by blast
    qed
    moreover have "k \<noteq> j" using G(2) j by (auto simp: pays_def)
    ultimately show ?thesis using G by (simp add: pays_def q)
  qed
  moreover have "bt_get (SocketMessages s') (message_sequence (s_codec C) raw) = None" if "raw \<in> set (OutboundPool (the_blaze s'))" for raw
  proof -
    have n: "bt_get (SocketMessages s) (message_sequence (s_codec C) raw) = None" using that messagesD(4) [OF ok] by (simp add: O)
    with xs(3) have "message_sequence (s_codec C) raw \<notin> msg_seq ` set ms" by fastforce
    with n show ?thesis by (simp add: S put_messages_get(1))
  qed
  ultimately show ?thesis unfolding messages_ok_def by blast
qed


subsection \<open>Steps\<close>

lemma lock_outbound: "lock_utxos i us b = Done u b' \<Longrightarrow> OutboundPool b' = OutboundPool b"
  by (auto simp: lock_utxos_def guard_Done dest!: set_statuses_outbound)

lemma unlock_outbound: "unlock_utxos i b = Done u b' \<Longrightarrow> OutboundPool b' = OutboundPool b"
  by (auto simp: unlock_utxos_def guard_Done dest!: set_statuses_outbound)

lemma tolerance_outbound [simp]: "OutboundPool (handle_tolerance_counter B t b) = OutboundPool b"
  by (simp add: handle_tolerance_counter_def Let_def)

lemma rel_messages:
  "rel_option (\<lambda>(_, r) (_, r'). pr_socket_messages r' = pr_socket_messages r \<and> pr_request_type r' = pr_request_type r) x x"
  by (simp add: option.rel_refl_strong case_prod_unfold)

lemma messages_unchanged:
  assumes ok: "messages_ok C s" and "PendingRequests s' = PendingRequests s" "FinalizedRequests s' = FinalizedRequests s"
    "ExecutedRequests s' = ExecutedRequests s" "SocketMessages s' = SocketMessages s"
    and O: "\<And>raw. raw \<in> set (OutboundPool (the_blaze s')) \<Longrightarrow> bt_get (SocketMessages s) (message_sequence (s_codec C) raw) = None"
  shows "messages_ok C s'"
  by (rule messages_kept [OF ok _ assms(5) O]) (use request_of_cong [OF assms(2-4)] rel_messages in simp_all)

lemma unsigned_messages:
  assumes inv: "socket_inv s" and ok: "messages_ok C s" and g: "call_guard C (SubmitUnsignedPsbt msg sig) s"
    and d: "submit_unsigned_psbt C E og msg s = Done u s'"
  shows "messages_ok C s'"
  using d
proof (rule submit_unsigned_Done)
  fix p i des ser
  let ?r = "PsbtRequest_new (up_psbt msg) ser ReqNormal"
  assume a: "bt_get (PendingRequests s) i = None" "bt_get (FinalizedRequests s) i = None" "bt_get (ExecutedRequests s) i = None"
    and v: "try_psbt_output_verification C E p (up_outputs msg) s = Done (des, ser) s"
    and s': "s' = s_deposit (UnsignedPsbtSubmitted i) ((put_messages i des s)\<lparr>PendingRequests := bt_insert i ?r (PendingRequests s)\<rparr>)"
  have n: "request_of s i = None" using a by (simp add: request_None)
  note O = open_request(2) [OF socket_invD(1) [OF inv] n, of s' ?r]
  from v obtain sv where V: "parsed_as C ser des" "distinct (map msg_seq des)"
    "\<forall>m\<in>set des. bt_get (SocketMessages s) (msg_seq m) = None" "set ser \<subseteq> set (concat (map snd (up_outputs msg)))"
    by (rule output_verification_Done)
  have G: "\<forall>raw\<in>set (concat (map snd (up_outputs msg))).
      message_sequence (s_codec C) raw \<notin> message_sequence (s_codec C) ` set (OutboundPool (the_blaze s))"
    using g by (simp only: call_guard_def sq_call.case)
  have f: "message_sequence (s_codec C) raw \<notin> msg_seq ` set des" if "raw \<in> set (OutboundPool (the_blaze s))" for raw
  proof
    assume "message_sequence (s_codec C) raw \<in> msg_seq ` set des"
    also have "msg_seq ` set des = message_sequence (s_codec C) ` set ser"
      using arg_cong [OF parsed_as_sequences [OF V(1)], of set] by simp
    finally obtain raw' where r: "raw' \<in> set ser" "message_sequence (s_codec C) raw = message_sequence (s_codec C) raw'"
      by (rule imageE)
    from bspec [OF G subsetD [OF V(4) r(1)]] imageI [OF that, of "message_sequence (s_codec C)"] r(2) show False by simp
  qed
  show ?thesis
    by (rule messages_open [OF ok n, of s' ?r des]) (use O V f in \<open>simp_all add: s' PsbtRequest_new_def\<close>)
qed

lemma signed_messages:
  assumes inv: "socket_inv s" and ok: "messages_ok C s" and d: "submit_signed_psbt C og msg s = Done u s'"
  shows "messages_ok C s'"
  using d
proof (rule submit_signed_Done)
  fix i r r'
  assume r: "bt_get (PendingRequests s) i = Some r" and e: "pr_request_type r' = pr_request_type r"
    "pr_socket_messages r' = pr_socket_messages r"
    and c: "FinalizedRequests s' = FinalizedRequests s \<and> PendingRequests s' = bt_insert i r' (PendingRequests s) \<or>
     FinalizedRequests s' = bt_insert i r' (FinalizedRequests s) \<and> PendingRequests s' = bt_remove i (PendingRequests s)"
    and s': "ExecutedRequests s' = ExecutedRequests s" "SocketMessages s' = SocketMessages s" "the_blaze s' = the_blaze s"
  note st = socket_invD(1) [OF inv]
  have q: "request_of s i = Some (StPending, r)" using r by (simp add: request_stages(1) [OF st])
  have "\<exists>st. request_of s' = (request_of s)(i \<mapsto> (st, r'))"
    using c sign_request(2) [OF st r, of s' r'] finalize_request(2) [OF st r, of s' r'] s'(1) by blast
  then show ?thesis
    using q e by (intro messages_kept [OF ok _ s'(2)]) (auto simp: s'(3) rel_messages messagesD(4) [OF ok])
qed

lemma executed_messages:
  assumes inv: "socket_inv s" and ok: "messages_ok C s" and d: "submit_executed_request E og msg s = Done u s'"
  shows "messages_ok C s'"
  using d
proof (rule submit_executed_Done)
  fix r
  let ?i = "ep_txid msg"
  assume r: "bt_get (FinalizedRequests s) ?i = Some r"
    and p: "PendingRequests s' = PendingRequests s" "SocketMessages s' = SocketMessages s" "the_blaze s' = the_blaze s"
    and c: "FinalizedRequests s' = FinalizedRequests s \<and> ExecutedRequests s' = ExecutedRequests s \<and> the_pool s' = the_pool s \<or>
     FinalizedRequests s' = bt_remove ?i (FinalizedRequests s) \<and> ExecutedRequests s' = bt_insert ?i r (ExecutedRequests s) \<and>
     the_pool s' = (if pr_request_type r = ReqMigration then execute_migration_tx ?i (the_pool s) else the_pool s)"
  note st = socket_invD(1) [OF inv]
  have q: "request_of s ?i = Some (StFinalized, r)" using r by (simp add: request_stages(2) [OF st])
  have "request_of s' = request_of s \<or> request_of s' = (request_of s)(?i \<mapsto> (StExecuted, r))"
    using c p(1) execute_request(2) [OF st r, of s'] request_of_cong [of s' s] by blast
  then show ?thesis
    using q by (intro messages_kept [OF ok _ p(2)]) (auto simp: p(3) rel_messages messagesD(4) [OF ok])
qed

text \<open>A new request without messages.\<close>

lemma silent_messages:
  assumes inv: "socket_inv s" and ok: "messages_ok C s" and n: "request_of s i = None"
    and s': "PendingRequests s' = bt_insert i (PsbtRequest_new psbt [] ty) (PendingRequests s)"
      "FinalizedRequests s' = FinalizedRequests s" "ExecutedRequests s' = ExecutedRequests s"
      "SocketMessages s' = SocketMessages s" "OutboundPool (the_blaze s') = OutboundPool (the_blaze s)"
  shows "messages_ok C s'"
  by (rule messages_open [OF ok n open_request(2) [OF socket_invD(1) [OF inv] n s'(1-3)], of "[]"])
    (simp_all add: s' PsbtRequest_new_def put_messages_def)

lemma bump_messages:
  assumes inv: "socket_inv s" and ok: "messages_ok C s" and d: "submit_bump_fee_request C og i psbt s = Done u s'"
  shows "messages_ok C s'"
  using d
proof (rule submit_bump_fee_Done)
  fix r :: PsbtRequest and q p j s1
  let ?r = "PsbtRequest_new psbt (pr_socket_messages r) (pr_request_type r)"
  assume r: "bt_get (ExecutedRequests s) i = Some r" and ij: "j \<noteq> i"
    and j: "bt_get (PendingRequests s) j = None" "bt_get (FinalizedRequests s) j = None" "bt_get (ExecutedRequests s) j = None"
    and rr: "replace_request C i j psbt r s = Done () s1"
    and s': "PendingRequests s' = bt_insert j ?r (PendingRequests s)" "FinalizedRequests s' = FinalizedRequests s"
      "ExecutedRequests s' = bt_remove i (ExecutedRequests s)" "SocketMessages s' = SocketMessages s1"
    and b: "if IsActivated (the_blaze s) then \<exists>us b. unlock_utxos i (the_blaze s) = Done () b \<and>
       extract_utxos_from_psbt (psbt_blaze_inputs p) b = Done us b \<and> lock_utxos j us b = Done () (the_blaze s')
     else the_blaze s' = the_blaze s"
  note st = socket_invD(1) [OF inv]
  have n: "request_of s j = None" using j by (simp add: request_None)
  have e: "request_of s i = Some (StExecuted, r)" using r by (simp add: request_stages(3) [OF st])
  note Q = bump_request(2) [OF st r n ij [symmetric] s'(1-3)]
  have O: "OutboundPool (the_blaze s') = OutboundPool (the_blaze s)"
    using b by (auto dest!: lock_outbound unlock_outbound split: if_splits)
  have "\<exists>ms. parsed_as C (pr_socket_messages r) ms \<and> SocketMessages s' = SocketMessages (put_messages j ms s)"
  proof (cases "pr_request_type r = ReqNormal")
    case True
    with replace_request_Done(7) [OF rr] show ?thesis by (simp add: s'(4) parsed_as_def)
  next
    case False
    with messagesD(1) [OF ok e] replace_request_Done(6) [OF rr] show ?thesis by (simp add: recorded_def s'(4) put_messages_def)
  qed
  then obtain ms where "parsed_as C (pr_socket_messages r) ms" "SocketMessages s' = SocketMessages (put_messages j ms s)" by blast
  from messages_bump [OF ok e n Q _ _ this O] show ?thesis by (simp add: PsbtRequest_new_def)
qed


lemma call_messages:
  assumes inv: "socket_inv s" and ok: "messages_ok C s" and g: "call_guard C c s" and d: "sq_call_run C E og c s = Done u s'"
  shows "messages_ok C s'"
proof -
  note O = messagesD(4) [OF ok]
  show ?thesis
  proof (cases c)
    case (SubmitUnsignedPsbt msg sig)
    with d g unsigned_messages [OF inv ok] show ?thesis by (simp add: sq_call_run_def)
  next
    case (SubmitRollbackRequest msg)
    with d have "submit_rollback_request C E og msg s = Done u s'" by (simp add: sq_call_run_def)
    then show ?thesis
      by (rule submit_rollback_request_Done)
        (rule messages_unchanged [OF ok]; use O in \<open>auto dest!: lock_outbound split: if_splits\<close>)
  next
    case (SubmitRollbackPoll msg sig)
    with d have "submit_rollback_poll E og msg s = Done u s'" by (simp add: sq_call_run_def)
    then show ?thesis
    proof (rule submit_rollback_poll_Done)
      fix rb rb'
      assume rb: "bt_get (RollbackRequests s) (rv_txid msg) = Some rb" "\<not> rb_is_approved rb"
        and p: "if rb_is_approved rb' then PendingRequests s' =
           bt_insert (rv_txid msg) (PsbtRequest_new (rb_unsigned_psbt rb) [] ReqRollback) (PendingRequests s)
         else PendingRequests s' = PendingRequests s"
        and s': "FinalizedRequests s' = FinalizedRequests s" "ExecutedRequests s' = ExecutedRequests s"
          "SocketMessages s' = SocketMessages s" "the_blaze s' = the_blaze s"
      have n: "request_of s (rv_txid msg) = None" using socket_invD(2) [OF inv] rb unfolding rollbacks_ok_def by blast
      show ?thesis
      proof (cases "rb_is_approved rb'")
        case True
        with p s' show ?thesis by (intro silent_messages [OF inv ok n]) simp_all
      next
        case False
        with p s' O show ?thesis by (intro messages_unchanged [OF ok]) simp_all
      qed
    qed
  next
    case (DropPendingRollbackRequest i)
    with d have "drop_pending_rollback_request og i s = Done u s'" by (simp add: sq_call_run_def)
    then show ?thesis
      by (rule drop_rollback_Done) (rule messages_unchanged [OF ok]; use O in \<open>auto dest!: unlock_outbound split: if_splits\<close>)
  next
    case (SubmitMigrationRequest psbt)
    with d have "submit_migration_request C og psbt s = Done u s'" by (simp add: sq_call_run_def)
    then show ?thesis
      by (rule submit_migration_Done) (rule silent_messages [OF inv ok]; simp add: request_None clear_utxos_def)
  next
    case (SubmitBumpFeeRequest i psbt)
    with d bump_messages [OF inv ok] show ?thesis by (simp add: sq_call_run_def)
  next
    case (SubmitSignedPsbt msg sig)
    with d signed_messages [OF inv ok] show ?thesis by (simp add: sq_call_run_def)
  next
    case (SubmitExecutedRequest msg sig)
    with d executed_messages [OF inv ok] show ?thesis by (simp add: sq_call_run_def)
  qed (use d O in \<open>auto simp: sq_call_run_def set_authority_def sq_set_socket_def set_max_fee_rate_def
      set_max_socket_message_bytes_def socket_Done intro: messages_unchanged [OF ok] split: if_splits\<close>)
qed

lemma filtered_part:
  "filter_unregistered_outbounds C p pool = Some (fl, rs) \<Longrightarrow> \<exists>P. fl = filter P pool"
  by (auto simp: filter_unregistered_outbounds_def)

lemma init_messages:
  assumes inv: "socket_inv s" and ok: "messages_ok C s" and out: "outbound_ok (s_codec C) (OutboundPool (the_blaze s))"
    and g: "init_guard C E n s" and d: "sq_on_initialize C E n s = Done u s'"
  shows "messages_ok C s'"
  using d
proof (cases rule: on_initialize_Done)
  case 1
  with ok show ?thesis by simp
next
  case (2 b b' rates)
  with finalize_Done [OF 2(1)] messagesD(4) [OF ok] show ?thesis
    by (intro messages_unchanged [OF ok]) auto
next
  case (3 s1 b1 rates filtered requests selected p xs b)
  let ?i = "psbt_txid C p" and ?r = "PsbtRequest_new (psbt_serialize C p) filtered ReqNormal" and ?K = "s_codec C"
  let ?pool = "OutboundPool (the_blaze s)"
  have "UnsignedPsbtSubmitted ?i \<in> set (drop (length (SEvents s)) (SEvents s'))"
    by (simp add: 3(4,8) after_compose_def put_messages_def)
  with g d have n: "request_of s ?i = None"
    by (auto simp: init_guard_def list_all_iff known_request_def bt_contains_def request_None)
  have b1: "OutboundPool b1 = ?pool" using finalize_Done [OF 3(3)] by simp
  from 3(5) obtain P where F: "filtered = filter P ?pool" by (auto simp: composed_def 3(4) b1 dest: filtered_part)
  have xs: "parsed_as C filtered xs" using 3(6) by (simp add: parsed_as_def)
  note q = parsed_as_sequences [OF xs]
  have D: "distinct (map (message_sequence ?K) ?pool)" using out by (simp add: outbound_ok_def)
  have "distinct (map msg_seq xs)" using D unfolding q [symmetric] F by (simp add: distinct_map_filter)
  moreover have s: "msg_seq ` set xs = message_sequence ?K ` set filtered" using arg_cong [OF q, of set] by simp
  moreover have "bt_get (SocketMessages s) (msg_seq m) = None" if "m \<in> set xs" for m
  proof -
    from that s obtain raw where "raw \<in> set filtered" "msg_seq m = message_sequence ?K raw" by blast
    with messagesD(4) [OF ok] F show ?thesis by simp
  qed
  moreover have "raw \<in> set ?pool \<and> message_sequence ?K raw \<notin> msg_seq ` set xs" if "raw \<in> set (OutboundPool b)" for raw
  proof -
    have "OutboundPool b = filter (\<lambda>x. x \<notin> set filtered) ?pool"
      using lock_outbound [OF 3(7)] by (simp add: clear_outbound_pool_def clear_fee_rates_def b1)
    with that have r: "raw \<in> set ?pool" "raw \<notin> set filtered" by auto
    have "inj_on (message_sequence ?K) (set ?pool)" using D by (simp add: distinct_map)
    moreover have "set filtered \<subseteq> set ?pool" using F by auto
    ultimately have "message_sequence ?K raw \<notin> message_sequence ?K ` set filtered" using r by (simp add: inj_on_image_mem_iff)
    with r s show ?thesis by simp
  qed
  moreover have "request_of s' = (request_of s)(?i \<mapsto> (StPending, ?r))"
    by (rule open_request(2) [OF socket_invD(1) [OF inv] n]) (simp_all add: 3(4,8) after_compose_def)
  ultimately show ?thesis
    using xs by (intro messages_open [OF ok n, of s' ?r xs])
      (simp_all add: PsbtRequest_new_def 3(4,8) after_compose_def put_messages_def)
qed

subsection \<open>Calls of Blaze\<close>

lemma submit_messages_new:
  "submit_messages B E a ms pool seqs b = Done p b' \<Longrightarrow> raw \<in> set p \<Longrightarrow> raw \<in> set pool \<or> verify_socket_message E raw"
proof (induction B E a ms pool seqs b rule: submit_messages.induct)
  case (2 B E a m ms pool seqs b)
  then show ?case by (cases "SocketMessage_try_from (b_codec B) m") (auto split: if_splits)
qed simp

lemma blaze_call_new:
  assumes "blaze_call_run B E og c b = Done u b'" "raw \<in> set (OutboundPool b')"
  shows "raw \<in> set (OutboundPool b) \<or> verify_socket_message E raw"
proof (cases c)
  case (SubmitOutboundRequests sub sig)
  with assms show ?thesis
    by (auto simp: blaze_call_run_def submit_outbound_requests_def guard_Done dest: submit_messages_new)
next
  case (SubmitUtxos sub sig)
  with assms have "for_each (submit_utxo B E (sb_authority_id sub)) (sb_utxos sub) b = Done () b'"
    by (auto simp: blaze_call_run_def submit_utxos_def blaze_Done)
  from for_each_outbound [OF this] submit_utxo_outbound assms(2) show ?thesis by simp
next
  case (ForcePushUtxos xs)
  with assms have "for_each (force_push_utxo B E) xs (clear_utxos b) = Done () b'"
    by (auto simp: blaze_call_run_def force_push_utxos_def blaze_Done)
  from for_each_outbound [OF this] force_push_outbound assms(2) show ?thesis by (simp add: clear_utxos_def)
next
  case (BroadcastPoll sub sig)
  with assms show ?thesis
    by (auto simp: blaze_call_run_def elim!: broadcast_poll_Done dest!: set_statuses_outbound split: if_splits)
qed (use assms in \<open>auto simp: blaze_call_run_def set_activation_def submit_fee_rate_def
      remove_outbound_messages_def clear_outbound_pool_def Let_def blaze_Done\<close>)

lemma bridge_verified:
  "verify_socket_message (bridge_blaze_env C E n s) raw \<Longrightarrow> bt_get (SocketMessages s) (message_sequence (s_codec C) raw) = None"
  using verify_message_Done(2) [of C E raw s]
  by (auto simp: bridge_blaze_env_def message_sequence_def split: outcome.splits)

subsection \<open>Reachable states\<close>

lemma replace_messages:
  assumes inv: "socket_inv s" and ok: "messages_ok C s" and d: "bridge_replace old new s = Some s'"
  shows "messages_ok C s'"
proof -
  from d obtain s1 p b u v w where 1: "sq_replace_authority old new s = Done u s1"
    "blaze_replace_authority old new (the_blaze s1) = Done w b" "s' = s1\<lparr>the_pool := p, the_blaze := b\<rparr>"
    by (auto simp: bridge_replace_def split: outcome.splits)
  from 1(1) obtain ps rs bs where ps: "bt_map_opt (psbt_replace_authority old new) (PendingRequests s) = Some ps"
    and s1: "s1 = s\<lparr>PendingRequests := ps, RollbackRequests := rs, BroadcastConfirmations := bs\<rparr>"
    by (auto simp: sq_replace_authority_def guard_Done)
  have k: "rel_option (\<lambda>(_, r) (_, r'). pr_socket_messages r' = pr_socket_messages r \<and> pr_request_type r' = pr_request_type r)
      (request_of s i) (request_of s' i)" for i
    using replaced_requests [OF ps, of i] by (cases "bt_get (PendingRequests s) i"; cases "bt_get ps i")
      (auto simp: request_of_def s1 1(3) rel_messages same_request_def cong: option.case_cong)
  show ?thesis
    by (rule messages_kept [OF ok k]) (use 1(2) messagesD(4) [OF ok] in \<open>auto simp: 1(3) s1 elim!: replace_Done\<close>)
qed

lemma exec_messages:
  assumes inv: "socket_inv s" and ok: "messages_ok C s" and out: "outbound_ok (s_codec C) (OutboundPool (the_blaze s))"
    and g: "socket_guard C x s" and x: "socket_exec C x s = Some s'"
  shows "messages_ok C s'"
proof -
  note O = messagesD(4) [OF ok]
  show ?thesis
  proof (cases x)
    case (SqCall E og c)
    with x g ok call_messages [OF inv ok] show ?thesis by (auto simp: socket_exec_def settle_Some socket_guard_def)
  next
    case (SqInit E n)
    with x g init_messages [OF inv ok out] on_initialize_not_Fail show ?thesis
      by (auto simp: socket_exec_def socket_guard_def split: outcome.splits)
  next
    case (SqBlaze E n og c)
    with x obtain b where s': "s' = s\<lparr>the_blaze := b\<rparr>" and
      b: "(\<exists>u. blaze_call_run (s_bconfig C) (bridge_blaze_env C E n s) og c (the_blaze s) = Done u b) \<or> b = the_blaze s"
      by (auto simp: socket_exec_def settle_Some)
    have "bt_get (SocketMessages s) (message_sequence (s_codec C) raw) = None" if "raw \<in> set (OutboundPool b)" for raw
      using b
    proof
      assume "\<exists>u. blaze_call_run (s_bconfig C) (bridge_blaze_env C E n s) og c (the_blaze s) = Done u b"
      with blaze_call_new that have "raw \<in> set (OutboundPool (the_blaze s)) \<or> verify_socket_message (bridge_blaze_env C E n s) raw" by blast
      with O bridge_verified show ?thesis by metis
    qed (use that O in simp)
    then show ?thesis by (intro messages_unchanged [OF ok]) (simp_all add: s')
  next
    case (SqPool xs n og c)
    with x O show ?thesis by (auto simp: socket_exec_def intro: messages_unchanged [OF ok])
  next
    case (SqReplace old new)
    with x replace_messages [OF inv ok] show ?thesis by (simp add: socket_exec_def)
  next
    case (SqMembers ms)
    with x O show ?thesis by (auto simp: socket_exec_def intro: messages_unchanged [OF ok])
  qed
qed

lemma socket_reachable_messages: "socket_reachable C s \<Longrightarrow> messages_ok C s"
proof (induction rule: socket_reachable.induct)
  case (socket_start authority ms)
  show ?case
    by (cases authority) (simp_all add: sq_genesis_def socket_default_def messages_ok_def request_of_def blaze_default_def)
next
  case (socket_move s x s')
  have "outbound_ok (s_codec C) (OutboundPool (the_blaze s))"
    using blaze_reachable_outbound [OF bridge_refines_parts(1) [OF socket_move.hyps(1)]] .
  with socket_move exec_messages socket_reachable_inv show ?case by blast
qed

end
