(* ===== verification/Socket_Effects.thy ===== *)
theory Socket_Effects
  imports Socket_Paid
begin

text \<open>
  Single operations of the socket queue: fee bumps, votes on rollbacks, what a dropped rollback leaves
  behind, amounts that do not fit into 64 bits, and the value of a composed transaction.
\<close>

subsection \<open>Fee bumps\<close>

lemma bump_outputs_Done:
  "bump_outputs C sv ty old d os s = Done u s' \<Longrightarrow> out \<in> set os \<Longrightarrow>
   \<exists>to. output_address C out = Some to \<and> bump_output sv ty old d to (txo_value out)"
  by (induction os) (auto simp: socket_Done)

lemma outputs_map_get:
  "outputs_map C os m = Some m' \<Longrightarrow> bt_get m' a = Some v \<Longrightarrow>
   (\<exists>out\<in>set os. output_address C out = Some a \<and> txo_value out = v) \<or> bt_get m a = Some v"
proof (induction os arbitrary: m)
  case (Cons out os)
  from Cons.prems(1) obtain x where x: "output_address C out = Some x" "outputs_map C os (bt_insert x (txo_value out) m) = Some m'"
    by (auto simp: bind_eq_Some_conv)
  from Cons.IH [OF x(2) Cons.prems(2)] x(1) show ?case by (auto split: if_splits)
qed simp

lemma bump_verification_Done:
  assumes "try_bump_fee_psbt_verification C p q ty s = Done u s'"
  obtains sv m old_fee new_fee where "get_system_vault (CurrentRound (the_pool s)) (the_pool s) = Some sv"
    "set (psbt_tx_input p) \<subseteq> set (psbt_tx_input q)" "psbt_fee C p = Some old_fee" "psbt_fee C q = Some new_fee" "old_fee < new_fee"
    "outputs_map C (psbt_tx_output p) [] = Some m"
    "bump_outputs C sv ty m (new_fee - old_fee) (psbt_tx_output q) s = Done () s"
  using assms by (auto simp: try_bump_fee_psbt_verification_def socket_Done) (metis bump_outputs_pure)

subsection \<open>Rollbacks\<close>

lemma rollback_bonds:
  assumes "submit_rollback_request C E og msg s = Done u s'"
  shows "bt_get (BondedRollbackOutputs s) (rp_txid msg, rp_vout msg) = None"
    "bt_get (BondedRollbackOutputs s') (rp_txid msg, rp_vout msg) \<noteq> None"
  using assms by (auto simp: submit_rollback_request_def Let_def socket_Done bt_contains_def)

subsection \<open>Amounts beyond 64 bits\<close>

lemma registered_in:
  "registered_outbounds C p ms = Some (rs, us) \<Longrightarrow> raw \<in> set ms \<Longrightarrow> SocketMessage_try_from (s_codec C) raw = Parsed m \<Longrightarrow>
   get_refund_address (acct_of (tp_to (sm_params m))) p = Some refund \<Longrightarrow> (\<exists>sc. (m, sc) \<in> set rs) \<and> raw \<notin> set us"
proof (induction ms arbitrary: rs us)
  case (Cons x ms)
  have us: "SocketMessage_try_from (s_codec C) y = Parsed k \<Longrightarrow> get_refund_address (acct_of (tp_to (sm_params k))) p = None"
    if "registered_outbounds C p ns = Some (qs, ws)" "y \<in> set ws" for ns qs ws y k
    using that by (induction ns arbitrary: qs ws) (auto split: parse.splits option.splits)
  have no: "raw \<notin> set us" using us [OF Cons.prems(1), of raw m] Cons.prems(3,4) by auto
  show ?case
  proof (cases "raw = x")
    case True
    with Cons.prems no show ?thesis by (auto split: option.splits)
  next
    case False
    with Cons.prems(2) have "raw \<in> set ms" by simp
    with Cons.prems(1) Cons.IH [OF _ this Cons.prems(3,4)] no show ?thesis by (fastforce split: parse.splits option.splits)
  qed
qed simp

lemma those_None: "None \<in> set xs \<Longrightarrow> those xs = None"
  by (induction xs) (auto split: option.split)

lemma oversized_compose:
  assumes "(m, sc) \<in> set requests" "M64 \<le> unat (tp_amount (sm_params m))"
  shows "compose_outbounds C lt fr filtered requests s = Panic"
proof -
  have "None \<in> set (map (\<lambda>(m, _). as_u64 (tp_amount (sm_params m))) requests)" using assms by (force simp: as_u64_def)
  from those_None [OF this] show ?thesis by (simp add: compose_outbounds_def Let_def expect_def)
qed

end
