(* ===== verification/Socket_Value.thy ===== *)
theory Socket_Value
  imports Socket_Effects
begin

text \<open>
  The value of a transaction that \<open>on_initialize\<close> composes: where no sum overflows 64 bits, its
  outputs and the agreed fee for its inputs are covered by the outputs it spends.
\<close>

definition request_amounts :: "(SocketMessage \<times> bytes) list \<Rightarrow> nat list" where
  "request_amounts requests = map (\<lambda>(m, _). unat (tp_amount (sm_params m))) requests"

definition compose_target :: "nat \<Rightarrow> (SocketMessage \<times> bytes) list \<Rightarrow> nat" where
  "compose_target fr requests =
     sum_list (request_amounts requests) + fr * (11 + sum_list (map (\<lambda>sc. 9 + length sc) (remdups (map snd requests))))"

definition compose_fits :: "SConfig \<Rightarrow> nat \<times> nat \<Rightarrow> (SocketMessage \<times> bytes) list \<Rightarrow> Psbt \<Rightarrow> socket_queue \<Rightarrow> bool" where
  "compose_fits C rates requests p s =
     (let fr = snd rates; us = get_utxos (the_blaze s); pool = List.map_filter (score_utxo (fst rates) fr) us;
          t = compose_target fr requests
      in sum_list (map us_amount us) < U64_MAX \<and> sum_list (map (\<lambda>x. us_input_vbytes x * fr) us) < M64 \<and>
         11 + sum_list (map us_input_vbytes us) + sum_list (map (txout_size C) (psbt_tx_output p)) + 43 < M64 \<and>
         43 * fr < M64 \<and> fits pool (t + 43 * fr) \<and> fits pool (t + DUST_LIMIT))"

subsection \<open>Sums\<close>

lemma amounts_of:
  "those (map (\<lambda>(m, _). as_u64 (tp_amount (sm_params m))) requests) = Some xs \<Longrightarrow> xs = request_amounts requests"
  unfolding request_amounts_def
  by (induction requests arbitrary: xs) (auto simp: as_u64_def split: if_splits option.splits)

lemma merged_sum_insert:
  "bt_wf m \<Longrightarrow> sum_list (map snd (bt_insert k v m)) + (case bt_get m k of Some w \<Rightarrow> w | None \<Rightarrow> 0) = sum_list (map snd m) + (v :: nat)"
proof (induction m)
  case (Cons e m)
  obtain k' w where e: "e = (k', w)" by (cases e)
  have "k < k' \<Longrightarrow> bt_get m k = None" using Cons.prems by (auto simp: e map_of_eq_None_iff)
  with Cons show ?case by (auto simp: e)
qed simp

lemma merge_total:
  "merge_outputs requests m = Some m' \<Longrightarrow> bt_wf m \<Longrightarrow> sum_list (map snd m') = sum_list (map snd m) + sum_list (request_amounts requests)"
proof (induction requests arbitrary: m)
  case Nil
  then show ?case by (simp add: request_amounts_def)
next
  case (Cons r rs)
  obtain x sc where r: "r = (x, sc)" by (cases r)
  let ?w = "case bt_get m sc of Some w \<Rightarrow> w | None \<Rightarrow> 0" and ?v = "unat (tp_amount (sm_params x))"
  from Cons.prems(1) have d: "merge_outputs rs (bt_insert sc (?w + ?v) m) = Some m'"
    by (auto simp: r as_u64_def Let_def split: if_splits)
  from Cons.IH [OF d] Cons.prems(2) merged_sum_insert [OF Cons.prems(2), of sc "?w + ?v"]
  show ?case by (simp add: request_amounts_def r)
qed

lemma filter_total: "sum_list (map snd (filter P m)) \<le> sum_list (map snd (m :: ('a \<times> nat) list))"
  by (induction m) auto

lemma submset_total:
  assumes "mset xs \<subseteq># mset ys"
  shows "sum_list (map (f :: 'a \<Rightarrow> nat) xs) \<le> sum_list (map f ys)"
proof -
  have "mset (map f xs) \<subseteq># mset (map f ys)" using assms by (simp add: image_mset_subseteq_mono)
  then have "sum_mset (mset (map f xs)) \<le> sum_mset (mset (map f ys))"
    by (metis le_add1 mset_subset_eq_exists_conv sum_mset.union)
  then show ?thesis unfolding sum_mset_sum_list .
qed

lemma score_utxo_Some:
  assumes "score_utxo a fr x = Some y" "us_input_vbytes x * fr < M64"
  shows "su_utxo y = x" "su_effective_value y + us_input_vbytes x * fr = us_amount x"
  using assms by (auto simp: score_utxo_def mul64_def Let_def split: if_splits)

text \<open>The inputs of a selection cover its effective value and their own fees.\<close>

lemma selected_value:
  assumes fit: "sum_list (map (\<lambda>x. us_input_vbytes x * fr) us) < M64"
    and ys: "mset ys \<subseteq># mset (List.map_filter (score_utxo a fr) us)"
  shows "value_of ys + fr * sum_list (map us_input_vbytes (map su_utxo ys)) = sum_list (map us_amount (map su_utxo ys))"
proof -
  have e: "su_effective_value y + us_input_vbytes (su_utxo y) * fr = us_amount (su_utxo y)" if "y \<in> set ys" for y
  proof -
    from that ys have "y \<in> set (List.map_filter (score_utxo a fr) us)" by (metis mset_subset_eqD set_mset_mset)
    then obtain x where x: "x \<in> set us" "score_utxo a fr x = Some y" by (auto simp: List.map_filter_def)
    have "us_input_vbytes x * fr \<le> sum_list (map (\<lambda>x. us_input_vbytes x * fr) us)" using x(1) by (induction us) auto
    with fit have "us_input_vbytes x * fr < M64" by linarith
    from score_utxo_Some [OF x(2) this] show ?thesis by simp
  qed
  then show ?thesis by (induction ys) (auto simp: value_of_def algebra_simps)
qed

lemma target_amount_id:
  assumes "compose_target fr requests < M64"
  shows "target_amount (sum64 (request_amounts requests)) fr (map snd requests) = compose_target fr requests"
    "sum64 (request_amounts requests) = sum_list (request_amounts requests)"
proof -
  let ?S = "sum_list (request_amounts requests)" and ?o = "sum_list (map (\<lambda>sc. 9 + length sc) (remdups (map snd requests)))"
  have t: "?S + fr * (11 + ?o) < M64" using assms by (simp add: compose_target_def)
  show s: "sum64 (request_amounts requests) = ?S" using t by (simp add: sum64_def)
  show "target_amount (sum64 (request_amounts requests)) fr (map snd requests) = compose_target fr requests"
  proof (cases "fr = 0")
    case True
    then show ?thesis using t by (simp add: target_amount_def Let_def s mul64_def sat_add64_id compose_target_def)
  next
    case False
    have "11 + ?o \<le> fr * (11 + ?o)" using False by simp
    with t have "11 + ?o < M64" by linarith
    moreover have "fr * (11 + ?o) < M64" using t by linarith
    ultimately have "mul64 fr (add64 11 (sum64 (map (\<lambda>sc. 9 + length sc) (remdups (map snd requests))))) = fr * (11 + ?o)"
      by (simp add: mul64_def add64_def sum64_def)
    then show ?thesis using t by (simp add: target_amount_def Let_def s sat_add64_id compose_target_def)
  qed
qed

subsection \<open>The composed transaction\<close>

lemma change_value:
  assumes c: "change_output C p selected output S fr = Some change"
    and I: "sum_list (map us_amount selected) < U64_MAX"
    and z: "11 + sum_list (map us_input_vbytes selected) + sum_list (map (txout_size C) output) + 43 < M64"
    and out: "sum_list (map txo_value output) \<le> S"
  shows "change = [] \<or> sum_list (map txo_value (output @ change)) + fr * (11 + sum_list (map us_input_vbytes selected))
    \<le> sum_list (map us_amount selected)"
proof -
  let ?I = "sum_list (map us_amount selected)" and ?v = "sum_list (map us_input_vbytes selected)"
  let ?z = "11 + ?v + (sum_list (map (txout_size C) output) + 43)"
  have s: "sum64 (map us_amount selected) = ?I" using I by (simp add: sum64_def U64_MAX_def)
  have e: "add64 (add64 11 (sum64 (map us_input_vbytes selected))) (add64 (sum64 (map (txout_size C) output)) 43) = ?z"
    using z by (simp add: add64_def sum64_def)
  show ?thesis
  proof (cases "change = []")
    case False
    with c have d: "S \<le> ?I" "sat_mul64 fr ?z \<le> ?I - S" "map txo_value change = [?I - S - sat_mul64 fr ?z]"
      by (auto simp: change_output_def Let_def s e bind_eq_Some_conv split: if_splits)
    have z: "sat_mul64 fr ?z = fr * ?z" using d(2) I by (simp add: sat_mul64_def min_def split: if_splits)
    have "fr * (11 + ?v) \<le> fr * ?z" by simp
    moreover have "sum_list (map txo_value (output @ change)) = sum_list (map txo_value output) + (?I - S - fr * ?z)"
      using d(3) by (simp only: z map_append sum_list_append sum_list.Cons sum_list.Nil)
    ultimately show ?thesis using d(1,2) out unfolding z by linarith
  qed simp
qed

lemma composed_value:
  assumes c: "composed C rates filtered requests selected p s" and f: "compose_fits C rates requests p s"
  shows "sum_list (map txo_value (psbt_tx_output p)) + snd rates * (11 + sum_list (map us_input_vbytes selected))
    \<le> sum_list (map us_amount selected)"
proof -
  let ?fr = "snd rates" and ?us = "get_utxos (the_blaze s)" and ?S = "sum_list (request_amounts requests)"
  let ?pool = "List.map_filter (score_utxo (fst rates) (snd rates)) (get_utxos (the_blaze s))" and ?t = "compose_target (snd rates) requests"
  have F: "sum_list (map us_amount ?us) < U64_MAX" "sum_list (map (\<lambda>x. us_input_vbytes x * ?fr) ?us) < M64"
    "11 + sum_list (map us_input_vbytes ?us) + sum_list (map (txout_size C) (psbt_tx_output p)) + 43 < M64"
    "43 * ?fr < M64" "fits ?pool (?t + 43 * ?fr)" "fits ?pool (?t + DUST_LIMIT)"
    using f by (simp_all add: compose_fits_def Let_def)
  have t: "?t < M64" using F(5) by (simp add: fits_def)
  from c obtain xs strategy where xs: "those (map (\<lambda>(m, _). as_u64 (tp_amount (sm_params m))) requests) = Some xs"
    and sel: "select_coins ?pool (target_amount (sum64 xs) ?fr (map snd requests)) (mul64 43 ?fr) 200000 100000 DUST_LIMIT
      = Some (selected, strategy)"
    and ps: "composite_psbt C selected requests (sum64 xs) ?fr strategy s = Done (Some p) s" by (auto simp: composed_def)
  note T = target_amount_id [OF t, folded amounts_of [OF xs]]
  have sel: "select_coins ?pool ?t (43 * ?fr) 200000 100000 DUST_LIMIT = Some (selected, strategy)"
    using sel F(4) by (simp add: T(1) mul64_def)
  have "\<exists>ys. selected = map su_utxo ys \<and> mset ys \<subseteq># mset ?pool \<and> ?t \<le> value_of ys"
  proof (cases "select_coins_bnb ?pool ?t (43 * ?fr) 200000 100000")
    case None
    with sel have "select_coins_knapsack ?pool ?t DUST_LIMIT 200000 = Some (selected, strategy)" by (simp add: select_coins_def)
    from select_coins_knapsack_sound [OF F(6) this] show ?thesis by (auto simp: covers_def)
  next
    case (Some q)
    with sel have "select_coins_bnb ?pool ?t (43 * ?fr) 200000 100000 = Some (selected, strategy)" by (simp add: select_coins_def)
    from select_coins_bnb_sound [OF F(5) this] show ?thesis by (auto simp: bnb_valid_def)
  qed
  then obtain ys where ys: "selected = map su_utxo ys" "mset ys \<subseteq># mset ?pool" "?t \<le> value_of ys" by blast
  have part: "mset selected \<subseteq># mset ?us"
    unfolding ys(1) by (rule subset_mset.order_trans [OF _ scored_part [of "fst rates" "snd rates"]]) (simp add: image_mset_subseteq_mono ys(2))
  have I: "?t + ?fr * sum_list (map us_input_vbytes selected) \<le> sum_list (map us_amount selected)"
    using selected_value [OF F(2) ys(2)] ys(3) by (simp add: ys(1))
  from ps obtain merged change where m: "merge_outputs requests [] = Some merged"
    and ch: "(if strategy = Knapsack then change_output C (the_pool s) selected
         (map (\<lambda>(sc, v). \<lparr>txo_value = v, txo_script = sc\<rparr>) (filter (\<lambda>(_, v). DUST_LIMIT < v) merged)) (sum64 xs) ?fr else Some []) = Some change"
    and p: "psbt_tx_output p = map (\<lambda>(sc, v). \<lparr>txo_value = v, txo_script = sc\<rparr>) (filter (\<lambda>(_, v). DUST_LIMIT < v) merged) @ change"
    by (auto simp: composite_psbt_def Let_def guard_Done split: if_splits option.splits)
  let ?o = "map (\<lambda>(sc, v). \<lparr>txo_value = v, txo_script = sc\<rparr>) (filter (\<lambda>(_, v). DUST_LIMIT < v) merged)"
  have "map txo_value ?o = map snd (filter (\<lambda>(_, v). DUST_LIMIT < v) merged)" by (simp add: case_prod_unfold)
  then have O: "sum_list (map txo_value ?o) \<le> ?S"
    using filter_total [of "\<lambda>(_, v). DUST_LIMIT < v" merged] merge_total [OF m] by (simp only:) simp
  have "?S + ?fr * 11 \<le> ?t" by (simp add: compose_target_def algebra_simps)
  with I O have plain: "sum_list (map txo_value ?o) + ?fr * (11 + sum_list (map us_input_vbytes selected)) \<le> sum_list (map us_amount selected)"
    by (simp add: algebra_simps)
  show ?thesis
  proof (cases "strategy = Knapsack")
    case True
    with ch have ch: "change_output C (the_pool s) selected ?o ?S ?fr = Some change" by (simp add: target_amount_id(2) [OF t] amounts_of [OF xs])
    have "change = [] \<or> sum_list (map txo_value (?o @ change)) + ?fr * (11 + sum_list (map us_input_vbytes selected))
        \<le> sum_list (map us_amount selected)"
      by (rule change_value [OF ch _ _ O])
        (use submset_total [OF part, of us_amount] submset_total [OF part, of us_input_vbytes] F(1,3) in \<open>simp_all add: p\<close>)
    with plain show ?thesis unfolding p by auto
  next
    case False
    with ch plain show ?thesis by (simp add: p)
  qed
qed

end
