(* ===== verification/Socket_Sample.thy ===== *)
theory Socket_Sample
  imports Socket_Value Pool_Properties
begin

text \<open>
  A concrete instance of the bridge's parameters and runs on it: a user registers and the system vault
  is generated, relayers vote for an output, a message and the fee rates, and the block hook composes
  the transaction; and a vault migration up to its first request. Addresses are their scripts, a
  message is encoded as its sequence, and the hash of a transaction counts its inputs.
\<close>

definition bridge_message :: "8 word \<Rightarrow> SocketMessage" where
  "bridge_message b =
     \<lparr>req_id = \<lparr>rq_chain = [0, 0, 0xbf, 0xc0], rq_round_id = 1, rq_sequence = ucast b\<rparr>, sm_status = 5,
      ins_code = \<lparr>in_chain = [0, 0, 0, 3], in_method = replicate 16 0\<rparr>,
      sm_params = \<lparr>token_idx0 = [0, 0, 0, 3, 0, 0, 0, 3, 0, 0, 0xbf, 0xc0, 0xe0, 0x02, 0x30, 0x6b, 0x8f, 0xdf, 0x96,
          0x04, 0x4e, 0xef, 0x87, 0x0c, 0xc5, 0x00, 0xf1, 0x5e, 0x11, 0xef, 0x4e, 0xaa],
        token_idx1 = replicate 32 0, tp_refund = 0, tp_to = 7,
        tp_amount = (if b = 99 then 18446744073709551616 else 60000), tp_variants = []\<rparr>\<rparr>"

definition bridge_decode :: "ParamKind list \<Rightarrow> bytes \<Rightarrow> Token list option" where
  "bridge_decode ks bs =
     (if ks = socket_kind then (case bs of [] \<Rightarrow> None | b # _ \<Rightarrow> Some (message_tokens (bridge_message b)))
      else if ks = request_kind then Some [FixedArray (replicate 32 (Uint 5)), FixedBytes (replicate 32 0), Uint 0]
      else Some [Address 0, Uint 0, Uint 0, Tuple [FixedBytes [0, 0, 0, 0], Uint 0, Uint 0]])"

definition bridge_encode :: "Token list \<Rightarrow> bytes" where
  "bridge_encode ts = (case ts of [Tuple (Tuple [_, _, Uint q] # _)] \<Rightarrow> [ucast q] | _ \<Rightarrow> [])"

definition bridge_input :: "nat \<Rightarrow> TxIn" where
  "bridge_input n = \<lparr>txin_txid = [of_nat n], txin_vout = 0, txin_script_sig = [], txin_sequence = 0, txin_witness = []\<rparr>"

text \<open>The PSBTs: a payment, the same with a higher fee, and a migration.\<close>

definition bridge_psbt :: "8 word \<Rightarrow> Psbt" where
  "bridge_psbt b =
     (if b = 1 then \<lparr>psbt_tx_input = [bridge_input 1], psbt_tx_output = [\<lparr>txo_value = 60000, txo_script = [9]\<rparr>,
          \<lparr>txo_value = 30000, txo_script = [0, 22, 32]\<rparr>], psbt_inputs = [], psbt_extra = []\<rparr>
      else if b = 2 then \<lparr>psbt_tx_input = [bridge_input 1, bridge_input 2], psbt_tx_output = [\<lparr>txo_value = 60000, txo_script = [9]\<rparr>,
          \<lparr>txo_value = 29000, txo_script = [0, 22, 32]\<rparr>], psbt_inputs = [], psbt_extra = []\<rparr>
      else \<lparr>psbt_tx_input = [], psbt_tx_output = [\<lparr>txo_value = 90000, txo_script = [0, 23, 33]\<rparr>], psbt_inputs = [], psbt_extra = []\<rparr>)"

definition sample_bridge :: SConfig where
  "sample_bridge =
     \<lparr>s_pconfig = sample_pool,
      s_bconfig = \<lparr>utxo_hash = (\<lambda>(t, _). t),
        script_code = (\<lambda>_. Some \<lparr>sc_instructions = [Op 0x51, PushBytes, Op 0x51, Op 0xae], sc_len = 37\<rparr>),
        to_vbytes = (\<lambda>w b. b + (w + 3) div 4), b_codec = \<lparr>abi_decode = bridge_decode, abi_encode = bridge_encode\<rparr>,
        FeeRateExpiration = 10, ToleranceThreshold = 3\<rparr>,
      psbt_deserialize = (\<lambda>bs. case bs of [] \<Rightarrow> None | b # _ \<Rightarrow> Some (bridge_psbt b)), psbt_serialize = (\<lambda>_. [1]),
      tx_hash = (\<lambda>ins outs. [of_nat (5 + length ins)]), psbt_fee = (\<lambda>p. Some (1000 * length (psbt_tx_input p))),
      psbt_combine = (\<lambda>_ p. Some p), psbt_finalize = Some, unsigned_tx_ok = (\<lambda>_ _. True), txin_base_size = (\<lambda>_. 41),
      txout_vbytes = (\<lambda>_. 31), txout_size = (\<lambda>_. 31), address_from_script = Some, parse_address = Some, script_pubkey = id,
      desc_script_pubkey = Some, desc_keys = (\<lambda>_. []), fee_rate_ok = (\<lambda>_. True), s_keccak = (\<lambda>_. 0), s_bytes2hex = (\<lambda>_. []),
      s_hex2bytes = (\<lambda>_. Some []), h256_bytes = (\<lambda>_. []), s_evm_chain_id = 49088, bitcoin_chain_id = 3,
      DefaultMaxFeeRate = 1000, DefaultMaxSocketMessageBytes = 64\<rparr>"

definition sample_senv :: SEnv where
  "sample_senv = \<lparr>s_executives = (\<lambda>_. True), s_is_authority = (\<lambda>_. True), s_majority = 2, evm_call = (\<lambda>_ _ _. Some [])\<rparr>"

definition bridge_start :: socket_queue where
  "bridge_start = sq_genesis sample_bridge (Some 1) (socket_default sample_bridge [2, 3])"

text \<open>Running a list of steps that satisfy their conditions.\<close>

fun socket_run :: "SConfig \<Rightarrow> socket_op list \<Rightarrow> socket_queue \<Rightarrow> socket_queue option" where
  "socket_run C [] s = Some s"
| "socket_run C (x # xs) s = (if socket_guard C x s then Option.bind (socket_exec C x s) (socket_run C xs) else None)"

lemma socket_run_reachable: "socket_reachable C s \<Longrightarrow> socket_run C xs s = Some s' \<Longrightarrow> socket_reachable C s'"
  by (induction xs arbitrary: s) (auto simp: Option.bind_eq_Some_conv intro: socket_move split: if_splits)

lemma bridge_start_reachable: "socket_reachable sample_bridge bridge_start"
  unfolding bridge_start_def by (rule socket_start)

subsection \<open>Registration\<close>

abbreviation pool_step :: "origin \<Rightarrow> pool_call \<Rightarrow> socket_op" where
  "pool_step og c \<equiv> SqPool [2, 3] 5 og c"

definition bridge_setup :: "socket_op list" where
  "bridge_setup =
     [pool_step Root (RequestSystemVault False),
      pool_step NoOrigin (SubmitSystemVaultKey (sample_key 2 256 [22] 1) []),
      pool_step NoOrigin (SubmitSystemVaultKey (sample_key 3 256 [32] 1) []),
      pool_step (Signed 7) (RequestVault [9]),
      SqCall sample_senv Root (SetSqSocket 9 False)]"

definition bridge_pool :: reg_pool where
  "bridge_pool = sample_pool_start\<lparr>
     SystemVault := [1 \<mapsto> \<lparr>ms_address = Generated [0, 22, 32], ms_descriptor = [22, 32],
       ms_pub_keys = [(2, [22]), (3, [32])], ms_m = 2, ms_n = 2\<rparr>],
     RegistrationPool := (\<lambda>_. [])(1 := [(7, \<lparr>refund_address = [9], vault = MultiSigAccount_new 2 2\<rparr>)]),
     BondedRefund := (\<lambda>_. [])(1 := [([9], [7])]),
     BondedVault := (\<lambda>_. [])(1 := [([0, 22, 32], 256)]),
     BondedPubKey := (\<lambda>_. [])(1 := [([22], 256), ([32], 256)]),
     BondedDescriptor := (\<lambda>_. [])(1 := [([0, 22, 32], [22, 32])]),
     PEvents := [SystemVaultPending, VaultKeySubmitted 256 [22], VaultKeySubmitted 256 [32], VaultGenerated 256 [] [0, 22, 32]]\<rparr>"

definition bridge_ready :: socket_queue where
  "bridge_ready = bridge_start\<lparr>SSocket := Some 9, SEvents := [SSocketSet 9 False], the_pool := bridge_pool\<rparr>"

lemmas bridge_eval = socket_exec_def socket_guard_def bridge_pool_env_def pool_guard_def sq_call_run_def call_guard_def
  sq_set_socket_def s_root_def s_deposit_def

lemmas bridge_defs = sample_bridge_def sample_senv_def bridge_start_def sq_genesis_def socket_default_def

lemma bridge_setup_run: "socket_run sample_bridge bridge_setup bridge_start = Some bridge_ready"
  by (simp add: bridge_setup_def bridge_eval pool_eval bridge_defs sample_pool_defs bridge_ready_def bridge_pool_def)
    (simp add: numeral_2_eq_2)


subsection \<open>Outputs, messages and fee rates\<close>

lemma bridge_parse [simp]: "SocketMessage_try_from (s_codec sample_bridge) [b] = Parsed (bridge_message b)"
  by (simp add: SocketMessage_try_from_def sample_bridge_def bridge_decode_def message_tokens_def
      req_id_tokens_def instruction_tokens_def params_tokens_def bridge_message_def)

lemma bridge_sequence [simp]: "message_sequence (s_codec sample_bridge) [b] = ucast b"
  by (simp add: message_sequence_def) (simp add: bridge_message_def)

lemma bridge_request:
  "Authority s = Some a \<Longrightarrow> SSocket s = Some t \<Longrightarrow> sq_try_get_request sample_bridge sample_senv r s =
     Done \<lparr>ri_field = replicate 32 5, ri_msg_hash = 0, ri_registered_time = 0\<rparr> s"
proof -
  assume a: "Authority s = Some a" "SSocket s = Some t"
  have u: "uints (replicate n (Uint v)) = Some (replicate n v)" for n v by (induction n) auto
  have "foldl (\<lambda>n b. n * 256 + unat b) 0 (replicate n (0 :: 8 word)) = 0" for n by (induction n) auto
  then have z: "h256_from_slice (replicate 32 0) = Some 0" by (simp add: h256_from_slice_def be_nat_def)
  from a show ?thesis
    by (simp add: sq_try_get_request_def ok_or_def try_evm_call_def s_parsed_def sample_bridge_def sample_senv_def
        RequestInfo_try_from_def bridge_decode_def request_kind_def socket_kind_def u z)
qed

lemma ucast_byte [simp]: "ucast (ucast b :: 256 word) = (b :: 8 word)"
  by (rule bit_word_eqI) (auto simp: bit_simps)

lemma bridge_verify:
  "Authority s = Some a \<Longrightarrow> SSocket s = Some t \<Longrightarrow> bt_get (SocketMessages s) (ucast b) = None \<Longrightarrow>
   sq_verify_socket_message sample_bridge sample_senv [b] s = Done () s"
proof -
  assume a: "Authority s = Some a" "SSocket s = Some t" and n: "bt_get (SocketMessages s) (ucast b) = None"
  have e: "SocketMessage_encode (s_codec sample_bridge) (bridge_message b) = [b]"
    by (simp add: SocketMessage_encode_def sample_bridge_def bridge_encode_def message_tokens_def req_id_tokens_def bridge_message_def)
  have o: "is_bitcoin_outbound 49088 3 (bridge_message b)"
    by (simp add: is_bitcoin_outbound_def u32_to_be_bytes_def bridge_message_def)
  have f: "rq_sequence (req_id (bridge_message b)) = ucast b" "sm_is_accepted (bridge_message b)"
    "expected_token 49088 = Some (token_idx0 (sm_params (bridge_message b)))"
    by (simp_all add: bridge_message_def sm_is_accepted_def expected_token_def)
  have c: "s_keccak sample_bridge x = 0" "s_evm_chain_id sample_bridge = 49088" "bitcoin_chain_id sample_bridge = 3" for x
    by (simp_all add: sample_bridge_def)
  have "ri_code \<lparr>ri_field = replicate 32 5, ri_msg_hash = 0, ri_registered_time = 0\<rparr> = Some 5"
    by (simp add: ri_code_def numeral_eq_Suc)
  with o f n show ?thesis
    by (simp add: sq_verify_socket_message_def s_parsed_def e c ensure_def Let_def bridge_request [OF a]
        is_msg_hash_def expect_def ri_is_accepted_def ok_or_def)
qed

definition bridge_output :: UtxoInfo where
  "bridge_output = \<lparr>ui_txid = 1, ui_vout = 0, ui_amount = 100000, ui_address = [0, 22, 32]\<rparr>"

definition bridge_sized :: UtxoInfoWithSize where
  "bridge_sized = \<lparr>us_hash = 1, us_txid = 1, us_vout = 0, us_amount = 100000, us_descriptor = [22, 32], us_input_vbytes = 69\<rparr>"

abbreviation blaze_step :: "blaze_call \<Rightarrow> socket_op" where
  "blaze_step c \<equiv> SqBlaze sample_senv 5 NoOrigin c"

abbreviation bridge_rate :: "acct \<Rightarrow> blaze_call" where
  "bridge_rate a \<equiv> SubmitFeeRate \<lparr>fr_authority_id = a, fr_lt_fee_rate = 1, fr_fee_rate = 2, fr_deadline = 9\<rparr> []"

definition bridge_votes :: "8 word \<Rightarrow> socket_op list" where
  "bridge_votes b =
     [SqBlaze sample_senv 5 Root (SetActivation True),
      blaze_step (SubmitUtxos \<lparr>sb_authority_id = 4, sb_utxos = [bridge_output]\<rparr> []),
      blaze_step (SubmitUtxos \<lparr>sb_authority_id = 2, sb_utxos = [bridge_output]\<rparr> []),
      blaze_step (SubmitOutboundRequests \<lparr>sm_authority_id = 4, sm_messages = [[b]]\<rparr> []),
      blaze_step (bridge_rate 2), blaze_step (bridge_rate 4)]"

definition bridge_blaze :: "8 word \<Rightarrow> blaze" where
  "bridge_blaze b = blaze_default\<lparr>IsActivated := True,
     Utxos := [(1, \<lparr>ut_inner = bridge_sized, ut_status = Available, ut_voters = [4, 2]\<rparr>)],
     UnconfirmedUtxoCount := (\<lambda>_. 0)(4 := 0), OutboundPool := [[b]], FeeRates := [(2, 1, 2, 15), (4, 1, 2, 15)],
     BEvents := [ActivationSet True, UtxoSubmitted 4 1 Unconfirmed, UtxoSubmitted 2 1 Available, SocketMessageSubmitted 4 [b],
       FeeRateSubmitted 2 1 2, FeeRateSubmitted 4 1 2]\<rparr>"

definition bridge_voted :: "8 word \<Rightarrow> socket_queue" where
  "bridge_voted b = bridge_ready\<lparr>the_blaze := bridge_blaze b\<rparr>"

lemmas bridge_blaze_eval = bridge_votes_def settle_def blaze_call_run_def set_activation_def submit_utxos_def submit_utxo_def
  ensure_activation_def ensure_def ok_or_def expect_def Let_def put_utxo_def b_deposit_def hash_of_def sized_def
  estimate_finalized_input_size_def parse_multisig_script_def pushed_number_def OP_CHECKMULTISIG_def try_push_def
  MAX_UNCONFIRMED_UTXOS_PER_RELAYER_def MAX_AUTHORITIES_def release_count_def as_u32_def add32_def M32_def
  submit_outbound_requests_def submit_fee_rate_def bt_try_insert_def bt_contains_def

lemma bridge_pool_fields [simp]:
  "get_bonded_descriptor (s_pconfig sample_bridge) [0, 22, 32] bridge_pool = Some [22, 32]"
  "ServiceState bridge_pool = Normal" "CurrentRound bridge_pool = 1"
  by (simp_all add: get_bonded_descriptor_def bridge_pool_def sample_bridge_def sample_pool_defs)

lemma bridge_ready_fields [simp]:
  "the_pool bridge_ready = bridge_pool" "the_blaze bridge_ready = blaze_default" "Authority bridge_ready = Some 1"
  "SSocket bridge_ready = Some 9" "SocketMessages bridge_ready = []" "MaxFeeRate bridge_ready = 1000"
  "MaxSocketMessageBytes bridge_ready = 64" "PendingRequests bridge_ready = []" "FinalizedRequests bridge_ready = []"
  "ExecutedRequests bridge_ready = []" "RollbackRequests bridge_ready = []"
  by (simp_all add: bridge_ready_def bridge_defs)

lemma bridge_env [simp]:
  "bonded_descriptor (bridge_blaze_env sample_bridge sample_senv n s) [0, 22, 32] =
     get_bonded_descriptor (s_pconfig sample_bridge) [0, 22, 32] (the_pool s)"
  "b_majority (bridge_blaze_env sample_bridge sample_senv n s) = 2" "b_block_number (bridge_blaze_env sample_bridge sample_senv n s) = n"
  "sq_max_fee_rate (bridge_blaze_env sample_bridge sample_senv n s) = MaxFeeRate s"
  by (simp_all add: bridge_blaze_env_def sample_senv_def)

lemma bridge_env_verify [simp]:
  "verify_socket_message (bridge_blaze_env sample_bridge sample_senv n (bridge_ready\<lparr>the_blaze := x\<rparr>)) [b]"
  by (simp add: bridge_blaze_env_def bridge_verify)

lemma bridge_blaze_config [simp]:
  "utxo_hash (s_bconfig sample_bridge) (t, y) = t" "FeeRateExpiration (s_bconfig sample_bridge) = 10"
  "script_code (s_bconfig sample_bridge) d = Some \<lparr>sc_instructions = [Op 0x51, PushBytes, Op 0x51, Op 0xae], sc_len = 37\<rparr>"
  "to_vbytes (s_bconfig sample_bridge) w m = m + (w + 3) div 4" "ToleranceThreshold (s_bconfig sample_bridge) = 3"
  by (simp_all add: sample_bridge_def)

lemma bridge_votes_run: "socket_run sample_bridge (bridge_votes b) bridge_ready = Some (bridge_voted b)"
  by (simp add: bridge_eval bridge_blaze_eval bridge_voted_def bridge_blaze_def bridge_output_def bridge_sized_def blaze_default_def)


subsection \<open>The block hook\<close>

definition bridge_composed_psbt :: Psbt where
  "bridge_composed_psbt =
     \<lparr>psbt_tx_input = [composed_input sample_bridge bridge_sized],
      psbt_tx_output = [\<lparr>txo_value = 60000, txo_script = [9]\<rparr>, \<lparr>txo_value = 39692, txo_script = [0, 22, 32]\<rparr>],
      psbt_inputs = [\<lparr>pin_witness_utxo = Some \<lparr>txo_value = 100000, txo_script = [22, 32]\<rparr>, pin_non_witness_utxo = None,
        pin_witness_script = Some \<lparr>sc_instructions = [Op 0x51, PushBytes, Op 0x51, Op 0xae], sc_len = 37\<rparr>, pin_bip32_keys = []\<rparr>],
      psbt_extra = []\<rparr>"

lemma bridge_refund [simp]: "process_set_refunds bridge_pool = bridge_pool" "get_refund_address 7 bridge_pool = Some [9]"
  "get_system_vault (Suc 0) bridge_pool = Some [0, 22, 32]"
  by (simp_all add: process_set_refunds_def Let_def get_refund_address_def get_system_vault_def vault_address_def bridge_pool_def
      sample_pool_defs MultiSigAccount_new_def fun_upd_idem)

lemma bridge_message_fields [simp]:
  "acct_of (tp_to (sm_params (bridge_message b))) = 7" "tp_amount (sm_params (bridge_message 1)) = 60000"
  "tp_amount (sm_params (bridge_message 99)) = 18446744073709551616"
  by (simp_all add: bridge_message_def acct_of_def)

lemma bridge_crates [simp]:
  "parse_address sample_bridge a = Some a" "script_pubkey sample_bridge a = a" "address_from_script sample_bridge a = Some a"
  "s_pconfig sample_bridge = sample_pool" "desc_script_pubkey sample_bridge a = Some a" "desc_keys sample_bridge a = []" "unsigned_tx_ok sample_bridge i x"
  "txout_size sample_bridge out = 31" "psbt_serialize sample_bridge p = [1]" "psbt_deserialize sample_bridge (b # bs) = Some (bridge_psbt b)"
  "psbt_fee sample_bridge p = Some (1000 * length (psbt_tx_input p))"
  by (simp_all add: sample_bridge_def)

lemma bridge_txid: "psbt_txid sample_bridge p = of_nat (unat (of_nat (5 + length (psbt_tx_input p)) :: 8 word))"
  by (simp add: psbt_txid_def convert_txid_def sample_bridge_def be_nat_def)

lemma bridge_registered [simp]:
  "registered_outbounds sample_bridge bridge_pool [[b]] = Some ([(bridge_message b, [9])], [])"
  by simp

lemma bridge_selection:
  "select_coins (List.map_filter (score_utxo 1 2) [bridge_sized]) 60042 86 200000 100000 546 = Some ([bridge_sized], Knapsack)"
  by (simp add: map_filter_simps score_utxo_def mul64_def bridge_sized_def select_coins_def select_coins_bnb_def bnb_order_def
      select_coins_knapsack_def knapsack_order_def categorize_def is_lower_def knapsack_choose_def single_larger_def excess_fee_def
      sat_add64_def add64_def sum64_def U64_MAX_def M64_def Let_def bnb_dfs.simps knapsack_dfs.simps)

lemma bridge_hook_inputs:
  "try_fee_rate_finalization (blaze_env sample_senv) 6 (bridge_blaze b) = Done (Some (1, 2)) (bridge_blaze b)"
  "get_utxos (bridge_blaze b) = [bridge_sized]" "OutboundPool (bridge_blaze b) = [[b]]"
  "filter_unregistered_outbounds sample_bridge bridge_pool [[b]] = Some ([[b]], [(bridge_message b, [9])])"
  by (simp_all add: try_fee_rate_finalization_def blaze_env_def sample_senv_def bridge_blaze_def as_u32_def M32_def median_def
      expect_def Let_def get_utxos_def filter_unregistered_outbounds_def del: registered_outbounds.simps)

lemma bridge_amounts: "those [as_u64 (tp_amount (sm_params (bridge_message 1)))] = Some [60000]"
  by (simp add: as_u64_def M64_def)

lemma bridge_composite:
  "the_pool s = bridge_pool \<Longrightarrow>
   composite_psbt sample_bridge [bridge_sized] [(bridge_message 1, [9])] 60000 2 Knapsack s = Done (Some bridge_composed_psbt) s"
  by (simp add: composite_psbt_def as_u64_def M64_def expect_def Let_def change_output_def bridge_sized_def DUST_LIMIT_def
      sum64_def add64_def sat_mul64_def U64_MAX_def composed_psbt_input_def bridge_composed_psbt_def)

definition bridge_hooked :: socket_queue where
  "bridge_hooked = bridge_ready\<lparr>PendingRequests := [(6, PsbtRequest_new [1] [[1]] ReqNormal)],
     SocketMessages := [(1, 6, bridge_message 1)], SEvents := [SSocketSet 9 False, UnsignedPsbtSubmitted 6],
     the_blaze := (bridge_blaze 1)\<lparr>Utxos := [(1, \<lparr>ut_inner = bridge_sized, ut_status = Locked, ut_voters = [4, 2]\<rparr>)],
       PendingTxs := [(6, \<lparr>bt_inputs = [bridge_sized], bt_voters = []\<rparr>)], OutboundPool := [], FeeRates := []\<rparr>\<rparr>"

lemma bridge_voted_fields [simp]:
  "the_pool (bridge_voted b) = bridge_pool" "the_blaze (bridge_voted b) = bridge_blaze b" "IsActivated (bridge_blaze b)"
  "(bridge_voted b)\<lparr>the_pool := bridge_pool\<rparr> = bridge_voted b" "(bridge_voted b)\<lparr>the_blaze := bridge_blaze b\<rparr> = bridge_voted b"
  by (simp_all add: bridge_voted_def bridge_blaze_def bridge_ready_def)

lemma bridge_submit:
  "submit_composed sample_bridge bridge_composed_psbt [[1]] [bridge_sized] (bridge_voted 1) = Done () bridge_hooked"
proof -
  have i: "psbt_txid sample_bridge bridge_composed_psbt = 6" by (simp add: bridge_txid bridge_composed_psbt_def)
  have q: "rq_sequence (req_id (bridge_message 1)) = 1" by (simp add: bridge_message_def)
  show ?thesis
    by (simp add: submit_composed_def Let_def i q s_deposit_def bridge_voted_def)
      (simp add: bridge_hooked_def bridge_ready_def bridge_defs clear_outbound_pool_def clear_fee_rates_def lock_utxos_def
        bridge_blaze_def bridge_sized_def blaze_default_def ok_or_def put_utxo_def tolerate_def handle_tolerance_counter_def)
qed

lemma bridge_compose:
  "compose_outbounds sample_bridge 1 2 [[1]] [(bridge_message 1, [9])] (bridge_voted 1) = Done () bridge_hooked"
proof -
  have sel: "select_coins (List.map_filter (score_utxo 1 2) [bridge_sized]) (target_amount 60000 2 [[9]]) (mul64 43 2)
      200000 100000 DUST_LIMIT = Some ([bridge_sized], Knapsack)"
    using bridge_selection by (simp add: target_amount_def mul64_def add64_def sat_add64_def sum64_def M64_def U64_MAX_def DUST_LIMIT_def Let_def)
  have sum: "sum64 [60000] = 60000" "\<not> sum64 [us_amount bridge_sized] \<le> 60000" by (simp_all add: sum64_def M64_def bridge_sized_def)
  show ?thesis
    by (simp only: compose_outbounds_def Let_def bridge_voted_fields bridge_hook_inputs bridge_amounts expect_def option.case sum if_False
        list.map snd_conv sel prod.case bridge_composite [OF bridge_voted_fields(1)] bind_outcome_simps bridge_submit)
qed

lemma bridge_hook: "sq_on_initialize sample_bridge sample_senv 6 (bridge_voted 1) = Done () bridge_hooked"
proof -
  have "[1 :: 8 word] \<noteq> []" "[[1 :: 8 word]] \<noteq> []" by simp_all
  then show ?thesis
    by (simp only: sq_on_initialize_def bridge_voted_fields bridge_pool_fields bridge_refund bridge_hook_inputs simp_thms if_True Let_def
      with_blaze_def outcome.case option.case prod.case expect_def bridge_compose if_False)
qed

lemma bridge_hook_guard: "socket_guard sample_bridge (SqInit sample_senv 6) (bridge_voted 1)"
  by (simp add: socket_guard_def init_guard_def bridge_hook known_request_def bt_contains_def)
    (simp add: sample_senv_def bridge_voted_def bridge_hooked_def bridge_ready_def bridge_defs)

lemma bridge_hook_exec: "socket_exec sample_bridge (SqInit sample_senv 6) (bridge_voted 1) = Some bridge_hooked"
  by (simp add: socket_exec_def bridge_hook)

lemma bridge_hook_run: "socket_run sample_bridge [SqInit sample_senv 6] (bridge_voted 1) = Some bridge_hooked"
  by (simp add: bridge_hook_guard bridge_hook_exec)

lemmas bridge_ready_reachable = socket_run_reachable [OF bridge_start_reachable bridge_setup_run]
lemmas bridge_voted_reachable = socket_run_reachable [OF bridge_ready_reachable bridge_votes_run]
lemmas bridge_hooked_reachable = socket_run_reachable [OF bridge_voted_reachable bridge_hook_run]

subsection \<open>A migration\<close>

definition bridge_migration :: "socket_op list" where
  "bridge_migration =
     [pool_step Root MigrationControl, pool_step Root MigrationControl,
      pool_step NoOrigin (SubmitSystemVaultKey (sample_key 2 256 [23] 2) []),
      pool_step NoOrigin (SubmitSystemVaultKey (sample_key 3 256 [33] 2) [])]"

definition bridge_transfer_pool :: "(H256, bool) btmap \<Rightarrow> reg_pool" where
  "bridge_transfer_pool e = bridge_pool\<lparr>ServiceState := UTXOTransfer,
     SystemVault := (SystemVault bridge_pool)(2 \<mapsto> \<lparr>ms_address = Generated [0, 23, 33], ms_descriptor = [23, 33],
       ms_pub_keys = [(2, [23]), (3, [33])], ms_m = 2, ms_n = 2\<rparr>),
     BondedVault := (BondedVault bridge_pool)(2 := [([0, 23, 33], 256)]),
     BondedPubKey := (BondedPubKey bridge_pool)(2 := [([23], 256), ([33], 256)]),
     BondedDescriptor := (BondedDescriptor bridge_pool)(2 := [([0, 23, 33], [23, 33])]),
     OngoingVaultMigration := e,
     PEvents := PEvents bridge_pool @ [MigrationStarted, SystemVaultPending, VaultKeySubmitted 256 [23], VaultKeySubmitted 256 [33],
       VaultGenerated 256 [] [0, 23, 33]]\<rparr>"

definition bridge_migrating :: socket_queue where
  "bridge_migrating = bridge_ready\<lparr>PendingRequests := [(5, PsbtRequest_new [3] [] ReqMigration)],
     SEvents := [SSocketSet 9 False, MigrationPsbtSubmitted 5], the_pool := bridge_transfer_pool [(5, False)]\<rparr>"

definition bridge_moved :: socket_queue where
  "bridge_moved = bridge_ready\<lparr>ExecutedRequests := [(5, (PsbtRequest_new [3] [] ReqMigration)\<lparr>pr_combined_psbt := [1],
       pr_signed_psbts := [(2, [4])], pr_finalized_psbt := [1]\<rparr>)],
     SEvents := [SSocketSet 9 False, MigrationPsbtSubmitted 5, SignedPsbtSubmitted 5 2, RequestFinalized 5, RequestExecuted 5],
     the_pool := bridge_transfer_pool [(5, True)]\<rparr>"

lemma bridge_migration_run:
  "socket_run sample_bridge bridge_migration bridge_ready = Some (bridge_ready\<lparr>the_pool := bridge_transfer_pool []\<rparr>)"
  by (simp add: bridge_migration_def bridge_eval pool_eval sq_is_ready_for_migrate_def sample_pool_defs bridge_pool_def
      bridge_transfer_pool_def) (simp add: numeral_2_eq_2)

lemma bridge_transfer_fields [simp]:
  "ServiceState (bridge_transfer_pool e) = UTXOTransfer" "CurrentRound (bridge_transfer_pool e) = 1"
  "OngoingVaultMigration (bridge_transfer_pool e) = e" "get_system_vault 2 (bridge_transfer_pool e) = Some [0, 23, 33]"
  "get_system_vault (Suc (Suc 0)) (bridge_transfer_pool e) = Some [0, 23, 33]"
  "(bridge_transfer_pool e)\<lparr>OngoingVaultMigration := e'\<rparr> = bridge_transfer_pool e'"
  by (simp_all add: bridge_transfer_pool_def get_system_vault_def vault_address_def bridge_pool_def sample_pool_defs)

definition bridge_requests :: "socket_op list" where
  "bridge_requests =
     [SqCall sample_senv NoOrigin (SubmitSignedPsbt \<lparr>sp_authority_id = 2, sp_unsigned_psbt = [3], sp_signed_psbt = [4]\<rparr> []),
      SqCall sample_senv NoOrigin (SubmitExecutedRequest \<lparr>ep_authority_id = 2, ep_txid = 5\<rparr> [])]"

lemma bridge_psbt_txid [simp]: "psbt_txid sample_bridge (bridge_psbt 3) = 5" "psbt_tx_output (bridge_psbt 3) = [\<lparr>txo_value = 90000, txo_script = [0, 23, 33]\<rparr>]"
  by (simp_all add: bridge_txid bridge_psbt_def)

lemma bridge_transfer_run:
  "socket_run sample_bridge [SqCall sample_senv Root (SubmitMigrationRequest [3])] (bridge_ready\<lparr>the_pool := bridge_transfer_pool []\<rparr>) =
     Some bridge_migrating"
proof -
  have f: "estimate_finalized_vb sample_bridge (bridge_psbt 3) = Some 41" "psbt_tx_input (bridge_psbt 3) = []"
    by (simp_all add: estimate_finalized_vb_def bridge_psbt_def sample_bridge_def add64_def sum64_def M64_def)
  have b: "clear_utxos blaze_default = blaze_default" by (simp add: clear_utxos_def blaze_default_def)
  show ?thesis
    by (simp add: socket_guard_def call_guard_def socket_exec_def sq_call_run_def submit_migration_request_def s_root_def ensure_def ok_or_def
        ensure_service_def checked_psbt_def try_psbt_fee_verification_def ensure_new_request_def output_address_def bounded_address_def
        ADDRESS_MAX_LENGTH_def sat_add32_def M32_def add_migration_tx_def bt_contains_def f b Let_def settle_def s_deposit_def)
      (simp add: bridge_migrating_def bridge_ready_def bridge_defs blaze_default_def)
qed

lemma bridge_signing [simp]: "psbt_combine sample_bridge p q = Some q" "psbt_finalize sample_bridge p = Some p"
  by (simp_all add: sample_bridge_def)

definition bridge_signed :: socket_queue where
  "bridge_signed = bridge_ready\<lparr>FinalizedRequests := [(5, (PsbtRequest_new [3] [] ReqMigration)\<lparr>pr_combined_psbt := [1],
       pr_signed_psbts := [(2, [4])], pr_finalized_psbt := [1]\<rparr>)],
     SEvents := [SSocketSet 9 False, MigrationPsbtSubmitted 5, SignedPsbtSubmitted 5 2, RequestFinalized 5],
     the_pool := bridge_transfer_pool [(5, False)]\<rparr>"

lemma bridge_sign:
  "submit_signed_psbt sample_bridge NoOrigin \<lparr>sp_authority_id = 2, sp_unsigned_psbt = [3], sp_signed_psbt = [4]\<rparr> bridge_migrating =
     Done () bridge_signed"
  by (simp add: submit_signed_psbt_def s_none_def ensure_def ok_or_def checked_psbt_def Let_def bridge_migrating_def is_unsigned_psbt_def
      is_signed_psbt_submitted_def PsbtRequest_new_def add_signature_def store_signed_def signed_try_insert_def MULTI_SIG_MAX_ACCOUNTS_def
      s_deposit_def)
    (simp add: bridge_signed_def bridge_ready_def PsbtRequest_new_def bridge_defs bt_remove_def)

lemma bridge_execute:
  "submit_executed_request sample_senv NoOrigin \<lparr>ep_authority_id = 2, ep_txid = 5\<rparr> bridge_signed = Done () bridge_moved"
  by (simp add: submit_executed_request_def confirm_broadcast_def s_none_def ok_or_def Let_def bridge_signed_def PsbtRequest_new_def
      blaze_default_def execute_migration_tx_def s_deposit_def)
    (simp add: bridge_moved_def bridge_ready_def PsbtRequest_new_def bridge_defs bt_remove_def ensure_def)

lemma bridge_requests_run: "socket_run sample_bridge bridge_requests bridge_migrating = Some bridge_moved"
  by (simp add: bridge_requests_def socket_guard_def call_guard_def socket_exec_def sq_call_run_def settle_def bridge_sign bridge_execute)

lemmas bridge_migrating_reachable = socket_run_reachable [OF socket_run_reachable [OF bridge_ready_reachable bridge_migration_run]
  bridge_transfer_run]
lemmas bridge_moved_reachable = socket_run_reachable [OF bridge_migrating_reachable bridge_requests_run]

subsection \<open>A payment without Blaze, and its replacement\<close>

lemma bridge_payments:
  "psbt_txid sample_bridge (bridge_psbt 1) = 6" "psbt_txid sample_bridge (bridge_psbt 2) = 7"
  "psbt_tx_output (bridge_psbt 1) = [\<lparr>txo_value = 60000, txo_script = [9]\<rparr>, \<lparr>txo_value = 30000, txo_script = [0, 22, 32]\<rparr>]"
  "psbt_tx_output (bridge_psbt 2) = [\<lparr>txo_value = 60000, txo_script = [9]\<rparr>, \<lparr>txo_value = 29000, txo_script = [0, 22, 32]\<rparr>]"
  "psbt_tx_input (bridge_psbt 1) = [bridge_input 1]" "psbt_tx_input (bridge_psbt 2) = [bridge_input 1, bridge_input 2]"
  by (simp_all add: bridge_txid bridge_psbt_def)

lemma bridge_sizes: "estimate_finalized_vb sample_bridge (bridge_psbt b) = Some (10 + 31 * length (psbt_tx_output (bridge_psbt b)))"
  by (simp add: estimate_finalized_vb_def bridge_psbt_def sample_bridge_def add64_def sum64_def M64_def)

lemma bridge_output_address [simp]: "length (txo_script out) \<le> 90 \<Longrightarrow> output_address sample_bridge out = Some (txo_script out)"
  by (simp add: output_address_def bounded_address_def ADDRESS_MAX_LENGTH_def)

abbreviation bridge_payment :: UnsignedPsbtMessage where
  "bridge_payment \<equiv> \<lparr>up_authority_id = 1, up_outputs = [([9], [[1]]), ([0, 22, 32], [])], up_psbt = [1]\<rparr>"

lemma bridge_inactive [simp]: "\<not> IsActivated blaze_default" "bridge_ready\<lparr>the_blaze := blaze_default\<rparr> = bridge_ready"
  by (simp_all add: blaze_default_def bridge_ready_def bridge_defs)

lemmas bridge_call_eval = s_none_def s_root_def ensure_activation_def with_blaze_def ensure_service_def checked_psbt_def
  try_psbt_fee_verification_def ensure_new_request_def ensure_def ok_or_def Let_def bt_contains_def s_deposit_def

lemma bridge_payment_checked:
  "try_psbt_output_verification sample_bridge sample_senv (bridge_psbt 1) (up_outputs bridge_payment) bridge_ready =
     Done ([bridge_message 1], [[1]]) bridge_ready"
proof -
  have "sq_verify_socket_message sample_bridge sample_senv [1] bridge_ready = Done () bridge_ready"
    by (rule bridge_verify) (rule bridge_ready_fields, rule bridge_ready_fields, simp)
  moreover have "checked_add256 0 60000 = Some 60000" by (simp add: checked_add256_def)
  ultimately show ?thesis
    by (simp add: try_psbt_output_verification_def Let_def ensure_def ok_or_def bridge_payments s_parsed_def)
qed

definition bridge_paying :: socket_queue where
  "bridge_paying = bridge_ready\<lparr>SocketMessages := [(1, 6, bridge_message 1)],
     PendingRequests := [(6, PsbtRequest_new [1] [[1]] ReqNormal)], SEvents := [SSocketSet 9 False, UnsignedPsbtSubmitted 6]\<rparr>"

lemma bridge_pay: "submit_unsigned_psbt sample_bridge sample_senv NoOrigin bridge_payment bridge_ready = Done () bridge_paying"
proof -
  have q: "rq_sequence (req_id (bridge_message 1)) = 1" by (simp add: bridge_message_def)
  show ?thesis
    by (simp add: submit_unsigned_psbt_def bridge_call_eval bridge_payment_checked [simplified] bridge_sizes bridge_payments put_messages_def q)
      (simp add: bridge_paying_def bridge_ready_def bridge_defs)
qed

definition bridge_paid :: socket_queue where
  "bridge_paid = bridge_ready\<lparr>SocketMessages := [(1, 6, bridge_message 1)],
     ExecutedRequests := [(6, PsbtRequest_new [1] [[1]] ReqNormal)]\<rparr>"

lemma bridge_bump: "\<exists>s'. submit_bump_fee_request sample_bridge Root 6 [2] bridge_paid = Done () s'"
  by (simp add: submit_bump_fee_request_def bridge_call_eval bridge_paid_def PsbtRequest_new_def bridge_sizes bridge_payments
      try_bump_fee_psbt_verification_def bump_output_def replace_request_def s_parsed_def relock_psbt_def)

subsection \<open>A rollback\<close>

abbreviation bridge_refund_message :: RollbackPsbtMessage where
  "bridge_refund_message \<equiv> \<lparr>rp_who = 7, rp_txid = 3, rp_vout = 0, rp_amount = 60000, rp_unsigned_psbt = [1]\<rparr>"

definition bridge_deposited :: socket_queue where
  "bridge_deposited = bridge_ready\<lparr>BitcoinSocket := Some 8, the_pool := bridge_pool\<lparr>RegistrationPool := (\<lambda>_. [])(1 := [(7,
     \<lparr>refund_address = [9], vault = (MultiSigAccount_new 2 2)\<lparr>ms_address := Generated [5]\<rparr>\<rparr>)])\<rparr>\<rparr>"

definition bridge_rollback :: socket_queue where
  "bridge_rollback = bridge_deposited\<lparr>RollbackRequests := [(6, RollbackRequest_new [1] 7 3 0 [5] 60000)],
     BondedRollbackOutputs := [((3, 0), 6)], SEvents := [SSocketSet 9 False, RollbackPsbtSubmitted 6]\<rparr>"

lemma bridge_tx_info:
  "Authority s = Some a \<Longrightarrow> BitcoinSocket s = Some t \<Longrightarrow> \<exists>i. try_get_tx_info sample_bridge sample_senv h s = Done i s \<and> ix_to i = 0"
  by (simp add: try_get_tx_info_def ok_or_def try_evm_call_def sample_bridge_def sample_senv_def try_decode_tx_info_def bridge_decode_def
      socket_kind_def request_kind_def tx_info_kind_def)

lemma bridge_deposited_fields:
  "Authority bridge_deposited = Some 1" "BitcoinSocket bridge_deposited = Some 8" "ServiceState (the_pool bridge_deposited) = Normal"
  "get_vault_address 7 (the_pool bridge_deposited) = Some [5]" "get_refund_address 7 (the_pool bridge_deposited) = Some [9]"
  "get_system_vault (CurrentRound (the_pool bridge_deposited)) (the_pool bridge_deposited) = Some [0, 22, 32]"
  "\<not> IsActivated (the_blaze bridge_deposited)" "MaxFeeRate bridge_deposited = 1000" "PendingRequests bridge_deposited = []"
  "FinalizedRequests bridge_deposited = []" "ExecutedRequests bridge_deposited = []" "RollbackRequests bridge_deposited = []"
  "BondedRollbackOutputs bridge_deposited = []"
  by (simp_all add: bridge_deposited_def get_vault_address_def get_refund_address_def get_system_vault_def vault_address_def)
    (simp_all add: bridge_pool_def sample_pool_defs bridge_ready_def bridge_defs vault_address_def)

lemma bridge_rollback_request:
  "submit_rollback_request sample_bridge sample_senv Root bridge_refund_message bridge_deposited = Done () bridge_rollback"
proof -
  obtain i where i: "try_get_tx_info sample_bridge sample_senv 0 bridge_deposited = Done i bridge_deposited" "ix_to i = 0"
    using bridge_tx_info [OF bridge_deposited_fields(1,2)] by blast
  have h: "generate_hash_key sample_bridge t v w a = 0" for t v w a by (simp add: generate_hash_key_def sample_bridge_def)
  show ?thesis
    by (simp add: submit_rollback_request_def bridge_call_eval bridge_deposited_fields bridge_payments bridge_sizes h i expect_def as_u64_def M64_def)
      (simp add: bridge_rollback_def bridge_deposited_def bridge_ready_def bridge_defs)
qed

lemma bridge_drop: "\<exists>s'. drop_pending_rollback_request Root 6 bridge_rollback = Done () s'"
  by (simp add: drop_pending_rollback_request_def bridge_rollback_def bridge_call_eval bridge_deposited_fields RollbackRequest_new_def)

end
