(* ===== verification/Socket_Properties.thy ===== *)
theory Socket_Properties
  imports Socket_Sample
begin

text \<open>
  What the Bitcoin socket queue guarantees together with Blaze and the registration pool, each with an instance on the
  sample runs.
\<close>

subsection \<open>Composition\<close>



subsection \<open>Requests\<close>

text \<open>C24: Every step of the bridge leaves each request in its stage, opens one, finalizes a pending one,
  executes a finalized one, or replaces an executed one by a new pending one of the same type with the
  same messages; a request is never in two stages.\<close>

theorem request_life_cycle:
  assumes "socket_reachable C s" "socket_guard C x s" "socket_exec C x s = Some s'"
  shows "requests_step (request_of s) (request_of s') \<and> one_stage s'"
  using exec_requests [OF socket_reachable_inv [OF assms(1)] assms(2,3)] by (auto simp: requests_ok_def dest: socket_invD(1))

theorem request_life_cycle_witness:
  "request_of (bridge_voted 1) 6 = None \<and> request_of bridge_hooked 6 = Some (StPending, PsbtRequest_new [1] [[1]] ReqNormal) \<and>
   requests_step (request_of (bridge_voted 1)) (request_of bridge_hooked) \<and> one_stage bridge_hooked"
  using request_life_cycle [OF bridge_voted_reachable bridge_hook_guard bridge_hook_exec]
  by (simp add: request_of_def bridge_voted_def bridge_hooked_def)

text \<open>C28: While a vault migration is under way, every rollback is approved, every request that is not
  executed is a migration request, and the pool knows it as not executed.\<close>

theorem migration_quiescent:
  assumes "socket_reachable C s" "ServiceState (the_pool s) \<noteq> Normal"
  shows "(\<forall>i rb. bt_get (RollbackRequests s) i = Some rb \<longrightarrow> rb_is_approved rb) \<and>
    (\<forall>i st r. request_of s i = Some (st, r) \<longrightarrow> st \<noteq> StExecuted \<longrightarrow>
       pr_request_type r = ReqMigration \<and> bt_get (OngoingVaultMigration (the_pool s)) i = Some False)"
proof -
  note I = socket_invD [OF socket_reachable_inv [OF assms(1)]]
  from I(3) assms(2) show ?thesis using I(4) unfolding quiescent_def migrations_ok_def by blast
qed

theorem migration_quiescent_witness:
  "request_of bridge_migrating 5 = Some (StPending, PsbtRequest_new [3] [] ReqMigration) \<and>
   bt_get (OngoingVaultMigration (the_pool bridge_migrating)) 5 = Some False"
proof -
  have m: "ServiceState (the_pool bridge_migrating) \<noteq> Normal" by (simp add: bridge_migrating_def)
  have r: "request_of bridge_migrating 5 = Some (StPending, PsbtRequest_new [3] [] ReqMigration)"
    by (simp add: request_of_def bridge_migrating_def)
  from migration_quiescent [OF bridge_migrating_reachable m] r show ?thesis by blast
qed

text \<open>C29: When a call ends the round of the vaults, every request has been executed.\<close>

theorem round_ends_quiet:
  assumes "socket_reachable C s" "socket_exec C (SqPool xs n og c) s = Some s'"
    and r: "CurrentRound (the_pool s') \<noteq> CurrentRound (the_pool s)"
  shows "PendingRequests s' = [] \<and> FinalizedRequests s' = []"
proof -
  note I = socket_invD [OF socket_reachable_inv [OF assms(1)]]
  from assms(2) r obtain u p where s': "s' = s\<lparr>the_pool := p\<rparr>"
    and d: "pool_call_run (s_pconfig C) (bridge_pool_env xs n s) og c (the_pool s) = Done u p"
    by (auto simp: socket_exec_def settle_Some)
  from round_change [OF d] r s' have c: "c = MigrationControl" by simp
  note K = completion [OF d [unfolded c pool_call_run_def, simplified]]
  have e: "ServiceState (the_pool s) = UTXOTransfer" "\<forall>e\<in>set (OngoingVaultMigration (the_pool s)). snd e" using K r s' by simp_all
  have "bt_get (OngoingVaultMigration (the_pool s)) i \<noteq> Some False" for i using e(2) by (metis map_of_SomeD snd_conv)
  with I(3,4) e(1) have "st = StExecuted" if "request_of s i = Some (st, q)" for i st q
    using that unfolding quiescent_def migrations_ok_def by (metis MigrationSequence.distinct(5))
  then have "bt_get (PendingRequests s) i = None" "bt_get (FinalizedRequests s) i = None" for i
    using request_stages [OF I(1)] by (metis not_None_eq stage.distinct(3), metis not_None_eq stage.distinct(5))
  then have "PendingRequests s = []" "FinalizedRequests s = []" by (metis list.exhaust map_of_eq_None_iff set_empty image_is_empty empty_iff not_None_eq set_map neq_Nil_conv surj_pair map_of_Cons_code(2))+
  then show ?thesis by (simp add: s')
qed

theorem round_ends_quiet_witness:
  "\<exists>s'. socket_exec sample_bridge (pool_step Root MigrationControl) bridge_moved = Some s' \<and>
     CurrentRound (the_pool bridge_moved) = 1 \<and> CurrentRound (the_pool s') = 2 \<and> PendingRequests s' = [] \<and> FinalizedRequests s' = []"
proof -
  have m: "the_pool bridge_moved = bridge_transfer_pool [(5, True)]" by (simp add: bridge_moved_def)
  obtain s' where s': "socket_exec sample_bridge (pool_step Root MigrationControl) bridge_moved = Some s'"
    "CurrentRound (the_pool s') = 2" by (simp add: socket_exec_def pool_eval m p_deposit_def)
  with round_ends_quiet [OF bridge_moved_reachable s'(1)] m show ?thesis by simp
qed

subsection \<open>Payments\<close>



text \<open>C26: A PSBT that is accepted without Blaze pays, with every output that does not go to the system
  vault, exactly the total of the messages listed for the address of the output; these are messages
  that were not recorded before, of users whose refund address it is.\<close>

theorem unsigned_psbt_pays:
  assumes "submit_unsigned_psbt C E og msg s = Done u s'"
  shows "\<exists>p sv. psbt_deserialize C (up_psbt msg) = Some p \<and> get_system_vault (CurrentRound (the_pool s)) (the_pool s) = Some sv \<and>
    list_all (output_pays C s sv (fold (\<lambda>(a, ms). bt_insert a ms) (up_outputs msg) [])) (psbt_tx_output p) \<and>
    bt_get (PendingRequests s') (psbt_txid C p) \<noteq> None"
  using assms
proof (rule submit_unsigned_Done)
  fix p i des ser
  assume a: "psbt_deserialize C (up_psbt msg) = Some p" "i = psbt_txid C p"
    and v: "try_psbt_output_verification C E p (up_outputs msg) s = Done (des, ser) s"
    and s': "s' = s_deposit (UnsignedPsbtSubmitted i) ((put_messages i des s)\<lparr>PendingRequests :=
        bt_insert i (PsbtRequest_new (up_psbt msg) ser ReqNormal) (PendingRequests s)\<rparr>)"
  from v obtain sv where "get_system_vault (CurrentRound (the_pool s)) (the_pool s) = Some sv"
    "list_all (output_pays C s sv (fold (\<lambda>(a, ms). bt_insert a ms) (up_outputs msg) [])) (psbt_tx_output p)"
    by (rule output_verification_Done)
  with a s' show ?thesis by auto
qed

theorem unsigned_psbt_pays_witness:
  "list_all (output_pays sample_bridge bridge_ready [0, 22, 32] [([0, 22, 32], []), ([9], [[1]])]) (psbt_tx_output (bridge_psbt 1)) \<and>
   bt_get (PendingRequests bridge_paying) 6 \<noteq> None"
  using unsigned_psbt_pays [OF bridge_pay] by (auto simp: bridge_payments)





subsection \<open>Rollbacks\<close>

text \<open>C31: A vote on a rollback request counts once per relayer and only while the request is not approved; the
  request is approved, and becomes a pending request without messages, exactly when the votes in favour
  reach the majority.\<close>

theorem rollback_majority:
  assumes "submit_rollback_poll E og msg s = Done u s'"
  shows "\<exists>rb rb'. bt_get (RollbackRequests s) (rv_txid msg) = Some rb \<and> \<not> rb_is_approved rb \<and>
    bt_get (RollbackRequests s') (rv_txid msg) = Some rb' \<and>
    rb_votes rb' = bt_insert (rv_authority_id msg) (rv_is_approved msg) (rb_votes rb) \<and>
    (rb_is_approved rb' \<longleftrightarrow> s_majority E \<le> as_u32 (length (filter snd (rb_votes rb')))) \<and>
    PendingRequests s' = (if rb_is_approved rb' then bt_insert (rv_txid msg) (PsbtRequest_new (rb_unsigned_psbt rb) [] ReqRollback) (PendingRequests s)
      else PendingRequests s)"
  using assms by (rule submit_rollback_poll_Done) (auto split: if_splits)

theorem rollback_majority_witness:
  "\<exists>s' rb. submit_rollback_poll sample_senv NoOrigin \<lparr>rv_authority_id = 4, rv_txid = 6, rv_is_approved = True\<rparr>
       (bridge_ready\<lparr>RollbackRequests := [(6, (RollbackRequest_new [1] 7 3 0 [5] 60000)\<lparr>rb_votes := [(2, True)]\<rparr>)]\<rparr>) = Done () s' \<and>
     bt_get (RollbackRequests s') 6 = Some rb \<and> rb_votes rb = [(2, True), (4, True)] \<and> rb_is_approved rb"
    (is "\<exists>s' rb. submit_rollback_poll _ _ ?m ?s = _ \<and> _")
proof -
  have "\<exists>s'. submit_rollback_poll sample_senv NoOrigin ?m ?s = Done () s'"
    by (simp add: submit_rollback_poll_def s_none_def ensure_def ok_or_def Let_def RollbackRequest_new_def bt_try_insert_def MAX_AUTHORITIES_def)
  then obtain s' where s': "submit_rollback_poll sample_senv NoOrigin ?m ?s = Done () s'" by blast
  from rollback_majority [OF s'] s' show ?thesis by (auto simp: RollbackRequest_new_def sample_senv_def as_u32_def M32_def)
qed

text \<open>C32: A rollback request that is dropped leaves its output bonded: the same output can not be submitted
  for a rollback again.\<close>

theorem dropped_rollback_stays_bonded:
  assumes "submit_rollback_request C E og msg s = Done u s1" "drop_pending_rollback_request og' i s1 = Done v s2"
    and "rp_txid msg' = rp_txid msg" "rp_vout msg' = rp_vout msg"
  shows "submit_rollback_request C E' og'' msg' s2 \<noteq> Done w s3"
  using assms(2)
proof (rule drop_rollback_Done)
  assume "BondedRollbackOutputs s2 = BondedRollbackOutputs s1"
  with rollback_bonds(2) [OF assms(1)] rollback_bonds(1) [of C E' og'' msg' s2 w s3] assms(3,4) show ?thesis by auto
qed

theorem dropped_rollback_stays_bonded_witness:
  "\<exists>s'. drop_pending_rollback_request Root 6 bridge_rollback = Done () s' \<and>
     submit_rollback_request sample_bridge sample_senv Root bridge_refund_message s' \<noteq> Done () s'"
proof -
  from bridge_drop obtain s' where s': "drop_pending_rollback_request Root 6 bridge_rollback = Done () s'" by blast
  from dropped_rollback_stays_bonded [OF bridge_rollback_request s' refl refl] s' show ?thesis by blast
qed

subsection \<open>Errors\<close>

text \<open>C33: One message in the outbound pool with an amount beyond 64 bits, of a registered user, makes the
  block hook panic as soon as the fee rate is agreed.\<close>

theorem oversized_amount_panics:
  assumes "IsActivated (the_blaze s)" "ServiceState (the_pool s) = Normal"
    and f: "try_fee_rate_finalization (blaze_env E) n (the_blaze s) = Done (Some rates) b"
    and raw: "raw \<in> set (OutboundPool (the_blaze s))" "SocketMessage_try_from (s_codec C) raw = Parsed m"
    and reg: "get_refund_address (acct_of (tp_to (sm_params m))) (process_set_refunds (the_pool s)) = Some refund"
    and big: "2 ^ 64 \<le> unat (tp_amount (sm_params m))"
  shows "sq_on_initialize C E n s = Panic"
proof -
  let ?p = "process_set_refunds (the_pool s)" and ?pool = "OutboundPool (the_blaze s)"
  have b: "OutboundPool b = ?pool" using finalize_Done [OF f] by simp
  obtain lt fr where r: "rates = (lt, fr)" by (cases rates)
  show ?thesis
  proof (cases "registered_outbounds C ?p ?pool")
    case None
    then show ?thesis
      using assms(1,2) f raw(1)
      by (auto simp: sq_on_initialize_def Let_def with_blaze_def r b expect_def filter_unregistered_outbounds_def)
  next
    case (Some q)
    obtain rs us where q: "q = (rs, us)" by (cases q)
    from registered_in [OF Some [unfolded q] raw reg] obtain sc where sc: "(m, sc) \<in> set rs" "raw \<notin> set us" by blast
    have "filter (\<lambda>x. x \<notin> set us) ?pool \<noteq> []" using raw(1) sc(2) by (auto simp: filter_empty_conv)
    then show ?thesis
      using assms(1,2) f raw(1) Some q oversized_compose [OF sc(1)] big
      by (auto simp: sq_on_initialize_def Let_def with_blaze_def r b expect_def filter_unregistered_outbounds_def M64_def)
  qed
qed

theorem oversized_amount_panics_witness:
  "socket_reachable sample_bridge (bridge_voted 99) \<and> sq_on_initialize sample_bridge sample_senv 6 (bridge_voted 99) = Panic"
proof -
  have "sq_on_initialize sample_bridge sample_senv 6 (bridge_voted 99) = Panic"
    by (rule oversized_amount_panics [where raw = "[99]" and m = "bridge_message 99" and refund = "[9]" and rates = "(1, 2)" and b = "bridge_blaze 99"])
      (simp_all add: bridge_hook_inputs)
  then show ?thesis using bridge_voted_reachable by blast
qed

end
