(* ===== verification/Spec2Isabelle.thy ===== *)
theory Spec2Isabelle
  imports Candidate_Properties Staking_Properties Round_Properties Reward_Properties Call_Properties
    Relay_Properties Offence_Properties Queue_Properties Pool_Properties Blaze_Properties Socket_Properties
begin

text \<open>
  A verification library for the Bifrost node, a Substrate chain written in Rust.

  \<^bold>\<open>The program.\<close> The node is a runtime of pallets. \<open>pallets/bfc-staking\<close> keeps the validator
  candidates, their self-bonds and nominations, chooses the validators of a round, pays rewards and
  slashes. \<open>pallets/relay-manager\<close> pairs every full validator with a relayer account, selects the
  relayers of a round and collects their heartbeats. \<open>pallets/bfc-offences\<close> counts the offences of a
  validator and decides when it is slashed. Staking calls the other two through the traits
  \<open>RelayManager\<close> and \<open>OffenceHandler\<close> of \<open>primitives/bfc-staking\<close>. \<open>pallets/cccp-relay-queue\<close> lets the
  relayers vote cross-chain transfers through their stages; it asks the relay manager who is a relayer
  and how many make a majority, and is told when a relayer changes its account.

  \<^bold>\<open>Conventions.\<close> A pallet's storage is a record, with one field per storage item, the events and a
  component for what other code keeps. A storage map or \<open>BTreeMap\<close> is a key-ordered association list
  (\<open>btmap\<close>); the order of a storage map is never observable in the results. A function that can fail
  returns an \<open>outcome\<close>: \<open>Done\<close>, \<open>Fail\<close> with the error and the state at that point, or \<open>Panic\<close> for a
  failed \<open>expect\<close> or an index out of range. A call that fails is rolled back by its dispatch, as the
  storage layer of FRAME does. Balances are \<open>u128\<close>, indexes and counters \<open>u32\<close>: both are natural numbers
  with the wrap-around of a release build written out (\<open>add128\<close>, \<open>sub32\<close> and so on); bytes, hashes,
  addresses and \<open>U256\<close> amounts of the cross-chain part are machine words. Code outside the
  repository is a field of a configuration record (currency, fixed-point arithmetic, keccak, the ABI
  codec, signatures, the EVM), and what the code relies on is a named hypothesis: \<open>balances_laws\<close>,
  \<open>perbill_laws\<close>, \<open>codec_shapes\<close>.

  \<^bold>\<open>Theories, in the order of the code.\<close>
  \<^item> \<open>Prelude\<close>, \<open>Round_Cache\<close>, \<open>Binary_Search\<close>: arithmetic, outcomes, association lists, bounded vectors;
    the locale of caches keyed by round; Rust's binary search.
  \<^item> \<open>Staking_Types\<close>, \<open>Staking_State\<close>: the data, errors, events, configuration and storage of
    \<open>bfc-staking\<close> (\<open>lib.rs\<close>, \<open>pallet/mod.rs\<close>). \<open>Nominations_List\<close>, \<open>Candidate\<close>, \<open>Nominator\<close>: the
    methods of \<open>Nominations\<close>, \<open>CandidateMetadata\<close> and \<open>Nominator\<close>. \<open>Inflation\<close>: \<open>inflation.rs\<close>.
    \<open>Staking_Impl\<close>: \<open>pallet/impls.rs\<close>. \<open>Staking_Calls\<close>: the 34 calls, hooks and genesis.
  \<^item> \<open>Candidate_Wf\<close>: the two nomination lists of a candidate, how each operation changes the multiset of
    bonds. \<open>Staking_Inv\<close>: the invariant of the pallet. \<open>Staking_Keep\<close>, \<open>Nominator_Keep\<close>, \<open>Hooks_Keep\<close>,
    \<open>Round_Keep\<close>: every operation keeps it. \<open>Staking_Run\<close>: reachable states.
  \<^item> \<open>Relay_Manager\<close>, \<open>Relay_Wf\<close>, \<open>Relay_Run\<close>: the relay manager, its invariant, its runs.
    \<open>Offences\<close>: the offences pallet and its invariant.
  \<^item> \<open>Runtime\<close>: the interfaces between the pallets as locales (\<open>relay_contract\<close>, \<open>offence_contract\<close>),
    interpreted by the models of the relay manager and the offences pallet, and the staking
    configuration wired to them. \<open>Sample_Runtime\<close>: an instance small enough to evaluate.
  \<^item> \<open>Cccp\<close>: \<open>primitives/cccp\<close>. \<open>Relay_Queue\<close>: \<open>pallets/cccp-relay-queue\<close>. \<open>Relay_Queue_Inv\<close>,
    \<open>Relay_Queue_Keep\<close>, \<open>Relay_Queue_Run\<close>: its invariant, that every operation keeps it, its runs and the
    abstract stages of a transfer. \<open>Queue_Sample\<close>: a concrete codec and a run.
  \<^item> \<open>*_Properties\<close>: the theorems below, each with a witness on a concrete state.

  \<^bold>\<open>What is proved.\<close>
  \<^item> \<open>Staking_Properties\<close>: in every reachable state of the wired runtime reserved balances cover what an
    account has bonded and nominated, the records of candidates, nominators and the pool agree, and
    nomination lists are sorted, separated, bounded and summarised correctly.
  \<^item> \<open>Candidate_Properties\<close>: insertion by binary search is insertion by a linear scan; adding, removing,
    raising and lowering a nomination refine the same change of a multiset of bonds.
  \<^item> \<open>Round_Properties\<close>, \<open>Reward_Properties\<close>, \<open>Call_Properties\<close>: the validators of a round are those with
    the most voting power; requests can be cancelled without trace; caches are bounded; a payout mints at
    most its part of the round reward; wrong origins change nothing; majorities after a kick-out, and the
    places where the code keeps a stale majority, a stale total, or ends a round's payouts early.
  \<^item> \<open>Relay_Properties\<close>: no panic in any run, relayers and controllers paired one-to-one, selection,
    kick-out, heartbeats, replacement, intersecting quorums. \<open>Offence_Properties\<close>: slashes are bounded,
    the threshold of offences is exact, expiry forgets exactly the old records.
  \<^item> \<open>Queue_Properties\<close>: transfers only move from unseen to on flight to finalized, with a quorum of distinct
    voters, and finalized records are permanent; the cap in use of an asset is the sum of its on-flight
    Fast transfers; pending transfers are counted and bounded; what a poll does; finalization is never
    blocked by the cap; no panic; messages survive encoding.

  \<^bold>\<open>Bounds and hypotheses.\<close> Every loop of the modelled code runs over a finite collection and is a
  structural recursion or a fold, so no fuel is used; the binary search has a termination proof.
  Runs are sequences of calls, hooks and session changes from genesis, with arbitrary arguments and
  callers, and moves of the rest of the runtime that take nothing from a reserved balance
  (\<open>staking_guard\<close>). Runs of the relay queue assume that the messages that occur have distinct keccak hashes
  (\<open>inj_on\<close> on the set of those messages) and that a relayer moves to an account without a vote of its
  own in the queue; \<open>replaced_vote_counts_twice\<close> shows what happens otherwise.

  \<^bold>\<open>Not modelled.\<close> Weights, benchmarks, mocks, tests, storage migrations and the node binaries; the
  runtimes, which compose the pallets by macros; the precompiles, which translate EVM calls into the
  calls modelled here; the Bitcoin relay pallets, the oracle registry, the utility pallet and the EVM
  payment pallet.
\<close>

end
